(* ===== verification/Prelude.thy ===== *)
theory Prelude
  imports Main "HOL-Library.Word" "HOL-Library.Multiset" "HOL-Library.Sublist"
begin

text \<open>
  Shared vocabulary of the development: Go's signed 64-bit integers as \<^typ>\<open>int\<close> with the
  wrap-around written out, error results as sums, the slice operation \<open>RemoveIf\<close> with a
  stateful closure, and the generic list, multiset and arithmetic lemmas the component
  theories use. The collections \<open>i64_simps\<close>, \<open>batch_simps\<close> and \<open>conserve\<close> are filled
  here and by the component theories.
\<close>

named_theorems i64_simps \<open>evaluation and range facts for wrapped 64-bit arithmetic\<close>
named_theorems batch_simps \<open>unfolding equations of the batching components\<close>
named_theorems conserve \<open>facts saying that an operation neither loses nor invents data\<close>

section \<open>Signed 64-bit integers\<close>

definition max_i64 :: int where
  "max_i64 = 9223372036854775807"

definition min_i64 :: int where
  "min_i64 = - 9223372036854775808"

definition in_i64 :: "int \<Rightarrow> bool" where
  "in_i64 x \<longleftrightarrow> min_i64 \<le> x \<and> x \<le> max_i64"

definition wrap64 :: "int \<Rightarrow> int" where
  "wrap64 x = signed_take_bit 63 x"

abbreviation add64 :: "int \<Rightarrow> int \<Rightarrow> int" where
  "add64 a b \<equiv> wrap64 (a + b)"

abbreviation sub64 :: "int \<Rightarrow> int \<Rightarrow> int" where
  "sub64 a b \<equiv> wrap64 (a - b)"

lemma wrap64_id [simp, i64_simps]: "in_i64 x \<Longrightarrow> wrap64 x = x"
  unfolding wrap64_def in_i64_def min_i64_def max_i64_def
  by (rule signed_take_bit_int_eq_self) auto

lemma wrap64_in_range [simp, i64_simps]: "in_i64 (wrap64 x)"
proof -
  have "- (2 ^ 63) \<le> wrap64 x" and "wrap64 x < 2 ^ 63"
    unfolding wrap64_def
    by (rule signed_take_bit_int_greater_eq_minus_exp, rule signed_take_bit_int_less_exp)
  then show ?thesis by (simp add: in_i64_def min_i64_def max_i64_def)
qed

lemma in_i64_between: "in_i64 a \<Longrightarrow> in_i64 b \<Longrightarrow> a \<le> x \<Longrightarrow> x \<le> b \<Longrightarrow> in_i64 x"
  by (auto simp: in_i64_def)

lemma in_i64_0 [simp, i64_simps]: "in_i64 0"
  by (simp add: in_i64_def min_i64_def max_i64_def)

lemma in_i64_nonneg: "0 \<le> x \<Longrightarrow> x \<le> max_i64 \<Longrightarrow> in_i64 x"
  by (simp add: in_i64_def min_i64_def)

lemma wrap64_numerals [simp]:
  "wrap64 0 = 0" "wrap64 1 = 1"
  by (simp_all add: wrap64_def)

section \<open>Error results\<close>

fun is_ok :: "'e + 'a \<Rightarrow> bool" where
  "is_ok (Inl _) = False"
| "is_ok (Inr _) = True"

lemma is_ok_conv: "is_ok r \<longleftrightarrow> (\<exists>a. r = Inr a)"
  by (cases r) auto

section \<open>Slices\<close>

text \<open>
  \<open>RemoveIf\<close> of the generated pdata slices (for example
  pdata/plog/generated\_resourcelogsslice.go): the closure is called on every element in order,
  may change the element in place and its captured variables, and its result says whether the
  element is dropped from the slice.
\<close>

fun remove_if :: "('s \<Rightarrow> 'a \<Rightarrow> 's \<times> 'a \<times> bool) \<Rightarrow> 's \<Rightarrow> 'a list \<Rightarrow> 's \<times> 'a list" where
  "remove_if f s [] = (s, [])"
| "remove_if f s (x # xs) =
     (case f s x of (s', x', rm) \<Rightarrow>
        (case remove_if f s' xs of (s'', ys) \<Rightarrow> (s'', if rm then ys else x' # ys)))"

lemma remove_if_invariant:
  assumes "I s []"
    and "\<And>s x ys s' x' rm. I s ys \<Longrightarrow> f s x = (s', x', rm) \<Longrightarrow> I s' (if rm then ys else ys @ [x'])"
  shows "remove_if f s xs = (s', zs) \<Longrightarrow> I s' zs"
proof -
  have "I s ys \<Longrightarrow> remove_if f s xs = (s', zs) \<Longrightarrow> I s' (ys @ zs)" for s ys s' zs
  proof (induction xs arbitrary: s ys s' zs)
    case Nil
    then show ?case by simp
  next
    case (Cons x xs)
    obtain s1 x1 rm where f: "f s x = (s1, x1, rm)" by (metis prod_cases3)
    obtain s2 ws where r: "remove_if f s1 xs = (s2, ws)" by force
    have "I s1 (if rm then ys else ys @ [x1])" using assms(2) Cons.prems(1) f by blast
    from Cons.IH [OF this r] have "I s2 ((if rm then ys else ys @ [x1]) @ ws)" .
    with Cons.prems(2) f r show ?case by (auto split: if_splits)
  qed
  from this [of s "[]"] assms(1) show "remove_if f s xs = (s', zs) \<Longrightarrow> I s' zs" by simp
qed

section \<open>Lists and sums\<close>

lemma sum_list_nonneg_int: "(\<And>x. x \<in> set xs \<Longrightarrow> 0 \<le> f x) \<Longrightarrow> 0 \<le> (\<Sum>x\<leftarrow>xs. f x :: int)"
  by (induction xs) auto

lemma int_sum_list: "int (\<Sum>x\<leftarrow>xs. f x) = (\<Sum>x\<leftarrow>xs. int (f x))"
  by (induction xs) auto

lemma last_snoc_butlast: "xs \<noteq> [] \<Longrightarrow> butlast xs @ [last xs] = xs"
  by simp

lemma list_all_append_iff: "list_all P (xs @ ys) \<longleftrightarrow> list_all P xs \<and> list_all P ys"
  by simp

lemma mset_swap_remove:
  assumes "i < length xs"
  shows "mset (butlast (xs[i := last xs])) = mset xs - {#xs ! i#}"
proof (cases "i = length xs - 1")
  case True
  with assms have "xs \<noteq> []" by auto
  with True have "xs[i := last xs] = xs" by (metis last_conv_nth list_update_id)
  moreover have "mset (butlast xs) = mset xs - {#last xs#}"
    using \<open>xs \<noteq> []\<close> by (metis add_mset_remove_trivial append_butlast_last_id mset.simps(2)
        mset_rev rev_append rev.simps append_Nil)
  ultimately show ?thesis using True \<open>xs \<noteq> []\<close> by (simp add: last_conv_nth)
next
  case False
  with assms have lt: "i < length (butlast xs)" and ne: "xs \<noteq> []" by auto
  then have split: "xs = butlast xs @ [last xs]" by simp
  have "xs[i := last xs] = (butlast xs)[i := last xs] @ [last xs]"
    using lt split by (metis list_update_append1)
  then have "mset (butlast (xs[i := last xs])) = mset ((butlast xs)[i := last xs])" by simp
  also have "\<dots> = add_mset (last xs) (mset (butlast xs) - {#butlast xs ! i#})"
    using lt by (simp add: mset_update)
  also have "\<dots> = mset xs - {#xs ! i#}"
  proof -
    have nth: "butlast xs ! i = xs ! i" using lt by (simp add: nth_butlast)
    have mem: "xs ! i \<in># mset (butlast xs)" using lt nth by (metis nth_mem set_mset_mset)
    have "mset xs = add_mset (last xs) (mset (butlast xs))"
      by (subst split) simp
    with mem nth show ?thesis by simp
  qed
  finally show ?thesis .
qed

end
