(* ===== verification/Wire.thy ===== *)
theory Wire
  imports Prelude
begin

text \<open>
  The protobuf wire primitives of pdata/internal/proto (size.go, marshal.go, unmarshal.go): the
  size of a varint, writing a varint backwards into a buffer, and the position-passing readers
  every generated \<open>UnmarshalProto\<close> is built from. Bytes are \<^typ>\<open>8 word\<close>, \<open>uint64\<close> values
  \<^typ>\<open>64 word\<close>; positions are Go \<open>int\<close>s, so \<^typ>\<open>int\<close> with \<^const>\<open>wrap64\<close>. A read or
  write outside the buffer, a panic in Go, is the error \<open>IndexPanic\<close>.
\<close>

unbundle bit_operations_syntax

type_synonym byte = "8 word"
type_synonym u64 = "64 word"

datatype wire_error =
    ErrInvalidLength | ErrIntOverflow | ErrUnexpectedEndOfGroup | ErrUnexpectedEOF
  | ErrIllegalWireType int | ErrIllegalField | IndexPanic

section \<open>Sizes\<close>

fun bit_len :: "nat \<Rightarrow> nat" where
  "bit_len n = (if n = 0 then 0 else Suc (bit_len (n div 2)))"

declare bit_len.simps [simp del]

definition Len64 :: "u64 \<Rightarrow> nat" where
  "Len64 x = bit_len (unat x)"

definition Sov :: "u64 \<Rightarrow> nat" where
  "Sov x = (Len64 (x OR 1) + 6) div 7"

definition Soz :: "u64 \<Rightarrow> nat" where
  "Soz x = Sov (push_bit 1 x XOR signed_drop_bit 63 x)"

section \<open>Writing a varint\<close>

definition buf_set :: "byte list \<Rightarrow> int \<Rightarrow> byte \<Rightarrow> wire_error + byte list" where
  "buf_set buf i b = (if 0 \<le> i \<and> i < int (length buf) then Inr (buf[nat i := b]) else Inl IndexPanic)"

lemma drop_bit_7_smaller: "128 \<le> (v :: u64) \<Longrightarrow> unat (drop_bit 7 v) < unat v"
  unfolding unat_drop_bit_eq word_le_nat_alt by (simp add: drop_bit_eq_div)

function encode_loop :: "byte list \<Rightarrow> int \<Rightarrow> u64 \<Rightarrow> wire_error + byte list" where
  "encode_loop buf offset v =
     (if 128 \<le> v
      then case buf_set buf offset (ucast ((v AND 0x7f) OR 0x80)) of
             Inl e \<Rightarrow> Inl e
           | Inr buf' \<Rightarrow> encode_loop buf' (offset + 1) (drop_bit 7 v)
      else buf_set buf offset (ucast v))"
  by pat_completeness auto

termination
  by (relation "measure (\<lambda>(buf, offset, v). unat v)") (auto simp: drop_bit_7_smaller)

declare encode_loop.simps [simp del]

definition EncodeVarint :: "byte list \<Rightarrow> int \<Rightarrow> u64 \<Rightarrow> wire_error + byte list \<times> int" where
  "EncodeVarint buf offset v =
     (let base = offset - int (Sov v)
      in case encode_loop buf base v of Inl e \<Rightarrow> Inl e | Inr buf' \<Rightarrow> Inr (buf', base))"

section \<open>Reading\<close>

definition buf_get :: "byte list \<Rightarrow> int \<Rightarrow> wire_error + byte" where
  "buf_get buf i = (if 0 \<le> i \<and> i < int (length buf) then Inr (buf ! nat i) else Inl IndexPanic)"

function consume_varint_loop :: "byte list \<Rightarrow> int \<Rightarrow> u64 \<Rightarrow> nat \<Rightarrow> wire_error + u64 \<times> int" where
  "consume_varint_loop buf pos num shift =
     (if 64 \<le> shift then Inl ErrIntOverflow
      else if int (length buf) \<le> pos then Inl ErrUnexpectedEOF
      else case buf_get buf pos of
             Inl e \<Rightarrow> Inl e
           | Inr b \<Rightarrow>
               (let num' = num OR push_bit shift (ucast (b AND 0x7F))
                in if b < 0x80 then Inr (num', pos + 1)
                   else consume_varint_loop buf (pos + 1) num' (shift + 7)))"
  by pat_completeness auto
termination
  by (relation "measure (\<lambda>(buf, pos, num, shift). 64 - shift)") auto

declare consume_varint_loop.simps [simp del]

definition ConsumeVarint :: "byte list \<Rightarrow> int \<Rightarrow> wire_error + u64 \<times> int" where
  "ConsumeVarint buf pos = consume_varint_loop buf pos 0 0"

definition le_word :: "byte list \<Rightarrow> u64" where
  "le_word bs = foldr (\<lambda>b acc. ucast b OR push_bit 8 acc) bs 0"

definition ConsumeI64 :: "byte list \<Rightarrow> int \<Rightarrow> wire_error + u64 \<times> int" where
  "ConsumeI64 buf pos =
     (let pos' = add64 pos 8
      in if pos' < 0 \<or> int (length buf) < pos' then Inl ErrUnexpectedEOF
         else if pos' < 8 then Inl IndexPanic
         else Inr (le_word (take 8 (drop (nat (pos' - 8)) buf)), pos'))"

definition ConsumeI32 :: "byte list \<Rightarrow> int \<Rightarrow> wire_error + 32 word \<times> int" where
  "ConsumeI32 buf pos =
     (let pos' = add64 pos 4
      in if pos' < 0 \<or> int (length buf) < pos' then Inl ErrUnexpectedEOF
         else if pos' < 4 then Inl IndexPanic
         else Inr (ucast (le_word (take 4 (drop (nat (pos' - 4)) buf))), pos'))"

definition ConsumeLen :: "byte list \<Rightarrow> int \<Rightarrow> wire_error + int \<times> int" where
  "ConsumeLen buf pos =
     (case ConsumeVarint buf pos of
        Inl e \<Rightarrow> Inl e
      | Inr (num, pos1) \<Rightarrow>
          (let len = sint num
           in if len < 0 then Inl ErrInvalidLength
              else let pos2 = add64 pos1 len
                   in if pos2 < 0 \<or> int (length buf) < pos2 then Inl ErrUnexpectedEOF
                      else Inr (len, pos2)))"

definition ConsumeTag :: "byte list \<Rightarrow> int \<Rightarrow> wire_error + int \<times> int \<times> int" where
  "ConsumeTag buf pos =
     (case ConsumeVarint buf pos of
        Inl e \<Rightarrow> Inl e
      | Inr (tag, pos1) \<Rightarrow>
          (let fieldNum = sint (ucast (drop_bit 3 tag) :: 32 word);
               wireType = uint (tag AND 0x7)
           in if fieldNum \<le> 0 then Inl ErrIllegalField else Inr (fieldNum, wireType, pos1)))"

text \<open>
  \<open>ConsumeUnknown\<close>. Every pass of the group loop that goes on has read at least one tag byte,
  so the distance to the end of the buffer bounds the number of passes; the loop is given that
  many units of fuel by \<open>ConsumeUnknown\<close> and \<open>consume_unknown_enough\<close> below shows that it never
  runs out (running out is the value \<open>None\<close>).
\<close>

fun consume_unknown_loop ::
  "nat \<Rightarrow> byte list \<Rightarrow> int \<Rightarrow> int \<Rightarrow> nat \<Rightarrow> (wire_error + int) option" where
  "consume_unknown_loop 0 buf pos wt depth = None"
| "consume_unknown_loop (Suc fuel) buf pos wt depth =
     (if int (length buf) \<le> pos then Some (Inl ErrUnexpectedEOF)
      else if wt = 0 then Some (map_sum id snd (ConsumeVarint buf pos))
      else if wt = 1 then Some (map_sum id snd (ConsumeI64 buf pos))
      else if wt = 2 then Some (map_sum id snd (ConsumeLen buf pos))
      else if wt = 5 then Some (map_sum id snd (ConsumeI32 buf pos))
      else if wt = 4 \<and> depth = 0 then Some (Inl ErrUnexpectedEndOfGroup)
      else if wt \<noteq> 3 \<and> wt \<noteq> 4 then Some (Inl (ErrIllegalWireType wt))
      else let depth' = (if wt = 3 then depth + 1 else depth - 1)
           in if depth' = 0 then Some (Inr pos)
              else case ConsumeTag buf pos of
                     Inl e \<Rightarrow> Some (Inl e)
                   | Inr (_, wt', pos') \<Rightarrow> consume_unknown_loop fuel buf pos' wt' depth')"

definition ConsumeUnknown :: "byte list \<Rightarrow> int \<Rightarrow> int \<Rightarrow> (wire_error + int) option" where
  "ConsumeUnknown buf pos wt = consume_unknown_loop (Suc (nat (int (length buf) - pos))) buf pos wt 0"

section \<open>The bytes of a varint\<close>

function varint_bytes :: "u64 \<Rightarrow> byte list" where
  "varint_bytes v =
     (if 128 \<le> v then ucast ((v AND 0x7f) OR 0x80) # varint_bytes (drop_bit 7 v) else [ucast v])"
  by pat_completeness auto
termination
  by (relation "measure unat") (auto simp: drop_bit_7_smaller)

declare varint_bytes.simps [simp del]

fun groups7 :: "nat \<Rightarrow> nat" where
  "groups7 n = (if n < 128 then 1 else Suc (groups7 (n div 128)))"

declare groups7.simps [simp del]

lemma bit_len_0 [simp]: "bit_len 0 = 0"
  by (simp add: bit_len.simps)

lemma bit_len_pos: "0 < n \<Longrightarrow> bit_len n = Suc (bit_len (n div 2))"
  by (simp add: bit_len.simps [of n])

lemma bit_len_div: "2 ^ k \<le> n \<Longrightarrow> bit_len n = k + bit_len (n div 2 ^ k)"
proof (induction k arbitrary: n)
  case 0
  then show ?case by simp
next
  case (Suc k)
  then have "0 < n" by (metis gr0I le_zero_eq power_not_zero zero_neq_numeral)
  moreover have "2 ^ k \<le> n div 2" using Suc.prems by (simp add: less_eq_div_iff_mult_less_eq mult.commute)
  ultimately show ?case
    using Suc.IH [of "n div 2"] by (simp add: bit_len_pos div_mult2_eq mult.commute)
qed

lemma bit_len_le: "n < 2 ^ k \<Longrightarrow> bit_len n \<le> k"
proof (induction k arbitrary: n)
  case (Suc k)
  show ?case
  proof (cases "n = 0")
    case False
    then have "bit_len n = Suc (bit_len (n div 2))" by (simp add: bit_len_pos)
    moreover have "n div 2 < 2 ^ k" using Suc.prems by (simp add: less_mult_imp_div_less mult.commute)
    ultimately show ?thesis using Suc.IH by simp
  qed simp
qed simp

lemma bit_len_mono: "m \<le> n \<Longrightarrow> bit_len m \<le> bit_len n"
proof (induction n arbitrary: m rule: less_induct)
  case (less n)
  show ?case
  proof (cases "m = 0")
    case False
    with less.prems have "bit_len m = Suc (bit_len (m div 2))" "bit_len n = Suc (bit_len (n div 2))"
      by (simp_all add: bit_len_pos)
    moreover have "m div 2 \<le> n div 2" using less.prems by (rule div_le_mono)
    moreover have "n div 2 < n" using False less.prems by simp
    ultimately show ?thesis using less.IH by simp
  qed simp
qed

lemma Sov_groups7_nat: "(bit_len (max 1 n) + 6) div 7 = groups7 n"
proof (induction n rule: groups7.induct)
  case (1 n)
  show ?case
  proof (cases "n < 128")
    case True
    then have "bit_len (max 1 n) \<le> 7" by (intro bit_len_le) simp
    moreover have "1 \<le> bit_len (max 1 n)" by (simp add: bit_len.simps)
    ultimately have "(bit_len (max 1 n) + 6) div 7 = 1" by presburger
    with True show ?thesis by (simp add: groups7.simps)
  next
    case False
    then have "bit_len n = 7 + bit_len (n div 128)" using bit_len_div [of 7 n] by simp
    moreover have "max 1 n = n" "max 1 (n div 128) = n div 128" using False by auto
    ultimately have "(bit_len (max 1 n) + 6) div 7 = Suc ((bit_len (max 1 (n div 128)) + 6) div 7)" by simp
    with False 1 show ?thesis by (simp add: groups7.simps [of n])
  qed
qed

lemma Sov_groups7: "Sov v = groups7 (unat v)"
proof -
  have "bit_len (unat (v OR 1)) = bit_len (max 1 (unat v))"
  proof (cases "v = 0")
    case False
    then have "0 < unat v" by (simp add: unat_gt_0)
    moreover have "unat (v OR 1) div 2 = unat v div 2"
    proof -
      have "drop_bit 1 (v OR 1) = drop_bit 1 v"
        by (rule bit_word_eqI) (simp add: bit_simps)
      then have "drop_bit 1 (unat (v OR 1)) = drop_bit 1 (unat v)"
        by (metis unat_drop_bit_eq)
      then show ?thesis by (simp add: drop_bit_eq_div)
    qed
    moreover have "0 < unat (v OR 1)"
    proof -
      have "bit (v OR 1) 0" by (simp add: bit_or_iff bit_1_iff)
      then have "v OR 1 \<noteq> 0" by auto
      then show ?thesis by (simp add: unat_gt_0)
    qed
    ultimately show ?thesis by (simp add: bit_len_pos max_def)
  qed simp
  then show ?thesis using Sov_groups7_nat [of "unat v"] by (simp add: Sov_def Len64_def)
qed

lemma length_varint_bytes: "length (varint_bytes v) = Sov v"
proof (induction v rule: varint_bytes.induct)
  case (1 v)
  show ?case
  proof (cases "128 \<le> v")
    case True
    then have "\<not> unat v < 128" by (simp add: word_le_nat_alt)
    then have "groups7 (unat v) = Suc (groups7 (unat (drop_bit 7 v)))"
      by (simp add: groups7.simps [of "unat v"] unat_drop_bit_eq) (simp add: drop_bit_eq_div)
    with True 1 show ?thesis by (simp add: varint_bytes.simps [of v] Sov_groups7)
  next
    case False
    then have "unat v < 128" by (simp add: word_le_nat_alt)
    with False show ?thesis by (simp add: varint_bytes.simps [of v] Sov_groups7 groups7.simps)
  qed
qed

lemma Sov_pos: "1 \<le> Sov v"
  by (simp add: Sov_groups7 groups7.simps)

lemma groups7_le: "n < 128 ^ Suc k \<Longrightarrow> groups7 n \<le> Suc k"
proof (induction k arbitrary: n)
  case (Suc k)
  show ?case
  proof (cases "n < 128")
    case False
    have "n div 128 < 128 ^ Suc k" using Suc.prems by (simp add: less_mult_imp_div_less mult.commute)
    then show ?thesis using Suc.IH [of "n div 128"] False by (simp add: groups7.simps [of n])
  qed (simp add: groups7.simps)
qed (simp add: groups7.simps)

section \<open>Writing puts down the varint's bytes\<close>

lemma encode_loop_writes:
  assumes "0 \<le> off" and "nat off + Sov v \<le> length buf"
  shows "encode_loop buf off v =
    Inr (take (nat off) buf @ varint_bytes v @ drop (nat off + Sov v) buf)"
  using assms
proof (induction buf off v rule: encode_loop.induct)
  case (1 buf off v)
  show ?case
  proof (cases "128 \<le> v")
    case True
    let ?b = "ucast ((v AND 0x7f) OR 0x80) :: byte"
    have vb: "varint_bytes v = ?b # varint_bytes (drop_bit 7 v)"
      using True by (simp add: varint_bytes.simps [of v])
    then have sov: "Sov v = Suc (Sov (drop_bit 7 v))"
      by (metis length_Cons length_varint_bytes)
    have lt: "nat off < length buf" using "1.prems" sov by simp
    then have set: "buf_set buf off ?b = Inr (buf[nat off := ?b])"
      using "1.prems"(1) by (simp add: buf_set_def nat_less_iff)
    have nat: "nat (off + 1) = Suc (nat off)" using "1.prems"(1) by simp
    have "encode_loop (buf[nat off := ?b]) (off + 1) (drop_bit 7 v) =
        Inr (take (Suc (nat off)) (buf[nat off := ?b]) @ varint_bytes (drop_bit 7 v) @
             drop (Suc (nat off) + Sov (drop_bit 7 v)) (buf[nat off := ?b]))"
      using "1.IH" [OF True set] "1.prems" sov nat by simp
    moreover have "take (Suc (nat off)) (buf[nat off := ?b]) = take (nat off) buf @ [?b]"
      using lt by (simp add: take_Suc_conv_app_nth)
    ultimately show ?thesis
      using True set by (subst encode_loop.simps) (simp add: vb sov)
  next
    case False
    then have vb: "varint_bytes v = [ucast v]" by (simp add: varint_bytes.simps [of v])
    then have sov: "Sov v = 1" by (metis length_varint_bytes length_Cons list.size(3) One_nat_def)
    with "1.prems" have lt: "nat off < length buf" by simp
    then have "buf_set buf off (ucast v) = Inr (buf[nat off := ucast v])"
      using "1.prems"(1) by (simp add: buf_set_def nat_less_iff)
    with False lt show ?thesis
      by (subst encode_loop.simps) (simp add: vb sov upd_conv_take_nth_drop)
  qed
qed

lemma EncodeVarint_writes:
  assumes "int (Sov v) \<le> off" and "off \<le> int (length buf)"
  shows "EncodeVarint buf off v =
    Inr (take (nat (off - int (Sov v))) buf @ varint_bytes v @ drop (nat off) buf,
         off - int (Sov v))"
proof -
  have eq: "nat (off - int (Sov v)) + Sov v = nat off" using assms by simp
  then show ?thesis
    using assms encode_loop_writes [of "off - int (Sov v)" v buf]
    by (simp add: EncodeVarint_def Let_def)
qed

section \<open>Reading recovers the value\<close>

lemma varint_step_bits:
  "take_bit s v OR push_bit s (take_bit 7 (drop_bit s v)) = take_bit (s + 7) (v :: u64)"
  by (rule bit_word_eqI) (auto simp: bit_simps)

lemma and_0x7f: "w AND 0x7f = take_bit 7 w" for w :: u64
  by (simp add: take_bit_eq_mask mask_eq_exp_minus_1)

lemma and_0x7F_byte: "b AND 0x7F = take_bit 7 b" for b :: byte
  by (simp add: take_bit_eq_mask mask_eq_exp_minus_1)

lemma or_0x80: "w OR 0x80 = Bit_Operations.set_bit 7 w" for w :: u64
  by (simp add: set_bit_eq_or)

lemma low7_of_cont: "(ucast ((ucast ((w AND 0x7f) OR 0x80) :: byte) AND 0x7F) :: u64) = take_bit 7 w"
  for w :: u64
  unfolding and_0x7f and_0x7F_byte or_0x80
  by (rule bit_word_eqI) (auto simp: bit_simps)

lemma low7_of_last: "(ucast ((ucast w :: byte) AND 0x7F) :: u64) = take_bit 7 w" for w :: u64
  unfolding and_0x7F_byte
  by (rule bit_word_eqI) (auto simp: bit_simps)

lemma cont_bit_set: "\<not> (ucast ((w AND 0x7f) OR 0x80) :: byte) < 0x80" for w :: u64
proof -
  let ?b = "ucast ((w AND 0x7f) OR 0x80) :: byte"
  have "bit ?b 7" unfolding and_0x7f or_0x80 by (simp add: bit_simps)
  then have "bit (unat ?b) 7" by (simp add: bit_unsigned_iff)
  then have "128 \<le> unat ?b" by (auto simp: bit_iff_odd intro: ccontr)
  then show ?thesis by (simp add: word_less_nat_alt not_less)
qed

lemma last_bit_clear: "w < 128 \<Longrightarrow> (ucast w :: byte) < 0x80" for w :: u64
  by (simp add: word_less_nat_alt unsigned_ucast_eq take_bit_nat_eq_self)

lemma drop_bit_ge_128: "128 \<le> drop_bit s (v :: u64) \<Longrightarrow> s + 7 < 64"
proof -
  assume "128 \<le> drop_bit s v"
  then have "128 \<le> unat v div 2 ^ s"
    by (simp add: word_le_nat_alt unat_drop_bit_eq) (simp add: drop_bit_eq_div)
  then have "2 ^ (s + 7) \<le> unat v"
    by (simp add: power_add less_eq_div_iff_mult_less_eq mult.commute)
  also have "unat v < 2 ^ 64" using unsigned_less [of v, where ?'a = nat] by simp
  finally have "(2::nat) ^ (s + 7) < 2 ^ 64" .
  then show ?thesis by (rule power_less_imp_less_exp [rotated]) simp
qed

lemma take_bit_all_read: "drop_bit s (v :: u64) < 128 \<Longrightarrow> take_bit (s + 7) v = v"
proof -
  assume "drop_bit s v < 128"
  then have "unat v div 2 ^ s < 128"
    by (simp add: word_less_nat_alt unat_drop_bit_eq) (simp add: drop_bit_eq_div)
  then have "unat v < 2 ^ (s + 7)"
    by (simp add: power_add div_less_iff_less_mult mult.commute)
  then have "take_bit (s + 7) (unat v) = unat v" by (rule take_bit_nat_eq_self)
  then have "unat (take_bit (s + 7) v) = unat v" by (simp add: unsigned_take_bit_eq)
  then show ?thesis by (rule unsigned_word_eqI)
qed

lemma consume_loop_reads:
  assumes "0 \<le> pos" and "s < 64" and "w = drop_bit s v"
    and "take (Sov w) (drop (nat pos) buf) = varint_bytes w"
  shows "consume_varint_loop buf pos (take_bit s v) s = Inr (v, pos + int (Sov w))"
  using assms
proof (induction w arbitrary: pos s rule: varint_bytes.induct)
  case (1 w)
  let ?rest = "drop (nat pos) buf"
  have "varint_bytes w \<noteq> []" by (subst varint_bytes.simps) simp
  with "1.prems"(4) have ne: "?rest \<noteq> []" by auto
  then have lt: "nat pos < length buf" by simp
  then have len: "\<not> int (length buf) \<le> pos" and get: "buf_get buf pos = Inr (buf ! nat pos)"
    using "1.prems"(1) by (auto simp: buf_get_def nat_less_iff)
  have hd: "buf ! nat pos = hd (varint_bytes w)"
    using "1.prems"(4) lt Sov_pos [of w] by (metis hd_drop_conv_nth hd_take le_eq_less_or_eq zero_less_one less_le_trans)
  note bits = varint_step_bits [of s v] "1.prems"(3)
  show ?case
  proof (cases "128 \<le> w")
    case True
    let ?w' = "drop_bit 7 w"
    have vb: "varint_bytes w = ucast ((w AND 0x7f) OR 0x80) # varint_bytes ?w'"
      using True by (simp add: varint_bytes.simps [of w])
    then have sov: "Sov w = Suc (Sov ?w')" by (metis length_Cons length_varint_bytes)
    have s7: "s + 7 < 64" using drop_bit_ge_128 True "1.prems"(3) by blast
    have w': "?w' = drop_bit (s + 7) v" using "1.prems"(3) by (simp add: add.commute)
    have rest: "take (Sov ?w') (drop (nat (pos + 1)) buf) = varint_bytes ?w'"
    proof -
      have "nat (pos + 1) = Suc (nat pos)" using "1.prems"(1) by simp
      moreover have "?rest = buf ! nat pos # drop (Suc (nat pos)) buf"
        using lt by (simp add: Cons_nth_drop_Suc)
      ultimately show ?thesis using "1.prems"(4) vb sov by simp
    qed
    have b: "buf ! nat pos = ucast ((w AND 0x7f) OR 0x80)" using hd vb by simp
    have "consume_varint_loop buf (pos + 1) (take_bit (s + 7) v) (s + 7) =
        Inr (v, pos + 1 + int (Sov ?w'))"
      using "1.IH" [OF True] "1.prems"(1) s7 w' rest by simp
    moreover have "take_bit s v OR push_bit s (ucast ((buf ! nat pos) AND 0x7F)) = take_bit (s + 7) v"
      using bits by (simp only: b low7_of_cont)
    moreover have "\<not> buf ! nat pos < 0x80" by (simp only: b cont_bit_set not_False_eq_True)
    ultimately show ?thesis
      using "1.prems"(2) len get sov
      by (subst consume_varint_loop.simps) (simp add: Let_def)
  next
    case False
    then have vb: "varint_bytes w = [ucast w]" by (simp add: varint_bytes.simps [of w])
    then have sov: "Sov w = 1" by (metis length_varint_bytes length_Cons list.size(3) One_nat_def)
    have b: "buf ! nat pos = ucast w" using hd vb by simp
    have "take_bit s v OR push_bit s (ucast ((buf ! nat pos) AND 0x7F)) = v"
      using bits take_bit_all_read [of s v] False by (simp add: b low7_of_last not_le)
    moreover have "buf ! nat pos < 0x80" using False by (simp only: b) (simp add: last_bit_clear)
    ultimately show ?thesis
      using "1.prems"(2) len get sov
      by (subst consume_varint_loop.simps) (simp add: Let_def)
  qed
qed

lemma ConsumeVarint_reads:
  "0 \<le> pos \<Longrightarrow> take (Sov v) (drop (nat pos) buf) = varint_bytes v \<Longrightarrow>
   ConsumeVarint buf pos = Inr (v, pos + int (Sov v))"
  using consume_loop_reads [of pos 0 v v buf] by (simp add: ConsumeVarint_def)

section \<open>The reader contract\<close>

text \<open>
  What the generated unmarshalers rely on when they thread a position through the readers: a
  successful read moves the position forward and keeps it inside the buffer, and no read indexes
  outside the buffer. Slices are shorter than the largest \<open>int\<close>.
\<close>

definition valid_buf :: "byte list \<Rightarrow> bool" where
  "valid_buf buf \<longleftrightarrow> int (length buf) \<le> max_i64"

definition valid_pos :: "int \<Rightarrow> bool" where
  "valid_pos pos \<longleftrightarrow> 0 \<le> pos \<and> pos \<le> max_i64"

lemma valid_pos_le: "valid_buf buf \<Longrightarrow> 0 \<le> p \<Longrightarrow> p \<le> int (length buf) \<Longrightarrow> valid_pos p"
  by (simp add: valid_buf_def valid_pos_def)

locale wire_reader =
  fixes reader :: "byte list \<Rightarrow> int \<Rightarrow> wire_error + 'a \<times> int"
  assumes advances: "valid_buf buf \<Longrightarrow> valid_pos pos \<Longrightarrow> reader buf pos = Inr (x, p) \<Longrightarrow>
      pos < p \<and> p \<le> int (length buf)"
    and safe: "valid_buf buf \<Longrightarrow> valid_pos pos \<Longrightarrow> reader buf pos \<noteq> Inl IndexPanic"
begin

lemma skip_ok:
  assumes "valid_buf buf" and "valid_pos pos" and "map_sum id snd (reader buf pos) = Inr p"
  shows "pos < p \<and> p \<le> int (length buf)"
proof -
  from assms(3) obtain x where "reader buf pos = Inr (x, p)"
    by (cases "reader buf pos") auto
  with assms advances show ?thesis by blast
qed

lemma skip_safe:
  "valid_buf buf \<Longrightarrow> valid_pos pos \<Longrightarrow> map_sum id snd (reader buf pos) \<noteq> Inl IndexPanic"
  using safe [of buf pos] by (cases "reader buf pos") auto

end

lemma consume_varint_loop_bounds:
  "0 \<le> pos \<Longrightarrow> consume_varint_loop buf pos num shift = Inr (x, p) \<Longrightarrow>
   pos < p \<and> p \<le> int (length buf)"
proof (induction buf pos num shift rule: consume_varint_loop.induct)
  case (1 buf pos num shift)
  then have g: "\<not> 64 \<le> shift" "\<not> int (length buf) \<le> pos"
    by (auto simp: consume_varint_loop.simps [of buf pos] split: if_splits)
  then have b: "buf_get buf pos = Inr (buf ! nat pos)" using "1.prems" by (simp add: buf_get_def)
  show ?case
  proof (cases "buf ! nat pos < 0x80")
    case True
    with "1.prems" g b show ?thesis
      by (auto simp: consume_varint_loop.simps [of buf pos] Let_def)
  next
    case False
    with "1.prems" g b have "consume_varint_loop buf (pos + 1)
        (num OR push_bit shift (ucast (buf ! nat pos AND 0x7F))) (shift + 7) = Inr (x, p)"
      by (simp add: consume_varint_loop.simps [of buf pos] Let_def)
    from "1.IH" [OF g b refl False _ this] "1.prems"(1) show ?thesis by simp
  qed
qed

lemma consume_varint_loop_safe:
  "0 \<le> pos \<Longrightarrow> consume_varint_loop buf pos num shift \<noteq> Inl IndexPanic"
proof (induction buf pos num shift rule: consume_varint_loop.induct)
  case (1 buf pos num shift)
  show ?case
  proof (cases "64 \<le> shift \<or> int (length buf) \<le> pos")
    case True
    then show ?thesis by (subst consume_varint_loop.simps) auto
  next
    case False
    then have b: "buf_get buf pos = Inr (buf ! nat pos)" using "1.prems" by (simp add: buf_get_def)
    have "\<not> buf ! nat pos < 0x80 \<Longrightarrow> consume_varint_loop buf (pos + 1)
        (num OR push_bit shift (ucast (buf ! nat pos AND 0x7F))) (shift + 7) \<noteq> Inl IndexPanic"
      using "1.IH" [OF _ _ b refl] False "1.prems" by auto
    with False b show ?thesis by (subst consume_varint_loop.simps) (simp add: Let_def)
  qed
qed

interpretation varint_reader: wire_reader ConsumeVarint
  by unfold_locales
    (auto simp: ConsumeVarint_def valid_pos_def consume_varint_loop_safe
          dest: consume_varint_loop_bounds)

lemma add64_small:
  "valid_buf buf \<Longrightarrow> 0 \<le> a \<Longrightarrow> 0 \<le> b \<Longrightarrow> b \<le> max_i64 \<Longrightarrow> a \<le> max_i64 \<Longrightarrow>
   0 \<le> add64 a b \<Longrightarrow> add64 a b = a + b"
proof -
  assume h: "0 \<le> a" "0 \<le> b" "b \<le> max_i64" "a \<le> max_i64" "0 \<le> add64 a b"
  show ?thesis
  proof (cases "a + b \<le> max_i64")
    case True
    with h show ?thesis by (simp add: in_i64_nonneg)
  next
    case False
    define y where "y = a + b - 2 ^ 64"
    have "- (2 ^ 63) \<le> y" "y < 0" using False h by (simp_all add: y_def max_i64_def)
    then have "signed_take_bit 63 y = y" by (intro signed_take_bit_int_eq_self) auto
    moreover have "signed_take_bit 63 (a + b) = signed_take_bit 63 y"
      unfolding y_def by (rule signed_take_bit_eq_iff_take_bit_eq [THEN iffD2])
        (simp add: take_bit_eq_mod)
    ultimately have "add64 a b < 0" using \<open>y < 0\<close> by (simp add: wrap64_def)
    with h show ?thesis by simp
  qed
qed

lemma fixed_width_bounds:
  assumes "valid_buf buf" and "valid_pos pos" and "0 < k" and "k \<le> 8"
    and "\<not> (add64 pos k < 0 \<or> int (length buf) < add64 pos k)"
  shows "pos < add64 pos k" and "add64 pos k \<le> int (length buf)" and "\<not> add64 pos k < k"
proof -
  have "add64 pos k = pos + k"
    using assms by (intro add64_small [of buf]) (auto simp: valid_pos_def max_i64_def)
  with assms show "pos < add64 pos k" "add64 pos k \<le> int (length buf)" "\<not> add64 pos k < k"
    by (auto simp: valid_pos_def)
qed

interpretation i64_reader: wire_reader ConsumeI64
proof unfold_locales
  fix buf pos x p
  assume "valid_buf buf" "valid_pos pos" "ConsumeI64 buf pos = Inr (x, p)"
  then show "pos < p \<and> p \<le> int (length buf)"
    using fixed_width_bounds [of buf pos 8] by (auto simp: ConsumeI64_def Let_def split: if_splits)
next
  fix buf pos
  assume "valid_buf buf" "valid_pos pos"
  then show "ConsumeI64 buf pos \<noteq> Inl IndexPanic"
    using fixed_width_bounds(3) [of buf pos 8] by (simp add: ConsumeI64_def Let_def)
qed

interpretation i32_reader: wire_reader ConsumeI32
proof unfold_locales
  fix buf pos x p
  assume "valid_buf buf" "valid_pos pos" "ConsumeI32 buf pos = Inr (x, p)"
  then show "pos < p \<and> p \<le> int (length buf)"
    using fixed_width_bounds [of buf pos 4] by (auto simp: ConsumeI32_def Let_def split: if_splits)
next
  fix buf pos
  assume "valid_buf buf" "valid_pos pos"
  then show "ConsumeI32 buf pos \<noteq> Inl IndexPanic"
    using fixed_width_bounds(3) [of buf pos 4] by (simp add: ConsumeI32_def Let_def)
qed

lemma sint_u64_le_max: "sint (w :: u64) \<le> max_i64"
  using sint_less [of w] by (simp add: max_i64_def)

interpretation len_reader: wire_reader ConsumeLen
proof unfold_locales
  fix buf pos x p
  assume h: "valid_buf buf" "valid_pos pos" "ConsumeLen buf pos = Inr (x, p)"
  then obtain num p1 where v: "ConsumeVarint buf pos = Inr (num, p1)"
    by (cases "ConsumeVarint buf pos") (auto simp: ConsumeLen_def)
  then have p1: "pos < p1" "p1 \<le> int (length buf)"
    using varint_reader.advances h by blast+
  from h v have "0 \<le> sint num" "p = add64 p1 (sint num)" "0 \<le> p" "p \<le> int (length buf)"
    by (auto simp: ConsumeLen_def Let_def split: if_splits)
  moreover have "p = p1 + sint num"
    using calculation h(1,2) p1 sint_u64_le_max [of num]
    by (subst calculation(2)) (rule add64_small [of buf], auto simp: valid_buf_def valid_pos_def)
  ultimately show "pos < p \<and> p \<le> int (length buf)" using p1 by simp
next
  fix buf pos
  assume "valid_buf buf" "valid_pos pos"
  then have "ConsumeVarint buf pos \<noteq> Inl IndexPanic" by (rule varint_reader.safe)
  then show "ConsumeLen buf pos \<noteq> Inl IndexPanic"
    by (auto simp: ConsumeLen_def Let_def split: sum.splits)
qed

interpretation tag_reader: wire_reader "\<lambda>buf pos. map_sum id (\<lambda>(f, w, p). ((f, w), p)) (ConsumeTag buf pos)"
proof unfold_locales
  fix buf pos and x :: "int \<times> int" and p
  assume h: "valid_buf buf" "valid_pos pos"
    and t: "map_sum id (\<lambda>(f, w, p). ((f, w), p)) (ConsumeTag buf pos) = Inr (x, p)"
  from t obtain num where "ConsumeVarint buf pos = Inr (num, p)"
    by (auto simp: ConsumeTag_def Let_def split: sum.splits if_splits)
  with h show "pos < p \<and> p \<le> int (length buf)" using varint_reader.advances by blast
next
  fix buf pos
  assume "valid_buf buf" "valid_pos pos"
  then have "ConsumeVarint buf pos \<noteq> Inl IndexPanic" by (rule varint_reader.safe)
  then show "map_sum id (\<lambda>(f, w, p). ((f, w), p)) (ConsumeTag buf pos) \<noteq> Inl IndexPanic"
    by (auto simp: ConsumeTag_def Let_def split: sum.splits)
qed

lemma ConsumeTag_advances:
  assumes "valid_buf buf" "valid_pos pos" "ConsumeTag buf pos = Inr (f, w, p)"
  shows "pos < p \<and> p \<le> int (length buf)"
  using tag_reader.advances [of buf pos "(f, w)" p] assms by simp

lemma ConsumeTag_safe:
  "valid_buf buf \<Longrightarrow> valid_pos pos \<Longrightarrow> ConsumeTag buf pos \<noteq> Inl IndexPanic"
  using tag_reader.safe [of buf pos] by (cases "ConsumeTag buf pos") auto

section \<open>Skipping an unknown field\<close>

definition skip_result_ok :: "byte list \<Rightarrow> int \<Rightarrow> wire_error + int \<Rightarrow> bool" where
  "skip_result_ok buf pos r \<longleftrightarrow>
     r \<noteq> Inl IndexPanic \<and> (\<forall>p. r = Inr p \<longrightarrow> pos \<le> p \<and> p \<le> int (length buf))"

definition skip_moves :: "byte list \<Rightarrow> int \<Rightarrow> wire_error + int \<Rightarrow> bool" where
  "skip_moves buf pos r \<longleftrightarrow> r \<noteq> Inl IndexPanic \<and> (\<forall>p. r = Inr p \<longrightarrow> pos < p \<and> p \<le> int (length buf))"

lemma skip_moves_ok: "skip_moves buf pos r \<Longrightarrow> skip_result_ok buf pos r"
  by (auto simp: skip_moves_def skip_result_ok_def)

lemma skip_moves_reader:
  assumes "wire_reader rd" "valid_buf buf" "valid_pos pos"
  shows "skip_moves buf pos (map_sum id snd (rd buf pos))"
  using wire_reader.advances [OF assms] wire_reader.skip_safe [OF assms]
  by (cases "rd buf pos") (auto simp: skip_moves_def)

lemma skip_moves_error [simp]: "skip_moves buf pos (Inl e) \<longleftrightarrow> e \<noteq> IndexPanic"
  by (simp add: skip_moves_def)

lemma skip_moves_later: "skip_result_ok buf p r \<Longrightarrow> pos < p \<Longrightarrow> skip_moves buf pos r"
  by (auto simp: skip_moves_def skip_result_ok_def)

text \<open>Outside a group the position moves; inside one the end tag has been read before.\<close>

lemma consume_unknown_enough:
  assumes "valid_buf buf" "valid_pos pos" "nat (int (length buf) - pos) < fuel"
  shows "\<exists>r. consume_unknown_loop fuel buf pos wt depth = Some r \<and> skip_result_ok buf pos r \<and>
    (depth = 0 \<longrightarrow> skip_moves buf pos r)"
  using assms
proof (induction fuel arbitrary: pos wt depth)
  case 0
  then show ?case by simp
next
  case (Suc fuel)
  note readers = skip_moves_reader [OF varint_reader.wire_reader_axioms Suc.prems(1,2)]
    skip_moves_reader [OF i64_reader.wire_reader_axioms Suc.prems(1,2)]
    skip_moves_reader [OF i32_reader.wire_reader_axioms Suc.prems(1,2)]
    skip_moves_reader [OF len_reader.wire_reader_axioms Suc.prems(1,2)]
  have group: "\<exists>r. (case ConsumeTag buf pos of Inl e \<Rightarrow> Some (Inl e)
      | Inr (_, wt', pos') \<Rightarrow> consume_unknown_loop fuel buf pos' wt' d) = Some r \<and>
      skip_moves buf pos r" for d
  proof (cases "ConsumeTag buf pos")
    case (Inl e)
    then show ?thesis using ConsumeTag_safe [OF Suc.prems(1,2)] by auto
  next
    case (Inr t)
    obtain f w p where t: "t = (f, w, p)" by (metis prod_cases3)
    with Inr ConsumeTag_advances [OF Suc.prems(1,2)] have p: "pos < p" "p \<le> int (length buf)"
      by blast+
    then have "valid_pos p" using Suc.prems(1,2) valid_pos_le by (auto simp: valid_pos_def)
    moreover have "nat (int (length buf) - p) < fuel" using p Suc.prems(3) by linarith
    ultimately obtain r where "consume_unknown_loop fuel buf p w d = Some r" "skip_result_ok buf p r"
      using Suc.IH [OF Suc.prems(1)] by blast
    with Inr t skip_moves_later [OF _ p(1)] show ?thesis by simp
  qed
  have moves: ?case if "consume_unknown_loop (Suc fuel) buf pos wt depth = Some r" "skip_moves buf pos r" for r
    using that skip_moves_ok by blast
  consider (ended) "int (length buf) \<le> pos" | (field) "pos < int (length buf)" "wt = 0 \<or> wt = 1 \<or> wt = 2 \<or> wt = 5"
    | (opens) "pos < int (length buf)" "wt = 3" | (closes) "pos < int (length buf)" "wt = 4" "depth = 1"
    | (inner) "pos < int (length buf)" "wt = 4" "depth \<noteq> 0" "depth \<noteq> 1" | (unexpected) "pos < int (length buf)" "wt = 4" "depth = 0"
    | (illegal) "pos < int (length buf)" "wt \<notin> {0, 1, 2, 3, 4, 5}"
    unfolding insert_iff empty_iff using not_le by blast
  then show ?case
  proof cases
    case ended
    then show ?thesis by (intro moves [of "Inl ErrUnexpectedEOF"]) simp_all
  next
    case field
    then show ?thesis using readers by (elim disjE) (rule moves, simp, simp)+
  next
    case opens
    obtain r where "(case ConsumeTag buf pos of Inl e \<Rightarrow> Some (Inl e)
        | Inr (_, wt', pos') \<Rightarrow> consume_unknown_loop fuel buf pos' wt' (Suc depth)) = Some r" "skip_moves buf pos r"
      using group by blast
    then show ?thesis using opens by (intro moves) simp_all
  next
    case closes
    then show ?thesis by (simp add: skip_result_ok_def)
  next
    case inner
    obtain r where "(case ConsumeTag buf pos of Inl e \<Rightarrow> Some (Inl e)
        | Inr (_, wt', pos') \<Rightarrow> consume_unknown_loop fuel buf pos' wt' (depth - Suc 0)) = Some r" "skip_moves buf pos r"
      using group by blast
    then show ?thesis using inner by (intro moves) simp_all
  next
    case unexpected
    then show ?thesis by (intro moves [of "Inl ErrUnexpectedEndOfGroup"]) simp_all
  next
    case illegal
    then show ?thesis by (intro moves [of "Inl (ErrIllegalWireType wt)"]) simp_all
  qed
qed

section \<open>Properties\<close>

text \<open>
  C1. A varint that \<open>EncodeVarint\<close> writes so that it ends at \<open>off\<close> is read back by
  \<open>ConsumeVarint\<close>: from the returned start the reader yields exactly the value and the position
  \<open>off\<close>; the bytes before the start and from \<open>off\<close> on are untouched and the length of the buffer
  does not change. The only requirement is that the \<open>Sov v\<close> bytes fit in front of \<open>off\<close>.
\<close>

theorem varint_roundtrip:
  assumes "int (Sov v) \<le> off" and "off \<le> int (length buf)"
  shows "\<exists>buf' base. EncodeVarint buf off v = Inr (buf', base) \<and>
    base = off - int (Sov v) \<and> length buf' = length buf \<and>
    take (nat base) buf' = take (nat base) buf \<and> drop (nat off) buf' = drop (nat off) buf \<and>
    ConsumeVarint buf' base = Inr (v, off)"
proof -
  let ?base = "off - int (Sov v)"
  let ?buf = "take (nat ?base) buf @ varint_bytes v @ drop (nat off) buf"
  have len: "length (take (nat ?base) buf) = nat ?base" using assms by simp
  have end_eq: "nat ?base + Sov v = nat off" using assms by simp
  have "take (Sov v) (drop (nat ?base) ?buf) = varint_bytes v"
    using len by (simp add: length_varint_bytes)
  then have "ConsumeVarint ?buf ?base = Inr (v, off)"
    using assms ConsumeVarint_reads [of ?base v ?buf] by simp
  moreover have "length ?buf = length buf"
    using assms len end_eq by (simp add: length_varint_bytes)
  moreover have "drop (nat off) ?buf = drop (nat off) buf"
    using len end_eq by (simp add: length_varint_bytes)
  ultimately show ?thesis
    using EncodeVarint_writes [OF assms] len by simp
qed

theorem varint_roundtrip_witness:
  "\<exists>buf' base. EncodeVarint (replicate 4 0) 3 300 = Inr (buf', base) \<and> base = 1 \<and>
    ConsumeVarint buf' base = Inr (300, 3)"
proof -
  have sov: "Sov 300 = 2" by (simp add: Sov_groups7 groups7.simps)
  have "int (Sov 300) \<le> 3" "3 \<le> int (length (replicate 4 (0 :: byte)))" using sov by simp_all
  from varint_roundtrip [OF this] sov show ?thesis by auto
qed

text \<open>
  C2. \<open>ConsumeUnknown\<close> terminates on every buffer, position and wire type, nested groups
  included; it never indexes outside the buffer, and when it succeeds the new position lies
  strictly behind the old one and not behind the end of the buffer, so a parser that skips unknown
  fields always moves forward.
\<close>

theorem ConsumeUnknown_safe:
  assumes "valid_buf buf" and "valid_pos pos"
  shows "\<exists>r. ConsumeUnknown buf pos wt = Some r \<and> r \<noteq> Inl IndexPanic \<and>
    (\<forall>p. r = Inr p \<longrightarrow> pos < p \<and> p \<le> int (length buf))"
proof -
  have "nat (int (length buf) - pos) < Suc (nat (int (length buf) - pos))" by simp
  from consume_unknown_enough [OF assms this, of wt 0] show ?thesis
    unfolding ConsumeUnknown_def skip_moves_def by blast
qed

theorem ConsumeUnknown_safe_witness:
  "\<exists>r. ConsumeUnknown [0x08, 0x05, 0x0c] 0 3 = Some r \<and> r \<noteq> Inl IndexPanic \<and> r \<noteq> Inr 0"
  using ConsumeUnknown_safe [of "[0x08, 0x05, 0x0c]" 0 3]
  by (auto simp: valid_buf_def valid_pos_def max_i64_def)

text \<open>
  A field inside a group ends the skipping. Here an unknown group, field 15, holds one varint field
  and is followed by another field: only the inner field is skipped, the end tag of the group is
  read as the next field, and it is an error.
\<close>

lemma group_not_skipped:
  "ConsumeUnknown [0x08, 0x05, 0x7c, 0x08, 0x01] 0 3 = Some (Inr 2)"
  "ConsumeTag [0x08, 0x05, 0x7c, 0x08, 0x01] 2 = Inr (15, 4, 3)"
  "ConsumeUnknown [0x08, 0x05, 0x7c, 0x08, 0x01] 3 4 = Some (Inl ErrUnexpectedEndOfGroup)"
  by code_simp+

end
