(* ===== verification/Sizers.thy ===== *)
theory Sizers
  imports Prelude
begin

text \<open>
  Queue sizers: exporter/exporterhelper/internal/request/sizer.go. A \<open>SizerType\<close> is a struct with
  one string; its three values and the zero value are the constructors.
\<close>

datatype SizerType = SizerTypeBytes | SizerTypeItems | SizerTypeRequests | SizerTypeUnset

fun SizerType_String :: "SizerType \<Rightarrow> string" where
  "SizerType_String SizerTypeBytes = ''bytes''"
| "SizerType_String SizerTypeItems = ''items''"
| "SizerType_String SizerTypeRequests = ''requests''"
| "SizerType_String SizerTypeUnset = ''''"

definition SizerType_MarshalText :: "SizerType \<Rightarrow> string" where
  "SizerType_MarshalText s = SizerType_String s"

text \<open>On an unknown text the receiver keeps its value and an error is returned.\<close>

definition SizerType_UnmarshalText :: "SizerType \<Rightarrow> string \<Rightarrow> SizerType \<times> bool" where
  "SizerType_UnmarshalText s text =
     (if text = ''items'' then (SizerTypeItems, True)
      else if text = ''bytes'' then (SizerTypeBytes, True)
      else if text = ''requests'' then (SizerTypeRequests, True)
      else (s, False))"

text \<open>
  \<open>NewSizer\<close>: the size of a request under a sizer type, given its byte size and item count.
\<close>

fun NewSizer :: "('r \<Rightarrow> int) \<Rightarrow> ('r \<Rightarrow> int) \<Rightarrow> SizerType \<Rightarrow> 'r \<Rightarrow> int" where
  "NewSizer bytesSize itemsCount SizerTypeBytes req = bytesSize req"
| "NewSizer bytesSize itemsCount SizerTypeItems req = itemsCount req"
| "NewSizer bytesSize itemsCount _ req = 1"

lemma SizerType_text_roundtrip:
  "SizerType_UnmarshalText s0 (SizerType_MarshalText s) = (if s = SizerTypeUnset then (s0, False) else (s, True))"
  by (cases s) (simp_all add: SizerType_UnmarshalText_def SizerType_MarshalText_def)

end
