(* ===== verification/BatchSplit.thy ===== *)
theory BatchSplit
  imports Wire Sizers
begin

text \<open>
  Merging and splitting of export requests: exporter/exporterhelper/internal/queuebatch
  (logs\_batch.go, traces\_batch.go, the request part of logs.go and traces.go) and
  exporter/exporterhelper/internal/sizer. A payload is a list of resources, a resource a list of
  scopes, a scope a list of items (log records or spans); resources, scopes and items themselves
  are opaque type parameters. The size interfaces \<open>LogsSizer\<close> and \<open>TracesSizer\<close> are the record
  \<open>sizer\<close>; the count sizers and the proto bytes sizers are its two instances, the latter over
  arbitrary encoded sizes of the leaves. Data sizes are Go \<open>int\<close>s; the sizes of data that is in
  memory do not overflow, so they are \<^typ>\<open>int\<close>.
\<close>

section \<open>Payloads\<close>

record ('sc, 'x) scope_data =
  sd_scope :: 'sc
  sd_schema :: string
  sd_items :: "'x list"

record ('re, 'sc, 'x) resource_data =
  rd_resource :: 're
  rd_schema :: string
  rd_scopes :: "('sc, 'x) scope_data list"

type_synonym ('re, 'sc, 'x) payload = "('re, 'sc, 'x) resource_data list"

text \<open>\<open>LogRecordCount\<close> (pdata/plog/logs.go) and \<open>SpanCount\<close> (pdata/ptrace/traces.go).\<close>

definition LogRecordCount :: "('re, 'sc, 'x) payload \<Rightarrow> nat" where
  "LogRecordCount ld = (\<Sum>rl\<leftarrow>ld. \<Sum>sl\<leftarrow>rd_scopes rl. length (sd_items sl))"

definition SpanCount :: "('re, 'sc, 'x) payload \<Rightarrow> nat" where
  "SpanCount td = (\<Sum>rs\<leftarrow>td. \<Sum>ss\<leftarrow>rd_scopes rs. length (sd_items ss))"

section \<open>Sizers\<close>

record ('re, 'sc, 'x) sizer =
  sz_payload :: "('re, 'sc, 'x) payload \<Rightarrow> int"
  sz_resource :: "('re, 'sc, 'x) resource_data \<Rightarrow> int"
  sz_scope :: "('sc, 'x) scope_data \<Rightarrow> int"
  sz_item :: "'x \<Rightarrow> int"
  sz_delta :: "int \<Rightarrow> int"

definition LogsCountSizer :: "('re, 'sc, 'x) sizer" where
  "LogsCountSizer = \<lparr>
     sz_payload = (\<lambda>ld. int (LogRecordCount ld)),
     sz_resource = (\<lambda>rl. \<Sum>sl\<leftarrow>rd_scopes rl. int (length (sd_items sl))),
     sz_scope = (\<lambda>sl. int (length (sd_items sl))),
     sz_item = (\<lambda>_. 1),
     sz_delta = (\<lambda>n. n)\<rparr>"

definition TracesCountSizer :: "('re, 'sc, 'x) sizer" where
  "TracesCountSizer = \<lparr>
     sz_payload = (\<lambda>td. int (SpanCount td)),
     sz_resource = (\<lambda>rs. \<Sum>ss\<leftarrow>rd_scopes rs. int (length (sd_items ss))),
     sz_scope = (\<lambda>ss. int (length (sd_items ss))),
     sz_item = (\<lambda>_. 1),
     sz_delta = (\<lambda>n. n)\<rparr>"

text \<open>\<open>protoDeltaSizer\<close>: \<open>uint64(newItemSize)\<close> wraps a negative size to a ten-byte varint.\<close>

definition sov :: "u64 \<Rightarrow> int" where
  "sov x = (int (Len64 (or x 1)) + 6) div 7"

definition DeltaSize :: "int \<Rightarrow> int" where
  "DeltaSize newItemSize = 1 + newItemSize + sov (word_of_int newItemSize)"

text \<open>
  The proto sizes behind the bytes sizers (\<open>SizeProto\<close> of the generated messages). The encoded
  sizes of a resource, a scope and an item are parameters. The payloads have no deprecated scopes,
  whose summand of \<open>SizeProto\<close> is therefore zero and left out: the payload type has no such field. No
  function of pdata sets them, and the export requests move those of old senders to the scopes when
  they are decoded (\<open>MigrateLogs\<close>, \<open>MigrateTraces\<close>, \<open>MigrateMetrics\<close>).
\<close>

definition field_size :: "int \<Rightarrow> int" where
  "field_size l = 1 + int (Sov (word_of_int l)) + l"

definition schema_size :: "string \<Rightarrow> int" where
  "schema_size s = (if 0 < length s then field_size (int (length s)) else 0)"

definition ScopeLogs_proto_size ::
  "('sc \<Rightarrow> nat) \<Rightarrow> ('x \<Rightarrow> nat) \<Rightarrow> ('sc, 'x) scope_data \<Rightarrow> int" where
  "ScopeLogs_proto_size scs xs sl =
     field_size (int (scs (sd_scope sl))) + (\<Sum>x\<leftarrow>sd_items sl. field_size (int (xs x)))
     + schema_size (sd_schema sl)"

definition ResourceLogs_proto_size ::
  "('re \<Rightarrow> nat) \<Rightarrow> ('sc \<Rightarrow> nat) \<Rightarrow> ('x \<Rightarrow> nat) \<Rightarrow> ('re, 'sc, 'x) resource_data \<Rightarrow> int" where
  "ResourceLogs_proto_size res scs xs rl =
     field_size (int (res (rd_resource rl)))
     + (\<Sum>sl\<leftarrow>rd_scopes rl. field_size (ScopeLogs_proto_size scs xs sl))
     + schema_size (rd_schema rl)"

definition Logs_proto_size ::
  "('re \<Rightarrow> nat) \<Rightarrow> ('sc \<Rightarrow> nat) \<Rightarrow> ('x \<Rightarrow> nat) \<Rightarrow> ('re, 'sc, 'x) payload \<Rightarrow> int" where
  "Logs_proto_size res scs xs ld = (\<Sum>rl\<leftarrow>ld. field_size (ResourceLogs_proto_size res scs xs rl))"

definition LogsBytesSizer ::
  "('re \<Rightarrow> nat) \<Rightarrow> ('sc \<Rightarrow> nat) \<Rightarrow> ('x \<Rightarrow> nat) \<Rightarrow> ('re, 'sc, 'x) sizer" where
  "LogsBytesSizer res scs xs = \<lparr>
     sz_payload = Logs_proto_size res scs xs,
     sz_resource = ResourceLogs_proto_size res scs xs,
     sz_scope = ScopeLogs_proto_size scs xs,
     sz_item = (\<lambda>x. int (xs x)),
     sz_delta = DeltaSize\<rparr>"

section \<open>Extraction\<close>

text \<open>
  The closure state of the three \<open>RemoveIf\<close> loops: the capacity left, the removed size and the
  elements appended to the destination. \<open>MoveTo\<close> swaps its source with the fresh destination
  element, so the moved source is empty afterwards.
\<close>

fun extractScopeLogs_step ::
  "('re, 'sc, 'x) sizer \<Rightarrow> int \<times> int \<times> 'x list \<Rightarrow> 'x \<Rightarrow> (int \<times> int \<times> 'x list) \<times> 'x \<times> bool" where
  "extractScopeLogs_step sz (capacityLeft, removedSize, dest) srcLR =
     (if capacityLeft = 0 then ((capacityLeft, removedSize, dest), srcLR, False)
      else let rlSize = sz_delta sz (sz_item sz srcLR)
           in if capacityLeft < rlSize then ((0, removedSize, dest), srcLR, False)
              else ((capacityLeft - rlSize, removedSize + rlSize, dest @ [srcLR]), srcLR, True))"

definition extractScopeLogs ::
  "('re, 'sc, 'x) sizer \<Rightarrow> ('sc, 'x) scope_data \<Rightarrow> int \<Rightarrow>
   ('sc, 'x) scope_data \<times> ('sc, 'x) scope_data \<times> int" where
  "extractScopeLogs sz srcSL capacity =
     (let destSL = srcSL\<lparr>sd_items := []\<rparr>;
          capacityLeft = capacity - (sz_delta sz capacity - capacity) - sz_scope sz destSL
      in case remove_if (extractScopeLogs_step sz) (capacityLeft, 0, []) (sd_items srcSL) of
           ((_, removedSize, dest), rest) \<Rightarrow>
             (srcSL\<lparr>sd_items := rest\<rparr>, destSL\<lparr>sd_items := dest\<rparr>, removedSize))"

fun extractResourceLogs_step ::
  "('re, 'sc, 'x) sizer \<Rightarrow> int \<times> int \<times> ('sc, 'x) scope_data list \<Rightarrow> ('sc, 'x) scope_data \<Rightarrow>
   (int \<times> int \<times> ('sc, 'x) scope_data list) \<times> ('sc, 'x) scope_data \<times> bool" where
  "extractResourceLogs_step sz (capacityLeft, removedSize, dest) srcSL =
     (if capacityLeft = 0 then ((capacityLeft, removedSize, dest), srcSL, False)
      else let rawSlSize = sz_scope sz srcSL; slSize = sz_delta sz rawSlSize
           in if capacityLeft < slSize
              then case extractScopeLogs sz srcSL capacityLeft of (srcSL', extSrcSL, extSlSize) \<Rightarrow>
                     let removedSize' = removedSize + extSlSize
                           + (slSize - rawSlSize
                              - (sz_delta sz (rawSlSize - extSlSize) - (rawSlSize - extSlSize)));
                         moved = 0 < length (sd_items extSrcSL);
                         lenAfterMove = (if moved then 0 else length (sd_items extSrcSL))
                     in ((0, removedSize', if moved then dest @ [extSrcSL] else dest),
                         srcSL', lenAfterMove \<noteq> 0)
              else ((capacityLeft - slSize, removedSize + slSize, dest @ [srcSL]), srcSL, True))"

definition extractResourceLogs ::
  "('re, 'sc, 'x) sizer \<Rightarrow> ('re, 'sc, 'x) resource_data \<Rightarrow> int \<Rightarrow>
   ('re, 'sc, 'x) resource_data \<times> ('re, 'sc, 'x) resource_data \<times> int" where
  "extractResourceLogs sz srcRL capacity =
     (let destRL = srcRL\<lparr>rd_scopes := []\<rparr>;
          capacityLeft = capacity - (sz_delta sz capacity - capacity) - sz_resource sz destRL
      in case remove_if (extractResourceLogs_step sz) (capacityLeft, 0, []) (rd_scopes srcRL) of
           ((_, removedSize, dest), rest) \<Rightarrow>
             (srcRL\<lparr>rd_scopes := rest\<rparr>, destRL\<lparr>rd_scopes := dest\<rparr>, removedSize))"

fun extractLogs_step ::
  "('re, 'sc, 'x) sizer \<Rightarrow> int \<times> int \<times> ('re, 'sc, 'x) payload \<Rightarrow> ('re, 'sc, 'x) resource_data \<Rightarrow>
   (int \<times> int \<times> ('re, 'sc, 'x) payload) \<times> ('re, 'sc, 'x) resource_data \<times> bool" where
  "extractLogs_step sz (capacityLeft, removedSize, dest) srcRL =
     (if capacityLeft = 0 then ((capacityLeft, removedSize, dest), srcRL, False)
      else let rawRlSize = sz_resource sz srcRL; rlSize = sz_delta sz rawRlSize
           in if capacityLeft < rlSize
              then case extractResourceLogs sz srcRL capacityLeft of (srcRL', extSrcRL, extRlSize) \<Rightarrow>
                     let removedSize' = removedSize + extRlSize
                           + (rlSize - rawRlSize
                              - (sz_delta sz (rawRlSize - extRlSize) - (rawRlSize - extRlSize)));
                         moved = 0 < length (rd_scopes extSrcRL);
                         lenAfterMove = (if moved then 0 else length (rd_scopes extSrcRL))
                     in ((0, removedSize', if moved then dest @ [extSrcRL] else dest),
                         srcRL', lenAfterMove \<noteq> 0)
              else ((capacityLeft - rlSize, removedSize + rlSize, dest @ [srcRL]), srcRL, True))"

definition extractLogs ::
  "('re, 'sc, 'x) sizer \<Rightarrow> ('re, 'sc, 'x) payload \<Rightarrow> int \<Rightarrow>
   ('re, 'sc, 'x) payload \<times> ('re, 'sc, 'x) payload \<times> int" where
  "extractLogs sz srcLogs capacity =
     (let capacityLeft = capacity - sz_payload sz []
      in case remove_if (extractLogs_step sz) (capacityLeft, 0, []) srcLogs of
           ((_, removedSize, dest), rest) \<Rightarrow> (rest, dest, removedSize))"

section \<open>The common shape of the extraction loops\<close>

text \<open>
  All three closures are instances of one step, which takes an element whole when it fits and
  otherwise takes a part of it and stops. At the item level nothing can be taken in part.
\<close>

definition chunk_step ::
  "(int \<Rightarrow> int) \<Rightarrow> ('a \<Rightarrow> int) \<Rightarrow> ('a \<Rightarrow> int \<Rightarrow> 'a \<times> 'a \<times> int) \<Rightarrow> ('a \<Rightarrow> bool) \<Rightarrow>
   int \<times> int \<times> 'a list \<Rightarrow> 'a \<Rightarrow> (int \<times> int \<times> 'a list) \<times> 'a \<times> bool" where
  "chunk_step delta sizeof part nonempty = (\<lambda>(c, rm, dest) x.
     if c = 0 then ((c, rm, dest), x, False)
     else let raw = sizeof x; s = delta raw
          in if c < s
             then case part x c of (x', e, n) \<Rightarrow>
                    ((0, rm + n + (s - raw - (delta (raw - n) - (raw - n))),
                      if nonempty e then dest @ [e] else dest), x', False)
             else ((c - s, rm + s, dest @ [x]), x, True))"

lemma extractScopeLogs_step_chunk:
  "extractScopeLogs_step sz = chunk_step (sz_delta sz) (sz_item sz) (\<lambda>x c. (x, x, 0)) (\<lambda>_. False)"
  by (auto simp: fun_eq_iff chunk_step_def Let_def)

lemma extractResourceLogs_step_chunk:
  "extractResourceLogs_step sz =
     chunk_step (sz_delta sz) (sz_scope sz) (extractScopeLogs sz) (\<lambda>e. sd_items e \<noteq> [])"
  by (auto simp: fun_eq_iff chunk_step_def Let_def split: prod.splits)

lemma extractLogs_step_chunk:
  "extractLogs_step sz =
     chunk_step (sz_delta sz) (sz_resource sz) (extractResourceLogs sz) (\<lambda>e. rd_scopes e \<noteq> [])"
  by (auto simp: fun_eq_iff chunk_step_def Let_def split: prod.splits)

lemmas step_chunk = extractScopeLogs_step_chunk extractResourceLogs_step_chunk extractLogs_step_chunk

lemma chunk_stopped:
  "remove_if (chunk_step delta sizeof part nonempty) (0, rm, dest) xs = ((0, rm, dest), xs)"
  by (induction xs) (auto simp: chunk_step_def)

lemma chunk_Cons_part:
  assumes "c \<noteq> 0" "c < delta (sizeof x)" "part x c = (x', e, n)"
  shows "remove_if (chunk_step delta sizeof part nonempty) (c, rm, dest) (x # xs) =
    ((0, rm + (delta (sizeof x) - delta (sizeof x - n)), if nonempty e then dest @ [e] else dest),
     x' # xs)"
proof -
  have "chunk_step delta sizeof part nonempty (c, rm, dest) x =
      ((0, rm + (delta (sizeof x) - delta (sizeof x - n)), if nonempty e then dest @ [e] else dest),
       x', False)"
    using assms by (simp add: chunk_step_def Let_def)
  then show ?thesis by (simp add: chunk_stopped)
qed

lemma chunk_Cons_full:
  assumes "c \<noteq> 0" "\<not> c < delta (sizeof x)"
  shows "remove_if (chunk_step delta sizeof part nonempty) (c, rm, dest) (x # xs) =
    remove_if (chunk_step delta sizeof part nonempty)
      (c - delta (sizeof x), rm + delta (sizeof x), dest @ [x]) xs"
proof -
  have "chunk_step delta sizeof part nonempty (c, rm, dest) x =
      ((c - delta (sizeof x), rm + delta (sizeof x), dest @ [x]), x, True)"
    using assms by (simp add: chunk_step_def Let_def)
  then show ?thesis by (simp split: prod.splits)
qed

subsection \<open>Order and conservation\<close>

locale chunk_order =
  fixes delta :: "int \<Rightarrow> int" and sizeof :: "'a \<Rightarrow> int"
    and part :: "'a \<Rightarrow> int \<Rightarrow> 'a \<times> 'a \<times> int" and nonempty :: "'a \<Rightarrow> bool"
    and flat :: "'a \<Rightarrow> 'i list"
  assumes part_flat: "part x c = (x', e, n) \<Longrightarrow> nonempty e \<Longrightarrow> flat x = flat e @ flat x'"
    and part_none: "part x c = (x', e, n) \<Longrightarrow> \<not> nonempty e \<Longrightarrow> flat x = flat x'"
begin

abbreviation flats :: "'a list \<Rightarrow> 'i list" where
  "flats xs \<equiv> concat (map flat xs)"

lemmas part_step = chunk_Cons_part [where delta = delta and sizeof = sizeof and part = part
    and nonempty = nonempty]

lemmas full_step = chunk_Cons_full [where delta = delta and sizeof = sizeof and part = part
    and nonempty = nonempty]

lemma chunk_flats:
  "remove_if (chunk_step delta sizeof part nonempty) (c, rm, dest) xs = ((c', rm', dest'), rest) \<Longrightarrow>
   flats dest @ flats xs = flats dest' @ flats rest"
proof (induction xs arbitrary: c rm dest c' rm' dest' rest)
  case Nil
  then show ?case by simp
next
  case (Cons x xs)
  show ?case
  proof (cases "c = 0")
    case True
    with Cons.prems chunk_stopped [of delta sizeof part nonempty rm dest "x # xs"] show ?thesis by auto
  next
    case nz: False
    show ?thesis
    proof (cases "c < delta (sizeof x)")
      case True
      obtain x' e n where p: "part x c = (x', e, n)" by (metis prod_cases3)
      with Cons.prems part_step [OF nz True p] have
        r: "dest' = (if nonempty e then dest @ [e] else dest)" "rest = x' # xs" by auto
      show ?thesis using part_flat [OF p] part_none [OF p] by (auto simp: r)
    next
      case False
      from Cons.IH [OF Cons.prems [unfolded full_step [OF nz False]]]
      show ?thesis by simp
    qed
  qed
qed

end

definition scope_flat :: "('sc, 'x) scope_data \<Rightarrow> ('sc \<times> string \<times> 'x) list" where
  "scope_flat sl = map (\<lambda>x. (sd_scope sl, sd_schema sl, x)) (sd_items sl)"

definition resource_flat ::
  "('re, 'sc, 'x) resource_data \<Rightarrow> ('re \<times> string \<times> 'sc \<times> string \<times> 'x) list" where
  "resource_flat rl =
     map (\<lambda>y. (rd_resource rl, rd_schema rl, y)) (concat (map scope_flat (rd_scopes rl)))"

definition payload_flat ::
  "('re, 'sc, 'x) payload \<Rightarrow> ('re \<times> string \<times> 'sc \<times> string \<times> 'x) list" where
  "payload_flat ld = concat (map resource_flat ld)"

lemma length_payload_flat: "length (payload_flat ld) = LogRecordCount ld"
  by (simp add: payload_flat_def resource_flat_def scope_flat_def LogRecordCount_def
      length_concat o_def)

interpretation item_order: chunk_order "sz_delta sz" "sz_item sz" "\<lambda>x c. (x, x, 0)" "\<lambda>_. False" "\<lambda>x. [x]"
  for sz :: "('re, 'sc, 'x) sizer"
  by unfold_locales auto

lemma extractScopeLogs_conserves:
  assumes "extractScopeLogs sz sl c = (sl', e, n)"
  shows "scope_flat sl = scope_flat e @ scope_flat sl'"
    and "sd_scope sl' = sd_scope sl" "sd_schema sl' = sd_schema sl"
proof -
  obtain c' dest rest where
    r: "remove_if (extractScopeLogs_step sz)
          (c - (sz_delta sz c - c) - sz_scope sz (sl\<lparr>sd_items := []\<rparr>), 0, []) (sd_items sl)
        = ((c', n, dest), rest)"
    and eqs: "sl' = sl\<lparr>sd_items := rest\<rparr>" "e = sl\<lparr>sd_items := dest\<rparr>"
    using assms by (auto simp: extractScopeLogs_def Let_def split: prod.splits)
  from item_order.chunk_flats [OF r [unfolded step_chunk]] have "sd_items sl = dest @ rest" by simp
  then show "scope_flat sl = scope_flat e @ scope_flat sl'" by (simp add: scope_flat_def eqs)
  show "sd_scope sl' = sd_scope sl" "sd_schema sl' = sd_schema sl" by (simp_all add: eqs)
qed

interpretation scope_order: chunk_order "sz_delta sz" "sz_scope sz" "extractScopeLogs sz"
    "\<lambda>e. sd_items e \<noteq> []" scope_flat
  for sz :: "('re, 'sc, 'x) sizer"
  by unfold_locales (auto dest: extractScopeLogs_conserves(1) simp: scope_flat_def)

lemma extractResourceLogs_conserves:
  assumes "extractResourceLogs sz rl c = (rl', e, n)"
  shows "resource_flat rl = resource_flat e @ resource_flat rl'"
proof -
  obtain c' dest rest where
    r: "remove_if (extractResourceLogs_step sz)
          (c - (sz_delta sz c - c) - sz_resource sz (rl\<lparr>rd_scopes := []\<rparr>), 0, []) (rd_scopes rl)
        = ((c', n, dest), rest)"
    and eqs: "rl' = rl\<lparr>rd_scopes := rest\<rparr>" "e = rl\<lparr>rd_scopes := dest\<rparr>"
    using assms by (auto simp: extractResourceLogs_def Let_def split: prod.splits)
  from scope_order.chunk_flats [OF r [unfolded step_chunk]]
  have "concat (map scope_flat (rd_scopes rl)) =
      concat (map scope_flat dest) @ concat (map scope_flat rest)" by simp
  then show ?thesis by (simp add: resource_flat_def eqs)
qed

interpretation resource_order: chunk_order "sz_delta sz" "sz_resource sz" "extractResourceLogs sz"
    "\<lambda>e. rd_scopes e \<noteq> []" resource_flat
  for sz :: "('re, 'sc, 'x) sizer"
  by unfold_locales (auto dest: extractResourceLogs_conserves simp: resource_flat_def)

lemma extractLogs_conserves:
  assumes "extractLogs sz ld c = (ld', e, n)"
  shows "payload_flat ld = payload_flat e @ payload_flat ld'"
proof -
  obtain c' where "remove_if (extractLogs_step sz) (c - sz_payload sz [], 0, []) ld = ((c', n, e), ld')"
    using assms by (auto simp: extractLogs_def Let_def split: prod.splits)
  from resource_order.chunk_flats [OF this [unfolded step_chunk]] show ?thesis
    by (simp add: payload_flat_def)
qed

lemma extractLogs_count:
  assumes "extractLogs sz ld c = (ld', e, n)"
  shows "LogRecordCount ld = LogRecordCount e + LogRecordCount ld'"
  using arg_cong [OF extractLogs_conserves [OF assms], of length]
  by (simp add: length_payload_flat)

subsection \<open>Sizes\<close>

locale chunk_size =
  fixes delta :: "int \<Rightarrow> int" and sizeof :: "'a \<Rightarrow> int"
    and part :: "'a \<Rightarrow> int \<Rightarrow> 'a \<times> 'a \<times> int" and nonempty :: "'a \<Rightarrow> bool"
  assumes delta_size_nonneg: "0 \<le> delta (sizeof x)"
    and part_size: "part x c = (x', e, n) \<Longrightarrow> sizeof x' = sizeof x - n"
    and part_fit: "part x c = (x', e, n) \<Longrightarrow> nonempty e \<Longrightarrow> c \<le> max_i64 \<Longrightarrow> delta (sizeof e) \<le> c"
begin

abbreviation total :: "'a list \<Rightarrow> int" where
  "total xs \<equiv> (\<Sum>x\<leftarrow>xs. delta (sizeof x))"

lemmas part_step = chunk_Cons_part [where delta = delta and sizeof = sizeof and part = part
    and nonempty = nonempty]

lemmas full_step = chunk_Cons_full [where delta = delta and sizeof = sizeof and part = part
    and nonempty = nonempty]

lemmas stopped = chunk_stopped [where delta = delta and sizeof = sizeof and part = part
    and nonempty = nonempty]

lemma chunk_removed:
  "remove_if (chunk_step delta sizeof part nonempty) (c, rm, dest) xs = ((c', rm', dest'), rest) \<Longrightarrow>
   total rest = total xs - (rm' - rm)"
proof (induction xs arbitrary: c rm dest c' rm' dest' rest)
  case (Cons x xs)
  show ?case
  proof (cases "c = 0")
    case True
    with Cons.prems stopped [of rm dest "x # xs"] show ?thesis by auto
  next
    case nz: False
    show ?thesis
    proof (cases "c < delta (sizeof x)")
      case True
      obtain x' e n where p: "part x c = (x', e, n)" by (metis prod_cases3)
      with Cons.prems part_step [OF nz True p] part_size [OF p] show ?thesis by auto
    next
      case False
      from Cons.IH [OF Cons.prems [unfolded full_step [OF nz False]]] show ?thesis by simp
    qed
  qed
qed auto

lemma chunk_fit:
  "remove_if (chunk_step delta sizeof part nonempty) (c, rm, dest) xs = ((c', rm', dest'), rest) \<Longrightarrow>
   c \<le> max_i64 \<Longrightarrow> \<exists>taken. dest' = dest @ taken \<and> (taken \<noteq> [] \<longrightarrow> total taken \<le> c)"
proof (induction xs arbitrary: c rm dest c' rm' dest' rest)
  case (Cons x xs)
  show ?case
  proof (cases "c = 0")
    case True
    with Cons.prems stopped [of rm dest "x # xs"] show ?thesis by auto
  next
    case nz: False
    show ?thesis
    proof (cases "c < delta (sizeof x)")
      case True
      obtain x' e n where p: "part x c = (x', e, n)" by (metis prod_cases3)
      with Cons.prems part_step [OF nz True p] part_fit [OF p] show ?thesis by auto
    next
      case False
      have "c - delta (sizeof x) \<le> max_i64" using Cons.prems(2) delta_size_nonneg [of x] by simp
      from Cons.IH [OF Cons.prems(1) [unfolded full_step [OF nz False]] this]
      obtain taken where "dest' = (dest @ [x]) @ taken" "taken \<noteq> [] \<longrightarrow> total taken \<le> c - delta (sizeof x)"
        by blast
      with False show ?thesis by (intro exI [of _ "x # taken"]) auto
    qed
  qed
qed auto

end

text \<open>
  What the splitting code relies on of a sizer: sizes add up over the nested lists, with the
  delta size of each element, and the overhead of the delta size is nonnegative and grows with
  the size.
\<close>

locale sizer_laws =
  fixes sz :: "('re, 'sc, 'x) sizer"
  assumes payload_sum: "sz_payload sz ld = (\<Sum>rl\<leftarrow>ld. sz_delta sz (sz_resource sz rl))"
    and resource_sum: "sz_resource sz rl =
        sz_resource sz (rl\<lparr>rd_scopes := []\<rparr>) + (\<Sum>sl\<leftarrow>rd_scopes rl. sz_delta sz (sz_scope sz sl))"
    and scope_sum: "sz_scope sz sl =
        sz_scope sz (sl\<lparr>sd_items := []\<rparr>) + (\<Sum>x\<leftarrow>sd_items sl. sz_delta sz (sz_item sz x))"
    and resource_base: "0 \<le> sz_resource sz (rl\<lparr>rd_scopes := []\<rparr>)"
    and scope_base: "0 \<le> sz_scope sz (sl\<lparr>sd_items := []\<rparr>)"
    and item_nonneg: "0 \<le> sz_item sz x"
    and delta_ge: "n \<le> sz_delta sz n"
    and overhead_mono: "0 \<le> a \<Longrightarrow> a \<le> b \<Longrightarrow> b \<le> max_i64 \<Longrightarrow> sz_delta sz a - a \<le> sz_delta sz b - b"
begin

lemma delta_nonneg: "0 \<le> n \<Longrightarrow> 0 \<le> sz_delta sz n"
  using delta_ge [of n] by simp

lemma scope_nonneg: "0 \<le> sz_scope sz sl"
  using scope_base [of sl] delta_nonneg item_nonneg
  by (subst scope_sum) (intro add_nonneg_nonneg sum_list_nonneg_int, auto)

lemma resource_nonneg: "0 \<le> sz_resource sz rl"
  using resource_base [of rl] delta_nonneg scope_nonneg
  by (subst resource_sum) (intro add_nonneg_nonneg sum_list_nonneg_int, auto)

lemma delta_fits:
  assumes "0 \<le> raw" and "raw \<le> c - (sz_delta sz c - c)" and "c \<le> max_i64"
  shows "sz_delta sz raw \<le> c"
proof -
  have "raw \<le> c" using assms(2) delta_ge [of c] by simp
  then have "sz_delta sz raw - raw \<le> sz_delta sz c - c" using assms overhead_mono by blast
  with assms(2) show ?thesis by simp
qed

end

sublocale sizer_laws \<subseteq> items: chunk_size "sz_delta sz" "sz_item sz" "\<lambda>x c. (x, x, 0)" "\<lambda>_. False"
  by unfold_locales (auto simp: delta_nonneg item_nonneg)

context sizer_laws begin

lemma extractScopeLogs_sizes:
  assumes "extractScopeLogs sz sl c = (sl', e, n)"
  shows "sz_scope sz sl' = sz_scope sz sl - n"
    and "sd_items e \<noteq> [] \<Longrightarrow> c \<le> max_i64 \<Longrightarrow> sz_delta sz (sz_scope sz e) \<le> c"
proof -
  let ?c0 = "c - (sz_delta sz c - c) - sz_scope sz (sl\<lparr>sd_items := []\<rparr>)"
  obtain c' dest rest where
    r: "remove_if (extractScopeLogs_step sz) (?c0, 0, []) (sd_items sl) = ((c', n, dest), rest)"
    and eqs: "sl' = sl\<lparr>sd_items := rest\<rparr>" "e = sl\<lparr>sd_items := dest\<rparr>"
    using assms by (auto simp: extractScopeLogs_def Let_def split: prod.splits)
  note r' = r [unfolded step_chunk]
  show "sz_scope sz sl' = sz_scope sz sl - n"
    using items.chunk_removed [OF r'] scope_sum [of sl] scope_sum [of sl'] by (simp add: eqs)
  assume ne: "sd_items e \<noteq> []" and c: "c \<le> max_i64"
  have "?c0 \<le> max_i64" using c delta_ge [of c] scope_base [of sl] by simp
  from items.chunk_fit [OF r' this] ne have "items.total dest \<le> ?c0" by (auto simp: eqs)
  then have "sz_scope sz e \<le> c - (sz_delta sz c - c)" using scope_sum [of e] by (simp add: eqs)
  then show "sz_delta sz (sz_scope sz e) \<le> c" using delta_fits [OF scope_nonneg] c by blast
qed

end

sublocale sizer_laws \<subseteq> scopes: chunk_size "sz_delta sz" "sz_scope sz" "extractScopeLogs sz" "\<lambda>e. sd_items e \<noteq> []"
  by unfold_locales (auto simp: delta_nonneg scope_nonneg extractScopeLogs_sizes)

context sizer_laws begin

lemma extractResourceLogs_sizes:
  assumes "extractResourceLogs sz rl c = (rl', e, n)"
  shows "sz_resource sz rl' = sz_resource sz rl - n"
    and "rd_scopes e \<noteq> [] \<Longrightarrow> c \<le> max_i64 \<Longrightarrow> sz_delta sz (sz_resource sz e) \<le> c"
proof -
  let ?c0 = "c - (sz_delta sz c - c) - sz_resource sz (rl\<lparr>rd_scopes := []\<rparr>)"
  obtain c' dest rest where
    r: "remove_if (extractResourceLogs_step sz) (?c0, 0, []) (rd_scopes rl) = ((c', n, dest), rest)"
    and eqs: "rl' = rl\<lparr>rd_scopes := rest\<rparr>" "e = rl\<lparr>rd_scopes := dest\<rparr>"
    using assms by (auto simp: extractResourceLogs_def Let_def split: prod.splits)
  note r' = r [unfolded step_chunk]
  show "sz_resource sz rl' = sz_resource sz rl - n"
    using scopes.chunk_removed [OF r'] resource_sum [of rl] resource_sum [of rl'] by (simp add: eqs)
  assume ne: "rd_scopes e \<noteq> []" and c: "c \<le> max_i64"
  have "?c0 \<le> max_i64" using c delta_ge [of c] resource_base [of rl] by simp
  from scopes.chunk_fit [OF r' this] ne have "scopes.total dest \<le> ?c0" by (auto simp: eqs)
  then have "sz_resource sz e \<le> c - (sz_delta sz c - c)" using resource_sum [of e] by (simp add: eqs)
  then show "sz_delta sz (sz_resource sz e) \<le> c" using delta_fits [OF resource_nonneg] c by blast
qed

end

sublocale sizer_laws \<subseteq> resources: chunk_size "sz_delta sz" "sz_resource sz" "extractResourceLogs sz" "\<lambda>e. rd_scopes e \<noteq> []"
  by unfold_locales (auto simp: delta_nonneg resource_nonneg extractResourceLogs_sizes)

context sizer_laws begin

lemma extractLogs_sizes:
  assumes "extractLogs sz ld c = (ld', e, n)"
  shows "sz_payload sz ld' = sz_payload sz ld - n"
    and "0 \<le> c \<Longrightarrow> c \<le> max_i64 \<Longrightarrow> sz_payload sz e \<le> c"
proof -
  have nil: "sz_payload sz [] = 0" by (simp add: payload_sum)
  obtain c' where r: "remove_if (extractLogs_step sz) (c, 0, []) ld = ((c', n, e), ld')"
    using assms by (auto simp: extractLogs_def Let_def nil split: prod.splits)
  note r' = r [unfolded step_chunk]
  show "sz_payload sz ld' = sz_payload sz ld - n"
    using resources.chunk_removed [OF r'] by (simp add: payload_sum)
  assume "0 \<le> c" "c \<le> max_i64"
  with resources.chunk_fit [OF r'] show "sz_payload sz e \<le> c"
    by (cases "e = []") (auto simp: payload_sum)
qed

end

subsection \<open>The two sizers satisfy the laws\<close>

interpretation count_sizer: sizer_laws "LogsCountSizer :: ('re, 'sc, 'x) sizer"
  by unfold_locales
    (auto simp: LogsCountSizer_def LogRecordCount_def int_sum_list sum_list_triv
          intro!: sum_list_nonneg_int arg_cong [of _ _ sum_list])

lemma sov_Sov: "sov w = int (Sov w)"
  by (simp add: sov_def Sov_def zdiv_int)

lemma DeltaSize_field_size: "DeltaSize l = field_size l"
  by (simp add: DeltaSize_def field_size_def sov_Sov)

lemma Sov_mono_int:
  assumes "0 \<le> a" "a \<le> b" "b \<le> max_i64"
  shows "Sov (word_of_int a) \<le> Sov (word_of_int b)"
proof -
  have bd: "0 \<le> x \<Longrightarrow> x \<le> max_i64 \<Longrightarrow> unat (word_of_int x :: u64) = nat x" for x
    by (simp add: max_i64_def unsigned_of_int take_bit_int_eq_self)
  have "max 1 (nat a) \<le> max 1 (nat b)" using assms by auto
  then have "bit_len (max 1 (nat a)) \<le> bit_len (max 1 (nat b))" by (rule bit_len_mono)
  then have "groups7 (nat a) \<le> groups7 (nat b)"
    unfolding Sov_groups7_nat [symmetric] by (intro div_le_mono add_right_mono)
  then show ?thesis using assms bd by (simp add: Sov_groups7)
qed

lemma schema_size_nonneg: "0 \<le> schema_size u"
  by (simp add: schema_size_def field_size_def)

interpretation bytes_sizer: sizer_laws "LogsBytesSizer res scs xs"
  for res :: "'re \<Rightarrow> nat" and scs :: "'sc \<Rightarrow> nat" and xs :: "'x \<Rightarrow> nat"
proof unfold_locales
  fix a b :: int
  assume "0 \<le> a" "a \<le> b" "b \<le> max_i64"
  then show "sz_delta (LogsBytesSizer res scs xs) a - a \<le> sz_delta (LogsBytesSizer res scs xs) b - b"
    using Sov_mono_int by (simp add: LogsBytesSizer_def DeltaSize_field_size field_size_def)
qed (simp_all add: LogsBytesSizer_def Logs_proto_size_def ResourceLogs_proto_size_def
      ScopeLogs_proto_size_def DeltaSize_field_size field_size_def schema_size_nonneg)

section \<open>Requests\<close>

text \<open>
  \<open>logsRequest\<close> (logs.go): the payload and its cached size, \<open>-1\<close> when it is not known. A request
  of another type offered for merging is \<open>OtherRequest\<close>.
\<close>

record ('re, 'sc, 'x) request =
  rq_ld :: "('re, 'sc, 'x) payload"
  rq_cachedSize :: int

datatype ('re, 'sc, 'x) any_request = LogsRequest "('re, 'sc, 'x) request" | OtherRequest

datatype merge_error = UnknownSizerType | InvalidInputType | ItemGreaterThanMaxSize nat

type_synonym ('re, 'sc, 'x) split_result =
  "('re, 'sc, 'x) request list \<times> merge_error option \<times> ('re, 'sc, 'x) request"

definition newLogsRequest :: "('re, 'sc, 'x) payload \<Rightarrow> ('re, 'sc, 'x) request" where
  "newLogsRequest ld = \<lparr>rq_ld = ld, rq_cachedSize = -1\<rparr>"

definition request_size :: "('re, 'sc, 'x) sizer \<Rightarrow> ('re, 'sc, 'x) request \<Rightarrow> int \<times> ('re, 'sc, 'x) request" where
  "request_size sz req =
     (let req' = (if rq_cachedSize req = -1 then req\<lparr>rq_cachedSize := sz_payload sz (rq_ld req)\<rparr> else req)
      in (rq_cachedSize req', req'))"

definition setCachedSize :: "int \<Rightarrow> ('re, 'sc, 'x) request \<Rightarrow> ('re, 'sc, 'x) request" where
  "setCachedSize n req = req\<lparr>rq_cachedSize := n\<rparr>"

definition ItemsCount :: "('re, 'sc, 'x) request \<Rightarrow> nat" where
  "ItemsCount req = LogRecordCount (rq_ld req)"

text \<open>\<open>req.mergeTo(dst, sz)\<close>: the emptied request and the merged destination.\<close>

definition mergeTo ::
  "('re, 'sc, 'x) sizer option \<Rightarrow> ('re, 'sc, 'x) request \<Rightarrow> ('re, 'sc, 'x) request \<Rightarrow>
   ('re, 'sc, 'x) request \<times> ('re, 'sc, 'x) request" where
  "mergeTo osz req dst =
     (case (case osz of
              None \<Rightarrow> (req, dst)
            | Some sz \<Rightarrow>
                (case request_size sz dst of (n1, dst1) \<Rightarrow>
                 case request_size sz req of (n2, req1) \<Rightarrow>
                   (setCachedSize 0 req1, setCachedSize (n1 + n2) dst1))) of
        (req', dst') \<Rightarrow> (req'\<lparr>rq_ld := []\<rparr>, dst'\<lparr>rq_ld := rq_ld dst' @ rq_ld req'\<rparr>))"

lemma extractLogs_shrinks:
  "(src', ld, n) = extractLogs sz d c \<Longrightarrow> 0 < LogRecordCount ld \<Longrightarrow> LogRecordCount src' < LogRecordCount d"
  using extractLogs_count [of sz d c src' ld n] by simp

text \<open>
  \<open>req.split(maxSize, sz)\<close>: the results, the error, and the state the receiver is left in (on
  success the receiver is the last result). Every round that goes on has extracted at least one
  item.
\<close>

function split_request ::
  "('re, 'sc, 'x) sizer \<Rightarrow> int \<Rightarrow> ('re, 'sc, 'x) request \<Rightarrow> ('re, 'sc, 'x) split_result" where
  "split_request sz maxSize req =
     (case request_size sz req of (n, req1) \<Rightarrow>
        if maxSize < n
        then case extractLogs sz (rq_ld req1) maxSize of (src', ld, removedSize) \<Rightarrow>
               let req2 = req1\<lparr>rq_ld := src'\<rparr>
               in if LogRecordCount ld = 0
                  then ([], Some (ItemGreaterThanMaxSize (LogRecordCount src')), req2)
                  else case split_request sz maxSize (setCachedSize (n - removedSize) req2) of
                         (res, err, req') \<Rightarrow> (newLogsRequest ld # res, err, req')
        else ([req1], None, req1))"
  by pat_completeness auto

termination
  by (relation "measure (\<lambda>(sz, maxSize, req). LogRecordCount (rq_ld req))")
    (auto simp: request_size_def Let_def setCachedSize_def intro: extractLogs_shrinks split: if_splits)

declare split_request.simps [simp del]

type_synonym ('re, 'sc, 'x) leaf_sizes = "('re \<Rightarrow> nat) \<times> ('sc \<Rightarrow> nat) \<times> ('x \<Rightarrow> nat)"

definition MergeSplit ::
  "('re, 'sc, 'x) leaf_sizes \<Rightarrow> int \<Rightarrow> SizerType \<Rightarrow> ('re, 'sc, 'x) request \<Rightarrow>
   ('re, 'sc, 'x) any_request option \<Rightarrow> ('re, 'sc, 'x) split_result" where
  "MergeSplit leaves maxSize szt req r2 =
     (case (case szt of
              SizerTypeItems \<Rightarrow> Some LogsCountSizer
            | SizerTypeBytes \<Rightarrow> (case leaves of (res, scs, xs) \<Rightarrow> Some (LogsBytesSizer res scs xs))
            | _ \<Rightarrow> None) of
        None \<Rightarrow> ([], Some UnknownSizerType, req)
      | Some sz \<Rightarrow>
          (let split = (\<lambda>req. if maxSize = 0 then ([req], None, req) else split_request sz maxSize req)
           in case r2 of
                None \<Rightarrow> split req
              | Some OtherRequest \<Rightarrow> ([], Some InvalidInputType, req)
              | Some (LogsRequest req2) \<Rightarrow> split (snd (mergeTo (Some sz) req2 req))))"

section \<open>Splitting: conservation, sizes, progress\<close>

definition cache_ok :: "('re, 'sc, 'x) sizer \<Rightarrow> ('re, 'sc, 'x) request \<Rightarrow> bool" where
  "cache_ok sz req \<longleftrightarrow> rq_cachedSize req = -1 \<or> rq_cachedSize req = sz_payload sz (rq_ld req)"

lemma request_size_ld [simp]: "rq_ld (snd (request_size sz req)) = rq_ld req"
  by (simp add: request_size_def Let_def)

lemma request_size_exact:
  "cache_ok sz req \<Longrightarrow> request_size sz req =
     (sz_payload sz (rq_ld req), req\<lparr>rq_cachedSize := sz_payload sz (rq_ld req)\<rparr>)"
  by (auto simp: request_size_def Let_def cache_ok_def)

definition results_flat ::
  "('re, 'sc, 'x) request list \<Rightarrow> ('re \<times> string \<times> 'sc \<times> string \<times> 'x) list" where
  "results_flat rs = concat (map (payload_flat \<circ> rq_ld) rs)"

lemma results_flat_Cons [simp]:
  "results_flat [] = []" "results_flat (r # rs) = payload_flat (rq_ld r) @ results_flat rs"
  by (simp_all add: results_flat_def)

lemma split_request_rounds [case_names fits drop round]:
  assumes fits: "\<And>req n req1. request_size sz req = (n, req1) \<Longrightarrow> n \<le> m \<Longrightarrow> P req ([req1], None, req1)"
    and drop: "\<And>req n req1 src' ld rm. request_size sz req = (n, req1) \<Longrightarrow> m < n \<Longrightarrow>
        extractLogs sz (rq_ld req1) m = (src', ld, rm) \<Longrightarrow> LogRecordCount ld = 0 \<Longrightarrow>
        P req ([], Some (ItemGreaterThanMaxSize (LogRecordCount src')), req1\<lparr>rq_ld := src'\<rparr>)"
    and round: "\<And>req n req1 src' ld rm res err req'. request_size sz req = (n, req1) \<Longrightarrow> m < n \<Longrightarrow>
        extractLogs sz (rq_ld req1) m = (src', ld, rm) \<Longrightarrow> 0 < LogRecordCount ld \<Longrightarrow>
        P (setCachedSize (n - rm) (req1\<lparr>rq_ld := src'\<rparr>)) (res, err, req') \<Longrightarrow>
        P req (newLogsRequest ld # res, err, req')"
  shows "P req (split_request sz m req)"
proof (induction sz\<equiv>sz m\<equiv>m req rule: split_request.induct)
  case (1 req)
  obtain n req1 where size: "request_size sz req = (n, req1)" by force
  obtain src' ld rm where ex: "extractLogs sz (rq_ld req1) m = (src', ld, rm)" by (metis prod_cases3)
  let ?req2 = "setCachedSize (n - rm) (req1\<lparr>rq_ld := src'\<rparr>)"
  obtain res err req' where rec: "split_request sz m ?req2 = (res, err, req')" by (metis prod_cases3)
  have "m < n \<Longrightarrow> 0 < LogRecordCount ld \<Longrightarrow> P ?req2 (res, err, req')"
    using "1" [OF size [symmetric] _ ex [symmetric] refl refl] rec by simp
  with fits [OF size] drop [OF size _ ex] round [OF size _ ex] show ?case
    by (subst split_request.simps) (simp add: size ex rec Let_def)
qed

lemma split_request_flat:
  "case split_request sz m req of
      (res, None, req') \<Rightarrow> results_flat res = payload_flat (rq_ld req) \<and> res \<noteq> [] \<and> last res = req'
    | (res, Some e, req') \<Rightarrow> e = ItemGreaterThanMaxSize (ItemsCount req') \<and>
        results_flat res @ payload_flat (rq_ld req') = payload_flat (rq_ld req)"
proof (induction req rule: split_request_rounds [where sz = sz and m = m])
  case (fits req n req1)
  then show ?case by (metis (mono_tags, lifting) append_Nil2 case_prod_conv last_ConsL list.distinct(1) option.simps(4)
        request_size_ld results_flat_Cons snd_conv)
next
  case (drop req n req1 src' ld rm)
  then have "rq_ld req1 = rq_ld req" by (metis request_size_ld snd_conv)
  moreover have "payload_flat ld = []" using drop(4) length_payload_flat [of ld] by simp
  ultimately show ?case using extractLogs_conserves [OF drop(3)] by (simp add: ItemsCount_def)
next
  case (round req n req1 src' ld rm res err req')
  then have "rq_ld req1 = rq_ld req" by (metis request_size_ld snd_conv)
  then show ?case using round(5) extractLogs_conserves [OF round(3)]
    by (auto simp: newLogsRequest_def setCachedSize_def split: option.splits)
qed

lemma cache_ok_new [simp]: "cache_ok sz (newLogsRequest ld)"
  by (simp add: cache_ok_def newLogsRequest_def)

context sizer_laws begin

lemma split_request_sizes:
  assumes "0 \<le> m" and "m \<le> max_i64"
  shows "cache_ok sz req \<Longrightarrow>
    (case split_request sz m req of (res, err, req') \<Rightarrow>
       \<forall>r \<in> set res. sz_payload sz (rq_ld r) \<le> m \<and> cache_ok sz r)"
proof (induction req rule: split_request_rounds [where sz = sz and m = m])
  case (fits req n req1)
  then show ?case by (auto simp: request_size_exact cache_ok_def)
next
  case (drop req n req1 src' ld rm)
  then show ?case by simp
next
  case (round req n req1 src' ld rm res err req')
  then have n: "n = sz_payload sz (rq_ld req)" "rq_ld req1 = rq_ld req"
    by (auto simp: request_size_exact)
  with extractLogs_sizes(1) [OF round(3)]
  have "cache_ok sz (setCachedSize (n - rm) (req1\<lparr>rq_ld := src'\<rparr>))"
    by (simp add: cache_ok_def setCachedSize_def)
  with round(5) extractLogs_sizes(2) [OF round(3) assms] show ?case
    by (auto simp: newLogsRequest_def cache_ok_def)
qed

end

section \<open>The count sizer fills every batch\<close>

locale chunk_count = chunk_order "\<lambda>n. n" sizeof part nonempty flat
  for sizeof :: "'a \<Rightarrow> int" and part :: "'a \<Rightarrow> int \<Rightarrow> 'a \<times> 'a \<times> int"
    and nonempty :: "'a \<Rightarrow> bool" and flat :: "'a \<Rightarrow> 'i list" +
  assumes sizeof_flat: "sizeof x = int (length (flat x))"
    and part_count: "part x c = (x', e, n) \<Longrightarrow> 0 < c \<Longrightarrow> c < sizeof x \<Longrightarrow>
        nonempty e \<and> int (length (flat e)) = c"
begin

lemma chunk_fills:
  "remove_if (chunk_step (\<lambda>n. n) sizeof part nonempty) (c, rm, dest) xs = ((c', rm', dest'), rest) \<Longrightarrow>
   0 \<le> c \<Longrightarrow>
   int (length (flats dest')) = int (length (flats dest)) + min c (int (length (flats xs)))"
proof (induction xs arbitrary: c rm dest c' rm' dest' rest)
  case (Cons x xs)
  show ?case
  proof (cases "c = 0")
    case True
    with Cons.prems chunk_stopped [of "\<lambda>n. n" sizeof part nonempty rm dest "x # xs"] show ?thesis by auto
  next
    case nz: False
    show ?thesis
    proof (cases "c < sizeof x")
      case True
      obtain x' e n where p: "part x c = (x', e, n)" by (metis prod_cases3)
      have "dest' = (if nonempty e then dest @ [e] else dest)"
        using Cons.prems(1) unfolding part_step [OF nz True p] by simp
      moreover have "nonempty e \<and> int (length (flat e)) = c"
        using part_count [OF p] Cons.prems(2) nz True by simp
      ultimately show ?thesis using True by (simp add: sizeof_flat)
    next
      case False
      from Cons.IH [OF Cons.prems(1) [unfolded full_step [OF nz False]]] False show ?thesis
        by (simp add: sizeof_flat)
    qed
  qed
qed auto

end

lemma count_sizer_simps [simp]:
  "sz_delta LogsCountSizer = (\<lambda>n. n)" "sz_item LogsCountSizer = (\<lambda>_. 1)"
  "sz_scope LogsCountSizer sl = int (length (sd_items sl))"
  "sz_resource LogsCountSizer rl = (\<Sum>sl\<leftarrow>rd_scopes rl. int (length (sd_items sl)))"
  "sz_payload LogsCountSizer ld = int (LogRecordCount ld)"
  by (simp_all add: LogsCountSizer_def)

lemma length_scope_flat [simp]: "length (scope_flat sl) = length (sd_items sl)"
  by (simp add: scope_flat_def)

lemma length_resource_flat: "int (length (resource_flat rl)) = sz_resource LogsCountSizer rl"
  by (simp add: resource_flat_def length_concat o_def int_sum_list)

interpretation count_items: chunk_count "\<lambda>_. 1" "\<lambda>x c. (x, x, 0)" "\<lambda>_. False" "\<lambda>x. [x]"
  by unfold_locales auto

lemma count_extractScope:
  fixes sl :: "('sc, 'x) scope_data"
  assumes "extractScopeLogs (LogsCountSizer :: ('re, 'sc, 'x) sizer) sl c = (sl', e, n)" and "0 \<le> c"
  shows "int (length (sd_items e)) = min c (int (length (sd_items sl)))"
proof -
  obtain c' dest rest where
    r: "remove_if (extractScopeLogs_step (LogsCountSizer :: ('re, 'sc, 'x) sizer)) (c, 0, []) (sd_items sl) = ((c', n, dest), rest)"
    and eqs: "e = sl\<lparr>sd_items := dest\<rparr>"
    using assms(1) by (auto simp: extractScopeLogs_def Let_def split: prod.splits)
  from count_items.chunk_fills [OF r [unfolded step_chunk count_sizer_simps] assms(2)] show ?thesis
    by (simp add: eqs)
qed

interpretation count_scopes: chunk_count "\<lambda>sl. int (length (sd_items sl))"
    "extractScopeLogs (LogsCountSizer :: ('re, 'sc, 'x) sizer)" "\<lambda>e. sd_items e \<noteq> []" scope_flat
proof unfold_locales
  fix x :: "('sc, 'x) scope_data" and c x' e n
  assume "extractScopeLogs (LogsCountSizer :: ('re, 'sc, 'x) sizer) x c = (x', e, n)" "0 < c" "c < int (length (sd_items x))"
  with count_extractScope [of x c x' e n]
  show "sd_items e \<noteq> [] \<and> int (length (scope_flat e)) = c" by auto
qed (auto dest: extractScopeLogs_conserves(1) simp: scope_flat_def)

lemma count_extractResource:
  fixes rl :: "('re, 'sc, 'x) resource_data"
  assumes "extractResourceLogs LogsCountSizer rl c = (rl', e, n)" and "0 \<le> c"
  shows "int (length (resource_flat e)) = min c (int (length (resource_flat rl)))"
proof -
  obtain c' dest rest where
    r: "remove_if (extractResourceLogs_step (LogsCountSizer :: ('re, 'sc, 'x) sizer)) (c, 0, []) (rd_scopes rl)
        = ((c', n, dest), rest)"
    and eqs: "e = rl\<lparr>rd_scopes := dest\<rparr>"
    using assms(1) by (auto simp: extractResourceLogs_def Let_def split: prod.splits)
  from count_scopes.chunk_fills [OF r [unfolded step_chunk count_sizer_simps] assms(2)] show ?thesis
    by (simp add: eqs resource_flat_def)
qed

interpretation count_resources: chunk_count "sz_resource LogsCountSizer"
    "extractResourceLogs LogsCountSizer" "\<lambda>e. rd_scopes e \<noteq> []" resource_flat
proof unfold_locales
  fix x :: "('re, 'sc, 'x) resource_data" and c x' e n
  assume "extractResourceLogs LogsCountSizer x c = (x', e, n)" "0 < c" "c < sz_resource LogsCountSizer x"
  with count_extractResource [of x c x' e n] length_resource_flat [of x]
  have "int (length (resource_flat e)) = c" by simp
  moreover from this have "rd_scopes e \<noteq> []" using \<open>0 < c\<close> by (auto simp: resource_flat_def)
  ultimately show "rd_scopes e \<noteq> [] \<and> int (length (resource_flat e)) = c" by simp
next
  fix x :: "('re, 'sc, 'x) resource_data"
  show "sz_resource LogsCountSizer x = int (length (resource_flat x))"
    by (rule length_resource_flat [symmetric])
qed

lemma count_extractLogs:
  fixes ld :: "('re, 'sc, 'x) payload"
  assumes "extractLogs LogsCountSizer ld c = (ld', e, n)" and "0 \<le> c"
  shows "int (LogRecordCount e) = min c (int (LogRecordCount ld))"
proof -
  obtain c' where
    r: "remove_if (extractLogs_step LogsCountSizer) (c, 0, []) ld = ((c', n, e), ld')"
    using assms(1) by (auto simp: extractLogs_def Let_def LogRecordCount_def split: prod.splits)
  have "sz_delta LogsCountSizer = (\<lambda>n. n)" by simp
  from count_resources.chunk_fills [OF r [unfolded step_chunk this] assms(2)] show ?thesis
    by (simp add: length_payload_flat [symmetric] payload_flat_def)
qed

text \<open>
  With the items sizer and a positive limit the split never fails: the requests before the last
  one hold exactly the limit and the last one the rest.
\<close>

definition filled :: "int \<Rightarrow> ('re, 'sc, 'x) request list \<Rightarrow> bool" where
  "filled m rs \<longleftrightarrow> rs \<noteq> [] \<and> (\<forall>r \<in> set (butlast rs). int (ItemsCount r) = m) \<and>
     int (ItemsCount (last rs)) \<le> m \<and> (2 \<le> length rs \<longrightarrow> 0 < ItemsCount (last rs))"

lemma split_request_filled:
  assumes "0 < m"
  shows "cache_ok LogsCountSizer req \<Longrightarrow>
    (case split_request LogsCountSizer m req of (res, err, req') \<Rightarrow> err = None \<and> filled m res \<and>
       (0 < ItemsCount req \<longrightarrow> 0 < ItemsCount (last res)))"
proof (induction req rule: split_request_rounds [where sz = LogsCountSizer and m = m])
  case (fits req n req1)
  then show ?case by (auto simp: request_size_exact filled_def ItemsCount_def)
next
  case (drop req n req1 src' ld rm)
  with count_extractLogs [OF drop(3)] assms show ?case by (auto simp: request_size_exact)
next
  case (round req n req1 src' ld rm res err req')
  then have n: "n = int (LogRecordCount (rq_ld req))" "rq_ld req1 = rq_ld req"
    by (auto simp: request_size_exact)
  with count_sizer.extractLogs_sizes(1) [OF round(3)]
  have "cache_ok LogsCountSizer (setCachedSize (n - rm) (req1\<lparr>rq_ld := src'\<rparr>))"
    by (simp add: cache_ok_def setCachedSize_def)
  moreover have "int (LogRecordCount ld) = m"
    using count_extractLogs [OF round(3)] assms round(2) n by simp
  moreover have "0 < LogRecordCount src'"
    using extractLogs_count [OF round(3)] calculation(2) round(2) n by simp
  ultimately show ?case using round(5)
    by (auto simp: filled_def ItemsCount_def newLogsRequest_def setCachedSize_def)
qed

section \<open>Merging and splitting\<close>

fun merge_flat ::
  "('re, 'sc, 'x) request \<Rightarrow> ('re, 'sc, 'x) any_request option \<Rightarrow> ('re \<times> string \<times> 'sc \<times> string \<times> 'x) list" where
  "merge_flat req (Some (LogsRequest req2)) = payload_flat (rq_ld req) @ payload_flat (rq_ld req2)"
| "merge_flat req _ = payload_flat (rq_ld req)"

lemma mergeTo_flat: "payload_flat (rq_ld (snd (mergeTo osz req2 req))) =
    payload_flat (rq_ld req) @ payload_flat (rq_ld req2)"
  by (auto simp: mergeTo_def request_size_def setCachedSize_def payload_flat_def Let_def
      split: option.splits)

lemma payload_size_append: "sizer_laws sz \<Longrightarrow> sz_payload sz (a @ b) = sz_payload sz a + sz_payload sz b"
  by (simp add: sizer_laws.payload_sum)

lemma mergeTo_cache_ok:
  "sizer_laws sz \<Longrightarrow> cache_ok sz req \<Longrightarrow> cache_ok sz req2 \<Longrightarrow> cache_ok sz (snd (mergeTo (Some sz) req2 req))"
  by (simp add: mergeTo_def request_size_exact cache_ok_def setCachedSize_def payload_size_append)

fun sizer_of :: "('re, 'sc, 'x) leaf_sizes \<Rightarrow> SizerType \<Rightarrow> ('re, 'sc, 'x) sizer option" where
  "sizer_of leaves SizerTypeItems = Some LogsCountSizer"
| "sizer_of (res, scs, xs) SizerTypeBytes = Some (LogsBytesSizer res scs xs)"
| "sizer_of leaves _ = None"

fun merge_input :: "('re, 'sc, 'x) sizer \<Rightarrow> ('re, 'sc, 'x) request \<Rightarrow>
    ('re, 'sc, 'x) any_request option \<Rightarrow> ('re, 'sc, 'x) request" where
  "merge_input sz req (Some (LogsRequest req2)) = snd (mergeTo (Some sz) req2 req)"
| "merge_input sz req _ = req"

fun input_cache_ok :: "('re, 'sc, 'x) sizer \<Rightarrow> ('re, 'sc, 'x) any_request option \<Rightarrow> bool" where
  "input_cache_ok sz (Some (LogsRequest req2)) = cache_ok sz req2"
| "input_cache_ok sz _ = True"

lemma sizer_of_laws: "sizer_of leaves szt = Some sz \<Longrightarrow> sizer_laws sz"
  by (cases "(leaves, szt)" rule: sizer_of.cases)
    (auto intro: count_sizer.sizer_laws_axioms bytes_sizer.sizer_laws_axioms)

lemma MergeSplit_cases:
  "MergeSplit leaves m szt req r2 =
     (case sizer_of leaves szt of
        None \<Rightarrow> ([], Some UnknownSizerType, req)
      | Some sz \<Rightarrow> if r2 = Some OtherRequest then ([], Some InvalidInputType, req)
          else if m = 0 then ([merge_input sz req r2], None, merge_input sz req r2)
          else split_request sz m (merge_input sz req r2))"
  by (cases "(sz_payload undefined, leaves, szt)"; cases szt)
    (auto simp: MergeSplit_def Let_def split: option.splits prod.splits any_request.splits)

lemma merge_input_flat: "payload_flat (rq_ld (merge_input sz req r2)) = merge_flat req r2"
  by (cases "(sz, req, r2)" rule: merge_input.cases) (auto simp: mergeTo_flat)

lemma merge_input_cache_ok:
  "sizer_laws sz \<Longrightarrow> cache_ok sz req \<Longrightarrow> input_cache_ok sz r2 \<Longrightarrow> cache_ok sz (merge_input sz req r2)"
  by (cases "(sz, req, r2)" rule: merge_input.cases) (auto simp: mergeTo_cache_ok)

lemma MergeSplit_keeps:
  "case MergeSplit leaves m szt req r2 of
     (res, None, req') \<Rightarrow> results_flat res = merge_flat req r2 \<and> res \<noteq> [] \<and> last res = req'
   | (res, Some (ItemGreaterThanMaxSize k), req') \<Rightarrow>
       results_flat res @ payload_flat (rq_ld req') = merge_flat req r2 \<and> k = ItemsCount req'
   | (res, Some UnknownSizerType, req') \<Rightarrow>
       szt \<notin> {SizerTypeItems, SizerTypeBytes} \<and> res = [] \<and> req' = req
   | (res, Some InvalidInputType, req') \<Rightarrow> r2 = Some OtherRequest \<and> res = [] \<and> req' = req"
proof (cases "sizer_of leaves szt")
  case None
  then have "szt \<notin> {SizerTypeItems, SizerTypeBytes}" by (cases leaves; cases szt) auto
  with None show ?thesis by (simp add: MergeSplit_cases)
next
  case (Some sz)
  with split_request_flat [where sz = sz and m = m and req = "merge_input sz req r2"] show ?thesis
    by (auto simp: MergeSplit_cases merge_input_flat split: option.splits prod.splits)
qed

text \<open>
  C3. \<open>logsRequest.MergeSplit\<close> neither loses, duplicates nor reorders a log record, and keeps each
  one under its resource, scope and schema URLs: read in order, the returned requests hold
  exactly the records of the receiver followed by those of the merged request. When a record is
  too big, the results and the records left in the receiver together are those records and the
  error counts the ones left. The two other errors leave the receiver as it was.
\<close>

theorem MergeSplit_conserves:
  "case MergeSplit leaves m szt req r2 of
     (res, None, req') \<Rightarrow> results_flat res = merge_flat req r2 \<and> res \<noteq> [] \<and> last res = req'
   | (res, Some (ItemGreaterThanMaxSize k), req') \<Rightarrow>
       results_flat res @ payload_flat (rq_ld req') = merge_flat req r2 \<and> k = ItemsCount req'
   | (res, Some UnknownSizerType, req') \<Rightarrow>
       szt \<notin> {SizerTypeItems, SizerTypeBytes} \<and> res = [] \<and> req' = req
   | (res, Some InvalidInputType, req') \<Rightarrow> r2 = Some OtherRequest \<and> res = [] \<and> req' = req"
  by (rule MergeSplit_keeps)

lemma MergeSplit_sizes:
  assumes "sizer_of leaves szt = Some sz" and "0 < m" and "m \<le> max_i64"
    and "cache_ok sz req" and "input_cache_ok sz r2"
    and "MergeSplit leaves m szt req r2 = (res, err, req')"
  shows "\<forall>r \<in> set res. sz_payload sz (rq_ld r) \<le> m \<and> cache_ok sz r"
proof (cases "r2 = Some OtherRequest")
  case True
  with assms show ?thesis by (auto simp: MergeSplit_cases)
next
  case False
  with assms have split: "split_request sz m (merge_input sz req r2) = (res, err, req')"
    by (simp add: MergeSplit_cases)
  note laws = sizer_of_laws [OF assms(1)]
  from sizer_laws.split_request_sizes [OF laws _ assms(3) merge_input_cache_ok [OF laws assms(4,5)]]
  show ?thesis using assms(2) split by auto
qed

text \<open>
  C4. With a positive limit every request \<open>MergeSplit\<close> returns is within the limit, measured in
  the configured unit (log records or encoded bytes, the latter for every encoded size of the
  resources, scopes and records), and its cached size is right or unset. The size caches of the
  inputs are taken to be right or unset, which is how requests are created and what this theorem
  shows to be kept.
\<close>

theorem MergeSplit_size_bound:
  assumes "sizer_of leaves szt = Some sz" and "0 < m" and "m \<le> max_i64"
    and "cache_ok sz req" and "input_cache_ok sz r2"
    and "MergeSplit leaves m szt req r2 = (res, err, req')"
  shows "\<forall>r \<in> set res. sz_payload sz (rq_ld r) \<le> m \<and> cache_ok sz r"
  using MergeSplit_sizes [OF assms] .

definition sample_scope :: "'x list \<Rightarrow> (nat, 'x) scope_data" where
  "sample_scope xs = \<lparr>sd_scope = 0, sd_schema = '''', sd_items = xs\<rparr>"

definition sample_request :: "'x list list \<Rightarrow> (nat, nat, 'x) request" where
  "sample_request xss =
     newLogsRequest (map (\<lambda>xs. \<lparr>rd_resource = 0, rd_schema = '''', rd_scopes = [sample_scope xs]\<rparr>) xss)"

theorem MergeSplit_size_bound_witness:
  "list_all (\<lambda>r. sz_payload (LogsBytesSizer id id id) (rq_ld r) \<le> 40 \<and> cache_ok (LogsBytesSizer id id id) r)
     (fst (MergeSplit (id, id, id) 40 SizerTypeBytes (sample_request [[7, 8, 9]])
             (Some (LogsRequest (sample_request [[5, 6]])))))"
  using MergeSplit_size_bound [of "(id, id, id)" SizerTypeBytes "LogsBytesSizer id id id" 40
      "sample_request [[7, 8, 9]]" "Some (LogsRequest (sample_request [[5, 6]]))"
      "fst (MergeSplit (id, id, id) 40 SizerTypeBytes (sample_request [[7, 8, 9]])
                     (Some (LogsRequest (sample_request [[5, 6]]))))"]
  by (auto simp: max_i64_def sample_request_def prod_eq_iff list_all_iff)

lemma MergeSplit_packs:
  assumes "0 < m" and "r2 \<noteq> Some OtherRequest"
    and "cache_ok LogsCountSizer req" and "input_cache_ok LogsCountSizer r2"
    and "MergeSplit leaves m SizerTypeItems req r2 = (res, err, req')"
  shows "err = None \<and> filled m res \<and> (merge_flat req r2 \<noteq> [] \<longrightarrow> 0 < ItemsCount (last res))"
proof -
  let ?in = "merge_input LogsCountSizer req r2"
  have split: "split_request LogsCountSizer m ?in = (res, err, req')"
    using assms by (simp add: MergeSplit_cases)
  have "cache_ok LogsCountSizer ?in"
    using merge_input_cache_ok [OF count_sizer.sizer_laws_axioms assms(3,4)] .
  from split_request_filled [OF assms(1) this] split
  have "err = None \<and> filled m res \<and> (0 < ItemsCount ?in \<longrightarrow> 0 < ItemsCount (last res))" by simp
  moreover have "ItemsCount ?in = length (merge_flat req r2)"
    by (simp add: ItemsCount_def length_payload_flat [symmetric] merge_input_flat)
  ultimately show ?thesis by auto
qed

text \<open>Evaluation on one input: a full request and the rest.\<close>

text \<open>
  C5. With the items sizer and a positive limit \<open>MergeSplit\<close> never fails and packs tightly: every
  returned request but the last holds exactly \<open>m\<close> records, and the last one holds the rest,
  which is not empty when there was anything to send.
\<close>

theorem MergeSplit_items_filled:
  assumes "0 < m" and "r2 \<noteq> Some OtherRequest"
    and "cache_ok LogsCountSizer req" and "input_cache_ok LogsCountSizer r2"
    and "MergeSplit leaves m SizerTypeItems req r2 = (res, err, req')"
  shows "err = None \<and> filled m res \<and> (merge_flat req r2 \<noteq> [] \<longrightarrow> 0 < ItemsCount (last res))"
  using MergeSplit_packs [OF assms] .

theorem MergeSplit_items_filled_witness:
  "filled 2 (fst (MergeSplit (id, id, id) 2 SizerTypeItems (sample_request [[7, 8 :: nat]])
                    (Some (LogsRequest (sample_request [[5]])))))"
  using MergeSplit_items_filled [of 2 "Some (LogsRequest (sample_request [[5 :: nat]]))"
      "sample_request [[7, 8]]" "(id, id, id)"]
  by (auto simp: sample_request_def prod_eq_iff)


end
