(* ===== verification/TracesBatch.thy ===== *)
theory TracesBatch
  imports BatchSplit
begin

text \<open>
  Merging and splitting of trace requests: exporter/exporterhelper/internal/queuebatch
  (traces\_batch.go and the request part of traces.go) and the trace sizers of
  exporter/exporterhelper/internal/sizer. The code is a second copy of the logs code; it is
  translated on its own and related to the logs model by a functional refinement, through which
  the results of the logs theory carry over.
\<close>

section \<open>Sizers and extraction\<close>

text \<open>As for logs, the payloads have no deprecated scopes, whose summand of \<open>SizeProto\<close> is left out.\<close>

definition ScopeSpans_proto_size ::
  "('sc \<Rightarrow> nat) \<Rightarrow> ('x \<Rightarrow> nat) \<Rightarrow> ('sc, 'x) scope_data \<Rightarrow> int" where
  "ScopeSpans_proto_size scs xs ss =
     field_size (int (scs (sd_scope ss))) + (\<Sum>x\<leftarrow>sd_items ss. field_size (int (xs x)))
     + schema_size (sd_schema ss)"

definition ResourceSpans_proto_size ::
  "('re \<Rightarrow> nat) \<Rightarrow> ('sc \<Rightarrow> nat) \<Rightarrow> ('x \<Rightarrow> nat) \<Rightarrow> ('re, 'sc, 'x) resource_data \<Rightarrow> int" where
  "ResourceSpans_proto_size res scs xs rs =
     field_size (int (res (rd_resource rs)))
     + (\<Sum>ss\<leftarrow>rd_scopes rs. field_size (ScopeSpans_proto_size scs xs ss))
     + schema_size (rd_schema rs)"

definition Traces_proto_size ::
  "('re \<Rightarrow> nat) \<Rightarrow> ('sc \<Rightarrow> nat) \<Rightarrow> ('x \<Rightarrow> nat) \<Rightarrow> ('re, 'sc, 'x) payload \<Rightarrow> int" where
  "Traces_proto_size res scs xs td = (\<Sum>rs\<leftarrow>td. field_size (ResourceSpans_proto_size res scs xs rs))"

definition TracesBytesSizer ::
  "('re \<Rightarrow> nat) \<Rightarrow> ('sc \<Rightarrow> nat) \<Rightarrow> ('x \<Rightarrow> nat) \<Rightarrow> ('re, 'sc, 'x) sizer" where
  "TracesBytesSizer res scs xs = \<lparr>
     sz_payload = Traces_proto_size res scs xs,
     sz_resource = ResourceSpans_proto_size res scs xs,
     sz_scope = ScopeSpans_proto_size scs xs,
     sz_item = (\<lambda>x. int (xs x)),
     sz_delta = DeltaSize\<rparr>"

fun extractScopeSpans_step ::
  "('re, 'sc, 'x) sizer \<Rightarrow> int \<times> int \<times> 'x list \<Rightarrow> 'x \<Rightarrow> (int \<times> int \<times> 'x list) \<times> 'x \<times> bool" where
  "extractScopeSpans_step sz (capacityLeft, removedSize, dest) srcSpan =
     (if capacityLeft = 0 then ((capacityLeft, removedSize, dest), srcSpan, False)
      else let rsSize = sz_delta sz (sz_item sz srcSpan)
           in if capacityLeft < rsSize then ((0, removedSize, dest), srcSpan, False)
              else ((capacityLeft - rsSize, removedSize + rsSize, dest @ [srcSpan]), srcSpan, True))"

definition extractScopeSpans ::
  "('re, 'sc, 'x) sizer \<Rightarrow> ('sc, 'x) scope_data \<Rightarrow> int \<Rightarrow>
   ('sc, 'x) scope_data \<times> ('sc, 'x) scope_data \<times> int" where
  "extractScopeSpans sz srcSS capacity =
     (let destSS = srcSS\<lparr>sd_items := []\<rparr>;
          capacityLeft = capacity - (sz_delta sz capacity - capacity) - sz_scope sz destSS
      in case remove_if (extractScopeSpans_step sz) (capacityLeft, 0, []) (sd_items srcSS) of
           ((_, removedSize, dest), rest) \<Rightarrow>
             (srcSS\<lparr>sd_items := rest\<rparr>, destSS\<lparr>sd_items := dest\<rparr>, removedSize))"

fun extractResourceSpans_step ::
  "('re, 'sc, 'x) sizer \<Rightarrow> int \<times> int \<times> ('sc, 'x) scope_data list \<Rightarrow> ('sc, 'x) scope_data \<Rightarrow>
   (int \<times> int \<times> ('sc, 'x) scope_data list) \<times> ('sc, 'x) scope_data \<times> bool" where
  "extractResourceSpans_step sz (capacityLeft, removedSize, dest) srcSS =
     (if capacityLeft = 0 then ((capacityLeft, removedSize, dest), srcSS, False)
      else let rawSlSize = sz_scope sz srcSS; ssSize = sz_delta sz rawSlSize
           in if capacityLeft < ssSize
              then case extractScopeSpans sz srcSS capacityLeft of (srcSS', extSrcSS, extSsSize) \<Rightarrow>
                     let removedSize' = removedSize + extSsSize
                           + (ssSize - rawSlSize
                              - (sz_delta sz (rawSlSize - extSsSize) - (rawSlSize - extSsSize)));
                         moved = 0 < length (sd_items extSrcSS);
                         lenAfterMove = (if moved then 0 else length (sd_items extSrcSS))
                     in ((0, removedSize', if moved then dest @ [extSrcSS] else dest),
                         srcSS', lenAfterMove \<noteq> 0)
              else ((capacityLeft - ssSize, removedSize + ssSize, dest @ [srcSS]), srcSS, True))"

definition extractResourceSpans ::
  "('re, 'sc, 'x) sizer \<Rightarrow> ('re, 'sc, 'x) resource_data \<Rightarrow> int \<Rightarrow>
   ('re, 'sc, 'x) resource_data \<times> ('re, 'sc, 'x) resource_data \<times> int" where
  "extractResourceSpans sz srcRS capacity =
     (let destRS = srcRS\<lparr>rd_scopes := []\<rparr>;
          capacityLeft = capacity - (sz_delta sz capacity - capacity) - sz_resource sz destRS
      in case remove_if (extractResourceSpans_step sz) (capacityLeft, 0, []) (rd_scopes srcRS) of
           ((_, removedSize, dest), rest) \<Rightarrow>
             (srcRS\<lparr>rd_scopes := rest\<rparr>, destRS\<lparr>rd_scopes := dest\<rparr>, removedSize))"

fun extractTraces_step ::
  "('re, 'sc, 'x) sizer \<Rightarrow> int \<times> int \<times> ('re, 'sc, 'x) payload \<Rightarrow> ('re, 'sc, 'x) resource_data \<Rightarrow>
   (int \<times> int \<times> ('re, 'sc, 'x) payload) \<times> ('re, 'sc, 'x) resource_data \<times> bool" where
  "extractTraces_step sz (capacityLeft, removedSize, dest) srcRS =
     (if capacityLeft = 0 then ((capacityLeft, removedSize, dest), srcRS, False)
      else let rawRsSize = sz_resource sz srcRS; rsSize = sz_delta sz rawRsSize
           in if capacityLeft < rsSize
              then case extractResourceSpans sz srcRS capacityLeft of (srcRS', extSrcRS, extRsSize) \<Rightarrow>
                     let removedSize' = removedSize + extRsSize
                           + (rsSize - rawRsSize
                              - (sz_delta sz (rawRsSize - extRsSize) - (rawRsSize - extRsSize)));
                         moved = 0 < length (rd_scopes extSrcRS);
                         lenAfterMove = (if moved then 0 else length (rd_scopes extSrcRS))
                     in ((0, removedSize', if moved then dest @ [extSrcRS] else dest),
                         srcRS', lenAfterMove \<noteq> 0)
              else ((capacityLeft - rsSize, removedSize + rsSize, dest @ [srcRS]), srcRS, True))"

definition extractTraces ::
  "('re, 'sc, 'x) sizer \<Rightarrow> ('re, 'sc, 'x) payload \<Rightarrow> int \<Rightarrow>
   ('re, 'sc, 'x) payload \<times> ('re, 'sc, 'x) payload \<times> int" where
  "extractTraces sz srcTraces capacity =
     (let capacityLeft = capacity - sz_payload sz []
      in case remove_if (extractTraces_step sz) (capacityLeft, 0, []) srcTraces of
           ((_, removedSize, dest), rest) \<Rightarrow> (rest, dest, removedSize))"

text \<open>The two copies compute the same functions.\<close>

lemma SpanCount_eq: "SpanCount = LogRecordCount"
  by (simp add: fun_eq_iff SpanCount_def LogRecordCount_def)

lemma TracesCountSizer_eq: "TracesCountSizer = LogsCountSizer"
  by (simp add: TracesCountSizer_def LogsCountSizer_def SpanCount_eq)

lemma TracesBytesSizer_eq: "TracesBytesSizer = LogsBytesSizer"
  by (simp add: fun_eq_iff TracesBytesSizer_def LogsBytesSizer_def Traces_proto_size_def
      Logs_proto_size_def ResourceSpans_proto_size_def ResourceLogs_proto_size_def
      ScopeSpans_proto_size_def ScopeLogs_proto_size_def)

lemma extractScopeSpans_step_eq: "extractScopeSpans_step = extractScopeLogs_step"
  by (auto simp: fun_eq_iff)

lemma extractScopeSpans_eq: "extractScopeSpans = extractScopeLogs"
  by (intro ext) (simp only: extractScopeSpans_def extractScopeLogs_def extractScopeSpans_step_eq)

lemma extractResourceSpans_step_eq: "extractResourceSpans_step = extractResourceLogs_step"
  by (auto simp: fun_eq_iff extractScopeSpans_eq Let_def split: prod.splits)

lemma extractResourceSpans_eq: "extractResourceSpans = extractResourceLogs"
  by (intro ext) (simp only: extractResourceSpans_def extractResourceLogs_def extractResourceSpans_step_eq)

lemma extractTraces_step_eq: "extractTraces_step = extractLogs_step"
  by (auto simp: fun_eq_iff extractResourceSpans_eq Let_def split: prod.splits)

lemma extractTraces_eq: "extractTraces = extractLogs"
  by (intro ext) (simp only: extractTraces_def extractLogs_def extractTraces_step_eq)

lemmas traces_eqs = SpanCount_eq TracesCountSizer_eq TracesBytesSizer_eq extractTraces_eq

section \<open>Requests\<close>

record ('re, 'sc, 'x) traces_request =
  tq_td :: "('re, 'sc, 'x) payload"
  tq_cachedSize :: int

datatype ('re, 'sc, 'x) any_traces_request =
  TracesRequest "('re, 'sc, 'x) traces_request" | OtherTracesRequest

type_synonym ('re, 'sc, 'x) traces_result =
  "('re, 'sc, 'x) traces_request list \<times> merge_error option \<times> ('re, 'sc, 'x) traces_request"

definition newTracesRequest :: "('re, 'sc, 'x) payload \<Rightarrow> ('re, 'sc, 'x) traces_request" where
  "newTracesRequest td = \<lparr>tq_td = td, tq_cachedSize = -1\<rparr>"

definition traces_size ::
  "('re, 'sc, 'x) sizer \<Rightarrow> ('re, 'sc, 'x) traces_request \<Rightarrow> int \<times> ('re, 'sc, 'x) traces_request" where
  "traces_size sz req =
     (let req' = (if tq_cachedSize req = -1 then req\<lparr>tq_cachedSize := sz_payload sz (tq_td req)\<rparr> else req)
      in (tq_cachedSize req', req'))"

definition traces_setCachedSize :: "int \<Rightarrow> ('re, 'sc, 'x) traces_request \<Rightarrow> ('re, 'sc, 'x) traces_request" where
  "traces_setCachedSize n req = req\<lparr>tq_cachedSize := n\<rparr>"

definition traces_ItemsCount :: "('re, 'sc, 'x) traces_request \<Rightarrow> nat" where
  "traces_ItemsCount req = SpanCount (tq_td req)"

definition traces_mergeTo ::
  "('re, 'sc, 'x) sizer option \<Rightarrow> ('re, 'sc, 'x) traces_request \<Rightarrow> ('re, 'sc, 'x) traces_request \<Rightarrow>
   ('re, 'sc, 'x) traces_request \<times> ('re, 'sc, 'x) traces_request" where
  "traces_mergeTo osz req dst =
     (case (case osz of
              None \<Rightarrow> (req, dst)
            | Some sz \<Rightarrow>
                (case traces_size sz dst of (n1, dst1) \<Rightarrow>
                 case traces_size sz req of (n2, req1) \<Rightarrow>
                   (traces_setCachedSize 0 req1, traces_setCachedSize (n1 + n2) dst1))) of
        (req', dst') \<Rightarrow> (req'\<lparr>tq_td := []\<rparr>, dst'\<lparr>tq_td := tq_td dst' @ tq_td req'\<rparr>))"

function split_traces ::
  "('re, 'sc, 'x) sizer \<Rightarrow> int \<Rightarrow> ('re, 'sc, 'x) traces_request \<Rightarrow> ('re, 'sc, 'x) traces_result" where
  "split_traces sz maxSize req =
     (case traces_size sz req of (n, req1) \<Rightarrow>
        if maxSize < n
        then case extractTraces sz (tq_td req1) maxSize of (src', td, rmSize) \<Rightarrow>
               let req2 = req1\<lparr>tq_td := src'\<rparr>
               in if SpanCount td = 0
                  then ([], Some (ItemGreaterThanMaxSize (SpanCount src')), req2)
                  else case split_traces sz maxSize (traces_setCachedSize (n - rmSize) req2) of
                         (res, err, req') \<Rightarrow> (newTracesRequest td # res, err, req')
        else ([req1], None, req1))"
  by pat_completeness auto

termination
  by (relation "measure (\<lambda>(sz, maxSize, req). SpanCount (tq_td req))")
    (auto simp: traces_size_def Let_def traces_setCachedSize_def traces_eqs
          intro: extractLogs_shrinks split: if_splits)

declare split_traces.simps [simp del]

definition traces_MergeSplit ::
  "('re, 'sc, 'x) leaf_sizes \<Rightarrow> int \<Rightarrow> SizerType \<Rightarrow> ('re, 'sc, 'x) traces_request \<Rightarrow>
   ('re, 'sc, 'x) any_traces_request option \<Rightarrow> ('re, 'sc, 'x) traces_result" where
  "traces_MergeSplit leaves maxSize szt req r2 =
     (case (case szt of
              SizerTypeItems \<Rightarrow> Some TracesCountSizer
            | SizerTypeBytes \<Rightarrow> (case leaves of (res, scs, xs) \<Rightarrow> Some (TracesBytesSizer res scs xs))
            | _ \<Rightarrow> None) of
        None \<Rightarrow> ([], Some UnknownSizerType, req)
      | Some sz \<Rightarrow>
          (let split = (\<lambda>req. if maxSize = 0 then ([req], None, req) else split_traces sz maxSize req)
           in case r2 of
                None \<Rightarrow> split req
              | Some OtherTracesRequest \<Rightarrow> ([], Some InvalidInputType, req)
              | Some (TracesRequest req2) \<Rightarrow> split (snd (traces_mergeTo (Some sz) req2 req))))"

section \<open>Refinement to the logs model\<close>

definition as_logs :: "('re, 'sc, 'x) traces_request \<Rightarrow> ('re, 'sc, 'x) request" where
  "as_logs req = \<lparr>rq_ld = tq_td req, rq_cachedSize = tq_cachedSize req\<rparr>"

fun as_any :: "('re, 'sc, 'x) any_traces_request \<Rightarrow> ('re, 'sc, 'x) any_request" where
  "as_any (TracesRequest req) = LogsRequest (as_logs req)"
| "as_any OtherTracesRequest = OtherRequest"

lemma as_logs_simps [simp]:
  "rq_ld (as_logs req) = tq_td req"
  "as_logs (req\<lparr>tq_td := td\<rparr>) = (as_logs req)\<lparr>rq_ld := td\<rparr>"
  "as_logs (traces_setCachedSize n req) = setCachedSize n (as_logs req)"
  "as_logs (newTracesRequest td) = newLogsRequest td"
  by (simp_all add: as_logs_def traces_setCachedSize_def setCachedSize_def newTracesRequest_def
      newLogsRequest_def)

lemma traces_size_logs: "map_prod id as_logs (traces_size sz req) = request_size sz (as_logs req)"
  by (simp add: traces_size_def request_size_def as_logs_def Let_def)

lemma traces_mergeTo_logs:
  "map_prod as_logs as_logs (traces_mergeTo osz req dst) = mergeTo osz (as_logs req) (as_logs dst)"
  by (cases osz)
    (simp_all add: traces_mergeTo_def mergeTo_def traces_size_def request_size_def as_logs_def
      traces_setCachedSize_def setCachedSize_def Let_def)

lemma split_traces_logs:
  "map_prod (map as_logs) (map_prod id as_logs) (split_traces sz m req) = split_request sz m (as_logs req)"
proof (induction sz m req rule: split_traces.induct)
  case (1 sz m req)
  obtain n req1 where size: "traces_size sz req = (n, req1)" by force
  obtain src' td rm where ex: "extractTraces sz (tq_td req1) m = (src', td, rm)" by (metis prod_cases3)
  let ?req2 = "traces_setCachedSize (n - rm) (req1\<lparr>tq_td := src'\<rparr>)"
  obtain res err req' where rec: "split_traces sz m ?req2 = (res, err, req')" by (metis prod_cases3)
  have "request_size sz (as_logs req) = (n, as_logs req1)"
    using size by (simp add: traces_size_logs [symmetric])
  moreover have "m < n \<Longrightarrow> SpanCount td \<noteq> 0 \<Longrightarrow> split_request sz m (as_logs ?req2) = (map as_logs res, err, as_logs req')"
    using "1" [OF size [symmetric] _ ex [symmetric] refl refl] rec by simp
  ultimately show ?case using ex
    by (subst split_traces.simps, subst split_request.simps) (simp add: size ex rec traces_eqs Let_def)
qed

text \<open>
  C7. Merging and splitting trace requests refines the logs model: reading each trace request as
  a logs request, \<open>tracesRequest.MergeSplit\<close> computes what \<open>logsRequest.MergeSplit\<close> computes, on
  every input, error and state of the receiver. Conservation, the size bound and the filling of
  the requests (C3, C4, C5) hold of traces through it.
\<close>

theorem traces_MergeSplit_refines:
  "map_prod (map as_logs) (map_prod id as_logs) (traces_MergeSplit leaves m szt req r2) =
     MergeSplit leaves m szt (as_logs req) (map_option as_any r2)"
proof -
  have merged: "as_logs (snd (traces_mergeTo (Some sz) req2 req)) =
      snd (mergeTo (Some sz) (as_logs req2) (as_logs req))" for sz and req2 :: "('a, 'b, 'c) traces_request"
    using traces_mergeTo_logs [of "Some sz" req2 req] by (metis snd_map_prod)
  show ?thesis
    by (cases szt)
      (auto simp: traces_MergeSplit_def MergeSplit_def Let_def traces_eqs split_traces_logs merged
        split: option.splits any_traces_request.splits prod.splits)
qed

end
