(* ===== verification/MetricsBatch.thy ===== *)
theory MetricsBatch
  imports BatchSplit
begin

text \<open>
  Merging and splitting of metric requests: exporter/exporterhelper/internal/queuebatch
  (metrics\_batch.go and the request part of metrics.go) and the metric sizers of
  exporter/exporterhelper/internal/sizer/metrics\_sizer.go.

  The payload has one level more than logs and traces: a metric holds its data points inside one of
  five messages, and a metric can be split between its data points. The data points, the metadata,
  the resources and the scopes are parameters with their encoded sizes. The pointer inside a typed
  metric is never nil.
\<close>

section \<open>Metrics and their sizes\<close>

datatype ('n, 'h, 'e, 's) metric_data =
    NoData
  | GaugeData "'n list"
  | SumData "'n list" "32 word" bool
  | HistogramData "'h list" "32 word"
  | ExponentialHistogramData "'e list" "32 word"
  | SummaryData "'s list"

record ('k, 'n, 'h, 'e, 's) metric =
  mt_Name :: string
  mt_Description :: string
  mt_Unit :: string
  mt_Metadata :: 'k
  mt_Data :: "('n, 'h, 'e, 's) metric_data"

type_synonym ('re, 'sc, 'k, 'n, 'h, 'e, 's) metrics_payload =
  "('re, 'sc, ('k, 'n, 'h, 'e, 's) metric) payload"

fun dataPointsLen :: "('k, 'n, 'h, 'e, 's) metric \<Rightarrow> nat" where
  "dataPointsLen m =
     (case mt_Data m of
        GaugeData dps \<Rightarrow> length dps
      | SumData dps _ _ \<Rightarrow> length dps
      | HistogramData dps _ \<Rightarrow> length dps
      | ExponentialHistogramData dps _ \<Rightarrow> length dps
      | SummaryData dps \<Rightarrow> length dps
      | NoData \<Rightarrow> 0)"

definition DataPointCount :: "('re, 'sc, 'k, 'n, 'h, 'e, 's) metrics_payload \<Rightarrow> nat" where
  "DataPointCount md = (\<Sum>rm\<leftarrow>md. \<Sum>sm\<leftarrow>rd_scopes rm. \<Sum>m\<leftarrow>sd_items sm. dataPointsLen m)"

record ('re, 'sc, 'k, 'n, 'h, 'e, 's) metrics_sizer =
  zs_payload :: "('re, 'sc, 'k, 'n, 'h, 'e, 's) metrics_payload \<Rightarrow> int"
  zs_resource :: "('re, 'sc, ('k, 'n, 'h, 'e, 's) metric) resource_data \<Rightarrow> int"
  zs_scope :: "('sc, ('k, 'n, 'h, 'e, 's) metric) scope_data \<Rightarrow> int"
  zs_metric :: "('k, 'n, 'h, 'e, 's) metric \<Rightarrow> int"
  zs_delta :: "int \<Rightarrow> int"
  zs_number :: "'n \<Rightarrow> int"
  zs_histogram :: "'h \<Rightarrow> int"
  zs_exponential :: "'e \<Rightarrow> int"
  zs_summary :: "'s \<Rightarrow> int"

definition MetricsCountSizer :: "('re, 'sc, 'k, 'n, 'h, 'e, 's) metrics_sizer" where
  "MetricsCountSizer = \<lparr>
     zs_payload = (\<lambda>md. int (DataPointCount md)),
     zs_resource = (\<lambda>rm. \<Sum>sm\<leftarrow>rd_scopes rm. \<Sum>m\<leftarrow>sd_items sm. int (dataPointsLen m)),
     zs_scope = (\<lambda>sm. \<Sum>m\<leftarrow>sd_items sm. int (dataPointsLen m)),
     zs_metric = (\<lambda>m. int (dataPointsLen m)),
     zs_delta = (\<lambda>newItemSize. newItemSize),
     zs_number = (\<lambda>_. 1), zs_histogram = (\<lambda>_. 1), zs_exponential = (\<lambda>_. 1), zs_summary = (\<lambda>_. 1)\<rparr>"

text \<open>The encoded sizes of what a metric is made of; the metadata counts with its field headers.\<close>

record ('re, 'sc, 'k, 'n, 'h, 'e, 's) metric_leaves =
  lf_resource :: "'re \<Rightarrow> nat"
  lf_scope :: "'sc \<Rightarrow> nat"
  lf_metadata :: "'k \<Rightarrow> nat"
  lf_number :: "'n \<Rightarrow> nat"
  lf_histogram :: "'h \<Rightarrow> nat"
  lf_exponential :: "'e \<Rightarrow> nat"
  lf_summary :: "'s \<Rightarrow> nat"

text \<open>
  \<open>SizeProto\<close> of the five data messages: the enum is an int32 that is sign-extended. As for logs, the
  payloads have no deprecated scopes, whose summand is left out of the size of a resource.
\<close>

definition temporality_size :: "32 word \<Rightarrow> int" where
  "temporality_size t = (if t \<noteq> 0 then 1 + int (Sov (scast t)) else 0)"

definition points_size :: "('d \<Rightarrow> nat) \<Rightarrow> 'd list \<Rightarrow> int" where
  "points_size dpSize dps = (\<Sum>dp\<leftarrow>dps. field_size (int (dpSize dp)))"

fun data_proto_size :: "('re, 'sc, 'k, 'n, 'h, 'e, 's) metric_leaves \<Rightarrow> ('n, 'h, 'e, 's) metric_data \<Rightarrow> int" where
  "data_proto_size lf NoData = 0"
| "data_proto_size lf (GaugeData dps) = points_size (lf_number lf) dps"
| "data_proto_size lf (SumData dps t monotonic) =
     points_size (lf_number lf) dps + temporality_size t + (if monotonic then 2 else 0)"
| "data_proto_size lf (HistogramData dps t) = points_size (lf_histogram lf) dps + temporality_size t"
| "data_proto_size lf (ExponentialHistogramData dps t) = points_size (lf_exponential lf) dps + temporality_size t"
| "data_proto_size lf (SummaryData dps) = points_size (lf_summary lf) dps"

definition Metric_proto_size :: "('re, 'sc, 'k, 'n, 'h, 'e, 's) metric_leaves \<Rightarrow> ('k, 'n, 'h, 'e, 's) metric \<Rightarrow> int" where
  "Metric_proto_size lf m =
     schema_size (mt_Name m) + schema_size (mt_Description m) + schema_size (mt_Unit m)
     + (if mt_Data m = NoData then 0 else field_size (data_proto_size lf (mt_Data m)))
     + int (lf_metadata lf (mt_Metadata m))"

definition ScopeMetrics_proto_size ::
  "('re, 'sc, 'k, 'n, 'h, 'e, 's) metric_leaves \<Rightarrow> ('sc, ('k, 'n, 'h, 'e, 's) metric) scope_data \<Rightarrow> int" where
  "ScopeMetrics_proto_size lf sm =
     field_size (int (lf_scope lf (sd_scope sm))) + (\<Sum>m\<leftarrow>sd_items sm. field_size (Metric_proto_size lf m))
     + schema_size (sd_schema sm)"

definition ResourceMetrics_proto_size ::
  "('re, 'sc, 'k, 'n, 'h, 'e, 's) metric_leaves \<Rightarrow> ('re, 'sc, ('k, 'n, 'h, 'e, 's) metric) resource_data \<Rightarrow> int" where
  "ResourceMetrics_proto_size lf rm =
     field_size (int (lf_resource lf (rd_resource rm)))
     + (\<Sum>sm\<leftarrow>rd_scopes rm. field_size (ScopeMetrics_proto_size lf sm))
     + schema_size (rd_schema rm)"

definition Metrics_proto_size ::
  "('re, 'sc, 'k, 'n, 'h, 'e, 's) metric_leaves \<Rightarrow> ('re, 'sc, 'k, 'n, 'h, 'e, 's) metrics_payload \<Rightarrow> int" where
  "Metrics_proto_size lf md = (\<Sum>rm\<leftarrow>md. field_size (ResourceMetrics_proto_size lf rm))"

definition MetricsBytesSizer ::
  "('re, 'sc, 'k, 'n, 'h, 'e, 's) metric_leaves \<Rightarrow> ('re, 'sc, 'k, 'n, 'h, 'e, 's) metrics_sizer" where
  "MetricsBytesSizer lf = \<lparr>
     zs_payload = Metrics_proto_size lf,
     zs_resource = ResourceMetrics_proto_size lf,
     zs_scope = ScopeMetrics_proto_size lf,
     zs_metric = Metric_proto_size lf,
     zs_delta = DeltaSize,
     zs_number = (\<lambda>dp. int (lf_number lf dp)),
     zs_histogram = (\<lambda>dp. int (lf_histogram lf dp)),
     zs_exponential = (\<lambda>dp. int (lf_exponential lf dp)),
     zs_summary = (\<lambda>dp. int (lf_summary lf dp))\<rparr>"

section \<open>Extraction\<close>

text \<open>The closure of the five loops over data points, which differ in the size they call.\<close>

fun extractDataPoints_step ::
  "(int \<Rightarrow> int) \<Rightarrow> ('d \<Rightarrow> int) \<Rightarrow> int \<times> int \<times> 'd list \<Rightarrow> 'd \<Rightarrow> (int \<times> int \<times> 'd list) \<times> 'd \<times> bool" where
  "extractDataPoints_step delta dpSize (capacityLeft, removedSize, dest) srcDP =
     (if capacityLeft = 0 then ((capacityLeft, removedSize, dest), srcDP, False)
      else let rdSize = delta (dpSize srcDP)
           in if capacityLeft < rdSize then ((0, removedSize, dest), srcDP, False)
              else ((capacityLeft - rdSize, removedSize + rdSize, dest @ [srcDP]), srcDP, True))"

text \<open>
  Each function takes the data points and the destination metric and gives the data points that
  are left, the destination and the removed size. The capacity is computed with the destination as
  it is then: with its empty data message and before its flags are set.
\<close>

definition extractGaugeDataPoints ::
  "('re, 'sc, 'k, 'n, 'h, 'e, 's) metrics_sizer \<Rightarrow> 'n list \<Rightarrow> ('k, 'n, 'h, 'e, 's) metric \<Rightarrow> int \<Rightarrow>
   'n list \<times> ('k, 'n, 'h, 'e, 's) metric \<times> int" where
  "extractGaugeDataPoints sz srcGauge destMetric capacity =
     (let destMetric = destMetric\<lparr>mt_Data := GaugeData []\<rparr>;
          capacityLeft = capacity - (zs_delta sz capacity - capacity) - zs_metric sz destMetric
      in case remove_if (extractDataPoints_step (zs_delta sz) (zs_number sz)) (capacityLeft, 0, []) srcGauge of
           ((_, removedSize, dest), rest) \<Rightarrow> (rest, destMetric\<lparr>mt_Data := GaugeData dest\<rparr>, removedSize))"

definition extractSumDataPoints ::
  "('re, 'sc, 'k, 'n, 'h, 'e, 's) metrics_sizer \<Rightarrow> 'n list \<Rightarrow> ('k, 'n, 'h, 'e, 's) metric \<Rightarrow> int \<Rightarrow>
   'n list \<times> ('k, 'n, 'h, 'e, 's) metric \<times> int" where
  "extractSumDataPoints sz srcSum destMetric capacity =
     (let destMetric = destMetric\<lparr>mt_Data := SumData [] 0 False\<rparr>;
          capacityLeft = capacity - (zs_delta sz capacity - capacity) - zs_metric sz destMetric
      in case remove_if (extractDataPoints_step (zs_delta sz) (zs_number sz)) (capacityLeft, 0, []) srcSum of
           ((_, removedSize, dest), rest) \<Rightarrow> (rest, destMetric\<lparr>mt_Data := SumData dest 0 False\<rparr>, removedSize))"

definition extractHistogramDataPoints ::
  "('re, 'sc, 'k, 'n, 'h, 'e, 's) metrics_sizer \<Rightarrow> 'h list \<Rightarrow> ('k, 'n, 'h, 'e, 's) metric \<Rightarrow> int \<Rightarrow>
   'h list \<times> ('k, 'n, 'h, 'e, 's) metric \<times> int" where
  "extractHistogramDataPoints sz srcHistogram destMetric capacity =
     (let destMetric = destMetric\<lparr>mt_Data := HistogramData [] 0\<rparr>;
          capacityLeft = capacity - (zs_delta sz capacity - capacity) - zs_metric sz destMetric
      in case remove_if (extractDataPoints_step (zs_delta sz) (zs_histogram sz)) (capacityLeft, 0, []) srcHistogram of
           ((_, removedSize, dest), rest) \<Rightarrow> (rest, destMetric\<lparr>mt_Data := HistogramData dest 0\<rparr>, removedSize))"

definition extractExponentialHistogramDataPoints ::
  "('re, 'sc, 'k, 'n, 'h, 'e, 's) metrics_sizer \<Rightarrow> 'e list \<Rightarrow> ('k, 'n, 'h, 'e, 's) metric \<Rightarrow> int \<Rightarrow>
   'e list \<times> ('k, 'n, 'h, 'e, 's) metric \<times> int" where
  "extractExponentialHistogramDataPoints sz srcExponentialHistogram destMetric capacity =
     (let destMetric = destMetric\<lparr>mt_Data := ExponentialHistogramData [] 0\<rparr>;
          capacityLeft = capacity - (zs_delta sz capacity - capacity) - zs_metric sz destMetric
      in case remove_if (extractDataPoints_step (zs_delta sz) (zs_exponential sz)) (capacityLeft, 0, [])
                srcExponentialHistogram of
           ((_, removedSize, dest), rest) \<Rightarrow>
             (rest, destMetric\<lparr>mt_Data := ExponentialHistogramData dest 0\<rparr>, removedSize))"

definition extractSummaryDataPoints ::
  "('re, 'sc, 'k, 'n, 'h, 'e, 's) metrics_sizer \<Rightarrow> 's list \<Rightarrow> ('k, 'n, 'h, 'e, 's) metric \<Rightarrow> int \<Rightarrow>
   's list \<times> ('k, 'n, 'h, 'e, 's) metric \<times> int" where
  "extractSummaryDataPoints sz srcSummary destMetric capacity =
     (let destMetric = destMetric\<lparr>mt_Data := SummaryData []\<rparr>;
          capacityLeft = capacity - (zs_delta sz capacity - capacity) - zs_metric sz destMetric
      in case remove_if (extractDataPoints_step (zs_delta sz) (zs_summary sz)) (capacityLeft, 0, []) srcSummary of
           ((_, removedSize, dest), rest) \<Rightarrow> (rest, destMetric\<lparr>mt_Data := SummaryData dest\<rparr>, removedSize))"

text \<open>The setters of the flags; on another kind of data they would panic, which does not happen here.\<close>

fun SetAggregationTemporality :: "32 word \<Rightarrow> ('n, 'h, 'e, 's) metric_data \<Rightarrow> ('n, 'h, 'e, 's) metric_data" where
  "SetAggregationTemporality t (SumData dps _ monotonic) = SumData dps t monotonic"
| "SetAggregationTemporality t (HistogramData dps _) = HistogramData dps t"
| "SetAggregationTemporality t (ExponentialHistogramData dps _) = ExponentialHistogramData dps t"
| "SetAggregationTemporality t d = d"

fun SetIsMonotonic :: "bool \<Rightarrow> ('n, 'h, 'e, 's) metric_data \<Rightarrow> ('n, 'h, 'e, 's) metric_data" where
  "SetIsMonotonic monotonic (SumData dps t _) = SumData dps t monotonic"
| "SetIsMonotonic monotonic d = d"

definition extractMetricDataPoints ::
  "('re, 'sc, 'k, 'n, 'h, 'e, 's) metrics_sizer \<Rightarrow> ('k, 'n, 'h, 'e, 's) metric \<Rightarrow> int \<Rightarrow>
   ('k, 'n, 'h, 'e, 's) metric \<times> ('k, 'n, 'h, 'e, 's) metric \<times> int" where
  "extractMetricDataPoints sz srcMetric capacity =
     (let destMetric = \<lparr>mt_Name = mt_Name srcMetric, mt_Description = mt_Description srcMetric,
            mt_Unit = mt_Unit srcMetric, mt_Metadata = mt_Metadata srcMetric, mt_Data = NoData\<rparr>
      in case mt_Data srcMetric of
           GaugeData dps \<Rightarrow>
             (case extractGaugeDataPoints sz dps destMetric capacity of (rest, destMetric, removedSize) \<Rightarrow>
                (srcMetric\<lparr>mt_Data := GaugeData rest\<rparr>, destMetric, removedSize))
         | SumData dps t monotonic \<Rightarrow>
             (case extractSumDataPoints sz dps destMetric capacity of (rest, destMetric, removedSize) \<Rightarrow>
                (srcMetric\<lparr>mt_Data := SumData rest t monotonic\<rparr>,
                 destMetric\<lparr>mt_Data := SetAggregationTemporality t (SetIsMonotonic monotonic (mt_Data destMetric))\<rparr>,
                 removedSize))
         | HistogramData dps t \<Rightarrow>
             (case extractHistogramDataPoints sz dps destMetric capacity of (rest, destMetric, removedSize) \<Rightarrow>
                (srcMetric\<lparr>mt_Data := HistogramData rest t\<rparr>,
                 destMetric\<lparr>mt_Data := SetAggregationTemporality t (mt_Data destMetric)\<rparr>, removedSize))
         | ExponentialHistogramData dps t \<Rightarrow>
             (case extractExponentialHistogramDataPoints sz dps destMetric capacity of (rest, destMetric, removedSize) \<Rightarrow>
                (srcMetric\<lparr>mt_Data := ExponentialHistogramData rest t\<rparr>,
                 destMetric\<lparr>mt_Data := SetAggregationTemporality t (mt_Data destMetric)\<rparr>, removedSize))
         | SummaryData dps \<Rightarrow>
             (case extractSummaryDataPoints sz dps destMetric capacity of (rest, destMetric, removedSize) \<Rightarrow>
                (srcMetric\<lparr>mt_Data := SummaryData rest\<rparr>, destMetric, removedSize))
         | NoData \<Rightarrow> (srcMetric, destMetric, 0))"

text \<open>
  \<open>MoveTo\<close> swaps the extracted metric with the fresh element of the destination, so afterwards it
  has no data points.
\<close>

fun extractScopeMetrics_step ::
  "('re, 'sc, 'k, 'n, 'h, 'e, 's) metrics_sizer \<Rightarrow> int \<times> int \<times> ('k, 'n, 'h, 'e, 's) metric list \<Rightarrow>
   ('k, 'n, 'h, 'e, 's) metric \<Rightarrow>
   (int \<times> int \<times> ('k, 'n, 'h, 'e, 's) metric list) \<times> ('k, 'n, 'h, 'e, 's) metric \<times> bool" where
  "extractScopeMetrics_step sz (capacityLeft, removedSize, dest) srcM =
     (if capacityLeft = 0 then ((capacityLeft, removedSize, dest), srcM, False)
      else let rawRmSize = zs_metric sz srcM; rmSize = zs_delta sz rawRmSize
           in if capacityLeft < rmSize
              then case extractMetricDataPoints sz srcM capacityLeft of (srcM', extSrcDP, extRmSize) \<Rightarrow>
                     let removedSize' = removedSize + extRmSize
                           + (rmSize - rawRmSize
                              - (zs_delta sz (rawRmSize - extRmSize) - (rawRmSize - extRmSize)));
                         moved = 0 < dataPointsLen extSrcDP;
                         lenAfterMove = (if moved then 0 else dataPointsLen extSrcDP)
                     in ((0, removedSize', if moved then dest @ [extSrcDP] else dest),
                         srcM', lenAfterMove \<noteq> 0)
              else ((capacityLeft - rmSize, removedSize + rmSize, dest @ [srcM]), srcM, True))"

definition extractScopeMetrics ::
  "('re, 'sc, 'k, 'n, 'h, 'e, 's) metrics_sizer \<Rightarrow> ('sc, ('k, 'n, 'h, 'e, 's) metric) scope_data \<Rightarrow> int \<Rightarrow>
   ('sc, ('k, 'n, 'h, 'e, 's) metric) scope_data \<times> ('sc, ('k, 'n, 'h, 'e, 's) metric) scope_data \<times> int" where
  "extractScopeMetrics sz srcSM capacity =
     (let destSM = srcSM\<lparr>sd_items := []\<rparr>;
          capacityLeft = capacity - (zs_delta sz capacity - capacity) - zs_scope sz destSM
      in case remove_if (extractScopeMetrics_step sz) (capacityLeft, 0, []) (sd_items srcSM) of
           ((_, removedSize, dest), rest) \<Rightarrow>
             (srcSM\<lparr>sd_items := rest\<rparr>, destSM\<lparr>sd_items := dest\<rparr>, removedSize))"

fun extractResourceMetrics_step ::
  "('re, 'sc, 'k, 'n, 'h, 'e, 's) metrics_sizer \<Rightarrow>
   int \<times> int \<times> ('sc, ('k, 'n, 'h, 'e, 's) metric) scope_data list \<Rightarrow> ('sc, ('k, 'n, 'h, 'e, 's) metric) scope_data \<Rightarrow>
   (int \<times> int \<times> ('sc, ('k, 'n, 'h, 'e, 's) metric) scope_data list) \<times>
   ('sc, ('k, 'n, 'h, 'e, 's) metric) scope_data \<times> bool" where
  "extractResourceMetrics_step sz (capacityLeft, removedSize, dest) srcSM =
     (if capacityLeft = 0 then ((capacityLeft, removedSize, dest), srcSM, False)
      else let rawSmSize = zs_scope sz srcSM; smSize = zs_delta sz rawSmSize
           in if capacityLeft < smSize
              then case extractScopeMetrics sz srcSM capacityLeft of (srcSM', extSrcSM, extSmSize) \<Rightarrow>
                     let removedSize' = removedSize + extSmSize
                           + (smSize - rawSmSize
                              - (zs_delta sz (rawSmSize - extSmSize) - (rawSmSize - extSmSize)));
                         moved = 0 < length (sd_items extSrcSM);
                         lenAfterMove = (if moved then 0 else length (sd_items extSrcSM))
                     in ((0, removedSize', if moved then dest @ [extSrcSM] else dest),
                         srcSM', lenAfterMove \<noteq> 0)
              else ((capacityLeft - smSize, removedSize + smSize, dest @ [srcSM]), srcSM, True))"

definition extractResourceMetrics ::
  "('re, 'sc, 'k, 'n, 'h, 'e, 's) metrics_sizer \<Rightarrow> ('re, 'sc, ('k, 'n, 'h, 'e, 's) metric) resource_data \<Rightarrow> int \<Rightarrow>
   ('re, 'sc, ('k, 'n, 'h, 'e, 's) metric) resource_data \<times>
   ('re, 'sc, ('k, 'n, 'h, 'e, 's) metric) resource_data \<times> int" where
  "extractResourceMetrics sz srcRM capacity =
     (let destRM = srcRM\<lparr>rd_scopes := []\<rparr>;
          capacityLeft = capacity - (zs_delta sz capacity - capacity) - zs_resource sz destRM
      in case remove_if (extractResourceMetrics_step sz) (capacityLeft, 0, []) (rd_scopes srcRM) of
           ((_, removedSize, dest), rest) \<Rightarrow>
             (srcRM\<lparr>rd_scopes := rest\<rparr>, destRM\<lparr>rd_scopes := dest\<rparr>, removedSize))"

fun extractMetrics_step ::
  "('re, 'sc, 'k, 'n, 'h, 'e, 's) metrics_sizer \<Rightarrow> int \<times> int \<times> ('re, 'sc, 'k, 'n, 'h, 'e, 's) metrics_payload \<Rightarrow>
   ('re, 'sc, ('k, 'n, 'h, 'e, 's) metric) resource_data \<Rightarrow>
   (int \<times> int \<times> ('re, 'sc, 'k, 'n, 'h, 'e, 's) metrics_payload) \<times>
   ('re, 'sc, ('k, 'n, 'h, 'e, 's) metric) resource_data \<times> bool" where
  "extractMetrics_step sz (capacityLeft, removedSize, dest) srcRM =
     (if capacityLeft = 0 then ((capacityLeft, removedSize, dest), srcRM, False)
      else let rawRlSize = zs_resource sz srcRM; rlSize = zs_delta sz rawRlSize
           in if capacityLeft < rlSize
              then case extractResourceMetrics sz srcRM capacityLeft of (srcRM', extSrcRM, extRmSize) \<Rightarrow>
                     let removedSize' = removedSize + extRmSize
                           + (rlSize - rawRlSize
                              - (zs_delta sz (rawRlSize - extRmSize) - (rawRlSize - extRmSize)));
                         moved = 0 < length (rd_scopes extSrcRM);
                         lenAfterMove = (if moved then 0 else length (rd_scopes extSrcRM))
                     in ((0, removedSize', if moved then dest @ [extSrcRM] else dest),
                         srcRM', lenAfterMove \<noteq> 0)
              else ((capacityLeft - rlSize, removedSize + rlSize, dest @ [srcRM]), srcRM, True))"

definition extractMetrics ::
  "('re, 'sc, 'k, 'n, 'h, 'e, 's) metrics_sizer \<Rightarrow> ('re, 'sc, 'k, 'n, 'h, 'e, 's) metrics_payload \<Rightarrow> int \<Rightarrow>
   ('re, 'sc, 'k, 'n, 'h, 'e, 's) metrics_payload \<times> ('re, 'sc, 'k, 'n, 'h, 'e, 's) metrics_payload \<times> int" where
  "extractMetrics sz srcMetrics capacity =
     (let capacityLeft = capacity - zs_payload sz []
      in case remove_if (extractMetrics_step sz) (capacityLeft, 0, []) srcMetrics of
           ((_, removedSize, dest), rest) \<Rightarrow> (rest, dest, removedSize))"

section \<open>The data points of a metric\<close>

text \<open>
  The five kinds of data seen alike: the list of points with their kind, and the data with other
  points of the same kind. What is left of a metric without its points is its identity.
\<close>

datatype ('n, 'h, 'e, 's) point = NumberPoint 'n | HistogramPoint 'h | ExponentialPoint 'e | SummaryPoint 's

fun points :: "('n, 'h, 'e, 's) metric_data \<Rightarrow> ('n, 'h, 'e, 's) point list" where
  "points NoData = []"
| "points (GaugeData dps) = map NumberPoint dps"
| "points (SumData dps t monotonic) = map NumberPoint dps"
| "points (HistogramData dps t) = map HistogramPoint dps"
| "points (ExponentialHistogramData dps t) = map ExponentialPoint dps"
| "points (SummaryData dps) = map SummaryPoint dps"

fun with_points :: "('n, 'h, 'e, 's) metric_data \<Rightarrow> ('n, 'h, 'e, 's) point list \<Rightarrow> ('n, 'h, 'e, 's) metric_data" where
  "with_points NoData ps = NoData"
| "with_points (GaugeData dps) ps = GaugeData (map (\<lambda>p. case p of NumberPoint dp \<Rightarrow> dp) ps)"
| "with_points (SumData dps t monotonic) ps = SumData (map (\<lambda>p. case p of NumberPoint dp \<Rightarrow> dp) ps) t monotonic"
| "with_points (HistogramData dps t) ps = HistogramData (map (\<lambda>p. case p of HistogramPoint dp \<Rightarrow> dp) ps) t"
| "with_points (ExponentialHistogramData dps t) ps =
     ExponentialHistogramData (map (\<lambda>p. case p of ExponentialPoint dp \<Rightarrow> dp) ps) t"
| "with_points (SummaryData dps) ps = SummaryData (map (\<lambda>p. case p of SummaryPoint dp \<Rightarrow> dp) ps)"

fun zs_point :: "('re, 'sc, 'k, 'n, 'h, 'e, 's) metrics_sizer \<Rightarrow> ('n, 'h, 'e, 's) point \<Rightarrow> int" where
  "zs_point sz (NumberPoint dp) = zs_number sz dp"
| "zs_point sz (HistogramPoint dp) = zs_histogram sz dp"
| "zs_point sz (ExponentialPoint dp) = zs_exponential sz dp"
| "zs_point sz (SummaryPoint dp) = zs_summary sz dp"

text \<open>The data message as the extraction sees it first: of the same kind, without points and flags.\<close>

fun unset :: "('n, 'h, 'e, 's) metric_data \<Rightarrow> ('n, 'h, 'e, 's) metric_data" where
  "unset NoData = NoData"
| "unset (GaugeData dps) = GaugeData []"
| "unset (SumData dps t monotonic) = SumData [] 0 False"
| "unset (HistogramData dps t) = HistogramData [] 0"
| "unset (ExponentialHistogramData dps t) = ExponentialHistogramData [] 0"
| "unset (SummaryData dps) = SummaryData []"

lemma dataPointsLen_points: "dataPointsLen m = length (points (mt_Data m))"
  by (cases "mt_Data m") simp_all

declare dataPointsLen.simps [simp del]

lemma with_points_split:
  assumes "points d = taken @ rest"
  shows "points (with_points d taken) = taken" and "points (with_points d rest) = rest"
  using assms by (cases d; force simp: map_eq_append_conv o_def)+

lemma with_points_with [simp]: "with_points (with_points d ps) qs = with_points d qs"
  by (cases d) simp_all

lemma points_no_data [simp]: "points d = [] \<Longrightarrow> with_points d [] = d"
  by (cases d) simp_all

lemma remove_if_extractDataPoints_map:
  assumes "\<And>x. size' (f x) = dpSize x"
  shows "remove_if (extractDataPoints_step delta size') (c, rm, map f dest) (map f xs) =
    (case remove_if (extractDataPoints_step delta dpSize) (c, rm, dest) xs of
       ((c', rm', dest'), rest) \<Rightarrow> ((c', rm', map f dest'), map f rest))"
proof (induction xs arbitrary: c rm dest)
  case (Cons x xs)
  have "map f (dest @ [x]) = map f dest @ [f x]" by simp
  then show ?case using Cons [of c rm dest] Cons [of 0 rm dest] Cons [of "c - delta (dpSize x)" "rm + delta (dpSize x)" "dest @ [x]"]
    by (simp add: assms Let_def split: prod.splits)
qed simp

lemma extractMetricDataPoints_view:
  assumes "extractMetricDataPoints sz m c = (m', e, n)" and "mt_Data m \<noteq> NoData"
  shows "\<exists>c' taken rest. remove_if (extractDataPoints_step (zs_delta sz) (zs_point sz))
      (c - (zs_delta sz c - c) - zs_metric sz (m\<lparr>mt_Data := unset (mt_Data m)\<rparr>), 0, []) (points (mt_Data m)) =
        ((c', n, taken), rest) \<and>
    m' = m\<lparr>mt_Data := with_points (mt_Data m) rest\<rparr> \<and> e = m\<lparr>mt_Data := with_points (mt_Data m) taken\<rparr>"
proof -
  have fresh: "\<lparr>mt_Name = mt_Name m, mt_Description = mt_Description m, mt_Unit = mt_Unit m, mt_Metadata = mt_Metadata m, mt_Data = d\<rparr>
      = m\<lparr>mt_Data := d\<rparr>" for d by (cases m) simp
  note maps = remove_if_extractDataPoints_map [where dest = "[]", simplified]
  show ?thesis
    using assms
    by (cases "mt_Data m")
      (auto simp: extractMetricDataPoints_def extractGaugeDataPoints_def extractSumDataPoints_def
        extractHistogramDataPoints_def extractExponentialHistogramDataPoints_def extractSummaryDataPoints_def Let_def fresh
        maps [where dpSize = "zs_number sz" and f = NumberPoint] maps [where dpSize = "zs_histogram sz" and f = HistogramPoint]
        maps [where dpSize = "zs_exponential sz" and f = ExponentialPoint] maps [where dpSize = "zs_summary sz" and f = SummaryPoint]
        o_def split: prod.splits)
qed

lemma extractMetricDataPoints_NoData:
  "extractMetricDataPoints sz m c = (m', e, n) \<Longrightarrow> mt_Data m = NoData \<Longrightarrow> m' = m \<and> n = 0 \<and> points (mt_Data e) = []"
  by (auto simp: extractMetricDataPoints_def Let_def)

section \<open>Order and conservation\<close>

lemma extractDataPoints_step_chunk:
  "extractDataPoints_step delta dpSize = chunk_step delta dpSize (\<lambda>x c. (x, x, 0)) (\<lambda>_. False)"
  by (auto simp: fun_eq_iff chunk_step_def Let_def)

lemma extractScopeMetrics_step_chunk:
  "extractScopeMetrics_step sz =
     chunk_step (zs_delta sz) (zs_metric sz) (extractMetricDataPoints sz) (\<lambda>e. points (mt_Data e) \<noteq> [])"
  by (auto simp: fun_eq_iff chunk_step_def Let_def dataPointsLen_points split: prod.splits)

lemma extractResourceMetrics_step_chunk:
  "extractResourceMetrics_step sz =
     chunk_step (zs_delta sz) (zs_scope sz) (extractScopeMetrics sz) (\<lambda>e. sd_items e \<noteq> [])"
  by (auto simp: fun_eq_iff chunk_step_def Let_def split: prod.splits)

lemma extractMetrics_step_chunk:
  "extractMetrics_step sz =
     chunk_step (zs_delta sz) (zs_resource sz) (extractResourceMetrics sz) (\<lambda>e. rd_scopes e \<noteq> [])"
  by (auto simp: fun_eq_iff chunk_step_def Let_def split: prod.splits)

lemmas metrics_step_chunk = extractDataPoints_step_chunk extractScopeMetrics_step_chunk
  extractResourceMetrics_step_chunk extractMetrics_step_chunk

text \<open>A data point with the metric it belongs to.\<close>

definition metric_flat ::
  "('k, 'n, 'h, 'e, 's) metric \<Rightarrow> (('k, 'n, 'h, 'e, 's) metric \<times> ('n, 'h, 'e, 's) point) list" where
  "metric_flat m = map (\<lambda>p. (m\<lparr>mt_Data := with_points (mt_Data m) []\<rparr>, p)) (points (mt_Data m))"

definition metrics_scope_flat ::
  "('sc, ('k, 'n, 'h, 'e, 's) metric) scope_data \<Rightarrow>
   ('sc \<times> string \<times> ('k, 'n, 'h, 'e, 's) metric \<times> ('n, 'h, 'e, 's) point) list" where
  "metrics_scope_flat sm = map (\<lambda>x. (sd_scope sm, sd_schema sm, x)) (concat (map metric_flat (sd_items sm)))"

definition metrics_resource_flat ::
  "('re, 'sc, ('k, 'n, 'h, 'e, 's) metric) resource_data \<Rightarrow>
   ('re \<times> string \<times> 'sc \<times> string \<times> ('k, 'n, 'h, 'e, 's) metric \<times> ('n, 'h, 'e, 's) point) list" where
  "metrics_resource_flat rm =
     map (\<lambda>x. (rd_resource rm, rd_schema rm, x)) (concat (map metrics_scope_flat (rd_scopes rm)))"

definition metrics_flat ::
  "('re, 'sc, 'k, 'n, 'h, 'e, 's) metrics_payload \<Rightarrow>
   ('re \<times> string \<times> 'sc \<times> string \<times> ('k, 'n, 'h, 'e, 's) metric \<times> ('n, 'h, 'e, 's) point) list" where
  "metrics_flat md = concat (map metrics_resource_flat md)"

lemma length_metric_flat [simp]: "length (metric_flat m) = dataPointsLen m"
  by (simp add: metric_flat_def dataPointsLen_points)

lemma length_metrics_scope_flat [simp]: "length (metrics_scope_flat sm) = (\<Sum>m\<leftarrow>sd_items sm. dataPointsLen m)"
  by (simp add: metrics_scope_flat_def length_concat o_def)

lemma length_metrics_resource_flat [simp]:
  "length (metrics_resource_flat rm) = (\<Sum>sm\<leftarrow>rd_scopes rm. \<Sum>m\<leftarrow>sd_items sm. dataPointsLen m)"
  by (simp add: metrics_resource_flat_def length_concat o_def)

lemma length_metrics_flat: "length (metrics_flat md) = DataPointCount md"
  by (simp add: metrics_flat_def DataPointCount_def length_concat o_def)

interpretation point_order: chunk_order delta dpSize "\<lambda>x c. (x, x, 0)" "\<lambda>_. False" "\<lambda>x. [x]"
  for delta :: "int \<Rightarrow> int" and dpSize :: "'d \<Rightarrow> int"
  by unfold_locales auto

lemma extractMetricDataPoints_run:
  assumes "mt_Data m \<noteq> NoData" and "extractMetricDataPoints sz m c = (m', e, n)"
  obtains c' taken rest where
    "remove_if (extractDataPoints_step (zs_delta sz) (zs_point sz))
      (c - (zs_delta sz c - c) - zs_metric sz (m\<lparr>mt_Data := unset (mt_Data m)\<rparr>), 0, []) (points (mt_Data m)) =
        ((c', n, taken), rest)"
    and "points (mt_Data e) = taken" and "points (mt_Data m') = rest" and "points (mt_Data m) = taken @ rest"
    and "m' = m\<lparr>mt_Data := with_points (mt_Data m) rest\<rparr>" and "e = m\<lparr>mt_Data := with_points (mt_Data m) taken\<rparr>"
proof -
  from extractMetricDataPoints_view [OF assms(2,1)] obtain c' taken rest where
    r: "remove_if (extractDataPoints_step (zs_delta sz) (zs_point sz))
      (c - (zs_delta sz c - c) - zs_metric sz (m\<lparr>mt_Data := unset (mt_Data m)\<rparr>), 0, []) (points (mt_Data m)) =
        ((c', n, taken), rest)"
    and eqs: "m' = m\<lparr>mt_Data := with_points (mt_Data m) rest\<rparr>" "e = m\<lparr>mt_Data := with_points (mt_Data m) taken\<rparr>" by blast
  from point_order.chunk_flats [OF r [unfolded metrics_step_chunk]]
  have p: "points (mt_Data m) = taken @ rest" by simp
  show thesis by (rule that [OF r _ _ p eqs]) (simp_all add: eqs with_points_split [OF p])
qed

lemma extractMetricDataPoints_parts:
  assumes "extractMetricDataPoints sz m c = (m', e, n)"
  shows "\<exists>taken rest. points (mt_Data m) = taken @ rest \<and> points (mt_Data e) = taken \<and> points (mt_Data m') = rest \<and>
    m' = m\<lparr>mt_Data := with_points (mt_Data m) rest\<rparr> \<and> (taken \<noteq> [] \<longrightarrow> e = m\<lparr>mt_Data := with_points (mt_Data m) taken\<rparr>)"
proof (cases "mt_Data m = NoData")
  case True
  with extractMetricDataPoints_NoData [OF assms True] show ?thesis by simp
next
  case False
  then show ?thesis using assms by (rule extractMetricDataPoints_run) blast
qed

lemma metric_flat_with:
  "points (with_points (mt_Data m) ps) = ps \<Longrightarrow>
   metric_flat (m\<lparr>mt_Data := with_points (mt_Data m) ps\<rparr>) = map (\<lambda>p. (m\<lparr>mt_Data := with_points (mt_Data m) []\<rparr>, p)) ps"
  by (simp add: metric_flat_def)

lemma extractMetricDataPoints_conserves:
  assumes "extractMetricDataPoints sz m c = (m', e, n)"
  shows "metric_flat m = metric_flat e @ metric_flat m'"
proof -
  obtain taken rest where pts: "points (mt_Data m) = taken @ rest" "points (mt_Data e) = taken" "points (mt_Data m') = rest"
    and eqs: "m' = m\<lparr>mt_Data := with_points (mt_Data m) rest\<rparr>" "taken \<noteq> [] \<longrightarrow> e = m\<lparr>mt_Data := with_points (mt_Data m) taken\<rparr>"
    using extractMetricDataPoints_parts [OF assms] by blast
  have "metric_flat e = map (\<lambda>p. (m\<lparr>mt_Data := with_points (mt_Data m) []\<rparr>, p)) taken"
    using pts(2) eqs(2) by (cases "taken = []") (auto simp: metric_flat_def)
  moreover have "metric_flat m' = map (\<lambda>p. (m\<lparr>mt_Data := with_points (mt_Data m) []\<rparr>, p)) rest"
    using pts(3) by (simp add: eqs(1) metric_flat_def)
  ultimately show ?thesis using pts(1) by (simp add: metric_flat_def)
qed

interpretation metric_order: chunk_order "zs_delta sz" "zs_metric sz" "extractMetricDataPoints sz"
    "\<lambda>e. points (mt_Data e) \<noteq> []" metric_flat
  for sz :: "('re, 'sc, 'k, 'n, 'h, 'e, 's) metrics_sizer"
  by unfold_locales (auto dest: extractMetricDataPoints_conserves simp: metric_flat_def)

lemma extractScopeMetrics_conserves:
  assumes "extractScopeMetrics sz sm c = (sm', e, n)"
  shows "metrics_scope_flat sm = metrics_scope_flat e @ metrics_scope_flat sm'"
proof -
  obtain c' dest rest where
    r: "remove_if (extractScopeMetrics_step sz)
          (c - (zs_delta sz c - c) - zs_scope sz (sm\<lparr>sd_items := []\<rparr>), 0, []) (sd_items sm) = ((c', n, dest), rest)"
    and eqs: "sm' = sm\<lparr>sd_items := rest\<rparr>" "e = sm\<lparr>sd_items := dest\<rparr>"
    using assms by (auto simp: extractScopeMetrics_def Let_def split: prod.splits)
  from metric_order.chunk_flats [OF r [unfolded metrics_step_chunk]]
  have "concat (map metric_flat (sd_items sm)) = concat (map metric_flat dest) @ concat (map metric_flat rest)" by simp
  then show ?thesis by (simp add: metrics_scope_flat_def eqs)
qed

interpretation metrics_scope_order: chunk_order "zs_delta sz" "zs_scope sz" "extractScopeMetrics sz"
    "\<lambda>e. sd_items e \<noteq> []" metrics_scope_flat
  for sz :: "('re, 'sc, 'k, 'n, 'h, 'e, 's) metrics_sizer"
  by unfold_locales (auto dest: extractScopeMetrics_conserves simp: metrics_scope_flat_def)

lemma extractResourceMetrics_conserves:
  assumes "extractResourceMetrics sz rm c = (rm', e, n)"
  shows "metrics_resource_flat rm = metrics_resource_flat e @ metrics_resource_flat rm'"
proof -
  obtain c' dest rest where
    r: "remove_if (extractResourceMetrics_step sz)
          (c - (zs_delta sz c - c) - zs_resource sz (rm\<lparr>rd_scopes := []\<rparr>), 0, []) (rd_scopes rm) = ((c', n, dest), rest)"
    and eqs: "rm' = rm\<lparr>rd_scopes := rest\<rparr>" "e = rm\<lparr>rd_scopes := dest\<rparr>"
    using assms by (auto simp: extractResourceMetrics_def Let_def split: prod.splits)
  from metrics_scope_order.chunk_flats [OF r [unfolded metrics_step_chunk]]
  have "concat (map metrics_scope_flat (rd_scopes rm)) =
      concat (map metrics_scope_flat dest) @ concat (map metrics_scope_flat rest)" by simp
  then show ?thesis by (simp add: metrics_resource_flat_def eqs)
qed

interpretation metrics_resource_order: chunk_order "zs_delta sz" "zs_resource sz" "extractResourceMetrics sz"
    "\<lambda>e. rd_scopes e \<noteq> []" metrics_resource_flat
  for sz :: "('re, 'sc, 'k, 'n, 'h, 'e, 's) metrics_sizer"
  by unfold_locales (auto dest: extractResourceMetrics_conserves simp: metrics_resource_flat_def)

lemma extractMetrics_conserves:
  assumes "extractMetrics sz md c = (md', e, n)"
  shows "metrics_flat md = metrics_flat e @ metrics_flat md'"
proof -
  obtain c' where "remove_if (extractMetrics_step sz) (c - zs_payload sz [], 0, []) md = ((c', n, e), md')"
    using assms by (auto simp: extractMetrics_def Let_def split: prod.splits)
  from metrics_resource_order.chunk_flats [OF this [unfolded metrics_step_chunk]] show ?thesis
    by (simp add: metrics_flat_def)
qed

lemma extractMetrics_shrinks:
  assumes "(md', e, n) = extractMetrics sz md c" and "0 < DataPointCount e"
  shows "DataPointCount md' < DataPointCount md"
  using arg_cong [OF extractMetrics_conserves [OF assms(1) [symmetric]], of length] assms(2)
  by (simp add: length_metrics_flat)

section \<open>Requests\<close>

record ('re, 'sc, 'k, 'n, 'h, 'e, 's) metrics_request =
  mq_md :: "('re, 'sc, 'k, 'n, 'h, 'e, 's) metrics_payload"
  mq_cachedSize :: int

datatype ('re, 'sc, 'k, 'n, 'h, 'e, 's) any_metrics_request =
  MetricsRequest "('re, 'sc, 'k, 'n, 'h, 'e, 's) metrics_request" | OtherMetricsRequest

type_synonym ('re, 'sc, 'k, 'n, 'h, 'e, 's) metrics_result =
  "('re, 'sc, 'k, 'n, 'h, 'e, 's) metrics_request list \<times> merge_error option \<times>
   ('re, 'sc, 'k, 'n, 'h, 'e, 's) metrics_request"

definition newMetricsRequest ::
  "('re, 'sc, 'k, 'n, 'h, 'e, 's) metrics_payload \<Rightarrow> ('re, 'sc, 'k, 'n, 'h, 'e, 's) metrics_request" where
  "newMetricsRequest md = \<lparr>mq_md = md, mq_cachedSize = -1\<rparr>"

definition metrics_size ::
  "('re, 'sc, 'k, 'n, 'h, 'e, 's) metrics_sizer \<Rightarrow> ('re, 'sc, 'k, 'n, 'h, 'e, 's) metrics_request \<Rightarrow>
   int \<times> ('re, 'sc, 'k, 'n, 'h, 'e, 's) metrics_request" where
  "metrics_size sz req =
     (let req' = (if mq_cachedSize req = -1 then req\<lparr>mq_cachedSize := zs_payload sz (mq_md req)\<rparr> else req)
      in (mq_cachedSize req', req'))"

definition metrics_setCachedSize ::
  "int \<Rightarrow> ('re, 'sc, 'k, 'n, 'h, 'e, 's) metrics_request \<Rightarrow> ('re, 'sc, 'k, 'n, 'h, 'e, 's) metrics_request" where
  "metrics_setCachedSize n req = req\<lparr>mq_cachedSize := n\<rparr>"

definition metrics_ItemsCount :: "('re, 'sc, 'k, 'n, 'h, 'e, 's) metrics_request \<Rightarrow> nat" where
  "metrics_ItemsCount req = DataPointCount (mq_md req)"

definition metrics_mergeTo ::
  "('re, 'sc, 'k, 'n, 'h, 'e, 's) metrics_sizer option \<Rightarrow> ('re, 'sc, 'k, 'n, 'h, 'e, 's) metrics_request \<Rightarrow>
   ('re, 'sc, 'k, 'n, 'h, 'e, 's) metrics_request \<Rightarrow>
   ('re, 'sc, 'k, 'n, 'h, 'e, 's) metrics_request \<times> ('re, 'sc, 'k, 'n, 'h, 'e, 's) metrics_request" where
  "metrics_mergeTo osz req dst =
     (case (case osz of
              None \<Rightarrow> (req, dst)
            | Some sz \<Rightarrow>
                (case metrics_size sz dst of (n1, dst1) \<Rightarrow>
                 case metrics_size sz req of (n2, req1) \<Rightarrow>
                   (metrics_setCachedSize 0 req1, metrics_setCachedSize (n1 + n2) dst1))) of
        (req', dst') \<Rightarrow> (req'\<lparr>mq_md := []\<rparr>, dst'\<lparr>mq_md := mq_md dst' @ mq_md req'\<rparr>))"

function split_metrics ::
  "('re, 'sc, 'k, 'n, 'h, 'e, 's) metrics_sizer \<Rightarrow> int \<Rightarrow> ('re, 'sc, 'k, 'n, 'h, 'e, 's) metrics_request \<Rightarrow>
   ('re, 'sc, 'k, 'n, 'h, 'e, 's) metrics_result" where
  "split_metrics sz maxSize req =
     (case metrics_size sz req of (n, req1) \<Rightarrow>
        if maxSize < n
        then case extractMetrics sz (mq_md req1) maxSize of (src', md, rmSize) \<Rightarrow>
               let req2 = req1\<lparr>mq_md := src'\<rparr>
               in if DataPointCount md = 0
                  then ([], Some (ItemGreaterThanMaxSize (DataPointCount src')), req2)
                  else case split_metrics sz maxSize (metrics_setCachedSize (n - rmSize) req2) of
                         (res, err, req') \<Rightarrow> (newMetricsRequest md # res, err, req')
        else ([req1], None, req1))"
  by pat_completeness auto

termination
  by (relation "measure (\<lambda>(sz, maxSize, req). DataPointCount (mq_md req))")
    (auto simp: metrics_size_def Let_def metrics_setCachedSize_def
          intro: extractMetrics_shrinks split: if_splits)

declare split_metrics.simps [simp del]

definition metrics_MergeSplit ::
  "('re, 'sc, 'k, 'n, 'h, 'e, 's) metric_leaves \<Rightarrow> int \<Rightarrow> SizerType \<Rightarrow> ('re, 'sc, 'k, 'n, 'h, 'e, 's) metrics_request \<Rightarrow>
   ('re, 'sc, 'k, 'n, 'h, 'e, 's) any_metrics_request option \<Rightarrow> ('re, 'sc, 'k, 'n, 'h, 'e, 's) metrics_result" where
  "metrics_MergeSplit leaves maxSize szt req r2 =
     (case (case szt of
              SizerTypeItems \<Rightarrow> Some MetricsCountSizer
            | SizerTypeBytes \<Rightarrow> Some (MetricsBytesSizer leaves)
            | _ \<Rightarrow> None) of
        None \<Rightarrow> ([], Some UnknownSizerType, req)
      | Some sz \<Rightarrow>
          (let split = (\<lambda>req. if maxSize = 0 then ([req], None, req) else split_metrics sz maxSize req)
           in case r2 of
                None \<Rightarrow> split req
              | Some OtherMetricsRequest \<Rightarrow> ([], Some InvalidInputType, req)
              | Some (MetricsRequest req2) \<Rightarrow> split (snd (metrics_mergeTo (Some sz) req2 req))))"

section \<open>The count sizer fills every batch\<close>

locale chunk_tally = chunk_count sizeof part nonempty flat
  for sizeof :: "'a \<Rightarrow> int" and part :: "'a \<Rightarrow> int \<Rightarrow> 'a \<times> 'a \<times> int"
    and nonempty :: "'a \<Rightarrow> bool" and flat :: "'a \<Rightarrow> 'i list" +
  assumes part_tally: "part x c = (x', e, n) \<Longrightarrow> n = (if nonempty e then int (length (flat e)) else 0)"
begin

lemma chunk_tallies:
  "remove_if (chunk_step (\<lambda>n. n) sizeof part nonempty) (c, rm, dest) xs = ((c', rm', dest'), rest) \<Longrightarrow>
   rm' - rm = int (length (flats dest')) - int (length (flats dest))"
proof (induction xs arbitrary: c rm dest c' rm' dest' rest)
  case (Cons x xs)
  show ?case
  proof (cases "c = 0")
    case True
    with Cons.prems chunk_stopped [of "\<lambda>n. n" sizeof part nonempty rm dest "x # xs"] show ?thesis by auto
  next
    case nz: False
    show ?thesis
    proof (cases "c < sizeof x")
      case True
      obtain x' e n where p: "part x c = (x', e, n)" by (metis prod_cases3)
      from Cons.prems part_tally [OF p] show ?thesis unfolding part_step [OF nz True p] by auto
    next
      case False
      from Cons.IH [OF Cons.prems(1) [unfolded full_step [OF nz False]]] show ?thesis by (simp add: sizeof_flat)
    qed
  qed
qed auto

end

lemma metrics_count_simps [simp]:
  "zs_delta MetricsCountSizer = (\<lambda>n. n)" "zs_metric MetricsCountSizer m = int (dataPointsLen m)"
  "zs_scope MetricsCountSizer sm = (\<Sum>m\<leftarrow>sd_items sm. int (dataPointsLen m))"
  "zs_resource MetricsCountSizer rm = (\<Sum>sm\<leftarrow>rd_scopes rm. \<Sum>m\<leftarrow>sd_items sm. int (dataPointsLen m))"
  "zs_payload MetricsCountSizer md = int (DataPointCount md)"
  by (simp_all add: MetricsCountSizer_def)

lemma zs_point_count [simp]: "zs_point (MetricsCountSizer :: ('re, 'sc, 'k, 'n, 'h, 'e, 's) metrics_sizer) = (\<lambda>_. 1)"
proof (rule ext)
  fix p :: "('n, 'h, 'e, 's) point"
  show "zs_point (MetricsCountSizer :: ('re, 'sc, 'k, 'n, 'h, 'e, 's) metrics_sizer) p = 1"
    by (cases p) (simp_all add: MetricsCountSizer_def)
qed

lemma points_unset [simp]: "points (unset d) = []"
  by (cases d) simp_all

interpretation count_points: chunk_tally "\<lambda>_. 1" "\<lambda>x c. (x, x, 0)" "\<lambda>_. False" "\<lambda>x. [x]"
  by unfold_locales auto

lemma count_extractMetric:
  fixes m :: "('k, 'n, 'h, 'e, 's) metric"
  assumes "extractMetricDataPoints (MetricsCountSizer :: ('re, 'sc, 'k, 'n, 'h, 'e, 's) metrics_sizer) m c = (m', e, n)"
  shows "n = int (dataPointsLen e)" and "0 \<le> c \<Longrightarrow> int (dataPointsLen e) = min c (int (dataPointsLen m))"
proof -
  have "n = int (dataPointsLen e) \<and> (0 \<le> c \<longrightarrow> int (dataPointsLen e) = min c (int (dataPointsLen m)))"
  proof (cases "mt_Data m = NoData")
    case True
    with extractMetricDataPoints_NoData [OF assms True] show ?thesis by (simp add: dataPointsLen_points)
  next
    case False
    then obtain c' taken rest where
      r: "remove_if (extractDataPoints_step (zs_delta MetricsCountSizer) (zs_point (MetricsCountSizer :: ('re, 'sc, 'k, 'n, 'h, 'e, 's) metrics_sizer)))
          (c, 0, []) (points (mt_Data m)) = ((c', n, taken), rest)"
      and taken: "points (mt_Data e) = taken"
      using assms by (rule extractMetricDataPoints_run) (simp add: dataPointsLen_points)
    note r' = r [unfolded metrics_step_chunk zs_point_count metrics_count_simps]
    from taken count_points.chunk_tallies [OF r'] count_items.chunk_fills [OF r'] show ?thesis
      by (simp add: dataPointsLen_points)
  qed
  then show "n = int (dataPointsLen e)" and "0 \<le> c \<Longrightarrow> int (dataPointsLen e) = min c (int (dataPointsLen m))" by auto
qed

interpretation count_metrics: chunk_tally "\<lambda>m. int (dataPointsLen m)"
    "extractMetricDataPoints (MetricsCountSizer :: ('re, 'sc, 'k, 'n, 'h, 'e, 's) metrics_sizer)"
    "\<lambda>e. points (mt_Data e) \<noteq> []" metric_flat
proof unfold_locales
  fix x :: "('k, 'n, 'h, 'e, 's) metric" and c x' e n
  assume ex: "extractMetricDataPoints (MetricsCountSizer :: ('re, 'sc, 'k, 'n, 'h, 'e, 's) metrics_sizer) x c = (x', e, n)"
  show "n = (if points (mt_Data e) \<noteq> [] then int (length (metric_flat e)) else 0)"
    using count_extractMetric(1) [OF ex] by (simp add: dataPointsLen_points)
  assume "0 < c" "c < int (dataPointsLen x)"
  with count_extractMetric(2) [OF ex] show "points (mt_Data e) \<noteq> [] \<and> int (length (metric_flat e)) = c"
    by (auto simp: dataPointsLen_points)
qed (auto dest: extractMetricDataPoints_conserves simp: metric_flat_def dataPointsLen_points)

lemma count_extractScopeMetrics:
  fixes sm :: "('sc, ('k, 'n, 'h, 'e, 's) metric) scope_data"
  assumes "extractScopeMetrics (MetricsCountSizer :: ('re, 'sc, 'k, 'n, 'h, 'e, 's) metrics_sizer) sm c = (sm', e, n)"
  shows "n = int (length (metrics_scope_flat e))"
    and "0 \<le> c \<Longrightarrow> int (length (metrics_scope_flat e)) = min c (int (length (metrics_scope_flat sm)))"
proof -
  obtain c' dest rest where
    r: "remove_if (extractScopeMetrics_step (MetricsCountSizer :: ('re, 'sc, 'k, 'n, 'h, 'e, 's) metrics_sizer)) (c, 0, []) (sd_items sm)
        = ((c', n, dest), rest)"
    and eqs: "e = sm\<lparr>sd_items := dest\<rparr>"
    using assms by (auto simp: extractScopeMetrics_def Let_def split: prod.splits)
  note r' = r [unfolded metrics_step_chunk metrics_count_simps]
  have len: "length (metrics_scope_flat sm) = length (concat (map metric_flat (sd_items sm)))"
    for sm :: "('sc, ('k, 'n, 'h, 'e, 's) metric) scope_data" by (simp add: metrics_scope_flat_def)
  show "n = int (length (metrics_scope_flat e))"
    using count_metrics.chunk_tallies [OF r'] unfolding eqs len by simp
  show "int (length (metrics_scope_flat e)) = min c (int (length (metrics_scope_flat sm)))" if "0 \<le> c"
    using count_metrics.chunk_fills [OF r' that] unfolding eqs len by simp
qed

interpretation count_metrics_scopes: chunk_tally "\<lambda>sm. \<Sum>m\<leftarrow>sd_items sm. int (dataPointsLen m)"
    "extractScopeMetrics (MetricsCountSizer :: ('re, 'sc, 'k, 'n, 'h, 'e, 's) metrics_sizer)"
    "\<lambda>e. sd_items e \<noteq> []" metrics_scope_flat
proof unfold_locales
  fix x :: "('sc, ('k, 'n, 'h, 'e, 's) metric) scope_data" and c x' e n
  assume ex: "extractScopeMetrics (MetricsCountSizer :: ('re, 'sc, 'k, 'n, 'h, 'e, 's) metrics_sizer) x c = (x', e, n)"
  show "n = (if sd_items e \<noteq> [] then int (length (metrics_scope_flat e)) else 0)"
    using count_extractScopeMetrics(1) [OF ex] by auto
  assume "0 < c" "c < (\<Sum>m\<leftarrow>sd_items x. int (dataPointsLen m))"
  with count_extractScopeMetrics(2) [OF ex] show "sd_items e \<noteq> [] \<and> int (length (metrics_scope_flat e)) = c"
    by (auto simp: int_sum_list)
qed (auto dest: extractScopeMetrics_conserves simp: metrics_scope_flat_def length_concat o_def int_sum_list)

lemma count_extractResourceMetrics:
  fixes rm :: "('re, 'sc, ('k, 'n, 'h, 'e, 's) metric) resource_data"
  assumes "extractResourceMetrics MetricsCountSizer rm c = (rm', e, n)"
  shows "n = int (length (metrics_resource_flat e))"
    and "0 \<le> c \<Longrightarrow> int (length (metrics_resource_flat e)) = min c (int (length (metrics_resource_flat rm)))"
proof -
  obtain c' dest rest where
    r: "remove_if (extractResourceMetrics_step (MetricsCountSizer :: ('re, 'sc, 'k, 'n, 'h, 'e, 's) metrics_sizer)) (c, 0, []) (rd_scopes rm)
        = ((c', n, dest), rest)"
    and eqs: "e = rm\<lparr>rd_scopes := dest\<rparr>"
    using assms by (auto simp: extractResourceMetrics_def Let_def split: prod.splits)
  note r' = r [unfolded metrics_step_chunk metrics_count_simps]
  have len: "length (metrics_resource_flat rm) = length (concat (map metrics_scope_flat (rd_scopes rm)))"
    for rm :: "('re, 'sc, ('k, 'n, 'h, 'e, 's) metric) resource_data" by (simp add: metrics_resource_flat_def)
  show "n = int (length (metrics_resource_flat e))"
    using count_metrics_scopes.chunk_tallies [OF r'] unfolding eqs len by simp
  show "int (length (metrics_resource_flat e)) = min c (int (length (metrics_resource_flat rm)))" if "0 \<le> c"
    using count_metrics_scopes.chunk_fills [OF r' that] unfolding eqs len by simp
qed

interpretation count_metrics_resources: chunk_tally "\<lambda>rm. \<Sum>sm\<leftarrow>rd_scopes rm. \<Sum>m\<leftarrow>sd_items sm. int (dataPointsLen m)"
    "extractResourceMetrics (MetricsCountSizer :: ('re, 'sc, 'k, 'n, 'h, 'e, 's) metrics_sizer)"
    "\<lambda>e. rd_scopes e \<noteq> []" metrics_resource_flat
proof unfold_locales
  fix x :: "('re, 'sc, ('k, 'n, 'h, 'e, 's) metric) resource_data" and c x' e n
  assume ex: "extractResourceMetrics MetricsCountSizer x c = (x', e, n)"
  show "n = (if rd_scopes e \<noteq> [] then int (length (metrics_resource_flat e)) else 0)"
    using count_extractResourceMetrics(1) [OF ex] by auto
  assume "0 < c" "c < (\<Sum>sm\<leftarrow>rd_scopes x. \<Sum>m\<leftarrow>sd_items sm. int (dataPointsLen m))"
  with count_extractResourceMetrics(2) [OF ex] show "rd_scopes e \<noteq> [] \<and> int (length (metrics_resource_flat e)) = c"
    by (auto simp: int_sum_list)
qed (auto dest: extractResourceMetrics_conserves simp: metrics_resource_flat_def length_concat o_def int_sum_list)

lemma count_extractMetrics:
  fixes md :: "('re, 'sc, 'k, 'n, 'h, 'e, 's) metrics_payload"
  assumes "extractMetrics MetricsCountSizer md c = (md', e, n)" and "0 \<le> c"
  shows "int (DataPointCount e) = min c (int (DataPointCount md))" and "n = int (DataPointCount e)"
proof -
  obtain c' where
    r: "remove_if (extractMetrics_step (MetricsCountSizer :: ('re, 'sc, 'k, 'n, 'h, 'e, 's) metrics_sizer)) (c, 0, []) md = ((c', n, e), md')"
    using assms(1) by (auto simp: extractMetrics_def Let_def DataPointCount_def split: prod.splits)
  have sizes: "zs_delta (MetricsCountSizer :: ('re, 'sc, 'k, 'n, 'h, 'e, 's) metrics_sizer) = (\<lambda>n. n)"
    "zs_resource MetricsCountSizer = (\<lambda>rm :: ('re, 'sc, ('k, 'n, 'h, 'e, 's) metric) resource_data.
       \<Sum>sm\<leftarrow>rd_scopes rm. \<Sum>m\<leftarrow>sd_items sm. int (dataPointsLen m))"
    by (simp_all add: fun_eq_iff)
  note r' = r [unfolded metrics_step_chunk sizes]
  from count_metrics_resources.chunk_fills [OF r' assms(2)] count_metrics_resources.chunk_tallies [OF r']
  show "int (DataPointCount e) = min c (int (DataPointCount md))" and "n = int (DataPointCount e)"
    by (simp_all add: length_metrics_flat [symmetric] metrics_flat_def)
qed

end
