(* ===== verification/MetricsLimit.thy ===== *)
theory MetricsLimit
  imports MetricsBatch
begin

text \<open>
  What \<open>metricsRequest.MergeSplit\<close> does to a request: conservation of the data points for both
  sizers, full batches for the items sizer, and for the bytes sizer how far the requests can exceed
  the limit, with the inputs on which they do.
\<close>

section \<open>Conservation\<close>

definition metrics_results_flat ::
  "('re, 'sc, 'k, 'n, 'h, 'e, 's) metrics_request list \<Rightarrow>
   ('re \<times> string \<times> 'sc \<times> string \<times> ('k, 'n, 'h, 'e, 's) metric \<times> ('n, 'h, 'e, 's) point) list" where
  "metrics_results_flat rs = concat (map (metrics_flat \<circ> mq_md) rs)"

lemma metrics_results_flat_Cons [simp]:
  "metrics_results_flat [] = []" "metrics_results_flat (r # rs) = metrics_flat (mq_md r) @ metrics_results_flat rs"
  by (simp_all add: metrics_results_flat_def)

lemma metrics_size_md [simp]: "mq_md (snd (metrics_size sz req)) = mq_md req"
  by (simp add: metrics_size_def Let_def)

lemma split_metrics_rounds [case_names fits drop round]:
  assumes fits: "\<And>req n req1. metrics_size sz req = (n, req1) \<Longrightarrow> n \<le> m \<Longrightarrow> P req ([req1], None, req1)"
    and drop: "\<And>req n req1 src' md rm. metrics_size sz req = (n, req1) \<Longrightarrow> m < n \<Longrightarrow>
        extractMetrics sz (mq_md req1) m = (src', md, rm) \<Longrightarrow> DataPointCount md = 0 \<Longrightarrow>
        P req ([], Some (ItemGreaterThanMaxSize (DataPointCount src')), req1\<lparr>mq_md := src'\<rparr>)"
    and round: "\<And>req n req1 src' md rm res err req'. metrics_size sz req = (n, req1) \<Longrightarrow> m < n \<Longrightarrow>
        extractMetrics sz (mq_md req1) m = (src', md, rm) \<Longrightarrow> 0 < DataPointCount md \<Longrightarrow>
        P (metrics_setCachedSize (n - rm) (req1\<lparr>mq_md := src'\<rparr>)) (res, err, req') \<Longrightarrow>
        P req (newMetricsRequest md # res, err, req')"
  shows "P req (split_metrics sz m req)"
proof (induction sz\<equiv>sz m\<equiv>m req rule: split_metrics.induct)
  case (1 req)
  obtain n req1 where size: "metrics_size sz req = (n, req1)" by force
  obtain src' md rm where ex: "extractMetrics sz (mq_md req1) m = (src', md, rm)" by (metis prod_cases3)
  let ?req2 = "metrics_setCachedSize (n - rm) (req1\<lparr>mq_md := src'\<rparr>)"
  obtain res err req' where rec: "split_metrics sz m ?req2 = (res, err, req')" by (metis prod_cases3)
  have "m < n \<Longrightarrow> 0 < DataPointCount md \<Longrightarrow> P ?req2 (res, err, req')"
    using "1" [OF size [symmetric] _ ex [symmetric] refl refl] rec by simp
  with fits [OF size] drop [OF size _ ex] round [OF size _ ex] show ?case
    by (subst split_metrics.simps) (simp add: size ex rec Let_def)
qed

lemma split_metrics_flat:
  "case split_metrics sz m req of
      (res, None, req') \<Rightarrow> metrics_results_flat res = metrics_flat (mq_md req) \<and> res \<noteq> [] \<and> last res = req'
    | (res, Some e, req') \<Rightarrow> e = ItemGreaterThanMaxSize (metrics_ItemsCount req') \<and>
        metrics_results_flat res @ metrics_flat (mq_md req') = metrics_flat (mq_md req)"
proof (induction req rule: split_metrics_rounds [where sz = sz and m = m])
  case (fits req n req1)
  then have "mq_md req1 = mq_md req" by (metis metrics_size_md snd_conv)
  then show ?case by simp
next
  case (drop req n req1 src' md rm)
  then have "mq_md req1 = mq_md req" by (metis metrics_size_md snd_conv)
  moreover have "metrics_flat md = []" using drop(4) length_metrics_flat [of md] by simp
  ultimately show ?case using extractMetrics_conserves [OF drop(3)] by (simp add: metrics_ItemsCount_def)
next
  case (round req n req1 src' md rm res err req')
  then have "mq_md req1 = mq_md req" by (metis metrics_size_md snd_conv)
  then show ?case using round(5) extractMetrics_conserves [OF round(3)]
    by (auto simp: newMetricsRequest_def metrics_setCachedSize_def split: option.splits)
qed

fun metrics_sizer_of ::
  "('re, 'sc, 'k, 'n, 'h, 'e, 's) metric_leaves \<Rightarrow> SizerType \<Rightarrow> ('re, 'sc, 'k, 'n, 'h, 'e, 's) metrics_sizer option" where
  "metrics_sizer_of leaves SizerTypeItems = Some MetricsCountSizer"
| "metrics_sizer_of leaves SizerTypeBytes = Some (MetricsBytesSizer leaves)"
| "metrics_sizer_of leaves _ = None"

fun metrics_merge_flat ::
  "('re, 'sc, 'k, 'n, 'h, 'e, 's) metrics_request \<Rightarrow> ('re, 'sc, 'k, 'n, 'h, 'e, 's) any_metrics_request option \<Rightarrow>
   ('re \<times> string \<times> 'sc \<times> string \<times> ('k, 'n, 'h, 'e, 's) metric \<times> ('n, 'h, 'e, 's) point) list" where
  "metrics_merge_flat req (Some (MetricsRequest req2)) = metrics_flat (mq_md req) @ metrics_flat (mq_md req2)"
| "metrics_merge_flat req _ = metrics_flat (mq_md req)"

fun metrics_merge_input ::
  "('re, 'sc, 'k, 'n, 'h, 'e, 's) metrics_sizer \<Rightarrow> ('re, 'sc, 'k, 'n, 'h, 'e, 's) metrics_request \<Rightarrow>
   ('re, 'sc, 'k, 'n, 'h, 'e, 's) any_metrics_request option \<Rightarrow> ('re, 'sc, 'k, 'n, 'h, 'e, 's) metrics_request" where
  "metrics_merge_input sz req (Some (MetricsRequest req2)) = snd (metrics_mergeTo (Some sz) req2 req)"
| "metrics_merge_input sz req _ = req"

lemma metrics_mergeTo_md:
  "mq_md (snd (metrics_mergeTo osz req2 req)) = mq_md req @ mq_md req2"
  by (auto simp: metrics_mergeTo_def metrics_size_def metrics_setCachedSize_def Let_def split: option.splits)

lemma metrics_merge_input_flat: "metrics_flat (mq_md (metrics_merge_input sz req r2)) = metrics_merge_flat req r2"
  by (cases "(sz, req, r2)" rule: metrics_merge_input.cases) (auto simp: metrics_mergeTo_md metrics_flat_def)

lemma metrics_MergeSplit_cases:
  "metrics_MergeSplit leaves m szt req r2 =
     (case metrics_sizer_of leaves szt of
        None \<Rightarrow> ([], Some UnknownSizerType, req)
      | Some sz \<Rightarrow> if r2 = Some OtherMetricsRequest then ([], Some InvalidInputType, req)
          else if m = 0 then ([metrics_merge_input sz req r2], None, metrics_merge_input sz req r2)
          else split_metrics sz m (metrics_merge_input sz req r2))"
  by (cases szt) (auto simp: metrics_MergeSplit_def Let_def split: option.splits any_metrics_request.splits)

text \<open>
  C34. \<open>metricsRequest.MergeSplit\<close> neither loses, duplicates nor reorders a data point, and keeps each
  one under its resource, scope, schema URLs and metric, with the name, description, unit, metadata,
  kind, aggregation temporality and monotonicity of the metric: read in order, the returned requests
  hold the data points of the receiver and then those of the merged request. When a data point is too
  big, the results and what is left in the receiver together are those data points, and the error
  counts the ones left. The two other errors leave the receiver as it was.
\<close>

theorem metrics_MergeSplit_conserves:
  "case metrics_MergeSplit leaves m szt req r2 of
     (res, None, req') \<Rightarrow> metrics_results_flat res = metrics_merge_flat req r2 \<and> res \<noteq> [] \<and> last res = req'
   | (res, Some (ItemGreaterThanMaxSize k), req') \<Rightarrow>
       metrics_results_flat res @ metrics_flat (mq_md req') = metrics_merge_flat req r2 \<and> k = metrics_ItemsCount req'
   | (res, Some UnknownSizerType, req') \<Rightarrow>
       szt \<notin> {SizerTypeItems, SizerTypeBytes} \<and> res = [] \<and> req' = req
   | (res, Some InvalidInputType, req') \<Rightarrow> r2 = Some OtherMetricsRequest \<and> res = [] \<and> req' = req"
proof (cases "metrics_sizer_of leaves szt")
  case None
  then have "szt \<notin> {SizerTypeItems, SizerTypeBytes}" by (cases szt) auto
  with None show ?thesis by (simp add: metrics_MergeSplit_cases)
next
  case (Some sz)
  with split_metrics_flat [where sz = sz and m = m and req = "metrics_merge_input sz req r2"] show ?thesis
    by (auto simp: metrics_MergeSplit_cases metrics_merge_input_flat split: option.splits prod.splits)
qed

section \<open>The items sizer\<close>

definition metrics_cache_ok ::
  "('re, 'sc, 'k, 'n, 'h, 'e, 's) metrics_sizer \<Rightarrow> ('re, 'sc, 'k, 'n, 'h, 'e, 's) metrics_request \<Rightarrow> bool" where
  "metrics_cache_ok sz req \<longleftrightarrow> mq_cachedSize req = -1 \<or> mq_cachedSize req = zs_payload sz (mq_md req)"

fun metrics_input_cache_ok ::
  "('re, 'sc, 'k, 'n, 'h, 'e, 's) metrics_sizer \<Rightarrow> ('re, 'sc, 'k, 'n, 'h, 'e, 's) any_metrics_request option \<Rightarrow> bool" where
  "metrics_input_cache_ok sz (Some (MetricsRequest req2)) = metrics_cache_ok sz req2"
| "metrics_input_cache_ok sz _ = True"

lemma metrics_size_exact:
  "metrics_cache_ok sz req \<Longrightarrow> metrics_size sz req =
     (zs_payload sz (mq_md req), req\<lparr>mq_cachedSize := zs_payload sz (mq_md req)\<rparr>)"
  by (auto simp: metrics_size_def Let_def metrics_cache_ok_def)

lemma metrics_merge_input_cache:
  assumes "\<And>a b. zs_payload sz (a @ b) = zs_payload sz a + zs_payload sz b"
    and "metrics_cache_ok sz req" and "metrics_input_cache_ok sz r2"
  shows "metrics_cache_ok sz (metrics_merge_input sz req r2)"
  using assms by (cases "(sz, req, r2)" rule: metrics_merge_input.cases)
    (auto simp: metrics_mergeTo_def metrics_size_exact metrics_cache_ok_def metrics_setCachedSize_def)

definition metrics_filled :: "int \<Rightarrow> ('re, 'sc, 'k, 'n, 'h, 'e, 's) metrics_request list \<Rightarrow> bool" where
  "metrics_filled m rs \<longleftrightarrow> rs \<noteq> [] \<and> (\<forall>r \<in> set (butlast rs). int (metrics_ItemsCount r) = m) \<and>
     int (metrics_ItemsCount (last rs)) \<le> m \<and> (2 \<le> length rs \<longrightarrow> 0 < metrics_ItemsCount (last rs))"

lemma split_metrics_filled:
  assumes "0 < m"
  shows "metrics_cache_ok MetricsCountSizer req \<Longrightarrow>
    (case split_metrics MetricsCountSizer m req of (res, err, req') \<Rightarrow> err = None \<and> metrics_filled m res \<and>
       (\<forall>r \<in> set res. metrics_cache_ok MetricsCountSizer r) \<and>
       (0 < metrics_ItemsCount req \<longrightarrow> 0 < metrics_ItemsCount (last res)))"
proof (induction req rule: split_metrics_rounds [where sz = MetricsCountSizer and m = m])
  case (fits req n req1)
  then show ?case by (auto simp: metrics_size_exact metrics_filled_def metrics_ItemsCount_def metrics_cache_ok_def)
next
  case (drop req n req1 src' md rm)
  with count_extractMetrics [OF drop(3)] assms show ?case by (auto simp: metrics_size_exact)
next
  case (round req n req1 src' md rm res err req')
  then have n: "n = int (DataPointCount (mq_md req))" "mq_md req1 = mq_md req"
    by (auto simp: metrics_size_exact)
  have md: "int (DataPointCount md) = m" "rm = int (DataPointCount md)"
    using count_extractMetrics [OF round(3)] assms round(2) n by simp_all
  have src: "DataPointCount (mq_md req) = DataPointCount md + DataPointCount src'"
    using arg_cong [OF extractMetrics_conserves [OF round(3)], of length] n(2) by (simp add: length_metrics_flat)
  have "metrics_cache_ok MetricsCountSizer (metrics_setCachedSize (n - rm) (req1\<lparr>mq_md := src'\<rparr>))"
    using md src n by (simp add: metrics_cache_ok_def metrics_setCachedSize_def)
  moreover have "0 < DataPointCount src'" using src md(1) round(2) n by simp
  ultimately show ?case using round(5) md(1)
    by (auto simp: metrics_filled_def metrics_ItemsCount_def newMetricsRequest_def metrics_setCachedSize_def metrics_cache_ok_def)
qed

text \<open>
  C35. With the items sizer and a positive limit \<open>MergeSplit\<close> of metrics never fails and packs tightly,
  splitting metrics between their data points: every returned request but the last holds exactly \<open>m\<close>
  data points, the last one the rest, and the cached sizes stay right.
\<close>

theorem metrics_MergeSplit_items_filled:
  assumes "0 < m" and "r2 \<noteq> Some OtherMetricsRequest"
    and "metrics_cache_ok MetricsCountSizer req" and "metrics_input_cache_ok MetricsCountSizer r2"
    and "metrics_MergeSplit leaves m SizerTypeItems req r2 = (res, err, req')"
  shows "err = None \<and> metrics_filled m res \<and> (\<forall>r \<in> set res. metrics_cache_ok MetricsCountSizer r) \<and>
    (metrics_merge_flat req r2 \<noteq> [] \<longrightarrow> 0 < metrics_ItemsCount (last res))"
proof -
  let ?in = "metrics_merge_input MetricsCountSizer req r2"
  have split: "split_metrics MetricsCountSizer m ?in = (res, err, req')"
    using assms by (simp add: metrics_MergeSplit_cases)
  have "metrics_cache_ok MetricsCountSizer ?in"
    using assms(3,4) by (intro metrics_merge_input_cache) (simp_all add: DataPointCount_def)
  from split_metrics_filled [OF assms(1) this] split
  have "err = None \<and> metrics_filled m res \<and> (\<forall>r \<in> set res. metrics_cache_ok MetricsCountSizer r) \<and>
      (0 < metrics_ItemsCount ?in \<longrightarrow> 0 < metrics_ItemsCount (last res))" by simp
  moreover have "metrics_ItemsCount ?in = length (metrics_merge_flat req r2)"
    by (simp add: metrics_ItemsCount_def length_metrics_flat [symmetric] metrics_merge_input_flat)
  ultimately show ?thesis by auto
qed

section \<open>The bytes sizer\<close>

text \<open>
  The extraction of data points takes the header of the data message as one byte long and without
  flags, so the sizes it removes and the room it leaves are not exact: what is removed is at least what
  is counted, and what is taken exceeds the capacity by at most a slack.
\<close>

locale chunk_over =
  fixes delta :: "int \<Rightarrow> int" and sizeof :: "'a \<Rightarrow> int"
    and part :: "'a \<Rightarrow> int \<Rightarrow> 'a \<times> 'a \<times> int" and nonempty :: "'a \<Rightarrow> bool"
    and ok :: "'a \<Rightarrow> bool" and slack :: int and limit :: int
  assumes slack_nonneg: "0 \<le> slack"
    and size_nonneg: "0 \<le> delta (sizeof x)"
    and part_over: "ok x \<Longrightarrow> part x c = (x', e, n) \<Longrightarrow> delta (sizeof x') \<le> delta (sizeof x - n)"
    and part_less: "ok x \<Longrightarrow> part x c = (x', e, n) \<Longrightarrow> delta (sizeof x - n) \<le> delta (sizeof x)"
    and part_ok: "ok x \<Longrightarrow> part x c = (x', e, n) \<Longrightarrow> ok x'"
    and part_pos: "ok x \<Longrightarrow> part x c = (x', e, n) \<Longrightarrow> nonempty e \<Longrightarrow> 0 < c"
    and part_fit: "ok x \<Longrightarrow> part x c = (x', e, n) \<Longrightarrow> nonempty e \<Longrightarrow> c \<le> limit \<Longrightarrow> delta (sizeof e) \<le> c + slack"
begin

abbreviation total :: "'a list \<Rightarrow> int" where
  "total xs \<equiv> (\<Sum>x\<leftarrow>xs. delta (sizeof x))"

lemmas part_step = chunk_Cons_part [where delta = delta and sizeof = sizeof and part = part
    and nonempty = nonempty]

lemmas full_step = chunk_Cons_full [where delta = delta and sizeof = sizeof and part = part
    and nonempty = nonempty]

lemmas stopped = chunk_stopped [where delta = delta and sizeof = sizeof and part = part
    and nonempty = nonempty]

lemma total_nonneg: "0 \<le> total xs"
  by (rule sum_list_nonneg_int) (simp add: size_nonneg)

lemma chunk_removed_over:
  "remove_if (chunk_step delta sizeof part nonempty) (c, rm, dest) xs = ((c', rm', dest'), rest) \<Longrightarrow>
   list_all ok xs \<Longrightarrow> list_all ok rest \<and> total rest \<le> total xs - (rm' - rm) \<and> rm \<le> rm'"
proof (induction xs arbitrary: c rm dest c' rm' dest' rest)
  case (Cons x xs)
  show ?case
  proof (cases "c = 0")
    case True
    with Cons.prems stopped [of rm dest "x # xs"] show ?thesis by auto
  next
    case nz: False
    show ?thesis
    proof (cases "c < delta (sizeof x)")
      case True
      obtain x' e n where p: "part x c = (x', e, n)" by (metis prod_cases3)
      have "ok x" using Cons.prems(2) by simp
      from Cons.prems part_step [OF nz True p] part_over [OF this p] part_less [OF this p] part_ok [OF this p]
      show ?thesis by auto
    next
      case False
      from Cons.IH [OF Cons.prems(1) [unfolded full_step [OF nz False]]] Cons.prems(2) size_nonneg [of x]
      show ?thesis by auto
    qed
  qed
qed auto

lemma chunk_fit_over:
  "remove_if (chunk_step delta sizeof part nonempty) (c, rm, dest) xs = ((c', rm', dest'), rest) \<Longrightarrow>
   list_all ok xs \<Longrightarrow> c \<le> limit \<Longrightarrow> \<exists>taken. dest' = dest @ taken \<and> (taken \<noteq> [] \<longrightarrow> 0 < c \<and> total taken \<le> c + slack)"
proof (induction xs arbitrary: c rm dest c' rm' dest' rest)
  case (Cons x xs)
  show ?case
  proof (cases "c = 0")
    case True
    with Cons.prems stopped [of rm dest "x # xs"] show ?thesis by auto
  next
    case nz: False
    show ?thesis
    proof (cases "c < delta (sizeof x)")
      case True
      obtain x' e n where p: "part x c = (x', e, n)" by (metis prod_cases3)
      with Cons.prems part_step [OF nz True p] part_fit [OF _ p] part_pos [OF _ p] show ?thesis by auto
    next
      case False
      have "list_all ok xs" "c - delta (sizeof x) \<le> limit" using Cons.prems(2,3) size_nonneg [of x] by simp_all
      from Cons.IH [OF Cons.prems(1) [unfolded full_step [OF nz False]] this]
      obtain taken where "dest' = (dest @ [x]) @ taken" "taken \<noteq> [] \<longrightarrow> total taken \<le> c - delta (sizeof x) + slack"
        by blast
      moreover have "0 < c" using nz False size_nonneg [of x] by simp
      ultimately show ?thesis using False slack_nonneg by (intro exI [of _ "x # taken"]) auto
    qed
  qed
qed auto

end

lemma groups7_mono: "m \<le> n \<Longrightarrow> groups7 m \<le> groups7 n"
proof (induction n arbitrary: m rule: groups7.induct)
  case (1 n)
  show ?case
  proof (cases "m < 128")
    case True
    then show ?thesis by (subst groups7.simps, subst (2) groups7.simps) simp
  next
    case False
    with "1.prems" have "groups7 (m div 128) \<le> groups7 (n div 128)" by (intro "1.IH" div_le_mono) auto
    with False "1.prems" show ?thesis by (subst groups7.simps, subst (2) groups7.simps) simp
  qed
qed

lemma groups7_step: "n \<le> m + 127 \<Longrightarrow> groups7 n \<le> Suc (groups7 m)"
proof (cases "n < 128")
  case True
  then show ?thesis by (subst groups7.simps) simp
next
  case False
  assume le: "n \<le> m + 127"
  then have "n div 128 \<le> m" using False by linarith
  moreover have "groups7 n = Suc (groups7 (n div 128))" using False by (subst groups7.simps) simp
  ultimately show ?thesis by (simp add: groups7_mono)
qed

lemma groups7_pos: "1 \<le> groups7 n"
  by (subst groups7.simps) simp

definition prefix_len :: "int \<Rightarrow> int" where
  "prefix_len n = int (groups7 (nat n))"

lemma prefix_len_mono: "a \<le> b \<Longrightarrow> prefix_len a \<le> prefix_len b"
  by (simp add: prefix_len_def groups7_mono nat_mono)

lemma prefix_len_step: "a \<le> b + 127 \<Longrightarrow> 0 \<le> b \<Longrightarrow> prefix_len a \<le> prefix_len b + 1"
  using groups7_step [of "nat a" "nat b"] by (simp add: prefix_len_def nat_le_iff)

lemma prefix_len_pos: "1 \<le> prefix_len n"
  using groups7_pos [of "nat n"] by (simp add: prefix_len_def)

lemma field_size_prefix:
  assumes "0 \<le> n" and "n \<le> max_i64"
  shows "field_size n = 1 + n + prefix_len n"
proof -
  have "unat (word_of_int n :: u64) = nat n"
    using assms by (simp add: max_i64_def unsigned_of_int take_bit_int_eq_self)
  then show ?thesis by (simp add: field_size_def prefix_len_def Sov_groups7)
qed

lemma field_size_neg: "n < 0 \<Longrightarrow> field_size n = 1 + n + int (Sov (word_of_int n))"
  by (simp add: field_size_def)

lemma field_size_mono:
  assumes "0 \<le> a" and "a \<le> b" and "b \<le> max_i64"
  shows "field_size a + (b - a) \<le> field_size b"
  using assms prefix_len_mono [of a b] by (simp add: field_size_prefix)

text \<open>A message that exceeds the room left for its content by \<open>s\<close> exceeds the capacity by at most \<open>s + 1\<close>.\<close>

lemma field_size_over:
  assumes "0 \<le> raw" and "raw \<le> c - (field_size c - c) + s" and "0 \<le> s" and "s \<le> 100" and "0 \<le> c" and "c \<le> max_i64 - 128"
  shows "field_size raw \<le> c + s + 1"
proof -
  have c: "field_size c = 1 + c + prefix_len c" using assms by (intro field_size_prefix) (simp_all add: max_i64_def)
  have "raw \<le> c + 127" using assms(2,4) prefix_len_pos [of c] by (simp add: c)
  then have "prefix_len raw \<le> prefix_len c + 1" using assms(5) by (rule prefix_len_step)
  moreover have "field_size raw = 1 + raw + prefix_len raw"
    using assms(1,6) \<open>raw \<le> c + 127\<close> by (intro field_size_prefix) simp_all
  ultimately show ?thesis using assms(2) by (simp add: c)
qed

section \<open>Sizes of metrics\<close>

fun flags_size :: "('n, 'h, 'e, 's) metric_data \<Rightarrow> int" where
  "flags_size (SumData dps t monotonic) = temporality_size t + (if monotonic then 2 else 0)"
| "flags_size (HistogramData dps t) = temporality_size t"
| "flags_size (ExponentialHistogramData dps t) = temporality_size t"
| "flags_size d = 0"

lemma flags_size_with [simp]: "flags_size (with_points d ps) = flags_size d"
  by (cases d) simp_all

text \<open>The enum has the values 0, 1 and 2.\<close>

fun temporality_defined :: "('n, 'h, 'e, 's) metric_data \<Rightarrow> bool" where
  "temporality_defined (SumData dps t monotonic) = (t \<in> {0, 1, 2})"
| "temporality_defined (HistogramData dps t) = (t \<in> {0, 1, 2})"
| "temporality_defined (ExponentialHistogramData dps t) = (t \<in> {0, 1, 2})"
| "temporality_defined d = True"

lemma temporality_defined_with [simp]: "temporality_defined (with_points d ps) = temporality_defined d"
  by (cases d) simp_all

lemma temporality_size_defined: "temporality_size 0 = 0" "temporality_size 1 = 2" "temporality_size 2 = 2"
  by (simp_all add: temporality_size_def Sov_groups7 groups7.simps)

lemma flags_size_bounds: "temporality_defined d \<Longrightarrow> 0 \<le> flags_size d \<and> flags_size d \<le> 4"
  by (cases d) (auto simp: temporality_size_defined)

abbreviation bytes_point :: "('re, 'sc, 'k, 'n, 'h, 'e, 's) metric_leaves \<Rightarrow> ('n, 'h, 'e, 's) point \<Rightarrow> int" where
  "bytes_point lf \<equiv> zs_point (MetricsBytesSizer lf)"

abbreviation points_total :: "('re, 'sc, 'k, 'n, 'h, 'e, 's) metric_leaves \<Rightarrow> ('n, 'h, 'e, 's) point list \<Rightarrow> int" where
  "points_total lf ps \<equiv> (\<Sum>p\<leftarrow>ps. DeltaSize (bytes_point lf p))"

lemma bytes_point_nonneg: "0 \<le> bytes_point lf p"
  by (cases p) (simp_all add: MetricsBytesSizer_def)

lemma data_size_points: "data_proto_size lf d = flags_size d + points_total lf (points d)"
  by (cases d) (simp_all add: points_size_def MetricsBytesSizer_def DeltaSize_field_size o_def)

definition metric_head :: "('re, 'sc, 'k, 'n, 'h, 'e, 's) metric_leaves \<Rightarrow> ('k, 'n, 'h, 'e, 's) metric \<Rightarrow> int" where
  "metric_head lf m = schema_size (mt_Name m) + schema_size (mt_Description m) + schema_size (mt_Unit m)
     + int (lf_metadata lf (mt_Metadata m))"

lemma metric_head_nonneg: "0 \<le> metric_head lf m"
  by (simp add: metric_head_def schema_size_nonneg)

lemma metric_head_data [simp]: "metric_head lf (m\<lparr>mt_Data := d\<rparr>) = metric_head lf m"
  by (simp add: metric_head_def)

lemma Metric_size_split:
  "mt_Data m \<noteq> NoData \<Longrightarrow> Metric_proto_size lf m = metric_head lf m + field_size (flags_size (mt_Data m) + points_total lf (points (mt_Data m)))"
  by (simp add: Metric_proto_size_def metric_head_def data_size_points [symmetric])

lemma Metric_size_NoData: "mt_Data m = NoData \<Longrightarrow> Metric_proto_size lf m = metric_head lf m"
  by (simp add: Metric_proto_size_def metric_head_def)

lemma field_size_0: "field_size 0 = 2"
  by (simp add: field_size_def Sov_groups7 groups7.simps)

lemma Metric_size_unset:
  "mt_Data m \<noteq> NoData \<Longrightarrow> Metric_proto_size lf (m\<lparr>mt_Data := unset (mt_Data m)\<rparr>) = metric_head lf m + 2"
  by (cases "mt_Data m")
    (simp_all add: Metric_proto_size_def metric_head_def temporality_size_def points_size_def field_size_0)

section \<open>Sizes of what is extracted\<close>

lemma bytes_simps [simp]:
  "zs_delta (MetricsBytesSizer lf) = field_size" "zs_metric (MetricsBytesSizer lf) = Metric_proto_size lf"
  "zs_scope (MetricsBytesSizer lf) = ScopeMetrics_proto_size lf" "zs_resource (MetricsBytesSizer lf) = ResourceMetrics_proto_size lf"
  "zs_payload (MetricsBytesSizer lf) = Metrics_proto_size lf"
  by (simp_all add: MetricsBytesSizer_def fun_eq_iff DeltaSize_field_size)

lemma field_size_nonneg: "0 \<le> n \<Longrightarrow> 0 \<le> field_size n"
  by (simp add: field_size_def)

lemma field_size_ge: "n < field_size n"
  by (simp add: field_size_def)

definition metric_ok :: "('re, 'sc, 'k, 'n, 'h, 'e, 's) metric_leaves \<Rightarrow> ('k, 'n, 'h, 'e, 's) metric \<Rightarrow> bool" where
  "metric_ok lf m \<longleftrightarrow> temporality_defined (mt_Data m) \<and> Metric_proto_size lf m \<le> max_i64"

definition limit_slack :: "int \<Rightarrow> int" where
  "limit_slack limit = 4 + prefix_len limit"

lemma limit_slack_bounds: "limit \<le> max_i64 \<Longrightarrow> 0 \<le> limit_slack limit \<and> limit_slack limit \<le> 13"
  using groups7_le [of "nat limit" 8] prefix_len_pos [of limit]
  by (simp add: limit_slack_def prefix_len_def max_i64_def nat_less_iff)

interpretation bytes_points: chunk_over field_size "bytes_point lf" "\<lambda>x c. (x, x, 0)" "\<lambda>_. False" "\<lambda>_. True" 0 limit
  for lf :: "('re, 'sc, 'k, 'n, 'h, 'e, 's) metric_leaves" and limit :: int
  by unfold_locales (simp_all add: field_size_nonneg bytes_point_nonneg)

lemma Metric_size_nonneg:
  assumes "temporality_defined (mt_Data m)"
  shows "0 \<le> Metric_proto_size lf m"
proof (cases "mt_Data m = NoData")
  case False
  have "0 \<le> field_size (flags_size (mt_Data m) + points_total lf (points (mt_Data m)))"
    using flags_size_bounds [OF assms] bytes_points.total_nonneg [of lf "points (mt_Data m)"]
    by (intro field_size_nonneg) (simp add: DeltaSize_field_size)
  then show ?thesis by (simp add: Metric_size_split [OF False] metric_head_nonneg add_nonneg_nonneg)
qed (simp add: Metric_size_NoData metric_head_nonneg)

lemma extractMetricDataPoints_bytes:
  assumes ex: "extractMetricDataPoints (MetricsBytesSizer lf) m c = (m', e, n)" and ok: "metric_ok lf m"
  shows "Metric_proto_size lf m' \<le> Metric_proto_size lf m - n" and "0 \<le> n" and "temporality_defined (mt_Data m')"
    and "points (mt_Data e) \<noteq> [] \<Longrightarrow> 0 < c \<and> (c \<le> limit \<longrightarrow> limit \<le> max_i64 - 128 \<longrightarrow>
      field_size (Metric_proto_size lf e) \<le> c + limit_slack limit)"
proof -
  have "Metric_proto_size lf m' \<le> Metric_proto_size lf m - n \<and> 0 \<le> n \<and> temporality_defined (mt_Data m') \<and>
    (points (mt_Data e) \<noteq> [] \<longrightarrow> 0 < c \<and> (c \<le> limit \<longrightarrow> limit \<le> max_i64 - 128 \<longrightarrow>
      field_size (Metric_proto_size lf e) \<le> c + limit_slack limit))"
  proof (cases "mt_Data m = NoData")
    case True
    with extractMetricDataPoints_NoData [OF ex True] show ?thesis by simp
  next
    case False
    let ?c0 = "c - (field_size c - c) - (metric_head lf m + 2)"
    from False ex obtain c' taken rest where
      r: "remove_if (extractDataPoints_step field_size (bytes_point lf)) (?c0, 0, []) (points (mt_Data m)) = ((c', n, taken), rest)"
      and pts: "points (mt_Data e) = taken" "points (mt_Data m') = rest" "points (mt_Data m) = taken @ rest"
      and eqs: "m' = m\<lparr>mt_Data := with_points (mt_Data m) rest\<rparr>" "e = m\<lparr>mt_Data := with_points (mt_Data m) taken\<rparr>"
      by (rule extractMetricDataPoints_run) (simp add: Metric_size_unset [OF False])
    note r' = r [unfolded extractDataPoints_step_chunk]
    let ?F = "flags_size (mt_Data m)"
    let ?T = "\<lambda>ps. \<Sum>p\<leftarrow>ps. field_size (bytes_point lf p)"
    have F: "0 \<le> ?F" "?F \<le> 4" using ok flags_size_bounds by (auto simp: metric_ok_def)
    have kind: "with_points (mt_Data m) ps \<noteq> NoData" for ps using False by (cases "mt_Data m") simp_all
    have size: "points (with_points (mt_Data m) ps) = ps \<Longrightarrow>
        Metric_proto_size lf (m\<lparr>mt_Data := with_points (mt_Data m) ps\<rparr>) = metric_head lf m + field_size (?F + ?T ps)" for ps
      using kind by (subst Metric_size_split) (simp_all add: DeltaSize_field_size)
    have m: "Metric_proto_size lf m = metric_head lf m + field_size (?F + ?T (points (mt_Data m)))"
      using Metric_size_split [OF False, of lf] by (simp add: DeltaSize_field_size)
    have m': "Metric_proto_size lf m' = metric_head lf m + field_size (?F + ?T rest)"
      and e: "Metric_proto_size lf e = metric_head lf m + field_size (?F + ?T taken)"
      using size pts by (simp_all add: eqs)
    note nonneg = bytes_points.total_nonneg [of lf taken] bytes_points.total_nonneg [of lf rest] metric_head_nonneg [of lf m]
    have total: "?T (points (mt_Data m)) = ?T taken + ?T rest" by (simp add: pts(3))
    have all: "list_all (\<lambda>_. True) (points (mt_Data m))" by (simp add: list_all_iff)
    from bytes_points.chunk_removed_over [OF r' all] have n: "n \<le> ?T taken" "0 \<le> n" by (simp_all add: total)
    have "?F + ?T (points (mt_Data m)) \<le> max_i64"
      using ok nonneg F field_size_ge [of "?F + ?T (points (mt_Data m))"] by (simp add: metric_ok_def m)
    from field_size_mono [OF _ _ this, of "?F + ?T rest"] n nonneg F
    have removed: "Metric_proto_size lf m' \<le> Metric_proto_size lf m - n" by (simp add: m m' total)
    have td: "temporality_defined (mt_Data m')" using ok by (simp add: eqs metric_ok_def)
    have fit: "0 < c \<and> (c \<le> limit \<longrightarrow> limit \<le> max_i64 - 128 \<longrightarrow> field_size (Metric_proto_size lf e) \<le> c + limit_slack limit)"
      if "taken \<noteq> []"
    proof -
      from bytes_points.chunk_fit_over [OF r' all, of ?c0] that have S: "0 < ?c0" "?T taken \<le> ?c0" by auto
      with nonneg field_size_ge [of c] have "0 < c" by simp
      moreover have "field_size (Metric_proto_size lf e) \<le> c + limit_slack limit" if c: "c \<le> limit" "limit \<le> max_i64 - 128"
      proof -
        let ?I = "?F + ?T taken"
        have pc: "field_size c = 1 + c + prefix_len c" using c \<open>0 < c\<close> by (intro field_size_prefix) simp_all
        have I: "0 \<le> ?I" "?I \<le> c" using S F nonneg prefix_len_pos [of c] by (simp_all add: pc)
        then have "field_size ?I = 1 + ?I + prefix_len ?I" using c by (intro field_size_prefix) simp_all
        then have ms: "Metric_proto_size lf e \<le> c - 2 - prefix_len c + ?F + prefix_len ?I" using S by (simp add: e pc)
        have pI: "prefix_len ?I \<le> prefix_len c" using I(2) by (rule prefix_len_mono)
        have pos: "0 \<le> Metric_proto_size lf e" using ok by (intro Metric_size_nonneg) (simp add: eqs metric_ok_def)
        have "Metric_proto_size lf e \<le> c + 2" using ms pI F by simp
        moreover from this have "prefix_len (Metric_proto_size lf e) \<le> prefix_len c + 1"
          using \<open>0 < c\<close> by (intro prefix_len_step) simp_all
        moreover have "field_size (Metric_proto_size lf e) = 1 + Metric_proto_size lf e + prefix_len (Metric_proto_size lf e)"
          using c pos \<open>Metric_proto_size lf e \<le> c + 2\<close> by (intro field_size_prefix) simp_all
        moreover have "prefix_len c \<le> prefix_len limit" using c(1) by (rule prefix_len_mono)
        ultimately show ?thesis using ms pI F by (simp add: limit_slack_def)
      qed
      ultimately show ?thesis by blast
    qed
    show ?thesis using removed n td fit by (auto simp: pts(1))
  qed
  then show "Metric_proto_size lf m' \<le> Metric_proto_size lf m - n" and "0 \<le> n" and "temporality_defined (mt_Data m')"
    and "points (mt_Data e) \<noteq> [] \<Longrightarrow> 0 < c \<and> (c \<le> limit \<longrightarrow> limit \<le> max_i64 - 128 \<longrightarrow>
      field_size (Metric_proto_size lf e) \<le> c + limit_slack limit)" by auto
qed

text \<open>The limits for which the sizes do not wrap around.\<close>

definition limit_cap :: "int \<Rightarrow> int" where
  "limit_cap limit = min limit (max_i64 - 128)"

lemma limit_cap_le: "limit_cap limit \<le> max_i64 - 128"
  by (simp add: limit_cap_def)

lemma cap_slack: "0 \<le> limit_slack (limit_cap limit) \<and> limit_slack (limit_cap limit) \<le> 13"
  using limit_slack_bounds [of "limit_cap limit"] limit_cap_le [of limit] by simp

lemma Metric_size_nonneg': "0 \<le> Metric_proto_size lf m"
proof (cases "mt_Data m = NoData")
  case False
  have "0 \<le> flags_size (mt_Data m)" by (cases "mt_Data m") (simp_all add: temporality_size_def)
  moreover have "0 \<le> points_total lf (points (mt_Data m))"
    using bytes_points.total_nonneg [of lf "points (mt_Data m)"] by (simp add: DeltaSize_field_size)
  ultimately show ?thesis
    using field_size_nonneg [of "flags_size (mt_Data m) + points_total lf (points (mt_Data m))"] metric_head_nonneg [of lf m]
    by (simp add: Metric_size_split [OF False])
qed (simp add: Metric_size_NoData metric_head_nonneg)

lemma field_size_removed:
  assumes "0 \<le> a" and "a \<le> b - n" and "0 \<le> n" and "b \<le> max_i64"
  shows "field_size a \<le> field_size (b - n)" and "field_size (b - n) \<le> field_size b"
  using field_size_mono [of a "b - n"] field_size_mono [of "b - n" b] assms by simp_all

interpretation bytes_metrics: chunk_over field_size "Metric_proto_size lf" "extractMetricDataPoints (MetricsBytesSizer lf)"
    "\<lambda>e. points (mt_Data e) \<noteq> []" "metric_ok lf" "limit_slack (limit_cap limit)" "limit_cap limit"
  for lf :: "('re, 'sc, 'k, 'n, 'h, 'e, 's) metric_leaves" and limit :: int
proof unfold_locales
  fix m m' e :: "('k, 'n, 'h, 'e, 's) metric" and c n
  assume ok: "metric_ok lf m" and ex: "extractMetricDataPoints (MetricsBytesSizer lf) m c = (m', e, n)"
  note b = extractMetricDataPoints_bytes [OF ex ok]
  have max: "Metric_proto_size lf m \<le> max_i64" using ok by (simp add: metric_ok_def)
  show "field_size (Metric_proto_size lf m') \<le> field_size (Metric_proto_size lf m - n)"
    "field_size (Metric_proto_size lf m - n) \<le> field_size (Metric_proto_size lf m)"
    using field_size_removed [OF Metric_size_nonneg' b(1,2) max] .
  show "metric_ok lf m'" using b max by (simp add: metric_ok_def)
  assume "points (mt_Data e) \<noteq> []"
  from b(4) [OF this, of "limit_cap limit"] limit_cap_le show "0 < c"
    and "c \<le> limit_cap limit \<Longrightarrow> field_size (Metric_proto_size lf e) \<le> c + limit_slack (limit_cap limit)" by auto
qed (use cap_slack in \<open>simp_all add: field_size_nonneg Metric_size_nonneg'\<close>)

lemma sum_list_member_le:
  "x \<in> set xs \<Longrightarrow> (\<And>x. 0 \<le> f x) \<Longrightarrow> (f x :: int) \<le> (\<Sum>x\<leftarrow>xs. f x)"
  using sum_list_nonneg_int [of _ f] by (induction xs) (auto simp: add_increasing add_increasing2)

abbreviation scope_base :: "('re, 'sc, 'k, 'n, 'h, 'e, 's) metric_leaves \<Rightarrow> ('sc, ('k, 'n, 'h, 'e, 's) metric) scope_data \<Rightarrow> int" where
  "scope_base lf sm \<equiv> field_size (int (lf_scope lf (sd_scope sm))) + schema_size (sd_schema sm)"

abbreviation resource_base ::
  "('re, 'sc, 'k, 'n, 'h, 'e, 's) metric_leaves \<Rightarrow> ('re, 'sc, ('k, 'n, 'h, 'e, 's) metric) resource_data \<Rightarrow> int" where
  "resource_base lf rm \<equiv> field_size (int (lf_resource lf (rd_resource rm))) + schema_size (rd_schema rm)"

lemma base_nonneg: "0 \<le> scope_base lf sm" "0 \<le> resource_base lf rm"
  by (simp_all add: schema_size_nonneg field_size_nonneg)

lemma ScopeMetrics_size: "ScopeMetrics_proto_size lf sm = scope_base lf sm + (\<Sum>m\<leftarrow>sd_items sm. field_size (Metric_proto_size lf m))"
  by (simp add: ScopeMetrics_proto_size_def)

lemma ResourceMetrics_size:
  "ResourceMetrics_proto_size lf rm = resource_base lf rm + (\<Sum>sm\<leftarrow>rd_scopes rm. field_size (ScopeMetrics_proto_size lf sm))"
  by (simp add: ResourceMetrics_proto_size_def)

lemma ScopeMetrics_size_nonneg: "0 \<le> ScopeMetrics_proto_size lf sm"
  using base_nonneg(1) [of lf sm] bytes_metrics.total_nonneg [of lf "sd_items sm"] by (simp add: ScopeMetrics_size)

definition scope_ok :: "('re, 'sc, 'k, 'n, 'h, 'e, 's) metric_leaves \<Rightarrow> ('sc, ('k, 'n, 'h, 'e, 's) metric) scope_data \<Rightarrow> bool" where
  "scope_ok lf sm \<longleftrightarrow> list_all (\<lambda>m. temporality_defined (mt_Data m)) (sd_items sm) \<and> ScopeMetrics_proto_size lf sm \<le> max_i64"

lemma scope_ok_metrics:
  assumes "scope_ok lf sm"
  shows "list_all (metric_ok lf) (sd_items sm)"
  unfolding list_all_iff
proof
  fix m assume m: "m \<in> set (sd_items sm)"
  have "field_size (Metric_proto_size lf m) \<le> (\<Sum>m\<leftarrow>sd_items sm. field_size (Metric_proto_size lf m))"
    by (rule sum_list_member_le [OF m]) (simp add: field_size_nonneg Metric_size_nonneg')
  with assms m field_size_ge [of "Metric_proto_size lf m"] base_nonneg(1) [of lf sm] show "metric_ok lf m"
    by (auto simp: metric_ok_def scope_ok_def list_all_iff ScopeMetrics_size)
qed

text \<open>The content of a message that is at most \<open>s\<close> over the room left for it.\<close>

lemma content_over:
  assumes "0 < c" and "c \<le> limit_cap limit" and "0 \<le> base" and "0 \<le> content"
    and "content \<le> c - (field_size c - c) - base + s" and "0 \<le> s" and "s \<le> 100"
  shows "field_size (base + content) \<le> c + (s + 1)"
  using field_size_over [of "base + content" c s] assms limit_cap_le [of limit] by simp

lemma extractScopeMetrics_bytes:
  assumes ex: "extractScopeMetrics (MetricsBytesSizer lf) sm c = (sm', e, n)" and ok: "scope_ok lf sm"
  shows "ScopeMetrics_proto_size lf sm' \<le> ScopeMetrics_proto_size lf sm - n" and "0 \<le> n" and "scope_ok lf sm'"
    and "sd_items e \<noteq> [] \<Longrightarrow> 0 < c"
    and "sd_items e \<noteq> [] \<Longrightarrow> c \<le> limit_cap limit \<Longrightarrow>
      field_size (ScopeMetrics_proto_size lf e) \<le> c + (limit_slack (limit_cap limit) + 1)"
proof -
  let ?c0 = "c - (field_size c - c) - scope_base lf sm"
  obtain c' dest rest where
    r: "remove_if (extractScopeMetrics_step (MetricsBytesSizer lf)) (?c0, 0, []) (sd_items sm) = ((c', n, dest), rest)"
    and eqs: "sm' = sm\<lparr>sd_items := rest\<rparr>" "e = sm\<lparr>sd_items := dest\<rparr>"
    using ex by (auto simp: extractScopeMetrics_def Let_def ScopeMetrics_size split: prod.splits)
  note r' = r [unfolded metrics_step_chunk bytes_simps]
  have rem: "list_all (metric_ok lf) rest" "ScopeMetrics_proto_size lf sm' \<le> ScopeMetrics_proto_size lf sm - n" "0 \<le> n"
    using bytes_metrics.chunk_removed_over [OF r' scope_ok_metrics [OF ok]] by (simp_all add: eqs ScopeMetrics_size)
  then show "ScopeMetrics_proto_size lf sm' \<le> ScopeMetrics_proto_size lf sm - n" "0 \<le> n" "scope_ok lf sm'"
    using ok by (auto simp: scope_ok_def eqs list_all_iff metric_ok_def)
  assume ne: "sd_items e \<noteq> []"
  have over: "0 < c \<and> field_size (ScopeMetrics_proto_size lf e) \<le> c + (limit_slack (limit_cap limit) + 1)"
    if "c \<le> limit_cap limit" for limit
  proof -
    have "?c0 \<le> limit_cap limit" using that field_size_ge [of c] base_nonneg(1) [of lf sm] by simp
    from bytes_metrics.chunk_fit_over [OF r' scope_ok_metrics [OF ok] this] ne
    have d: "0 < ?c0" "(\<Sum>m\<leftarrow>dest. field_size (Metric_proto_size lf m)) \<le> ?c0 + limit_slack (limit_cap limit)"
      by (auto simp: eqs)
    then have pos: "0 < c" using field_size_ge [of c] base_nonneg(1) [of lf sm] by simp
    from content_over [OF pos that base_nonneg(1) bytes_metrics.total_nonneg [of lf dest] d(2)] cap_slack [of limit] pos
    show ?thesis by (simp add: eqs ScopeMetrics_size)
  qed
  then show "c \<le> limit_cap limit \<Longrightarrow> field_size (ScopeMetrics_proto_size lf e) \<le> c + (limit_slack (limit_cap limit) + 1)"
    by blast
  show "0 < c" using over [of c] by (cases "c \<le> limit_cap c") (auto simp: limit_cap_def max_i64_def)
qed

interpretation bytes_scopes: chunk_over field_size "ScopeMetrics_proto_size lf" "extractScopeMetrics (MetricsBytesSizer lf)"
    "\<lambda>e. sd_items e \<noteq> []" "scope_ok lf" "limit_slack (limit_cap limit) + 1" "limit_cap limit"
  for lf :: "('re, 'sc, 'k, 'n, 'h, 'e, 's) metric_leaves" and limit :: int
proof unfold_locales
  fix sm sm' e :: "('sc, ('k, 'n, 'h, 'e, 's) metric) scope_data" and c n
  assume ok: "scope_ok lf sm" and ex: "extractScopeMetrics (MetricsBytesSizer lf) sm c = (sm', e, n)"
  note b = extractScopeMetrics_bytes [OF ex ok]
  have max: "ScopeMetrics_proto_size lf sm \<le> max_i64" using ok by (simp add: scope_ok_def)
  show "field_size (ScopeMetrics_proto_size lf sm') \<le> field_size (ScopeMetrics_proto_size lf sm - n)"
    "field_size (ScopeMetrics_proto_size lf sm - n) \<le> field_size (ScopeMetrics_proto_size lf sm)"
    using field_size_removed [OF ScopeMetrics_size_nonneg b(1,2) max] .
  show "scope_ok lf sm'" by (rule b(3))
  show "sd_items e \<noteq> [] \<Longrightarrow> 0 < c" by (rule b(4))
  show "sd_items e \<noteq> [] \<Longrightarrow> c \<le> limit_cap limit \<Longrightarrow>
      field_size (ScopeMetrics_proto_size lf e) \<le> c + (limit_slack (limit_cap limit) + 1)" by (rule b(5))
qed (use cap_slack in \<open>simp_all add: field_size_nonneg ScopeMetrics_size_nonneg\<close>)

lemma ResourceMetrics_size_nonneg: "0 \<le> ResourceMetrics_proto_size lf rm"
  using base_nonneg(2) [of lf rm] bytes_scopes.total_nonneg [of lf "rd_scopes rm"] by (simp add: ResourceMetrics_size)

definition resource_ok ::
  "('re, 'sc, 'k, 'n, 'h, 'e, 's) metric_leaves \<Rightarrow> ('re, 'sc, ('k, 'n, 'h, 'e, 's) metric) resource_data \<Rightarrow> bool" where
  "resource_ok lf rm \<longleftrightarrow>
     list_all (\<lambda>sm. list_all (\<lambda>m. temporality_defined (mt_Data m)) (sd_items sm)) (rd_scopes rm) \<and>
     ResourceMetrics_proto_size lf rm \<le> max_i64"

lemma resource_ok_scopes:
  assumes "resource_ok lf rm"
  shows "list_all (scope_ok lf) (rd_scopes rm)"
  unfolding list_all_iff
proof
  fix sm assume sm: "sm \<in> set (rd_scopes rm)"
  have "field_size (ScopeMetrics_proto_size lf sm) \<le> (\<Sum>sm\<leftarrow>rd_scopes rm. field_size (ScopeMetrics_proto_size lf sm))"
    by (rule sum_list_member_le [OF sm]) (simp add: field_size_nonneg ScopeMetrics_size_nonneg)
  with assms sm field_size_ge [of "ScopeMetrics_proto_size lf sm"] base_nonneg(2) [of lf rm] show "scope_ok lf sm"
    by (auto simp: scope_ok_def resource_ok_def list_all_iff ResourceMetrics_size)
qed

lemma extractResourceMetrics_bytes:
  assumes ex: "extractResourceMetrics (MetricsBytesSizer lf) rm c = (rm', e, n)" and ok: "resource_ok lf rm"
  shows "ResourceMetrics_proto_size lf rm' \<le> ResourceMetrics_proto_size lf rm - n" and "0 \<le> n" and "resource_ok lf rm'"
    and "rd_scopes e \<noteq> [] \<Longrightarrow> 0 < c"
    and "rd_scopes e \<noteq> [] \<Longrightarrow> c \<le> limit_cap limit \<Longrightarrow>
      field_size (ResourceMetrics_proto_size lf e) \<le> c + (limit_slack (limit_cap limit) + 2)"
proof -
  let ?c0 = "c - (field_size c - c) - resource_base lf rm"
  obtain c' dest rest where
    r: "remove_if (extractResourceMetrics_step (MetricsBytesSizer lf)) (?c0, 0, []) (rd_scopes rm) = ((c', n, dest), rest)"
    and eqs: "rm' = rm\<lparr>rd_scopes := rest\<rparr>" "e = rm\<lparr>rd_scopes := dest\<rparr>"
    using ex by (auto simp: extractResourceMetrics_def Let_def ResourceMetrics_size split: prod.splits)
  note r' = r [unfolded metrics_step_chunk bytes_simps]
  have rem: "list_all (scope_ok lf) rest" "ResourceMetrics_proto_size lf rm' \<le> ResourceMetrics_proto_size lf rm - n" "0 \<le> n"
    using bytes_scopes.chunk_removed_over [OF r' resource_ok_scopes [OF ok]] by (simp_all add: eqs ResourceMetrics_size)
  then show "ResourceMetrics_proto_size lf rm' \<le> ResourceMetrics_proto_size lf rm - n" "0 \<le> n" "resource_ok lf rm'"
    using ok by (auto simp: resource_ok_def eqs list_all_iff scope_ok_def)
  assume ne: "rd_scopes e \<noteq> []"
  have over: "0 < c \<and> field_size (ResourceMetrics_proto_size lf e) \<le> c + (limit_slack (limit_cap limit) + 2)"
    if "c \<le> limit_cap limit" for limit
  proof -
    have "?c0 \<le> limit_cap limit" using that field_size_ge [of c] base_nonneg(2) [of lf rm] by simp
    from bytes_scopes.chunk_fit_over [OF r' resource_ok_scopes [OF ok] this] ne
    have d: "0 < ?c0" "(\<Sum>sm\<leftarrow>dest. field_size (ScopeMetrics_proto_size lf sm)) \<le> ?c0 + (limit_slack (limit_cap limit) + 1)"
      by (auto simp: eqs)
    then have pos: "0 < c" using field_size_ge [of c] base_nonneg(2) [of lf rm] by simp
    from content_over [OF pos that base_nonneg(2) bytes_scopes.total_nonneg [of lf dest] d(2)] cap_slack [of limit] pos
    show ?thesis by (simp add: eqs ResourceMetrics_size)
  qed
  then show "c \<le> limit_cap limit \<Longrightarrow> field_size (ResourceMetrics_proto_size lf e) \<le> c + (limit_slack (limit_cap limit) + 2)"
    by blast
  show "0 < c" using over [of c] by (cases "c \<le> limit_cap c") (auto simp: limit_cap_def max_i64_def)
qed

interpretation bytes_resources: chunk_over field_size "ResourceMetrics_proto_size lf" "extractResourceMetrics (MetricsBytesSizer lf)"
    "\<lambda>e. rd_scopes e \<noteq> []" "resource_ok lf" "limit_slack (limit_cap limit) + 2" "limit_cap limit"
  for lf :: "('re, 'sc, 'k, 'n, 'h, 'e, 's) metric_leaves" and limit :: int
proof unfold_locales
  fix rm rm' e :: "('re, 'sc, ('k, 'n, 'h, 'e, 's) metric) resource_data" and c n
  assume ok: "resource_ok lf rm" and ex: "extractResourceMetrics (MetricsBytesSizer lf) rm c = (rm', e, n)"
  note b = extractResourceMetrics_bytes [OF ex ok]
  have max: "ResourceMetrics_proto_size lf rm \<le> max_i64" using ok by (simp add: resource_ok_def)
  show "field_size (ResourceMetrics_proto_size lf rm') \<le> field_size (ResourceMetrics_proto_size lf rm - n)"
    "field_size (ResourceMetrics_proto_size lf rm - n) \<le> field_size (ResourceMetrics_proto_size lf rm)"
    using field_size_removed [OF ResourceMetrics_size_nonneg b(1,2) max] .
  show "resource_ok lf rm'" by (rule b(3))
  show "rd_scopes e \<noteq> [] \<Longrightarrow> 0 < c" by (rule b(4))
  show "rd_scopes e \<noteq> [] \<Longrightarrow> c \<le> limit_cap limit \<Longrightarrow>
      field_size (ResourceMetrics_proto_size lf e) \<le> c + (limit_slack (limit_cap limit) + 2)" by (rule b(5))
qed (use cap_slack in \<open>simp_all add: field_size_nonneg ResourceMetrics_size_nonneg\<close>)

definition payload_ok ::
  "('re, 'sc, 'k, 'n, 'h, 'e, 's) metric_leaves \<Rightarrow> ('re, 'sc, 'k, 'n, 'h, 'e, 's) metrics_payload \<Rightarrow> bool" where
  "payload_ok lf md \<longleftrightarrow>
     list_all (\<lambda>rm. list_all (\<lambda>sm. list_all (\<lambda>m. temporality_defined (mt_Data m)) (sd_items sm)) (rd_scopes rm)) md \<and>
     Metrics_proto_size lf md \<le> max_i64"

lemma payload_ok_resources:
  assumes "payload_ok lf md"
  shows "list_all (resource_ok lf) md"
  unfolding list_all_iff
proof
  fix rm assume rm: "rm \<in> set md"
  have "field_size (ResourceMetrics_proto_size lf rm) \<le> Metrics_proto_size lf md"
    unfolding Metrics_proto_size_def
    by (rule sum_list_member_le [OF rm]) (simp add: field_size_nonneg ResourceMetrics_size_nonneg)
  with assms rm field_size_ge [of "ResourceMetrics_proto_size lf rm"] show "resource_ok lf rm"
    by (auto simp: resource_ok_def payload_ok_def list_all_iff)
qed

definition bytes_slack :: "int \<Rightarrow> int" where
  "bytes_slack limit = 6 + prefix_len limit"

lemma extractMetrics_bytes:
  assumes ex: "extractMetrics (MetricsBytesSizer lf) md m = (md', e, n)" and ok: "payload_ok lf md"
    and m: "0 \<le> m" "m \<le> max_i64 - 128"
  shows "Metrics_proto_size lf md' \<le> Metrics_proto_size lf md - n" and "payload_ok lf md'"
    and "Metrics_proto_size lf e \<le> m + bytes_slack m"
proof -
  have nil: "Metrics_proto_size lf [] = 0" by (simp add: Metrics_proto_size_def)
  obtain c' where r: "remove_if (extractMetrics_step (MetricsBytesSizer lf)) (m, 0, []) md = ((c', n, e), md')"
    using ex by (auto simp: extractMetrics_def Let_def nil split: prod.splits)
  note r' = r [unfolded metrics_step_chunk bytes_simps]
  have rem: "list_all (resource_ok lf) md'" "Metrics_proto_size lf md' \<le> Metrics_proto_size lf md - n" "0 \<le> n"
    using bytes_resources.chunk_removed_over [OF r' payload_ok_resources [OF ok]] by (simp_all add: Metrics_proto_size_def)
  then show "Metrics_proto_size lf md' \<le> Metrics_proto_size lf md - n" "payload_ok lf md'"
    using ok by (auto simp: payload_ok_def list_all_iff resource_ok_def)
  have cap: "limit_cap m = m" using m by (simp add: limit_cap_def)
  from bytes_resources.chunk_fit_over [OF r' payload_ok_resources [OF ok], of m] prefix_len_pos [of m] m(1)
  show "Metrics_proto_size lf e \<le> m + bytes_slack m"
    by (cases "e = []") (auto simp: cap Metrics_proto_size_def bytes_slack_def limit_slack_def)
qed

section \<open>Splitting by bytes\<close>

text \<open>The cached size may be more than the size, never less.\<close>

definition cache_over ::
  "('re, 'sc, 'k, 'n, 'h, 'e, 's) metric_leaves \<Rightarrow> ('re, 'sc, 'k, 'n, 'h, 'e, 's) metrics_request \<Rightarrow> bool" where
  "cache_over lf req \<longleftrightarrow> mq_cachedSize req = -1 \<or> Metrics_proto_size lf (mq_md req) \<le> mq_cachedSize req"

fun input_over ::
  "('re, 'sc, 'k, 'n, 'h, 'e, 's) metric_leaves \<Rightarrow> ('re, 'sc, 'k, 'n, 'h, 'e, 's) any_metrics_request option \<Rightarrow> bool" where
  "input_over lf (Some (MetricsRequest req2)) = cache_over lf req2"
| "input_over lf _ = True"

lemma Metrics_size_nonneg: "0 \<le> Metrics_proto_size lf md"
  using bytes_resources.total_nonneg [of lf md] by (simp add: Metrics_proto_size_def)

lemma metrics_size_over:
  assumes "cache_over lf req" and "metrics_size (MetricsBytesSizer lf) req = (n, req1)"
  shows "Metrics_proto_size lf (mq_md req) \<le> n" and "mq_md req1 = mq_md req" and "mq_cachedSize req1 = n"
  using assms by (auto simp: metrics_size_def cache_over_def Let_def)

lemma split_metrics_bytes:
  assumes "0 \<le> m" and "m \<le> max_i64 - 128"
  shows "cache_over lf req \<Longrightarrow> payload_ok lf (mq_md req) \<Longrightarrow>
    (case split_metrics (MetricsBytesSizer lf) m req of (res, err, req') \<Rightarrow>
       (\<forall>r \<in> set res. Metrics_proto_size lf (mq_md r) \<le> m + bytes_slack m \<and> cache_over lf r) \<and>
       (err = None \<longrightarrow> Metrics_proto_size lf (mq_md req') \<le> m \<and> res \<noteq> [] \<and> last res = req'))"
proof (induction req rule: split_metrics_rounds [where sz = "MetricsBytesSizer lf" and m = m])
  case (fits req n req1)
  from metrics_size_over [OF fits(3,1)] fits(2) prefix_len_pos [of m] show ?case
    by (auto simp: cache_over_def bytes_slack_def)
next
  case (drop req n req1 src' md rm)
  then show ?case by simp
next
  case (round req n req1 src' md rm res err req')
  note size = metrics_size_over [OF round(6,1)]
  have ok: "payload_ok lf (mq_md req1)" using round(7) size by simp
  note ex = extractMetrics_bytes [OF round(3) ok assms]
  have "cache_over lf (metrics_setCachedSize (n - rm) (req1\<lparr>mq_md := src'\<rparr>))"
    using ex(1) size by (simp add: cache_over_def metrics_setCachedSize_def)
  with round(5) ex size show ?case by (simp add: metrics_setCachedSize_def newMetricsRequest_def cache_over_def)
qed

lemma metrics_merge_input_over:
  assumes "cache_over lf req" and "input_over lf r2"
  shows "cache_over lf (metrics_merge_input (MetricsBytesSizer lf) req r2)"
proof (cases "\<exists>req2. r2 = Some (MetricsRequest req2)")
  case True
  then obtain req2 where r2: "r2 = Some (MetricsRequest req2)" by blast
  obtain n1 d1 where d: "metrics_size (MetricsBytesSizer lf) req = (n1, d1)" by force
  obtain n2 q1 where q: "metrics_size (MetricsBytesSizer lf) req2 = (n2, q1)" by force
  from assms metrics_size_over [OF _ d] metrics_size_over [OF _ q] show ?thesis
    by (simp add: r2 metrics_mergeTo_def d q cache_over_def metrics_setCachedSize_def Metrics_proto_size_def)
next
  case False
  then have "metrics_merge_input (MetricsBytesSizer lf) req r2 = req"
    by (cases "(MetricsBytesSizer lf, req, r2)" rule: metrics_merge_input.cases) auto
  with assms(1) show ?thesis by simp
qed

text \<open>
  C36. With the bytes sizer the requests of \<open>MergeSplit\<close> of metrics are only nearly within the limit:
  each one is at most six bytes and one varint of the limit above it, and if the split succeeds the last
  one is within it. No cached size is less than the size of its request. The temporalities of the metrics
  are taken to be values of the enum.
\<close>

theorem metrics_MergeSplit_bytes_bound:
  assumes "0 < m" and "m \<le> max_i64 - 128"
    and "cache_over lf req" and "input_over lf r2"
    and "payload_ok lf (mq_md (metrics_merge_input (MetricsBytesSizer lf) req r2))"
    and "metrics_MergeSplit lf m SizerTypeBytes req r2 = (res, err, req')"
  shows "(\<forall>r \<in> set res. Metrics_proto_size lf (mq_md r) \<le> m + 6 + prefix_len m \<and> cache_over lf r) \<and>
    (err = None \<longrightarrow> Metrics_proto_size lf (mq_md (last res)) \<le> m)"
proof (cases "r2 = Some OtherMetricsRequest")
  case True
  with assms(6) show ?thesis by (auto simp: metrics_MergeSplit_cases)
next
  case False
  with assms(1,6) have split: "split_metrics (MetricsBytesSizer lf) m (metrics_merge_input (MetricsBytesSizer lf) req r2) = (res, err, req')"
    by (simp add: metrics_MergeSplit_cases)
  from split_metrics_bytes [OF _ assms(2) metrics_merge_input_over [OF assms(3,4)] assms(5)] assms(1)
  show ?thesis by (simp add: split bytes_slack_def add.assoc)
qed

section \<open>Requests over the limit and empty requests\<close>

text \<open>Evaluation of the size of a field without the bit length of a word.\<close>

lemma field_size_code [code]:
  "field_size l =
     (if 0 \<le> l \<and> l < 128 then 2 + l else if 128 \<le> l \<and> l < 16384 then 3 + l
      else 1 + int (Sov (word_of_int l)) + l)"
proof -
  have "groups7 n = 1" if "n < 128" for n using that by (subst groups7.simps) simp
  moreover have "groups7 n = 2" if "128 \<le> n" "n < 16384" for n
    using that by (subst groups7.simps, subst groups7.simps) auto
  ultimately have "0 \<le> l \<Longrightarrow> l < 128 \<Longrightarrow> prefix_len l = 1" "128 \<le> l \<Longrightarrow> l < 16384 \<Longrightarrow> prefix_len l = 2"
    by (simp_all add: prefix_len_def)
  then show ?thesis by (simp add: field_size_prefix max_i64_def) (simp add: field_size_def)
qed

declare DeltaSize_field_size [code]

definition size_leaves :: "(nat, nat, nat, nat, nat, nat, nat) metric_leaves" where
  "size_leaves = \<lparr>lf_resource = id, lf_scope = id, lf_metadata = id, lf_number = id, lf_histogram = id,
     lf_exponential = id, lf_summary = id\<rparr>"

definition sample_metrics :: "(nat, nat, nat, nat) metric_data list \<Rightarrow> (nat, nat, nat, nat, nat, nat, nat) metrics_request" where
  "sample_metrics ds = newMetricsRequest [\<lparr>rd_resource = 0, rd_schema = '''', rd_scopes =
     [\<lparr>sd_scope = 0, sd_schema = '''', sd_items =
        map (\<lambda>d. \<lparr>mt_Name = '''', mt_Description = '''', mt_Unit = '''', mt_Metadata = 0, mt_Data = d\<rparr>) ds\<rparr>]\<rparr>]"

definition split_sizes :: "int \<Rightarrow> (nat, nat, nat, nat) metric_data list \<Rightarrow> (int \<times> nat) list \<times> merge_error option" where
  "split_sizes m ds =
     (case metrics_MergeSplit size_leaves m SizerTypeBytes (sample_metrics ds) None of
        (res, err, req') \<Rightarrow> (map (\<lambda>r. (Metrics_proto_size size_leaves (mq_md r), metrics_ItemsCount r)) res, err))"

text \<open>
  The bytes sizer does not keep the limit on metrics. A gauge with two data points of 62 bytes,
  split with a limit of 143 bytes, gives a first request of 144 bytes with both points and a second one
  without any; a cumulative monotonic sum with points of 55 bytes gives a request of 131 bytes for a
  limit of 126. With a limit of 76 bytes the two points of the gauge are sent one by one and followed by
  an empty request, because the cached size of what is left is one byte too big.
\<close>

lemma metrics_split_exceeds_limit:
  "split_sizes 143 [GaugeData [62, 62]] = ([(144, 2), (12, 0)], None) \<and>
   split_sizes 126 [SumData [55, 55] 2 True] = ([(131, 2), (16, 0)], None) \<and>
   split_sizes 76 [GaugeData [62, 62]] = ([(76, 1), (76, 1), (0, 0)], None)"
  by code_simp

theorem metrics_MergeSplit_items_filled_witness:
  "map metrics_ItemsCount (fst (metrics_MergeSplit size_leaves 2 SizerTypeItems
      (sample_metrics [GaugeData [7, 8, 9], SummaryData [4]]) None)) = [2, 2] \<and>
   metrics_filled 2 (fst (metrics_MergeSplit size_leaves 2 SizerTypeItems
      (sample_metrics [GaugeData [7, 8, 9], SummaryData [4]]) None))"
proof -
  let ?r = "metrics_MergeSplit size_leaves 2 SizerTypeItems (sample_metrics [GaugeData [7, 8, 9], SummaryData [4]]) None"
  have "map metrics_ItemsCount (fst ?r) = [2, 2]" by code_simp
  then show ?thesis
    using metrics_MergeSplit_items_filled [of 2 None "sample_metrics [GaugeData [7, 8, 9], SummaryData [4]]" size_leaves "fst ?r" "fst (snd ?r)" "snd (snd ?r)"]
    by (simp add: metrics_cache_ok_def sample_metrics_def newMetricsRequest_def)
qed

theorem metrics_MergeSplit_bytes_bound_witness:
  "list_all (\<lambda>r. Metrics_proto_size size_leaves (mq_md r) \<le> 126 + 6 + prefix_len 126)
     (fst (metrics_MergeSplit size_leaves 126 SizerTypeBytes (sample_metrics [SumData [55, 55] 2 True]) None))"
proof -
  let ?in = "sample_metrics [SumData [55, 55] 2 True]"
  let ?r = "metrics_MergeSplit size_leaves 126 SizerTypeBytes ?in None"
  have "Metrics_proto_size size_leaves (mq_md ?in) = 131" by code_simp
  then have "payload_ok size_leaves (mq_md (metrics_merge_input (MetricsBytesSizer size_leaves) ?in None))"
    by (simp add: payload_ok_def max_i64_def) (simp add: sample_metrics_def newMetricsRequest_def)
  then show ?thesis
    using metrics_MergeSplit_bytes_bound [of 126 size_leaves ?in None "fst ?r" "fst (snd ?r)" "snd (snd ?r)"]
    by (simp add: cache_over_def max_i64_def sample_metrics_def newMetricsRequest_def list_all_iff)
qed

end
