(* ===== verification/ProcessorSplit.thy ===== *)
theory ProcessorSplit
  imports MetricsBatch
begin

text \<open>
  Splitting in the batch processor: processor/batchprocessor (splitlogs.go, splittraces.go,
  splitmetrics.go). Unlike the exporter's split, which fills a byte or item budget, these functions
  take exactly the first \<open>size\<close> log records, spans or data points out of the pending data. The
  payload types are those of BatchSplit and MetricsBatch; the metadata of a metric is a list, which
  is empty in a fresh metric. Every function returns the new data and what is left of the source.
\<close>

section \<open>Logs\<close>

fun splitLogs_record :: "nat \<Rightarrow> nat \<times> 'x list \<Rightarrow> 'x \<Rightarrow> (nat \<times> 'x list) \<times> 'x \<times> bool" where
  "splitLogs_record siz (totalCopied, dest) srcRecord =
     (if totalCopied = siz then ((totalCopied, dest), srcRecord, False)
      else ((totalCopied + 1, dest @ [srcRecord]), srcRecord, True))"

definition splitLogs_records ::
  "nat \<Rightarrow> ('sc, 'x) scope_data \<Rightarrow> nat \<Rightarrow> ('sc, 'x) scope_data \<times> ('sc, 'x) scope_data \<times> nat" where
  "splitLogs_records siz srcIll totalCopied =
     (case remove_if (splitLogs_record siz) (totalCopied, []) (sd_items srcIll) of
        ((totalCopied, dest), rest) \<Rightarrow>
          (srcIll\<lparr>sd_items := rest\<rparr>,
           \<lparr>sd_scope = sd_scope srcIll, sd_schema = sd_schema srcIll, sd_items = dest\<rparr>, totalCopied))"

fun splitLogs_scope ::
  "nat \<Rightarrow> nat \<times> ('sc, 'x) scope_data list \<Rightarrow> ('sc, 'x) scope_data \<Rightarrow>
   (nat \<times> ('sc, 'x) scope_data list) \<times> ('sc, 'x) scope_data \<times> bool" where
  "splitLogs_scope siz (totalCopied, dest) srcIll =
     (if totalCopied = siz then ((totalCopied, dest), srcIll, False)
      else let srcIllLRC = length (sd_items srcIll)
           in if srcIllLRC + totalCopied \<le> siz
              then ((totalCopied + srcIllLRC, dest @ [srcIll]), srcIll, True)
              else case splitLogs_records siz srcIll totalCopied of (srcIll, destIll, totalCopied) \<Rightarrow>
                     ((totalCopied, dest @ [destIll]), srcIll, False))"

definition splitLogs_scopes ::
  "nat \<Rightarrow> ('re, 'sc, 'x) resource_data \<Rightarrow> nat \<Rightarrow>
   ('re, 'sc, 'x) resource_data \<times> ('re, 'sc, 'x) resource_data \<times> nat" where
  "splitLogs_scopes siz srcRl totalCopied =
     (case remove_if (splitLogs_scope siz) (totalCopied, []) (rd_scopes srcRl) of
        ((totalCopied, dest), rest) \<Rightarrow>
          (srcRl\<lparr>rd_scopes := rest\<rparr>,
           \<lparr>rd_resource = rd_resource srcRl, rd_schema = rd_schema srcRl, rd_scopes = dest\<rparr>, totalCopied))"

definition resourceLRC :: "('re, 'sc, 'x) resource_data \<Rightarrow> nat" where
  "resourceLRC rs = (\<Sum>sl\<leftarrow>rd_scopes rs. length (sd_items sl))"

fun splitLogs_resource ::
  "nat \<Rightarrow> nat \<times> ('re, 'sc, 'x) payload \<Rightarrow> ('re, 'sc, 'x) resource_data \<Rightarrow>
   (nat \<times> ('re, 'sc, 'x) payload) \<times> ('re, 'sc, 'x) resource_data \<times> bool" where
  "splitLogs_resource siz (totalCopied, dest) srcRl =
     (if totalCopied = siz then ((totalCopied, dest), srcRl, False)
      else let srcRlLRC = resourceLRC srcRl
           in if totalCopied + srcRlLRC \<le> siz
              then ((totalCopied + srcRlLRC, dest @ [srcRl]), srcRl, True)
              else case splitLogs_scopes siz srcRl totalCopied of (srcRl, destRl, totalCopied) \<Rightarrow>
                     ((totalCopied, dest @ [destRl]), srcRl, rd_scopes srcRl = []))"

definition splitLogs ::
  "nat \<Rightarrow> ('re, 'sc, 'x) payload \<Rightarrow> ('re, 'sc, 'x) payload \<times> ('re, 'sc, 'x) payload" where
  "splitLogs siz src =
     (if LogRecordCount src \<le> siz then (src, src)
      else case remove_if (splitLogs_resource siz) (0, []) src of ((_, dest), rest) \<Rightarrow> (dest, rest))"

section \<open>Traces\<close>

fun splitTraces_span :: "nat \<Rightarrow> nat \<times> 'x list \<Rightarrow> 'x \<Rightarrow> (nat \<times> 'x list) \<times> 'x \<times> bool" where
  "splitTraces_span siz (totalCopied, dest) srcSpan =
     (if totalCopied = siz then ((totalCopied, dest), srcSpan, False)
      else ((totalCopied + 1, dest @ [srcSpan]), srcSpan, True))"

definition splitTraces_spans ::
  "nat \<Rightarrow> ('sc, 'x) scope_data \<Rightarrow> nat \<Rightarrow> ('sc, 'x) scope_data \<times> ('sc, 'x) scope_data \<times> nat" where
  "splitTraces_spans siz srcIls totalCopied =
     (case remove_if (splitTraces_span siz) (totalCopied, []) (sd_items srcIls) of
        ((totalCopied, dest), rest) \<Rightarrow>
          (srcIls\<lparr>sd_items := rest\<rparr>,
           \<lparr>sd_scope = sd_scope srcIls, sd_schema = sd_schema srcIls, sd_items = dest\<rparr>, totalCopied))"

fun splitTraces_scope ::
  "nat \<Rightarrow> nat \<times> ('sc, 'x) scope_data list \<Rightarrow> ('sc, 'x) scope_data \<Rightarrow>
   (nat \<times> ('sc, 'x) scope_data list) \<times> ('sc, 'x) scope_data \<times> bool" where
  "splitTraces_scope siz (totalCopied, dest) srcIls =
     (if totalCopied = siz then ((totalCopied, dest), srcIls, False)
      else let srcIlsSC = length (sd_items srcIls)
           in if int srcIlsSC \<le> int siz - int totalCopied
              then ((totalCopied + srcIlsSC, dest @ [srcIls]), srcIls, True)
              else case splitTraces_spans siz srcIls totalCopied of (srcIls, destIls, totalCopied) \<Rightarrow>
                     ((totalCopied, dest @ [destIls]), srcIls, False))"

definition splitTraces_scopes ::
  "nat \<Rightarrow> ('re, 'sc, 'x) resource_data \<Rightarrow> nat \<Rightarrow>
   ('re, 'sc, 'x) resource_data \<times> ('re, 'sc, 'x) resource_data \<times> nat" where
  "splitTraces_scopes siz srcRs totalCopied =
     (case remove_if (splitTraces_scope siz) (totalCopied, []) (rd_scopes srcRs) of
        ((totalCopied, dest), rest) \<Rightarrow>
          (srcRs\<lparr>rd_scopes := rest\<rparr>,
           \<lparr>rd_resource = rd_resource srcRs, rd_schema = rd_schema srcRs, rd_scopes = dest\<rparr>, totalCopied))"

definition resourceSC :: "('re, 'sc, 'x) resource_data \<Rightarrow> nat" where
  "resourceSC rs = (\<Sum>ss\<leftarrow>rd_scopes rs. length (sd_items ss))"

fun splitTraces_resource ::
  "nat \<Rightarrow> nat \<times> ('re, 'sc, 'x) payload \<Rightarrow> ('re, 'sc, 'x) resource_data \<Rightarrow>
   (nat \<times> ('re, 'sc, 'x) payload) \<times> ('re, 'sc, 'x) resource_data \<times> bool" where
  "splitTraces_resource siz (totalCopied, dest) srcRs =
     (if totalCopied = siz then ((totalCopied, dest), srcRs, False)
      else let srcRsSC = resourceSC srcRs
           in if totalCopied + srcRsSC \<le> siz
              then ((totalCopied + srcRsSC, dest @ [srcRs]), srcRs, True)
              else case splitTraces_scopes siz srcRs totalCopied of (srcRs, destRs, totalCopied) \<Rightarrow>
                     ((totalCopied, dest @ [destRs]), srcRs, rd_scopes srcRs = []))"

definition splitTraces ::
  "nat \<Rightarrow> ('re, 'sc, 'x) payload \<Rightarrow> ('re, 'sc, 'x) payload \<times> ('re, 'sc, 'x) payload" where
  "splitTraces siz src =
     (if SpanCount src \<le> siz then (src, src)
      else case remove_if (splitTraces_resource siz) (0, []) src of ((_, dest), rest) \<Rightarrow> (dest, rest))"

section \<open>Metrics\<close>

fun splitDataPoints_step :: "nat \<Rightarrow> nat \<times> 'd list \<Rightarrow> 'd \<Rightarrow> (nat \<times> 'd list) \<times> 'd \<times> bool" where
  "splitDataPoints_step siz (i, dst) dp =
     (if i < siz then ((i + 1, dst @ [dp]), dp, True) else ((i, dst), dp, False))"

text \<open>The results are the points that are left, the destination, the count and whether to remove the metric.\<close>

definition splitNumberDataPoints :: "'n list \<Rightarrow> 'n list \<Rightarrow> nat \<Rightarrow> 'n list \<times> 'n list \<times> nat \<times> bool" where
  "splitNumberDataPoints src dst siz =
     (case remove_if (splitDataPoints_step siz) (0, dst) src of ((_, dst), src) \<Rightarrow> (src, dst, siz, False))"

definition splitHistogramDataPoints :: "'h list \<Rightarrow> 'h list \<Rightarrow> nat \<Rightarrow> 'h list \<times> 'h list \<times> nat \<times> bool" where
  "splitHistogramDataPoints src dst siz =
     (case remove_if (splitDataPoints_step siz) (0, dst) src of ((_, dst), src) \<Rightarrow> (src, dst, siz, False))"

definition splitExponentialHistogramDataPoints :: "'e list \<Rightarrow> 'e list \<Rightarrow> nat \<Rightarrow> 'e list \<times> 'e list \<times> nat \<times> bool" where
  "splitExponentialHistogramDataPoints src dst siz =
     (case remove_if (splitDataPoints_step siz) (0, dst) src of ((_, dst), src) \<Rightarrow> (src, dst, siz, False))"

definition splitSummaryDataPoints :: "'s list \<Rightarrow> 's list \<Rightarrow> nat \<Rightarrow> 's list \<times> 's list \<times> nat \<times> bool" where
  "splitSummaryDataPoints src dst siz =
     (case remove_if (splitDataPoints_step siz) (0, dst) src of ((_, dst), src) \<Rightarrow> (src, dst, siz, False))"

text \<open>
  \<open>splitMetric\<close> fills the fresh metric \<open>dest\<close>: the name, the description and the unit are set, the
  metadata stays what it is in \<open>dest\<close>.
\<close>

definition splitMetric ::
  "('k list, 'n, 'h, 'e, 's) metric \<Rightarrow> ('k list, 'n, 'h, 'e, 's) metric \<Rightarrow> nat \<Rightarrow>
   ('k list, 'n, 'h, 'e, 's) metric \<times> ('k list, 'n, 'h, 'e, 's) metric \<times> nat \<times> bool" where
  "splitMetric ms dest siz =
     (let dest = dest\<lparr>mt_Name := mt_Name ms, mt_Description := mt_Description ms, mt_Unit := mt_Unit ms\<rparr>
      in case mt_Data ms of
           GaugeData dps \<Rightarrow>
             (case splitNumberDataPoints dps [] siz of (dps, dst, n, remove) \<Rightarrow>
                (ms\<lparr>mt_Data := GaugeData dps\<rparr>, dest\<lparr>mt_Data := GaugeData dst\<rparr>, n, remove))
         | SumData dps t monotonic \<Rightarrow>
             (case splitNumberDataPoints dps [] siz of (dps, dst, n, remove) \<Rightarrow>
                (ms\<lparr>mt_Data := SumData dps t monotonic\<rparr>, dest\<lparr>mt_Data := SumData dst t monotonic\<rparr>, n, remove))
         | HistogramData dps t \<Rightarrow>
             (case splitHistogramDataPoints dps [] siz of (dps, dst, n, remove) \<Rightarrow>
                (ms\<lparr>mt_Data := HistogramData dps t\<rparr>, dest\<lparr>mt_Data := HistogramData dst t\<rparr>, n, remove))
         | ExponentialHistogramData dps t \<Rightarrow>
             (case splitExponentialHistogramDataPoints dps [] siz of (dps, dst, n, remove) \<Rightarrow>
                (ms\<lparr>mt_Data := ExponentialHistogramData dps t\<rparr>,
                 dest\<lparr>mt_Data := ExponentialHistogramData dst t\<rparr>, n, remove))
         | SummaryData dps \<Rightarrow>
             (case splitSummaryDataPoints dps [] siz of (dps, dst, n, remove) \<Rightarrow>
                (ms\<lparr>mt_Data := SummaryData dps\<rparr>, dest\<lparr>mt_Data := SummaryData dst\<rparr>, n, remove))
         | NoData \<Rightarrow> (ms, dest, siz, False))"

definition metricDPC :: "('k, 'n, 'h, 'e, 's) metric \<Rightarrow> nat" where
  "metricDPC ms =
     (case mt_Data ms of
        GaugeData dps \<Rightarrow> length dps
      | SumData dps _ _ \<Rightarrow> length dps
      | HistogramData dps _ \<Rightarrow> length dps
      | ExponentialHistogramData dps _ \<Rightarrow> length dps
      | SummaryData dps \<Rightarrow> length dps
      | NoData \<Rightarrow> 0)"

definition scopeMetricsDPC :: "('sc, ('k, 'n, 'h, 'e, 's) metric) scope_data \<Rightarrow> nat" where
  "scopeMetricsDPC ilm = (\<Sum>ms\<leftarrow>sd_items ilm. metricDPC ms)"

definition resourceMetricsDPC :: "('re, 'sc, ('k, 'n, 'h, 'e, 's) metric) resource_data \<Rightarrow> nat" where
  "resourceMetricsDPC rs = (\<Sum>ilm\<leftarrow>rd_scopes rs. scopeMetricsDPC ilm)"

definition NewMetric :: "('k list, 'n, 'h, 'e, 's) metric" where
  "NewMetric = \<lparr>mt_Name = '''', mt_Description = '''', mt_Unit = '''', mt_Metadata = [], mt_Data = NoData\<rparr>"

fun splitMetrics_metric ::
  "nat \<Rightarrow> nat \<times> ('k list, 'n, 'h, 'e, 's) metric list \<Rightarrow> ('k list, 'n, 'h, 'e, 's) metric \<Rightarrow>
   (nat \<times> ('k list, 'n, 'h, 'e, 's) metric list) \<times> ('k list, 'n, 'h, 'e, 's) metric \<times> bool" where
  "splitMetrics_metric siz (totalCopied, dest) srcMetric =
     (if totalCopied = siz then ((totalCopied, dest), srcMetric, False)
      else let srcMetricPointCount = metricDPC srcMetric
           in if srcMetricPointCount + totalCopied \<le> siz
              then ((totalCopied + srcMetricPointCount, dest @ [srcMetric]), srcMetric, True)
              else case splitMetric srcMetric NewMetric (siz - totalCopied) of
                     (srcMetric, destMetric, copiedDataPoints, remove) \<Rightarrow>
                       ((totalCopied + copiedDataPoints, dest @ [destMetric]), srcMetric, remove))"

definition splitMetrics_metrics ::
  "nat \<Rightarrow> ('sc, ('k list, 'n, 'h, 'e, 's) metric) scope_data \<Rightarrow> nat \<Rightarrow>
   ('sc, ('k list, 'n, 'h, 'e, 's) metric) scope_data \<times> ('sc, ('k list, 'n, 'h, 'e, 's) metric) scope_data \<times> nat" where
  "splitMetrics_metrics siz srcIlm totalCopied =
     (case remove_if (splitMetrics_metric siz) (totalCopied, []) (sd_items srcIlm) of
        ((totalCopied, dest), rest) \<Rightarrow>
          (srcIlm\<lparr>sd_items := rest\<rparr>,
           \<lparr>sd_scope = sd_scope srcIlm, sd_schema = sd_schema srcIlm, sd_items = dest\<rparr>, totalCopied))"

fun splitMetrics_scope ::
  "nat \<Rightarrow> nat \<times> ('sc, ('k list, 'n, 'h, 'e, 's) metric) scope_data list \<Rightarrow>
   ('sc, ('k list, 'n, 'h, 'e, 's) metric) scope_data \<Rightarrow>
   (nat \<times> ('sc, ('k list, 'n, 'h, 'e, 's) metric) scope_data list) \<times>
   ('sc, ('k list, 'n, 'h, 'e, 's) metric) scope_data \<times> bool" where
  "splitMetrics_scope siz (totalCopied, dest) srcIlm =
     (if totalCopied = siz then ((totalCopied, dest), srcIlm, False)
      else let srcIlmDataPointCount = scopeMetricsDPC srcIlm
           in if srcIlmDataPointCount + totalCopied \<le> siz
              then ((totalCopied + srcIlmDataPointCount, dest @ [srcIlm]), srcIlm, True)
              else case splitMetrics_metrics siz srcIlm totalCopied of (srcIlm, destIlm, totalCopied) \<Rightarrow>
                     ((totalCopied, dest @ [destIlm]), srcIlm, False))"

definition splitMetrics_scopes ::
  "nat \<Rightarrow> ('re, 'sc, ('k list, 'n, 'h, 'e, 's) metric) resource_data \<Rightarrow> nat \<Rightarrow>
   ('re, 'sc, ('k list, 'n, 'h, 'e, 's) metric) resource_data \<times>
   ('re, 'sc, ('k list, 'n, 'h, 'e, 's) metric) resource_data \<times> nat" where
  "splitMetrics_scopes siz srcRs totalCopied =
     (case remove_if (splitMetrics_scope siz) (totalCopied, []) (rd_scopes srcRs) of
        ((totalCopied, dest), rest) \<Rightarrow>
          (srcRs\<lparr>rd_scopes := rest\<rparr>,
           \<lparr>rd_resource = rd_resource srcRs, rd_schema = rd_schema srcRs, rd_scopes = dest\<rparr>, totalCopied))"

fun splitMetrics_resource ::
  "nat \<Rightarrow> nat \<times> ('re, 'sc, 'k list, 'n, 'h, 'e, 's) metrics_payload \<Rightarrow>
   ('re, 'sc, ('k list, 'n, 'h, 'e, 's) metric) resource_data \<Rightarrow>
   (nat \<times> ('re, 'sc, 'k list, 'n, 'h, 'e, 's) metrics_payload) \<times>
   ('re, 'sc, ('k list, 'n, 'h, 'e, 's) metric) resource_data \<times> bool" where
  "splitMetrics_resource siz (totalCopied, dest) srcRs =
     (if totalCopied = siz then ((totalCopied, dest), srcRs, False)
      else let srcRsDataPointCount = resourceMetricsDPC srcRs
           in if totalCopied + srcRsDataPointCount \<le> siz
              then ((totalCopied + srcRsDataPointCount, dest @ [srcRs]), srcRs, True)
              else case splitMetrics_scopes siz srcRs totalCopied of (srcRs, destRs, totalCopied) \<Rightarrow>
                     ((totalCopied, dest @ [destRs]), srcRs, rd_scopes srcRs = []))"

definition splitMetrics ::
  "nat \<Rightarrow> ('re, 'sc, 'k list, 'n, 'h, 'e, 's) metrics_payload \<Rightarrow>
   ('re, 'sc, 'k list, 'n, 'h, 'e, 's) metrics_payload \<times> ('re, 'sc, 'k list, 'n, 'h, 'e, 's) metrics_payload" where
  "splitMetrics siz src =
     (if DataPointCount src \<le> siz then (src, src)
      else case remove_if (splitMetrics_resource siz) (0, []) src of ((_, dest), rest) \<Rightarrow> (dest, rest))"

section \<open>The common shape of the loops\<close>

text \<open>
  At every level above the items an element that fits is taken whole, and the first one that does
  not is split so that the destination is full; then nothing more is taken.
\<close>

definition fill_step ::
  "nat \<Rightarrow> ('a \<Rightarrow> nat) \<Rightarrow> ('a \<Rightarrow> nat \<Rightarrow> 'a \<times> 'a \<times> nat) \<Rightarrow> ('a \<Rightarrow> bool) \<Rightarrow>
   nat \<times> 'a list \<Rightarrow> 'a \<Rightarrow> (nat \<times> 'a list) \<times> 'a \<times> bool" where
  "fill_step siz amount part emptied = (\<lambda>(got, dest) x.
     if got = siz then ((got, dest), x, False)
     else if got + amount x \<le> siz then ((got + amount x, dest @ [x]), x, True)
     else case part x got of (x', e, got') \<Rightarrow> ((got', dest @ [e]), x', emptied x'))"

lemma splitLogs_scope_fill:
  "splitLogs_scope siz = fill_step siz (\<lambda>sl. length (sd_items sl)) (splitLogs_records siz) (\<lambda>_. False)"
  by (simp add: fun_eq_iff fill_step_def Let_def add.commute)

lemma splitLogs_resource_fill:
  "splitLogs_resource siz = fill_step siz resourceLRC (splitLogs_scopes siz) (\<lambda>rl. rd_scopes rl = [])"
  by (simp add: fun_eq_iff fill_step_def Let_def)

lemma splitTraces_span_eq: "splitTraces_span = splitLogs_record"
  by (simp add: fun_eq_iff)

lemma splitTraces_scope_eq: "splitTraces_scope = splitLogs_scope"
  by (auto simp: fun_eq_iff Let_def splitTraces_spans_def splitLogs_records_def splitTraces_span_eq)

lemma splitTraces_resource_eq: "splitTraces_resource = splitLogs_resource"
  by (simp add: fun_eq_iff Let_def splitTraces_scopes_def splitLogs_scopes_def splitTraces_scope_eq
      resourceSC_def resourceLRC_def)

lemma splitTraces_eq: "splitTraces = splitLogs"
  by (simp add: fun_eq_iff splitTraces_def splitLogs_def splitTraces_resource_eq SpanCount_def LogRecordCount_def)

definition metric_part ::
  "nat \<Rightarrow> ('k list, 'n, 'h, 'e, 's) metric \<Rightarrow> nat \<Rightarrow>
   ('k list, 'n, 'h, 'e, 's) metric \<times> ('k list, 'n, 'h, 'e, 's) metric \<times> nat" where
  "metric_part siz m got = (case splitMetric m NewMetric (siz - got) of (m, e, n, _) \<Rightarrow> (m, e, got + n))"

lemma splitMetric_keeps: "splitMetric m d n = (m', e, k, remove) \<Longrightarrow> \<not> remove"
  by (auto simp: splitMetric_def Let_def splitNumberDataPoints_def splitHistogramDataPoints_def
      splitExponentialHistogramDataPoints_def splitSummaryDataPoints_def
      split: metric_data.splits prod.splits)

text \<open>The part of a metric that is split off does not get its metadata.\<close>

lemma splitMetric_drops_metadata: "splitMetric ms NewMetric n = (ms', dest, k, remove) \<Longrightarrow> mt_Metadata dest = []"
  by (auto simp: splitMetric_def NewMetric_def Let_def split: metric_data.splits prod.splits)

lemma splitMetrics_metric_fill:
  "splitMetrics_metric siz = fill_step siz metricDPC (metric_part siz) (\<lambda>_. False)"
  by (auto simp: fun_eq_iff fill_step_def Let_def add.commute metric_part_def split: prod.splits
      dest: splitMetric_keeps)

lemma splitMetrics_scope_fill:
  "splitMetrics_scope siz = fill_step siz scopeMetricsDPC (splitMetrics_metrics siz) (\<lambda>_. False)"
  by (simp add: fun_eq_iff fill_step_def Let_def add.commute)

lemma splitMetrics_resource_fill:
  "splitMetrics_resource siz = fill_step siz resourceMetricsDPC (splitMetrics_scopes siz) (\<lambda>rs. rd_scopes rs = [])"
  by (simp add: fun_eq_iff fill_step_def Let_def)

lemma fill_stopped:
  "remove_if (fill_step siz amount part emptied) (siz, dest) xs = ((siz, dest), xs)"
  by (induction xs) (auto simp: fill_step_def)

lemma fill_Cons_full:
  "got \<noteq> siz \<Longrightarrow> got + amount x \<le> siz \<Longrightarrow>
   remove_if (fill_step siz amount part emptied) (got, dest) (x # xs) =
   remove_if (fill_step siz amount part emptied) (got + amount x, dest @ [x]) xs"
  by (simp add: fill_step_def split: prod.splits)

lemma fill_Cons_part:
  assumes "got \<noteq> siz" "siz < got + amount x" "part x got = (x', e, siz)" "\<not> emptied x'"
  shows "remove_if (fill_step siz amount part emptied) (got, dest) (x # xs) = ((siz, dest @ [e]), x' # xs)"
proof -
  have "fill_step siz amount part emptied (got, dest) x = ((siz, dest @ [e]), x', False)"
    using assms by (simp add: fill_step_def)
  then show ?thesis by (simp add: fill_stopped)
qed

text \<open>What a level needs from the level below it, and what it gives to the level above.\<close>

locale filling =
  fixes siz :: nat and amount :: "'a \<Rightarrow> nat" and part :: "'a \<Rightarrow> nat \<Rightarrow> 'a \<times> 'a \<times> nat"
    and emptied :: "'a \<Rightarrow> bool" and flat :: "'a \<Rightarrow> 'i list"
  assumes amount_flat: "amount x = length (flat x)"
    and part_fills: "got < siz \<Longrightarrow> siz < got + amount x \<Longrightarrow>
      \<exists>x' e. part x got = (x', e, siz) \<and> flat x = flat e @ flat x' \<and> length (flat e) = siz - got"
    and part_rest: "part x got = (x', e, t) \<Longrightarrow> flat x' \<noteq> [] \<Longrightarrow> \<not> emptied x'"
begin

abbreviation flats :: "'a list \<Rightarrow> 'i list" where
  "flats xs \<equiv> concat (map flat xs)"

lemma fills:
  assumes "got \<le> siz" "siz \<le> got + length (flats xs)"
  shows "\<exists>taken rest. remove_if (fill_step siz amount part emptied) (got, dest) xs = ((siz, dest @ taken), rest) \<and>
    flats xs = flats taken @ flats rest \<and> length (flats taken) = siz - got"
  using assms
proof (induction xs arbitrary: got dest)
  case Nil
  then show ?case by simp
next
  case (Cons x xs)
  consider (got) "got = siz" | (whole) "got < siz" "got + amount x \<le> siz"
    | (partial) "got < siz" "siz < got + amount x"
    using Cons.prems by linarith
  then show ?case
  proof cases
    case got
    then show ?thesis by (intro exI [of _ "[]"] exI [of _ "x # xs"]) (simp only: fill_stopped, simp)
  next
    case whole
    with Cons.prems have "siz \<le> got + amount x + length (flats xs)" by (simp add: amount_flat)
    from Cons.IH [OF whole(2) this, of "dest @ [x]"] obtain taken rest where
      r: "remove_if (fill_step siz amount part emptied) (got + amount x, dest @ [x]) xs = ((siz, (dest @ [x]) @ taken), rest)"
      "flats xs = flats taken @ flats rest" "length (flats taken) = siz - (got + amount x)" by blast
    show ?thesis
    proof (intro exI conjI)
      show "remove_if (fill_step siz amount part emptied) (got, dest) (x # xs) = ((siz, dest @ (x # taken)), rest)"
        using r(1) whole by (simp add: fill_Cons_full del: remove_if.simps)
      show "flats (x # xs) = flats (x # taken) @ flats rest" using r(2) by simp
      show "length (flats (x # taken)) = siz - got" using r(3) whole by (simp add: amount_flat)
    qed
  next
    case partial
    then obtain x' e where p: "part x got = (x', e, siz)" "flat x = flat e @ flat x'"
      "length (flat e) = siz - got" using part_fills by blast
    have "length (flat x) = length (flat e) + length (flat x')" using p(2) by simp
    with p(3) partial have "flat x' \<noteq> []" by (auto simp: amount_flat)
    with part_rest [OF p(1)] have "\<not> emptied x'" by simp
    with partial p show ?thesis
      by (intro exI [of _ "[e]"] exI [of _ "x' # xs"]) (simp add: fill_Cons_part del: remove_if.simps)
  qed
qed

end

lemma record_loop:
  "got \<le> siz \<Longrightarrow> siz \<le> got + length xs \<Longrightarrow>
   remove_if (splitLogs_record siz) (got, dest) xs =
     ((siz, dest @ take (siz - got) xs), drop (siz - got) xs)"
  by (induction xs arbitrary: got dest) (auto simp: take_Cons' drop_Cons')

lemma point_loop_done: "remove_if (splitDataPoints_step siz) (siz, dst) xs = ((siz, dst), xs)"
  by (induction xs) auto

lemma point_loop:
  "i \<le> siz \<Longrightarrow> siz \<le> i + length xs \<Longrightarrow>
   remove_if (splitDataPoints_step siz) (i, dst) xs = ((siz, dst @ take (siz - i) xs), drop (siz - i) xs)"
  by (induction xs arbitrary: i dst) (auto simp: take_Cons' drop_Cons')

section \<open>Exactly the first records are taken\<close>

interpretation log_scopes: filling siz "\<lambda>sl. length (sd_items sl)" "splitLogs_records siz" "\<lambda>_. False" scope_flat
proof
  fix sl :: "('sc, 'x) scope_data" and got
  show "length (sd_items sl) = length (scope_flat sl)" by (simp add: scope_flat_def)
  assume room: "got < siz" "siz < got + length (sd_items sl)"
  show "\<exists>sl' e. splitLogs_records siz sl got = (sl', e, siz) \<and> scope_flat sl = scope_flat e @ scope_flat sl' \<and>
      length (scope_flat e) = siz - got"
    using room by (simp add: splitLogs_records_def record_loop scope_flat_def flip: map_append)
qed simp

interpretation log_resources: filling siz resourceLRC "splitLogs_scopes siz" "\<lambda>rl. rd_scopes rl = []" resource_flat
proof
  fix rl :: "('re, 'sc, 'x) resource_data" and got
  have len: "length (concat (map scope_flat (rd_scopes rl))) = resourceLRC rl"
    by (simp add: scope_flat_def resourceLRC_def length_concat o_def)
  then show "resourceLRC rl = length (resource_flat rl)" by (simp add: resource_flat_def)
  assume room: "got < siz" "siz < got + resourceLRC rl"
  then obtain taken rest where r:
    "remove_if (splitLogs_scope siz) (got, []) (rd_scopes rl) = ((siz, taken), rest)"
    "concat (map scope_flat (rd_scopes rl)) = concat (map scope_flat taken) @ concat (map scope_flat rest)"
    "length (concat (map scope_flat taken)) = siz - got"
    using log_scopes.fills [of got siz "rd_scopes rl" "[]"] by (auto simp: len splitLogs_scope_fill)
  then show "\<exists>rl' e. splitLogs_scopes siz rl got = (rl', e, siz) \<and> resource_flat rl = resource_flat e @ resource_flat rl' \<and>
      length (resource_flat e) = siz - got"
    by (simp add: splitLogs_scopes_def resource_flat_def)
qed (auto simp: resource_flat_def)

lemma splitLogs_parts:
  assumes "siz < LogRecordCount src" "splitLogs siz src = (dest, rest)"
  shows "payload_flat src = payload_flat dest @ payload_flat rest" "LogRecordCount dest = siz"
proof -
  have "siz \<le> 0 + length (concat (map resource_flat src))"
    using assms(1) length_payload_flat [of src] by (simp add: payload_flat_def)
  from log_resources.fills [OF le0 this, of "[]"] assms
  show "payload_flat src = payload_flat dest @ payload_flat rest" "LogRecordCount dest = siz"
    by (auto simp: splitLogs_def splitLogs_resource_fill payload_flat_def simp flip: length_payload_flat)
qed

subsection \<open>Metrics\<close>

definition metric_points ::
  "('k, 'n, 'h, 'e, 's) metric \<Rightarrow>
   ((string \<times> string \<times> string \<times> ('n, 'h, 'e, 's) metric_data) \<times> ('n, 'h, 'e, 's) point) list" where
  "metric_points m =
     map (\<lambda>p. ((mt_Name m, mt_Description m, mt_Unit m, with_points (mt_Data m) []), p)) (points (mt_Data m))"

definition scope_points where
  "scope_points sm = map (\<lambda>y. (sd_scope sm, sd_schema sm, y)) (concat (map metric_points (sd_items sm)))"

definition resource_points where
  "resource_points rm = map (\<lambda>y. (rd_resource rm, rd_schema rm, y)) (concat (map scope_points (rd_scopes rm)))"

definition metrics_points where
  "metrics_points md = concat (map resource_points md)"

lemma metricDPC_eq: "metricDPC m = dataPointsLen m"
  by (simp add: metricDPC_def dataPointsLen.simps)

lemma length_points [simp]:
  "length (metric_points m) = metricDPC m" "length (scope_points sm) = scopeMetricsDPC sm"
  "length (resource_points rm) = resourceMetricsDPC rm" "length (metrics_points md) = DataPointCount md"
  by (simp_all add: metric_points_def scope_points_def resource_points_def metrics_points_def metricDPC_eq
      dataPointsLen_points scopeMetricsDPC_def resourceMetricsDPC_def DataPointCount_def length_concat o_def)

lemma splitMetric_fills:
  assumes "n < metricDPC m"
  shows "\<exists>m' e. splitMetric m NewMetric n = (m', e, n, False) \<and> metric_points m = metric_points e @ metric_points m' \<and>
    metricDPC e = n"
  using assms
  by (cases "mt_Data m")
    (simp_all add: splitMetric_def NewMetric_def metricDPC_def metric_points_def splitNumberDataPoints_def
      splitHistogramDataPoints_def splitExponentialHistogramDataPoints_def splitSummaryDataPoints_def point_loop
      flip: map_append)

interpretation point_metrics: filling siz metricDPC "metric_part siz" "\<lambda>_. False"
  "metric_points :: ('k list, 'n, 'h, 'e, 's) metric \<Rightarrow> _"
proof
  fix m :: "('k list, 'n, 'h, 'e, 's) metric" and got
  assume room: "got < siz" "siz < got + metricDPC m"
  then have "siz - got < metricDPC m" by simp
  from splitMetric_fills [OF this] obtain m' e where
    "splitMetric m NewMetric (siz - got) = (m', e, siz - got, False)" "metric_points m = metric_points e @ metric_points m'"
    "metricDPC e = siz - got" by blast
  with room show "\<exists>m' e. metric_part siz m got = (m', e, siz) \<and> metric_points m = metric_points e @ metric_points m' \<and>
      length (metric_points e) = siz - got"
    by (simp add: metric_part_def)
qed simp_all

interpretation point_scopes: filling siz scopeMetricsDPC "splitMetrics_metrics siz" "\<lambda>_. False"
  "scope_points :: ('sc, ('k list, 'n, 'h, 'e, 's) metric) scope_data \<Rightarrow> _"
proof
  fix sm :: "('sc, ('k list, 'n, 'h, 'e, 's) metric) scope_data" and got
  assume room: "got < siz" "siz < got + scopeMetricsDPC sm"
  have len: "length (concat (map metric_points (sd_items sm))) = scopeMetricsDPC sm"
    by (simp add: length_concat o_def scopeMetricsDPC_def)
  with room obtain taken rest where r:
    "remove_if (splitMetrics_metric siz) (got, []) (sd_items sm) = ((siz, taken), rest)"
    "concat (map metric_points (sd_items sm)) = concat (map metric_points taken) @ concat (map metric_points rest)"
    "length (concat (map metric_points taken)) = siz - got"
    using point_metrics.fills [of got siz "sd_items sm" "[]"] by (auto simp: splitMetrics_metric_fill)
  then show "\<exists>sm' e. splitMetrics_metrics siz sm got = (sm', e, siz) \<and> scope_points sm = scope_points e @ scope_points sm' \<and>
      length (scope_points e) = siz - got"
    by (simp add: splitMetrics_metrics_def scope_points_def del: length_points)
qed simp_all

interpretation point_resources: filling siz resourceMetricsDPC "splitMetrics_scopes siz" "\<lambda>rm. rd_scopes rm = []"
  "resource_points :: ('re, 'sc, ('k list, 'n, 'h, 'e, 's) metric) resource_data \<Rightarrow> _"
proof
  fix rm :: "('re, 'sc, ('k list, 'n, 'h, 'e, 's) metric) resource_data" and got
  show "resourceMetricsDPC rm = length (resource_points rm)" by simp
  assume room: "got < siz" "siz < got + resourceMetricsDPC rm"
  have len: "length (concat (map scope_points (rd_scopes rm))) = resourceMetricsDPC rm"
    by (simp add: length_concat o_def resourceMetricsDPC_def)
  with room obtain taken rest where r:
    "remove_if (splitMetrics_scope siz) (got, []) (rd_scopes rm) = ((siz, taken), rest)"
    "concat (map scope_points (rd_scopes rm)) = concat (map scope_points taken) @ concat (map scope_points rest)"
    "length (concat (map scope_points taken)) = siz - got"
    using point_scopes.fills [of got siz "rd_scopes rm" "[]"] by (auto simp: splitMetrics_scope_fill)
  then show "\<exists>rm' e. splitMetrics_scopes siz rm got = (rm', e, siz) \<and> resource_points rm = resource_points e @ resource_points rm' \<and>
      length (resource_points e) = siz - got"
    by (simp add: splitMetrics_scopes_def resource_points_def del: length_points)
qed (auto simp: resource_points_def)

lemma splitMetrics_parts:
  assumes "siz < DataPointCount src" "splitMetrics siz src = (dest, rest)"
  shows "metrics_points src = metrics_points dest @ metrics_points rest" "DataPointCount dest = siz"
proof -
  have "siz \<le> 0 + length (concat (map resource_points src))"
    using assms(1) length_points(4) [of src] by (simp add: metrics_points_def del: length_points)
  from point_resources.fills [OF le0 this, of "[]"] assms
  show "metrics_points src = metrics_points dest @ metrics_points rest" "DataPointCount dest = siz"
    by (auto simp: splitMetrics_def splitMetrics_resource_fill metrics_points_def simp flip: length_points(4)
        simp del: length_points)
qed

end
