(* ===== verification/ClientContext.thy ===== *)
theory ClientContext
  imports Wire
begin

text \<open>
  The information about the client that a context carries (client/client.go): its address and its
  metadata, a map from lower-case keys to lists of values. Strings are lists of bytes. A Go map that
  is iterated comes with the order of the iteration as an argument.
\<close>

section \<open>Contexts\<close>

record 'ts span_ctx =
  tc_TraceID :: "byte list"
  tc_SpanID :: "byte list"
  tc_TraceFlags :: byte
  tc_TraceState :: 'ts
  tc_Remote :: bool

datatype 'o net_addr =
    nil_addr
  | net_IPAddr "byte list" "byte list"
  | net_TCPAddr "byte list" u64 "byte list"
  | net_UDPAddr "byte list" u64 "byte list"
  | net_UnixAddr "byte list" "byte list"
  | other_addr 'o

type_synonym client_metadata = "byte list \<rightharpoonup> byte list list"

record ('o, 'au) client_info =
  ci_Addr :: "'o net_addr"
  ci_Auth :: "'au option"
  ci_Metadata :: client_metadata

text \<open>A context holds at most one span context and one client info; \<open>None\<close> is a missing value.\<close>

record ('ts, 'o, 'au) go_ctx =
  cx_span :: "'ts span_ctx option"
  cx_client :: "('o, 'au) client_info option"

definition Background :: "('ts, 'o, 'au) go_ctx" where
  "Background = \<lparr>cx_span = None, cx_client = None\<rparr>"

definition FromContext :: "('ts, 'o, 'au) go_ctx \<Rightarrow> ('o, 'au) client_info" where
  "FromContext ctx = (case cx_client ctx of Some c \<Rightarrow> c | None \<Rightarrow> \<lparr>ci_Addr = nil_addr, ci_Auth = None, ci_Metadata = Map.empty\<rparr>)"

definition NewContext :: "('ts, 'o, 'au) go_ctx \<Rightarrow> ('o, 'au) client_info \<Rightarrow> ('ts, 'o, 'au) go_ctx" where
  "NewContext ctx c = ctx\<lparr>cx_client := Some c\<rparr>"

text \<open>\<open>strings.ToLower\<close> on ASCII text, which header names are; other bytes stay.\<close>

definition ToLower :: "byte list \<Rightarrow> byte list" where
  "ToLower s = map (\<lambda>b. if 65 \<le> b \<and> b \<le> 90 then b + 32 else b) s"

fun NewMetadata :: "byte list list \<Rightarrow> client_metadata \<Rightarrow> client_metadata" where
  "NewMetadata [] md = Map.empty"
| "NewMetadata (k # ks) md = (NewMetadata ks md)(ToLower k := md k)"

definition Metadata_Get :: "client_metadata \<Rightarrow> byte list \<Rightarrow> byte list list" where
  "Metadata_Get md key = (case md (ToLower key) of None \<Rightarrow> [] | Some vals \<Rightarrow> vals)"

lemma ToLower_idem: "ToLower (ToLower s) = ToLower s"
proof -
  have "\<not> (65 \<le> b + 32 \<and> b + 32 \<le> 90)" if "65 \<le> b" "b \<le> 90" for b :: byte
    using that by (simp add: word_le_nat_alt unat_word_ariths)
  then show ?thesis by (auto simp: ToLower_def)
qed

lemma NewMetadata_lower: "\<forall>k \<in> dom (NewMetadata ks md). ToLower k = k"
  by (induction ks) (auto simp: ToLower_idem split: if_splits)

lemma NewMetadata_eq:
  "\<forall>k \<in> set ks. ToLower k = k \<Longrightarrow> NewMetadata ks md = md |` set ks"
  by (induction ks) (auto simp: restrict_map_def fun_eq_iff)

end
