(* ===== verification/BatchProcessor.thy ===== *)
theory BatchProcessor
  imports ProcessorSplit ClientContext
begin

text \<open>
  The batch processor: processor/batchprocessor/batch\_processor.go and config.go. A shard collects
  what it receives over its channel and sends a batch when it is large enough, when the timer fires,
  and when the processor stops. The interface \<open>batch\<close> over the signals is the record \<open>batch_ops\<close>,
  its contract the locale \<open>batch_signal\<close>, interpreted on the three implementations. The goroutine of
  a shard is a step relation, whose steps are the cases of its \<open>select\<close>.

  A send whose result is an error is logged and its data is dropped; which sends fail is an argument,
  as a function of the earlier requests and the request. The size in bytes, which is only recorded
  as a metric, is left out. An endless loop or a goroutine that blocks forever is \<open>None\<close>.
\<close>

section \<open>Configuration\<close>

record batch_processor_config =
  bc_Timeout :: int
  bc_SendBatchSize :: "32 word"
  bc_SendBatchMaxSize :: "32 word"
  bc_MetadataKeys :: "byte list list"
  bc_MetadataCardinalityLimit :: "32 word"

datatype config_error = MaxSizeTooSmall | DuplicateKey "byte list" | NegativeTimeout

fun check_keys :: "byte list list \<Rightarrow> byte list set \<Rightarrow> config_error option" where
  "check_keys [] uniq = None"
| "check_keys (k # ks) uniq =
     (let l = ToLower k in if l \<in> uniq then Some (DuplicateKey l) else check_keys ks (insert l uniq))"

definition BatchProcessor_Validate :: "batch_processor_config \<Rightarrow> config_error option" where
  "BatchProcessor_Validate cfg =
     (if 0 < bc_SendBatchMaxSize cfg \<and> bc_SendBatchMaxSize cfg < bc_SendBatchSize cfg then Some MaxSizeTooSmall
      else case check_keys (bc_MetadataKeys cfg) {} of
             Some e \<Rightarrow> Some e
           | None \<Rightarrow> if bc_Timeout cfg < 0 then Some NegativeTimeout else None)"

definition createDefaultConfig :: batch_processor_config where
  "createDefaultConfig = \<lparr>bc_Timeout = 200000000, bc_SendBatchSize = 8192, bc_SendBatchMaxSize = 0,
     bc_MetadataKeys = [], bc_MetadataCardinalityLimit = 1000\<rparr>"

section \<open>The pending batch of each signal\<close>

record ('b, 't) batch_ops =
  bo_new :: 'b
  bo_split :: "nat \<Rightarrow> 'b \<Rightarrow> 'b \<times> nat \<times> 't"
  bo_itemCount :: "'b \<Rightarrow> nat"
  bo_add :: "'t \<Rightarrow> 'b \<Rightarrow> 'b"

record ('re, 'sc, 'x) batchTraces =
  bt_traceData :: "('re, 'sc, 'x) payload"
  bt_spanCount :: nat

definition newBatchTraces :: "('re, 'sc, 'x) batchTraces" where
  "newBatchTraces = \<lparr>bt_traceData = [], bt_spanCount = 0\<rparr>"

definition batchTraces_add :: "('re, 'sc, 'x) payload \<Rightarrow> ('re, 'sc, 'x) batchTraces \<Rightarrow> ('re, 'sc, 'x) batchTraces" where
  "batchTraces_add td bt =
     (let newSpanCount = SpanCount td
      in if newSpanCount = 0 then bt
         else \<lparr>bt_traceData = bt_traceData bt @ td, bt_spanCount = bt_spanCount bt + newSpanCount\<rparr>)"

definition batchTraces_split ::
  "nat \<Rightarrow> ('re, 'sc, 'x) batchTraces \<Rightarrow> ('re, 'sc, 'x) batchTraces \<times> nat \<times> ('re, 'sc, 'x) payload" where
  "batchTraces_split sendBatchMaxSize bt =
     (if 0 < sendBatchMaxSize \<and> sendBatchMaxSize < bt_spanCount bt
      then case splitTraces sendBatchMaxSize (bt_traceData bt) of (td, rest) \<Rightarrow>
             (\<lparr>bt_traceData = rest, bt_spanCount = bt_spanCount bt - sendBatchMaxSize\<rparr>, sendBatchMaxSize, td)
      else (newBatchTraces, bt_spanCount bt, bt_traceData bt))"

definition traces_batch :: "(('re, 'sc, 'x) batchTraces, ('re, 'sc, 'x) payload) batch_ops" where
  "traces_batch = \<lparr>bo_new = newBatchTraces, bo_split = batchTraces_split, bo_itemCount = bt_spanCount,
     bo_add = batchTraces_add\<rparr>"

record ('re, 'sc, 'k, 'n, 'h, 'e, 's) batchMetrics =
  bm_metricData :: "('re, 'sc, 'k list, 'n, 'h, 'e, 's) metrics_payload"
  bm_dataPointCount :: nat

definition newMetricsBatch :: "('re, 'sc, 'k, 'n, 'h, 'e, 's) batchMetrics" where
  "newMetricsBatch = \<lparr>bm_metricData = [], bm_dataPointCount = 0\<rparr>"

definition batchMetrics_add ::
  "('re, 'sc, 'k list, 'n, 'h, 'e, 's) metrics_payload \<Rightarrow> ('re, 'sc, 'k, 'n, 'h, 'e, 's) batchMetrics \<Rightarrow>
   ('re, 'sc, 'k, 'n, 'h, 'e, 's) batchMetrics" where
  "batchMetrics_add md bm =
     (let newDataPointCount = DataPointCount md
      in if newDataPointCount = 0 then bm
         else \<lparr>bm_metricData = bm_metricData bm @ md, bm_dataPointCount = bm_dataPointCount bm + newDataPointCount\<rparr>)"

definition batchMetrics_split ::
  "nat \<Rightarrow> ('re, 'sc, 'k, 'n, 'h, 'e, 's) batchMetrics \<Rightarrow>
   ('re, 'sc, 'k, 'n, 'h, 'e, 's) batchMetrics \<times> nat \<times> ('re, 'sc, 'k list, 'n, 'h, 'e, 's) metrics_payload" where
  "batchMetrics_split sendBatchMaxSize bm =
     (if 0 < sendBatchMaxSize \<and> sendBatchMaxSize < bm_dataPointCount bm
      then case splitMetrics sendBatchMaxSize (bm_metricData bm) of (md, rest) \<Rightarrow>
             (\<lparr>bm_metricData = rest, bm_dataPointCount = bm_dataPointCount bm - sendBatchMaxSize\<rparr>, sendBatchMaxSize, md)
      else (newMetricsBatch, bm_dataPointCount bm, bm_metricData bm))"

definition metrics_batch ::
  "(('re, 'sc, 'k, 'n, 'h, 'e, 's) batchMetrics, ('re, 'sc, 'k list, 'n, 'h, 'e, 's) metrics_payload) batch_ops" where
  "metrics_batch = \<lparr>bo_new = newMetricsBatch, bo_split = batchMetrics_split, bo_itemCount = bm_dataPointCount,
     bo_add = batchMetrics_add\<rparr>"

record ('re, 'sc, 'x) batchLogs =
  bl_logData :: "('re, 'sc, 'x) payload"
  bl_logCount :: nat

definition newBatchLogs :: "('re, 'sc, 'x) batchLogs" where
  "newBatchLogs = \<lparr>bl_logData = [], bl_logCount = 0\<rparr>"

definition batchLogs_add :: "('re, 'sc, 'x) payload \<Rightarrow> ('re, 'sc, 'x) batchLogs \<Rightarrow> ('re, 'sc, 'x) batchLogs" where
  "batchLogs_add ld bl =
     (let newLogsCount = LogRecordCount ld
      in if newLogsCount = 0 then bl
         else \<lparr>bl_logData = bl_logData bl @ ld, bl_logCount = bl_logCount bl + newLogsCount\<rparr>)"

definition batchLogs_split ::
  "nat \<Rightarrow> ('re, 'sc, 'x) batchLogs \<Rightarrow> ('re, 'sc, 'x) batchLogs \<times> nat \<times> ('re, 'sc, 'x) payload" where
  "batchLogs_split sendBatchMaxSize bl =
     (if 0 < sendBatchMaxSize \<and> sendBatchMaxSize < bl_logCount bl
      then case splitLogs sendBatchMaxSize (bl_logData bl) of (ld, rest) \<Rightarrow>
             (\<lparr>bl_logData = rest, bl_logCount = bl_logCount bl - sendBatchMaxSize\<rparr>, sendBatchMaxSize, ld)
      else (newBatchLogs, bl_logCount bl, bl_logData bl))"

definition logs_batch :: "(('re, 'sc, 'x) batchLogs, ('re, 'sc, 'x) payload) batch_ops" where
  "logs_batch = \<lparr>bo_new = newBatchLogs, bo_split = batchLogs_split, bo_itemCount = bl_logCount,
     bo_add = batchLogs_add\<rparr>"

section \<open>The operations of a shard\<close>

text \<open>
  The timer is absent, runs, has fired with its value waiting in the channel, or is stopped with an
  empty channel.
\<close>

datatype timer = NoTimer | Running | Fired | Drained

datatype trigger = triggerTimeout | triggerBatchSize

record ('b, 't) shard =
  sh_timer :: timer
  sh_batch :: 'b
  sh_calls :: "(trigger \<times> 't) list"
  sh_recorded :: "(trigger \<times> nat) list"

type_synonym 't failing = "(trigger \<times> 't) list \<Rightarrow> 't \<Rightarrow> bool"

definition hasTimer :: "('b, 't) shard \<Rightarrow> bool" where
  "hasTimer sh \<longleftrightarrow> sh_timer sh \<noteq> NoTimer"

definition stopTimer :: "('b, 't) shard \<Rightarrow> ('b, 't) shard option" where
  "stopTimer sh =
     (case sh_timer sh of
        NoTimer \<Rightarrow> Some sh
      | Running \<Rightarrow> Some (sh\<lparr>sh_timer := Drained\<rparr>)
      | Fired \<Rightarrow> Some (sh\<lparr>sh_timer := Drained\<rparr>)
      | Drained \<Rightarrow> None)"

definition shard_resetTimer :: "('b, 't) shard \<Rightarrow> ('b, 't) shard" where
  "shard_resetTimer sh = (if hasTimer sh then sh\<lparr>sh_timer := Running\<rparr> else sh)"

definition sendItems ::
  "('b, 't) batch_ops \<Rightarrow> batch_processor_config \<Rightarrow> 't failing \<Rightarrow> trigger \<Rightarrow> ('b, 't) shard \<Rightarrow> ('b, 't) shard" where
  "sendItems B cfg fails trigger sh =
     (case bo_split B (unat (bc_SendBatchMaxSize cfg)) (sh_batch sh) of (batch, sent, req) \<Rightarrow>
        let sh' = sh\<lparr>sh_batch := batch, sh_calls := sh_calls sh @ [(trigger, req)]\<rparr>
        in if fails (sh_calls sh) req then sh'
           else sh'\<lparr>sh_recorded := sh_recorded sh @ [(trigger, sent)]\<rparr>)"

definition batch_full :: "('b, 't) batch_ops \<Rightarrow> batch_processor_config \<Rightarrow> ('b, 't) shard \<Rightarrow> bool" where
  "batch_full B cfg sh \<longleftrightarrow>
     0 < bo_itemCount B (sh_batch sh) \<and>
     (\<not> hasTimer sh \<or> unat (bc_SendBatchSize cfg) \<le> bo_itemCount B (sh_batch sh))"

partial_function (option) send_full ::
  "('b, 't) batch_ops \<Rightarrow> batch_processor_config \<Rightarrow> 't failing \<Rightarrow> ('b, 't) shard \<Rightarrow> ('b, 't) shard option" where
  "send_full B cfg fails sh =
     (if batch_full B cfg sh then send_full B cfg fails (sendItems B cfg fails triggerBatchSize sh) else Some sh)"

definition processItem ::
  "('b, 't) batch_ops \<Rightarrow> batch_processor_config \<Rightarrow> 't failing \<Rightarrow> 't \<Rightarrow> ('b, 't) shard \<Rightarrow> ('b, 't) shard option" where
  "processItem B cfg fails item sh =
     (let sh1 = sh\<lparr>sh_batch := bo_add B item (sh_batch sh)\<rparr>; sent = batch_full B cfg sh1
      in case send_full B cfg fails sh1 of
           None \<Rightarrow> None
         | Some sh2 \<Rightarrow>
             if sent then (case stopTimer sh2 of None \<Rightarrow> None | Some sh3 \<Rightarrow> Some (shard_resetTimer sh3)) else Some sh2)"

definition newShard :: "('b, 't) batch_ops \<Rightarrow> ('b, 't) shard" where
  "newShard B = \<lparr>sh_timer = NoTimer, sh_batch = bo_new B, sh_calls = [], sh_recorded = []\<rparr>"

definition start_timer :: "batch_processor_config \<Rightarrow> ('b, 't) shard \<Rightarrow> ('b, 't) shard" where
  "start_timer cfg sh = (if bc_Timeout cfg \<noteq> 0 \<and> bc_SendBatchSize cfg \<noteq> 0 then sh\<lparr>sh_timer := Running\<rparr> else sh)"

definition send_pending ::
  "('b, 't) batch_ops \<Rightarrow> batch_processor_config \<Rightarrow> 't failing \<Rightarrow> ('b, 't) shard \<Rightarrow> ('b, 't) shard" where
  "send_pending B cfg fails sh =
     (if 0 < bo_itemCount B (sh_batch sh) then sendItems B cfg fails triggerTimeout sh else sh)"

section \<open>The goroutine of a shard and its producers\<close>

text \<open>
  The channel holds \<open>cap\<close> items; a producer that finds it full blocks until the loop receives.
  \<open>ss_offered\<close> lists every item whose send on the channel began, in the order of the channel. The
  goroutine is in the outer loop, in the loop that drains the channel after the shutdown, past it
  with the last request still to be sent, or has returned; producers may send at any of these.
\<close>

datatype shard_pc = Looping | Draining | Closing | Returned

record ('b, 't) shard_sys =
  ss_shard :: "('b, 't) shard"
  ss_newItem :: "'t list"
  ss_blocked :: "'t list"
  ss_pc :: shard_pc
  ss_shutdownC :: bool
  ss_offered :: "'t list"

definition shard_init :: "('b, 't) batch_ops \<Rightarrow> batch_processor_config \<Rightarrow> ('b, 't) shard_sys" where
  "shard_init B cfg = \<lparr>ss_shard = start_timer cfg (newShard B), ss_newItem = [], ss_blocked = [],
     ss_pc = Looping, ss_shutdownC = False, ss_offered = []\<rparr>"

definition chan_send :: "nat \<Rightarrow> 't \<Rightarrow> ('b, 't) shard_sys \<Rightarrow> ('b, 't) shard_sys" where
  "chan_send cap item s =
     (let s' = s\<lparr>ss_offered := ss_offered s @ [item]\<rparr>
      in if length (ss_newItem s) < cap then s'\<lparr>ss_newItem := ss_newItem s @ [item]\<rparr>
         else s'\<lparr>ss_blocked := ss_blocked s @ [item]\<rparr>)"

definition chan_receive :: "('b, 't) shard_sys \<Rightarrow> ('t \<times> ('b, 't) shard_sys) option" where
  "chan_receive s =
     (case ss_newItem s of
        [] \<Rightarrow> None
      | item # rest \<Rightarrow>
          Some (item, s\<lparr>ss_newItem := rest @ take 1 (ss_blocked s), ss_blocked := drop 1 (ss_blocked s)\<rparr>))"

inductive shard_step ::
  "('b, 't) batch_ops \<Rightarrow> batch_processor_config \<Rightarrow> 't failing \<Rightarrow> nat \<Rightarrow> ('b, 't) shard_sys \<Rightarrow> ('b, 't) shard_sys \<Rightarrow> bool"
  for B :: "('b, 't) batch_ops" and cfg :: batch_processor_config and fails :: "'t failing" and cap :: nat where
  produce: "shard_step B cfg fails cap s (chan_send cap item s)"
| fire: "sh_timer (ss_shard s) = Running \<Longrightarrow>
    shard_step B cfg fails cap s (s\<lparr>ss_shard := (ss_shard s)\<lparr>sh_timer := Fired\<rparr>\<rparr>)"
| shutdown: "\<not> ss_shutdownC s \<Longrightarrow> shard_step B cfg fails cap s (s\<lparr>ss_shutdownC := True\<rparr>)"
| see_shutdown: "ss_pc s = Looping \<Longrightarrow> ss_shutdownC s \<Longrightarrow> shard_step B cfg fails cap s (s\<lparr>ss_pc := Draining\<rparr>)"
| receive: "ss_pc s = Looping \<or> ss_pc s = Draining \<Longrightarrow> chan_receive s = Some (item, s') \<Longrightarrow>
    processItem B cfg fails item (ss_shard s') = Some sh \<Longrightarrow> shard_step B cfg fails cap s (s'\<lparr>ss_shard := sh\<rparr>)"
| timeout: "ss_pc s = Looping \<Longrightarrow> sh_timer (ss_shard s) = Fired \<Longrightarrow>
    shard_step B cfg fails cap s
      (s\<lparr>ss_shard := shard_resetTimer (send_pending B cfg fails ((ss_shard s)\<lparr>sh_timer := Drained\<rparr>))\<rparr>)"
| drained: "ss_pc s = Draining \<Longrightarrow> chan_receive s = None \<Longrightarrow> shard_step B cfg fails cap s (s\<lparr>ss_pc := Closing\<rparr>)"
| finish: "ss_pc s = Closing \<Longrightarrow>
    shard_step B cfg fails cap s (s\<lparr>ss_shard := send_pending B cfg fails (ss_shard s), ss_pc := Returned\<rparr>)"

inductive_cases shard_stepE: "shard_step B cfg fails cap s s'"

inductive shard_reachable ::
  "('b, 't) batch_ops \<Rightarrow> batch_processor_config \<Rightarrow> 't failing \<Rightarrow> nat \<Rightarrow> ('b, 't) shard_sys \<Rightarrow> bool"
  for B :: "('b, 't) batch_ops" and cfg :: batch_processor_config and fails :: "'t failing" and cap :: nat where
  start: "shard_reachable B cfg fails cap (shard_init B cfg)"
| step: "shard_reachable B cfg fails cap s \<Longrightarrow> shard_step B cfg fails cap s s' \<Longrightarrow> shard_reachable B cfg fails cap s'"

section \<open>What a shard relies on and what it promises\<close>

locale batch_signal =
  fixes B :: "('b, 't) batch_ops" and items :: "'t \<Rightarrow> 'i list" and pending :: "'b \<Rightarrow> 'i list" and ok :: "'b \<Rightarrow> bool"
  assumes new_ok: "ok (bo_new B)" "pending (bo_new B) = []"
    and add_ok: "ok b \<Longrightarrow> ok (bo_add B t b)" "ok b \<Longrightarrow> pending (bo_add B t b) = pending b @ items t"
    and count_ok: "ok b \<Longrightarrow> bo_itemCount B b = length (pending b)"
    and split_ok: "ok b \<Longrightarrow> bo_split B m b = (b', n, req) \<Longrightarrow>
      ok b' \<and> pending b = items req @ pending b' \<and> n = length (items req) \<and>
      (if 0 < m \<and> m < length (pending b) then n = m else pending b' = [])"

lemma payload_counts [simp]:
  "LogRecordCount [] = 0" "LogRecordCount (xs @ ys) = LogRecordCount xs + LogRecordCount ys"
  "payload_flat [] = []" "payload_flat (xs @ ys) = payload_flat xs @ payload_flat ys"
  by (simp_all add: LogRecordCount_def payload_flat_def)

lemma SpanCount_eq_LogRecordCount: "SpanCount = LogRecordCount"
  by (simp add: fun_eq_iff SpanCount_def LogRecordCount_def)

lemma metrics_counts [simp]:
  "DataPointCount [] = 0" "DataPointCount (ms @ ns) = DataPointCount ms + DataPointCount ns"
  "metrics_points [] = []" "metrics_points (ms @ ns) = metrics_points ms @ metrics_points ns"
  by (simp_all add: DataPointCount_def metrics_points_def)

lemma no_records: "LogRecordCount ld = 0 \<Longrightarrow> payload_flat ld = []"
  by (simp flip: length_payload_flat)

lemma no_points: "DataPointCount md = 0 \<Longrightarrow> metrics_points md = []"
  by (simp flip: length_points(4) del: length_points)

interpretation logs_signal: batch_signal logs_batch payload_flat "\<lambda>b. payload_flat (bl_logData b)"
  "\<lambda>b. bl_logCount b = LogRecordCount (bl_logData b)"
proof
  fix b b' :: "('re, 'sc, 'x) batchLogs" and m n req
  assume "bl_logCount b = LogRecordCount (bl_logData b)" "bo_split logs_batch m b = (b', n, req)"
  then show "bl_logCount b' = LogRecordCount (bl_logData b') \<and>
      payload_flat (bl_logData b) = payload_flat req @ payload_flat (bl_logData b') \<and>
      n = length (payload_flat req) \<and>
      (if 0 < m \<and> m < length (payload_flat (bl_logData b)) then n = m else payload_flat (bl_logData b') = [])"
    using splitLogs_parts [of m "bl_logData b"]
    by (cases "splitLogs m (bl_logData b)")
      (auto simp: logs_batch_def batchLogs_split_def newBatchLogs_def length_payload_flat
        dest: arg_cong [of _ _ length] split: if_splits)
qed (auto simp: logs_batch_def newBatchLogs_def batchLogs_add_def Let_def length_payload_flat no_records)

interpretation traces_signal: batch_signal traces_batch payload_flat "\<lambda>b. payload_flat (bt_traceData b)"
  "\<lambda>b. bt_spanCount b = SpanCount (bt_traceData b)"
proof
  fix b b' :: "('re, 'sc, 'x) batchTraces" and m n req
  assume "bt_spanCount b = SpanCount (bt_traceData b)" "bo_split traces_batch m b = (b', n, req)"
  then show "bt_spanCount b' = SpanCount (bt_traceData b') \<and>
      payload_flat (bt_traceData b) = payload_flat req @ payload_flat (bt_traceData b') \<and>
      n = length (payload_flat req) \<and>
      (if 0 < m \<and> m < length (payload_flat (bt_traceData b)) then n = m else payload_flat (bt_traceData b') = [])"
    using splitLogs_parts [of m "bt_traceData b"]
    by (cases "splitLogs m (bt_traceData b)")
      (auto simp: traces_batch_def batchTraces_split_def newBatchTraces_def length_payload_flat splitTraces_eq
        SpanCount_eq_LogRecordCount dest: arg_cong [of _ _ length] split: if_splits)
qed (auto simp: traces_batch_def newBatchTraces_def batchTraces_add_def Let_def length_payload_flat no_records
    SpanCount_eq_LogRecordCount)

interpretation metrics_signal: batch_signal
  "metrics_batch :: (('re, 'sc, 'k, 'n, 'h, 'e, 's) batchMetrics, _) batch_ops"
  metrics_points "\<lambda>b. metrics_points (bm_metricData b)" "\<lambda>b. bm_dataPointCount b = DataPointCount (bm_metricData b)"
proof
  fix b b' :: "('re, 'sc, 'k, 'n, 'h, 'e, 's) batchMetrics" and m n req
  assume "bm_dataPointCount b = DataPointCount (bm_metricData b)" "bo_split metrics_batch m b = (b', n, req)"
  then show "bm_dataPointCount b' = DataPointCount (bm_metricData b') \<and>
      metrics_points (bm_metricData b) = metrics_points req @ metrics_points (bm_metricData b') \<and>
      n = length (metrics_points req) \<and>
      (if 0 < m \<and> m < length (metrics_points (bm_metricData b)) then n = m else metrics_points (bm_metricData b') = [])"
    using splitMetrics_parts [of m "bm_metricData b"]
    by (cases "splitMetrics m (bm_metricData b)")
      (auto simp: metrics_batch_def batchMetrics_split_def newMetricsBatch_def
        dest: arg_cong [of _ _ length] split: if_splits)
qed (auto simp: metrics_batch_def newMetricsBatch_def batchMetrics_add_def Let_def no_points)

section \<open>A shard keeps, orders and bounds what it receives\<close>

text \<open>What is recorded of the calls: the sizes of those that did not fail.\<close>

fun reported :: "'t failing \<Rightarrow> ('t \<Rightarrow> nat) \<Rightarrow> (trigger \<times> 't) list \<Rightarrow> (trigger \<times> 't) list \<Rightarrow> (trigger \<times> nat) list" where
  "reported fails sz earlier [] = []"
| "reported fails sz earlier ((t, req) # calls) =
     (if fails earlier req then [] else [(t, sz req)]) @ reported fails sz (earlier @ [(t, req)]) calls"

lemma reported_snoc:
  "reported fails sz earlier (calls @ [(t, req)]) =
   reported fails sz earlier calls @ (if fails (earlier @ calls) req then [] else [(t, sz req)])"
  by (induction fails sz earlier calls rule: reported.induct) auto

definition call_ok :: "batch_processor_config \<Rightarrow> ('t \<Rightarrow> nat) \<Rightarrow> bool \<Rightarrow> trigger \<times> 't \<Rightarrow> bool" where
  "call_ok cfg sz timed = (\<lambda>(t, req).
     0 < sz req \<and>
     (bc_SendBatchMaxSize cfg \<noteq> 0 \<longrightarrow> sz req \<le> unat (bc_SendBatchMaxSize cfg)) \<and>
     (t = triggerBatchSize \<longrightarrow> timed \<longrightarrow>
        min (unat (bc_SendBatchSize cfg)) (if bc_SendBatchMaxSize cfg = 0 then unat (bc_SendBatchSize cfg) else unat (bc_SendBatchMaxSize cfg)) \<le> sz req))"

lemma hasTimer_updates [simp]:
  "hasTimer (sh\<lparr>sh_batch := b\<rparr>) = hasTimer sh" "hasTimer (sh\<lparr>sh_calls := cs\<rparr>) = hasTimer sh"
  "hasTimer (sh\<lparr>sh_recorded := rs\<rparr>) = hasTimer sh"
  by (simp_all add: hasTimer_def)

context batch_signal
begin

definition shard_inv :: "batch_processor_config \<Rightarrow> 't failing \<Rightarrow> 'i list \<Rightarrow> ('b, 't) shard \<Rightarrow> bool" where
  "shard_inv cfg fails all sh \<longleftrightarrow>
     ok (sh_batch sh) \<and>
     concat (map (\<lambda>(t, req). items req) (sh_calls sh)) @ pending (sh_batch sh) = all \<and>
     list_all (call_ok cfg (\<lambda>req. length (items req)) (hasTimer sh)) (sh_calls sh) \<and>
     sh_recorded sh = reported fails (\<lambda>req. length (items req)) [] (sh_calls sh)"

lemma sendItems_inv:
  assumes "shard_inv cfg fails all sh" "0 < bo_itemCount B (sh_batch sh)"
    and "t = triggerBatchSize \<Longrightarrow> batch_full B cfg sh"
  shows "shard_inv cfg fails all (sendItems B cfg fails t sh)"
    and "sh_timer (sendItems B cfg fails t sh) = sh_timer sh"
    and "length (pending (sh_batch (sendItems B cfg fails t sh))) < length (pending (sh_batch sh))"
    and "\<not> (bc_SendBatchMaxSize cfg \<noteq> 0 \<and> unat (bc_SendBatchMaxSize cfg) < length (pending (sh_batch sh))) \<Longrightarrow>
      pending (sh_batch (sendItems B cfg fails t sh)) = []"
proof -
  let ?m = "unat (bc_SendBatchMaxSize cfg)"
  obtain b n req where sp: "bo_split B ?m (sh_batch sh) = (b, n, req)" by (metis prod_cases3)
  have k: "ok (sh_batch sh)" using assms(1) by (simp add: shard_inv_def)
  note s = split_ok [OF k sp] and c = count_ok [OF k]
  have z: "?m = 0 \<longleftrightarrow> bc_SendBatchMaxSize cfg = 0" by (simp add: unat_eq_0)
  have eq: "sendItems B cfg fails t sh = sh\<lparr>sh_batch := b, sh_calls := sh_calls sh @ [(t, req)],
      sh_recorded := sh_recorded sh @ (if fails (sh_calls sh) req then [] else [(t, n)])\<rparr>"
    by (simp add: sendItems_def sp Let_def)
  have len: "length (pending (sh_batch sh)) = length (items req) + length (pending b)" using s by simp
  have call: "call_ok cfg (\<lambda>req. length (items req)) (hasTimer sh) (t, req)"
    using s len assms(2,3) c z by (auto simp: call_ok_def batch_full_def split: if_splits)
  show "shard_inv cfg fails all (sendItems B cfg fails t sh)"
    using assms(1) s call by (auto simp: shard_inv_def eq reported_snoc)
  show "sh_timer (sendItems B cfg fails t sh) = sh_timer sh" by (simp add: eq)
  show "length (pending (sh_batch (sendItems B cfg fails t sh))) < length (pending (sh_batch sh))"
    using call len by (simp add: eq call_ok_def)
  show "pending (sh_batch (sendItems B cfg fails t sh)) = []"
    if "\<not> (bc_SendBatchMaxSize cfg \<noteq> 0 \<and> ?m < length (pending (sh_batch sh)))"
    using that s z by (auto simp: eq split: if_splits)
qed

lemma send_full_inv:
  assumes "shard_inv cfg fails all sh"
  shows "\<exists>sh'. send_full B cfg fails sh = Some sh' \<and> shard_inv cfg fails all sh' \<and> \<not> batch_full B cfg sh' \<and>
    sh_timer sh' = sh_timer sh"
  using assms
proof (induction "length (pending (sh_batch sh))" arbitrary: sh rule: less_induct)
  case less
  show ?case
  proof (cases "batch_full B cfg sh")
    case True
    then have "0 < bo_itemCount B (sh_batch sh)" by (simp add: batch_full_def)
    note r = sendItems_inv [OF less.prems this True]
    from less.hyps [OF r(3) r(1)] r(2) True show ?thesis by (subst send_full.simps) simp
  next
    case False
    with less.prems show ?thesis by (subst send_full.simps) simp
  qed
qed

lemma processItem_inv:
  assumes "shard_inv cfg fails all sh" "sh_timer sh \<noteq> Drained"
  shows "\<exists>sh'. processItem B cfg fails item sh = Some sh' \<and> shard_inv cfg fails (all @ items item) sh' \<and>
    \<not> batch_full B cfg sh' \<and> hasTimer sh' = hasTimer sh \<and> sh_timer sh' \<noteq> Drained"
proof -
  let ?sh = "sh\<lparr>sh_batch := bo_add B item (sh_batch sh)\<rparr>"
  have "shard_inv cfg fails (all @ items item) ?sh" using assms(1) add_ok by (auto simp: shard_inv_def)
  from send_full_inv [OF this] obtain sh' where r: "send_full B cfg fails ?sh = Some sh'"
    "shard_inv cfg fails (all @ items item) sh'" "\<not> batch_full B cfg sh'" "sh_timer sh' = sh_timer sh" by auto
  with assms(2) show ?thesis
    by (cases "sh_timer sh")
      (auto simp: processItem_def Let_def stopTimer_def shard_resetTimer_def hasTimer_def shard_inv_def batch_full_def)
qed

lemma send_pending_inv:
  assumes "shard_inv cfg fails all sh"
  shows "shard_inv cfg fails all (send_pending B cfg fails sh)"
    and "sh_timer (send_pending B cfg fails sh) = sh_timer sh"
    and "BatchProcessor_Validate cfg = None \<Longrightarrow> \<not> batch_full B cfg sh \<Longrightarrow>
      pending (sh_batch (send_pending B cfg fails sh)) = []"
proof -
  have k: "ok (sh_batch sh)" using assms by (simp add: shard_inv_def)
  note r = sendItems_inv [OF assms _, of triggerTimeout, simplified]
  show "shard_inv cfg fails all (send_pending B cfg fails sh)" "sh_timer (send_pending B cfg fails sh) = sh_timer sh"
    using assms r(1,2) by (auto simp: send_pending_def)
  assume valid: "BatchProcessor_Validate cfg = None" and nf: "\<not> batch_full B cfg sh"
  have "unat (bc_SendBatchSize cfg) \<le> unat (bc_SendBatchMaxSize cfg)" if "bc_SendBatchMaxSize cfg \<noteq> 0"
    using valid that by (auto simp: BatchProcessor_Validate_def word_less_nat_alt unat_gt_0 split: if_splits)
  moreover have "length (pending (sh_batch sh)) < unat (bc_SendBatchSize cfg)" if "pending (sh_batch sh) \<noteq> []"
    using nf that count_ok [OF k] by (auto simp: batch_full_def)
  ultimately have "\<not> (bc_SendBatchMaxSize cfg \<noteq> 0 \<and> unat (bc_SendBatchMaxSize cfg) < length (pending (sh_batch sh)))"
    by (cases "pending (sh_batch sh) = []") fastforce+
  with count_ok [OF k] r(4) show "pending (sh_batch (send_pending B cfg fails sh)) = []"
    by (auto simp: send_pending_def)
qed

lemma send_pending_not_full:
  assumes "shard_inv cfg fails all sh" "\<not> batch_full B cfg sh"
  shows "\<not> batch_full B cfg (send_pending B cfg fails sh)"
proof (cases "0 < bo_itemCount B (sh_batch sh)")
  case True
  note r = sendItems_inv [OF assms(1) True, of triggerTimeout, simplified]
  have "bo_itemCount B (sh_batch (sendItems B cfg fails triggerTimeout sh)) \<le> bo_itemCount B (sh_batch sh)"
    using r(1,3) assms(1) by (auto simp: shard_inv_def count_ok)
  with r(2) assms(2) True show ?thesis by (auto simp: send_pending_def batch_full_def hasTimer_def)
qed (simp add: send_pending_def assms(2))

definition sys_inv :: "batch_processor_config \<Rightarrow> 't failing \<Rightarrow> nat \<Rightarrow> ('b, 't) shard_sys \<Rightarrow> bool" where
  "sys_inv cfg fails cap s \<longleftrightarrow>
     (\<exists>handled. shard_inv cfg fails (concat (map items handled)) (ss_shard s) \<and>
        ss_offered s = handled @ ss_newItem s @ ss_blocked s) \<and>
     \<not> batch_full B cfg (ss_shard s) \<and>
     sh_timer (ss_shard s) \<noteq> Drained \<and>
     (hasTimer (ss_shard s) \<longleftrightarrow> bc_Timeout cfg \<noteq> 0 \<and> bc_SendBatchSize cfg \<noteq> 0) \<and>
     length (ss_newItem s) \<le> cap \<and> (ss_blocked s \<noteq> [] \<longrightarrow> length (ss_newItem s) = cap)"

lemma sys_inv_init: "sys_inv cfg fails cap (shard_init B cfg)"
  using new_ok count_ok [OF new_ok(1)]
  by (auto simp: sys_inv_def shard_init_def start_timer_def newShard_def shard_inv_def batch_full_def hasTimer_def)

lemma receive_inv:
  assumes "sys_inv cfg fails cap s" "chan_receive s = Some (item, s')"
  shows "\<exists>sh. processItem B cfg fails item (ss_shard s') = Some sh \<and> sys_inv cfg fails cap (s'\<lparr>ss_shard := sh\<rparr>)"
    and "ss_pc s' = ss_pc s" "ss_offered s' = ss_offered s" "ss_shutdownC s' = ss_shutdownC s"
    and "length (ss_newItem s' @ ss_blocked s') < length (ss_newItem s @ ss_blocked s)"
proof -
  obtain rest where n: "ss_newItem s = item # rest"
    and s': "s' = s\<lparr>ss_newItem := rest @ take 1 (ss_blocked s), ss_blocked := drop 1 (ss_blocked s)\<rparr>"
    using assms(2) by (auto simp: chan_receive_def split: list.splits)
  obtain handled where h: "shard_inv cfg fails (concat (map items handled)) (ss_shard s)"
    "ss_offered s = handled @ ss_newItem s @ ss_blocked s" using assms(1) by (auto simp: sys_inv_def)
  have t: "sh_timer (ss_shard s) \<noteq> Drained" using assms(1) by (simp add: sys_inv_def)
  from processItem_inv [OF h(1) t, of item] obtain sh where p: "processItem B cfg fails item (ss_shard s) = Some sh"
    "shard_inv cfg fails (concat (map items handled) @ items item) sh"
    "\<not> batch_full B cfg sh" "hasTimer sh = hasTimer (ss_shard s)" "sh_timer sh \<noteq> Drained" by blast
  have "\<exists>handled. shard_inv cfg fails (concat (map items handled)) sh \<and>
      ss_offered s = handled @ (rest @ take 1 (ss_blocked s)) @ drop 1 (ss_blocked s)"
    using p(2) by (intro exI [of _ "handled @ [item]"]) (simp add: h(2) n)
  moreover have "length (rest @ take 1 (ss_blocked s)) \<le> cap \<and>
      (drop 1 (ss_blocked s) \<noteq> [] \<longrightarrow> length (rest @ take 1 (ss_blocked s)) = cap)"
    using assms(1) n by (cases "ss_blocked s") (auto simp: sys_inv_def)
  ultimately have "sys_inv cfg fails cap (s'\<lparr>ss_shard := sh\<rparr>)"
    using assms(1) p(3-5) by (auto simp: sys_inv_def s')
  with p(1) show "\<exists>sh. processItem B cfg fails item (ss_shard s') = Some sh \<and> sys_inv cfg fails cap (s'\<lparr>ss_shard := sh\<rparr>)"
    by (auto simp: s')
  show "ss_pc s' = ss_pc s" "ss_offered s' = ss_offered s" "ss_shutdownC s' = ss_shutdownC s"
    "length (ss_newItem s' @ ss_blocked s') < length (ss_newItem s @ ss_blocked s)"
    by (simp_all add: s' n)
qed

lemma sys_inv_pc [simp]: "sys_inv cfg fails cap (s\<lparr>ss_pc := pc\<rparr>) = sys_inv cfg fails cap s"
  by (simp add: sys_inv_def)

lemma pending_sent_inv:
  assumes "sys_inv cfg fails cap s"
    and "sh = shard_resetTimer (send_pending B cfg fails ((ss_shard s)\<lparr>sh_timer := Drained\<rparr>)) \<and> sh_timer (ss_shard s) = Fired \<or>
      sh = send_pending B cfg fails (ss_shard s)"
  shows "sys_inv cfg fails cap (s\<lparr>ss_shard := sh\<rparr>)"
proof -
  obtain handled where h: "shard_inv cfg fails (concat (map items handled)) (ss_shard s)"
    "ss_offered s = handled @ ss_newItem s @ ss_blocked s" using assms(1) by (auto simp: sys_inv_def)
  have nf: "\<not> batch_full B cfg (ss_shard s)" using assms(1) by (simp add: sys_inv_def)
  let ?d = "(ss_shard s)\<lparr>sh_timer := Drained\<rparr>"
  have "shard_inv cfg fails (concat (map items handled)) sh \<and> \<not> batch_full B cfg sh \<and>
      hasTimer sh = hasTimer (ss_shard s) \<and> sh_timer sh \<noteq> Drained"
    using assms(2)
  proof
    assume a: "sh = shard_resetTimer (send_pending B cfg fails ?d) \<and> sh_timer (ss_shard s) = Fired"
    then have "shard_inv cfg fails (concat (map items handled)) ?d" "\<not> batch_full B cfg ?d"
      using h(1) nf by (simp_all add: shard_inv_def batch_full_def hasTimer_def)
    from send_pending_inv(1,2) [OF this(1)] send_pending_not_full [OF this] a show ?thesis
      by (auto simp: shard_resetTimer_def hasTimer_def shard_inv_def batch_full_def)
  next
    assume "sh = send_pending B cfg fails (ss_shard s)"
    with send_pending_inv(1,2) [OF h(1)] send_pending_not_full [OF h(1) nf] assms(1) show ?thesis
      by (auto simp: hasTimer_def sys_inv_def)
  qed
  with assms(1) h(2) show ?thesis by (auto simp: sys_inv_def)
qed

lemma sys_inv_step:
  assumes "sys_inv cfg fails cap s" "shard_step B cfg fails cap s s'" "0 < cap"
  shows "sys_inv cfg fails cap s'"
  using assms(2)
proof cases
  case (produce item)
  then show ?thesis using assms(1,3) by (auto simp: sys_inv_def chan_send_def Let_def)
next
  case fire
  then show ?thesis using assms(1) by (auto simp: sys_inv_def shard_inv_def batch_full_def hasTimer_def)
next
  case (receive item s1 sh)
  with receive_inv [OF assms(1) receive(3)] show ?thesis by auto
next
  case timeout
  with pending_sent_inv [OF assms(1)] show ?thesis by blast
next
  case finish
  with pending_sent_inv [OF assms(1)] show ?thesis by simp
qed (use assms(1) in \<open>auto simp: sys_inv_def\<close>)

lemma reachable_inv:
  "shard_reachable B cfg fails cap s \<Longrightarrow> 0 < cap \<Longrightarrow> sys_inv cfg fails cap s"
  by (induction rule: shard_reachable.induct) (auto intro: sys_inv_init sys_inv_step)

lemma reachable_conserves:
  assumes "shard_reachable B cfg fails cap s" "0 < cap"
  shows "concat (map (\<lambda>(t, req). items req) (sh_calls (ss_shard s))) @ pending (sh_batch (ss_shard s)) @
      concat (map items (ss_newItem s @ ss_blocked s)) = concat (map items (ss_offered s))"
  using reachable_inv [OF assms] by (auto simp: sys_inv_def shard_inv_def)

lemma reachable_bounds:
  assumes "shard_reachable B cfg fails cap s" "0 < cap"
  shows "list_all (call_ok cfg (\<lambda>req. length (items req)) (bc_Timeout cfg \<noteq> 0 \<and> bc_SendBatchSize cfg \<noteq> 0))
      (sh_calls (ss_shard s))"
    and "sh_recorded (ss_shard s) = reported fails (\<lambda>req. length (items req)) [] (sh_calls (ss_shard s))"
    and "length (pending (sh_batch (ss_shard s))) <
      (if bc_Timeout cfg \<noteq> 0 \<and> bc_SendBatchSize cfg \<noteq> 0 then unat (bc_SendBatchSize cfg) else 1)"
proof -
  note i = reachable_inv [OF assms]
  show "list_all (call_ok cfg (\<lambda>req. length (items req)) (bc_Timeout cfg \<noteq> 0 \<and> bc_SendBatchSize cfg \<noteq> 0))
      (sh_calls (ss_shard s))"
    "sh_recorded (ss_shard s) = reported fails (\<lambda>req. length (items req)) [] (sh_calls (ss_shard s))"
    using i by (auto simp: sys_inv_def shard_inv_def)
  have "bo_itemCount B (sh_batch (ss_shard s)) = length (pending (sh_batch (ss_shard s)))"
    using i count_ok by (auto simp: sys_inv_def shard_inv_def)
  with i show "length (pending (sh_batch (ss_shard s))) <
      (if bc_Timeout cfg \<noteq> 0 \<and> bc_SendBatchSize cfg \<noteq> 0 then unat (bc_SendBatchSize cfg) else 1)"
    by (auto simp: sys_inv_def batch_full_def not_le unat_gt_0)
qed

lemma no_channel:
  "sys_inv cfg fails cap s \<Longrightarrow> 0 < cap \<Longrightarrow> chan_receive s = None \<Longrightarrow> ss_newItem s = [] \<and> ss_blocked s = []"
  by (auto simp: chan_receive_def sys_inv_def split: list.splits)

definition handed :: "('b, 't) shard_sys \<Rightarrow> 'i list" where
  "handed s = concat (map (\<lambda>(t, req). items req) (sh_calls (ss_shard s)))"

definition received :: "('b, 't) shard_sys \<Rightarrow> 'i list" where
  "received s = handed s @ pending (sh_batch (ss_shard s))"

lemma received_offered:
  "sys_inv cfg fails cap s \<Longrightarrow>
   concat (map items (ss_offered s)) = received s @ concat (map items (ss_newItem s @ ss_blocked s))"
  by (auto simp: sys_inv_def shard_inv_def received_def handed_def)

lemma finish_received:
  assumes "sys_inv cfg fails cap s" "BatchProcessor_Validate cfg = None" "ss_shard s' = send_pending B cfg fails (ss_shard s)"
  shows "pending (sh_batch (ss_shard s')) = []" "handed s' = received s"
proof -
  obtain all where h: "shard_inv cfg fails all (ss_shard s)" using assms(1) by (auto simp: sys_inv_def)
  have "\<not> batch_full B cfg (ss_shard s)" using assms(1) by (simp add: sys_inv_def)
  from send_pending_inv(3) [OF h assms(2) this] show p: "pending (sh_batch (ss_shard s')) = []" by (simp add: assms(3))
  with send_pending_inv(1) [OF h] h show "handed s' = received s"
    by (simp add: shard_inv_def received_def handed_def assms(3))
qed

lemma closes:
  assumes "sys_inv cfg fails cap s" "0 < cap" "BatchProcessor_Validate cfg = None" "ss_pc s = Draining" "chan_receive s = None"
  shows "\<exists>s'. (shard_step B cfg fails cap)\<^sup>*\<^sup>* s s' \<and> ss_pc s' = Returned \<and> ss_offered s' = ss_offered s \<and>
    handed s' = concat (map items (ss_offered s))"
proof -
  let ?c = "s\<lparr>ss_pc := Closing\<rparr>"
  let ?s' = "?c\<lparr>ss_shard := send_pending B cfg fails (ss_shard ?c), ss_pc := Returned\<rparr>"
  have inv: "sys_inv cfg fails cap ?c" using assms(1) by simp
  have "shard_step B cfg fails cap s ?c" by (rule shard_step.drained [OF assms(4,5)])
  moreover have "shard_step B cfg fails cap ?c ?s'" by (rule shard_step.finish) simp
  ultimately have st: "(shard_step B cfg fails cap)\<^sup>*\<^sup>* s ?s'" by (meson converse_rtranclp_into_rtranclp r_into_rtranclp)
  have "handed ?s' = received ?c" by (rule finish_received(2) [OF inv assms(3)]) simp
  then have "handed ?s' = concat (map items (ss_offered s))"
    using received_offered [OF inv] no_channel [OF assms(1,2,5)] by simp
  then show ?thesis using st by (intro exI [of _ ?s']) simp
qed

lemma drains:
  assumes "sys_inv cfg fails cap s" "0 < cap" "BatchProcessor_Validate cfg = None" "ss_pc s = Draining"
  shows "\<exists>s'. (shard_step B cfg fails cap)\<^sup>*\<^sup>* s s' \<and> ss_pc s' = Returned \<and> ss_offered s' = ss_offered s \<and>
    handed s' = concat (map items (ss_offered s))"
  using assms(1,4)
proof (induction "length (ss_newItem s @ ss_blocked s)" arbitrary: s rule: less_induct)
  case less
  show ?case
  proof (cases "chan_receive s")
    case None
    from closes [OF less.prems(1) assms(2,3) less.prems(2) None] show ?thesis .
  next
    case (Some r)
    obtain item s1 where r: "chan_receive s = Some (item, s1)" using Some by (cases r) auto
    note rec = receive_inv [OF less.prems(1) r]
    from rec(1) obtain sh where p: "processItem B cfg fails item (ss_shard s1) = Some sh"
      "sys_inv cfg fails cap (s1\<lparr>ss_shard := sh\<rparr>)" by blast
    have st: "shard_step B cfg fails cap s (s1\<lparr>ss_shard := sh\<rparr>)"
      by (rule shard_step.receive [OF _ r p(1)]) (simp add: less.prems(2))
    have "length (ss_newItem (s1\<lparr>ss_shard := sh\<rparr>) @ ss_blocked (s1\<lparr>ss_shard := sh\<rparr>)) < length (ss_newItem s @ ss_blocked s)"
      using rec(5) by simp
    from less.hyps [OF this p(2)] less.prems(2) rec(2,3) obtain s' where
      "(shard_step B cfg fails cap)\<^sup>*\<^sup>* (s1\<lparr>ss_shard := sh\<rparr>) s'" "ss_pc s' = Returned" "ss_offered s' = ss_offered s"
      "handed s' = concat (map items (ss_offered s))" by auto
    with st show ?thesis by (blast intro: converse_rtranclp_into_rtranclp)
  qed
qed

lemma shutdown_completes:
  assumes "shard_reachable B cfg fails cap s" "0 < cap" "BatchProcessor_Validate cfg = None"
    and "ss_shutdownC s" "ss_pc s = Looping \<or> ss_pc s = Draining"
  shows "\<exists>s'. (shard_step B cfg fails cap)\<^sup>*\<^sup>* s s' \<and> ss_pc s' = Returned \<and> ss_offered s' = ss_offered s \<and>
    handed s' = concat (map items (ss_offered s))"
  using assms(5)
proof
  assume "ss_pc s = Looping"
  note st = shard_step.see_shutdown [of s B cfg fails cap, OF this assms(4)]
  have "sys_inv cfg fails cap (s\<lparr>ss_pc := Draining\<rparr>)" using reachable_inv [OF assms(1,2)] by simp
  from drains [OF this assms(2,3)] st show ?thesis
    by (auto intro: converse_rtranclp_into_rtranclp)
next
  assume "ss_pc s = Draining"
  from drains [OF reachable_inv [OF assms(1,2)] assms(2,3) this] show ?thesis .
qed

text \<open>
  What was sent while the loop ran stays ahead of everything else: it is among the items sent as
  long as the loop runs, and among the received records afterwards. A goroutine that has returned
  keeps no pending records.
\<close>

definition follows :: "'t list \<Rightarrow> ('b, 't) shard_sys \<Rightarrow> bool" where
  "follows early s \<longleftrightarrow>
     (if ss_pc s = Looping \<or> ss_pc s = Draining then \<exists>late. ss_offered s = early @ late
      else \<exists>late. received s = concat (map items early) @ late) \<and>
     (ss_pc s = Returned \<longrightarrow> pending (sh_batch (ss_shard s)) = [])"

lemma follows_step:
  assumes inv: "sys_inv cfg fails cap s" and f: "follows early s" and st: "shard_step B cfg fails cap s s'"
    and cap: "0 < cap" and valid: "BatchProcessor_Validate cfg = None"
  shows "follows early s'"
  using st
proof cases
  case (produce item)
  then show ?thesis using f
    by (auto simp: follows_def chan_send_def Let_def received_def handed_def)
next
  case (receive item s1 sh)
  note r = receive_inv(2,3) [OF inv receive(3)]
  from f receive(2) obtain late where "ss_offered s = early @ late" by (auto simp: follows_def)
  then show ?thesis using receive(1,2) r by (auto simp: follows_def)
next
  case drained
  from f drained(2) obtain late where "ss_offered s = early @ late" by (auto simp: follows_def)
  then have "received s = concat (map items early) @ concat (map items late)"
    using received_offered [OF inv] no_channel [OF inv cap drained(3)] by simp
  then show ?thesis using drained(1) by (auto simp: follows_def received_def handed_def)
next
  case finish
  have sh: "ss_shard s' = send_pending B cfg fails (ss_shard s)" using finish(1) by simp
  note r = finish_received [OF inv valid sh]
  from f finish(2) obtain late where "received s = concat (map items early) @ late" by (auto simp: follows_def)
  then have "received s' = concat (map items early) @ late" using r by (simp add: received_def)
  then show ?thesis using r(1) finish(1) by (auto simp: follows_def)
qed (use f in \<open>auto simp: follows_def received_def handed_def split: if_splits\<close>)

lemma follows_steps:
  assumes "(shard_step B cfg fails cap)\<^sup>*\<^sup>* s s'" "sys_inv cfg fails cap s" "follows early s"
    and "0 < cap" "BatchProcessor_Validate cfg = None"
  shows "follows early s' \<and> sys_inv cfg fails cap s'"
  using assms(1)
proof (induction rule: rtranclp_induct)
  case (step t u)
  then show ?case using follows_step [OF _ _ step(2) assms(4,5)] sys_inv_step [OF _ step(2) assms(4)] by blast
qed (use assms(2,3) in blast)

lemma returned_handed:
  assumes "shard_reachable B cfg fails cap s" "0 < cap" "BatchProcessor_Validate cfg = None"
    and "ss_pc s = Looping \<or> ss_pc s = Draining" and run: "(shard_step B cfg fails cap)\<^sup>*\<^sup>* s s'" "ss_pc s' = Returned"
  shows "\<exists>late. handed s' = concat (map items (ss_offered s)) @ late \<and>
    concat (map items (ss_offered s')) = handed s' @ concat (map items (ss_newItem s' @ ss_blocked s'))"
proof -
  have "follows (ss_offered s) s" using assms(4) by (auto simp: follows_def)
  from follows_steps [OF run(1) reachable_inv [OF assms(1,2)] this assms(2,3)]
  have f: "follows (ss_offered s) s'" and inv: "sys_inv cfg fails cap s'" by auto
  from f run(2) obtain late where "received s' = concat (map items (ss_offered s)) @ late"
    "pending (sh_batch (ss_shard s')) = []" by (auto simp: follows_def)
  with received_offered [OF inv] show ?thesis by (simp add: received_def)
qed

lemma never_stuck:
  assumes "shard_reachable B cfg fails cap s" "0 < cap" "chan_receive s = Some (item, s')"
  shows "processItem B cfg fails item (ss_shard s') \<noteq> None"
  using receive_inv(1) [OF reachable_inv [OF assms(1,2)] assms(3)] by auto

end

section \<open>The three signals\<close>

definition shard_promises ::
  "batch_processor_config \<Rightarrow> 't failing \<Rightarrow> ('t \<Rightarrow> 'i list) \<Rightarrow> ('b \<Rightarrow> 'i list) \<Rightarrow> ('b, 't) shard_sys \<Rightarrow> bool" where
  "shard_promises cfg fails items pending s \<longleftrightarrow>
     (let sh = ss_shard s; timed = (bc_Timeout cfg \<noteq> 0 \<and> bc_SendBatchSize cfg \<noteq> 0)
      in concat (map (\<lambda>(t, req). items req) (sh_calls sh)) @ pending (sh_batch sh) @
           concat (map items (ss_newItem s @ ss_blocked s)) = concat (map items (ss_offered s)) \<and>
         list_all (call_ok cfg (\<lambda>req. length (items req)) timed) (sh_calls sh) \<and>
         sh_recorded sh = reported fails (\<lambda>req. length (items req)) [] (sh_calls sh) \<and>
         length (pending (sh_batch sh)) < (if timed then unat (bc_SendBatchSize cfg) else 1))"

definition shard_stops ::
  "('b, 't) batch_ops \<Rightarrow> batch_processor_config \<Rightarrow> 't failing \<Rightarrow> nat \<Rightarrow> ('t \<Rightarrow> 'i list) \<Rightarrow> ('b, 't) shard_sys \<Rightarrow> bool" where
  "shard_stops B cfg fails cap items s \<longleftrightarrow>
     (\<exists>s'. (shard_step B cfg fails cap)\<^sup>*\<^sup>* s s' \<and> ss_pc s' = Returned \<and> ss_offered s' = ss_offered s \<and>
        concat (map (\<lambda>(t, req). items req) (sh_calls (ss_shard s'))) = concat (map items (ss_offered s))) \<and>
     (\<forall>s'. (shard_step B cfg fails cap)\<^sup>*\<^sup>* s s' \<longrightarrow> ss_pc s' = Returned \<longrightarrow>
        (\<exists>late. concat (map (\<lambda>(t, req). items req) (sh_calls (ss_shard s'))) = concat (map items (ss_offered s)) @ late \<and>
           concat (map items (ss_offered s')) =
             concat (map (\<lambda>(t, req). items req) (sh_calls (ss_shard s'))) @
             concat (map items (ss_newItem s' @ ss_blocked s')))) \<and>
     (\<forall>s1 item s2. (shard_step B cfg fails cap)\<^sup>*\<^sup>* s s1 \<longrightarrow> chan_receive s1 = Some (item, s2) \<longrightarrow>
        processItem B cfg fails item (ss_shard s2) \<noteq> None)"

lemma reachable_steps:
  "(shard_step B cfg fails cap)\<^sup>*\<^sup>* s s' \<Longrightarrow> shard_reachable B cfg fails cap s \<Longrightarrow> shard_reachable B cfg fails cap s'"
  by (induction rule: rtranclp_induct) (auto intro: shard_reachable.step)

context batch_signal
begin

lemma promises: "shard_reachable B cfg fails cap s \<Longrightarrow> 0 < cap \<Longrightarrow> shard_promises cfg fails items pending s"
  unfolding shard_promises_def Let_def using reachable_conserves reachable_bounds by blast

lemma stops:
  "shard_reachable B cfg fails cap s \<Longrightarrow> 0 < cap \<Longrightarrow> BatchProcessor_Validate cfg = None \<Longrightarrow>
   ss_shutdownC s \<Longrightarrow> ss_pc s = Looping \<or> ss_pc s = Draining \<Longrightarrow> shard_stops B cfg fails cap items s"
  unfolding shard_stops_def
  by (intro conjI allI impI; (rule shutdown_completes [unfolded handed_def] returned_handed [unfolded handed_def]
      never_stuck [OF reachable_steps])?; assumption)

end

text \<open>
  C38. The batch processor neither loses, duplicates nor reorders data, for logs, traces and metrics:
  in every reachable state of a shard, the records of the requests handed to the next consumer, of
  the pending batch and of the items still in the channel are, in this order, those of the items
  that were sent to the shard. No request is empty or above \<open>send_batch_max_size\<close>; with a timer, a
  request sent because of its size reaches \<open>send_batch_size\<close> (or the maximum, if that is smaller),
  and less than \<open>send_batch_size\<close> records are left pending; without a timer nothing is. Only
  requests that did not fail are recorded. The data of a request that failed is not sent again.
\<close>

theorem batch_processor_batches:
  assumes "0 < cap"
  shows "(shard_reachable logs_batch cfg fails cap s \<longrightarrow>
      shard_promises cfg fails payload_flat (\<lambda>b. payload_flat (bl_logData b)) s) \<and>
    (shard_reachable traces_batch cfg fails cap s1 \<longrightarrow>
      shard_promises cfg fails payload_flat (\<lambda>b. payload_flat (bt_traceData b)) s1) \<and>
    (shard_reachable metrics_batch cfg fails' cap s2 \<longrightarrow>
      shard_promises cfg fails' metrics_points (\<lambda>b. metrics_points (bm_metricData b)) s2)"
  using assms by (intro conjI impI) (rule logs_signal.promises traces_signal.promises metrics_signal.promises; assumption)+

text \<open>
  C39. A shard stops cleanly, for logs, traces and metrics. Take any state in which the processor has
  been shut down and the goroutine has not yet found its channel empty for the last time. Then it
  can run to its end without a further item arriving, having handed the records of everything sent
  to the shard to the next consumer. However it runs on, with items still arriving, when it has
  returned the records of everything sent to the shard by that state were handed over, in order
  and before any later ones, and nothing is left in the pending batch: what was sent is what was
  handed over and then what is still in the channel. So only an item that arrives while the last
  request is on its way, or later, stays in the channel. And the goroutine cannot block on the way,
  because processing an item ends and never waits for the timer. The configuration is one that
  \<open>Validate\<close> accepts: otherwise the last batch could be larger than the maximum and be cut.
\<close>

theorem batch_processor_stops:
  assumes "0 < cap" "BatchProcessor_Validate cfg = None"
  shows "(shard_reachable logs_batch cfg fails cap s \<longrightarrow> ss_shutdownC s \<longrightarrow> ss_pc s = Looping \<or> ss_pc s = Draining \<longrightarrow>
      shard_stops logs_batch cfg fails cap payload_flat s) \<and>
    (shard_reachable traces_batch cfg fails cap s1 \<longrightarrow> ss_shutdownC s1 \<longrightarrow> ss_pc s1 = Looping \<or> ss_pc s1 = Draining \<longrightarrow>
      shard_stops traces_batch cfg fails cap payload_flat s1) \<and>
    (shard_reachable metrics_batch cfg fails' cap s2 \<longrightarrow> ss_shutdownC s2 \<longrightarrow> ss_pc s2 = Looping \<or> ss_pc s2 = Draining \<longrightarrow>
      shard_stops metrics_batch cfg fails' cap metrics_points s2)"
  using assms
  by (intro conjI impI) (rule logs_signal.stops traces_signal.stops metrics_signal.stops; assumption)+

text \<open>A run on logs: three records arrive at once, two are sent, the third with the shutdown.\<close>

definition demo_bp_cfg :: batch_processor_config where
  "demo_bp_cfg = createDefaultConfig\<lparr>bc_SendBatchSize := 2, bc_SendBatchMaxSize := 2\<rparr>"

definition demo_bp_logs :: "nat list \<Rightarrow> (nat, nat, nat) payload" where
  "demo_bp_logs xs = [\<lparr>rd_resource = 0, rd_schema = [], rd_scopes = [\<lparr>sd_scope = 0, sd_schema = [], sd_items = xs\<rparr>]\<rparr>]"

definition demo_bp_shard :: "((nat, nat, nat) batchLogs, (nat, nat, nat) payload) shard" where
  "demo_bp_shard = \<lparr>sh_timer = Running, sh_batch = \<lparr>bl_logData = demo_bp_logs [3], bl_logCount = 1\<rparr>,
     sh_calls = [(triggerBatchSize, demo_bp_logs [1, 2])], sh_recorded = [(triggerBatchSize, 2)]\<rparr>"

lemma send_full_unfold:
  "batch_full B cfg sh \<Longrightarrow> send_full B cfg fails sh = send_full B cfg fails (sendItems B cfg fails triggerBatchSize sh)"
  "\<not> batch_full B cfg sh \<Longrightarrow> send_full B cfg fails sh = Some sh"
  by (subst send_full.simps, simp)+

lemma demo_bp_process:
  "processItem logs_batch demo_bp_cfg (\<lambda>_ _. False) (demo_bp_logs [1, 2, 3]) (start_timer demo_bp_cfg (newShard logs_batch))
   = Some demo_bp_shard"
  by (simp add: processItem_def send_full_unfold batch_full_def sendItems_def logs_batch_def batchLogs_add_def
      batchLogs_split_def splitLogs_def splitLogs_scopes_def splitLogs_records_def resourceLRC_def LogRecordCount_def
      start_timer_def newShard_def newBatchLogs_def demo_bp_cfg_def createDefaultConfig_def demo_bp_logs_def
      demo_bp_shard_def stopTimer_def shard_resetTimer_def hasTimer_def)

definition demo_bp_received :: "((nat, nat, nat) batchLogs, (nat, nat, nat) payload) shard_sys" where
  "demo_bp_received = \<lparr>ss_shard = demo_bp_shard, ss_newItem = [], ss_blocked = [], ss_pc = Looping,
     ss_shutdownC = False, ss_offered = [demo_bp_logs [1, 2, 3]]\<rparr>"

lemma demo_bp_reachable: "shard_reachable logs_batch demo_bp_cfg (\<lambda>_ _. False) 1 demo_bp_received"
proof -
  let ?i = "shard_init logs_batch demo_bp_cfg" and ?t = "demo_bp_logs [1, 2, 3]"
  have r1: "shard_reachable logs_batch demo_bp_cfg (\<lambda>_ _. False) 1 (chan_send 1 ?t ?i)"
    by (rule shard_reachable.step [OF shard_reachable.start shard_step.produce])
  let ?s = "(chan_send 1 ?t ?i)\<lparr>ss_newItem := [], ss_blocked := []\<rparr>"
  have "chan_receive (chan_send 1 ?t ?i) = Some (?t, ?s)"
    by (simp add: chan_receive_def chan_send_def shard_init_def Let_def)
  moreover have "processItem logs_batch demo_bp_cfg (\<lambda>_ _. False) ?t (ss_shard ?s) = Some demo_bp_shard"
    using demo_bp_process by (simp add: shard_init_def chan_send_def Let_def)
  moreover have "ss_pc (chan_send 1 ?t ?i) = Looping \<or> ss_pc (chan_send 1 ?t ?i) = Draining"
    by (simp add: shard_init_def chan_send_def Let_def)
  ultimately have "shard_reachable logs_batch demo_bp_cfg (\<lambda>_ _. False) 1 (?s\<lparr>ss_shard := demo_bp_shard\<rparr>)"
    using shard_reachable.step [OF r1 shard_step.receive] by blast
  moreover have "?s\<lparr>ss_shard := demo_bp_shard\<rparr> = demo_bp_received"
    by (simp add: demo_bp_received_def chan_send_def shard_init_def Let_def)
  ultimately show ?thesis by simp
qed

lemma demo_bp_valid: "BatchProcessor_Validate demo_bp_cfg = None"
  by (simp add: BatchProcessor_Validate_def demo_bp_cfg_def createDefaultConfig_def)

text \<open>The three signals at the concrete state: for traces and metrics the initial one.\<close>

lemma batch_processor_batches_witness:
  "shard_promises demo_bp_cfg (\<lambda>_ _. False) payload_flat (\<lambda>b. payload_flat (bl_logData b)) demo_bp_received \<and>
   shard_promises demo_bp_cfg (\<lambda>_ _. False) payload_flat (\<lambda>b. payload_flat (bt_traceData b))
     (shard_init (traces_batch :: ((nat, nat, nat) batchTraces, _) batch_ops) demo_bp_cfg)"
  using batch_processor_batches [OF zero_less_one, of demo_bp_cfg "\<lambda>_ _. False" demo_bp_received
      "shard_init (traces_batch :: ((nat, nat, nat) batchTraces, _) batch_ops) demo_bp_cfg"]
    demo_bp_reachable shard_reachable.start [of traces_batch demo_bp_cfg "\<lambda>_ _. False" 1]
  by blast

lemma batch_processor_stops_witness:
  "shard_stops logs_batch demo_bp_cfg (\<lambda>_ _. False) 1 payload_flat (demo_bp_received\<lparr>ss_shutdownC := True\<rparr>)"
proof -
  have "shard_step logs_batch demo_bp_cfg (\<lambda>_ _. False) 1 demo_bp_received (demo_bp_received\<lparr>ss_shutdownC := True\<rparr>)"
    by (rule shard_step.shutdown) (simp add: demo_bp_received_def)
  note shard_reachable.step [OF demo_bp_reachable this]
  with batch_processor_stops [OF zero_less_one demo_bp_valid, of "\<lambda>_ _. False"
      "demo_bp_received\<lparr>ss_shutdownC := True\<rparr>"]
  have "ss_shutdownC (demo_bp_received\<lparr>ss_shutdownC := True\<rparr>) \<longrightarrow>
      ss_pc (demo_bp_received\<lparr>ss_shutdownC := True\<rparr>) = Looping \<or>
      ss_pc (demo_bp_received\<lparr>ss_shutdownC := True\<rparr>) = Draining \<longrightarrow> ?thesis" by blast
  then show ?thesis by (simp add: demo_bp_received_def)
qed

text \<open>
  An item that arrives during the last request stays in the channel: its send succeeds, the
  goroutine returns, and nobody receives it.
\<close>

lemma late_item_stays:
  "\<exists>s. shard_reachable logs_batch demo_bp_cfg (\<lambda>_ _. False) 1 s \<and> ss_pc s = Returned \<and>
     ss_newItem s = [demo_bp_logs [4]] \<and> ss_blocked s = []"
proof -
  let ?sys = "shard_step (logs_batch :: ((nat, nat, nat) batchLogs, _) batch_ops) demo_bp_cfg (\<lambda>_ _. False) 1"
  note st = shard_reachable.step
  let ?s1 = "demo_bp_received\<lparr>ss_shutdownC := True\<rparr>" 
  have "?sys demo_bp_received ?s1" by (rule shard_step.shutdown) (simp add: demo_bp_received_def)
  from st [OF demo_bp_reachable this] have r1: "shard_reachable logs_batch demo_bp_cfg (\<lambda>_ _. False) 1 ?s1" .
  have "?sys ?s1 (?s1\<lparr>ss_pc := Draining\<rparr>)" by (rule shard_step.see_shutdown) (simp_all add: demo_bp_received_def)
  from st [OF r1 this] have r2: "shard_reachable logs_batch demo_bp_cfg (\<lambda>_ _. False) 1 (?s1\<lparr>ss_pc := Draining\<rparr>)" .
  let ?c = "?s1\<lparr>ss_pc := Draining\<rparr>\<lparr>ss_pc := Closing\<rparr>"
  have "?sys (?s1\<lparr>ss_pc := Draining\<rparr>) ?c"
    by (rule shard_step.drained) (simp_all add: demo_bp_received_def chan_receive_def)
  from st [OF st [OF r2 this] shard_step.produce]
  have r3: "shard_reachable logs_batch demo_bp_cfg (\<lambda>_ _. False) 1 (chan_send 1 (demo_bp_logs [4]) ?c)" .
  have "ss_pc (chan_send 1 (demo_bp_logs [4]) ?c) = Closing" by (simp add: chan_send_def Let_def)
  from st [OF r3 shard_step.finish [OF this]] show ?thesis
    by (intro exI conjI) (assumption, simp_all add: chan_send_def Let_def demo_bp_received_def)
qed

end
