(* ===== verification/MultiShard.thy ===== *)
theory MultiShard
  imports BatchProcessor "HOL-Library.List_Lexorder"
begin

text \<open>
  The batch processor with metadata keys: \<open>multiShardBatcher\<close> of
  processor/batchprocessor/batch\_processor.go, which keeps one shard for every combination of the
  values the clients send under the configured keys. Consumers run concurrently: the first lookup in
  the \<open>sync.Map\<close> takes no lock, the section that creates a shard holds the mutex. Storing, starting
  and counting a new shard are one step; the lookup without the lock can see the stored shard before
  its goroutine is started, which does not change the shard a consumer gets.

  \<open>attribute.NewSet\<close> is code outside the repository; it is the argument \<open>newSet\<close>, and what is used
  of it is that sets made of the same keys in the same order are equal only if their values are.
\<close>

section \<open>The batcher\<close>

datatype attribute = attribute_String "byte list" "byte list" | attribute_StringSlice "byte list" "byte list list"

definition consume_attr :: "client_metadata \<Rightarrow> byte list \<Rightarrow> attribute" where
  "consume_attr md k =
     (let vs = Metadata_Get md k
      in if length vs = 1 then attribute_String k (vs ! 0) else attribute_StringSlice k vs)"

definition consume_attrs :: "byte list list \<Rightarrow> client_metadata \<Rightarrow> attribute list" where
  "consume_attrs metadataKeys md = map (consume_attr md) metadataKeys"

definition shard_metadata :: "byte list list \<Rightarrow> client_metadata \<Rightarrow> client_metadata" where
  "shard_metadata metadataKeys md = NewMetadata metadataKeys (\<lambda>k. Some (Metadata_Get md k))"

text \<open>
  Shards are numbered in the order of their creation; \<open>mb_shards\<close> holds the metadata of the context
  each one exports with, \<open>mb_started\<close> the shards whose goroutine was started.
\<close>

record 'a multi_batcher =
  mb_batchers :: "'a \<rightharpoonup> nat"
  mb_shards :: "client_metadata list"
  mb_started :: "nat list"
  mb_size :: nat

definition new_multi_batcher :: "'a multi_batcher" where
  "new_multi_batcher = \<lparr>mb_batchers = Map.empty, mb_shards = [], mb_started = [], mb_size = 0\<rparr>"

datatype batcher_kind = singleShardBatcher | multiShardBatcher "byte list list" nat

definition newBatchProcessor :: "batch_processor_config \<Rightarrow> batcher_kind" where
  "newBatchProcessor cfg =
     (let mks = sort (map ToLower (bc_MetadataKeys cfg))
      in if mks = [] then singleShardBatcher
         else multiShardBatcher mks (unat (bc_MetadataCardinalityLimit cfg)))"

datatype consume_error = errTooManyBatchers

definition batchers_Load ::
  "(attribute list \<Rightarrow> 'a) \<Rightarrow> byte list list \<Rightarrow> client_metadata \<Rightarrow> 'a multi_batcher \<Rightarrow> nat option" where
  "batchers_Load newSet keys md mb = mb_batchers mb (newSet (consume_attrs keys md))"

definition create_shard ::
  "(attribute list \<Rightarrow> 'a) \<Rightarrow> byte list list \<Rightarrow> nat \<Rightarrow> client_metadata \<Rightarrow> 'a multi_batcher \<Rightarrow>
   'a multi_batcher \<times> (consume_error + nat)" where
  "create_shard newSet keys metadataLimit md mb =
     (if metadataLimit \<noteq> 0 \<and> metadataLimit \<le> mb_size mb then (mb, Inl errTooManyBatchers)
      else let aset = newSet (consume_attrs keys md)
           in case mb_batchers mb aset of
                Some b \<Rightarrow> (mb, Inr b)
              | None \<Rightarrow>
                  let b = length (mb_shards mb)
                  in (\<lparr>mb_batchers = (mb_batchers mb)(aset \<mapsto> b), mb_shards = mb_shards mb @ [shard_metadata keys md],
                       mb_started = mb_started mb @ [b], mb_size = mb_size mb + 1\<rparr>, Inr b))"

section \<open>Concurrent consumers\<close>

datatype consume_pc = Loading | Creating | Sending nat | Sent nat | Rejected consume_error

type_synonym consumer = "client_metadata \<times> consume_pc"

record 'a multi_sys =
  ms_batcher :: "'a multi_batcher"
  ms_consumers :: "consumer list"

definition consumer_go :: "nat \<Rightarrow> consume_pc \<Rightarrow> 'a multi_sys \<Rightarrow> 'a multi_sys" where
  "consumer_go i pc s = s\<lparr>ms_consumers := (ms_consumers s)[i := (fst (ms_consumers s ! i), pc)]\<rparr>"

inductive multi_step ::
  "(attribute list \<Rightarrow> 'a) \<Rightarrow> byte list list \<Rightarrow> nat \<Rightarrow> 'a multi_sys \<Rightarrow> 'a multi_sys \<Rightarrow> bool"
  for newSet :: "attribute list \<Rightarrow> 'a" and keys :: "byte list list" and limit :: nat where
  call: "multi_step newSet keys limit s (s\<lparr>ms_consumers := ms_consumers s @ [(md, Loading)]\<rparr>)"
| load: "i < length (ms_consumers s) \<Longrightarrow> ms_consumers s ! i = (md, Loading) \<Longrightarrow>
    multi_step newSet keys limit s
      (consumer_go i (case batchers_Load newSet keys md (ms_batcher s) of Some b \<Rightarrow> Sending b | None \<Rightarrow> Creating) s)"
| create: "i < length (ms_consumers s) \<Longrightarrow> ms_consumers s ! i = (md, Creating) \<Longrightarrow>
    create_shard newSet keys limit md (ms_batcher s) = (mb, r) \<Longrightarrow>
    multi_step newSet keys limit s
      (consumer_go i (case r of Inr b \<Rightarrow> Sending b | Inl e \<Rightarrow> Rejected e) (s\<lparr>ms_batcher := mb\<rparr>))"
| send: "i < length (ms_consumers s) \<Longrightarrow> ms_consumers s ! i = (md, Sending b) \<Longrightarrow>
    multi_step newSet keys limit s (consumer_go i (Sent b) s)"

inductive multi_reachable :: "(attribute list \<Rightarrow> 'a) \<Rightarrow> byte list list \<Rightarrow> nat \<Rightarrow> 'a multi_sys \<Rightarrow> bool"
  for newSet :: "attribute list \<Rightarrow> 'a" and keys :: "byte list list" and limit :: nat where
  start: "multi_reachable newSet keys limit \<lparr>ms_batcher = new_multi_batcher, ms_consumers = []\<rparr>"
| step: "multi_reachable newSet keys limit s \<Longrightarrow> multi_step newSet keys limit s s' \<Longrightarrow> multi_reachable newSet keys limit s'"

section \<open>One shard for each combination\<close>

definition same_values :: "byte list list \<Rightarrow> client_metadata \<Rightarrow> client_metadata \<Rightarrow> bool" where
  "same_values keys md md' \<longleftrightarrow> (\<forall>k \<in> set keys. Metadata_Get md k = Metadata_Get md' k)"

definition set_law :: "(attribute list \<Rightarrow> 'a) \<Rightarrow> byte list list \<Rightarrow> bool" where
  "set_law newSet keys \<longleftrightarrow>
     (\<forall>md md'. newSet (consume_attrs keys md) = newSet (consume_attrs keys md') \<longrightarrow>
        consume_attrs keys md = consume_attrs keys md')"

lemma consume_attr_values: "consume_attr md k = consume_attr md' k \<longleftrightarrow> Metadata_Get md k = Metadata_Get md' k"
  by (auto simp: consume_attr_def Let_def length_Suc_conv split: if_splits)

lemma same_set:
  assumes "set_law newSet keys"
  shows "newSet (consume_attrs keys md) = newSet (consume_attrs keys md') \<longleftrightarrow> same_values keys md md'"
proof -
  have "consume_attrs keys md = consume_attrs keys md' \<longleftrightarrow> same_values keys md md'"
    by (auto simp: consume_attrs_def same_values_def consume_attr_values)
  with assms show ?thesis by (metis set_law_def)
qed

lemma shard_metadata_values:
  assumes "\<forall>k \<in> set keys. ToLower k = k"
  shows "same_values keys (shard_metadata keys md) md"
  using assms NewMetadata_eq [of keys "\<lambda>k. Some (Metadata_Get md k)"]
  by (auto simp: same_values_def shard_metadata_def Metadata_Get_def)

definition batcher_inv :: "(attribute list \<Rightarrow> 'a) \<Rightarrow> byte list list \<Rightarrow> nat \<Rightarrow> 'a multi_batcher \<Rightarrow> bool" where
  "batcher_inv newSet keys limit mb \<longleftrightarrow>
     mb_size mb = length (mb_shards mb) \<and> mb_started mb = [0..<mb_size mb] \<and>
     (limit \<noteq> 0 \<longrightarrow> mb_size mb \<le> limit) \<and>
     ran (mb_batchers mb) = {0..<mb_size mb} \<and> inj_on (mb_batchers mb) (dom (mb_batchers mb)) \<and>
     (\<forall>aset b. mb_batchers mb aset = Some b \<longrightarrow>
        (\<exists>md. aset = newSet (consume_attrs keys md) \<and> mb_shards mb ! b = shard_metadata keys md))"

definition consumer_inv :: "(attribute list \<Rightarrow> 'a) \<Rightarrow> byte list list \<Rightarrow> nat \<Rightarrow> 'a multi_batcher \<Rightarrow> consumer \<Rightarrow> bool" where
  "consumer_inv newSet keys limit mb = (\<lambda>(md, pc).
     case pc of
       Sending b \<Rightarrow> mb_batchers mb (newSet (consume_attrs keys md)) = Some b
     | Sent b \<Rightarrow> mb_batchers mb (newSet (consume_attrs keys md)) = Some b
     | Rejected e \<Rightarrow> limit \<noteq> 0 \<and> mb_size mb = limit
     | _ \<Rightarrow> True)"

definition grows :: "nat \<Rightarrow> 'a multi_batcher \<Rightarrow> 'a multi_batcher \<Rightarrow> bool" where
  "grows limit mb mb' \<longleftrightarrow> mb_batchers mb \<subseteq>\<^sub>m mb_batchers mb' \<and> mb_size mb \<le> mb_size mb' \<and>
     (limit \<noteq> 0 \<longrightarrow> mb_size mb' \<le> limit)"

lemma consumer_inv_grows: "consumer_inv newSet keys limit mb c \<Longrightarrow> grows limit mb mb' \<Longrightarrow> consumer_inv newSet keys limit mb' c"
  by (auto simp: consumer_inv_def grows_def map_le_def dom_def split: consume_pc.splits)

lemma create_shard_inv:
  assumes inv: "batcher_inv newSet keys limit mb" and c: "create_shard newSet keys limit md mb = (mb', r)"
  shows "batcher_inv newSet keys limit mb'" "grows limit mb mb'"
    and "consumer_inv newSet keys limit mb' (md, case r of Inr b \<Rightarrow> Sending b | Inl e \<Rightarrow> Rejected e)"
proof -
  let ?a = "newSet (consume_attrs keys md)"
  have "batcher_inv newSet keys limit mb' \<and> grows limit mb mb' \<and>
      consumer_inv newSet keys limit mb' (md, case r of Inr b \<Rightarrow> Sending b | Inl e \<Rightarrow> Rejected e)"
  proof (cases "limit \<noteq> 0 \<and> limit \<le> mb_size mb \<or> mb_batchers mb ?a \<noteq> None")
    case True
    with c have "mb' = mb" by (auto simp: create_shard_def Let_def split: if_splits option.splits)
    with True inv c show ?thesis
      by (auto simp: create_shard_def Let_def grows_def batcher_inv_def consumer_inv_def split: if_splits option.splits)
  next
    case False
    let ?n = "length (mb_shards mb)"
    have n: "mb_size mb = ?n" and rn: "ran (mb_batchers mb) = {0..<?n}" using inv by (simp_all add: batcher_inv_def)
    have eq: "mb' = \<lparr>mb_batchers = (mb_batchers mb)(?a \<mapsto> ?n), mb_shards = mb_shards mb @ [shard_metadata keys md],
        mb_started = mb_started mb @ [?n], mb_size = mb_size mb + 1\<rparr>" "r = Inr ?n"
      using c False by (auto simp: create_shard_def Let_def split: if_splits option.splits)
    have new: "?a \<notin> dom (mb_batchers mb)" using False by auto
    have below: "b < ?n" if "mb_batchers mb x = Some b" for x b
      using that rn by (metis atLeastLessThan_iff ranI)
    have "inj_on ((mb_batchers mb)(?a \<mapsto> ?n)) (dom ((mb_batchers mb)(?a \<mapsto> ?n)))"
      using inv new below by (auto simp: batcher_inv_def inj_on_def dom_def) (metis less_irrefl)+
    moreover have "ran ((mb_batchers mb)(?a \<mapsto> ?n)) = {0..<?n + 1}"
      using new rn by (auto simp: dom_def)
    moreover have "\<exists>md. x = newSet (consume_attrs keys md) \<and> (mb_shards mb @ [shard_metadata keys md0]) ! b = shard_metadata keys md"
      if "mb_batchers mb x = Some b" for x b md0
      using inv that below [OF that] by (auto simp: batcher_inv_def nth_append)
    ultimately show ?thesis
      using inv False n unfolding eq
      by (auto simp: batcher_inv_def grows_def consumer_inv_def map_le_def)
  qed
  then show "batcher_inv newSet keys limit mb'" "grows limit mb mb'"
    "consumer_inv newSet keys limit mb' (md, case r of Inr b \<Rightarrow> Sending b | Inl e \<Rightarrow> Rejected e)" by blast+
qed

definition multi_inv :: "(attribute list \<Rightarrow> 'a) \<Rightarrow> byte list list \<Rightarrow> nat \<Rightarrow> 'a multi_sys \<Rightarrow> bool" where
  "multi_inv newSet keys limit s \<longleftrightarrow>
     batcher_inv newSet keys limit (ms_batcher s) \<and>
     list_all (consumer_inv newSet keys limit (ms_batcher s)) (ms_consumers s)"

lemma multi_inv_go:
  assumes "list_all (consumer_inv newSet keys limit (ms_batcher s)) (ms_consumers s)"
    and "ms_consumers s ! i = (md, pc)" "consumer_inv newSet keys limit (ms_batcher s) (md, pc')"
  shows "list_all (consumer_inv newSet keys limit (ms_batcher s)) (ms_consumers (consumer_go i pc' s))"
  using assms by (auto simp: consumer_go_def list_all_iff dest!: subsetD [OF set_update_subset_insert])

lemma consumer_go_batcher [simp]: "ms_batcher (consumer_go i pc s) = ms_batcher s"
  by (simp add: consumer_go_def)

lemma multi_inv_step:
  assumes "multi_inv newSet keys limit s" "multi_step newSet keys limit s s'"
  shows "multi_inv newSet keys limit s'"
  using assms(2)
proof cases
  case (call md)
  then show ?thesis using assms(1) by (simp add: multi_inv_def consumer_inv_def)
next
  case (load i md)
  have "consumer_inv newSet keys limit (ms_batcher s)
      (md, case batchers_Load newSet keys md (ms_batcher s) of Some b \<Rightarrow> Sending b | None \<Rightarrow> Creating)"
    by (auto simp: consumer_inv_def batchers_Load_def split: option.splits)
  with multi_inv_go [OF _ load(3) this] assms(1) load(1) show ?thesis by (simp add: multi_inv_def)
next
  case (create i md mb r)
  have b: "batcher_inv newSet keys limit (ms_batcher s)" using assms(1) by (simp add: multi_inv_def)
  note c = create_shard_inv [OF b create(4)]
  have l: "list_all (consumer_inv newSet keys limit (ms_batcher (s\<lparr>ms_batcher := mb\<rparr>))) (ms_consumers (s\<lparr>ms_batcher := mb\<rparr>))"
    using assms(1) c(2) by (auto simp: multi_inv_def list_all_iff intro: consumer_inv_grows)
  have "ms_consumers (s\<lparr>ms_batcher := mb\<rparr>) ! i = (md, Creating)" using create(3) by simp
  from multi_inv_go [OF l this] c(1,3) create(1) show ?thesis by (simp add: multi_inv_def)
next
  case (send i md b)
  have "consumer_inv newSet keys limit (ms_batcher s) (md, Sent b)"
    using assms(1) send(2,3) by (auto simp: multi_inv_def list_all_length consumer_inv_def dest: spec [of _ i])
  with multi_inv_go [OF _ send(3) this] assms(1) send(1) show ?thesis by (simp add: multi_inv_def)
qed

lemma multi_reachable_inv: "multi_reachable newSet keys limit s \<Longrightarrow> multi_inv newSet keys limit s"
proof (induction rule: multi_reachable.induct)
  case start
  then show ?case by (simp add: multi_inv_def batcher_inv_def new_multi_batcher_def)
qed (rule multi_inv_step)

lemma newBatchProcessor_keys:
  "newBatchProcessor cfg = multiShardBatcher keys limit \<Longrightarrow> \<forall>k \<in> set keys. ToLower k = k"
  by (auto simp: newBatchProcessor_def Let_def ToLower_idem split: if_splits)

text \<open>
  C40. With metadata keys, data is batched by the values of these keys. In every reachable state
  of concurrent consumers: two consumers were given the same shard if and only if their clients sent
  the same values under every configured key, and the context the shard exports with has exactly
  these values; the number of shards is the counted cardinality and within the limit, every shard was
  started once; and a consumer is only refused when the limit of shards is reached.
\<close>

theorem shards_by_metadata:
  assumes "newBatchProcessor cfg = multiShardBatcher keys limit" "multi_reachable newSet keys limit s"
    and "set_law newSet keys"
  shows "((md, Sent b) \<in> set (ms_consumers s) \<and> (md', Sent b') \<in> set (ms_consumers s) \<longrightarrow>
      (b = b' \<longleftrightarrow> same_values keys md md') \<and>
      b < mb_size (ms_batcher s) \<and> same_values keys (mb_shards (ms_batcher s) ! b) md) \<and>
    mb_size (ms_batcher s) = length (mb_shards (ms_batcher s)) \<and>
      mb_started (ms_batcher s) = [0..<mb_size (ms_batcher s)] \<and>
      (limit \<noteq> 0 \<longrightarrow> mb_size (ms_batcher s) \<le> limit) \<and>
      ((md, Rejected e) \<in> set (ms_consumers s) \<longrightarrow> limit \<noteq> 0 \<and> mb_size (ms_batcher s) = limit)"
proof -
  let ?mb = "ms_batcher s"
  note inv = multi_reachable_inv [OF assms(2)]
  have b: "batcher_inv newSet keys limit ?mb" using inv by (simp add: multi_inv_def)
  have sent: "mb_batchers ?mb (newSet (consume_attrs keys md)) = Some b" if "(md, Sent b) \<in> set (ms_consumers s)" for md b
    using inv that by (auto simp: multi_inv_def list_all_iff consumer_inv_def)
  have "(b = b' \<longleftrightarrow> same_values keys md md') \<and> b < mb_size ?mb \<and> same_values keys (mb_shards ?mb ! b) md"
    if c: "(md, Sent b) \<in> set (ms_consumers s)" "(md', Sent b') \<in> set (ms_consumers s)"
  proof (intro conjI)
    have "inj_on (mb_batchers ?mb) (dom (mb_batchers ?mb))" using b by (simp add: batcher_inv_def)
    with sent [OF c(1)] sent [OF c(2)] show "b = b' \<longleftrightarrow> same_values keys md md'"
      by (metis domI inj_onD option.inject same_set [OF assms(3)])
    show "b < mb_size ?mb" using sent [OF c(1)] b by (metis atLeastLessThan_iff batcher_inv_def ranI)
    obtain md0 where m: "newSet (consume_attrs keys md) = newSet (consume_attrs keys md0)"
      "mb_shards ?mb ! b = shard_metadata keys md0"
      using sent [OF c(1)] b unfolding batcher_inv_def by blast
    from m(1) have "same_values keys md0 md" by (simp add: same_set [OF assms(3)] same_values_def)
    with shard_metadata_values [OF newBatchProcessor_keys [OF assms(1)], of md0]
    show "same_values keys (mb_shards ?mb ! b) md" by (simp add: m(2) same_values_def)
  qed
  moreover have "mb_size ?mb = length (mb_shards ?mb) \<and> mb_started ?mb = [0..<mb_size ?mb] \<and>
      (limit \<noteq> 0 \<longrightarrow> mb_size ?mb \<le> limit) \<and>
      ((md, Rejected e) \<in> set (ms_consumers s) \<longrightarrow> limit \<noteq> 0 \<and> mb_size ?mb = limit)"
    using b inv by (auto simp: multi_inv_def list_all_iff consumer_inv_def batcher_inv_def)
  ultimately show ?thesis by blast
qed

section \<open>Two consumers with the same new combination\<close>

definition demo_md :: "byte \<Rightarrow> client_metadata" where
  "demo_md v = [[97] \<mapsto> [[v]]]"

definition demo_keyed_cfg :: batch_processor_config where
  "demo_keyed_cfg = createDefaultConfig\<lparr>bc_MetadataKeys := [[65]], bc_MetadataCardinalityLimit := 1\<rparr>"

lemma demo_keyed: "newBatchProcessor demo_keyed_cfg = multiShardBatcher [[97]] 1"
  by (simp add: newBatchProcessor_def demo_keyed_cfg_def createDefaultConfig_def ToLower_def)

lemma demo_set_law: "set_law id keys"
  by (simp add: set_law_def)

definition demo_shard_made :: "attribute list multi_batcher" where
  "demo_shard_made = \<lparr>mb_batchers = [[attribute_String [97] [1]] \<mapsto> 0], mb_shards = [demo_md 1], mb_started = [0], mb_size = 1\<rparr>"

lemma demo_attrs: "consume_attrs [[97]] (demo_md v) = [attribute_String [97] [v]]"
  by (simp add: consume_attrs_def consume_attr_def demo_md_def Metadata_Get_def ToLower_def)

lemma demo_create:
  "create_shard id [[97]] 1 (demo_md 1) new_multi_batcher = (demo_shard_made, Inr 0)"
  "create_shard id [[97]] 1 (demo_md 1) demo_shard_made = (demo_shard_made, Inl errTooManyBatchers)"
  by (simp_all add: create_shard_def demo_attrs new_multi_batcher_def demo_shard_made_def shard_metadata_def)
    (simp add: demo_md_def Metadata_Get_def ToLower_def)

abbreviation demo_consumers :: "consume_pc list \<Rightarrow> consumer list" where
  "demo_consumers \<equiv> map (\<lambda>pc. (demo_md 1, pc))"

lemma demo_steps:
  assumes "multi_reachable id [[97]] 1 \<lparr>ms_batcher = mb, ms_consumers = demo_consumers pcs\<rparr>" "i < length pcs"
  shows "pcs ! i = Loading \<Longrightarrow> mb = new_multi_batcher \<Longrightarrow>
      multi_reachable id [[97]] 1 \<lparr>ms_batcher = mb, ms_consumers = demo_consumers (pcs[i := Creating])\<rparr>"
    and "pcs ! i = Creating \<Longrightarrow> create_shard id [[97]] 1 (demo_md 1) mb = (mb', r) \<Longrightarrow>
      multi_reachable id [[97]] 1
        \<lparr>ms_batcher = mb', ms_consumers = demo_consumers (pcs[i := (case r of Inr b \<Rightarrow> Sending b | Inl e \<Rightarrow> Rejected e)])\<rparr>"
    and "pcs ! i = Sending b \<Longrightarrow>
      multi_reachable id [[97]] 1 \<lparr>ms_batcher = mb, ms_consumers = demo_consumers (pcs[i := Sent b])\<rparr>"
proof -
  let ?s = "\<lparr>ms_batcher = mb, ms_consumers = demo_consumers pcs\<rparr>"
  show "multi_reachable id [[97]] 1 \<lparr>ms_batcher = mb, ms_consumers = demo_consumers (pcs[i := Creating])\<rparr>"
    if "pcs ! i = Loading" "mb = new_multi_batcher"
    using multi_reachable.step [OF assms(1) multi_step.load [of i ?s "demo_md 1"]] that assms(2)
    by (simp add: consumer_go_def map_update batchers_Load_def new_multi_batcher_def)
  show "multi_reachable id [[97]] 1
        \<lparr>ms_batcher = mb', ms_consumers = demo_consumers (pcs[i := (case r of Inr b \<Rightarrow> Sending b | Inl e \<Rightarrow> Rejected e)])\<rparr>"
    if "pcs ! i = Creating" "create_shard id [[97]] 1 (demo_md 1) mb = (mb', r)"
    using multi_reachable.step [OF assms(1) multi_step.create [of i ?s "demo_md 1"]] that assms(2)
    by (simp add: consumer_go_def map_update)
  show "multi_reachable id [[97]] 1 \<lparr>ms_batcher = mb, ms_consumers = demo_consumers (pcs[i := Sent b])\<rparr>"
    if "pcs ! i = Sending b"
    using multi_reachable.step [OF assms(1) multi_step.send [of i ?s "demo_md 1" b]] that assms(2)
    by (simp add: consumer_go_def map_update)
qed

lemma demo_both_creating:
  "multi_reachable id [[97]] 1 \<lparr>ms_batcher = new_multi_batcher, ms_consumers = demo_consumers [Creating, Creating]\<rparr>"
proof -
  have "multi_reachable id [[97]] 1 \<lparr>ms_batcher = new_multi_batcher, ms_consumers = demo_consumers [Loading, Loading]\<rparr>"
    using multi_reachable.step [OF multi_reachable.step [OF multi_reachable.start [of id "[[97]]" 1]
          multi_step.call [where md = "demo_md 1"]] multi_step.call [where md = "demo_md 1"]] by simp
  from demo_steps(1) [OF demo_steps(1) [OF this, of 0], of 1] show ?thesis by simp
qed

lemma demo_refused:
  "multi_reachable id [[97]] 1
     \<lparr>ms_batcher = demo_shard_made, ms_consumers = demo_consumers [Sent 0, Rejected errTooManyBatchers]\<rparr>"
proof -
  have "multi_reachable id [[97]] 1 \<lparr>ms_batcher = demo_shard_made, ms_consumers = demo_consumers [Sending 0, Creating]\<rparr>"
    using demo_steps(2) [OF demo_both_creating, of 0, OF _ _ demo_create(1)] by simp
  then have "multi_reachable id [[97]] 1 \<lparr>ms_batcher = demo_shard_made, ms_consumers = demo_consumers [Sent 0, Creating]\<rparr>"
    using demo_steps(3) [of demo_shard_made "[Sending 0, Creating]" 0 0] by simp
  from demo_steps(2) [OF this, of 1, OF _ _ demo_create(2)] show ?thesis by simp
qed

text \<open>
  The limit is checked before the second lookup: the consumer that lost the race to create the shard is
  refused with a permanent error although the shard for its combination exists by then.
\<close>

lemma existing_combination_refused:
  "\<exists>s. multi_reachable id [[97]] 1 s \<and> (demo_md 1, Rejected errTooManyBatchers) \<in> set (ms_consumers s) \<and>
     batchers_Load id [[97]] (demo_md 1) (ms_batcher s) = Some 0"
  using demo_refused by (intro exI conjI) (assumption, simp_all add: batchers_Load_def demo_attrs demo_shard_made_def)

lemma shards_by_metadata_witness:
  "same_values [[97]] (mb_shards demo_shard_made ! 0) (demo_md 1) \<and> mb_size demo_shard_made = 1"
  using shards_by_metadata [OF demo_keyed demo_refused demo_set_law, of "demo_md 1" 0 "demo_md 1" 0]
  by (simp add: demo_shard_made_def)

end
