(* ===== verification/Cond.thy ===== *)
theory Cond
  imports Prelude
begin

text \<open>
  The context-aware condition variable of exporter/exporterhelper/internal/queue/cond.go, as an
  interleaving of goroutines. A goroutine is a program counter; the code between two points
  where it can block is one function on the shared record, and \<open>cond_step\<close> lets any goroutine
  take its next segment. The mutex \<open>L\<close> is its holder, the channel (capacity one) the number of
  tokens in it. A waiter's context may be done at any time.
\<close>

section \<open>Shared state and code segments\<close>

record cond =
  c_ch :: nat
  c_waiting :: int

definition newCond :: cond where
  "newCond = \<lparr>c_ch = 0, c_waiting = 0\<rparr>"

definition chan_cap :: nat where
  "chan_cap = 1"

text \<open>
  The program counters: \<open>Idle\<close> and \<open>Running\<close> are outside the condition variable, without and with
  the mutex. \<open>SignalSend\<close> and \<open>BroadcastLoop\<close> hold the mutex; \<open>Select\<close> is blocked in the select
  of \<open>Wait\<close>; \<open>LockAfterDone\<close> and \<open>LockAfterToken\<close> are the two calls \<open>c.L.Lock()\<close>; \<open>Consume\<close> is
  the receive in the first branch.
\<close>

datatype pc =
    Idle | Running | SignalSend | BroadcastLoop | Select | LockAfterDone | LockAfterToken | Consume

fun holds_lock :: "pc \<Rightarrow> bool" where
  "holds_lock Running = True"
| "holds_lock SignalSend = True"
| "holds_lock BroadcastLoop = True"
| "holds_lock Consume = True"
| "holds_lock _ = False"

definition ch_send :: "cond \<Rightarrow> cond option" where
  "ch_send c = (if c_ch c < chan_cap then Some (c\<lparr>c_ch := c_ch c + 1\<rparr>) else None)"

definition ch_recv :: "cond \<Rightarrow> cond option" where
  "ch_recv c = (if 0 < c_ch c then Some (c\<lparr>c_ch := c_ch c - 1\<rparr>) else None)"

definition Signal :: "cond \<Rightarrow> pc \<times> cond" where
  "Signal c = (if c_waiting c = 0 then (Running, c)
               else (SignalSend, c\<lparr>c_waiting := c_waiting c - 1\<rparr>))"

definition Broadcast_iter :: "cond \<Rightarrow> (pc \<times> cond) option" where
  "Broadcast_iter c =
     (if 0 < c_waiting c
      then map_option (\<lambda>c'. (BroadcastLoop, c'\<lparr>c_waiting := c_waiting c' - 1\<rparr>)) (ch_send c)
      else Some (Running, c))"

definition Wait_enter :: "cond \<Rightarrow> pc \<times> cond" where
  "Wait_enter c = (Select, c\<lparr>c_waiting := c_waiting c + 1\<rparr>)"

definition Wait_done :: "cond \<Rightarrow> pc \<times> cond" where
  "Wait_done c = (if c_waiting c = 0 then (Consume, c)
                  else (Running, c\<lparr>c_waiting := c_waiting c - 1\<rparr>))"

section \<open>Interleaving\<close>

record cond_state =
  cs_cond :: cond
  cs_lock :: "nat option"
  cs_pcs :: "pc list"

definition at :: "cond_state \<Rightarrow> nat \<Rightarrow> pc \<Rightarrow> bool" where
  "at s i p \<longleftrightarrow> i < length (cs_pcs s) \<and> cs_pcs s ! i = p"

definition goto :: "nat \<Rightarrow> nat option \<Rightarrow> pc \<times> cond \<Rightarrow> cond_state \<Rightarrow> cond_state" where
  "goto i l pc_c s = s\<lparr>cs_pcs := (cs_pcs s)[i := fst pc_c], cs_lock := l, cs_cond := snd pc_c\<rparr>"

inductive cond_step :: "cond_state \<Rightarrow> cond_state \<Rightarrow> bool" where
  lock: "at s i Idle \<Longrightarrow> cs_lock s = None \<Longrightarrow> cond_step s (goto i (Some i) (Running, cs_cond s) s)"
| unlock: "at s i Running \<Longrightarrow> cond_step s (goto i None (Idle, cs_cond s) s)"
| signal: "at s i Running \<Longrightarrow> cond_step s (goto i (Some i) (Signal (cs_cond s)) s)"
| signal_send: "at s i SignalSend \<Longrightarrow> ch_send (cs_cond s) = Some c' \<Longrightarrow>
    cond_step s (goto i (Some i) (Running, c') s)"
| broadcast: "at s i Running \<Longrightarrow> cond_step s (goto i (Some i) (BroadcastLoop, cs_cond s) s)"
| broadcast_iter: "at s i BroadcastLoop \<Longrightarrow> Broadcast_iter (cs_cond s) = Some r \<Longrightarrow>
    cond_step s (goto i (Some i) r s)"
| wait: "at s i Running \<Longrightarrow> cond_step s (goto i None (Wait_enter (cs_cond s)) s)"
| select_done: "at s i Select \<Longrightarrow> cond_step s (goto i (cs_lock s) (LockAfterDone, cs_cond s) s)"
| select_token: "at s i Select \<Longrightarrow> ch_recv (cs_cond s) = Some c' \<Longrightarrow>
    cond_step s (goto i (cs_lock s) (LockAfterToken, c') s)"
| wait_done: "at s i LockAfterDone \<Longrightarrow> cs_lock s = None \<Longrightarrow>
    cond_step s (goto i (Some i) (Wait_done (cs_cond s)) s)"
| wait_consume: "at s i Consume \<Longrightarrow> ch_recv (cs_cond s) = Some c' \<Longrightarrow>
    cond_step s (goto i (Some i) (Running, c') s)"
| wait_token: "at s i LockAfterToken \<Longrightarrow> cs_lock s = None \<Longrightarrow>
    cond_step s (goto i (Some i) (Running, cs_cond s) s)"

definition cond_init :: "nat \<Rightarrow> cond_state" where
  "cond_init n = \<lparr>cs_cond = newCond, cs_lock = None, cs_pcs = replicate n Idle\<rparr>"

inductive cond_reachable :: "nat \<Rightarrow> cond_state \<Rightarrow> bool" for n where
  init: "cond_reachable n (cond_init n)"
| step: "cond_reachable n s \<Longrightarrow> cond_step s s' \<Longrightarrow> cond_reachable n s'"

section \<open>Invariant\<close>

text \<open>
  Every goroutine inside \<open>Wait\<close> that has not got a token is accounted for either by \<open>waiting\<close> or
  by a token that is in the channel or about to be sent; and the mutex is held by exactly the
  goroutines that run with it.
\<close>

definition n_at :: "cond_state \<Rightarrow> pc \<Rightarrow> nat" where
  "n_at s p = count (mset (cs_pcs s)) p"

definition tokens_inv :: "cond_state \<Rightarrow> bool" where
  "tokens_inv s \<longleftrightarrow> 0 \<le> c_waiting (cs_cond s) \<and> c_ch (cs_cond s) \<le> chan_cap \<and>
     c_waiting (cs_cond s) + int (c_ch (cs_cond s)) + int (n_at s SignalSend) =
       int (n_at s Select) + int (n_at s LockAfterDone) + int (n_at s Consume)"

definition lock_inv :: "cond_state \<Rightarrow> bool" where
  "lock_inv s \<longleftrightarrow> (\<forall>i < length (cs_pcs s). holds_lock (cs_pcs s ! i) \<longleftrightarrow> cs_lock s = Some i) \<and>
     (\<forall>i. at s i Consume \<longrightarrow> c_waiting (cs_cond s) = 0)"

lemma n_at_goto:
  assumes "at s i p"
  shows "int (n_at (goto i l r s) q) =
    int (n_at s q) - (if p = q then 1 else 0) + (if fst r = q then 1 else 0)"
proof -
  have i: "i < length (cs_pcs s)" "cs_pcs s ! i = p" using assms by (auto simp: at_def)
  then have "p \<in># mset (cs_pcs s)" by auto
  then have "0 < count (mset (cs_pcs s)) p" by simp
  with i show ?thesis by (auto simp: n_at_def goto_def mset_update)
qed

lemma at_goto [simp]: "at (goto i l r s) j p \<longleftrightarrow>
    (if j = i \<and> i < length (cs_pcs s) then fst r = p else at s j p)"
  by (auto simp: at_def goto_def nth_list_update)

lemma goto_simps [simp]:
  "cs_lock (goto i l r s) = l" "cs_cond (goto i l r s) = snd r"
  "length (cs_pcs (goto i l r s)) = length (cs_pcs s)"
  by (simp_all add: goto_def)

lemmas cond_segment_defs = Signal_def Broadcast_iter_def Wait_enter_def Wait_done_def ch_send_def ch_recv_def

lemma at_length: "at s i p \<Longrightarrow> i < length (cs_pcs s)"
  by (simp add: at_def)

lemma at_unique: "at s i p \<Longrightarrow> at s i q \<longleftrightarrow> p = q"
  by (auto simp: at_def)

lemma tokens_inv_step: "cond_step s s' \<Longrightarrow> tokens_inv s \<Longrightarrow> tokens_inv s'"
  by (induction rule: cond_step.induct)
    (auto simp: tokens_inv_def n_at_goto cond_segment_defs split: if_splits)

lemma lock_inv_holder: "lock_inv s \<Longrightarrow> at s i p \<Longrightarrow> holds_lock p \<longleftrightarrow> cs_lock s = Some i"
  by (auto simp: lock_inv_def at_def)

lemma lock_invI:
  assumes "\<And>j p. at s j p \<Longrightarrow> holds_lock p \<longleftrightarrow> cs_lock s = Some j"
    and "\<And>j. at s j Consume \<Longrightarrow> c_waiting (cs_cond s) = 0"
  shows "lock_inv s"
  using assms by (auto simp: lock_inv_def at_def)

lemma lock_inv_goto:
  assumes inv: "lock_inv s" and at: "at s i p"
    and lock: "holds_lock (fst r) \<longleftrightarrow> l = Some i" "holds_lock p \<or> cs_lock s = None \<or> l = cs_lock s"
      "l = cs_lock s \<or> l = None \<or> l = Some i"
    and consume: "fst r = Consume \<Longrightarrow> c_waiting (snd r) = 0"
      "holds_lock p \<or> cs_lock s = None \<or> c_waiting (snd r) = c_waiting (cs_cond s)"
  shows "lock_inv (goto i l r s)"
proof (rule lock_invI)
  fix j q
  assume q: "at (goto i l r s) j q"
  show "holds_lock q \<longleftrightarrow> cs_lock (goto i l r s) = Some j"
  proof (cases "j = i")
    case True
    with q at lock(1) show ?thesis by (auto simp: at_length)
  next
    case False
    with q have "at s j q" by simp
    from lock_inv_holder [OF inv this] lock_inv_holder [OF inv at] lock False show ?thesis by auto
  qed
next
  fix j
  assume q: "at (goto i l r s) j Consume"
  show "c_waiting (cs_cond (goto i l r s)) = 0"
  proof (cases "j = i")
    case True
    with q at consume(1) show ?thesis by (auto simp: at_length)
  next
    case False
    with q have j: "at s j Consume" by simp
    with lock_inv_holder [OF inv j] lock_inv_holder [OF inv at] False consume(2) inv show ?thesis
      by (auto simp: lock_inv_def)
  qed
qed

lemma lock_inv_step: "cond_step s s' \<Longrightarrow> lock_inv s \<Longrightarrow> lock_inv s'"
  by (induction rule: cond_step.induct)
    (auto intro!: lock_inv_goto dest: lock_inv_holder simp: cond_segment_defs split: if_splits)

lemma cond_reachable_inv: "cond_reachable n s \<Longrightarrow> tokens_inv s \<and> lock_inv s"
proof (induction rule: cond_reachable.induct)
  case init
  have "n_at (cond_init n) p = 0" if "p \<noteq> Idle" for p
    using that by (auto simp: n_at_def cond_init_def)
  then show ?case
    by (auto simp: tokens_inv_def lock_inv_def cond_init_def newCond_def chan_cap_def at_def)
qed (auto intro: tokens_inv_step lock_inv_step)

lemma n_at_pos: "at s i p \<Longrightarrow> 0 < n_at s p"
  by (auto simp: n_at_def at_def count_greater_zero_iff in_set_conv_nth)

lemma n_at_pos_iff: "0 < n_at s p \<longleftrightarrow> (\<exists>i. at s i p)"
  by (auto simp: n_at_def at_def count_greater_zero_iff in_set_conv_nth)

lemma single_holder:
  assumes "lock_inv s" "at s i p" "holds_lock p" "at s j q" "holds_lock q"
  shows "i = j"
  using lock_inv_holder [OF assms(1,2)] lock_inv_holder [OF assms(1,4)] assms(3,5) by simp

text \<open>A goroutine at the send of \<open>Signal\<close>, or at that of \<open>Broadcast\<close> with waiters left.\<close>

definition sending :: "cond_state \<Rightarrow> nat \<Rightarrow> bool" where
  "sending s i \<longleftrightarrow> at s i SignalSend \<or> at s i BroadcastLoop \<and> 0 < c_waiting (cs_cond s)"

section \<open>Properties\<close>

text \<open>
  C8. The receive in the cancellation branch of \<open>Wait\<close> never blocks: when \<open>waiting\<close> is 0 there, a
  token of an earlier signal is in the channel, whatever the other goroutines did.
\<close>

theorem Wait_consume_never_blocks:
  assumes "cond_reachable n s" and "at s i Consume"
  shows "ch_recv (cs_cond s) \<noteq> None"
proof -
  have inv: "tokens_inv s" "lock_inv s" using cond_reachable_inv [OF assms(1)] by auto
  have w: "c_waiting (cs_cond s) = 0" using inv(2) assms(2) by (auto simp: lock_inv_def)
  have "n_at s SignalSend = 0"
  proof (rule ccontr)
    assume "n_at s SignalSend \<noteq> 0"
    then obtain j where j: "at s j SignalSend" using n_at_pos_iff [of s SignalSend] by auto
    with single_holder [OF inv(2) assms(2) _ j] have "i = j" by simp
    with j assms(2) show False by (auto simp: at_def)
  qed
  with inv(1) w n_at_pos [OF assms(2)] have "0 < c_ch (cs_cond s)" by (simp add: tokens_inv_def)
  then show ?thesis by (simp add: ch_recv_def)
qed

text \<open>
  C9. A send of \<open>Signal\<close> or \<open>Broadcast\<close> can hang only when waiters are cancelled: as long as fewer
  than two waiters have taken the cancellation branch and are waiting for the mutex that the
  sender holds, the send goes through at once, or some waiter is in the select and can receive the
  token that fills the channel, and after that one step the send goes through.
\<close>

theorem Signal_hangs_only_on_cancellation:
  assumes "cond_reachable n s" and "sending s i" and "n_at s LockAfterDone < 2"
  shows "ch_send (cs_cond s) \<noteq> None \<or>
    (\<exists>j s'. at s j Select \<and> cond_step s s' \<and> at s' j LockAfterToken \<and> sending s' i \<and> ch_send (cs_cond s') \<noteq> None)"
proof (cases "ch_send (cs_cond s) = None")
  case True
  have inv: "tokens_inv s" "lock_inv s" using cond_reachable_inv [OF assms(1)] by auto
  have full: "c_ch (cs_cond s) = 1"
    using inv(1) True by (auto simp: tokens_inv_def ch_send_def chan_cap_def split: if_splits)
  have "n_at s Consume = 0"
  proof (rule ccontr)
    assume "n_at s Consume \<noteq> 0"
    then obtain j where j: "at s j Consume" using n_at_pos_iff [of s Consume] by auto
    with assms(2) obtain p where "at s i p" "holds_lock p" "p \<noteq> Consume" by (auto simp: sending_def)
    with single_holder [OF inv(2) _ _ j] have "i = j" by simp
    with j \<open>at s i p\<close> \<open>p \<noteq> Consume\<close> show False by (simp add: at_def)
  qed
  then have "2 \<le> n_at s Select + n_at s LockAfterDone"
    using inv(1) full assms(2) n_at_pos [of s i SignalSend] by (auto simp: tokens_inv_def sending_def)
  then obtain j where j: "at s j Select" using assms(3) n_at_pos_iff [of s Select] by auto
  let ?c = "(cs_cond s)\<lparr>c_ch := 0\<rparr>"
  let ?s' = "goto j (cs_lock s) (LockAfterToken, ?c) s"
  have "cond_step s ?s'" using cond_step.select_token [OF j, of ?c] full by (simp add: ch_recv_def)
  moreover have "i \<noteq> j" using assms(2) j by (auto simp: sending_def at_def)
  ultimately show ?thesis using j assms(2)
    by (intro disjI2 exI [of _ j] exI [of _ ?s']) (auto simp: sending_def at_length ch_send_def chan_cap_def)
qed simp

definition demo :: "pc \<Rightarrow> pc \<Rightarrow> pc \<Rightarrow> nat option \<Rightarrow> nat \<Rightarrow> int \<Rightarrow> nat \<Rightarrow> cond_state" where
  "demo p q r l ch w k = \<lparr>cs_cond = \<lparr>c_ch = ch, c_waiting = w\<rparr>, cs_lock = l,
     cs_pcs = p # q # r # replicate k Idle\<rparr>"

lemma demo_at:
  "at (demo p q r l ch w k) 0 p" "at (demo p q r l ch w k) 1 q" "at (demo p q r l ch w k) 2 r"
  by (simp_all add: demo_def at_def)

lemma demo_goto:
  "goto 0 l' (x, \<lparr>c_ch = ch', c_waiting = w'\<rparr>) (demo p q r l ch w k) = demo x q r l' ch' w' k"
  "goto (Suc 0) l' (x, \<lparr>c_ch = ch', c_waiting = w'\<rparr>) (demo p q r l ch w k) = demo p x r l' ch' w' k"
  "goto 2 l' (x, \<lparr>c_ch = ch', c_waiting = w'\<rparr>) (demo p q r l ch w k) = demo p q x l' ch' w' k"
  by (simp_all add: demo_def goto_def numeral_2_eq_2)

lemma demo_cond: "cs_cond (demo p q r l ch w k) = \<lparr>c_ch = ch, c_waiting = w\<rparr>"
  "cs_lock (demo p q r l ch w k) = l"
  by (simp_all add: demo_def)

lemmas demo_simps = demo_goto demo_cond cond_segment_defs chan_cap_def

lemma demo_waiters:
  "cond_reachable (k + 3) (demo Select Select Idle None 0 2 k)"
  "cond_reachable (k + 3) (demo LockAfterDone LockAfterDone Idle None 0 2 k)"
proof -
  note st = cond_reachable.step
  have "cond_reachable (k + 3) (demo Idle Idle Idle None 0 0 k)"
    using cond_reachable.init [of "k + 3"]
    by (simp add: demo_def cond_init_def newCond_def numeral_3_eq_3)
  from st [OF this cond_step.lock [OF demo_at(1)]]
  have "cond_reachable (k + 3) (demo Running Idle Idle (Some 0) 0 0 k)" by (simp add: demo_simps)
  from st [OF this cond_step.wait [OF demo_at(1)]]
  have "cond_reachable (k + 3) (demo Select Idle Idle None 0 1 k)" by (simp add: demo_simps)
  from st [OF this cond_step.lock [OF demo_at(2)]]
  have "cond_reachable (k + 3) (demo Select Running Idle (Some 1) 0 1 k)" by (simp add: demo_simps)
  from st [OF this cond_step.wait [OF demo_at(2)]]
  show two: "cond_reachable (k + 3) (demo Select Select Idle None 0 2 k)" by (simp add: demo_simps)
  from st [OF two cond_step.select_done [OF demo_at(1)]]
  have "cond_reachable (k + 3) (demo LockAfterDone Select Idle None 0 2 k)" by (simp add: demo_simps)
  from st [OF this cond_step.select_done [OF demo_at(2)]]
  show "cond_reachable (k + 3) (demo LockAfterDone LockAfterDone Idle None 0 2 k)" by (simp add: demo_simps)
qed

lemma demo_signalled:
  assumes "cond_reachable n (demo p q Idle None 0 2 k)"
  shows "cond_reachable n (demo p q Running (Some 2) 1 1 k)"
proof -
  note st = cond_reachable.step
  from st [OF assms cond_step.lock [OF demo_at(3)]]
  have "cond_reachable n (demo p q Running (Some 2) 0 2 k)" by (simp add: demo_simps)
  from st [OF this cond_step.signal [OF demo_at(3)]]
  have "cond_reachable n (demo p q SignalSend (Some 2) 0 1 k)" by (simp add: demo_simps)
  from st [OF this cond_step.signal_send [OF demo_at(3)]] show ?thesis by (simp add: demo_simps)
qed

lemma demo_stuck_reachable:
  "cond_reachable (k + 3) (demo LockAfterDone LockAfterDone SignalSend (Some 2) 1 0 k)"
  using cond_reachable.step [OF demo_signalled [OF demo_waiters(2)] cond_step.signal [OF demo_at(3)]]
  by (simp add: demo_simps)

text \<open>
  C10. Two cancelled waiters and two signals deadlock the condition variable, with any number of
  further goroutines: both waiters take the cancellation branch and queue for the mutex, the
  first signal fills the channel, and the second one blocks on the full channel while it holds
  the mutex. The resulting reachable state has no step at all.
\<close>

theorem cond_deadlock:
  "\<exists>s. cond_reachable (k + 3) s \<and> at s 2 SignalSend \<and> (\<forall>s'. \<not> cond_step s s')"
proof (intro exI conjI allI)
  let ?s = "demo LockAfterDone LockAfterDone SignalSend (Some 2) (Suc 0) 0 k"
  show "cond_reachable (k + 3) ?s" using demo_stuck_reachable by simp
  show "at ?s 2 SignalSend" by (rule demo_at(3))
  have pcs: "p \<in> {LockAfterDone, SignalSend, Idle}" if "at ?s i p" for i p
    using that by (auto simp: at_def demo_def nth_Cons split: nat.splits if_splits)
  show "\<not> cond_step ?s s'" for s'
  proof
    assume "cond_step ?s s'"
    then show False by cases (auto dest: pcs simp: demo_simps)
  qed
qed

text \<open>A run in which the second of two cancelled waiters reaches the receive.\<close>

theorem Wait_consume_never_blocks_witness:
  "ch_recv (cs_cond (demo Idle Consume Idle (Some 1) 1 0 0)) \<noteq> None"
proof -
  note st = cond_reachable.step
  have "cond_reachable 3 (demo LockAfterDone LockAfterDone Idle None 0 2 0)"
    using demo_waiters(2) [of 0] by simp
  from st [OF demo_signalled [OF this] cond_step.unlock [OF demo_at(3)]]
  have "cond_reachable 3 (demo LockAfterDone LockAfterDone Idle None 1 1 0)" by (simp add: demo_simps)
  from st [OF this cond_step.wait_done [OF demo_at(1)]]
  have "cond_reachable 3 (demo Running LockAfterDone Idle (Some 0) 1 0 0)" by (simp add: demo_simps)
  from st [OF this cond_step.unlock [OF demo_at(1)]]
  have "cond_reachable 3 (demo Idle LockAfterDone Idle None 1 0 0)" by (simp add: demo_simps)
  from st [OF this cond_step.wait_done [OF demo_at(2)]]
  have "cond_reachable 3 (demo Idle Consume Idle (Some 1) 1 0 0)" by (simp add: demo_simps)
  from Wait_consume_never_blocks [OF this demo_at(2)] show ?thesis .
qed

text \<open>A run in which a second signal finds the channel full and a waiter can take the token.\<close>

theorem Signal_hangs_only_on_cancellation_witness:
  "\<exists>j s'. at (demo Select Select SignalSend (Some 2) 1 0 0) j Select \<and>
     cond_step (demo Select Select SignalSend (Some 2) 1 0 0) s' \<and> sending s' 2 \<and> ch_send (cs_cond s') \<noteq> None"
proof -
  let ?s = "demo Select Select SignalSend (Some 2) (Suc 0) 0 0"
  have "cond_reachable 3 (demo Select Select Idle None 0 2 0)" using demo_waiters(1) [of 0] by simp
  from cond_reachable.step [OF demo_signalled [OF this] cond_step.signal [OF demo_at(3)]]
  have "cond_reachable 3 ?s" by (simp add: demo_simps)
  moreover have "sending ?s 2" unfolding sending_def by (intro disjI1 demo_at(3))
  moreover have "n_at ?s LockAfterDone < 2" by (simp add: n_at_def demo_def)
  ultimately have "ch_send (cs_cond ?s) \<noteq> None \<or>
    (\<exists>j s'. at ?s j Select \<and> cond_step ?s s' \<and> at s' j LockAfterToken \<and> sending s' 2 \<and> ch_send (cs_cond s') \<noteq> None)"
    by (rule Signal_hangs_only_on_cancellation)
  moreover have "ch_send (cs_cond ?s) = None" by (simp add: demo_simps)
  ultimately show ?thesis by auto
qed

end
