(* ===== verification/LinkedQueue.thy ===== *)
theory LinkedQueue
  imports Prelude
begin

text \<open>
  The singly linked list of exporter/exporterhelper/internal/queue/memory\_queue.go at the level
  of pointers: a heap of nodes with \<open>next\<close> pointers and a bump allocator. The interface
  \<open>fifo_queue\<close> states what the memory queue relies on; \<open>linkedQueue\<close> is shown to provide it, with
  the elements on the path from \<open>head\<close> as its abstraction.
\<close>

section \<open>The interface of a first-in first-out queue\<close>

locale fifo_queue =
  fixes inv :: "'q \<Rightarrow> bool" and elems :: "'q \<Rightarrow> 'e list"
    and empty :: 'q and push :: "'q \<Rightarrow> 'e \<Rightarrow> 'q"
    and hasElements :: "'q \<Rightarrow> bool" and pop :: "'q \<Rightarrow> ('e \<times> 'q) option"
  assumes inv_empty: "inv empty" and elems_empty: "elems empty = []"
    and inv_push: "inv q \<Longrightarrow> inv (push q e)" and elems_push: "inv q \<Longrightarrow> elems (push q e) = elems q @ [e]"
    and hasElements_iff: "inv q \<Longrightarrow> hasElements q \<longleftrightarrow> elems q \<noteq> []"
    and pop_None: "inv q \<Longrightarrow> pop q = None \<longleftrightarrow> elems q = []"
    and pop_Some: "inv q \<Longrightarrow> pop q = Some (e, q') \<Longrightarrow> inv q' \<and> elems q = e # elems q'"
begin

lemma pop_total: "inv q \<Longrightarrow> hasElements q \<Longrightarrow> \<exists>e q'. pop q = Some (e, q')"
  using pop_None [of q] hasElements_iff [of q] by (cases "pop q") auto

lemma push_all: "inv q \<Longrightarrow> inv (fold (\<lambda>e q. push q e) es q) \<and>
    elems (fold (\<lambda>e q. push q e) es q) = elems q @ es"
  by (induction es arbitrary: q) (auto simp: inv_push elems_push)

text \<open>Elements come out in the order they were pushed.\<close>

lemma pop_first_pushed:
  "pop (fold (\<lambda>e q. push q e) (e # es) empty) = Some (e', q') \<Longrightarrow> e' = e \<and> elems q' = es \<and> inv q'"
  using push_all [OF inv_empty, of "e # es"] pop_Some [of "fold (\<lambda>e q. push q e) (e # es) empty" e' q']
  by (simp add: elems_empty)

end

section \<open>The linked list\<close>

record ('c, 'a) node =
  nd_ctx :: 'c
  nd_data :: 'a
  nd_done :: nat
  nd_next :: "nat option"

type_synonym ('c, 'a) entry = "'c \<times> 'a \<times> nat"

record ('c, 'a) linkedQueue =
  lq_head :: "nat option"
  lq_tail :: "nat option"
  lq_heap :: "nat \<rightharpoonup> ('c, 'a) node"
  lq_alloc :: nat

definition lq_empty :: "('c, 'a) linkedQueue" where
  "lq_empty = \<lparr>lq_head = None, lq_tail = None, lq_heap = Map.empty, lq_alloc = 0\<rparr>"

fun lq_push :: "('c, 'a) linkedQueue \<Rightarrow> ('c, 'a) entry \<Rightarrow> ('c, 'a) linkedQueue" where
  "lq_push l (ctx, data, done) =
     (let n = lq_alloc l;
          l1 = l\<lparr>lq_alloc := n + 1,
                 lq_heap := (lq_heap l)(n \<mapsto> \<lparr>nd_ctx = ctx, nd_data = data, nd_done = done, nd_next = None\<rparr>)\<rparr>
      in case lq_tail l1 of
           None \<Rightarrow> l1\<lparr>lq_head := Some n, lq_tail := Some n\<rparr>
         | Some t \<Rightarrow> l1\<lparr>lq_heap := (lq_heap l1)(t := map_option (nd_next_update (\<lambda>_. Some n)) (lq_heap l1 t)),
                       lq_tail := Some n\<rparr>)"

definition lq_hasElements :: "('c, 'a) linkedQueue \<Rightarrow> bool" where
  "lq_hasElements l \<longleftrightarrow> lq_head l \<noteq> None"

definition lq_pop :: "('c, 'a) linkedQueue \<Rightarrow> (('c, 'a) entry \<times> ('c, 'a) linkedQueue) option" where
  "lq_pop l =
     (case lq_head l of
        None \<Rightarrow> None
      | Some n \<Rightarrow>
          (case lq_heap l n of
             None \<Rightarrow> None
           | Some nd \<Rightarrow>
               let l1 = l\<lparr>lq_head := nd_next nd\<rparr>;
                   l2 = (if lq_head l1 = None then l1\<lparr>lq_tail := None\<rparr> else l1);
                   l3 = l2\<lparr>lq_heap := (lq_heap l2)(n \<mapsto> nd\<lparr>nd_next := None\<rparr>)\<rparr>
               in Some ((nd_ctx nd, nd_data nd, nd_done nd), l3)))"

section \<open>Abstraction\<close>

definition nd_entry :: "('c, 'a) node \<Rightarrow> ('c, 'a) entry" where
  "nd_entry nd = (nd_ctx nd, nd_data nd, nd_done nd)"

fun lq_path :: "(nat \<rightharpoonup> ('c, 'a) node) \<Rightarrow> nat option \<Rightarrow> nat list \<Rightarrow> bool" where
  "lq_path h p [] \<longleftrightarrow> p = None"
| "lq_path h p (a # as) \<longleftrightarrow> p = Some a \<and> (\<exists>nd. h a = Some nd \<and> lq_path h (nd_next nd) as)"

fun lq_walk :: "nat \<Rightarrow> (nat \<rightharpoonup> ('c, 'a) node) \<Rightarrow> nat option \<Rightarrow> ('c, 'a) entry list" where
  "lq_walk (Suc n) h (Some a) =
     (case h a of None \<Rightarrow> [] | Some nd \<Rightarrow> nd_entry nd # lq_walk n h (nd_next nd))"
| "lq_walk _ h _ = []"

definition lq_elems :: "('c, 'a) linkedQueue \<Rightarrow> ('c, 'a) entry list" where
  "lq_elems l = lq_walk (lq_alloc l) (lq_heap l) (lq_head l)"

definition lq_ok :: "('c, 'a) linkedQueue \<Rightarrow> nat list \<Rightarrow> bool" where
  "lq_ok l as \<longleftrightarrow> lq_path (lq_heap l) (lq_head l) as \<and> distinct as \<and> (\<forall>a \<in> set as. a < lq_alloc l) \<and>
     lq_tail l = (if as = [] then None else Some (last as))"

definition lq_inv :: "('c, 'a) linkedQueue \<Rightarrow> bool" where
  "lq_inv l \<longleftrightarrow> (\<exists>as. lq_ok l as)"

lemma lq_path_upd: "a \<notin> set as \<Longrightarrow> lq_path (h(a := v)) p as \<longleftrightarrow> lq_path h p as"
  by (induction as arbitrary: p) auto

lemma lq_path_mem: "lq_path h p as \<Longrightarrow> a \<in> set as \<Longrightarrow> \<exists>nd. h a = Some nd"
  by (induction as arbitrary: p) auto

lemma lq_path_append:
  "lq_path h p (as @ [t]) \<Longrightarrow> distinct (as @ [t]) \<Longrightarrow> n \<notin> set (as @ [t]) \<Longrightarrow>
   lq_path ((h(n \<mapsto> new))(t := map_option (nd_next_update (\<lambda>_. Some n)) (h t))) p (as @ [t, n]) \<longleftrightarrow>
   nd_next new = None"
  by (induction as arbitrary: p) (auto simp: lq_path_upd)

lemma lq_walk_path:
  "lq_path h p as \<Longrightarrow> length as \<le> n \<Longrightarrow> lq_walk n h p = map (nd_entry \<circ> the \<circ> h) as"
proof (induction as arbitrary: n p)
  case Nil
  then show ?case by (cases n) auto
next
  case (Cons a as)
  then obtain m where "n = Suc m" by (cases n) auto
  with Cons show ?case by auto
qed

lemma lq_ok_elems: "lq_ok l as \<Longrightarrow> lq_elems l = map (nd_entry \<circ> the \<circ> lq_heap l) as"
proof -
  assume ok: "lq_ok l as"
  then have "set as \<subseteq> {..< lq_alloc l}" "distinct as" by (auto simp: lq_ok_def)
  then have "length as \<le> lq_alloc l"
    by (metis card_lessThan card_mono distinct_card finite_lessThan)
  with ok show ?thesis by (simp add: lq_elems_def lq_ok_def lq_walk_path)
qed

lemma lq_push_ok:
  assumes "lq_ok l as"
  shows "lq_ok (lq_push l e) (as @ [lq_alloc l])" and "lq_elems (lq_push l e) = lq_elems l @ [e]"
proof -
  obtain ctx data d where e: "e = (ctx, data, d)" by (cases e)
  show ok: "lq_ok (lq_push l e) (as @ [lq_alloc l])"
  proof (cases as rule: rev_cases)
    case Nil
    with assms show ?thesis by (simp add: lq_ok_def e Let_def)
  next
    case (snoc bs t)
    with assms lq_path_append [of "lq_heap l" "lq_head l" bs t "lq_alloc l"
        "\<lparr>nd_ctx = ctx, nd_data = data, nd_done = d, nd_next = None\<rparr>"]
    show ?thesis by (auto simp: lq_ok_def e Let_def less_Suc_eq)
  qed
  have fresh: "lq_alloc l \<notin> set as" using assms by (auto simp: lq_ok_def)
  have "map (nd_entry \<circ> the \<circ> lq_heap (lq_push l e)) as = map (nd_entry \<circ> the \<circ> lq_heap l) as"
    (is "map ?f as = map ?g as")
  proof (rule map_cong [OF refl])
    fix a
    assume "a \<in> set as"
    then have "a \<noteq> lq_alloc l" using fresh by auto
    moreover have "\<exists>nd. lq_heap l a = Some nd"
      using assms \<open>a \<in> set as\<close> unfolding lq_ok_def
      by (auto dest: lq_path_mem)
    ultimately show "?f a = ?g a"
      by (auto simp: e Let_def nd_entry_def split: option.splits)
  qed
  then show "lq_elems (lq_push l e) = lq_elems l @ [e]"
    using lq_ok_elems [OF ok] lq_ok_elems [OF assms] fresh
    by (auto simp: e Let_def nd_entry_def split: option.splits)
qed

lemma lq_pop_ok:
  assumes "lq_ok l (a # as)"
  shows "\<exists>nd l'. lq_heap l a = Some nd \<and> lq_pop l = Some (nd_entry nd, l') \<and> lq_ok l' as \<and>
    lq_elems l = nd_entry nd # lq_elems l'"
proof -
  from assms obtain nd where nd: "lq_head l = Some a" "lq_heap l a = Some nd"
      "lq_path (lq_heap l) (nd_next nd) as" "a \<notin> set as" "distinct as" "\<forall>b \<in> set as. b < lq_alloc l"
      "lq_tail l = (if as = [] then Some a else Some (last as))"
    by (auto simp: lq_ok_def)
  have nxt: "nd_next nd = None \<longleftrightarrow> as = []" using nd(3) by (cases as) auto
  obtain l' where pop: "lq_pop l = Some (nd_entry nd, l')" by (simp add: lq_pop_def nd nd_entry_def Let_def)
  with nd nxt have ok: "lq_ok l' as"
    by (auto simp: lq_pop_def lq_ok_def Let_def lq_path_upd split: if_splits)
  have heap: "lq_heap l' = (lq_heap l)(a \<mapsto> nd\<lparr>nd_next := None\<rparr>)"
    using pop nd by (auto simp: lq_pop_def Let_def split: if_splits)
  have "map (nd_entry \<circ> the \<circ> lq_heap l') as = map (nd_entry \<circ> the \<circ> lq_heap l) as"
    using nd(4) by (auto simp: heap)
  with lq_ok_elems [OF assms] lq_ok_elems [OF ok] nd(2) pop ok nd(2) show ?thesis by auto
qed

lemma lq_ok_hasElements: "lq_ok l as \<Longrightarrow> lq_hasElements l \<longleftrightarrow> as \<noteq> []"
  by (cases as) (auto simp: lq_ok_def lq_hasElements_def)

lemma lq_ok_elems_Nil: "lq_ok l as \<Longrightarrow> lq_elems l = [] \<longleftrightarrow> as = []"
  by (simp add: lq_ok_elems)

lemma lq_ok_Nil_pop: "lq_ok l [] \<Longrightarrow> lq_pop l = None"
  by (simp add: lq_ok_def lq_pop_def)

interpretation lq: fifo_queue lq_inv lq_elems lq_empty lq_push lq_hasElements lq_pop
proof
  show "lq_inv lq_empty" "lq_elems lq_empty = []"
    by (auto simp: lq_inv_def lq_ok_def lq_empty_def lq_elems_def intro: exI [of _ "[]"])
next
  fix q :: "('a, 'b) linkedQueue" and e
  assume "lq_inv q"
  then show "lq_inv (lq_push q e)" "lq_elems (lq_push q e) = lq_elems q @ [e]"
    by (auto simp: lq_inv_def lq_push_ok simp del: lq_push.simps intro: lq_push_ok)
next
  fix q :: "('a, 'b) linkedQueue"
  assume "lq_inv q"
  then obtain as where ok: "lq_ok q as" by (auto simp: lq_inv_def)
  then show "lq_hasElements q \<longleftrightarrow> lq_elems q \<noteq> []"
    by (simp add: lq_ok_hasElements lq_ok_elems_Nil)
  show "lq_pop q = None \<longleftrightarrow> lq_elems q = []"
  proof (cases as)
    case (Cons a bs)
    with ok lq_pop_ok [of q a bs] show ?thesis by auto
  qed (use ok lq_ok_Nil_pop [of q] lq_ok_elems_Nil [OF ok] in auto)
  show "lq_inv q' \<and> lq_elems q = e # lq_elems q'" if "lq_pop q = Some (e, q')" for e q'
  proof (cases as)
    case (Cons a bs)
    with ok lq_pop_ok [of q a bs] that show ?thesis by (auto simp: lq_inv_def)
  qed (use ok that lq_ok_Nil_pop [of q] in auto)
qed

declare lq_push.simps [simp del]

end
