(* ===== verification/MemoryQueue.thy ===== *)
theory MemoryQueue
  imports LinkedQueue
begin

text \<open>
  The in-memory sending queue: exporter/exporterhelper/internal/queue/memory\_queue.go, with the
  consumer loop of async\_queue.go. Each critical section of the mutex is one function on the
  record \<open>mq\<close>; a call that has to wait returns a value saying so and is tried again by a later
  step. The pool of \<open>blockingDone\<close> objects is explicit, with the object \<open>Get\<close> returns as an
  argument. \<open>mq_step\<close> runs producers, consumers, cancellations and shutdown in any order and
  numbers the accepted elements, so that results can be traced back to them.
\<close>

section \<open>State\<close>

datatype ctx = Context nat | WithoutCancel ctx

datatype queue_error = ErrInvalidSize | ErrSizeTooLarge | ErrQueueIsFull | CtxErr

record 'e blockingDone =
  bd_elSize :: int
  bd_ch :: "'e option list"

record ('a, 'e) mq =
  mq_hasRefCounter :: bool
  mq_cap :: int
  mq_items :: "(ctx, 'a) linkedQueue"
  mq_size :: int
  mq_stopped :: bool
  mq_waitForResult :: bool
  mq_blockOnOverflow :: bool
  mq_refs :: "'a \<Rightarrow> int"
  mq_dones :: "'e blockingDone list"
  mq_pool :: "nat list"

record queue_settings =
  qs_capacity :: int
  qs_waitForResult :: bool
  qs_blockOnOverflow :: bool
  qs_hasRefCounter :: bool

definition newMemoryQueue :: "queue_settings \<Rightarrow> ('a, 'e) mq" where
  "newMemoryQueue cfg = \<lparr>mq_hasRefCounter = qs_hasRefCounter cfg, mq_cap = qs_capacity cfg,
     mq_items = lq_empty, mq_size = 0, mq_stopped = False, mq_waitForResult = qs_waitForResult cfg,
     mq_blockOnOverflow = qs_blockOnOverflow cfg, mq_refs = (\<lambda>_. 0), mq_dones = [], mq_pool = []\<rparr>"

section \<open>Operations\<close>

definition ref :: "int \<Rightarrow> 'a \<Rightarrow> ('a, 'e) mq \<Rightarrow> ('a, 'e) mq" where
  "ref d el q = (if mq_hasRefCounter q then q\<lparr>mq_refs := (mq_refs q)(el := mq_refs q el + d)\<rparr> else q)"

text \<open>\<open>sync.Pool.Get\<close>: any pooled object, or a new one when the pool has none to give.\<close>

definition pool_get :: "nat option \<Rightarrow> ('a, 'e) mq \<Rightarrow> nat \<times> ('a, 'e) mq" where
  "pool_get pick q =
     (case pick of
        Some i \<Rightarrow>
          if i < length (mq_pool q)
          then (mq_pool q ! i, q\<lparr>mq_pool := take i (mq_pool q) @ drop (i + 1) (mq_pool q)\<rparr>)
          else (length (mq_dones q), q\<lparr>mq_dones := mq_dones q @ [\<lparr>bd_elSize = 0, bd_ch = []\<rparr>]\<rparr>)
      | None \<Rightarrow> (length (mq_dones q), q\<lparr>mq_dones := mq_dones q @ [\<lparr>bd_elSize = 0, bd_ch = []\<rparr>]\<rparr>))"

definition bd_reset :: "nat \<Rightarrow> int \<Rightarrow> ('a, 'e) mq \<Rightarrow> ('a, 'e) mq" where
  "bd_reset b n q = q\<lparr>mq_dones := (mq_dones q)[b := (mq_dones q ! b)\<lparr>bd_elSize := n\<rparr>]\<rparr>"

datatype ('a, 'e) offer_start = OfferReturns "queue_error option" | OfferAdds int "('a, 'e) mq"

definition Offer :: "('a \<Rightarrow> int) \<Rightarrow> ('a, 'e) mq \<Rightarrow> 'a \<Rightarrow> ('a, 'e) offer_start" where
  "Offer sizeof q el =
     (let elSize = sizeof el
      in if elSize = 0 then OfferReturns None
         else if elSize \<le> 0 then OfferReturns (Some ErrInvalidSize)
         else if mq_cap q < elSize then OfferReturns (Some ErrSizeTooLarge)
         else OfferAdds elSize (ref 1 el q))"

definition Offer_failed :: "'a \<Rightarrow> queue_error \<Rightarrow> ('a, 'e) mq \<Rightarrow> queue_error \<times> ('a, 'e) mq" where
  "Offer_failed el e q = (e, ref (-1) el q)"

datatype ('a, 'e) add_result = AddFails queue_error | AddWaits | Added nat "('a, 'e) mq"

definition add :: "nat option \<Rightarrow> ('a, 'e) mq \<Rightarrow> ctx \<Rightarrow> 'a \<Rightarrow> int \<Rightarrow> ('a, 'e) add_result" where
  "add pick q ctx el elSize =
     (if mq_cap q < add64 (mq_size q) elSize
      then if mq_blockOnOverflow q then AddWaits else AddFails ErrQueueIsFull
      else let q1 = q\<lparr>mq_size := add64 (mq_size q) elSize\<rparr>
           in case pool_get pick q1 of (b, q2) \<Rightarrow>
                let q3 = bd_reset b elSize q2;
                    ctx' = (if mq_waitForResult q3 then ctx else WithoutCancel ctx)
                in Added b (q3\<lparr>mq_items := lq_push (mq_items q3) (ctx', el, b)\<rparr>))"

datatype ('a, 'e) read_result =
  ReadItem ctx 'a nat "('a, 'e) mq" | ReadStopped | ReadWaits

definition Read :: "('a, 'e) mq \<Rightarrow> ('a, 'e) read_result" where
  "Read q =
     (if lq_hasElements (mq_items q)
      then case lq_pop (mq_items q) of
             Some ((ctx, el, b), l') \<Rightarrow> ReadItem ctx el b (q\<lparr>mq_items := l'\<rparr>)
           | None \<Rightarrow> ReadWaits
      else if mq_stopped q then ReadStopped else ReadWaits)"

text \<open>\<open>onDone\<close>: \<open>None\<close> when the send to the result channel (capacity one) would block.\<close>

definition onDone :: "nat \<Rightarrow> 'e option \<Rightarrow> ('a, 'e) mq \<Rightarrow> ('a, 'e) mq option" where
  "onDone b err q =
     (let q1 = q\<lparr>mq_size := sub64 (mq_size q) (bd_elSize (mq_dones q ! b))\<rparr>
      in if mq_waitForResult q1
         then if bd_ch (mq_dones q1 ! b) = []
              then Some (q1\<lparr>mq_dones := (mq_dones q1)[b := (mq_dones q1 ! b)\<lparr>bd_ch := [err]\<rparr>]\<rparr>)
              else None
         else Some (q1\<lparr>mq_pool := b # mq_pool q1\<rparr>))"

text \<open>The first branch of the select at the end of \<open>Offer\<close>: the received result.\<close>

definition Offer_result :: "nat \<Rightarrow> ('a, 'e) mq \<Rightarrow> ('e option \<times> ('a, 'e) mq) option" where
  "Offer_result b q =
     (case bd_ch (mq_dones q ! b) of
        [] \<Rightarrow> None
      | e # es \<Rightarrow> Some (e, q\<lparr>mq_dones := (mq_dones q)[b := (mq_dones q ! b)\<lparr>bd_ch := es\<rparr>],
                            mq_pool := b # mq_pool q\<rparr>))"

definition Shutdown :: "('a, 'e) mq \<Rightarrow> ('a, 'e) mq" where
  "Shutdown q = q\<lparr>mq_stopped := True\<rparr>"

definition Size :: "('a, 'e) mq \<Rightarrow> int" where
  "Size q = mq_size q"

section \<open>Producers and consumers\<close>

text \<open>
  The system around the queue: the elements the queue accepted, in order; the ones read and not
  yet finished (with their \<open>blockingDone\<close>); the ones a consumer of async\_queue.go is still in
  \<open>consumeFunc\<close> with; the producers that wait for a result. An accepted
  element is numbered by its position in \<open>added\<close>.
\<close>

record ('a, 'e) mq_system =
  ms_q :: "('a, 'e) mq"
  ms_added :: "'a list"
  ms_read :: "'a list"
  ms_queued :: "nat list"
  ms_inflight :: "(nat \<times> 'a \<times> nat) list"
  ms_consuming :: "'a list"
  ms_awaiting :: "(nat \<times> nat) list"
  ms_done :: "(nat \<times> 'e option) list"
  ms_results :: "(nat \<times> 'e option) list"

definition mq_start :: "queue_settings \<Rightarrow> ('a, 'e) mq_system" where
  "mq_start cfg = \<lparr>ms_q = newMemoryQueue cfg, ms_added = [], ms_read = [], ms_queued = [],
     ms_inflight = [], ms_consuming = [], ms_awaiting = [], ms_done = [], ms_results = []\<rparr>"

inductive mq_step :: "('a \<Rightarrow> int) \<Rightarrow> ('a, 'e) mq_system \<Rightarrow> ('a, 'e) mq_system \<Rightarrow> bool"
  for sizeof where
  offer_returns: "Offer sizeof (ms_q s) el = OfferReturns r \<Longrightarrow> mq_step sizeof s s"
| offer_fails: "Offer sizeof (ms_q s) el = OfferAdds n q \<Longrightarrow> add pick q ctx el n = AddFails e \<Longrightarrow>
    Offer_failed el e q = (e', q') \<Longrightarrow> mq_step sizeof s (s\<lparr>ms_q := q'\<rparr>)"
| offer_cancelled: "Offer sizeof (ms_q s) el = OfferAdds n q \<Longrightarrow> add pick q ctx el n = AddWaits \<Longrightarrow>
    Offer_failed el CtxErr q = (e', q') \<Longrightarrow> mq_step sizeof s (s\<lparr>ms_q := q'\<rparr>)"
| offer_added: "Offer sizeof (ms_q s) el = OfferAdds n q \<Longrightarrow> add pick q ctx el n = Added b q' \<Longrightarrow>
    mq_step sizeof s (s\<lparr>ms_q := q', ms_added := ms_added s @ [el],
      ms_queued := ms_queued s @ [length (ms_added s)],
      ms_awaiting := (if mq_waitForResult q' then (b, length (ms_added s)) # ms_awaiting s
                      else ms_awaiting s)\<rparr>)"
| read: "Read (ms_q s) = ReadItem ctx el b q' \<Longrightarrow> ms_queued s = t # ts \<Longrightarrow>
    mq_step sizeof s (s\<lparr>ms_q := q', ms_read := ms_read s @ [el], ms_queued := ts,
      ms_inflight := ms_inflight s @ [(b, el, t)], ms_consuming := el # ms_consuming s\<rparr>)"
| finished: "ms_inflight s = xs @ (b, el, t) # ys \<Longrightarrow> onDone b err (ms_q s) = Some q' \<Longrightarrow>
    mq_step sizeof s (s\<lparr>ms_q := q', ms_inflight := xs @ ys, ms_done := (t, err) # ms_done s\<rparr>)"
| consumed: "ms_consuming s = xs @ el # ys \<Longrightarrow>
    mq_step sizeof s (s\<lparr>ms_q := ref (-1) el (ms_q s), ms_consuming := xs @ ys\<rparr>)"
| result: "ms_awaiting s = xs @ (b, t) # ys \<Longrightarrow> Offer_result b (ms_q s) = Some (err, q') \<Longrightarrow>
    mq_step sizeof s (s\<lparr>ms_q := q', ms_awaiting := xs @ ys, ms_results := (t, err) # ms_results s\<rparr>)"
| result_cancelled: "ms_awaiting s = xs @ (b, t) # ys \<Longrightarrow>
    mq_step sizeof s (s\<lparr>ms_awaiting := xs @ ys\<rparr>)"
| shutdown: "mq_step sizeof s (s\<lparr>ms_q := Shutdown (ms_q s)\<rparr>)"

inductive mq_reachable :: "('a \<Rightarrow> int) \<Rightarrow> queue_settings \<Rightarrow> ('a, 'e) mq_system \<Rightarrow> bool"
  for sizeof cfg where
  start: "mq_reachable sizeof cfg (mq_start cfg)"
| step: "mq_reachable sizeof cfg s \<Longrightarrow> mq_step sizeof s s' \<Longrightarrow> mq_reachable sizeof cfg s'"

section \<open>Invariants\<close>

text \<open>
  The live entries of a system are the queued and the in-flight ones, as triples of the
  \<open>blockingDone\<close>, the element and its number. The three invariants below do not depend on their
  order.
\<close>

type_synonym 'a live = "(nat \<times> 'a \<times> nat) list"

definition queued_entries :: "('a, 'e) mq_system \<Rightarrow> 'a live" where
  "queued_entries s =
     map2 (\<lambda>(ctx, el, b) t. (b, el, t)) (lq_elems (mq_items (ms_q s))) (ms_queued s)"

definition live_entries :: "('a, 'e) mq_system \<Rightarrow> 'a live" where
  "live_entries s = queued_entries s @ ms_inflight s"

definition fifo_ok :: "('a, 'e) mq_system \<Rightarrow> bool" where
  "fifo_ok s \<longleftrightarrow> lq_inv (mq_items (ms_q s)) \<and>
     ms_added s = ms_read s @ map (fst \<circ> snd) (lq_elems (mq_items (ms_q s))) \<and>
     ms_queued s = [length (ms_read s) ..< length (ms_added s)]"

definition dones_ok :: "('a \<Rightarrow> int) \<Rightarrow> 'a live \<Rightarrow> ('a, 'e) mq \<Rightarrow> bool" where
  "dones_ok sizeof L q \<longleftrightarrow> distinct (map fst L @ mq_pool q) \<and>
     (\<forall>b \<in> set (map fst L @ mq_pool q). b < length (mq_dones q) \<and> bd_ch (mq_dones q ! b) = []) \<and>
     (\<forall>(b, el, t) \<in> set L. bd_elSize (mq_dones q ! b) = sizeof el \<and> 0 < sizeof el)"

definition size_ok :: "('a \<Rightarrow> int) \<Rightarrow> 'a live \<Rightarrow> ('a, 'e) mq \<Rightarrow> bool" where
  "size_ok sizeof L q \<longleftrightarrow> mq_size q = (\<Sum>(b, el, t)\<leftarrow>L. sizeof el) \<and> mq_size q \<le> mq_cap q"

definition results_ok :: "'a live \<Rightarrow> ('a, 'e) mq_system \<Rightarrow> bool" where
  "results_ok L s \<longleftrightarrow>
     distinct (map fst (ms_done s) @ map (snd \<circ> snd) L) \<and>
     (\<forall>t \<in> set (map fst (ms_done s) @ map (snd \<circ> snd) L). t < length (ms_added s)) \<and>
     set (ms_results s) \<subseteq> set (ms_done s) \<and>
     distinct (map fst (ms_awaiting s)) \<and> distinct (map fst (ms_results s) @ map snd (ms_awaiting s)) \<and>
     (ms_awaiting s \<noteq> [] \<longrightarrow> mq_waitForResult (ms_q s)) \<and>
     (\<forall>(b, t) \<in> set (ms_awaiting s). (\<exists>el. (b, el, t) \<in> set L) \<or>
        b < length (mq_dones (ms_q s)) \<and> b \<notin> set (mq_pool (ms_q s)) \<and> b \<notin> fst ` set L \<and>
        (\<exists>e. bd_ch (mq_dones (ms_q s) ! b) = [e] \<and> (t, e) \<in> set (ms_done s)))"

definition refs_ok :: "('a, 'e) mq_system \<Rightarrow> bool" where
  "refs_ok s \<longleftrightarrow> (mq_hasRefCounter (ms_q s) \<longrightarrow>
     mq_refs (ms_q s) = (\<lambda>el. int (count_list (map (fst \<circ> snd) (lq_elems (mq_items (ms_q s)))) el)
                            + int (count_list (ms_consuming s) el)))"

definition config_ok :: "queue_settings \<Rightarrow> ('a, 'e) mq \<Rightarrow> bool" where
  "config_ok cfg q \<longleftrightarrow> mq_cap q = qs_capacity cfg \<and> mq_waitForResult q = qs_waitForResult cfg \<and>
     mq_hasRefCounter q = qs_hasRefCounter cfg \<and> mq_blockOnOverflow q = qs_blockOnOverflow cfg"

subsection \<open>Order does not matter\<close>

lemma dones_ok_perm:
  assumes "mset L = mset L'"
  shows "dones_ok sizeof L q \<longleftrightarrow> dones_ok sizeof L' q"
proof -
  have "mset (map fst L @ mq_pool q) = mset (map fst L' @ mq_pool q)" using assms by simp
  from mset_eq_imp_distinct_iff [OF this] mset_eq_setD [OF this] mset_eq_setD [OF assms]
  show ?thesis unfolding dones_ok_def by simp
qed

lemma sum_list_perm: "mset xs = mset ys \<Longrightarrow> (\<Sum>x\<leftarrow>xs. f x :: int) = (\<Sum>y\<leftarrow>ys. f y)"
  using sum_mset_sum_list [of "map f xs"] sum_mset_sum_list [of "map f ys"] by simp

lemma size_ok_perm: "mset L = mset L' \<Longrightarrow> size_ok sizeof L q \<longleftrightarrow> size_ok sizeof L' q"
  by (simp only: size_ok_def sum_list_perm [of L L'])

lemma results_ok_perm:
  assumes "mset L = mset L'"
  shows "results_ok L s \<longleftrightarrow> results_ok L' s"
proof -
  have m: "mset (map fst (ms_done s) @ map (snd \<circ> snd) L) = mset (map fst (ms_done s) @ map (snd \<circ> snd) L')"
    using assms by simp
  show ?thesis unfolding results_ok_def
    using mset_eq_imp_distinct_iff [OF m] mset_eq_setD [OF m] mset_eq_setD [OF assms] by simp
qed

subsection \<open>Operations\<close>

lemma Offer_addsD:
  assumes "Offer sizeof q el = OfferAdds n q'"
  shows "n = sizeof el" "0 < sizeof el" "sizeof el \<le> mq_cap q" "q' = ref 1 el q"
  using assms by (auto simp: Offer_def Let_def split: if_splits)

lemma ref_simps [simp]:
  "mq_items (ref d el q) = mq_items q" "mq_size (ref d el q) = mq_size q" "mq_cap (ref d el q) = mq_cap q"
  "mq_dones (ref d el q) = mq_dones q" "mq_pool (ref d el q) = mq_pool q"
  "mq_waitForResult (ref d el q) = mq_waitForResult q" "mq_hasRefCounter (ref d el q) = mq_hasRefCounter q"
  "mq_blockOnOverflow (ref d el q) = mq_blockOnOverflow q" "mq_stopped (ref d el q) = mq_stopped q"
  by (simp_all add: ref_def)

lemma ref_undo: "ref (-1) el (ref 1 el q) = q"
  by (simp add: ref_def)

lemma pool_get_cases:
  assumes "pool_get pick q = (b, q2)"
  obtains (pooled) i where "i < length (mq_pool q)" "b = mq_pool q ! i"
      "q2 = q\<lparr>mq_pool := take i (mq_pool q) @ drop (Suc i) (mq_pool q)\<rparr>"
    | (fresh) "b = length (mq_dones q)" "q2 = q\<lparr>mq_dones := mq_dones q @ [\<lparr>bd_elSize = 0, bd_ch = []\<rparr>]\<rparr>"
  using assms by (auto simp: pool_get_def split: option.splits if_splits)

lemma removed_nth:
  assumes "distinct xs" "i < length xs"
  shows "distinct (take i xs @ drop (Suc i) xs)" "set (take i xs @ drop (Suc i) xs) = set xs - {xs ! i}"
proof -
  have xs: "xs = take i xs @ xs ! i # drop (Suc i) xs" using assms(2) by (simp add: id_take_nth_drop)
  with assms(1) have "distinct (take i xs @ xs ! i # drop (Suc i) xs)" by simp
  then show "distinct (take i xs @ drop (Suc i) xs)" by simp
  show "set (take i xs @ drop (Suc i) xs) = set xs - {xs ! i}"
    using \<open>distinct (take i xs @ xs ! i # drop (Suc i) xs)\<close> arg_cong [OF xs, of set] by auto
qed

text \<open>What \<open>sync.Pool.Get\<close> followed by \<open>reset\<close> gives: an object nobody else has, with an empty channel.\<close>

lemma pool_get_reset:
  assumes ok: "dones_ok sizeof L q" and get: "pool_get pick q = (b, q2)" and q3: "q3 = bd_reset b n q2"
  shows "b \<notin> set (map fst L)" "b \<in> set (mq_pool q) \<or> b = length (mq_dones q)"
    "b < length (mq_dones q3)" "mq_dones q3 ! b = \<lparr>bd_elSize = n, bd_ch = []\<rparr>"
    "distinct (mq_pool q3)" "set (mq_pool q3) = set (mq_pool q) - {b}"
    "length (mq_dones q) \<le> length (mq_dones q3)"
    "\<And>c. c < length (mq_dones q) \<Longrightarrow> c \<noteq> b \<Longrightarrow> mq_dones q3 ! c = mq_dones q ! c"
    "q3 = q\<lparr>mq_dones := mq_dones q3, mq_pool := mq_pool q3\<rparr>"
proof -
  have d: "distinct (map fst L @ mq_pool q)"
    "\<And>c. c \<in> set (map fst L @ mq_pool q) \<Longrightarrow> c < length (mq_dones q) \<and> bd_ch (mq_dones q ! c) = []"
    using ok by (auto simp: dones_ok_def)
  have "b \<notin> set (map fst L) \<and> (b \<in> set (mq_pool q) \<or> b = length (mq_dones q)) \<and>
    b < length (mq_dones q3) \<and> mq_dones q3 ! b = \<lparr>bd_elSize = n, bd_ch = []\<rparr> \<and>
    distinct (mq_pool q3) \<and> set (mq_pool q3) = set (mq_pool q) - {b} \<and>
    length (mq_dones q) \<le> length (mq_dones q3) \<and>
    (\<forall>c. c < length (mq_dones q) \<longrightarrow> c \<noteq> b \<longrightarrow> mq_dones q3 ! c = mq_dones q ! c)"
    using get
  proof (cases rule: pool_get_cases)
    case (pooled i)
    then have b: "b \<in> set (mq_pool q)" by simp
    with d have lt: "b < length (mq_dones q)" "bd_ch (mq_dones q ! b) = []" by auto
    have "b \<notin> set (map fst L)" using b d(1) by auto
    moreover have "(mq_dones q ! b)\<lparr>bd_elSize := n\<rparr> = \<lparr>bd_elSize = n, bd_ch = []\<rparr>"
      using lt(2) by (cases "mq_dones q ! b") simp
    ultimately show ?thesis using pooled removed_nth [of "mq_pool q" i] d(1) lt b
      by (simp add: q3 bd_reset_def)
  next
    case fresh
    then have "b \<notin> set (map fst L @ mq_pool q)" using d(2) by blast
    with fresh d(1) show ?thesis by (simp add: q3 bd_reset_def nth_append)
  qed
  then show "b \<notin> set (map fst L)" "b \<in> set (mq_pool q) \<or> b = length (mq_dones q)"
    "b < length (mq_dones q3)" "mq_dones q3 ! b = \<lparr>bd_elSize = n, bd_ch = []\<rparr>"
    "distinct (mq_pool q3)" "set (mq_pool q3) = set (mq_pool q) - {b}"
    "length (mq_dones q) \<le> length (mq_dones q3)"
    "\<And>c. c < length (mq_dones q) \<Longrightarrow> c \<noteq> b \<Longrightarrow> mq_dones q3 ! c = mq_dones q ! c"
    by auto
  show "q3 = q\<lparr>mq_dones := mq_dones q3, mq_pool := mq_pool q3\<rparr>"
    using get by (cases rule: pool_get_cases) (auto simp: q3 bd_reset_def)
qed

lemma dones_ok_nonneg: "dones_ok sizeof L q \<Longrightarrow> 0 \<le> (\<Sum>(b, el, t)\<leftarrow>L. sizeof el)"
  by (intro sum_list_nonneg_int) (force simp: dones_ok_def)

lemma add_adds:
  assumes ok: "dones_ok sizeof L q" "size_ok sizeof L q" and cap: "2 * mq_cap q \<le> max_i64"
    and el: "0 < sizeof el" "sizeof el \<le> mq_cap q" and added: "add pick q ctx el (sizeof el) = Added b q'"
  shows "dones_ok sizeof ((b, el, t) # L) q'" "size_ok sizeof ((b, el, t) # L) q'"
    and "b \<notin> fst ` set L" "b \<in> set (mq_pool q) \<or> b = length (mq_dones q)"
    and "\<exists>ctx'. mq_items q' = lq_push (mq_items q) (ctx', el, b)"
    and "length (mq_dones q) \<le> length (mq_dones q')" "set (mq_pool q') \<subseteq> set (mq_pool q)"
    and "\<And>c. c < length (mq_dones q) \<Longrightarrow> c \<noteq> b \<Longrightarrow> mq_dones q' ! c = mq_dones q ! c"
    and "config_ok cfg q' \<longleftrightarrow> config_ok cfg q" "mq_refs q' = mq_refs q"
proof -
  have size: "mq_size q = (\<Sum>(b, el, t)\<leftarrow>L. sizeof el)" "mq_size q \<le> mq_cap q" "0 \<le> mq_size q"
    using ok dones_ok_nonneg [OF ok(1)] by (auto simp: size_ok_def)
  then have wrap: "add64 (mq_size q) (sizeof el) = mq_size q + sizeof el"
    using el cap by (intro wrap64_id in_i64_nonneg) auto
  let ?q1 = "q\<lparr>mq_size := mq_size q + sizeof el\<rparr>"
  have fits: "mq_size q + sizeof el \<le> mq_cap q"
    using added by (auto simp: add_def wrap split: if_splits)
  obtain q2 ctx' where get: "pool_get pick ?q1 = (b, q2)"
    and q': "q' = (bd_reset b (sizeof el) q2)\<lparr>mq_items := lq_push (mq_items (bd_reset b (sizeof el) q2)) (ctx', el, b)\<rparr>"
    using added fits by (auto simp: add_def wrap Let_def split: if_splits prod.splits)
  have ok1: "dones_ok sizeof L ?q1" using ok(1) by (simp add: dones_ok_def)
  note g = pool_get_reset [where n = "sizeof el", OF ok1 get refl]
  let ?q3 = "bd_reset b (sizeof el) q2"
  have same: "mq_items ?q3 = mq_items q" "mq_size ?q3 = mq_size q + sizeof el" "mq_cap ?q3 = mq_cap q"
    "mq_refs ?q3 = mq_refs q" "config_ok cfg ?q3 \<longleftrightarrow> config_ok cfg q"
    by (subst g(9), simp add: config_ok_def)+
  have b: "b \<notin> fst ` set L" using g(1) by simp
  have old: "mq_dones ?q3 ! c = mq_dones ?q1 ! c" if "c \<in> fst ` set L \<union> set (mq_pool ?q3)" for c
  proof (rule g(8))
    show "c < length (mq_dones ?q1)" using that g(6) ok(1) by (auto simp: dones_ok_def)
    show "c \<noteq> b" using that g(6) b by auto
  qed
  show "dones_ok sizeof ((b, el, t) # L) q'"
    unfolding dones_ok_def
  proof (intro conjI ballI)
    have "distinct (map fst L @ mq_pool q)" using ok(1) by (simp add: dones_ok_def)
    then show "distinct (map fst ((b, el, t) # L) @ mq_pool q')" using g(5,6) b by (auto simp: q')
  next
    fix c
    assume c: "c \<in> set (map fst ((b, el, t) # L) @ mq_pool q')"
    have "c < length (mq_dones ?q3) \<and> bd_ch (mq_dones ?q3 ! c) = []"
    proof (cases "c = b")
      case True
      with g(3,4) show ?thesis by simp
    next
      case False
      with c have c': "c \<in> fst ` set L \<union> set (mq_pool ?q3)" by (auto simp: q')
      then have "c \<in> set (map fst L @ mq_pool q)" using g(6) by auto
      then have "c < length (mq_dones q) \<and> bd_ch (mq_dones q ! c) = []" using ok(1) by (auto simp: dones_ok_def)
      with old [OF c'] g(7) show ?thesis by simp
    qed
    then show "c < length (mq_dones q')" "bd_ch (mq_dones q' ! c) = []" by (simp_all add: q')
  next
    fix x
    assume "x \<in> set ((b, el, t) # L)"
    moreover have "bd_elSize (mq_dones ?q3 ! fst x) = sizeof (fst (snd x)) \<and> 0 < sizeof (fst (snd x))"
      if "x \<in> set L"
      using that ok(1) old [of "fst x"] by (force simp: dones_ok_def)
    ultimately show "case x of (b, el, t) \<Rightarrow> bd_elSize (mq_dones q' ! b) = sizeof el \<and> 0 < sizeof el"
      using g(4) el(1) by (auto simp: q')
  qed
  show "size_ok sizeof ((b, el, t) # L) q'" using size fits by (simp add: size_ok_def q' same)
  show "b \<notin> fst ` set L" "b \<in> set (mq_pool q) \<or> b = length (mq_dones q)" using b g(2) by auto
  show "\<exists>ctx'. mq_items q' = lq_push (mq_items q) (ctx', el, b)" using q' same by auto
  show "length (mq_dones q) \<le> length (mq_dones q')" "set (mq_pool q') \<subseteq> set (mq_pool q)"
    using g(6,7) by (auto simp: q')
  show "\<And>c. c < length (mq_dones q) \<Longrightarrow> c \<noteq> b \<Longrightarrow> mq_dones q' ! c = mq_dones q ! c"
    using g(8) by (simp add: q')
  show "config_ok cfg q' \<longleftrightarrow> config_ok cfg q" "mq_refs q' = mq_refs q"
    using same by (simp_all add: q' config_ok_def)
qed

lemma onDone_frees:
  assumes ok: "dones_ok sizeof ((b, el, t) # L) q" "size_ok sizeof ((b, el, t) # L) q"
    and cap: "2 * mq_cap q \<le> max_i64"
  obtains q' where "onDone b err q = Some q'" "dones_ok sizeof L q'" "size_ok sizeof L q'"
    "mq_items q' = mq_items q" "mq_refs q' = mq_refs q" "config_ok cfg q' \<longleftrightarrow> config_ok cfg q"
    "length (mq_dones q') = length (mq_dones q)"
    "mq_waitForResult q \<Longrightarrow> mq_pool q' = mq_pool q \<and> bd_ch (mq_dones q' ! b) = [err]"
    "\<And>c. c \<noteq> b \<Longrightarrow> mq_dones q' ! c = mq_dones q ! c"
proof -
  have b: "b < length (mq_dones q)" "bd_ch (mq_dones q ! b) = []" "bd_elSize (mq_dones q ! b) = sizeof el"
    "0 < sizeof el" "b \<notin> fst ` set L" "b \<notin> set (mq_pool q)"
    using ok(1) by (auto simp: dones_ok_def)
  have okL: "dones_ok sizeof L q" using ok(1) by (auto simp: dones_ok_def)
  have "mq_size q - sizeof el = (\<Sum>(b, el, t)\<leftarrow>L. sizeof el)" "mq_size q \<le> mq_cap q"
    using ok(2) by (auto simp: size_ok_def)
  then have wrap: "sub64 (mq_size q) (sizeof el) = (\<Sum>(b, el, t)\<leftarrow>L. sizeof el)"
      and le: "(\<Sum>(b, el, t)\<leftarrow>L. sizeof el) \<le> mq_cap q"
    using dones_ok_nonneg [OF okL] b(4) cap by (auto intro!: wrap64_id in_i64_nonneg)
  let ?q1 = "q\<lparr>mq_size := sub64 (mq_size q) (sizeof el)\<rparr>"
  let ?q' = "if mq_waitForResult q then ?q1\<lparr>mq_dones := (mq_dones q)[b := (mq_dones q ! b)\<lparr>bd_ch := [err]\<rparr>]\<rparr>
    else ?q1\<lparr>mq_pool := b # mq_pool q\<rparr>"
  show ?thesis
  proof (rule that [of ?q'])
    show "onDone b err q = Some ?q'" using b by (simp add: onDone_def Let_def)
    show "dones_ok sizeof L ?q'" using okL b by (auto simp: dones_ok_def nth_list_update)
    show "size_ok sizeof L ?q'" using wrap le by (simp add: size_ok_def)
  qed (use b in \<open>auto simp: config_ok_def nth_list_update\<close>)
qed

lemma Read_reads:
  assumes "lq_inv (mq_items q)" and "Read q = ReadItem ctx el b q'"
  shows "lq_inv (mq_items q')" "lq_elems (mq_items q) = (ctx, el, b) # lq_elems (mq_items q')"
    "q' = q\<lparr>mq_items := mq_items q'\<rparr>"
  using assms lq.pop_Some [of "mq_items q" "(ctx, el, b)" "mq_items q'"]
  by (auto simp: Read_def split: if_splits option.splits prod.splits)

text \<open>All invariants of the system together.\<close>

definition mq_inv :: "('a \<Rightarrow> int) \<Rightarrow> queue_settings \<Rightarrow> ('a, 'e) mq_system \<Rightarrow> bool" where
  "mq_inv sizeof cfg s \<longleftrightarrow> config_ok cfg (ms_q s) \<and> fifo_ok s \<and> refs_ok s \<and>
     dones_ok sizeof (live_entries s) (ms_q s) \<and> size_ok sizeof (live_entries s) (ms_q s) \<and>
     results_ok (live_entries s) s"

lemma mq_invD:
  assumes "mq_inv sizeof cfg s"
  shows "config_ok cfg (ms_q s)" "fifo_ok s" "refs_ok s" "dones_ok sizeof (live_entries s) (ms_q s)"
    "size_ok sizeof (live_entries s) (ms_q s)" "results_ok (live_entries s) s"
  using assms by (auto simp: mq_inv_def)

lemma fifo_ok_lengths: "fifo_ok s \<Longrightarrow> length (ms_queued s) = length (lq_elems (mq_items (ms_q s)))"
  by (auto simp: fifo_ok_def)

lemma results_okD:
  assumes "results_ok L s"
  shows "distinct (map fst (ms_done s) @ map (snd \<circ> snd) L)"
    and "t \<in> set (map fst (ms_done s)) \<union> (snd \<circ> snd) ` set L \<Longrightarrow> t < length (ms_added s)"
    and "set (ms_results s) \<subseteq> set (ms_done s)"
    and "distinct (map fst (ms_awaiting s))" "distinct (map fst (ms_results s) @ map snd (ms_awaiting s))"
    and "ms_awaiting s \<noteq> [] \<Longrightarrow> mq_waitForResult (ms_q s)"
    and "(b, t) \<in> set (ms_awaiting s) \<Longrightarrow> (\<exists>el. (b, el, t) \<in> set L) \<or>
        b < length (mq_dones (ms_q s)) \<and> b \<notin> set (mq_pool (ms_q s)) \<and> b \<notin> fst ` set L \<and>
        (\<exists>e. bd_ch (mq_dones (ms_q s) ! b) = [e] \<and> (t, e) \<in> set (ms_done s))"
  using assms unfolding results_ok_def by (simp, simp, simp, simp, simp, simp, blast)

lemma results_okI:
  assumes "distinct (map fst (ms_done s) @ map (snd \<circ> snd) L)"
    and "\<And>t. t \<in> set (map fst (ms_done s)) \<union> (snd \<circ> snd) ` set L \<Longrightarrow> t < length (ms_added s)"
    and "set (ms_results s) \<subseteq> set (ms_done s)"
    and "distinct (map fst (ms_awaiting s))" "distinct (map fst (ms_results s) @ map snd (ms_awaiting s))"
    and "ms_awaiting s \<noteq> [] \<Longrightarrow> mq_waitForResult (ms_q s)"
    and "\<And>b t. (b, t) \<in> set (ms_awaiting s) \<Longrightarrow> (\<exists>el. (b, el, t) \<in> set L) \<or>
        b < length (mq_dones (ms_q s)) \<and> b \<notin> set (mq_pool (ms_q s)) \<and> b \<notin> fst ` set L \<and>
        (\<exists>e. bd_ch (mq_dones (ms_q s) ! b) = [e] \<and> (t, e) \<in> set (ms_done s))"
  shows "results_ok L s"
  unfolding results_ok_def using assms by (intro conjI ballI; simp add: case_prod_beta)

lemma results_ok_awaited:
  assumes "results_ok L s" "(b, t) \<in> set (ms_awaiting s)"
  shows "t < length (ms_added s)"
    "b \<in> fst ` set L \<or> b < length (mq_dones (ms_q s)) \<and> b \<notin> set (mq_pool (ms_q s))"
proof -
  note d = results_okD [OF assms(1)]
  from d(7) [OF assms(2)] consider el where "(b, el, t) \<in> set L"
    | e where "(t, e) \<in> set (ms_done s)" "b < length (mq_dones (ms_q s))" "b \<notin> set (mq_pool (ms_q s))"
    by blast
  note c = this
  then show "t < length (ms_added s)"
  proof cases
    case (1 el)
    then have "t \<in> (snd \<circ> snd) ` set L" by force
    then show ?thesis by (intro d(2)) simp
  next
    case (2 e)
    then have "t \<in> set (map fst (ms_done s))" by force
    then show ?thesis by (intro d(2)) simp
  qed
  from c show "b \<in> fst ` set L \<or> b < length (mq_dones (ms_q s)) \<and> b \<notin> set (mq_pool (ms_q s))"
    by cases force+
qed

lemma results_ok_added:
  assumes r: "results_ok L s" and b: "b \<notin> fst ` set L"
      "b \<in> set (mq_pool (ms_q s)) \<or> b = length (mq_dones (ms_q s))"
    and len: "length (mq_dones (ms_q s)) \<le> length (mq_dones q')"
    and pool: "set (mq_pool q') \<subseteq> set (mq_pool (ms_q s))"
    and old: "\<And>c. c < length (mq_dones (ms_q s)) \<Longrightarrow> c \<noteq> b \<Longrightarrow> mq_dones q' ! c = mq_dones (ms_q s) ! c"
    and w: "mq_waitForResult q' = mq_waitForResult (ms_q s)"
  shows "results_ok ((b, el, length (ms_added s)) # L) (s\<lparr>ms_q := q', ms_added := ms_added s @ [el],
      ms_queued := ts, ms_awaiting := (if mq_waitForResult q' then (b, length (ms_added s)) # ms_awaiting s
                      else ms_awaiting s)\<rparr>)"
proof -
  let ?t = "length (ms_added s)"
  have nb: "c \<noteq> b" "t < ?t" if "(c, t) \<in> set (ms_awaiting s)" for c t
    using results_ok_awaited [OF r that] b by auto
  have fresh: "b \<notin> fst ` set (ms_awaiting s)" "?t \<notin> snd ` set (ms_awaiting s)" by (auto dest: nb)
  note rd = results_okD [OF r]
  have new: "?t \<notin> set (map fst (ms_done s)) \<union> (snd \<circ> snd) ` set L" using rd(2) [of ?t] by blast
  have res: "?t \<notin> fst ` set (ms_results s)" using new rd(3) by auto
  have aw: "(\<exists>el. (c, el, t) \<in> set L) \<or> c < length (mq_dones q') \<and> c \<notin> set (mq_pool q') \<and> c \<notin> fst ` set L \<and>
        (\<exists>e. bd_ch (mq_dones q' ! c) = [e] \<and> (t, e) \<in> set (ms_done s))"
    if "(c, t) \<in> set (ms_awaiting s)" for c t
  proof -
    have "c \<noteq> b" using nb(1) [OF that] .
    with rd(7) [OF that] show ?thesis
    proof (elim disjE)
      assume c: "c < length (mq_dones (ms_q s)) \<and> c \<notin> set (mq_pool (ms_q s)) \<and> c \<notin> fst ` set L \<and>
        (\<exists>e. bd_ch (mq_dones (ms_q s) ! c) = [e] \<and> (t, e) \<in> set (ms_done s))"
      then have "mq_dones q' ! c = mq_dones (ms_q s) ! c" using old \<open>c \<noteq> b\<close> by blast
      with c len pool show ?thesis by auto
    qed auto
  qed
  have d: "distinct (map fst (ms_done s) @ ?t # map (snd \<circ> snd) L)"
    using rd(1) new by auto
  let ?aw = "if mq_waitForResult q' then (b, ?t) # ms_awaiting s else ms_awaiting s"
  have "distinct (map fst ?aw)" "distinct (map fst (ms_results s) @ map snd ?aw)"
    "?aw \<noteq> [] \<longrightarrow> mq_waitForResult q'" "set (ms_results s) \<subseteq> set (ms_done s)"
    using rd(3-6) fresh res w by auto
  moreover have "\<forall>t \<in> set (map fst (ms_done s) @ map (snd \<circ> snd) ((b, el, ?t) # L)). t < Suc ?t"
    using rd(2) by (force simp: less_Suc_eq)
  moreover have "\<forall>(c, t) \<in> set ?aw. (\<exists>el'. (c, el', t) \<in> set ((b, el, ?t) # L)) \<or>
        c < length (mq_dones q') \<and> c \<notin> set (mq_pool q') \<and> c \<notin> fst ` set ((b, el, ?t) # L) \<and>
        (\<exists>e. bd_ch (mq_dones q' ! c) = [e] \<and> (t, e) \<in> set (ms_done s))"
    using aw nb(1) by (simp split: if_splits) blast
  ultimately show ?thesis using d by (simp add: results_ok_def)
qed

lemma step_added:
  assumes inv: "mq_inv sizeof cfg s" and cap: "2 * qs_capacity cfg \<le> max_i64"
    and offer: "Offer sizeof (ms_q s) el = OfferAdds n q" and add: "add pick q ctx el n = Added b q'"
  shows "mq_inv sizeof cfg (s\<lparr>ms_q := q', ms_added := ms_added s @ [el],
      ms_queued := ms_queued s @ [length (ms_added s)],
      ms_awaiting := (if mq_waitForResult q' then (b, length (ms_added s)) # ms_awaiting s
                      else ms_awaiting s)\<rparr>)" (is "mq_inv _ _ ?s'")
proof -
  note o = Offer_addsD [OF offer] and i = mq_invD [OF inv]
  let ?L = "live_entries s" and ?t = "length (ms_added s)"
  have q: "dones_ok sizeof ?L q" "size_ok sizeof ?L q" "config_ok cfg q"
    using i by (simp_all add: o dones_ok_def size_ok_def config_ok_def)
  have capq: "2 * mq_cap q \<le> max_i64" using q(3) cap by (simp add: config_ok_def)
  have el: "sizeof el \<le> mq_cap q" using o by simp
  note a = add_adds [OF q(1,2) capq o(2) el add [unfolded o(1)]]
  obtain ctx' where push: "mq_items q' = lq_push (mq_items (ms_q s)) (ctx', el, b)"
    using a(5) o(4) by auto
  have linv: "lq_inv (mq_items (ms_q s))" using i(2) by (simp add: fifo_ok_def)
  have elems: "lq_elems (mq_items q') = lq_elems (mq_items (ms_q s)) @ [(ctx', el, b)]"
    using lq.elems_push [OF linv] push by simp
  have L': "mset (live_entries ?s') = mset ((b, el, ?t) # ?L)"
    using fifo_ok_lengths [OF i(2)] elems by (simp add: live_entries_def queued_entries_def)
  have r: "results_ok ?L s" using i(6) .
  show ?thesis unfolding mq_inv_def dones_ok_perm [OF L'] size_ok_perm [OF L'] results_ok_perm [OF L']
  proof (intro conjI)
    show "config_ok cfg (ms_q ?s')" using a(9) q(3) by simp
    show "fifo_ok ?s'" using i(2) lq.inv_push [OF linv] push elems by (simp add: fifo_ok_def)
    show "refs_ok ?s'" using i(3) a(9,10) q(3) elems o(4)
      by (auto simp: refs_ok_def ref_def config_ok_def fun_eq_iff)
    show "dones_ok sizeof ((b, el, ?t) # ?L) (ms_q ?s')" "size_ok sizeof ((b, el, ?t) # ?L) (ms_q ?s')"
      using a(1,2) by simp_all
    show "results_ok ((b, el, ?t) # ?L) ?s'"
    proof (rule results_ok_added [OF r a(3)])
      show "mq_waitForResult q' = mq_waitForResult (ms_q s)" using a(9) [of cfg] q(3) i(1) by (simp add: config_ok_def)
    qed (use a(4,6,7,8) o(4) in simp_all)
  qed
qed

lemma mq_step_read:
  assumes inv: "mq_inv sizeof cfg s" and read: "Read (ms_q s) = ReadItem ctx el b q'"
    and queued: "ms_queued s = t # ts"
  shows "mq_inv sizeof cfg (s\<lparr>ms_q := q', ms_read := ms_read s @ [el], ms_queued := ts,
      ms_inflight := ms_inflight s @ [(b, el, t)], ms_consuming := el # ms_consuming s\<rparr>)"
    (is "mq_inv _ _ ?s'")
proof -
  note i = mq_invD [OF inv]
  have linv: "lq_inv (mq_items (ms_q s))" using i(2) by (simp add: fifo_ok_def)
  note r = Read_reads [OF linv read]
  have L': "mset (live_entries ?s') = mset (live_entries s)"
    using r(2) queued by (simp add: live_entries_def queued_entries_def)
  have q: "mq_dones q' = mq_dones (ms_q s)" "mq_pool q' = mq_pool (ms_q s)" "mq_size q' = mq_size (ms_q s)"
    "mq_refs q' = mq_refs (ms_q s)" "config_ok cfg q' \<longleftrightarrow> config_ok cfg (ms_q s)" "mq_cap q' = mq_cap (ms_q s)"
    "mq_waitForResult q' = mq_waitForResult (ms_q s)" "mq_hasRefCounter q' = mq_hasRefCounter (ms_q s)"
    by (subst r(3), simp add: config_ok_def)+
  show ?thesis unfolding mq_inv_def dones_ok_perm [OF L'] size_ok_perm [OF L'] results_ok_perm [OF L']
  proof (intro conjI)
    show "config_ok cfg (ms_q ?s')" using i(1) q by simp
    have "[length (ms_read s) ..< length (ms_added s)] = t # ts" using i(2) queued by (simp only: fifo_ok_def)
    then have "ts = [Suc (length (ms_read s)) ..< length (ms_added s)]" by (auto simp: upt_eq_Cons_conv)
    then show "fifo_ok ?s'" using i(2) r(1,2) by (simp add: fifo_ok_def)
    show "refs_ok ?s'" using i(3) r(2) by (simp add: refs_ok_def q fun_eq_iff)
    show "dones_ok sizeof (live_entries s) (ms_q ?s')" using i(4) by (simp add: dones_ok_def q)
    show "size_ok sizeof (live_entries s) (ms_q ?s')" using i(5) by (simp add: size_ok_def q)
    show "results_ok (live_entries s) ?s'" using i(6) by (simp add: results_ok_def q)
  qed
qed

lemma mq_step_finished:
  assumes inv: "mq_inv sizeof cfg s" and cap: "2 * qs_capacity cfg \<le> max_i64"
    and inflight: "ms_inflight s = xs @ (b, el, t) # ys" and fin: "onDone b err (ms_q s) = Some q'"
  shows "mq_inv sizeof cfg (s\<lparr>ms_q := q', ms_inflight := xs @ ys, ms_done := (t, err) # ms_done s\<rparr>)"
    (is "mq_inv _ _ ?s'")
proof -
  note i = mq_invD [OF inv]
  let ?L' = "queued_entries s @ xs @ ys"
  have L: "mset (live_entries s) = mset ((b, el, t) # ?L')"
    using inflight by (simp add: live_entries_def)
  have capq: "2 * mq_cap (ms_q s) \<le> max_i64" using i(1) cap by (simp add: config_ok_def)
  note ok = i(4-6) [unfolded dones_ok_perm [OF L] size_ok_perm [OF L] results_ok_perm [OF L]]
  obtain q2 where q2: "onDone b err (ms_q s) = Some q2"
    and o: "dones_ok sizeof ?L' q2" "size_ok sizeof ?L' q2"
      "mq_items q2 = mq_items (ms_q s)" "mq_refs q2 = mq_refs (ms_q s)"
      "config_ok cfg q2 \<longleftrightarrow> config_ok cfg (ms_q s)" "length (mq_dones q2) = length (mq_dones (ms_q s))"
      "mq_waitForResult (ms_q s) \<Longrightarrow> mq_pool q2 = mq_pool (ms_q s) \<and> bd_ch (mq_dones q2 ! b) = [err]"
      "\<And>c. c \<noteq> b \<Longrightarrow> mq_dones q2 ! c = mq_dones (ms_q s) ! c"
    by (rule onDone_frees [OF ok(1,2) capq, where err = err and cfg = cfg], rule that)
  with fin have q': "q' = q2" by simp
  have L': "live_entries ?s' = ?L'" using o(3) by (simp add: live_entries_def queued_entries_def q')
  note rd = results_okD [OF ok(3)]
  have bL: "b \<notin> fst ` set ?L'" using ok(1) by (auto simp: dones_ok_def)
  have bd: "b < length (mq_dones (ms_q s))" "b \<notin> set (mq_pool (ms_q s))" using ok(1) by (auto simp: dones_ok_def)
  have wait: "mq_waitForResult q2 = mq_waitForResult (ms_q s)" using o(5) i(1) by (simp add: config_ok_def)
  have aw: "(\<exists>el'. (c, el', u) \<in> set ?L') \<or> c < length (mq_dones q2) \<and> c \<notin> set (mq_pool q2) \<and>
        c \<notin> fst ` set ?L' \<and> (\<exists>e. bd_ch (mq_dones q2 ! c) = [e] \<and> (u, e) \<in> set ((t, err) # ms_done s))"
    if "(c, u) \<in> set (ms_awaiting s)" for c u
  proof -
    have "mq_waitForResult (ms_q s)" using rd(6) that by (cases "ms_awaiting s") auto
    with o(7) have p: "mq_pool q2 = mq_pool (ms_q s)" "bd_ch (mq_dones q2 ! b) = [err]" by auto
    show ?thesis
    proof (cases "c = b")
      case True
      with rd(7) [OF that] bL have "u = t" by force
      with True p bL bd o(6) show ?thesis by auto
    next
      case False
      with rd(7) [OF that] o(6) o(8) [OF False] p(1) show ?thesis by auto
    qed
  qed
  have "results_ok ?L' ?s'"
  proof (rule results_okI)
    show "distinct (map fst (ms_done ?s') @ map (snd \<circ> snd) ?L')" using rd(1) by auto
    show "u < length (ms_added ?s')" if "u \<in> set (map fst (ms_done ?s')) \<union> (snd \<circ> snd) ` set ?L'" for u
      using rd(2) [of u] that by auto
    show "set (ms_results ?s') \<subseteq> set (ms_done ?s')" using rd(3) by auto
  qed (use rd(4,5) rd(6) aw wait in \<open>simp_all add: q'\<close>)
  then show ?thesis unfolding mq_inv_def L'
    using o i(1-3) by (simp add: q' fifo_ok_def refs_ok_def config_ok_def)
qed

lemma step_result:
  assumes inv: "mq_inv sizeof cfg s" and aw: "ms_awaiting s = xs @ (b, t) # ys"
    and res: "Offer_result b (ms_q s) = Some (err, q')"
  shows "mq_inv sizeof cfg (s\<lparr>ms_q := q', ms_awaiting := xs @ ys, ms_results := (t, err) # ms_results s\<rparr>)"
    (is "mq_inv _ _ ?s'")
proof -
  note i = mq_invD [OF inv] and rd = results_okD [OF mq_invD(6) [OF inv]]
  let ?L = "live_entries s" and ?q = "ms_q s"
  have "(b, t) \<in> set (ms_awaiting s)" using aw by simp
  moreover have "bd_ch (mq_dones ?q ! b) \<noteq> []" using res by (auto simp: Offer_result_def split: list.splits)
  moreover have "bd_ch (mq_dones ?q ! c) = []" if "c \<in> fst ` set ?L" for c
    using that i(4) by (auto simp: dones_ok_def)
  ultimately have b: "b < length (mq_dones ?q)" "b \<notin> set (mq_pool ?q)" "b \<notin> fst ` set ?L"
      "bd_ch (mq_dones ?q ! b) = [err]" "(t, err) \<in> set (ms_done s)"
    using rd(7) [of b t] res by (force simp: Offer_result_def)+
  have q': "q' = ?q\<lparr>mq_dones := (mq_dones ?q)[b := (mq_dones ?q ! b)\<lparr>bd_ch := []\<rparr>], mq_pool := b # mq_pool ?q\<rparr>"
    using res b(4) by (simp add: Offer_result_def)
  have L': "live_entries ?s' = ?L" by (simp add: live_entries_def queued_entries_def q')
  have dones: "dones_ok sizeof ?L q'"
    using i(4) b by (auto simp: dones_ok_def q' nth_list_update)
  have nb: "c \<noteq> b" if "(c, u) \<in> set (xs @ ys)" for c u
    using rd(4) that by (force simp: aw)
  have aw': "(\<exists>el. (c, el, u) \<in> set ?L) \<or>
        c < length (mq_dones q') \<and> c \<notin> set (mq_pool q') \<and> c \<notin> fst ` set ?L \<and>
        (\<exists>e. bd_ch (mq_dones q' ! c) = [e] \<and> (u, e) \<in> set (ms_done s))"
    if "(c, u) \<in> set (xs @ ys)" for c u
    using rd(7) [of c u] nb [OF that] that by (simp add: aw q')
  have "results_ok ?L ?s'"
  proof (rule results_okI)
    show "distinct (map fst (ms_results ?s') @ map snd (ms_awaiting ?s'))" using rd(5) by (simp add: aw)
  qed (use rd(1,3,4) rd(2) rd(6) b(5) aw' in \<open>simp_all add: aw q'\<close>)
  then show ?thesis unfolding mq_inv_def L'
    using dones i(1-3,5) by (simp add: q' fifo_ok_def refs_ok_def config_ok_def size_ok_def)
qed

lemma live_entries_same:
  "mq_items q' = mq_items (ms_q s) \<Longrightarrow> live_entries (s\<lparr>ms_q := q'\<rparr>) = live_entries s"
  by (simp add: live_entries_def queued_entries_def)

lemma step_consumed:
  assumes inv: "mq_inv sizeof cfg s" and c: "ms_consuming s = xs @ el # ys"
  shows "mq_inv sizeof cfg (s\<lparr>ms_q := ref (-1) el (ms_q s), ms_consuming := xs @ ys\<rparr>)" (is "mq_inv _ _ ?s'")
proof -
  note i = mq_invD [OF inv]
  have "live_entries ?s' = live_entries s" by (simp add: live_entries_def queued_entries_def)
  moreover have "refs_ok ?s'"
    using i(3) by (auto simp: refs_ok_def c ref_def fun_eq_iff)
  ultimately show ?thesis unfolding mq_inv_def
    using i by (simp add: config_ok_def fifo_ok_def dones_ok_def size_ok_def results_ok_def)
qed

lemma step_cancelled:
  assumes inv: "mq_inv sizeof cfg s" and aw: "ms_awaiting s = xs @ (b, t) # ys"
  shows "mq_inv sizeof cfg (s\<lparr>ms_awaiting := xs @ ys\<rparr>)" (is "mq_inv _ _ ?s'")
proof -
  note i = mq_invD [OF inv] and rd = results_okD [OF mq_invD(6) [OF inv]]
  have L: "live_entries ?s' = live_entries s" by (simp add: live_entries_def queued_entries_def)
  have "results_ok (live_entries s) ?s'"
    by (rule results_okI; use rd(1,3,4,5) rd(2) rd(6) rd(7) in \<open>simp add: aw\<close>)
  then show ?thesis unfolding mq_inv_def L
    using i by (simp add: fifo_ok_def refs_ok_def)
qed

lemma mq_inv_step:
  assumes "mq_step sizeof s s'" "mq_inv sizeof cfg s" "2 * qs_capacity cfg \<le> max_i64"
  shows "mq_inv sizeof cfg s'"
  using assms
proof (induction rule: mq_step.induct)
  case (offer_fails s el n q pick ctx e e' q')
  then have "q' = ms_q s" using Offer_addsD(4) by (fastforce simp: Offer_failed_def ref_undo)
  with offer_fails show ?case by simp
next
  case (offer_cancelled s el n q pick ctx e' q')
  then have "q' = ms_q s" using Offer_addsD(4) by (fastforce simp: Offer_failed_def ref_undo)
  with offer_cancelled show ?case by simp
next
  case (shutdown s)
  note i = mq_invD [OF shutdown(1)]
  have L: "live_entries (s\<lparr>ms_q := Shutdown (ms_q s)\<rparr>) = live_entries s"
    by (simp add: live_entries_same Shutdown_def)
  show ?case unfolding mq_inv_def L
    using i by (simp add: Shutdown_def config_ok_def fifo_ok_def refs_ok_def dones_ok_def size_ok_def
        results_ok_def)
next
  case (offer_added s el n q pick ctx b q')
  then show ?case by (intro step_added)
qed (auto intro: mq_step_read mq_step_finished step_consumed step_result step_cancelled)

lemma mq_inv_start: "0 \<le> qs_capacity cfg \<Longrightarrow> mq_inv sizeof cfg (mq_start cfg)"
  using lq.inv_empty
  by (simp add: mq_inv_def mq_start_def newMemoryQueue_def config_ok_def fifo_ok_def refs_ok_def
      dones_ok_def size_ok_def results_ok_def live_entries_def queued_entries_def lq.elems_empty)

lemma mq_reachable_inv:
  "mq_reachable sizeof cfg s \<Longrightarrow> 0 \<le> qs_capacity cfg \<Longrightarrow> 2 * qs_capacity cfg \<le> max_i64 \<Longrightarrow>
   mq_inv sizeof cfg s"
  by (induction rule: mq_reachable.induct) (auto intro: mq_inv_start mq_inv_step)

section \<open>Properties\<close>

lemma live_entries_els: "length (ms_queued s) = length (lq_elems (mq_items (ms_q s))) \<Longrightarrow>
    (\<Sum>(b, el, t)\<leftarrow>live_entries s. f el) =
    (\<Sum>el\<leftarrow>map (fst \<circ> snd) (lq_elems (mq_items (ms_q s))) @ map (fst \<circ> snd) (ms_inflight s). (f el :: int))"
proof -
  have "length ts = length es \<Longrightarrow>
      (\<Sum>(b, el, t)\<leftarrow>map2 (\<lambda>(ctx, el, b) t. (b, el, t)) es ts. f el) = (\<Sum>el\<leftarrow>map (fst \<circ> snd) es. f el)"
    for es :: "(ctx, 'a) entry list" and ts
    by (induction ts es rule: list_induct2) auto
  moreover assume "length (ms_queued s) = length (lq_elems (mq_items (ms_q s)))"
  moreover have "(\<Sum>(b, el, t)\<leftarrow>L. f el) = (\<Sum>el\<leftarrow>map (fst \<circ> snd) L. f el)" for L :: "'a live"
    by (induction L) auto
  ultimately show ?thesis by (simp add: live_entries_def queued_entries_def)
qed

text \<open>
  C11. Whatever producers, consumers, cancellations and shutdown do, the memory queue is first-in
  first-out (the elements read so far followed by the queued ones are the accepted ones, in
  order), its size is the total size of the queued and in-flight elements, and it stays between
  0 and the capacity. The capacity is at most half of the largest 64-bit integer, so that the
  addition in \<open>add\<close> does not wrap.
\<close>

theorem memoryQueue_accounting:
  assumes "mq_reachable sizeof cfg s" and "0 \<le> qs_capacity cfg" and "2 * qs_capacity cfg \<le> max_i64"
  shows "ms_added s = ms_read s @ map (fst \<circ> snd) (lq_elems (mq_items (ms_q s))) \<and>
    Size (ms_q s) = (\<Sum>el\<leftarrow>map (fst \<circ> snd) (lq_elems (mq_items (ms_q s))) @
                          map (fst \<circ> snd) (ms_inflight s). sizeof el) \<and>
    0 \<le> Size (ms_q s) \<and> Size (ms_q s) \<le> qs_capacity cfg"
proof -
  note i = mq_invD [OF mq_reachable_inv [OF assms]]
  from i(5) dones_ok_nonneg [OF i(4)] i(1) live_entries_els [OF fifo_ok_lengths [OF i(2)], of sizeof]
  have "Size (ms_q s) = (\<Sum>el\<leftarrow>map (fst \<circ> snd) (lq_elems (mq_items (ms_q s))) @
                          map (fst \<circ> snd) (ms_inflight s). sizeof el) \<and>
    0 \<le> Size (ms_q s) \<and> Size (ms_q s) \<le> qs_capacity cfg"
    by (simp add: size_ok_def Size_def config_ok_def)
  moreover have "ms_added s = ms_read s @ map (fst \<circ> snd) (lq_elems (mq_items (ms_q s)))"
    using i(2) by (simp only: fifo_ok_def)
  ultimately show ?thesis by simp
qed

text \<open>
  C12. A producer that waits for its result gets the error its own element was finished with,
  although \<open>blockingDone\<close> objects are pooled and reused: every result is the outcome recorded
  for that element, no element gets two results or two outcomes, and \<open>onDone\<close> of an in-flight
  element never blocks on the result channel.
\<close>

theorem memoryQueue_results:
  assumes "mq_reachable sizeof cfg s" and "0 \<le> qs_capacity cfg" and "2 * qs_capacity cfg \<le> max_i64"
  shows "set (ms_results s) \<subseteq> set (ms_done s) \<and> distinct (map fst (ms_results s)) \<and>
    distinct (map fst (ms_done s)) \<and>
    list_all (\<lambda>(b, el, t). onDone b err (ms_q s) \<noteq> None) (ms_inflight s)"
proof -
  note i = mq_invD [OF mq_reachable_inv [OF assms]]
  have "onDone b err (ms_q s) \<noteq> None" if "(b, el, t) \<in> set (ms_inflight s)" for b el t
  proof -
    have "b \<in> set (map fst (live_entries s))" using that by (force simp: live_entries_def)
    then have "bd_ch (mq_dones (ms_q s) ! b) = []" using i(4) by (simp add: dones_ok_def)
    then show ?thesis by (simp add: onDone_def Let_def)
  qed
  then show ?thesis using results_okD(1,3,5) [OF i(6)] by (auto simp: list_all_iff)
qed

text \<open>
  With a reference counter, the references the queue holds on an element are exactly its
  occurrences in the queue and with the consumers: data is never released while it is queued or
  being consumed, and nothing is leaked once it is not, also when an offer fails or is cancelled.
\<close>

lemma memoryQueue_references:
  assumes "mq_reachable sizeof cfg s" and "0 \<le> qs_capacity cfg" and "2 * qs_capacity cfg \<le> max_i64"
    and "qs_hasRefCounter cfg"
  shows "mq_refs (ms_q s) el = int (count_list (map (fst \<circ> snd) (lq_elems (mq_items (ms_q s)))) el)
                               + int (count_list (ms_consuming s) el)"
  using mq_invD(1,3) [OF mq_reachable_inv [OF assms(1-3)]] assms(4)
  by (simp add: refs_ok_def config_ok_def)

text \<open>
  A consumer is told that the queue is stopped exactly when the queue is stopped and empty,
  and waits exactly when it is running and empty: after \<open>Shutdown\<close> the remaining elements are
  still read.
\<close>

lemma memoryQueue_Read_drains:
  assumes "mq_reachable sizeof cfg s" and "0 \<le> qs_capacity cfg" and "2 * qs_capacity cfg \<le> max_i64"
  shows "(Read (ms_q s) = ReadStopped \<longleftrightarrow> mq_stopped (ms_q s) \<and> lq_elems (mq_items (ms_q s)) = []) \<and>
    (Read (ms_q s) = ReadWaits \<longleftrightarrow> \<not> mq_stopped (ms_q s) \<and> lq_elems (mq_items (ms_q s)) = [])"
proof -
  have linv: "lq_inv (mq_items (ms_q s))"
    using mq_invD(2) [OF mq_reachable_inv [OF assms]] by (simp add: fifo_ok_def)
  show ?thesis
    using lq.hasElements_iff [OF linv] lq.pop_None [OF linv]
    by (auto simp: Read_def split: option.splits)
qed

section \<open>A run\<close>

text \<open>
  One producer offers the element 7 and waits, a consumer reads it and finishes it with the
  error 3, and the producer receives that error. The states after the offer, the read, the
  outcome and the result are reachable.
\<close>

definition demo_cfg :: queue_settings where
  "demo_cfg = \<lparr>qs_capacity = 2, qs_waitForResult = True, qs_blockOnOverflow = False, qs_hasRefCounter = True\<rparr>"

definition demo_q :: "(ctx, nat) linkedQueue \<Rightarrow> int \<Rightarrow> nat option list \<Rightarrow> nat list \<Rightarrow> (nat, nat) mq" where
  "demo_q l n ch pool = \<lparr>mq_hasRefCounter = True, mq_cap = 2, mq_items = l, mq_size = n, mq_stopped = False,
     mq_waitForResult = True, mq_blockOnOverflow = False, mq_refs = (\<lambda>_. 0)(7 := 1),
     mq_dones = [\<lparr>bd_elSize = 1, bd_ch = ch\<rparr>], mq_pool = pool\<rparr>"

definition demo_l :: "(ctx, nat) linkedQueue" where
  "demo_l = lq_push lq_empty (Context 0, 7, 0)"

definition demo_l' :: "(ctx, nat) linkedQueue" where
  "demo_l' = (case lq_pop demo_l of Some (e, l) \<Rightarrow> l | None \<Rightarrow> demo_l)"

definition demo_s :: "(nat, nat) mq \<Rightarrow> nat list \<Rightarrow> (nat \<times> nat) list \<Rightarrow> (nat \<times> nat option) list \<Rightarrow>
    (nat \<times> nat option) list \<Rightarrow> (nat, nat) mq_system" where
  "demo_s q r aw dn rs = \<lparr>ms_q = q, ms_added = [7], ms_read = r, ms_queued = (if r = [] then [0] else []),
     ms_inflight = (if r \<noteq> [] \<and> dn = [] then [(0, 7, 0)] else []), ms_consuming = r, ms_awaiting = aw,
     ms_done = dn, ms_results = rs\<rparr>"

lemma demo_pop: "lq_pop demo_l = Some ((Context 0, 7, 0), demo_l')" "lq_hasElements demo_l"
  by (simp_all add: demo_l'_def demo_l_def lq_pop_def lq_push.simps lq_empty_def lq_hasElements_def Let_def)

lemma demo_run:
  "mq_reachable (\<lambda>_. 1) demo_cfg (demo_s (demo_q demo_l 1 [] []) [] [(0, 0)] [] [])"
  "mq_reachable (\<lambda>_. 1) demo_cfg (demo_s (demo_q demo_l' 1 [] []) [7] [(0, 0)] [] [])"
  "mq_reachable (\<lambda>_. 1) demo_cfg (demo_s (demo_q demo_l' 0 [] [0]) [7] [] [(0, Some 3)] [(0, Some 3)])"
proof -
  let ?R = "mq_reachable (\<lambda>_. 1 :: int) demo_cfg :: (nat, nat) mq_system \<Rightarrow> bool"
  let ?s0 = "mq_start demo_cfg :: (nat, nat) mq_system"
  have wrap: "wrap64 2 = 2" by (simp add: wrap64_def)
  have o: "Offer (\<lambda>_. 1) (ms_q ?s0) 7 = OfferAdds 1 (ref 1 7 (ms_q ?s0))"
    by (simp add: Offer_def mq_start_def newMemoryQueue_def demo_cfg_def)
  have a: "add None (ref 1 7 (ms_q ?s0)) (Context 0) 7 1 = Added 0 (demo_q demo_l 1 [] [])"
    by (simp add: add_def ref_def mq_start_def newMemoryQueue_def demo_cfg_def pool_get_def bd_reset_def
        demo_q_def demo_l_def)
  from mq_reachable.step [OF mq_reachable.start mq_step.offer_added [OF o a]]
  show r1: "?R (demo_s (demo_q demo_l 1 [] []) [] [(0, 0)] [] [])"
    by (simp add: demo_s_def mq_start_def demo_q_def)
  have "Read (demo_q demo_l 1 [] []) = ReadItem (Context 0) 7 0 (demo_q demo_l' 1 [] [])"
    by (simp add: Read_def demo_q_def demo_pop)
  from mq_reachable.step [OF r1 mq_step.read [of _ "Context 0" 7 0 "demo_q demo_l' 1 [] []"]] this
  show r2: "?R (demo_s (demo_q demo_l' 1 [] []) [7] [(0, 0)] [] [])" by (simp add: demo_s_def)
  have "onDone 0 (Some 3) (demo_q demo_l' 1 [] []) = Some (demo_q demo_l' 0 [Some 3] [])"
    by (simp add: onDone_def demo_q_def)
  from mq_reachable.step [OF r2 mq_step.finished [of _ "[]" 0 7 0 "[]"]] this
  have r3: "?R (demo_s (demo_q demo_l' 0 [Some 3] []) [7] [(0, 0)] [(0, Some 3)] [])" by (simp add: demo_s_def)
  have "Offer_result 0 (demo_q demo_l' 0 [Some 3] []) = Some (Some 3, demo_q demo_l' 0 [] [0])"
    by (simp add: Offer_result_def demo_q_def)
  from mq_reachable.step [OF r3 mq_step.result [of _ "[]" 0 0 "[]"]] this
  show "?R (demo_s (demo_q demo_l' 0 [] [0]) [7] [] [(0, Some 3)] [(0, Some 3)])" by (simp add: demo_s_def)
qed

lemma demo_mq_cfg_ok: "0 \<le> qs_capacity demo_cfg" "2 * qs_capacity demo_cfg \<le> max_i64" "qs_hasRefCounter demo_cfg"
  by (simp_all add: demo_cfg_def max_i64_def)

theorem memoryQueue_accounting_witness:
  "(let s = demo_s (demo_q demo_l' 1 [] []) [7] [(0, 0)] [] [] in
      ms_added s = ms_read s @ map (fst \<circ> snd) (lq_elems (mq_items (ms_q s))) \<and> Size (ms_q s) = 1 \<and>
      Size (ms_q s) \<le> 2)"
  using memoryQueue_accounting [OF demo_run(2) demo_mq_cfg_ok(1,2)]
  by (simp add: demo_s_def demo_q_def demo_cfg_def Let_def)

theorem memoryQueue_results_witness:
  "(let s = demo_s (demo_q demo_l' 0 [] [0]) [7] [] [(0, Some 3)] [(0, Some 3)] in
      set (ms_results s) \<subseteq> set (ms_done s) \<and> distinct (map fst (ms_results s)))"
  using memoryQueue_results [OF demo_run(3) demo_mq_cfg_ok(1,2)] by (simp add: Let_def)

end
