(* ===== verification/Storage.thy ===== *)
theory Storage
  imports Prelude
begin

text \<open>
  The storage interface of extension/xextension/storage/storage.go and the in-memory client of
  exporter/exporterhelper/internal/storagetest/mock\_storage.go. The clients real deployments
  use are outside the repository: a client is a record of functions on an opaque storage state,
  and the locale \<open>storage_client\<close> states the documented contract of the interface (it mirrors a
  Go map), which the in-memory client is shown to keep.
\<close>

section \<open>Operations and clients\<close>

type_synonym bytes = "8 word list"

datatype operation = GetOperation string | SetOperation string bytes | DeleteOperation string

datatype storage_error = StorageError | ClientClosed

record 'st client =
  cl_Get :: "string \<Rightarrow> 'st \<Rightarrow> storage_error + bytes option"
  cl_Set :: "string \<Rightarrow> bytes \<Rightarrow> 'st \<Rightarrow> storage_error option \<times> 'st"
  cl_Batch :: "operation list \<Rightarrow> 'st \<Rightarrow> (storage_error + bytes option list) \<times> 'st"
  cl_Close :: "'st \<Rightarrow> storage_error option \<times> 'st"

text \<open>The meaning of a batch on a Go map; the values are those of the operations, in place.\<close>

fun apply_op :: "operation \<Rightarrow> (string \<rightharpoonup> bytes) \<Rightarrow> (string \<rightharpoonup> bytes)" where
  "apply_op (GetOperation k) m = m"
| "apply_op (SetOperation k v) m = m(k \<mapsto> v)"
| "apply_op (DeleteOperation k) m = m(k := None)"

fun op_value :: "operation \<Rightarrow> (string \<rightharpoonup> bytes) \<Rightarrow> bytes option" where
  "op_value (GetOperation k) m = m k"
| "op_value (SetOperation k v) m = Some v"
| "op_value (DeleteOperation k) m = None"

fun batch_map :: "operation list \<Rightarrow> (string \<rightharpoonup> bytes) \<Rightarrow> bytes option list \<times> (string \<rightharpoonup> bytes)" where
  "batch_map [] m = ([], m)"
| "batch_map (op # ops) m =
     (case batch_map ops (apply_op op m) of (vs, m') \<Rightarrow> (op_value op m # vs, m'))"

section \<open>The contract\<close>

locale storage_client =
  fixes cl :: "'st client" and contents :: "'st \<Rightarrow> (string \<rightharpoonup> bytes)" and is_open :: "'st \<Rightarrow> bool"
    and reopen :: "'st \<Rightarrow> 'st"
  assumes Get_ok: "is_open st \<Longrightarrow> cl_Get cl k st = Inr (contents st k)"
    and Set_ok: "is_open st \<Longrightarrow> \<exists>st'. cl_Set cl k v st = (None, st') \<and> is_open st' \<and>
        contents st' = (contents st)(k \<mapsto> v)"
    and Batch_ok: "is_open st \<Longrightarrow> \<exists>st'. cl_Batch cl ops st = (Inr (fst (batch_map ops (contents st))), st') \<and>
        is_open st' \<and> contents st' = snd (batch_map ops (contents st))"
    and Close_contents: "contents (snd (cl_Close cl st)) = contents st"
    and reopen_ok: "is_open (reopen st)" "contents (reopen st) = contents st"
begin

lemma Batch_obtain:
  assumes "is_open st"
  obtains st' where "cl_Batch cl ops st = (Inr (fst (batch_map ops (contents st))), st')" "is_open st'"
    "contents st' = snd (batch_map ops (contents st))"
  using Batch_ok [OF assms] by blast

lemma Set_obtain:
  assumes "is_open st"
  obtains st' where "cl_Set cl k v st = (None, st')" "is_open st'" "contents st' = (contents st)(k \<mapsto> v)"
  using Set_ok [OF assms] by blast

end

lemma batch_map_gets: "batch_map (map GetOperation ks) m = (map m ks, m)"
  by (induction ks) auto

lemma batch_map_Cons:
  "fst (batch_map (op # ops) m) = op_value op m # fst (batch_map ops (apply_op op m))"
  "snd (batch_map (op # ops) m) = snd (batch_map ops (apply_op op m))"
  by (simp_all split: prod.splits)

lemma batch_map_deletes: "snd (batch_map (map DeleteOperation ks) m) = (\<lambda>k. if k \<in> set ks then None else m k)"
  by (induction ks arbitrary: m) (auto simp: fun_eq_iff batch_map_Cons simp del: batch_map.simps(2))

section \<open>The in-memory client\<close>

record mock_storage =
  mk_st :: "string \<rightharpoonup> bytes"
  mk_closed :: bool

text \<open>A call on a closed client panics; it is the error \<open>ClientClosed\<close>.\<close>

fun mock_ops :: "operation list \<Rightarrow> (string \<rightharpoonup> bytes) \<Rightarrow> bytes option list \<times> (string \<rightharpoonup> bytes)" where
  "mock_ops [] m = ([], m)"
| "mock_ops (op # ops) m =
     (let r = (case op of
                 GetOperation k \<Rightarrow> (case m k of None \<Rightarrow> (None, m) | Some v \<Rightarrow> (Some v, m))
               | SetOperation k v \<Rightarrow> (Some v, m(k \<mapsto> v))
               | DeleteOperation k \<Rightarrow> (None, m(k := None)))
      in case mock_ops ops (snd r) of (vs, m') \<Rightarrow> (fst r # vs, m'))"

definition mock_Batch :: "operation list \<Rightarrow> mock_storage \<Rightarrow> (storage_error + bytes option list) \<times> mock_storage" where
  "mock_Batch ops st =
     (if mk_closed st then (Inl ClientClosed, st)
      else case mock_ops ops (mk_st st) of (vs, m) \<Rightarrow> (Inr vs, st\<lparr>mk_st := m\<rparr>))"

definition mock_Get :: "string \<Rightarrow> mock_storage \<Rightarrow> storage_error + bytes option" where
  "mock_Get k st = (case fst (mock_Batch [GetOperation k] st) of Inl e \<Rightarrow> Inl e | Inr vs \<Rightarrow> Inr (hd vs))"

definition mock_Set :: "string \<Rightarrow> bytes \<Rightarrow> mock_storage \<Rightarrow> storage_error option \<times> mock_storage" where
  "mock_Set k v st =
     (case mock_Batch [SetOperation k v] st of (Inl e, st') \<Rightarrow> (Some e, st') | (Inr vs, st') \<Rightarrow> (None, st'))"

definition mock_Close :: "mock_storage \<Rightarrow> storage_error option \<times> mock_storage" where
  "mock_Close st = (None, st\<lparr>mk_closed := True\<rparr>)"

definition mock_client :: "mock_storage client" where
  "mock_client = \<lparr>cl_Get = mock_Get, cl_Set = mock_Set, cl_Batch = mock_Batch, cl_Close = mock_Close\<rparr>"

text \<open>\<open>GetClient\<close> of the mock extension: a new open client on the same map.\<close>

definition mock_GetClient :: "mock_storage \<Rightarrow> mock_storage" where
  "mock_GetClient st = st\<lparr>mk_closed := False\<rparr>"

lemma mock_ops_batch: "mock_ops ops m = batch_map ops m"
  by (induction ops arbitrary: m) (auto simp: Let_def split: operation.splits option.splits prod.splits)

interpretation mock: storage_client mock_client mk_st "\<lambda>st. \<not> mk_closed st" mock_GetClient
  by unfold_locales
    (auto simp: mock_client_def mock_Get_def mock_Set_def mock_Batch_def mock_Close_def mock_GetClient_def
      mock_ops_batch split: prod.splits)

end
