(* ===== verification/PersistentQueue.thy ===== *)
theory PersistentQueue
  imports Storage Sizers
begin

text \<open>
  The storage-backed sending queue: exporter/exporterhelper/internal/queue/persistent\_queue.go.
  Each method is one function on the record \<open>pq\<close>, run under the mutex as in the code; a call that
  has to wait returns a value saying so (the condition variables are the theory \<open>Cond\<close>). What the
  queue calls outside the repository is the record \<open>pq_env\<close>: the storage client, the protobuf
  encoding of the metadata message and the encoding of requests. A request stands for the request
  together with its context. Indexes are 64-bit words.
\<close>

section \<open>State and environment\<close>

type_synonym index = "64 word"

record metadata =
  md_ItemsSize :: int
  md_BytesSize :: int
  md_ReadIndex :: index
  md_WriteIndex :: index
  md_CurrentlyDispatchedItems :: "index list"

definition md_zero :: metadata where
  "md_zero = \<lparr>md_ItemsSize = 0, md_BytesSize = 0, md_ReadIndex = 0, md_WriteIndex = 0,
     md_CurrentlyDispatchedItems = []\<rparr>"

record ('st, 'r) pq_env =
  ev_client :: "'st client"
  ev_md_marshal :: "metadata \<Rightarrow> bytes option"
  ev_md_unmarshal :: "bytes \<Rightarrow> metadata option"
  ev_marshal :: "'r \<Rightarrow> bytes option"
  ev_unmarshal :: "bytes option \<Rightarrow> 'r option"
  ev_itemsSize :: "'r \<Rightarrow> int"
  ev_bytesSize :: "'r \<Rightarrow> int"

record 'st pq =
  pq_metadata :: metadata
  pq_storage :: 'st
  pq_refClient :: int
  pq_stopped :: bool
  pq_capacity :: int
  pq_sizerType :: SizerType
  pq_blockOnOverflow :: bool

datatype pq_error = MetadataMarshalErr | MarshalErr | StorageErr storage_error

abbreviation set_md :: "metadata \<Rightarrow> 'st pq \<Rightarrow> 'st pq" where
  "set_md md q \<equiv> q\<lparr>pq_metadata := md\<rparr>"

section \<open>Keys and legacy encodings\<close>

definition metadataKey :: string where "metadataKey = ''qmv0''"
definition legacyReadIndexKey :: string where "legacyReadIndexKey = ''ri''"
definition legacyWriteIndexKey :: string where "legacyWriteIndexKey = ''wi''"
definition legacyCurrentlyDispatchedItemsKey :: string where "legacyCurrentlyDispatchedItemsKey = ''di''"

definition digit :: "nat \<Rightarrow> char" where
  "digit d = char_of (48 + d)"

fun FormatUint :: "nat \<Rightarrow> string" where
  "FormatUint n = (if n < 10 then [digit n] else FormatUint (n div 10) @ [digit (n mod 10)])"

declare FormatUint.simps [simp del]

definition getItemKey :: "index \<Rightarrow> string" where
  "getItemKey index = FormatUint (unat index)"

fun le_nat :: "bytes \<Rightarrow> nat" where
  "le_nat [] = 0"
| "le_nat (b # bs) = unat b + 256 * le_nat bs"

datatype index_error = ErrValueNotSet | ErrInvalidValue

definition bytesToItemIndex :: "bytes option \<Rightarrow> index_error + index" where
  "bytesToItemIndex buf =
     (case buf of
        None \<Rightarrow> Inl ErrValueNotSet
      | Some b \<Rightarrow> if length b < 8 then Inl ErrInvalidValue else Inr (of_nat (le_nat (take 8 b))))"

fun index_array :: "nat \<Rightarrow> bytes \<Rightarrow> index list" where
  "index_array 0 buf = []"
| "index_array (Suc n) buf = of_nat (le_nat (take 8 buf)) # index_array n (drop 8 buf)"

definition bytesToItemIndexArray :: "bytes option \<Rightarrow> index_error + index list" where
  "bytesToItemIndexArray obuf =
     (let buf = (case obuf of None \<Rightarrow> [] | Some b \<Rightarrow> b)
      in if buf = [] then Inr []
         else if length buf < 4 then Inl ErrInvalidValue
         else let size = le_nat (take 4 buf); rest = drop 4 buf
              in if size = 0 then Inr []
                 else if length rest < size * 8 then Inl ErrInvalidValue
                 else Inr (index_array size rest))"

section \<open>Sizes\<close>

definition requestSize :: "metadata \<Rightarrow> int" where
  "requestSize md =
     add64 (sint (md_WriteIndex md - md_ReadIndex md))
           (int (length (md_CurrentlyDispatchedItems md)))"

definition internalSize :: "'st pq \<Rightarrow> int" where
  "internalSize q =
     (case pq_sizerType q of
        SizerTypeBytes \<Rightarrow> md_BytesSize (pq_metadata q)
      | SizerTypeItems \<Rightarrow> md_ItemsSize (pq_metadata q)
      | _ \<Rightarrow> requestSize (pq_metadata q))"

definition reset_sizes_if_drained :: "metadata \<Rightarrow> metadata" where
  "reset_sizes_if_drained md =
     (if requestSize md = 0 then md\<lparr>md_BytesSize := 0, md_ItemsSize := 0\<rparr> else md)"

section \<open>Writing\<close>

definition batch :: "('st, 'r) pq_env \<Rightarrow> operation list \<Rightarrow> 'st pq \<Rightarrow> (storage_error + bytes option list) \<times> 'st pq" where
  "batch ev ops q =
     (case cl_Batch (ev_client ev) ops (pq_storage q) of (r, st') \<Rightarrow> (r, q\<lparr>pq_storage := st'\<rparr>))"

definition putInternal :: "('st, 'r) pq_env \<Rightarrow> 'r \<Rightarrow> 'st pq \<Rightarrow> pq_error option \<times> 'st pq" where
  "putInternal ev req q =
     (let index = md_WriteIndex (pq_metadata q);
          md = (pq_metadata q)\<lparr>md_WriteIndex := index + 1\<rparr>;
          q1 = set_md md q
      in case ev_md_marshal ev md of
           None \<Rightarrow> (Some MetadataMarshalErr, q1)
         | Some mdBuf \<Rightarrow>
             (case ev_marshal ev req of
                None \<Rightarrow> (Some MarshalErr, q1)
              | Some reqBuf \<Rightarrow>
                  (case batch ev [SetOperation metadataKey mdBuf, SetOperation (getItemKey index) reqBuf] q1 of
                     (Inl e, q2) \<Rightarrow> (Some (StorageErr e), q2)
                   | (Inr _, q2) \<Rightarrow> (None, q2))))"

datatype 'st poffer_result = PQueueIsFull | POfferWaits | POffered "pq_error option" "'st pq"

definition pq_Offer :: "('st, 'r) pq_env \<Rightarrow> 'r \<Rightarrow> 'st pq \<Rightarrow> 'st poffer_result" where
  "pq_Offer ev req q =
     (let size = NewSizer (ev_bytesSize ev) (ev_itemsSize ev) (pq_sizerType q) req
      in if pq_capacity q < add64 (internalSize q) size
         then if pq_blockOnOverflow q then POfferWaits else PQueueIsFull
         else let md = pq_metadata q;
                  md1 = md\<lparr>md_ItemsSize := add64 (md_ItemsSize md) (ev_itemsSize ev req),
                           md_BytesSize := add64 (md_BytesSize md) (ev_bytesSize ev req)\<rparr>
              in case putInternal ev req (set_md md1 q) of (err, q') \<Rightarrow> POffered err q')"

section \<open>Reading and finishing\<close>

fun position :: "'a \<Rightarrow> 'a list \<Rightarrow> nat option" where
  "position x [] = None"
| "position x (y # ys) = (if y = x then Some 0 else map_option Suc (position x ys))"

definition swap_remove :: "'a \<Rightarrow> 'a list \<Rightarrow> 'a list" where
  "swap_remove x xs =
     (case position x xs of None \<Rightarrow> xs | Some i \<Rightarrow> butlast (xs[i := last xs]))"

definition itemDispatchingFinish :: "('st, 'r) pq_env \<Rightarrow> index \<Rightarrow> 'st pq \<Rightarrow> pq_error option \<times> 'st pq" where
  "itemDispatchingFinish ev index q =
     (let md = pq_metadata q;
          md1 = reset_sizes_if_drained
                  (md\<lparr>md_CurrentlyDispatchedItems := swap_remove index (md_CurrentlyDispatchedItems md)\<rparr>);
          q1 = set_md md1 q
      in case ev_md_marshal ev md1 of
           None \<Rightarrow> (Some MetadataMarshalErr, q1)
         | Some mdBuf \<Rightarrow>
             (let setOp = SetOperation metadataKey mdBuf; deleteOp = DeleteOperation (getItemKey index)
              in case batch ev [setOp, deleteOp] q1 of
                   (Inr _, q2) \<Rightarrow> (None, q2)
                 | (Inl _, q2) \<Rightarrow>
                     (case batch ev [deleteOp] q2 of
                        (Inl e, q3) \<Rightarrow> (Some (StorageErr e), q3)
                      | (Inr _, q3) \<Rightarrow>
                          (case batch ev [setOp] q3 of
                             (Inl e, q4) \<Rightarrow> (Some (StorageErr e), q4)
                           | (Inr _, q4) \<Rightarrow> (None, q4)))))"

definition getNextItem :: "('st, 'r) pq_env \<Rightarrow> 'st pq \<Rightarrow> (index \<times> 'r) option \<times> 'st pq" where
  "getNextItem ev q =
     (let md = pq_metadata q;
          index = md_ReadIndex md;
          md1 = md\<lparr>md_ReadIndex := index + 1,
                   md_CurrentlyDispatchedItems := md_CurrentlyDispatchedItems md @ [index]\<rparr>;
          q1 = set_md md1 q
      in case ev_md_marshal ev md1 of
           None \<Rightarrow> (None, q1)
         | Some mdBuf \<Rightarrow>
             (case batch ev [SetOperation metadataKey mdBuf, GetOperation (getItemKey index)] q1 of
                (r, q2) \<Rightarrow>
                  (case (case r of Inl _ \<Rightarrow> None | Inr vs \<Rightarrow> ev_unmarshal ev (vs ! 1)) of
                     None \<Rightarrow> (None, snd (itemDispatchingFinish ev index q2))
                   | Some req \<Rightarrow> (Some (index, req), q2\<lparr>pq_refClient := pq_refClient q2 + 1\<rparr>))))"

text \<open>
  The inner loop of \<open>Read\<close> is bounded by the distance of the two indexes.
  \<open>getNextItem\<close> always advances the read index and keeps the write index.
\<close>

datatype ('st, 'r) pread_result =
  PReadItem index 'r int int "'st pq" | PReadStopped | PReadWaits "'st pq"

definition unread :: "'st pq \<Rightarrow> nat" where
  "unread q = unat (md_WriteIndex (pq_metadata q) - md_ReadIndex (pq_metadata q))"

definition same_indexes :: "metadata \<Rightarrow> metadata \<Rightarrow> bool" where
  "same_indexes md md' \<longleftrightarrow> md_ReadIndex md' = md_ReadIndex md \<and> md_WriteIndex md' = md_WriteIndex md"

lemma batch_metadata: "batch ev ops q = (r, q') \<Longrightarrow> pq_metadata q' = pq_metadata q"
  by (auto simp: batch_def split: prod.splits)

lemma reset_sizes_indexes: "same_indexes md (reset_sizes_if_drained md)"
  by (simp add: reset_sizes_if_drained_def same_indexes_def)

lemma itemDispatchingFinish_indexes:
  "same_indexes (pq_metadata q) (pq_metadata (snd (itemDispatchingFinish ev index q)))"
proof -
  let ?md = "(pq_metadata q)\<lparr>md_CurrentlyDispatchedItems :=
    swap_remove index (md_CurrentlyDispatchedItems (pq_metadata q))\<rparr>"
  have "pq_metadata (snd (itemDispatchingFinish ev index q)) = reset_sizes_if_drained ?md"
    by (auto simp: itemDispatchingFinish_def Let_def dest!: batch_metadata
        split: option.splits prod.splits sum.splits)
  then show ?thesis using reset_sizes_indexes [of ?md] by (simp add: same_indexes_def)
qed

lemma getNextItem_indexes:
  "md_ReadIndex (pq_metadata (snd (getNextItem ev q))) = md_ReadIndex (pq_metadata q) + 1"
  "md_WriteIndex (pq_metadata (snd (getNextItem ev q))) = md_WriteIndex (pq_metadata q)"
proof -
  have "md_ReadIndex (pq_metadata (snd (getNextItem ev q))) = md_ReadIndex (pq_metadata q) + 1 \<and>
    md_WriteIndex (pq_metadata (snd (getNextItem ev q))) = md_WriteIndex (pq_metadata q)"
  proof (cases "ev_md_marshal ev ((pq_metadata q)\<lparr>md_ReadIndex := md_ReadIndex (pq_metadata q) + 1,
      md_CurrentlyDispatchedItems := md_CurrentlyDispatchedItems (pq_metadata q) @ [md_ReadIndex (pq_metadata q)]\<rparr>)")
    case None
    then show ?thesis by (simp add: getNextItem_def Let_def)
  next
    case (Some mdBuf)
    obtain r q2 where b: "batch ev [SetOperation metadataKey mdBuf, GetOperation (getItemKey (md_ReadIndex (pq_metadata q)))]
        (set_md ((pq_metadata q)\<lparr>md_ReadIndex := md_ReadIndex (pq_metadata q) + 1,
          md_CurrentlyDispatchedItems := md_CurrentlyDispatchedItems (pq_metadata q) @ [md_ReadIndex (pq_metadata q)]\<rparr>) q)
        = (r, q2)" by force
    with Some batch_metadata [OF b] itemDispatchingFinish_indexes [of q2 ev "md_ReadIndex (pq_metadata q)"]
    show ?thesis by (simp add: getNextItem_def Let_def same_indexes_def split: option.splits)
  qed
  then show "md_ReadIndex (pq_metadata (snd (getNextItem ev q))) = md_ReadIndex (pq_metadata q) + 1"
    "md_WriteIndex (pq_metadata (snd (getNextItem ev q))) = md_WriteIndex (pq_metadata q)" by auto
qed

lemma unat_minus_1: "(w :: 64 word) \<noteq> 0 \<Longrightarrow> unat (w - 1) < unat w"
  by (simp add: unat_minus_one unat_gt_0)

lemma getNextItem_unread:
  "md_ReadIndex (pq_metadata q) \<noteq> md_WriteIndex (pq_metadata q) \<Longrightarrow> unread (snd (getNextItem ev q)) < unread q"
  using unat_minus_1 [of "md_WriteIndex (pq_metadata q) - md_ReadIndex (pq_metadata q)"]
  by (simp add: unread_def getNextItem_indexes diff_diff_eq)

lemma Read_items_decreases:
  assumes "(item, q1) = getNextItem ev q" and "md_ReadIndex (pq_metadata q) \<noteq> md_WriteIndex (pq_metadata q)"
  shows "unread (set_md (reset_sizes_if_drained (pq_metadata q1)) q1) < unread q"
proof -
  have "unread q1 < unread q" using getNextItem_unread [OF assms(2), of ev] assms(1) by (metis snd_conv)
  then show ?thesis
    using reset_sizes_indexes [of "pq_metadata q1"] by (simp add: unread_def same_indexes_def)
qed

function Read_items :: "('st, 'r) pq_env \<Rightarrow> 'st pq \<Rightarrow> ('st, 'r) pread_result" where
  "Read_items ev q =
     (if md_ReadIndex (pq_metadata q) \<noteq> md_WriteIndex (pq_metadata q)
      then case getNextItem ev q of
             (item, q1) \<Rightarrow>
               let q2 = set_md (reset_sizes_if_drained (pq_metadata q1)) q1
               in (case item of
                     Some (index, req) \<Rightarrow> PReadItem index req (ev_itemsSize ev req) (ev_bytesSize ev req) q2
                   | None \<Rightarrow> Read_items ev q2)
      else PReadWaits q)"
  by pat_completeness auto

termination
  by (relation "measure (\<lambda>(ev, q). unread q)") (auto dest: Read_items_decreases)

declare Read_items.simps [simp del]

definition pq_Read :: "('st, 'r) pq_env \<Rightarrow> 'st pq \<Rightarrow> ('st, 'r) pread_result" where
  "pq_Read ev q = (if pq_stopped q then PReadStopped else Read_items ev q)"

definition unrefClient :: "('st, 'r) pq_env \<Rightarrow> 'st pq \<Rightarrow> storage_error option \<times> 'st pq" where
  "unrefClient ev q =
     (let q1 = q\<lparr>pq_refClient := pq_refClient q - 1\<rparr>
      in if pq_refClient q1 = 0
         then case cl_Close (ev_client ev) (pq_storage q1) of (e, st') \<Rightarrow> (e, q1\<lparr>pq_storage := st'\<rparr>)
         else (None, q1))"

definition clamp0 :: "int \<Rightarrow> int" where
  "clamp0 n = (if n < 0 then 0 else n)"

definition pq_onDone ::
  "('st, 'r) pq_env \<Rightarrow> index \<Rightarrow> int \<Rightarrow> int \<Rightarrow> bool \<Rightarrow> 'st pq \<Rightarrow> 'st pq" where
  "pq_onDone ev index itemsSize bytesSize isShutdownErr q =
     (let q1 = (if isShutdownErr then q
                else let md = pq_metadata q;
                         md1 = md\<lparr>md_BytesSize := clamp0 (sub64 (md_BytesSize md) bytesSize),
                                  md_ItemsSize := clamp0 (sub64 (md_ItemsSize md) itemsSize)\<rparr>
                     in snd (itemDispatchingFinish ev index (set_md md1 q)))
      in snd (unrefClient ev q1))"

definition pq_Shutdown :: "('st, 'r) pq_env \<Rightarrow> 'st pq \<Rightarrow> storage_error option \<times> 'st pq" where
  "pq_Shutdown ev q = unrefClient ev (q\<lparr>pq_stopped := True\<rparr>)"

section \<open>Starting\<close>

definition put_back :: "('st, 'r) pq_env \<Rightarrow> bytes option \<Rightarrow> 'st pq \<Rightarrow> 'st pq" where
  "put_back ev v q =
     (case v of
        None \<Rightarrow> q
      | Some _ \<Rightarrow> (case ev_unmarshal ev v of None \<Rightarrow> q | Some req \<Rightarrow> snd (putInternal ev req q)))"

definition enqueueNotDispatchedReqs :: "('st, 'r) pq_env \<Rightarrow> index list \<Rightarrow> 'st pq \<Rightarrow> 'st pq" where
  "enqueueNotDispatchedReqs ev dispatchedItems q =
     (if dispatchedItems = [] then q
      else let keys = map getItemKey dispatchedItems
           in case batch ev (map GetOperation keys) q of (retrieved, q1) \<Rightarrow>
              case batch ev (map DeleteOperation keys) q1 of (_, q2) \<Rightarrow>
                (case retrieved of
                   Inl _ \<Rightarrow> q2
                 | Inr vs \<Rightarrow> fold (put_back ev) vs q2))"

datatype load_error = LoadStorage storage_error | LoadNotSet | LoadUnmarshal

definition loadQueueMetadata :: "('st, 'r) pq_env \<Rightarrow> 'st pq \<Rightarrow> load_error option \<times> 'st pq" where
  "loadQueueMetadata ev q =
     (case cl_Get (ev_client ev) metadataKey (pq_storage q) of
        Inl e \<Rightarrow> (Some (LoadStorage e), q)
      | Inr None \<Rightarrow> (Some LoadNotSet, q)
      | Inr (Some buf) \<Rightarrow>
          if length buf = 0 then (Some LoadNotSet, q)
          else (case ev_md_unmarshal ev buf of
                  None \<Rightarrow> (Some LoadUnmarshal, q)
                | Some md \<Rightarrow> (None, set_md md q)))"

definition retrieveAndEnqueueNotDispatchedReqs :: "('st, 'r) pq_env \<Rightarrow> 'st pq \<Rightarrow> 'st pq" where
  "retrieveAndEnqueueNotDispatchedReqs ev q =
     (case cl_Get (ev_client ev) legacyCurrentlyDispatchedItemsKey (pq_storage q) of
        Inl _ \<Rightarrow> q
      | Inr buf \<Rightarrow>
          (case bytesToItemIndexArray buf of
             Inl _ \<Rightarrow> q
           | Inr dispatchedItems \<Rightarrow> enqueueNotDispatchedReqs ev dispatchedItems q))"

definition load_legacy_indexes :: "('st, 'r) pq_env \<Rightarrow> 'st pq \<Rightarrow> 'st pq" where
  "load_legacy_indexes ev q =
     (case batch ev [GetOperation legacyReadIndexKey, GetOperation legacyWriteIndexKey] q of
        (r, q1) \<Rightarrow>
          (let md = pq_metadata q1; failed = set_md (md\<lparr>md_ReadIndex := 0, md_WriteIndex := 0\<rparr>) q1
           in case r of
                Inl _ \<Rightarrow> failed
              | Inr vs \<Rightarrow>
                  (case bytesToItemIndex (vs ! 0) of
                     Inl _ \<Rightarrow> failed
                   | Inr ri \<Rightarrow>
                       (case bytesToItemIndex (vs ! 1) of
                          Inl _ \<Rightarrow> failed
                        | Inr wi \<Rightarrow> set_md (md\<lparr>md_ReadIndex := ri, md_WriteIndex := wi\<rparr>) q1))))"

definition loadLegacyMetadata :: "('st, 'r) pq_env \<Rightarrow> 'st pq \<Rightarrow> 'st pq" where
  "loadLegacyMetadata ev q =
     (let q1 = retrieveAndEnqueueNotDispatchedReqs ev (load_legacy_indexes ev q)
      in case ev_md_marshal ev (pq_metadata q1) of
           None \<Rightarrow> q1
         | Some mdBuf \<Rightarrow>
             (case cl_Set (ev_client ev) metadataKey mdBuf (pq_storage q1) of
                (Some _, st') \<Rightarrow> q1\<lparr>pq_storage := st'\<rparr>
              | (None, st') \<Rightarrow>
                  snd (batch ev [DeleteOperation legacyReadIndexKey, DeleteOperation legacyWriteIndexKey,
                                 DeleteOperation legacyCurrentlyDispatchedItemsKey]
                         (q1\<lparr>pq_storage := st'\<rparr>))))"

definition initClient :: "('st, 'r) pq_env \<Rightarrow> 'st \<Rightarrow> 'st pq \<Rightarrow> 'st pq" where
  "initClient ev client q =
     (let q1 = q\<lparr>pq_storage := client, pq_refClient := 1\<rparr>
      in case loadQueueMetadata ev q1 of
           (None, q2) \<Rightarrow>
             (let q3 = enqueueNotDispatchedReqs ev (md_CurrentlyDispatchedItems (pq_metadata q2)) q2
              in set_md ((pq_metadata q3)\<lparr>md_CurrentlyDispatchedItems := []\<rparr>) q3)
         | (Some LoadNotSet, q2) \<Rightarrow> loadLegacyMetadata ev q2
         | (Some _, q2) \<Rightarrow> set_md md_zero q2)"

record pq_settings =
  ps_capacity :: int
  ps_sizerType :: SizerType
  ps_blockOnOverflow :: bool

definition newPersistentQueue :: "pq_settings \<Rightarrow> 'st \<Rightarrow> 'st pq" where
  "newPersistentQueue cfg st = \<lparr>pq_metadata = md_zero, pq_storage = st, pq_refClient = 0, pq_stopped = False,
     pq_capacity = ps_capacity cfg, pq_sizerType = ps_sizerType cfg, pq_blockOnOverflow = ps_blockOnOverflow cfg\<rparr>"

definition pq_Start :: "('st, 'r) pq_env \<Rightarrow> pq_settings \<Rightarrow> 'st \<Rightarrow> 'st pq" where
  "pq_Start ev cfg client = initClient ev client (newPersistentQueue cfg client)"

section \<open>Starts that are interrupted\<close>

text \<open>
  The process may be stopped while the queue starts. A start writes to the storage in several
  calls: it deletes the requests left in dispatch, puts them back one by one, and with the legacy
  layout writes the new metadata before it deletes the old keys. \<open>Moving k\<close> is a stop after the
  deletion and the first \<open>k\<close> turns of the loop, \<open>Moved\<close> a stop after the last request was put back
  and, with the legacy layout, the metadata was written. The result is the storage that is left
  and the requests that were deleted and not put back; a stop before the deletion leaves the
  storage unchanged, as a stop before the start does.
\<close>

datatype start_stop = Moving nat | Moved

definition enqueue_interrupted :: "('st, 'r) pq_env \<Rightarrow> nat \<Rightarrow> index list \<Rightarrow> 'st pq \<Rightarrow> 'st pq" where
  "enqueue_interrupted ev k dispatchedItems q =
     (if dispatchedItems = [] then q
      else let keys = map getItemKey dispatchedItems
           in case batch ev (map GetOperation keys) q of (retrieved, q1) \<Rightarrow>
              case batch ev (map DeleteOperation keys) q1 of (_, q2) \<Rightarrow>
                (case retrieved of
                   Inl _ \<Rightarrow> q2
                 | Inr vs \<Rightarrow> fold (put_back ev) (take k vs) q2))"

definition not_put_back :: "('st, 'r) pq_env \<Rightarrow> nat \<Rightarrow> index list \<Rightarrow> 'st pq \<Rightarrow> 'r list" where
  "not_put_back ev k dispatchedItems q =
     (case fst (batch ev (map GetOperation (map getItemKey dispatchedItems)) q) of
        Inl _ \<Rightarrow> []
      | Inr vs \<Rightarrow> List.map_filter (\<lambda>v. if v = None then None else ev_unmarshal ev v) (drop k vs))"

definition legacy_interrupted :: "('st, 'r) pq_env \<Rightarrow> start_stop \<Rightarrow> 'st pq \<Rightarrow> 'st \<times> 'r list" where
  "legacy_interrupted ev p q =
     (let q1 = load_legacy_indexes ev q
      in case p of
           Moving k \<Rightarrow>
             (case cl_Get (ev_client ev) legacyCurrentlyDispatchedItemsKey (pq_storage q1) of
                Inl _ \<Rightarrow> (pq_storage q1, [])
              | Inr buf \<Rightarrow>
                  (case bytesToItemIndexArray buf of
                     Inl _ \<Rightarrow> (pq_storage q1, [])
                   | Inr dispatchedItems \<Rightarrow>
                       (pq_storage (enqueue_interrupted ev k dispatchedItems q1),
                        not_put_back ev k dispatchedItems q1)))
         | Moved \<Rightarrow>
             (let q2 = retrieveAndEnqueueNotDispatchedReqs ev q1
              in case ev_md_marshal ev (pq_metadata q2) of
                   None \<Rightarrow> (pq_storage q2, [])
                 | Some mdBuf \<Rightarrow> (snd (cl_Set (ev_client ev) metadataKey mdBuf (pq_storage q2)), [])))"

definition start_interrupted ::
  "('st, 'r) pq_env \<Rightarrow> pq_settings \<Rightarrow> start_stop \<Rightarrow> 'st \<Rightarrow> 'st \<times> 'r list" where
  "start_interrupted ev cfg p client =
     (let q1 = (newPersistentQueue cfg client)\<lparr>pq_storage := client, pq_refClient := 1\<rparr>
      in case loadQueueMetadata ev q1 of
           (None, q2) \<Rightarrow>
             (let ds = md_CurrentlyDispatchedItems (pq_metadata q2)
              in case p of
                   Moving k \<Rightarrow> (pq_storage (enqueue_interrupted ev k ds q2), not_put_back ev k ds q2)
                 | Moved \<Rightarrow> (pq_storage (enqueueNotDispatchedReqs ev ds q2), []))
         | (Some LoadNotSet, q2) \<Rightarrow> legacy_interrupted ev p q2
         | (Some _, q2) \<Rightarrow> (pq_storage q2, []))"

text \<open>A chain of interrupted starts, each by a new process with a new client.\<close>

fun interrupted_starts ::
  "('st, 'r) pq_env \<Rightarrow> ('st \<Rightarrow> 'st) \<Rightarrow> pq_settings \<Rightarrow> start_stop list \<Rightarrow> 'st \<Rightarrow> 'st \<times> 'r list" where
  "interrupted_starts ev reopen cfg [] client = (client, [])"
| "interrupted_starts ev reopen cfg (p # ps) client =
     (case start_interrupted ev cfg p client of
        (st, lost) \<Rightarrow>
          (case interrupted_starts ev reopen cfg ps (reopen st) of (st', lost') \<Rightarrow> (st', lost @ lost')))"

end
