(* ===== verification/DurableQueue.thy ===== *)
theory DurableQueue
  imports PersistentQueue
begin

text \<open>
  What the persistent queue promises: it refines a durable queue, a list of pending requests and
  a collection of dispatched ones, in which a restart puts the dispatched requests back at the
  end. The refinement is proved for every storage client that keeps the contract of
  \<open>storage_client\<close> and every pair of encodings that round-trip (locale \<open>pq_laws\<close>), including
  crashes and restarts at any point between two queue operations.
\<close>

section \<open>Item keys\<close>

definition dec_value :: "string \<Rightarrow> nat" where
  "dec_value s = foldl (\<lambda>a c. 10 * a + (of_char c - 48)) 0 s"

lemma of_char_digit: "d < 10 \<Longrightarrow> (of_char (digit d) :: nat) = 48 + d"
  by (simp add: digit_def)

lemma dec_value_FormatUint: "dec_value (FormatUint n) = n"
proof (induction n rule: FormatUint.induct)
  case (1 n)
  have "dec_value (FormatUint (n div 10) @ [digit (n mod 10)]) = n" if "\<not> n < 10"
    using 1 [OF that] by (simp add: dec_value_def of_char_digit)
  then show ?case by (subst FormatUint.simps) (auto simp: dec_value_def of_char_digit)
qed

lemma getItemKey_eq [simp]: "getItemKey i = getItemKey j \<longleftrightarrow> i = j"
  by (metis dec_value_FormatUint getItemKey_def unsigned_word_eqI)

lemma FormatUint_digits: "c \<in> set (FormatUint n) \<Longrightarrow> (of_char c :: nat) < 58"
proof (induction n rule: FormatUint.induct)
  case (1 n)
  then show ?case by (subst (asm) (2) FormatUint.simps) (auto simp: of_char_digit split: if_splits)
qed

lemma getItemKey_letter: "c \<in> set k \<Longrightarrow> 58 \<le> (of_char c :: nat) \<Longrightarrow> getItemKey i \<noteq> k"
  using FormatUint_digits [of c "unat i"] by (auto simp: getItemKey_def)

lemma item_key_neq [simp]:
  "getItemKey i \<noteq> metadataKey" "getItemKey i \<noteq> legacyReadIndexKey" "getItemKey i \<noteq> legacyWriteIndexKey"
  "getItemKey i \<noteq> legacyCurrentlyDispatchedItemsKey"
  by (rule getItemKey_letter [of "CHR ''q''"] getItemKey_letter [of "CHR ''r''"]
      getItemKey_letter [of "CHR ''w''"] getItemKey_letter [of "CHR ''d''"];
      simp add: metadataKey_def legacyReadIndexKey_def legacyWriteIndexKey_def
        legacyCurrentlyDispatchedItemsKey_def)+

lemmas item_key_neq' [simp] = item_key_neq [symmetric]

lemma legacy_key_neq [simp]:
  "metadataKey \<noteq> legacyReadIndexKey" "metadataKey \<noteq> legacyWriteIndexKey"
  "metadataKey \<noteq> legacyCurrentlyDispatchedItemsKey" "legacyReadIndexKey \<noteq> metadataKey"
  "legacyWriteIndexKey \<noteq> metadataKey" "legacyCurrentlyDispatchedItemsKey \<noteq> metadataKey"
  by (simp_all add: metadataKey_def legacyReadIndexKey_def legacyWriteIndexKey_def
      legacyCurrentlyDispatchedItemsKey_def)

section \<open>Representation\<close>

text \<open>
  The storage represents a queue when it holds an encoded request for every index between the
  read and the write index and for every index of the live dispatched list, nothing for any other
  index, and metadata that agrees up to dispatched indexes without an item.
\<close>

definition pending_indexes :: "metadata \<Rightarrow> index list" where
  "pending_indexes md = map (\<lambda>k. md_ReadIndex md + of_nat k) [0 ..< unat (md_WriteIndex md) - unat (md_ReadIndex md)]"

definition stored :: "('st, 'r) pq_env \<Rightarrow> (string \<rightharpoonup> bytes) \<Rightarrow> index \<Rightarrow> bool" where
  "stored ev m i \<longleftrightarrow> (\<exists>r. ev_marshal ev r \<noteq> None \<and> m (getItemKey i) = ev_marshal ev r)"

definition item :: "('st, 'r) pq_env \<Rightarrow> (string \<rightharpoonup> bytes) \<Rightarrow> index \<Rightarrow> 'r" where
  "item ev m i = the (ev_unmarshal ev (m (getItemKey i)))"

definition in_queue :: "metadata \<Rightarrow> index list \<Rightarrow> index \<Rightarrow> bool" where
  "in_queue md live i \<longleftrightarrow> unat (md_ReadIndex md) \<le> unat i \<and> unat i < unat (md_WriteIndex md) \<or> i \<in> set live"

definition before_read :: "metadata \<Rightarrow> index list \<Rightarrow> index list \<Rightarrow> bool" where
  "before_read md live cdi \<longleftrightarrow> filter (\<lambda>i. i \<in> set live) cdi = live \<and> (\<forall>i \<in> set cdi. unat i < unat (md_ReadIndex md))"

definition items_ok :: "('st, 'r) pq_env \<Rightarrow> (string \<rightharpoonup> bytes) \<Rightarrow> metadata \<Rightarrow> index list \<Rightarrow> bool" where
  "items_ok ev m md live \<longleftrightarrow>
     unat (md_ReadIndex md) \<le> unat (md_WriteIndex md) \<and> unat (md_WriteIndex md) < 2 ^ 63 \<and>
     distinct live \<and> (\<forall>i \<in> set live. unat i < unat (md_ReadIndex md)) \<and>
     (\<forall>i. if in_queue md live i then stored ev m i else m (getItemKey i) = None) \<and>
     m legacyReadIndexKey = None \<and> m legacyWriteIndexKey = None \<and> m legacyCurrentlyDispatchedItemsKey = None"

definition metadata_ok :: "('st, 'r) pq_env \<Rightarrow> (string \<rightharpoonup> bytes) \<Rightarrow> metadata \<Rightarrow> index list \<Rightarrow> bool" where
  "metadata_ok ev m md live \<longleftrightarrow>
     (\<exists>cdi. m metadataKey = ev_md_marshal ev (md\<lparr>md_CurrentlyDispatchedItems := cdi\<rparr>) \<and> before_read md live cdi)"

definition pending :: "('st, 'r) pq_env \<Rightarrow> (string \<rightharpoonup> bytes) \<Rightarrow> metadata \<Rightarrow> 'r list" where
  "pending ev m md = map (item ev m) (pending_indexes md)"

lemma items_okD:
  assumes "items_ok ev m md live"
  shows "unat (md_ReadIndex md) \<le> unat (md_WriteIndex md)" "unat (md_WriteIndex md) < 2 ^ 63"
    and "distinct live" "\<And>i. i \<in> set live \<Longrightarrow> unat i < unat (md_ReadIndex md)"
    and "\<And>i. in_queue md live i \<Longrightarrow> stored ev m i" "\<And>i. \<not> in_queue md live i \<Longrightarrow> m (getItemKey i) = None"
    and "m legacyReadIndexKey = None" "m legacyWriteIndexKey = None" "m legacyCurrentlyDispatchedItemsKey = None"
  using assms unfolding items_ok_def by (auto split: if_splits)

lemma items_okI:
  assumes "unat (md_ReadIndex md) \<le> unat (md_WriteIndex md)" "unat (md_WriteIndex md) < 2 ^ 63"
    and "distinct live" "\<And>i. i \<in> set live \<Longrightarrow> unat i < unat (md_ReadIndex md)"
    and "\<And>i. in_queue md live i \<Longrightarrow> stored ev m i" "\<And>i. \<not> in_queue md live i \<Longrightarrow> m (getItemKey i) = None"
    and "m legacyReadIndexKey = None" "m legacyWriteIndexKey = None" "m legacyCurrentlyDispatchedItemsKey = None"
  shows "items_ok ev m md live"
  using assms unfolding items_ok_def by auto

lemma items_ok_indexes: "same_indexes md md' \<Longrightarrow> items_ok ev m md' live \<longleftrightarrow> items_ok ev m md live"
  by (simp add: items_ok_def same_indexes_def in_queue_def)

lemma pending_same_indexes: "same_indexes md md' \<Longrightarrow> pending ev m md' = pending ev m md"
  by (simp add: pending_def pending_indexes_def same_indexes_def)

lemma metadata_ok_cdi:
  "metadata_ok ev m (md\<lparr>md_CurrentlyDispatchedItems := cdi\<rparr>) live \<longleftrightarrow> metadata_ok ev m md live"
  by (simp add: metadata_ok_def before_read_def)

lemma metadata_ok_key:
  "m metadataKey = m' metadataKey \<Longrightarrow> metadata_ok ev m md live \<longleftrightarrow> metadata_ok ev m' md live"
  by (simp add: metadata_ok_def)

lemma before_read_Nil: "before_read md live cdi \<Longrightarrow> before_read md [] cdi"
  by (simp add: before_read_def)

subsection \<open>Indexes\<close>

lemma unat_succ: "unat (w :: index) < 2 ^ 63 \<Longrightarrow> unat (w + 1) = unat w + 1"
  by (simp add: unat_word_ariths)

lemma pending_indexes_nth:
  assumes "unat (md_WriteIndex md) < 2 ^ 63" "k < unat (md_WriteIndex md) - unat (md_ReadIndex md)"
  shows "unat (md_ReadIndex md + of_nat k) = unat (md_ReadIndex md) + k"
  using assms by (simp add: unat_word_ariths unat_of_nat)

lemma pending_indexes_range:
  "unat (md_WriteIndex md) < 2 ^ 63 \<Longrightarrow> i \<in> set (pending_indexes md) \<Longrightarrow>
   unat (md_ReadIndex md) \<le> unat i \<and> unat i < unat (md_WriteIndex md)"
  by (auto simp: pending_indexes_def pending_indexes_nth)

lemma pending_indexes_push:
  assumes "unat (md_ReadIndex md) \<le> unat (md_WriteIndex md)" "unat (md_WriteIndex md) < 2 ^ 63"
    and "md_ReadIndex md' = md_ReadIndex md" "md_WriteIndex md' = md_WriteIndex md + 1"
  shows "pending_indexes md' = pending_indexes md @ [md_WriteIndex md]"
proof -
  let ?n = "unat (md_WriteIndex md) - unat (md_ReadIndex md)"
  have "md_ReadIndex md + of_nat ?n = md_WriteIndex md"
    using assms(1) by (simp add: of_nat_diff)
  moreover have "unat (md_WriteIndex md') - unat (md_ReadIndex md) = Suc ?n"
    using assms by (simp add: unat_succ Suc_diff_le)
  ultimately show ?thesis using assms(3) by (simp add: pending_indexes_def)
qed

lemma pending_indexes_pop:
  assumes "unat (md_ReadIndex md) < unat (md_WriteIndex md)" "unat (md_WriteIndex md) < 2 ^ 63"
    and "md_ReadIndex md' = md_ReadIndex md + 1" "md_WriteIndex md' = md_WriteIndex md"
  shows "pending_indexes md = md_ReadIndex md # pending_indexes md'"
proof -
  obtain n where n: "unat (md_WriteIndex md) - unat (md_ReadIndex md) = Suc n"
    using assms(1) by (metis Suc_diff_Suc)
  then have n': "unat (md_WriteIndex md') - unat (md_ReadIndex md') = n"
    using assms by (simp add: unat_succ)
  have "[0 ..< Suc n] = 0 # map Suc [0 ..< n]" by (metis map_Suc_upt upt_conv_Cons zero_less_Suc)
  then show ?thesis using assms(3) unfolding pending_indexes_def n n'
    by (simp add: o_def add.assoc add.commute [of 1] del: upt_Suc)
qed

lemma wi_not_in_queue:
  "items_ok ev m md live \<Longrightarrow> \<not> in_queue md live (md_WriteIndex md)"
  using items_okD(1,4) [of ev m md live] by (fastforce simp: in_queue_def)

lemma in_queue_push:
  assumes "items_ok ev m md live" "md' = md\<lparr>md_WriteIndex := md_WriteIndex md + 1\<rparr>"
  shows "in_queue md' live i \<longleftrightarrow> in_queue md live i \<or> i = md_WriteIndex md"
proof -
  have "unat i < unat (md_WriteIndex md) + 1 \<longleftrightarrow> unat i < unat (md_WriteIndex md) \<or> i = md_WriteIndex md"
    by (metis less_Suc_eq Suc_eq_plus1 word_unat_eq_iff)
  moreover note items_okD(1,2) [OF assms(1)]
  ultimately show ?thesis by (auto simp: in_queue_def assms(2) unat_succ)
qed

subsection \<open>Removing a dispatched index\<close>

lemma position_Some: "position x xs = Some i \<Longrightarrow> i < length xs \<and> xs ! i = x"
  by (induction xs arbitrary: i) (auto split: if_splits)

lemma position_None: "position x xs = None \<longleftrightarrow> x \<notin> set xs"
  by (induction xs) auto

lemma mset_swap_remove_eq: "x \<in> set xs \<Longrightarrow> mset (swap_remove x xs) = mset xs - {#x#}"
proof -
  assume "x \<in> set xs"
  then obtain i where i: "position x xs = Some i" using position_None [of x xs] by (cases "position x xs") auto
  with position_Some [OF i] mset_swap_remove [of i xs] show ?thesis by (simp add: swap_remove_def)
qed

lemma swap_remove_distinct:
  assumes "distinct xs" "x \<in> set xs"
  shows "distinct (swap_remove x xs)" "set (swap_remove x xs) = set xs - {x}"
proof -
  have c: "count (mset (swap_remove x xs)) y = (if y \<in> set xs \<and> y \<noteq> x then 1 else 0)" for y
    using assms(1) by (auto simp: mset_swap_remove_eq [OF assms(2)] distinct_count_atmost_1)
  have s: "y \<in> set (swap_remove x xs) \<longleftrightarrow> y \<in> set xs \<and> y \<noteq> x" for y
    using c [of y] by (metis count_eq_zero_iff set_mset_mset zero_neq_one)
  show "set (swap_remove x xs) = set xs - {x}" using s by blast
  show "distinct (swap_remove x xs)" unfolding distinct_count_atmost_1 using c s by simp
qed

section \<open>The operations on a storage that keeps its contract\<close>

locale pq_laws = storage_client "ev_client ev" contents is_open reopen
  for ev :: "('st, 'r) pq_env" and contents :: "'st \<Rightarrow> (string \<rightharpoonup> bytes)" and is_open and reopen +
  assumes md_marshal: "\<exists>b. ev_md_marshal ev md = Some b"
    and md_roundtrip: "in_i64 (md_ItemsSize md) \<Longrightarrow> in_i64 (md_BytesSize md) \<Longrightarrow>
      ev_md_marshal ev md = Some b \<Longrightarrow> ev_md_unmarshal ev b = Some md \<and> (b = [] \<longrightarrow> md = md_zero)"
    and req_roundtrip: "\<exists>b. ev_marshal ev r = Some b \<and> ev_unmarshal ev (Some b) = Some r"
begin

abbreviation db :: "'st pq \<Rightarrow> string \<rightharpoonup> bytes" where
  "db q \<equiv> contents (pq_storage q)"

lemma batch_ok:
  assumes "is_open (pq_storage q)"
  obtains st' where "batch ev ops q = (Inr (fst (batch_map ops (db q))), q\<lparr>pq_storage := st'\<rparr>)" "is_open st'"
    "contents st' = snd (batch_map ops (db q))"
proof -
  obtain st' where "cl_Batch (ev_client ev) ops (pq_storage q) = (Inr (fst (batch_map ops (db q))), st')"
    "is_open st'" "contents st' = snd (batch_map ops (db q))"
    using Batch_ok [OF assms, of ops] by blast
  then show ?thesis by (intro that [of st']) (simp_all add: batch_def)
qed

lemma batch_set_then:
  assumes "is_open (pq_storage q)"
  shows "\<exists>st'. batch ev [SetOperation k v, op] (set_md md q) =
      (Inr [Some v, op_value op ((db q)(k \<mapsto> v))], (set_md md q)\<lparr>pq_storage := st'\<rparr>) \<and> is_open st' \<and>
      contents st' = apply_op op ((db q)(k \<mapsto> v))"
  by (rule batch_ok [of "set_md md q" "[SetOperation k v, op]"]) (simp_all add: assms exI)

lemma batch_deletes:
  assumes "is_open (pq_storage q)"
  obtains vs st' where "batch ev (map DeleteOperation ks) q = (Inr vs, q\<lparr>pq_storage := st'\<rparr>)" "is_open st'"
    "contents st' = (\<lambda>k. if k \<in> set ks then None else db q k)"
proof (rule batch_ok [OF assms, of "map DeleteOperation ks"])
  fix st'
  assume "batch ev (map DeleteOperation ks) q =
      (Inr (fst (batch_map (map DeleteOperation ks) (db q))), q\<lparr>pq_storage := st'\<rparr>)" "is_open st'"
    "contents st' = snd (batch_map (map DeleteOperation ks) (db q))"
  then show thesis by (intro that) (simp_all only: batch_map_deletes)
qed

lemma stored_item: "stored ev m i \<Longrightarrow> \<exists>b. m (getItemKey i) = Some b \<and> ev_unmarshal ev (Some b) = Some (item ev m i)"
proof -
  assume "stored ev m i"
  then obtain r where "m (getItemKey i) = ev_marshal ev r" by (auto simp: stored_def)
  with req_roundtrip [of r] show ?thesis by (auto simp: item_def)
qed

lemma item_written: "ev_marshal ev r = Some b \<Longrightarrow> m (getItemKey i) = Some b \<Longrightarrow> item ev m i = r"
  using req_roundtrip [of r] by (simp add: item_def)

lemma putInternal_ok:
  assumes opn: "is_open (pq_storage q)" and ok: "items_ok ev (db q) (pq_metadata q) live"
    and cdi: "before_read (pq_metadata q) live (md_CurrentlyDispatchedItems (pq_metadata q))"
    and room: "unat (md_WriteIndex (pq_metadata q)) + 1 < 2 ^ 63"
  obtains st' md' where "putInternal ev r q = (None, q\<lparr>pq_metadata := md', pq_storage := st'\<rparr>)" "is_open st'"
    "md' = (pq_metadata q)\<lparr>md_WriteIndex := md_WriteIndex (pq_metadata q) + 1\<rparr>"
    "items_ok ev (contents st') md' live" "metadata_ok ev (contents st') md' live"
    "pending ev (contents st') md' = pending ev (db q) (pq_metadata q) @ [r]"
    "\<And>i. in_queue (pq_metadata q) live i \<Longrightarrow> item ev (contents st') i = item ev (db q) i"
proof -
  let ?md = "pq_metadata q"
  let ?wi = "md_WriteIndex ?md"
  let ?md' = "?md\<lparr>md_WriteIndex := ?wi + 1\<rparr>"
  obtain mb where mb: "ev_md_marshal ev ?md' = Some mb" using md_marshal [of ?md'] by auto
  obtain rb where rb: "ev_marshal ev r = Some rb" using req_roundtrip [of r] by auto
  obtain st' where b: "batch ev [SetOperation metadataKey mb, SetOperation (getItemKey ?wi) rb] (set_md ?md' q)
      = (Inr [Some mb, Some rb], (set_md ?md' q)\<lparr>pq_storage := st'\<rparr>)" and o: "is_open st'"
    and c: "contents st' = (db q)(metadataKey \<mapsto> mb, getItemKey ?wi \<mapsto> rb)"
    using batch_set_then [OF opn, of metadataKey mb "SetOperation (getItemKey ?wi) rb" ?md']
    by (simp only: op_value.simps apply_op.simps) blast
  note okD = items_okD [OF ok] and nq = wi_not_in_queue [OF ok]
  have same: "contents st' (getItemKey i) = db q (getItemKey i)" if "i \<noteq> ?wi" for i
    using that by (simp add: c)
  have neq: "i \<noteq> ?wi" if "in_queue ?md live i" for i using that nq by auto
  have q': "in_queue ?md' live i \<longleftrightarrow> in_queue ?md live i \<or> i = ?wi" for i
    using in_queue_push [OF ok refl] .
  show ?thesis
  proof (rule that [OF _ o refl])
    show "putInternal ev r q = (None, q\<lparr>pq_metadata := ?md', pq_storage := st'\<rparr>)"
      by (simp add: putInternal_def Let_def mb rb b)
    show "items_ok ev (contents st') ?md' live"
    proof (rule items_okI)
      show "unat (md_ReadIndex ?md') \<le> unat (md_WriteIndex ?md')" "unat (md_WriteIndex ?md') < 2 ^ 63"
        using okD(1,2) room by (simp_all add: unat_succ)
      show "stored ev (contents st') i" if "in_queue ?md' live i" for i
        using that okD(5) [of i] rb by (auto simp: q' stored_def c)
      show "contents st' (getItemKey i) = None" if "\<not> in_queue ?md' live i" for i
        using that okD(6) [of i] by (auto simp: q' c)
    qed (use okD(3,4,7-9) in \<open>simp_all add: c\<close>)
    show "metadata_ok ev (contents st') ?md' live"
      unfolding metadata_ok_def using mb cdi
      by (intro exI [of _ "md_CurrentlyDispatchedItems ?md"]) (simp add: c before_read_def)
    have "item ev (contents st') i = item ev (db q) i" if "i \<in> set (pending_indexes ?md)" for i
    proof -
      have "i \<noteq> ?wi" using pending_indexes_range [OF okD(2) that] by auto
      then show ?thesis using same by (simp add: item_def)
    qed
    moreover have "item ev (contents st') ?wi = r" by (rule item_written [OF rb]) (simp add: c)
    ultimately show "pending ev (contents st') ?md' = pending ev (db q) ?md @ [r]"
      using pending_indexes_push [OF okD(1,2), of ?md'] by (simp add: pending_def)
    show "item ev (contents st') i = item ev (db q) i" if "in_queue ?md live i" for i
      using same [OF neq [OF that]] by (simp add: item_def)
  qed
qed

lemma getNextItem_ok:
  assumes opn: "is_open (pq_storage q)" and ok: "items_ok ev (db q) (pq_metadata q) live"
    and live: "live = md_CurrentlyDispatchedItems (pq_metadata q)"
    and ne: "md_ReadIndex (pq_metadata q) \<noteq> md_WriteIndex (pq_metadata q)"
  obtains st' md' r where
    "getNextItem ev q = (Some (md_ReadIndex (pq_metadata q), r),
       q\<lparr>pq_metadata := md', pq_storage := st', pq_refClient := pq_refClient q + 1\<rparr>)" "is_open st'"
    "md' = (pq_metadata q)\<lparr>md_ReadIndex := md_ReadIndex (pq_metadata q) + 1,
             md_CurrentlyDispatchedItems := live @ [md_ReadIndex (pq_metadata q)]\<rparr>"
    "items_ok ev (contents st') md' (live @ [md_ReadIndex (pq_metadata q)])"
    "metadata_ok ev (contents st') md' (live @ [md_ReadIndex (pq_metadata q)])"
    "pending ev (db q) (pq_metadata q) = r # pending ev (contents st') md'"
    "\<And>i. item ev (contents st') i = item ev (db q) i" "r = item ev (db q) (md_ReadIndex (pq_metadata q))"
proof -
  let ?md = "pq_metadata q"
  let ?ri = "md_ReadIndex ?md"
  let ?live' = "live @ [?ri]"
  let ?md' = "?md\<lparr>md_ReadIndex := ?ri + 1, md_CurrentlyDispatchedItems := ?live'\<rparr>"
  note okD = items_okD [OF ok]
  have lt: "unat ?ri < unat (md_WriteIndex ?md)" using okD(1) ne by (metis le_neq_trans word_unat_eq_iff)
  then have ri: "unat (?ri + 1) = unat ?ri + 1" using okD(2) by (simp add: unat_succ)
  obtain mb where mb: "ev_md_marshal ev ?md' = Some mb" using md_marshal [of ?md'] by auto
  have "stored ev (db q) ?ri" using okD(5) [of ?ri] lt by (simp add: in_queue_def)
  then obtain rb where rb: "db q (getItemKey ?ri) = Some rb" "ev_unmarshal ev (Some rb) = Some (item ev (db q) ?ri)"
    using stored_item by blast
  obtain st' where b: "batch ev [SetOperation metadataKey mb, GetOperation (getItemKey ?ri)] (set_md ?md' q)
      = (Inr [Some mb, Some rb], (set_md ?md' q)\<lparr>pq_storage := st'\<rparr>)" and o: "is_open st'"
    and c: "contents st' = (db q)(metadataKey \<mapsto> mb)"
    using batch_set_then [OF opn, of metadataKey mb "GetOperation (getItemKey ?ri)" ?md']
    by (simp only: op_value.simps apply_op.simps fun_upd_other [OF item_key_neq(1)] rb(1)) blast
  have same: "contents st' (getItemKey i) = db q (getItemKey i)" for i by (simp add: c)
  have it: "item ev (contents st') i = item ev (db q) i" for i by (simp add: item_def same)
  have nl: "?ri \<notin> set live" using okD(4) by blast
  have q': "in_queue ?md' ?live' i \<longleftrightarrow> in_queue ?md live i" for i
  proof -
    have "unat ?ri \<le> unat i \<longleftrightarrow> unat ?ri + 1 \<le> unat i \<or> i = ?ri"
      by (metis Suc_eq_plus1 Suc_leI le_neq_implies_less nat_le_linear not_less_eq_eq word_unat_eq_iff)
    then show ?thesis using lt by (auto simp: in_queue_def ri)
  qed
  show ?thesis
  proof (rule that [OF _ o refl])
    show "getNextItem ev q = (Some (?ri, item ev (db q) ?ri),
       q\<lparr>pq_metadata := ?md', pq_storage := st', pq_refClient := pq_refClient q + 1\<rparr>)"
      using mb b rb live by (simp add: getNextItem_def Let_def)
    show "items_ok ev (contents st') ?md' ?live'"
    proof (rule items_okI)
      show "stored ev (contents st') i" if "in_queue ?md' ?live' i" for i
        using that okD(5) [of i] unfolding q' by (simp add: stored_def same)
      show "contents st' (getItemKey i) = None" if "\<not> in_queue ?md' ?live' i" for i
        using that okD(6) [of i] unfolding q' by (simp add: same)
      show "unat i < unat (md_ReadIndex ?md')" if "i \<in> set ?live'" for i
        using that okD(4) [of i] by (auto simp: ri)
    qed (use okD(2,3,7-9) lt nl in \<open>simp_all add: c ri\<close>)
    show "metadata_ok ev (contents st') ?md' ?live'"
      unfolding metadata_ok_def using mb okD(4)
      by (intro exI [of _ ?live']) (fastforce simp: c before_read_def ri filter_id_conv)
    show "pending ev (db q) ?md = item ev (db q) ?ri # pending ev (contents st') ?md'"
      using pending_indexes_pop [OF lt okD(2), of ?md'] by (simp add: pending_def it)
  qed (simp_all add: it)
qed

lemma itemDispatchingFinish_ok:
  assumes opn: "is_open (pq_storage q)" and ok: "items_ok ev (db q) (pq_metadata q) live"
    and live: "live = md_CurrentlyDispatchedItems (pq_metadata q)" and idx: "index \<in> set live"
  obtains st' md' where
    "itemDispatchingFinish ev index q = (None, q\<lparr>pq_metadata := md', pq_storage := st'\<rparr>)" "is_open st'"
    "md' = reset_sizes_if_drained ((pq_metadata q)\<lparr>md_CurrentlyDispatchedItems := swap_remove index live\<rparr>)"
    "items_ok ev (contents st') md' (swap_remove index live)"
    "metadata_ok ev (contents st') md' (swap_remove index live)"
    "pending ev (contents st') md' = pending ev (db q) (pq_metadata q)"
    "\<And>i. i \<noteq> index \<Longrightarrow> item ev (contents st') i = item ev (db q) i"
proof -
  let ?live' = "swap_remove index live" and ?md = "pq_metadata q"
  let ?md1 = "?md\<lparr>md_CurrentlyDispatchedItems := ?live'\<rparr>"
  let ?md' = "reset_sizes_if_drained ?md1"
  note okD = items_okD [OF ok] and sr = swap_remove_distinct [OF items_okD(3) [OF ok] idx]
  have same: "same_indexes ?md ?md'" using reset_sizes_indexes [of ?md1] by (simp add: same_indexes_def)
  obtain mb where mb: "ev_md_marshal ev ?md' = Some mb" using md_marshal [of ?md'] by auto
  obtain st' where b: "batch ev [SetOperation metadataKey mb, DeleteOperation (getItemKey index)] (set_md ?md' q)
      = (Inr [Some mb, None], (set_md ?md' q)\<lparr>pq_storage := st'\<rparr>)" and o: "is_open st'"
    and c: "contents st' = (db q)(metadataKey \<mapsto> mb, getItemKey index := None)"
    using batch_set_then [OF opn, of metadataKey mb "DeleteOperation (getItemKey index)" ?md']
    by (simp only: op_value.simps apply_op.simps) blast
  have keep: "contents st' (getItemKey i) = db q (getItemKey i)" if "i \<noteq> index" for i using that by (simp add: c)
  have it: "item ev (contents st') i = item ev (db q) i" if "i \<noteq> index" for i by (simp add: item_def keep [OF that])
  have before: "unat index < unat (md_ReadIndex ?md)" using okD(4) idx by blast
  have q': "in_queue ?md ?live' i \<longleftrightarrow> in_queue ?md live i \<and> i \<noteq> index" for i
    using before unfolding in_queue_def sr(2) by (cases "i = index") simp_all
  have "items_ok ev (contents st') ?md ?live'"
  proof (rule items_okI)
    show "stored ev (contents st') i" if "in_queue ?md ?live' i" for i
      using that okD(5) [of i] keep [of i] unfolding q' by (simp add: stored_def)
    show "contents st' (getItemKey i) = None" if "\<not> in_queue ?md ?live' i" for i
      using that okD(6) [of i] unfolding q' by (auto simp: c)
  qed (use okD sr in \<open>simp_all add: c\<close>)
  then have items: "items_ok ev (contents st') ?md' ?live'" using items_ok_indexes [OF same] by blast
  have cdi: "md_CurrentlyDispatchedItems ?md' = ?live'" by (simp add: reset_sizes_if_drained_def)
  show ?thesis
  proof (rule that [OF _ o refl items])
    show "itemDispatchingFinish ev index q = (None, q\<lparr>pq_metadata := ?md', pq_storage := st'\<rparr>)"
      using mb b live by (simp add: itemDispatchingFinish_def Let_def)
    have "?md'\<lparr>md_CurrentlyDispatchedItems := ?live'\<rparr> = ?md'" using cdi by (metis metadata.surjective metadata.update_convs(5) metadata.select_convs(5))
    moreover have "before_read ?md' ?live' ?live'"
      using okD(4) sr(2) same by (auto simp: before_read_def filter_id_conv same_indexes_def)
    ultimately show "metadata_ok ev (contents st') ?md' ?live'"
      unfolding metadata_ok_def using mb by (intro exI [of _ ?live']) (simp add: c)
    have "i \<noteq> index" if "i \<in> set (pending_indexes ?md)" for i
      using pending_indexes_range [OF okD(2) that] before by auto
    then have "map (item ev (contents st')) (pending_indexes ?md) = map (item ev (db q)) (pending_indexes ?md)"
      using it by (intro map_cong) auto
    then show "pending ev (contents st') ?md' = pending ev (db q) ?md"
      unfolding pending_same_indexes [OF same] by (simp only: pending_def)
  qed (rule it)
qed

lemma put_back_ok:
  assumes "is_open (pq_storage q)" "items_ok ev (db q) (pq_metadata q) []"
    and "before_read (pq_metadata q) [] (md_CurrentlyDispatchedItems (pq_metadata q))"
    and "unat (md_WriteIndex (pq_metadata q)) + length rs < 2 ^ 63"
    and "length (filter (\<lambda>v. v \<noteq> None) vs) = length rs"
    and "map (ev_unmarshal ev) (filter (\<lambda>v. v \<noteq> None) vs) = map Some rs"
  shows "\<exists>st' md'. fold (put_back ev) vs q = q\<lparr>pq_metadata := md', pq_storage := st'\<rparr> \<and> is_open st' \<and>
    md' = (pq_metadata q)\<lparr>md_WriteIndex := md_WriteIndex md'\<rparr> \<and>
    items_ok ev (contents st') md' [] \<and> (rs \<noteq> [] \<longrightarrow> metadata_ok ev (contents st') md' []) \<and>
    (rs = [] \<longrightarrow> md' = pq_metadata q \<and> st' = pq_storage q) \<and>
    pending ev (contents st') md' = pending ev (db q) (pq_metadata q) @ rs"
  using assms
proof (induction vs arbitrary: q rs)
  case Nil
  then show ?case by (intro exI [of _ "pq_storage q"] exI [of _ "pq_metadata q"]) simp
next
  case (Cons v vs)
  show ?case
  proof (cases v)
    case None
    then show ?thesis using Cons.IH [OF Cons.prems(1-4)] Cons.prems(5,6) by (simp add: put_back_def)
  next
    case (Some b)
    then obtain r rs' where rs: "rs = r # rs'" "ev_unmarshal ev (Some b) = Some r"
      "map (ev_unmarshal ev) (filter (\<lambda>v. v \<noteq> None) vs) = map Some rs'"
      "length (filter (\<lambda>v. v \<noteq> None) vs) = length rs'"
      using Cons.prems(5,6) by (cases rs) auto
    from Cons.prems(4) rs(1) have room: "unat (md_WriteIndex (pq_metadata q)) + 1 < 2 ^ 63" by simp
    obtain st1 md1 where p: "putInternal ev r q = (None, q\<lparr>pq_metadata := md1, pq_storage := st1\<rparr>)" "is_open st1"
      "md1 = (pq_metadata q)\<lparr>md_WriteIndex := md_WriteIndex (pq_metadata q) + 1\<rparr>"
      "items_ok ev (contents st1) md1 []" "metadata_ok ev (contents st1) md1 []"
      "pending ev (contents st1) md1 = pending ev (db q) (pq_metadata q) @ [r]"
      by (rule putInternal_ok [OF Cons.prems(1-3) room, of r])
    let ?q1 = "q\<lparr>pq_metadata := md1, pq_storage := st1\<rparr>"
    have wi: "unat (md_WriteIndex md1) + length rs' < 2 ^ 63"
      using Cons.prems(4) room rs(1) by (simp add: p(3) unat_succ)
    have br: "before_read md1 [] (md_CurrentlyDispatchedItems md1)"
      using Cons.prems(3) by (simp add: p(3) before_read_def)
    have "is_open (pq_storage ?q1)" "items_ok ev (db ?q1) (pq_metadata ?q1) []"
      "before_read (pq_metadata ?q1) [] (md_CurrentlyDispatchedItems (pq_metadata ?q1))"
      "unat (md_WriteIndex (pq_metadata ?q1)) + length rs' < 2 ^ 63"
      using p(2,4) br wi by simp_all
    from Cons.IH [OF this rs(4,3)] obtain st' md' where
      f: "fold (put_back ev) vs ?q1 = ?q1\<lparr>pq_metadata := md', pq_storage := st'\<rparr>" "is_open st'"
        "md' = md1\<lparr>md_WriteIndex := md_WriteIndex md'\<rparr>" "items_ok ev (contents st') md' []"
        "rs' \<noteq> [] \<longrightarrow> metadata_ok ev (contents st') md' []" "rs' = [] \<longrightarrow> md' = md1 \<and> st' = st1"
        "pending ev (contents st') md' = pending ev (contents st1) md1 @ rs'"
      by auto
    have "put_back ev v q = ?q1" using p(1) rs(2) Some by (simp add: put_back_def)
    then show ?thesis using f p(3,5,6) rs(1)
      by (intro exI [of _ st'] exI [of _ md']) auto
  qed
qed

lemma before_read_values:
  assumes ok: "items_ok ev m md live" and br: "before_read md live cdi"
  shows "map (ev_unmarshal ev) (filter (\<lambda>v. v \<noteq> None) (map m (map getItemKey cdi))) = map Some (map (item ev m) live)"
    "length (filter (\<lambda>v. v \<noteq> None) (map m (map getItemKey cdi))) = length live"
proof -
  note okD = items_okD [OF ok]
  have iff: "m (getItemKey i) \<noteq> None \<longleftrightarrow> i \<in> set live" if "i \<in> set cdi" for i
  proof
    assume "m (getItemKey i) \<noteq> None"
    then have "in_queue md live i" using okD(6) [of i] by (cases "in_queue md live i") auto
    moreover have "unat i < unat (md_ReadIndex md)" using br that unfolding before_read_def by blast
    ultimately show "i \<in> set live" by (simp add: in_queue_def)
  next
    assume "i \<in> set live"
    then have "stored ev m i" using okD(5) by (simp add: in_queue_def)
    then show "m (getItemKey i) \<noteq> None" using stored_item by fastforce
  qed
  have f: "filter (\<lambda>v. v \<noteq> None) (map m (map getItemKey cdi)) = map (\<lambda>i. m (getItemKey i)) live"
  proof -
    have "filter (\<lambda>v. v \<noteq> None) (map m (map getItemKey cdi)) =
        map (\<lambda>i. m (getItemKey i)) (filter (\<lambda>i. m (getItemKey i) \<noteq> None) cdi)"
      by (simp add: filter_map o_def)
    also have "filter (\<lambda>i. m (getItemKey i) \<noteq> None) cdi = filter (\<lambda>i. i \<in> set live) cdi"
      using iff by (intro filter_cong) auto
    finally show ?thesis using br by (simp add: before_read_def)
  qed
  have "ev_unmarshal ev (m (getItemKey i)) = Some (item ev m i)" if "i \<in> set live" for i
  proof -
    have "stored ev m i" using okD(5) that by (simp add: in_queue_def)
    then show ?thesis using stored_item by fastforce
  qed
  then show "map (ev_unmarshal ev) (filter (\<lambda>v. v \<noteq> None) (map m (map getItemKey cdi))) = map Some (map (item ev m) live)"
    "length (filter (\<lambda>v. v \<noteq> None) (map m (map getItemKey cdi))) = length live"
    unfolding f by simp_all
qed

lemma cleanup_ok:
  assumes ok: "items_ok ev m md live" and br: "before_read md live cdi"
    and m': "m' = (\<lambda>k. if k \<in> set (map getItemKey cdi) then None else m k)"
  shows "items_ok ev m' md []" "m' metadataKey = m metadataKey" "pending ev m' md = pending ev m md"
proof -
  note okD = items_okD [OF ok]
  have after: "i \<notin> set cdi" if "unat (md_ReadIndex md) \<le> unat i" for i
    using br that unfolding before_read_def by (metis not_le)
  have live: "set live \<subseteq> set cdi" using br unfolding before_read_def by (metis filter_is_subset)
  have keep: "m' (getItemKey i) = (if i \<in> set cdi then None else m (getItemKey i))" for i
    by (simp add: m' image_iff)
  show "items_ok ev m' md []"
  proof (rule items_okI)
    show "stored ev m' i" if "in_queue md [] i" for i
      using that after [of i] okD(5) [of i] by (simp add: in_queue_def stored_def keep)
    show "m' (getItemKey i) = None" if "\<not> in_queue md [] i" for i
      using that live okD(6) [of i] by (cases "i \<in> set live") (auto simp: in_queue_def keep)
  qed (use okD in \<open>auto simp: m'\<close>)
  show "m' metadataKey = m metadataKey" by (auto simp: m')
  have "item ev m' i = item ev m i" if "i \<in> set (pending_indexes md)" for i
    using pending_indexes_range [OF okD(2) that] after [of i] by (simp add: item_def keep)
  then show "pending ev m' md = pending ev m md" by (simp add: pending_def)
qed

lemma batch_gets:
  assumes "is_open (pq_storage q)"
  obtains st' where "batch ev (map GetOperation ks) q = (Inr (map (db q) ks), q\<lparr>pq_storage := st'\<rparr>)"
    "is_open st'" "contents st' = db q"
  by (rule batch_ok [OF assms, of "map GetOperation ks"]) (simp only: batch_map_gets fst_conv snd_conv)

text \<open>Of a prefix of the retrieved values the first few live requests are put back, the rest is not.\<close>

lemma filter_take_prefix:
  "filter P (take k xs) = take (length (filter P (take k xs))) (filter P xs)"
  "filter P (drop k xs) = drop (length (filter P (take k xs))) (filter P xs)"
proof -
  have "filter P xs = filter P (take k xs) @ filter P (drop k xs)"
    by (metis append_take_drop_id filter_append)
  then show "filter P (take k xs) = take (length (filter P (take k xs))) (filter P xs)"
    "filter P (drop k xs) = drop (length (filter P (take k xs))) (filter P xs)" by simp_all
qed

lemma decoded_values:
  "map (ev_unmarshal ev) (filter (\<lambda>v. v \<noteq> None) vs) = map Some rs \<Longrightarrow>
   List.map_filter (\<lambda>v. if v = None then None else ev_unmarshal ev v) vs = rs"
proof (induction vs arbitrary: rs)
  case (Cons v vs)
  then show ?case by (cases v; cases rs) (auto simp: map_filter_simps)
qed (simp add: map_filter_simps)

lemma enqueue_interrupted_ok:
  assumes opn: "is_open (pq_storage q)" and ok: "items_ok ev (db q) (pq_metadata q) live"
    and meta: "metadata_ok ev (db q) (pq_metadata q) live"
    and cdi: "cdi = md_CurrentlyDispatchedItems (pq_metadata q)" "before_read (pq_metadata q) live cdi"
    and room: "unat (md_WriteIndex (pq_metadata q)) + length live < 2 ^ 63"
  shows "\<exists>st' md' n. enqueue_interrupted ev k cdi q = q\<lparr>pq_metadata := md', pq_storage := st'\<rparr> \<and> is_open st' \<and>
    md' = (pq_metadata q)\<lparr>md_WriteIndex := md_WriteIndex md'\<rparr> \<and> items_ok ev (contents st') md' [] \<and>
    metadata_ok ev (contents st') md' [] \<and>
    pending ev (contents st') md' = pending ev (db q) (pq_metadata q) @ take n (map (item ev (db q)) live) \<and>
    not_put_back ev k cdi q = drop n (map (item ev (db q)) live) \<and> (length cdi \<le> k \<longrightarrow> length live \<le> n) \<and> n \<le> k"
proof (cases "cdi = []")
  case True
  then have "live = []" using cdi(2) by (simp add: before_read_def)
  moreover have "not_put_back ev k cdi q = []"
    by (rule batch_ok [OF opn, of "[]"]) (simp add: not_put_back_def True map_filter_simps)
  ultimately show ?thesis using True opn ok meta
    by (intro exI [of _ "pq_storage q"] exI [of _ "pq_metadata q"] exI [of _ 0]) (simp add: enqueue_interrupted_def)
next
  case False
  let ?md = "pq_metadata q" and ?keys = "map getItemKey cdi"
  let ?vs = "map (db q) ?keys" and ?rs = "map (item ev (db q)) live"
  define n where "n = length (filter (\<lambda>v. v \<noteq> None) (take k ?vs))"
  obtain st1 where g: "batch ev (map GetOperation ?keys) q = (Inr ?vs, q\<lparr>pq_storage := st1\<rparr>)"
    "is_open st1" "contents st1 = db q"
    by (rule batch_gets [OF opn])
  let ?q1 = "q\<lparr>pq_storage := st1\<rparr>"
  have o1: "is_open (pq_storage ?q1)" using g(2) by simp
  obtain vs st2 where d: "batch ev (map DeleteOperation ?keys) ?q1 = (Inr vs, ?q1\<lparr>pq_storage := st2\<rparr>)"
    "is_open st2" "contents st2 = (\<lambda>k. if k \<in> set ?keys then None else db ?q1 k)"
    by (rule batch_deletes [OF o1, of ?keys])
  have d3: "contents st2 = (\<lambda>k. if k \<in> set ?keys then None else db q k)" using d(3) g(3) by (auto simp: fun_eq_iff)
  note cl = cleanup_ok [OF ok cdi(2) d3] and vals = before_read_values [OF ok cdi(2)]
    and pre = filter_take_prefix [of "\<lambda>v. v \<noteq> None" k ?vs, folded n_def]
  have moved: "map (ev_unmarshal ev) (filter (\<lambda>v. v \<noteq> None) (take k ?vs)) = map Some (take n ?rs)"
    "length (filter (\<lambda>v. v \<noteq> None) (take k ?vs)) = length (take n ?rs)"
    by (simp_all only: pre(1) take_map [symmetric] vals(1)) (simp only: length_take vals(2) length_map)
  have rest: "map (ev_unmarshal ev) (filter (\<lambda>v. v \<noteq> None) (drop k ?vs)) = map Some (drop n ?rs)"
    by (simp only: pre(2) drop_map [symmetric] vals(1))
  let ?q2 = "q\<lparr>pq_storage := st2\<rparr>"
  have "is_open (pq_storage ?q2)" "items_ok ev (db ?q2) (pq_metadata ?q2) []"
    "before_read (pq_metadata ?q2) [] (md_CurrentlyDispatchedItems (pq_metadata ?q2))"
    "unat (md_WriteIndex (pq_metadata ?q2)) + length (take n ?rs) < 2 ^ 63"
    using d(2) cl(1) before_read_Nil [OF cdi(2)] cdi(1) room by simp_all
  from put_back_ok [OF this moved(2,1)]
  obtain st' md' where f: "fold (put_back ev) (take k ?vs) ?q2 = ?q2\<lparr>pq_metadata := md', pq_storage := st'\<rparr>"
    "is_open st'" "md' = ?md\<lparr>md_WriteIndex := md_WriteIndex md'\<rparr>" "items_ok ev (contents st') md' []"
    "take n ?rs \<noteq> [] \<longrightarrow> metadata_ok ev (contents st') md' []" "take n ?rs = [] \<longrightarrow> md' = ?md \<and> st' = st2"
    "pending ev (contents st') md' = pending ev (contents st2) ?md @ take n ?rs"
    by auto
  have "metadata_ok ev (contents st2) ?md []"
    using meta cl(2) before_read_Nil unfolding metadata_ok_def by metis
  then have "metadata_ok ev (contents st') md' []" using f(5,6) by (cases "take n ?rs = []") auto
  moreover have "enqueue_interrupted ev k cdi q = q\<lparr>pq_metadata := md', pq_storage := st'\<rparr>"
    using False g(1) d(1) f(1) by (simp add: enqueue_interrupted_def Let_def)
  moreover have "not_put_back ev k cdi q = drop n ?rs"
    unfolding not_put_back_def g(1) by (simp only: fst_conv sum.case decoded_values [OF rest])
  moreover have "length live \<le> n" if "length cdi \<le> k" using vals(2) that by (simp add: n_def)
  moreover have "n \<le> k" using length_filter_le [of "\<lambda>v. v \<noteq> None" "take k ?vs"] by (simp add: n_def)
  ultimately show ?thesis using f(2,3,4,7) cl(3)
    by (intro exI [of _ st'] exI [of _ md'] exI [of _ n]) simp
qed

lemma enqueue_complete:
  assumes "is_open (pq_storage q)"
  shows "enqueueNotDispatchedReqs ev cdi q = enqueue_interrupted ev (length cdi) cdi q"
proof -
  obtain st1 where "batch ev (map GetOperation (map getItemKey cdi)) q =
      (Inr (map (db q) (map getItemKey cdi)), q\<lparr>pq_storage := st1\<rparr>)"
    by (rule batch_gets [OF assms])
  then show ?thesis by (simp add: enqueueNotDispatchedReqs_def enqueue_interrupted_def Let_def)
qed

lemma enqueue_ok:
  assumes opn: "is_open (pq_storage q)" and ok: "items_ok ev (db q) (pq_metadata q) live"
    and meta: "metadata_ok ev (db q) (pq_metadata q) live"
    and cdi: "cdi = md_CurrentlyDispatchedItems (pq_metadata q)" "before_read (pq_metadata q) live cdi"
    and room: "unat (md_WriteIndex (pq_metadata q)) + length live < 2 ^ 63"
  shows "\<exists>st' md'. enqueueNotDispatchedReqs ev cdi q = q\<lparr>pq_metadata := md', pq_storage := st'\<rparr> \<and> is_open st' \<and>
    md' = (pq_metadata q)\<lparr>md_WriteIndex := md_WriteIndex md'\<rparr> \<and> items_ok ev (contents st') md' [] \<and>
    metadata_ok ev (contents st') md' [] \<and>
    pending ev (contents st') md' = pending ev (db q) (pq_metadata q) @ map (item ev (db q)) live"
  using enqueue_interrupted_ok [OF assms, of "length cdi"] unfolding enqueue_complete [OF opn] by fastforce

lemma legacy_reads_ok:
  assumes opn: "is_open (pq_storage q)" and md: "pq_metadata q = md_zero"
    and ok: "items_ok ev (db q) md_zero []"
  obtains st1 where "load_legacy_indexes ev q = q\<lparr>pq_metadata := md_zero, pq_storage := st1\<rparr>" "is_open st1"
    "contents st1 = db q" "retrieveAndEnqueueNotDispatchedReqs ev (load_legacy_indexes ev q) =
      q\<lparr>pq_metadata := md_zero, pq_storage := st1\<rparr>"
proof -
  note okD = items_okD [OF ok]
  obtain st1 where g: "batch ev (map GetOperation [legacyReadIndexKey, legacyWriteIndexKey]) q =
      (Inr (map (db q) [legacyReadIndexKey, legacyWriteIndexKey]), q\<lparr>pq_storage := st1\<rparr>)"
    "is_open st1" "contents st1 = db q"
    by (rule batch_gets [OF opn])
  have li: "load_legacy_indexes ev q = q\<lparr>pq_metadata := md_zero, pq_storage := st1\<rparr>"
    using g(1) okD(7) md by (simp add: load_legacy_indexes_def bytesToItemIndex_def Let_def md_zero_def)
  have "retrieveAndEnqueueNotDispatchedReqs ev (load_legacy_indexes ev q) =
      q\<lparr>pq_metadata := md_zero, pq_storage := st1\<rparr>"
    using Get_ok [OF g(2)] g(3) okD(9)
    by (simp add: retrieveAndEnqueueNotDispatchedReqs_def li bytesToItemIndexArray_def
        enqueueNotDispatchedReqs_def)
  with li g(2,3) show ?thesis by (rule that)
qed

lemma loadLegacyMetadata_ok:
  assumes opn: "is_open (pq_storage q)" and md: "pq_metadata q = md_zero"
    and ok: "items_ok ev (db q) md_zero []"
  shows "\<exists>st'. loadLegacyMetadata ev q = q\<lparr>pq_metadata := md_zero, pq_storage := st'\<rparr> \<and> is_open st' \<and>
    items_ok ev (contents st') md_zero [] \<and> metadata_ok ev (contents st') md_zero []"
proof -
  note okD = items_okD [OF ok]
  obtain st1 where g: "load_legacy_indexes ev q = q\<lparr>pq_metadata := md_zero, pq_storage := st1\<rparr>" "is_open st1"
    "contents st1 = db q" "retrieveAndEnqueueNotDispatchedReqs ev (load_legacy_indexes ev q) =
      q\<lparr>pq_metadata := md_zero, pq_storage := st1\<rparr>" by (rule legacy_reads_ok [OF assms])
  obtain mb where mb: "ev_md_marshal ev md_zero = Some mb" using md_marshal [of md_zero] by auto
  obtain st2 where s: "cl_Set (ev_client ev) metadataKey mb st1 = (None, st2)" "is_open st2"
    "contents st2 = (contents st1)(metadataKey \<mapsto> mb)"
    by (rule Set_obtain [OF g(2)])
  let ?q2 = "q\<lparr>pq_metadata := md_zero, pq_storage := st2\<rparr>"
  let ?ks = "[legacyReadIndexKey, legacyWriteIndexKey, legacyCurrentlyDispatchedItemsKey]"
  have o2: "is_open (pq_storage ?q2)" using s(2) by simp
  obtain vs st3 where d: "batch ev (map DeleteOperation ?ks) ?q2 = (Inr vs, ?q2\<lparr>pq_storage := st3\<rparr>)" "is_open st3"
    "contents st3 = (\<lambda>k. if k \<in> set ?ks then None else db ?q2 k)"
    by (rule batch_deletes [OF o2])
  have c: "contents st3 = (db q)(metadataKey \<mapsto> mb)"
    using d(3) s(3) g(3) okD(7-9) by (auto simp: fun_eq_iff)
  have "loadLegacyMetadata ev q = q\<lparr>pq_metadata := md_zero, pq_storage := st3\<rparr>"
    using g(4) mb s(1) d(1) by (simp add: loadLegacyMetadata_def Let_def)
  moreover have "items_ok ev (contents st3) md_zero []"
    by (rule items_okI) (use okD in \<open>simp_all add: c stored_def\<close>)
  moreover have "metadata_ok ev (contents st3) md_zero []"
    unfolding metadata_ok_def using mb
    by (intro exI [of _ "[]"]) (simp add: c before_read_def md_zero_def)
  ultimately show ?thesis using d(2) by blast
qed

lemma legacy_interrupted_ok:
  assumes opn: "is_open (pq_storage q)" and md: "pq_metadata q = md_zero"
    and ok: "items_ok ev (db q) md_zero []"
  shows "\<exists>st'. legacy_interrupted ev p q = (st', []) \<and> items_ok ev (contents st') md_zero [] \<and>
    (contents st' metadataKey = db q metadataKey \<or> metadata_ok ev (contents st') md_zero [])"
proof -
  note okD = items_okD [OF ok]
  obtain st1 where li: "load_legacy_indexes ev q = q\<lparr>pq_metadata := md_zero, pq_storage := st1\<rparr>" "is_open st1"
    "contents st1 = db q" "retrieveAndEnqueueNotDispatchedReqs ev (load_legacy_indexes ev q) =
      q\<lparr>pq_metadata := md_zero, pq_storage := st1\<rparr>" by (rule legacy_reads_ok [OF assms])
  obtain mb where mb: "ev_md_marshal ev md_zero = Some mb" using md_marshal [of md_zero] by auto
  obtain st2 where s: "cl_Set (ev_client ev) metadataKey mb st1 = (None, st2)" "is_open st2"
    "contents st2 = (contents st1)(metadataKey \<mapsto> mb)"
    by (rule Set_obtain [OF li(2)])
  have c: "contents st2 = (db q)(metadataKey \<mapsto> mb)" using s(3) li(3) by simp
  show ?thesis
  proof (cases p)
    case (Moving k)
    have "not_put_back ev k [] (q\<lparr>pq_metadata := md_zero, pq_storage := st1\<rparr>) = []"
      by (rule batch_ok [of "q\<lparr>pq_metadata := md_zero, pq_storage := st1\<rparr>" "[]"])
        (simp_all add: li(2) not_put_back_def map_filter_simps)
    then have "legacy_interrupted ev p q = (st1, [])"
      using Get_ok [OF li(2)] li(3) okD(9)
      by (simp add: legacy_interrupted_def li(1) Moving Let_def bytesToItemIndexArray_def enqueue_interrupted_def)
    then show ?thesis using ok li(3) by (intro exI [of _ st1]) simp
  next
    case Moved
    have "legacy_interrupted ev p q = (st2, [])"
      using s(1) mb by (simp add: legacy_interrupted_def li(4) Moved Let_def)
    moreover have "items_ok ev (contents st2) md_zero []"
      by (rule items_okI) (use okD in \<open>simp_all add: c stored_def\<close>)
    moreover have "metadata_ok ev (contents st2) md_zero []"
      unfolding metadata_ok_def using mb
      by (intro exI [of _ "[]"]) (simp add: c before_read_def md_zero_def)
    ultimately show ?thesis by blast
  qed
qed

text \<open>
  A start either loads the represented metadata, with a dispatched list that may name indexes
  without an item, or finds none, and then the represented queue is the empty one.
\<close>

lemma load_cases:
  assumes opn: "is_open st"
    and meta: "metadata_ok ev (contents st) md live \<or> contents st metadataKey = None \<and> md = md_zero \<and> live = []"
    and fits: "in_i64 (md_ItemsSize md)" "in_i64 (md_BytesSize md)" and q: "pq_storage q = st"
  obtains (loaded) cdi where "loadQueueMetadata ev q = (None, set_md (md\<lparr>md_CurrentlyDispatchedItems := cdi\<rparr>) q)"
      "before_read md live cdi" "metadata_ok ev (contents st) md live"
  | (fresh) "loadQueueMetadata ev q = (Some LoadNotSet, q)" "md\<lparr>md_CurrentlyDispatchedItems := []\<rparr> = md_zero" "live = []"
proof (cases "\<exists>cdi b. contents st metadataKey = Some b \<and> b \<noteq> [] \<and>
      ev_md_marshal ev (md\<lparr>md_CurrentlyDispatchedItems := cdi\<rparr>) = Some b \<and> before_read md live cdi")
  case True
  then obtain cdi b where b: "contents st metadataKey = Some b" "b \<noteq> []"
    "ev_md_marshal ev (md\<lparr>md_CurrentlyDispatchedItems := cdi\<rparr>) = Some b" "before_read md live cdi" by blast
  have "ev_md_unmarshal ev b = Some (md\<lparr>md_CurrentlyDispatchedItems := cdi\<rparr>)"
    using md_roundtrip [of "md\<lparr>md_CurrentlyDispatchedItems := cdi\<rparr>"] fits b(3) by simp
  then have "loadQueueMetadata ev q = (None, set_md (md\<lparr>md_CurrentlyDispatchedItems := cdi\<rparr>) q)"
    using Get_ok [OF opn, of metadataKey] b(1,2) by (simp add: loadQueueMetadata_def q)
  then show thesis using b(4) meta b(1) by (intro loaded) auto
next
  case False
  have zero: "md\<lparr>md_CurrentlyDispatchedItems := []\<rparr> = md_zero \<and> live = [] \<and>
      (contents st metadataKey = None \<or> contents st metadataKey = Some [])"
    using meta
  proof
    assume "metadata_ok ev (contents st) md live"
    then obtain cdi where cdi: "contents st metadataKey = ev_md_marshal ev (md\<lparr>md_CurrentlyDispatchedItems := cdi\<rparr>)"
      "before_read md live cdi" by (auto simp: metadata_ok_def)
    obtain b where b: "ev_md_marshal ev (md\<lparr>md_CurrentlyDispatchedItems := cdi\<rparr>) = Some b"
      "b = [] \<longrightarrow> md\<lparr>md_CurrentlyDispatchedItems := cdi\<rparr> = md_zero"
      using md_marshal [of "md\<lparr>md_CurrentlyDispatchedItems := cdi\<rparr>"]
        md_roundtrip [of "md\<lparr>md_CurrentlyDispatchedItems := cdi\<rparr>"] fits by auto
    have "b = []" using False cdi b(1) by auto
    with b have z: "md\<lparr>md_CurrentlyDispatchedItems := cdi\<rparr> = md_zero" by simp
    then have "cdi = []" by (cases md) (simp add: md_zero_def)
    with z cdi b \<open>b = []\<close> show ?thesis by (simp add: before_read_def)
  qed (simp add: md_zero_def)
  then have "loadQueueMetadata ev q = (Some LoadNotSet, q)"
    using Get_ok [OF opn, of metadataKey] by (auto simp: loadQueueMetadata_def q)
  with zero show thesis by (intro fresh) simp_all
qed

lemma pending_zero: "pending ev m md_zero = []"
  by (simp add: pending_def pending_indexes_def md_zero_def)

lemma pq_Start_ok:
  assumes opn: "is_open st" and ok: "items_ok ev (contents st) md live"
    and meta: "metadata_ok ev (contents st) md live \<or> contents st metadataKey = None \<and> md = md_zero \<and> live = []"
    and room: "unat (md_WriteIndex md) + length live < 2 ^ 63"
    and fits: "in_i64 (md_ItemsSize md)" "in_i64 (md_BytesSize md)"
  shows "\<exists>st' md'. pq_Start ev cfg st =
      (newPersistentQueue cfg st)\<lparr>pq_metadata := md', pq_storage := st', pq_refClient := 1\<rparr> \<and> is_open st' \<and>
    md' = md\<lparr>md_WriteIndex := md_WriteIndex md', md_CurrentlyDispatchedItems := []\<rparr> \<and>
    items_ok ev (contents st') md' [] \<and> metadata_ok ev (contents st') md' [] \<and>
    pending ev (contents st') md' = pending ev (contents st) md @ map (item ev (contents st)) live"
proof -
  let ?q1 = "(newPersistentQueue cfg st)\<lparr>pq_storage := st, pq_refClient := 1\<rparr>"
  have q1: "pq_storage ?q1 = st" by simp
  show ?thesis
  proof (rule load_cases [OF opn meta fits q1])
    fix cdi
    let ?md1 = "md\<lparr>md_CurrentlyDispatchedItems := cdi\<rparr>"
    assume load: "loadQueueMetadata ev ?q1 = (None, set_md ?md1 ?q1)" and br: "before_read md live cdi"
      and mok: "metadata_ok ev (contents st) md live"
    have same: "same_indexes md ?md1" by (simp add: same_indexes_def)
    have "is_open (pq_storage (set_md ?md1 ?q1))"
      "items_ok ev (db (set_md ?md1 ?q1)) (pq_metadata (set_md ?md1 ?q1)) live"
      "metadata_ok ev (db (set_md ?md1 ?q1)) (pq_metadata (set_md ?md1 ?q1)) live"
      "cdi = md_CurrentlyDispatchedItems (pq_metadata (set_md ?md1 ?q1))"
      "before_read (pq_metadata (set_md ?md1 ?q1)) live cdi"
      "unat (md_WriteIndex (pq_metadata (set_md ?md1 ?q1))) + length live < 2 ^ 63"
      using opn iffD2 [OF items_ok_indexes [OF same] ok] mok br room
      by (simp_all add: metadata_ok_cdi before_read_def)
    from enqueue_ok [OF this] obtain st' md' where
      e: "enqueueNotDispatchedReqs ev cdi (set_md ?md1 ?q1) = ?q1\<lparr>pq_metadata := md', pq_storage := st'\<rparr>"
        "is_open st'" "md' = ?md1\<lparr>md_WriteIndex := md_WriteIndex md'\<rparr>" "items_ok ev (contents st') md' []"
        "metadata_ok ev (contents st') md' []"
        "pending ev (contents st') md' = pending ev (contents st) ?md1 @ map (item ev (contents st)) live"
      by auto
    let ?md2 = "md'\<lparr>md_CurrentlyDispatchedItems := []\<rparr>"
    have same2: "same_indexes md' ?md2" by (simp add: same_indexes_def)
    have "pq_Start ev cfg st = ?q1\<lparr>pq_metadata := ?md2, pq_storage := st'\<rparr>"
      using load e(1) by (simp add: pq_Start_def initClient_def Let_def)
    moreover have "pq_storage (newPersistentQueue cfg st) = st" by (simp add: newPersistentQueue_def)
    moreover have "?md2 = md\<lparr>md_WriteIndex := md_WriteIndex ?md2, md_CurrentlyDispatchedItems := []\<rparr>"
      by (subst e(3)) simp
    moreover have "items_ok ev (contents st') ?md2 []" "metadata_ok ev (contents st') ?md2 []"
      "pending ev (contents st') ?md2 = pending ev (contents st) md @ map (item ev (contents st)) live"
      using e(4-6) by (simp_all add: items_ok_indexes [OF same2] pending_same_indexes [OF same2]
          pending_same_indexes [OF same] metadata_ok_cdi)
    ultimately show ?thesis using e(2) by (intro exI [of _ st'] exI [of _ ?md2]) simp
  next
    assume load: "loadQueueMetadata ev ?q1 = (Some LoadNotSet, ?q1)"
      and zero: "md\<lparr>md_CurrentlyDispatchedItems := []\<rparr> = md_zero" "live = []"
    then have same: "same_indexes md md_zero" by (cases md) (simp add: same_indexes_def md_zero_def)
    have "is_open (pq_storage ?q1)" "pq_metadata ?q1 = md_zero" "items_ok ev (db ?q1) md_zero []"
      using opn ok zero items_ok_indexes [OF same, of ev "contents st" live]
      by (simp_all add: newPersistentQueue_def)
    from loadLegacyMetadata_ok [OF this] obtain st' where
      l: "loadLegacyMetadata ev ?q1 = ?q1\<lparr>pq_metadata := md_zero, pq_storage := st'\<rparr>" "is_open st'"
        "items_ok ev (contents st') md_zero []" "metadata_ok ev (contents st') md_zero []" by blast
    have "pending ev (contents st) md = []"
      using pending_same_indexes [OF same, of ev "contents st"] pending_zero by simp
    moreover have "pq_Start ev cfg st = ?q1\<lparr>pq_metadata := md_zero, pq_storage := st'\<rparr>"
      using load l(1) by (simp add: pq_Start_def initClient_def Let_def)
    moreover have "md_zero = md\<lparr>md_WriteIndex := md_WriteIndex md_zero, md_CurrentlyDispatchedItems := []\<rparr>"
      using zero by (cases md) (simp add: md_zero_def)
    ultimately show ?thesis using l(2-4) zero pending_zero by (intro exI [of _ st'] exI [of _ md_zero]) simp
  qed
qed

text \<open>
  An interrupted start leaves a queue without dispatched requests: the first of them were put back,
  the others are lost.
\<close>

lemma start_interrupted_ok:
  assumes opn: "is_open st" and ok: "items_ok ev (contents st) md live"
    and meta: "metadata_ok ev (contents st) md live \<or> contents st metadataKey = None \<and> md = md_zero \<and> live = []"
    and room: "unat (md_WriteIndex md) + length live < 2 ^ 63"
    and fits: "in_i64 (md_ItemsSize md)" "in_i64 (md_BytesSize md)"
  shows "\<exists>st' md' n. start_interrupted ev cfg p st = (st', drop n (map (item ev (contents st)) live)) \<and>
    md_ItemsSize md' = md_ItemsSize md \<and> md_BytesSize md' = md_BytesSize md \<and> items_ok ev (contents st') md' [] \<and>
    (metadata_ok ev (contents st') md' [] \<or> contents st' metadataKey = None \<and> md' = md_zero) \<and>
    pending ev (contents st') md' = pending ev (contents st) md @ take n (map (item ev (contents st)) live) \<and>
    (p = Moving 0 \<longrightarrow> n = 0)"
proof -
  let ?q1 = "(newPersistentQueue cfg st)\<lparr>pq_storage := st, pq_refClient := 1\<rparr>"
  have q1: "pq_storage ?q1 = st" by simp
  show ?thesis
  proof (rule load_cases [OF opn meta fits q1])
    fix cdi
    let ?md1 = "md\<lparr>md_CurrentlyDispatchedItems := cdi\<rparr>"
    let ?k = "case p of Moving k \<Rightarrow> k | Moved \<Rightarrow> length cdi"
    assume load: "loadQueueMetadata ev ?q1 = (None, set_md ?md1 ?q1)" and br: "before_read md live cdi"
      and mok: "metadata_ok ev (contents st) md live"
    have same: "same_indexes md ?md1" by (simp add: same_indexes_def)
    have opn1: "is_open (pq_storage (set_md ?md1 ?q1))" using opn by simp
    have "items_ok ev (db (set_md ?md1 ?q1)) (pq_metadata (set_md ?md1 ?q1)) live"
      "metadata_ok ev (db (set_md ?md1 ?q1)) (pq_metadata (set_md ?md1 ?q1)) live"
      "cdi = md_CurrentlyDispatchedItems (pq_metadata (set_md ?md1 ?q1))"
      "before_read (pq_metadata (set_md ?md1 ?q1)) live cdi"
      "unat (md_WriteIndex (pq_metadata (set_md ?md1 ?q1))) + length live < 2 ^ 63"
      using iffD2 [OF items_ok_indexes [OF same] ok] mok br room
      by (simp_all add: metadata_ok_cdi before_read_def)
    from enqueue_interrupted_ok [OF opn1 this, of ?k] obtain st' md' n where
      e: "enqueue_interrupted ev ?k cdi (set_md ?md1 ?q1) = ?q1\<lparr>pq_metadata := md', pq_storage := st'\<rparr>"
        "md' = ?md1\<lparr>md_WriteIndex := md_WriteIndex md'\<rparr>" "items_ok ev (contents st') md' []"
        "metadata_ok ev (contents st') md' []"
        "pending ev (contents st') md' = pending ev (contents st) ?md1 @ take n (map (item ev (contents st)) live)"
        "not_put_back ev ?k cdi (set_md ?md1 ?q1) = drop n (map (item ev (contents st)) live)"
        "length cdi \<le> ?k \<longrightarrow> length live \<le> n" "n \<le> ?k"
      by auto
    have sel: "md_ItemsSize md' = md_ItemsSize md" "md_BytesSize md' = md_BytesSize md" by (subst e(2), simp)+
    have "start_interrupted ev cfg p st = (st', drop n (map (item ev (contents st)) live))"
      using load e(1,6,7) enqueue_complete [OF opn1, of cdi]
      by (cases p) (simp_all add: start_interrupted_def Let_def)
    then show ?thesis using sel e(3-5,8)
      by (intro exI [of _ st'] exI [of _ md'] exI [of _ n]) (auto simp: pending_same_indexes [OF same])
  next
    assume load: "loadQueueMetadata ev ?q1 = (Some LoadNotSet, ?q1)"
      and zero: "md\<lparr>md_CurrentlyDispatchedItems := []\<rparr> = md_zero" "live = []"
    then have same: "same_indexes md md_zero" by (cases md) (simp add: same_indexes_def md_zero_def)
    have sizes: "md_ItemsSize md = 0" "md_BytesSize md = 0" using zero(1) by (cases md; simp add: md_zero_def)+
    have opn1: "is_open (pq_storage ?q1)" and md1: "pq_metadata ?q1 = md_zero" and ok1: "items_ok ev (db ?q1) md_zero []"
      using opn ok zero items_ok_indexes [OF same, of ev "contents st" live]
      by (simp_all add: newPersistentQueue_def)
    from legacy_interrupted_ok [OF this] meta obtain st' where
      l: "legacy_interrupted ev p ?q1 = (st', [])" "items_ok ev (contents st') md_zero []"
        "contents st' metadataKey = contents st metadataKey \<or> metadata_ok ev (contents st') md_zero []" by auto
    have "metadata_ok ev m md_zero [] \<longleftrightarrow> metadata_ok ev m md []" for m
      unfolding zero(1) [symmetric] by (rule metadata_ok_cdi)
    then have "metadata_ok ev (contents st') md_zero [] \<or> contents st' metadataKey = None"
      using l(3) meta metadata_ok_key unfolding zero(2) by metis
    moreover have "pending ev (contents st) md = []"
      using pending_same_indexes [OF same, of ev "contents st"] pending_zero by simp
    moreover have "start_interrupted ev cfg p st = (st', [])" using load l(1) by (simp add: start_interrupted_def Let_def)
    ultimately show ?thesis using l(2) zero sizes pending_zero
      by (intro exI [of _ st'] exI [of _ md_zero] exI [of _ 0]) (auto simp: md_zero_def)
  qed
qed

lemma interrupted_starts_ok:
  assumes "is_open st" "items_ok ev (contents st) md live"
    and "metadata_ok ev (contents st) md live \<or> contents st metadataKey = None \<and> md = md_zero \<and> live = []"
    and "unat (md_WriteIndex md) + length live < 2 ^ 63" "in_i64 (md_ItemsSize md)" "in_i64 (md_BytesSize md)"
    and "ps \<noteq> []"
  shows "\<exists>st' md' n. interrupted_starts ev reopen cfg ps st = (st', drop n (map (item ev (contents st)) live)) \<and>
    is_open st' \<and> md_ItemsSize md' = md_ItemsSize md \<and> md_BytesSize md' = md_BytesSize md \<and>
    items_ok ev (contents st') md' [] \<and>
    (metadata_ok ev (contents st') md' [] \<or> contents st' metadataKey = None \<and> md' = md_zero) \<and>
    pending ev (contents st') md' = pending ev (contents st) md @ take n (map (item ev (contents st)) live)"
  using assms
proof (induction ps arbitrary: st md live)
  case (Cons p ps)
  from start_interrupted_ok [OF Cons.prems(1-6), of cfg p] obtain st1 md1 n where
    a: "start_interrupted ev cfg p st = (st1, drop n (map (item ev (contents st)) live))"
      "md_ItemsSize md1 = md_ItemsSize md" "md_BytesSize md1 = md_BytesSize md" "items_ok ev (contents st1) md1 []"
      "metadata_ok ev (contents st1) md1 [] \<or> contents st1 metadataKey = None \<and> md1 = md_zero"
      "pending ev (contents st1) md1 = pending ev (contents st) md @ take n (map (item ev (contents st)) live)"
    by blast
  show ?case
  proof (cases "ps = []")
    case True
    then show ?thesis using a reopen_ok [of st1]
      by (intro exI [of _ "reopen st1"] exI [of _ md1] exI [of _ n]) simp
  next
    case False
    have "is_open (reopen st1)" "items_ok ev (contents (reopen st1)) md1 []"
      "metadata_ok ev (contents (reopen st1)) md1 [] \<or> contents (reopen st1) metadataKey = None \<and> md1 = md_zero \<and> [] = []"
      "unat (md_WriteIndex md1) + length [] < 2 ^ 63" "in_i64 (md_ItemsSize md1)" "in_i64 (md_BytesSize md1)"
      using a reopen_ok [of st1] items_okD(2) [OF a(4)] Cons.prems(5,6) by auto
    from Cons.IH [OF this False] obtain st' md' where
      b: "interrupted_starts ev reopen cfg ps (reopen st1) = (st', [])" "is_open st'"
        "md_ItemsSize md' = md_ItemsSize md1" "md_BytesSize md' = md_BytesSize md1" "items_ok ev (contents st') md' []"
        "metadata_ok ev (contents st') md' [] \<or> contents st' metadataKey = None \<and> md' = md_zero"
        "pending ev (contents st') md' = pending ev (contents st1) md1"
      using reopen_ok(2) [of st1] by auto
    then show ?thesis using a by (intro exI [of _ st'] exI [of _ md'] exI [of _ n]) simp
  qed
qed simp

end

end
