(* ===== verification/PersistentSystem.thy ===== *)
theory PersistentSystem
  imports DurableQueue
begin

text \<open>
  Runs of the persistent queue: producers offer, consumers read and finish, the queue is shut
  down, and the process may stop at any point, also while the queue starts, and start again on the
  same storage, with the same or other settings. Such a run refines the durable queue \<open>dq_step\<close>.
  The storage client does not fail (\<open>storage_client\<close>) and a batch takes effect as a whole. A run is
  limited to fewer than \<open>2 ^ 63\<close> writes and to total sizes within 64 bits, and requests are
  offered before the shutdown.
\<close>

section \<open>The abstract queue\<close>

datatype 'r dq_label = Enq 'r | Deq 'r | Ack 'r | Nack | Stop | Restart pq_settings | Recover pq_settings "'r list"

inductive dq_step :: "'r list \<times> 'r multiset \<Rightarrow> 'r dq_label \<Rightarrow> 'r list \<times> 'r multiset \<Rightarrow> bool" where
  enq: "dq_step (P, D) (Enq r) (P @ [r], D)"
| deq: "dq_step (r # P, D) (Deq r) (P, add_mset r D)"
| ack: "dq_step (P, add_mset r D) (Ack r) (P, D)"
| nack: "dq_step (P, D) Nack (P, D)"
| stop: "dq_step (P, D) Stop (P, D)"
| restart: "dq_step (P, mset ds) (Restart cfg) (P @ ds, {#})"
| recover: "dq_step (P, mset (ds @ lost)) (Recover cfg lost) (P @ ds, {#})"

section \<open>The system\<close>

record ('st, 'r) psys =
  py_q :: "'st pq"
  py_inflight :: "(index \<times> 'r) list"

definition sizes_fit :: "('st, 'r) pq_env \<Rightarrow> 'r \<Rightarrow> metadata \<Rightarrow> bool" where
  "sizes_fit ev r md \<longleftrightarrow> unat (md_WriteIndex md) + 1 < 2 ^ 63 \<and>
     md_ItemsSize md + ev_itemsSize ev r \<le> max_i64 \<and> md_BytesSize md + ev_bytesSize ev r \<le> max_i64"

definition room_to_restart :: "metadata \<Rightarrow> bool" where
  "room_to_restart md \<longleftrightarrow> unat (md_WriteIndex md) + length (md_CurrentlyDispatchedItems md) < 2 ^ 63"

definition settings_ok :: "pq_settings \<Rightarrow> bool" where
  "settings_ok cfg \<longleftrightarrow> 0 \<le> ps_capacity cfg \<and> ps_capacity cfg \<le> max_i64"

text \<open>
  A restart ends in a complete start. \<open>Restart\<close> is one whose first start is complete; in \<open>Recover\<close>
  one or more starts before it were stopped on the way, and its label names the requests they lost.
\<close>

inductive pq_step ::
  "('st, 'r) pq_env \<Rightarrow> ('st \<Rightarrow> 'st) \<Rightarrow> ('st, 'r) psys \<Rightarrow> 'r dq_label \<Rightarrow> ('st, 'r) psys \<Rightarrow> bool"
  for ev reopen where
  offer: "\<not> pq_stopped (py_q s) \<Longrightarrow> sizes_fit ev r (pq_metadata (py_q s)) \<Longrightarrow>
    pq_Offer ev r (py_q s) = POffered None q' \<Longrightarrow> pq_step ev reopen s (Enq r) (s\<lparr>py_q := q'\<rparr>)"
| read: "pq_Read ev (py_q s) = PReadItem i r n b q' \<Longrightarrow>
    pq_step ev reopen s (Deq r) (s\<lparr>py_q := q', py_inflight := py_inflight s @ [(i, r)]\<rparr>)"
| finished: "py_inflight s = xs @ (i, r) # ys \<Longrightarrow>
    pq_onDone ev i (ev_itemsSize ev r) (ev_bytesSize ev r) isShutdownErr (py_q s) = q' \<Longrightarrow>
    pq_step ev reopen s (if isShutdownErr then Nack else Ack r) (s\<lparr>py_q := q', py_inflight := xs @ ys\<rparr>)"
| shutdown: "\<not> pq_stopped (py_q s) \<Longrightarrow> pq_Shutdown ev (py_q s) = (e, q') \<Longrightarrow>
    pq_step ev reopen s Stop (s\<lparr>py_q := q'\<rparr>)"
| restart: "settings_ok cfg \<Longrightarrow> room_to_restart (pq_metadata (py_q s)) \<Longrightarrow>
    pq_step ev reopen s (Restart cfg)
      \<lparr>py_q = pq_Start ev cfg (reopen (pq_storage (py_q s))), py_inflight = []\<rparr>"
| recover: "settings_ok cfg \<Longrightarrow> room_to_restart (pq_metadata (py_q s)) \<Longrightarrow> ps \<noteq> [] \<Longrightarrow>
    interrupted_starts ev reopen cfg ps (reopen (pq_storage (py_q s))) = (st, lost) \<Longrightarrow>
    pq_step ev reopen s (Recover cfg lost) \<lparr>py_q = pq_Start ev cfg st, py_inflight = []\<rparr>"

text \<open>The first start of a run may be interrupted as well.\<close>

inductive pq_run ::
  "('st, 'r) pq_env \<Rightarrow> ('st \<Rightarrow> 'st) \<Rightarrow> pq_settings \<Rightarrow> 'st \<Rightarrow> 'r dq_label list \<Rightarrow> ('st, 'r) psys \<Rightarrow> bool"
  for ev reopen cfg st0 where
  start: "interrupted_starts ev reopen cfg ps st0 = (st, lost) \<Longrightarrow>
    pq_run ev reopen cfg st0 [] \<lparr>py_q = pq_Start ev cfg st, py_inflight = []\<rparr>"
| step: "pq_run ev reopen cfg st0 tr s \<Longrightarrow> pq_step ev reopen s l s' \<Longrightarrow>
    pq_run ev reopen cfg st0 (tr @ [l]) s'"

text \<open>
  What a trace says: the requests accepted, finished and lost by interrupted starts, the settings
  of its restarts and the settings after it.
\<close>

fun enqueued :: "'r dq_label list \<Rightarrow> 'r list" where
  "enqueued [] = []"
| "enqueued (Enq r # tr) = r # enqueued tr"
| "enqueued (_ # tr) = enqueued tr"

fun acked :: "'r dq_label list \<Rightarrow> 'r list" where
  "acked [] = []"
| "acked (Ack r # tr) = r # acked tr"
| "acked (_ # tr) = acked tr"

fun recovery_lost :: "'r dq_label list \<Rightarrow> 'r list" where
  "recovery_lost [] = []"
| "recovery_lost (Recover cfg lost # tr) = lost @ recovery_lost tr"
| "recovery_lost (_ # tr) = recovery_lost tr"

fun restart_settings :: "'r dq_label list \<Rightarrow> pq_settings list" where
  "restart_settings [] = []"
| "restart_settings (Restart cfg # tr) = cfg # restart_settings tr"
| "restart_settings (Recover cfg lost # tr) = cfg # restart_settings tr"
| "restart_settings (_ # tr) = restart_settings tr"

definition current_settings :: "pq_settings \<Rightarrow> 'r dq_label list \<Rightarrow> pq_settings" where
  "current_settings cfg tr = last (cfg # restart_settings tr)"

lemma trace_append:
  "enqueued (tr @ tr') = enqueued tr @ enqueued tr'" "acked (tr @ tr') = acked tr @ acked tr'"
  "recovery_lost (tr @ tr') = recovery_lost tr @ recovery_lost tr'"
  "restart_settings (tr @ tr') = restart_settings tr @ restart_settings tr'"
proof -
  show "enqueued (tr @ tr') = enqueued tr @ enqueued tr'" by (induction tr rule: enqueued.induct) auto
  show "acked (tr @ tr') = acked tr @ acked tr'" by (induction tr rule: acked.induct) auto
  show "recovery_lost (tr @ tr') = recovery_lost tr @ recovery_lost tr'"
    by (induction tr rule: recovery_lost.induct) auto
  show "restart_settings (tr @ tr') = restart_settings tr @ restart_settings tr'"
    by (induction tr rule: restart_settings.induct) auto
qed

lemma current_settings_step:
  "current_settings cfg (tr @ [l]) = current_settings (current_settings cfg tr) [l]"
  by (cases l) (simp_all add: current_settings_def trace_append)

definition py_abs :: "('st, 'r) pq_env \<Rightarrow> ('st \<Rightarrow> (string \<rightharpoonup> bytes)) \<Rightarrow> ('st, 'r) psys \<Rightarrow> 'r list \<times> 'r multiset" where
  "py_abs ev contents s =
     (let m = contents (pq_storage (py_q s)); md = pq_metadata (py_q s)
      in (pending ev m md, mset (map (item ev m) (md_CurrentlyDispatchedItems md))))"

section \<open>Invariant\<close>

definition content_sum :: "('r \<Rightarrow> int) \<Rightarrow> 'r list \<times> 'r multiset \<Rightarrow> int" where
  "content_sum f a = (\<Sum>r\<leftarrow>fst a. f r) + (\<Sum>r\<in>#snd a. f r)"

definition store_ok :: "('st, 'r) pq_env \<Rightarrow> ('st \<Rightarrow> (string \<rightharpoonup> bytes)) \<Rightarrow> 'st pq \<Rightarrow> bool" where
  "store_ok ev contents q \<longleftrightarrow>
     (let m = contents (pq_storage q); md = pq_metadata q; live = md_CurrentlyDispatchedItems md
      in items_ok ev m md live \<and> metadata_ok ev m md live)"

text \<open>
  The kept sizes cover the requests in the queue; what they may have too much is the size of
  requests lost by interrupted starts, which do not correct the metadata.
\<close>

definition covers :: "('r \<Rightarrow> int) \<Rightarrow> 'r list \<times> 'r multiset \<Rightarrow> 'r list \<Rightarrow> int \<Rightarrow> bool" where
  "covers f a lost n \<longleftrightarrow> content_sum f a \<le> n \<and> n \<le> content_sum f a + (\<Sum>r\<leftarrow>lost. f r)"

definition sums_ok ::
  "('st, 'r) pq_env \<Rightarrow> ('st \<Rightarrow> (string \<rightharpoonup> bytes)) \<Rightarrow> 'r list \<Rightarrow> ('st, 'r) psys \<Rightarrow> bool" where
  "sums_ok ev contents lost s \<longleftrightarrow>
     (let md = pq_metadata (py_q s)
      in covers (ev_itemsSize ev) (py_abs ev contents s) lost (md_ItemsSize md) \<and> md_ItemsSize md \<le> max_i64 \<and>
         covers (ev_bytesSize ev) (py_abs ev contents s) lost (md_BytesSize md) \<and> md_BytesSize md \<le> max_i64)"

definition consumers_ok :: "('st, 'r) pq_env \<Rightarrow> ('st \<Rightarrow> (string \<rightharpoonup> bytes)) \<Rightarrow> ('st, 'r) psys \<Rightarrow> bool" where
  "consumers_ok ev contents s \<longleftrightarrow>
     (let m = contents (pq_storage (py_q s)); md = pq_metadata (py_q s)
      in distinct (map fst (py_inflight s)) \<and>
         (\<forall>(i, r) \<in> set (py_inflight s). i \<in> set (md_CurrentlyDispatchedItems md) \<and> item ev m i = r))"

definition client_ok :: "('st \<Rightarrow> bool) \<Rightarrow> ('st, 'r) psys \<Rightarrow> bool" where
  "client_ok is_open s \<longleftrightarrow>
     pq_refClient (py_q s) = (if pq_stopped (py_q s) then 0 else 1) + int (length (py_inflight s)) \<and>
     (0 < pq_refClient (py_q s) \<longrightarrow> is_open (pq_storage (py_q s)))"

definition cfg_ok :: "pq_settings \<Rightarrow> ('st, 'r) psys \<Rightarrow> bool" where
  "cfg_ok cfg s \<longleftrightarrow> pq_capacity (py_q s) = ps_capacity cfg \<and> pq_sizerType (py_q s) = ps_sizerType cfg \<and>
     settings_ok cfg"

definition size_step :: "('st, 'r) psys \<Rightarrow> 'r dq_label \<Rightarrow> ('st, 'r) psys \<Rightarrow> bool" where
  "size_step s l s' \<longleftrightarrow> internalSize (py_q s') \<le> internalSize (py_q s) \<or>
     (\<exists>r. l = Enq r) \<and> internalSize (py_q s') \<le> pq_capacity (py_q s) \<or>
     pq_sizerType (py_q s') \<noteq> pq_sizerType (py_q s)"

definition psys_inv ::
  "('st, 'r) pq_env \<Rightarrow> ('st \<Rightarrow> (string \<rightharpoonup> bytes)) \<Rightarrow> ('st \<Rightarrow> bool) \<Rightarrow> pq_settings \<Rightarrow> 'r list \<Rightarrow> ('st, 'r) psys \<Rightarrow> bool" where
  "psys_inv ev contents is_open cfg lost s \<longleftrightarrow> store_ok ev contents (py_q s) \<and> sums_ok ev contents lost s \<and>
     consumers_ok ev contents s \<and> client_ok is_open s \<and> cfg_ok cfg s"

lemma psys_invD:
  assumes "psys_inv ev contents is_open cfg lost s"
  shows "store_ok ev contents (py_q s)" "sums_ok ev contents lost s" "consumers_ok ev contents s"
    "client_ok is_open s" "cfg_ok cfg s"
  using assms by (auto simp: psys_inv_def)

lemma consumers_okD:
  "consumers_ok ev contents s \<Longrightarrow> (k, t) \<in> set (py_inflight s) \<Longrightarrow>
   k \<in> set (md_CurrentlyDispatchedItems (pq_metadata (py_q s))) \<and> item ev (contents (pq_storage (py_q s))) k = t"
  unfolding consumers_ok_def Let_def by (elim conjE) (drule (1) bspec, simp)

lemma requestSize_exact:
  assumes "items_ok ev m md (md_CurrentlyDispatchedItems md)"
  shows "requestSize md = int (length (pending_indexes md)) + int (length (md_CurrentlyDispatchedItems md))"
proof -
  note okD = items_okD [OF assms]
  have u: "unat (md_WriteIndex md - md_ReadIndex md) = unat (md_WriteIndex md) - unat (md_ReadIndex md)"
    using okD(1) by (simp add: unat_sub word_le_nat_alt)
  have d: "sint (md_WriteIndex md - md_ReadIndex md) = int (unat (md_WriteIndex md) - unat (md_ReadIndex md))"
    using okD(2) u by (simp add: sint_uint signed_take_bit_int_eq_self uint_nat)
  have l: "length (md_CurrentlyDispatchedItems md) \<le> unat (md_ReadIndex md)"
  proof -
    have "unat ` set (md_CurrentlyDispatchedItems md) \<subseteq> {..< unat (md_ReadIndex md)}" using okD(4) by auto
    then have "card (unat ` set (md_CurrentlyDispatchedItems md)) \<le> unat (md_ReadIndex md)"
      by (metis card_lessThan card_mono finite_lessThan)
    moreover have "inj_on unat (set (md_CurrentlyDispatchedItems md))" by (simp add: inj_on_def word_unat_eq_iff)
    ultimately show ?thesis using okD(3) by (simp add: card_image distinct_card)
  qed
  have "in_i64 (int (a - b) + int c)" if "b \<le> a" "a < 2 ^ 63" "c \<le> b" for a b c :: nat
    using that by (simp add: in_i64_def max_i64_def min_i64_def of_nat_diff)
  from wrap64_id [OF this [OF okD(1,2) l]] show ?thesis
    unfolding requestSize_def d by (simp only: pending_indexes_def length_map length_upt diff_zero)
qed

lemma requestSize_abs:
  "store_ok ev contents q \<Longrightarrow> requestSize (pq_metadata q) =
     int (length (pending ev (contents (pq_storage q)) (pq_metadata q)))
     + int (length (md_CurrentlyDispatchedItems (pq_metadata q)))"
  using requestSize_exact [of ev "contents (pq_storage q)" "pq_metadata q"]
  by (simp add: store_ok_def Let_def pending_def)

lemma internalSize_cong:
  "pq_metadata q' = pq_metadata q \<Longrightarrow> pq_sizerType q' = pq_sizerType q \<Longrightarrow> internalSize q' = internalSize q"
  by (cases "pq_sizerType q") (simp_all add: internalSize_def)

lemma before_read_refl: "items_ok ev m md live \<Longrightarrow> before_read md live live"
  by (auto simp: before_read_def filter_id_conv items_ok_def)

lemma content_sum_simps [simp]:
  "content_sum f (P @ [r], D) = content_sum f (P, D) + f r"
  "content_sum f (r # P, D) = content_sum f (P, D) + f r"
  "content_sum f (P, add_mset r D) = content_sum f (P, D) + f r"
  "content_sum f (P @ ds, {#}) = content_sum f (P, mset ds)"
  by (simp_all add: content_sum_def sum_mset_sum_list [symmetric])

lemma content_sum_nonneg: "(\<And>r. 0 \<le> f r) \<Longrightarrow> 0 \<le> content_sum f a"
proof -
  assume f: "\<And>r. 0 \<le> f r"
  have "0 \<le> (\<Sum>r\<in>#D. f r)" for D using f by (induction D) auto
  then show ?thesis using f by (simp add: content_sum_def sum_list_nonneg_int)
qed

section \<open>Simulation\<close>

locale pq_sizes = pq_laws ev contents is_open reopen
  for ev :: "('st, 'r) pq_env" and contents :: "'st \<Rightarrow> (string \<rightharpoonup> bytes)" and is_open and reopen +
  assumes itemsSize_nonneg: "0 \<le> ev_itemsSize ev r" and bytesSize_nonneg: "0 \<le> ev_bytesSize ev r"
begin

abbreviation inv :: "pq_settings \<Rightarrow> 'r list \<Rightarrow> ('st, 'r) psys \<Rightarrow> bool" where
  "inv \<equiv> psys_inv ev contents is_open"

abbreviation abs :: "('st, 'r) psys \<Rightarrow> 'r list \<times> 'r multiset" where
  "abs \<equiv> py_abs ev contents"

lemmas open_defs = store_ok_def sums_ok_def consumers_ok_def client_ok_def cfg_ok_def py_abs_def Let_def

lemma sums_nonneg: "0 \<le> content_sum (ev_itemsSize ev) a" "0 \<le> content_sum (ev_bytesSize ev) a"
  by (simp_all add: content_sum_nonneg itemsSize_nonneg bytesSize_nonneg)

lemma lost_nonneg: "0 \<le> (\<Sum>r\<leftarrow>lost. ev_itemsSize ev r)" "0 \<le> (\<Sum>r\<leftarrow>lost. ev_bytesSize ev r)"
  by (auto intro!: sum_list_nonneg_int simp: itemsSize_nonneg bytesSize_nonneg)

lemma sums_range: "sums_ok ev contents lost s \<Longrightarrow>
    0 \<le> md_ItemsSize (pq_metadata (py_q s)) \<and> 0 \<le> md_BytesSize (pq_metadata (py_q s))"
  using sums_nonneg [of "abs s"] by (auto simp: sums_ok_def Let_def covers_def)

lemma step_offer:
  assumes inv: "inv cfg lost s" and run: "\<not> pq_stopped (py_q s)" and fit: "sizes_fit ev r (pq_metadata (py_q s))"
    and offer: "pq_Offer ev r (py_q s) = POffered None q'"
  shows "inv cfg lost (s\<lparr>py_q := q'\<rparr>) \<and> dq_step (abs s) (Enq r) (abs (s\<lparr>py_q := q'\<rparr>)) \<and>
    size_step s (Enq r) (s\<lparr>py_q := q'\<rparr>)"
proof -
  let ?q = "py_q s" and ?md = "pq_metadata (py_q s)"
  let ?live = "md_CurrentlyDispatchedItems ?md"
  let ?md1 = "?md\<lparr>md_ItemsSize := md_ItemsSize ?md + ev_itemsSize ev r, md_BytesSize := md_BytesSize ?md + ev_bytesSize ev r\<rparr>"
  note i = psys_invD [OF inv]
  have range: "0 \<le> md_ItemsSize ?md" "0 \<le> md_BytesSize ?md" using sums_range [OF i(2)] by auto
  have wrap: "add64 (md_ItemsSize ?md) (ev_itemsSize ev r) = md_ItemsSize ?md + ev_itemsSize ev r"
    "add64 (md_BytesSize ?md) (ev_bytesSize ev r) = md_BytesSize ?md + ev_bytesSize ev r"
    using range fit itemsSize_nonneg [of r] bytesSize_nonneg [of r]
    by (auto simp: sizes_fit_def intro!: wrap64_id in_i64_nonneg)
  have opn: "is_open (pq_storage (set_md ?md1 ?q))" using i(4) run by (simp add: client_ok_def)
  have items: "items_ok ev (db ?q) ?md ?live" using i(1) by (simp add: store_ok_def Let_def)
  have same: "same_indexes ?md ?md1" by (simp add: same_indexes_def)
  have ok: "items_ok ev (db (set_md ?md1 ?q)) (pq_metadata (set_md ?md1 ?q)) ?live"
    using items by (simp add: items_ok_indexes [OF same])
  have br: "before_read (pq_metadata (set_md ?md1 ?q)) ?live (md_CurrentlyDispatchedItems (pq_metadata (set_md ?md1 ?q)))"
    using before_read_refl [OF items] by (simp add: before_read_def)
  have room: "unat (md_WriteIndex (pq_metadata (set_md ?md1 ?q))) + 1 < 2 ^ 63"
    using fit by (simp add: sizes_fit_def)
  obtain st' md' where p: "putInternal ev r (set_md ?md1 ?q) = (None, (set_md ?md1 ?q)\<lparr>pq_metadata := md', pq_storage := st'\<rparr>)"
    "is_open st'" "md' = ?md1\<lparr>md_WriteIndex := md_WriteIndex ?md1 + 1\<rparr>"
    "items_ok ev (contents st') md' ?live" "metadata_ok ev (contents st') md' ?live"
    "pending ev (contents st') md' = pending ev (db ?q) ?md1 @ [r]"
    "\<And>i. in_queue ?md1 ?live i \<Longrightarrow> item ev (contents st') i = item ev (db ?q) i"
    by (rule putInternal_ok [OF opn ok br room, of r]) simp
  let ?q' = "?q\<lparr>pq_metadata := md', pq_storage := st'\<rparr>"
  have cap: "add64 (internalSize ?q) (NewSizer (ev_bytesSize ev) (ev_itemsSize ev) (pq_sizerType ?q) r) \<le> pq_capacity ?q"
    and q': "q' = ?q'"
    using offer wrap p(1) by (auto simp: pq_Offer_def Let_def split: if_splits)
  have live: "md_CurrentlyDispatchedItems md' = ?live" by (simp add: p(3))
  have it: "item ev (contents st') i = item ev (db ?q) i" if "i \<in> set ?live" for i
    using p(7) that by (simp add: in_queue_def)
  have pend: "pending ev (contents st') md' = pending ev (db ?q) ?md @ [r]"
    using p(6) by (simp add: pending_same_indexes [OF same])
  have map_it: "image_mset (item ev (contents st')) (mset ?live) = image_mset (item ev (db ?q)) (mset ?live)"
    using it by (intro image_mset_cong) simp
  have abs': "abs (s\<lparr>py_q := ?q'\<rparr>) = (pending ev (db ?q) ?md @ [r], mset (map (item ev (db ?q)) ?live))"
    using pend map_it by (simp add: py_abs_def Let_def live)
  have store: "store_ok ev contents ?q'" using p(4,5) by (simp add: store_ok_def Let_def live)
  have sums: "sums_ok ev contents lost (s\<lparr>py_q := ?q'\<rparr>)"
    using i(2) fit unfolding sums_ok_def abs' by (simp add: p(3) sizes_fit_def py_abs_def Let_def covers_def)
  have cons: "consumers_ok ev contents (s\<lparr>py_q := ?q'\<rparr>)"
    using i(3) it by (fastforce simp: consumers_ok_def Let_def live)
  have rs: "requestSize md' = requestSize ?md + 1"
    using requestSize_abs [OF i(1)] requestSize_abs [OF store] pend live by simp
  moreover have "in_i64 (requestSize md')" by (simp add: requestSize_def)
  ultimately have "add64 (requestSize ?md) 1 = requestSize md'" by simp
  then have "internalSize ?q' \<le> pq_capacity ?q"
    using cap wrap by (cases "pq_sizerType ?q") (auto simp: internalSize_def p(3))
  then have "size_step s (Enq r) (s\<lparr>py_q := ?q'\<rparr>)" by (simp add: size_step_def)
  moreover have "cfg_ok cfg (s\<lparr>py_q := ?q'\<rparr>)" using i(5) by (simp add: cfg_ok_def)
  moreover have "client_ok is_open (s\<lparr>py_q := ?q'\<rparr>)" using i(4) p(2) by (simp add: client_ok_def)
  moreover have "dq_step (abs s) (Enq r) (abs (s\<lparr>py_q := ?q'\<rparr>))"
    unfolding abs' by (simp add: py_abs_def Let_def dq_step.enq)
  ultimately show ?thesis using store sums cons by (simp add: psys_inv_def q')
qed

lemma step_read:
  assumes inv: "inv cfg lost s" and read: "pq_Read ev (py_q s) = PReadItem j r n b q'"
  shows "inv cfg lost (s\<lparr>py_q := q', py_inflight := py_inflight s @ [(j, r)]\<rparr>) \<and>
    dq_step (abs s) (Deq r) (abs (s\<lparr>py_q := q', py_inflight := py_inflight s @ [(j, r)]\<rparr>)) \<and>
    size_step s (Deq r) (s\<lparr>py_q := q', py_inflight := py_inflight s @ [(j, r)]\<rparr>)" (is "inv cfg lost ?s' \<and> _")
proof -
  let ?q = "py_q s" and ?md = "pq_metadata (py_q s)"
  let ?live = "md_CurrentlyDispatchedItems ?md" and ?ri = "md_ReadIndex ?md"
  note i = psys_invD [OF inv]
  have run: "\<not> pq_stopped ?q" using read by (auto simp: pq_Read_def)
  then have ri: "Read_items ev ?q = PReadItem j r n b q'" using read by (simp add: pq_Read_def)
  have ne: "?ri \<noteq> md_WriteIndex ?md" using ri by (subst (asm) Read_items.simps) (auto split: if_splits)
  have opn: "is_open (pq_storage ?q)" using i(4) run by (simp add: client_ok_def)
  have items: "items_ok ev (db ?q) ?md ?live" using i(1) by (simp add: store_ok_def Let_def)
  obtain st' md' r' where g: "getNextItem ev ?q = (Some (?ri, r'),
       ?q\<lparr>pq_metadata := md', pq_storage := st', pq_refClient := pq_refClient ?q + 1\<rparr>)" "is_open st'"
    "md' = ?md\<lparr>md_ReadIndex := ?ri + 1, md_CurrentlyDispatchedItems := ?live @ [?ri]\<rparr>"
    "items_ok ev (contents st') md' (?live @ [?ri])" "metadata_ok ev (contents st') md' (?live @ [?ri])"
    "pending ev (db ?q) ?md = r' # pending ev (contents st') md'"
    "\<And>i. item ev (contents st') i = item ev (db ?q) i" "r' = item ev (db ?q) ?ri"
    by (rule getNextItem_ok [OF opn items refl ne], rule that)
  have live: "md_CurrentlyDispatchedItems md' = ?live @ [?ri]" by (simp add: g(3))
  let ?q' = "?q\<lparr>pq_metadata := md', pq_storage := st', pq_refClient := pq_refClient ?q + 1\<rparr>"
  have store: "store_ok ev contents ?q'" using g(4,5) by (simp add: store_ok_def Let_def live)
  have rs: "requestSize md' = requestSize ?md"
    using requestSize_abs [OF i(1)] requestSize_abs [OF store] g(6) live by simp
  have "requestSize md' \<noteq> 0" using requestSize_abs [OF store] live by simp
  then have reset: "set_md (reset_sizes_if_drained (pq_metadata ?q')) ?q' = ?q'" by (simp add: reset_sizes_if_drained_def)
  have "Read_items ev ?q = PReadItem ?ri r' (ev_itemsSize ev r') (ev_bytesSize ev r') ?q'"
    by (subst Read_items.simps) (simp only: ne g(1) reset not_False_eq_True if_True prod.case option.case Let_def
        pq.select_convs pq.update_convs simp_thms pq.ext_inject pq.surjective)
  from trans [OF ri [symmetric] this] have eq: "q' = ?q'" "j = ?ri" "r = r'"
    by (simp_all only: pread_result.inject)
  have abs': "abs ?s' = (pending ev (contents st') md', add_mset r (mset (map (item ev (db ?q)) ?live)))"
  proof -
    have "item ev (contents st') = item ev (db ?q)" using g(7) by (simp add: fun_eq_iff)
    then show ?thesis using g(8) eq(3) by (simp add: py_abs_def Let_def eq(1) live)
  qed
  have abs: "abs s = (r # pending ev (contents st') md', mset (map (item ev (db ?q)) ?live))"
    using g(6) eq(3) by (simp add: py_abs_def Let_def)
  have nl: "?ri \<notin> set ?live" using items_okD(4) [OF items, of ?ri] by auto
  have "sums_ok ev contents lost ?s'"
    using i(2) unfolding sums_ok_def Let_def abs' abs by (simp add: eq(1) g(3) covers_def)
  moreover have "consumers_ok ev contents ?s'"
    using i(3) nl g(7,8) by (fastforce simp: consumers_ok_def Let_def live eq)
  moreover have "client_ok is_open ?s'" using i(4) run g(2) by (simp add: client_ok_def eq(1))
  moreover have "cfg_ok cfg ?s'" using i(5) by (simp add: cfg_ok_def eq(1))
  moreover have "size_step s (Deq r) ?s'"
    using rs by (auto simp: size_step_def internalSize_def eq(1) g(3) split: SizerType.splits)
  moreover have "dq_step (abs s) (Deq r) (abs ?s')" unfolding abs abs' by (rule dq_step.deq)
  ultimately show ?thesis using store by (simp add: psys_inv_def eq(1))
qed

lemma unref_ok:
  assumes "pq_refClient q = n + 1" "0 \<le> n" "is_open (pq_storage q)"
  shows "\<exists>st'. snd (unrefClient ev q) = q\<lparr>pq_refClient := n, pq_storage := st'\<rparr> \<and> contents st' = db q \<and>
    (0 < n \<longrightarrow> is_open st')"
proof (cases "n = 0")
  case True
  then show ?thesis using assms Close_contents [of "pq_storage q"]
    by (intro exI [of _ "snd (cl_Close (ev_client ev) (pq_storage q))"])
      (simp add: unrefClient_def Let_def split: prod.splits)
next
  case False
  then show ?thesis using assms
    by (intro exI [of _ "pq_storage q"]) (simp add: unrefClient_def Let_def)
qed

text \<open>Releasing the client keeps everything but the reference count.\<close>

lemma unref_inv:
  assumes ok: "store_ok ev contents q" "sums_ok ev contents lost (s\<lparr>py_q := q\<rparr>)" "consumers_ok ev contents (s\<lparr>py_q := q\<rparr>)"
      "cfg_ok cfg (s\<lparr>py_q := q\<rparr>)" and opn: "is_open (pq_storage q)"
    and cnt: "pq_refClient q = n + 1" "n = (if pq_stopped q then 0 else 1) + int (length (py_inflight s))"
  shows "inv cfg lost (s\<lparr>py_q := snd (unrefClient ev q)\<rparr>) \<and> abs (s\<lparr>py_q := snd (unrefClient ev q)\<rparr>) = abs (s\<lparr>py_q := q\<rparr>) \<and>
    internalSize (snd (unrefClient ev q)) = internalSize q"
proof -
  have "0 \<le> n" using cnt(2) by simp
  from unref_ok [OF cnt(1) this opn]
  obtain st' where u: "snd (unrefClient ev q) = q\<lparr>pq_refClient := n, pq_storage := st'\<rparr>" "contents st' = db q"
    "0 < n \<longrightarrow> is_open st'" by blast
  let ?s' = "s\<lparr>py_q := q\<lparr>pq_refClient := n, pq_storage := st'\<rparr>\<rparr>"
  have a: "abs ?s' = abs (s\<lparr>py_q := q\<rparr>)" by (simp add: py_abs_def Let_def u(2))
  moreover have "sums_ok ev contents lost ?s'" using ok(2) unfolding sums_ok_def a by (simp add: Let_def)
  moreover have "store_ok ev contents (py_q ?s')" using ok(1) by (simp add: store_ok_def Let_def u(2))
  moreover have "consumers_ok ev contents ?s'" using ok(3) by (simp add: consumers_ok_def Let_def u(2))
  moreover have "client_ok is_open ?s'" using cnt(2) u(3) by (simp add: client_ok_def)
  moreover have "cfg_ok cfg ?s'" using ok(4) by (simp add: cfg_ok_def)
  moreover have "internalSize (q\<lparr>pq_refClient := n, pq_storage := st'\<rparr>) = internalSize q"
    by (rule internalSize_cong) simp_all
  ultimately show ?thesis unfolding u(1) psys_inv_def by blast
qed

lemma finish_inv:
  assumes inv: "inv cfg lost s" and fl: "py_inflight s = xs @ (j, r) # ys"
  obtains q1 where "snd (itemDispatchingFinish ev j (set_md
        ((pq_metadata (py_q s))\<lparr>md_BytesSize := clamp0 (sub64 (md_BytesSize (pq_metadata (py_q s))) (ev_bytesSize ev r)),
           md_ItemsSize := clamp0 (sub64 (md_ItemsSize (pq_metadata (py_q s))) (ev_itemsSize ev r))\<rparr>) (py_q s))) = q1"
    "store_ok ev contents q1" "sums_ok ev contents lost (s\<lparr>py_inflight := xs @ ys, py_q := q1\<rparr>)"
    "consumers_ok ev contents (s\<lparr>py_inflight := xs @ ys, py_q := q1\<rparr>)"
    "cfg_ok cfg (s\<lparr>py_inflight := xs @ ys, py_q := q1\<rparr>)" "is_open (pq_storage q1)"
    "pq_refClient q1 = pq_refClient (py_q s)" "pq_stopped q1 = pq_stopped (py_q s)"
    "dq_step (abs s) (Ack r) (abs (s\<lparr>py_inflight := xs @ ys, py_q := q1\<rparr>))"
    "internalSize q1 \<le> internalSize (py_q s)"
proof -
  let ?q = "py_q s" and ?md = "pq_metadata (py_q s)"
  let ?live = "md_CurrentlyDispatchedItems ?md"
  let ?live' = "swap_remove j ?live"
  note i = psys_invD [OF inv]
  have j: "j \<in> set ?live" "item ev (db ?q) j = r" using i(3) fl by (auto simp: consumers_ok_def Let_def)
  have items: "items_ok ev (db ?q) ?md ?live" using i(1) by (simp add: store_ok_def Let_def)
  note sr = swap_remove_distinct [OF items_okD(3) [OF items] j(1)] and okD = items_okD [OF items]
  define P where "P = pending ev (db ?q) ?md"
  define D where "D = image_mset (item ev (db ?q)) (mset ?live')"
  have ml: "mset ?live = add_mset j (mset ?live')" using mset_swap_remove_eq [OF j(1)] j(1) by simp
  then have abs: "abs s = (P, add_mset r D)" using j(2) by (simp add: py_abs_def Let_def P_def D_def)
  let ?I = "md_ItemsSize ?md - ev_itemsSize ev r" and ?B = "md_BytesSize ?md - ev_bytesSize ev r"
  have sums: "covers (ev_itemsSize ev) (P, D) lost ?I" "md_ItemsSize ?md \<le> max_i64"
    "covers (ev_bytesSize ev) (P, D) lost ?B" "md_BytesSize ?md \<le> max_i64"
    using i(2) by (simp_all add: sums_ok_def Let_def abs covers_def)
  then have range: "0 \<le> ?I" "?I \<le> max_i64" "0 \<le> ?B" "?B \<le> max_i64"
    using sums_nonneg [of "(P, D)"] itemsSize_nonneg [of r] bytesSize_nonneg [of r] by (simp_all add: covers_def)
  have clamp: "clamp0 (sub64 (md_BytesSize ?md) (ev_bytesSize ev r)) = ?B"
    "clamp0 (sub64 (md_ItemsSize ?md) (ev_itemsSize ev r)) = ?I"
    using range by (auto simp: clamp0_def in_i64_nonneg)
  let ?md1 = "?md\<lparr>md_BytesSize := clamp0 (sub64 (md_BytesSize ?md) (ev_bytesSize ev r)),
           md_ItemsSize := clamp0 (sub64 (md_ItemsSize ?md) (ev_itemsSize ev r))\<rparr>"
  have opn: "is_open (pq_storage (set_md ?md1 ?q))" using i(4) fl by (simp add: client_ok_def split: if_splits)
  have same: "same_indexes ?md ?md1" by (simp add: same_indexes_def)
  have items1: "items_ok ev (db (set_md ?md1 ?q)) (pq_metadata (set_md ?md1 ?q)) ?live"
    using items by (simp add: items_ok_indexes [OF same])
  have live1: "?live = md_CurrentlyDispatchedItems (pq_metadata (set_md ?md1 ?q))" by simp
  obtain st' md' where f: "itemDispatchingFinish ev j (set_md ?md1 ?q) =
      (None, (set_md ?md1 ?q)\<lparr>pq_metadata := md', pq_storage := st'\<rparr>)" "is_open st'"
    "md' = reset_sizes_if_drained (pq_metadata (set_md ?md1 ?q)\<lparr>md_CurrentlyDispatchedItems := ?live'\<rparr>)"
    "items_ok ev (contents st') md' ?live'" "metadata_ok ev (contents st') md' ?live'"
    "pending ev (contents st') md' = pending ev (db (set_md ?md1 ?q)) (pq_metadata (set_md ?md1 ?q))"
    "\<And>i. i \<noteq> j \<Longrightarrow> item ev (contents st') i = item ev (db (set_md ?md1 ?q)) i"
    by (rule itemDispatchingFinish_ok [OF opn items1 live1 j(1)], rule that)
  let ?q1 = "?q\<lparr>pq_metadata := md', pq_storage := st'\<rparr>"
  have live: "md_CurrentlyDispatchedItems md' = ?live'" by (simp add: f(3) reset_sizes_if_drained_def)
  have it: "item ev (contents st') k = item ev (db ?q) k" if "k \<in> set ?live'" for k
    using f(7) [of k] that sr(2) by auto
  have "image_mset (item ev (contents st')) (mset ?live') = D" unfolding D_def
    using it by (intro image_mset_cong) simp
  then have abs': "abs (s\<lparr>py_inflight := xs @ ys, py_q := ?q1\<rparr>) = (P, D)"
    using f(6) by (simp add: py_abs_def Let_def live P_def pending_same_indexes [OF same])
  have store: "store_ok ev contents ?q1" using f(4,5) by (simp add: store_ok_def Let_def live)
  have rs: "requestSize md' = int (length P) + int (size D)"
    using requestSize_abs [OF store] f(6) live by (simp add: P_def D_def pending_same_indexes [OF same])
  have sizes: "covers (ev_itemsSize ev) (P, D) lost (md_ItemsSize md')" "md_ItemsSize md' \<le> ?I"
    "covers (ev_bytesSize ev) (P, D) lost (md_BytesSize md')" "md_BytesSize md' \<le> ?B"
  proof -
    have "P = [] \<and> D = {#}" if "requestSize (?md1\<lparr>md_CurrentlyDispatchedItems := ?live'\<rparr>) = 0"
    proof -
      have "requestSize md' = 0" using that f(3) by (simp add: reset_sizes_if_drained_def requestSize_def)
      then have "length P = 0 \<and> size D = 0" using rs by linarith
      then show ?thesis by simp
    qed
    then show "covers (ev_itemsSize ev) (P, D) lost (md_ItemsSize md')" "md_ItemsSize md' \<le> ?I"
      "covers (ev_bytesSize ev) (P, D) lost (md_BytesSize md')" "md_BytesSize md' \<le> ?B"
      using f(3) clamp sums range lost_nonneg [of lost]
      by (auto simp: reset_sizes_if_drained_def covers_def content_sum_def)
  qed
  show ?thesis
  proof (rule that [of ?q1])
    show "snd (itemDispatchingFinish ev j (set_md ?md1 ?q)) = ?q1" using f(1) by simp
    show "sums_ok ev contents lost (s\<lparr>py_inflight := xs @ ys, py_q := ?q1\<rparr>)"
      unfolding sums_ok_def abs' using sizes range by (simp add: Let_def)
    have dist: "distinct (map fst xs @ j # map fst ys)" using i(3) fl by (simp add: consumers_ok_def Let_def)
    have other: "k \<in> set ?live' \<and> item ev (contents st') k = t" if "(k, t) \<in> set (xs @ ys)" for k t
    proof -
      have "k \<in> set (map fst xs @ map fst ys)" using that by (auto intro: rev_image_eqI)
      then have "k \<noteq> j" using dist by auto
      moreover have "k \<in> set ?live" "item ev (db ?q) k = t" using consumers_okD [OF i(3), of k t] fl that by auto
      ultimately show ?thesis using it [of k] sr(2) by simp
    qed
    show "consumers_ok ev contents (s\<lparr>py_inflight := xs @ ys, py_q := ?q1\<rparr>)"
      unfolding consumers_ok_def Let_def
    proof (intro conjI ballI)
      fix x
      assume "x \<in> set (py_inflight (s\<lparr>py_inflight := xs @ ys, py_q := ?q1\<rparr>))"
      then show "case x of (k, t) \<Rightarrow>
          k \<in> set (md_CurrentlyDispatchedItems (pq_metadata (py_q (s\<lparr>py_inflight := xs @ ys, py_q := ?q1\<rparr>)))) \<and>
          item ev (contents (pq_storage (py_q (s\<lparr>py_inflight := xs @ ys, py_q := ?q1\<rparr>)))) k = t"
        using other [of "fst x" "snd x"] by (simp add: live case_prod_beta)
    qed (use dist in simp)
    have "requestSize ?md = int (length P) + int (size D) + 1"
      using requestSize_abs [OF i(1)] arg_cong [OF ml, of size] by (simp add: P_def D_def)
    then show "internalSize ?q1 \<le> internalSize ?q"
      using rs sizes itemsSize_nonneg [of r] bytesSize_nonneg [of r]
      by (cases "pq_sizerType ?q") (simp_all add: internalSize_def)
    show "cfg_ok cfg (s\<lparr>py_inflight := xs @ ys, py_q := ?q1\<rparr>)" using i(5) by (simp add: cfg_ok_def)
    show "dq_step (abs s) (Ack r) (abs (s\<lparr>py_inflight := xs @ ys, py_q := ?q1\<rparr>))"
      unfolding abs abs' by (rule dq_step.ack)
  qed (use store f(2) in simp_all)
qed

lemma step_finished:
  assumes inv: "inv cfg lost s" and fl: "py_inflight s = xs @ (j, r) # ys"
    and q': "pq_onDone ev j (ev_itemsSize ev r) (ev_bytesSize ev r) isShutdownErr (py_q s) = q'"
  shows "inv cfg lost (s\<lparr>py_q := q', py_inflight := xs @ ys\<rparr>) \<and>
    dq_step (abs s) (if isShutdownErr then Nack else Ack r) (abs (s\<lparr>py_q := q', py_inflight := xs @ ys\<rparr>)) \<and>
    size_step s (if isShutdownErr then Nack else Ack r) (s\<lparr>py_q := q', py_inflight := xs @ ys\<rparr>)"
proof -
  note i = psys_invD [OF inv]
  let ?s0 = "s\<lparr>py_inflight := xs @ ys\<rparr>"
  have comm: "s\<lparr>py_q := q, py_inflight := xs @ ys\<rparr> = ?s0\<lparr>py_q := q\<rparr>" for q by simp
  have cnt: "pq_refClient (py_q s) = (if pq_stopped (py_q s) then 0 else 1) + int (length (py_inflight ?s0)) + 1"
    using i(4) fl by (simp add: client_ok_def)
  have opn: "is_open (pq_storage (py_q s))" using i(4) fl by (simp add: client_ok_def split: if_splits)
  show ?thesis
  proof (cases isShutdownErr)
    case True
    have same: "?s0\<lparr>py_q := py_q s\<rparr> = ?s0" by simp
    have "sums_ok ev contents lost ?s0" using i(2) by (simp add: sums_ok_def py_abs_def)
    moreover have "consumers_ok ev contents ?s0"
    proof -
      have "distinct (map fst (xs @ ys))" using i(3) fl by (simp add: consumers_ok_def Let_def)
      moreover have "(k, t) \<in> set (py_inflight s)" if "(k, t) \<in> set (xs @ ys)" for k t using fl that by auto
      ultimately show ?thesis using consumers_okD [OF i(3)] by (auto simp: consumers_ok_def Let_def)
    qed
    moreover have "cfg_ok cfg ?s0" using i(5) by (simp add: cfg_ok_def)
    ultimately have "inv cfg lost (?s0\<lparr>py_q := snd (unrefClient ev (py_q s))\<rparr>) \<and>
        abs (?s0\<lparr>py_q := snd (unrefClient ev (py_q s))\<rparr>) = abs ?s0 \<and>
        internalSize (snd (unrefClient ev (py_q s))) = internalSize (py_q s)"
      using unref_inv [of "py_q s" lost ?s0, unfolded same, OF i(1) _ _ _ opn cnt refl] by blast
    moreover have "abs ?s0 = abs s" by (simp add: py_abs_def)
    moreover have "q' = snd (unrefClient ev (py_q s))" using q' True by (simp add: pq_onDone_def Let_def)
    moreover have "dq_step a Nack a" for a :: "'r list \<times> 'r multiset" by (cases a) (simp add: dq_step.nack)
    ultimately show ?thesis unfolding comm using True by (simp add: size_step_def)
  next
    case False
    obtain q1 where f: "snd (itemDispatchingFinish ev j (set_md
        ((pq_metadata (py_q s))\<lparr>md_BytesSize := clamp0 (sub64 (md_BytesSize (pq_metadata (py_q s))) (ev_bytesSize ev r)),
           md_ItemsSize := clamp0 (sub64 (md_ItemsSize (pq_metadata (py_q s))) (ev_itemsSize ev r))\<rparr>) (py_q s))) = q1"
      "store_ok ev contents q1" "sums_ok ev contents lost (?s0\<lparr>py_q := q1\<rparr>)" "consumers_ok ev contents (?s0\<lparr>py_q := q1\<rparr>)"
      "cfg_ok cfg (?s0\<lparr>py_q := q1\<rparr>)" "is_open (pq_storage q1)"
      "pq_refClient q1 = pq_refClient (py_q s)" "pq_stopped q1 = pq_stopped (py_q s)"
      "dq_step (abs s) (Ack r) (abs (?s0\<lparr>py_q := q1\<rparr>))" "internalSize q1 \<le> internalSize (py_q s)"
      by (rule finish_inv [OF inv fl], rule that)
    have "q' = snd (unrefClient ev q1)" using q' False f(1) by (simp add: pq_onDone_def Let_def)
    moreover have "pq_refClient q1 = (if pq_stopped q1 then 0 else 1) + int (length (py_inflight ?s0)) + 1"
      using cnt f(7,8) by simp
    ultimately show ?thesis
      unfolding comm using unref_inv [OF f(2-6) _ refl] f(9,10) False by (simp add: size_step_def)
  qed
qed

lemma step_shutdown:
  assumes inv: "inv cfg lost s" and run: "\<not> pq_stopped (py_q s)" and sd: "pq_Shutdown ev (py_q s) = (e, q')"
  shows "inv cfg lost (s\<lparr>py_q := q'\<rparr>) \<and> dq_step (abs s) Stop (abs (s\<lparr>py_q := q'\<rparr>)) \<and>
    size_step s Stop (s\<lparr>py_q := q'\<rparr>)"
proof -
  note i = psys_invD [OF inv]
  let ?q = "(py_q s)\<lparr>pq_stopped := True\<rparr>"
  have a: "abs (s\<lparr>py_q := ?q\<rparr>) = abs s" by (simp add: py_abs_def Let_def)
  have "store_ok ev contents ?q" using i(1) by (simp add: store_ok_def Let_def)
  moreover have "sums_ok ev contents lost (s\<lparr>py_q := ?q\<rparr>)" using i(2) unfolding sums_ok_def a by (simp add: Let_def)
  moreover have "consumers_ok ev contents (s\<lparr>py_q := ?q\<rparr>)" using i(3) by (simp add: consumers_ok_def Let_def)
  moreover have "cfg_ok cfg (s\<lparr>py_q := ?q\<rparr>)" using i(5) by (simp add: cfg_ok_def)
  moreover have "is_open (pq_storage ?q)" using i(4) run by (simp add: client_ok_def)
  moreover have "pq_refClient ?q = (if pq_stopped ?q then 0 else 1) + int (length (py_inflight s)) + 1"
    using i(4) run by (simp add: client_ok_def)
  ultimately have "inv cfg lost (s\<lparr>py_q := snd (unrefClient ev ?q)\<rparr>) \<and> abs (s\<lparr>py_q := snd (unrefClient ev ?q)\<rparr>) = abs s \<and>
      internalSize (snd (unrefClient ev ?q)) = internalSize ?q"
    using unref_inv [of ?q lost s cfg _, OF _ _ _ _ _ _ refl] a by metis
  moreover have "internalSize ?q = internalSize (py_q s)" by (rule internalSize_cong) simp_all
  moreover have "q' = snd (unrefClient ev ?q)" using sd by (simp add: pq_Shutdown_def)
  moreover have "dq_step x Stop x" for x :: "'r list \<times> 'r multiset" by (cases x) (simp add: dq_step.stop)
  ultimately show ?thesis by (simp add: size_step_def)
qed

lemma start_inv:
  assumes opn: "is_open st" and ok: "items_ok ev (contents st) md live"
    and meta: "metadata_ok ev (contents st) md live \<or> contents st metadataKey = None \<and> md = md_zero \<and> live = []"
    and room: "unat (md_WriteIndex md) + length live < 2 ^ 63"
    and sums: "covers (ev_itemsSize ev) (pending ev (contents st) md, mset (map (item ev (contents st)) live)) lost (md_ItemsSize md)"
      "md_ItemsSize md \<le> max_i64"
      "covers (ev_bytesSize ev) (pending ev (contents st) md, mset (map (item ev (contents st)) live)) lost (md_BytesSize md)"
      "md_BytesSize md \<le> max_i64"
    and cfg: "settings_ok cfg"
  shows "inv cfg lost \<lparr>py_q = pq_Start ev cfg st, py_inflight = []\<rparr> \<and>
    abs \<lparr>py_q = pq_Start ev cfg st, py_inflight = []\<rparr> =
      (pending ev (contents st) md @ map (item ev (contents st)) live, {#}) \<and>
    internalSize (pq_Start ev cfg st) = (case ps_sizerType cfg of SizerTypeBytes \<Rightarrow> md_BytesSize md
      | SizerTypeItems \<Rightarrow> md_ItemsSize md | _ \<Rightarrow> int (length (pending ev (contents st) md)) + int (length live))"
    (is "inv cfg lost ?s' \<and> _")
proof -
  have fits: "in_i64 (md_ItemsSize md)" "in_i64 (md_BytesSize md)"
    using sums sums_nonneg [of "(pending ev (contents st) md, mset (map (item ev (contents st)) live))"]
    by (auto intro!: in_i64_nonneg simp: covers_def)
  obtain st' md' where p: "pq_Start ev cfg st =
      (newPersistentQueue cfg st)\<lparr>pq_metadata := md', pq_storage := st', pq_refClient := 1\<rparr>" "is_open st'"
    "md' = md\<lparr>md_WriteIndex := md_WriteIndex md', md_CurrentlyDispatchedItems := []\<rparr>"
    "items_ok ev (contents st') md' []" "metadata_ok ev (contents st') md' []"
    "pending ev (contents st') md' = pending ev (contents st) md @ map (item ev (contents st)) live"
    using pq_Start_ok [OF opn ok meta room fits, of cfg] by blast
  have sel: "md_CurrentlyDispatchedItems md' = []" "md_ItemsSize md' = md_ItemsSize md" "md_BytesSize md' = md_BytesSize md"
    by (subst p(3), simp)+
  have a: "abs ?s' = (pending ev (contents st) md @ map (item ev (contents st)) live, {#})"
    by (simp add: py_abs_def Let_def p(1,6) sel)
  have store: "store_ok ev contents (py_q ?s')" using p(4,5) by (simp add: store_ok_def Let_def p(1) sel)
  have "sums_ok ev contents lost ?s'"
    unfolding sums_ok_def a Let_def covers_def content_sum_simps(4) using sums by (simp add: p(1) sel covers_def)
  moreover have "consumers_ok ev contents ?s'" by (simp add: consumers_ok_def Let_def)
  moreover have "client_ok is_open ?s'" using p(2) by (simp add: client_ok_def p(1) newPersistentQueue_def)
  moreover have "cfg_ok cfg ?s'" using cfg by (simp add: cfg_ok_def p(1) newPersistentQueue_def)
  moreover have "internalSize (py_q ?s') = (case ps_sizerType cfg of SizerTypeBytes \<Rightarrow> md_BytesSize md
      | SizerTypeItems \<Rightarrow> md_ItemsSize md | _ \<Rightarrow> int (length (pending ev (contents st) md)) + int (length live))"
    using requestSize_abs [OF store] p(6)
    by (cases "ps_sizerType cfg") (simp_all add: internalSize_def p(1) newPersistentQueue_def sel)
  ultimately show ?thesis using store a by (simp add: psys_inv_def)
qed

lemma inv_storage:
  assumes "inv cfg lost s"
  defines "st \<equiv> reopen (pq_storage (py_q s))" and "md \<equiv> pq_metadata (py_q s)"
  defines "live \<equiv> md_CurrentlyDispatchedItems md"
  shows "items_ok ev (contents st) md live" "metadata_ok ev (contents st) md live"
    "abs s = (pending ev (contents st) md, mset (map (item ev (contents st)) live))"
    "covers (ev_itemsSize ev) (pending ev (contents st) md, mset (map (item ev (contents st)) live)) lost (md_ItemsSize md)"
    "md_ItemsSize md \<le> max_i64"
    "covers (ev_bytesSize ev) (pending ev (contents st) md, mset (map (item ev (contents st)) live)) lost (md_BytesSize md)"
    "md_BytesSize md \<le> max_i64" "in_i64 (md_ItemsSize md)" "in_i64 (md_BytesSize md)"
    "internalSize (py_q s) = (case pq_sizerType (py_q s) of SizerTypeBytes \<Rightarrow> md_BytesSize md
      | SizerTypeItems \<Rightarrow> md_ItemsSize md | _ \<Rightarrow> int (length (pending ev (contents st) md)) + int (length live))"
proof -
  note i = psys_invD [OF assms(1)]
  have c: "contents st = db (py_q s)" unfolding st_def by (rule reopen_ok(2))
  show "items_ok ev (contents st) md live" "metadata_ok ev (contents st) md live"
    using i(1) by (simp_all add: store_ok_def Let_def c md_def live_def)
  show a: "abs s = (pending ev (contents st) md, mset (map (item ev (contents st)) live))"
    by (simp add: py_abs_def Let_def c md_def live_def)
  show "covers (ev_itemsSize ev) (pending ev (contents st) md, mset (map (item ev (contents st)) live)) lost (md_ItemsSize md)"
    "md_ItemsSize md \<le> max_i64"
    "covers (ev_bytesSize ev) (pending ev (contents st) md, mset (map (item ev (contents st)) live)) lost (md_BytesSize md)"
    "md_BytesSize md \<le> max_i64"
    using i(2) unfolding sums_ok_def a Let_def md_def by blast+
  with sums_range [OF i(2)] show "in_i64 (md_ItemsSize md)" "in_i64 (md_BytesSize md)"
    by (simp_all add: in_i64_nonneg md_def)
  show "internalSize (py_q s) = (case pq_sizerType (py_q s) of SizerTypeBytes \<Rightarrow> md_BytesSize md
      | SizerTypeItems \<Rightarrow> md_ItemsSize md | _ \<Rightarrow> int (length (pending ev (contents st) md)) + int (length live))"
    using requestSize_abs [OF i(1)] by (cases "pq_sizerType (py_q s)") (simp_all add: internalSize_def c md_def live_def)
qed

lemma step_restart:
  assumes inv: "inv cfg lost s" and cfg': "settings_ok cfg'" and room: "room_to_restart (pq_metadata (py_q s))"
  shows "inv cfg' lost \<lparr>py_q = pq_Start ev cfg' (reopen (pq_storage (py_q s))), py_inflight = []\<rparr> \<and>
    dq_step (abs s) (Restart cfg') (abs \<lparr>py_q = pq_Start ev cfg' (reopen (pq_storage (py_q s))), py_inflight = []\<rparr>) \<and>
    size_step s (Restart cfg') \<lparr>py_q = pq_Start ev cfg' (reopen (pq_storage (py_q s))), py_inflight = []\<rparr>"
proof -
  note i = inv_storage [OF inv]
  from start_inv [OF reopen_ok(1) i(1) disjI1 [OF i(2)] room [unfolded room_to_restart_def] i(4-7) cfg']
  have st: "inv cfg' lost \<lparr>py_q = pq_Start ev cfg' (reopen (pq_storage (py_q s))), py_inflight = []\<rparr>"
    "abs \<lparr>py_q = pq_Start ev cfg' (reopen (pq_storage (py_q s))), py_inflight = []\<rparr> = (fst (abs s) @
      map (item ev (contents (reopen (pq_storage (py_q s))))) (md_CurrentlyDispatchedItems (pq_metadata (py_q s))), {#})"
    and sz: "ps_sizerType cfg' = pq_sizerType (py_q s) \<longrightarrow>
      internalSize (pq_Start ev cfg' (reopen (pq_storage (py_q s)))) = internalSize (py_q s)"
    using i(3,10) by simp_all
  have "dq_step (abs s) (Restart cfg') (abs \<lparr>py_q = pq_Start ev cfg' (reopen (pq_storage (py_q s))), py_inflight = []\<rparr>)"
    unfolding st(2) i(3) fst_conv by (rule dq_step.restart)
  moreover have "size_step s (Restart cfg') \<lparr>py_q = pq_Start ev cfg' (reopen (pq_storage (py_q s))), py_inflight = []\<rparr>"
    using sz psys_invD(5) [OF st(1)] by (auto simp: size_step_def cfg_ok_def)
  ultimately show ?thesis using st(1) by blast
qed

lemma step_recover:
  assumes inv: "inv cfg lost s" and cfg': "settings_ok cfg'" and room: "room_to_restart (pq_metadata (py_q s))"
    and ps: "ps \<noteq> []" and st: "interrupted_starts ev reopen cfg' ps (reopen (pq_storage (py_q s))) = (st, gone)"
  shows "inv cfg' (lost @ gone) \<lparr>py_q = pq_Start ev cfg' st, py_inflight = []\<rparr> \<and>
    dq_step (abs s) (Recover cfg' gone) (abs \<lparr>py_q = pq_Start ev cfg' st, py_inflight = []\<rparr>) \<and>
    size_step s (Recover cfg' gone) \<lparr>py_q = pq_Start ev cfg' st, py_inflight = []\<rparr>"
proof -
  note i = inv_storage [OF inv]
  let ?st0 = "reopen (pq_storage (py_q s))" and ?md = "pq_metadata (py_q s)"
  let ?rs = "map (item ev (contents ?st0)) (md_CurrentlyDispatchedItems ?md)"
  let ?P = "pending ev (contents ?st0) ?md"
  from interrupted_starts_ok [OF reopen_ok(1) i(1) disjI1 [OF i(2)] room [unfolded room_to_restart_def] i(8,9) ps,
      of cfg'] st
  obtain md1 n where a: "gone = drop n ?rs" "is_open st" "md_ItemsSize md1 = md_ItemsSize ?md"
    "md_BytesSize md1 = md_BytesSize ?md" "items_ok ev (contents st) md1 []"
    "metadata_ok ev (contents st) md1 [] \<or> contents st metadataKey = None \<and> md1 = md_zero"
    "pending ev (contents st) md1 = ?P @ take n ?rs" by auto
  have rs: "?rs = take n ?rs @ gone" using a(1) by simp
  have sum: "content_sum f (?P, mset ?rs) = content_sum f (?P @ take n ?rs, {#}) + (\<Sum>r\<leftarrow>gone. f r)" for f :: "'r \<Rightarrow> int"
    by (subst rs) (simp add: content_sum_def sum_mset_sum_list [symmetric])
  have "unat (md_WriteIndex md1) + length [] < 2 ^ 63" using items_okD(2) [OF a(5)] by simp
  note si = start_inv [OF a(2,5) _ this, of "lost @ gone" cfg']
  have c: "covers f (?P @ take n ?rs, {#}) (lost @ gone) k" if "covers f (?P, mset ?rs) lost k" "0 \<le> (\<Sum>r\<leftarrow>gone. f r)"
    for f :: "'r \<Rightarrow> int" and k
    using that sum [of f] by (simp add: covers_def)
  have s': "inv cfg' (lost @ gone) \<lparr>py_q = pq_Start ev cfg' st, py_inflight = []\<rparr> \<and>
    abs \<lparr>py_q = pq_Start ev cfg' st, py_inflight = []\<rparr> = (?P @ take n ?rs, {#}) \<and>
    internalSize (pq_Start ev cfg' st) = (case ps_sizerType cfg' of SizerTypeBytes \<Rightarrow> md_BytesSize ?md
      | SizerTypeItems \<Rightarrow> md_ItemsSize ?md | _ \<Rightarrow> int (length (?P @ take n ?rs)) + int (length ([] :: index list)))"
    using si [unfolded a(3,4,7)] a(6) cfg' i(5,7) c [OF i(4) lost_nonneg(1)] c [OF i(6) lost_nonneg(2)] by simp
  have "dq_step (?P, mset (take n ?rs @ gone)) (Recover cfg' gone) (?P @ take n ?rs, {#})" by (rule dq_step.recover)
  then have "dq_step (abs s) (Recover cfg' gone) (abs \<lparr>py_q = pq_Start ev cfg' st, py_inflight = []\<rparr>)"
    using s' i(3) rs by metis
  moreover have "size_step s (Recover cfg' gone) \<lparr>py_q = pq_Start ev cfg' st, py_inflight = []\<rparr>"
  proof (cases "ps_sizerType cfg' = pq_sizerType (py_q s)")
    case True
    then show ?thesis using s' i(10) by (cases "pq_sizerType (py_q s)") (simp_all add: size_step_def)
  next
    case False
    moreover have "pq_sizerType (pq_Start ev cfg' st) = ps_sizerType cfg'"
      using psys_invD(5) [of ev contents is_open cfg'] s' by (fastforce simp: cfg_ok_def)
    ultimately show ?thesis by (simp add: size_step_def)
  qed
  ultimately show ?thesis using s' by blast
qed

text \<open>A start that is stopped right after its deletion loses every dispatched request.\<close>

lemma interrupted_start_loses:
  assumes inv: "inv cfg lost s" and cfg': "settings_ok cfg'" and room: "room_to_restart (pq_metadata (py_q s))"
  shows "\<exists>gone s'. mset gone = snd (abs s) \<and> pq_step ev reopen s (Recover cfg' gone) s' \<and> abs s' = (fst (abs s), {#})"
proof -
  note i = inv_storage [OF inv]
  let ?st0 = "reopen (pq_storage (py_q s))" and ?md = "pq_metadata (py_q s)"
  let ?rs = "map (item ev (contents ?st0)) (md_CurrentlyDispatchedItems ?md)"
  from start_interrupted_ok [OF reopen_ok(1) i(1) disjI1 [OF i(2)] room [unfolded room_to_restart_def] i(8,9),
      of cfg' "Moving 0"]
  obtain st where "start_interrupted ev cfg' (Moving 0) ?st0 = (st, ?rs)" by auto
  then have st: "interrupted_starts ev reopen cfg' [Moving 0] ?st0 = (reopen st, ?rs)" by simp
  let ?s' = "\<lparr>py_q = pq_Start ev cfg' (reopen st), py_inflight = []\<rparr>"
  have "pq_step ev reopen s (Recover cfg' ?rs) ?s'" by (rule pq_step.recover [OF cfg' room _ st]) simp
  moreover have gone: "mset ?rs = snd (abs s)" using i(3) by simp
  moreover have "dq_step (abs s) (Recover cfg' ?rs) (abs ?s')"
    using step_recover [OF inv cfg' room _ st] by blast
  then have "abs ?s' = (fst (abs s), {#})"
    using gone by cases auto
  ultimately show ?thesis by blast
qed

lemma simulation_step:
  assumes "pq_step ev reopen s l s'" "inv cfg lost s"
  shows "inv (current_settings cfg [l]) (lost @ recovery_lost [l]) s' \<and> dq_step (abs s) l (abs s') \<and> size_step s l s'"
  using assms
proof (induction rule: pq_step.induct)
  case (offer s r q')
  then show ?case by (simp add: step_offer current_settings_def)
next
  case (read s i r n b q')
  then show ?case by (simp add: step_read current_settings_def)
next
  case (finished s xs i r ys isShutdownErr q')
  then show ?case using step_finished [OF finished(3,1,2)] by (cases isShutdownErr) (simp_all add: current_settings_def)
next
  case (shutdown s e q')
  then show ?case by (simp add: step_shutdown current_settings_def)
next
  case (restart cfg' s)
  then show ?case by (simp add: step_restart current_settings_def)
next
  case (recover cfg' s ps st gone)
  then show ?case by (simp add: step_recover current_settings_def)
qed

lemma fresh_inv:
  assumes opn: "is_open st0" and empty: "contents st0 = Map.empty" and cfg: "settings_ok cfg"
    and st: "interrupted_starts ev reopen cfg ps st0 = (st, lost)"
  shows "inv cfg [] \<lparr>py_q = pq_Start ev cfg st, py_inflight = []\<rparr> \<and>
    abs \<lparr>py_q = pq_Start ev cfg st, py_inflight = []\<rparr> = ([], {#}) \<and> internalSize (pq_Start ev cfg st) \<le> ps_capacity cfg"
proof -
  have ok: "items_ok ev (contents st0) md_zero []"
    by (rule items_okI) (simp_all add: empty md_zero_def in_queue_def)
  obtain md1 where a: "is_open st" "md_ItemsSize md1 = 0" "md_BytesSize md1 = 0" "items_ok ev (contents st) md1 []"
    "metadata_ok ev (contents st) md1 [] \<or> contents st metadataKey = None \<and> md1 = md_zero"
    "pending ev (contents st) md1 = []"
  proof (cases "ps = []")
    case True
    then show ?thesis using st ok opn empty that [of md_zero] pending_zero by (simp add: md_zero_def)
  next
    case False
    from interrupted_starts_ok [OF opn ok _ _ _ _ this, of cfg] st that show ?thesis
      by (auto simp: md_zero_def empty pending_zero [unfolded md_zero_def] in_i64_def min_i64_def max_i64_def)
  qed
  have "unat (md_WriteIndex md1) + length [] < 2 ^ 63" using items_okD(2) [OF a(4)] by simp
  from start_inv [OF a(1,4) _ this, of "[]" cfg] a(2,3,5,6) cfg show ?thesis
    by (simp add: content_sum_def covers_def max_i64_def settings_ok_def split: SizerType.splits)
qed

lemma offer_progress:
  assumes inv: "inv cfg lost s" and run: "\<not> pq_stopped (py_q s)" and fit: "sizes_fit ev r (pq_metadata (py_q s))"
    and cap: "internalSize (py_q s) + NewSizer (ev_bytesSize ev) (ev_itemsSize ev) (ps_sizerType cfg) r \<le> ps_capacity cfg"
  shows "\<exists>q'. pq_Offer ev r (py_q s) = POffered None q'"
proof -
  let ?q = "py_q s" and ?md = "pq_metadata (py_q s)"
  let ?md1 = "?md\<lparr>md_ItemsSize := add64 (md_ItemsSize ?md) (ev_itemsSize ev r),
    md_BytesSize := add64 (md_BytesSize ?md) (ev_bytesSize ev r)\<rparr>"
  let ?live = "md_CurrentlyDispatchedItems ?md"
  let ?size = "NewSizer (ev_bytesSize ev) (ev_itemsSize ev) (pq_sizerType ?q) r"
  note i = psys_invD [OF inv]
  have items: "items_ok ev (db ?q) ?md ?live" using i(1) by (simp add: store_ok_def Let_def)
  have same: "same_indexes ?md ?md1" by (simp add: same_indexes_def)
  have ok: "items_ok ev (db (set_md ?md1 ?q)) (pq_metadata (set_md ?md1 ?q)) ?live"
    using items by (simp add: items_ok_indexes [OF same])
  have br: "before_read (pq_metadata (set_md ?md1 ?q)) ?live (md_CurrentlyDispatchedItems (pq_metadata (set_md ?md1 ?q)))"
    using before_read_refl [OF items] by (simp add: before_read_def)
  have opn: "is_open (pq_storage (set_md ?md1 ?q))" using i(4) run by (simp add: client_ok_def)
  have room: "unat (md_WriteIndex (pq_metadata (set_md ?md1 ?q))) + 1 < 2 ^ 63" using fit by (simp add: sizes_fit_def)
  obtain q' where p: "putInternal ev r (set_md ?md1 ?q) = (None, q')"
    by (rule putInternal_ok [OF opn ok br room, of r]) simp
  have "0 \<le> internalSize ?q" "0 \<le> ?size"
    using sums_range [OF i(2)] requestSize_abs [OF i(1)] itemsSize_nonneg [of r] bytesSize_nonneg [of r]
    by (cases "pq_sizerType ?q"; simp add: internalSize_def)+
  then have "add64 (internalSize ?q) ?size = internalSize ?q + ?size"
    using cap i(5) by (intro wrap64_id in_i64_nonneg) (auto simp: cfg_ok_def settings_ok_def)
  then show ?thesis using cap i(5) p by (simp add: pq_Offer_def Let_def cfg_ok_def)
qed

lemma read_progress:
  assumes inv: "inv cfg lost s" and run: "\<not> pq_stopped (py_q s)" and ne: "fst (abs s) = r # P"
  shows "\<exists>i n b q'. pq_Read ev (py_q s) = PReadItem i r n b q'"
proof -
  let ?q = "py_q s" and ?md = "pq_metadata (py_q s)"
  note i = psys_invD [OF inv]
  have items: "items_ok ev (db ?q) ?md (md_CurrentlyDispatchedItems ?md)" using i(1) by (simp add: store_ok_def Let_def)
  have opn: "is_open (pq_storage ?q)" using i(4) run by (simp add: client_ok_def)
  have neq: "md_ReadIndex ?md \<noteq> md_WriteIndex ?md"
    using ne by (auto simp: py_abs_def Let_def pending_def pending_indexes_def)
  obtain r' q' P' where g: "getNextItem ev ?q = (Some (md_ReadIndex ?md, r'), q')" "pending ev (db ?q) ?md = r' # P'"
    by (rule getNextItem_ok [OF opn items refl neq]) (rule that)
  have "r' = r" using ne g(2) by (simp add: py_abs_def Let_def)
  then show ?thesis using run neq g(1) by (subst pq_Read_def, subst Read_items.simps) (simp add: Let_def)
qed

lemma run_inv:
  assumes "pq_run ev reopen cfg st0 tr s" "is_open st0" "contents st0 = Map.empty" "settings_ok cfg"
  shows "inv (current_settings cfg tr) (recovery_lost tr) s"
  using assms(1)
proof (induction rule: pq_run.induct)
  case (start ps st lost)
  then show ?case using fresh_inv [OF assms(2-4) start] by (simp add: current_settings_def)
next
  case (step tr s l s')
  from simulation_step [OF step(2,3)] show ?case by (simp add: current_settings_step trace_append)
qed

lemma run_capacity:
  assumes "pq_run ev reopen cfg st0 tr s" "is_open st0" "contents st0 = Map.empty" "settings_ok cfg"
    and "set (restart_settings tr) \<subseteq> {cfg}"
  shows "internalSize (py_q s) \<le> ps_capacity cfg"
  using assms(1,5)
proof (induction rule: pq_run.induct)
  case (start ps st lost)
  then show ?case using fresh_inv [OF assms(2-4) start(1)] by simp
next
  case (step tr s l s')
  then have IH: "internalSize (py_q s) \<le> ps_capacity cfg" and same: "set (restart_settings (tr @ [l])) \<subseteq> {cfg}"
    by (simp_all add: trace_append)
  note inv = run_inv [OF step(1) assms(2-4)] and inv' = run_inv [OF pq_run.step [OF step(1,2)] assms(2-4)]
  have last: "current_settings cfg tr' = cfg" if "set (restart_settings tr') \<subseteq> {cfg}" for tr' :: "'r dq_label list"
    using that last_in_set [of "cfg # restart_settings tr'"] by (auto simp: current_settings_def)
  have "current_settings cfg tr = cfg" "current_settings cfg (tr @ [l]) = cfg"
    using same by (auto intro!: last simp: trace_append)
  with psys_invD(5) [OF inv] psys_invD(5) [OF inv'] simulation_step [OF step(2) inv] IH show ?case
    by (auto simp: cfg_ok_def size_step_def)
qed

end

section \<open>Properties\<close>

lemma dq_step_conserves:
  "dq_step a l a' \<Longrightarrow> mset (acked [l]) + mset (fst a') + snd a' + mset (recovery_lost [l]) = mset (enqueued [l]) + mset (fst a) + snd a"
  by (induction rule: dq_step.induct) auto

text \<open>
  C13. While the storage client does not fail (a client that keeps the contract \<open>storage_client\<close> of
  the storage interface and answers without an error, its batches taking effect as a whole) and for
  any encodings that round-trip, the persistent queue refines the durable queue. In every run from
  an empty storage, each accepted offer appends to the pending requests, each read moves the first
  pending request to the dispatched ones, finishing a request removes it unless it failed because
  of a shutdown. The process may stop at any point and be started with the same or other settings.
  A restart with a complete start puts all dispatched requests back behind the pending ones. When
  starts are themselves interrupted, some of the dispatched requests are put back and the others,
  named by the label \<open>Recover\<close>, are gone: the start deletes them all before it writes the first one
  again. Nothing else is ever lost.
\<close>

theorem persistentQueue_refines:
  assumes "pq_sizes ev contents is_open reopen" and "is_open st0" and "contents st0 = Map.empty"
    and "settings_ok cfg" and "pq_run ev reopen cfg st0 tr s" and "pq_step ev reopen s l s'"
  shows "dq_step (py_abs ev contents s) l (py_abs ev contents s')"
  using pq_sizes.simulation_step [OF assms(1,6) pq_sizes.run_inv [OF assms(1,5,2-4)]] by blast

text \<open>
  C14. While the storage client does not fail, every accepted request is accounted for, across any
  number of crashes, restarts and shutdowns: the requests accepted so far are those finished, those
  pending, those dispatched and those lost by a start that was interrupted after it deleted the
  dispatched requests and before it put them all back, counted with multiplicity. So a run in
  which no start is interrupted loses nothing and invents nothing.
\<close>

theorem persistentQueue_no_loss:
  assumes "pq_sizes ev contents is_open reopen" and "is_open st0" and "contents st0 = Map.empty"
    and "settings_ok cfg" and "pq_run ev reopen cfg st0 tr s"
  shows "mset (enqueued tr) =
    mset (acked tr) + mset (fst (py_abs ev contents s)) + snd (py_abs ev contents s) + mset (recovery_lost tr)"
  using assms(5)
proof (induction rule: pq_run.induct)
  case (start ps st lost)
  then show ?case using pq_sizes.fresh_inv [OF assms(1-4) start] by simp
next
  case (step tr s l s')
  from pq_sizes.simulation_step [OF assms(1) step(2) pq_sizes.run_inv [OF assms(1) step(1) assms(2-4)]]
  have "dq_step (py_abs ev contents s) l (py_abs ev contents s')" by blast
  from dq_step_conserves [OF this] step.IH show ?case
    by (simp add: trace_append add_ac)
qed

text \<open>
  C15. While the storage client does not fail, the sizes the queue keeps are right: the request size
  is the number of pending and dispatched requests; the items and bytes sizes are at least the sums
  over them and exceed these at most by the sizes of the requests that interrupted starts lost, so
  they are exact in a run without interrupted starts. The size in the configured unit never exceeds
  the capacity as long as every restart uses the settings of the first start. In general a step
  makes the size larger only when an offer is accepted, which then fits into the current capacity,
  or when a restart changes the unit; a restart with a smaller capacity may thus leave the size
  above it until enough requests are finished. The storage client is never closed while it is
  needed: its reference count is one for the running queue plus one per request in flight, and
  while it is positive the client is open.
\<close>

theorem persistentQueue_sizes:
  assumes "pq_sizes ev contents is_open reopen" and "is_open st0" and "contents st0 = Map.empty"
    and "settings_ok cfg" and "pq_run ev reopen cfg st0 tr s"
  shows "requestSize (pq_metadata (py_q s)) =
      int (length (fst (py_abs ev contents s))) + int (size (snd (py_abs ev contents s))) \<and>
    content_sum (ev_itemsSize ev) (py_abs ev contents s) \<le> md_ItemsSize (pq_metadata (py_q s)) \<and>
    md_ItemsSize (pq_metadata (py_q s)) \<le>
      content_sum (ev_itemsSize ev) (py_abs ev contents s) + (\<Sum>r\<leftarrow>recovery_lost tr. ev_itemsSize ev r) \<and>
    content_sum (ev_bytesSize ev) (py_abs ev contents s) \<le> md_BytesSize (pq_metadata (py_q s)) \<and>
    md_BytesSize (pq_metadata (py_q s)) \<le>
      content_sum (ev_bytesSize ev) (py_abs ev contents s) + (\<Sum>r\<leftarrow>recovery_lost tr. ev_bytesSize ev r) \<and>
    (set (restart_settings tr) \<subseteq> {cfg} \<longrightarrow> internalSize (py_q s) \<le> ps_capacity cfg) \<and>
    (pq_step ev reopen s l s' \<longrightarrow> internalSize (py_q s') \<le> internalSize (py_q s) \<or>
      (\<exists>r. l = Enq r) \<and> internalSize (py_q s') \<le> pq_capacity (py_q s) \<or>
      pq_sizerType (py_q s') \<noteq> pq_sizerType (py_q s)) \<and>
    pq_capacity (py_q s) = ps_capacity (current_settings cfg tr) \<and>
    pq_sizerType (py_q s) = ps_sizerType (current_settings cfg tr) \<and>
    pq_refClient (py_q s) = (if pq_stopped (py_q s) then 0 else 1) + int (length (py_inflight s)) \<and>
    (pq_stopped (py_q s) \<and> py_inflight s = [] \<or> is_open (pq_storage (py_q s)))"
proof -
  note inv = pq_sizes.run_inv [OF assms(1,5,2-4)]
  note i = psys_invD [OF inv]
  have "requestSize (pq_metadata (py_q s)) =
      int (length (fst (py_abs ev contents s))) + int (size (snd (py_abs ev contents s)))"
    using requestSize_abs [OF i(1)] by (simp add: py_abs_def Let_def)
  moreover have "pq_refClient (py_q s) = (if pq_stopped (py_q s) then 0 else 1) + int (length (py_inflight s))"
    "pq_stopped (py_q s) \<and> py_inflight s = [] \<or> is_open (pq_storage (py_q s))"
    using i(4) by (cases "py_inflight s"; auto simp: client_ok_def split: if_splits)+
  moreover have "pq_step ev reopen s l s' \<Longrightarrow> size_step s l s'" using pq_sizes.simulation_step [OF assms(1) _ inv] by blast
  ultimately show ?thesis using i(2,5) pq_sizes.run_capacity [OF assms(1,5,2-4)]
    by (simp add: sums_ok_def covers_def cfg_ok_def Let_def size_step_def)
qed

text \<open>
  C16. While the storage client does not fail, the operations succeed when they should: in every
  reachable running state an offer is accepted if it fits into the capacity of the current settings,
  and a read returns the oldest pending request if there is one.
\<close>

theorem persistentQueue_progress:
  assumes "pq_sizes ev contents is_open reopen" and "is_open st0" and "contents st0 = Map.empty"
    and "settings_ok cfg" and "pq_run ev reopen cfg st0 tr s" and "\<not> pq_stopped (py_q s)"
  shows "(sizes_fit ev r (pq_metadata (py_q s)) \<and>
      internalSize (py_q s) + NewSizer (ev_bytesSize ev) (ev_itemsSize ev) (ps_sizerType (current_settings cfg tr)) r
        \<le> ps_capacity (current_settings cfg tr)
      \<longrightarrow> (\<exists>q'. pq_Offer ev r (py_q s) = POffered None q')) \<and>
    (fst (py_abs ev contents s) = r' # P \<longrightarrow> (\<exists>i n b q'. pq_Read ev (py_q s) = PReadItem i r' n b q'))"
  using pq_sizes.offer_progress [OF assms(1) pq_sizes.run_inv [OF assms(1,5,2-4)] assms(6)]
    pq_sizes.read_progress [OF assms(1) pq_sizes.run_inv [OF assms(1,5,2-4)] assms(6)]
  by blast

section \<open>A concrete environment\<close>

text \<open>
  The in-memory client with fixed-width little-endian encodings: every metadata field and every
  request is eight bytes. It keeps all the laws.
\<close>

fun le_bytes :: "nat \<Rightarrow> nat \<Rightarrow> bytes" where
  "le_bytes 0 n = []"
| "le_bytes (Suc k) n = of_nat n # le_bytes k (n div 256)"

lemma length_le_bytes [simp]: "length (le_bytes k n) = k"
  by (induction k arbitrary: n) auto

lemma le_nat_le_bytes: "le_nat (le_bytes k n) = n mod 256 ^ k"
proof (induction k arbitrary: n)
  case (Suc k)
  have "le_nat (le_bytes (Suc k) n) = n mod 256 + 256 * (n div 256 mod 256 ^ k)"
    using Suc by (simp add: unat_of_nat)
  also have "\<dots> = n mod 256 ^ Suc k" by (simp add: mod_mult2_eq)
  finally show ?case .
qed simp

definition enc64 :: "64 word \<Rightarrow> bytes" where
  "enc64 w = le_bytes 8 (unat w)"

definition dec64 :: "bytes \<Rightarrow> 64 word" where
  "dec64 b = of_nat (le_nat (take 8 b))"

lemma enc64_simps [simp]:
  "length (enc64 w) = 8" "dec64 (enc64 w @ b) = w" "dec64 (enc64 w) = w"
  "drop 8 (enc64 w @ b) = b" "of_nat (le_nat (take 8 (enc64 w @ b))) = w"
proof -
  have "unat w mod 256 ^ 8 = unat w" using unsigned_less [where ?'a = nat, of w] by simp
  then have "of_nat (le_nat (enc64 w)) = w" by (simp add: enc64_def le_nat_le_bytes)
  then show "dec64 (enc64 w @ b) = w" "dec64 (enc64 w) = w" "of_nat (le_nat (take 8 (enc64 w @ b))) = w"
    by (simp_all add: dec64_def enc64_def)
qed (simp_all add: enc64_def)

lemma index_array_enc64: "index_array (length is) (concat (map enc64 is)) = is"
  by (induction "is") (simp_all del: take_append drop_append)

definition fixed_md_marshal :: "metadata \<Rightarrow> bytes option" where
  "fixed_md_marshal md = Some (enc64 (word_of_int (md_ItemsSize md)) @ enc64 (word_of_int (md_BytesSize md)) @
     enc64 (md_ReadIndex md) @ enc64 (md_WriteIndex md) @ concat (map enc64 (md_CurrentlyDispatchedItems md)))"

definition fixed_md_unmarshal :: "bytes \<Rightarrow> metadata option" where
  "fixed_md_unmarshal b = Some \<lparr>md_ItemsSize = sint (dec64 b), md_BytesSize = sint (dec64 (drop 8 b)),
     md_ReadIndex = dec64 (drop 16 b), md_WriteIndex = dec64 (drop 24 b),
     md_CurrentlyDispatchedItems = index_array ((length b - 32) div 8) (drop 32 b)\<rparr>"

definition fixed_env :: "(mock_storage, 64 word) pq_env" where
  "fixed_env = \<lparr>ev_client = mock_client, ev_md_marshal = fixed_md_marshal, ev_md_unmarshal = fixed_md_unmarshal,
     ev_marshal = (\<lambda>r. Some (enc64 r)), ev_unmarshal = map_option dec64,
     ev_itemsSize = (\<lambda>r. uint r), ev_bytesSize = (\<lambda>r. 8)\<rparr>"

lemma drop_8: "drop 16 b = drop 8 (drop 8 b)" "drop 24 b = drop 8 (drop 8 (drop 8 b))"
  "drop 32 b = drop 8 (drop 8 (drop 8 (drop 8 b)))"
  by simp_all

lemma sint_word_of_int: "in_i64 i \<Longrightarrow> sint (word_of_int i :: 64 word) = i"
  by (simp add: sint_sbintrunc' signed_take_bit_int_eq_self in_i64_def max_i64_def min_i64_def)

lemma fixed_md_roundtrip:
  assumes "in_i64 (md_ItemsSize md)" "in_i64 (md_BytesSize md)"
  shows "fixed_md_unmarshal (the (fixed_md_marshal md)) = Some md"
proof -
  have l: "length (concat (map enc64 is)) = 8 * length is" for "is" by (induction "is") simp_all
  show ?thesis
    unfolding fixed_md_marshal_def fixed_md_unmarshal_def option.sel drop_8 enc64_simps
    by (simp add: sint_word_of_int assms l index_array_enc64)
qed

interpretation fixed: pq_sizes fixed_env mk_st "\<lambda>st. \<not> mk_closed st" mock_GetClient
proof unfold_locales
  fix md b
  assume "in_i64 (md_ItemsSize md)" "in_i64 (md_BytesSize md)" "ev_md_marshal fixed_env md = Some b"
  then show "ev_md_unmarshal fixed_env b = Some md \<and> (b = [] \<longrightarrow> md = md_zero)"
    using fixed_md_roundtrip [of md] enc64_simps(1) [of "md_ReadIndex md"]
    by (auto simp: fixed_env_def fixed_md_marshal_def simp del: enc64_simps(1))
qed (auto simp: fixed_env_def fixed_md_marshal_def mock.Get_ok mock.Set_ok mock.Batch_ok mock.Close_contents mock.reopen_ok)

definition demo_cfg :: pq_settings where
  "demo_cfg = \<lparr>ps_capacity = 10, ps_sizerType = SizerTypeRequests, ps_blockOnOverflow = False\<rparr>"

definition demo_storage :: mock_storage where
  "demo_storage = \<lparr>mk_st = Map.empty, mk_closed = False\<rparr>"

definition demo_start :: "(mock_storage, 64 word) psys" where
  "demo_start = \<lparr>py_q = pq_Start fixed_env demo_cfg demo_storage, py_inflight = []\<rparr>"

lemma demo_storage_ok: "\<not> mk_closed demo_storage" "mk_st demo_storage = Map.empty"
  by (simp_all add: demo_storage_def)

lemma demo_cfg_ok: "settings_ok demo_cfg"
  by (simp add: settings_ok_def demo_cfg_def max_i64_def)

lemmas demo_ok = fixed.pq_sizes_axioms demo_storage_ok demo_cfg_ok

lemma demo_start_inv: "psys_inv fixed_env mk_st (\<lambda>st. \<not> mk_closed st) demo_cfg [] demo_start"
    "py_abs fixed_env mk_st demo_start = ([], {#})"
  using fixed.fresh_inv [of demo_storage demo_cfg "[]"] demo_storage_ok demo_cfg_ok
  by (simp_all add: demo_start_def)

lemma demo_start_state:
  "pq_stopped (py_q demo_start) = False" "md_ItemsSize (pq_metadata (py_q demo_start)) = 0"
  "md_BytesSize (pq_metadata (py_q demo_start)) = 0" "md_WriteIndex (pq_metadata (py_q demo_start)) = 0"
  "md_CurrentlyDispatchedItems (pq_metadata (py_q demo_start)) = []" "md_ReadIndex (pq_metadata (py_q demo_start)) = 0"
proof -
  have "items_ok fixed_env (mk_st demo_storage) md_zero []"
    by (rule items_okI) (simp_all add: demo_storage_def md_zero_def in_queue_def)
  from fixed.pq_Start_ok [OF _ this, of demo_cfg] obtain st' md' where
    p: "pq_Start fixed_env demo_cfg demo_storage =
      (newPersistentQueue demo_cfg demo_storage)\<lparr>pq_metadata := md', pq_storage := st', pq_refClient := 1\<rparr>"
    "md' = md_zero\<lparr>md_WriteIndex := md_WriteIndex md', md_CurrentlyDispatchedItems := []\<rparr>"
    "pending fixed_env (mk_st st') md' = []" "items_ok fixed_env (mk_st st') md' []"
    by (auto simp: demo_storage_def md_zero_def pending_def pending_indexes_def)
  have f: "md_ItemsSize md' = 0" "md_BytesSize md' = 0" "md_ReadIndex md' = 0" "md_CurrentlyDispatchedItems md' = []"
    by (subst p(2), simp add: md_zero_def)+
  then have "md_WriteIndex md' = 0" using p(3) by (simp add: pending_def pending_indexes_def unat_eq_zero)
  with f show "pq_stopped (py_q demo_start) = False" "md_ItemsSize (pq_metadata (py_q demo_start)) = 0"
    "md_BytesSize (pq_metadata (py_q demo_start)) = 0" "md_WriteIndex (pq_metadata (py_q demo_start)) = 0"
    "md_CurrentlyDispatchedItems (pq_metadata (py_q demo_start)) = []" "md_ReadIndex (pq_metadata (py_q demo_start)) = 0"
    by (simp_all add: demo_start_def p(1) newPersistentQueue_def)
qed

lemma demo_start_run: "pq_run fixed_env mock_GetClient demo_cfg demo_storage [] demo_start"
  unfolding demo_start_def by (rule pq_run.start [of _ _ _ "[]"]) simp

lemma demo_fits: "sizes_fit fixed_env 5 (pq_metadata (py_q demo_start))"
  "internalSize (py_q demo_start) + NewSizer (ev_bytesSize fixed_env) (ev_itemsSize fixed_env) (ps_sizerType demo_cfg) 5
    \<le> ps_capacity demo_cfg"
proof -
  have "pq_sizerType (py_q demo_start) = SizerTypeRequests"
    using psys_invD(5) [OF demo_start_inv(1)] by (simp add: cfg_ok_def demo_cfg_def)
  then show "internalSize (py_q demo_start) + NewSizer (ev_bytesSize fixed_env) (ev_itemsSize fixed_env)
      (ps_sizerType demo_cfg) 5 \<le> ps_capacity demo_cfg"
    by (simp add: internalSize_def requestSize_def demo_start_state demo_cfg_def)
qed (simp add: demo_start_state sizes_fit_def fixed_env_def max_i64_def)

lemma pq_Read_WriteIndex:
  "pq_Read ev q = PReadItem i r n b q' \<Longrightarrow> md_WriteIndex (pq_metadata q') = md_WriteIndex (pq_metadata q)"
proof -
  have "Read_items ev q = PReadItem i r n b q' \<Longrightarrow> md_WriteIndex (pq_metadata q') = md_WriteIndex (pq_metadata q)"
  proof (induction ev q rule: Read_items.induct)
    case (1 ev q)
    let ?q1 = "snd (getNextItem ev q)"
    have reset: "md_WriteIndex (reset_sizes_if_drained (pq_metadata ?q1)) = md_WriteIndex (pq_metadata q)"
      using reset_sizes_indexes [of "pq_metadata ?q1"] by (simp add: same_indexes_def getNextItem_indexes)
    show ?case
    proof (cases "fst (getNextItem ev q)")
      case None
      with 1(2) have "Read_items ev (set_md (reset_sizes_if_drained (pq_metadata ?q1)) ?q1) = PReadItem i r n b q'"
        and ne: "md_ReadIndex (pq_metadata q) \<noteq> md_WriteIndex (pq_metadata q)"
        by (subst (asm) Read_items.simps; simp add: case_prod_beta Let_def split: if_splits)+
      from 1(1) [OF ne prod.collapse refl None this(1)] reset show ?thesis by simp
    next
      case (Some x)
      with 1(2) have "q' = set_md (reset_sizes_if_drained (pq_metadata ?q1)) ?q1"
        by (subst (asm) Read_items.simps) (simp add: case_prod_beta Let_def split: if_splits)
      then show ?thesis using reset by simp
    qed
  qed
  then show "pq_Read ev q = PReadItem i r n b q' \<Longrightarrow> ?thesis" by (simp add: pq_Read_def split: if_splits)
qed

text \<open>A run with one accepted request, the same with the request dispatched, and what may follow.\<close>

lemma demo_offer:
  obtains s where "pq_step fixed_env mock_GetClient demo_start (Enq 5) s"
    "pq_run fixed_env mock_GetClient demo_cfg demo_storage [Enq 5] s" "\<not> pq_stopped (py_q s)"
    "py_abs fixed_env mk_st s = ([5], {#})" "md_WriteIndex (pq_metadata (py_q s)) = 1"
proof -
  obtain q' where q': "pq_Offer fixed_env 5 (py_q demo_start) = POffered None q'"
    using fixed.offer_progress [OF demo_start_inv(1) _ demo_fits] demo_start_state(1) by blast
  have st: "pq_step fixed_env mock_GetClient demo_start (Enq 5) (demo_start\<lparr>py_q := q'\<rparr>)"
    using pq_step.offer [OF _ demo_fits(1) q'] demo_start_state(1) by blast
  have "dq_step ([], {#}) (Enq 5) (py_abs fixed_env mk_st (demo_start\<lparr>py_q := q'\<rparr>))"
    using fixed.simulation_step [OF st demo_start_inv(1)] demo_start_inv(2) by simp
  then have abs: "py_abs fixed_env mk_st (demo_start\<lparr>py_q := q'\<rparr>) = ([5], {#})"
    by (auto elim: dq_step.cases)
  have "\<not> pq_stopped q' \<and> md_WriteIndex (pq_metadata q') = 1"
    using q' demo_start_state(1,4)
    by (auto simp: pq_Offer_def putInternal_def batch_def Let_def split: if_splits option.splits prod.splits sum.splits)
  then have "\<not> pq_stopped (py_q (demo_start\<lparr>py_q := q'\<rparr>))" "md_WriteIndex (pq_metadata (py_q (demo_start\<lparr>py_q := q'\<rparr>))) = 1"
    by simp_all
  with st abs pq_run.step [OF demo_start_run st] show ?thesis by (intro that) (simp_all only: append_Nil not_False_eq_True)
qed

lemma demo_read:
  obtains s where "pq_run fixed_env mock_GetClient demo_cfg demo_storage [Enq 5, Deq 5] s"
    "py_abs fixed_env mk_st s = ([], {#5#})" "room_to_restart (pq_metadata (py_q s))"
proof -
  obtain s where s: "pq_run fixed_env mock_GetClient demo_cfg demo_storage [Enq 5] s" "\<not> pq_stopped (py_q s)"
    "py_abs fixed_env mk_st s = ([5], {#})" "md_WriteIndex (pq_metadata (py_q s)) = 1" by (rule demo_offer)
  note inv = fixed.run_inv [OF s(1) demo_storage_ok demo_cfg_ok]
  obtain i n b q' where q': "pq_Read fixed_env (py_q s) = PReadItem i 5 n b q'"
    using fixed.read_progress [OF inv s(2), of 5 "[]"] s(3) by auto
  let ?s' = "s\<lparr>py_q := q', py_inflight := py_inflight s @ [(i, 5)]\<rparr>"
  have st: "pq_step fixed_env mock_GetClient s (Deq 5) ?s'" by (rule pq_step.read [OF q'])
  have "dq_step ([5], {#}) (Deq 5) (py_abs fixed_env mk_st ?s')" using fixed.simulation_step [OF st inv] s(3) by simp
  then have abs: "py_abs fixed_env mk_st ?s' = ([], {#5#})" by (auto elim: dq_step.cases)
  have run: "pq_run fixed_env mock_GetClient demo_cfg demo_storage [Enq 5, Deq 5] ?s'"
    using pq_run.step [OF s(1) st] by simp
  have "length (md_CurrentlyDispatchedItems (pq_metadata q')) = 1"
    using arg_cong [OF abs, of "\<lambda>a. size (snd a)"] by (simp add: py_abs_def Let_def)
  then have "room_to_restart (pq_metadata (py_q ?s'))"
    using s(4) pq_Read_WriteIndex [OF q'] by (simp add: room_to_restart_def)
  with run abs show ?thesis by (rule that)
qed

theorem persistentQueue_refines_witness:
  "\<exists>s s'. pq_step fixed_env mock_GetClient s (Recover demo_cfg [5]) s' \<and>
     dq_step ([], {#5#}) (Recover demo_cfg [5 :: 64 word]) ([], {#}) \<and>
     py_abs fixed_env mk_st s = ([], {#5#}) \<and> py_abs fixed_env mk_st s' = ([], {#})"
proof -
  obtain s where s: "pq_run fixed_env mock_GetClient demo_cfg demo_storage [Enq 5, Deq 5] s"
    "py_abs fixed_env mk_st s = ([], {#5#})" "room_to_restart (pq_metadata (py_q s))" by (rule demo_read)
  obtain gone s' where r: "mset gone = {#5#}" "pq_step fixed_env mock_GetClient s (Recover demo_cfg gone) s'"
    "py_abs fixed_env mk_st s' = ([], {#})"
    using fixed.interrupted_start_loses [OF fixed.run_inv [OF s(1) demo_storage_ok demo_cfg_ok] demo_cfg_ok s(3)] s(2)
    by auto
  have "gone = [5]" using r(1) by (metis mset_single_iff)
  with persistentQueue_refines [OF demo_ok s(1) r(2)] r(2,3) s(2) show ?thesis by auto
qed

theorem persistentQueue_no_loss_witness:
  "\<exists>s. pq_run fixed_env mock_GetClient demo_cfg demo_storage [Enq 5, Deq 5, Recover demo_cfg [5]] s \<and>
     mset (fst (py_abs fixed_env mk_st s)) + snd (py_abs fixed_env mk_st s) = {#}"
proof -
  obtain s where s: "pq_run fixed_env mock_GetClient demo_cfg demo_storage [Enq 5, Deq 5] s"
    "py_abs fixed_env mk_st s = ([], {#5#})" "room_to_restart (pq_metadata (py_q s))" by (rule demo_read)
  obtain gone s' where r: "mset gone = {#5#}" "pq_step fixed_env mock_GetClient s (Recover demo_cfg gone) s'"
    using fixed.interrupted_start_loses [OF fixed.run_inv [OF s(1) demo_storage_ok demo_cfg_ok] demo_cfg_ok s(3)] s(2)
    by auto
  have gone: "gone = [5]" using r(1) by (metis mset_single_iff)
  have run: "pq_run fixed_env mock_GetClient demo_cfg demo_storage [Enq 5, Deq 5, Recover demo_cfg [5]] s'"
    using pq_run.step [OF s(1) r(2)] gone by simp
  from persistentQueue_no_loss [OF demo_ok run] run show ?thesis by (intro exI [of _ s']) simp
qed

definition small_cfg :: pq_settings where
  "small_cfg = \<lparr>ps_capacity = 0, ps_sizerType = SizerTypeRequests, ps_blockOnOverflow = False\<rparr>"

theorem persistentQueue_sizes_witness:
  "\<exists>s s'. pq_run fixed_env mock_GetClient demo_cfg demo_storage [Enq 5] s \<and> requestSize (pq_metadata (py_q s)) = 1 \<and>
     md_ItemsSize (pq_metadata (py_q s)) = 5 \<and> md_BytesSize (pq_metadata (py_q s)) = 8 \<and> internalSize (py_q s) \<le> 10 \<and>
     pq_step fixed_env mock_GetClient s (Restart small_cfg) s' \<and> internalSize (py_q s') \<le> internalSize (py_q s) \<and>
     pq_capacity (py_q s') = 0 \<and> requestSize (pq_metadata (py_q s')) = 1"
proof -
  obtain s where s: "pq_run fixed_env mock_GetClient demo_cfg demo_storage [Enq 5] s"
    "py_abs fixed_env mk_st s = ([5], {#})" "md_WriteIndex (pq_metadata (py_q s)) = 1" by (rule demo_offer)
  let ?s' = "\<lparr>py_q = pq_Start fixed_env small_cfg (mock_GetClient (pq_storage (py_q s))), py_inflight = []\<rparr>"
  have "length (md_CurrentlyDispatchedItems (pq_metadata (py_q s))) = 0"
    using s(2) by (simp add: py_abs_def Let_def)
  then have st: "pq_step fixed_env mock_GetClient s (Restart small_cfg) ?s'"
    using s(3) by (intro pq_step.restart) (simp_all add: room_to_restart_def settings_ok_def small_cfg_def max_i64_def)
  have run: "pq_run fixed_env mock_GetClient demo_cfg demo_storage [Enq 5, Restart small_cfg] ?s'"
    using pq_run.step [OF s(1) st] by simp
  note p = persistentQueue_sizes [OF demo_ok s(1), of "Restart small_cfg" ?s']
    persistentQueue_sizes [OF demo_ok run, THEN conjunct1]
  have "dq_step ([5], {#}) (Restart small_cfg) (py_abs fixed_env mk_st ?s')"
    using fixed.simulation_step [OF st fixed.run_inv [OF s(1) demo_storage_ok demo_cfg_ok]] s(2) by simp
  then have abs: "py_abs fixed_env mk_st ?s' = ([5], {#})" by (auto elim!: dq_step.cases)
  have sel: "ps_capacity small_cfg = 0" "ps_sizerType small_cfg = SizerTypeRequests" "ps_capacity demo_cfg = 10"
    "ps_sizerType demo_cfg = SizerTypeRequests" by (simp_all add: small_cfg_def demo_cfg_def)
  have sz: "ev_itemsSize fixed_env 5 = 5" "ev_bytesSize fixed_env 5 = 8" by (simp_all add: fixed_env_def)
  have "pq_sizerType (py_q ?s') = SizerTypeRequests" "pq_capacity (py_q ?s') = 0"
    using persistentQueue_sizes [OF demo_ok run] sel by (simp_all add: current_settings_def)
  then show ?thesis
    using s(1) st p abs s(2) sel sz
    by (intro exI [of _ s] exI [of _ ?s']) (auto simp: content_sum_def current_settings_def)
qed

theorem persistentQueue_progress_witness:
  "(\<exists>q'. pq_Offer fixed_env 5 (py_q demo_start) = POffered None q') \<and>
   (\<exists>s i n b q'. pq_run fixed_env mock_GetClient demo_cfg demo_storage [Enq 5] s \<and>
      pq_Read fixed_env (py_q s) = PReadItem i 5 n b q')"
proof -
  note p = persistentQueue_progress [OF demo_ok]
  have ns: "\<not> pq_stopped (py_q demo_start)" using demo_start_state(1) by simp
  obtain s where s: "pq_run fixed_env mock_GetClient demo_cfg demo_storage [Enq 5] s" "\<not> pq_stopped (py_q s)"
    "py_abs fixed_env mk_st s = ([5], {#})" by (rule demo_offer)
  have f: "fst (py_abs fixed_env mk_st s) = 5 # []" by (simp add: s(3))
  have c: "current_settings demo_cfg [] = demo_cfg" by (simp add: current_settings_def)
  from conjunct1 [OF p [OF demo_start_run ns, of 5], unfolded c, rule_format, OF conjI [OF demo_fits]]
    conjunct2 [OF p [OF s(1,2), of 0 5 "[]"], rule_format, OF f] s(1) show ?thesis by blast
qed

end
