(* ===== verification/ProtoCodec.thy ===== *)
theory ProtoCodec
  imports Wire
begin

text \<open>
  The shape every generated message of pdata/internal/generated\_proto\_*.go shares.
  \<open>MarshalProto\<close> fills a buffer from its end: each field is a few writes that move a cursor
  \<open>(buf, pos)\<close> to the left, and the statements of the generated code are the writers below.
  \<open>UnmarshalProto\<close> is the loop \<open>unmarshal_loop\<close> over a \<open>switch\<close> on the field number. The locale
  \<open>proto_message\<close> is the contract of a message; it is interpreted for every message modelled in
  \<open>ProtoCommon\<close>, \<open>ProtoLogs\<close>, \<open>ProtoTraces\<close>, \<open>ProtoPoints\<close> and \<open>ProtoMetrics\<close>.
\<close>

section \<open>Writers\<close>

type_synonym cursor = "byte list \<times> int"
type_synonym writer = "cursor \<Rightarrow> wire_error + cursor"
type_synonym marshaler = "byte list \<Rightarrow> wire_error + byte list \<times> int"

text \<open>\<open>pos--; buf[pos] = t\<close>\<close>

fun put_byte :: "byte \<Rightarrow> writer" where
  "put_byte t (buf, pos) =
     (case buf_set buf (pos - 1) t of Inl e \<Rightarrow> Inl e | Inr buf' \<Rightarrow> Inr (buf', pos - 1))"

text \<open>\<open>pos -= len(s); copy(buf[pos:], s)\<close>; slicing outside the buffer panics, \<open>copy\<close> truncates.\<close>

fun put_bytes :: "byte list \<Rightarrow> writer" where
  "put_bytes s (buf, pos) =
     (let p = pos - int (length s)
      in if 0 \<le> p \<and> p \<le> int (length buf)
         then Inr (take (nat p) buf @ take (length buf - nat p) s @ drop (nat p + length s) buf, p)
         else Inl IndexPanic)"

text \<open>\<open>pos = proto.EncodeVarint(buf, pos, v)\<close>\<close>

fun put_varint :: "u64 \<Rightarrow> writer" where
  "put_varint v (buf, pos) = EncodeVarint buf pos v"

definition le_bytes_of :: "nat \<Rightarrow> u64 \<Rightarrow> byte list" where
  "le_bytes_of n w = map (\<lambda>i. ucast (drop_bit (8 * i) w)) [0 ..< n]"

text \<open>\<open>pos -= 8; binary.LittleEndian.PutUint64(buf[pos:], v)\<close>, which panics on a short slice.\<close>

fun put_fixed :: "nat \<Rightarrow> u64 \<Rightarrow> writer" where
  "put_fixed n v (buf, pos) =
     (let p = pos - int n
      in if 0 \<le> p \<and> pos \<le> int (length buf)
         then Inr (take (nat p) buf @ le_bytes_of n v @ drop (nat pos) buf, p)
         else Inl IndexPanic)"

text \<open>\<open>l = m.MarshalProto(buf[:pos]); pos -= l; pos = proto.EncodeVarint(buf, pos, uint64(l))\<close>\<close>

fun put_sub :: "marshaler \<Rightarrow> writer" where
  "put_sub marshal (buf, pos) =
     (if 0 \<le> pos \<and> pos \<le> int (length buf)
      then case marshal (take (nat pos) buf) of
             Inl e \<Rightarrow> Inl e
           | Inr (buf', l) \<Rightarrow> put_varint (word_of_int l) (buf' @ drop (nat pos) buf, pos - l)
      else Inl IndexPanic)"

fun write_all :: "writer list \<Rightarrow> writer" where
  "write_all [] c = Inr c"
| "write_all (w # ws) c = (case w c of Inl e \<Rightarrow> Inl e | Inr c' \<Rightarrow> write_all ws c')"

text \<open>A \<open>MarshalProto\<close> body: start at the end of the buffer and return the number of bytes written.\<close>

definition marshal_body :: "writer list \<Rightarrow> marshaler" where
  "marshal_body ws buf =
     (case write_all ws (buf, int (length buf)) of
        Inl e \<Rightarrow> Inl e
      | Inr (buf', pos) \<Rightarrow> Inr (buf', int (length buf) - pos))"

text \<open>The blocks of writes for one field, tag last.\<close>

definition put_tag :: "byte list \<Rightarrow> writer list" where
  "put_tag tag = map put_byte (rev tag)"

definition string_block :: "byte list \<Rightarrow> byte list \<Rightarrow> writer list" where
  "string_block tag s = [put_bytes s, put_varint (of_nat (length s))] @ put_tag tag"

definition varint_block :: "byte list \<Rightarrow> u64 \<Rightarrow> writer list" where
  "varint_block tag v = put_varint v # put_tag tag"

definition fixed_block :: "byte list \<Rightarrow> nat \<Rightarrow> u64 \<Rightarrow> writer list" where
  "fixed_block tag n v = put_fixed n v # put_tag tag"

definition message_block :: "byte list \<Rightarrow> marshaler \<Rightarrow> writer list" where
  "message_block tag marshal = put_sub marshal # put_tag tag"

text \<open>\<open>n += 1 + proto.Sov(uint64(l)) + l\<close>; sizes are those of data in memory and do not wrap.\<close>

abbreviation len_size :: "nat \<Rightarrow> nat \<Rightarrow> nat" where
  "len_size tag l \<equiv> tag + Sov (of_nat l) + l"

section \<open>Readers\<close>

datatype unmarshal_error =
    WireErr wire_error
  | ErrWrongWireType int
  | ErrInvalidIDLength
  | ErrInvalidFieldLen int

type_synonym 'm unmarshaler = "byte list \<Rightarrow> 'm \<Rightarrow> (unmarshal_error + 'm) option"
type_synonym 'm field_result = "(unmarshal_error + 'm \<times> int) option"
type_synonym 'm field_reader = "byte list \<Rightarrow> int \<Rightarrow> int \<Rightarrow> int \<Rightarrow> 'm \<Rightarrow> 'm field_result"

text \<open>
  The cases of the \<open>switch\<close>: a wrong wire type is an error, then the value is consumed. \<open>None\<close> is
  a nested unmarshaler that ran out of fuel.
\<close>

definition read_value ::
  "int \<Rightarrow> (byte list \<Rightarrow> int \<Rightarrow> wire_error + 'v \<times> int) \<Rightarrow> ('v \<Rightarrow> 'm) \<Rightarrow> byte list \<Rightarrow> int \<Rightarrow> int \<Rightarrow> 'm field_result" where
  "read_value wanted consume upd buf wireType pos =
     (if wireType \<noteq> wanted then Some (Inl (ErrWrongWireType wireType))
      else case consume buf pos of
             Inl e \<Rightarrow> Some (Inl (WireErr e))
           | Inr (v, pos') \<Rightarrow> Some (Inr (upd v, pos')))"

abbreviation read_varint :: "(u64 \<Rightarrow> 'm) \<Rightarrow> byte list \<Rightarrow> int \<Rightarrow> int \<Rightarrow> 'm field_result" where
  "read_varint \<equiv> read_value 0 ConsumeVarint"

abbreviation read_i64 :: "(u64 \<Rightarrow> 'm) \<Rightarrow> byte list \<Rightarrow> int \<Rightarrow> int \<Rightarrow> 'm field_result" where
  "read_i64 \<equiv> read_value 1 ConsumeI64"

abbreviation read_i32 :: "(32 word \<Rightarrow> 'm) \<Rightarrow> byte list \<Rightarrow> int \<Rightarrow> int \<Rightarrow> 'm field_result" where
  "read_i32 \<equiv> read_value 5 ConsumeI32"

text \<open>\<open>startPos := pos - length\<close> and the use of \<open>buf[startPos:pos]\<close>.\<close>

definition read_sub ::
  "(byte list \<Rightarrow> (unmarshal_error + 'm) option) \<Rightarrow> byte list \<Rightarrow> int \<Rightarrow> int \<Rightarrow> 'm field_result" where
  "read_sub use buf wireType pos =
     (if wireType \<noteq> 2 then Some (Inl (ErrWrongWireType wireType))
      else case ConsumeLen buf pos of
             Inl e \<Rightarrow> Some (Inl (WireErr e))
           | Inr (len, pos') \<Rightarrow>
               (let startPos = pos' - len
                in if 0 \<le> startPos \<and> startPos \<le> pos' \<and> pos' \<le> int (length buf)
                   then case use (take (nat len) (drop (nat startPos) buf)) of
                          None \<Rightarrow> None
                        | Some (Inl e) \<Rightarrow> Some (Inl e)
                        | Some (Inr m) \<Rightarrow> Some (Inr (m, pos'))
                   else Some (Inl (WireErr IndexPanic))))"

abbreviation read_bytes :: "(byte list \<Rightarrow> 'm) \<Rightarrow> byte list \<Rightarrow> int \<Rightarrow> int \<Rightarrow> 'm field_result" where
  "read_bytes upd \<equiv> read_sub (\<lambda>s. Some (Inr (upd s)))"

abbreviation read_message :: "'s unmarshaler \<Rightarrow> 's \<Rightarrow> ('s \<Rightarrow> 'm) \<Rightarrow> byte list \<Rightarrow> int \<Rightarrow> int \<Rightarrow> 'm field_result" where
  "read_message unmarshal old upd \<equiv> read_sub (\<lambda>s. map_option (map_sum id upd) (unmarshal s old))"

definition read_unknown :: "'m \<Rightarrow> byte list \<Rightarrow> int \<Rightarrow> int \<Rightarrow> 'm field_result" where
  "read_unknown m buf wireType pos =
     (case ConsumeUnknown buf pos wireType of
        None \<Rightarrow> None
      | Some (Inl e) \<Rightarrow> Some (Inl (WireErr e))
      | Some (Inr pos') \<Rightarrow> Some (Inr (m, pos')))"

fun unmarshal_loop :: "nat \<Rightarrow> 'm field_reader \<Rightarrow> byte list \<Rightarrow> int \<Rightarrow> 'm \<Rightarrow> (unmarshal_error + 'm) option" where
  "unmarshal_loop 0 field buf pos m = None"
| "unmarshal_loop (Suc fuel) field buf pos m =
     (if pos < int (length buf)
      then case ConsumeTag buf pos of
             Inl e \<Rightarrow> Some (Inl (WireErr e))
           | Inr (fieldNum, wireType, pos') \<Rightarrow>
               (case field buf fieldNum wireType pos' m of
                  None \<Rightarrow> None
                | Some (Inl e) \<Rightarrow> Some (Inl e)
                | Some (Inr (m', pos'')) \<Rightarrow> unmarshal_loop fuel field buf pos'' m')
      else Some (Inr m))"

text \<open>Each pass consumes a tag, so the length of the buffer bounds the number of passes.\<close>

definition unmarshal_body :: "'m field_reader \<Rightarrow> 'm unmarshaler" where
  "unmarshal_body field buf m = unmarshal_loop (Suc (length buf)) field buf 0 m"

section \<open>What writers emit\<close>

definition emits :: "writer \<Rightarrow> byte list \<Rightarrow> bool" where
  "emits w bs \<longleftrightarrow> (\<forall>buf pos. int (length bs) \<le> pos \<longrightarrow> pos \<le> int (length buf) \<longrightarrow>
     w (buf, pos) = Inr (take (nat pos - length bs) buf @ bs @ drop (nat pos) buf, pos - int (length bs)))"

definition marshals :: "marshaler \<Rightarrow> byte list \<Rightarrow> bool" where
  "marshals marshal bs \<longleftrightarrow> (\<forall>buf. length bs \<le> length buf \<longrightarrow>
     marshal buf = Inr (take (length buf - length bs) buf @ bs, int (length bs)))"

named_theorems emit \<open>what the writers of the generated code emit\<close>

lemma emitsD:
  "emits w bs \<Longrightarrow> int (length bs) \<le> pos \<Longrightarrow> pos \<le> int (length buf) \<Longrightarrow>
   w (buf, pos) = Inr (take (nat pos - length bs) buf @ bs @ drop (nat pos) buf, pos - int (length bs))"
  by (simp add: emits_def)

lemma emits_byte [emit]: "emits (put_byte t) [t]"
proof -
  have "buf[n - Suc 0 := t] = take (n - Suc 0) buf @ t # drop n buf" if "0 < n" "n \<le> length buf" for n buf
    using that by (simp add: upd_conv_take_nth_drop)
  then show ?thesis by (auto simp: emits_def buf_set_def nat_diff_distrib)
qed

lemma emits_bytes [emit]: "emits (put_bytes s) s"
proof -
  have "take (length buf - nat (pos - int (length s))) s = s" "nat (pos - int (length s)) + length s = nat pos"
    if "int (length s) \<le> pos" "pos \<le> int (length buf)" for pos buf
    using that by (auto simp: nat_diff_distrib)
  then show ?thesis by (auto simp: emits_def Let_def nat_diff_distrib)
qed

lemma emits_varint [emit]: "emits (put_varint v) (varint_bytes v)"
  by (auto simp: emits_def length_varint_bytes EncodeVarint_writes nat_diff_distrib)

lemma length_le_bytes_of [simp]: "length (le_bytes_of n w) = n"
  by (simp add: le_bytes_of_def)

lemma emits_fixed [emit]: "emits (put_fixed n v) (le_bytes_of n v)"
  by (auto simp: emits_def Let_def nat_diff_distrib)

lemma emits_sub [emit]:
  assumes "marshals marshal bs"
  shows "emits (put_sub marshal) (varint_bytes (of_nat (length bs)) @ bs)"
  unfolding emits_def
proof (intro allI impI)
  fix buf :: "byte list" and pos :: int
  let ?l = "length bs" and ?v = "varint_bytes (of_nat (length bs))"
  assume h: "int (length (?v @ bs)) \<le> pos" "pos \<le> int (length buf)"
  let ?n = "nat pos"
  have m: "marshal (take ?n buf) = Inr (take (?n - ?l) buf @ bs, int ?l)"
  proof -
    have "length bs \<le> length (take ?n buf)" using h by simp
    with assms have "marshal (take ?n buf) =
        Inr (take (length (take ?n buf) - ?l) (take ?n buf) @ bs, int ?l)" unfolding marshals_def by blast
    then show ?thesis using h by (simp add: min_absorb2)
  qed
  let ?b = "take (?n - ?l) buf @ bs @ drop ?n buf"
  have lb: "length ?b = length buf" using h by simp
  have e: "put_varint (of_nat ?l) (?b, pos - int ?l) =
    Inr (take (nat (pos - int ?l) - length ?v) ?b @ ?v @ drop (nat (pos - int ?l)) ?b, pos - int ?l - int (length ?v))"
    using h by (intro emitsD [OF emits_varint]) (simp_all add: lb)
  have d: "drop (nat (pos - int ?l)) ?b = bs @ drop ?n buf"
    using h by (simp add: nat_diff_distrib)
  have t: "take (nat (pos - int ?l) - length ?v) ?b = take (?n - length (?v @ bs)) buf"
    using h by (simp add: nat_diff_distrib min_absorb1 add.commute)
  show "put_sub marshal (buf, pos) =
    Inr (take (?n - length (?v @ bs)) buf @ (?v @ bs) @ drop ?n buf, pos - int (length (?v @ bs)))"
    using h m e d t by (simp del: put_varint.simps)
qed

lemma emits_write_all:
  "list_all2 emits ws bss \<Longrightarrow> emits (write_all ws) (concat (rev bss))"
proof (induction ws bss rule: list_all2_induct)
  case Nil
  then show ?case by (simp add: emits_def)
next
  case (Cons w ws bs bss)
  show ?case unfolding emits_def
  proof (intro allI impI)
    fix buf :: "byte list" and pos :: int
    let ?r = "concat (rev bss)"
    assume h: "int (length (concat (rev (bs # bss)))) \<le> pos" "pos \<le> int (length buf)"
    let ?b = "take (nat pos - length bs) buf @ bs @ drop (nat pos) buf" and ?p = "pos - int (length bs)"
    have lb: "length ?b = length buf" using h by simp
    have w: "w (buf, pos) = Inr (?b, ?p)" using h by (intro emitsD [OF Cons(1)]) auto
    have ws: "write_all ws (?b, ?p) = Inr (take (nat ?p - length ?r) ?b @ ?r @ drop (nat ?p) ?b, ?p - int (length ?r))"
      using h lb by (intro emitsD [OF Cons(3)]) auto
    have "drop (nat ?p) ?b = bs @ drop (nat pos) buf" using h by (simp add: nat_diff_distrib)
    moreover have "take (nat ?p - length ?r) ?b = take (nat pos - length (?r @ bs)) buf"
      using h by (simp add: nat_diff_distrib min_absorb1 add.commute)
    ultimately show "write_all (w # ws) (buf, pos) =
        Inr (take (nat pos - length (concat (rev (bs # bss)))) buf @ concat (rev (bs # bss)) @ drop (nat pos) buf,
          pos - int (length (concat (rev (bs # bss)))))"
      using w ws by (simp add: algebra_simps)
  qed
qed

text \<open>A list of writers that emits the bytes of a field.\<close>

definition block_emits :: "writer list \<Rightarrow> byte list \<Rightarrow> bool" where
  "block_emits ws bs \<longleftrightarrow> (\<exists>bss. list_all2 emits ws bss \<and> concat (rev bss) = bs)"

lemma block_emits_Nil [emit]: "block_emits [] []"
  by (simp add: block_emits_def)

lemma block_emits_append [emit]:
  "block_emits ws bs \<Longrightarrow> block_emits ws' bs' \<Longrightarrow> block_emits (ws @ ws') (bs' @ bs)"
  unfolding block_emits_def by (metis concat_append list_all2_appendI rev_append)

lemma block_emits_if [emit]:
  "block_emits ws bs \<Longrightarrow> block_emits (if c then ws else []) (if c then bs else [])"
  by (simp add: block_emits_Nil)

lemma block_emits_single: "emits w bs \<Longrightarrow> block_emits [w] bs"
  by (auto simp: block_emits_def intro!: exI [of _ "[bs]"])

lemma block_emits_Cons: "emits w bs \<Longrightarrow> block_emits ws bs' \<Longrightarrow> block_emits (w # ws) (bs' @ bs)"
  using block_emits_append [OF block_emits_single, of w bs ws bs'] by simp

lemma block_emits_tag: "block_emits (put_tag tag) tag"
proof -
  have "list_all2 emits (map put_byte ts) (map (\<lambda>t. [t]) ts)" for ts
    by (simp add: list_all2_map1 list_all2_map2 list.rel_refl emits_byte)
  then show ?thesis
    unfolding block_emits_def put_tag_def
    by (intro exI [of _ "map (\<lambda>t. [t]) (rev tag)"]) (simp add: rev_map concat_map_singleton)
qed

lemma block_emits_concat:
  "(\<And>x. x \<in> set xs \<Longrightarrow> block_emits (f x) (g x)) \<Longrightarrow>
   block_emits (concat (map f (rev xs))) (concat (map g xs))"
  by (induction xs) (auto intro: block_emits_append block_emits_Nil)

definition string_bytes :: "byte list \<Rightarrow> byte list \<Rightarrow> byte list" where
  "string_bytes tag s = tag @ varint_bytes (of_nat (length s)) @ s"

definition varint_field_bytes :: "byte list \<Rightarrow> u64 \<Rightarrow> byte list" where
  "varint_field_bytes tag v = tag @ varint_bytes v"

definition fixed_bytes :: "byte list \<Rightarrow> nat \<Rightarrow> u64 \<Rightarrow> byte list" where
  "fixed_bytes tag n v = tag @ le_bytes_of n v"

lemma block_emits_blocks [emit]:
  "block_emits (string_block tag s) (string_bytes tag s)"
  "block_emits (varint_block tag v) (varint_field_bytes tag v)"
  "block_emits (fixed_block tag n v) (fixed_bytes tag n v)"
  "marshals marshal bs \<Longrightarrow> block_emits (message_block tag marshal) (string_bytes tag bs)"
proof -
  have "block_emits (string_block tag s) ((tag @ varint_bytes (of_nat (length s))) @ s)"
    unfolding string_block_def
    using block_emits_Cons [OF emits_bytes block_emits_Cons [OF emits_varint block_emits_tag]] by simp
  then show "block_emits (string_block tag s) (string_bytes tag s)" by (simp add: string_bytes_def)
  show "block_emits (varint_block tag v) (varint_field_bytes tag v)"
    unfolding varint_block_def varint_field_bytes_def
    by (rule block_emits_Cons [OF emits_varint block_emits_tag])
  show "block_emits (fixed_block tag n v) (fixed_bytes tag n v)"
    unfolding fixed_block_def fixed_bytes_def by (rule block_emits_Cons [OF emits_fixed block_emits_tag])
  show "block_emits (message_block tag marshal) (string_bytes tag bs)" if "marshals marshal bs"
    unfolding message_block_def string_bytes_def by (rule block_emits_Cons [OF emits_sub [OF that] block_emits_tag])
qed

lemma marshals_body: "block_emits ws bs \<Longrightarrow> marshals (marshal_body ws) bs"
  unfolding marshals_def
proof (intro allI impI)
  fix buf :: "byte list"
  assume "block_emits ws bs" and l: "length bs \<le> length buf"
  then have "emits (write_all ws) bs" unfolding block_emits_def using emits_write_all by blast
  from emitsD [OF this, of "int (length buf)" buf] l
  show "marshal_body ws buf = Inr (take (length buf - length bs) buf @ bs, int (length bs))"
    by (simp add: marshal_body_def)
qed

section \<open>What readers accept\<close>

lemma unmarshal_loop_mono:
  "unmarshal_loop n field buf pos m = Some r \<Longrightarrow> n \<le> n' \<Longrightarrow> unmarshal_loop n' field buf pos m = Some r"
proof (induction n arbitrary: n' pos m)
  case (Suc n)
  then obtain k where "n' = Suc k" "n \<le> k" by (metis Suc_le_D Suc_le_mono)
  with Suc show ?case by (auto split: if_splits sum.splits option.splits prod.splits)
qed simp

definition decodes :: "'m field_reader \<Rightarrow> byte list \<Rightarrow> 'm \<Rightarrow> 'm \<Rightarrow> bool" where
  "decodes field bs m m' \<longleftrightarrow> (\<forall>pre post n r. valid_buf (pre @ bs @ post) \<longrightarrow>
     unmarshal_loop n field (pre @ bs @ post) (int (length pre + length bs)) m' = Some r \<longrightarrow>
     unmarshal_loop (n + length bs) field (pre @ bs @ post) (int (length pre)) m = Some r)"

lemma decodes_Nil: "decodes field [] m m"
  by (simp add: decodes_def)

lemma decodes_append:
  assumes "decodes field b1 m m1" "decodes field b2 m1 m2"
  shows "decodes field (b1 @ b2) m m2"
  unfolding decodes_def
proof (intro allI impI)
  fix pre post n r
  assume v: "valid_buf (pre @ (b1 @ b2) @ post)"
    and l: "unmarshal_loop n field (pre @ (b1 @ b2) @ post) (int (length pre + length (b1 @ b2))) m2 = Some r"
  from assms(2) [unfolded decodes_def, rule_format, of "pre @ b1" post n r] v l
  have "unmarshal_loop (n + length b2) field (pre @ b1 @ b2 @ post) (int (length pre + length b1)) m1 = Some r"
    by (simp add: add_ac)
  from assms(1) [unfolded decodes_def, rule_format, of pre "b2 @ post" _ r, OF _ this] v
  show "unmarshal_loop (n + length (b1 @ b2)) field (pre @ (b1 @ b2) @ post) (int (length pre)) m = Some r"
    by (simp add: add_ac)
qed

lemma decodes_unmarshal:
  "decodes field bs m m' \<Longrightarrow> valid_buf bs \<Longrightarrow> length bs < n \<Longrightarrow> unmarshal_loop n field bs 0 m = Some (Inr m')"
  using decodes_def [of field bs m m', THEN iffD1, rule_format, of "[]" "[]" 1 "Inr m'"]
    unmarshal_loop_mono [of "1 + length bs" field bs 0 m "Inr m'" n] by simp

lemma decodes_if:
  "(c \<Longrightarrow> decodes field bs m m') \<Longrightarrow> (\<not> c \<Longrightarrow> m' = m) \<Longrightarrow> decodes field (if c then bs else []) m m'"
  by (simp add: decodes_Nil)

lemma decodes_repeated:
  assumes "\<And>x acc. x \<in> set xs \<Longrightarrow> decodes field (enc x) (upd acc) (upd (acc @ [x]))"
  shows "decodes field (concat (map enc xs)) (upd acc) (upd (acc @ xs))"
  using assms
proof (induction xs arbitrary: acc)
  case (Cons x xs)
  have "decodes field (enc x) (upd acc) (upd (acc @ [x]))" by (rule Cons.prems) simp
  moreover have "decodes field (concat (map enc xs)) (upd (acc @ [x])) (upd ((acc @ [x]) @ xs))"
    by (rule Cons.IH) (rule Cons.prems, simp)
  ultimately show ?case using decodes_append by fastforce
qed (simp add: decodes_Nil)

lemma decodes_chunk:
  assumes "bs \<noteq> []" and "\<And>pre post. valid_buf (pre @ bs @ post) \<Longrightarrow>
    \<exists>fn wt p. ConsumeTag (pre @ bs @ post) (int (length pre)) = Inr (fn, wt, p) \<and>
      field (pre @ bs @ post) fn wt p m = Some (Inr (m', int (length pre + length bs)))"
  shows "decodes field bs m m'"
  unfolding decodes_def
proof (intro allI impI)
  fix pre post n r
  assume v: "valid_buf (pre @ bs @ post)"
    and l: "unmarshal_loop n field (pre @ bs @ post) (int (length pre + length bs)) m' = Some r"
  from assms(2) [OF v] obtain fn wt p where
    "ConsumeTag (pre @ bs @ post) (int (length pre)) = Inr (fn, wt, p)"
    "field (pre @ bs @ post) fn wt p m = Some (Inr (m', int (length pre + length bs)))" by blast
  moreover have "int (length pre) < int (length (pre @ bs @ post))" using assms(1) by (cases bs) simp_all
  ultimately have "unmarshal_loop (Suc n) field (pre @ bs @ post) (int (length pre)) m = Some r"
    using l by (simp del: length_append)
  moreover have "Suc n \<le> n + length bs" using assms(1) by (cases bs) auto
  ultimately show "unmarshal_loop (n + length bs) field (pre @ bs @ post) (int (length pre)) m = Some r"
    by (rule unmarshal_loop_mono)
qed

subsection \<open>Tags and values\<close>

definition is_tag :: "byte list \<Rightarrow> int \<Rightarrow> int \<Rightarrow> bool" where
  "is_tag tag fn wt \<longleftrightarrow>
     (let w = word_of_int (8 * fn + wt) :: u64
      in tag = varint_bytes w \<and> sint (ucast (drop_bit 3 w) :: 32 word) = fn \<and> uint (w AND 0x7) = wt \<and> 0 < fn)"

lemma varint_at:
  "ConsumeVarint (pre @ varint_bytes v @ post) (int (length pre)) = Inr (v, int (length pre + Sov v))"
  using ConsumeVarint_reads [of "int (length pre)" v "pre @ varint_bytes v @ post"]
  by (simp add: length_varint_bytes)

lemma tag_at:
  assumes "is_tag tag fn wt"
  shows "ConsumeTag (pre @ tag @ post) (int (length pre)) = Inr (fn, wt, int (length pre + length tag))"
proof -
  let ?w = "word_of_int (8 * fn + wt) :: u64"
  have t: "tag = varint_bytes ?w" "sint (ucast (drop_bit 3 ?w) :: 32 word) = fn" "uint (?w AND 0x7) = wt" "0 < fn"
    using assms unfolding is_tag_def Let_def by blast+
  have "ConsumeVarint (pre @ tag @ post) (int (length pre)) = Inr (?w, int (length pre + length tag))"
    unfolding t(1) length_varint_bytes by (rule varint_at)
  then show ?thesis using t(2-4) unfolding ConsumeTag_def Let_def by simp
qed

lemma is_tag_nonempty: "is_tag tag fn wt \<Longrightarrow> tag \<noteq> []"
  using Sov_pos length_varint_bytes unfolding is_tag_def Let_def
  by (metis le_zero_eq list.size(3) not_one_le_zero)

lemma valid_buf_append: "valid_buf (xs @ ys) \<Longrightarrow> valid_buf xs \<and> valid_buf ys"
  by (simp add: valid_buf_def)

lemma sint_of_length:
  assumes "valid_buf s"
  shows "sint (of_nat (length s) :: u64) = int (length s)"
proof -
  have "signed_take_bit 63 (int (length s)) = int (length s)"
    using assms by (intro signed_take_bit_int_eq_self) (auto simp: valid_buf_def max_i64_def)
  then show ?thesis by (simp add: signed_of_nat)
qed

lemma len_at:
  assumes "valid_buf (pre @ varint_bytes (of_nat (length s)) @ s @ post)"
  shows "ConsumeLen (pre @ varint_bytes (of_nat (length s)) @ s @ post) (int (length pre)) =
    Inr (int (length s), int (length pre + Sov (of_nat (length s)) + length s))"
proof -
  have v: "valid_buf s" using assms valid_buf_append by blast
  have "int (length pre + Sov (of_nat (length s)) + length s) \<le> max_i64"
    using assms by (simp add: valid_buf_def length_varint_bytes)
  then have "add64 (int (length pre + Sov (of_nat (length s)))) (int (length s)) =
      int (length pre + Sov (of_nat (length s)) + length s)"
    by (simp add: in_i64_nonneg)
  then show ?thesis
    unfolding ConsumeLen_def varint_at by (simp add: sint_of_length [OF v] Let_def length_varint_bytes)
qed

lemma decodes_sub:
  assumes "is_tag tag fn 2" and "\<And>buf p. field buf fn 2 p m = read_sub use buf 2 p"
    and "valid_buf s \<Longrightarrow> use s = Some (Inr m')"
  shows "decodes field (string_bytes tag s) m m'"
proof (rule decodes_chunk)
  show "string_bytes tag s \<noteq> []" using is_tag_nonempty [OF assms(1)] by (simp add: string_bytes_def)
  fix pre post
  let ?v = "varint_bytes (of_nat (length s))"
  assume "valid_buf (pre @ string_bytes tag s @ post)"
  then have v: "valid_buf ((pre @ tag) @ ?v @ s @ post)" by (simp add: string_bytes_def)
  have use: "use s = Some (Inr m')" using assms(3) v valid_buf_append by blast
  have buf: "pre @ string_bytes tag s @ post = (pre @ tag) @ ?v @ s @ post" by (simp add: string_bytes_def)
  have t: "ConsumeTag (pre @ string_bytes tag s @ post) (int (length pre)) = Inr (fn, 2, int (length (pre @ tag)))"
    using tag_at [OF assms(1), of pre "?v @ s @ post"] by (simp add: string_bytes_def)
  have "take (length s) (drop (length (pre @ tag) + Sov (of_nat (length s))) ((pre @ tag) @ ?v @ s @ post)) = s"
    by (simp add: length_varint_bytes)
  moreover have "nat (int (length (pre @ tag) + Sov (of_nat (length s)) + length s) - int (length s)) =
    length (pre @ tag) + Sov (of_nat (length s))" by simp
  ultimately have "read_sub use ((pre @ tag) @ ?v @ s @ post) 2 (int (length (pre @ tag))) =
      Some (Inr (m', int (length pre + length (string_bytes tag s))))"
    unfolding read_sub_def len_at [OF v] sum.case prod.case Let_def nat_int
    by (simp add: use string_bytes_def length_varint_bytes)
  then have "field (pre @ string_bytes tag s @ post) fn 2 (int (length (pre @ tag))) m =
      Some (Inr (m', int (length pre + length (string_bytes tag s))))"
    unfolding buf by (rule trans [OF assms(2)])
  with t show "\<exists>fn wt p. ConsumeTag (pre @ string_bytes tag s @ post) (int (length pre)) = Inr (fn, wt, p) \<and>
      field (pre @ string_bytes tag s @ post) fn wt p m = Some (Inr (m', int (length pre + length (string_bytes tag s))))"
    by blast
qed

lemma decodes_varint:
  assumes "is_tag tag fn 0" and "\<And>buf p. field buf fn 0 p m = read_varint upd buf 0 p"
  shows "decodes field (varint_field_bytes tag v) m (upd v)"
proof (rule decodes_chunk)
  show "varint_field_bytes tag v \<noteq> []" using is_tag_nonempty [OF assms(1)] by (simp add: varint_field_bytes_def)
  fix pre post
  let ?buf = "pre @ varint_field_bytes tag v @ post"
  have t: "ConsumeTag ?buf (int (length pre)) = Inr (fn, 0, int (length (pre @ tag)))"
    using tag_at [OF assms(1), of pre "varint_bytes v @ post"] by (simp add: varint_field_bytes_def)
  have "ConsumeVarint ?buf (int (length (pre @ tag))) = Inr (v, int (length pre + length (varint_field_bytes tag v)))"
    using varint_at [of "pre @ tag" v post] by (simp add: varint_field_bytes_def length_varint_bytes add.assoc)
  with t show "\<exists>fn wt p. ConsumeTag ?buf (int (length pre)) = Inr (fn, wt, p) \<and>
      field ?buf fn wt p m = Some (Inr (upd v, int (length pre + length (varint_field_bytes tag v))))"
    using assms(2) by (simp add: read_value_def)
qed

lemma le_word_le_bytes:
  "le_word (map (\<lambda>i. ucast (drop_bit (8 * i) w)) [k ..< k + n]) = take_bit (8 * n) (drop_bit (8 * k) w)"
proof (induction n arbitrary: k)
  case (Suc n)
  have u: "[k ..< k + Suc n] = k # [Suc k ..< Suc k + n]" by (simp add: upt_rec)
  have "(ucast (ucast (drop_bit (8 * k) w) :: byte) :: u64) OR push_bit 8 (take_bit (8 * n) (drop_bit (8 * Suc k) w)) =
      take_bit (8 * Suc n) (drop_bit (8 * k) w)"
    by (rule bit_word_eqI) (auto simp: bit_simps)
  then show ?case unfolding u using Suc [of "Suc k"] by (simp add: le_word_def)
qed (simp add: le_word_def)

lemma le_word_fixed: "n \<le> 8 \<Longrightarrow> le_word (le_bytes_of n w) = take_bit (8 * n) w"
  using le_word_le_bytes [of w 0 n] by (simp add: le_bytes_of_def)

lemma fixed_at:
  assumes "valid_buf (pre @ le_bytes_of n w @ post)"
  shows "add64 (int (length pre)) (int n) = int (length pre + n)"
    and "take n (drop (length pre) (pre @ le_bytes_of n w @ post)) = le_bytes_of n w"
  using assms by (simp_all add: valid_buf_def in_i64_nonneg)

lemma decodes_fixed64:
  assumes "is_tag tag fn 1" and "\<And>buf p. field buf fn 1 p m = read_i64 upd buf 1 p"
  shows "decodes field (fixed_bytes tag 8 v) m (upd v)"
proof (rule decodes_chunk)
  show "fixed_bytes tag 8 v \<noteq> []" using is_tag_nonempty [OF assms(1)] by (simp add: fixed_bytes_def)
  fix pre post
  let ?buf = "pre @ fixed_bytes tag 8 v @ post"
  assume "valid_buf ?buf"
  then have v: "valid_buf ((pre @ tag) @ le_bytes_of 8 v @ post)" by (simp add: fixed_bytes_def)
  have t: "ConsumeTag ?buf (int (length pre)) = Inr (fn, 1, int (length (pre @ tag)))"
    using tag_at [OF assms(1), of pre "le_bytes_of 8 v @ post"] by (simp add: fixed_bytes_def)
  have "ConsumeI64 ((pre @ tag) @ le_bytes_of 8 v @ post) (int (length (pre @ tag))) =
      Inr (v, int (length pre + length (fixed_bytes tag 8 v)))"
    using fixed_at [OF v] le_word_fixed [of 8 v]
    by (simp add: ConsumeI64_def Let_def fixed_bytes_def take_bit_word_eq_self)
  then show "\<exists>fn wt p. ConsumeTag ?buf (int (length pre)) = Inr (fn, wt, p) \<and>
      field ?buf fn wt p m = Some (Inr (upd v, int (length pre + length (fixed_bytes tag 8 v))))"
    using t assms(2) by (simp add: read_value_def fixed_bytes_def)
qed

lemma decodes_fixed32:
  fixes v :: "32 word"
  assumes "is_tag tag fn 5" and "\<And>buf p. field buf fn 5 p m = read_i32 upd buf 5 p"
  shows "decodes field (fixed_bytes tag 4 (ucast v)) m (upd v)"
proof (rule decodes_chunk)
  let ?f = "fixed_bytes tag 4 (ucast v)"
  show "?f \<noteq> []" using is_tag_nonempty [OF assms(1)] by (simp add: fixed_bytes_def)
  fix pre post
  let ?buf = "pre @ ?f @ post"
  assume "valid_buf ?buf"
  then have v: "valid_buf ((pre @ tag) @ le_bytes_of 4 (ucast v) @ post)" by (simp add: fixed_bytes_def)
  have t: "ConsumeTag ?buf (int (length pre)) = Inr (fn, 5, int (length (pre @ tag)))"
    using tag_at [OF assms(1), of pre "le_bytes_of 4 (ucast v) @ post"] by (simp add: fixed_bytes_def)
  have "(ucast (take_bit 32 (ucast v :: u64)) :: 32 word) = v"
    by (rule bit_word_eqI) (auto simp: bit_simps)
  then have "ConsumeI32 ((pre @ tag) @ le_bytes_of 4 (ucast v) @ post) (int (length (pre @ tag))) =
      Inr (v, int (length pre + length ?f))"
    using fixed_at [OF v] le_word_fixed [of 4 "ucast v"]
    by (simp add: ConsumeI32_def Let_def fixed_bytes_def)
  then show "\<exists>fn wt p. ConsumeTag ?buf (int (length pre)) = Inr (fn, wt, p) \<and>
      field ?buf fn wt p m = Some (Inr (upd v, int (length pre + length ?f)))"
    using t assms(2) by (simp add: read_value_def fixed_bytes_def)
qed

section \<open>Readers do not panic and return\<close>

definition unmarshal_ok :: "(unmarshal_error + 'm) option \<Rightarrow> bool" where
  "unmarshal_ok r \<longleftrightarrow> (\<exists>x. r = Some x \<and> x \<noteq> Inl (WireErr IndexPanic))"

definition field_ok :: "byte list \<Rightarrow> int \<Rightarrow> 'm field_result \<Rightarrow> bool" where
  "field_ok buf pos r \<longleftrightarrow> (\<exists>x. r = Some x \<and> x \<noteq> Inl (WireErr IndexPanic) \<and>
     (\<forall>m p. x = Inr (m, p) \<longrightarrow> pos \<le> p \<and> p \<le> int (length buf)))"

named_theorems reader_ok \<open>readers that return without a panic\<close>

lemma unmarshal_ok_Inr [reader_ok]: "unmarshal_ok (Some (Inr m))"
  by (simp add: unmarshal_ok_def)

lemma unmarshal_ok_map [reader_ok]: "unmarshal_ok r \<Longrightarrow> unmarshal_ok (map_option (map_sum id f) r)"
proof -
  assume "unmarshal_ok r"
  then obtain x where "r = Some x" "x \<noteq> Inl (WireErr IndexPanic)" by (auto simp: unmarshal_ok_def)
  then show ?thesis by (cases x) (simp_all add: unmarshal_ok_def)
qed

lemma field_ok_if [reader_ok]:
  "(c \<Longrightarrow> field_ok buf pos r) \<Longrightarrow> (\<not> c \<Longrightarrow> field_ok buf pos r') \<Longrightarrow> field_ok buf pos (if c then r else r')"
  by simp

lemma field_ok_value:
  assumes "wire_reader consume" "valid_buf buf" "0 \<le> pos" "pos \<le> int (length buf)"
  shows "field_ok buf pos (read_value wanted consume upd buf wt pos)"
proof -
  have "valid_pos pos" using valid_pos_le assms(2-4) .
  from wire_reader.advances [OF assms(1,2) this] wire_reader.safe [OF assms(1,2) this]
  show ?thesis by (fastforce simp: field_ok_def read_value_def split: sum.splits)
qed

lemmas field_ok_values [reader_ok] =
  field_ok_value [OF varint_reader.wire_reader_axioms]
  field_ok_value [OF i64_reader.wire_reader_axioms]
  field_ok_value [OF i32_reader.wire_reader_axioms]

lemma ConsumeLen_bounds:
  assumes "valid_buf buf" "valid_pos pos" "ConsumeLen buf pos = Inr (len, p)"
  shows "pos < p - len" "0 \<le> len" "p \<le> int (length buf)"
proof -
  obtain num p1 where v: "ConsumeVarint buf pos = Inr (num, p1)"
    using assms(3) by (cases "ConsumeVarint buf pos") (auto simp: ConsumeLen_def)
  have p1: "pos < p1" "p1 \<le> int (length buf)" using varint_reader.advances [OF assms(1,2) v] by auto
  have r: "0 \<le> len" "len = sint num" "p = add64 p1 len" "0 \<le> p" "p \<le> int (length buf)"
    using assms(3) v by (auto simp: ConsumeLen_def Let_def split: if_splits)
  have "p = p1 + len"
    using r p1 assms(1,2) sint_u64_le_max [of num]
    by (subst r(3)) (rule add64_small [of buf], auto simp: valid_buf_def valid_pos_def)
  with r p1 show "pos < p - len" "0 \<le> len" "p \<le> int (length buf)" by auto
qed

lemma field_ok_sub [reader_ok]:
  assumes "\<And>s. length s < length buf \<Longrightarrow> valid_buf s \<Longrightarrow> unmarshal_ok (use s)"
    and v: "valid_buf buf" "0 \<le> pos" "pos \<le> int (length buf)"
  shows "field_ok buf pos (read_sub use buf wt pos)"
proof (cases "wt = 2")
  case True
  have vp: "valid_pos pos" using valid_pos_le v .
  show ?thesis
  proof (cases "ConsumeLen buf pos")
    case (Inl e)
    then show ?thesis using True len_reader.safe [OF v(1) vp] by (simp add: field_ok_def read_sub_def)
  next
    case (Inr lp)
    then obtain len p where c: "ConsumeLen buf pos = Inr (len, p)" by (cases lp) auto
    note b = ConsumeLen_bounds [OF v(1) vp c]
    let ?s = "take (nat len) (drop (nat (p - len)) buf)"
    have "length ?s < length buf" "valid_buf ?s" using b v(1,2) by (auto simp: valid_buf_def)
    from assms(1) [OF this] obtain x where "use ?s = Some x" "x \<noteq> Inl (WireErr IndexPanic)"
      by (auto simp: unmarshal_ok_def)
    then show ?thesis using True c b v(2)
      by (cases x) (auto simp: field_ok_def read_sub_def Let_def)
  qed
next
  case False
  then show ?thesis by (simp add: field_ok_def read_sub_def)
qed

lemma field_ok_unknown [reader_ok]:
  assumes "valid_buf buf" "0 \<le> pos" "pos \<le> int (length buf)"
  shows "field_ok buf pos (read_unknown m buf wt pos)"
proof -
  have "valid_pos pos" using valid_pos_le assms .
  from consume_unknown_enough [OF assms(1) this, of "Suc (nat (int (length buf) - pos))" wt 0]
  obtain r where "ConsumeUnknown buf pos wt = Some r" "skip_result_ok buf pos r"
    by (auto simp: ConsumeUnknown_def)
  then show ?thesis by (cases r) (auto simp: field_ok_def read_unknown_def skip_result_ok_def)
qed

lemma unmarshal_loop_ok:
  assumes "\<And>fn wt p m. 0 \<le> p \<Longrightarrow> p \<le> int (length buf) \<Longrightarrow> field_ok buf p (field buf fn wt p m)"
    and "valid_buf buf" "0 \<le> pos" "pos \<le> int (length buf)" "nat (int (length buf) - pos) < n"
  shows "unmarshal_ok (unmarshal_loop n field buf pos m)"
  using assms(3-5)
proof (induction n arbitrary: pos m)
  case (Suc n)
  show ?case
  proof (cases "pos < int (length buf)")
    case True
    have vp: "valid_pos pos" using valid_pos_le assms(2) Suc.prems(1,2) .
    show ?thesis
    proof (cases "ConsumeTag buf pos")
      case (Inl e)
      then show ?thesis using ConsumeTag_safe [OF assms(2) vp] True by (simp add: unmarshal_ok_def)
    next
      case (Inr t)
      then obtain fn wt p where t: "ConsumeTag buf pos = Inr (fn, wt, p)" by (cases t) auto
      have p: "pos < p" "p \<le> int (length buf)" using ConsumeTag_advances [OF assms(2) vp t] by auto
      obtain x where x: "field buf fn wt p m = Some x" "x \<noteq> Inl (WireErr IndexPanic)"
        "\<And>m' p'. x = Inr (m', p') \<Longrightarrow> p \<le> p' \<and> p' \<le> int (length buf)"
        using assms(1) [of p fn wt m] p Suc.prems(1) by (auto simp: field_ok_def)
      show ?thesis
      proof (cases x)
        case (Inl e)
        then show ?thesis using True t x by (simp add: unmarshal_ok_def)
      next
        case (Inr mp)
        then obtain m' p' where mp: "x = Inr (m', p')" by (cases mp) auto
        have "unmarshal_ok (unmarshal_loop n field buf p' m')"
          using x(3) [OF mp] p Suc.prems by (intro Suc.IH) auto
        then show ?thesis using True t x(1) mp by simp
      qed
    qed
  qed (simp add: unmarshal_ok_def)
qed simp

section \<open>The contract of a message\<close>

locale proto_message =
  fixes SizeProto :: "'m \<Rightarrow> nat" and MarshalProto :: "'m \<Rightarrow> marshaler" and UnmarshalProto :: "'m unmarshaler"
    and zero :: 'm and encode :: "'m \<Rightarrow> byte list" and wf :: "'m \<Rightarrow> bool"
  assumes size: "wf m \<Longrightarrow> SizeProto m = length (encode m)"
    and marshal: "wf m \<Longrightarrow> marshals (MarshalProto m) (encode m)"
    and unmarshal: "wf m \<Longrightarrow> valid_buf (encode m) \<Longrightarrow> UnmarshalProto (encode m) zero = Some (Inr m)"
    and ok: "valid_buf buf \<Longrightarrow> unmarshal_ok (UnmarshalProto buf m)"
begin

lemma roundtrip:
  assumes "wf m" "int (SizeProto m) \<le> max_i64" "length buf = SizeProto m"
  shows "\<exists>buf'. MarshalProto m buf = Inr (buf', int (SizeProto m)) \<and> length buf' = SizeProto m \<and>
    UnmarshalProto buf' zero = Some (Inr m)"
proof -
  have "MarshalProto m buf = Inr (encode m, int (SizeProto m))"
    using marshal [of m] assms(1,3) by (simp add: marshals_def size)
  moreover have "UnmarshalProto (encode m) zero = Some (Inr m)"
    using assms(1,2) by (intro unmarshal) (simp_all add: valid_buf_def size)
  ultimately show ?thesis using size [of m] assms(1) by auto
qed

lemma block [emit]: "wf m \<Longrightarrow> block_emits (message_block tag (MarshalProto m)) (string_bytes tag (encode m))"
  by (rule block_emits_blocks(4) [OF marshal])

lemma decodes_message:
  assumes "is_tag tag fn 2" and "\<And>buf p. field buf fn 2 p x = read_message UnmarshalProto zero upd buf 2 p" and "wf m"
  shows "decodes field (string_bytes tag (encode m)) x (upd m)"
  by (rule decodes_sub [where field = field and fn = fn and m = x and use = "\<lambda>s. map_option (map_sum id upd) (UnmarshalProto s zero)"])
    (simp_all add: assms unmarshal)

lemma ok_message [reader_ok]:
  "valid_buf buf \<Longrightarrow> 0 \<le> pos \<Longrightarrow> pos \<le> int (length buf) \<Longrightarrow>
   field_ok buf pos (read_message UnmarshalProto old upd buf wt pos)"
  by (intro field_ok_sub unmarshal_ok_map ok)

lemma ok_unmarshal [reader_ok]: "valid_buf buf \<Longrightarrow> unmarshal_ok (UnmarshalProto buf m)"
  by (rule ok)

lemma repeated_block [emit]:
  "list_all wf xs \<Longrightarrow> block_emits (concat (map (\<lambda>v. message_block tag (MarshalProto v)) (rev xs)))
     (concat (map (\<lambda>v. string_bytes tag (encode v)) xs))"
  by (intro block_emits_concat block) (simp add: list_all_iff)

lemma decodes_repeated_message:
  assumes "is_tag tag fn 2"
    and "\<And>buf p acc. field buf fn 2 p (upd acc) = read_message UnmarshalProto zero (\<lambda>v. upd (acc @ [v])) buf 2 p"
    and "list_all wf xs" and "upd [] = x"
  shows "decodes field (concat (map (\<lambda>v. string_bytes tag (encode v)) xs)) x (upd xs)"
proof -
  have "decodes field (string_bytes tag (encode v)) (upd acc) (upd (acc @ [v]))" if "v \<in> set xs" for v acc
    using assms(3) that
    by (intro decodes_message [where field = field and fn = fn and upd = "\<lambda>v. upd (acc @ [v])"] assms(1,2))
      (simp add: list_all_iff)
  from decodes_repeated [of xs field "\<lambda>v. string_bytes tag (encode v)" upd "[]", OF this] assms(4)
  show ?thesis by simp
qed

lemma repeated_size:
  "list_all wf xs \<Longrightarrow> length (concat (map (\<lambda>v. string_bytes tag (encode v)) xs)) =
     sum_list (map (\<lambda>v. len_size (length tag) (SizeProto v)) xs)"
  by (induction xs) (auto simp: size string_bytes_def length_varint_bytes)

lemma optional_block [emit]:
  "pred_option wf x \<Longrightarrow> block_emits (case x of None \<Rightarrow> [] | Some d \<Rightarrow> message_block tag (MarshalProto d))
     (case x of None \<Rightarrow> [] | Some d \<Rightarrow> string_bytes tag (encode d))"
  by (cases x) (simp_all add: block block_emits_Nil)

lemma optional_size:
  "pred_option wf x \<Longrightarrow> length (case x of None \<Rightarrow> [] | Some d \<Rightarrow> string_bytes tag (encode d)) =
     (case x of None \<Rightarrow> 0 | Some d \<Rightarrow> len_size (length tag) (SizeProto d))"
  by (cases x) (simp_all add: size string_bytes_def length_varint_bytes)

lemma decodes_optional_message:
  assumes "is_tag tag fn 2"
    and "\<And>buf p. field buf fn 2 p m = read_message UnmarshalProto zero (\<lambda>v. upd (Some v)) buf 2 p"
    and "pred_option wf x" and "upd None = m"
  shows "decodes field (case x of None \<Rightarrow> [] | Some d \<Rightarrow> string_bytes tag (encode d)) m (upd x)"
proof (cases x)
  case (Some d)
  with assms(3) have "wf d" by simp
  with decodes_message [where field = field and upd = "\<lambda>v. upd (Some v)", OF assms(1,2)] Some show ?thesis by simp
qed (simp add: assms(4) decodes_Nil)

lemma field_size: "wf m \<Longrightarrow> length (string_bytes tag (encode m)) = length tag + Sov (of_nat (SizeProto m)) + SizeProto m"
  by (simp add: string_bytes_def size length_varint_bytes)

end

section \<open>Fields of scalar type\<close>

lemma length_if_Nil: "length (if c then bs else []) = (if c then length bs else 0)"
  by simp

lemma decodes_opt_string:
  assumes "is_tag tag fn 2" "\<And>buf p. field buf fn 2 p m = read_bytes upd buf 2 p" "upd [] = m"
  shows "decodes field (if length s > 0 then string_bytes tag s else []) m (upd s)"
  using assms by (intro decodes_if decodes_sub [where fn = fn and use = "\<lambda>s. Some (Inr (upd s))"]) auto

lemma decodes_opt_varint:
  assumes "is_tag tag fn 0" "\<And>buf p. field buf fn 0 p m = read_varint (\<lambda>n. upd (dec n)) buf 0 p"
    "dec (enc v) = v" "upd 0 = m"
  shows "decodes field (if v \<noteq> 0 then varint_field_bytes tag (enc v) else []) m (upd v)"
proof (rule decodes_if)
  show "decodes field (varint_field_bytes tag (enc v)) m (upd v)"
    using decodes_varint [where field = field and fn = fn and upd = "\<lambda>n. upd (dec n)" and v = "enc v", OF assms(1,2)]
    by (simp add: assms(3))
qed (use assms(4) in auto)

lemma decodes_opt_fixed64:
  assumes "is_tag tag fn 1" "\<And>buf p. field buf fn 1 p m = read_i64 upd buf 1 p" "upd 0 = m"
  shows "decodes field (if v \<noteq> 0 then fixed_bytes tag 8 v else []) m (upd v)"
  using assms by (intro decodes_if decodes_fixed64) auto

lemma decodes_opt_fixed32:
  assumes "is_tag tag fn 5" "\<And>buf p. field buf fn 5 p m = read_i32 upd buf 5 p" "upd 0 = m"
  shows "decodes field (if v \<noteq> 0 then fixed_bytes tag 4 (ucast v) else []) m (upd v)"
  using assms by (intro decodes_if decodes_fixed32) auto

lemma decodes_repeated_string:
  assumes "is_tag tag fn 2"
    and "\<And>buf p acc. field buf fn 2 p (upd acc) = read_bytes (\<lambda>s. upd (acc @ [s])) buf 2 p" and "upd [] = m"
  shows "decodes field (concat (map (string_bytes tag) xs)) m (upd xs)"
proof -
  have "decodes field (string_bytes tag s) (upd acc) (upd (acc @ [s]))" for s acc
    by (rule decodes_sub [where fn = fn and use = "\<lambda>s. Some (Inr (upd (acc @ [s])))"]) (simp_all add: assms)
  from decodes_repeated [of xs field "string_bytes tag" upd "[]", OF this] assms(3)
  show ?thesis by simp
qed

lemma repeated_string_block [emit]:
  "block_emits (concat (map (string_block tag) (rev xs))) (concat (map (string_bytes tag) xs))"
  by (intro block_emits_concat block_emits_blocks)

lemma repeated_string_size:
  "length (concat (map (string_bytes tag) xs)) = sum_list (map (\<lambda>s. len_size (length tag) (length s)) xs)"
  by (induction xs) (auto simp: string_bytes_def length_varint_bytes)

lemma not_128_le_1 [simp]: "\<not> (128 :: u64) \<le> 1"
  by (simp add: word_le_nat_alt)

lemma Sov_small: "v < 128 \<Longrightarrow> Sov v = 1"
  by (simp add: Sov_groups7 groups7.simps word_less_nat_alt)

lemma ucast_ucast_32: "ucast (ucast (i :: 32 word) :: u64) = i"
  by (rule bit_word_eqI) (auto simp: bit_simps)

lemma ucast_scast_32: "ucast (scast (i :: 32 word) :: u64) = i"
  by (rule bit_word_eqI) (auto simp: bit_simps)

lemma unmarshal_body_ok:
  assumes "\<And>fn wt p m. 0 \<le> p \<Longrightarrow> p \<le> int (length buf) \<Longrightarrow> field_ok buf p (field buf fn wt p m)" "valid_buf buf"
  shows "unmarshal_ok (unmarshal_body field buf m)"
  unfolding unmarshal_body_def using assms by (intro unmarshal_loop_ok) auto

lemma unmarshal_body_decodes:
  "decodes field bs m m' \<Longrightarrow> valid_buf bs \<Longrightarrow> unmarshal_body field bs m = Some (Inr m')"
  unfolding unmarshal_body_def by (rule decodes_unmarshal) auto

lemma field_sizes:
  "length (string_bytes tag s) = length tag + Sov (of_nat (length s)) + length s"
  "length (varint_field_bytes tag v) = length tag + Sov v"
  "length (fixed_bytes tag n v) = length tag + n"
  by (simp_all add: string_bytes_def varint_field_bytes_def fixed_bytes_def length_varint_bytes)

end
