(* ===== verification/ProtoValues.thy ===== *)
theory ProtoValues
  imports ProtoCodec
begin

text \<open>
  The recursive value messages of pdata/internal: \<open>AnyValue\<close>, \<open>ArrayValue\<close>, \<open>KeyValueList\<close> and
  \<open>KeyValue\<close> (generated\_proto\_anyvalue.go and its siblings), and the trace and span identifiers
  (traceid.go, spanid.go). Strings and byte slices are lists of bytes, \<open>int64\<close> and \<open>float64\<close> values
  their 64 bits, a pointer that may be nil an option. The feature gate that pools the message
  objects does not change what is decoded and is left out.
\<close>

section \<open>Messages\<close>

datatype AnyValue =
    AnyValue_nil
  | AnyValue_StringValue "byte list"
  | AnyValue_BoolValue bool
  | AnyValue_IntValue u64
  | AnyValue_DoubleValue u64
  | AnyValue_ArrayValue "ArrayValue option"
  | AnyValue_KvlistValue "KeyValueList option"
  | AnyValue_BytesValue "byte list"
  | AnyValue_StringValueStrindex "32 word"
and ArrayValue = ArrayValue "AnyValue list"
and KeyValueList = KeyValueList "KeyValue list"
and KeyValue = KeyValue AnyValue "byte list" "32 word"

section \<open>Sizes\<close>

fun AnyValue_SizeProto :: "AnyValue \<Rightarrow> nat" and ArrayValue_SizeProto :: "ArrayValue \<Rightarrow> nat"
  and KeyValueList_SizeProto :: "KeyValueList \<Rightarrow> nat" and KeyValue_SizeProto :: "KeyValue \<Rightarrow> nat" where
  "AnyValue_SizeProto AnyValue_nil = 0"
| "AnyValue_SizeProto (AnyValue_StringValue s) = len_size 1 (length s)"
| "AnyValue_SizeProto (AnyValue_BoolValue b) = 2"
| "AnyValue_SizeProto (AnyValue_IntValue i) = 1 + Sov i"
| "AnyValue_SizeProto (AnyValue_DoubleValue d) = 9"
| "AnyValue_SizeProto (AnyValue_ArrayValue a) =
     (case a of None \<Rightarrow> 0 | Some v \<Rightarrow> len_size 1 (ArrayValue_SizeProto v))"
| "AnyValue_SizeProto (AnyValue_KvlistValue a) =
     (case a of None \<Rightarrow> 0 | Some v \<Rightarrow> len_size 1 (KeyValueList_SizeProto v))"
| "AnyValue_SizeProto (AnyValue_BytesValue s) = len_size 1 (length s)"
| "AnyValue_SizeProto (AnyValue_StringValueStrindex i) = 1 + Sov (scast i)"
| "ArrayValue_SizeProto (ArrayValue vs) = sum_list (map (\<lambda>v. len_size 1 (AnyValue_SizeProto v)) vs)"
| "KeyValueList_SizeProto (KeyValueList vs) = sum_list (map (\<lambda>v. len_size 1 (KeyValue_SizeProto v)) vs)"
| "KeyValue_SizeProto (KeyValue v k i) =
     (if length k > 0 then len_size 1 (length k) else 0)
     + len_size 1 (AnyValue_SizeProto v)
     + (if i \<noteq> 0 then 1 + Sov (scast i) else 0)"

section \<open>Marshaling\<close>

fun AnyValue_MarshalProto :: "AnyValue \<Rightarrow> marshaler" and ArrayValue_MarshalProto :: "ArrayValue \<Rightarrow> marshaler"
  and KeyValueList_MarshalProto :: "KeyValueList \<Rightarrow> marshaler" and KeyValue_MarshalProto :: "KeyValue \<Rightarrow> marshaler" where
  "AnyValue_MarshalProto AnyValue_nil = marshal_body []"
| "AnyValue_MarshalProto (AnyValue_StringValue s) = marshal_body (string_block [0x0a] s)"
| "AnyValue_MarshalProto (AnyValue_BoolValue b) = marshal_body (put_byte (if b then 1 else 0) # put_tag [0x10])"
| "AnyValue_MarshalProto (AnyValue_IntValue i) = marshal_body (varint_block [0x18] i)"
| "AnyValue_MarshalProto (AnyValue_DoubleValue d) = marshal_body (fixed_block [0x21] 8 d)"
| "AnyValue_MarshalProto (AnyValue_ArrayValue a) =
     marshal_body (case a of None \<Rightarrow> [] | Some v \<Rightarrow> message_block [0x2a] (ArrayValue_MarshalProto v))"
| "AnyValue_MarshalProto (AnyValue_KvlistValue a) =
     marshal_body (case a of None \<Rightarrow> [] | Some v \<Rightarrow> message_block [0x32] (KeyValueList_MarshalProto v))"
| "AnyValue_MarshalProto (AnyValue_BytesValue s) = marshal_body (string_block [0x3a] s)"
| "AnyValue_MarshalProto (AnyValue_StringValueStrindex i) = marshal_body (varint_block [0x40] (scast i))"
| "ArrayValue_MarshalProto (ArrayValue vs) =
     marshal_body (concat (map (\<lambda>v. message_block [0x0a] (AnyValue_MarshalProto v)) (rev vs)))"
| "KeyValueList_MarshalProto (KeyValueList vs) =
     marshal_body (concat (map (\<lambda>v. message_block [0x0a] (KeyValue_MarshalProto v)) (rev vs)))"
| "KeyValue_MarshalProto (KeyValue v k i) =
     marshal_body
       ((if length k > 0 then string_block [0x0a] k else [])
        @ message_block [0x12] (AnyValue_MarshalProto v)
        @ (if i \<noteq> 0 then varint_block [0x18] (scast i) else []))"

section \<open>Unmarshaling\<close>

definition AnyValue_field :: "ArrayValue unmarshaler \<Rightarrow> KeyValueList unmarshaler \<Rightarrow> AnyValue field_reader" where
  "AnyValue_field array kvlist buf fieldNum wireType pos orig =
     (if fieldNum = 1 then read_bytes AnyValue_StringValue buf wireType pos
      else if fieldNum = 2 then read_varint (\<lambda>num. AnyValue_BoolValue (num \<noteq> 0)) buf wireType pos
      else if fieldNum = 3 then read_varint AnyValue_IntValue buf wireType pos
      else if fieldNum = 4 then read_i64 AnyValue_DoubleValue buf wireType pos
      else if fieldNum = 5 then read_message array (ArrayValue []) (\<lambda>v. AnyValue_ArrayValue (Some v)) buf wireType pos
      else if fieldNum = 6 then read_message kvlist (KeyValueList []) (\<lambda>v. AnyValue_KvlistValue (Some v)) buf wireType pos
      else if fieldNum = 7 then read_bytes AnyValue_BytesValue buf wireType pos
      else if fieldNum = 8 then read_varint (\<lambda>num. AnyValue_StringValueStrindex (ucast num)) buf wireType pos
      else read_unknown orig buf wireType pos)"

fun ArrayValue_field :: "AnyValue unmarshaler \<Rightarrow> ArrayValue field_reader" where
  "ArrayValue_field value buf fieldNum wireType pos (ArrayValue vs) =
     (if fieldNum = 1 then read_message value AnyValue_nil (\<lambda>v. ArrayValue (vs @ [v])) buf wireType pos
      else read_unknown (ArrayValue vs) buf wireType pos)"

definition KeyValue_zero :: KeyValue where
  "KeyValue_zero = KeyValue AnyValue_nil [] 0"

fun KeyValueList_field :: "KeyValue unmarshaler \<Rightarrow> KeyValueList field_reader" where
  "KeyValueList_field keyvalue buf fieldNum wireType pos (KeyValueList vs) =
     (if fieldNum = 1 then read_message keyvalue KeyValue_zero (\<lambda>v. KeyValueList (vs @ [v])) buf wireType pos
      else read_unknown (KeyValueList vs) buf wireType pos)"

fun KeyValue_field :: "AnyValue unmarshaler \<Rightarrow> KeyValue field_reader" where
  "KeyValue_field value buf fieldNum wireType pos (KeyValue v k i) =
     (if fieldNum = 1 then read_bytes (\<lambda>s. KeyValue v s i) buf wireType pos
      else if fieldNum = 2 then read_message value v (\<lambda>v'. KeyValue v' k i) buf wireType pos
      else if fieldNum = 3 then read_varint (\<lambda>num. KeyValue v k (ucast num)) buf wireType pos
      else read_unknown (KeyValue v k i) buf wireType pos)"

text \<open>The messages call each other; the first argument bounds the nesting.\<close>

fun AnyValue_unmarshal :: "nat \<Rightarrow> AnyValue unmarshaler" and ArrayValue_unmarshal :: "nat \<Rightarrow> ArrayValue unmarshaler"
  and KeyValueList_unmarshal :: "nat \<Rightarrow> KeyValueList unmarshaler" and KeyValue_unmarshal :: "nat \<Rightarrow> KeyValue unmarshaler" where
  "AnyValue_unmarshal 0 = (\<lambda>buf m. None)"
| "AnyValue_unmarshal (Suc d) = unmarshal_body (AnyValue_field (ArrayValue_unmarshal d) (KeyValueList_unmarshal d))"
| "ArrayValue_unmarshal 0 = (\<lambda>buf m. None)"
| "ArrayValue_unmarshal (Suc d) = unmarshal_body (ArrayValue_field (AnyValue_unmarshal d))"
| "KeyValueList_unmarshal 0 = (\<lambda>buf m. None)"
| "KeyValueList_unmarshal (Suc d) = unmarshal_body (KeyValueList_field (KeyValue_unmarshal d))"
| "KeyValue_unmarshal 0 = (\<lambda>buf m. None)"
| "KeyValue_unmarshal (Suc d) = unmarshal_body (KeyValue_field (AnyValue_unmarshal d))"

text \<open>A nested message is shorter than its parent, so the length of the buffer is enough.\<close>

definition AnyValue_UnmarshalProto :: "AnyValue unmarshaler" where
  "AnyValue_UnmarshalProto buf = AnyValue_unmarshal (Suc (length buf)) buf"

definition ArrayValue_UnmarshalProto :: "ArrayValue unmarshaler" where
  "ArrayValue_UnmarshalProto buf = ArrayValue_unmarshal (Suc (length buf)) buf"

definition KeyValueList_UnmarshalProto :: "KeyValueList unmarshaler" where
  "KeyValueList_UnmarshalProto buf = KeyValueList_unmarshal (Suc (length buf)) buf"

definition KeyValue_UnmarshalProto :: "KeyValue unmarshaler" where
  "KeyValue_UnmarshalProto buf = KeyValue_unmarshal (Suc (length buf)) buf"

section \<open>The bytes of a value\<close>

fun AnyValue_bytes :: "AnyValue \<Rightarrow> byte list" and ArrayValue_bytes :: "ArrayValue \<Rightarrow> byte list"
  and KeyValueList_bytes :: "KeyValueList \<Rightarrow> byte list" and KeyValue_bytes :: "KeyValue \<Rightarrow> byte list" where
  "AnyValue_bytes AnyValue_nil = []"
| "AnyValue_bytes (AnyValue_StringValue s) = string_bytes [0x0a] s"
| "AnyValue_bytes (AnyValue_BoolValue b) = varint_field_bytes [0x10] (if b then 1 else 0)"
| "AnyValue_bytes (AnyValue_IntValue i) = varint_field_bytes [0x18] i"
| "AnyValue_bytes (AnyValue_DoubleValue d) = fixed_bytes [0x21] 8 d"
| "AnyValue_bytes (AnyValue_ArrayValue a) =
     (case a of None \<Rightarrow> [] | Some v \<Rightarrow> string_bytes [0x2a] (ArrayValue_bytes v))"
| "AnyValue_bytes (AnyValue_KvlistValue a) =
     (case a of None \<Rightarrow> [] | Some v \<Rightarrow> string_bytes [0x32] (KeyValueList_bytes v))"
| "AnyValue_bytes (AnyValue_BytesValue s) = string_bytes [0x3a] s"
| "AnyValue_bytes (AnyValue_StringValueStrindex i) = varint_field_bytes [0x40] (scast i)"
| "ArrayValue_bytes (ArrayValue vs) = concat (map (\<lambda>v. string_bytes [0x0a] (AnyValue_bytes v)) vs)"
| "KeyValueList_bytes (KeyValueList vs) = concat (map (\<lambda>v. string_bytes [0x0a] (KeyValue_bytes v)) vs)"
| "KeyValue_bytes (KeyValue v k i) =
     ((if i \<noteq> 0 then varint_field_bytes [0x18] (scast i) else [])
      @ string_bytes [0x12] (AnyValue_bytes v))
      @ (if length k > 0 then string_bytes [0x0a] k else [])"

text \<open>The oneof wrappers of the pdata API never hold a nil list.\<close>

fun AnyValue_wf :: "AnyValue \<Rightarrow> bool" and ArrayValue_wf :: "ArrayValue \<Rightarrow> bool"
  and KeyValueList_wf :: "KeyValueList \<Rightarrow> bool" and KeyValue_wf :: "KeyValue \<Rightarrow> bool" where
  "AnyValue_wf (AnyValue_ArrayValue a) = (case a of None \<Rightarrow> False | Some v \<Rightarrow> ArrayValue_wf v)"
| "AnyValue_wf (AnyValue_KvlistValue a) = (case a of None \<Rightarrow> False | Some v \<Rightarrow> KeyValueList_wf v)"
| "AnyValue_wf _ = True"
| "ArrayValue_wf (ArrayValue vs) = list_all AnyValue_wf vs"
| "KeyValueList_wf (KeyValueList vs) = list_all KeyValue_wf vs"
| "KeyValue_wf (KeyValue v k i) = AnyValue_wf v"

section \<open>Sizes and marshaling are exact\<close>

lemma values_size:
  "AnyValue_SizeProto v = length (AnyValue_bytes v)"
  "ArrayValue_SizeProto a = length (ArrayValue_bytes a)"
  "KeyValueList_SizeProto l = length (KeyValueList_bytes l)"
  "KeyValue_SizeProto kv = length (KeyValue_bytes kv)"
proof (induction v and a and l and kv)
  case (AnyValue_BoolValue b)
  have "Sov 0 = 1" "Sov 1 = 1" by (simp_all add: Sov_groups7 groups7.simps)
  then show ?case by (simp add: field_sizes)
qed (auto simp: field_sizes length_concat o_def split: option.splits intro!: arg_cong [of _ _ sum_list])

lemma bool_bytes: "varint_bytes (if b then 1 else 0) = [if b then 1 else 0]"
  by (cases b) (simp_all add: varint_bytes.simps word_le_nat_alt)

lemma values_marshal:
  "marshals (AnyValue_MarshalProto v) (AnyValue_bytes v)"
  "marshals (ArrayValue_MarshalProto a) (ArrayValue_bytes a)"
  "marshals (KeyValueList_MarshalProto l) (KeyValueList_bytes l)"
  "marshals (KeyValue_MarshalProto kv) (KeyValue_bytes kv)"
proof (induction v and a and l and kv)
  case (AnyValue_BoolValue b)
  have "block_emits (put_byte (if b then 1 else 0) # put_tag [0x10]) ([0x10] @ [if b then 1 else 0])"
    by (rule block_emits_Cons [OF emits_byte block_emits_tag])
  then show ?case by (simp add: varint_field_bytes_def bool_bytes marshals_body)
next
  case (KeyValue v k i)
  then show ?case
    unfolding KeyValue_MarshalProto.simps KeyValue_bytes.simps by (intro marshals_body emit)
qed (auto intro!: marshals_body emit block_emits_concat split: option.splits)

section \<open>Unmarshaling accepts what was marshaled\<close>

lemma tags_values [simp]:
  "is_tag [0x0a] 1 2" "is_tag [0x10] 2 0" "is_tag [0x18] 3 0" "is_tag [0x21] 4 1" "is_tag [0x2a] 5 2"
  "is_tag [0x32] 6 2" "is_tag [0x3a] 7 2" "is_tag [0x40] 8 0" "is_tag [0x12] 2 2"
  by (simp_all add: is_tag_def Let_def varint_bytes.simps)

lemma length_string_bytes_less: "length s + 1 < length (string_bytes [t] s)"
  using Sov_pos [of "of_nat (length s)"] by (simp add: field_sizes)

lemma length_concat_mem: "x \<in> set xs \<Longrightarrow> length (f x) \<le> length (concat (map f xs))"
  by (induction xs) auto

lemma decodes_sub_message:
  assumes "is_tag tag fn 2" and "\<And>buf p. field buf fn 2 p x = read_message unm zero upd buf 2 p"
    and "valid_buf s \<Longrightarrow> unm s zero = Some (Inr m)"
  shows "decodes field (string_bytes tag s) x (upd m)"
  by (rule decodes_sub [where field = field and fn = fn and m = x and use = "\<lambda>s. map_option (map_sum id upd) (unm s zero)"])
    (simp_all add: assms)

lemma values_unmarshal:
  "AnyValue_wf v \<Longrightarrow> valid_buf (AnyValue_bytes v) \<Longrightarrow> length (AnyValue_bytes v) < d \<Longrightarrow>
   AnyValue_unmarshal d (AnyValue_bytes v) AnyValue_nil = Some (Inr v)"
  "ArrayValue_wf a \<Longrightarrow> valid_buf (ArrayValue_bytes a) \<Longrightarrow> length (ArrayValue_bytes a) < d \<Longrightarrow>
   ArrayValue_unmarshal d (ArrayValue_bytes a) (ArrayValue []) = Some (Inr a)"
  "KeyValueList_wf l \<Longrightarrow> valid_buf (KeyValueList_bytes l) \<Longrightarrow> length (KeyValueList_bytes l) < d \<Longrightarrow>
   KeyValueList_unmarshal d (KeyValueList_bytes l) (KeyValueList []) = Some (Inr l)"
  "KeyValue_wf kv \<Longrightarrow> valid_buf (KeyValue_bytes kv) \<Longrightarrow> length (KeyValue_bytes kv) < d \<Longrightarrow>
   KeyValue_unmarshal d (KeyValue_bytes kv) KeyValue_zero = Some (Inr kv)"
proof (induction v and a and l and kv arbitrary: d and d and d and d)
  case AnyValue_nil
  then obtain d' where "d = Suc d'" by (metis less_imp_Suc_add)
  then show ?case by (simp add: unmarshal_body_def)
next
  case (AnyValue_StringValue s)
  then obtain d' where d: "d = Suc d'" by (metis less_imp_Suc_add)
  have "decodes (AnyValue_field (ArrayValue_unmarshal d') (KeyValueList_unmarshal d')) (string_bytes [0x0a] s)
      AnyValue_nil (AnyValue_StringValue s)"
    by (rule decodes_sub [where fn = 1 and use = "\<lambda>s. Some (Inr (AnyValue_StringValue s))"]) (simp_all add: AnyValue_field_def)
  from unmarshal_body_decodes [OF this] AnyValue_StringValue show ?case by (simp add: d)
next
  case (AnyValue_BoolValue b)
  then obtain d' where d: "d = Suc d'" by (metis less_imp_Suc_add)
  have "decodes (AnyValue_field (ArrayValue_unmarshal d') (KeyValueList_unmarshal d'))
      (varint_field_bytes [0x10] (if b then 1 else 0)) AnyValue_nil (AnyValue_BoolValue ((if b then 1 else 0 :: u64) \<noteq> 0))"
    by (rule decodes_varint [where fn = 2 and upd = "\<lambda>n. AnyValue_BoolValue (n \<noteq> 0)"]) (simp_all add: AnyValue_field_def)
  from unmarshal_body_decodes [OF this] AnyValue_BoolValue show ?case by (cases b) (simp_all add: d)
next
  case (AnyValue_IntValue i)
  then obtain d' where d: "d = Suc d'" by (metis less_imp_Suc_add)
  have "decodes (AnyValue_field (ArrayValue_unmarshal d') (KeyValueList_unmarshal d'))
      (varint_field_bytes [0x18] i) AnyValue_nil (AnyValue_IntValue i)"
    by (rule decodes_varint [where fn = 3 and upd = AnyValue_IntValue]) (simp_all add: AnyValue_field_def)
  from unmarshal_body_decodes [OF this] AnyValue_IntValue show ?case by (simp add: d)
next
  case (AnyValue_DoubleValue w)
  then obtain d' where d: "d = Suc d'" by (metis less_imp_Suc_add)
  have "decodes (AnyValue_field (ArrayValue_unmarshal d') (KeyValueList_unmarshal d'))
      (fixed_bytes [0x21] 8 w) AnyValue_nil (AnyValue_DoubleValue w)"
    by (rule decodes_fixed64 [where fn = 4 and upd = AnyValue_DoubleValue]) (simp_all add: AnyValue_field_def)
  from unmarshal_body_decodes [OF this] AnyValue_DoubleValue show ?case by (simp add: d)
next
  case (AnyValue_ArrayValue o1)
  then obtain a where a: "o1 = Some a" "ArrayValue_wf a" by (auto split: option.splits)
  obtain d' where d: "d = Suc d'" using AnyValue_ArrayValue.prems(3) by (metis less_imp_Suc_add)
  have l: "length (ArrayValue_bytes a) < d'"
    using AnyValue_ArrayValue.prems(3) length_string_bytes_less [of "ArrayValue_bytes a" "0x2a"] by (simp add: a d)
  have "decodes (AnyValue_field (ArrayValue_unmarshal d') (KeyValueList_unmarshal d'))
      (string_bytes [0x2a] (ArrayValue_bytes a)) AnyValue_nil (AnyValue_ArrayValue (Some a))"
    using AnyValue_ArrayValue.IH [of a d'] a l
    by (intro decodes_sub_message [where fn = 5 and unm = "ArrayValue_unmarshal d'" and zero = "ArrayValue []"
          and upd = "\<lambda>v. AnyValue_ArrayValue (Some v)"]) (simp_all add: AnyValue_field_def)
  from unmarshal_body_decodes [OF this] AnyValue_ArrayValue.prems show ?case by (simp add: a d)
next
  case (AnyValue_KvlistValue o1)
  then obtain a where a: "o1 = Some a" "KeyValueList_wf a" by (auto split: option.splits)
  obtain d' where d: "d = Suc d'" using AnyValue_KvlistValue.prems(3) by (metis less_imp_Suc_add)
  have l: "length (KeyValueList_bytes a) < d'"
    using AnyValue_KvlistValue.prems(3) length_string_bytes_less [of "KeyValueList_bytes a" "0x32"] by (simp add: a d)
  have "decodes (AnyValue_field (ArrayValue_unmarshal d') (KeyValueList_unmarshal d'))
      (string_bytes [0x32] (KeyValueList_bytes a)) AnyValue_nil (AnyValue_KvlistValue (Some a))"
    using AnyValue_KvlistValue.IH [of a d'] a l
    by (intro decodes_sub_message [where fn = 6 and unm = "KeyValueList_unmarshal d'" and zero = "KeyValueList []"
          and upd = "\<lambda>v. AnyValue_KvlistValue (Some v)"]) (simp_all add: AnyValue_field_def)
  from unmarshal_body_decodes [OF this] AnyValue_KvlistValue.prems show ?case by (simp add: a d)
next
  case (AnyValue_BytesValue s)
  then obtain d' where d: "d = Suc d'" by (metis less_imp_Suc_add)
  have "decodes (AnyValue_field (ArrayValue_unmarshal d') (KeyValueList_unmarshal d')) (string_bytes [0x3a] s)
      AnyValue_nil (AnyValue_BytesValue s)"
    by (rule decodes_sub [where fn = 7 and use = "\<lambda>s. Some (Inr (AnyValue_BytesValue s))"]) (simp_all add: AnyValue_field_def)
  from unmarshal_body_decodes [OF this] AnyValue_BytesValue show ?case by (simp add: d)
next
  case (AnyValue_StringValueStrindex i)
  then obtain d' where d: "d = Suc d'" by (metis less_imp_Suc_add)
  have "decodes (AnyValue_field (ArrayValue_unmarshal d') (KeyValueList_unmarshal d'))
      (varint_field_bytes [0x40] (scast i)) AnyValue_nil (AnyValue_StringValueStrindex (ucast (scast i :: u64)))"
    by (rule decodes_varint [where fn = 8 and upd = "\<lambda>n. AnyValue_StringValueStrindex (ucast n)"])
      (simp_all add: AnyValue_field_def)
  from unmarshal_body_decodes [OF this] AnyValue_StringValueStrindex show ?case by (simp add: d ucast_scast_32)
next
  case (ArrayValue vs)
  obtain d' where d: "d = Suc d'" using ArrayValue.prems(3) by (metis less_imp_Suc_add)
  let ?F = "ArrayValue_field (AnyValue_unmarshal d')"
  have "decodes ?F (string_bytes [0x0a] (AnyValue_bytes x)) (ArrayValue acc) (ArrayValue (acc @ [x]))"
    if x: "x \<in> set vs" for x acc
  proof -
    have l: "length (AnyValue_bytes x) < d'"
      using ArrayValue.prems(3) length_string_bytes_less [of "AnyValue_bytes x" "0x0a"]
        length_concat_mem [OF x, of "\<lambda>v. string_bytes [0x0a] (AnyValue_bytes v)"] by (simp add: d)
    show ?thesis using ArrayValue.IH [OF x, of d'] ArrayValue.prems(1) x l
      by (intro decodes_sub_message [where fn = 1 and unm = "AnyValue_unmarshal d'" and zero = AnyValue_nil
            and upd = "\<lambda>v. ArrayValue (acc @ [v])"]) (simp_all add: list_all_iff)
  qed
  from decodes_repeated [of vs ?F "\<lambda>v. string_bytes [0x0a] (AnyValue_bytes v)" ArrayValue "[]", OF this]
  show ?case using unmarshal_body_decodes ArrayValue.prems(2) by (simp add: d)
next
  case (KeyValueList vs)
  obtain d' where d: "d = Suc d'" using KeyValueList.prems(3) by (metis less_imp_Suc_add)
  let ?F = "KeyValueList_field (KeyValue_unmarshal d')"
  have "decodes ?F (string_bytes [0x0a] (KeyValue_bytes x)) (KeyValueList acc) (KeyValueList (acc @ [x]))"
    if x: "x \<in> set vs" for x acc
  proof -
    have l: "length (KeyValue_bytes x) < d'"
      using KeyValueList.prems(3) length_string_bytes_less [of "KeyValue_bytes x" "0x0a"]
        length_concat_mem [OF x, of "\<lambda>v. string_bytes [0x0a] (KeyValue_bytes v)"] by (simp add: d)
    show ?thesis using KeyValueList.IH [OF x, of d'] KeyValueList.prems(1) x l
      by (intro decodes_sub_message [where fn = 1 and unm = "KeyValue_unmarshal d'" and zero = KeyValue_zero
            and upd = "\<lambda>v. KeyValueList (acc @ [v])"]) (simp_all add: list_all_iff)
  qed
  from decodes_repeated [of vs ?F "\<lambda>v. string_bytes [0x0a] (KeyValue_bytes v)" KeyValueList "[]", OF this]
  show ?case using unmarshal_body_decodes KeyValueList.prems(2) by (simp add: d)
next
  case (KeyValue v k i)
  obtain d' where d: "d = Suc d'" using KeyValue.prems(3) by (metis less_imp_Suc_add)
  let ?F = "KeyValue_field (AnyValue_unmarshal d')"
  have l: "length (AnyValue_bytes v) < d'"
    using KeyValue.prems(3) length_string_bytes_less [of "AnyValue_bytes v" "0x12"] by (simp add: d)
  have 1: "decodes ?F (if i \<noteq> 0 then varint_field_bytes [0x18] (scast i) else []) KeyValue_zero (KeyValue AnyValue_nil [] i)"
    using decodes_varint [of "[0x18]" 3 ?F KeyValue_zero "\<lambda>n. KeyValue AnyValue_nil [] (ucast n)" "scast i"]
    by (intro decodes_if) (simp_all add: KeyValue_zero_def ucast_scast_32)
  have 2: "decodes ?F (string_bytes [0x12] (AnyValue_bytes v)) (KeyValue AnyValue_nil [] i) (KeyValue v [] i)"
    using KeyValue.IH [of d'] KeyValue.prems(1) l
    by (intro decodes_sub_message [where fn = 2 and unm = "AnyValue_unmarshal d'" and zero = AnyValue_nil
          and upd = "\<lambda>v. KeyValue v [] i"]) simp_all
  have 3: "decodes ?F (if length k > 0 then string_bytes [0x0a] k else []) (KeyValue v [] i) (KeyValue v k i)"
    by (intro decodes_if decodes_sub [where fn = 1 and use = "\<lambda>s. Some (Inr (KeyValue v s i))"]) simp_all
  from unmarshal_body_decodes [OF decodes_append [OF decodes_append [OF 1 2] 3]] KeyValue.prems(2)
  show ?case by (simp add: d)
qed

section \<open>Unmarshaling never panics\<close>

lemma values_ok:
  "(\<forall>buf m. length buf < d \<longrightarrow> valid_buf buf \<longrightarrow> unmarshal_ok (AnyValue_unmarshal d buf m)) \<and>
   (\<forall>buf m. length buf < d \<longrightarrow> valid_buf buf \<longrightarrow> unmarshal_ok (ArrayValue_unmarshal d buf m)) \<and>
   (\<forall>buf m. length buf < d \<longrightarrow> valid_buf buf \<longrightarrow> unmarshal_ok (KeyValueList_unmarshal d buf m)) \<and>
   (\<forall>buf m. length buf < d \<longrightarrow> valid_buf buf \<longrightarrow> unmarshal_ok (KeyValue_unmarshal d buf m))"
proof (induction d)
  case (Suc d)
  show ?case
  proof (intro conjI allI impI)
    fix buf :: "byte list" and m
    assume h: "length buf < Suc d" "valid_buf buf"
    then show "unmarshal_ok (AnyValue_unmarshal (Suc d) buf m)" using Suc
      unfolding AnyValue_unmarshal.simps AnyValue_field_def by (intro unmarshal_body_ok reader_ok) auto
  next
    fix buf :: "byte list" and m
    assume h: "length buf < Suc d" "valid_buf buf"
    have "field_ok buf p (ArrayValue_field (AnyValue_unmarshal d) buf fn wt p m)"
      if "0 \<le> p" "p \<le> int (length buf)" for fn wt p m
      using Suc h that by (cases m) (simp only: ArrayValue_field.simps, intro reader_ok, auto)
    then show "unmarshal_ok (ArrayValue_unmarshal (Suc d) buf m)"
      unfolding ArrayValue_unmarshal.simps using h by (intro unmarshal_body_ok)
  next
    fix buf :: "byte list" and m
    assume h: "length buf < Suc d" "valid_buf buf"
    have "field_ok buf p (KeyValueList_field (KeyValue_unmarshal d) buf fn wt p m)"
      if "0 \<le> p" "p \<le> int (length buf)" for fn wt p m
      using Suc h that by (cases m) (simp only: KeyValueList_field.simps, intro reader_ok, auto)
    then show "unmarshal_ok (KeyValueList_unmarshal (Suc d) buf m)"
      unfolding KeyValueList_unmarshal.simps using h by (intro unmarshal_body_ok)
  next
    fix buf :: "byte list" and m
    assume h: "length buf < Suc d" "valid_buf buf"
    have "field_ok buf p (KeyValue_field (AnyValue_unmarshal d) buf fn wt p m)"
      if "0 \<le> p" "p \<le> int (length buf)" for fn wt p m
      using Suc h that by (cases m) (simp only: KeyValue_field.simps, intro reader_ok, auto)
    then show "unmarshal_ok (KeyValue_unmarshal (Suc d) buf m)"
      unfolding KeyValue_unmarshal.simps using h by (intro unmarshal_body_ok)
  qed
qed simp

interpretation any_value: proto_message AnyValue_SizeProto AnyValue_MarshalProto AnyValue_UnmarshalProto
    AnyValue_nil AnyValue_bytes AnyValue_wf
  by unfold_locales
    (simp_all add: values_size values_marshal AnyValue_UnmarshalProto_def values_unmarshal values_ok
      del: AnyValue_unmarshal.simps)

interpretation key_value: proto_message KeyValue_SizeProto KeyValue_MarshalProto KeyValue_UnmarshalProto
    KeyValue_zero KeyValue_bytes KeyValue_wf
  by unfold_locales
    (simp_all add: values_size values_marshal KeyValue_UnmarshalProto_def values_unmarshal values_ok
      del: KeyValue_unmarshal.simps)

section \<open>Identifiers\<close>

text \<open>
  \<open>TraceID\<close> and \<open>SpanID\<close> are byte arrays of fixed length; the two files differ in the length only
  and are both instances of the functions below.
\<close>

type_synonym ident = "byte list"

definition traceIDSize :: nat where "traceIDSize = 16"
definition spanIDSize :: nat where "spanIDSize = 8"

definition ID_IsEmpty :: "nat \<Rightarrow> ident \<Rightarrow> bool" where
  "ID_IsEmpty n tid \<longleftrightarrow> tid = replicate n 0"

definition ID_SizeProto :: "nat \<Rightarrow> ident \<Rightarrow> nat" where
  "ID_SizeProto n tid = (if ID_IsEmpty n tid then 0 else n)"

definition ID_MarshalProto :: "nat \<Rightarrow> ident \<Rightarrow> marshaler" where
  "ID_MarshalProto n tid buf =
     (if ID_IsEmpty n tid then Inr (buf, 0)
      else if length buf < n then Inl IndexPanic
      else Inr (take (length buf - n) buf @ tid, int n))"

definition ID_UnmarshalProto :: "nat \<Rightarrow> ident unmarshaler" where
  "ID_UnmarshalProto n buf tid =
     (if length buf = 0 then Some (Inr (replicate n 0))
      else if length buf \<noteq> n then Some (Inl ErrInvalidIDLength)
      else Some (Inr buf))"

definition ID_bytes :: "nat \<Rightarrow> ident \<Rightarrow> byte list" where
  "ID_bytes n tid = (if ID_IsEmpty n tid then [] else tid)"

definition ID_wf :: "nat \<Rightarrow> ident \<Rightarrow> bool" where
  "ID_wf n tid \<longleftrightarrow> length tid = n \<and> 0 < n"

interpretation ident: proto_message "ID_SizeProto n" "ID_MarshalProto n" "ID_UnmarshalProto n" "replicate n 0" "ID_bytes n" "ID_wf n"
  for n
  by unfold_locales
    (auto simp: ID_SizeProto_def ID_MarshalProto_def ID_UnmarshalProto_def ID_bytes_def ID_wf_def ID_IsEmpty_def
      marshals_def unmarshal_ok_def)

end
