(* ===== verification/ProtoCommon.thy ===== *)
theory ProtoCommon
  imports ProtoValues
begin

text \<open>
  The messages the three signals share: \<open>EntityRef\<close>, \<open>Resource\<close> and \<open>InstrumentationScope\<close>
  (pdata/internal/generated\_proto\_entityref.go, generated\_proto\_resource.go and
  generated\_proto\_instrumentationscope.go). A message is a record with the fields in the order
  the generated code handles them. Its \<open>SizeProto\<close>, \<open>MarshalProto\<close> and \<open>UnmarshalProto\<close> follow the
  generated functions field by field, and \<open>_bytes\<close> is the wire form the contract
  \<open>proto_message\<close> is stated with.
\<close>

lemma tags_common [simp]:
  "is_tag [0x1a] 3 2"
  "is_tag [0x22] 4 2"
  "is_tag [0x20] 4 0"
  by (simp_all add: is_tag_def Let_def varint_bytes.simps)

section \<open>EntityRef\<close>

record EntityRef =
  er_SchemaUrl :: "byte list"
  er_Type :: "byte list"
  er_IdKeys :: "byte list list"
  er_DescriptionKeys :: "byte list list"

definition EntityRef_zero :: EntityRef where
  "EntityRef_zero = \<lparr>er_SchemaUrl = [], er_Type = [], er_IdKeys = [], er_DescriptionKeys = []\<rparr>"

definition EntityRef_SizeProto :: "EntityRef \<Rightarrow> nat" where
  "EntityRef_SizeProto orig =
     (if length (er_SchemaUrl orig) > 0 then len_size 1 (length (er_SchemaUrl orig)) else 0)
     + (if length (er_Type orig) > 0 then len_size 1 (length (er_Type orig)) else 0)
     + sum_list (map (\<lambda>s. len_size 1 (length s)) (er_IdKeys orig))
     + sum_list (map (\<lambda>s. len_size 1 (length s)) (er_DescriptionKeys orig))"

definition EntityRef_MarshalProto :: "EntityRef \<Rightarrow> marshaler" where
  "EntityRef_MarshalProto orig = marshal_body
     ((if length (er_SchemaUrl orig) > 0 then string_block [0x0a] (er_SchemaUrl orig) else [])
      @ (if length (er_Type orig) > 0 then string_block [0x12] (er_Type orig) else [])
      @ concat (map (string_block [0x1a]) (rev (er_IdKeys orig)))
      @ concat (map (string_block [0x22]) (rev (er_DescriptionKeys orig))))"

definition EntityRef_field :: "EntityRef field_reader" where
  "EntityRef_field buf fieldNum wireType pos orig =
     (if fieldNum = 1 then read_bytes (\<lambda>s. orig\<lparr>er_SchemaUrl := s\<rparr>) buf wireType pos
      else if fieldNum = 2 then read_bytes (\<lambda>s. orig\<lparr>er_Type := s\<rparr>) buf wireType pos
      else if fieldNum = 3 then read_bytes (\<lambda>s. orig\<lparr>er_IdKeys := er_IdKeys orig @ [s]\<rparr>) buf wireType pos
      else if fieldNum = 4 then read_bytes (\<lambda>s. orig\<lparr>er_DescriptionKeys := er_DescriptionKeys orig @ [s]\<rparr>) buf wireType pos
      else read_unknown orig buf wireType pos)"

definition EntityRef_UnmarshalProto :: "EntityRef unmarshaler" where
  "EntityRef_UnmarshalProto = unmarshal_body EntityRef_field"

definition EntityRef_bytes :: "EntityRef \<Rightarrow> byte list" where
  "EntityRef_bytes orig =
     (((concat (map (string_bytes [0x22]) (er_DescriptionKeys orig))
      @ concat (map (string_bytes [0x1a]) (er_IdKeys orig)))
      @ (if length (er_Type orig) > 0 then string_bytes [0x12] (er_Type orig) else []))
      @ (if length (er_SchemaUrl orig) > 0 then string_bytes [0x0a] (er_SchemaUrl orig) else []))"

definition EntityRef_wf :: "EntityRef \<Rightarrow> bool" where
  "EntityRef_wf orig \<longleftrightarrow> True"

lemma EntityRef_decodes:
  assumes "EntityRef_wf m"
  shows "decodes EntityRef_field (EntityRef_bytes m) EntityRef_zero m"
proof -
  have 1: "decodes EntityRef_field (concat (map (string_bytes [0x22]) (er_DescriptionKeys m)))
      EntityRef_zero
      (EntityRef_zero\<lparr>er_DescriptionKeys := er_DescriptionKeys m\<rparr>)"
    by (rule decodes_repeated_string [where fn = 4 and upd = "\<lambda>v. EntityRef_zero\<lparr>er_DescriptionKeys := v\<rparr>"]) (simp_all add: EntityRef_field_def EntityRef_zero_def)
  have 2: "decodes EntityRef_field (concat (map (string_bytes [0x1a]) (er_IdKeys m)))
      (EntityRef_zero\<lparr>er_DescriptionKeys := er_DescriptionKeys m\<rparr>)
      (EntityRef_zero\<lparr>er_DescriptionKeys := er_DescriptionKeys m, er_IdKeys := er_IdKeys m\<rparr>)"
    by (rule decodes_repeated_string [where fn = 3 and upd = "\<lambda>v. EntityRef_zero\<lparr>er_DescriptionKeys := er_DescriptionKeys m, er_IdKeys := v\<rparr>"]) (simp_all add: EntityRef_field_def EntityRef_zero_def)
  have 3: "decodes EntityRef_field ((if length (er_Type m) > 0 then string_bytes [0x12] (er_Type m) else []))
      (EntityRef_zero\<lparr>er_DescriptionKeys := er_DescriptionKeys m, er_IdKeys := er_IdKeys m\<rparr>)
      (EntityRef_zero\<lparr>er_DescriptionKeys := er_DescriptionKeys m, er_IdKeys := er_IdKeys m, er_Type := er_Type m\<rparr>)"
    by (rule decodes_opt_string [where fn = 2 and upd = "\<lambda>v. EntityRef_zero\<lparr>er_DescriptionKeys := er_DescriptionKeys m, er_IdKeys := er_IdKeys m, er_Type := v\<rparr>"]) (simp_all add: EntityRef_field_def EntityRef_zero_def)
  have 4: "decodes EntityRef_field ((if length (er_SchemaUrl m) > 0 then string_bytes [0x0a] (er_SchemaUrl m) else []))
      (EntityRef_zero\<lparr>er_DescriptionKeys := er_DescriptionKeys m, er_IdKeys := er_IdKeys m, er_Type := er_Type m\<rparr>)
      (EntityRef_zero\<lparr>er_DescriptionKeys := er_DescriptionKeys m, er_IdKeys := er_IdKeys m, er_Type := er_Type m, er_SchemaUrl := er_SchemaUrl m\<rparr>)"
    by (rule decodes_opt_string [where fn = 1 and upd = "\<lambda>v. EntityRef_zero\<lparr>er_DescriptionKeys := er_DescriptionKeys m, er_IdKeys := er_IdKeys m, er_Type := er_Type m, er_SchemaUrl := v\<rparr>"]) (simp_all add: EntityRef_field_def EntityRef_zero_def)
  have eq: "(EntityRef_zero\<lparr>er_DescriptionKeys := er_DescriptionKeys m, er_IdKeys := er_IdKeys m, er_Type := er_Type m, er_SchemaUrl := er_SchemaUrl m\<rparr>) = m"
    by (cases m) (simp add: EntityRef_zero_def)
  from decodes_append [OF decodes_append [OF decodes_append [OF 1 2] 3] 4]
  show ?thesis unfolding eq EntityRef_bytes_def .
qed

interpretation entity_ref: proto_message EntityRef_SizeProto EntityRef_MarshalProto EntityRef_UnmarshalProto EntityRef_zero EntityRef_bytes EntityRef_wf
proof unfold_locales
  fix m assume wf: "EntityRef_wf m"
  then show "EntityRef_SizeProto m = length (EntityRef_bytes m)"
    unfolding EntityRef_SizeProto_def EntityRef_bytes_def EntityRef_wf_def
    by (simp add: length_if_Nil field_sizes repeated_string_size  del: length_concat split del: if_split cong: if_cong)
  show "marshals (EntityRef_MarshalProto m) (EntityRef_bytes m)"
    unfolding EntityRef_MarshalProto_def EntityRef_bytes_def
    by (intro marshals_body emit)
  show "EntityRef_UnmarshalProto (EntityRef_bytes m) EntityRef_zero = Some (Inr m)" if "valid_buf (EntityRef_bytes m)"
    unfolding EntityRef_UnmarshalProto_def by (rule unmarshal_body_decodes [OF EntityRef_decodes [OF wf] that])
next
  fix buf and m :: EntityRef
  assume "valid_buf buf"
  then show "unmarshal_ok (EntityRef_UnmarshalProto buf m)"
    unfolding EntityRef_UnmarshalProto_def EntityRef_field_def by (intro unmarshal_body_ok reader_ok) simp_all
qed

section \<open>Resource\<close>

record Resource =
  rs_Attributes :: "KeyValue list"
  rs_DroppedAttributesCount :: "32 word"
  rs_EntityRefs :: "EntityRef list"

definition Resource_zero :: Resource where
  "Resource_zero = \<lparr>rs_Attributes = [], rs_DroppedAttributesCount = 0, rs_EntityRefs = []\<rparr>"

definition Resource_SizeProto :: "Resource \<Rightarrow> nat" where
  "Resource_SizeProto orig =
     sum_list (map (\<lambda>v. len_size 1 (KeyValue_SizeProto v)) (rs_Attributes orig))
     + (if rs_DroppedAttributesCount orig \<noteq> 0 then 1 + Sov (ucast (rs_DroppedAttributesCount orig)) else 0)
     + sum_list (map (\<lambda>v. len_size 1 (EntityRef_SizeProto v)) (rs_EntityRefs orig))"

definition Resource_MarshalProto :: "Resource \<Rightarrow> marshaler" where
  "Resource_MarshalProto orig = marshal_body
     (concat (map (\<lambda>v. message_block [0x0a] (KeyValue_MarshalProto v)) (rev (rs_Attributes orig)))
      @ (if rs_DroppedAttributesCount orig \<noteq> 0 then varint_block [0x10] (ucast (rs_DroppedAttributesCount orig)) else [])
      @ concat (map (\<lambda>v. message_block [0x1a] (EntityRef_MarshalProto v)) (rev (rs_EntityRefs orig))))"

definition Resource_field :: "Resource field_reader" where
  "Resource_field buf fieldNum wireType pos orig =
     (if fieldNum = 1 then read_message KeyValue_UnmarshalProto KeyValue_zero (\<lambda>v. orig\<lparr>rs_Attributes := rs_Attributes orig @ [v]\<rparr>) buf wireType pos
      else if fieldNum = 2 then read_varint (\<lambda>num. orig\<lparr>rs_DroppedAttributesCount := ucast num\<rparr>) buf wireType pos
      else if fieldNum = 3 then read_message EntityRef_UnmarshalProto EntityRef_zero (\<lambda>v. orig\<lparr>rs_EntityRefs := rs_EntityRefs orig @ [v]\<rparr>) buf wireType pos
      else read_unknown orig buf wireType pos)"

definition Resource_UnmarshalProto :: "Resource unmarshaler" where
  "Resource_UnmarshalProto = unmarshal_body Resource_field"

definition Resource_bytes :: "Resource \<Rightarrow> byte list" where
  "Resource_bytes orig =
     ((concat (map (\<lambda>v. string_bytes [0x1a] (EntityRef_bytes v)) (rs_EntityRefs orig))
      @ (if rs_DroppedAttributesCount orig \<noteq> 0 then varint_field_bytes [0x10] (ucast (rs_DroppedAttributesCount orig)) else []))
      @ concat (map (\<lambda>v. string_bytes [0x0a] (KeyValue_bytes v)) (rs_Attributes orig)))"

definition Resource_wf :: "Resource \<Rightarrow> bool" where
  "Resource_wf orig \<longleftrightarrow> list_all KeyValue_wf (rs_Attributes orig) \<and> list_all EntityRef_wf (rs_EntityRefs orig)"

lemma Resource_decodes:
  assumes "Resource_wf m"
  shows "decodes Resource_field (Resource_bytes m) Resource_zero m"
proof -
  note wf = assms [unfolded Resource_wf_def]
  have 1: "decodes Resource_field (concat (map (\<lambda>v. string_bytes [0x1a] (EntityRef_bytes v)) (rs_EntityRefs m)))
      Resource_zero
      (Resource_zero\<lparr>rs_EntityRefs := rs_EntityRefs m\<rparr>)"
    by (rule entity_ref.decodes_repeated_message [where fn = 3 and upd = "\<lambda>v. Resource_zero\<lparr>rs_EntityRefs := v\<rparr>"]) (simp_all add: Resource_field_def Resource_zero_def wf)
  have 2: "decodes Resource_field ((if rs_DroppedAttributesCount m \<noteq> 0 then varint_field_bytes [0x10] (ucast (rs_DroppedAttributesCount m)) else []))
      (Resource_zero\<lparr>rs_EntityRefs := rs_EntityRefs m\<rparr>)
      (Resource_zero\<lparr>rs_EntityRefs := rs_EntityRefs m, rs_DroppedAttributesCount := rs_DroppedAttributesCount m\<rparr>)"
    by (rule decodes_opt_varint [where fn = 2 and enc = ucast and dec = ucast and upd = "\<lambda>v. Resource_zero\<lparr>rs_EntityRefs := rs_EntityRefs m, rs_DroppedAttributesCount := v\<rparr>"]) (simp_all add: Resource_field_def Resource_zero_def ucast_ucast_32)
  have 3: "decodes Resource_field (concat (map (\<lambda>v. string_bytes [0x0a] (KeyValue_bytes v)) (rs_Attributes m)))
      (Resource_zero\<lparr>rs_EntityRefs := rs_EntityRefs m, rs_DroppedAttributesCount := rs_DroppedAttributesCount m\<rparr>)
      (Resource_zero\<lparr>rs_EntityRefs := rs_EntityRefs m, rs_DroppedAttributesCount := rs_DroppedAttributesCount m, rs_Attributes := rs_Attributes m\<rparr>)"
    by (rule key_value.decodes_repeated_message [where fn = 1 and upd = "\<lambda>v. Resource_zero\<lparr>rs_EntityRefs := rs_EntityRefs m, rs_DroppedAttributesCount := rs_DroppedAttributesCount m, rs_Attributes := v\<rparr>"]) (simp_all add: Resource_field_def Resource_zero_def wf)
  have eq: "(Resource_zero\<lparr>rs_EntityRefs := rs_EntityRefs m, rs_DroppedAttributesCount := rs_DroppedAttributesCount m, rs_Attributes := rs_Attributes m\<rparr>) = m"
    by (cases m) (simp add: Resource_zero_def)
  from decodes_append [OF decodes_append [OF 1 2] 3]
  show ?thesis unfolding eq Resource_bytes_def .
qed

interpretation resource: proto_message Resource_SizeProto Resource_MarshalProto Resource_UnmarshalProto Resource_zero Resource_bytes Resource_wf
proof unfold_locales
  fix m assume wf: "Resource_wf m"
  then show "Resource_SizeProto m = length (Resource_bytes m)"
    unfolding Resource_SizeProto_def Resource_bytes_def Resource_wf_def
    by (simp add: length_if_Nil field_sizes repeated_string_size key_value.repeated_size key_value.size entity_ref.repeated_size entity_ref.size del: length_concat split del: if_split cong: if_cong)
  show "marshals (Resource_MarshalProto m) (Resource_bytes m)"
    unfolding Resource_MarshalProto_def Resource_bytes_def
    by (intro marshals_body emit) (use wf in \<open>simp_all add: Resource_wf_def\<close>)
  show "Resource_UnmarshalProto (Resource_bytes m) Resource_zero = Some (Inr m)" if "valid_buf (Resource_bytes m)"
    unfolding Resource_UnmarshalProto_def by (rule unmarshal_body_decodes [OF Resource_decodes [OF wf] that])
next
  fix buf and m :: Resource
  assume "valid_buf buf"
  then show "unmarshal_ok (Resource_UnmarshalProto buf m)"
    unfolding Resource_UnmarshalProto_def Resource_field_def by (intro unmarshal_body_ok reader_ok) simp_all
qed

section \<open>InstrumentationScope\<close>

record InstrumentationScope =
  sc_Name :: "byte list"
  sc_Version :: "byte list"
  sc_Attributes :: "KeyValue list"
  sc_DroppedAttributesCount :: "32 word"

definition InstrumentationScope_zero :: InstrumentationScope where
  "InstrumentationScope_zero = \<lparr>sc_Name = [], sc_Version = [], sc_Attributes = [], sc_DroppedAttributesCount = 0\<rparr>"

definition InstrumentationScope_SizeProto :: "InstrumentationScope \<Rightarrow> nat" where
  "InstrumentationScope_SizeProto orig =
     (if length (sc_Name orig) > 0 then len_size 1 (length (sc_Name orig)) else 0)
     + (if length (sc_Version orig) > 0 then len_size 1 (length (sc_Version orig)) else 0)
     + sum_list (map (\<lambda>v. len_size 1 (KeyValue_SizeProto v)) (sc_Attributes orig))
     + (if sc_DroppedAttributesCount orig \<noteq> 0 then 1 + Sov (ucast (sc_DroppedAttributesCount orig)) else 0)"

definition InstrumentationScope_MarshalProto :: "InstrumentationScope \<Rightarrow> marshaler" where
  "InstrumentationScope_MarshalProto orig = marshal_body
     ((if length (sc_Name orig) > 0 then string_block [0x0a] (sc_Name orig) else [])
      @ (if length (sc_Version orig) > 0 then string_block [0x12] (sc_Version orig) else [])
      @ concat (map (\<lambda>v. message_block [0x1a] (KeyValue_MarshalProto v)) (rev (sc_Attributes orig)))
      @ (if sc_DroppedAttributesCount orig \<noteq> 0 then varint_block [0x20] (ucast (sc_DroppedAttributesCount orig)) else []))"

definition InstrumentationScope_field :: "InstrumentationScope field_reader" where
  "InstrumentationScope_field buf fieldNum wireType pos orig =
     (if fieldNum = 1 then read_bytes (\<lambda>s. orig\<lparr>sc_Name := s\<rparr>) buf wireType pos
      else if fieldNum = 2 then read_bytes (\<lambda>s. orig\<lparr>sc_Version := s\<rparr>) buf wireType pos
      else if fieldNum = 3 then read_message KeyValue_UnmarshalProto KeyValue_zero (\<lambda>v. orig\<lparr>sc_Attributes := sc_Attributes orig @ [v]\<rparr>) buf wireType pos
      else if fieldNum = 4 then read_varint (\<lambda>num. orig\<lparr>sc_DroppedAttributesCount := ucast num\<rparr>) buf wireType pos
      else read_unknown orig buf wireType pos)"

definition InstrumentationScope_UnmarshalProto :: "InstrumentationScope unmarshaler" where
  "InstrumentationScope_UnmarshalProto = unmarshal_body InstrumentationScope_field"

definition InstrumentationScope_bytes :: "InstrumentationScope \<Rightarrow> byte list" where
  "InstrumentationScope_bytes orig =
     ((((if sc_DroppedAttributesCount orig \<noteq> 0 then varint_field_bytes [0x20] (ucast (sc_DroppedAttributesCount orig)) else [])
      @ concat (map (\<lambda>v. string_bytes [0x1a] (KeyValue_bytes v)) (sc_Attributes orig)))
      @ (if length (sc_Version orig) > 0 then string_bytes [0x12] (sc_Version orig) else []))
      @ (if length (sc_Name orig) > 0 then string_bytes [0x0a] (sc_Name orig) else []))"

definition InstrumentationScope_wf :: "InstrumentationScope \<Rightarrow> bool" where
  "InstrumentationScope_wf orig \<longleftrightarrow> list_all KeyValue_wf (sc_Attributes orig)"

lemma InstrumentationScope_decodes:
  assumes "InstrumentationScope_wf m"
  shows "decodes InstrumentationScope_field (InstrumentationScope_bytes m) InstrumentationScope_zero m"
proof -
  note wf = assms [unfolded InstrumentationScope_wf_def]
  have 1: "decodes InstrumentationScope_field ((if sc_DroppedAttributesCount m \<noteq> 0 then varint_field_bytes [0x20] (ucast (sc_DroppedAttributesCount m)) else []))
      InstrumentationScope_zero
      (InstrumentationScope_zero\<lparr>sc_DroppedAttributesCount := sc_DroppedAttributesCount m\<rparr>)"
    by (rule decodes_opt_varint [where fn = 4 and enc = ucast and dec = ucast and upd = "\<lambda>v. InstrumentationScope_zero\<lparr>sc_DroppedAttributesCount := v\<rparr>"]) (simp_all add: InstrumentationScope_field_def InstrumentationScope_zero_def ucast_ucast_32)
  have 2: "decodes InstrumentationScope_field (concat (map (\<lambda>v. string_bytes [0x1a] (KeyValue_bytes v)) (sc_Attributes m)))
      (InstrumentationScope_zero\<lparr>sc_DroppedAttributesCount := sc_DroppedAttributesCount m\<rparr>)
      (InstrumentationScope_zero\<lparr>sc_DroppedAttributesCount := sc_DroppedAttributesCount m, sc_Attributes := sc_Attributes m\<rparr>)"
    by (rule key_value.decodes_repeated_message [where fn = 3 and upd = "\<lambda>v. InstrumentationScope_zero\<lparr>sc_DroppedAttributesCount := sc_DroppedAttributesCount m, sc_Attributes := v\<rparr>"]) (simp_all add: InstrumentationScope_field_def InstrumentationScope_zero_def wf)
  have 3: "decodes InstrumentationScope_field ((if length (sc_Version m) > 0 then string_bytes [0x12] (sc_Version m) else []))
      (InstrumentationScope_zero\<lparr>sc_DroppedAttributesCount := sc_DroppedAttributesCount m, sc_Attributes := sc_Attributes m\<rparr>)
      (InstrumentationScope_zero\<lparr>sc_DroppedAttributesCount := sc_DroppedAttributesCount m, sc_Attributes := sc_Attributes m, sc_Version := sc_Version m\<rparr>)"
    by (rule decodes_opt_string [where fn = 2 and upd = "\<lambda>v. InstrumentationScope_zero\<lparr>sc_DroppedAttributesCount := sc_DroppedAttributesCount m, sc_Attributes := sc_Attributes m, sc_Version := v\<rparr>"]) (simp_all add: InstrumentationScope_field_def InstrumentationScope_zero_def)
  have 4: "decodes InstrumentationScope_field ((if length (sc_Name m) > 0 then string_bytes [0x0a] (sc_Name m) else []))
      (InstrumentationScope_zero\<lparr>sc_DroppedAttributesCount := sc_DroppedAttributesCount m, sc_Attributes := sc_Attributes m, sc_Version := sc_Version m\<rparr>)
      (InstrumentationScope_zero\<lparr>sc_DroppedAttributesCount := sc_DroppedAttributesCount m, sc_Attributes := sc_Attributes m, sc_Version := sc_Version m, sc_Name := sc_Name m\<rparr>)"
    by (rule decodes_opt_string [where fn = 1 and upd = "\<lambda>v. InstrumentationScope_zero\<lparr>sc_DroppedAttributesCount := sc_DroppedAttributesCount m, sc_Attributes := sc_Attributes m, sc_Version := sc_Version m, sc_Name := v\<rparr>"]) (simp_all add: InstrumentationScope_field_def InstrumentationScope_zero_def)
  have eq: "(InstrumentationScope_zero\<lparr>sc_DroppedAttributesCount := sc_DroppedAttributesCount m, sc_Attributes := sc_Attributes m, sc_Version := sc_Version m, sc_Name := sc_Name m\<rparr>) = m"
    by (cases m) (simp add: InstrumentationScope_zero_def)
  from decodes_append [OF decodes_append [OF decodes_append [OF 1 2] 3] 4]
  show ?thesis unfolding eq InstrumentationScope_bytes_def .
qed

interpretation scope: proto_message InstrumentationScope_SizeProto InstrumentationScope_MarshalProto InstrumentationScope_UnmarshalProto InstrumentationScope_zero InstrumentationScope_bytes InstrumentationScope_wf
proof unfold_locales
  fix m assume wf: "InstrumentationScope_wf m"
  then show "InstrumentationScope_SizeProto m = length (InstrumentationScope_bytes m)"
    unfolding InstrumentationScope_SizeProto_def InstrumentationScope_bytes_def InstrumentationScope_wf_def
    by (simp add: length_if_Nil field_sizes repeated_string_size key_value.repeated_size key_value.size del: length_concat split del: if_split cong: if_cong)
  show "marshals (InstrumentationScope_MarshalProto m) (InstrumentationScope_bytes m)"
    unfolding InstrumentationScope_MarshalProto_def InstrumentationScope_bytes_def
    by (intro marshals_body emit) (use wf in \<open>simp_all add: InstrumentationScope_wf_def\<close>)
  show "InstrumentationScope_UnmarshalProto (InstrumentationScope_bytes m) InstrumentationScope_zero = Some (Inr m)" if "valid_buf (InstrumentationScope_bytes m)"
    unfolding InstrumentationScope_UnmarshalProto_def by (rule unmarshal_body_decodes [OF InstrumentationScope_decodes [OF wf] that])
next
  fix buf and m :: InstrumentationScope
  assume "valid_buf buf"
  then show "unmarshal_ok (InstrumentationScope_UnmarshalProto buf m)"
    unfolding InstrumentationScope_UnmarshalProto_def InstrumentationScope_field_def by (intro unmarshal_body_ok reader_ok) simp_all
qed

end
