(* ===== verification/ProtoLogs.thy ===== *)
theory ProtoLogs
  imports ProtoCommon
begin

text \<open>
  The log messages: \<open>LogRecord\<close>, \<open>ScopeLogs\<close>, \<open>ResourceLogs\<close> and \<open>LogsData\<close>
  (pdata/internal/generated\_proto\_logrecord.go, generated\_proto\_scopelogs.go,
  generated\_proto\_resourcelogs.go, generated\_proto\_logsdata.go) and the functions of
  pdata/plog/pb.go that encode and decode a whole batch. Pointers in slices are never nil.
\<close>

lemma tags_logs [simp]:
  "is_tag [0x09] 1 1"
  "is_tag [0x59] 11 1"
  "is_tag [0x38] 7 0"
  "is_tag [0x45] 8 5"
  "is_tag [0x4a] 9 2"
  "is_tag [0x52] 10 2"
  "is_tag [0x62] 12 2"
  "is_tag [0xc2, 0x3e] 1000 2"
  "is_tag [0x08] 1 0"
  by (simp_all add: is_tag_def Let_def varint_bytes.simps)

section \<open>LogRecord\<close>

record LogRecord =
  lr_TimeUnixNano :: u64
  lr_ObservedTimeUnixNano :: u64
  lr_SeverityNumber :: "32 word"
  lr_SeverityText :: "byte list"
  lr_Body :: AnyValue
  lr_Attributes :: "KeyValue list"
  lr_DroppedAttributesCount :: "32 word"
  lr_Flags :: "32 word"
  lr_TraceId :: ident
  lr_SpanId :: ident
  lr_EventName :: "byte list"

definition LogRecord_zero :: LogRecord where
  "LogRecord_zero = \<lparr>lr_TimeUnixNano = 0, lr_ObservedTimeUnixNano = 0, lr_SeverityNumber = 0, lr_SeverityText = [], lr_Body = AnyValue_nil, lr_Attributes = [], lr_DroppedAttributesCount = 0, lr_Flags = 0, lr_TraceId = replicate traceIDSize 0, lr_SpanId = replicate spanIDSize 0, lr_EventName = []\<rparr>"

definition LogRecord_SizeProto :: "LogRecord \<Rightarrow> nat" where
  "LogRecord_SizeProto orig =
     (if lr_TimeUnixNano orig \<noteq> 0 then 9 else 0)
     + (if lr_ObservedTimeUnixNano orig \<noteq> 0 then 9 else 0)
     + (if lr_SeverityNumber orig \<noteq> 0 then 1 + Sov (scast (lr_SeverityNumber orig)) else 0)
     + (if length (lr_SeverityText orig) > 0 then len_size 1 (length (lr_SeverityText orig)) else 0)
     + len_size 1 (AnyValue_SizeProto (lr_Body orig))
     + sum_list (map (\<lambda>v. len_size 1 (KeyValue_SizeProto v)) (lr_Attributes orig))
     + (if lr_DroppedAttributesCount orig \<noteq> 0 then 1 + Sov (ucast (lr_DroppedAttributesCount orig)) else 0)
     + (if lr_Flags orig \<noteq> 0 then 5 else 0)
     + len_size 1 (ID_SizeProto traceIDSize (lr_TraceId orig))
     + len_size 1 (ID_SizeProto spanIDSize (lr_SpanId orig))
     + (if length (lr_EventName orig) > 0 then len_size 1 (length (lr_EventName orig)) else 0)"

definition LogRecord_MarshalProto :: "LogRecord \<Rightarrow> marshaler" where
  "LogRecord_MarshalProto orig = marshal_body
     ((if lr_TimeUnixNano orig \<noteq> 0 then fixed_block [0x09] 8 (lr_TimeUnixNano orig) else [])
      @ (if lr_ObservedTimeUnixNano orig \<noteq> 0 then fixed_block [0x59] 8 (lr_ObservedTimeUnixNano orig) else [])
      @ (if lr_SeverityNumber orig \<noteq> 0 then varint_block [0x10] (scast (lr_SeverityNumber orig)) else [])
      @ (if length (lr_SeverityText orig) > 0 then string_block [0x1a] (lr_SeverityText orig) else [])
      @ message_block [0x2a] (AnyValue_MarshalProto (lr_Body orig))
      @ concat (map (\<lambda>v. message_block [0x32] (KeyValue_MarshalProto v)) (rev (lr_Attributes orig)))
      @ (if lr_DroppedAttributesCount orig \<noteq> 0 then varint_block [0x38] (ucast (lr_DroppedAttributesCount orig)) else [])
      @ (if lr_Flags orig \<noteq> 0 then fixed_block [0x45] 4 (ucast (lr_Flags orig)) else [])
      @ message_block [0x4a] (ID_MarshalProto traceIDSize (lr_TraceId orig))
      @ message_block [0x52] (ID_MarshalProto spanIDSize (lr_SpanId orig))
      @ (if length (lr_EventName orig) > 0 then string_block [0x62] (lr_EventName orig) else []))"

definition LogRecord_field :: "LogRecord field_reader" where
  "LogRecord_field buf fieldNum wireType pos orig =
     (if fieldNum = 1 then read_i64 (\<lambda>num. orig\<lparr>lr_TimeUnixNano := num\<rparr>) buf wireType pos
      else if fieldNum = 11 then read_i64 (\<lambda>num. orig\<lparr>lr_ObservedTimeUnixNano := num\<rparr>) buf wireType pos
      else if fieldNum = 2 then read_varint (\<lambda>num. orig\<lparr>lr_SeverityNumber := ucast num\<rparr>) buf wireType pos
      else if fieldNum = 3 then read_bytes (\<lambda>s. orig\<lparr>lr_SeverityText := s\<rparr>) buf wireType pos
      else if fieldNum = 5 then read_message AnyValue_UnmarshalProto (lr_Body orig) (\<lambda>v. orig\<lparr>lr_Body := v\<rparr>) buf wireType pos
      else if fieldNum = 6 then read_message KeyValue_UnmarshalProto KeyValue_zero (\<lambda>v. orig\<lparr>lr_Attributes := lr_Attributes orig @ [v]\<rparr>) buf wireType pos
      else if fieldNum = 7 then read_varint (\<lambda>num. orig\<lparr>lr_DroppedAttributesCount := ucast num\<rparr>) buf wireType pos
      else if fieldNum = 8 then read_i32 (\<lambda>num. orig\<lparr>lr_Flags := num\<rparr>) buf wireType pos
      else if fieldNum = 9 then read_message (ID_UnmarshalProto traceIDSize) (lr_TraceId orig) (\<lambda>v. orig\<lparr>lr_TraceId := v\<rparr>) buf wireType pos
      else if fieldNum = 10 then read_message (ID_UnmarshalProto spanIDSize) (lr_SpanId orig) (\<lambda>v. orig\<lparr>lr_SpanId := v\<rparr>) buf wireType pos
      else if fieldNum = 12 then read_bytes (\<lambda>s. orig\<lparr>lr_EventName := s\<rparr>) buf wireType pos
      else read_unknown orig buf wireType pos)"

definition LogRecord_UnmarshalProto :: "LogRecord unmarshaler" where
  "LogRecord_UnmarshalProto = unmarshal_body LogRecord_field"

definition LogRecord_bytes :: "LogRecord \<Rightarrow> byte list" where
  "LogRecord_bytes orig =
     (((((((((((if length (lr_EventName orig) > 0 then string_bytes [0x62] (lr_EventName orig) else [])
      @ string_bytes [0x52] (ID_bytes spanIDSize (lr_SpanId orig)))
      @ string_bytes [0x4a] (ID_bytes traceIDSize (lr_TraceId orig)))
      @ (if lr_Flags orig \<noteq> 0 then fixed_bytes [0x45] 4 (ucast (lr_Flags orig)) else []))
      @ (if lr_DroppedAttributesCount orig \<noteq> 0 then varint_field_bytes [0x38] (ucast (lr_DroppedAttributesCount orig)) else []))
      @ concat (map (\<lambda>v. string_bytes [0x32] (KeyValue_bytes v)) (lr_Attributes orig)))
      @ string_bytes [0x2a] (AnyValue_bytes (lr_Body orig)))
      @ (if length (lr_SeverityText orig) > 0 then string_bytes [0x1a] (lr_SeverityText orig) else []))
      @ (if lr_SeverityNumber orig \<noteq> 0 then varint_field_bytes [0x10] (scast (lr_SeverityNumber orig)) else []))
      @ (if lr_ObservedTimeUnixNano orig \<noteq> 0 then fixed_bytes [0x59] 8 (lr_ObservedTimeUnixNano orig) else []))
      @ (if lr_TimeUnixNano orig \<noteq> 0 then fixed_bytes [0x09] 8 (lr_TimeUnixNano orig) else []))"

definition LogRecord_wf :: "LogRecord \<Rightarrow> bool" where
  "LogRecord_wf orig \<longleftrightarrow> AnyValue_wf (lr_Body orig) \<and> list_all KeyValue_wf (lr_Attributes orig) \<and> ID_wf traceIDSize (lr_TraceId orig) \<and> ID_wf spanIDSize (lr_SpanId orig)"

lemma LogRecord_decodes:
  assumes "LogRecord_wf m"
  shows "decodes LogRecord_field (LogRecord_bytes m) LogRecord_zero m"
proof -
  note wf = assms [unfolded LogRecord_wf_def]
  have 1: "decodes LogRecord_field ((if length (lr_EventName m) > 0 then string_bytes [0x62] (lr_EventName m) else []))
      LogRecord_zero
      (LogRecord_zero\<lparr>lr_EventName := lr_EventName m\<rparr>)"
    by (rule decodes_opt_string [where fn = 12 and upd = "\<lambda>v. LogRecord_zero\<lparr>lr_EventName := v\<rparr>"]) (simp_all add: LogRecord_field_def LogRecord_zero_def)
  have 2: "decodes LogRecord_field (string_bytes [0x52] (ID_bytes spanIDSize (lr_SpanId m)))
      (LogRecord_zero\<lparr>lr_EventName := lr_EventName m\<rparr>)
      (LogRecord_zero\<lparr>lr_EventName := lr_EventName m, lr_SpanId := lr_SpanId m\<rparr>)"
    by (rule ident.decodes_message [where fn = 10 and upd = "\<lambda>v. LogRecord_zero\<lparr>lr_EventName := lr_EventName m, lr_SpanId := v\<rparr>"]) (simp_all add: LogRecord_field_def LogRecord_zero_def wf)
  have 3: "decodes LogRecord_field (string_bytes [0x4a] (ID_bytes traceIDSize (lr_TraceId m)))
      (LogRecord_zero\<lparr>lr_EventName := lr_EventName m, lr_SpanId := lr_SpanId m\<rparr>)
      (LogRecord_zero\<lparr>lr_EventName := lr_EventName m, lr_SpanId := lr_SpanId m, lr_TraceId := lr_TraceId m\<rparr>)"
    by (rule ident.decodes_message [where fn = 9 and upd = "\<lambda>v. LogRecord_zero\<lparr>lr_EventName := lr_EventName m, lr_SpanId := lr_SpanId m, lr_TraceId := v\<rparr>"]) (simp_all add: LogRecord_field_def LogRecord_zero_def wf)
  have 4: "decodes LogRecord_field ((if lr_Flags m \<noteq> 0 then fixed_bytes [0x45] 4 (ucast (lr_Flags m)) else []))
      (LogRecord_zero\<lparr>lr_EventName := lr_EventName m, lr_SpanId := lr_SpanId m, lr_TraceId := lr_TraceId m\<rparr>)
      (LogRecord_zero\<lparr>lr_EventName := lr_EventName m, lr_SpanId := lr_SpanId m, lr_TraceId := lr_TraceId m, lr_Flags := lr_Flags m\<rparr>)"
    by (rule decodes_opt_fixed32 [where fn = 8 and upd = "\<lambda>v. LogRecord_zero\<lparr>lr_EventName := lr_EventName m, lr_SpanId := lr_SpanId m, lr_TraceId := lr_TraceId m, lr_Flags := v\<rparr>"]) (simp_all add: LogRecord_field_def LogRecord_zero_def)
  have 5: "decodes LogRecord_field ((if lr_DroppedAttributesCount m \<noteq> 0 then varint_field_bytes [0x38] (ucast (lr_DroppedAttributesCount m)) else []))
      (LogRecord_zero\<lparr>lr_EventName := lr_EventName m, lr_SpanId := lr_SpanId m, lr_TraceId := lr_TraceId m, lr_Flags := lr_Flags m\<rparr>)
      (LogRecord_zero\<lparr>lr_EventName := lr_EventName m, lr_SpanId := lr_SpanId m, lr_TraceId := lr_TraceId m, lr_Flags := lr_Flags m, lr_DroppedAttributesCount := lr_DroppedAttributesCount m\<rparr>)"
    by (rule decodes_opt_varint [where fn = 7 and enc = ucast and dec = ucast and upd = "\<lambda>v. LogRecord_zero\<lparr>lr_EventName := lr_EventName m, lr_SpanId := lr_SpanId m, lr_TraceId := lr_TraceId m, lr_Flags := lr_Flags m, lr_DroppedAttributesCount := v\<rparr>"]) (simp_all add: LogRecord_field_def LogRecord_zero_def ucast_ucast_32)
  have 6: "decodes LogRecord_field (concat (map (\<lambda>v. string_bytes [0x32] (KeyValue_bytes v)) (lr_Attributes m)))
      (LogRecord_zero\<lparr>lr_EventName := lr_EventName m, lr_SpanId := lr_SpanId m, lr_TraceId := lr_TraceId m, lr_Flags := lr_Flags m, lr_DroppedAttributesCount := lr_DroppedAttributesCount m\<rparr>)
      (LogRecord_zero\<lparr>lr_EventName := lr_EventName m, lr_SpanId := lr_SpanId m, lr_TraceId := lr_TraceId m, lr_Flags := lr_Flags m, lr_DroppedAttributesCount := lr_DroppedAttributesCount m, lr_Attributes := lr_Attributes m\<rparr>)"
    by (rule key_value.decodes_repeated_message [where fn = 6 and upd = "\<lambda>v. LogRecord_zero\<lparr>lr_EventName := lr_EventName m, lr_SpanId := lr_SpanId m, lr_TraceId := lr_TraceId m, lr_Flags := lr_Flags m, lr_DroppedAttributesCount := lr_DroppedAttributesCount m, lr_Attributes := v\<rparr>"]) (simp_all add: LogRecord_field_def LogRecord_zero_def wf)
  have 7: "decodes LogRecord_field (string_bytes [0x2a] (AnyValue_bytes (lr_Body m)))
      (LogRecord_zero\<lparr>lr_EventName := lr_EventName m, lr_SpanId := lr_SpanId m, lr_TraceId := lr_TraceId m, lr_Flags := lr_Flags m, lr_DroppedAttributesCount := lr_DroppedAttributesCount m, lr_Attributes := lr_Attributes m\<rparr>)
      (LogRecord_zero\<lparr>lr_EventName := lr_EventName m, lr_SpanId := lr_SpanId m, lr_TraceId := lr_TraceId m, lr_Flags := lr_Flags m, lr_DroppedAttributesCount := lr_DroppedAttributesCount m, lr_Attributes := lr_Attributes m, lr_Body := lr_Body m\<rparr>)"
    by (rule any_value.decodes_message [where fn = 5 and upd = "\<lambda>v. LogRecord_zero\<lparr>lr_EventName := lr_EventName m, lr_SpanId := lr_SpanId m, lr_TraceId := lr_TraceId m, lr_Flags := lr_Flags m, lr_DroppedAttributesCount := lr_DroppedAttributesCount m, lr_Attributes := lr_Attributes m, lr_Body := v\<rparr>"]) (simp_all add: LogRecord_field_def LogRecord_zero_def wf)
  have 8: "decodes LogRecord_field ((if length (lr_SeverityText m) > 0 then string_bytes [0x1a] (lr_SeverityText m) else []))
      (LogRecord_zero\<lparr>lr_EventName := lr_EventName m, lr_SpanId := lr_SpanId m, lr_TraceId := lr_TraceId m, lr_Flags := lr_Flags m, lr_DroppedAttributesCount := lr_DroppedAttributesCount m, lr_Attributes := lr_Attributes m, lr_Body := lr_Body m\<rparr>)
      (LogRecord_zero\<lparr>lr_EventName := lr_EventName m, lr_SpanId := lr_SpanId m, lr_TraceId := lr_TraceId m, lr_Flags := lr_Flags m, lr_DroppedAttributesCount := lr_DroppedAttributesCount m, lr_Attributes := lr_Attributes m, lr_Body := lr_Body m, lr_SeverityText := lr_SeverityText m\<rparr>)"
    by (rule decodes_opt_string [where fn = 3 and upd = "\<lambda>v. LogRecord_zero\<lparr>lr_EventName := lr_EventName m, lr_SpanId := lr_SpanId m, lr_TraceId := lr_TraceId m, lr_Flags := lr_Flags m, lr_DroppedAttributesCount := lr_DroppedAttributesCount m, lr_Attributes := lr_Attributes m, lr_Body := lr_Body m, lr_SeverityText := v\<rparr>"]) (simp_all add: LogRecord_field_def LogRecord_zero_def)
  have 9: "decodes LogRecord_field ((if lr_SeverityNumber m \<noteq> 0 then varint_field_bytes [0x10] (scast (lr_SeverityNumber m)) else []))
      (LogRecord_zero\<lparr>lr_EventName := lr_EventName m, lr_SpanId := lr_SpanId m, lr_TraceId := lr_TraceId m, lr_Flags := lr_Flags m, lr_DroppedAttributesCount := lr_DroppedAttributesCount m, lr_Attributes := lr_Attributes m, lr_Body := lr_Body m, lr_SeverityText := lr_SeverityText m\<rparr>)
      (LogRecord_zero\<lparr>lr_EventName := lr_EventName m, lr_SpanId := lr_SpanId m, lr_TraceId := lr_TraceId m, lr_Flags := lr_Flags m, lr_DroppedAttributesCount := lr_DroppedAttributesCount m, lr_Attributes := lr_Attributes m, lr_Body := lr_Body m, lr_SeverityText := lr_SeverityText m, lr_SeverityNumber := lr_SeverityNumber m\<rparr>)"
    by (rule decodes_opt_varint [where fn = 2 and enc = scast and dec = ucast and upd = "\<lambda>v. LogRecord_zero\<lparr>lr_EventName := lr_EventName m, lr_SpanId := lr_SpanId m, lr_TraceId := lr_TraceId m, lr_Flags := lr_Flags m, lr_DroppedAttributesCount := lr_DroppedAttributesCount m, lr_Attributes := lr_Attributes m, lr_Body := lr_Body m, lr_SeverityText := lr_SeverityText m, lr_SeverityNumber := v\<rparr>"]) (simp_all add: LogRecord_field_def LogRecord_zero_def ucast_scast_32)
  have 10: "decodes LogRecord_field ((if lr_ObservedTimeUnixNano m \<noteq> 0 then fixed_bytes [0x59] 8 (lr_ObservedTimeUnixNano m) else []))
      (LogRecord_zero\<lparr>lr_EventName := lr_EventName m, lr_SpanId := lr_SpanId m, lr_TraceId := lr_TraceId m, lr_Flags := lr_Flags m, lr_DroppedAttributesCount := lr_DroppedAttributesCount m, lr_Attributes := lr_Attributes m, lr_Body := lr_Body m, lr_SeverityText := lr_SeverityText m, lr_SeverityNumber := lr_SeverityNumber m\<rparr>)
      (LogRecord_zero\<lparr>lr_EventName := lr_EventName m, lr_SpanId := lr_SpanId m, lr_TraceId := lr_TraceId m, lr_Flags := lr_Flags m, lr_DroppedAttributesCount := lr_DroppedAttributesCount m, lr_Attributes := lr_Attributes m, lr_Body := lr_Body m, lr_SeverityText := lr_SeverityText m, lr_SeverityNumber := lr_SeverityNumber m, lr_ObservedTimeUnixNano := lr_ObservedTimeUnixNano m\<rparr>)"
    by (rule decodes_opt_fixed64 [where fn = 11 and upd = "\<lambda>v. LogRecord_zero\<lparr>lr_EventName := lr_EventName m, lr_SpanId := lr_SpanId m, lr_TraceId := lr_TraceId m, lr_Flags := lr_Flags m, lr_DroppedAttributesCount := lr_DroppedAttributesCount m, lr_Attributes := lr_Attributes m, lr_Body := lr_Body m, lr_SeverityText := lr_SeverityText m, lr_SeverityNumber := lr_SeverityNumber m, lr_ObservedTimeUnixNano := v\<rparr>"]) (simp_all add: LogRecord_field_def LogRecord_zero_def)
  have 11: "decodes LogRecord_field ((if lr_TimeUnixNano m \<noteq> 0 then fixed_bytes [0x09] 8 (lr_TimeUnixNano m) else []))
      (LogRecord_zero\<lparr>lr_EventName := lr_EventName m, lr_SpanId := lr_SpanId m, lr_TraceId := lr_TraceId m, lr_Flags := lr_Flags m, lr_DroppedAttributesCount := lr_DroppedAttributesCount m, lr_Attributes := lr_Attributes m, lr_Body := lr_Body m, lr_SeverityText := lr_SeverityText m, lr_SeverityNumber := lr_SeverityNumber m, lr_ObservedTimeUnixNano := lr_ObservedTimeUnixNano m\<rparr>)
      (LogRecord_zero\<lparr>lr_EventName := lr_EventName m, lr_SpanId := lr_SpanId m, lr_TraceId := lr_TraceId m, lr_Flags := lr_Flags m, lr_DroppedAttributesCount := lr_DroppedAttributesCount m, lr_Attributes := lr_Attributes m, lr_Body := lr_Body m, lr_SeverityText := lr_SeverityText m, lr_SeverityNumber := lr_SeverityNumber m, lr_ObservedTimeUnixNano := lr_ObservedTimeUnixNano m, lr_TimeUnixNano := lr_TimeUnixNano m\<rparr>)"
    by (rule decodes_opt_fixed64 [where fn = 1 and upd = "\<lambda>v. LogRecord_zero\<lparr>lr_EventName := lr_EventName m, lr_SpanId := lr_SpanId m, lr_TraceId := lr_TraceId m, lr_Flags := lr_Flags m, lr_DroppedAttributesCount := lr_DroppedAttributesCount m, lr_Attributes := lr_Attributes m, lr_Body := lr_Body m, lr_SeverityText := lr_SeverityText m, lr_SeverityNumber := lr_SeverityNumber m, lr_ObservedTimeUnixNano := lr_ObservedTimeUnixNano m, lr_TimeUnixNano := v\<rparr>"]) (simp_all add: LogRecord_field_def LogRecord_zero_def)
  have eq: "(LogRecord_zero\<lparr>lr_EventName := lr_EventName m, lr_SpanId := lr_SpanId m, lr_TraceId := lr_TraceId m, lr_Flags := lr_Flags m, lr_DroppedAttributesCount := lr_DroppedAttributesCount m, lr_Attributes := lr_Attributes m, lr_Body := lr_Body m, lr_SeverityText := lr_SeverityText m, lr_SeverityNumber := lr_SeverityNumber m, lr_ObservedTimeUnixNano := lr_ObservedTimeUnixNano m, lr_TimeUnixNano := lr_TimeUnixNano m\<rparr>) = m"
    by (cases m) (simp add: LogRecord_zero_def)
  from decodes_append [OF decodes_append [OF decodes_append [OF decodes_append [OF decodes_append [OF decodes_append [OF decodes_append [OF decodes_append [OF decodes_append [OF decodes_append [OF 1 2] 3] 4] 5] 6] 7] 8] 9] 10] 11]
  show ?thesis unfolding eq LogRecord_bytes_def .
qed

interpretation log_record: proto_message LogRecord_SizeProto LogRecord_MarshalProto LogRecord_UnmarshalProto LogRecord_zero LogRecord_bytes LogRecord_wf
proof unfold_locales
  fix m assume wf: "LogRecord_wf m"
  then show "LogRecord_SizeProto m = length (LogRecord_bytes m)"
    unfolding LogRecord_SizeProto_def LogRecord_bytes_def LogRecord_wf_def
    by (simp add: length_if_Nil field_sizes repeated_string_size any_value.repeated_size any_value.size key_value.repeated_size key_value.size ident.repeated_size ident.size del: length_concat split del: if_split cong: if_cong)
  show "marshals (LogRecord_MarshalProto m) (LogRecord_bytes m)"
    unfolding LogRecord_MarshalProto_def LogRecord_bytes_def
    by (intro marshals_body emit) (use wf in \<open>simp_all add: LogRecord_wf_def\<close>)
  show "LogRecord_UnmarshalProto (LogRecord_bytes m) LogRecord_zero = Some (Inr m)" if "valid_buf (LogRecord_bytes m)"
    unfolding LogRecord_UnmarshalProto_def by (rule unmarshal_body_decodes [OF LogRecord_decodes [OF wf] that])
next
  fix buf and m :: LogRecord
  assume "valid_buf buf"
  then show "unmarshal_ok (LogRecord_UnmarshalProto buf m)"
    unfolding LogRecord_UnmarshalProto_def LogRecord_field_def by (intro unmarshal_body_ok reader_ok) simp_all
qed

section \<open>ScopeLogs\<close>

record ScopeLogs =
  sl_Scope :: InstrumentationScope
  sl_LogRecords :: "LogRecord list"
  sl_SchemaUrl :: "byte list"

definition ScopeLogs_zero :: ScopeLogs where
  "ScopeLogs_zero = \<lparr>sl_Scope = InstrumentationScope_zero, sl_LogRecords = [], sl_SchemaUrl = []\<rparr>"

definition ScopeLogs_SizeProto :: "ScopeLogs \<Rightarrow> nat" where
  "ScopeLogs_SizeProto orig =
     len_size 1 (InstrumentationScope_SizeProto (sl_Scope orig))
     + sum_list (map (\<lambda>v. len_size 1 (LogRecord_SizeProto v)) (sl_LogRecords orig))
     + (if length (sl_SchemaUrl orig) > 0 then len_size 1 (length (sl_SchemaUrl orig)) else 0)"

definition ScopeLogs_MarshalProto :: "ScopeLogs \<Rightarrow> marshaler" where
  "ScopeLogs_MarshalProto orig = marshal_body
     (message_block [0x0a] (InstrumentationScope_MarshalProto (sl_Scope orig))
      @ concat (map (\<lambda>v. message_block [0x12] (LogRecord_MarshalProto v)) (rev (sl_LogRecords orig)))
      @ (if length (sl_SchemaUrl orig) > 0 then string_block [0x1a] (sl_SchemaUrl orig) else []))"

definition ScopeLogs_field :: "ScopeLogs field_reader" where
  "ScopeLogs_field buf fieldNum wireType pos orig =
     (if fieldNum = 1 then read_message InstrumentationScope_UnmarshalProto (sl_Scope orig) (\<lambda>v. orig\<lparr>sl_Scope := v\<rparr>) buf wireType pos
      else if fieldNum = 2 then read_message LogRecord_UnmarshalProto LogRecord_zero (\<lambda>v. orig\<lparr>sl_LogRecords := sl_LogRecords orig @ [v]\<rparr>) buf wireType pos
      else if fieldNum = 3 then read_bytes (\<lambda>s. orig\<lparr>sl_SchemaUrl := s\<rparr>) buf wireType pos
      else read_unknown orig buf wireType pos)"

definition ScopeLogs_UnmarshalProto :: "ScopeLogs unmarshaler" where
  "ScopeLogs_UnmarshalProto = unmarshal_body ScopeLogs_field"

definition ScopeLogs_bytes :: "ScopeLogs \<Rightarrow> byte list" where
  "ScopeLogs_bytes orig =
     (((if length (sl_SchemaUrl orig) > 0 then string_bytes [0x1a] (sl_SchemaUrl orig) else [])
      @ concat (map (\<lambda>v. string_bytes [0x12] (LogRecord_bytes v)) (sl_LogRecords orig)))
      @ string_bytes [0x0a] (InstrumentationScope_bytes (sl_Scope orig)))"

definition ScopeLogs_wf :: "ScopeLogs \<Rightarrow> bool" where
  "ScopeLogs_wf orig \<longleftrightarrow> InstrumentationScope_wf (sl_Scope orig) \<and> list_all LogRecord_wf (sl_LogRecords orig)"

lemma ScopeLogs_decodes:
  assumes "ScopeLogs_wf m"
  shows "decodes ScopeLogs_field (ScopeLogs_bytes m) ScopeLogs_zero m"
proof -
  note wf = assms [unfolded ScopeLogs_wf_def]
  have 1: "decodes ScopeLogs_field ((if length (sl_SchemaUrl m) > 0 then string_bytes [0x1a] (sl_SchemaUrl m) else []))
      ScopeLogs_zero
      (ScopeLogs_zero\<lparr>sl_SchemaUrl := sl_SchemaUrl m\<rparr>)"
    by (rule decodes_opt_string [where fn = 3 and upd = "\<lambda>v. ScopeLogs_zero\<lparr>sl_SchemaUrl := v\<rparr>"]) (simp_all add: ScopeLogs_field_def ScopeLogs_zero_def)
  have 2: "decodes ScopeLogs_field (concat (map (\<lambda>v. string_bytes [0x12] (LogRecord_bytes v)) (sl_LogRecords m)))
      (ScopeLogs_zero\<lparr>sl_SchemaUrl := sl_SchemaUrl m\<rparr>)
      (ScopeLogs_zero\<lparr>sl_SchemaUrl := sl_SchemaUrl m, sl_LogRecords := sl_LogRecords m\<rparr>)"
    by (rule log_record.decodes_repeated_message [where fn = 2 and upd = "\<lambda>v. ScopeLogs_zero\<lparr>sl_SchemaUrl := sl_SchemaUrl m, sl_LogRecords := v\<rparr>"]) (simp_all add: ScopeLogs_field_def ScopeLogs_zero_def wf)
  have 3: "decodes ScopeLogs_field (string_bytes [0x0a] (InstrumentationScope_bytes (sl_Scope m)))
      (ScopeLogs_zero\<lparr>sl_SchemaUrl := sl_SchemaUrl m, sl_LogRecords := sl_LogRecords m\<rparr>)
      (ScopeLogs_zero\<lparr>sl_SchemaUrl := sl_SchemaUrl m, sl_LogRecords := sl_LogRecords m, sl_Scope := sl_Scope m\<rparr>)"
    by (rule scope.decodes_message [where fn = 1 and upd = "\<lambda>v. ScopeLogs_zero\<lparr>sl_SchemaUrl := sl_SchemaUrl m, sl_LogRecords := sl_LogRecords m, sl_Scope := v\<rparr>"]) (simp_all add: ScopeLogs_field_def ScopeLogs_zero_def wf)
  have eq: "(ScopeLogs_zero\<lparr>sl_SchemaUrl := sl_SchemaUrl m, sl_LogRecords := sl_LogRecords m, sl_Scope := sl_Scope m\<rparr>) = m"
    by (cases m) (simp add: ScopeLogs_zero_def)
  from decodes_append [OF decodes_append [OF 1 2] 3]
  show ?thesis unfolding eq ScopeLogs_bytes_def .
qed

interpretation scope_logs: proto_message ScopeLogs_SizeProto ScopeLogs_MarshalProto ScopeLogs_UnmarshalProto ScopeLogs_zero ScopeLogs_bytes ScopeLogs_wf
proof unfold_locales
  fix m assume wf: "ScopeLogs_wf m"
  then show "ScopeLogs_SizeProto m = length (ScopeLogs_bytes m)"
    unfolding ScopeLogs_SizeProto_def ScopeLogs_bytes_def ScopeLogs_wf_def
    by (simp add: length_if_Nil field_sizes repeated_string_size scope.repeated_size scope.size log_record.repeated_size log_record.size del: length_concat split del: if_split cong: if_cong)
  show "marshals (ScopeLogs_MarshalProto m) (ScopeLogs_bytes m)"
    unfolding ScopeLogs_MarshalProto_def ScopeLogs_bytes_def
    by (intro marshals_body emit) (use wf in \<open>simp_all add: ScopeLogs_wf_def\<close>)
  show "ScopeLogs_UnmarshalProto (ScopeLogs_bytes m) ScopeLogs_zero = Some (Inr m)" if "valid_buf (ScopeLogs_bytes m)"
    unfolding ScopeLogs_UnmarshalProto_def by (rule unmarshal_body_decodes [OF ScopeLogs_decodes [OF wf] that])
next
  fix buf and m :: ScopeLogs
  assume "valid_buf buf"
  then show "unmarshal_ok (ScopeLogs_UnmarshalProto buf m)"
    unfolding ScopeLogs_UnmarshalProto_def ScopeLogs_field_def by (intro unmarshal_body_ok reader_ok) simp_all
qed

section \<open>ResourceLogs\<close>

record ResourceLogs =
  rl_Resource :: Resource
  rl_ScopeLogs :: "ScopeLogs list"
  rl_SchemaUrl :: "byte list"
  rl_DeprecatedScopeLogs :: "ScopeLogs list"

definition ResourceLogs_zero :: ResourceLogs where
  "ResourceLogs_zero = \<lparr>rl_Resource = Resource_zero, rl_ScopeLogs = [], rl_SchemaUrl = [], rl_DeprecatedScopeLogs = []\<rparr>"

definition ResourceLogs_SizeProto :: "ResourceLogs \<Rightarrow> nat" where
  "ResourceLogs_SizeProto orig =
     len_size 1 (Resource_SizeProto (rl_Resource orig))
     + sum_list (map (\<lambda>v. len_size 1 (ScopeLogs_SizeProto v)) (rl_ScopeLogs orig))
     + (if length (rl_SchemaUrl orig) > 0 then len_size 1 (length (rl_SchemaUrl orig)) else 0)
     + sum_list (map (\<lambda>v. len_size 2 (ScopeLogs_SizeProto v)) (rl_DeprecatedScopeLogs orig))"

definition ResourceLogs_MarshalProto :: "ResourceLogs \<Rightarrow> marshaler" where
  "ResourceLogs_MarshalProto orig = marshal_body
     (message_block [0x0a] (Resource_MarshalProto (rl_Resource orig))
      @ concat (map (\<lambda>v. message_block [0x12] (ScopeLogs_MarshalProto v)) (rev (rl_ScopeLogs orig)))
      @ (if length (rl_SchemaUrl orig) > 0 then string_block [0x1a] (rl_SchemaUrl orig) else [])
      @ concat (map (\<lambda>v. message_block [0xc2, 0x3e] (ScopeLogs_MarshalProto v)) (rev (rl_DeprecatedScopeLogs orig))))"

definition ResourceLogs_field :: "ResourceLogs field_reader" where
  "ResourceLogs_field buf fieldNum wireType pos orig =
     (if fieldNum = 1 then read_message Resource_UnmarshalProto (rl_Resource orig) (\<lambda>v. orig\<lparr>rl_Resource := v\<rparr>) buf wireType pos
      else if fieldNum = 2 then read_message ScopeLogs_UnmarshalProto ScopeLogs_zero (\<lambda>v. orig\<lparr>rl_ScopeLogs := rl_ScopeLogs orig @ [v]\<rparr>) buf wireType pos
      else if fieldNum = 3 then read_bytes (\<lambda>s. orig\<lparr>rl_SchemaUrl := s\<rparr>) buf wireType pos
      else if fieldNum = 1000 then read_message ScopeLogs_UnmarshalProto ScopeLogs_zero (\<lambda>v. orig\<lparr>rl_DeprecatedScopeLogs := rl_DeprecatedScopeLogs orig @ [v]\<rparr>) buf wireType pos
      else read_unknown orig buf wireType pos)"

definition ResourceLogs_UnmarshalProto :: "ResourceLogs unmarshaler" where
  "ResourceLogs_UnmarshalProto = unmarshal_body ResourceLogs_field"

definition ResourceLogs_bytes :: "ResourceLogs \<Rightarrow> byte list" where
  "ResourceLogs_bytes orig =
     (((concat (map (\<lambda>v. string_bytes [0xc2, 0x3e] (ScopeLogs_bytes v)) (rl_DeprecatedScopeLogs orig))
      @ (if length (rl_SchemaUrl orig) > 0 then string_bytes [0x1a] (rl_SchemaUrl orig) else []))
      @ concat (map (\<lambda>v. string_bytes [0x12] (ScopeLogs_bytes v)) (rl_ScopeLogs orig)))
      @ string_bytes [0x0a] (Resource_bytes (rl_Resource orig)))"

definition ResourceLogs_wf :: "ResourceLogs \<Rightarrow> bool" where
  "ResourceLogs_wf orig \<longleftrightarrow> Resource_wf (rl_Resource orig) \<and> list_all ScopeLogs_wf (rl_ScopeLogs orig) \<and> list_all ScopeLogs_wf (rl_DeprecatedScopeLogs orig)"

lemma ResourceLogs_decodes:
  assumes "ResourceLogs_wf m"
  shows "decodes ResourceLogs_field (ResourceLogs_bytes m) ResourceLogs_zero m"
proof -
  note wf = assms [unfolded ResourceLogs_wf_def]
  have 1: "decodes ResourceLogs_field (concat (map (\<lambda>v. string_bytes [0xc2, 0x3e] (ScopeLogs_bytes v)) (rl_DeprecatedScopeLogs m)))
      ResourceLogs_zero
      (ResourceLogs_zero\<lparr>rl_DeprecatedScopeLogs := rl_DeprecatedScopeLogs m\<rparr>)"
    by (rule scope_logs.decodes_repeated_message [where fn = 1000 and upd = "\<lambda>v. ResourceLogs_zero\<lparr>rl_DeprecatedScopeLogs := v\<rparr>"]) (simp_all add: ResourceLogs_field_def ResourceLogs_zero_def wf)
  have 2: "decodes ResourceLogs_field ((if length (rl_SchemaUrl m) > 0 then string_bytes [0x1a] (rl_SchemaUrl m) else []))
      (ResourceLogs_zero\<lparr>rl_DeprecatedScopeLogs := rl_DeprecatedScopeLogs m\<rparr>)
      (ResourceLogs_zero\<lparr>rl_DeprecatedScopeLogs := rl_DeprecatedScopeLogs m, rl_SchemaUrl := rl_SchemaUrl m\<rparr>)"
    by (rule decodes_opt_string [where fn = 3 and upd = "\<lambda>v. ResourceLogs_zero\<lparr>rl_DeprecatedScopeLogs := rl_DeprecatedScopeLogs m, rl_SchemaUrl := v\<rparr>"]) (simp_all add: ResourceLogs_field_def ResourceLogs_zero_def)
  have 3: "decodes ResourceLogs_field (concat (map (\<lambda>v. string_bytes [0x12] (ScopeLogs_bytes v)) (rl_ScopeLogs m)))
      (ResourceLogs_zero\<lparr>rl_DeprecatedScopeLogs := rl_DeprecatedScopeLogs m, rl_SchemaUrl := rl_SchemaUrl m\<rparr>)
      (ResourceLogs_zero\<lparr>rl_DeprecatedScopeLogs := rl_DeprecatedScopeLogs m, rl_SchemaUrl := rl_SchemaUrl m, rl_ScopeLogs := rl_ScopeLogs m\<rparr>)"
    by (rule scope_logs.decodes_repeated_message [where fn = 2 and upd = "\<lambda>v. ResourceLogs_zero\<lparr>rl_DeprecatedScopeLogs := rl_DeprecatedScopeLogs m, rl_SchemaUrl := rl_SchemaUrl m, rl_ScopeLogs := v\<rparr>"]) (simp_all add: ResourceLogs_field_def ResourceLogs_zero_def wf)
  have 4: "decodes ResourceLogs_field (string_bytes [0x0a] (Resource_bytes (rl_Resource m)))
      (ResourceLogs_zero\<lparr>rl_DeprecatedScopeLogs := rl_DeprecatedScopeLogs m, rl_SchemaUrl := rl_SchemaUrl m, rl_ScopeLogs := rl_ScopeLogs m\<rparr>)
      (ResourceLogs_zero\<lparr>rl_DeprecatedScopeLogs := rl_DeprecatedScopeLogs m, rl_SchemaUrl := rl_SchemaUrl m, rl_ScopeLogs := rl_ScopeLogs m, rl_Resource := rl_Resource m\<rparr>)"
    by (rule resource.decodes_message [where fn = 1 and upd = "\<lambda>v. ResourceLogs_zero\<lparr>rl_DeprecatedScopeLogs := rl_DeprecatedScopeLogs m, rl_SchemaUrl := rl_SchemaUrl m, rl_ScopeLogs := rl_ScopeLogs m, rl_Resource := v\<rparr>"]) (simp_all add: ResourceLogs_field_def ResourceLogs_zero_def wf)
  have eq: "(ResourceLogs_zero\<lparr>rl_DeprecatedScopeLogs := rl_DeprecatedScopeLogs m, rl_SchemaUrl := rl_SchemaUrl m, rl_ScopeLogs := rl_ScopeLogs m, rl_Resource := rl_Resource m\<rparr>) = m"
    by (cases m) (simp add: ResourceLogs_zero_def)
  from decodes_append [OF decodes_append [OF decodes_append [OF 1 2] 3] 4]
  show ?thesis unfolding eq ResourceLogs_bytes_def .
qed

interpretation resource_logs: proto_message ResourceLogs_SizeProto ResourceLogs_MarshalProto ResourceLogs_UnmarshalProto ResourceLogs_zero ResourceLogs_bytes ResourceLogs_wf
proof unfold_locales
  fix m assume wf: "ResourceLogs_wf m"
  then show "ResourceLogs_SizeProto m = length (ResourceLogs_bytes m)"
    unfolding ResourceLogs_SizeProto_def ResourceLogs_bytes_def ResourceLogs_wf_def
    by (simp add: length_if_Nil field_sizes repeated_string_size resource.repeated_size resource.size scope_logs.repeated_size scope_logs.size del: length_concat split del: if_split cong: if_cong)
  show "marshals (ResourceLogs_MarshalProto m) (ResourceLogs_bytes m)"
    unfolding ResourceLogs_MarshalProto_def ResourceLogs_bytes_def
    by (intro marshals_body emit) (use wf in \<open>simp_all add: ResourceLogs_wf_def\<close>)
  show "ResourceLogs_UnmarshalProto (ResourceLogs_bytes m) ResourceLogs_zero = Some (Inr m)" if "valid_buf (ResourceLogs_bytes m)"
    unfolding ResourceLogs_UnmarshalProto_def by (rule unmarshal_body_decodes [OF ResourceLogs_decodes [OF wf] that])
next
  fix buf and m :: ResourceLogs
  assume "valid_buf buf"
  then show "unmarshal_ok (ResourceLogs_UnmarshalProto buf m)"
    unfolding ResourceLogs_UnmarshalProto_def ResourceLogs_field_def by (intro unmarshal_body_ok reader_ok) simp_all
qed

section \<open>LogsData\<close>

record LogsData =
  ld_ResourceLogs :: "ResourceLogs list"

definition LogsData_zero :: LogsData where
  "LogsData_zero = \<lparr>ld_ResourceLogs = []\<rparr>"

definition LogsData_SizeProto :: "LogsData \<Rightarrow> nat" where
  "LogsData_SizeProto orig =
     sum_list (map (\<lambda>v. len_size 1 (ResourceLogs_SizeProto v)) (ld_ResourceLogs orig))"

definition LogsData_MarshalProto :: "LogsData \<Rightarrow> marshaler" where
  "LogsData_MarshalProto orig = marshal_body
     (concat (map (\<lambda>v. message_block [0x0a] (ResourceLogs_MarshalProto v)) (rev (ld_ResourceLogs orig))))"

definition LogsData_field :: "LogsData field_reader" where
  "LogsData_field buf fieldNum wireType pos orig =
     (if fieldNum = 1 then read_message ResourceLogs_UnmarshalProto ResourceLogs_zero (\<lambda>v. orig\<lparr>ld_ResourceLogs := ld_ResourceLogs orig @ [v]\<rparr>) buf wireType pos
      else read_unknown orig buf wireType pos)"

definition LogsData_UnmarshalProto :: "LogsData unmarshaler" where
  "LogsData_UnmarshalProto = unmarshal_body LogsData_field"

definition LogsData_bytes :: "LogsData \<Rightarrow> byte list" where
  "LogsData_bytes orig =
     concat (map (\<lambda>v. string_bytes [0x0a] (ResourceLogs_bytes v)) (ld_ResourceLogs orig))"

definition LogsData_wf :: "LogsData \<Rightarrow> bool" where
  "LogsData_wf orig \<longleftrightarrow> list_all ResourceLogs_wf (ld_ResourceLogs orig)"

lemma LogsData_decodes:
  assumes "LogsData_wf m"
  shows "decodes LogsData_field (LogsData_bytes m) LogsData_zero m"
proof -
  note wf = assms [unfolded LogsData_wf_def]
  have 1: "decodes LogsData_field (concat (map (\<lambda>v. string_bytes [0x0a] (ResourceLogs_bytes v)) (ld_ResourceLogs m)))
      LogsData_zero
      (LogsData_zero\<lparr>ld_ResourceLogs := ld_ResourceLogs m\<rparr>)"
    by (rule resource_logs.decodes_repeated_message [where fn = 1 and upd = "\<lambda>v. LogsData_zero\<lparr>ld_ResourceLogs := v\<rparr>"]) (simp_all add: LogsData_field_def LogsData_zero_def wf)
  have eq: "(LogsData_zero\<lparr>ld_ResourceLogs := ld_ResourceLogs m\<rparr>) = m"
    by (cases m) (simp add: LogsData_zero_def)
  from 1
  show ?thesis unfolding eq LogsData_bytes_def .
qed

interpretation logs_data: proto_message LogsData_SizeProto LogsData_MarshalProto LogsData_UnmarshalProto LogsData_zero LogsData_bytes LogsData_wf
proof unfold_locales
  fix m assume wf: "LogsData_wf m"
  then show "LogsData_SizeProto m = length (LogsData_bytes m)"
    unfolding LogsData_SizeProto_def LogsData_bytes_def LogsData_wf_def
    by (simp add: length_if_Nil field_sizes repeated_string_size resource_logs.repeated_size resource_logs.size del: length_concat split del: if_split cong: if_cong)
  show "marshals (LogsData_MarshalProto m) (LogsData_bytes m)"
    unfolding LogsData_MarshalProto_def LogsData_bytes_def
    by (intro marshals_body emit) (use wf in \<open>simp_all add: LogsData_wf_def\<close>)
  show "LogsData_UnmarshalProto (LogsData_bytes m) LogsData_zero = Some (Inr m)" if "valid_buf (LogsData_bytes m)"
    unfolding LogsData_UnmarshalProto_def by (rule unmarshal_body_decodes [OF LogsData_decodes [OF wf] that])
next
  fix buf and m :: LogsData
  assume "valid_buf buf"
  then show "unmarshal_ok (LogsData_UnmarshalProto buf m)"
    unfolding LogsData_UnmarshalProto_def LogsData_field_def by (intro unmarshal_body_ok reader_ok) simp_all
qed

section \<open>ExportLogsServiceRequest\<close>

record ExportLogsServiceRequest =
  lq_ResourceLogs :: "ResourceLogs list"

definition ExportLogsServiceRequest_zero :: ExportLogsServiceRequest where
  "ExportLogsServiceRequest_zero = \<lparr>lq_ResourceLogs = []\<rparr>"

definition ExportLogsServiceRequest_SizeProto :: "ExportLogsServiceRequest \<Rightarrow> nat" where
  "ExportLogsServiceRequest_SizeProto orig =
     sum_list (map (\<lambda>v. len_size 1 (ResourceLogs_SizeProto v)) (lq_ResourceLogs orig))"

definition ExportLogsServiceRequest_MarshalProto :: "ExportLogsServiceRequest \<Rightarrow> marshaler" where
  "ExportLogsServiceRequest_MarshalProto orig = marshal_body
     (concat (map (\<lambda>v. message_block [0x0a] (ResourceLogs_MarshalProto v)) (rev (lq_ResourceLogs orig))))"

definition ExportLogsServiceRequest_field :: "ExportLogsServiceRequest field_reader" where
  "ExportLogsServiceRequest_field buf fieldNum wireType pos orig =
     (if fieldNum = 1 then read_message ResourceLogs_UnmarshalProto ResourceLogs_zero (\<lambda>v. orig\<lparr>lq_ResourceLogs := lq_ResourceLogs orig @ [v]\<rparr>) buf wireType pos
      else read_unknown orig buf wireType pos)"

definition ExportLogsServiceRequest_UnmarshalProto :: "ExportLogsServiceRequest unmarshaler" where
  "ExportLogsServiceRequest_UnmarshalProto = unmarshal_body ExportLogsServiceRequest_field"

definition ExportLogsServiceRequest_bytes :: "ExportLogsServiceRequest \<Rightarrow> byte list" where
  "ExportLogsServiceRequest_bytes orig =
     concat (map (\<lambda>v. string_bytes [0x0a] (ResourceLogs_bytes v)) (lq_ResourceLogs orig))"

definition ExportLogsServiceRequest_wf :: "ExportLogsServiceRequest \<Rightarrow> bool" where
  "ExportLogsServiceRequest_wf orig \<longleftrightarrow> list_all ResourceLogs_wf (lq_ResourceLogs orig)"

lemma ExportLogsServiceRequest_decodes:
  assumes "ExportLogsServiceRequest_wf m"
  shows "decodes ExportLogsServiceRequest_field (ExportLogsServiceRequest_bytes m) ExportLogsServiceRequest_zero m"
proof -
  note wf = assms [unfolded ExportLogsServiceRequest_wf_def]
  have 1: "decodes ExportLogsServiceRequest_field (concat (map (\<lambda>v. string_bytes [0x0a] (ResourceLogs_bytes v)) (lq_ResourceLogs m)))
      ExportLogsServiceRequest_zero
      (ExportLogsServiceRequest_zero\<lparr>lq_ResourceLogs := lq_ResourceLogs m\<rparr>)"
    by (rule resource_logs.decodes_repeated_message [where fn = 1 and upd = "\<lambda>v. ExportLogsServiceRequest_zero\<lparr>lq_ResourceLogs := v\<rparr>"]) (simp_all add: ExportLogsServiceRequest_field_def ExportLogsServiceRequest_zero_def wf)
  have eq: "(ExportLogsServiceRequest_zero\<lparr>lq_ResourceLogs := lq_ResourceLogs m\<rparr>) = m"
    by (cases m) (simp add: ExportLogsServiceRequest_zero_def)
  from 1
  show ?thesis unfolding eq ExportLogsServiceRequest_bytes_def .
qed

interpretation logs_request: proto_message ExportLogsServiceRequest_SizeProto ExportLogsServiceRequest_MarshalProto ExportLogsServiceRequest_UnmarshalProto ExportLogsServiceRequest_zero ExportLogsServiceRequest_bytes ExportLogsServiceRequest_wf
proof unfold_locales
  fix m assume wf: "ExportLogsServiceRequest_wf m"
  then show "ExportLogsServiceRequest_SizeProto m = length (ExportLogsServiceRequest_bytes m)"
    unfolding ExportLogsServiceRequest_SizeProto_def ExportLogsServiceRequest_bytes_def ExportLogsServiceRequest_wf_def
    by (simp add: length_if_Nil field_sizes repeated_string_size resource_logs.repeated_size resource_logs.size del: length_concat split del: if_split cong: if_cong)
  show "marshals (ExportLogsServiceRequest_MarshalProto m) (ExportLogsServiceRequest_bytes m)"
    unfolding ExportLogsServiceRequest_MarshalProto_def ExportLogsServiceRequest_bytes_def
    by (intro marshals_body emit) (use wf in \<open>simp_all add: ExportLogsServiceRequest_wf_def\<close>)
  show "ExportLogsServiceRequest_UnmarshalProto (ExportLogsServiceRequest_bytes m) ExportLogsServiceRequest_zero = Some (Inr m)" if "valid_buf (ExportLogsServiceRequest_bytes m)"
    unfolding ExportLogsServiceRequest_UnmarshalProto_def by (rule unmarshal_body_decodes [OF ExportLogsServiceRequest_decodes [OF wf] that])
next
  fix buf and m :: ExportLogsServiceRequest
  assume "valid_buf buf"
  then show "unmarshal_ok (ExportLogsServiceRequest_UnmarshalProto buf m)"
    unfolding ExportLogsServiceRequest_UnmarshalProto_def ExportLogsServiceRequest_field_def by (intro unmarshal_body_ok reader_ok) simp_all
qed

section \<open>ExportLogsPartialSuccess\<close>

record ExportLogsPartialSuccess =
  lp_RejectedLogRecords :: u64
  lp_ErrorMessage :: "byte list"

definition ExportLogsPartialSuccess_zero :: ExportLogsPartialSuccess where
  "ExportLogsPartialSuccess_zero = \<lparr>lp_RejectedLogRecords = 0, lp_ErrorMessage = []\<rparr>"

definition ExportLogsPartialSuccess_SizeProto :: "ExportLogsPartialSuccess \<Rightarrow> nat" where
  "ExportLogsPartialSuccess_SizeProto orig =
     (if lp_RejectedLogRecords orig \<noteq> 0 then 1 + Sov (lp_RejectedLogRecords orig) else 0)
     + (if length (lp_ErrorMessage orig) > 0 then len_size 1 (length (lp_ErrorMessage orig)) else 0)"

definition ExportLogsPartialSuccess_MarshalProto :: "ExportLogsPartialSuccess \<Rightarrow> marshaler" where
  "ExportLogsPartialSuccess_MarshalProto orig = marshal_body
     ((if lp_RejectedLogRecords orig \<noteq> 0 then varint_block [0x08] (lp_RejectedLogRecords orig) else [])
      @ (if length (lp_ErrorMessage orig) > 0 then string_block [0x12] (lp_ErrorMessage orig) else []))"

definition ExportLogsPartialSuccess_field :: "ExportLogsPartialSuccess field_reader" where
  "ExportLogsPartialSuccess_field buf fieldNum wireType pos orig =
     (if fieldNum = 1 then read_varint (\<lambda>num. orig\<lparr>lp_RejectedLogRecords := num\<rparr>) buf wireType pos
      else if fieldNum = 2 then read_bytes (\<lambda>s. orig\<lparr>lp_ErrorMessage := s\<rparr>) buf wireType pos
      else read_unknown orig buf wireType pos)"

definition ExportLogsPartialSuccess_UnmarshalProto :: "ExportLogsPartialSuccess unmarshaler" where
  "ExportLogsPartialSuccess_UnmarshalProto = unmarshal_body ExportLogsPartialSuccess_field"

definition ExportLogsPartialSuccess_bytes :: "ExportLogsPartialSuccess \<Rightarrow> byte list" where
  "ExportLogsPartialSuccess_bytes orig =
     ((if length (lp_ErrorMessage orig) > 0 then string_bytes [0x12] (lp_ErrorMessage orig) else [])
      @ (if lp_RejectedLogRecords orig \<noteq> 0 then varint_field_bytes [0x08] (lp_RejectedLogRecords orig) else []))"

definition ExportLogsPartialSuccess_wf :: "ExportLogsPartialSuccess \<Rightarrow> bool" where
  "ExportLogsPartialSuccess_wf orig \<longleftrightarrow> True"

lemma ExportLogsPartialSuccess_decodes:
  assumes "ExportLogsPartialSuccess_wf m"
  shows "decodes ExportLogsPartialSuccess_field (ExportLogsPartialSuccess_bytes m) ExportLogsPartialSuccess_zero m"
proof -
  have 1: "decodes ExportLogsPartialSuccess_field ((if length (lp_ErrorMessage m) > 0 then string_bytes [0x12] (lp_ErrorMessage m) else []))
      ExportLogsPartialSuccess_zero
      (ExportLogsPartialSuccess_zero\<lparr>lp_ErrorMessage := lp_ErrorMessage m\<rparr>)"
    by (rule decodes_opt_string [where fn = 2 and upd = "\<lambda>v. ExportLogsPartialSuccess_zero\<lparr>lp_ErrorMessage := v\<rparr>"]) (simp_all add: ExportLogsPartialSuccess_field_def ExportLogsPartialSuccess_zero_def)
  have 2: "decodes ExportLogsPartialSuccess_field ((if lp_RejectedLogRecords m \<noteq> 0 then varint_field_bytes [0x08] (lp_RejectedLogRecords m) else []))
      (ExportLogsPartialSuccess_zero\<lparr>lp_ErrorMessage := lp_ErrorMessage m\<rparr>)
      (ExportLogsPartialSuccess_zero\<lparr>lp_ErrorMessage := lp_ErrorMessage m, lp_RejectedLogRecords := lp_RejectedLogRecords m\<rparr>)"
    by (rule decodes_opt_varint [where fn = 1 and enc = "\<lambda>n. n" and dec = "\<lambda>n. n" and upd = "\<lambda>v. ExportLogsPartialSuccess_zero\<lparr>lp_ErrorMessage := lp_ErrorMessage m, lp_RejectedLogRecords := v\<rparr>"]) (simp_all add: ExportLogsPartialSuccess_field_def ExportLogsPartialSuccess_zero_def)
  have eq: "(ExportLogsPartialSuccess_zero\<lparr>lp_ErrorMessage := lp_ErrorMessage m, lp_RejectedLogRecords := lp_RejectedLogRecords m\<rparr>) = m"
    by (cases m) (simp add: ExportLogsPartialSuccess_zero_def)
  from decodes_append [OF 1 2]
  show ?thesis unfolding eq ExportLogsPartialSuccess_bytes_def .
qed

interpretation logs_partial: proto_message ExportLogsPartialSuccess_SizeProto ExportLogsPartialSuccess_MarshalProto ExportLogsPartialSuccess_UnmarshalProto ExportLogsPartialSuccess_zero ExportLogsPartialSuccess_bytes ExportLogsPartialSuccess_wf
proof unfold_locales
  fix m assume wf: "ExportLogsPartialSuccess_wf m"
  then show "ExportLogsPartialSuccess_SizeProto m = length (ExportLogsPartialSuccess_bytes m)"
    unfolding ExportLogsPartialSuccess_SizeProto_def ExportLogsPartialSuccess_bytes_def ExportLogsPartialSuccess_wf_def
    by (simp add: length_if_Nil field_sizes repeated_string_size  del: length_concat split del: if_split cong: if_cong)
  show "marshals (ExportLogsPartialSuccess_MarshalProto m) (ExportLogsPartialSuccess_bytes m)"
    unfolding ExportLogsPartialSuccess_MarshalProto_def ExportLogsPartialSuccess_bytes_def
    by (intro marshals_body emit)
  show "ExportLogsPartialSuccess_UnmarshalProto (ExportLogsPartialSuccess_bytes m) ExportLogsPartialSuccess_zero = Some (Inr m)" if "valid_buf (ExportLogsPartialSuccess_bytes m)"
    unfolding ExportLogsPartialSuccess_UnmarshalProto_def by (rule unmarshal_body_decodes [OF ExportLogsPartialSuccess_decodes [OF wf] that])
next
  fix buf and m :: ExportLogsPartialSuccess
  assume "valid_buf buf"
  then show "unmarshal_ok (ExportLogsPartialSuccess_UnmarshalProto buf m)"
    unfolding ExportLogsPartialSuccess_UnmarshalProto_def ExportLogsPartialSuccess_field_def by (intro unmarshal_body_ok reader_ok) simp_all
qed

section \<open>ExportLogsServiceResponse\<close>

record ExportLogsServiceResponse =
  ls_PartialSuccess :: ExportLogsPartialSuccess

definition ExportLogsServiceResponse_zero :: ExportLogsServiceResponse where
  "ExportLogsServiceResponse_zero = \<lparr>ls_PartialSuccess = ExportLogsPartialSuccess_zero\<rparr>"

definition ExportLogsServiceResponse_SizeProto :: "ExportLogsServiceResponse \<Rightarrow> nat" where
  "ExportLogsServiceResponse_SizeProto orig =
     len_size 1 (ExportLogsPartialSuccess_SizeProto (ls_PartialSuccess orig))"

definition ExportLogsServiceResponse_MarshalProto :: "ExportLogsServiceResponse \<Rightarrow> marshaler" where
  "ExportLogsServiceResponse_MarshalProto orig = marshal_body
     (message_block [0x0a] (ExportLogsPartialSuccess_MarshalProto (ls_PartialSuccess orig)))"

definition ExportLogsServiceResponse_field :: "ExportLogsServiceResponse field_reader" where
  "ExportLogsServiceResponse_field buf fieldNum wireType pos orig =
     (if fieldNum = 1 then read_message ExportLogsPartialSuccess_UnmarshalProto (ls_PartialSuccess orig) (\<lambda>v. orig\<lparr>ls_PartialSuccess := v\<rparr>) buf wireType pos
      else read_unknown orig buf wireType pos)"

definition ExportLogsServiceResponse_UnmarshalProto :: "ExportLogsServiceResponse unmarshaler" where
  "ExportLogsServiceResponse_UnmarshalProto = unmarshal_body ExportLogsServiceResponse_field"

definition ExportLogsServiceResponse_bytes :: "ExportLogsServiceResponse \<Rightarrow> byte list" where
  "ExportLogsServiceResponse_bytes orig =
     string_bytes [0x0a] (ExportLogsPartialSuccess_bytes (ls_PartialSuccess orig))"

definition ExportLogsServiceResponse_wf :: "ExportLogsServiceResponse \<Rightarrow> bool" where
  "ExportLogsServiceResponse_wf orig \<longleftrightarrow> ExportLogsPartialSuccess_wf (ls_PartialSuccess orig)"

lemma ExportLogsServiceResponse_decodes:
  assumes "ExportLogsServiceResponse_wf m"
  shows "decodes ExportLogsServiceResponse_field (ExportLogsServiceResponse_bytes m) ExportLogsServiceResponse_zero m"
proof -
  note wf = assms [unfolded ExportLogsServiceResponse_wf_def]
  have 1: "decodes ExportLogsServiceResponse_field (string_bytes [0x0a] (ExportLogsPartialSuccess_bytes (ls_PartialSuccess m)))
      ExportLogsServiceResponse_zero
      (ExportLogsServiceResponse_zero\<lparr>ls_PartialSuccess := ls_PartialSuccess m\<rparr>)"
    by (rule logs_partial.decodes_message [where fn = 1 and upd = "\<lambda>v. ExportLogsServiceResponse_zero\<lparr>ls_PartialSuccess := v\<rparr>"]) (simp_all add: ExportLogsServiceResponse_field_def ExportLogsServiceResponse_zero_def wf)
  have eq: "(ExportLogsServiceResponse_zero\<lparr>ls_PartialSuccess := ls_PartialSuccess m\<rparr>) = m"
    by (cases m) (simp add: ExportLogsServiceResponse_zero_def)
  from 1
  show ?thesis unfolding eq ExportLogsServiceResponse_bytes_def .
qed

interpretation logs_response: proto_message ExportLogsServiceResponse_SizeProto ExportLogsServiceResponse_MarshalProto ExportLogsServiceResponse_UnmarshalProto ExportLogsServiceResponse_zero ExportLogsServiceResponse_bytes ExportLogsServiceResponse_wf
proof unfold_locales
  fix m assume wf: "ExportLogsServiceResponse_wf m"
  then show "ExportLogsServiceResponse_SizeProto m = length (ExportLogsServiceResponse_bytes m)"
    unfolding ExportLogsServiceResponse_SizeProto_def ExportLogsServiceResponse_bytes_def ExportLogsServiceResponse_wf_def
    by (simp add: length_if_Nil field_sizes repeated_string_size logs_partial.repeated_size logs_partial.size del: length_concat split del: if_split cong: if_cong)
  show "marshals (ExportLogsServiceResponse_MarshalProto m) (ExportLogsServiceResponse_bytes m)"
    unfolding ExportLogsServiceResponse_MarshalProto_def ExportLogsServiceResponse_bytes_def
    by (intro marshals_body emit) (use wf in \<open>simp_all add: ExportLogsServiceResponse_wf_def\<close>)
  show "ExportLogsServiceResponse_UnmarshalProto (ExportLogsServiceResponse_bytes m) ExportLogsServiceResponse_zero = Some (Inr m)" if "valid_buf (ExportLogsServiceResponse_bytes m)"
    unfolding ExportLogsServiceResponse_UnmarshalProto_def by (rule unmarshal_body_decodes [OF ExportLogsServiceResponse_decodes [OF wf] that])
next
  fix buf and m :: ExportLogsServiceResponse
  assume "valid_buf buf"
  then show "unmarshal_ok (ExportLogsServiceResponse_UnmarshalProto buf m)"
    unfolding ExportLogsServiceResponse_UnmarshalProto_def ExportLogsServiceResponse_field_def by (intro unmarshal_body_ok reader_ok) simp_all
qed

section \<open>Encoding and decoding a batch of logs\<close>

text \<open>\<open>ProtoMarshaler\<close> and \<open>ProtoUnmarshaler\<close>; a panic while marshaling is an error value.\<close>

definition LogsSize :: "ExportLogsServiceRequest \<Rightarrow> nat" where
  "LogsSize ld = ExportLogsServiceRequest_SizeProto ld"

definition MarshalLogs :: "ExportLogsServiceRequest \<Rightarrow> wire_error + byte list" where
  "MarshalLogs ld =
     (case ExportLogsServiceRequest_MarshalProto ld (replicate (ExportLogsServiceRequest_SizeProto ld) 0) of
        Inl e \<Rightarrow> Inl e
      | Inr (buf, _) \<Rightarrow> Inr buf)"

definition UnmarshalLogs :: "byte list \<Rightarrow> (unmarshal_error + ExportLogsServiceRequest) option" where
  "UnmarshalLogs buf = ExportLogsServiceRequest_UnmarshalProto buf ExportLogsServiceRequest_zero"

text \<open>
  \<open>MigrateLogs\<close> of pdata/internal/otlp/logs.go, and the request of pdata/plog/plogotlp/request.go
  that calls it after unmarshaling.
\<close>

definition MigrateLogs :: "ResourceLogs list \<Rightarrow> ResourceLogs list" where
  "MigrateLogs rls = map (\<lambda>rl.
     (if length (rl_ScopeLogs rl) = 0 then rl\<lparr>rl_ScopeLogs := rl_DeprecatedScopeLogs rl\<rparr> else rl)
       \<lparr>rl_DeprecatedScopeLogs := []\<rparr>) rls"

definition ExportRequest_UnmarshalProto :: "byte list \<Rightarrow> ExportLogsServiceRequest \<Rightarrow> (unmarshal_error + ExportLogsServiceRequest) option" where
  "ExportRequest_UnmarshalProto data orig =
     map_option (map_sum id (\<lambda>o'. o'\<lparr>lq_ResourceLogs := MigrateLogs (lq_ResourceLogs o')\<rparr>))
       (ExportLogsServiceRequest_UnmarshalProto data orig)"

text \<open>\<open>LogRecordCount\<close> reads the scopes that are not deprecated.\<close>

definition message_LogRecordCount :: "ExportLogsServiceRequest \<Rightarrow> nat" where
  "message_LogRecordCount ld =
     sum_list (map (\<lambda>rl. sum_list (map (\<lambda>sl. length (sl_LogRecords sl)) (rl_ScopeLogs rl))) (lq_ResourceLogs ld))"

lemma logs_marshal_unmarshal:
  assumes "ExportLogsServiceRequest_wf ld" "int (LogsSize ld) \<le> max_i64"
  obtains buf where "MarshalLogs ld = Inr buf" "length buf = LogsSize ld" "UnmarshalLogs buf = Some (Inr ld)"
proof -
  obtain buf where "ExportLogsServiceRequest_MarshalProto ld (replicate (LogsSize ld) 0) = Inr (buf, int (LogsSize ld))"
    "length buf = LogsSize ld" "ExportLogsServiceRequest_UnmarshalProto buf ExportLogsServiceRequest_zero = Some (Inr ld)"
    using logs_request.roundtrip [OF assms(1), of "replicate (LogsSize ld) 0"] assms(2) by (auto simp: LogsSize_def)
  then show ?thesis by (intro that [of buf]) (simp_all add: MarshalLogs_def UnmarshalLogs_def LogsSize_def)
qed

text \<open>
  An export request is decoded with the deprecated scopes moved: whatever was marshaled, if
  no resource uses both lists of scopes then every scope is kept in the current list, the
  deprecated list is empty, and migrating again changes nothing.
\<close>

lemma ExportRequest_migrates:
  assumes "ExportLogsServiceRequest_wf ld" and "int (LogsSize ld) \<le> max_i64"
    and "list_all (\<lambda>rl. rl_ScopeLogs rl = [] \<or> rl_DeprecatedScopeLogs rl = []) (lq_ResourceLogs ld)"
  shows "\<exists>buf ld'. MarshalLogs ld = Inr buf \<and>
    ExportRequest_UnmarshalProto buf ExportLogsServiceRequest_zero = Some (Inr ld') \<and>
    map rl_ScopeLogs (lq_ResourceLogs ld') = map (\<lambda>rl. rl_ScopeLogs rl @ rl_DeprecatedScopeLogs rl) (lq_ResourceLogs ld) \<and>
    map rl_Resource (lq_ResourceLogs ld') = map rl_Resource (lq_ResourceLogs ld) \<and>
    list_all (\<lambda>rl. rl_DeprecatedScopeLogs rl = []) (lq_ResourceLogs ld') \<and>
    MigrateLogs (lq_ResourceLogs ld') = lq_ResourceLogs ld'"
proof -
  obtain buf where b: "MarshalLogs ld = Inr buf" "UnmarshalLogs buf = Some (Inr ld)"
    by (rule logs_marshal_unmarshal [OF assms(1,2)])
  let ?rls = "MigrateLogs (lq_ResourceLogs ld)"
  have "ExportRequest_UnmarshalProto buf ExportLogsServiceRequest_zero = Some (Inr (ld\<lparr>lq_ResourceLogs := ?rls\<rparr>))"
    using b(2) by (simp add: ExportRequest_UnmarshalProto_def UnmarshalLogs_def)
  moreover have "map rl_ScopeLogs ?rls = map (\<lambda>rl. rl_ScopeLogs rl @ rl_DeprecatedScopeLogs rl) (lq_ResourceLogs ld)"
    using assms(3) by (auto simp: MigrateLogs_def list_all_iff)
  moreover have "map rl_Resource ?rls = map rl_Resource (lq_ResourceLogs ld)"
    "list_all (\<lambda>rl. rl_DeprecatedScopeLogs rl = []) ?rls" "MigrateLogs ?rls = ?rls"
    by (auto simp: MigrateLogs_def list_all_iff)
  ultimately show ?thesis using b(1) by (intro exI [of _ buf] exI [of _ "ld\<lparr>lq_ResourceLogs := ?rls\<rparr>"]) simp
qed

definition demo_record :: LogRecord where
  "demo_record = LogRecord_zero\<lparr>lr_Body := AnyValue_ArrayValue (Some (ArrayValue [AnyValue_IntValue 7])),
     lr_SeverityText := [0x69]\<rparr>"

definition demo_logs :: "bool \<Rightarrow> ExportLogsServiceRequest" where
  "demo_logs deprecated =
     (let sl = [ScopeLogs_zero\<lparr>sl_LogRecords := [demo_record]\<rparr>]
      in \<lparr>lq_ResourceLogs = [if deprecated then ResourceLogs_zero\<lparr>rl_DeprecatedScopeLogs := sl\<rparr>
                            else ResourceLogs_zero\<lparr>rl_ScopeLogs := sl\<rparr>]\<rparr>)"

lemmas demo_logs_defs = demo_logs_def demo_record_def Let_def ResourceLogs_zero_def ScopeLogs_zero_def
  LogRecord_zero_def Resource_zero_def InstrumentationScope_zero_def

lemma demo_logs_wf: "ExportLogsServiceRequest_wf (demo_logs deprecated)"
  by (simp add: demo_logs_defs ExportLogsServiceRequest_wf_def ResourceLogs_wf_def ScopeLogs_wf_def LogRecord_wf_def
      Resource_wf_def InstrumentationScope_wf_def ID_wf_def traceIDSize_def spanIDSize_def)

lemma demo_part_sizes:
  "Resource_SizeProto Resource_zero = 0" "InstrumentationScope_SizeProto InstrumentationScope_zero = 0"
  "LogRecord_SizeProto demo_record = 15"
  by (simp_all add: Resource_SizeProto_def Resource_zero_def InstrumentationScope_SizeProto_def
      InstrumentationScope_zero_def LogRecord_SizeProto_def LogRecord_zero_def demo_record_def
      ID_SizeProto_def ID_IsEmpty_def Sov_small)

lemma demo_scope_size: "ScopeLogs_SizeProto (ScopeLogs_zero\<lparr>sl_LogRecords := [demo_record]\<rparr>) = 19"
  by (simp add: ScopeLogs_SizeProto_def ScopeLogs_zero_def demo_part_sizes Sov_small)

lemma demo_logs_small: "LogsSize (demo_logs deprecated) \<le> 100"
proof -
  let ?sl = "ScopeLogs_zero\<lparr>sl_LogRecords := [demo_record]\<rparr>"
  have "ResourceLogs_SizeProto (ResourceLogs_zero\<lparr>rl_DeprecatedScopeLogs := [?sl]\<rparr>) = 24"
    "ResourceLogs_SizeProto (ResourceLogs_zero\<lparr>rl_ScopeLogs := [?sl]\<rparr>) = 23"
    by (simp_all add: ResourceLogs_SizeProto_def ResourceLogs_zero_def demo_part_sizes demo_scope_size Sov_small)
  then show ?thesis
    by (simp add: demo_logs_def Let_def LogsSize_def ExportLogsServiceRequest_SizeProto_def Sov_small)
qed

lemma demo_logs_size: "int (LogsSize (demo_logs deprecated)) \<le> max_i64"
  using demo_logs_small [of deprecated] by (simp add: max_i64_def)

text \<open>
  \<open>UnmarshalLogs\<close> does not migrate: for the bytes of a batch whose one record stands in the
  deprecated scopes, it returns a batch that counts no record, where decoding the same bytes as an
  export request counts one.
\<close>

lemma UnmarshalLogs_hides_deprecated:
  "\<exists>buf ld ld'. UnmarshalLogs buf = Some (Inr ld) \<and> message_LogRecordCount ld = 0 \<and>
     ExportRequest_UnmarshalProto buf ExportLogsServiceRequest_zero = Some (Inr ld') \<and> message_LogRecordCount ld' = 1"
proof -
  obtain buf where b: "UnmarshalLogs buf = Some (Inr (demo_logs True))"
    by (rule logs_marshal_unmarshal [OF demo_logs_wf demo_logs_size])
  let ?ld' = "(demo_logs True)\<lparr>lq_ResourceLogs := MigrateLogs (lq_ResourceLogs (demo_logs True))\<rparr>"
  have "ExportRequest_UnmarshalProto buf ExportLogsServiceRequest_zero = Some (Inr ?ld')"
    using b by (simp add: ExportRequest_UnmarshalProto_def UnmarshalLogs_def)
  moreover have "message_LogRecordCount (demo_logs True) = 0" "message_LogRecordCount ?ld' = 1"
    by (simp_all add: message_LogRecordCount_def MigrateLogs_def demo_logs_defs)
  ultimately show ?thesis using b by blast
qed

lemma ExportRequest_migrates_witness:
  "\<exists>buf ld'. MarshalLogs (demo_logs True) = Inr buf \<and>
     ExportRequest_UnmarshalProto buf ExportLogsServiceRequest_zero = Some (Inr ld') \<and>
     map (\<lambda>rl. length (rl_ScopeLogs rl)) (lq_ResourceLogs ld') = [1]"
proof -
  have "list_all (\<lambda>rl. rl_ScopeLogs rl = [] \<or> rl_DeprecatedScopeLogs rl = []) (lq_ResourceLogs (demo_logs True))"
    by (simp add: demo_logs_defs)
  from ExportRequest_migrates [OF demo_logs_wf demo_logs_size this] obtain buf ld' where
    m: "MarshalLogs (demo_logs True) = Inr buf" "ExportRequest_UnmarshalProto buf ExportLogsServiceRequest_zero = Some (Inr ld')"
    "map rl_ScopeLogs (lq_ResourceLogs ld') =
      map (\<lambda>rl. rl_ScopeLogs rl @ rl_DeprecatedScopeLogs rl) (lq_ResourceLogs (demo_logs True))" by blast
  from arg_cong [OF m(3), of "map length"] have "map (\<lambda>rl. length (rl_ScopeLogs rl)) (lq_ResourceLogs ld') = [1]"
    by (simp add: demo_logs_defs o_def)
  with m(1,2) show ?thesis by (intro exI [of _ buf] exI [of _ ld'] conjI)
qed

end
