(* ===== verification/BatchProto.thy ===== *)
theory BatchProto
  imports BatchSplit ProtoLogs
begin

text \<open>
  The exporter's batching and the wire format together. The batching code measures requests with
  the bytes sizer; here its sizes are related to \<open>SizeProto\<close> of the generated messages, so that
  the limit of \<open>MergeSplit\<close> is a limit on the bytes \<open>MarshalLogs\<close> produces.
\<close>

type_synonym logs_payload = "(Resource, InstrumentationScope, LogRecord) payload"

definition string_of_schema :: "string \<Rightarrow> byte list" where
  "string_of_schema s = map of_char s"

definition scope_message :: "(InstrumentationScope, LogRecord) scope_data \<Rightarrow> ScopeLogs" where
  "scope_message sd = \<lparr>sl_Scope = sd_scope sd, sl_LogRecords = sd_items sd,
     sl_SchemaUrl = string_of_schema (sd_schema sd)\<rparr>"

definition resource_message :: "(Resource, InstrumentationScope, LogRecord) resource_data \<Rightarrow> ResourceLogs" where
  "resource_message rd = \<lparr>rl_Resource = rd_resource rd, rl_ScopeLogs = map scope_message (rd_scopes rd),
     rl_SchemaUrl = string_of_schema (rd_schema rd), rl_DeprecatedScopeLogs = []\<rparr>"

definition logs_message :: "logs_payload \<Rightarrow> ExportLogsServiceRequest" where
  "logs_message ld = \<lparr>lq_ResourceLogs = map resource_message ld\<rparr>"

abbreviation message_sizes :: "(Resource, InstrumentationScope, LogRecord) leaf_sizes" where
  "message_sizes \<equiv> (Resource_SizeProto, InstrumentationScope_SizeProto, LogRecord_SizeProto)"

abbreviation logs_bytes_sizer :: "(Resource, InstrumentationScope, LogRecord) sizer" where
  "logs_bytes_sizer \<equiv> LogsBytesSizer Resource_SizeProto InstrumentationScope_SizeProto LogRecord_SizeProto"

lemma field_size_len: "field_size (int l) = int (len_size 1 l)"
  by (simp add: field_size_def)

lemma schema_size_len:
  "schema_size s = int (if length (string_of_schema s) > 0 then len_size 1 (length (string_of_schema s)) else 0)"
  by (simp add: schema_size_def field_size_len string_of_schema_def)

lemma sum_field_sizes:
  "(\<And>x. f x = int (g x)) \<Longrightarrow> (\<Sum>x\<leftarrow>xs. field_size (f x)) = int (\<Sum>x\<leftarrow>xs. len_size 1 (g x))"
  by (induction xs) (simp_all add: field_size_len)

lemma scope_message_size:
  "ScopeLogs_proto_size InstrumentationScope_SizeProto LogRecord_SizeProto sd = int (ScopeLogs_SizeProto (scope_message sd))"
  unfolding ScopeLogs_proto_size_def ScopeLogs_SizeProto_def
  unfolding sum_field_sizes [where f = "\<lambda>x. int (LogRecord_SizeProto x)" and g = LogRecord_SizeProto, OF refl]
  unfolding field_size_len schema_size_len by (simp add: scope_message_def)

lemma resource_message_size:
  "ResourceLogs_proto_size Resource_SizeProto InstrumentationScope_SizeProto LogRecord_SizeProto rd =
   int (ResourceLogs_SizeProto (resource_message rd))"
  unfolding ResourceLogs_proto_size_def ResourceLogs_SizeProto_def
  unfolding sum_field_sizes [OF scope_message_size]
  unfolding field_size_len schema_size_len
  by (simp add: resource_message_def o_def)

lemma logs_message_size: "sz_payload logs_bytes_sizer ld = int (LogsSize (logs_message ld))"
  unfolding LogsSize_def ExportLogsServiceRequest_SizeProto_def
  by (simp add: LogsBytesSizer_def Logs_proto_size_def sum_field_sizes [OF resource_message_size] logs_message_def o_def)

definition payload_wf :: "logs_payload \<Rightarrow> bool" where
  "payload_wf ld \<longleftrightarrow> ExportLogsServiceRequest_wf (logs_message ld)"

text \<open>
  C19. The limit on batches is a limit on the wire. Every request that \<open>MergeSplit\<close> returns with the
  bytes sizer and a positive limit is marshaled without a panic into at most that many bytes, and
  those bytes decode to the request.
\<close>

theorem MergeSplit_marshals_within_limit:
  assumes "0 < m" and "m \<le> max_i64"
    and "cache_ok logs_bytes_sizer req" and "input_cache_ok logs_bytes_sizer r2"
    and "MergeSplit message_sizes m SizerTypeBytes req r2 = (res, err, req')"
    and "r \<in> set res" and "payload_wf (rq_ld r)"
  shows "\<exists>buf. MarshalLogs (logs_message (rq_ld r)) = Inr buf \<and> int (length buf) \<le> m \<and>
    UnmarshalLogs buf = Some (Inr (logs_message (rq_ld r)))"
proof -
  have "sz_payload logs_bytes_sizer (rq_ld r) \<le> m"
    using MergeSplit_sizes [of message_sizes SizerTypeBytes logs_bytes_sizer m req r2 res err req'] assms by simp
  then have "int (LogsSize (logs_message (rq_ld r))) \<le> m" by (simp only: logs_message_size)
  with assms(2,7) show ?thesis
    using logs_marshal_unmarshal [of "logs_message (rq_ld r)"] unfolding payload_wf_def by (metis order_trans)
qed

definition demo_batch :: "(Resource, InstrumentationScope, LogRecord) request" where
  "demo_batch = newLogsRequest [\<lparr>rd_resource = Resource_zero, rd_schema = '''',
     rd_scopes = [\<lparr>sd_scope = InstrumentationScope_zero, sd_schema = '''', sd_items = [demo_record]\<rparr>]\<rparr>]"

lemma demo_batch_message: "logs_message (rq_ld demo_batch) = demo_logs False"
  by (simp add: demo_batch_def newLogsRequest_def logs_message_def resource_message_def scope_message_def
      string_of_schema_def demo_logs_def Let_def ResourceLogs_zero_def ScopeLogs_zero_def)

lemma demo_batch_size: "sz_payload logs_bytes_sizer (rq_ld demo_batch) = 25"
proof -
  have "ResourceLogs_SizeProto (ResourceLogs_zero\<lparr>rl_ScopeLogs := [ScopeLogs_zero\<lparr>sl_LogRecords := [demo_record]\<rparr>]\<rparr>) = 23"
    by (simp add: ResourceLogs_SizeProto_def ResourceLogs_zero_def demo_part_sizes demo_scope_size Sov_small)
  then show ?thesis
    by (simp add: logs_message_size demo_batch_message demo_logs_def Let_def LogsSize_def
        ExportLogsServiceRequest_SizeProto_def Sov_small)
qed

lemma demo_batch_split:
  "MergeSplit message_sizes 30 SizerTypeBytes demo_batch None =
     ([demo_batch\<lparr>rq_cachedSize := 25\<rparr>], None, demo_batch\<lparr>rq_cachedSize := 25\<rparr>)"
proof -
  have "request_size logs_bytes_sizer demo_batch = (25, demo_batch\<lparr>rq_cachedSize := 25\<rparr>)"
    using demo_batch_size by (simp add: request_size_def demo_batch_def newLogsRequest_def)
  then show ?thesis by (simp add: MergeSplit_def split_request.simps)
qed

theorem MergeSplit_marshals_within_limit_witness:
  "\<exists>buf. MarshalLogs (logs_message (rq_ld demo_batch)) = Inr buf \<and> int (length buf) \<le> 30 \<and>
     UnmarshalLogs buf = Some (Inr (logs_message (rq_ld demo_batch)))"
  using MergeSplit_marshals_within_limit [OF _ _ _ _ demo_batch_split, of "demo_batch\<lparr>rq_cachedSize := 25\<rparr>"]
  by (simp add: cache_ok_def demo_batch_def [THEN arg_cong, of rq_cachedSize] newLogsRequest_def max_i64_def
      payload_wf_def demo_batch_message demo_logs_wf)

end
