(* ===== verification/ProtoTraces.thy ===== *)
theory ProtoTraces
  imports ProtoCommon
begin

text \<open>
  The trace messages: \<open>Status\<close>, \<open>SpanEvent\<close>, \<open>SpanLink\<close>, \<open>Span\<close>, \<open>ScopeSpans\<close>,
  \<open>ResourceSpans\<close> and \<open>TracesData\<close> (pdata/internal/generated\_proto\_status.go,
  generated\_proto\_spanevent.go, generated\_proto\_spanlink.go, generated\_proto\_span.go,
  generated\_proto\_scopespans.go, generated\_proto\_resourcespans.go,
  generated\_proto\_tracesdata.go) and the functions of pdata/ptrace/pb.go.
\<close>

lemma tags_traces [simp]:
  "is_tag [0x09] 1 1"
  "is_tag [0x28] 5 0"
  "is_tag [0x35] 6 5"
  "is_tag [0x85, 0x01] 16 5"
  "is_tag [0x30] 6 0"
  "is_tag [0x39] 7 1"
  "is_tag [0x41] 8 1"
  "is_tag [0x4a] 9 2"
  "is_tag [0x50] 10 0"
  "is_tag [0x5a] 11 2"
  "is_tag [0x60] 12 0"
  "is_tag [0x6a] 13 2"
  "is_tag [0x70] 14 0"
  "is_tag [0x7a] 15 2"
  "is_tag [0xc2, 0x3e] 1000 2"
  "is_tag [0x08] 1 0"
  by (simp_all add: is_tag_def Let_def varint_bytes.simps)

section \<open>Status\<close>

record Status =
  st_Message :: "byte list"
  st_Code :: "32 word"

definition Status_zero :: Status where
  "Status_zero = \<lparr>st_Message = [], st_Code = 0\<rparr>"

definition Status_SizeProto :: "Status \<Rightarrow> nat" where
  "Status_SizeProto orig =
     (if length (st_Message orig) > 0 then len_size 1 (length (st_Message orig)) else 0)
     + (if st_Code orig \<noteq> 0 then 1 + Sov (scast (st_Code orig)) else 0)"

definition Status_MarshalProto :: "Status \<Rightarrow> marshaler" where
  "Status_MarshalProto orig = marshal_body
     ((if length (st_Message orig) > 0 then string_block [0x12] (st_Message orig) else [])
      @ (if st_Code orig \<noteq> 0 then varint_block [0x18] (scast (st_Code orig)) else []))"

definition Status_field :: "Status field_reader" where
  "Status_field buf fieldNum wireType pos orig =
     (if fieldNum = 2 then read_bytes (\<lambda>s. orig\<lparr>st_Message := s\<rparr>) buf wireType pos
      else if fieldNum = 3 then read_varint (\<lambda>num. orig\<lparr>st_Code := ucast num\<rparr>) buf wireType pos
      else read_unknown orig buf wireType pos)"

definition Status_UnmarshalProto :: "Status unmarshaler" where
  "Status_UnmarshalProto = unmarshal_body Status_field"

definition Status_bytes :: "Status \<Rightarrow> byte list" where
  "Status_bytes orig =
     ((if st_Code orig \<noteq> 0 then varint_field_bytes [0x18] (scast (st_Code orig)) else [])
      @ (if length (st_Message orig) > 0 then string_bytes [0x12] (st_Message orig) else []))"

definition Status_wf :: "Status \<Rightarrow> bool" where
  "Status_wf orig \<longleftrightarrow> True"

lemma Status_decodes:
  assumes "Status_wf m"
  shows "decodes Status_field (Status_bytes m) Status_zero m"
proof -
  have 1: "decodes Status_field ((if st_Code m \<noteq> 0 then varint_field_bytes [0x18] (scast (st_Code m)) else []))
      Status_zero
      (Status_zero\<lparr>st_Code := st_Code m\<rparr>)"
    by (rule decodes_opt_varint [where fn = 3 and enc = scast and dec = ucast and upd = "\<lambda>v. Status_zero\<lparr>st_Code := v\<rparr>"]) (simp_all add: Status_field_def Status_zero_def ucast_scast_32)
  have 2: "decodes Status_field ((if length (st_Message m) > 0 then string_bytes [0x12] (st_Message m) else []))
      (Status_zero\<lparr>st_Code := st_Code m\<rparr>)
      (Status_zero\<lparr>st_Code := st_Code m, st_Message := st_Message m\<rparr>)"
    by (rule decodes_opt_string [where fn = 2 and upd = "\<lambda>v. Status_zero\<lparr>st_Code := st_Code m, st_Message := v\<rparr>"]) (simp_all add: Status_field_def Status_zero_def)
  have eq: "(Status_zero\<lparr>st_Code := st_Code m, st_Message := st_Message m\<rparr>) = m"
    by (cases m) (simp add: Status_zero_def)
  from decodes_append [OF 1 2]
  show ?thesis unfolding eq Status_bytes_def .
qed

interpretation status: proto_message Status_SizeProto Status_MarshalProto Status_UnmarshalProto Status_zero Status_bytes Status_wf
proof unfold_locales
  fix m assume wf: "Status_wf m"
  then show "Status_SizeProto m = length (Status_bytes m)"
    unfolding Status_SizeProto_def Status_bytes_def Status_wf_def
    by (simp add: length_if_Nil field_sizes repeated_string_size  del: length_concat split del: if_split cong: if_cong)
  show "marshals (Status_MarshalProto m) (Status_bytes m)"
    unfolding Status_MarshalProto_def Status_bytes_def
    by (intro marshals_body emit)
  show "Status_UnmarshalProto (Status_bytes m) Status_zero = Some (Inr m)" if "valid_buf (Status_bytes m)"
    unfolding Status_UnmarshalProto_def by (rule unmarshal_body_decodes [OF Status_decodes [OF wf] that])
next
  fix buf and m :: Status
  assume "valid_buf buf"
  then show "unmarshal_ok (Status_UnmarshalProto buf m)"
    unfolding Status_UnmarshalProto_def Status_field_def by (intro unmarshal_body_ok reader_ok) simp_all
qed

section \<open>SpanEvent\<close>

record SpanEvent =
  se_TimeUnixNano :: u64
  se_Name :: "byte list"
  se_Attributes :: "KeyValue list"
  se_DroppedAttributesCount :: "32 word"

definition SpanEvent_zero :: SpanEvent where
  "SpanEvent_zero = \<lparr>se_TimeUnixNano = 0, se_Name = [], se_Attributes = [], se_DroppedAttributesCount = 0\<rparr>"

definition SpanEvent_SizeProto :: "SpanEvent \<Rightarrow> nat" where
  "SpanEvent_SizeProto orig =
     (if se_TimeUnixNano orig \<noteq> 0 then 9 else 0)
     + (if length (se_Name orig) > 0 then len_size 1 (length (se_Name orig)) else 0)
     + sum_list (map (\<lambda>v. len_size 1 (KeyValue_SizeProto v)) (se_Attributes orig))
     + (if se_DroppedAttributesCount orig \<noteq> 0 then 1 + Sov (ucast (se_DroppedAttributesCount orig)) else 0)"

definition SpanEvent_MarshalProto :: "SpanEvent \<Rightarrow> marshaler" where
  "SpanEvent_MarshalProto orig = marshal_body
     ((if se_TimeUnixNano orig \<noteq> 0 then fixed_block [0x09] 8 (se_TimeUnixNano orig) else [])
      @ (if length (se_Name orig) > 0 then string_block [0x12] (se_Name orig) else [])
      @ concat (map (\<lambda>v. message_block [0x1a] (KeyValue_MarshalProto v)) (rev (se_Attributes orig)))
      @ (if se_DroppedAttributesCount orig \<noteq> 0 then varint_block [0x20] (ucast (se_DroppedAttributesCount orig)) else []))"

definition SpanEvent_field :: "SpanEvent field_reader" where
  "SpanEvent_field buf fieldNum wireType pos orig =
     (if fieldNum = 1 then read_i64 (\<lambda>num. orig\<lparr>se_TimeUnixNano := num\<rparr>) buf wireType pos
      else if fieldNum = 2 then read_bytes (\<lambda>s. orig\<lparr>se_Name := s\<rparr>) buf wireType pos
      else if fieldNum = 3 then read_message KeyValue_UnmarshalProto KeyValue_zero (\<lambda>v. orig\<lparr>se_Attributes := se_Attributes orig @ [v]\<rparr>) buf wireType pos
      else if fieldNum = 4 then read_varint (\<lambda>num. orig\<lparr>se_DroppedAttributesCount := ucast num\<rparr>) buf wireType pos
      else read_unknown orig buf wireType pos)"

definition SpanEvent_UnmarshalProto :: "SpanEvent unmarshaler" where
  "SpanEvent_UnmarshalProto = unmarshal_body SpanEvent_field"

definition SpanEvent_bytes :: "SpanEvent \<Rightarrow> byte list" where
  "SpanEvent_bytes orig =
     ((((if se_DroppedAttributesCount orig \<noteq> 0 then varint_field_bytes [0x20] (ucast (se_DroppedAttributesCount orig)) else [])
      @ concat (map (\<lambda>v. string_bytes [0x1a] (KeyValue_bytes v)) (se_Attributes orig)))
      @ (if length (se_Name orig) > 0 then string_bytes [0x12] (se_Name orig) else []))
      @ (if se_TimeUnixNano orig \<noteq> 0 then fixed_bytes [0x09] 8 (se_TimeUnixNano orig) else []))"

definition SpanEvent_wf :: "SpanEvent \<Rightarrow> bool" where
  "SpanEvent_wf orig \<longleftrightarrow> list_all KeyValue_wf (se_Attributes orig)"

lemma SpanEvent_decodes:
  assumes "SpanEvent_wf m"
  shows "decodes SpanEvent_field (SpanEvent_bytes m) SpanEvent_zero m"
proof -
  note wf = assms [unfolded SpanEvent_wf_def]
  have 1: "decodes SpanEvent_field ((if se_DroppedAttributesCount m \<noteq> 0 then varint_field_bytes [0x20] (ucast (se_DroppedAttributesCount m)) else []))
      SpanEvent_zero
      (SpanEvent_zero\<lparr>se_DroppedAttributesCount := se_DroppedAttributesCount m\<rparr>)"
    by (rule decodes_opt_varint [where fn = 4 and enc = ucast and dec = ucast and upd = "\<lambda>v. SpanEvent_zero\<lparr>se_DroppedAttributesCount := v\<rparr>"]) (simp_all add: SpanEvent_field_def SpanEvent_zero_def ucast_ucast_32)
  have 2: "decodes SpanEvent_field (concat (map (\<lambda>v. string_bytes [0x1a] (KeyValue_bytes v)) (se_Attributes m)))
      (SpanEvent_zero\<lparr>se_DroppedAttributesCount := se_DroppedAttributesCount m\<rparr>)
      (SpanEvent_zero\<lparr>se_DroppedAttributesCount := se_DroppedAttributesCount m, se_Attributes := se_Attributes m\<rparr>)"
    by (rule key_value.decodes_repeated_message [where fn = 3 and upd = "\<lambda>v. SpanEvent_zero\<lparr>se_DroppedAttributesCount := se_DroppedAttributesCount m, se_Attributes := v\<rparr>"]) (simp_all add: SpanEvent_field_def SpanEvent_zero_def wf)
  have 3: "decodes SpanEvent_field ((if length (se_Name m) > 0 then string_bytes [0x12] (se_Name m) else []))
      (SpanEvent_zero\<lparr>se_DroppedAttributesCount := se_DroppedAttributesCount m, se_Attributes := se_Attributes m\<rparr>)
      (SpanEvent_zero\<lparr>se_DroppedAttributesCount := se_DroppedAttributesCount m, se_Attributes := se_Attributes m, se_Name := se_Name m\<rparr>)"
    by (rule decodes_opt_string [where fn = 2 and upd = "\<lambda>v. SpanEvent_zero\<lparr>se_DroppedAttributesCount := se_DroppedAttributesCount m, se_Attributes := se_Attributes m, se_Name := v\<rparr>"]) (simp_all add: SpanEvent_field_def SpanEvent_zero_def)
  have 4: "decodes SpanEvent_field ((if se_TimeUnixNano m \<noteq> 0 then fixed_bytes [0x09] 8 (se_TimeUnixNano m) else []))
      (SpanEvent_zero\<lparr>se_DroppedAttributesCount := se_DroppedAttributesCount m, se_Attributes := se_Attributes m, se_Name := se_Name m\<rparr>)
      (SpanEvent_zero\<lparr>se_DroppedAttributesCount := se_DroppedAttributesCount m, se_Attributes := se_Attributes m, se_Name := se_Name m, se_TimeUnixNano := se_TimeUnixNano m\<rparr>)"
    by (rule decodes_opt_fixed64 [where fn = 1 and upd = "\<lambda>v. SpanEvent_zero\<lparr>se_DroppedAttributesCount := se_DroppedAttributesCount m, se_Attributes := se_Attributes m, se_Name := se_Name m, se_TimeUnixNano := v\<rparr>"]) (simp_all add: SpanEvent_field_def SpanEvent_zero_def)
  have eq: "(SpanEvent_zero\<lparr>se_DroppedAttributesCount := se_DroppedAttributesCount m, se_Attributes := se_Attributes m, se_Name := se_Name m, se_TimeUnixNano := se_TimeUnixNano m\<rparr>) = m"
    by (cases m) (simp add: SpanEvent_zero_def)
  from decodes_append [OF decodes_append [OF decodes_append [OF 1 2] 3] 4]
  show ?thesis unfolding eq SpanEvent_bytes_def .
qed

interpretation span_event: proto_message SpanEvent_SizeProto SpanEvent_MarshalProto SpanEvent_UnmarshalProto SpanEvent_zero SpanEvent_bytes SpanEvent_wf
proof unfold_locales
  fix m assume wf: "SpanEvent_wf m"
  then show "SpanEvent_SizeProto m = length (SpanEvent_bytes m)"
    unfolding SpanEvent_SizeProto_def SpanEvent_bytes_def SpanEvent_wf_def
    by (simp add: length_if_Nil field_sizes repeated_string_size key_value.repeated_size key_value.size del: length_concat split del: if_split cong: if_cong)
  show "marshals (SpanEvent_MarshalProto m) (SpanEvent_bytes m)"
    unfolding SpanEvent_MarshalProto_def SpanEvent_bytes_def
    by (intro marshals_body emit) (use wf in \<open>simp_all add: SpanEvent_wf_def\<close>)
  show "SpanEvent_UnmarshalProto (SpanEvent_bytes m) SpanEvent_zero = Some (Inr m)" if "valid_buf (SpanEvent_bytes m)"
    unfolding SpanEvent_UnmarshalProto_def by (rule unmarshal_body_decodes [OF SpanEvent_decodes [OF wf] that])
next
  fix buf and m :: SpanEvent
  assume "valid_buf buf"
  then show "unmarshal_ok (SpanEvent_UnmarshalProto buf m)"
    unfolding SpanEvent_UnmarshalProto_def SpanEvent_field_def by (intro unmarshal_body_ok reader_ok) simp_all
qed

section \<open>SpanLink\<close>

record SpanLink =
  sk_TraceId :: ident
  sk_SpanId :: ident
  sk_TraceState :: "byte list"
  sk_Attributes :: "KeyValue list"
  sk_DroppedAttributesCount :: "32 word"
  sk_Flags :: "32 word"

definition SpanLink_zero :: SpanLink where
  "SpanLink_zero = \<lparr>sk_TraceId = replicate traceIDSize 0, sk_SpanId = replicate spanIDSize 0, sk_TraceState = [], sk_Attributes = [], sk_DroppedAttributesCount = 0, sk_Flags = 0\<rparr>"

definition SpanLink_SizeProto :: "SpanLink \<Rightarrow> nat" where
  "SpanLink_SizeProto orig =
     len_size 1 (ID_SizeProto traceIDSize (sk_TraceId orig))
     + len_size 1 (ID_SizeProto spanIDSize (sk_SpanId orig))
     + (if length (sk_TraceState orig) > 0 then len_size 1 (length (sk_TraceState orig)) else 0)
     + sum_list (map (\<lambda>v. len_size 1 (KeyValue_SizeProto v)) (sk_Attributes orig))
     + (if sk_DroppedAttributesCount orig \<noteq> 0 then 1 + Sov (ucast (sk_DroppedAttributesCount orig)) else 0)
     + (if sk_Flags orig \<noteq> 0 then 5 else 0)"

definition SpanLink_MarshalProto :: "SpanLink \<Rightarrow> marshaler" where
  "SpanLink_MarshalProto orig = marshal_body
     (message_block [0x0a] (ID_MarshalProto traceIDSize (sk_TraceId orig))
      @ message_block [0x12] (ID_MarshalProto spanIDSize (sk_SpanId orig))
      @ (if length (sk_TraceState orig) > 0 then string_block [0x1a] (sk_TraceState orig) else [])
      @ concat (map (\<lambda>v. message_block [0x22] (KeyValue_MarshalProto v)) (rev (sk_Attributes orig)))
      @ (if sk_DroppedAttributesCount orig \<noteq> 0 then varint_block [0x28] (ucast (sk_DroppedAttributesCount orig)) else [])
      @ (if sk_Flags orig \<noteq> 0 then fixed_block [0x35] 4 (ucast (sk_Flags orig)) else []))"

definition SpanLink_field :: "SpanLink field_reader" where
  "SpanLink_field buf fieldNum wireType pos orig =
     (if fieldNum = 1 then read_message (ID_UnmarshalProto traceIDSize) (sk_TraceId orig) (\<lambda>v. orig\<lparr>sk_TraceId := v\<rparr>) buf wireType pos
      else if fieldNum = 2 then read_message (ID_UnmarshalProto spanIDSize) (sk_SpanId orig) (\<lambda>v. orig\<lparr>sk_SpanId := v\<rparr>) buf wireType pos
      else if fieldNum = 3 then read_bytes (\<lambda>s. orig\<lparr>sk_TraceState := s\<rparr>) buf wireType pos
      else if fieldNum = 4 then read_message KeyValue_UnmarshalProto KeyValue_zero (\<lambda>v. orig\<lparr>sk_Attributes := sk_Attributes orig @ [v]\<rparr>) buf wireType pos
      else if fieldNum = 5 then read_varint (\<lambda>num. orig\<lparr>sk_DroppedAttributesCount := ucast num\<rparr>) buf wireType pos
      else if fieldNum = 6 then read_i32 (\<lambda>num. orig\<lparr>sk_Flags := num\<rparr>) buf wireType pos
      else read_unknown orig buf wireType pos)"

definition SpanLink_UnmarshalProto :: "SpanLink unmarshaler" where
  "SpanLink_UnmarshalProto = unmarshal_body SpanLink_field"

definition SpanLink_bytes :: "SpanLink \<Rightarrow> byte list" where
  "SpanLink_bytes orig =
     ((((((if sk_Flags orig \<noteq> 0 then fixed_bytes [0x35] 4 (ucast (sk_Flags orig)) else [])
      @ (if sk_DroppedAttributesCount orig \<noteq> 0 then varint_field_bytes [0x28] (ucast (sk_DroppedAttributesCount orig)) else []))
      @ concat (map (\<lambda>v. string_bytes [0x22] (KeyValue_bytes v)) (sk_Attributes orig)))
      @ (if length (sk_TraceState orig) > 0 then string_bytes [0x1a] (sk_TraceState orig) else []))
      @ string_bytes [0x12] (ID_bytes spanIDSize (sk_SpanId orig)))
      @ string_bytes [0x0a] (ID_bytes traceIDSize (sk_TraceId orig)))"

definition SpanLink_wf :: "SpanLink \<Rightarrow> bool" where
  "SpanLink_wf orig \<longleftrightarrow> ID_wf traceIDSize (sk_TraceId orig) \<and> ID_wf spanIDSize (sk_SpanId orig) \<and> list_all KeyValue_wf (sk_Attributes orig)"

lemma SpanLink_decodes:
  assumes "SpanLink_wf m"
  shows "decodes SpanLink_field (SpanLink_bytes m) SpanLink_zero m"
proof -
  note wf = assms [unfolded SpanLink_wf_def]
  have 1: "decodes SpanLink_field ((if sk_Flags m \<noteq> 0 then fixed_bytes [0x35] 4 (ucast (sk_Flags m)) else []))
      SpanLink_zero
      (SpanLink_zero\<lparr>sk_Flags := sk_Flags m\<rparr>)"
    by (rule decodes_opt_fixed32 [where fn = 6 and upd = "\<lambda>v. SpanLink_zero\<lparr>sk_Flags := v\<rparr>"]) (simp_all add: SpanLink_field_def SpanLink_zero_def)
  have 2: "decodes SpanLink_field ((if sk_DroppedAttributesCount m \<noteq> 0 then varint_field_bytes [0x28] (ucast (sk_DroppedAttributesCount m)) else []))
      (SpanLink_zero\<lparr>sk_Flags := sk_Flags m\<rparr>)
      (SpanLink_zero\<lparr>sk_Flags := sk_Flags m, sk_DroppedAttributesCount := sk_DroppedAttributesCount m\<rparr>)"
    by (rule decodes_opt_varint [where fn = 5 and enc = ucast and dec = ucast and upd = "\<lambda>v. SpanLink_zero\<lparr>sk_Flags := sk_Flags m, sk_DroppedAttributesCount := v\<rparr>"]) (simp_all add: SpanLink_field_def SpanLink_zero_def ucast_ucast_32)
  have 3: "decodes SpanLink_field (concat (map (\<lambda>v. string_bytes [0x22] (KeyValue_bytes v)) (sk_Attributes m)))
      (SpanLink_zero\<lparr>sk_Flags := sk_Flags m, sk_DroppedAttributesCount := sk_DroppedAttributesCount m\<rparr>)
      (SpanLink_zero\<lparr>sk_Flags := sk_Flags m, sk_DroppedAttributesCount := sk_DroppedAttributesCount m, sk_Attributes := sk_Attributes m\<rparr>)"
    by (rule key_value.decodes_repeated_message [where fn = 4 and upd = "\<lambda>v. SpanLink_zero\<lparr>sk_Flags := sk_Flags m, sk_DroppedAttributesCount := sk_DroppedAttributesCount m, sk_Attributes := v\<rparr>"]) (simp_all add: SpanLink_field_def SpanLink_zero_def wf)
  have 4: "decodes SpanLink_field ((if length (sk_TraceState m) > 0 then string_bytes [0x1a] (sk_TraceState m) else []))
      (SpanLink_zero\<lparr>sk_Flags := sk_Flags m, sk_DroppedAttributesCount := sk_DroppedAttributesCount m, sk_Attributes := sk_Attributes m\<rparr>)
      (SpanLink_zero\<lparr>sk_Flags := sk_Flags m, sk_DroppedAttributesCount := sk_DroppedAttributesCount m, sk_Attributes := sk_Attributes m, sk_TraceState := sk_TraceState m\<rparr>)"
    by (rule decodes_opt_string [where fn = 3 and upd = "\<lambda>v. SpanLink_zero\<lparr>sk_Flags := sk_Flags m, sk_DroppedAttributesCount := sk_DroppedAttributesCount m, sk_Attributes := sk_Attributes m, sk_TraceState := v\<rparr>"]) (simp_all add: SpanLink_field_def SpanLink_zero_def)
  have 5: "decodes SpanLink_field (string_bytes [0x12] (ID_bytes spanIDSize (sk_SpanId m)))
      (SpanLink_zero\<lparr>sk_Flags := sk_Flags m, sk_DroppedAttributesCount := sk_DroppedAttributesCount m, sk_Attributes := sk_Attributes m, sk_TraceState := sk_TraceState m\<rparr>)
      (SpanLink_zero\<lparr>sk_Flags := sk_Flags m, sk_DroppedAttributesCount := sk_DroppedAttributesCount m, sk_Attributes := sk_Attributes m, sk_TraceState := sk_TraceState m, sk_SpanId := sk_SpanId m\<rparr>)"
    by (rule ident.decodes_message [where fn = 2 and upd = "\<lambda>v. SpanLink_zero\<lparr>sk_Flags := sk_Flags m, sk_DroppedAttributesCount := sk_DroppedAttributesCount m, sk_Attributes := sk_Attributes m, sk_TraceState := sk_TraceState m, sk_SpanId := v\<rparr>"]) (simp_all add: SpanLink_field_def SpanLink_zero_def wf)
  have 6: "decodes SpanLink_field (string_bytes [0x0a] (ID_bytes traceIDSize (sk_TraceId m)))
      (SpanLink_zero\<lparr>sk_Flags := sk_Flags m, sk_DroppedAttributesCount := sk_DroppedAttributesCount m, sk_Attributes := sk_Attributes m, sk_TraceState := sk_TraceState m, sk_SpanId := sk_SpanId m\<rparr>)
      (SpanLink_zero\<lparr>sk_Flags := sk_Flags m, sk_DroppedAttributesCount := sk_DroppedAttributesCount m, sk_Attributes := sk_Attributes m, sk_TraceState := sk_TraceState m, sk_SpanId := sk_SpanId m, sk_TraceId := sk_TraceId m\<rparr>)"
    by (rule ident.decodes_message [where fn = 1 and upd = "\<lambda>v. SpanLink_zero\<lparr>sk_Flags := sk_Flags m, sk_DroppedAttributesCount := sk_DroppedAttributesCount m, sk_Attributes := sk_Attributes m, sk_TraceState := sk_TraceState m, sk_SpanId := sk_SpanId m, sk_TraceId := v\<rparr>"]) (simp_all add: SpanLink_field_def SpanLink_zero_def wf)
  have eq: "(SpanLink_zero\<lparr>sk_Flags := sk_Flags m, sk_DroppedAttributesCount := sk_DroppedAttributesCount m, sk_Attributes := sk_Attributes m, sk_TraceState := sk_TraceState m, sk_SpanId := sk_SpanId m, sk_TraceId := sk_TraceId m\<rparr>) = m"
    by (cases m) (simp add: SpanLink_zero_def)
  from decodes_append [OF decodes_append [OF decodes_append [OF decodes_append [OF decodes_append [OF 1 2] 3] 4] 5] 6]
  show ?thesis unfolding eq SpanLink_bytes_def .
qed

interpretation span_link: proto_message SpanLink_SizeProto SpanLink_MarshalProto SpanLink_UnmarshalProto SpanLink_zero SpanLink_bytes SpanLink_wf
proof unfold_locales
  fix m assume wf: "SpanLink_wf m"
  then show "SpanLink_SizeProto m = length (SpanLink_bytes m)"
    unfolding SpanLink_SizeProto_def SpanLink_bytes_def SpanLink_wf_def
    by (simp add: length_if_Nil field_sizes repeated_string_size ident.repeated_size ident.size key_value.repeated_size key_value.size del: length_concat split del: if_split cong: if_cong)
  show "marshals (SpanLink_MarshalProto m) (SpanLink_bytes m)"
    unfolding SpanLink_MarshalProto_def SpanLink_bytes_def
    by (intro marshals_body emit) (use wf in \<open>simp_all add: SpanLink_wf_def\<close>)
  show "SpanLink_UnmarshalProto (SpanLink_bytes m) SpanLink_zero = Some (Inr m)" if "valid_buf (SpanLink_bytes m)"
    unfolding SpanLink_UnmarshalProto_def by (rule unmarshal_body_decodes [OF SpanLink_decodes [OF wf] that])
next
  fix buf and m :: SpanLink
  assume "valid_buf buf"
  then show "unmarshal_ok (SpanLink_UnmarshalProto buf m)"
    unfolding SpanLink_UnmarshalProto_def SpanLink_field_def by (intro unmarshal_body_ok reader_ok) simp_all
qed

section \<open>Span\<close>

record Span =
  sp_TraceId :: ident
  sp_SpanId :: ident
  sp_TraceState :: "byte list"
  sp_ParentSpanId :: ident
  sp_Flags :: "32 word"
  sp_Name :: "byte list"
  sp_Kind :: "32 word"
  sp_StartTimeUnixNano :: u64
  sp_EndTimeUnixNano :: u64
  sp_Attributes :: "KeyValue list"
  sp_DroppedAttributesCount :: "32 word"
  sp_Events :: "SpanEvent list"
  sp_DroppedEventsCount :: "32 word"
  sp_Links :: "SpanLink list"
  sp_DroppedLinksCount :: "32 word"
  sp_Status :: Status

definition Span_zero :: Span where
  "Span_zero = \<lparr>sp_TraceId = replicate traceIDSize 0, sp_SpanId = replicate spanIDSize 0, sp_TraceState = [], sp_ParentSpanId = replicate spanIDSize 0, sp_Flags = 0, sp_Name = [], sp_Kind = 0, sp_StartTimeUnixNano = 0, sp_EndTimeUnixNano = 0, sp_Attributes = [], sp_DroppedAttributesCount = 0, sp_Events = [], sp_DroppedEventsCount = 0, sp_Links = [], sp_DroppedLinksCount = 0, sp_Status = Status_zero\<rparr>"

definition Span_SizeProto :: "Span \<Rightarrow> nat" where
  "Span_SizeProto orig =
     len_size 1 (ID_SizeProto traceIDSize (sp_TraceId orig))
     + len_size 1 (ID_SizeProto spanIDSize (sp_SpanId orig))
     + (if length (sp_TraceState orig) > 0 then len_size 1 (length (sp_TraceState orig)) else 0)
     + len_size 1 (ID_SizeProto spanIDSize (sp_ParentSpanId orig))
     + (if sp_Flags orig \<noteq> 0 then 6 else 0)
     + (if length (sp_Name orig) > 0 then len_size 1 (length (sp_Name orig)) else 0)
     + (if sp_Kind orig \<noteq> 0 then 1 + Sov (scast (sp_Kind orig)) else 0)
     + (if sp_StartTimeUnixNano orig \<noteq> 0 then 9 else 0)
     + (if sp_EndTimeUnixNano orig \<noteq> 0 then 9 else 0)
     + sum_list (map (\<lambda>v. len_size 1 (KeyValue_SizeProto v)) (sp_Attributes orig))
     + (if sp_DroppedAttributesCount orig \<noteq> 0 then 1 + Sov (ucast (sp_DroppedAttributesCount orig)) else 0)
     + sum_list (map (\<lambda>v. len_size 1 (SpanEvent_SizeProto v)) (sp_Events orig))
     + (if sp_DroppedEventsCount orig \<noteq> 0 then 1 + Sov (ucast (sp_DroppedEventsCount orig)) else 0)
     + sum_list (map (\<lambda>v. len_size 1 (SpanLink_SizeProto v)) (sp_Links orig))
     + (if sp_DroppedLinksCount orig \<noteq> 0 then 1 + Sov (ucast (sp_DroppedLinksCount orig)) else 0)
     + len_size 1 (Status_SizeProto (sp_Status orig))"

definition Span_MarshalProto :: "Span \<Rightarrow> marshaler" where
  "Span_MarshalProto orig = marshal_body
     (message_block [0x0a] (ID_MarshalProto traceIDSize (sp_TraceId orig))
      @ message_block [0x12] (ID_MarshalProto spanIDSize (sp_SpanId orig))
      @ (if length (sp_TraceState orig) > 0 then string_block [0x1a] (sp_TraceState orig) else [])
      @ message_block [0x22] (ID_MarshalProto spanIDSize (sp_ParentSpanId orig))
      @ (if sp_Flags orig \<noteq> 0 then fixed_block [0x85, 0x01] 4 (ucast (sp_Flags orig)) else [])
      @ (if length (sp_Name orig) > 0 then string_block [0x2a] (sp_Name orig) else [])
      @ (if sp_Kind orig \<noteq> 0 then varint_block [0x30] (scast (sp_Kind orig)) else [])
      @ (if sp_StartTimeUnixNano orig \<noteq> 0 then fixed_block [0x39] 8 (sp_StartTimeUnixNano orig) else [])
      @ (if sp_EndTimeUnixNano orig \<noteq> 0 then fixed_block [0x41] 8 (sp_EndTimeUnixNano orig) else [])
      @ concat (map (\<lambda>v. message_block [0x4a] (KeyValue_MarshalProto v)) (rev (sp_Attributes orig)))
      @ (if sp_DroppedAttributesCount orig \<noteq> 0 then varint_block [0x50] (ucast (sp_DroppedAttributesCount orig)) else [])
      @ concat (map (\<lambda>v. message_block [0x5a] (SpanEvent_MarshalProto v)) (rev (sp_Events orig)))
      @ (if sp_DroppedEventsCount orig \<noteq> 0 then varint_block [0x60] (ucast (sp_DroppedEventsCount orig)) else [])
      @ concat (map (\<lambda>v. message_block [0x6a] (SpanLink_MarshalProto v)) (rev (sp_Links orig)))
      @ (if sp_DroppedLinksCount orig \<noteq> 0 then varint_block [0x70] (ucast (sp_DroppedLinksCount orig)) else [])
      @ message_block [0x7a] (Status_MarshalProto (sp_Status orig)))"

definition Span_field :: "Span field_reader" where
  "Span_field buf fieldNum wireType pos orig =
     (if fieldNum = 1 then read_message (ID_UnmarshalProto traceIDSize) (sp_TraceId orig) (\<lambda>v. orig\<lparr>sp_TraceId := v\<rparr>) buf wireType pos
      else if fieldNum = 2 then read_message (ID_UnmarshalProto spanIDSize) (sp_SpanId orig) (\<lambda>v. orig\<lparr>sp_SpanId := v\<rparr>) buf wireType pos
      else if fieldNum = 3 then read_bytes (\<lambda>s. orig\<lparr>sp_TraceState := s\<rparr>) buf wireType pos
      else if fieldNum = 4 then read_message (ID_UnmarshalProto spanIDSize) (sp_ParentSpanId orig) (\<lambda>v. orig\<lparr>sp_ParentSpanId := v\<rparr>) buf wireType pos
      else if fieldNum = 16 then read_i32 (\<lambda>num. orig\<lparr>sp_Flags := num\<rparr>) buf wireType pos
      else if fieldNum = 5 then read_bytes (\<lambda>s. orig\<lparr>sp_Name := s\<rparr>) buf wireType pos
      else if fieldNum = 6 then read_varint (\<lambda>num. orig\<lparr>sp_Kind := ucast num\<rparr>) buf wireType pos
      else if fieldNum = 7 then read_i64 (\<lambda>num. orig\<lparr>sp_StartTimeUnixNano := num\<rparr>) buf wireType pos
      else if fieldNum = 8 then read_i64 (\<lambda>num. orig\<lparr>sp_EndTimeUnixNano := num\<rparr>) buf wireType pos
      else if fieldNum = 9 then read_message KeyValue_UnmarshalProto KeyValue_zero (\<lambda>v. orig\<lparr>sp_Attributes := sp_Attributes orig @ [v]\<rparr>) buf wireType pos
      else if fieldNum = 10 then read_varint (\<lambda>num. orig\<lparr>sp_DroppedAttributesCount := ucast num\<rparr>) buf wireType pos
      else if fieldNum = 11 then read_message SpanEvent_UnmarshalProto SpanEvent_zero (\<lambda>v. orig\<lparr>sp_Events := sp_Events orig @ [v]\<rparr>) buf wireType pos
      else if fieldNum = 12 then read_varint (\<lambda>num. orig\<lparr>sp_DroppedEventsCount := ucast num\<rparr>) buf wireType pos
      else if fieldNum = 13 then read_message SpanLink_UnmarshalProto SpanLink_zero (\<lambda>v. orig\<lparr>sp_Links := sp_Links orig @ [v]\<rparr>) buf wireType pos
      else if fieldNum = 14 then read_varint (\<lambda>num. orig\<lparr>sp_DroppedLinksCount := ucast num\<rparr>) buf wireType pos
      else if fieldNum = 15 then read_message Status_UnmarshalProto (sp_Status orig) (\<lambda>v. orig\<lparr>sp_Status := v\<rparr>) buf wireType pos
      else read_unknown orig buf wireType pos)"

definition Span_UnmarshalProto :: "Span unmarshaler" where
  "Span_UnmarshalProto = unmarshal_body Span_field"

definition Span_bytes :: "Span \<Rightarrow> byte list" where
  "Span_bytes orig =
     (((((((((((((((string_bytes [0x7a] (Status_bytes (sp_Status orig))
      @ (if sp_DroppedLinksCount orig \<noteq> 0 then varint_field_bytes [0x70] (ucast (sp_DroppedLinksCount orig)) else []))
      @ concat (map (\<lambda>v. string_bytes [0x6a] (SpanLink_bytes v)) (sp_Links orig)))
      @ (if sp_DroppedEventsCount orig \<noteq> 0 then varint_field_bytes [0x60] (ucast (sp_DroppedEventsCount orig)) else []))
      @ concat (map (\<lambda>v. string_bytes [0x5a] (SpanEvent_bytes v)) (sp_Events orig)))
      @ (if sp_DroppedAttributesCount orig \<noteq> 0 then varint_field_bytes [0x50] (ucast (sp_DroppedAttributesCount orig)) else []))
      @ concat (map (\<lambda>v. string_bytes [0x4a] (KeyValue_bytes v)) (sp_Attributes orig)))
      @ (if sp_EndTimeUnixNano orig \<noteq> 0 then fixed_bytes [0x41] 8 (sp_EndTimeUnixNano orig) else []))
      @ (if sp_StartTimeUnixNano orig \<noteq> 0 then fixed_bytes [0x39] 8 (sp_StartTimeUnixNano orig) else []))
      @ (if sp_Kind orig \<noteq> 0 then varint_field_bytes [0x30] (scast (sp_Kind orig)) else []))
      @ (if length (sp_Name orig) > 0 then string_bytes [0x2a] (sp_Name orig) else []))
      @ (if sp_Flags orig \<noteq> 0 then fixed_bytes [0x85, 0x01] 4 (ucast (sp_Flags orig)) else []))
      @ string_bytes [0x22] (ID_bytes spanIDSize (sp_ParentSpanId orig)))
      @ (if length (sp_TraceState orig) > 0 then string_bytes [0x1a] (sp_TraceState orig) else []))
      @ string_bytes [0x12] (ID_bytes spanIDSize (sp_SpanId orig)))
      @ string_bytes [0x0a] (ID_bytes traceIDSize (sp_TraceId orig)))"

definition Span_wf :: "Span \<Rightarrow> bool" where
  "Span_wf orig \<longleftrightarrow> ID_wf traceIDSize (sp_TraceId orig) \<and> ID_wf spanIDSize (sp_SpanId orig) \<and> ID_wf spanIDSize (sp_ParentSpanId orig) \<and> list_all KeyValue_wf (sp_Attributes orig) \<and> list_all SpanEvent_wf (sp_Events orig) \<and> list_all SpanLink_wf (sp_Links orig) \<and> Status_wf (sp_Status orig)"

lemma Span_decodes:
  assumes "Span_wf m"
  shows "decodes Span_field (Span_bytes m) Span_zero m"
proof -
  note wf = assms [unfolded Span_wf_def]
  have 1: "decodes Span_field (string_bytes [0x7a] (Status_bytes (sp_Status m)))
      Span_zero
      (Span_zero\<lparr>sp_Status := sp_Status m\<rparr>)"
    by (rule status.decodes_message [where fn = 15 and upd = "\<lambda>v. Span_zero\<lparr>sp_Status := v\<rparr>"]) (simp_all add: Span_field_def Span_zero_def wf)
  have 2: "decodes Span_field ((if sp_DroppedLinksCount m \<noteq> 0 then varint_field_bytes [0x70] (ucast (sp_DroppedLinksCount m)) else []))
      (Span_zero\<lparr>sp_Status := sp_Status m\<rparr>)
      (Span_zero\<lparr>sp_Status := sp_Status m, sp_DroppedLinksCount := sp_DroppedLinksCount m\<rparr>)"
    by (rule decodes_opt_varint [where fn = 14 and enc = ucast and dec = ucast and upd = "\<lambda>v. Span_zero\<lparr>sp_Status := sp_Status m, sp_DroppedLinksCount := v\<rparr>"]) (simp_all add: Span_field_def Span_zero_def ucast_ucast_32)
  have 3: "decodes Span_field (concat (map (\<lambda>v. string_bytes [0x6a] (SpanLink_bytes v)) (sp_Links m)))
      (Span_zero\<lparr>sp_Status := sp_Status m, sp_DroppedLinksCount := sp_DroppedLinksCount m\<rparr>)
      (Span_zero\<lparr>sp_Status := sp_Status m, sp_DroppedLinksCount := sp_DroppedLinksCount m, sp_Links := sp_Links m\<rparr>)"
    by (rule span_link.decodes_repeated_message [where fn = 13 and upd = "\<lambda>v. Span_zero\<lparr>sp_Status := sp_Status m, sp_DroppedLinksCount := sp_DroppedLinksCount m, sp_Links := v\<rparr>"]) (simp_all add: Span_field_def Span_zero_def wf)
  have 4: "decodes Span_field ((if sp_DroppedEventsCount m \<noteq> 0 then varint_field_bytes [0x60] (ucast (sp_DroppedEventsCount m)) else []))
      (Span_zero\<lparr>sp_Status := sp_Status m, sp_DroppedLinksCount := sp_DroppedLinksCount m, sp_Links := sp_Links m\<rparr>)
      (Span_zero\<lparr>sp_Status := sp_Status m, sp_DroppedLinksCount := sp_DroppedLinksCount m, sp_Links := sp_Links m, sp_DroppedEventsCount := sp_DroppedEventsCount m\<rparr>)"
    by (rule decodes_opt_varint [where fn = 12 and enc = ucast and dec = ucast and upd = "\<lambda>v. Span_zero\<lparr>sp_Status := sp_Status m, sp_DroppedLinksCount := sp_DroppedLinksCount m, sp_Links := sp_Links m, sp_DroppedEventsCount := v\<rparr>"]) (simp_all add: Span_field_def Span_zero_def ucast_ucast_32)
  have 5: "decodes Span_field (concat (map (\<lambda>v. string_bytes [0x5a] (SpanEvent_bytes v)) (sp_Events m)))
      (Span_zero\<lparr>sp_Status := sp_Status m, sp_DroppedLinksCount := sp_DroppedLinksCount m, sp_Links := sp_Links m, sp_DroppedEventsCount := sp_DroppedEventsCount m\<rparr>)
      (Span_zero\<lparr>sp_Status := sp_Status m, sp_DroppedLinksCount := sp_DroppedLinksCount m, sp_Links := sp_Links m, sp_DroppedEventsCount := sp_DroppedEventsCount m, sp_Events := sp_Events m\<rparr>)"
    by (rule span_event.decodes_repeated_message [where fn = 11 and upd = "\<lambda>v. Span_zero\<lparr>sp_Status := sp_Status m, sp_DroppedLinksCount := sp_DroppedLinksCount m, sp_Links := sp_Links m, sp_DroppedEventsCount := sp_DroppedEventsCount m, sp_Events := v\<rparr>"]) (simp_all add: Span_field_def Span_zero_def wf)
  have 6: "decodes Span_field ((if sp_DroppedAttributesCount m \<noteq> 0 then varint_field_bytes [0x50] (ucast (sp_DroppedAttributesCount m)) else []))
      (Span_zero\<lparr>sp_Status := sp_Status m, sp_DroppedLinksCount := sp_DroppedLinksCount m, sp_Links := sp_Links m, sp_DroppedEventsCount := sp_DroppedEventsCount m, sp_Events := sp_Events m\<rparr>)
      (Span_zero\<lparr>sp_Status := sp_Status m, sp_DroppedLinksCount := sp_DroppedLinksCount m, sp_Links := sp_Links m, sp_DroppedEventsCount := sp_DroppedEventsCount m, sp_Events := sp_Events m, sp_DroppedAttributesCount := sp_DroppedAttributesCount m\<rparr>)"
    by (rule decodes_opt_varint [where fn = 10 and enc = ucast and dec = ucast and upd = "\<lambda>v. Span_zero\<lparr>sp_Status := sp_Status m, sp_DroppedLinksCount := sp_DroppedLinksCount m, sp_Links := sp_Links m, sp_DroppedEventsCount := sp_DroppedEventsCount m, sp_Events := sp_Events m, sp_DroppedAttributesCount := v\<rparr>"]) (simp_all add: Span_field_def Span_zero_def ucast_ucast_32)
  have 7: "decodes Span_field (concat (map (\<lambda>v. string_bytes [0x4a] (KeyValue_bytes v)) (sp_Attributes m)))
      (Span_zero\<lparr>sp_Status := sp_Status m, sp_DroppedLinksCount := sp_DroppedLinksCount m, sp_Links := sp_Links m, sp_DroppedEventsCount := sp_DroppedEventsCount m, sp_Events := sp_Events m, sp_DroppedAttributesCount := sp_DroppedAttributesCount m\<rparr>)
      (Span_zero\<lparr>sp_Status := sp_Status m, sp_DroppedLinksCount := sp_DroppedLinksCount m, sp_Links := sp_Links m, sp_DroppedEventsCount := sp_DroppedEventsCount m, sp_Events := sp_Events m, sp_DroppedAttributesCount := sp_DroppedAttributesCount m, sp_Attributes := sp_Attributes m\<rparr>)"
    by (rule key_value.decodes_repeated_message [where fn = 9 and upd = "\<lambda>v. Span_zero\<lparr>sp_Status := sp_Status m, sp_DroppedLinksCount := sp_DroppedLinksCount m, sp_Links := sp_Links m, sp_DroppedEventsCount := sp_DroppedEventsCount m, sp_Events := sp_Events m, sp_DroppedAttributesCount := sp_DroppedAttributesCount m, sp_Attributes := v\<rparr>"]) (simp_all add: Span_field_def Span_zero_def wf)
  have 8: "decodes Span_field ((if sp_EndTimeUnixNano m \<noteq> 0 then fixed_bytes [0x41] 8 (sp_EndTimeUnixNano m) else []))
      (Span_zero\<lparr>sp_Status := sp_Status m, sp_DroppedLinksCount := sp_DroppedLinksCount m, sp_Links := sp_Links m, sp_DroppedEventsCount := sp_DroppedEventsCount m, sp_Events := sp_Events m, sp_DroppedAttributesCount := sp_DroppedAttributesCount m, sp_Attributes := sp_Attributes m\<rparr>)
      (Span_zero\<lparr>sp_Status := sp_Status m, sp_DroppedLinksCount := sp_DroppedLinksCount m, sp_Links := sp_Links m, sp_DroppedEventsCount := sp_DroppedEventsCount m, sp_Events := sp_Events m, sp_DroppedAttributesCount := sp_DroppedAttributesCount m, sp_Attributes := sp_Attributes m, sp_EndTimeUnixNano := sp_EndTimeUnixNano m\<rparr>)"
    by (rule decodes_opt_fixed64 [where fn = 8 and upd = "\<lambda>v. Span_zero\<lparr>sp_Status := sp_Status m, sp_DroppedLinksCount := sp_DroppedLinksCount m, sp_Links := sp_Links m, sp_DroppedEventsCount := sp_DroppedEventsCount m, sp_Events := sp_Events m, sp_DroppedAttributesCount := sp_DroppedAttributesCount m, sp_Attributes := sp_Attributes m, sp_EndTimeUnixNano := v\<rparr>"]) (simp_all add: Span_field_def Span_zero_def)
  have 9: "decodes Span_field ((if sp_StartTimeUnixNano m \<noteq> 0 then fixed_bytes [0x39] 8 (sp_StartTimeUnixNano m) else []))
      (Span_zero\<lparr>sp_Status := sp_Status m, sp_DroppedLinksCount := sp_DroppedLinksCount m, sp_Links := sp_Links m, sp_DroppedEventsCount := sp_DroppedEventsCount m, sp_Events := sp_Events m, sp_DroppedAttributesCount := sp_DroppedAttributesCount m, sp_Attributes := sp_Attributes m, sp_EndTimeUnixNano := sp_EndTimeUnixNano m\<rparr>)
      (Span_zero\<lparr>sp_Status := sp_Status m, sp_DroppedLinksCount := sp_DroppedLinksCount m, sp_Links := sp_Links m, sp_DroppedEventsCount := sp_DroppedEventsCount m, sp_Events := sp_Events m, sp_DroppedAttributesCount := sp_DroppedAttributesCount m, sp_Attributes := sp_Attributes m, sp_EndTimeUnixNano := sp_EndTimeUnixNano m, sp_StartTimeUnixNano := sp_StartTimeUnixNano m\<rparr>)"
    by (rule decodes_opt_fixed64 [where fn = 7 and upd = "\<lambda>v. Span_zero\<lparr>sp_Status := sp_Status m, sp_DroppedLinksCount := sp_DroppedLinksCount m, sp_Links := sp_Links m, sp_DroppedEventsCount := sp_DroppedEventsCount m, sp_Events := sp_Events m, sp_DroppedAttributesCount := sp_DroppedAttributesCount m, sp_Attributes := sp_Attributes m, sp_EndTimeUnixNano := sp_EndTimeUnixNano m, sp_StartTimeUnixNano := v\<rparr>"]) (simp_all add: Span_field_def Span_zero_def)
  have 10: "decodes Span_field ((if sp_Kind m \<noteq> 0 then varint_field_bytes [0x30] (scast (sp_Kind m)) else []))
      (Span_zero\<lparr>sp_Status := sp_Status m, sp_DroppedLinksCount := sp_DroppedLinksCount m, sp_Links := sp_Links m, sp_DroppedEventsCount := sp_DroppedEventsCount m, sp_Events := sp_Events m, sp_DroppedAttributesCount := sp_DroppedAttributesCount m, sp_Attributes := sp_Attributes m, sp_EndTimeUnixNano := sp_EndTimeUnixNano m, sp_StartTimeUnixNano := sp_StartTimeUnixNano m\<rparr>)
      (Span_zero\<lparr>sp_Status := sp_Status m, sp_DroppedLinksCount := sp_DroppedLinksCount m, sp_Links := sp_Links m, sp_DroppedEventsCount := sp_DroppedEventsCount m, sp_Events := sp_Events m, sp_DroppedAttributesCount := sp_DroppedAttributesCount m, sp_Attributes := sp_Attributes m, sp_EndTimeUnixNano := sp_EndTimeUnixNano m, sp_StartTimeUnixNano := sp_StartTimeUnixNano m, sp_Kind := sp_Kind m\<rparr>)"
    by (rule decodes_opt_varint [where fn = 6 and enc = scast and dec = ucast and upd = "\<lambda>v. Span_zero\<lparr>sp_Status := sp_Status m, sp_DroppedLinksCount := sp_DroppedLinksCount m, sp_Links := sp_Links m, sp_DroppedEventsCount := sp_DroppedEventsCount m, sp_Events := sp_Events m, sp_DroppedAttributesCount := sp_DroppedAttributesCount m, sp_Attributes := sp_Attributes m, sp_EndTimeUnixNano := sp_EndTimeUnixNano m, sp_StartTimeUnixNano := sp_StartTimeUnixNano m, sp_Kind := v\<rparr>"]) (simp_all add: Span_field_def Span_zero_def ucast_scast_32)
  have 11: "decodes Span_field ((if length (sp_Name m) > 0 then string_bytes [0x2a] (sp_Name m) else []))
      (Span_zero\<lparr>sp_Status := sp_Status m, sp_DroppedLinksCount := sp_DroppedLinksCount m, sp_Links := sp_Links m, sp_DroppedEventsCount := sp_DroppedEventsCount m, sp_Events := sp_Events m, sp_DroppedAttributesCount := sp_DroppedAttributesCount m, sp_Attributes := sp_Attributes m, sp_EndTimeUnixNano := sp_EndTimeUnixNano m, sp_StartTimeUnixNano := sp_StartTimeUnixNano m, sp_Kind := sp_Kind m\<rparr>)
      (Span_zero\<lparr>sp_Status := sp_Status m, sp_DroppedLinksCount := sp_DroppedLinksCount m, sp_Links := sp_Links m, sp_DroppedEventsCount := sp_DroppedEventsCount m, sp_Events := sp_Events m, sp_DroppedAttributesCount := sp_DroppedAttributesCount m, sp_Attributes := sp_Attributes m, sp_EndTimeUnixNano := sp_EndTimeUnixNano m, sp_StartTimeUnixNano := sp_StartTimeUnixNano m, sp_Kind := sp_Kind m, sp_Name := sp_Name m\<rparr>)"
    by (rule decodes_opt_string [where fn = 5 and upd = "\<lambda>v. Span_zero\<lparr>sp_Status := sp_Status m, sp_DroppedLinksCount := sp_DroppedLinksCount m, sp_Links := sp_Links m, sp_DroppedEventsCount := sp_DroppedEventsCount m, sp_Events := sp_Events m, sp_DroppedAttributesCount := sp_DroppedAttributesCount m, sp_Attributes := sp_Attributes m, sp_EndTimeUnixNano := sp_EndTimeUnixNano m, sp_StartTimeUnixNano := sp_StartTimeUnixNano m, sp_Kind := sp_Kind m, sp_Name := v\<rparr>"]) (simp_all add: Span_field_def Span_zero_def)
  have 12: "decodes Span_field ((if sp_Flags m \<noteq> 0 then fixed_bytes [0x85, 0x01] 4 (ucast (sp_Flags m)) else []))
      (Span_zero\<lparr>sp_Status := sp_Status m, sp_DroppedLinksCount := sp_DroppedLinksCount m, sp_Links := sp_Links m, sp_DroppedEventsCount := sp_DroppedEventsCount m, sp_Events := sp_Events m, sp_DroppedAttributesCount := sp_DroppedAttributesCount m, sp_Attributes := sp_Attributes m, sp_EndTimeUnixNano := sp_EndTimeUnixNano m, sp_StartTimeUnixNano := sp_StartTimeUnixNano m, sp_Kind := sp_Kind m, sp_Name := sp_Name m\<rparr>)
      (Span_zero\<lparr>sp_Status := sp_Status m, sp_DroppedLinksCount := sp_DroppedLinksCount m, sp_Links := sp_Links m, sp_DroppedEventsCount := sp_DroppedEventsCount m, sp_Events := sp_Events m, sp_DroppedAttributesCount := sp_DroppedAttributesCount m, sp_Attributes := sp_Attributes m, sp_EndTimeUnixNano := sp_EndTimeUnixNano m, sp_StartTimeUnixNano := sp_StartTimeUnixNano m, sp_Kind := sp_Kind m, sp_Name := sp_Name m, sp_Flags := sp_Flags m\<rparr>)"
    by (rule decodes_opt_fixed32 [where fn = 16 and upd = "\<lambda>v. Span_zero\<lparr>sp_Status := sp_Status m, sp_DroppedLinksCount := sp_DroppedLinksCount m, sp_Links := sp_Links m, sp_DroppedEventsCount := sp_DroppedEventsCount m, sp_Events := sp_Events m, sp_DroppedAttributesCount := sp_DroppedAttributesCount m, sp_Attributes := sp_Attributes m, sp_EndTimeUnixNano := sp_EndTimeUnixNano m, sp_StartTimeUnixNano := sp_StartTimeUnixNano m, sp_Kind := sp_Kind m, sp_Name := sp_Name m, sp_Flags := v\<rparr>"]) (simp_all add: Span_field_def Span_zero_def)
  have 13: "decodes Span_field (string_bytes [0x22] (ID_bytes spanIDSize (sp_ParentSpanId m)))
      (Span_zero\<lparr>sp_Status := sp_Status m, sp_DroppedLinksCount := sp_DroppedLinksCount m, sp_Links := sp_Links m, sp_DroppedEventsCount := sp_DroppedEventsCount m, sp_Events := sp_Events m, sp_DroppedAttributesCount := sp_DroppedAttributesCount m, sp_Attributes := sp_Attributes m, sp_EndTimeUnixNano := sp_EndTimeUnixNano m, sp_StartTimeUnixNano := sp_StartTimeUnixNano m, sp_Kind := sp_Kind m, sp_Name := sp_Name m, sp_Flags := sp_Flags m\<rparr>)
      (Span_zero\<lparr>sp_Status := sp_Status m, sp_DroppedLinksCount := sp_DroppedLinksCount m, sp_Links := sp_Links m, sp_DroppedEventsCount := sp_DroppedEventsCount m, sp_Events := sp_Events m, sp_DroppedAttributesCount := sp_DroppedAttributesCount m, sp_Attributes := sp_Attributes m, sp_EndTimeUnixNano := sp_EndTimeUnixNano m, sp_StartTimeUnixNano := sp_StartTimeUnixNano m, sp_Kind := sp_Kind m, sp_Name := sp_Name m, sp_Flags := sp_Flags m, sp_ParentSpanId := sp_ParentSpanId m\<rparr>)"
    by (rule ident.decodes_message [where fn = 4 and upd = "\<lambda>v. Span_zero\<lparr>sp_Status := sp_Status m, sp_DroppedLinksCount := sp_DroppedLinksCount m, sp_Links := sp_Links m, sp_DroppedEventsCount := sp_DroppedEventsCount m, sp_Events := sp_Events m, sp_DroppedAttributesCount := sp_DroppedAttributesCount m, sp_Attributes := sp_Attributes m, sp_EndTimeUnixNano := sp_EndTimeUnixNano m, sp_StartTimeUnixNano := sp_StartTimeUnixNano m, sp_Kind := sp_Kind m, sp_Name := sp_Name m, sp_Flags := sp_Flags m, sp_ParentSpanId := v\<rparr>"]) (simp_all add: Span_field_def Span_zero_def wf)
  have 14: "decodes Span_field ((if length (sp_TraceState m) > 0 then string_bytes [0x1a] (sp_TraceState m) else []))
      (Span_zero\<lparr>sp_Status := sp_Status m, sp_DroppedLinksCount := sp_DroppedLinksCount m, sp_Links := sp_Links m, sp_DroppedEventsCount := sp_DroppedEventsCount m, sp_Events := sp_Events m, sp_DroppedAttributesCount := sp_DroppedAttributesCount m, sp_Attributes := sp_Attributes m, sp_EndTimeUnixNano := sp_EndTimeUnixNano m, sp_StartTimeUnixNano := sp_StartTimeUnixNano m, sp_Kind := sp_Kind m, sp_Name := sp_Name m, sp_Flags := sp_Flags m, sp_ParentSpanId := sp_ParentSpanId m\<rparr>)
      (Span_zero\<lparr>sp_Status := sp_Status m, sp_DroppedLinksCount := sp_DroppedLinksCount m, sp_Links := sp_Links m, sp_DroppedEventsCount := sp_DroppedEventsCount m, sp_Events := sp_Events m, sp_DroppedAttributesCount := sp_DroppedAttributesCount m, sp_Attributes := sp_Attributes m, sp_EndTimeUnixNano := sp_EndTimeUnixNano m, sp_StartTimeUnixNano := sp_StartTimeUnixNano m, sp_Kind := sp_Kind m, sp_Name := sp_Name m, sp_Flags := sp_Flags m, sp_ParentSpanId := sp_ParentSpanId m, sp_TraceState := sp_TraceState m\<rparr>)"
    by (rule decodes_opt_string [where fn = 3 and upd = "\<lambda>v. Span_zero\<lparr>sp_Status := sp_Status m, sp_DroppedLinksCount := sp_DroppedLinksCount m, sp_Links := sp_Links m, sp_DroppedEventsCount := sp_DroppedEventsCount m, sp_Events := sp_Events m, sp_DroppedAttributesCount := sp_DroppedAttributesCount m, sp_Attributes := sp_Attributes m, sp_EndTimeUnixNano := sp_EndTimeUnixNano m, sp_StartTimeUnixNano := sp_StartTimeUnixNano m, sp_Kind := sp_Kind m, sp_Name := sp_Name m, sp_Flags := sp_Flags m, sp_ParentSpanId := sp_ParentSpanId m, sp_TraceState := v\<rparr>"]) (simp_all add: Span_field_def Span_zero_def)
  have 15: "decodes Span_field (string_bytes [0x12] (ID_bytes spanIDSize (sp_SpanId m)))
      (Span_zero\<lparr>sp_Status := sp_Status m, sp_DroppedLinksCount := sp_DroppedLinksCount m, sp_Links := sp_Links m, sp_DroppedEventsCount := sp_DroppedEventsCount m, sp_Events := sp_Events m, sp_DroppedAttributesCount := sp_DroppedAttributesCount m, sp_Attributes := sp_Attributes m, sp_EndTimeUnixNano := sp_EndTimeUnixNano m, sp_StartTimeUnixNano := sp_StartTimeUnixNano m, sp_Kind := sp_Kind m, sp_Name := sp_Name m, sp_Flags := sp_Flags m, sp_ParentSpanId := sp_ParentSpanId m, sp_TraceState := sp_TraceState m\<rparr>)
      (Span_zero\<lparr>sp_Status := sp_Status m, sp_DroppedLinksCount := sp_DroppedLinksCount m, sp_Links := sp_Links m, sp_DroppedEventsCount := sp_DroppedEventsCount m, sp_Events := sp_Events m, sp_DroppedAttributesCount := sp_DroppedAttributesCount m, sp_Attributes := sp_Attributes m, sp_EndTimeUnixNano := sp_EndTimeUnixNano m, sp_StartTimeUnixNano := sp_StartTimeUnixNano m, sp_Kind := sp_Kind m, sp_Name := sp_Name m, sp_Flags := sp_Flags m, sp_ParentSpanId := sp_ParentSpanId m, sp_TraceState := sp_TraceState m, sp_SpanId := sp_SpanId m\<rparr>)"
    by (rule ident.decodes_message [where fn = 2 and upd = "\<lambda>v. Span_zero\<lparr>sp_Status := sp_Status m, sp_DroppedLinksCount := sp_DroppedLinksCount m, sp_Links := sp_Links m, sp_DroppedEventsCount := sp_DroppedEventsCount m, sp_Events := sp_Events m, sp_DroppedAttributesCount := sp_DroppedAttributesCount m, sp_Attributes := sp_Attributes m, sp_EndTimeUnixNano := sp_EndTimeUnixNano m, sp_StartTimeUnixNano := sp_StartTimeUnixNano m, sp_Kind := sp_Kind m, sp_Name := sp_Name m, sp_Flags := sp_Flags m, sp_ParentSpanId := sp_ParentSpanId m, sp_TraceState := sp_TraceState m, sp_SpanId := v\<rparr>"]) (simp_all add: Span_field_def Span_zero_def wf)
  have 16: "decodes Span_field (string_bytes [0x0a] (ID_bytes traceIDSize (sp_TraceId m)))
      (Span_zero\<lparr>sp_Status := sp_Status m, sp_DroppedLinksCount := sp_DroppedLinksCount m, sp_Links := sp_Links m, sp_DroppedEventsCount := sp_DroppedEventsCount m, sp_Events := sp_Events m, sp_DroppedAttributesCount := sp_DroppedAttributesCount m, sp_Attributes := sp_Attributes m, sp_EndTimeUnixNano := sp_EndTimeUnixNano m, sp_StartTimeUnixNano := sp_StartTimeUnixNano m, sp_Kind := sp_Kind m, sp_Name := sp_Name m, sp_Flags := sp_Flags m, sp_ParentSpanId := sp_ParentSpanId m, sp_TraceState := sp_TraceState m, sp_SpanId := sp_SpanId m\<rparr>)
      (Span_zero\<lparr>sp_Status := sp_Status m, sp_DroppedLinksCount := sp_DroppedLinksCount m, sp_Links := sp_Links m, sp_DroppedEventsCount := sp_DroppedEventsCount m, sp_Events := sp_Events m, sp_DroppedAttributesCount := sp_DroppedAttributesCount m, sp_Attributes := sp_Attributes m, sp_EndTimeUnixNano := sp_EndTimeUnixNano m, sp_StartTimeUnixNano := sp_StartTimeUnixNano m, sp_Kind := sp_Kind m, sp_Name := sp_Name m, sp_Flags := sp_Flags m, sp_ParentSpanId := sp_ParentSpanId m, sp_TraceState := sp_TraceState m, sp_SpanId := sp_SpanId m, sp_TraceId := sp_TraceId m\<rparr>)"
    by (rule ident.decodes_message [where fn = 1 and upd = "\<lambda>v. Span_zero\<lparr>sp_Status := sp_Status m, sp_DroppedLinksCount := sp_DroppedLinksCount m, sp_Links := sp_Links m, sp_DroppedEventsCount := sp_DroppedEventsCount m, sp_Events := sp_Events m, sp_DroppedAttributesCount := sp_DroppedAttributesCount m, sp_Attributes := sp_Attributes m, sp_EndTimeUnixNano := sp_EndTimeUnixNano m, sp_StartTimeUnixNano := sp_StartTimeUnixNano m, sp_Kind := sp_Kind m, sp_Name := sp_Name m, sp_Flags := sp_Flags m, sp_ParentSpanId := sp_ParentSpanId m, sp_TraceState := sp_TraceState m, sp_SpanId := sp_SpanId m, sp_TraceId := v\<rparr>"]) (simp_all add: Span_field_def Span_zero_def wf)
  have eq: "(Span_zero\<lparr>sp_Status := sp_Status m, sp_DroppedLinksCount := sp_DroppedLinksCount m, sp_Links := sp_Links m, sp_DroppedEventsCount := sp_DroppedEventsCount m, sp_Events := sp_Events m, sp_DroppedAttributesCount := sp_DroppedAttributesCount m, sp_Attributes := sp_Attributes m, sp_EndTimeUnixNano := sp_EndTimeUnixNano m, sp_StartTimeUnixNano := sp_StartTimeUnixNano m, sp_Kind := sp_Kind m, sp_Name := sp_Name m, sp_Flags := sp_Flags m, sp_ParentSpanId := sp_ParentSpanId m, sp_TraceState := sp_TraceState m, sp_SpanId := sp_SpanId m, sp_TraceId := sp_TraceId m\<rparr>) = m"
    by (cases m) (simp add: Span_zero_def)
  from decodes_append [OF decodes_append [OF decodes_append [OF decodes_append [OF decodes_append [OF decodes_append [OF decodes_append [OF decodes_append [OF decodes_append [OF decodes_append [OF decodes_append [OF decodes_append [OF decodes_append [OF decodes_append [OF decodes_append [OF 1 2] 3] 4] 5] 6] 7] 8] 9] 10] 11] 12] 13] 14] 15] 16]
  show ?thesis unfolding eq Span_bytes_def .
qed

interpretation span: proto_message Span_SizeProto Span_MarshalProto Span_UnmarshalProto Span_zero Span_bytes Span_wf
proof unfold_locales
  fix m assume wf: "Span_wf m"
  then show "Span_SizeProto m = length (Span_bytes m)"
    unfolding Span_SizeProto_def Span_bytes_def Span_wf_def
    by (simp add: length_if_Nil field_sizes repeated_string_size ident.repeated_size ident.size key_value.repeated_size key_value.size span_event.repeated_size span_event.size span_link.repeated_size span_link.size status.repeated_size status.size del: length_concat split del: if_split cong: if_cong)
  show "marshals (Span_MarshalProto m) (Span_bytes m)"
    unfolding Span_MarshalProto_def Span_bytes_def
    by (intro marshals_body emit) (use wf in \<open>simp_all add: Span_wf_def\<close>)
  show "Span_UnmarshalProto (Span_bytes m) Span_zero = Some (Inr m)" if "valid_buf (Span_bytes m)"
    unfolding Span_UnmarshalProto_def by (rule unmarshal_body_decodes [OF Span_decodes [OF wf] that])
next
  fix buf and m :: Span
  assume "valid_buf buf"
  then show "unmarshal_ok (Span_UnmarshalProto buf m)"
    unfolding Span_UnmarshalProto_def Span_field_def by (intro unmarshal_body_ok reader_ok) simp_all
qed

section \<open>ScopeSpans\<close>

record ScopeSpans =
  ss_Scope :: InstrumentationScope
  ss_Spans :: "Span list"
  ss_SchemaUrl :: "byte list"

definition ScopeSpans_zero :: ScopeSpans where
  "ScopeSpans_zero = \<lparr>ss_Scope = InstrumentationScope_zero, ss_Spans = [], ss_SchemaUrl = []\<rparr>"

definition ScopeSpans_SizeProto :: "ScopeSpans \<Rightarrow> nat" where
  "ScopeSpans_SizeProto orig =
     len_size 1 (InstrumentationScope_SizeProto (ss_Scope orig))
     + sum_list (map (\<lambda>v. len_size 1 (Span_SizeProto v)) (ss_Spans orig))
     + (if length (ss_SchemaUrl orig) > 0 then len_size 1 (length (ss_SchemaUrl orig)) else 0)"

definition ScopeSpans_MarshalProto :: "ScopeSpans \<Rightarrow> marshaler" where
  "ScopeSpans_MarshalProto orig = marshal_body
     (message_block [0x0a] (InstrumentationScope_MarshalProto (ss_Scope orig))
      @ concat (map (\<lambda>v. message_block [0x12] (Span_MarshalProto v)) (rev (ss_Spans orig)))
      @ (if length (ss_SchemaUrl orig) > 0 then string_block [0x1a] (ss_SchemaUrl orig) else []))"

definition ScopeSpans_field :: "ScopeSpans field_reader" where
  "ScopeSpans_field buf fieldNum wireType pos orig =
     (if fieldNum = 1 then read_message InstrumentationScope_UnmarshalProto (ss_Scope orig) (\<lambda>v. orig\<lparr>ss_Scope := v\<rparr>) buf wireType pos
      else if fieldNum = 2 then read_message Span_UnmarshalProto Span_zero (\<lambda>v. orig\<lparr>ss_Spans := ss_Spans orig @ [v]\<rparr>) buf wireType pos
      else if fieldNum = 3 then read_bytes (\<lambda>s. orig\<lparr>ss_SchemaUrl := s\<rparr>) buf wireType pos
      else read_unknown orig buf wireType pos)"

definition ScopeSpans_UnmarshalProto :: "ScopeSpans unmarshaler" where
  "ScopeSpans_UnmarshalProto = unmarshal_body ScopeSpans_field"

definition ScopeSpans_bytes :: "ScopeSpans \<Rightarrow> byte list" where
  "ScopeSpans_bytes orig =
     (((if length (ss_SchemaUrl orig) > 0 then string_bytes [0x1a] (ss_SchemaUrl orig) else [])
      @ concat (map (\<lambda>v. string_bytes [0x12] (Span_bytes v)) (ss_Spans orig)))
      @ string_bytes [0x0a] (InstrumentationScope_bytes (ss_Scope orig)))"

definition ScopeSpans_wf :: "ScopeSpans \<Rightarrow> bool" where
  "ScopeSpans_wf orig \<longleftrightarrow> InstrumentationScope_wf (ss_Scope orig) \<and> list_all Span_wf (ss_Spans orig)"

lemma ScopeSpans_decodes:
  assumes "ScopeSpans_wf m"
  shows "decodes ScopeSpans_field (ScopeSpans_bytes m) ScopeSpans_zero m"
proof -
  note wf = assms [unfolded ScopeSpans_wf_def]
  have 1: "decodes ScopeSpans_field ((if length (ss_SchemaUrl m) > 0 then string_bytes [0x1a] (ss_SchemaUrl m) else []))
      ScopeSpans_zero
      (ScopeSpans_zero\<lparr>ss_SchemaUrl := ss_SchemaUrl m\<rparr>)"
    by (rule decodes_opt_string [where fn = 3 and upd = "\<lambda>v. ScopeSpans_zero\<lparr>ss_SchemaUrl := v\<rparr>"]) (simp_all add: ScopeSpans_field_def ScopeSpans_zero_def)
  have 2: "decodes ScopeSpans_field (concat (map (\<lambda>v. string_bytes [0x12] (Span_bytes v)) (ss_Spans m)))
      (ScopeSpans_zero\<lparr>ss_SchemaUrl := ss_SchemaUrl m\<rparr>)
      (ScopeSpans_zero\<lparr>ss_SchemaUrl := ss_SchemaUrl m, ss_Spans := ss_Spans m\<rparr>)"
    by (rule span.decodes_repeated_message [where fn = 2 and upd = "\<lambda>v. ScopeSpans_zero\<lparr>ss_SchemaUrl := ss_SchemaUrl m, ss_Spans := v\<rparr>"]) (simp_all add: ScopeSpans_field_def ScopeSpans_zero_def wf)
  have 3: "decodes ScopeSpans_field (string_bytes [0x0a] (InstrumentationScope_bytes (ss_Scope m)))
      (ScopeSpans_zero\<lparr>ss_SchemaUrl := ss_SchemaUrl m, ss_Spans := ss_Spans m\<rparr>)
      (ScopeSpans_zero\<lparr>ss_SchemaUrl := ss_SchemaUrl m, ss_Spans := ss_Spans m, ss_Scope := ss_Scope m\<rparr>)"
    by (rule scope.decodes_message [where fn = 1 and upd = "\<lambda>v. ScopeSpans_zero\<lparr>ss_SchemaUrl := ss_SchemaUrl m, ss_Spans := ss_Spans m, ss_Scope := v\<rparr>"]) (simp_all add: ScopeSpans_field_def ScopeSpans_zero_def wf)
  have eq: "(ScopeSpans_zero\<lparr>ss_SchemaUrl := ss_SchemaUrl m, ss_Spans := ss_Spans m, ss_Scope := ss_Scope m\<rparr>) = m"
    by (cases m) (simp add: ScopeSpans_zero_def)
  from decodes_append [OF decodes_append [OF 1 2] 3]
  show ?thesis unfolding eq ScopeSpans_bytes_def .
qed

interpretation scope_spans: proto_message ScopeSpans_SizeProto ScopeSpans_MarshalProto ScopeSpans_UnmarshalProto ScopeSpans_zero ScopeSpans_bytes ScopeSpans_wf
proof unfold_locales
  fix m assume wf: "ScopeSpans_wf m"
  then show "ScopeSpans_SizeProto m = length (ScopeSpans_bytes m)"
    unfolding ScopeSpans_SizeProto_def ScopeSpans_bytes_def ScopeSpans_wf_def
    by (simp add: length_if_Nil field_sizes repeated_string_size scope.repeated_size scope.size span.repeated_size span.size del: length_concat split del: if_split cong: if_cong)
  show "marshals (ScopeSpans_MarshalProto m) (ScopeSpans_bytes m)"
    unfolding ScopeSpans_MarshalProto_def ScopeSpans_bytes_def
    by (intro marshals_body emit) (use wf in \<open>simp_all add: ScopeSpans_wf_def\<close>)
  show "ScopeSpans_UnmarshalProto (ScopeSpans_bytes m) ScopeSpans_zero = Some (Inr m)" if "valid_buf (ScopeSpans_bytes m)"
    unfolding ScopeSpans_UnmarshalProto_def by (rule unmarshal_body_decodes [OF ScopeSpans_decodes [OF wf] that])
next
  fix buf and m :: ScopeSpans
  assume "valid_buf buf"
  then show "unmarshal_ok (ScopeSpans_UnmarshalProto buf m)"
    unfolding ScopeSpans_UnmarshalProto_def ScopeSpans_field_def by (intro unmarshal_body_ok reader_ok) simp_all
qed

section \<open>ResourceSpans\<close>

record ResourceSpans =
  rp_Resource :: Resource
  rp_ScopeSpans :: "ScopeSpans list"
  rp_SchemaUrl :: "byte list"
  rp_DeprecatedScopeSpans :: "ScopeSpans list"

definition ResourceSpans_zero :: ResourceSpans where
  "ResourceSpans_zero = \<lparr>rp_Resource = Resource_zero, rp_ScopeSpans = [], rp_SchemaUrl = [], rp_DeprecatedScopeSpans = []\<rparr>"

definition ResourceSpans_SizeProto :: "ResourceSpans \<Rightarrow> nat" where
  "ResourceSpans_SizeProto orig =
     len_size 1 (Resource_SizeProto (rp_Resource orig))
     + sum_list (map (\<lambda>v. len_size 1 (ScopeSpans_SizeProto v)) (rp_ScopeSpans orig))
     + (if length (rp_SchemaUrl orig) > 0 then len_size 1 (length (rp_SchemaUrl orig)) else 0)
     + sum_list (map (\<lambda>v. len_size 2 (ScopeSpans_SizeProto v)) (rp_DeprecatedScopeSpans orig))"

definition ResourceSpans_MarshalProto :: "ResourceSpans \<Rightarrow> marshaler" where
  "ResourceSpans_MarshalProto orig = marshal_body
     (message_block [0x0a] (Resource_MarshalProto (rp_Resource orig))
      @ concat (map (\<lambda>v. message_block [0x12] (ScopeSpans_MarshalProto v)) (rev (rp_ScopeSpans orig)))
      @ (if length (rp_SchemaUrl orig) > 0 then string_block [0x1a] (rp_SchemaUrl orig) else [])
      @ concat (map (\<lambda>v. message_block [0xc2, 0x3e] (ScopeSpans_MarshalProto v)) (rev (rp_DeprecatedScopeSpans orig))))"

definition ResourceSpans_field :: "ResourceSpans field_reader" where
  "ResourceSpans_field buf fieldNum wireType pos orig =
     (if fieldNum = 1 then read_message Resource_UnmarshalProto (rp_Resource orig) (\<lambda>v. orig\<lparr>rp_Resource := v\<rparr>) buf wireType pos
      else if fieldNum = 2 then read_message ScopeSpans_UnmarshalProto ScopeSpans_zero (\<lambda>v. orig\<lparr>rp_ScopeSpans := rp_ScopeSpans orig @ [v]\<rparr>) buf wireType pos
      else if fieldNum = 3 then read_bytes (\<lambda>s. orig\<lparr>rp_SchemaUrl := s\<rparr>) buf wireType pos
      else if fieldNum = 1000 then read_message ScopeSpans_UnmarshalProto ScopeSpans_zero (\<lambda>v. orig\<lparr>rp_DeprecatedScopeSpans := rp_DeprecatedScopeSpans orig @ [v]\<rparr>) buf wireType pos
      else read_unknown orig buf wireType pos)"

definition ResourceSpans_UnmarshalProto :: "ResourceSpans unmarshaler" where
  "ResourceSpans_UnmarshalProto = unmarshal_body ResourceSpans_field"

definition ResourceSpans_bytes :: "ResourceSpans \<Rightarrow> byte list" where
  "ResourceSpans_bytes orig =
     (((concat (map (\<lambda>v. string_bytes [0xc2, 0x3e] (ScopeSpans_bytes v)) (rp_DeprecatedScopeSpans orig))
      @ (if length (rp_SchemaUrl orig) > 0 then string_bytes [0x1a] (rp_SchemaUrl orig) else []))
      @ concat (map (\<lambda>v. string_bytes [0x12] (ScopeSpans_bytes v)) (rp_ScopeSpans orig)))
      @ string_bytes [0x0a] (Resource_bytes (rp_Resource orig)))"

definition ResourceSpans_wf :: "ResourceSpans \<Rightarrow> bool" where
  "ResourceSpans_wf orig \<longleftrightarrow> Resource_wf (rp_Resource orig) \<and> list_all ScopeSpans_wf (rp_ScopeSpans orig) \<and> list_all ScopeSpans_wf (rp_DeprecatedScopeSpans orig)"

lemma ResourceSpans_decodes:
  assumes "ResourceSpans_wf m"
  shows "decodes ResourceSpans_field (ResourceSpans_bytes m) ResourceSpans_zero m"
proof -
  note wf = assms [unfolded ResourceSpans_wf_def]
  have 1: "decodes ResourceSpans_field (concat (map (\<lambda>v. string_bytes [0xc2, 0x3e] (ScopeSpans_bytes v)) (rp_DeprecatedScopeSpans m)))
      ResourceSpans_zero
      (ResourceSpans_zero\<lparr>rp_DeprecatedScopeSpans := rp_DeprecatedScopeSpans m\<rparr>)"
    by (rule scope_spans.decodes_repeated_message [where fn = 1000 and upd = "\<lambda>v. ResourceSpans_zero\<lparr>rp_DeprecatedScopeSpans := v\<rparr>"]) (simp_all add: ResourceSpans_field_def ResourceSpans_zero_def wf)
  have 2: "decodes ResourceSpans_field ((if length (rp_SchemaUrl m) > 0 then string_bytes [0x1a] (rp_SchemaUrl m) else []))
      (ResourceSpans_zero\<lparr>rp_DeprecatedScopeSpans := rp_DeprecatedScopeSpans m\<rparr>)
      (ResourceSpans_zero\<lparr>rp_DeprecatedScopeSpans := rp_DeprecatedScopeSpans m, rp_SchemaUrl := rp_SchemaUrl m\<rparr>)"
    by (rule decodes_opt_string [where fn = 3 and upd = "\<lambda>v. ResourceSpans_zero\<lparr>rp_DeprecatedScopeSpans := rp_DeprecatedScopeSpans m, rp_SchemaUrl := v\<rparr>"]) (simp_all add: ResourceSpans_field_def ResourceSpans_zero_def)
  have 3: "decodes ResourceSpans_field (concat (map (\<lambda>v. string_bytes [0x12] (ScopeSpans_bytes v)) (rp_ScopeSpans m)))
      (ResourceSpans_zero\<lparr>rp_DeprecatedScopeSpans := rp_DeprecatedScopeSpans m, rp_SchemaUrl := rp_SchemaUrl m\<rparr>)
      (ResourceSpans_zero\<lparr>rp_DeprecatedScopeSpans := rp_DeprecatedScopeSpans m, rp_SchemaUrl := rp_SchemaUrl m, rp_ScopeSpans := rp_ScopeSpans m\<rparr>)"
    by (rule scope_spans.decodes_repeated_message [where fn = 2 and upd = "\<lambda>v. ResourceSpans_zero\<lparr>rp_DeprecatedScopeSpans := rp_DeprecatedScopeSpans m, rp_SchemaUrl := rp_SchemaUrl m, rp_ScopeSpans := v\<rparr>"]) (simp_all add: ResourceSpans_field_def ResourceSpans_zero_def wf)
  have 4: "decodes ResourceSpans_field (string_bytes [0x0a] (Resource_bytes (rp_Resource m)))
      (ResourceSpans_zero\<lparr>rp_DeprecatedScopeSpans := rp_DeprecatedScopeSpans m, rp_SchemaUrl := rp_SchemaUrl m, rp_ScopeSpans := rp_ScopeSpans m\<rparr>)
      (ResourceSpans_zero\<lparr>rp_DeprecatedScopeSpans := rp_DeprecatedScopeSpans m, rp_SchemaUrl := rp_SchemaUrl m, rp_ScopeSpans := rp_ScopeSpans m, rp_Resource := rp_Resource m\<rparr>)"
    by (rule resource.decodes_message [where fn = 1 and upd = "\<lambda>v. ResourceSpans_zero\<lparr>rp_DeprecatedScopeSpans := rp_DeprecatedScopeSpans m, rp_SchemaUrl := rp_SchemaUrl m, rp_ScopeSpans := rp_ScopeSpans m, rp_Resource := v\<rparr>"]) (simp_all add: ResourceSpans_field_def ResourceSpans_zero_def wf)
  have eq: "(ResourceSpans_zero\<lparr>rp_DeprecatedScopeSpans := rp_DeprecatedScopeSpans m, rp_SchemaUrl := rp_SchemaUrl m, rp_ScopeSpans := rp_ScopeSpans m, rp_Resource := rp_Resource m\<rparr>) = m"
    by (cases m) (simp add: ResourceSpans_zero_def)
  from decodes_append [OF decodes_append [OF decodes_append [OF 1 2] 3] 4]
  show ?thesis unfolding eq ResourceSpans_bytes_def .
qed

interpretation resource_spans: proto_message ResourceSpans_SizeProto ResourceSpans_MarshalProto ResourceSpans_UnmarshalProto ResourceSpans_zero ResourceSpans_bytes ResourceSpans_wf
proof unfold_locales
  fix m assume wf: "ResourceSpans_wf m"
  then show "ResourceSpans_SizeProto m = length (ResourceSpans_bytes m)"
    unfolding ResourceSpans_SizeProto_def ResourceSpans_bytes_def ResourceSpans_wf_def
    by (simp add: length_if_Nil field_sizes repeated_string_size resource.repeated_size resource.size scope_spans.repeated_size scope_spans.size del: length_concat split del: if_split cong: if_cong)
  show "marshals (ResourceSpans_MarshalProto m) (ResourceSpans_bytes m)"
    unfolding ResourceSpans_MarshalProto_def ResourceSpans_bytes_def
    by (intro marshals_body emit) (use wf in \<open>simp_all add: ResourceSpans_wf_def\<close>)
  show "ResourceSpans_UnmarshalProto (ResourceSpans_bytes m) ResourceSpans_zero = Some (Inr m)" if "valid_buf (ResourceSpans_bytes m)"
    unfolding ResourceSpans_UnmarshalProto_def by (rule unmarshal_body_decodes [OF ResourceSpans_decodes [OF wf] that])
next
  fix buf and m :: ResourceSpans
  assume "valid_buf buf"
  then show "unmarshal_ok (ResourceSpans_UnmarshalProto buf m)"
    unfolding ResourceSpans_UnmarshalProto_def ResourceSpans_field_def by (intro unmarshal_body_ok reader_ok) simp_all
qed

section \<open>TracesData\<close>

record TracesData =
  td_ResourceSpans :: "ResourceSpans list"

definition TracesData_zero :: TracesData where
  "TracesData_zero = \<lparr>td_ResourceSpans = []\<rparr>"

definition TracesData_SizeProto :: "TracesData \<Rightarrow> nat" where
  "TracesData_SizeProto orig =
     sum_list (map (\<lambda>v. len_size 1 (ResourceSpans_SizeProto v)) (td_ResourceSpans orig))"

definition TracesData_MarshalProto :: "TracesData \<Rightarrow> marshaler" where
  "TracesData_MarshalProto orig = marshal_body
     (concat (map (\<lambda>v. message_block [0x0a] (ResourceSpans_MarshalProto v)) (rev (td_ResourceSpans orig))))"

definition TracesData_field :: "TracesData field_reader" where
  "TracesData_field buf fieldNum wireType pos orig =
     (if fieldNum = 1 then read_message ResourceSpans_UnmarshalProto ResourceSpans_zero (\<lambda>v. orig\<lparr>td_ResourceSpans := td_ResourceSpans orig @ [v]\<rparr>) buf wireType pos
      else read_unknown orig buf wireType pos)"

definition TracesData_UnmarshalProto :: "TracesData unmarshaler" where
  "TracesData_UnmarshalProto = unmarshal_body TracesData_field"

definition TracesData_bytes :: "TracesData \<Rightarrow> byte list" where
  "TracesData_bytes orig =
     concat (map (\<lambda>v. string_bytes [0x0a] (ResourceSpans_bytes v)) (td_ResourceSpans orig))"

definition TracesData_wf :: "TracesData \<Rightarrow> bool" where
  "TracesData_wf orig \<longleftrightarrow> list_all ResourceSpans_wf (td_ResourceSpans orig)"

lemma TracesData_decodes:
  assumes "TracesData_wf m"
  shows "decodes TracesData_field (TracesData_bytes m) TracesData_zero m"
proof -
  note wf = assms [unfolded TracesData_wf_def]
  have 1: "decodes TracesData_field (concat (map (\<lambda>v. string_bytes [0x0a] (ResourceSpans_bytes v)) (td_ResourceSpans m)))
      TracesData_zero
      (TracesData_zero\<lparr>td_ResourceSpans := td_ResourceSpans m\<rparr>)"
    by (rule resource_spans.decodes_repeated_message [where fn = 1 and upd = "\<lambda>v. TracesData_zero\<lparr>td_ResourceSpans := v\<rparr>"]) (simp_all add: TracesData_field_def TracesData_zero_def wf)
  have eq: "(TracesData_zero\<lparr>td_ResourceSpans := td_ResourceSpans m\<rparr>) = m"
    by (cases m) (simp add: TracesData_zero_def)
  from 1
  show ?thesis unfolding eq TracesData_bytes_def .
qed

interpretation traces_data: proto_message TracesData_SizeProto TracesData_MarshalProto TracesData_UnmarshalProto TracesData_zero TracesData_bytes TracesData_wf
proof unfold_locales
  fix m assume wf: "TracesData_wf m"
  then show "TracesData_SizeProto m = length (TracesData_bytes m)"
    unfolding TracesData_SizeProto_def TracesData_bytes_def TracesData_wf_def
    by (simp add: length_if_Nil field_sizes repeated_string_size resource_spans.repeated_size resource_spans.size del: length_concat split del: if_split cong: if_cong)
  show "marshals (TracesData_MarshalProto m) (TracesData_bytes m)"
    unfolding TracesData_MarshalProto_def TracesData_bytes_def
    by (intro marshals_body emit) (use wf in \<open>simp_all add: TracesData_wf_def\<close>)
  show "TracesData_UnmarshalProto (TracesData_bytes m) TracesData_zero = Some (Inr m)" if "valid_buf (TracesData_bytes m)"
    unfolding TracesData_UnmarshalProto_def by (rule unmarshal_body_decodes [OF TracesData_decodes [OF wf] that])
next
  fix buf and m :: TracesData
  assume "valid_buf buf"
  then show "unmarshal_ok (TracesData_UnmarshalProto buf m)"
    unfolding TracesData_UnmarshalProto_def TracesData_field_def by (intro unmarshal_body_ok reader_ok) simp_all
qed

section \<open>ExportTraceServiceRequest\<close>

record ExportTraceServiceRequest =
  tq_ResourceSpans :: "ResourceSpans list"

definition ExportTraceServiceRequest_zero :: ExportTraceServiceRequest where
  "ExportTraceServiceRequest_zero = \<lparr>tq_ResourceSpans = []\<rparr>"

definition ExportTraceServiceRequest_SizeProto :: "ExportTraceServiceRequest \<Rightarrow> nat" where
  "ExportTraceServiceRequest_SizeProto orig =
     sum_list (map (\<lambda>v. len_size 1 (ResourceSpans_SizeProto v)) (tq_ResourceSpans orig))"

definition ExportTraceServiceRequest_MarshalProto :: "ExportTraceServiceRequest \<Rightarrow> marshaler" where
  "ExportTraceServiceRequest_MarshalProto orig = marshal_body
     (concat (map (\<lambda>v. message_block [0x0a] (ResourceSpans_MarshalProto v)) (rev (tq_ResourceSpans orig))))"

definition ExportTraceServiceRequest_field :: "ExportTraceServiceRequest field_reader" where
  "ExportTraceServiceRequest_field buf fieldNum wireType pos orig =
     (if fieldNum = 1 then read_message ResourceSpans_UnmarshalProto ResourceSpans_zero (\<lambda>v. orig\<lparr>tq_ResourceSpans := tq_ResourceSpans orig @ [v]\<rparr>) buf wireType pos
      else read_unknown orig buf wireType pos)"

definition ExportTraceServiceRequest_UnmarshalProto :: "ExportTraceServiceRequest unmarshaler" where
  "ExportTraceServiceRequest_UnmarshalProto = unmarshal_body ExportTraceServiceRequest_field"

definition ExportTraceServiceRequest_bytes :: "ExportTraceServiceRequest \<Rightarrow> byte list" where
  "ExportTraceServiceRequest_bytes orig =
     concat (map (\<lambda>v. string_bytes [0x0a] (ResourceSpans_bytes v)) (tq_ResourceSpans orig))"

definition ExportTraceServiceRequest_wf :: "ExportTraceServiceRequest \<Rightarrow> bool" where
  "ExportTraceServiceRequest_wf orig \<longleftrightarrow> list_all ResourceSpans_wf (tq_ResourceSpans orig)"

lemma ExportTraceServiceRequest_decodes:
  assumes "ExportTraceServiceRequest_wf m"
  shows "decodes ExportTraceServiceRequest_field (ExportTraceServiceRequest_bytes m) ExportTraceServiceRequest_zero m"
proof -
  note wf = assms [unfolded ExportTraceServiceRequest_wf_def]
  have 1: "decodes ExportTraceServiceRequest_field (concat (map (\<lambda>v. string_bytes [0x0a] (ResourceSpans_bytes v)) (tq_ResourceSpans m)))
      ExportTraceServiceRequest_zero
      (ExportTraceServiceRequest_zero\<lparr>tq_ResourceSpans := tq_ResourceSpans m\<rparr>)"
    by (rule resource_spans.decodes_repeated_message [where fn = 1 and upd = "\<lambda>v. ExportTraceServiceRequest_zero\<lparr>tq_ResourceSpans := v\<rparr>"]) (simp_all add: ExportTraceServiceRequest_field_def ExportTraceServiceRequest_zero_def wf)
  have eq: "(ExportTraceServiceRequest_zero\<lparr>tq_ResourceSpans := tq_ResourceSpans m\<rparr>) = m"
    by (cases m) (simp add: ExportTraceServiceRequest_zero_def)
  from 1
  show ?thesis unfolding eq ExportTraceServiceRequest_bytes_def .
qed

interpretation traces_request_proto: proto_message ExportTraceServiceRequest_SizeProto ExportTraceServiceRequest_MarshalProto ExportTraceServiceRequest_UnmarshalProto ExportTraceServiceRequest_zero ExportTraceServiceRequest_bytes ExportTraceServiceRequest_wf
proof unfold_locales
  fix m assume wf: "ExportTraceServiceRequest_wf m"
  then show "ExportTraceServiceRequest_SizeProto m = length (ExportTraceServiceRequest_bytes m)"
    unfolding ExportTraceServiceRequest_SizeProto_def ExportTraceServiceRequest_bytes_def ExportTraceServiceRequest_wf_def
    by (simp add: length_if_Nil field_sizes repeated_string_size resource_spans.repeated_size resource_spans.size del: length_concat split del: if_split cong: if_cong)
  show "marshals (ExportTraceServiceRequest_MarshalProto m) (ExportTraceServiceRequest_bytes m)"
    unfolding ExportTraceServiceRequest_MarshalProto_def ExportTraceServiceRequest_bytes_def
    by (intro marshals_body emit) (use wf in \<open>simp_all add: ExportTraceServiceRequest_wf_def\<close>)
  show "ExportTraceServiceRequest_UnmarshalProto (ExportTraceServiceRequest_bytes m) ExportTraceServiceRequest_zero = Some (Inr m)" if "valid_buf (ExportTraceServiceRequest_bytes m)"
    unfolding ExportTraceServiceRequest_UnmarshalProto_def by (rule unmarshal_body_decodes [OF ExportTraceServiceRequest_decodes [OF wf] that])
next
  fix buf and m :: ExportTraceServiceRequest
  assume "valid_buf buf"
  then show "unmarshal_ok (ExportTraceServiceRequest_UnmarshalProto buf m)"
    unfolding ExportTraceServiceRequest_UnmarshalProto_def ExportTraceServiceRequest_field_def by (intro unmarshal_body_ok reader_ok) simp_all
qed

section \<open>ExportTracePartialSuccess\<close>

record ExportTracePartialSuccess =
  tp_RejectedSpans :: u64
  tp_ErrorMessage :: "byte list"

definition ExportTracePartialSuccess_zero :: ExportTracePartialSuccess where
  "ExportTracePartialSuccess_zero = \<lparr>tp_RejectedSpans = 0, tp_ErrorMessage = []\<rparr>"

definition ExportTracePartialSuccess_SizeProto :: "ExportTracePartialSuccess \<Rightarrow> nat" where
  "ExportTracePartialSuccess_SizeProto orig =
     (if tp_RejectedSpans orig \<noteq> 0 then 1 + Sov (tp_RejectedSpans orig) else 0)
     + (if length (tp_ErrorMessage orig) > 0 then len_size 1 (length (tp_ErrorMessage orig)) else 0)"

definition ExportTracePartialSuccess_MarshalProto :: "ExportTracePartialSuccess \<Rightarrow> marshaler" where
  "ExportTracePartialSuccess_MarshalProto orig = marshal_body
     ((if tp_RejectedSpans orig \<noteq> 0 then varint_block [0x08] (tp_RejectedSpans orig) else [])
      @ (if length (tp_ErrorMessage orig) > 0 then string_block [0x12] (tp_ErrorMessage orig) else []))"

definition ExportTracePartialSuccess_field :: "ExportTracePartialSuccess field_reader" where
  "ExportTracePartialSuccess_field buf fieldNum wireType pos orig =
     (if fieldNum = 1 then read_varint (\<lambda>num. orig\<lparr>tp_RejectedSpans := num\<rparr>) buf wireType pos
      else if fieldNum = 2 then read_bytes (\<lambda>s. orig\<lparr>tp_ErrorMessage := s\<rparr>) buf wireType pos
      else read_unknown orig buf wireType pos)"

definition ExportTracePartialSuccess_UnmarshalProto :: "ExportTracePartialSuccess unmarshaler" where
  "ExportTracePartialSuccess_UnmarshalProto = unmarshal_body ExportTracePartialSuccess_field"

definition ExportTracePartialSuccess_bytes :: "ExportTracePartialSuccess \<Rightarrow> byte list" where
  "ExportTracePartialSuccess_bytes orig =
     ((if length (tp_ErrorMessage orig) > 0 then string_bytes [0x12] (tp_ErrorMessage orig) else [])
      @ (if tp_RejectedSpans orig \<noteq> 0 then varint_field_bytes [0x08] (tp_RejectedSpans orig) else []))"

definition ExportTracePartialSuccess_wf :: "ExportTracePartialSuccess \<Rightarrow> bool" where
  "ExportTracePartialSuccess_wf orig \<longleftrightarrow> True"

lemma ExportTracePartialSuccess_decodes:
  assumes "ExportTracePartialSuccess_wf m"
  shows "decodes ExportTracePartialSuccess_field (ExportTracePartialSuccess_bytes m) ExportTracePartialSuccess_zero m"
proof -
  have 1: "decodes ExportTracePartialSuccess_field ((if length (tp_ErrorMessage m) > 0 then string_bytes [0x12] (tp_ErrorMessage m) else []))
      ExportTracePartialSuccess_zero
      (ExportTracePartialSuccess_zero\<lparr>tp_ErrorMessage := tp_ErrorMessage m\<rparr>)"
    by (rule decodes_opt_string [where fn = 2 and upd = "\<lambda>v. ExportTracePartialSuccess_zero\<lparr>tp_ErrorMessage := v\<rparr>"]) (simp_all add: ExportTracePartialSuccess_field_def ExportTracePartialSuccess_zero_def)
  have 2: "decodes ExportTracePartialSuccess_field ((if tp_RejectedSpans m \<noteq> 0 then varint_field_bytes [0x08] (tp_RejectedSpans m) else []))
      (ExportTracePartialSuccess_zero\<lparr>tp_ErrorMessage := tp_ErrorMessage m\<rparr>)
      (ExportTracePartialSuccess_zero\<lparr>tp_ErrorMessage := tp_ErrorMessage m, tp_RejectedSpans := tp_RejectedSpans m\<rparr>)"
    by (rule decodes_opt_varint [where fn = 1 and enc = "\<lambda>n. n" and dec = "\<lambda>n. n" and upd = "\<lambda>v. ExportTracePartialSuccess_zero\<lparr>tp_ErrorMessage := tp_ErrorMessage m, tp_RejectedSpans := v\<rparr>"]) (simp_all add: ExportTracePartialSuccess_field_def ExportTracePartialSuccess_zero_def)
  have eq: "(ExportTracePartialSuccess_zero\<lparr>tp_ErrorMessage := tp_ErrorMessage m, tp_RejectedSpans := tp_RejectedSpans m\<rparr>) = m"
    by (cases m) (simp add: ExportTracePartialSuccess_zero_def)
  from decodes_append [OF 1 2]
  show ?thesis unfolding eq ExportTracePartialSuccess_bytes_def .
qed

interpretation traces_partial: proto_message ExportTracePartialSuccess_SizeProto ExportTracePartialSuccess_MarshalProto ExportTracePartialSuccess_UnmarshalProto ExportTracePartialSuccess_zero ExportTracePartialSuccess_bytes ExportTracePartialSuccess_wf
proof unfold_locales
  fix m assume wf: "ExportTracePartialSuccess_wf m"
  then show "ExportTracePartialSuccess_SizeProto m = length (ExportTracePartialSuccess_bytes m)"
    unfolding ExportTracePartialSuccess_SizeProto_def ExportTracePartialSuccess_bytes_def ExportTracePartialSuccess_wf_def
    by (simp add: length_if_Nil field_sizes repeated_string_size  del: length_concat split del: if_split cong: if_cong)
  show "marshals (ExportTracePartialSuccess_MarshalProto m) (ExportTracePartialSuccess_bytes m)"
    unfolding ExportTracePartialSuccess_MarshalProto_def ExportTracePartialSuccess_bytes_def
    by (intro marshals_body emit)
  show "ExportTracePartialSuccess_UnmarshalProto (ExportTracePartialSuccess_bytes m) ExportTracePartialSuccess_zero = Some (Inr m)" if "valid_buf (ExportTracePartialSuccess_bytes m)"
    unfolding ExportTracePartialSuccess_UnmarshalProto_def by (rule unmarshal_body_decodes [OF ExportTracePartialSuccess_decodes [OF wf] that])
next
  fix buf and m :: ExportTracePartialSuccess
  assume "valid_buf buf"
  then show "unmarshal_ok (ExportTracePartialSuccess_UnmarshalProto buf m)"
    unfolding ExportTracePartialSuccess_UnmarshalProto_def ExportTracePartialSuccess_field_def by (intro unmarshal_body_ok reader_ok) simp_all
qed

section \<open>ExportTraceServiceResponse\<close>

record ExportTraceServiceResponse =
  ts_PartialSuccess :: ExportTracePartialSuccess

definition ExportTraceServiceResponse_zero :: ExportTraceServiceResponse where
  "ExportTraceServiceResponse_zero = \<lparr>ts_PartialSuccess = ExportTracePartialSuccess_zero\<rparr>"

definition ExportTraceServiceResponse_SizeProto :: "ExportTraceServiceResponse \<Rightarrow> nat" where
  "ExportTraceServiceResponse_SizeProto orig =
     len_size 1 (ExportTracePartialSuccess_SizeProto (ts_PartialSuccess orig))"

definition ExportTraceServiceResponse_MarshalProto :: "ExportTraceServiceResponse \<Rightarrow> marshaler" where
  "ExportTraceServiceResponse_MarshalProto orig = marshal_body
     (message_block [0x0a] (ExportTracePartialSuccess_MarshalProto (ts_PartialSuccess orig)))"

definition ExportTraceServiceResponse_field :: "ExportTraceServiceResponse field_reader" where
  "ExportTraceServiceResponse_field buf fieldNum wireType pos orig =
     (if fieldNum = 1 then read_message ExportTracePartialSuccess_UnmarshalProto (ts_PartialSuccess orig) (\<lambda>v. orig\<lparr>ts_PartialSuccess := v\<rparr>) buf wireType pos
      else read_unknown orig buf wireType pos)"

definition ExportTraceServiceResponse_UnmarshalProto :: "ExportTraceServiceResponse unmarshaler" where
  "ExportTraceServiceResponse_UnmarshalProto = unmarshal_body ExportTraceServiceResponse_field"

definition ExportTraceServiceResponse_bytes :: "ExportTraceServiceResponse \<Rightarrow> byte list" where
  "ExportTraceServiceResponse_bytes orig =
     string_bytes [0x0a] (ExportTracePartialSuccess_bytes (ts_PartialSuccess orig))"

definition ExportTraceServiceResponse_wf :: "ExportTraceServiceResponse \<Rightarrow> bool" where
  "ExportTraceServiceResponse_wf orig \<longleftrightarrow> ExportTracePartialSuccess_wf (ts_PartialSuccess orig)"

lemma ExportTraceServiceResponse_decodes:
  assumes "ExportTraceServiceResponse_wf m"
  shows "decodes ExportTraceServiceResponse_field (ExportTraceServiceResponse_bytes m) ExportTraceServiceResponse_zero m"
proof -
  note wf = assms [unfolded ExportTraceServiceResponse_wf_def]
  have 1: "decodes ExportTraceServiceResponse_field (string_bytes [0x0a] (ExportTracePartialSuccess_bytes (ts_PartialSuccess m)))
      ExportTraceServiceResponse_zero
      (ExportTraceServiceResponse_zero\<lparr>ts_PartialSuccess := ts_PartialSuccess m\<rparr>)"
    by (rule traces_partial.decodes_message [where fn = 1 and upd = "\<lambda>v. ExportTraceServiceResponse_zero\<lparr>ts_PartialSuccess := v\<rparr>"]) (simp_all add: ExportTraceServiceResponse_field_def ExportTraceServiceResponse_zero_def wf)
  have eq: "(ExportTraceServiceResponse_zero\<lparr>ts_PartialSuccess := ts_PartialSuccess m\<rparr>) = m"
    by (cases m) (simp add: ExportTraceServiceResponse_zero_def)
  from 1
  show ?thesis unfolding eq ExportTraceServiceResponse_bytes_def .
qed

interpretation traces_response: proto_message ExportTraceServiceResponse_SizeProto ExportTraceServiceResponse_MarshalProto ExportTraceServiceResponse_UnmarshalProto ExportTraceServiceResponse_zero ExportTraceServiceResponse_bytes ExportTraceServiceResponse_wf
proof unfold_locales
  fix m assume wf: "ExportTraceServiceResponse_wf m"
  then show "ExportTraceServiceResponse_SizeProto m = length (ExportTraceServiceResponse_bytes m)"
    unfolding ExportTraceServiceResponse_SizeProto_def ExportTraceServiceResponse_bytes_def ExportTraceServiceResponse_wf_def
    by (simp add: length_if_Nil field_sizes repeated_string_size traces_partial.repeated_size traces_partial.size del: length_concat split del: if_split cong: if_cong)
  show "marshals (ExportTraceServiceResponse_MarshalProto m) (ExportTraceServiceResponse_bytes m)"
    unfolding ExportTraceServiceResponse_MarshalProto_def ExportTraceServiceResponse_bytes_def
    by (intro marshals_body emit) (use wf in \<open>simp_all add: ExportTraceServiceResponse_wf_def\<close>)
  show "ExportTraceServiceResponse_UnmarshalProto (ExportTraceServiceResponse_bytes m) ExportTraceServiceResponse_zero = Some (Inr m)" if "valid_buf (ExportTraceServiceResponse_bytes m)"
    unfolding ExportTraceServiceResponse_UnmarshalProto_def by (rule unmarshal_body_decodes [OF ExportTraceServiceResponse_decodes [OF wf] that])
next
  fix buf and m :: ExportTraceServiceResponse
  assume "valid_buf buf"
  then show "unmarshal_ok (ExportTraceServiceResponse_UnmarshalProto buf m)"
    unfolding ExportTraceServiceResponse_UnmarshalProto_def ExportTraceServiceResponse_field_def by (intro unmarshal_body_ok reader_ok) simp_all
qed

section \<open>Encoding and decoding a batch of traces\<close>

definition TracesSize :: "ExportTraceServiceRequest \<Rightarrow> nat" where
  "TracesSize td = ExportTraceServiceRequest_SizeProto td"

definition MarshalTraces :: "ExportTraceServiceRequest \<Rightarrow> wire_error + byte list" where
  "MarshalTraces td =
     (case ExportTraceServiceRequest_MarshalProto td (replicate (ExportTraceServiceRequest_SizeProto td) 0) of
        Inl e \<Rightarrow> Inl e
      | Inr (buf, _) \<Rightarrow> Inr buf)"

definition UnmarshalTraces :: "byte list \<Rightarrow> (unmarshal_error + ExportTraceServiceRequest) option" where
  "UnmarshalTraces buf = ExportTraceServiceRequest_UnmarshalProto buf ExportTraceServiceRequest_zero"

definition MigrateTraces :: "ResourceSpans list \<Rightarrow> ResourceSpans list" where
  "MigrateTraces rss = map (\<lambda>rs.
     (if length (rp_ScopeSpans rs) = 0 then rs\<lparr>rp_ScopeSpans := rp_DeprecatedScopeSpans rs\<rparr> else rs)
       \<lparr>rp_DeprecatedScopeSpans := []\<rparr>) rss"

definition ExportTraces_UnmarshalProto ::
  "byte list \<Rightarrow> ExportTraceServiceRequest \<Rightarrow> (unmarshal_error + ExportTraceServiceRequest) option" where
  "ExportTraces_UnmarshalProto data orig =
     map_option (map_sum id (\<lambda>o'. o'\<lparr>tq_ResourceSpans := MigrateTraces (tq_ResourceSpans o')\<rparr>))
       (ExportTraceServiceRequest_UnmarshalProto data orig)"

lemma traces_marshal_unmarshal:
  assumes "ExportTraceServiceRequest_wf td" "int (TracesSize td) \<le> max_i64"
  obtains buf where "MarshalTraces td = Inr buf" "length buf = TracesSize td" "UnmarshalTraces buf = Some (Inr td)"
proof -
  obtain buf where "ExportTraceServiceRequest_MarshalProto td (replicate (TracesSize td) 0) = Inr (buf, int (TracesSize td))"
    "length buf = TracesSize td" "ExportTraceServiceRequest_UnmarshalProto buf ExportTraceServiceRequest_zero = Some (Inr td)"
    using traces_request_proto.roundtrip [OF assms(1), of "replicate (TracesSize td) 0"] assms(2)
    by (auto simp: TracesSize_def)
  then show ?thesis by (intro that [of buf]) (simp_all add: MarshalTraces_def UnmarshalTraces_def TracesSize_def)
qed

definition demo_span :: Span where
  "demo_span = Span_zero\<lparr>sp_Name := [0x67], sp_TraceId := replicate 15 0 @ [1], sp_Kind := 2\<rparr>"

definition demo_traces :: ExportTraceServiceRequest where
  "demo_traces = \<lparr>tq_ResourceSpans =
     [ResourceSpans_zero\<lparr>rp_ScopeSpans := [ScopeSpans_zero\<lparr>ss_Spans := [demo_span]\<rparr>]\<rparr>]\<rparr>"

lemma demo_traces_wf: "ExportTraceServiceRequest_wf demo_traces"
  by (simp add: demo_traces_def demo_span_def ExportTraceServiceRequest_wf_def ResourceSpans_wf_def ResourceSpans_zero_def
      ScopeSpans_wf_def ScopeSpans_zero_def Span_wf_def Span_zero_def Status_wf_def Resource_wf_def Resource_zero_def
      InstrumentationScope_wf_def InstrumentationScope_zero_def ID_wf_def traceIDSize_def spanIDSize_def)

lemma demo_span_sizes:
  "Resource_SizeProto Resource_zero = 0" "InstrumentationScope_SizeProto InstrumentationScope_zero = 0"
  "Status_SizeProto Status_zero = 0" "ID_SizeProto spanIDSize (replicate spanIDSize 0) = 0"
  "ID_SizeProto traceIDSize (replicate 15 0 @ [1]) = 16"
  by (simp_all add: Resource_SizeProto_def Resource_zero_def InstrumentationScope_SizeProto_def
      InstrumentationScope_zero_def Status_SizeProto_def Status_zero_def ID_SizeProto_def ID_IsEmpty_def
      traceIDSize_def numeral_eq_Suc)

lemma demo_traces_small: "TracesSize demo_traces \<le> 100"
proof -
  have "Span_SizeProto demo_span = 29"
    by (simp add: Span_SizeProto_def demo_span_def Span_zero_def demo_span_sizes Sov_small)
  then have "ScopeSpans_SizeProto (ScopeSpans_zero\<lparr>ss_Spans := [demo_span]\<rparr>) = 33"
    by (simp add: ScopeSpans_SizeProto_def ScopeSpans_zero_def demo_span_sizes Sov_small)
  then have "ResourceSpans_SizeProto (ResourceSpans_zero\<lparr>rp_ScopeSpans := [ScopeSpans_zero\<lparr>ss_Spans := [demo_span]\<rparr>]\<rparr>) = 37"
    by (simp add: ResourceSpans_SizeProto_def ResourceSpans_zero_def demo_span_sizes Sov_small)
  then show ?thesis
    by (simp add: demo_traces_def TracesSize_def ExportTraceServiceRequest_SizeProto_def Sov_small)
qed

lemma demo_traces_size: "int (TracesSize demo_traces) \<le> max_i64"
  using demo_traces_small by (simp add: max_i64_def)

end
