(* ===== verification/ProtoPacked.thy ===== *)
theory ProtoPacked
  imports ProtoValues
begin

text \<open>
  The kinds of field only the metric messages of pdata/internal have: zigzag \<open>int32\<close> values, floats
  that are left out when they are zero, optional floats with a presence bit, and packed lists of
  varints and of 8-byte values.
\<close>

unbundle bit_operations_syntax

section \<open>Zigzag numbers\<close>

text \<open>\<open>uint64((uint32(v)<<1) ^ uint32(v>>31))\<close> and its inverse.\<close>

definition zigzag :: "32 word \<Rightarrow> u64" where
  "zigzag v = ucast (push_bit 1 v XOR signed_drop_bit 31 v)"

definition unzigzag :: "u64 \<Rightarrow> 32 word" where
  "unzigzag num = ucast (drop_bit 1 num) XOR signed_drop_bit 31 (ucast (push_bit 31 (num AND 1)) :: 32 word)"

lemma bit_times_2: "bit (w * 2) n \<longleftrightarrow> n < LENGTH('a) \<and> 0 < n \<and> bit (w :: 'a :: len word) (n - 1)"
  using bit_double_iff [of w n] by (simp add: mult.commute [of w] possible_bit_def)

lemma bit_zigzag: "bit (zigzag v) n \<longleftrightarrow> n < 32 \<and> ((0 < n \<and> bit v (n - 1)) \<noteq> bit v 31)"
proof -
  have "signed_drop_bit 31 v = (if bit v 31 then -1 else 0)"
    by (rule bit_word_eqI) (auto simp: bit_simps Suc_le_eq)
  then show ?thesis by (auto simp: zigzag_def bit_simps bit_times_2)
qed

lemma unzigzag_zigzag [simp]: "unzigzag (zigzag v) = v"
proof (rule bit_word_eqI)
  fix n assume n: "n < LENGTH(32)"
  have s: "signed_drop_bit 31 (ucast (push_bit 31 (zigzag v AND 1)) :: 32 word) = (if bit v 31 then -1 else 0)"
    by (rule bit_word_eqI) (auto simp: bit_simps bit_zigzag bit_1_iff Suc_le_eq)
  show "bit (unzigzag (zigzag v)) n = bit v n"
  proof (cases "n = 31")
    case False
    with n show ?thesis unfolding unzigzag_def s by (auto simp: bit_simps bit_zigzag Suc_le_eq)
  next
    case True
    then show ?thesis unfolding unzigzag_def s by (auto simp: bit_simps bit_zigzag Suc_le_eq)
  qed
qed

lemma Soz_zigzag: "Soz (scast v) = Sov (zigzag v)"
proof -
  have s: "signed_drop_bit 63 (scast v :: u64) = (if bit v 31 then -1 else 0)"
    by (rule bit_word_eqI) (auto simp: bit_simps Suc_le_eq)
  have "push_bit 1 (scast v :: u64) XOR signed_drop_bit 63 (scast v) = zigzag v"
    unfolding s by (rule bit_word_eqI) (auto simp: bit_simps bit_zigzag bit_times_2 min_def split: if_splits)
  then show ?thesis by (simp only: Soz_def)
qed

section \<open>Floats\<close>

text \<open>
  \<open>f != float64(0)\<close> on the bits of a float: both zeros are equal to zero, a NaN is not.
\<close>

definition nonzero_float :: "u64 \<Rightarrow> bool" where
  "nonzero_float bits \<longleftrightarrow> bits \<noteq> 0 \<and> bits \<noteq> 0x8000000000000000"

text \<open>
  The presence bits of the optional floats; \<open>b\<close> is the constant \<open>fieldBit...\<close> of the field and
  \<open>metadata\<close> the one word of \<open>metadata [1]uint64\<close>.
\<close>

definition has_bit :: "u64 \<Rightarrow> u64 \<Rightarrow> bool" where
  "has_bit b metadata \<longleftrightarrow> metadata AND b \<noteq> 0"

definition add_bit :: "u64 \<Rightarrow> u64 \<Rightarrow> u64" where
  "add_bit b metadata = metadata OR b"

definition del_bit :: "u64 \<Rightarrow> u64 \<Rightarrow> u64" where
  "del_bit b metadata = metadata AND NOT b"

definition keep_bits :: "u64 \<Rightarrow> u64 \<Rightarrow> u64" where
  "keep_bits k metadata = metadata AND k"

lemma bit_presence_masks:
  "bit (1 :: u64) n \<longleftrightarrow> n = 0" "bit (2 :: u64) n \<longleftrightarrow> n = 1" "bit (4 :: u64) n \<longleftrightarrow> n = 2"
  "bit (6 :: u64) n \<longleftrightarrow> n = 1 \<or> n = 2" "bit (7 :: u64) n \<longleftrightarrow> n < 3"
proof -
  show "bit (1 :: u64) n \<longleftrightarrow> n = 0" by (simp add: bit_1_iff)
  show 2: "bit (2 :: u64) n \<longleftrightarrow> n = 1" by (auto simp: bit_2_iff)
  show 4: "bit (4 :: u64) n \<longleftrightarrow> n = 2" using bit_exp_iff [of 2 n, where 'a = "64 word"] by auto
  have 6: "(6 :: u64) = 2 OR 4" and 7: "(7 :: u64) = mask 3" by (simp_all add: mask_eq_exp_minus_1)
  show "bit (6 :: u64) n \<longleftrightarrow> n = 1 \<or> n = 2" unfolding 6 bit_or_iff 2 4 ..
  show "bit (7 :: u64) n \<longleftrightarrow> n < 3" unfolding 7 bit_mask_iff by auto
qed

lemma has_bit_ex: "has_bit b m \<longleftrightarrow> (\<exists>n. bit m n \<and> bit b n)"
  using bit_imp_le_length [of m] by (auto simp: has_bit_def bit_eq_iff [of "m AND b"] bit_and_iff)

lemma has_bit_iff: "has_bit 1 m \<longleftrightarrow> bit m 0" "has_bit 2 m \<longleftrightarrow> bit m 1" "has_bit 4 m \<longleftrightarrow> bit m 2"
  unfolding has_bit_ex bit_presence_masks by simp_all

lemma bit_presence:
  "bit (add_bit b m) n \<longleftrightarrow> bit m n \<or> bit b n"
  "bit (del_bit b m) n \<longleftrightarrow> bit m n \<and> \<not> bit b n"
  "bit (keep_bits b m) n \<longleftrightarrow> bit m n \<and> bit b n"
  by (auto simp: add_bit_def del_bit_def keep_bits_def bit_simps dest: bit_imp_le_length)

lemmas presence_simps = has_bit_iff bit_presence bit_presence_masks

lemma presence_bits:
  "has_bit 4 m \<Longrightarrow> add_bit 4 0 = keep_bits 4 m" "\<not> has_bit 4 m \<Longrightarrow> keep_bits 4 m = 0"
  "has_bit 2 m \<Longrightarrow> add_bit 2 (keep_bits 4 m) = keep_bits 6 m" "\<not> has_bit 2 m \<Longrightarrow> keep_bits 6 m = keep_bits 4 m"
  "has_bit 1 m \<Longrightarrow> add_bit 1 (keep_bits 6 m) = keep_bits 7 m" "\<not> has_bit 1 m \<Longrightarrow> keep_bits 7 m = keep_bits 6 m"
  "\<not> has_bit 1 m \<Longrightarrow> keep_bits 7 m = m \<Longrightarrow> keep_bits 6 m = m"
  unfolding bit_eq_iff [where 'a = "64 word"] presence_simps by (auto simp: less_Suc_eq numeral_3_eq_3 numeral_2_eq_2)

lemma presence_updates:
  "has_bit 1 (add_bit b m) \<longleftrightarrow> has_bit 1 m \<or> bit b 0" "has_bit 2 (add_bit b m) \<longleftrightarrow> has_bit 2 m \<or> bit b 1"
  "has_bit 4 (add_bit b m) \<longleftrightarrow> has_bit 4 m \<or> bit b 2"
  "has_bit 1 (del_bit b m) \<longleftrightarrow> has_bit 1 m \<and> \<not> bit b 0" "has_bit 2 (del_bit b m) \<longleftrightarrow> has_bit 2 m \<and> \<not> bit b 1"
  "has_bit 4 (del_bit b m) \<longleftrightarrow> has_bit 4 m \<and> \<not> bit b 2"
  by (simp_all add: presence_simps del: bit_0)

lemma keep_bits_updates:
  "keep_bits 7 m = m \<Longrightarrow> keep_bits 7 b = b \<Longrightarrow> keep_bits 7 (add_bit b m) = add_bit b m"
  "keep_bits 7 m = m \<Longrightarrow> keep_bits 7 (del_bit b m) = del_bit b m"
  unfolding bit_eq_iff [where 'a = "64 word"] bit_presence by blast+

lemma keep_bits_masks: "keep_bits 7 1 = 1" "keep_bits 7 2 = 2" "keep_bits 7 4 = 4"
  by (simp_all add: keep_bits_def)

section \<open>Packed lists\<close>

text \<open>\<open>for startPos < pos { num, startPos, err = proto.ConsumeVarint(buf[:pos], startPos); append }\<close>\<close>

fun read_varints :: "nat \<Rightarrow> byte list \<Rightarrow> int \<Rightarrow> int \<Rightarrow> u64 list \<Rightarrow> (wire_error + u64 list \<times> int) option" where
  "read_varints 0 buf pos startPos vs = None"
| "read_varints (Suc fuel) buf pos startPos vs =
     (if startPos < pos
      then if 0 \<le> pos \<and> pos \<le> int (length buf)
           then case ConsumeVarint (take (nat pos) buf) startPos of
                  Inl e \<Rightarrow> Some (Inl e)
                | Inr (num, startPos') \<Rightarrow> read_varints fuel buf pos startPos' (vs @ [num])
           else Some (Inl IndexPanic)
      else Some (Inr (vs, startPos)))"

definition read_packed_varint :: "u64 list \<Rightarrow> (u64 list \<Rightarrow> 'm) \<Rightarrow> byte list \<Rightarrow> int \<Rightarrow> int \<Rightarrow> 'm field_result" where
  "read_packed_varint old upd buf wireType pos =
     (if wireType = 2
      then case ConsumeLen buf pos of
             Inl e \<Rightarrow> Some (Inl (WireErr e))
           | Inr (len, pos') \<Rightarrow>
               (case read_varints (Suc (length buf)) buf pos' (pos' - len) old of
                  None \<Rightarrow> None
                | Some (Inl e) \<Rightarrow> Some (Inl (WireErr e))
                | Some (Inr (vs, startPos)) \<Rightarrow>
                    if startPos \<noteq> pos' then Some (Inl (ErrInvalidFieldLen (pos' - startPos)))
                    else Some (Inr (upd vs, pos')))
      else if wireType = 0 then read_varint (\<lambda>num. upd (old @ [num])) buf wireType pos
      else Some (Inl (ErrWrongWireType wireType)))"

text \<open>
  \<open>vs = make([]T, size); for i := 0; i < size; i++ { num, startPos, err = proto.ConsumeI64(buf[:pos], startPos); vs[i] = num }\<close>;
  the first argument is the number of elements to go.
\<close>

fun read_fixed64s :: "nat \<Rightarrow> nat \<Rightarrow> byte list \<Rightarrow> int \<Rightarrow> int \<Rightarrow> u64 list \<Rightarrow> wire_error + u64 list \<times> int" where
  "read_fixed64s 0 i buf pos startPos vs = Inr (vs, startPos)"
| "read_fixed64s (Suc n) i buf pos startPos vs =
     (if 0 \<le> pos \<and> pos \<le> int (length buf)
      then case ConsumeI64 (take (nat pos) buf) startPos of
             Inl e \<Rightarrow> Inl e
           | Inr (num, startPos') \<Rightarrow> read_fixed64s n (Suc i) buf pos startPos' (vs[i := num])
      else Inl IndexPanic)"

definition read_packed_fixed64 :: "u64 list \<Rightarrow> (u64 list \<Rightarrow> 'm) \<Rightarrow> byte list \<Rightarrow> int \<Rightarrow> int \<Rightarrow> 'm field_result" where
  "read_packed_fixed64 old upd buf wireType pos =
     (if wireType = 2
      then case ConsumeLen buf pos of
             Inl e \<Rightarrow> Some (Inl (WireErr e))
           | Inr (len, pos') \<Rightarrow>
               (let size = nat (len div 8)
                in case read_fixed64s size 0 buf pos' (pos' - len) (replicate size 0) of
                     Inl e \<Rightarrow> Some (Inl (WireErr e))
                   | Inr (vs, startPos) \<Rightarrow>
                       if startPos \<noteq> pos' then Some (Inl (ErrInvalidFieldLen (pos' - startPos)))
                       else Some (Inr (upd vs, pos')))
      else if wireType = 1 then read_i64 (\<lambda>num. upd (old @ [num])) buf wireType pos
      else Some (Inl (ErrWrongWireType wireType)))"

text \<open>\<open>endPos := pos; for i := l - 1; i >= 0; i-- { ... }; pos = proto.EncodeVarint(buf, pos, uint64(endPos-pos))\<close>\<close>

fun put_packed :: "writer list \<Rightarrow> writer" where
  "put_packed ws (buf, pos) =
     (case write_all ws (buf, pos) of
        Inl e \<Rightarrow> Inl e
      | Inr (buf', pos') \<Rightarrow> put_varint (word_of_int (pos - pos')) (buf', pos'))"

definition packed_varint_block :: "byte list \<Rightarrow> u64 list \<Rightarrow> writer list" where
  "packed_varint_block tag vs = put_packed (map put_varint (rev vs)) # put_tag tag"

text \<open>\<open>pos = proto.EncodeVarint(buf, pos, uint64(l*8))\<close>\<close>

definition packed_fixed64_block :: "byte list \<Rightarrow> u64 list \<Rightarrow> writer list" where
  "packed_fixed64_block tag vs =
     map (put_fixed 8) (rev vs) @ [put_varint (of_nat (length vs * 8))] @ put_tag tag"

section \<open>The bytes of a packed list\<close>

definition packed_varints :: "u64 list \<Rightarrow> byte list" where
  "packed_varints vs = concat (map varint_bytes vs)"

definition packed_fixed64s :: "u64 list \<Rightarrow> byte list" where
  "packed_fixed64s vs = concat (map (le_bytes_of 8) vs)"

lemma length_packed_varints: "length (packed_varints vs) = sum_list (map Sov vs)"
  by (induction vs) (simp_all add: packed_varints_def length_varint_bytes)

lemma length_packed_fixed64s: "length (packed_fixed64s vs) = 8 * length vs"
  by (induction vs) (simp_all add: packed_fixed64s_def)

lemma emits_list:
  assumes "\<And>v. emits (w v) (enc v)"
  shows "block_emits (map w (rev vs)) (concat (map enc vs))"
    and "emits (write_all (map w (rev vs))) (concat (map enc vs))"
proof -
  have l: "list_all2 emits (map w (rev vs)) (map enc (rev vs))"
    using assms by (simp add: list_all2_map1 list_all2_map2 list.rel_refl)
  from emits_write_all [OF this] show "emits (write_all (map w (rev vs))) (concat (map enc vs))"
    by (simp add: rev_map)
  show "block_emits (map w (rev vs)) (concat (map enc vs))"
    unfolding block_emits_def using l by (intro exI [of _ "map enc (rev vs)"]) (simp add: rev_map)
qed

lemma emits_packed:
  assumes "emits (write_all ws) bs"
  shows "emits (put_packed ws) (varint_bytes (of_nat (length bs)) @ bs)"
proof -
  let ?n = "of_nat (length bs) :: u64"
  have "emits (write_all [write_all ws, put_varint ?n]) (varint_bytes ?n @ bs)"
    using emits_write_all [of "[write_all ws, put_varint ?n]" "[bs, varint_bytes ?n]"] assms emits_varint
    by simp
  moreover have "put_packed ws (buf, pos) = write_all [write_all ws, put_varint ?n] (buf, pos)"
    if "int (length bs) \<le> pos" "pos \<le> int (length buf)" for buf pos
    using emitsD [OF assms that] by (simp split: sum.splits)
  ultimately show ?thesis by (simp add: emits_def del: write_all.simps put_packed.simps)
qed

lemma packed_blocks [emit]:
  "block_emits (packed_varint_block tag vs) (string_bytes tag (packed_varints vs))"
  "block_emits (packed_fixed64_block tag vs) (string_bytes tag (packed_fixed64s vs))"
proof -
  show "block_emits (packed_varint_block tag vs) (string_bytes tag (packed_varints vs))"
    unfolding packed_varint_block_def string_bytes_def packed_varints_def
    by (intro block_emits_Cons emits_packed emits_list block_emits_tag emits_varint)
  have "block_emits ([put_varint (of_nat (length vs * 8))] @ put_tag tag) (tag @ varint_bytes (of_nat (length vs * 8)))"
    by (intro block_emits_append block_emits_single emits_varint block_emits_tag)
  from block_emits_append [OF emits_list(1) [where w = "put_fixed 8" and enc = "le_bytes_of 8", OF emits_fixed] this, of vs]
  show "block_emits (packed_fixed64_block tag vs) (string_bytes tag (packed_fixed64s vs))"
    by (simp add: packed_fixed64_block_def string_bytes_def length_packed_fixed64s mult.commute)
      (simp add: packed_fixed64s_def)
qed

section \<open>Packed lists are read back\<close>

lemma read_varints_at:
  "length bs < fuel \<Longrightarrow> bs = packed_varints ws \<Longrightarrow>
   read_varints fuel (pre @ bs @ post) (int (length pre + length bs)) (int (length pre)) vs =
     Some (Inr (vs @ ws, int (length pre + length bs)))"
proof (induction ws arbitrary: fuel pre bs vs)
  case Nil
  then obtain k where "fuel = Suc k" by (cases fuel) auto
  with Nil show ?case by (simp add: packed_varints_def)
next
  case (Cons w ws)
  let ?b = "packed_varints ws"
  from Cons.prems obtain k where k: "fuel = Suc k" by (cases fuel) auto
  have bs: "bs = varint_bytes w @ ?b" using Cons.prems by (simp add: packed_varints_def)
  have pos: "0 < length (varint_bytes w)" using Sov_pos [of w] by (simp add: length_varint_bytes)
  have r: "ConsumeVarint (take (length pre + length bs) (pre @ bs @ post)) (int (length pre)) =
      Inr (w, int (length (pre @ varint_bytes w)))"
    using varint_at [of pre w ?b] by (simp add: bs length_varint_bytes)
  have "read_varints k ((pre @ varint_bytes w) @ ?b @ post) (int (length (pre @ varint_bytes w) + length ?b))
      (int (length (pre @ varint_bytes w))) (vs @ [w]) =
    Some (Inr ((vs @ [w]) @ ws, int (length (pre @ varint_bytes w) + length ?b)))"
  proof (rule Cons.IH)
    show "length ?b < k" using Cons.prems(1) pos by (auto simp: k bs simp del: length_0_conv length_greater_0_conv)
  qed simp
  moreover have "0 < int (length (varint_bytes w)) + int (length ?b)" using pos by linarith
  ultimately show ?case using r unfolding k by (simp add: bs add.assoc)
qed

lemma read_fixed64s_at:
  "valid_buf (pre @ packed_fixed64s ws @ post) \<Longrightarrow> length vs = length ws \<Longrightarrow>
   read_fixed64s (length ws) (length us) (pre @ packed_fixed64s ws @ post)
     (int (length pre + length (packed_fixed64s ws))) (int (length pre)) (us @ vs) =
     Inr (us @ ws, int (length pre + length (packed_fixed64s ws)))"
proof (induction ws arbitrary: pre us vs)
  case Nil
  then show ?case by (simp add: packed_fixed64s_def)
next
  case (Cons w ws)
  let ?b = "packed_fixed64s ws"
  have bs: "packed_fixed64s (w # ws) = le_bytes_of 8 w @ ?b" by (simp add: packed_fixed64s_def)
  from Cons.prems obtain v vs' where vs: "vs = v # vs'" "length vs' = length ws" by (cases vs) auto
  have v: "valid_buf (pre @ le_bytes_of 8 w @ ?b)" using Cons.prems(1) by (simp add: bs valid_buf_def)
  have r: "ConsumeI64 (take (length pre + length (packed_fixed64s (w # ws))) (pre @ packed_fixed64s (w # ws) @ post))
      (int (length pre)) = Inr (w, int (length (pre @ le_bytes_of 8 w)))"
    using fixed_at [OF v] le_word_fixed [of 8 w]
    by (simp add: bs ConsumeI64_def Let_def take_bit_word_eq_self)
  have "read_fixed64s (length ws) (length (us @ [w])) ((pre @ le_bytes_of 8 w) @ ?b @ post)
      (int (length (pre @ le_bytes_of 8 w) + length ?b)) (int (length (pre @ le_bytes_of 8 w))) ((us @ [w]) @ vs') =
    Inr ((us @ [w]) @ ws, int (length (pre @ le_bytes_of 8 w) + length ?b))"
    by (rule Cons.IH) (use Cons.prems vs in \<open>simp_all add: bs\<close>)
  then show ?case using r by (simp add: bs vs add.assoc)
qed

lemma decodes_packed_varint_chunk:
  assumes "is_tag tag fn 2" "\<And>buf p. field buf fn 2 p m = read_packed_varint old upd buf 2 p"
  shows "decodes field (string_bytes tag (packed_varints vs)) m (upd (old @ vs))"
proof (rule decodes_chunk)
  let ?s = "packed_varints vs"
  let ?v = "varint_bytes (of_nat (length ?s))"
  show "string_bytes tag ?s \<noteq> []" using is_tag_nonempty [OF assms(1)] by (simp add: string_bytes_def)
  fix pre post
  let ?p = "pre @ tag @ ?v"
  assume "valid_buf (pre @ string_bytes tag ?s @ post)"
  then have v: "valid_buf ((pre @ tag) @ ?v @ ?s @ post)" by (simp add: string_bytes_def)
  have buf: "pre @ string_bytes tag ?s @ post = (pre @ tag) @ ?v @ ?s @ post" by (simp add: string_bytes_def)
  have t: "ConsumeTag (pre @ string_bytes tag ?s @ post) (int (length pre)) = Inr (fn, 2, int (length (pre @ tag)))"
    using tag_at [OF assms(1), of pre "?v @ ?s @ post"] by (simp add: string_bytes_def)
  have r: "read_varints (Suc (length (?p @ ?s @ post))) (?p @ ?s @ post) (int (length ?p + length ?s)) (int (length ?p)) old =
      Some (Inr (old @ vs, int (length ?p + length ?s)))"
    by (rule read_varints_at) simp_all
  have "read_packed_varint old upd ((pre @ tag) @ ?v @ ?s @ post) 2 (int (length (pre @ tag))) =
      Some (Inr (upd (old @ vs), int (length pre + length (string_bytes tag ?s))))"
    using len_at [OF v] r unfolding read_packed_varint_def
    by (simp add: string_bytes_def length_varint_bytes add.assoc del: read_varints.simps)
  with t show "\<exists>fn wt p. ConsumeTag (pre @ string_bytes tag ?s @ post) (int (length pre)) = Inr (fn, wt, p) \<and>
      field (pre @ string_bytes tag ?s @ post) fn wt p m = Some (Inr (upd (old @ vs), int (length pre + length (string_bytes tag ?s))))"
    unfolding buf assms(2) [symmetric] by blast
qed

lemma decodes_packed_fixed64_chunk:
  assumes "is_tag tag fn 2" "\<And>buf p. field buf fn 2 p m = read_packed_fixed64 old upd buf 2 p"
  shows "decodes field (string_bytes tag (packed_fixed64s vs)) m (upd vs)"
proof (rule decodes_chunk)
  let ?s = "packed_fixed64s vs"
  let ?v = "varint_bytes (of_nat (length ?s))"
  show "string_bytes tag ?s \<noteq> []" using is_tag_nonempty [OF assms(1)] by (simp add: string_bytes_def)
  fix pre post
  let ?p = "pre @ tag @ ?v"
  assume "valid_buf (pre @ string_bytes tag ?s @ post)"
  then have v: "valid_buf ((pre @ tag) @ ?v @ ?s @ post)" "valid_buf (?p @ ?s @ post)" by (simp_all add: string_bytes_def)
  have buf: "pre @ string_bytes tag ?s @ post = (pre @ tag) @ ?v @ ?s @ post" by (simp add: string_bytes_def)
  have t: "ConsumeTag (pre @ string_bytes tag ?s @ post) (int (length pre)) = Inr (fn, 2, int (length (pre @ tag)))"
    using tag_at [OF assms(1), of pre "?v @ ?s @ post"] by (simp add: string_bytes_def)
  have r: "read_fixed64s (length vs) 0 (?p @ ?s @ post) (int (length ?p + length ?s)) (int (length ?p)) (replicate (length vs) 0) =
      Inr (vs, int (length ?p + length ?s))"
    using read_fixed64s_at [OF v(2), of "replicate (length vs) 0" "[]"] by simp
  have "nat (int (length ?s) div 8) = length vs" by (simp add: length_packed_fixed64s)
  then have "read_packed_fixed64 old upd ((pre @ tag) @ ?v @ ?s @ post) 2 (int (length (pre @ tag))) =
      Some (Inr (upd vs, int (length pre + length (string_bytes tag ?s))))"
    using len_at [OF v(1)] r unfolding read_packed_fixed64_def
    by (simp add: Let_def string_bytes_def length_varint_bytes add.assoc)
  with t show "\<exists>fn wt p. ConsumeTag (pre @ string_bytes tag ?s @ post) (int (length pre)) = Inr (fn, wt, p) \<and>
      field (pre @ string_bytes tag ?s @ post) fn wt p m = Some (Inr (upd vs, int (length pre + length (string_bytes tag ?s))))"
    unfolding buf assms(2) [symmetric] by blast
qed

lemma decodes_packed_varint:
  assumes "is_tag tag fn 2" "\<And>buf p. field buf fn 2 p m = read_packed_varint [] upd buf 2 p" "upd [] = m"
  shows "decodes field (if length vs > 0 then string_bytes tag (packed_varints vs) else []) m (upd vs)"
  using decodes_packed_varint_chunk [where field = field and m = m and upd = upd and old = "[]", OF assms(1,2)] assms(3) by (intro decodes_if) simp_all

lemma decodes_packed_int32:
  assumes "is_tag tag fn 2"
    and "\<And>buf p. field buf fn 2 p m = read_packed_varint [] (\<lambda>vs. upd (map ucast vs)) buf 2 p" "upd [] = m"
  shows "decodes field (if length vs > 0 then string_bytes tag (packed_varints (map scast (vs :: 32 word list))) else []) m (upd vs)"
proof -
  have "map ucast (map scast vs :: u64 list) = vs" by (simp add: o_def ucast_scast_32)
  with decodes_packed_varint_chunk [where field = field and m = m and old = "[]" and upd = "\<lambda>vs. upd (map ucast vs)"
      and vs = "map scast vs", OF assms(1)] assms(2,3)
  show ?thesis by (intro decodes_if) (simp_all del: map_map)
qed

lemma decodes_packed_fixed64:
  assumes "is_tag tag fn 2" "\<And>buf p. field buf fn 2 p m = read_packed_fixed64 [] upd buf 2 p" "upd [] = m"
  shows "decodes field (if length vs > 0 then string_bytes tag (packed_fixed64s vs) else []) m (upd vs)"
  using decodes_packed_fixed64_chunk [where field = field and m = m and upd = upd and old = "[]", OF assms(1,2)] assms(3) by (intro decodes_if) simp_all

section \<open>Packed readers do not panic and return\<close>

lemma read_varints_ok:
  assumes "valid_buf buf" "0 \<le> pos" "pos \<le> int (length buf)"
  shows "0 \<le> startPos \<Longrightarrow> nat (pos - startPos) < n \<Longrightarrow>
    \<exists>r. read_varints n buf pos startPos vs = Some r \<and> r \<noteq> Inl IndexPanic"
proof (induction n arbitrary: startPos vs)
  case (Suc n)
  let ?b = "take (nat pos) buf"
  have vb: "valid_buf ?b" using assms(1) by (auto simp: valid_buf_def)
  show ?case
  proof (cases "startPos < pos")
    case True
    have vp: "valid_pos startPos" using True assms Suc.prems by (auto simp: valid_buf_def valid_pos_def)
    show ?thesis
    proof (cases "ConsumeVarint ?b startPos")
      case (Inl e)
      then show ?thesis using True assms varint_reader.safe [OF vb vp] by simp
    next
      case (Inr np)
      then obtain num p where np: "ConsumeVarint ?b startPos = Inr (num, p)" by (cases np) auto
      have "startPos < p" using varint_reader.advances [OF vb vp np] by simp
      then have "\<exists>r. read_varints n buf pos p (vs @ [num]) = Some r \<and> r \<noteq> Inl IndexPanic"
        using Suc.prems True by (intro Suc.IH) auto
      then show ?thesis using True assms np by simp
    qed
  qed simp
qed simp

lemma read_fixed64s_ok:
  assumes "valid_buf buf" "0 \<le> pos" "pos \<le> int (length buf)"
  shows "0 \<le> startPos \<Longrightarrow> startPos \<le> pos \<Longrightarrow> read_fixed64s n i buf pos startPos vs \<noteq> Inl IndexPanic"
proof (induction n arbitrary: i startPos vs)
  case (Suc n)
  let ?b = "take (nat pos) buf"
  have vb: "valid_buf ?b" using assms(1) by (auto simp: valid_buf_def)
  have vp: "valid_pos startPos" using assms Suc.prems by (auto simp: valid_buf_def valid_pos_def)
  show ?case
  proof (cases "ConsumeI64 ?b startPos")
    case (Inl e)
    then show ?thesis using assms i64_reader.safe [OF vb vp] by simp
  next
    case (Inr np)
    then obtain num p where np: "ConsumeI64 ?b startPos = Inr (num, p)" by (cases np) auto
    have "startPos < p" "p \<le> int (length ?b)" using i64_reader.advances [OF vb vp np] by auto
    then have "read_fixed64s n (Suc i) buf pos p (vs[i := num]) \<noteq> Inl IndexPanic"
      using Suc.prems by (intro Suc.IH) auto
    then show ?thesis using assms np by simp
  qed
qed simp

lemma field_ok_packed [reader_ok]:
  assumes v: "valid_buf buf" "0 \<le> pos" "pos \<le> int (length buf)"
  shows "field_ok buf pos (read_packed_varint old upd buf wt pos)"
    and "field_ok buf pos (read_packed_fixed64 old upd buf wt pos)"
proof -
  have vp: "valid_pos pos" using valid_pos_le v .
  have e: "field_ok buf pos (Some (Inl (WireErr e)))" if "ConsumeLen buf pos = Inl e" for e
    using that len_reader.safe [OF v(1) vp] by (auto simp: field_ok_def)
  have w: "field_ok buf pos (Some (Inl (ErrWrongWireType wt)))" by (simp add: field_ok_def)
  show "field_ok buf pos (read_packed_varint old upd buf wt pos)"
  proof (cases "\<exists>len p. wt = 2 \<and> ConsumeLen buf pos = Inr (len, p)")
    case True
    then obtain len p where c: "wt = 2" "ConsumeLen buf pos = Inr (len, p)" by blast
    note b = ConsumeLen_bounds [OF v(1) vp c(2)]
    have "nat len < Suc (length buf)" using b v(2) by linarith
    then obtain r where r: "read_varints (Suc (length buf)) buf p (p - len) old = Some r" "r \<noteq> Inl IndexPanic"
      using read_varints_ok [OF v(1), of p "p - len" "Suc (length buf)" old] b v(2)
      by (auto simp del: read_varints.simps)
    then show ?thesis using c b v(2) unfolding read_packed_varint_def
      by (cases r) (auto simp: field_ok_def simp del: read_varints.simps)
  next
    case False
    then show ?thesis unfolding read_packed_varint_def
      by (cases "ConsumeLen buf pos") (auto intro: e w field_ok_values [OF v])
  qed
  show "field_ok buf pos (read_packed_fixed64 old upd buf wt pos)"
  proof (cases "\<exists>len p. wt = 2 \<and> ConsumeLen buf pos = Inr (len, p)")
    case True
    then obtain len p where c: "wt = 2" "ConsumeLen buf pos = Inr (len, p)" by blast
    note b = ConsumeLen_bounds [OF v(1) vp c(2)]
    have "read_fixed64s (nat (len div 8)) 0 buf p (p - len) (replicate (nat (len div 8)) 0) \<noteq> Inl IndexPanic"
      using b v by (intro read_fixed64s_ok) auto
    then show ?thesis using c b v(2) unfolding read_packed_fixed64_def Let_def
      by (cases "read_fixed64s (nat (len div 8)) 0 buf p (p - len) (replicate (nat (len div 8)) 0)")
        (auto simp: field_ok_def)
  next
    case False
    then show ?thesis unfolding read_packed_fixed64_def
      by (cases "ConsumeLen buf pos") (auto intro: e w field_ok_values [OF v])
  qed
qed

section \<open>Fields of type bool\<close>

lemma bool_block [emit]:
  "block_emits (put_byte (if b then 1 else 0) # put_tag tag) (varint_field_bytes tag (if b then 1 else 0))"
  unfolding varint_field_bytes_def bool_bytes by (rule block_emits_Cons [OF emits_byte block_emits_tag])

lemma Sov_1: "Sov 1 = Suc 0"
  by (simp add: Sov_groups7 groups7.simps)

lemma decodes_bool:
  assumes "is_tag tag fn 0" "\<And>buf p. field buf fn 0 p m = read_varint (\<lambda>n. upd (n \<noteq> 0)) buf 0 p" "upd False = m"
  shows "decodes field (if b then varint_field_bytes tag (if b then 1 else 0) else []) m (upd b)"
proof (rule decodes_if)
  assume b: b
  have "decodes field (varint_field_bytes tag 1) m (upd ((1 :: u64) \<noteq> 0))"
    by (rule decodes_varint [where fn = fn and upd = "\<lambda>n. upd (n \<noteq> 0)"]) (simp_all add: assms)
  with b show "decodes field (varint_field_bytes tag (if b then 1 else 0)) m (upd b)" by simp
qed (use assms(3) in simp)

lemma decodes_opt_bytes:
  assumes "is_tag tag fn 2"
    and "\<And>buf p. field buf fn 2 p m = read_bytes (\<lambda>s. if length s \<noteq> 0 then upd s else m) buf 2 p" "upd [] = m"
  shows "decodes field (if length s > 0 then string_bytes tag s else []) m (upd s)"
proof (rule decodes_if)
  assume s: "length s > 0"
  have "decodes field (string_bytes tag s) m (if length s \<noteq> 0 then upd s else m)"
    by (rule decodes_sub [where fn = fn and use = "\<lambda>s. Some (Inr (if length s \<noteq> 0 then upd s else m))"])
      (simp_all only: assms(1,2))
  with s show "decodes field (string_bytes tag s) m (upd s)" by simp
qed (use assms(3) in simp)

section \<open>Optional floats\<close>

lemma decodes_presence:
  assumes "is_tag tag fn 1" "\<And>buf p. c \<Longrightarrow> field buf fn 1 p m = read_i64 upd buf 1 p"
    and "c \<Longrightarrow> upd v = m'" "\<not> c \<Longrightarrow> m' = m"
  shows "decodes field (if c then fixed_bytes tag 8 v else []) m m'"
proof (rule decodes_if)
  assume c: c
  have "decodes field (fixed_bytes tag 8 v) m (upd v)" by (rule decodes_fixed64 [where fn = fn]) (simp_all add: assms(1,2) c)
  then show "decodes field (fixed_bytes tag 8 v) m m'" by (simp add: assms(3) c)
qed (rule assms(4))

lemma decodes_float:
  assumes "is_tag tag fn 1" "\<And>buf p. field buf fn 1 p m = read_i64 upd buf 1 p" "upd 0 = m"
    and "v \<noteq> 0x8000000000000000"
  shows "decodes field (if nonzero_float v then fixed_bytes tag 8 v else []) m (upd v)"
  using assms by (intro decodes_if decodes_fixed64) (auto simp: nonzero_float_def)

end
