(* ===== verification/ProtoPoints.thy ===== *)
theory ProtoPoints
  imports ProtoPacked ProtoCommon
begin

text \<open>
  The data points of the metric messages: \<open>Exemplar\<close>, \<open>NumberDataPoint\<close>, \<open>HistogramDataPoint\<close>,
  \<open>ExponentialHistogramDataPoint\<close> with its buckets, and \<open>SummaryDataPoint\<close>
  (pdata/internal/generated\_proto\_exemplar.go, generated\_proto\_numberdatapoint.go,
  generated\_proto\_histogramdatapoint.go, generated\_proto\_exponentialhistogramdatapoint.go,
  generated\_proto\_exponentialhistogramdatapointbuckets.go, generated\_proto\_summarydatapoint.go and
  generated\_proto\_summarydatapointvalueatquantile.go). A oneof is a datatype with one constructor for
  each wrapper type; the floats are their 64 bits.
\<close>

lemma tags_points [simp]:
  "is_tag [0x11] 2 1"
  "is_tag [0x19] 3 1"
  "is_tag [0x31] 6 1"
  "is_tag [0x4a] 9 2"
  "is_tag [0x29] 5 1"
  "is_tag [0x42] 8 2"
  "is_tag [0x50] 10 0"
  "is_tag [0x59] 11 1"
  "is_tag [0x61] 12 1"
  "is_tag [0x08] 1 0"
  "is_tag [0x30] 6 0"
  "is_tag [0x39] 7 1"
  "is_tag [0x5a] 11 2"
  "is_tag [0x69] 13 1"
  "is_tag [0x71] 14 1"
  "is_tag [0x09] 1 1"
  by (simp_all add: is_tag_def Let_def varint_bytes.simps)

datatype Exemplar_Value =
    Exemplar_nil
  | Exemplar_AsDouble u64
  | Exemplar_AsInt u64

fun Exemplar_Value_SizeProto :: "Exemplar_Value \<Rightarrow> nat" where
  "Exemplar_Value_SizeProto Exemplar_nil = 0"
| "Exemplar_Value_SizeProto (Exemplar_AsDouble v) = 9"
| "Exemplar_Value_SizeProto (Exemplar_AsInt v) = 9"

fun Exemplar_Value_MarshalProto :: "Exemplar_Value \<Rightarrow> writer list" where
  "Exemplar_Value_MarshalProto Exemplar_nil = []"
| "Exemplar_Value_MarshalProto (Exemplar_AsDouble v) = fixed_block [0x19] 8 v"
| "Exemplar_Value_MarshalProto (Exemplar_AsInt v) = fixed_block [0x31] 8 v"

fun Exemplar_Value_bytes :: "Exemplar_Value \<Rightarrow> byte list" where
  "Exemplar_Value_bytes Exemplar_nil = []"
| "Exemplar_Value_bytes (Exemplar_AsDouble v) = fixed_bytes [0x19] 8 v"
| "Exemplar_Value_bytes (Exemplar_AsInt v) = fixed_bytes [0x31] 8 v"

lemma Exemplar_Value_size: "length (Exemplar_Value_bytes v) = Exemplar_Value_SizeProto v"
  by (cases v) (simp_all add: field_sizes)

lemma Exemplar_Value_emits [emit]: "block_emits (Exemplar_Value_MarshalProto v) (Exemplar_Value_bytes v)"
  by (cases v) (auto simp: block_emits_Nil intro!: emit)

section \<open>Exemplar\<close>

record Exemplar =
  ex_FilteredAttributes :: "KeyValue list"
  ex_TimeUnixNano :: u64
  ex_Value :: Exemplar_Value
  ex_TraceId :: ident
  ex_SpanId :: ident

definition Exemplar_zero :: Exemplar where
  "Exemplar_zero = \<lparr>ex_FilteredAttributes = [], ex_TimeUnixNano = 0, ex_Value = Exemplar_nil, ex_TraceId = replicate traceIDSize 0, ex_SpanId = replicate spanIDSize 0\<rparr>"

definition Exemplar_SizeProto :: "Exemplar \<Rightarrow> nat" where
  "Exemplar_SizeProto orig =
     sum_list (map (\<lambda>v. len_size 1 (KeyValue_SizeProto v)) (ex_FilteredAttributes orig))
     + (if ex_TimeUnixNano orig \<noteq> 0 then 9 else 0)
     + Exemplar_Value_SizeProto (ex_Value orig)
     + len_size 1 (ID_SizeProto traceIDSize (ex_TraceId orig))
     + len_size 1 (ID_SizeProto spanIDSize (ex_SpanId orig))"

definition Exemplar_MarshalProto :: "Exemplar \<Rightarrow> marshaler" where
  "Exemplar_MarshalProto orig = marshal_body
     (concat (map (\<lambda>v. message_block [0x3a] (KeyValue_MarshalProto v)) (rev (ex_FilteredAttributes orig)))
      @ (if ex_TimeUnixNano orig \<noteq> 0 then fixed_block [0x11] 8 (ex_TimeUnixNano orig) else [])
      @ Exemplar_Value_MarshalProto (ex_Value orig)
      @ message_block [0x2a] (ID_MarshalProto traceIDSize (ex_TraceId orig))
      @ message_block [0x22] (ID_MarshalProto spanIDSize (ex_SpanId orig)))"

definition Exemplar_field :: "Exemplar field_reader" where
  "Exemplar_field buf fieldNum wireType pos orig =
     (if fieldNum = 7 then read_message KeyValue_UnmarshalProto KeyValue_zero (\<lambda>v. orig\<lparr>ex_FilteredAttributes := ex_FilteredAttributes orig @ [v]\<rparr>) buf wireType pos
      else if fieldNum = 2 then read_i64 (\<lambda>num. orig\<lparr>ex_TimeUnixNano := num\<rparr>) buf wireType pos
      else if fieldNum = 3 then read_i64 (\<lambda>num. orig\<lparr>ex_Value := Exemplar_AsDouble num\<rparr>) buf wireType pos
      else if fieldNum = 6 then read_i64 (\<lambda>num. orig\<lparr>ex_Value := Exemplar_AsInt num\<rparr>) buf wireType pos
      else if fieldNum = 5 then read_message (ID_UnmarshalProto traceIDSize) (ex_TraceId orig) (\<lambda>v. orig\<lparr>ex_TraceId := v\<rparr>) buf wireType pos
      else if fieldNum = 4 then read_message (ID_UnmarshalProto spanIDSize) (ex_SpanId orig) (\<lambda>v. orig\<lparr>ex_SpanId := v\<rparr>) buf wireType pos
      else read_unknown orig buf wireType pos)"

definition Exemplar_UnmarshalProto :: "Exemplar unmarshaler" where
  "Exemplar_UnmarshalProto = unmarshal_body Exemplar_field"

definition Exemplar_bytes :: "Exemplar \<Rightarrow> byte list" where
  "Exemplar_bytes orig =
     ((((string_bytes [0x22] (ID_bytes spanIDSize (ex_SpanId orig))
      @ string_bytes [0x2a] (ID_bytes traceIDSize (ex_TraceId orig)))
      @ Exemplar_Value_bytes (ex_Value orig))
      @ (if ex_TimeUnixNano orig \<noteq> 0 then fixed_bytes [0x11] 8 (ex_TimeUnixNano orig) else []))
      @ concat (map (\<lambda>v. string_bytes [0x3a] (KeyValue_bytes v)) (ex_FilteredAttributes orig)))"

definition Exemplar_wf :: "Exemplar \<Rightarrow> bool" where
  "Exemplar_wf orig \<longleftrightarrow> list_all KeyValue_wf (ex_FilteredAttributes orig) \<and> ID_wf traceIDSize (ex_TraceId orig) \<and> ID_wf spanIDSize (ex_SpanId orig)"

lemma Exemplar_decodes:
  assumes "Exemplar_wf m"
  shows "decodes Exemplar_field (Exemplar_bytes m) Exemplar_zero m"
proof -
  note wf = assms [unfolded Exemplar_wf_def]
  have 1: "decodes Exemplar_field (string_bytes [0x22] (ID_bytes spanIDSize (ex_SpanId m)))
      Exemplar_zero
      (Exemplar_zero\<lparr>ex_SpanId := ex_SpanId m\<rparr>)"
    by (rule ident.decodes_message [where fn = 4 and upd = "\<lambda>v. Exemplar_zero\<lparr>ex_SpanId := v\<rparr>"]) (simp_all add: Exemplar_field_def Exemplar_zero_def wf)
  have 2: "decodes Exemplar_field (string_bytes [0x2a] (ID_bytes traceIDSize (ex_TraceId m)))
      (Exemplar_zero\<lparr>ex_SpanId := ex_SpanId m\<rparr>)
      (Exemplar_zero\<lparr>ex_SpanId := ex_SpanId m, ex_TraceId := ex_TraceId m\<rparr>)"
    by (rule ident.decodes_message [where fn = 5 and upd = "\<lambda>v. Exemplar_zero\<lparr>ex_SpanId := ex_SpanId m, ex_TraceId := v\<rparr>"]) (simp_all add: Exemplar_field_def Exemplar_zero_def wf)
  have 3: "decodes Exemplar_field (Exemplar_Value_bytes (ex_Value m))
      (Exemplar_zero\<lparr>ex_SpanId := ex_SpanId m, ex_TraceId := ex_TraceId m\<rparr>)
      (Exemplar_zero\<lparr>ex_SpanId := ex_SpanId m, ex_TraceId := ex_TraceId m, ex_Value := ex_Value m\<rparr>)"
  proof (cases "ex_Value m")
    case Exemplar_nil
    then show ?thesis by (simp add: decodes_Nil Exemplar_zero_def)
  next
    case (Exemplar_AsDouble v)
    have "decodes Exemplar_field (fixed_bytes [0x19] 8 v)
        (Exemplar_zero\<lparr>ex_SpanId := ex_SpanId m, ex_TraceId := ex_TraceId m\<rparr>)
        (Exemplar_zero\<lparr>ex_SpanId := ex_SpanId m, ex_TraceId := ex_TraceId m, ex_Value := Exemplar_AsDouble v\<rparr>)"
      by (rule decodes_fixed64 [where fn = 3 and upd = "\<lambda>v. Exemplar_zero\<lparr>ex_SpanId := ex_SpanId m, ex_TraceId := ex_TraceId m, ex_Value := Exemplar_AsDouble v\<rparr>"]) (simp_all add: Exemplar_field_def Exemplar_zero_def)
    then show ?thesis by (simp add: Exemplar_AsDouble)
  next
    case (Exemplar_AsInt v)
    have "decodes Exemplar_field (fixed_bytes [0x31] 8 v)
        (Exemplar_zero\<lparr>ex_SpanId := ex_SpanId m, ex_TraceId := ex_TraceId m\<rparr>)
        (Exemplar_zero\<lparr>ex_SpanId := ex_SpanId m, ex_TraceId := ex_TraceId m, ex_Value := Exemplar_AsInt v\<rparr>)"
      by (rule decodes_fixed64 [where fn = 6 and upd = "\<lambda>v. Exemplar_zero\<lparr>ex_SpanId := ex_SpanId m, ex_TraceId := ex_TraceId m, ex_Value := Exemplar_AsInt v\<rparr>"]) (simp_all add: Exemplar_field_def Exemplar_zero_def)
    then show ?thesis by (simp add: Exemplar_AsInt)
  qed
  have 4: "decodes Exemplar_field ((if ex_TimeUnixNano m \<noteq> 0 then fixed_bytes [0x11] 8 (ex_TimeUnixNano m) else []))
      (Exemplar_zero\<lparr>ex_SpanId := ex_SpanId m, ex_TraceId := ex_TraceId m, ex_Value := ex_Value m\<rparr>)
      (Exemplar_zero\<lparr>ex_SpanId := ex_SpanId m, ex_TraceId := ex_TraceId m, ex_Value := ex_Value m, ex_TimeUnixNano := ex_TimeUnixNano m\<rparr>)"
    by (rule decodes_opt_fixed64 [where fn = 2 and upd = "\<lambda>v. Exemplar_zero\<lparr>ex_SpanId := ex_SpanId m, ex_TraceId := ex_TraceId m, ex_Value := ex_Value m, ex_TimeUnixNano := v\<rparr>"]) (simp_all add: Exemplar_field_def Exemplar_zero_def)
  have 5: "decodes Exemplar_field (concat (map (\<lambda>v. string_bytes [0x3a] (KeyValue_bytes v)) (ex_FilteredAttributes m)))
      (Exemplar_zero\<lparr>ex_SpanId := ex_SpanId m, ex_TraceId := ex_TraceId m, ex_Value := ex_Value m, ex_TimeUnixNano := ex_TimeUnixNano m\<rparr>)
      (Exemplar_zero\<lparr>ex_SpanId := ex_SpanId m, ex_TraceId := ex_TraceId m, ex_Value := ex_Value m, ex_TimeUnixNano := ex_TimeUnixNano m, ex_FilteredAttributes := ex_FilteredAttributes m\<rparr>)"
    by (rule key_value.decodes_repeated_message [where fn = 7 and upd = "\<lambda>v. Exemplar_zero\<lparr>ex_SpanId := ex_SpanId m, ex_TraceId := ex_TraceId m, ex_Value := ex_Value m, ex_TimeUnixNano := ex_TimeUnixNano m, ex_FilteredAttributes := v\<rparr>"]) (simp_all add: Exemplar_field_def Exemplar_zero_def wf)
  have eq: "(Exemplar_zero\<lparr>ex_SpanId := ex_SpanId m, ex_TraceId := ex_TraceId m, ex_Value := ex_Value m, ex_TimeUnixNano := ex_TimeUnixNano m, ex_FilteredAttributes := ex_FilteredAttributes m\<rparr>) = m"
    by (cases m) (simp add: Exemplar_zero_def)
  from decodes_append [OF decodes_append [OF decodes_append [OF decodes_append [OF 1 2] 3] 4] 5]
  show ?thesis unfolding eq Exemplar_bytes_def .
qed

interpretation exemplar: proto_message Exemplar_SizeProto Exemplar_MarshalProto Exemplar_UnmarshalProto Exemplar_zero Exemplar_bytes Exemplar_wf
proof unfold_locales
  fix m assume wf: "Exemplar_wf m"
  then show "Exemplar_SizeProto m = length (Exemplar_bytes m)"
    unfolding Exemplar_SizeProto_def Exemplar_bytes_def Exemplar_wf_def
    by (simp add: length_if_Nil field_sizes repeated_string_size Exemplar_Value_size key_value.repeated_size key_value.size ident.repeated_size ident.size del: length_concat split del: if_split cong: if_cong)
  show "marshals (Exemplar_MarshalProto m) (Exemplar_bytes m)"
    unfolding Exemplar_MarshalProto_def Exemplar_bytes_def
    by (intro marshals_body emit) (use wf in \<open>simp_all add: Exemplar_wf_def\<close>)
  show "Exemplar_UnmarshalProto (Exemplar_bytes m) Exemplar_zero = Some (Inr m)" if "valid_buf (Exemplar_bytes m)"
    unfolding Exemplar_UnmarshalProto_def by (rule unmarshal_body_decodes [OF Exemplar_decodes [OF wf] that])
next
  fix buf and m :: Exemplar
  assume "valid_buf buf"
  then show "unmarshal_ok (Exemplar_UnmarshalProto buf m)"
    unfolding Exemplar_UnmarshalProto_def Exemplar_field_def by (intro unmarshal_body_ok reader_ok) simp_all
qed

datatype NumberDataPoint_Value =
    NumberDataPoint_nil
  | NumberDataPoint_AsDouble u64
  | NumberDataPoint_AsInt u64

fun NumberDataPoint_Value_SizeProto :: "NumberDataPoint_Value \<Rightarrow> nat" where
  "NumberDataPoint_Value_SizeProto NumberDataPoint_nil = 0"
| "NumberDataPoint_Value_SizeProto (NumberDataPoint_AsDouble v) = 9"
| "NumberDataPoint_Value_SizeProto (NumberDataPoint_AsInt v) = 9"

fun NumberDataPoint_Value_MarshalProto :: "NumberDataPoint_Value \<Rightarrow> writer list" where
  "NumberDataPoint_Value_MarshalProto NumberDataPoint_nil = []"
| "NumberDataPoint_Value_MarshalProto (NumberDataPoint_AsDouble v) = fixed_block [0x21] 8 v"
| "NumberDataPoint_Value_MarshalProto (NumberDataPoint_AsInt v) = fixed_block [0x31] 8 v"

fun NumberDataPoint_Value_bytes :: "NumberDataPoint_Value \<Rightarrow> byte list" where
  "NumberDataPoint_Value_bytes NumberDataPoint_nil = []"
| "NumberDataPoint_Value_bytes (NumberDataPoint_AsDouble v) = fixed_bytes [0x21] 8 v"
| "NumberDataPoint_Value_bytes (NumberDataPoint_AsInt v) = fixed_bytes [0x31] 8 v"

lemma NumberDataPoint_Value_size: "length (NumberDataPoint_Value_bytes v) = NumberDataPoint_Value_SizeProto v"
  by (cases v) (simp_all add: field_sizes)

lemma NumberDataPoint_Value_emits [emit]: "block_emits (NumberDataPoint_Value_MarshalProto v) (NumberDataPoint_Value_bytes v)"
  by (cases v) (auto simp: block_emits_Nil intro!: emit)

section \<open>NumberDataPoint\<close>

record NumberDataPoint =
  nd_Attributes :: "KeyValue list"
  nd_StartTimeUnixNano :: u64
  nd_TimeUnixNano :: u64
  nd_Value :: NumberDataPoint_Value
  nd_Exemplars :: "Exemplar list"
  nd_Flags :: "32 word"

definition NumberDataPoint_zero :: NumberDataPoint where
  "NumberDataPoint_zero = \<lparr>nd_Attributes = [], nd_StartTimeUnixNano = 0, nd_TimeUnixNano = 0, nd_Value = NumberDataPoint_nil, nd_Exemplars = [], nd_Flags = 0\<rparr>"

definition NumberDataPoint_SizeProto :: "NumberDataPoint \<Rightarrow> nat" where
  "NumberDataPoint_SizeProto orig =
     sum_list (map (\<lambda>v. len_size 1 (KeyValue_SizeProto v)) (nd_Attributes orig))
     + (if nd_StartTimeUnixNano orig \<noteq> 0 then 9 else 0)
     + (if nd_TimeUnixNano orig \<noteq> 0 then 9 else 0)
     + NumberDataPoint_Value_SizeProto (nd_Value orig)
     + sum_list (map (\<lambda>v. len_size 1 (Exemplar_SizeProto v)) (nd_Exemplars orig))
     + (if nd_Flags orig \<noteq> 0 then 1 + Sov (ucast (nd_Flags orig)) else 0)"

definition NumberDataPoint_MarshalProto :: "NumberDataPoint \<Rightarrow> marshaler" where
  "NumberDataPoint_MarshalProto orig = marshal_body
     (concat (map (\<lambda>v. message_block [0x3a] (KeyValue_MarshalProto v)) (rev (nd_Attributes orig)))
      @ (if nd_StartTimeUnixNano orig \<noteq> 0 then fixed_block [0x11] 8 (nd_StartTimeUnixNano orig) else [])
      @ (if nd_TimeUnixNano orig \<noteq> 0 then fixed_block [0x19] 8 (nd_TimeUnixNano orig) else [])
      @ NumberDataPoint_Value_MarshalProto (nd_Value orig)
      @ concat (map (\<lambda>v. message_block [0x2a] (Exemplar_MarshalProto v)) (rev (nd_Exemplars orig)))
      @ (if nd_Flags orig \<noteq> 0 then varint_block [0x40] (ucast (nd_Flags orig)) else []))"

definition NumberDataPoint_field :: "NumberDataPoint field_reader" where
  "NumberDataPoint_field buf fieldNum wireType pos orig =
     (if fieldNum = 7 then read_message KeyValue_UnmarshalProto KeyValue_zero (\<lambda>v. orig\<lparr>nd_Attributes := nd_Attributes orig @ [v]\<rparr>) buf wireType pos
      else if fieldNum = 2 then read_i64 (\<lambda>num. orig\<lparr>nd_StartTimeUnixNano := num\<rparr>) buf wireType pos
      else if fieldNum = 3 then read_i64 (\<lambda>num. orig\<lparr>nd_TimeUnixNano := num\<rparr>) buf wireType pos
      else if fieldNum = 4 then read_i64 (\<lambda>num. orig\<lparr>nd_Value := NumberDataPoint_AsDouble num\<rparr>) buf wireType pos
      else if fieldNum = 6 then read_i64 (\<lambda>num. orig\<lparr>nd_Value := NumberDataPoint_AsInt num\<rparr>) buf wireType pos
      else if fieldNum = 5 then read_message Exemplar_UnmarshalProto Exemplar_zero (\<lambda>v. orig\<lparr>nd_Exemplars := nd_Exemplars orig @ [v]\<rparr>) buf wireType pos
      else if fieldNum = 8 then read_varint (\<lambda>num. orig\<lparr>nd_Flags := ucast num\<rparr>) buf wireType pos
      else read_unknown orig buf wireType pos)"

definition NumberDataPoint_UnmarshalProto :: "NumberDataPoint unmarshaler" where
  "NumberDataPoint_UnmarshalProto = unmarshal_body NumberDataPoint_field"

definition NumberDataPoint_bytes :: "NumberDataPoint \<Rightarrow> byte list" where
  "NumberDataPoint_bytes orig =
     ((((((if nd_Flags orig \<noteq> 0 then varint_field_bytes [0x40] (ucast (nd_Flags orig)) else [])
      @ concat (map (\<lambda>v. string_bytes [0x2a] (Exemplar_bytes v)) (nd_Exemplars orig)))
      @ NumberDataPoint_Value_bytes (nd_Value orig))
      @ (if nd_TimeUnixNano orig \<noteq> 0 then fixed_bytes [0x19] 8 (nd_TimeUnixNano orig) else []))
      @ (if nd_StartTimeUnixNano orig \<noteq> 0 then fixed_bytes [0x11] 8 (nd_StartTimeUnixNano orig) else []))
      @ concat (map (\<lambda>v. string_bytes [0x3a] (KeyValue_bytes v)) (nd_Attributes orig)))"

definition NumberDataPoint_wf :: "NumberDataPoint \<Rightarrow> bool" where
  "NumberDataPoint_wf orig \<longleftrightarrow> list_all KeyValue_wf (nd_Attributes orig) \<and> list_all Exemplar_wf (nd_Exemplars orig)"

lemma NumberDataPoint_decodes:
  assumes "NumberDataPoint_wf m"
  shows "decodes NumberDataPoint_field (NumberDataPoint_bytes m) NumberDataPoint_zero m"
proof -
  note wf = assms [unfolded NumberDataPoint_wf_def]
  have 1: "decodes NumberDataPoint_field ((if nd_Flags m \<noteq> 0 then varint_field_bytes [0x40] (ucast (nd_Flags m)) else []))
      NumberDataPoint_zero
      (NumberDataPoint_zero\<lparr>nd_Flags := nd_Flags m\<rparr>)"
    by (rule decodes_opt_varint [where fn = 8 and enc = ucast and dec = ucast and upd = "\<lambda>v. NumberDataPoint_zero\<lparr>nd_Flags := v\<rparr>"]) (simp_all add: NumberDataPoint_field_def NumberDataPoint_zero_def ucast_ucast_32)
  have 2: "decodes NumberDataPoint_field (concat (map (\<lambda>v. string_bytes [0x2a] (Exemplar_bytes v)) (nd_Exemplars m)))
      (NumberDataPoint_zero\<lparr>nd_Flags := nd_Flags m\<rparr>)
      (NumberDataPoint_zero\<lparr>nd_Flags := nd_Flags m, nd_Exemplars := nd_Exemplars m\<rparr>)"
    by (rule exemplar.decodes_repeated_message [where fn = 5 and upd = "\<lambda>v. NumberDataPoint_zero\<lparr>nd_Flags := nd_Flags m, nd_Exemplars := v\<rparr>"]) (simp_all add: NumberDataPoint_field_def NumberDataPoint_zero_def wf)
  have 3: "decodes NumberDataPoint_field (NumberDataPoint_Value_bytes (nd_Value m))
      (NumberDataPoint_zero\<lparr>nd_Flags := nd_Flags m, nd_Exemplars := nd_Exemplars m\<rparr>)
      (NumberDataPoint_zero\<lparr>nd_Flags := nd_Flags m, nd_Exemplars := nd_Exemplars m, nd_Value := nd_Value m\<rparr>)"
  proof (cases "nd_Value m")
    case NumberDataPoint_nil
    then show ?thesis by (simp add: decodes_Nil NumberDataPoint_zero_def)
  next
    case (NumberDataPoint_AsDouble v)
    have "decodes NumberDataPoint_field (fixed_bytes [0x21] 8 v)
        (NumberDataPoint_zero\<lparr>nd_Flags := nd_Flags m, nd_Exemplars := nd_Exemplars m\<rparr>)
        (NumberDataPoint_zero\<lparr>nd_Flags := nd_Flags m, nd_Exemplars := nd_Exemplars m, nd_Value := NumberDataPoint_AsDouble v\<rparr>)"
      by (rule decodes_fixed64 [where fn = 4 and upd = "\<lambda>v. NumberDataPoint_zero\<lparr>nd_Flags := nd_Flags m, nd_Exemplars := nd_Exemplars m, nd_Value := NumberDataPoint_AsDouble v\<rparr>"]) (simp_all add: NumberDataPoint_field_def NumberDataPoint_zero_def)
    then show ?thesis by (simp add: NumberDataPoint_AsDouble)
  next
    case (NumberDataPoint_AsInt v)
    have "decodes NumberDataPoint_field (fixed_bytes [0x31] 8 v)
        (NumberDataPoint_zero\<lparr>nd_Flags := nd_Flags m, nd_Exemplars := nd_Exemplars m\<rparr>)
        (NumberDataPoint_zero\<lparr>nd_Flags := nd_Flags m, nd_Exemplars := nd_Exemplars m, nd_Value := NumberDataPoint_AsInt v\<rparr>)"
      by (rule decodes_fixed64 [where fn = 6 and upd = "\<lambda>v. NumberDataPoint_zero\<lparr>nd_Flags := nd_Flags m, nd_Exemplars := nd_Exemplars m, nd_Value := NumberDataPoint_AsInt v\<rparr>"]) (simp_all add: NumberDataPoint_field_def NumberDataPoint_zero_def)
    then show ?thesis by (simp add: NumberDataPoint_AsInt)
  qed
  have 4: "decodes NumberDataPoint_field ((if nd_TimeUnixNano m \<noteq> 0 then fixed_bytes [0x19] 8 (nd_TimeUnixNano m) else []))
      (NumberDataPoint_zero\<lparr>nd_Flags := nd_Flags m, nd_Exemplars := nd_Exemplars m, nd_Value := nd_Value m\<rparr>)
      (NumberDataPoint_zero\<lparr>nd_Flags := nd_Flags m, nd_Exemplars := nd_Exemplars m, nd_Value := nd_Value m, nd_TimeUnixNano := nd_TimeUnixNano m\<rparr>)"
    by (rule decodes_opt_fixed64 [where fn = 3 and upd = "\<lambda>v. NumberDataPoint_zero\<lparr>nd_Flags := nd_Flags m, nd_Exemplars := nd_Exemplars m, nd_Value := nd_Value m, nd_TimeUnixNano := v\<rparr>"]) (simp_all add: NumberDataPoint_field_def NumberDataPoint_zero_def)
  have 5: "decodes NumberDataPoint_field ((if nd_StartTimeUnixNano m \<noteq> 0 then fixed_bytes [0x11] 8 (nd_StartTimeUnixNano m) else []))
      (NumberDataPoint_zero\<lparr>nd_Flags := nd_Flags m, nd_Exemplars := nd_Exemplars m, nd_Value := nd_Value m, nd_TimeUnixNano := nd_TimeUnixNano m\<rparr>)
      (NumberDataPoint_zero\<lparr>nd_Flags := nd_Flags m, nd_Exemplars := nd_Exemplars m, nd_Value := nd_Value m, nd_TimeUnixNano := nd_TimeUnixNano m, nd_StartTimeUnixNano := nd_StartTimeUnixNano m\<rparr>)"
    by (rule decodes_opt_fixed64 [where fn = 2 and upd = "\<lambda>v. NumberDataPoint_zero\<lparr>nd_Flags := nd_Flags m, nd_Exemplars := nd_Exemplars m, nd_Value := nd_Value m, nd_TimeUnixNano := nd_TimeUnixNano m, nd_StartTimeUnixNano := v\<rparr>"]) (simp_all add: NumberDataPoint_field_def NumberDataPoint_zero_def)
  have 6: "decodes NumberDataPoint_field (concat (map (\<lambda>v. string_bytes [0x3a] (KeyValue_bytes v)) (nd_Attributes m)))
      (NumberDataPoint_zero\<lparr>nd_Flags := nd_Flags m, nd_Exemplars := nd_Exemplars m, nd_Value := nd_Value m, nd_TimeUnixNano := nd_TimeUnixNano m, nd_StartTimeUnixNano := nd_StartTimeUnixNano m\<rparr>)
      (NumberDataPoint_zero\<lparr>nd_Flags := nd_Flags m, nd_Exemplars := nd_Exemplars m, nd_Value := nd_Value m, nd_TimeUnixNano := nd_TimeUnixNano m, nd_StartTimeUnixNano := nd_StartTimeUnixNano m, nd_Attributes := nd_Attributes m\<rparr>)"
    by (rule key_value.decodes_repeated_message [where fn = 7 and upd = "\<lambda>v. NumberDataPoint_zero\<lparr>nd_Flags := nd_Flags m, nd_Exemplars := nd_Exemplars m, nd_Value := nd_Value m, nd_TimeUnixNano := nd_TimeUnixNano m, nd_StartTimeUnixNano := nd_StartTimeUnixNano m, nd_Attributes := v\<rparr>"]) (simp_all add: NumberDataPoint_field_def NumberDataPoint_zero_def wf)
  have eq: "(NumberDataPoint_zero\<lparr>nd_Flags := nd_Flags m, nd_Exemplars := nd_Exemplars m, nd_Value := nd_Value m, nd_TimeUnixNano := nd_TimeUnixNano m, nd_StartTimeUnixNano := nd_StartTimeUnixNano m, nd_Attributes := nd_Attributes m\<rparr>) = m"
    by (cases m) (simp add: NumberDataPoint_zero_def)
  from decodes_append [OF decodes_append [OF decodes_append [OF decodes_append [OF decodes_append [OF 1 2] 3] 4] 5] 6]
  show ?thesis unfolding eq NumberDataPoint_bytes_def .
qed

interpretation number_point: proto_message NumberDataPoint_SizeProto NumberDataPoint_MarshalProto NumberDataPoint_UnmarshalProto NumberDataPoint_zero NumberDataPoint_bytes NumberDataPoint_wf
proof unfold_locales
  fix m assume wf: "NumberDataPoint_wf m"
  then show "NumberDataPoint_SizeProto m = length (NumberDataPoint_bytes m)"
    unfolding NumberDataPoint_SizeProto_def NumberDataPoint_bytes_def NumberDataPoint_wf_def
    by (simp add: length_if_Nil field_sizes repeated_string_size NumberDataPoint_Value_size key_value.repeated_size key_value.size exemplar.repeated_size exemplar.size del: length_concat split del: if_split cong: if_cong)
  show "marshals (NumberDataPoint_MarshalProto m) (NumberDataPoint_bytes m)"
    unfolding NumberDataPoint_MarshalProto_def NumberDataPoint_bytes_def
    by (intro marshals_body emit) (use wf in \<open>simp_all add: NumberDataPoint_wf_def\<close>)
  show "NumberDataPoint_UnmarshalProto (NumberDataPoint_bytes m) NumberDataPoint_zero = Some (Inr m)" if "valid_buf (NumberDataPoint_bytes m)"
    unfolding NumberDataPoint_UnmarshalProto_def by (rule unmarshal_body_decodes [OF NumberDataPoint_decodes [OF wf] that])
next
  fix buf and m :: NumberDataPoint
  assume "valid_buf buf"
  then show "unmarshal_ok (NumberDataPoint_UnmarshalProto buf m)"
    unfolding NumberDataPoint_UnmarshalProto_def NumberDataPoint_field_def by (intro unmarshal_body_ok reader_ok) simp_all
qed

section \<open>HistogramDataPoint\<close>

record HistogramDataPoint =
  hp_Attributes :: "KeyValue list"
  hp_StartTimeUnixNano :: u64
  hp_TimeUnixNano :: u64
  hp_Count :: u64
  hp_Sum :: u64
  hp_BucketCounts :: "u64 list"
  hp_ExplicitBounds :: "u64 list"
  hp_Exemplars :: "Exemplar list"
  hp_Flags :: "32 word"
  hp_Min :: u64
  hp_Max :: u64
  hp_metadata :: u64

definition HistogramDataPoint_zero :: HistogramDataPoint where
  "HistogramDataPoint_zero = \<lparr>hp_Attributes = [], hp_StartTimeUnixNano = 0, hp_TimeUnixNano = 0, hp_Count = 0, hp_Sum = 0, hp_BucketCounts = [], hp_ExplicitBounds = [], hp_Exemplars = [], hp_Flags = 0, hp_Min = 0, hp_Max = 0, hp_metadata = 0\<rparr>"

definition HistogramDataPoint_SetSum :: "u64 \<Rightarrow> HistogramDataPoint \<Rightarrow> HistogramDataPoint" where
  "HistogramDataPoint_SetSum value m = m\<lparr>hp_Sum := value, hp_metadata := add_bit 1 (hp_metadata m)\<rparr>"

definition HistogramDataPoint_RemoveSum :: "HistogramDataPoint \<Rightarrow> HistogramDataPoint" where
  "HistogramDataPoint_RemoveSum m = m\<lparr>hp_Sum := 0, hp_metadata := del_bit 1 (hp_metadata m)\<rparr>"

definition HistogramDataPoint_HasSum :: "HistogramDataPoint \<Rightarrow> bool" where
  "HistogramDataPoint_HasSum m \<longleftrightarrow> has_bit 1 (hp_metadata m)"

definition HistogramDataPoint_SetMin :: "u64 \<Rightarrow> HistogramDataPoint \<Rightarrow> HistogramDataPoint" where
  "HistogramDataPoint_SetMin value m = m\<lparr>hp_Min := value, hp_metadata := add_bit 2 (hp_metadata m)\<rparr>"

definition HistogramDataPoint_RemoveMin :: "HistogramDataPoint \<Rightarrow> HistogramDataPoint" where
  "HistogramDataPoint_RemoveMin m = m\<lparr>hp_Min := 0, hp_metadata := del_bit 2 (hp_metadata m)\<rparr>"

definition HistogramDataPoint_HasMin :: "HistogramDataPoint \<Rightarrow> bool" where
  "HistogramDataPoint_HasMin m \<longleftrightarrow> has_bit 2 (hp_metadata m)"

definition HistogramDataPoint_SetMax :: "u64 \<Rightarrow> HistogramDataPoint \<Rightarrow> HistogramDataPoint" where
  "HistogramDataPoint_SetMax value m = m\<lparr>hp_Max := value, hp_metadata := add_bit 4 (hp_metadata m)\<rparr>"

definition HistogramDataPoint_RemoveMax :: "HistogramDataPoint \<Rightarrow> HistogramDataPoint" where
  "HistogramDataPoint_RemoveMax m = m\<lparr>hp_Max := 0, hp_metadata := del_bit 4 (hp_metadata m)\<rparr>"

definition HistogramDataPoint_HasMax :: "HistogramDataPoint \<Rightarrow> bool" where
  "HistogramDataPoint_HasMax m \<longleftrightarrow> has_bit 4 (hp_metadata m)"

text \<open>The bits of a message the setters of its optional fields built: an absent value is zero.\<close>

definition HistogramDataPoint_presence :: "HistogramDataPoint \<Rightarrow> bool" where
  "HistogramDataPoint_presence m \<longleftrightarrow> keep_bits 7 (hp_metadata m) = hp_metadata m \<and>
     (\<not> HistogramDataPoint_HasSum m \<longrightarrow> hp_Sum m = 0) \<and>
     (\<not> HistogramDataPoint_HasMin m \<longrightarrow> hp_Min m = 0) \<and>
     (\<not> HistogramDataPoint_HasMax m \<longrightarrow> hp_Max m = 0)"

lemma HistogramDataPoint_setters_presence:
  "HistogramDataPoint_presence m \<Longrightarrow> HistogramDataPoint_presence (HistogramDataPoint_SetSum v m)"
  "HistogramDataPoint_presence m \<Longrightarrow> HistogramDataPoint_presence (HistogramDataPoint_RemoveSum m)"
  "HistogramDataPoint_presence m \<Longrightarrow> HistogramDataPoint_presence (HistogramDataPoint_SetMin v m)"
  "HistogramDataPoint_presence m \<Longrightarrow> HistogramDataPoint_presence (HistogramDataPoint_RemoveMin m)"
  "HistogramDataPoint_presence m \<Longrightarrow> HistogramDataPoint_presence (HistogramDataPoint_SetMax v m)"
  "HistogramDataPoint_presence m \<Longrightarrow> HistogramDataPoint_presence (HistogramDataPoint_RemoveMax m)"
  by (simp_all add: HistogramDataPoint_presence_def HistogramDataPoint_SetSum_def HistogramDataPoint_RemoveSum_def HistogramDataPoint_HasSum_def HistogramDataPoint_SetMin_def HistogramDataPoint_RemoveMin_def HistogramDataPoint_HasMin_def HistogramDataPoint_SetMax_def HistogramDataPoint_RemoveMax_def HistogramDataPoint_HasMax_def presence_updates keep_bits_updates keep_bits_masks bit_presence_masks)

definition HistogramDataPoint_SizeProto :: "HistogramDataPoint \<Rightarrow> nat" where
  "HistogramDataPoint_SizeProto orig =
     sum_list (map (\<lambda>v. len_size 1 (KeyValue_SizeProto v)) (hp_Attributes orig))
     + (if hp_StartTimeUnixNano orig \<noteq> 0 then 9 else 0)
     + (if hp_TimeUnixNano orig \<noteq> 0 then 9 else 0)
     + (if hp_Count orig \<noteq> 0 then 9 else 0)
     + (if HistogramDataPoint_HasSum orig then 9 else 0)
     + (if length (hp_BucketCounts orig) > 0 then len_size 1 (length (hp_BucketCounts orig) * 8) else 0)
     + (if length (hp_ExplicitBounds orig) > 0 then len_size 1 (length (hp_ExplicitBounds orig) * 8) else 0)
     + sum_list (map (\<lambda>v. len_size 1 (Exemplar_SizeProto v)) (hp_Exemplars orig))
     + (if hp_Flags orig \<noteq> 0 then 1 + Sov (ucast (hp_Flags orig)) else 0)
     + (if HistogramDataPoint_HasMin orig then 9 else 0)
     + (if HistogramDataPoint_HasMax orig then 9 else 0)"

definition HistogramDataPoint_MarshalProto :: "HistogramDataPoint \<Rightarrow> marshaler" where
  "HistogramDataPoint_MarshalProto orig = marshal_body
     (concat (map (\<lambda>v. message_block [0x4a] (KeyValue_MarshalProto v)) (rev (hp_Attributes orig)))
      @ (if hp_StartTimeUnixNano orig \<noteq> 0 then fixed_block [0x11] 8 (hp_StartTimeUnixNano orig) else [])
      @ (if hp_TimeUnixNano orig \<noteq> 0 then fixed_block [0x19] 8 (hp_TimeUnixNano orig) else [])
      @ (if hp_Count orig \<noteq> 0 then fixed_block [0x21] 8 (hp_Count orig) else [])
      @ (if HistogramDataPoint_HasSum orig then fixed_block [0x29] 8 (hp_Sum orig) else [])
      @ (if length (hp_BucketCounts orig) > 0 then packed_fixed64_block [0x32] (hp_BucketCounts orig) else [])
      @ (if length (hp_ExplicitBounds orig) > 0 then packed_fixed64_block [0x3a] (hp_ExplicitBounds orig) else [])
      @ concat (map (\<lambda>v. message_block [0x42] (Exemplar_MarshalProto v)) (rev (hp_Exemplars orig)))
      @ (if hp_Flags orig \<noteq> 0 then varint_block [0x50] (ucast (hp_Flags orig)) else [])
      @ (if HistogramDataPoint_HasMin orig then fixed_block [0x59] 8 (hp_Min orig) else [])
      @ (if HistogramDataPoint_HasMax orig then fixed_block [0x61] 8 (hp_Max orig) else []))"

definition HistogramDataPoint_field :: "HistogramDataPoint field_reader" where
  "HistogramDataPoint_field buf fieldNum wireType pos orig =
     (if fieldNum = 9 then read_message KeyValue_UnmarshalProto KeyValue_zero (\<lambda>v. orig\<lparr>hp_Attributes := hp_Attributes orig @ [v]\<rparr>) buf wireType pos
      else if fieldNum = 2 then read_i64 (\<lambda>num. orig\<lparr>hp_StartTimeUnixNano := num\<rparr>) buf wireType pos
      else if fieldNum = 3 then read_i64 (\<lambda>num. orig\<lparr>hp_TimeUnixNano := num\<rparr>) buf wireType pos
      else if fieldNum = 4 then read_i64 (\<lambda>num. orig\<lparr>hp_Count := num\<rparr>) buf wireType pos
      else if fieldNum = 5 then read_i64 (\<lambda>num. HistogramDataPoint_SetSum num orig) buf wireType pos
      else if fieldNum = 6 then read_packed_fixed64 (hp_BucketCounts orig) (\<lambda>vs. orig\<lparr>hp_BucketCounts := vs\<rparr>) buf wireType pos
      else if fieldNum = 7 then read_packed_fixed64 (hp_ExplicitBounds orig) (\<lambda>vs. orig\<lparr>hp_ExplicitBounds := vs\<rparr>) buf wireType pos
      else if fieldNum = 8 then read_message Exemplar_UnmarshalProto Exemplar_zero (\<lambda>v. orig\<lparr>hp_Exemplars := hp_Exemplars orig @ [v]\<rparr>) buf wireType pos
      else if fieldNum = 10 then read_varint (\<lambda>num. orig\<lparr>hp_Flags := ucast num\<rparr>) buf wireType pos
      else if fieldNum = 11 then read_i64 (\<lambda>num. HistogramDataPoint_SetMin num orig) buf wireType pos
      else if fieldNum = 12 then read_i64 (\<lambda>num. HistogramDataPoint_SetMax num orig) buf wireType pos
      else read_unknown orig buf wireType pos)"

definition HistogramDataPoint_UnmarshalProto :: "HistogramDataPoint unmarshaler" where
  "HistogramDataPoint_UnmarshalProto = unmarshal_body HistogramDataPoint_field"

definition HistogramDataPoint_bytes :: "HistogramDataPoint \<Rightarrow> byte list" where
  "HistogramDataPoint_bytes orig =
     (((((((((((if HistogramDataPoint_HasMax orig then fixed_bytes [0x61] 8 (hp_Max orig) else [])
      @ (if HistogramDataPoint_HasMin orig then fixed_bytes [0x59] 8 (hp_Min orig) else []))
      @ (if hp_Flags orig \<noteq> 0 then varint_field_bytes [0x50] (ucast (hp_Flags orig)) else []))
      @ concat (map (\<lambda>v. string_bytes [0x42] (Exemplar_bytes v)) (hp_Exemplars orig)))
      @ (if length (hp_ExplicitBounds orig) > 0 then string_bytes [0x3a] (packed_fixed64s (hp_ExplicitBounds orig)) else []))
      @ (if length (hp_BucketCounts orig) > 0 then string_bytes [0x32] (packed_fixed64s (hp_BucketCounts orig)) else []))
      @ (if HistogramDataPoint_HasSum orig then fixed_bytes [0x29] 8 (hp_Sum orig) else []))
      @ (if hp_Count orig \<noteq> 0 then fixed_bytes [0x21] 8 (hp_Count orig) else []))
      @ (if hp_TimeUnixNano orig \<noteq> 0 then fixed_bytes [0x19] 8 (hp_TimeUnixNano orig) else []))
      @ (if hp_StartTimeUnixNano orig \<noteq> 0 then fixed_bytes [0x11] 8 (hp_StartTimeUnixNano orig) else []))
      @ concat (map (\<lambda>v. string_bytes [0x4a] (KeyValue_bytes v)) (hp_Attributes orig)))"

definition HistogramDataPoint_wf :: "HistogramDataPoint \<Rightarrow> bool" where
  "HistogramDataPoint_wf orig \<longleftrightarrow> list_all KeyValue_wf (hp_Attributes orig) \<and> list_all Exemplar_wf (hp_Exemplars orig) \<and> HistogramDataPoint_presence orig"

lemma HistogramDataPoint_decodes:
  assumes "HistogramDataPoint_wf m"
  shows "decodes HistogramDataPoint_field (HistogramDataPoint_bytes m) HistogramDataPoint_zero m"
proof -
  note wf = assms [unfolded HistogramDataPoint_wf_def]
  from assms have pres: "HistogramDataPoint_presence m" by (simp add: HistogramDataPoint_wf_def)
  note pres = this [unfolded HistogramDataPoint_presence_def HistogramDataPoint_HasSum_def HistogramDataPoint_HasMin_def HistogramDataPoint_HasMax_def]
  have 1: "decodes HistogramDataPoint_field ((if HistogramDataPoint_HasMax m then fixed_bytes [0x61] 8 (hp_Max m) else []))
      HistogramDataPoint_zero
      (HistogramDataPoint_zero\<lparr>hp_Max := hp_Max m, hp_metadata := keep_bits 4 (hp_metadata m)\<rparr>)"
    by (rule decodes_presence [where fn = 12 and upd = "\<lambda>v. HistogramDataPoint_SetMax v HistogramDataPoint_zero"]) (simp_all add: HistogramDataPoint_field_def HistogramDataPoint_zero_def presence_bits pres HistogramDataPoint_SetMax_def HistogramDataPoint_HasMax_def)
  have 2: "decodes HistogramDataPoint_field ((if HistogramDataPoint_HasMin m then fixed_bytes [0x59] 8 (hp_Min m) else []))
      (HistogramDataPoint_zero\<lparr>hp_Max := hp_Max m, hp_metadata := keep_bits 4 (hp_metadata m)\<rparr>)
      (HistogramDataPoint_zero\<lparr>hp_Max := hp_Max m, hp_Min := hp_Min m, hp_metadata := keep_bits 6 (hp_metadata m)\<rparr>)"
    by (rule decodes_presence [where fn = 11 and upd = "\<lambda>v. HistogramDataPoint_SetMin v (HistogramDataPoint_zero\<lparr>hp_Max := hp_Max m, hp_metadata := keep_bits 4 (hp_metadata m)\<rparr>)"]) (simp_all add: HistogramDataPoint_field_def HistogramDataPoint_zero_def presence_bits pres HistogramDataPoint_SetMin_def HistogramDataPoint_HasMin_def)
  have 3: "decodes HistogramDataPoint_field ((if hp_Flags m \<noteq> 0 then varint_field_bytes [0x50] (ucast (hp_Flags m)) else []))
      (HistogramDataPoint_zero\<lparr>hp_Max := hp_Max m, hp_Min := hp_Min m, hp_metadata := keep_bits 6 (hp_metadata m)\<rparr>)
      (HistogramDataPoint_zero\<lparr>hp_Max := hp_Max m, hp_Min := hp_Min m, hp_metadata := keep_bits 6 (hp_metadata m), hp_Flags := hp_Flags m\<rparr>)"
    by (rule decodes_opt_varint [where fn = 10 and enc = ucast and dec = ucast and upd = "\<lambda>v. HistogramDataPoint_zero\<lparr>hp_Max := hp_Max m, hp_Min := hp_Min m, hp_metadata := keep_bits 6 (hp_metadata m), hp_Flags := v\<rparr>"]) (simp_all add: HistogramDataPoint_field_def HistogramDataPoint_zero_def ucast_ucast_32)
  have 4: "decodes HistogramDataPoint_field (concat (map (\<lambda>v. string_bytes [0x42] (Exemplar_bytes v)) (hp_Exemplars m)))
      (HistogramDataPoint_zero\<lparr>hp_Max := hp_Max m, hp_Min := hp_Min m, hp_metadata := keep_bits 6 (hp_metadata m), hp_Flags := hp_Flags m\<rparr>)
      (HistogramDataPoint_zero\<lparr>hp_Max := hp_Max m, hp_Min := hp_Min m, hp_metadata := keep_bits 6 (hp_metadata m), hp_Flags := hp_Flags m, hp_Exemplars := hp_Exemplars m\<rparr>)"
    by (rule exemplar.decodes_repeated_message [where fn = 8 and upd = "\<lambda>v. HistogramDataPoint_zero\<lparr>hp_Max := hp_Max m, hp_Min := hp_Min m, hp_metadata := keep_bits 6 (hp_metadata m), hp_Flags := hp_Flags m, hp_Exemplars := v\<rparr>"]) (simp_all add: HistogramDataPoint_field_def HistogramDataPoint_zero_def wf)
  have 5: "decodes HistogramDataPoint_field ((if length (hp_ExplicitBounds m) > 0 then string_bytes [0x3a] (packed_fixed64s (hp_ExplicitBounds m)) else []))
      (HistogramDataPoint_zero\<lparr>hp_Max := hp_Max m, hp_Min := hp_Min m, hp_metadata := keep_bits 6 (hp_metadata m), hp_Flags := hp_Flags m, hp_Exemplars := hp_Exemplars m\<rparr>)
      (HistogramDataPoint_zero\<lparr>hp_Max := hp_Max m, hp_Min := hp_Min m, hp_metadata := keep_bits 6 (hp_metadata m), hp_Flags := hp_Flags m, hp_Exemplars := hp_Exemplars m, hp_ExplicitBounds := hp_ExplicitBounds m\<rparr>)"
    by (rule decodes_packed_fixed64 [where fn = 7 and upd = "\<lambda>v. HistogramDataPoint_zero\<lparr>hp_Max := hp_Max m, hp_Min := hp_Min m, hp_metadata := keep_bits 6 (hp_metadata m), hp_Flags := hp_Flags m, hp_Exemplars := hp_Exemplars m, hp_ExplicitBounds := v\<rparr>"]) (simp_all add: HistogramDataPoint_field_def HistogramDataPoint_zero_def)
  have 6: "decodes HistogramDataPoint_field ((if length (hp_BucketCounts m) > 0 then string_bytes [0x32] (packed_fixed64s (hp_BucketCounts m)) else []))
      (HistogramDataPoint_zero\<lparr>hp_Max := hp_Max m, hp_Min := hp_Min m, hp_metadata := keep_bits 6 (hp_metadata m), hp_Flags := hp_Flags m, hp_Exemplars := hp_Exemplars m, hp_ExplicitBounds := hp_ExplicitBounds m\<rparr>)
      (HistogramDataPoint_zero\<lparr>hp_Max := hp_Max m, hp_Min := hp_Min m, hp_metadata := keep_bits 6 (hp_metadata m), hp_Flags := hp_Flags m, hp_Exemplars := hp_Exemplars m, hp_ExplicitBounds := hp_ExplicitBounds m, hp_BucketCounts := hp_BucketCounts m\<rparr>)"
    by (rule decodes_packed_fixed64 [where fn = 6 and upd = "\<lambda>v. HistogramDataPoint_zero\<lparr>hp_Max := hp_Max m, hp_Min := hp_Min m, hp_metadata := keep_bits 6 (hp_metadata m), hp_Flags := hp_Flags m, hp_Exemplars := hp_Exemplars m, hp_ExplicitBounds := hp_ExplicitBounds m, hp_BucketCounts := v\<rparr>"]) (simp_all add: HistogramDataPoint_field_def HistogramDataPoint_zero_def)
  have 7: "decodes HistogramDataPoint_field ((if HistogramDataPoint_HasSum m then fixed_bytes [0x29] 8 (hp_Sum m) else []))
      (HistogramDataPoint_zero\<lparr>hp_Max := hp_Max m, hp_Min := hp_Min m, hp_metadata := keep_bits 6 (hp_metadata m), hp_Flags := hp_Flags m, hp_Exemplars := hp_Exemplars m, hp_ExplicitBounds := hp_ExplicitBounds m, hp_BucketCounts := hp_BucketCounts m\<rparr>)
      (HistogramDataPoint_zero\<lparr>hp_Max := hp_Max m, hp_Min := hp_Min m, hp_Flags := hp_Flags m, hp_Exemplars := hp_Exemplars m, hp_ExplicitBounds := hp_ExplicitBounds m, hp_BucketCounts := hp_BucketCounts m, hp_Sum := hp_Sum m, hp_metadata := keep_bits 7 (hp_metadata m)\<rparr>)"
    by (rule decodes_presence [where fn = 5 and upd = "\<lambda>v. HistogramDataPoint_SetSum v (HistogramDataPoint_zero\<lparr>hp_Max := hp_Max m, hp_Min := hp_Min m, hp_metadata := keep_bits 6 (hp_metadata m), hp_Flags := hp_Flags m, hp_Exemplars := hp_Exemplars m, hp_ExplicitBounds := hp_ExplicitBounds m, hp_BucketCounts := hp_BucketCounts m\<rparr>)"]) (simp_all add: HistogramDataPoint_field_def HistogramDataPoint_zero_def presence_bits pres HistogramDataPoint_SetSum_def HistogramDataPoint_HasSum_def)
  have 8: "decodes HistogramDataPoint_field ((if hp_Count m \<noteq> 0 then fixed_bytes [0x21] 8 (hp_Count m) else []))
      (HistogramDataPoint_zero\<lparr>hp_Max := hp_Max m, hp_Min := hp_Min m, hp_Flags := hp_Flags m, hp_Exemplars := hp_Exemplars m, hp_ExplicitBounds := hp_ExplicitBounds m, hp_BucketCounts := hp_BucketCounts m, hp_Sum := hp_Sum m, hp_metadata := keep_bits 7 (hp_metadata m)\<rparr>)
      (HistogramDataPoint_zero\<lparr>hp_Max := hp_Max m, hp_Min := hp_Min m, hp_Flags := hp_Flags m, hp_Exemplars := hp_Exemplars m, hp_ExplicitBounds := hp_ExplicitBounds m, hp_BucketCounts := hp_BucketCounts m, hp_Sum := hp_Sum m, hp_metadata := keep_bits 7 (hp_metadata m), hp_Count := hp_Count m\<rparr>)"
    by (rule decodes_opt_fixed64 [where fn = 4 and upd = "\<lambda>v. HistogramDataPoint_zero\<lparr>hp_Max := hp_Max m, hp_Min := hp_Min m, hp_Flags := hp_Flags m, hp_Exemplars := hp_Exemplars m, hp_ExplicitBounds := hp_ExplicitBounds m, hp_BucketCounts := hp_BucketCounts m, hp_Sum := hp_Sum m, hp_metadata := keep_bits 7 (hp_metadata m), hp_Count := v\<rparr>"]) (simp_all add: HistogramDataPoint_field_def HistogramDataPoint_zero_def)
  have 9: "decodes HistogramDataPoint_field ((if hp_TimeUnixNano m \<noteq> 0 then fixed_bytes [0x19] 8 (hp_TimeUnixNano m) else []))
      (HistogramDataPoint_zero\<lparr>hp_Max := hp_Max m, hp_Min := hp_Min m, hp_Flags := hp_Flags m, hp_Exemplars := hp_Exemplars m, hp_ExplicitBounds := hp_ExplicitBounds m, hp_BucketCounts := hp_BucketCounts m, hp_Sum := hp_Sum m, hp_metadata := keep_bits 7 (hp_metadata m), hp_Count := hp_Count m\<rparr>)
      (HistogramDataPoint_zero\<lparr>hp_Max := hp_Max m, hp_Min := hp_Min m, hp_Flags := hp_Flags m, hp_Exemplars := hp_Exemplars m, hp_ExplicitBounds := hp_ExplicitBounds m, hp_BucketCounts := hp_BucketCounts m, hp_Sum := hp_Sum m, hp_metadata := keep_bits 7 (hp_metadata m), hp_Count := hp_Count m, hp_TimeUnixNano := hp_TimeUnixNano m\<rparr>)"
    by (rule decodes_opt_fixed64 [where fn = 3 and upd = "\<lambda>v. HistogramDataPoint_zero\<lparr>hp_Max := hp_Max m, hp_Min := hp_Min m, hp_Flags := hp_Flags m, hp_Exemplars := hp_Exemplars m, hp_ExplicitBounds := hp_ExplicitBounds m, hp_BucketCounts := hp_BucketCounts m, hp_Sum := hp_Sum m, hp_metadata := keep_bits 7 (hp_metadata m), hp_Count := hp_Count m, hp_TimeUnixNano := v\<rparr>"]) (simp_all add: HistogramDataPoint_field_def HistogramDataPoint_zero_def)
  have 10: "decodes HistogramDataPoint_field ((if hp_StartTimeUnixNano m \<noteq> 0 then fixed_bytes [0x11] 8 (hp_StartTimeUnixNano m) else []))
      (HistogramDataPoint_zero\<lparr>hp_Max := hp_Max m, hp_Min := hp_Min m, hp_Flags := hp_Flags m, hp_Exemplars := hp_Exemplars m, hp_ExplicitBounds := hp_ExplicitBounds m, hp_BucketCounts := hp_BucketCounts m, hp_Sum := hp_Sum m, hp_metadata := keep_bits 7 (hp_metadata m), hp_Count := hp_Count m, hp_TimeUnixNano := hp_TimeUnixNano m\<rparr>)
      (HistogramDataPoint_zero\<lparr>hp_Max := hp_Max m, hp_Min := hp_Min m, hp_Flags := hp_Flags m, hp_Exemplars := hp_Exemplars m, hp_ExplicitBounds := hp_ExplicitBounds m, hp_BucketCounts := hp_BucketCounts m, hp_Sum := hp_Sum m, hp_metadata := keep_bits 7 (hp_metadata m), hp_Count := hp_Count m, hp_TimeUnixNano := hp_TimeUnixNano m, hp_StartTimeUnixNano := hp_StartTimeUnixNano m\<rparr>)"
    by (rule decodes_opt_fixed64 [where fn = 2 and upd = "\<lambda>v. HistogramDataPoint_zero\<lparr>hp_Max := hp_Max m, hp_Min := hp_Min m, hp_Flags := hp_Flags m, hp_Exemplars := hp_Exemplars m, hp_ExplicitBounds := hp_ExplicitBounds m, hp_BucketCounts := hp_BucketCounts m, hp_Sum := hp_Sum m, hp_metadata := keep_bits 7 (hp_metadata m), hp_Count := hp_Count m, hp_TimeUnixNano := hp_TimeUnixNano m, hp_StartTimeUnixNano := v\<rparr>"]) (simp_all add: HistogramDataPoint_field_def HistogramDataPoint_zero_def)
  have 11: "decodes HistogramDataPoint_field (concat (map (\<lambda>v. string_bytes [0x4a] (KeyValue_bytes v)) (hp_Attributes m)))
      (HistogramDataPoint_zero\<lparr>hp_Max := hp_Max m, hp_Min := hp_Min m, hp_Flags := hp_Flags m, hp_Exemplars := hp_Exemplars m, hp_ExplicitBounds := hp_ExplicitBounds m, hp_BucketCounts := hp_BucketCounts m, hp_Sum := hp_Sum m, hp_metadata := keep_bits 7 (hp_metadata m), hp_Count := hp_Count m, hp_TimeUnixNano := hp_TimeUnixNano m, hp_StartTimeUnixNano := hp_StartTimeUnixNano m\<rparr>)
      (HistogramDataPoint_zero\<lparr>hp_Max := hp_Max m, hp_Min := hp_Min m, hp_Flags := hp_Flags m, hp_Exemplars := hp_Exemplars m, hp_ExplicitBounds := hp_ExplicitBounds m, hp_BucketCounts := hp_BucketCounts m, hp_Sum := hp_Sum m, hp_metadata := keep_bits 7 (hp_metadata m), hp_Count := hp_Count m, hp_TimeUnixNano := hp_TimeUnixNano m, hp_StartTimeUnixNano := hp_StartTimeUnixNano m, hp_Attributes := hp_Attributes m\<rparr>)"
    by (rule key_value.decodes_repeated_message [where fn = 9 and upd = "\<lambda>v. HistogramDataPoint_zero\<lparr>hp_Max := hp_Max m, hp_Min := hp_Min m, hp_Flags := hp_Flags m, hp_Exemplars := hp_Exemplars m, hp_ExplicitBounds := hp_ExplicitBounds m, hp_BucketCounts := hp_BucketCounts m, hp_Sum := hp_Sum m, hp_metadata := keep_bits 7 (hp_metadata m), hp_Count := hp_Count m, hp_TimeUnixNano := hp_TimeUnixNano m, hp_StartTimeUnixNano := hp_StartTimeUnixNano m, hp_Attributes := v\<rparr>"]) (simp_all add: HistogramDataPoint_field_def HistogramDataPoint_zero_def wf)
  have eq: "(HistogramDataPoint_zero\<lparr>hp_Max := hp_Max m, hp_Min := hp_Min m, hp_Flags := hp_Flags m, hp_Exemplars := hp_Exemplars m, hp_ExplicitBounds := hp_ExplicitBounds m, hp_BucketCounts := hp_BucketCounts m, hp_Sum := hp_Sum m, hp_metadata := keep_bits 7 (hp_metadata m), hp_Count := hp_Count m, hp_TimeUnixNano := hp_TimeUnixNano m, hp_StartTimeUnixNano := hp_StartTimeUnixNano m, hp_Attributes := hp_Attributes m\<rparr>) = m"
    using pres by (cases m) (simp add: HistogramDataPoint_zero_def)
  from decodes_append [OF decodes_append [OF decodes_append [OF decodes_append [OF decodes_append [OF decodes_append [OF decodes_append [OF decodes_append [OF decodes_append [OF decodes_append [OF 1 2] 3] 4] 5] 6] 7] 8] 9] 10] 11]
  show ?thesis unfolding eq HistogramDataPoint_bytes_def .
qed

interpretation histogram_point: proto_message HistogramDataPoint_SizeProto HistogramDataPoint_MarshalProto HistogramDataPoint_UnmarshalProto HistogramDataPoint_zero HistogramDataPoint_bytes HistogramDataPoint_wf
proof unfold_locales
  fix m assume wf: "HistogramDataPoint_wf m"
  then show "HistogramDataPoint_SizeProto m = length (HistogramDataPoint_bytes m)"
    unfolding HistogramDataPoint_SizeProto_def HistogramDataPoint_bytes_def HistogramDataPoint_wf_def
    by (simp add: length_if_Nil field_sizes repeated_string_size  length_packed_varints length_packed_fixed64s Soz_zigzag Sov_1 mult.commute [of _ 8] numeral_2_eq_2 key_value.repeated_size key_value.size exemplar.repeated_size exemplar.size del: length_concat split del: if_split cong: if_cong)
  show "marshals (HistogramDataPoint_MarshalProto m) (HistogramDataPoint_bytes m)"
    unfolding HistogramDataPoint_MarshalProto_def HistogramDataPoint_bytes_def
    by (intro marshals_body emit) (use wf in \<open>simp_all add: HistogramDataPoint_wf_def\<close>)
  show "HistogramDataPoint_UnmarshalProto (HistogramDataPoint_bytes m) HistogramDataPoint_zero = Some (Inr m)" if "valid_buf (HistogramDataPoint_bytes m)"
    unfolding HistogramDataPoint_UnmarshalProto_def by (rule unmarshal_body_decodes [OF HistogramDataPoint_decodes [OF wf] that])
next
  fix buf and m :: HistogramDataPoint
  assume "valid_buf buf"
  then show "unmarshal_ok (HistogramDataPoint_UnmarshalProto buf m)"
    unfolding HistogramDataPoint_UnmarshalProto_def HistogramDataPoint_field_def by (intro unmarshal_body_ok reader_ok) simp_all
qed

section \<open>ExponentialHistogramDataPointBuckets\<close>

record ExponentialHistogramDataPointBuckets =
  eb_Offset :: "32 word"
  eb_BucketCounts :: "u64 list"

definition ExponentialHistogramDataPointBuckets_zero :: ExponentialHistogramDataPointBuckets where
  "ExponentialHistogramDataPointBuckets_zero = \<lparr>eb_Offset = 0, eb_BucketCounts = []\<rparr>"

definition ExponentialHistogramDataPointBuckets_SizeProto :: "ExponentialHistogramDataPointBuckets \<Rightarrow> nat" where
  "ExponentialHistogramDataPointBuckets_SizeProto orig =
     (if eb_Offset orig \<noteq> 0 then 1 + Soz (scast (eb_Offset orig)) else 0)
     + (if length (eb_BucketCounts orig) > 0 then len_size 1 (sum_list (map Sov (eb_BucketCounts orig))) else 0)"

definition ExponentialHistogramDataPointBuckets_MarshalProto :: "ExponentialHistogramDataPointBuckets \<Rightarrow> marshaler" where
  "ExponentialHistogramDataPointBuckets_MarshalProto orig = marshal_body
     ((if eb_Offset orig \<noteq> 0 then varint_block [0x08] (zigzag (eb_Offset orig)) else [])
      @ (if length (eb_BucketCounts orig) > 0 then packed_varint_block [0x12] (eb_BucketCounts orig) else []))"

definition ExponentialHistogramDataPointBuckets_field :: "ExponentialHistogramDataPointBuckets field_reader" where
  "ExponentialHistogramDataPointBuckets_field buf fieldNum wireType pos orig =
     (if fieldNum = 1 then read_varint (\<lambda>num. orig\<lparr>eb_Offset := unzigzag num\<rparr>) buf wireType pos
      else if fieldNum = 2 then read_packed_varint (eb_BucketCounts orig) (\<lambda>vs. orig\<lparr>eb_BucketCounts := vs\<rparr>) buf wireType pos
      else read_unknown orig buf wireType pos)"

definition ExponentialHistogramDataPointBuckets_UnmarshalProto :: "ExponentialHistogramDataPointBuckets unmarshaler" where
  "ExponentialHistogramDataPointBuckets_UnmarshalProto = unmarshal_body ExponentialHistogramDataPointBuckets_field"

definition ExponentialHistogramDataPointBuckets_bytes :: "ExponentialHistogramDataPointBuckets \<Rightarrow> byte list" where
  "ExponentialHistogramDataPointBuckets_bytes orig =
     ((if length (eb_BucketCounts orig) > 0 then string_bytes [0x12] (packed_varints (eb_BucketCounts orig)) else [])
      @ (if eb_Offset orig \<noteq> 0 then varint_field_bytes [0x08] (zigzag (eb_Offset orig)) else []))"

definition ExponentialHistogramDataPointBuckets_wf :: "ExponentialHistogramDataPointBuckets \<Rightarrow> bool" where
  "ExponentialHistogramDataPointBuckets_wf orig \<longleftrightarrow> True"

lemma ExponentialHistogramDataPointBuckets_decodes:
  assumes "ExponentialHistogramDataPointBuckets_wf m"
  shows "decodes ExponentialHistogramDataPointBuckets_field (ExponentialHistogramDataPointBuckets_bytes m) ExponentialHistogramDataPointBuckets_zero m"
proof -
  have 1: "decodes ExponentialHistogramDataPointBuckets_field ((if length (eb_BucketCounts m) > 0 then string_bytes [0x12] (packed_varints (eb_BucketCounts m)) else []))
      ExponentialHistogramDataPointBuckets_zero
      (ExponentialHistogramDataPointBuckets_zero\<lparr>eb_BucketCounts := eb_BucketCounts m\<rparr>)"
    by (rule decodes_packed_varint [where fn = 2 and upd = "\<lambda>v. ExponentialHistogramDataPointBuckets_zero\<lparr>eb_BucketCounts := v\<rparr>"]) (simp_all add: ExponentialHistogramDataPointBuckets_field_def ExponentialHistogramDataPointBuckets_zero_def)
  have 2: "decodes ExponentialHistogramDataPointBuckets_field ((if eb_Offset m \<noteq> 0 then varint_field_bytes [0x08] (zigzag (eb_Offset m)) else []))
      (ExponentialHistogramDataPointBuckets_zero\<lparr>eb_BucketCounts := eb_BucketCounts m\<rparr>)
      (ExponentialHistogramDataPointBuckets_zero\<lparr>eb_BucketCounts := eb_BucketCounts m, eb_Offset := eb_Offset m\<rparr>)"
    by (rule decodes_opt_varint [where fn = 1 and enc = zigzag and dec = unzigzag and upd = "\<lambda>v. ExponentialHistogramDataPointBuckets_zero\<lparr>eb_BucketCounts := eb_BucketCounts m, eb_Offset := v\<rparr>"]) (simp_all add: ExponentialHistogramDataPointBuckets_field_def ExponentialHistogramDataPointBuckets_zero_def)
  have eq: "(ExponentialHistogramDataPointBuckets_zero\<lparr>eb_BucketCounts := eb_BucketCounts m, eb_Offset := eb_Offset m\<rparr>) = m"
    by (cases m) (simp add: ExponentialHistogramDataPointBuckets_zero_def)
  from decodes_append [OF 1 2]
  show ?thesis unfolding eq ExponentialHistogramDataPointBuckets_bytes_def .
qed

interpretation buckets: proto_message ExponentialHistogramDataPointBuckets_SizeProto ExponentialHistogramDataPointBuckets_MarshalProto ExponentialHistogramDataPointBuckets_UnmarshalProto ExponentialHistogramDataPointBuckets_zero ExponentialHistogramDataPointBuckets_bytes ExponentialHistogramDataPointBuckets_wf
proof unfold_locales
  fix m assume wf: "ExponentialHistogramDataPointBuckets_wf m"
  then show "ExponentialHistogramDataPointBuckets_SizeProto m = length (ExponentialHistogramDataPointBuckets_bytes m)"
    unfolding ExponentialHistogramDataPointBuckets_SizeProto_def ExponentialHistogramDataPointBuckets_bytes_def ExponentialHistogramDataPointBuckets_wf_def
    by (simp add: length_if_Nil field_sizes repeated_string_size  length_packed_varints length_packed_fixed64s Soz_zigzag Sov_1 mult.commute [of _ 8] numeral_2_eq_2  del: length_concat split del: if_split cong: if_cong)
  show "marshals (ExponentialHistogramDataPointBuckets_MarshalProto m) (ExponentialHistogramDataPointBuckets_bytes m)"
    unfolding ExponentialHistogramDataPointBuckets_MarshalProto_def ExponentialHistogramDataPointBuckets_bytes_def
    by (intro marshals_body emit)
  show "ExponentialHistogramDataPointBuckets_UnmarshalProto (ExponentialHistogramDataPointBuckets_bytes m) ExponentialHistogramDataPointBuckets_zero = Some (Inr m)" if "valid_buf (ExponentialHistogramDataPointBuckets_bytes m)"
    unfolding ExponentialHistogramDataPointBuckets_UnmarshalProto_def by (rule unmarshal_body_decodes [OF ExponentialHistogramDataPointBuckets_decodes [OF wf] that])
next
  fix buf and m :: ExponentialHistogramDataPointBuckets
  assume "valid_buf buf"
  then show "unmarshal_ok (ExponentialHistogramDataPointBuckets_UnmarshalProto buf m)"
    unfolding ExponentialHistogramDataPointBuckets_UnmarshalProto_def ExponentialHistogramDataPointBuckets_field_def by (intro unmarshal_body_ok reader_ok) simp_all
qed

section \<open>ExponentialHistogramDataPoint\<close>

record ExponentialHistogramDataPoint =
  ep_Attributes :: "KeyValue list"
  ep_StartTimeUnixNano :: u64
  ep_TimeUnixNano :: u64
  ep_Count :: u64
  ep_Sum :: u64
  ep_Scale :: "32 word"
  ep_ZeroCount :: u64
  ep_Positive :: ExponentialHistogramDataPointBuckets
  ep_Negative :: ExponentialHistogramDataPointBuckets
  ep_Flags :: "32 word"
  ep_Exemplars :: "Exemplar list"
  ep_Min :: u64
  ep_Max :: u64
  ep_ZeroThreshold :: u64
  ep_metadata :: u64

definition ExponentialHistogramDataPoint_zero :: ExponentialHistogramDataPoint where
  "ExponentialHistogramDataPoint_zero = \<lparr>ep_Attributes = [], ep_StartTimeUnixNano = 0, ep_TimeUnixNano = 0, ep_Count = 0, ep_Sum = 0, ep_Scale = 0, ep_ZeroCount = 0, ep_Positive = ExponentialHistogramDataPointBuckets_zero, ep_Negative = ExponentialHistogramDataPointBuckets_zero, ep_Flags = 0, ep_Exemplars = [], ep_Min = 0, ep_Max = 0, ep_ZeroThreshold = 0, ep_metadata = 0\<rparr>"

definition ExponentialHistogramDataPoint_SetSum :: "u64 \<Rightarrow> ExponentialHistogramDataPoint \<Rightarrow> ExponentialHistogramDataPoint" where
  "ExponentialHistogramDataPoint_SetSum value m = m\<lparr>ep_Sum := value, ep_metadata := add_bit 1 (ep_metadata m)\<rparr>"

definition ExponentialHistogramDataPoint_RemoveSum :: "ExponentialHistogramDataPoint \<Rightarrow> ExponentialHistogramDataPoint" where
  "ExponentialHistogramDataPoint_RemoveSum m = m\<lparr>ep_Sum := 0, ep_metadata := del_bit 1 (ep_metadata m)\<rparr>"

definition ExponentialHistogramDataPoint_HasSum :: "ExponentialHistogramDataPoint \<Rightarrow> bool" where
  "ExponentialHistogramDataPoint_HasSum m \<longleftrightarrow> has_bit 1 (ep_metadata m)"

definition ExponentialHistogramDataPoint_SetMin :: "u64 \<Rightarrow> ExponentialHistogramDataPoint \<Rightarrow> ExponentialHistogramDataPoint" where
  "ExponentialHistogramDataPoint_SetMin value m = m\<lparr>ep_Min := value, ep_metadata := add_bit 2 (ep_metadata m)\<rparr>"

definition ExponentialHistogramDataPoint_RemoveMin :: "ExponentialHistogramDataPoint \<Rightarrow> ExponentialHistogramDataPoint" where
  "ExponentialHistogramDataPoint_RemoveMin m = m\<lparr>ep_Min := 0, ep_metadata := del_bit 2 (ep_metadata m)\<rparr>"

definition ExponentialHistogramDataPoint_HasMin :: "ExponentialHistogramDataPoint \<Rightarrow> bool" where
  "ExponentialHistogramDataPoint_HasMin m \<longleftrightarrow> has_bit 2 (ep_metadata m)"

definition ExponentialHistogramDataPoint_SetMax :: "u64 \<Rightarrow> ExponentialHistogramDataPoint \<Rightarrow> ExponentialHistogramDataPoint" where
  "ExponentialHistogramDataPoint_SetMax value m = m\<lparr>ep_Max := value, ep_metadata := add_bit 4 (ep_metadata m)\<rparr>"

definition ExponentialHistogramDataPoint_RemoveMax :: "ExponentialHistogramDataPoint \<Rightarrow> ExponentialHistogramDataPoint" where
  "ExponentialHistogramDataPoint_RemoveMax m = m\<lparr>ep_Max := 0, ep_metadata := del_bit 4 (ep_metadata m)\<rparr>"

definition ExponentialHistogramDataPoint_HasMax :: "ExponentialHistogramDataPoint \<Rightarrow> bool" where
  "ExponentialHistogramDataPoint_HasMax m \<longleftrightarrow> has_bit 4 (ep_metadata m)"

text \<open>The bits of a message the setters of its optional fields built: an absent value is zero.\<close>

definition ExponentialHistogramDataPoint_presence :: "ExponentialHistogramDataPoint \<Rightarrow> bool" where
  "ExponentialHistogramDataPoint_presence m \<longleftrightarrow> keep_bits 7 (ep_metadata m) = ep_metadata m \<and>
     (\<not> ExponentialHistogramDataPoint_HasSum m \<longrightarrow> ep_Sum m = 0) \<and>
     (\<not> ExponentialHistogramDataPoint_HasMin m \<longrightarrow> ep_Min m = 0) \<and>
     (\<not> ExponentialHistogramDataPoint_HasMax m \<longrightarrow> ep_Max m = 0)"

lemma ExponentialHistogramDataPoint_setters_presence:
  "ExponentialHistogramDataPoint_presence m \<Longrightarrow> ExponentialHistogramDataPoint_presence (ExponentialHistogramDataPoint_SetSum v m)"
  "ExponentialHistogramDataPoint_presence m \<Longrightarrow> ExponentialHistogramDataPoint_presence (ExponentialHistogramDataPoint_RemoveSum m)"
  "ExponentialHistogramDataPoint_presence m \<Longrightarrow> ExponentialHistogramDataPoint_presence (ExponentialHistogramDataPoint_SetMin v m)"
  "ExponentialHistogramDataPoint_presence m \<Longrightarrow> ExponentialHistogramDataPoint_presence (ExponentialHistogramDataPoint_RemoveMin m)"
  "ExponentialHistogramDataPoint_presence m \<Longrightarrow> ExponentialHistogramDataPoint_presence (ExponentialHistogramDataPoint_SetMax v m)"
  "ExponentialHistogramDataPoint_presence m \<Longrightarrow> ExponentialHistogramDataPoint_presence (ExponentialHistogramDataPoint_RemoveMax m)"
  by (simp_all add: ExponentialHistogramDataPoint_presence_def ExponentialHistogramDataPoint_SetSum_def ExponentialHistogramDataPoint_RemoveSum_def ExponentialHistogramDataPoint_HasSum_def ExponentialHistogramDataPoint_SetMin_def ExponentialHistogramDataPoint_RemoveMin_def ExponentialHistogramDataPoint_HasMin_def ExponentialHistogramDataPoint_SetMax_def ExponentialHistogramDataPoint_RemoveMax_def ExponentialHistogramDataPoint_HasMax_def presence_updates keep_bits_updates keep_bits_masks bit_presence_masks)

definition ExponentialHistogramDataPoint_SizeProto :: "ExponentialHistogramDataPoint \<Rightarrow> nat" where
  "ExponentialHistogramDataPoint_SizeProto orig =
     sum_list (map (\<lambda>v. len_size 1 (KeyValue_SizeProto v)) (ep_Attributes orig))
     + (if ep_StartTimeUnixNano orig \<noteq> 0 then 9 else 0)
     + (if ep_TimeUnixNano orig \<noteq> 0 then 9 else 0)
     + (if ep_Count orig \<noteq> 0 then 9 else 0)
     + (if ExponentialHistogramDataPoint_HasSum orig then 9 else 0)
     + (if ep_Scale orig \<noteq> 0 then 1 + Soz (scast (ep_Scale orig)) else 0)
     + (if ep_ZeroCount orig \<noteq> 0 then 9 else 0)
     + len_size 1 (ExponentialHistogramDataPointBuckets_SizeProto (ep_Positive orig))
     + len_size 1 (ExponentialHistogramDataPointBuckets_SizeProto (ep_Negative orig))
     + (if ep_Flags orig \<noteq> 0 then 1 + Sov (ucast (ep_Flags orig)) else 0)
     + sum_list (map (\<lambda>v. len_size 1 (Exemplar_SizeProto v)) (ep_Exemplars orig))
     + (if ExponentialHistogramDataPoint_HasMin orig then 9 else 0)
     + (if ExponentialHistogramDataPoint_HasMax orig then 9 else 0)
     + (if nonzero_float (ep_ZeroThreshold orig) then 9 else 0)"

definition ExponentialHistogramDataPoint_MarshalProto :: "ExponentialHistogramDataPoint \<Rightarrow> marshaler" where
  "ExponentialHistogramDataPoint_MarshalProto orig = marshal_body
     (concat (map (\<lambda>v. message_block [0x0a] (KeyValue_MarshalProto v)) (rev (ep_Attributes orig)))
      @ (if ep_StartTimeUnixNano orig \<noteq> 0 then fixed_block [0x11] 8 (ep_StartTimeUnixNano orig) else [])
      @ (if ep_TimeUnixNano orig \<noteq> 0 then fixed_block [0x19] 8 (ep_TimeUnixNano orig) else [])
      @ (if ep_Count orig \<noteq> 0 then fixed_block [0x21] 8 (ep_Count orig) else [])
      @ (if ExponentialHistogramDataPoint_HasSum orig then fixed_block [0x29] 8 (ep_Sum orig) else [])
      @ (if ep_Scale orig \<noteq> 0 then varint_block [0x30] (zigzag (ep_Scale orig)) else [])
      @ (if ep_ZeroCount orig \<noteq> 0 then fixed_block [0x39] 8 (ep_ZeroCount orig) else [])
      @ message_block [0x42] (ExponentialHistogramDataPointBuckets_MarshalProto (ep_Positive orig))
      @ message_block [0x4a] (ExponentialHistogramDataPointBuckets_MarshalProto (ep_Negative orig))
      @ (if ep_Flags orig \<noteq> 0 then varint_block [0x50] (ucast (ep_Flags orig)) else [])
      @ concat (map (\<lambda>v. message_block [0x5a] (Exemplar_MarshalProto v)) (rev (ep_Exemplars orig)))
      @ (if ExponentialHistogramDataPoint_HasMin orig then fixed_block [0x61] 8 (ep_Min orig) else [])
      @ (if ExponentialHistogramDataPoint_HasMax orig then fixed_block [0x69] 8 (ep_Max orig) else [])
      @ (if nonzero_float (ep_ZeroThreshold orig) then fixed_block [0x71] 8 (ep_ZeroThreshold orig) else []))"

definition ExponentialHistogramDataPoint_field :: "ExponentialHistogramDataPoint field_reader" where
  "ExponentialHistogramDataPoint_field buf fieldNum wireType pos orig =
     (if fieldNum = 1 then read_message KeyValue_UnmarshalProto KeyValue_zero (\<lambda>v. orig\<lparr>ep_Attributes := ep_Attributes orig @ [v]\<rparr>) buf wireType pos
      else if fieldNum = 2 then read_i64 (\<lambda>num. orig\<lparr>ep_StartTimeUnixNano := num\<rparr>) buf wireType pos
      else if fieldNum = 3 then read_i64 (\<lambda>num. orig\<lparr>ep_TimeUnixNano := num\<rparr>) buf wireType pos
      else if fieldNum = 4 then read_i64 (\<lambda>num. orig\<lparr>ep_Count := num\<rparr>) buf wireType pos
      else if fieldNum = 5 then read_i64 (\<lambda>num. ExponentialHistogramDataPoint_SetSum num orig) buf wireType pos
      else if fieldNum = 6 then read_varint (\<lambda>num. orig\<lparr>ep_Scale := unzigzag num\<rparr>) buf wireType pos
      else if fieldNum = 7 then read_i64 (\<lambda>num. orig\<lparr>ep_ZeroCount := num\<rparr>) buf wireType pos
      else if fieldNum = 8 then read_message ExponentialHistogramDataPointBuckets_UnmarshalProto (ep_Positive orig) (\<lambda>v. orig\<lparr>ep_Positive := v\<rparr>) buf wireType pos
      else if fieldNum = 9 then read_message ExponentialHistogramDataPointBuckets_UnmarshalProto (ep_Negative orig) (\<lambda>v. orig\<lparr>ep_Negative := v\<rparr>) buf wireType pos
      else if fieldNum = 10 then read_varint (\<lambda>num. orig\<lparr>ep_Flags := ucast num\<rparr>) buf wireType pos
      else if fieldNum = 11 then read_message Exemplar_UnmarshalProto Exemplar_zero (\<lambda>v. orig\<lparr>ep_Exemplars := ep_Exemplars orig @ [v]\<rparr>) buf wireType pos
      else if fieldNum = 12 then read_i64 (\<lambda>num. ExponentialHistogramDataPoint_SetMin num orig) buf wireType pos
      else if fieldNum = 13 then read_i64 (\<lambda>num. ExponentialHistogramDataPoint_SetMax num orig) buf wireType pos
      else if fieldNum = 14 then read_i64 (\<lambda>num. orig\<lparr>ep_ZeroThreshold := num\<rparr>) buf wireType pos
      else read_unknown orig buf wireType pos)"

definition ExponentialHistogramDataPoint_UnmarshalProto :: "ExponentialHistogramDataPoint unmarshaler" where
  "ExponentialHistogramDataPoint_UnmarshalProto = unmarshal_body ExponentialHistogramDataPoint_field"

definition ExponentialHistogramDataPoint_bytes :: "ExponentialHistogramDataPoint \<Rightarrow> byte list" where
  "ExponentialHistogramDataPoint_bytes orig =
     ((((((((((((((if nonzero_float (ep_ZeroThreshold orig) then fixed_bytes [0x71] 8 (ep_ZeroThreshold orig) else [])
      @ (if ExponentialHistogramDataPoint_HasMax orig then fixed_bytes [0x69] 8 (ep_Max orig) else []))
      @ (if ExponentialHistogramDataPoint_HasMin orig then fixed_bytes [0x61] 8 (ep_Min orig) else []))
      @ concat (map (\<lambda>v. string_bytes [0x5a] (Exemplar_bytes v)) (ep_Exemplars orig)))
      @ (if ep_Flags orig \<noteq> 0 then varint_field_bytes [0x50] (ucast (ep_Flags orig)) else []))
      @ string_bytes [0x4a] (ExponentialHistogramDataPointBuckets_bytes (ep_Negative orig)))
      @ string_bytes [0x42] (ExponentialHistogramDataPointBuckets_bytes (ep_Positive orig)))
      @ (if ep_ZeroCount orig \<noteq> 0 then fixed_bytes [0x39] 8 (ep_ZeroCount orig) else []))
      @ (if ep_Scale orig \<noteq> 0 then varint_field_bytes [0x30] (zigzag (ep_Scale orig)) else []))
      @ (if ExponentialHistogramDataPoint_HasSum orig then fixed_bytes [0x29] 8 (ep_Sum orig) else []))
      @ (if ep_Count orig \<noteq> 0 then fixed_bytes [0x21] 8 (ep_Count orig) else []))
      @ (if ep_TimeUnixNano orig \<noteq> 0 then fixed_bytes [0x19] 8 (ep_TimeUnixNano orig) else []))
      @ (if ep_StartTimeUnixNano orig \<noteq> 0 then fixed_bytes [0x11] 8 (ep_StartTimeUnixNano orig) else []))
      @ concat (map (\<lambda>v. string_bytes [0x0a] (KeyValue_bytes v)) (ep_Attributes orig)))"

definition ExponentialHistogramDataPoint_wf :: "ExponentialHistogramDataPoint \<Rightarrow> bool" where
  "ExponentialHistogramDataPoint_wf orig \<longleftrightarrow> list_all KeyValue_wf (ep_Attributes orig) \<and> ExponentialHistogramDataPointBuckets_wf (ep_Positive orig) \<and> ExponentialHistogramDataPointBuckets_wf (ep_Negative orig) \<and> list_all Exemplar_wf (ep_Exemplars orig) \<and> ep_ZeroThreshold orig \<noteq> 0x8000000000000000 \<and> ExponentialHistogramDataPoint_presence orig"

lemma ExponentialHistogramDataPoint_decodes:
  assumes "ExponentialHistogramDataPoint_wf m"
  shows "decodes ExponentialHistogramDataPoint_field (ExponentialHistogramDataPoint_bytes m) ExponentialHistogramDataPoint_zero m"
proof -
  note wf = assms [unfolded ExponentialHistogramDataPoint_wf_def]
  from assms have pres: "ExponentialHistogramDataPoint_presence m" by (simp add: ExponentialHistogramDataPoint_wf_def)
  note pres = this [unfolded ExponentialHistogramDataPoint_presence_def ExponentialHistogramDataPoint_HasSum_def ExponentialHistogramDataPoint_HasMin_def ExponentialHistogramDataPoint_HasMax_def]
  have 1: "decodes ExponentialHistogramDataPoint_field ((if nonzero_float (ep_ZeroThreshold m) then fixed_bytes [0x71] 8 (ep_ZeroThreshold m) else []))
      ExponentialHistogramDataPoint_zero
      (ExponentialHistogramDataPoint_zero\<lparr>ep_ZeroThreshold := ep_ZeroThreshold m\<rparr>)"
    by (rule decodes_float [where fn = 14 and upd = "\<lambda>v. ExponentialHistogramDataPoint_zero\<lparr>ep_ZeroThreshold := v\<rparr>"]) (simp_all add: ExponentialHistogramDataPoint_field_def ExponentialHistogramDataPoint_zero_def wf)
  have 2: "decodes ExponentialHistogramDataPoint_field ((if ExponentialHistogramDataPoint_HasMax m then fixed_bytes [0x69] 8 (ep_Max m) else []))
      (ExponentialHistogramDataPoint_zero\<lparr>ep_ZeroThreshold := ep_ZeroThreshold m\<rparr>)
      (ExponentialHistogramDataPoint_zero\<lparr>ep_ZeroThreshold := ep_ZeroThreshold m, ep_Max := ep_Max m, ep_metadata := keep_bits 4 (ep_metadata m)\<rparr>)"
    by (rule decodes_presence [where fn = 13 and upd = "\<lambda>v. ExponentialHistogramDataPoint_SetMax v (ExponentialHistogramDataPoint_zero\<lparr>ep_ZeroThreshold := ep_ZeroThreshold m\<rparr>)"]) (simp_all add: ExponentialHistogramDataPoint_field_def ExponentialHistogramDataPoint_zero_def presence_bits pres ExponentialHistogramDataPoint_SetMax_def ExponentialHistogramDataPoint_HasMax_def)
  have 3: "decodes ExponentialHistogramDataPoint_field ((if ExponentialHistogramDataPoint_HasMin m then fixed_bytes [0x61] 8 (ep_Min m) else []))
      (ExponentialHistogramDataPoint_zero\<lparr>ep_ZeroThreshold := ep_ZeroThreshold m, ep_Max := ep_Max m, ep_metadata := keep_bits 4 (ep_metadata m)\<rparr>)
      (ExponentialHistogramDataPoint_zero\<lparr>ep_ZeroThreshold := ep_ZeroThreshold m, ep_Max := ep_Max m, ep_Min := ep_Min m, ep_metadata := keep_bits 6 (ep_metadata m)\<rparr>)"
    by (rule decodes_presence [where fn = 12 and upd = "\<lambda>v. ExponentialHistogramDataPoint_SetMin v (ExponentialHistogramDataPoint_zero\<lparr>ep_ZeroThreshold := ep_ZeroThreshold m, ep_Max := ep_Max m, ep_metadata := keep_bits 4 (ep_metadata m)\<rparr>)"]) (simp_all add: ExponentialHistogramDataPoint_field_def ExponentialHistogramDataPoint_zero_def presence_bits pres ExponentialHistogramDataPoint_SetMin_def ExponentialHistogramDataPoint_HasMin_def)
  have 4: "decodes ExponentialHistogramDataPoint_field (concat (map (\<lambda>v. string_bytes [0x5a] (Exemplar_bytes v)) (ep_Exemplars m)))
      (ExponentialHistogramDataPoint_zero\<lparr>ep_ZeroThreshold := ep_ZeroThreshold m, ep_Max := ep_Max m, ep_Min := ep_Min m, ep_metadata := keep_bits 6 (ep_metadata m)\<rparr>)
      (ExponentialHistogramDataPoint_zero\<lparr>ep_ZeroThreshold := ep_ZeroThreshold m, ep_Max := ep_Max m, ep_Min := ep_Min m, ep_metadata := keep_bits 6 (ep_metadata m), ep_Exemplars := ep_Exemplars m\<rparr>)"
    by (rule exemplar.decodes_repeated_message [where fn = 11 and upd = "\<lambda>v. ExponentialHistogramDataPoint_zero\<lparr>ep_ZeroThreshold := ep_ZeroThreshold m, ep_Max := ep_Max m, ep_Min := ep_Min m, ep_metadata := keep_bits 6 (ep_metadata m), ep_Exemplars := v\<rparr>"]) (simp_all add: ExponentialHistogramDataPoint_field_def ExponentialHistogramDataPoint_zero_def wf)
  have 5: "decodes ExponentialHistogramDataPoint_field ((if ep_Flags m \<noteq> 0 then varint_field_bytes [0x50] (ucast (ep_Flags m)) else []))
      (ExponentialHistogramDataPoint_zero\<lparr>ep_ZeroThreshold := ep_ZeroThreshold m, ep_Max := ep_Max m, ep_Min := ep_Min m, ep_metadata := keep_bits 6 (ep_metadata m), ep_Exemplars := ep_Exemplars m\<rparr>)
      (ExponentialHistogramDataPoint_zero\<lparr>ep_ZeroThreshold := ep_ZeroThreshold m, ep_Max := ep_Max m, ep_Min := ep_Min m, ep_metadata := keep_bits 6 (ep_metadata m), ep_Exemplars := ep_Exemplars m, ep_Flags := ep_Flags m\<rparr>)"
    by (rule decodes_opt_varint [where fn = 10 and enc = ucast and dec = ucast and upd = "\<lambda>v. ExponentialHistogramDataPoint_zero\<lparr>ep_ZeroThreshold := ep_ZeroThreshold m, ep_Max := ep_Max m, ep_Min := ep_Min m, ep_metadata := keep_bits 6 (ep_metadata m), ep_Exemplars := ep_Exemplars m, ep_Flags := v\<rparr>"]) (simp_all add: ExponentialHistogramDataPoint_field_def ExponentialHistogramDataPoint_zero_def ucast_ucast_32)
  have 6: "decodes ExponentialHistogramDataPoint_field (string_bytes [0x4a] (ExponentialHistogramDataPointBuckets_bytes (ep_Negative m)))
      (ExponentialHistogramDataPoint_zero\<lparr>ep_ZeroThreshold := ep_ZeroThreshold m, ep_Max := ep_Max m, ep_Min := ep_Min m, ep_metadata := keep_bits 6 (ep_metadata m), ep_Exemplars := ep_Exemplars m, ep_Flags := ep_Flags m\<rparr>)
      (ExponentialHistogramDataPoint_zero\<lparr>ep_ZeroThreshold := ep_ZeroThreshold m, ep_Max := ep_Max m, ep_Min := ep_Min m, ep_metadata := keep_bits 6 (ep_metadata m), ep_Exemplars := ep_Exemplars m, ep_Flags := ep_Flags m, ep_Negative := ep_Negative m\<rparr>)"
    by (rule buckets.decodes_message [where fn = 9 and upd = "\<lambda>v. ExponentialHistogramDataPoint_zero\<lparr>ep_ZeroThreshold := ep_ZeroThreshold m, ep_Max := ep_Max m, ep_Min := ep_Min m, ep_metadata := keep_bits 6 (ep_metadata m), ep_Exemplars := ep_Exemplars m, ep_Flags := ep_Flags m, ep_Negative := v\<rparr>"]) (simp_all add: ExponentialHistogramDataPoint_field_def ExponentialHistogramDataPoint_zero_def wf)
  have 7: "decodes ExponentialHistogramDataPoint_field (string_bytes [0x42] (ExponentialHistogramDataPointBuckets_bytes (ep_Positive m)))
      (ExponentialHistogramDataPoint_zero\<lparr>ep_ZeroThreshold := ep_ZeroThreshold m, ep_Max := ep_Max m, ep_Min := ep_Min m, ep_metadata := keep_bits 6 (ep_metadata m), ep_Exemplars := ep_Exemplars m, ep_Flags := ep_Flags m, ep_Negative := ep_Negative m\<rparr>)
      (ExponentialHistogramDataPoint_zero\<lparr>ep_ZeroThreshold := ep_ZeroThreshold m, ep_Max := ep_Max m, ep_Min := ep_Min m, ep_metadata := keep_bits 6 (ep_metadata m), ep_Exemplars := ep_Exemplars m, ep_Flags := ep_Flags m, ep_Negative := ep_Negative m, ep_Positive := ep_Positive m\<rparr>)"
    by (rule buckets.decodes_message [where fn = 8 and upd = "\<lambda>v. ExponentialHistogramDataPoint_zero\<lparr>ep_ZeroThreshold := ep_ZeroThreshold m, ep_Max := ep_Max m, ep_Min := ep_Min m, ep_metadata := keep_bits 6 (ep_metadata m), ep_Exemplars := ep_Exemplars m, ep_Flags := ep_Flags m, ep_Negative := ep_Negative m, ep_Positive := v\<rparr>"]) (simp_all add: ExponentialHistogramDataPoint_field_def ExponentialHistogramDataPoint_zero_def wf)
  have 8: "decodes ExponentialHistogramDataPoint_field ((if ep_ZeroCount m \<noteq> 0 then fixed_bytes [0x39] 8 (ep_ZeroCount m) else []))
      (ExponentialHistogramDataPoint_zero\<lparr>ep_ZeroThreshold := ep_ZeroThreshold m, ep_Max := ep_Max m, ep_Min := ep_Min m, ep_metadata := keep_bits 6 (ep_metadata m), ep_Exemplars := ep_Exemplars m, ep_Flags := ep_Flags m, ep_Negative := ep_Negative m, ep_Positive := ep_Positive m\<rparr>)
      (ExponentialHistogramDataPoint_zero\<lparr>ep_ZeroThreshold := ep_ZeroThreshold m, ep_Max := ep_Max m, ep_Min := ep_Min m, ep_metadata := keep_bits 6 (ep_metadata m), ep_Exemplars := ep_Exemplars m, ep_Flags := ep_Flags m, ep_Negative := ep_Negative m, ep_Positive := ep_Positive m, ep_ZeroCount := ep_ZeroCount m\<rparr>)"
    by (rule decodes_opt_fixed64 [where fn = 7 and upd = "\<lambda>v. ExponentialHistogramDataPoint_zero\<lparr>ep_ZeroThreshold := ep_ZeroThreshold m, ep_Max := ep_Max m, ep_Min := ep_Min m, ep_metadata := keep_bits 6 (ep_metadata m), ep_Exemplars := ep_Exemplars m, ep_Flags := ep_Flags m, ep_Negative := ep_Negative m, ep_Positive := ep_Positive m, ep_ZeroCount := v\<rparr>"]) (simp_all add: ExponentialHistogramDataPoint_field_def ExponentialHistogramDataPoint_zero_def)
  have 9: "decodes ExponentialHistogramDataPoint_field ((if ep_Scale m \<noteq> 0 then varint_field_bytes [0x30] (zigzag (ep_Scale m)) else []))
      (ExponentialHistogramDataPoint_zero\<lparr>ep_ZeroThreshold := ep_ZeroThreshold m, ep_Max := ep_Max m, ep_Min := ep_Min m, ep_metadata := keep_bits 6 (ep_metadata m), ep_Exemplars := ep_Exemplars m, ep_Flags := ep_Flags m, ep_Negative := ep_Negative m, ep_Positive := ep_Positive m, ep_ZeroCount := ep_ZeroCount m\<rparr>)
      (ExponentialHistogramDataPoint_zero\<lparr>ep_ZeroThreshold := ep_ZeroThreshold m, ep_Max := ep_Max m, ep_Min := ep_Min m, ep_metadata := keep_bits 6 (ep_metadata m), ep_Exemplars := ep_Exemplars m, ep_Flags := ep_Flags m, ep_Negative := ep_Negative m, ep_Positive := ep_Positive m, ep_ZeroCount := ep_ZeroCount m, ep_Scale := ep_Scale m\<rparr>)"
    by (rule decodes_opt_varint [where fn = 6 and enc = zigzag and dec = unzigzag and upd = "\<lambda>v. ExponentialHistogramDataPoint_zero\<lparr>ep_ZeroThreshold := ep_ZeroThreshold m, ep_Max := ep_Max m, ep_Min := ep_Min m, ep_metadata := keep_bits 6 (ep_metadata m), ep_Exemplars := ep_Exemplars m, ep_Flags := ep_Flags m, ep_Negative := ep_Negative m, ep_Positive := ep_Positive m, ep_ZeroCount := ep_ZeroCount m, ep_Scale := v\<rparr>"]) (simp_all add: ExponentialHistogramDataPoint_field_def ExponentialHistogramDataPoint_zero_def)
  have 10: "decodes ExponentialHistogramDataPoint_field ((if ExponentialHistogramDataPoint_HasSum m then fixed_bytes [0x29] 8 (ep_Sum m) else []))
      (ExponentialHistogramDataPoint_zero\<lparr>ep_ZeroThreshold := ep_ZeroThreshold m, ep_Max := ep_Max m, ep_Min := ep_Min m, ep_metadata := keep_bits 6 (ep_metadata m), ep_Exemplars := ep_Exemplars m, ep_Flags := ep_Flags m, ep_Negative := ep_Negative m, ep_Positive := ep_Positive m, ep_ZeroCount := ep_ZeroCount m, ep_Scale := ep_Scale m\<rparr>)
      (ExponentialHistogramDataPoint_zero\<lparr>ep_ZeroThreshold := ep_ZeroThreshold m, ep_Max := ep_Max m, ep_Min := ep_Min m, ep_Exemplars := ep_Exemplars m, ep_Flags := ep_Flags m, ep_Negative := ep_Negative m, ep_Positive := ep_Positive m, ep_ZeroCount := ep_ZeroCount m, ep_Scale := ep_Scale m, ep_Sum := ep_Sum m, ep_metadata := keep_bits 7 (ep_metadata m)\<rparr>)"
    by (rule decodes_presence [where fn = 5 and upd = "\<lambda>v. ExponentialHistogramDataPoint_SetSum v (ExponentialHistogramDataPoint_zero\<lparr>ep_ZeroThreshold := ep_ZeroThreshold m, ep_Max := ep_Max m, ep_Min := ep_Min m, ep_metadata := keep_bits 6 (ep_metadata m), ep_Exemplars := ep_Exemplars m, ep_Flags := ep_Flags m, ep_Negative := ep_Negative m, ep_Positive := ep_Positive m, ep_ZeroCount := ep_ZeroCount m, ep_Scale := ep_Scale m\<rparr>)"]) (simp_all add: ExponentialHistogramDataPoint_field_def ExponentialHistogramDataPoint_zero_def presence_bits pres ExponentialHistogramDataPoint_SetSum_def ExponentialHistogramDataPoint_HasSum_def)
  have 11: "decodes ExponentialHistogramDataPoint_field ((if ep_Count m \<noteq> 0 then fixed_bytes [0x21] 8 (ep_Count m) else []))
      (ExponentialHistogramDataPoint_zero\<lparr>ep_ZeroThreshold := ep_ZeroThreshold m, ep_Max := ep_Max m, ep_Min := ep_Min m, ep_Exemplars := ep_Exemplars m, ep_Flags := ep_Flags m, ep_Negative := ep_Negative m, ep_Positive := ep_Positive m, ep_ZeroCount := ep_ZeroCount m, ep_Scale := ep_Scale m, ep_Sum := ep_Sum m, ep_metadata := keep_bits 7 (ep_metadata m)\<rparr>)
      (ExponentialHistogramDataPoint_zero\<lparr>ep_ZeroThreshold := ep_ZeroThreshold m, ep_Max := ep_Max m, ep_Min := ep_Min m, ep_Exemplars := ep_Exemplars m, ep_Flags := ep_Flags m, ep_Negative := ep_Negative m, ep_Positive := ep_Positive m, ep_ZeroCount := ep_ZeroCount m, ep_Scale := ep_Scale m, ep_Sum := ep_Sum m, ep_metadata := keep_bits 7 (ep_metadata m), ep_Count := ep_Count m\<rparr>)"
    by (rule decodes_opt_fixed64 [where fn = 4 and upd = "\<lambda>v. ExponentialHistogramDataPoint_zero\<lparr>ep_ZeroThreshold := ep_ZeroThreshold m, ep_Max := ep_Max m, ep_Min := ep_Min m, ep_Exemplars := ep_Exemplars m, ep_Flags := ep_Flags m, ep_Negative := ep_Negative m, ep_Positive := ep_Positive m, ep_ZeroCount := ep_ZeroCount m, ep_Scale := ep_Scale m, ep_Sum := ep_Sum m, ep_metadata := keep_bits 7 (ep_metadata m), ep_Count := v\<rparr>"]) (simp_all add: ExponentialHistogramDataPoint_field_def ExponentialHistogramDataPoint_zero_def)
  have 12: "decodes ExponentialHistogramDataPoint_field ((if ep_TimeUnixNano m \<noteq> 0 then fixed_bytes [0x19] 8 (ep_TimeUnixNano m) else []))
      (ExponentialHistogramDataPoint_zero\<lparr>ep_ZeroThreshold := ep_ZeroThreshold m, ep_Max := ep_Max m, ep_Min := ep_Min m, ep_Exemplars := ep_Exemplars m, ep_Flags := ep_Flags m, ep_Negative := ep_Negative m, ep_Positive := ep_Positive m, ep_ZeroCount := ep_ZeroCount m, ep_Scale := ep_Scale m, ep_Sum := ep_Sum m, ep_metadata := keep_bits 7 (ep_metadata m), ep_Count := ep_Count m\<rparr>)
      (ExponentialHistogramDataPoint_zero\<lparr>ep_ZeroThreshold := ep_ZeroThreshold m, ep_Max := ep_Max m, ep_Min := ep_Min m, ep_Exemplars := ep_Exemplars m, ep_Flags := ep_Flags m, ep_Negative := ep_Negative m, ep_Positive := ep_Positive m, ep_ZeroCount := ep_ZeroCount m, ep_Scale := ep_Scale m, ep_Sum := ep_Sum m, ep_metadata := keep_bits 7 (ep_metadata m), ep_Count := ep_Count m, ep_TimeUnixNano := ep_TimeUnixNano m\<rparr>)"
    by (rule decodes_opt_fixed64 [where fn = 3 and upd = "\<lambda>v. ExponentialHistogramDataPoint_zero\<lparr>ep_ZeroThreshold := ep_ZeroThreshold m, ep_Max := ep_Max m, ep_Min := ep_Min m, ep_Exemplars := ep_Exemplars m, ep_Flags := ep_Flags m, ep_Negative := ep_Negative m, ep_Positive := ep_Positive m, ep_ZeroCount := ep_ZeroCount m, ep_Scale := ep_Scale m, ep_Sum := ep_Sum m, ep_metadata := keep_bits 7 (ep_metadata m), ep_Count := ep_Count m, ep_TimeUnixNano := v\<rparr>"]) (simp_all add: ExponentialHistogramDataPoint_field_def ExponentialHistogramDataPoint_zero_def)
  have 13: "decodes ExponentialHistogramDataPoint_field ((if ep_StartTimeUnixNano m \<noteq> 0 then fixed_bytes [0x11] 8 (ep_StartTimeUnixNano m) else []))
      (ExponentialHistogramDataPoint_zero\<lparr>ep_ZeroThreshold := ep_ZeroThreshold m, ep_Max := ep_Max m, ep_Min := ep_Min m, ep_Exemplars := ep_Exemplars m, ep_Flags := ep_Flags m, ep_Negative := ep_Negative m, ep_Positive := ep_Positive m, ep_ZeroCount := ep_ZeroCount m, ep_Scale := ep_Scale m, ep_Sum := ep_Sum m, ep_metadata := keep_bits 7 (ep_metadata m), ep_Count := ep_Count m, ep_TimeUnixNano := ep_TimeUnixNano m\<rparr>)
      (ExponentialHistogramDataPoint_zero\<lparr>ep_ZeroThreshold := ep_ZeroThreshold m, ep_Max := ep_Max m, ep_Min := ep_Min m, ep_Exemplars := ep_Exemplars m, ep_Flags := ep_Flags m, ep_Negative := ep_Negative m, ep_Positive := ep_Positive m, ep_ZeroCount := ep_ZeroCount m, ep_Scale := ep_Scale m, ep_Sum := ep_Sum m, ep_metadata := keep_bits 7 (ep_metadata m), ep_Count := ep_Count m, ep_TimeUnixNano := ep_TimeUnixNano m, ep_StartTimeUnixNano := ep_StartTimeUnixNano m\<rparr>)"
    by (rule decodes_opt_fixed64 [where fn = 2 and upd = "\<lambda>v. ExponentialHistogramDataPoint_zero\<lparr>ep_ZeroThreshold := ep_ZeroThreshold m, ep_Max := ep_Max m, ep_Min := ep_Min m, ep_Exemplars := ep_Exemplars m, ep_Flags := ep_Flags m, ep_Negative := ep_Negative m, ep_Positive := ep_Positive m, ep_ZeroCount := ep_ZeroCount m, ep_Scale := ep_Scale m, ep_Sum := ep_Sum m, ep_metadata := keep_bits 7 (ep_metadata m), ep_Count := ep_Count m, ep_TimeUnixNano := ep_TimeUnixNano m, ep_StartTimeUnixNano := v\<rparr>"]) (simp_all add: ExponentialHistogramDataPoint_field_def ExponentialHistogramDataPoint_zero_def)
  have 14: "decodes ExponentialHistogramDataPoint_field (concat (map (\<lambda>v. string_bytes [0x0a] (KeyValue_bytes v)) (ep_Attributes m)))
      (ExponentialHistogramDataPoint_zero\<lparr>ep_ZeroThreshold := ep_ZeroThreshold m, ep_Max := ep_Max m, ep_Min := ep_Min m, ep_Exemplars := ep_Exemplars m, ep_Flags := ep_Flags m, ep_Negative := ep_Negative m, ep_Positive := ep_Positive m, ep_ZeroCount := ep_ZeroCount m, ep_Scale := ep_Scale m, ep_Sum := ep_Sum m, ep_metadata := keep_bits 7 (ep_metadata m), ep_Count := ep_Count m, ep_TimeUnixNano := ep_TimeUnixNano m, ep_StartTimeUnixNano := ep_StartTimeUnixNano m\<rparr>)
      (ExponentialHistogramDataPoint_zero\<lparr>ep_ZeroThreshold := ep_ZeroThreshold m, ep_Max := ep_Max m, ep_Min := ep_Min m, ep_Exemplars := ep_Exemplars m, ep_Flags := ep_Flags m, ep_Negative := ep_Negative m, ep_Positive := ep_Positive m, ep_ZeroCount := ep_ZeroCount m, ep_Scale := ep_Scale m, ep_Sum := ep_Sum m, ep_metadata := keep_bits 7 (ep_metadata m), ep_Count := ep_Count m, ep_TimeUnixNano := ep_TimeUnixNano m, ep_StartTimeUnixNano := ep_StartTimeUnixNano m, ep_Attributes := ep_Attributes m\<rparr>)"
    by (rule key_value.decodes_repeated_message [where fn = 1 and upd = "\<lambda>v. ExponentialHistogramDataPoint_zero\<lparr>ep_ZeroThreshold := ep_ZeroThreshold m, ep_Max := ep_Max m, ep_Min := ep_Min m, ep_Exemplars := ep_Exemplars m, ep_Flags := ep_Flags m, ep_Negative := ep_Negative m, ep_Positive := ep_Positive m, ep_ZeroCount := ep_ZeroCount m, ep_Scale := ep_Scale m, ep_Sum := ep_Sum m, ep_metadata := keep_bits 7 (ep_metadata m), ep_Count := ep_Count m, ep_TimeUnixNano := ep_TimeUnixNano m, ep_StartTimeUnixNano := ep_StartTimeUnixNano m, ep_Attributes := v\<rparr>"]) (simp_all add: ExponentialHistogramDataPoint_field_def ExponentialHistogramDataPoint_zero_def wf)
  have eq: "(ExponentialHistogramDataPoint_zero\<lparr>ep_ZeroThreshold := ep_ZeroThreshold m, ep_Max := ep_Max m, ep_Min := ep_Min m, ep_Exemplars := ep_Exemplars m, ep_Flags := ep_Flags m, ep_Negative := ep_Negative m, ep_Positive := ep_Positive m, ep_ZeroCount := ep_ZeroCount m, ep_Scale := ep_Scale m, ep_Sum := ep_Sum m, ep_metadata := keep_bits 7 (ep_metadata m), ep_Count := ep_Count m, ep_TimeUnixNano := ep_TimeUnixNano m, ep_StartTimeUnixNano := ep_StartTimeUnixNano m, ep_Attributes := ep_Attributes m\<rparr>) = m"
    using pres by (cases m) (simp add: ExponentialHistogramDataPoint_zero_def)
  from decodes_append [OF decodes_append [OF decodes_append [OF decodes_append [OF decodes_append [OF decodes_append [OF decodes_append [OF decodes_append [OF decodes_append [OF decodes_append [OF decodes_append [OF decodes_append [OF decodes_append [OF 1 2] 3] 4] 5] 6] 7] 8] 9] 10] 11] 12] 13] 14]
  show ?thesis unfolding eq ExponentialHistogramDataPoint_bytes_def .
qed

interpretation exponential_point: proto_message ExponentialHistogramDataPoint_SizeProto ExponentialHistogramDataPoint_MarshalProto ExponentialHistogramDataPoint_UnmarshalProto ExponentialHistogramDataPoint_zero ExponentialHistogramDataPoint_bytes ExponentialHistogramDataPoint_wf
proof unfold_locales
  fix m assume wf: "ExponentialHistogramDataPoint_wf m"
  then show "ExponentialHistogramDataPoint_SizeProto m = length (ExponentialHistogramDataPoint_bytes m)"
    unfolding ExponentialHistogramDataPoint_SizeProto_def ExponentialHistogramDataPoint_bytes_def ExponentialHistogramDataPoint_wf_def
    by (simp add: length_if_Nil field_sizes repeated_string_size  length_packed_varints length_packed_fixed64s Soz_zigzag Sov_1 mult.commute [of _ 8] numeral_2_eq_2 key_value.repeated_size key_value.size buckets.repeated_size buckets.size exemplar.repeated_size exemplar.size del: length_concat split del: if_split cong: if_cong)
  show "marshals (ExponentialHistogramDataPoint_MarshalProto m) (ExponentialHistogramDataPoint_bytes m)"
    unfolding ExponentialHistogramDataPoint_MarshalProto_def ExponentialHistogramDataPoint_bytes_def
    by (intro marshals_body emit) (use wf in \<open>simp_all add: ExponentialHistogramDataPoint_wf_def\<close>)
  show "ExponentialHistogramDataPoint_UnmarshalProto (ExponentialHistogramDataPoint_bytes m) ExponentialHistogramDataPoint_zero = Some (Inr m)" if "valid_buf (ExponentialHistogramDataPoint_bytes m)"
    unfolding ExponentialHistogramDataPoint_UnmarshalProto_def by (rule unmarshal_body_decodes [OF ExponentialHistogramDataPoint_decodes [OF wf] that])
next
  fix buf and m :: ExponentialHistogramDataPoint
  assume "valid_buf buf"
  then show "unmarshal_ok (ExponentialHistogramDataPoint_UnmarshalProto buf m)"
    unfolding ExponentialHistogramDataPoint_UnmarshalProto_def ExponentialHistogramDataPoint_field_def by (intro unmarshal_body_ok reader_ok) simp_all
qed

section \<open>SummaryDataPointValueAtQuantile\<close>

record SummaryDataPointValueAtQuantile =
  qv_Quantile :: u64
  qv_Value :: u64

definition SummaryDataPointValueAtQuantile_zero :: SummaryDataPointValueAtQuantile where
  "SummaryDataPointValueAtQuantile_zero = \<lparr>qv_Quantile = 0, qv_Value = 0\<rparr>"

definition SummaryDataPointValueAtQuantile_SizeProto :: "SummaryDataPointValueAtQuantile \<Rightarrow> nat" where
  "SummaryDataPointValueAtQuantile_SizeProto orig =
     (if nonzero_float (qv_Quantile orig) then 9 else 0)
     + (if nonzero_float (qv_Value orig) then 9 else 0)"

definition SummaryDataPointValueAtQuantile_MarshalProto :: "SummaryDataPointValueAtQuantile \<Rightarrow> marshaler" where
  "SummaryDataPointValueAtQuantile_MarshalProto orig = marshal_body
     ((if nonzero_float (qv_Quantile orig) then fixed_block [0x09] 8 (qv_Quantile orig) else [])
      @ (if nonzero_float (qv_Value orig) then fixed_block [0x11] 8 (qv_Value orig) else []))"

definition SummaryDataPointValueAtQuantile_field :: "SummaryDataPointValueAtQuantile field_reader" where
  "SummaryDataPointValueAtQuantile_field buf fieldNum wireType pos orig =
     (if fieldNum = 1 then read_i64 (\<lambda>num. orig\<lparr>qv_Quantile := num\<rparr>) buf wireType pos
      else if fieldNum = 2 then read_i64 (\<lambda>num. orig\<lparr>qv_Value := num\<rparr>) buf wireType pos
      else read_unknown orig buf wireType pos)"

definition SummaryDataPointValueAtQuantile_UnmarshalProto :: "SummaryDataPointValueAtQuantile unmarshaler" where
  "SummaryDataPointValueAtQuantile_UnmarshalProto = unmarshal_body SummaryDataPointValueAtQuantile_field"

definition SummaryDataPointValueAtQuantile_bytes :: "SummaryDataPointValueAtQuantile \<Rightarrow> byte list" where
  "SummaryDataPointValueAtQuantile_bytes orig =
     ((if nonzero_float (qv_Value orig) then fixed_bytes [0x11] 8 (qv_Value orig) else [])
      @ (if nonzero_float (qv_Quantile orig) then fixed_bytes [0x09] 8 (qv_Quantile orig) else []))"

definition SummaryDataPointValueAtQuantile_wf :: "SummaryDataPointValueAtQuantile \<Rightarrow> bool" where
  "SummaryDataPointValueAtQuantile_wf orig \<longleftrightarrow> qv_Quantile orig \<noteq> 0x8000000000000000 \<and> qv_Value orig \<noteq> 0x8000000000000000"

lemma SummaryDataPointValueAtQuantile_decodes:
  assumes "SummaryDataPointValueAtQuantile_wf m"
  shows "decodes SummaryDataPointValueAtQuantile_field (SummaryDataPointValueAtQuantile_bytes m) SummaryDataPointValueAtQuantile_zero m"
proof -
  note wf = assms [unfolded SummaryDataPointValueAtQuantile_wf_def]
  have 1: "decodes SummaryDataPointValueAtQuantile_field ((if nonzero_float (qv_Value m) then fixed_bytes [0x11] 8 (qv_Value m) else []))
      SummaryDataPointValueAtQuantile_zero
      (SummaryDataPointValueAtQuantile_zero\<lparr>qv_Value := qv_Value m\<rparr>)"
    by (rule decodes_float [where fn = 2 and upd = "\<lambda>v. SummaryDataPointValueAtQuantile_zero\<lparr>qv_Value := v\<rparr>"]) (simp_all add: SummaryDataPointValueAtQuantile_field_def SummaryDataPointValueAtQuantile_zero_def wf)
  have 2: "decodes SummaryDataPointValueAtQuantile_field ((if nonzero_float (qv_Quantile m) then fixed_bytes [0x09] 8 (qv_Quantile m) else []))
      (SummaryDataPointValueAtQuantile_zero\<lparr>qv_Value := qv_Value m\<rparr>)
      (SummaryDataPointValueAtQuantile_zero\<lparr>qv_Value := qv_Value m, qv_Quantile := qv_Quantile m\<rparr>)"
    by (rule decodes_float [where fn = 1 and upd = "\<lambda>v. SummaryDataPointValueAtQuantile_zero\<lparr>qv_Value := qv_Value m, qv_Quantile := v\<rparr>"]) (simp_all add: SummaryDataPointValueAtQuantile_field_def SummaryDataPointValueAtQuantile_zero_def wf)
  have eq: "(SummaryDataPointValueAtQuantile_zero\<lparr>qv_Value := qv_Value m, qv_Quantile := qv_Quantile m\<rparr>) = m"
    by (cases m) (simp add: SummaryDataPointValueAtQuantile_zero_def)
  from decodes_append [OF 1 2]
  show ?thesis unfolding eq SummaryDataPointValueAtQuantile_bytes_def .
qed

interpretation quantile_value: proto_message SummaryDataPointValueAtQuantile_SizeProto SummaryDataPointValueAtQuantile_MarshalProto SummaryDataPointValueAtQuantile_UnmarshalProto SummaryDataPointValueAtQuantile_zero SummaryDataPointValueAtQuantile_bytes SummaryDataPointValueAtQuantile_wf
proof unfold_locales
  fix m assume wf: "SummaryDataPointValueAtQuantile_wf m"
  then show "SummaryDataPointValueAtQuantile_SizeProto m = length (SummaryDataPointValueAtQuantile_bytes m)"
    unfolding SummaryDataPointValueAtQuantile_SizeProto_def SummaryDataPointValueAtQuantile_bytes_def SummaryDataPointValueAtQuantile_wf_def
    by (simp add: length_if_Nil field_sizes repeated_string_size  del: length_concat split del: if_split cong: if_cong)
  show "marshals (SummaryDataPointValueAtQuantile_MarshalProto m) (SummaryDataPointValueAtQuantile_bytes m)"
    unfolding SummaryDataPointValueAtQuantile_MarshalProto_def SummaryDataPointValueAtQuantile_bytes_def
    by (intro marshals_body emit)
  show "SummaryDataPointValueAtQuantile_UnmarshalProto (SummaryDataPointValueAtQuantile_bytes m) SummaryDataPointValueAtQuantile_zero = Some (Inr m)" if "valid_buf (SummaryDataPointValueAtQuantile_bytes m)"
    unfolding SummaryDataPointValueAtQuantile_UnmarshalProto_def by (rule unmarshal_body_decodes [OF SummaryDataPointValueAtQuantile_decodes [OF wf] that])
next
  fix buf and m :: SummaryDataPointValueAtQuantile
  assume "valid_buf buf"
  then show "unmarshal_ok (SummaryDataPointValueAtQuantile_UnmarshalProto buf m)"
    unfolding SummaryDataPointValueAtQuantile_UnmarshalProto_def SummaryDataPointValueAtQuantile_field_def by (intro unmarshal_body_ok reader_ok) simp_all
qed

section \<open>SummaryDataPoint\<close>

record SummaryDataPoint =
  yp_Attributes :: "KeyValue list"
  yp_StartTimeUnixNano :: u64
  yp_TimeUnixNano :: u64
  yp_Count :: u64
  yp_Sum :: u64
  yp_QuantileValues :: "SummaryDataPointValueAtQuantile list"
  yp_Flags :: "32 word"

definition SummaryDataPoint_zero :: SummaryDataPoint where
  "SummaryDataPoint_zero = \<lparr>yp_Attributes = [], yp_StartTimeUnixNano = 0, yp_TimeUnixNano = 0, yp_Count = 0, yp_Sum = 0, yp_QuantileValues = [], yp_Flags = 0\<rparr>"

definition SummaryDataPoint_SizeProto :: "SummaryDataPoint \<Rightarrow> nat" where
  "SummaryDataPoint_SizeProto orig =
     sum_list (map (\<lambda>v. len_size 1 (KeyValue_SizeProto v)) (yp_Attributes orig))
     + (if yp_StartTimeUnixNano orig \<noteq> 0 then 9 else 0)
     + (if yp_TimeUnixNano orig \<noteq> 0 then 9 else 0)
     + (if yp_Count orig \<noteq> 0 then 9 else 0)
     + (if nonzero_float (yp_Sum orig) then 9 else 0)
     + sum_list (map (\<lambda>v. len_size 1 (SummaryDataPointValueAtQuantile_SizeProto v)) (yp_QuantileValues orig))
     + (if yp_Flags orig \<noteq> 0 then 1 + Sov (ucast (yp_Flags orig)) else 0)"

definition SummaryDataPoint_MarshalProto :: "SummaryDataPoint \<Rightarrow> marshaler" where
  "SummaryDataPoint_MarshalProto orig = marshal_body
     (concat (map (\<lambda>v. message_block [0x3a] (KeyValue_MarshalProto v)) (rev (yp_Attributes orig)))
      @ (if yp_StartTimeUnixNano orig \<noteq> 0 then fixed_block [0x11] 8 (yp_StartTimeUnixNano orig) else [])
      @ (if yp_TimeUnixNano orig \<noteq> 0 then fixed_block [0x19] 8 (yp_TimeUnixNano orig) else [])
      @ (if yp_Count orig \<noteq> 0 then fixed_block [0x21] 8 (yp_Count orig) else [])
      @ (if nonzero_float (yp_Sum orig) then fixed_block [0x29] 8 (yp_Sum orig) else [])
      @ concat (map (\<lambda>v. message_block [0x32] (SummaryDataPointValueAtQuantile_MarshalProto v)) (rev (yp_QuantileValues orig)))
      @ (if yp_Flags orig \<noteq> 0 then varint_block [0x40] (ucast (yp_Flags orig)) else []))"

definition SummaryDataPoint_field :: "SummaryDataPoint field_reader" where
  "SummaryDataPoint_field buf fieldNum wireType pos orig =
     (if fieldNum = 7 then read_message KeyValue_UnmarshalProto KeyValue_zero (\<lambda>v. orig\<lparr>yp_Attributes := yp_Attributes orig @ [v]\<rparr>) buf wireType pos
      else if fieldNum = 2 then read_i64 (\<lambda>num. orig\<lparr>yp_StartTimeUnixNano := num\<rparr>) buf wireType pos
      else if fieldNum = 3 then read_i64 (\<lambda>num. orig\<lparr>yp_TimeUnixNano := num\<rparr>) buf wireType pos
      else if fieldNum = 4 then read_i64 (\<lambda>num. orig\<lparr>yp_Count := num\<rparr>) buf wireType pos
      else if fieldNum = 5 then read_i64 (\<lambda>num. orig\<lparr>yp_Sum := num\<rparr>) buf wireType pos
      else if fieldNum = 6 then read_message SummaryDataPointValueAtQuantile_UnmarshalProto SummaryDataPointValueAtQuantile_zero (\<lambda>v. orig\<lparr>yp_QuantileValues := yp_QuantileValues orig @ [v]\<rparr>) buf wireType pos
      else if fieldNum = 8 then read_varint (\<lambda>num. orig\<lparr>yp_Flags := ucast num\<rparr>) buf wireType pos
      else read_unknown orig buf wireType pos)"

definition SummaryDataPoint_UnmarshalProto :: "SummaryDataPoint unmarshaler" where
  "SummaryDataPoint_UnmarshalProto = unmarshal_body SummaryDataPoint_field"

definition SummaryDataPoint_bytes :: "SummaryDataPoint \<Rightarrow> byte list" where
  "SummaryDataPoint_bytes orig =
     (((((((if yp_Flags orig \<noteq> 0 then varint_field_bytes [0x40] (ucast (yp_Flags orig)) else [])
      @ concat (map (\<lambda>v. string_bytes [0x32] (SummaryDataPointValueAtQuantile_bytes v)) (yp_QuantileValues orig)))
      @ (if nonzero_float (yp_Sum orig) then fixed_bytes [0x29] 8 (yp_Sum orig) else []))
      @ (if yp_Count orig \<noteq> 0 then fixed_bytes [0x21] 8 (yp_Count orig) else []))
      @ (if yp_TimeUnixNano orig \<noteq> 0 then fixed_bytes [0x19] 8 (yp_TimeUnixNano orig) else []))
      @ (if yp_StartTimeUnixNano orig \<noteq> 0 then fixed_bytes [0x11] 8 (yp_StartTimeUnixNano orig) else []))
      @ concat (map (\<lambda>v. string_bytes [0x3a] (KeyValue_bytes v)) (yp_Attributes orig)))"

definition SummaryDataPoint_wf :: "SummaryDataPoint \<Rightarrow> bool" where
  "SummaryDataPoint_wf orig \<longleftrightarrow> list_all KeyValue_wf (yp_Attributes orig) \<and> yp_Sum orig \<noteq> 0x8000000000000000 \<and> list_all SummaryDataPointValueAtQuantile_wf (yp_QuantileValues orig)"

lemma SummaryDataPoint_decodes:
  assumes "SummaryDataPoint_wf m"
  shows "decodes SummaryDataPoint_field (SummaryDataPoint_bytes m) SummaryDataPoint_zero m"
proof -
  note wf = assms [unfolded SummaryDataPoint_wf_def]
  have 1: "decodes SummaryDataPoint_field ((if yp_Flags m \<noteq> 0 then varint_field_bytes [0x40] (ucast (yp_Flags m)) else []))
      SummaryDataPoint_zero
      (SummaryDataPoint_zero\<lparr>yp_Flags := yp_Flags m\<rparr>)"
    by (rule decodes_opt_varint [where fn = 8 and enc = ucast and dec = ucast and upd = "\<lambda>v. SummaryDataPoint_zero\<lparr>yp_Flags := v\<rparr>"]) (simp_all add: SummaryDataPoint_field_def SummaryDataPoint_zero_def ucast_ucast_32)
  have 2: "decodes SummaryDataPoint_field (concat (map (\<lambda>v. string_bytes [0x32] (SummaryDataPointValueAtQuantile_bytes v)) (yp_QuantileValues m)))
      (SummaryDataPoint_zero\<lparr>yp_Flags := yp_Flags m\<rparr>)
      (SummaryDataPoint_zero\<lparr>yp_Flags := yp_Flags m, yp_QuantileValues := yp_QuantileValues m\<rparr>)"
    by (rule quantile_value.decodes_repeated_message [where fn = 6 and upd = "\<lambda>v. SummaryDataPoint_zero\<lparr>yp_Flags := yp_Flags m, yp_QuantileValues := v\<rparr>"]) (simp_all add: SummaryDataPoint_field_def SummaryDataPoint_zero_def wf)
  have 3: "decodes SummaryDataPoint_field ((if nonzero_float (yp_Sum m) then fixed_bytes [0x29] 8 (yp_Sum m) else []))
      (SummaryDataPoint_zero\<lparr>yp_Flags := yp_Flags m, yp_QuantileValues := yp_QuantileValues m\<rparr>)
      (SummaryDataPoint_zero\<lparr>yp_Flags := yp_Flags m, yp_QuantileValues := yp_QuantileValues m, yp_Sum := yp_Sum m\<rparr>)"
    by (rule decodes_float [where fn = 5 and upd = "\<lambda>v. SummaryDataPoint_zero\<lparr>yp_Flags := yp_Flags m, yp_QuantileValues := yp_QuantileValues m, yp_Sum := v\<rparr>"]) (simp_all add: SummaryDataPoint_field_def SummaryDataPoint_zero_def wf)
  have 4: "decodes SummaryDataPoint_field ((if yp_Count m \<noteq> 0 then fixed_bytes [0x21] 8 (yp_Count m) else []))
      (SummaryDataPoint_zero\<lparr>yp_Flags := yp_Flags m, yp_QuantileValues := yp_QuantileValues m, yp_Sum := yp_Sum m\<rparr>)
      (SummaryDataPoint_zero\<lparr>yp_Flags := yp_Flags m, yp_QuantileValues := yp_QuantileValues m, yp_Sum := yp_Sum m, yp_Count := yp_Count m\<rparr>)"
    by (rule decodes_opt_fixed64 [where fn = 4 and upd = "\<lambda>v. SummaryDataPoint_zero\<lparr>yp_Flags := yp_Flags m, yp_QuantileValues := yp_QuantileValues m, yp_Sum := yp_Sum m, yp_Count := v\<rparr>"]) (simp_all add: SummaryDataPoint_field_def SummaryDataPoint_zero_def)
  have 5: "decodes SummaryDataPoint_field ((if yp_TimeUnixNano m \<noteq> 0 then fixed_bytes [0x19] 8 (yp_TimeUnixNano m) else []))
      (SummaryDataPoint_zero\<lparr>yp_Flags := yp_Flags m, yp_QuantileValues := yp_QuantileValues m, yp_Sum := yp_Sum m, yp_Count := yp_Count m\<rparr>)
      (SummaryDataPoint_zero\<lparr>yp_Flags := yp_Flags m, yp_QuantileValues := yp_QuantileValues m, yp_Sum := yp_Sum m, yp_Count := yp_Count m, yp_TimeUnixNano := yp_TimeUnixNano m\<rparr>)"
    by (rule decodes_opt_fixed64 [where fn = 3 and upd = "\<lambda>v. SummaryDataPoint_zero\<lparr>yp_Flags := yp_Flags m, yp_QuantileValues := yp_QuantileValues m, yp_Sum := yp_Sum m, yp_Count := yp_Count m, yp_TimeUnixNano := v\<rparr>"]) (simp_all add: SummaryDataPoint_field_def SummaryDataPoint_zero_def)
  have 6: "decodes SummaryDataPoint_field ((if yp_StartTimeUnixNano m \<noteq> 0 then fixed_bytes [0x11] 8 (yp_StartTimeUnixNano m) else []))
      (SummaryDataPoint_zero\<lparr>yp_Flags := yp_Flags m, yp_QuantileValues := yp_QuantileValues m, yp_Sum := yp_Sum m, yp_Count := yp_Count m, yp_TimeUnixNano := yp_TimeUnixNano m\<rparr>)
      (SummaryDataPoint_zero\<lparr>yp_Flags := yp_Flags m, yp_QuantileValues := yp_QuantileValues m, yp_Sum := yp_Sum m, yp_Count := yp_Count m, yp_TimeUnixNano := yp_TimeUnixNano m, yp_StartTimeUnixNano := yp_StartTimeUnixNano m\<rparr>)"
    by (rule decodes_opt_fixed64 [where fn = 2 and upd = "\<lambda>v. SummaryDataPoint_zero\<lparr>yp_Flags := yp_Flags m, yp_QuantileValues := yp_QuantileValues m, yp_Sum := yp_Sum m, yp_Count := yp_Count m, yp_TimeUnixNano := yp_TimeUnixNano m, yp_StartTimeUnixNano := v\<rparr>"]) (simp_all add: SummaryDataPoint_field_def SummaryDataPoint_zero_def)
  have 7: "decodes SummaryDataPoint_field (concat (map (\<lambda>v. string_bytes [0x3a] (KeyValue_bytes v)) (yp_Attributes m)))
      (SummaryDataPoint_zero\<lparr>yp_Flags := yp_Flags m, yp_QuantileValues := yp_QuantileValues m, yp_Sum := yp_Sum m, yp_Count := yp_Count m, yp_TimeUnixNano := yp_TimeUnixNano m, yp_StartTimeUnixNano := yp_StartTimeUnixNano m\<rparr>)
      (SummaryDataPoint_zero\<lparr>yp_Flags := yp_Flags m, yp_QuantileValues := yp_QuantileValues m, yp_Sum := yp_Sum m, yp_Count := yp_Count m, yp_TimeUnixNano := yp_TimeUnixNano m, yp_StartTimeUnixNano := yp_StartTimeUnixNano m, yp_Attributes := yp_Attributes m\<rparr>)"
    by (rule key_value.decodes_repeated_message [where fn = 7 and upd = "\<lambda>v. SummaryDataPoint_zero\<lparr>yp_Flags := yp_Flags m, yp_QuantileValues := yp_QuantileValues m, yp_Sum := yp_Sum m, yp_Count := yp_Count m, yp_TimeUnixNano := yp_TimeUnixNano m, yp_StartTimeUnixNano := yp_StartTimeUnixNano m, yp_Attributes := v\<rparr>"]) (simp_all add: SummaryDataPoint_field_def SummaryDataPoint_zero_def wf)
  have eq: "(SummaryDataPoint_zero\<lparr>yp_Flags := yp_Flags m, yp_QuantileValues := yp_QuantileValues m, yp_Sum := yp_Sum m, yp_Count := yp_Count m, yp_TimeUnixNano := yp_TimeUnixNano m, yp_StartTimeUnixNano := yp_StartTimeUnixNano m, yp_Attributes := yp_Attributes m\<rparr>) = m"
    by (cases m) (simp add: SummaryDataPoint_zero_def)
  from decodes_append [OF decodes_append [OF decodes_append [OF decodes_append [OF decodes_append [OF decodes_append [OF 1 2] 3] 4] 5] 6] 7]
  show ?thesis unfolding eq SummaryDataPoint_bytes_def .
qed

interpretation summary_point: proto_message SummaryDataPoint_SizeProto SummaryDataPoint_MarshalProto SummaryDataPoint_UnmarshalProto SummaryDataPoint_zero SummaryDataPoint_bytes SummaryDataPoint_wf
proof unfold_locales
  fix m assume wf: "SummaryDataPoint_wf m"
  then show "SummaryDataPoint_SizeProto m = length (SummaryDataPoint_bytes m)"
    unfolding SummaryDataPoint_SizeProto_def SummaryDataPoint_bytes_def SummaryDataPoint_wf_def
    by (simp add: length_if_Nil field_sizes repeated_string_size key_value.repeated_size key_value.size quantile_value.repeated_size quantile_value.size del: length_concat split del: if_split cong: if_cong)
  show "marshals (SummaryDataPoint_MarshalProto m) (SummaryDataPoint_bytes m)"
    unfolding SummaryDataPoint_MarshalProto_def SummaryDataPoint_bytes_def
    by (intro marshals_body emit) (use wf in \<open>simp_all add: SummaryDataPoint_wf_def\<close>)
  show "SummaryDataPoint_UnmarshalProto (SummaryDataPoint_bytes m) SummaryDataPoint_zero = Some (Inr m)" if "valid_buf (SummaryDataPoint_bytes m)"
    unfolding SummaryDataPoint_UnmarshalProto_def by (rule unmarshal_body_decodes [OF SummaryDataPoint_decodes [OF wf] that])
next
  fix buf and m :: SummaryDataPoint
  assume "valid_buf buf"
  then show "unmarshal_ok (SummaryDataPoint_UnmarshalProto buf m)"
    unfolding SummaryDataPoint_UnmarshalProto_def SummaryDataPoint_field_def by (intro unmarshal_body_ok reader_ok) simp_all
qed

section \<open>What the points lose on the wire\<close>

text \<open>
  A packed list may come in several chunks, which a parser has to concatenate. The varint lists do;
  a list of 8-byte values keeps its last chunk only, because the field is made anew for each.
\<close>

lemma packed_chunks:
  assumes "valid_buf (string_bytes [0x32] (packed_fixed64s vs) @ string_bytes [0x32] (packed_fixed64s ws))"
    and "valid_buf (string_bytes [0x12] (packed_varints vs) @ string_bytes [0x12] (packed_varints ws))"
  shows "HistogramDataPoint_UnmarshalProto
      (string_bytes [0x32] (packed_fixed64s vs) @ string_bytes [0x32] (packed_fixed64s ws)) HistogramDataPoint_zero =
      Some (Inr (HistogramDataPoint_zero\<lparr>hp_BucketCounts := ws\<rparr>))"
    and "ExponentialHistogramDataPointBuckets_UnmarshalProto
      (string_bytes [0x12] (packed_varints vs) @ string_bytes [0x12] (packed_varints ws))
      ExponentialHistogramDataPointBuckets_zero =
      Some (Inr (ExponentialHistogramDataPointBuckets_zero\<lparr>eb_BucketCounts := vs @ ws\<rparr>))"
proof -
  have h: "decodes HistogramDataPoint_field (string_bytes [0x32] (packed_fixed64s us)) m (m\<lparr>hp_BucketCounts := us\<rparr>)" for us m
    by (rule decodes_packed_fixed64_chunk [where fn = 6 and old = "hp_BucketCounts m" and upd = "\<lambda>v. m\<lparr>hp_BucketCounts := v\<rparr>"])
      (simp_all add: HistogramDataPoint_field_def)
  from unmarshal_body_decodes [OF decodes_append [OF h h] assms(1)]
  show "HistogramDataPoint_UnmarshalProto
      (string_bytes [0x32] (packed_fixed64s vs) @ string_bytes [0x32] (packed_fixed64s ws)) HistogramDataPoint_zero =
      Some (Inr (HistogramDataPoint_zero\<lparr>hp_BucketCounts := ws\<rparr>))"
    by (simp add: HistogramDataPoint_UnmarshalProto_def)
  have e: "decodes ExponentialHistogramDataPointBuckets_field (string_bytes [0x12] (packed_varints us)) m
      (m\<lparr>eb_BucketCounts := eb_BucketCounts m @ us\<rparr>)" for us m
    by (rule decodes_packed_varint_chunk [where fn = 2 and upd = "\<lambda>v. m\<lparr>eb_BucketCounts := v\<rparr>"])
      (simp_all add: ExponentialHistogramDataPointBuckets_field_def)
  from unmarshal_body_decodes [OF decodes_append [OF e e] assms(2)]
  show "ExponentialHistogramDataPointBuckets_UnmarshalProto
      (string_bytes [0x12] (packed_varints vs) @ string_bytes [0x12] (packed_varints ws))
      ExponentialHistogramDataPointBuckets_zero =
      Some (Inr (ExponentialHistogramDataPointBuckets_zero\<lparr>eb_BucketCounts := vs @ ws\<rparr>))"
    by (simp add: ExponentialHistogramDataPointBuckets_UnmarshalProto_def ExponentialHistogramDataPointBuckets_zero_def)
qed

text \<open>A sum of minus zero is not written, and comes back as zero.\<close>

lemma negative_zero_lost:
  "SummaryDataPoint_bytes (m\<lparr>yp_Sum := 0x8000000000000000\<rparr>) = SummaryDataPoint_bytes (m\<lparr>yp_Sum := 0\<rparr>)"
  by (simp add: SummaryDataPoint_bytes_def nonzero_float_def)

end
