(* ===== verification/ProtoMetrics.thy ===== *)
theory ProtoMetrics
  imports ProtoPoints
begin

text \<open>
  The metric messages: \<open>Gauge\<close>, \<open>Sum\<close>, \<open>Histogram\<close>, \<open>ExponentialHistogram\<close>, \<open>Summary\<close>, \<open>Metric\<close>,
  \<open>ScopeMetrics\<close>, \<open>ResourceMetrics\<close> and \<open>MetricsData\<close> (the files of the same names in
  pdata/internal/generated\_proto\_*.go), and the functions of pdata/pmetric/pb.go and
  pdata/pmetric/pmetricotlp/request.go.
\<close>

lemma tags_metrics [simp]:
  "is_tag [0x52] 10 2"
  "is_tag [0x62] 12 2"
  "is_tag [0xc2, 0x3e] 1000 2"
  by (simp_all add: is_tag_def Let_def varint_bytes.simps)

section \<open>Gauge\<close>

record Gauge =
  ga_DataPoints :: "NumberDataPoint list"

definition Gauge_zero :: Gauge where
  "Gauge_zero = \<lparr>ga_DataPoints = []\<rparr>"

definition Gauge_SizeProto :: "Gauge \<Rightarrow> nat" where
  "Gauge_SizeProto orig =
     sum_list (map (\<lambda>v. len_size 1 (NumberDataPoint_SizeProto v)) (ga_DataPoints orig))"

definition Gauge_MarshalProto :: "Gauge \<Rightarrow> marshaler" where
  "Gauge_MarshalProto orig = marshal_body
     (concat (map (\<lambda>v. message_block [0x0a] (NumberDataPoint_MarshalProto v)) (rev (ga_DataPoints orig))))"

definition Gauge_field :: "Gauge field_reader" where
  "Gauge_field buf fieldNum wireType pos orig =
     (if fieldNum = 1 then read_message NumberDataPoint_UnmarshalProto NumberDataPoint_zero (\<lambda>v. orig\<lparr>ga_DataPoints := ga_DataPoints orig @ [v]\<rparr>) buf wireType pos
      else read_unknown orig buf wireType pos)"

definition Gauge_UnmarshalProto :: "Gauge unmarshaler" where
  "Gauge_UnmarshalProto = unmarshal_body Gauge_field"

definition Gauge_bytes :: "Gauge \<Rightarrow> byte list" where
  "Gauge_bytes orig =
     concat (map (\<lambda>v. string_bytes [0x0a] (NumberDataPoint_bytes v)) (ga_DataPoints orig))"

definition Gauge_wf :: "Gauge \<Rightarrow> bool" where
  "Gauge_wf orig \<longleftrightarrow> list_all NumberDataPoint_wf (ga_DataPoints orig)"

lemma Gauge_decodes:
  assumes "Gauge_wf m"
  shows "decodes Gauge_field (Gauge_bytes m) Gauge_zero m"
proof -
  note wf = assms [unfolded Gauge_wf_def]
  have 1: "decodes Gauge_field (concat (map (\<lambda>v. string_bytes [0x0a] (NumberDataPoint_bytes v)) (ga_DataPoints m)))
      Gauge_zero
      (Gauge_zero\<lparr>ga_DataPoints := ga_DataPoints m\<rparr>)"
    by (rule number_point.decodes_repeated_message [where fn = 1 and upd = "\<lambda>v. Gauge_zero\<lparr>ga_DataPoints := v\<rparr>"]) (simp_all add: Gauge_field_def Gauge_zero_def wf)
  have eq: "(Gauge_zero\<lparr>ga_DataPoints := ga_DataPoints m\<rparr>) = m"
    by (cases m) (simp add: Gauge_zero_def)
  from 1
  show ?thesis unfolding eq Gauge_bytes_def .
qed

interpretation gauge: proto_message Gauge_SizeProto Gauge_MarshalProto Gauge_UnmarshalProto Gauge_zero Gauge_bytes Gauge_wf
proof unfold_locales
  fix m assume wf: "Gauge_wf m"
  then show "Gauge_SizeProto m = length (Gauge_bytes m)"
    unfolding Gauge_SizeProto_def Gauge_bytes_def Gauge_wf_def
    by (simp add: length_if_Nil field_sizes repeated_string_size number_point.repeated_size number_point.size del: length_concat split del: if_split cong: if_cong)
  show "marshals (Gauge_MarshalProto m) (Gauge_bytes m)"
    unfolding Gauge_MarshalProto_def Gauge_bytes_def
    by (intro marshals_body emit) (use wf in \<open>simp_all add: Gauge_wf_def\<close>)
  show "Gauge_UnmarshalProto (Gauge_bytes m) Gauge_zero = Some (Inr m)" if "valid_buf (Gauge_bytes m)"
    unfolding Gauge_UnmarshalProto_def by (rule unmarshal_body_decodes [OF Gauge_decodes [OF wf] that])
next
  fix buf and m :: Gauge
  assume "valid_buf buf"
  then show "unmarshal_ok (Gauge_UnmarshalProto buf m)"
    unfolding Gauge_UnmarshalProto_def Gauge_field_def by (intro unmarshal_body_ok reader_ok) simp_all
qed

section \<open>Sum\<close>

record Sum =
  su_DataPoints :: "NumberDataPoint list"
  su_AggregationTemporality :: "32 word"
  su_IsMonotonic :: bool

definition Sum_zero :: Sum where
  "Sum_zero = \<lparr>su_DataPoints = [], su_AggregationTemporality = 0, su_IsMonotonic = False\<rparr>"

definition Sum_SizeProto :: "Sum \<Rightarrow> nat" where
  "Sum_SizeProto orig =
     sum_list (map (\<lambda>v. len_size 1 (NumberDataPoint_SizeProto v)) (su_DataPoints orig))
     + (if su_AggregationTemporality orig \<noteq> 0 then 1 + Sov (scast (su_AggregationTemporality orig)) else 0)
     + (if su_IsMonotonic orig then 2 else 0)"

definition Sum_MarshalProto :: "Sum \<Rightarrow> marshaler" where
  "Sum_MarshalProto orig = marshal_body
     (concat (map (\<lambda>v. message_block [0x0a] (NumberDataPoint_MarshalProto v)) (rev (su_DataPoints orig)))
      @ (if su_AggregationTemporality orig \<noteq> 0 then varint_block [0x10] (scast (su_AggregationTemporality orig)) else [])
      @ (if su_IsMonotonic orig then put_byte (if su_IsMonotonic orig then 1 else 0) # put_tag [0x18] else []))"

definition Sum_field :: "Sum field_reader" where
  "Sum_field buf fieldNum wireType pos orig =
     (if fieldNum = 1 then read_message NumberDataPoint_UnmarshalProto NumberDataPoint_zero (\<lambda>v. orig\<lparr>su_DataPoints := su_DataPoints orig @ [v]\<rparr>) buf wireType pos
      else if fieldNum = 2 then read_varint (\<lambda>num. orig\<lparr>su_AggregationTemporality := ucast num\<rparr>) buf wireType pos
      else if fieldNum = 3 then read_varint (\<lambda>num. orig\<lparr>su_IsMonotonic := num \<noteq> 0\<rparr>) buf wireType pos
      else read_unknown orig buf wireType pos)"

definition Sum_UnmarshalProto :: "Sum unmarshaler" where
  "Sum_UnmarshalProto = unmarshal_body Sum_field"

definition Sum_bytes :: "Sum \<Rightarrow> byte list" where
  "Sum_bytes orig =
     (((if su_IsMonotonic orig then varint_field_bytes [0x18] (if su_IsMonotonic orig then 1 else 0) else [])
      @ (if su_AggregationTemporality orig \<noteq> 0 then varint_field_bytes [0x10] (scast (su_AggregationTemporality orig)) else []))
      @ concat (map (\<lambda>v. string_bytes [0x0a] (NumberDataPoint_bytes v)) (su_DataPoints orig)))"

definition Sum_wf :: "Sum \<Rightarrow> bool" where
  "Sum_wf orig \<longleftrightarrow> list_all NumberDataPoint_wf (su_DataPoints orig)"

lemma Sum_decodes:
  assumes "Sum_wf m"
  shows "decodes Sum_field (Sum_bytes m) Sum_zero m"
proof -
  note wf = assms [unfolded Sum_wf_def]
  have 1: "decodes Sum_field ((if su_IsMonotonic m then varint_field_bytes [0x18] (if su_IsMonotonic m then 1 else 0) else []))
      Sum_zero
      (Sum_zero\<lparr>su_IsMonotonic := su_IsMonotonic m\<rparr>)"
    by (rule decodes_bool [where fn = 3 and upd = "\<lambda>v. Sum_zero\<lparr>su_IsMonotonic := v\<rparr>"]) (simp_all add: Sum_field_def Sum_zero_def)
  have 2: "decodes Sum_field ((if su_AggregationTemporality m \<noteq> 0 then varint_field_bytes [0x10] (scast (su_AggregationTemporality m)) else []))
      (Sum_zero\<lparr>su_IsMonotonic := su_IsMonotonic m\<rparr>)
      (Sum_zero\<lparr>su_IsMonotonic := su_IsMonotonic m, su_AggregationTemporality := su_AggregationTemporality m\<rparr>)"
    by (rule decodes_opt_varint [where fn = 2 and enc = scast and dec = ucast and upd = "\<lambda>v. Sum_zero\<lparr>su_IsMonotonic := su_IsMonotonic m, su_AggregationTemporality := v\<rparr>"]) (simp_all add: Sum_field_def Sum_zero_def ucast_scast_32)
  have 3: "decodes Sum_field (concat (map (\<lambda>v. string_bytes [0x0a] (NumberDataPoint_bytes v)) (su_DataPoints m)))
      (Sum_zero\<lparr>su_IsMonotonic := su_IsMonotonic m, su_AggregationTemporality := su_AggregationTemporality m\<rparr>)
      (Sum_zero\<lparr>su_IsMonotonic := su_IsMonotonic m, su_AggregationTemporality := su_AggregationTemporality m, su_DataPoints := su_DataPoints m\<rparr>)"
    by (rule number_point.decodes_repeated_message [where fn = 1 and upd = "\<lambda>v. Sum_zero\<lparr>su_IsMonotonic := su_IsMonotonic m, su_AggregationTemporality := su_AggregationTemporality m, su_DataPoints := v\<rparr>"]) (simp_all add: Sum_field_def Sum_zero_def wf)
  have eq: "(Sum_zero\<lparr>su_IsMonotonic := su_IsMonotonic m, su_AggregationTemporality := su_AggregationTemporality m, su_DataPoints := su_DataPoints m\<rparr>) = m"
    by (cases m) (simp add: Sum_zero_def)
  from decodes_append [OF decodes_append [OF 1 2] 3]
  show ?thesis unfolding eq Sum_bytes_def .
qed

interpretation sum_data: proto_message Sum_SizeProto Sum_MarshalProto Sum_UnmarshalProto Sum_zero Sum_bytes Sum_wf
proof unfold_locales
  fix m assume wf: "Sum_wf m"
  then show "Sum_SizeProto m = length (Sum_bytes m)"
    unfolding Sum_SizeProto_def Sum_bytes_def Sum_wf_def
    by (simp add: length_if_Nil field_sizes repeated_string_size  length_packed_varints length_packed_fixed64s Soz_zigzag Sov_1 mult.commute [of _ 8] numeral_2_eq_2 number_point.repeated_size number_point.size del: length_concat split del: if_split cong: if_cong)
  show "marshals (Sum_MarshalProto m) (Sum_bytes m)"
    unfolding Sum_MarshalProto_def Sum_bytes_def
    by (intro marshals_body emit) (use wf in \<open>simp_all add: Sum_wf_def\<close>)
  show "Sum_UnmarshalProto (Sum_bytes m) Sum_zero = Some (Inr m)" if "valid_buf (Sum_bytes m)"
    unfolding Sum_UnmarshalProto_def by (rule unmarshal_body_decodes [OF Sum_decodes [OF wf] that])
next
  fix buf and m :: Sum
  assume "valid_buf buf"
  then show "unmarshal_ok (Sum_UnmarshalProto buf m)"
    unfolding Sum_UnmarshalProto_def Sum_field_def by (intro unmarshal_body_ok reader_ok) simp_all
qed

section \<open>Histogram\<close>

record Histogram =
  hi_DataPoints :: "HistogramDataPoint list"
  hi_AggregationTemporality :: "32 word"

definition Histogram_zero :: Histogram where
  "Histogram_zero = \<lparr>hi_DataPoints = [], hi_AggregationTemporality = 0\<rparr>"

definition Histogram_SizeProto :: "Histogram \<Rightarrow> nat" where
  "Histogram_SizeProto orig =
     sum_list (map (\<lambda>v. len_size 1 (HistogramDataPoint_SizeProto v)) (hi_DataPoints orig))
     + (if hi_AggregationTemporality orig \<noteq> 0 then 1 + Sov (scast (hi_AggregationTemporality orig)) else 0)"

definition Histogram_MarshalProto :: "Histogram \<Rightarrow> marshaler" where
  "Histogram_MarshalProto orig = marshal_body
     (concat (map (\<lambda>v. message_block [0x0a] (HistogramDataPoint_MarshalProto v)) (rev (hi_DataPoints orig)))
      @ (if hi_AggregationTemporality orig \<noteq> 0 then varint_block [0x10] (scast (hi_AggregationTemporality orig)) else []))"

definition Histogram_field :: "Histogram field_reader" where
  "Histogram_field buf fieldNum wireType pos orig =
     (if fieldNum = 1 then read_message HistogramDataPoint_UnmarshalProto HistogramDataPoint_zero (\<lambda>v. orig\<lparr>hi_DataPoints := hi_DataPoints orig @ [v]\<rparr>) buf wireType pos
      else if fieldNum = 2 then read_varint (\<lambda>num. orig\<lparr>hi_AggregationTemporality := ucast num\<rparr>) buf wireType pos
      else read_unknown orig buf wireType pos)"

definition Histogram_UnmarshalProto :: "Histogram unmarshaler" where
  "Histogram_UnmarshalProto = unmarshal_body Histogram_field"

definition Histogram_bytes :: "Histogram \<Rightarrow> byte list" where
  "Histogram_bytes orig =
     ((if hi_AggregationTemporality orig \<noteq> 0 then varint_field_bytes [0x10] (scast (hi_AggregationTemporality orig)) else [])
      @ concat (map (\<lambda>v. string_bytes [0x0a] (HistogramDataPoint_bytes v)) (hi_DataPoints orig)))"

definition Histogram_wf :: "Histogram \<Rightarrow> bool" where
  "Histogram_wf orig \<longleftrightarrow> list_all HistogramDataPoint_wf (hi_DataPoints orig)"

lemma Histogram_decodes:
  assumes "Histogram_wf m"
  shows "decodes Histogram_field (Histogram_bytes m) Histogram_zero m"
proof -
  note wf = assms [unfolded Histogram_wf_def]
  have 1: "decodes Histogram_field ((if hi_AggregationTemporality m \<noteq> 0 then varint_field_bytes [0x10] (scast (hi_AggregationTemporality m)) else []))
      Histogram_zero
      (Histogram_zero\<lparr>hi_AggregationTemporality := hi_AggregationTemporality m\<rparr>)"
    by (rule decodes_opt_varint [where fn = 2 and enc = scast and dec = ucast and upd = "\<lambda>v. Histogram_zero\<lparr>hi_AggregationTemporality := v\<rparr>"]) (simp_all add: Histogram_field_def Histogram_zero_def ucast_scast_32)
  have 2: "decodes Histogram_field (concat (map (\<lambda>v. string_bytes [0x0a] (HistogramDataPoint_bytes v)) (hi_DataPoints m)))
      (Histogram_zero\<lparr>hi_AggregationTemporality := hi_AggregationTemporality m\<rparr>)
      (Histogram_zero\<lparr>hi_AggregationTemporality := hi_AggregationTemporality m, hi_DataPoints := hi_DataPoints m\<rparr>)"
    by (rule histogram_point.decodes_repeated_message [where fn = 1 and upd = "\<lambda>v. Histogram_zero\<lparr>hi_AggregationTemporality := hi_AggregationTemporality m, hi_DataPoints := v\<rparr>"]) (simp_all add: Histogram_field_def Histogram_zero_def wf)
  have eq: "(Histogram_zero\<lparr>hi_AggregationTemporality := hi_AggregationTemporality m, hi_DataPoints := hi_DataPoints m\<rparr>) = m"
    by (cases m) (simp add: Histogram_zero_def)
  from decodes_append [OF 1 2]
  show ?thesis unfolding eq Histogram_bytes_def .
qed

interpretation histogram_data: proto_message Histogram_SizeProto Histogram_MarshalProto Histogram_UnmarshalProto Histogram_zero Histogram_bytes Histogram_wf
proof unfold_locales
  fix m assume wf: "Histogram_wf m"
  then show "Histogram_SizeProto m = length (Histogram_bytes m)"
    unfolding Histogram_SizeProto_def Histogram_bytes_def Histogram_wf_def
    by (simp add: length_if_Nil field_sizes repeated_string_size histogram_point.repeated_size histogram_point.size del: length_concat split del: if_split cong: if_cong)
  show "marshals (Histogram_MarshalProto m) (Histogram_bytes m)"
    unfolding Histogram_MarshalProto_def Histogram_bytes_def
    by (intro marshals_body emit) (use wf in \<open>simp_all add: Histogram_wf_def\<close>)
  show "Histogram_UnmarshalProto (Histogram_bytes m) Histogram_zero = Some (Inr m)" if "valid_buf (Histogram_bytes m)"
    unfolding Histogram_UnmarshalProto_def by (rule unmarshal_body_decodes [OF Histogram_decodes [OF wf] that])
next
  fix buf and m :: Histogram
  assume "valid_buf buf"
  then show "unmarshal_ok (Histogram_UnmarshalProto buf m)"
    unfolding Histogram_UnmarshalProto_def Histogram_field_def by (intro unmarshal_body_ok reader_ok) simp_all
qed

section \<open>ExponentialHistogram\<close>

record ExponentialHistogram =
  eh_DataPoints :: "ExponentialHistogramDataPoint list"
  eh_AggregationTemporality :: "32 word"

definition ExponentialHistogram_zero :: ExponentialHistogram where
  "ExponentialHistogram_zero = \<lparr>eh_DataPoints = [], eh_AggregationTemporality = 0\<rparr>"

definition ExponentialHistogram_SizeProto :: "ExponentialHistogram \<Rightarrow> nat" where
  "ExponentialHistogram_SizeProto orig =
     sum_list (map (\<lambda>v. len_size 1 (ExponentialHistogramDataPoint_SizeProto v)) (eh_DataPoints orig))
     + (if eh_AggregationTemporality orig \<noteq> 0 then 1 + Sov (scast (eh_AggregationTemporality orig)) else 0)"

definition ExponentialHistogram_MarshalProto :: "ExponentialHistogram \<Rightarrow> marshaler" where
  "ExponentialHistogram_MarshalProto orig = marshal_body
     (concat (map (\<lambda>v. message_block [0x0a] (ExponentialHistogramDataPoint_MarshalProto v)) (rev (eh_DataPoints orig)))
      @ (if eh_AggregationTemporality orig \<noteq> 0 then varint_block [0x10] (scast (eh_AggregationTemporality orig)) else []))"

definition ExponentialHistogram_field :: "ExponentialHistogram field_reader" where
  "ExponentialHistogram_field buf fieldNum wireType pos orig =
     (if fieldNum = 1 then read_message ExponentialHistogramDataPoint_UnmarshalProto ExponentialHistogramDataPoint_zero (\<lambda>v. orig\<lparr>eh_DataPoints := eh_DataPoints orig @ [v]\<rparr>) buf wireType pos
      else if fieldNum = 2 then read_varint (\<lambda>num. orig\<lparr>eh_AggregationTemporality := ucast num\<rparr>) buf wireType pos
      else read_unknown orig buf wireType pos)"

definition ExponentialHistogram_UnmarshalProto :: "ExponentialHistogram unmarshaler" where
  "ExponentialHistogram_UnmarshalProto = unmarshal_body ExponentialHistogram_field"

definition ExponentialHistogram_bytes :: "ExponentialHistogram \<Rightarrow> byte list" where
  "ExponentialHistogram_bytes orig =
     ((if eh_AggregationTemporality orig \<noteq> 0 then varint_field_bytes [0x10] (scast (eh_AggregationTemporality orig)) else [])
      @ concat (map (\<lambda>v. string_bytes [0x0a] (ExponentialHistogramDataPoint_bytes v)) (eh_DataPoints orig)))"

definition ExponentialHistogram_wf :: "ExponentialHistogram \<Rightarrow> bool" where
  "ExponentialHistogram_wf orig \<longleftrightarrow> list_all ExponentialHistogramDataPoint_wf (eh_DataPoints orig)"

lemma ExponentialHistogram_decodes:
  assumes "ExponentialHistogram_wf m"
  shows "decodes ExponentialHistogram_field (ExponentialHistogram_bytes m) ExponentialHistogram_zero m"
proof -
  note wf = assms [unfolded ExponentialHistogram_wf_def]
  have 1: "decodes ExponentialHistogram_field ((if eh_AggregationTemporality m \<noteq> 0 then varint_field_bytes [0x10] (scast (eh_AggregationTemporality m)) else []))
      ExponentialHistogram_zero
      (ExponentialHistogram_zero\<lparr>eh_AggregationTemporality := eh_AggregationTemporality m\<rparr>)"
    by (rule decodes_opt_varint [where fn = 2 and enc = scast and dec = ucast and upd = "\<lambda>v. ExponentialHistogram_zero\<lparr>eh_AggregationTemporality := v\<rparr>"]) (simp_all add: ExponentialHistogram_field_def ExponentialHistogram_zero_def ucast_scast_32)
  have 2: "decodes ExponentialHistogram_field (concat (map (\<lambda>v. string_bytes [0x0a] (ExponentialHistogramDataPoint_bytes v)) (eh_DataPoints m)))
      (ExponentialHistogram_zero\<lparr>eh_AggregationTemporality := eh_AggregationTemporality m\<rparr>)
      (ExponentialHistogram_zero\<lparr>eh_AggregationTemporality := eh_AggregationTemporality m, eh_DataPoints := eh_DataPoints m\<rparr>)"
    by (rule exponential_point.decodes_repeated_message [where fn = 1 and upd = "\<lambda>v. ExponentialHistogram_zero\<lparr>eh_AggregationTemporality := eh_AggregationTemporality m, eh_DataPoints := v\<rparr>"]) (simp_all add: ExponentialHistogram_field_def ExponentialHistogram_zero_def wf)
  have eq: "(ExponentialHistogram_zero\<lparr>eh_AggregationTemporality := eh_AggregationTemporality m, eh_DataPoints := eh_DataPoints m\<rparr>) = m"
    by (cases m) (simp add: ExponentialHistogram_zero_def)
  from decodes_append [OF 1 2]
  show ?thesis unfolding eq ExponentialHistogram_bytes_def .
qed

interpretation exponential_data: proto_message ExponentialHistogram_SizeProto ExponentialHistogram_MarshalProto ExponentialHistogram_UnmarshalProto ExponentialHistogram_zero ExponentialHistogram_bytes ExponentialHistogram_wf
proof unfold_locales
  fix m assume wf: "ExponentialHistogram_wf m"
  then show "ExponentialHistogram_SizeProto m = length (ExponentialHistogram_bytes m)"
    unfolding ExponentialHistogram_SizeProto_def ExponentialHistogram_bytes_def ExponentialHistogram_wf_def
    by (simp add: length_if_Nil field_sizes repeated_string_size exponential_point.repeated_size exponential_point.size del: length_concat split del: if_split cong: if_cong)
  show "marshals (ExponentialHistogram_MarshalProto m) (ExponentialHistogram_bytes m)"
    unfolding ExponentialHistogram_MarshalProto_def ExponentialHistogram_bytes_def
    by (intro marshals_body emit) (use wf in \<open>simp_all add: ExponentialHistogram_wf_def\<close>)
  show "ExponentialHistogram_UnmarshalProto (ExponentialHistogram_bytes m) ExponentialHistogram_zero = Some (Inr m)" if "valid_buf (ExponentialHistogram_bytes m)"
    unfolding ExponentialHistogram_UnmarshalProto_def by (rule unmarshal_body_decodes [OF ExponentialHistogram_decodes [OF wf] that])
next
  fix buf and m :: ExponentialHistogram
  assume "valid_buf buf"
  then show "unmarshal_ok (ExponentialHistogram_UnmarshalProto buf m)"
    unfolding ExponentialHistogram_UnmarshalProto_def ExponentialHistogram_field_def by (intro unmarshal_body_ok reader_ok) simp_all
qed

section \<open>Summary\<close>

record Summary =
  sy_DataPoints :: "SummaryDataPoint list"

definition Summary_zero :: Summary where
  "Summary_zero = \<lparr>sy_DataPoints = []\<rparr>"

definition Summary_SizeProto :: "Summary \<Rightarrow> nat" where
  "Summary_SizeProto orig =
     sum_list (map (\<lambda>v. len_size 1 (SummaryDataPoint_SizeProto v)) (sy_DataPoints orig))"

definition Summary_MarshalProto :: "Summary \<Rightarrow> marshaler" where
  "Summary_MarshalProto orig = marshal_body
     (concat (map (\<lambda>v. message_block [0x0a] (SummaryDataPoint_MarshalProto v)) (rev (sy_DataPoints orig))))"

definition Summary_field :: "Summary field_reader" where
  "Summary_field buf fieldNum wireType pos orig =
     (if fieldNum = 1 then read_message SummaryDataPoint_UnmarshalProto SummaryDataPoint_zero (\<lambda>v. orig\<lparr>sy_DataPoints := sy_DataPoints orig @ [v]\<rparr>) buf wireType pos
      else read_unknown orig buf wireType pos)"

definition Summary_UnmarshalProto :: "Summary unmarshaler" where
  "Summary_UnmarshalProto = unmarshal_body Summary_field"

definition Summary_bytes :: "Summary \<Rightarrow> byte list" where
  "Summary_bytes orig =
     concat (map (\<lambda>v. string_bytes [0x0a] (SummaryDataPoint_bytes v)) (sy_DataPoints orig))"

definition Summary_wf :: "Summary \<Rightarrow> bool" where
  "Summary_wf orig \<longleftrightarrow> list_all SummaryDataPoint_wf (sy_DataPoints orig)"

lemma Summary_decodes:
  assumes "Summary_wf m"
  shows "decodes Summary_field (Summary_bytes m) Summary_zero m"
proof -
  note wf = assms [unfolded Summary_wf_def]
  have 1: "decodes Summary_field (concat (map (\<lambda>v. string_bytes [0x0a] (SummaryDataPoint_bytes v)) (sy_DataPoints m)))
      Summary_zero
      (Summary_zero\<lparr>sy_DataPoints := sy_DataPoints m\<rparr>)"
    by (rule summary_point.decodes_repeated_message [where fn = 1 and upd = "\<lambda>v. Summary_zero\<lparr>sy_DataPoints := v\<rparr>"]) (simp_all add: Summary_field_def Summary_zero_def wf)
  have eq: "(Summary_zero\<lparr>sy_DataPoints := sy_DataPoints m\<rparr>) = m"
    by (cases m) (simp add: Summary_zero_def)
  from 1
  show ?thesis unfolding eq Summary_bytes_def .
qed

interpretation summary_data: proto_message Summary_SizeProto Summary_MarshalProto Summary_UnmarshalProto Summary_zero Summary_bytes Summary_wf
proof unfold_locales
  fix m assume wf: "Summary_wf m"
  then show "Summary_SizeProto m = length (Summary_bytes m)"
    unfolding Summary_SizeProto_def Summary_bytes_def Summary_wf_def
    by (simp add: length_if_Nil field_sizes repeated_string_size summary_point.repeated_size summary_point.size del: length_concat split del: if_split cong: if_cong)
  show "marshals (Summary_MarshalProto m) (Summary_bytes m)"
    unfolding Summary_MarshalProto_def Summary_bytes_def
    by (intro marshals_body emit) (use wf in \<open>simp_all add: Summary_wf_def\<close>)
  show "Summary_UnmarshalProto (Summary_bytes m) Summary_zero = Some (Inr m)" if "valid_buf (Summary_bytes m)"
    unfolding Summary_UnmarshalProto_def by (rule unmarshal_body_decodes [OF Summary_decodes [OF wf] that])
next
  fix buf and m :: Summary
  assume "valid_buf buf"
  then show "unmarshal_ok (Summary_UnmarshalProto buf m)"
    unfolding Summary_UnmarshalProto_def Summary_field_def by (intro unmarshal_body_ok reader_ok) simp_all
qed

datatype Metric_Data =
    Metric_nil
  | Metric_Gauge "Gauge option"
  | Metric_Sum "Sum option"
  | Metric_Histogram "Histogram option"
  | Metric_ExponentialHistogram "ExponentialHistogram option"
  | Metric_Summary "Summary option"

fun Metric_Data_SizeProto :: "Metric_Data \<Rightarrow> nat" where
  "Metric_Data_SizeProto Metric_nil = 0"
| "Metric_Data_SizeProto (Metric_Gauge v) = (case v of None \<Rightarrow> 0 | Some d \<Rightarrow> len_size 1 (Gauge_SizeProto d))"
| "Metric_Data_SizeProto (Metric_Sum v) = (case v of None \<Rightarrow> 0 | Some d \<Rightarrow> len_size 1 (Sum_SizeProto d))"
| "Metric_Data_SizeProto (Metric_Histogram v) = (case v of None \<Rightarrow> 0 | Some d \<Rightarrow> len_size 1 (Histogram_SizeProto d))"
| "Metric_Data_SizeProto (Metric_ExponentialHistogram v) = (case v of None \<Rightarrow> 0 | Some d \<Rightarrow> len_size 1 (ExponentialHistogram_SizeProto d))"
| "Metric_Data_SizeProto (Metric_Summary v) = (case v of None \<Rightarrow> 0 | Some d \<Rightarrow> len_size 1 (Summary_SizeProto d))"

fun Metric_Data_MarshalProto :: "Metric_Data \<Rightarrow> writer list" where
  "Metric_Data_MarshalProto Metric_nil = []"
| "Metric_Data_MarshalProto (Metric_Gauge v) = (case v of None \<Rightarrow> [] | Some d \<Rightarrow> message_block [0x2a] (Gauge_MarshalProto d))"
| "Metric_Data_MarshalProto (Metric_Sum v) = (case v of None \<Rightarrow> [] | Some d \<Rightarrow> message_block [0x3a] (Sum_MarshalProto d))"
| "Metric_Data_MarshalProto (Metric_Histogram v) = (case v of None \<Rightarrow> [] | Some d \<Rightarrow> message_block [0x4a] (Histogram_MarshalProto d))"
| "Metric_Data_MarshalProto (Metric_ExponentialHistogram v) = (case v of None \<Rightarrow> [] | Some d \<Rightarrow> message_block [0x52] (ExponentialHistogram_MarshalProto d))"
| "Metric_Data_MarshalProto (Metric_Summary v) = (case v of None \<Rightarrow> [] | Some d \<Rightarrow> message_block [0x5a] (Summary_MarshalProto d))"

fun Metric_Data_bytes :: "Metric_Data \<Rightarrow> byte list" where
  "Metric_Data_bytes Metric_nil = []"
| "Metric_Data_bytes (Metric_Gauge v) = (case v of None \<Rightarrow> [] | Some d \<Rightarrow> string_bytes [0x2a] (Gauge_bytes d))"
| "Metric_Data_bytes (Metric_Sum v) = (case v of None \<Rightarrow> [] | Some d \<Rightarrow> string_bytes [0x3a] (Sum_bytes d))"
| "Metric_Data_bytes (Metric_Histogram v) = (case v of None \<Rightarrow> [] | Some d \<Rightarrow> string_bytes [0x4a] (Histogram_bytes d))"
| "Metric_Data_bytes (Metric_ExponentialHistogram v) = (case v of None \<Rightarrow> [] | Some d \<Rightarrow> string_bytes [0x52] (ExponentialHistogram_bytes d))"
| "Metric_Data_bytes (Metric_Summary v) = (case v of None \<Rightarrow> [] | Some d \<Rightarrow> string_bytes [0x5a] (Summary_bytes d))"

fun Metric_Data_wf :: "Metric_Data \<Rightarrow> bool" where
  "Metric_Data_wf Metric_nil = True"
| "Metric_Data_wf (Metric_Gauge v) = (case v of None \<Rightarrow> False | Some d \<Rightarrow> Gauge_wf d)"
| "Metric_Data_wf (Metric_Sum v) = (case v of None \<Rightarrow> False | Some d \<Rightarrow> Sum_wf d)"
| "Metric_Data_wf (Metric_Histogram v) = (case v of None \<Rightarrow> False | Some d \<Rightarrow> Histogram_wf d)"
| "Metric_Data_wf (Metric_ExponentialHistogram v) = (case v of None \<Rightarrow> False | Some d \<Rightarrow> ExponentialHistogram_wf d)"
| "Metric_Data_wf (Metric_Summary v) = (case v of None \<Rightarrow> False | Some d \<Rightarrow> Summary_wf d)"

lemma Metric_Data_size: "Metric_Data_wf v \<Longrightarrow> length (Metric_Data_bytes v) = Metric_Data_SizeProto v"
  by (cases v) (auto simp: field_sizes gauge.size sum_data.size histogram_data.size exponential_data.size summary_data.size split: option.splits)

lemma Metric_Data_emits [emit]: "Metric_Data_wf v \<Longrightarrow> block_emits (Metric_Data_MarshalProto v) (Metric_Data_bytes v)"
  by (cases v) (auto simp: block_emits_Nil intro!: emit split: option.splits)

section \<open>Metric\<close>

record Metric =
  me_Name :: "byte list"
  me_Description :: "byte list"
  me_Unit :: "byte list"
  me_Data :: Metric_Data
  me_Metadata :: "KeyValue list"

definition Metric_zero :: Metric where
  "Metric_zero = \<lparr>me_Name = [], me_Description = [], me_Unit = [], me_Data = Metric_nil, me_Metadata = []\<rparr>"

definition Metric_SizeProto :: "Metric \<Rightarrow> nat" where
  "Metric_SizeProto orig =
     (if length (me_Name orig) > 0 then len_size 1 (length (me_Name orig)) else 0)
     + (if length (me_Description orig) > 0 then len_size 1 (length (me_Description orig)) else 0)
     + (if length (me_Unit orig) > 0 then len_size 1 (length (me_Unit orig)) else 0)
     + Metric_Data_SizeProto (me_Data orig)
     + sum_list (map (\<lambda>v. len_size 1 (KeyValue_SizeProto v)) (me_Metadata orig))"

definition Metric_MarshalProto :: "Metric \<Rightarrow> marshaler" where
  "Metric_MarshalProto orig = marshal_body
     ((if length (me_Name orig) > 0 then string_block [0x0a] (me_Name orig) else [])
      @ (if length (me_Description orig) > 0 then string_block [0x12] (me_Description orig) else [])
      @ (if length (me_Unit orig) > 0 then string_block [0x1a] (me_Unit orig) else [])
      @ Metric_Data_MarshalProto (me_Data orig)
      @ concat (map (\<lambda>v. message_block [0x62] (KeyValue_MarshalProto v)) (rev (me_Metadata orig))))"

definition Metric_field :: "Metric field_reader" where
  "Metric_field buf fieldNum wireType pos orig =
     (if fieldNum = 1 then read_bytes (\<lambda>s. orig\<lparr>me_Name := s\<rparr>) buf wireType pos
      else if fieldNum = 2 then read_bytes (\<lambda>s. orig\<lparr>me_Description := s\<rparr>) buf wireType pos
      else if fieldNum = 3 then read_bytes (\<lambda>s. orig\<lparr>me_Unit := s\<rparr>) buf wireType pos
      else if fieldNum = 5 then read_message Gauge_UnmarshalProto Gauge_zero (\<lambda>v. orig\<lparr>me_Data := Metric_Gauge (Some v)\<rparr>) buf wireType pos
      else if fieldNum = 7 then read_message Sum_UnmarshalProto Sum_zero (\<lambda>v. orig\<lparr>me_Data := Metric_Sum (Some v)\<rparr>) buf wireType pos
      else if fieldNum = 9 then read_message Histogram_UnmarshalProto Histogram_zero (\<lambda>v. orig\<lparr>me_Data := Metric_Histogram (Some v)\<rparr>) buf wireType pos
      else if fieldNum = 10 then read_message ExponentialHistogram_UnmarshalProto ExponentialHistogram_zero (\<lambda>v. orig\<lparr>me_Data := Metric_ExponentialHistogram (Some v)\<rparr>) buf wireType pos
      else if fieldNum = 11 then read_message Summary_UnmarshalProto Summary_zero (\<lambda>v. orig\<lparr>me_Data := Metric_Summary (Some v)\<rparr>) buf wireType pos
      else if fieldNum = 12 then read_message KeyValue_UnmarshalProto KeyValue_zero (\<lambda>v. orig\<lparr>me_Metadata := me_Metadata orig @ [v]\<rparr>) buf wireType pos
      else read_unknown orig buf wireType pos)"

definition Metric_UnmarshalProto :: "Metric unmarshaler" where
  "Metric_UnmarshalProto = unmarshal_body Metric_field"

definition Metric_bytes :: "Metric \<Rightarrow> byte list" where
  "Metric_bytes orig =
     ((((concat (map (\<lambda>v. string_bytes [0x62] (KeyValue_bytes v)) (me_Metadata orig))
      @ Metric_Data_bytes (me_Data orig))
      @ (if length (me_Unit orig) > 0 then string_bytes [0x1a] (me_Unit orig) else []))
      @ (if length (me_Description orig) > 0 then string_bytes [0x12] (me_Description orig) else []))
      @ (if length (me_Name orig) > 0 then string_bytes [0x0a] (me_Name orig) else []))"

definition Metric_wf :: "Metric \<Rightarrow> bool" where
  "Metric_wf orig \<longleftrightarrow> Metric_Data_wf (me_Data orig) \<and> list_all KeyValue_wf (me_Metadata orig)"

lemma Metric_decodes:
  assumes "Metric_wf m"
  shows "decodes Metric_field (Metric_bytes m) Metric_zero m"
proof -
  note wf = assms [unfolded Metric_wf_def]
  have 1: "decodes Metric_field (concat (map (\<lambda>v. string_bytes [0x62] (KeyValue_bytes v)) (me_Metadata m)))
      Metric_zero
      (Metric_zero\<lparr>me_Metadata := me_Metadata m\<rparr>)"
    by (rule key_value.decodes_repeated_message [where fn = 12 and upd = "\<lambda>v. Metric_zero\<lparr>me_Metadata := v\<rparr>"]) (simp_all add: Metric_field_def Metric_zero_def wf)
  have 2: "decodes Metric_field (Metric_Data_bytes (me_Data m))
      (Metric_zero\<lparr>me_Metadata := me_Metadata m\<rparr>)
      (Metric_zero\<lparr>me_Metadata := me_Metadata m, me_Data := me_Data m\<rparr>)"
  proof (cases "me_Data m")
    case Metric_nil
    then show ?thesis by (simp add: decodes_Nil Metric_zero_def)
  next
    case (Metric_Gauge v)
    with wf obtain d where d: "v = Some d" "Gauge_wf d" by (cases v) auto
    have "decodes Metric_field (string_bytes [0x2a] (Gauge_bytes d))
        (Metric_zero\<lparr>me_Metadata := me_Metadata m\<rparr>)
        (Metric_zero\<lparr>me_Metadata := me_Metadata m, me_Data := Metric_Gauge (Some d)\<rparr>)"
      by (rule gauge.decodes_message [where fn = 5 and upd = "\<lambda>v. Metric_zero\<lparr>me_Metadata := me_Metadata m, me_Data := Metric_Gauge (Some v)\<rparr>"]) (simp_all add: Metric_field_def Metric_zero_def d)
    then show ?thesis by (simp add: Metric_Gauge d)
  next
    case (Metric_Sum v)
    with wf obtain d where d: "v = Some d" "Sum_wf d" by (cases v) auto
    have "decodes Metric_field (string_bytes [0x3a] (Sum_bytes d))
        (Metric_zero\<lparr>me_Metadata := me_Metadata m\<rparr>)
        (Metric_zero\<lparr>me_Metadata := me_Metadata m, me_Data := Metric_Sum (Some d)\<rparr>)"
      by (rule sum_data.decodes_message [where fn = 7 and upd = "\<lambda>v. Metric_zero\<lparr>me_Metadata := me_Metadata m, me_Data := Metric_Sum (Some v)\<rparr>"]) (simp_all add: Metric_field_def Metric_zero_def d)
    then show ?thesis by (simp add: Metric_Sum d)
  next
    case (Metric_Histogram v)
    with wf obtain d where d: "v = Some d" "Histogram_wf d" by (cases v) auto
    have "decodes Metric_field (string_bytes [0x4a] (Histogram_bytes d))
        (Metric_zero\<lparr>me_Metadata := me_Metadata m\<rparr>)
        (Metric_zero\<lparr>me_Metadata := me_Metadata m, me_Data := Metric_Histogram (Some d)\<rparr>)"
      by (rule histogram_data.decodes_message [where fn = 9 and upd = "\<lambda>v. Metric_zero\<lparr>me_Metadata := me_Metadata m, me_Data := Metric_Histogram (Some v)\<rparr>"]) (simp_all add: Metric_field_def Metric_zero_def d)
    then show ?thesis by (simp add: Metric_Histogram d)
  next
    case (Metric_ExponentialHistogram v)
    with wf obtain d where d: "v = Some d" "ExponentialHistogram_wf d" by (cases v) auto
    have "decodes Metric_field (string_bytes [0x52] (ExponentialHistogram_bytes d))
        (Metric_zero\<lparr>me_Metadata := me_Metadata m\<rparr>)
        (Metric_zero\<lparr>me_Metadata := me_Metadata m, me_Data := Metric_ExponentialHistogram (Some d)\<rparr>)"
      by (rule exponential_data.decodes_message [where fn = 10 and upd = "\<lambda>v. Metric_zero\<lparr>me_Metadata := me_Metadata m, me_Data := Metric_ExponentialHistogram (Some v)\<rparr>"]) (simp_all add: Metric_field_def Metric_zero_def d)
    then show ?thesis by (simp add: Metric_ExponentialHistogram d)
  next
    case (Metric_Summary v)
    with wf obtain d where d: "v = Some d" "Summary_wf d" by (cases v) auto
    have "decodes Metric_field (string_bytes [0x5a] (Summary_bytes d))
        (Metric_zero\<lparr>me_Metadata := me_Metadata m\<rparr>)
        (Metric_zero\<lparr>me_Metadata := me_Metadata m, me_Data := Metric_Summary (Some d)\<rparr>)"
      by (rule summary_data.decodes_message [where fn = 11 and upd = "\<lambda>v. Metric_zero\<lparr>me_Metadata := me_Metadata m, me_Data := Metric_Summary (Some v)\<rparr>"]) (simp_all add: Metric_field_def Metric_zero_def d)
    then show ?thesis by (simp add: Metric_Summary d)
  qed
  have 3: "decodes Metric_field ((if length (me_Unit m) > 0 then string_bytes [0x1a] (me_Unit m) else []))
      (Metric_zero\<lparr>me_Metadata := me_Metadata m, me_Data := me_Data m\<rparr>)
      (Metric_zero\<lparr>me_Metadata := me_Metadata m, me_Data := me_Data m, me_Unit := me_Unit m\<rparr>)"
    by (rule decodes_opt_string [where fn = 3 and upd = "\<lambda>v. Metric_zero\<lparr>me_Metadata := me_Metadata m, me_Data := me_Data m, me_Unit := v\<rparr>"]) (simp_all add: Metric_field_def Metric_zero_def)
  have 4: "decodes Metric_field ((if length (me_Description m) > 0 then string_bytes [0x12] (me_Description m) else []))
      (Metric_zero\<lparr>me_Metadata := me_Metadata m, me_Data := me_Data m, me_Unit := me_Unit m\<rparr>)
      (Metric_zero\<lparr>me_Metadata := me_Metadata m, me_Data := me_Data m, me_Unit := me_Unit m, me_Description := me_Description m\<rparr>)"
    by (rule decodes_opt_string [where fn = 2 and upd = "\<lambda>v. Metric_zero\<lparr>me_Metadata := me_Metadata m, me_Data := me_Data m, me_Unit := me_Unit m, me_Description := v\<rparr>"]) (simp_all add: Metric_field_def Metric_zero_def)
  have 5: "decodes Metric_field ((if length (me_Name m) > 0 then string_bytes [0x0a] (me_Name m) else []))
      (Metric_zero\<lparr>me_Metadata := me_Metadata m, me_Data := me_Data m, me_Unit := me_Unit m, me_Description := me_Description m\<rparr>)
      (Metric_zero\<lparr>me_Metadata := me_Metadata m, me_Data := me_Data m, me_Unit := me_Unit m, me_Description := me_Description m, me_Name := me_Name m\<rparr>)"
    by (rule decodes_opt_string [where fn = 1 and upd = "\<lambda>v. Metric_zero\<lparr>me_Metadata := me_Metadata m, me_Data := me_Data m, me_Unit := me_Unit m, me_Description := me_Description m, me_Name := v\<rparr>"]) (simp_all add: Metric_field_def Metric_zero_def)
  have eq: "(Metric_zero\<lparr>me_Metadata := me_Metadata m, me_Data := me_Data m, me_Unit := me_Unit m, me_Description := me_Description m, me_Name := me_Name m\<rparr>) = m"
    by (cases m) (simp add: Metric_zero_def)
  from decodes_append [OF decodes_append [OF decodes_append [OF decodes_append [OF 1 2] 3] 4] 5]
  show ?thesis unfolding eq Metric_bytes_def .
qed

interpretation metric_message: proto_message Metric_SizeProto Metric_MarshalProto Metric_UnmarshalProto Metric_zero Metric_bytes Metric_wf
proof unfold_locales
  fix m assume wf: "Metric_wf m"
  then show "Metric_SizeProto m = length (Metric_bytes m)"
    unfolding Metric_SizeProto_def Metric_bytes_def Metric_wf_def
    by (simp add: length_if_Nil field_sizes repeated_string_size Metric_Data_size key_value.repeated_size key_value.size del: length_concat split del: if_split cong: if_cong)
  show "marshals (Metric_MarshalProto m) (Metric_bytes m)"
    unfolding Metric_MarshalProto_def Metric_bytes_def
    by (intro marshals_body emit) (use wf in \<open>simp_all add: Metric_wf_def\<close>)
  show "Metric_UnmarshalProto (Metric_bytes m) Metric_zero = Some (Inr m)" if "valid_buf (Metric_bytes m)"
    unfolding Metric_UnmarshalProto_def by (rule unmarshal_body_decodes [OF Metric_decodes [OF wf] that])
next
  fix buf and m :: Metric
  assume "valid_buf buf"
  then show "unmarshal_ok (Metric_UnmarshalProto buf m)"
    unfolding Metric_UnmarshalProto_def Metric_field_def by (intro unmarshal_body_ok reader_ok) simp_all
qed

section \<open>ScopeMetrics\<close>

record ScopeMetrics =
  sm_Scope :: InstrumentationScope
  sm_Metrics :: "Metric list"
  sm_SchemaUrl :: "byte list"

definition ScopeMetrics_zero :: ScopeMetrics where
  "ScopeMetrics_zero = \<lparr>sm_Scope = InstrumentationScope_zero, sm_Metrics = [], sm_SchemaUrl = []\<rparr>"

definition ScopeMetrics_SizeProto :: "ScopeMetrics \<Rightarrow> nat" where
  "ScopeMetrics_SizeProto orig =
     len_size 1 (InstrumentationScope_SizeProto (sm_Scope orig))
     + sum_list (map (\<lambda>v. len_size 1 (Metric_SizeProto v)) (sm_Metrics orig))
     + (if length (sm_SchemaUrl orig) > 0 then len_size 1 (length (sm_SchemaUrl orig)) else 0)"

definition ScopeMetrics_MarshalProto :: "ScopeMetrics \<Rightarrow> marshaler" where
  "ScopeMetrics_MarshalProto orig = marshal_body
     (message_block [0x0a] (InstrumentationScope_MarshalProto (sm_Scope orig))
      @ concat (map (\<lambda>v. message_block [0x12] (Metric_MarshalProto v)) (rev (sm_Metrics orig)))
      @ (if length (sm_SchemaUrl orig) > 0 then string_block [0x1a] (sm_SchemaUrl orig) else []))"

definition ScopeMetrics_field :: "ScopeMetrics field_reader" where
  "ScopeMetrics_field buf fieldNum wireType pos orig =
     (if fieldNum = 1 then read_message InstrumentationScope_UnmarshalProto (sm_Scope orig) (\<lambda>v. orig\<lparr>sm_Scope := v\<rparr>) buf wireType pos
      else if fieldNum = 2 then read_message Metric_UnmarshalProto Metric_zero (\<lambda>v. orig\<lparr>sm_Metrics := sm_Metrics orig @ [v]\<rparr>) buf wireType pos
      else if fieldNum = 3 then read_bytes (\<lambda>s. orig\<lparr>sm_SchemaUrl := s\<rparr>) buf wireType pos
      else read_unknown orig buf wireType pos)"

definition ScopeMetrics_UnmarshalProto :: "ScopeMetrics unmarshaler" where
  "ScopeMetrics_UnmarshalProto = unmarshal_body ScopeMetrics_field"

definition ScopeMetrics_bytes :: "ScopeMetrics \<Rightarrow> byte list" where
  "ScopeMetrics_bytes orig =
     (((if length (sm_SchemaUrl orig) > 0 then string_bytes [0x1a] (sm_SchemaUrl orig) else [])
      @ concat (map (\<lambda>v. string_bytes [0x12] (Metric_bytes v)) (sm_Metrics orig)))
      @ string_bytes [0x0a] (InstrumentationScope_bytes (sm_Scope orig)))"

definition ScopeMetrics_wf :: "ScopeMetrics \<Rightarrow> bool" where
  "ScopeMetrics_wf orig \<longleftrightarrow> InstrumentationScope_wf (sm_Scope orig) \<and> list_all Metric_wf (sm_Metrics orig)"

lemma ScopeMetrics_decodes:
  assumes "ScopeMetrics_wf m"
  shows "decodes ScopeMetrics_field (ScopeMetrics_bytes m) ScopeMetrics_zero m"
proof -
  note wf = assms [unfolded ScopeMetrics_wf_def]
  have 1: "decodes ScopeMetrics_field ((if length (sm_SchemaUrl m) > 0 then string_bytes [0x1a] (sm_SchemaUrl m) else []))
      ScopeMetrics_zero
      (ScopeMetrics_zero\<lparr>sm_SchemaUrl := sm_SchemaUrl m\<rparr>)"
    by (rule decodes_opt_string [where fn = 3 and upd = "\<lambda>v. ScopeMetrics_zero\<lparr>sm_SchemaUrl := v\<rparr>"]) (simp_all add: ScopeMetrics_field_def ScopeMetrics_zero_def)
  have 2: "decodes ScopeMetrics_field (concat (map (\<lambda>v. string_bytes [0x12] (Metric_bytes v)) (sm_Metrics m)))
      (ScopeMetrics_zero\<lparr>sm_SchemaUrl := sm_SchemaUrl m\<rparr>)
      (ScopeMetrics_zero\<lparr>sm_SchemaUrl := sm_SchemaUrl m, sm_Metrics := sm_Metrics m\<rparr>)"
    by (rule metric_message.decodes_repeated_message [where fn = 2 and upd = "\<lambda>v. ScopeMetrics_zero\<lparr>sm_SchemaUrl := sm_SchemaUrl m, sm_Metrics := v\<rparr>"]) (simp_all add: ScopeMetrics_field_def ScopeMetrics_zero_def wf)
  have 3: "decodes ScopeMetrics_field (string_bytes [0x0a] (InstrumentationScope_bytes (sm_Scope m)))
      (ScopeMetrics_zero\<lparr>sm_SchemaUrl := sm_SchemaUrl m, sm_Metrics := sm_Metrics m\<rparr>)
      (ScopeMetrics_zero\<lparr>sm_SchemaUrl := sm_SchemaUrl m, sm_Metrics := sm_Metrics m, sm_Scope := sm_Scope m\<rparr>)"
    by (rule scope.decodes_message [where fn = 1 and upd = "\<lambda>v. ScopeMetrics_zero\<lparr>sm_SchemaUrl := sm_SchemaUrl m, sm_Metrics := sm_Metrics m, sm_Scope := v\<rparr>"]) (simp_all add: ScopeMetrics_field_def ScopeMetrics_zero_def wf)
  have eq: "(ScopeMetrics_zero\<lparr>sm_SchemaUrl := sm_SchemaUrl m, sm_Metrics := sm_Metrics m, sm_Scope := sm_Scope m\<rparr>) = m"
    by (cases m) (simp add: ScopeMetrics_zero_def)
  from decodes_append [OF decodes_append [OF 1 2] 3]
  show ?thesis unfolding eq ScopeMetrics_bytes_def .
qed

interpretation scope_metrics: proto_message ScopeMetrics_SizeProto ScopeMetrics_MarshalProto ScopeMetrics_UnmarshalProto ScopeMetrics_zero ScopeMetrics_bytes ScopeMetrics_wf
proof unfold_locales
  fix m assume wf: "ScopeMetrics_wf m"
  then show "ScopeMetrics_SizeProto m = length (ScopeMetrics_bytes m)"
    unfolding ScopeMetrics_SizeProto_def ScopeMetrics_bytes_def ScopeMetrics_wf_def
    by (simp add: length_if_Nil field_sizes repeated_string_size scope.repeated_size scope.size metric_message.repeated_size metric_message.size del: length_concat split del: if_split cong: if_cong)
  show "marshals (ScopeMetrics_MarshalProto m) (ScopeMetrics_bytes m)"
    unfolding ScopeMetrics_MarshalProto_def ScopeMetrics_bytes_def
    by (intro marshals_body emit) (use wf in \<open>simp_all add: ScopeMetrics_wf_def\<close>)
  show "ScopeMetrics_UnmarshalProto (ScopeMetrics_bytes m) ScopeMetrics_zero = Some (Inr m)" if "valid_buf (ScopeMetrics_bytes m)"
    unfolding ScopeMetrics_UnmarshalProto_def by (rule unmarshal_body_decodes [OF ScopeMetrics_decodes [OF wf] that])
next
  fix buf and m :: ScopeMetrics
  assume "valid_buf buf"
  then show "unmarshal_ok (ScopeMetrics_UnmarshalProto buf m)"
    unfolding ScopeMetrics_UnmarshalProto_def ScopeMetrics_field_def by (intro unmarshal_body_ok reader_ok) simp_all
qed

section \<open>ResourceMetrics\<close>

record ResourceMetrics =
  rc_Resource :: Resource
  rc_ScopeMetrics :: "ScopeMetrics list"
  rc_SchemaUrl :: "byte list"
  rc_DeprecatedScopeMetrics :: "ScopeMetrics list"

definition ResourceMetrics_zero :: ResourceMetrics where
  "ResourceMetrics_zero = \<lparr>rc_Resource = Resource_zero, rc_ScopeMetrics = [], rc_SchemaUrl = [], rc_DeprecatedScopeMetrics = []\<rparr>"

definition ResourceMetrics_SizeProto :: "ResourceMetrics \<Rightarrow> nat" where
  "ResourceMetrics_SizeProto orig =
     len_size 1 (Resource_SizeProto (rc_Resource orig))
     + sum_list (map (\<lambda>v. len_size 1 (ScopeMetrics_SizeProto v)) (rc_ScopeMetrics orig))
     + (if length (rc_SchemaUrl orig) > 0 then len_size 1 (length (rc_SchemaUrl orig)) else 0)
     + sum_list (map (\<lambda>v. len_size 2 (ScopeMetrics_SizeProto v)) (rc_DeprecatedScopeMetrics orig))"

definition ResourceMetrics_MarshalProto :: "ResourceMetrics \<Rightarrow> marshaler" where
  "ResourceMetrics_MarshalProto orig = marshal_body
     (message_block [0x0a] (Resource_MarshalProto (rc_Resource orig))
      @ concat (map (\<lambda>v. message_block [0x12] (ScopeMetrics_MarshalProto v)) (rev (rc_ScopeMetrics orig)))
      @ (if length (rc_SchemaUrl orig) > 0 then string_block [0x1a] (rc_SchemaUrl orig) else [])
      @ concat (map (\<lambda>v. message_block [0xc2, 0x3e] (ScopeMetrics_MarshalProto v)) (rev (rc_DeprecatedScopeMetrics orig))))"

definition ResourceMetrics_field :: "ResourceMetrics field_reader" where
  "ResourceMetrics_field buf fieldNum wireType pos orig =
     (if fieldNum = 1 then read_message Resource_UnmarshalProto (rc_Resource orig) (\<lambda>v. orig\<lparr>rc_Resource := v\<rparr>) buf wireType pos
      else if fieldNum = 2 then read_message ScopeMetrics_UnmarshalProto ScopeMetrics_zero (\<lambda>v. orig\<lparr>rc_ScopeMetrics := rc_ScopeMetrics orig @ [v]\<rparr>) buf wireType pos
      else if fieldNum = 3 then read_bytes (\<lambda>s. orig\<lparr>rc_SchemaUrl := s\<rparr>) buf wireType pos
      else if fieldNum = 1000 then read_message ScopeMetrics_UnmarshalProto ScopeMetrics_zero (\<lambda>v. orig\<lparr>rc_DeprecatedScopeMetrics := rc_DeprecatedScopeMetrics orig @ [v]\<rparr>) buf wireType pos
      else read_unknown orig buf wireType pos)"

definition ResourceMetrics_UnmarshalProto :: "ResourceMetrics unmarshaler" where
  "ResourceMetrics_UnmarshalProto = unmarshal_body ResourceMetrics_field"

definition ResourceMetrics_bytes :: "ResourceMetrics \<Rightarrow> byte list" where
  "ResourceMetrics_bytes orig =
     (((concat (map (\<lambda>v. string_bytes [0xc2, 0x3e] (ScopeMetrics_bytes v)) (rc_DeprecatedScopeMetrics orig))
      @ (if length (rc_SchemaUrl orig) > 0 then string_bytes [0x1a] (rc_SchemaUrl orig) else []))
      @ concat (map (\<lambda>v. string_bytes [0x12] (ScopeMetrics_bytes v)) (rc_ScopeMetrics orig)))
      @ string_bytes [0x0a] (Resource_bytes (rc_Resource orig)))"

definition ResourceMetrics_wf :: "ResourceMetrics \<Rightarrow> bool" where
  "ResourceMetrics_wf orig \<longleftrightarrow> Resource_wf (rc_Resource orig) \<and> list_all ScopeMetrics_wf (rc_ScopeMetrics orig) \<and> list_all ScopeMetrics_wf (rc_DeprecatedScopeMetrics orig)"

lemma ResourceMetrics_decodes:
  assumes "ResourceMetrics_wf m"
  shows "decodes ResourceMetrics_field (ResourceMetrics_bytes m) ResourceMetrics_zero m"
proof -
  note wf = assms [unfolded ResourceMetrics_wf_def]
  have 1: "decodes ResourceMetrics_field (concat (map (\<lambda>v. string_bytes [0xc2, 0x3e] (ScopeMetrics_bytes v)) (rc_DeprecatedScopeMetrics m)))
      ResourceMetrics_zero
      (ResourceMetrics_zero\<lparr>rc_DeprecatedScopeMetrics := rc_DeprecatedScopeMetrics m\<rparr>)"
    by (rule scope_metrics.decodes_repeated_message [where fn = 1000 and upd = "\<lambda>v. ResourceMetrics_zero\<lparr>rc_DeprecatedScopeMetrics := v\<rparr>"]) (simp_all add: ResourceMetrics_field_def ResourceMetrics_zero_def wf)
  have 2: "decodes ResourceMetrics_field ((if length (rc_SchemaUrl m) > 0 then string_bytes [0x1a] (rc_SchemaUrl m) else []))
      (ResourceMetrics_zero\<lparr>rc_DeprecatedScopeMetrics := rc_DeprecatedScopeMetrics m\<rparr>)
      (ResourceMetrics_zero\<lparr>rc_DeprecatedScopeMetrics := rc_DeprecatedScopeMetrics m, rc_SchemaUrl := rc_SchemaUrl m\<rparr>)"
    by (rule decodes_opt_string [where fn = 3 and upd = "\<lambda>v. ResourceMetrics_zero\<lparr>rc_DeprecatedScopeMetrics := rc_DeprecatedScopeMetrics m, rc_SchemaUrl := v\<rparr>"]) (simp_all add: ResourceMetrics_field_def ResourceMetrics_zero_def)
  have 3: "decodes ResourceMetrics_field (concat (map (\<lambda>v. string_bytes [0x12] (ScopeMetrics_bytes v)) (rc_ScopeMetrics m)))
      (ResourceMetrics_zero\<lparr>rc_DeprecatedScopeMetrics := rc_DeprecatedScopeMetrics m, rc_SchemaUrl := rc_SchemaUrl m\<rparr>)
      (ResourceMetrics_zero\<lparr>rc_DeprecatedScopeMetrics := rc_DeprecatedScopeMetrics m, rc_SchemaUrl := rc_SchemaUrl m, rc_ScopeMetrics := rc_ScopeMetrics m\<rparr>)"
    by (rule scope_metrics.decodes_repeated_message [where fn = 2 and upd = "\<lambda>v. ResourceMetrics_zero\<lparr>rc_DeprecatedScopeMetrics := rc_DeprecatedScopeMetrics m, rc_SchemaUrl := rc_SchemaUrl m, rc_ScopeMetrics := v\<rparr>"]) (simp_all add: ResourceMetrics_field_def ResourceMetrics_zero_def wf)
  have 4: "decodes ResourceMetrics_field (string_bytes [0x0a] (Resource_bytes (rc_Resource m)))
      (ResourceMetrics_zero\<lparr>rc_DeprecatedScopeMetrics := rc_DeprecatedScopeMetrics m, rc_SchemaUrl := rc_SchemaUrl m, rc_ScopeMetrics := rc_ScopeMetrics m\<rparr>)
      (ResourceMetrics_zero\<lparr>rc_DeprecatedScopeMetrics := rc_DeprecatedScopeMetrics m, rc_SchemaUrl := rc_SchemaUrl m, rc_ScopeMetrics := rc_ScopeMetrics m, rc_Resource := rc_Resource m\<rparr>)"
    by (rule resource.decodes_message [where fn = 1 and upd = "\<lambda>v. ResourceMetrics_zero\<lparr>rc_DeprecatedScopeMetrics := rc_DeprecatedScopeMetrics m, rc_SchemaUrl := rc_SchemaUrl m, rc_ScopeMetrics := rc_ScopeMetrics m, rc_Resource := v\<rparr>"]) (simp_all add: ResourceMetrics_field_def ResourceMetrics_zero_def wf)
  have eq: "(ResourceMetrics_zero\<lparr>rc_DeprecatedScopeMetrics := rc_DeprecatedScopeMetrics m, rc_SchemaUrl := rc_SchemaUrl m, rc_ScopeMetrics := rc_ScopeMetrics m, rc_Resource := rc_Resource m\<rparr>) = m"
    by (cases m) (simp add: ResourceMetrics_zero_def)
  from decodes_append [OF decodes_append [OF decodes_append [OF 1 2] 3] 4]
  show ?thesis unfolding eq ResourceMetrics_bytes_def .
qed

interpretation resource_metrics: proto_message ResourceMetrics_SizeProto ResourceMetrics_MarshalProto ResourceMetrics_UnmarshalProto ResourceMetrics_zero ResourceMetrics_bytes ResourceMetrics_wf
proof unfold_locales
  fix m assume wf: "ResourceMetrics_wf m"
  then show "ResourceMetrics_SizeProto m = length (ResourceMetrics_bytes m)"
    unfolding ResourceMetrics_SizeProto_def ResourceMetrics_bytes_def ResourceMetrics_wf_def
    by (simp add: length_if_Nil field_sizes repeated_string_size resource.repeated_size resource.size scope_metrics.repeated_size scope_metrics.size del: length_concat split del: if_split cong: if_cong)
  show "marshals (ResourceMetrics_MarshalProto m) (ResourceMetrics_bytes m)"
    unfolding ResourceMetrics_MarshalProto_def ResourceMetrics_bytes_def
    by (intro marshals_body emit) (use wf in \<open>simp_all add: ResourceMetrics_wf_def\<close>)
  show "ResourceMetrics_UnmarshalProto (ResourceMetrics_bytes m) ResourceMetrics_zero = Some (Inr m)" if "valid_buf (ResourceMetrics_bytes m)"
    unfolding ResourceMetrics_UnmarshalProto_def by (rule unmarshal_body_decodes [OF ResourceMetrics_decodes [OF wf] that])
next
  fix buf and m :: ResourceMetrics
  assume "valid_buf buf"
  then show "unmarshal_ok (ResourceMetrics_UnmarshalProto buf m)"
    unfolding ResourceMetrics_UnmarshalProto_def ResourceMetrics_field_def by (intro unmarshal_body_ok reader_ok) simp_all
qed

section \<open>MetricsData\<close>

record MetricsData =
  md_ResourceMetrics :: "ResourceMetrics list"

definition MetricsData_zero :: MetricsData where
  "MetricsData_zero = \<lparr>md_ResourceMetrics = []\<rparr>"

definition MetricsData_SizeProto :: "MetricsData \<Rightarrow> nat" where
  "MetricsData_SizeProto orig =
     sum_list (map (\<lambda>v. len_size 1 (ResourceMetrics_SizeProto v)) (md_ResourceMetrics orig))"

definition MetricsData_MarshalProto :: "MetricsData \<Rightarrow> marshaler" where
  "MetricsData_MarshalProto orig = marshal_body
     (concat (map (\<lambda>v. message_block [0x0a] (ResourceMetrics_MarshalProto v)) (rev (md_ResourceMetrics orig))))"

definition MetricsData_field :: "MetricsData field_reader" where
  "MetricsData_field buf fieldNum wireType pos orig =
     (if fieldNum = 1 then read_message ResourceMetrics_UnmarshalProto ResourceMetrics_zero (\<lambda>v. orig\<lparr>md_ResourceMetrics := md_ResourceMetrics orig @ [v]\<rparr>) buf wireType pos
      else read_unknown orig buf wireType pos)"

definition MetricsData_UnmarshalProto :: "MetricsData unmarshaler" where
  "MetricsData_UnmarshalProto = unmarshal_body MetricsData_field"

definition MetricsData_bytes :: "MetricsData \<Rightarrow> byte list" where
  "MetricsData_bytes orig =
     concat (map (\<lambda>v. string_bytes [0x0a] (ResourceMetrics_bytes v)) (md_ResourceMetrics orig))"

definition MetricsData_wf :: "MetricsData \<Rightarrow> bool" where
  "MetricsData_wf orig \<longleftrightarrow> list_all ResourceMetrics_wf (md_ResourceMetrics orig)"

lemma MetricsData_decodes:
  assumes "MetricsData_wf m"
  shows "decodes MetricsData_field (MetricsData_bytes m) MetricsData_zero m"
proof -
  note wf = assms [unfolded MetricsData_wf_def]
  have 1: "decodes MetricsData_field (concat (map (\<lambda>v. string_bytes [0x0a] (ResourceMetrics_bytes v)) (md_ResourceMetrics m)))
      MetricsData_zero
      (MetricsData_zero\<lparr>md_ResourceMetrics := md_ResourceMetrics m\<rparr>)"
    by (rule resource_metrics.decodes_repeated_message [where fn = 1 and upd = "\<lambda>v. MetricsData_zero\<lparr>md_ResourceMetrics := v\<rparr>"]) (simp_all add: MetricsData_field_def MetricsData_zero_def wf)
  have eq: "(MetricsData_zero\<lparr>md_ResourceMetrics := md_ResourceMetrics m\<rparr>) = m"
    by (cases m) (simp add: MetricsData_zero_def)
  from 1
  show ?thesis unfolding eq MetricsData_bytes_def .
qed

interpretation metrics_data_message: proto_message MetricsData_SizeProto MetricsData_MarshalProto MetricsData_UnmarshalProto MetricsData_zero MetricsData_bytes MetricsData_wf
proof unfold_locales
  fix m assume wf: "MetricsData_wf m"
  then show "MetricsData_SizeProto m = length (MetricsData_bytes m)"
    unfolding MetricsData_SizeProto_def MetricsData_bytes_def MetricsData_wf_def
    by (simp add: length_if_Nil field_sizes repeated_string_size resource_metrics.repeated_size resource_metrics.size del: length_concat split del: if_split cong: if_cong)
  show "marshals (MetricsData_MarshalProto m) (MetricsData_bytes m)"
    unfolding MetricsData_MarshalProto_def MetricsData_bytes_def
    by (intro marshals_body emit) (use wf in \<open>simp_all add: MetricsData_wf_def\<close>)
  show "MetricsData_UnmarshalProto (MetricsData_bytes m) MetricsData_zero = Some (Inr m)" if "valid_buf (MetricsData_bytes m)"
    unfolding MetricsData_UnmarshalProto_def by (rule unmarshal_body_decodes [OF MetricsData_decodes [OF wf] that])
next
  fix buf and m :: MetricsData
  assume "valid_buf buf"
  then show "unmarshal_ok (MetricsData_UnmarshalProto buf m)"
    unfolding MetricsData_UnmarshalProto_def MetricsData_field_def by (intro unmarshal_body_ok reader_ok) simp_all
qed

section \<open>ExportMetricsServiceRequest\<close>

record ExportMetricsServiceRequest =
  mq_ResourceMetrics :: "ResourceMetrics list"

definition ExportMetricsServiceRequest_zero :: ExportMetricsServiceRequest where
  "ExportMetricsServiceRequest_zero = \<lparr>mq_ResourceMetrics = []\<rparr>"

definition ExportMetricsServiceRequest_SizeProto :: "ExportMetricsServiceRequest \<Rightarrow> nat" where
  "ExportMetricsServiceRequest_SizeProto orig =
     sum_list (map (\<lambda>v. len_size 1 (ResourceMetrics_SizeProto v)) (mq_ResourceMetrics orig))"

definition ExportMetricsServiceRequest_MarshalProto :: "ExportMetricsServiceRequest \<Rightarrow> marshaler" where
  "ExportMetricsServiceRequest_MarshalProto orig = marshal_body
     (concat (map (\<lambda>v. message_block [0x0a] (ResourceMetrics_MarshalProto v)) (rev (mq_ResourceMetrics orig))))"

definition ExportMetricsServiceRequest_field :: "ExportMetricsServiceRequest field_reader" where
  "ExportMetricsServiceRequest_field buf fieldNum wireType pos orig =
     (if fieldNum = 1 then read_message ResourceMetrics_UnmarshalProto ResourceMetrics_zero (\<lambda>v. orig\<lparr>mq_ResourceMetrics := mq_ResourceMetrics orig @ [v]\<rparr>) buf wireType pos
      else read_unknown orig buf wireType pos)"

definition ExportMetricsServiceRequest_UnmarshalProto :: "ExportMetricsServiceRequest unmarshaler" where
  "ExportMetricsServiceRequest_UnmarshalProto = unmarshal_body ExportMetricsServiceRequest_field"

definition ExportMetricsServiceRequest_bytes :: "ExportMetricsServiceRequest \<Rightarrow> byte list" where
  "ExportMetricsServiceRequest_bytes orig =
     concat (map (\<lambda>v. string_bytes [0x0a] (ResourceMetrics_bytes v)) (mq_ResourceMetrics orig))"

definition ExportMetricsServiceRequest_wf :: "ExportMetricsServiceRequest \<Rightarrow> bool" where
  "ExportMetricsServiceRequest_wf orig \<longleftrightarrow> list_all ResourceMetrics_wf (mq_ResourceMetrics orig)"

lemma ExportMetricsServiceRequest_decodes:
  assumes "ExportMetricsServiceRequest_wf m"
  shows "decodes ExportMetricsServiceRequest_field (ExportMetricsServiceRequest_bytes m) ExportMetricsServiceRequest_zero m"
proof -
  note wf = assms [unfolded ExportMetricsServiceRequest_wf_def]
  have 1: "decodes ExportMetricsServiceRequest_field (concat (map (\<lambda>v. string_bytes [0x0a] (ResourceMetrics_bytes v)) (mq_ResourceMetrics m)))
      ExportMetricsServiceRequest_zero
      (ExportMetricsServiceRequest_zero\<lparr>mq_ResourceMetrics := mq_ResourceMetrics m\<rparr>)"
    by (rule resource_metrics.decodes_repeated_message [where fn = 1 and upd = "\<lambda>v. ExportMetricsServiceRequest_zero\<lparr>mq_ResourceMetrics := v\<rparr>"]) (simp_all add: ExportMetricsServiceRequest_field_def ExportMetricsServiceRequest_zero_def wf)
  have eq: "(ExportMetricsServiceRequest_zero\<lparr>mq_ResourceMetrics := mq_ResourceMetrics m\<rparr>) = m"
    by (cases m) (simp add: ExportMetricsServiceRequest_zero_def)
  from 1
  show ?thesis unfolding eq ExportMetricsServiceRequest_bytes_def .
qed

interpretation metrics_request_proto: proto_message ExportMetricsServiceRequest_SizeProto ExportMetricsServiceRequest_MarshalProto ExportMetricsServiceRequest_UnmarshalProto ExportMetricsServiceRequest_zero ExportMetricsServiceRequest_bytes ExportMetricsServiceRequest_wf
proof unfold_locales
  fix m assume wf: "ExportMetricsServiceRequest_wf m"
  then show "ExportMetricsServiceRequest_SizeProto m = length (ExportMetricsServiceRequest_bytes m)"
    unfolding ExportMetricsServiceRequest_SizeProto_def ExportMetricsServiceRequest_bytes_def ExportMetricsServiceRequest_wf_def
    by (simp add: length_if_Nil field_sizes repeated_string_size resource_metrics.repeated_size resource_metrics.size del: length_concat split del: if_split cong: if_cong)
  show "marshals (ExportMetricsServiceRequest_MarshalProto m) (ExportMetricsServiceRequest_bytes m)"
    unfolding ExportMetricsServiceRequest_MarshalProto_def ExportMetricsServiceRequest_bytes_def
    by (intro marshals_body emit) (use wf in \<open>simp_all add: ExportMetricsServiceRequest_wf_def\<close>)
  show "ExportMetricsServiceRequest_UnmarshalProto (ExportMetricsServiceRequest_bytes m) ExportMetricsServiceRequest_zero = Some (Inr m)" if "valid_buf (ExportMetricsServiceRequest_bytes m)"
    unfolding ExportMetricsServiceRequest_UnmarshalProto_def by (rule unmarshal_body_decodes [OF ExportMetricsServiceRequest_decodes [OF wf] that])
next
  fix buf and m :: ExportMetricsServiceRequest
  assume "valid_buf buf"
  then show "unmarshal_ok (ExportMetricsServiceRequest_UnmarshalProto buf m)"
    unfolding ExportMetricsServiceRequest_UnmarshalProto_def ExportMetricsServiceRequest_field_def by (intro unmarshal_body_ok reader_ok) simp_all
qed

section \<open>ExportMetricsPartialSuccess\<close>

record ExportMetricsPartialSuccess =
  mp_RejectedDataPoints :: u64
  mp_ErrorMessage :: "byte list"

definition ExportMetricsPartialSuccess_zero :: ExportMetricsPartialSuccess where
  "ExportMetricsPartialSuccess_zero = \<lparr>mp_RejectedDataPoints = 0, mp_ErrorMessage = []\<rparr>"

definition ExportMetricsPartialSuccess_SizeProto :: "ExportMetricsPartialSuccess \<Rightarrow> nat" where
  "ExportMetricsPartialSuccess_SizeProto orig =
     (if mp_RejectedDataPoints orig \<noteq> 0 then 1 + Sov (mp_RejectedDataPoints orig) else 0)
     + (if length (mp_ErrorMessage orig) > 0 then len_size 1 (length (mp_ErrorMessage orig)) else 0)"

definition ExportMetricsPartialSuccess_MarshalProto :: "ExportMetricsPartialSuccess \<Rightarrow> marshaler" where
  "ExportMetricsPartialSuccess_MarshalProto orig = marshal_body
     ((if mp_RejectedDataPoints orig \<noteq> 0 then varint_block [0x08] (mp_RejectedDataPoints orig) else [])
      @ (if length (mp_ErrorMessage orig) > 0 then string_block [0x12] (mp_ErrorMessage orig) else []))"

definition ExportMetricsPartialSuccess_field :: "ExportMetricsPartialSuccess field_reader" where
  "ExportMetricsPartialSuccess_field buf fieldNum wireType pos orig =
     (if fieldNum = 1 then read_varint (\<lambda>num. orig\<lparr>mp_RejectedDataPoints := num\<rparr>) buf wireType pos
      else if fieldNum = 2 then read_bytes (\<lambda>s. orig\<lparr>mp_ErrorMessage := s\<rparr>) buf wireType pos
      else read_unknown orig buf wireType pos)"

definition ExportMetricsPartialSuccess_UnmarshalProto :: "ExportMetricsPartialSuccess unmarshaler" where
  "ExportMetricsPartialSuccess_UnmarshalProto = unmarshal_body ExportMetricsPartialSuccess_field"

definition ExportMetricsPartialSuccess_bytes :: "ExportMetricsPartialSuccess \<Rightarrow> byte list" where
  "ExportMetricsPartialSuccess_bytes orig =
     ((if length (mp_ErrorMessage orig) > 0 then string_bytes [0x12] (mp_ErrorMessage orig) else [])
      @ (if mp_RejectedDataPoints orig \<noteq> 0 then varint_field_bytes [0x08] (mp_RejectedDataPoints orig) else []))"

definition ExportMetricsPartialSuccess_wf :: "ExportMetricsPartialSuccess \<Rightarrow> bool" where
  "ExportMetricsPartialSuccess_wf orig \<longleftrightarrow> True"

lemma ExportMetricsPartialSuccess_decodes:
  assumes "ExportMetricsPartialSuccess_wf m"
  shows "decodes ExportMetricsPartialSuccess_field (ExportMetricsPartialSuccess_bytes m) ExportMetricsPartialSuccess_zero m"
proof -
  have 1: "decodes ExportMetricsPartialSuccess_field ((if length (mp_ErrorMessage m) > 0 then string_bytes [0x12] (mp_ErrorMessage m) else []))
      ExportMetricsPartialSuccess_zero
      (ExportMetricsPartialSuccess_zero\<lparr>mp_ErrorMessage := mp_ErrorMessage m\<rparr>)"
    by (rule decodes_opt_string [where fn = 2 and upd = "\<lambda>v. ExportMetricsPartialSuccess_zero\<lparr>mp_ErrorMessage := v\<rparr>"]) (simp_all add: ExportMetricsPartialSuccess_field_def ExportMetricsPartialSuccess_zero_def)
  have 2: "decodes ExportMetricsPartialSuccess_field ((if mp_RejectedDataPoints m \<noteq> 0 then varint_field_bytes [0x08] (mp_RejectedDataPoints m) else []))
      (ExportMetricsPartialSuccess_zero\<lparr>mp_ErrorMessage := mp_ErrorMessage m\<rparr>)
      (ExportMetricsPartialSuccess_zero\<lparr>mp_ErrorMessage := mp_ErrorMessage m, mp_RejectedDataPoints := mp_RejectedDataPoints m\<rparr>)"
    by (rule decodes_opt_varint [where fn = 1 and enc = "\<lambda>n. n" and dec = "\<lambda>n. n" and upd = "\<lambda>v. ExportMetricsPartialSuccess_zero\<lparr>mp_ErrorMessage := mp_ErrorMessage m, mp_RejectedDataPoints := v\<rparr>"]) (simp_all add: ExportMetricsPartialSuccess_field_def ExportMetricsPartialSuccess_zero_def)
  have eq: "(ExportMetricsPartialSuccess_zero\<lparr>mp_ErrorMessage := mp_ErrorMessage m, mp_RejectedDataPoints := mp_RejectedDataPoints m\<rparr>) = m"
    by (cases m) (simp add: ExportMetricsPartialSuccess_zero_def)
  from decodes_append [OF 1 2]
  show ?thesis unfolding eq ExportMetricsPartialSuccess_bytes_def .
qed

interpretation metrics_partial: proto_message ExportMetricsPartialSuccess_SizeProto ExportMetricsPartialSuccess_MarshalProto ExportMetricsPartialSuccess_UnmarshalProto ExportMetricsPartialSuccess_zero ExportMetricsPartialSuccess_bytes ExportMetricsPartialSuccess_wf
proof unfold_locales
  fix m assume wf: "ExportMetricsPartialSuccess_wf m"
  then show "ExportMetricsPartialSuccess_SizeProto m = length (ExportMetricsPartialSuccess_bytes m)"
    unfolding ExportMetricsPartialSuccess_SizeProto_def ExportMetricsPartialSuccess_bytes_def ExportMetricsPartialSuccess_wf_def
    by (simp add: length_if_Nil field_sizes repeated_string_size  del: length_concat split del: if_split cong: if_cong)
  show "marshals (ExportMetricsPartialSuccess_MarshalProto m) (ExportMetricsPartialSuccess_bytes m)"
    unfolding ExportMetricsPartialSuccess_MarshalProto_def ExportMetricsPartialSuccess_bytes_def
    by (intro marshals_body emit)
  show "ExportMetricsPartialSuccess_UnmarshalProto (ExportMetricsPartialSuccess_bytes m) ExportMetricsPartialSuccess_zero = Some (Inr m)" if "valid_buf (ExportMetricsPartialSuccess_bytes m)"
    unfolding ExportMetricsPartialSuccess_UnmarshalProto_def by (rule unmarshal_body_decodes [OF ExportMetricsPartialSuccess_decodes [OF wf] that])
next
  fix buf and m :: ExportMetricsPartialSuccess
  assume "valid_buf buf"
  then show "unmarshal_ok (ExportMetricsPartialSuccess_UnmarshalProto buf m)"
    unfolding ExportMetricsPartialSuccess_UnmarshalProto_def ExportMetricsPartialSuccess_field_def by (intro unmarshal_body_ok reader_ok) simp_all
qed

section \<open>ExportMetricsServiceResponse\<close>

record ExportMetricsServiceResponse =
  ms_PartialSuccess :: ExportMetricsPartialSuccess

definition ExportMetricsServiceResponse_zero :: ExportMetricsServiceResponse where
  "ExportMetricsServiceResponse_zero = \<lparr>ms_PartialSuccess = ExportMetricsPartialSuccess_zero\<rparr>"

definition ExportMetricsServiceResponse_SizeProto :: "ExportMetricsServiceResponse \<Rightarrow> nat" where
  "ExportMetricsServiceResponse_SizeProto orig =
     len_size 1 (ExportMetricsPartialSuccess_SizeProto (ms_PartialSuccess orig))"

definition ExportMetricsServiceResponse_MarshalProto :: "ExportMetricsServiceResponse \<Rightarrow> marshaler" where
  "ExportMetricsServiceResponse_MarshalProto orig = marshal_body
     (message_block [0x0a] (ExportMetricsPartialSuccess_MarshalProto (ms_PartialSuccess orig)))"

definition ExportMetricsServiceResponse_field :: "ExportMetricsServiceResponse field_reader" where
  "ExportMetricsServiceResponse_field buf fieldNum wireType pos orig =
     (if fieldNum = 1 then read_message ExportMetricsPartialSuccess_UnmarshalProto (ms_PartialSuccess orig) (\<lambda>v. orig\<lparr>ms_PartialSuccess := v\<rparr>) buf wireType pos
      else read_unknown orig buf wireType pos)"

definition ExportMetricsServiceResponse_UnmarshalProto :: "ExportMetricsServiceResponse unmarshaler" where
  "ExportMetricsServiceResponse_UnmarshalProto = unmarshal_body ExportMetricsServiceResponse_field"

definition ExportMetricsServiceResponse_bytes :: "ExportMetricsServiceResponse \<Rightarrow> byte list" where
  "ExportMetricsServiceResponse_bytes orig =
     string_bytes [0x0a] (ExportMetricsPartialSuccess_bytes (ms_PartialSuccess orig))"

definition ExportMetricsServiceResponse_wf :: "ExportMetricsServiceResponse \<Rightarrow> bool" where
  "ExportMetricsServiceResponse_wf orig \<longleftrightarrow> ExportMetricsPartialSuccess_wf (ms_PartialSuccess orig)"

lemma ExportMetricsServiceResponse_decodes:
  assumes "ExportMetricsServiceResponse_wf m"
  shows "decodes ExportMetricsServiceResponse_field (ExportMetricsServiceResponse_bytes m) ExportMetricsServiceResponse_zero m"
proof -
  note wf = assms [unfolded ExportMetricsServiceResponse_wf_def]
  have 1: "decodes ExportMetricsServiceResponse_field (string_bytes [0x0a] (ExportMetricsPartialSuccess_bytes (ms_PartialSuccess m)))
      ExportMetricsServiceResponse_zero
      (ExportMetricsServiceResponse_zero\<lparr>ms_PartialSuccess := ms_PartialSuccess m\<rparr>)"
    by (rule metrics_partial.decodes_message [where fn = 1 and upd = "\<lambda>v. ExportMetricsServiceResponse_zero\<lparr>ms_PartialSuccess := v\<rparr>"]) (simp_all add: ExportMetricsServiceResponse_field_def ExportMetricsServiceResponse_zero_def wf)
  have eq: "(ExportMetricsServiceResponse_zero\<lparr>ms_PartialSuccess := ms_PartialSuccess m\<rparr>) = m"
    by (cases m) (simp add: ExportMetricsServiceResponse_zero_def)
  from 1
  show ?thesis unfolding eq ExportMetricsServiceResponse_bytes_def .
qed

interpretation metrics_response: proto_message ExportMetricsServiceResponse_SizeProto ExportMetricsServiceResponse_MarshalProto ExportMetricsServiceResponse_UnmarshalProto ExportMetricsServiceResponse_zero ExportMetricsServiceResponse_bytes ExportMetricsServiceResponse_wf
proof unfold_locales
  fix m assume wf: "ExportMetricsServiceResponse_wf m"
  then show "ExportMetricsServiceResponse_SizeProto m = length (ExportMetricsServiceResponse_bytes m)"
    unfolding ExportMetricsServiceResponse_SizeProto_def ExportMetricsServiceResponse_bytes_def ExportMetricsServiceResponse_wf_def
    by (simp add: length_if_Nil field_sizes repeated_string_size metrics_partial.repeated_size metrics_partial.size del: length_concat split del: if_split cong: if_cong)
  show "marshals (ExportMetricsServiceResponse_MarshalProto m) (ExportMetricsServiceResponse_bytes m)"
    unfolding ExportMetricsServiceResponse_MarshalProto_def ExportMetricsServiceResponse_bytes_def
    by (intro marshals_body emit) (use wf in \<open>simp_all add: ExportMetricsServiceResponse_wf_def\<close>)
  show "ExportMetricsServiceResponse_UnmarshalProto (ExportMetricsServiceResponse_bytes m) ExportMetricsServiceResponse_zero = Some (Inr m)" if "valid_buf (ExportMetricsServiceResponse_bytes m)"
    unfolding ExportMetricsServiceResponse_UnmarshalProto_def by (rule unmarshal_body_decodes [OF ExportMetricsServiceResponse_decodes [OF wf] that])
next
  fix buf and m :: ExportMetricsServiceResponse
  assume "valid_buf buf"
  then show "unmarshal_ok (ExportMetricsServiceResponse_UnmarshalProto buf m)"
    unfolding ExportMetricsServiceResponse_UnmarshalProto_def ExportMetricsServiceResponse_field_def by (intro unmarshal_body_ok reader_ok) simp_all
qed

section \<open>Encoding and decoding a batch of metrics\<close>

definition MetricsSize :: "ExportMetricsServiceRequest \<Rightarrow> nat" where
  "MetricsSize md = ExportMetricsServiceRequest_SizeProto md"

definition MarshalMetrics :: "ExportMetricsServiceRequest \<Rightarrow> wire_error + byte list" where
  "MarshalMetrics md =
     (case ExportMetricsServiceRequest_MarshalProto md (replicate (ExportMetricsServiceRequest_SizeProto md) 0) of
        Inl e \<Rightarrow> Inl e
      | Inr (buf, _) \<Rightarrow> Inr buf)"

definition UnmarshalMetrics :: "byte list \<Rightarrow> (unmarshal_error + ExportMetricsServiceRequest) option" where
  "UnmarshalMetrics buf = ExportMetricsServiceRequest_UnmarshalProto buf ExportMetricsServiceRequest_zero"

definition MigrateMetrics :: "ResourceMetrics list \<Rightarrow> ResourceMetrics list" where
  "MigrateMetrics rms = map (\<lambda>rm.
     (if length (rc_ScopeMetrics rm) = 0 then rm\<lparr>rc_ScopeMetrics := rc_DeprecatedScopeMetrics rm\<rparr> else rm)
       \<lparr>rc_DeprecatedScopeMetrics := []\<rparr>) rms"

definition ExportMetrics_UnmarshalProto ::
  "byte list \<Rightarrow> ExportMetricsServiceRequest \<Rightarrow> (unmarshal_error + ExportMetricsServiceRequest) option" where
  "ExportMetrics_UnmarshalProto data orig =
     map_option (map_sum id (\<lambda>o'. o'\<lparr>mq_ResourceMetrics := MigrateMetrics (mq_ResourceMetrics o')\<rparr>))
       (ExportMetricsServiceRequest_UnmarshalProto data orig)"

lemma metrics_marshal_unmarshal:
  assumes "ExportMetricsServiceRequest_wf md" "int (MetricsSize md) \<le> max_i64"
  obtains buf where "MarshalMetrics md = Inr buf" "length buf = MetricsSize md" "UnmarshalMetrics buf = Some (Inr md)"
proof -
  obtain buf where "ExportMetricsServiceRequest_MarshalProto md (replicate (MetricsSize md) 0) = Inr (buf, int (MetricsSize md))"
    "length buf = MetricsSize md" "ExportMetricsServiceRequest_UnmarshalProto buf ExportMetricsServiceRequest_zero = Some (Inr md)"
    using metrics_request_proto.roundtrip [OF assms(1), of "replicate (MetricsSize md) 0"] assms(2)
    by (auto simp: MetricsSize_def)
  then show ?thesis by (intro that [of buf]) (simp_all add: MarshalMetrics_def UnmarshalMetrics_def MetricsSize_def)
qed

text \<open>A histogram with one point: a sum of 1.5, no minimum, two buckets and the bound 10.\<close>

definition demo_point :: HistogramDataPoint where
  "demo_point = HistogramDataPoint_SetSum 0x3ff8000000000000
     (HistogramDataPoint_zero\<lparr>hp_Count := 2, hp_BucketCounts := [1, 1], hp_ExplicitBounds := [0x4024000000000000]\<rparr>)"

definition demo_metric :: Metric where
  "demo_metric = Metric_zero\<lparr>me_Name := [0x67],
     me_Data := Metric_Histogram (Some (Histogram_zero\<lparr>hi_DataPoints := [demo_point], hi_AggregationTemporality := 2\<rparr>))\<rparr>"

definition demo_metrics :: ExportMetricsServiceRequest where
  "demo_metrics = \<lparr>mq_ResourceMetrics =
     [ResourceMetrics_zero\<lparr>rc_ScopeMetrics := [ScopeMetrics_zero\<lparr>sm_Metrics := [demo_metric]\<rparr>]\<rparr>]\<rparr>"

lemma demo_point_presence: "HistogramDataPoint_presence demo_point"
  unfolding demo_point_def
  by (rule HistogramDataPoint_setters_presence)
    (simp add: HistogramDataPoint_presence_def HistogramDataPoint_zero_def keep_bits_def)

lemma demo_metrics_wf: "ExportMetricsServiceRequest_wf demo_metrics"
proof -
  have "HistogramDataPoint_wf demo_point"
    unfolding HistogramDataPoint_wf_def using demo_point_presence
    by (simp add: demo_point_def HistogramDataPoint_SetSum_def HistogramDataPoint_zero_def)
  then show ?thesis
    by (simp add: demo_metrics_def demo_metric_def ExportMetricsServiceRequest_wf_def ResourceMetrics_wf_def
        ResourceMetrics_zero_def ScopeMetrics_wf_def ScopeMetrics_zero_def Metric_wf_def Metric_zero_def Histogram_wf_def
        Histogram_zero_def Resource_wf_def Resource_zero_def InstrumentationScope_wf_def InstrumentationScope_zero_def)
qed

lemma demo_metrics_small: "MetricsSize demo_metrics \<le> 100"
proof -
  have b: "\<not> has_bit 2 1" "\<not> has_bit 4 1" "has_bit 1 1" by (simp_all add: has_bit_def)
  have e: "Resource_SizeProto Resource_zero = 0" "InstrumentationScope_SizeProto InstrumentationScope_zero = 0"
    by (simp_all add: Resource_SizeProto_def Resource_zero_def InstrumentationScope_SizeProto_def InstrumentationScope_zero_def)
  have "HistogramDataPoint_SizeProto demo_point = 46"
    by (simp add: HistogramDataPoint_SizeProto_def demo_point_def HistogramDataPoint_SetSum_def HistogramDataPoint_zero_def
        HistogramDataPoint_HasSum_def HistogramDataPoint_HasMin_def HistogramDataPoint_HasMax_def add_bit_def b Sov_small)
  then have "Metric_SizeProto demo_metric = 55"
    by (simp add: Metric_SizeProto_def demo_metric_def Metric_zero_def Histogram_SizeProto_def Histogram_zero_def Sov_small)
  then have "ScopeMetrics_SizeProto (ScopeMetrics_zero\<lparr>sm_Metrics := [demo_metric]\<rparr>) = 59"
    by (simp add: ScopeMetrics_SizeProto_def ScopeMetrics_zero_def e Sov_small)
  then have "ResourceMetrics_SizeProto (ResourceMetrics_zero\<lparr>rc_ScopeMetrics := [ScopeMetrics_zero\<lparr>sm_Metrics := [demo_metric]\<rparr>]\<rparr>) = 63"
    by (simp add: ResourceMetrics_SizeProto_def ResourceMetrics_zero_def e Sov_small)
  then show ?thesis
    by (simp add: demo_metrics_def MetricsSize_def ExportMetricsServiceRequest_SizeProto_def Sov_small)
qed

lemma demo_metrics_size: "int (MetricsSize demo_metrics) \<le> max_i64"
  using demo_metrics_small by (simp add: max_i64_def)

end
