(* ===== verification/ProtoProfiles.thy ===== *)
theory ProtoProfiles
  imports ProtoPacked ProtoCommon
begin

text \<open>
  The profile messages (pdata/internal/generated\_proto\_function.go and its siblings, profileid.go) and
  the functions of pdata/pprofile/pb.go.
\<close>

definition profileIDSize :: nat where
  "profileIDSize = 16"

lemma tags_profiles [simp]:
  "is_tag [0x08] 1 0"
  "is_tag [0x19] 3 1"
  "is_tag [0x30] 6 0"
  "is_tag [0x4a] 9 2"
  "is_tag [0x52] 10 2"
  "is_tag [0x5a] 11 2"
  by (simp_all add: is_tag_def Let_def varint_bytes.simps)

section \<open>Function\<close>

record Function =
  pf_NameStrindex :: "32 word"
  pf_SystemNameStrindex :: "32 word"
  pf_FilenameStrindex :: "32 word"
  pf_StartLine :: u64

definition Function_zero :: Function where
  "Function_zero = \<lparr>pf_NameStrindex = 0, pf_SystemNameStrindex = 0, pf_FilenameStrindex = 0, pf_StartLine = 0\<rparr>"

definition Function_SizeProto :: "Function \<Rightarrow> nat" where
  "Function_SizeProto orig =
     (if pf_NameStrindex orig \<noteq> 0 then 1 + Sov (scast (pf_NameStrindex orig)) else 0)
     + (if pf_SystemNameStrindex orig \<noteq> 0 then 1 + Sov (scast (pf_SystemNameStrindex orig)) else 0)
     + (if pf_FilenameStrindex orig \<noteq> 0 then 1 + Sov (scast (pf_FilenameStrindex orig)) else 0)
     + (if pf_StartLine orig \<noteq> 0 then 1 + Sov (pf_StartLine orig) else 0)"

definition Function_MarshalProto :: "Function \<Rightarrow> marshaler" where
  "Function_MarshalProto orig = marshal_body
     ((if pf_NameStrindex orig \<noteq> 0 then varint_block [0x08] (scast (pf_NameStrindex orig)) else [])
      @ (if pf_SystemNameStrindex orig \<noteq> 0 then varint_block [0x10] (scast (pf_SystemNameStrindex orig)) else [])
      @ (if pf_FilenameStrindex orig \<noteq> 0 then varint_block [0x18] (scast (pf_FilenameStrindex orig)) else [])
      @ (if pf_StartLine orig \<noteq> 0 then varint_block [0x20] (pf_StartLine orig) else []))"

definition Function_field :: "Function field_reader" where
  "Function_field buf fieldNum wireType pos orig =
     (if fieldNum = 1 then read_varint (\<lambda>num. orig\<lparr>pf_NameStrindex := ucast num\<rparr>) buf wireType pos
      else if fieldNum = 2 then read_varint (\<lambda>num. orig\<lparr>pf_SystemNameStrindex := ucast num\<rparr>) buf wireType pos
      else if fieldNum = 3 then read_varint (\<lambda>num. orig\<lparr>pf_FilenameStrindex := ucast num\<rparr>) buf wireType pos
      else if fieldNum = 4 then read_varint (\<lambda>num. orig\<lparr>pf_StartLine := num\<rparr>) buf wireType pos
      else read_unknown orig buf wireType pos)"

definition Function_UnmarshalProto :: "Function unmarshaler" where
  "Function_UnmarshalProto = unmarshal_body Function_field"

definition Function_bytes :: "Function \<Rightarrow> byte list" where
  "Function_bytes orig =
     ((((if pf_StartLine orig \<noteq> 0 then varint_field_bytes [0x20] (pf_StartLine orig) else [])
      @ (if pf_FilenameStrindex orig \<noteq> 0 then varint_field_bytes [0x18] (scast (pf_FilenameStrindex orig)) else []))
      @ (if pf_SystemNameStrindex orig \<noteq> 0 then varint_field_bytes [0x10] (scast (pf_SystemNameStrindex orig)) else []))
      @ (if pf_NameStrindex orig \<noteq> 0 then varint_field_bytes [0x08] (scast (pf_NameStrindex orig)) else []))"

definition Function_wf :: "Function \<Rightarrow> bool" where
  "Function_wf orig \<longleftrightarrow> True"

lemma Function_decodes:
  assumes "Function_wf m"
  shows "decodes Function_field (Function_bytes m) Function_zero m"
proof -
  have 1: "decodes Function_field ((if pf_StartLine m \<noteq> 0 then varint_field_bytes [0x20] (pf_StartLine m) else []))
      Function_zero
      (Function_zero\<lparr>pf_StartLine := pf_StartLine m\<rparr>)"
    by (rule decodes_opt_varint [where fn = 4 and enc = "\<lambda>n. n" and dec = "\<lambda>n. n" and upd = "\<lambda>v. Function_zero\<lparr>pf_StartLine := v\<rparr>"]) (simp_all add: Function_field_def Function_zero_def)
  have 2: "decodes Function_field ((if pf_FilenameStrindex m \<noteq> 0 then varint_field_bytes [0x18] (scast (pf_FilenameStrindex m)) else []))
      (Function_zero\<lparr>pf_StartLine := pf_StartLine m\<rparr>)
      (Function_zero\<lparr>pf_StartLine := pf_StartLine m, pf_FilenameStrindex := pf_FilenameStrindex m\<rparr>)"
    by (rule decodes_opt_varint [where fn = 3 and enc = scast and dec = ucast and upd = "\<lambda>v. Function_zero\<lparr>pf_StartLine := pf_StartLine m, pf_FilenameStrindex := v\<rparr>"]) (simp_all add: Function_field_def Function_zero_def ucast_scast_32)
  have 3: "decodes Function_field ((if pf_SystemNameStrindex m \<noteq> 0 then varint_field_bytes [0x10] (scast (pf_SystemNameStrindex m)) else []))
      (Function_zero\<lparr>pf_StartLine := pf_StartLine m, pf_FilenameStrindex := pf_FilenameStrindex m\<rparr>)
      (Function_zero\<lparr>pf_StartLine := pf_StartLine m, pf_FilenameStrindex := pf_FilenameStrindex m, pf_SystemNameStrindex := pf_SystemNameStrindex m\<rparr>)"
    by (rule decodes_opt_varint [where fn = 2 and enc = scast and dec = ucast and upd = "\<lambda>v. Function_zero\<lparr>pf_StartLine := pf_StartLine m, pf_FilenameStrindex := pf_FilenameStrindex m, pf_SystemNameStrindex := v\<rparr>"]) (simp_all add: Function_field_def Function_zero_def ucast_scast_32)
  have 4: "decodes Function_field ((if pf_NameStrindex m \<noteq> 0 then varint_field_bytes [0x08] (scast (pf_NameStrindex m)) else []))
      (Function_zero\<lparr>pf_StartLine := pf_StartLine m, pf_FilenameStrindex := pf_FilenameStrindex m, pf_SystemNameStrindex := pf_SystemNameStrindex m\<rparr>)
      (Function_zero\<lparr>pf_StartLine := pf_StartLine m, pf_FilenameStrindex := pf_FilenameStrindex m, pf_SystemNameStrindex := pf_SystemNameStrindex m, pf_NameStrindex := pf_NameStrindex m\<rparr>)"
    by (rule decodes_opt_varint [where fn = 1 and enc = scast and dec = ucast and upd = "\<lambda>v. Function_zero\<lparr>pf_StartLine := pf_StartLine m, pf_FilenameStrindex := pf_FilenameStrindex m, pf_SystemNameStrindex := pf_SystemNameStrindex m, pf_NameStrindex := v\<rparr>"]) (simp_all add: Function_field_def Function_zero_def ucast_scast_32)
  have eq: "(Function_zero\<lparr>pf_StartLine := pf_StartLine m, pf_FilenameStrindex := pf_FilenameStrindex m, pf_SystemNameStrindex := pf_SystemNameStrindex m, pf_NameStrindex := pf_NameStrindex m\<rparr>) = m"
    by (cases m) (simp add: Function_zero_def)
  from decodes_append [OF decodes_append [OF decodes_append [OF 1 2] 3] 4]
  show ?thesis unfolding eq Function_bytes_def .
qed

interpretation function_message: proto_message Function_SizeProto Function_MarshalProto Function_UnmarshalProto Function_zero Function_bytes Function_wf
proof unfold_locales
  fix m assume wf: "Function_wf m"
  then show "Function_SizeProto m = length (Function_bytes m)"
    unfolding Function_SizeProto_def Function_bytes_def Function_wf_def
    by (simp add: length_if_Nil field_sizes repeated_string_size  del: length_concat split del: if_split cong: if_cong)
  show "marshals (Function_MarshalProto m) (Function_bytes m)"
    unfolding Function_MarshalProto_def Function_bytes_def
    by (intro marshals_body emit)
  show "Function_UnmarshalProto (Function_bytes m) Function_zero = Some (Inr m)" if "valid_buf (Function_bytes m)"
    unfolding Function_UnmarshalProto_def by (rule unmarshal_body_decodes [OF Function_decodes [OF wf] that])
next
  fix buf and m :: Function
  assume "valid_buf buf"
  then show "unmarshal_ok (Function_UnmarshalProto buf m)"
    unfolding Function_UnmarshalProto_def Function_field_def by (intro unmarshal_body_ok reader_ok) simp_all
qed

section \<open>KeyValueAndUnit\<close>

record KeyValueAndUnit =
  ku_KeyStrindex :: "32 word"
  ku_Value :: AnyValue
  ku_UnitStrindex :: "32 word"

definition KeyValueAndUnit_zero :: KeyValueAndUnit where
  "KeyValueAndUnit_zero = \<lparr>ku_KeyStrindex = 0, ku_Value = AnyValue_nil, ku_UnitStrindex = 0\<rparr>"

definition KeyValueAndUnit_SizeProto :: "KeyValueAndUnit \<Rightarrow> nat" where
  "KeyValueAndUnit_SizeProto orig =
     (if ku_KeyStrindex orig \<noteq> 0 then 1 + Sov (scast (ku_KeyStrindex orig)) else 0)
     + len_size 1 (AnyValue_SizeProto (ku_Value orig))
     + (if ku_UnitStrindex orig \<noteq> 0 then 1 + Sov (scast (ku_UnitStrindex orig)) else 0)"

definition KeyValueAndUnit_MarshalProto :: "KeyValueAndUnit \<Rightarrow> marshaler" where
  "KeyValueAndUnit_MarshalProto orig = marshal_body
     ((if ku_KeyStrindex orig \<noteq> 0 then varint_block [0x08] (scast (ku_KeyStrindex orig)) else [])
      @ message_block [0x12] (AnyValue_MarshalProto (ku_Value orig))
      @ (if ku_UnitStrindex orig \<noteq> 0 then varint_block [0x18] (scast (ku_UnitStrindex orig)) else []))"

definition KeyValueAndUnit_field :: "KeyValueAndUnit field_reader" where
  "KeyValueAndUnit_field buf fieldNum wireType pos orig =
     (if fieldNum = 1 then read_varint (\<lambda>num. orig\<lparr>ku_KeyStrindex := ucast num\<rparr>) buf wireType pos
      else if fieldNum = 2 then read_message AnyValue_UnmarshalProto (ku_Value orig) (\<lambda>v. orig\<lparr>ku_Value := v\<rparr>) buf wireType pos
      else if fieldNum = 3 then read_varint (\<lambda>num. orig\<lparr>ku_UnitStrindex := ucast num\<rparr>) buf wireType pos
      else read_unknown orig buf wireType pos)"

definition KeyValueAndUnit_UnmarshalProto :: "KeyValueAndUnit unmarshaler" where
  "KeyValueAndUnit_UnmarshalProto = unmarshal_body KeyValueAndUnit_field"

definition KeyValueAndUnit_bytes :: "KeyValueAndUnit \<Rightarrow> byte list" where
  "KeyValueAndUnit_bytes orig =
     (((if ku_UnitStrindex orig \<noteq> 0 then varint_field_bytes [0x18] (scast (ku_UnitStrindex orig)) else [])
      @ string_bytes [0x12] (AnyValue_bytes (ku_Value orig)))
      @ (if ku_KeyStrindex orig \<noteq> 0 then varint_field_bytes [0x08] (scast (ku_KeyStrindex orig)) else []))"

definition KeyValueAndUnit_wf :: "KeyValueAndUnit \<Rightarrow> bool" where
  "KeyValueAndUnit_wf orig \<longleftrightarrow> AnyValue_wf (ku_Value orig)"

lemma KeyValueAndUnit_decodes:
  assumes "KeyValueAndUnit_wf m"
  shows "decodes KeyValueAndUnit_field (KeyValueAndUnit_bytes m) KeyValueAndUnit_zero m"
proof -
  note wf = assms [unfolded KeyValueAndUnit_wf_def]
  have 1: "decodes KeyValueAndUnit_field ((if ku_UnitStrindex m \<noteq> 0 then varint_field_bytes [0x18] (scast (ku_UnitStrindex m)) else []))
      KeyValueAndUnit_zero
      (KeyValueAndUnit_zero\<lparr>ku_UnitStrindex := ku_UnitStrindex m\<rparr>)"
    by (rule decodes_opt_varint [where fn = 3 and enc = scast and dec = ucast and upd = "\<lambda>v. KeyValueAndUnit_zero\<lparr>ku_UnitStrindex := v\<rparr>"]) (simp_all add: KeyValueAndUnit_field_def KeyValueAndUnit_zero_def ucast_scast_32)
  have 2: "decodes KeyValueAndUnit_field (string_bytes [0x12] (AnyValue_bytes (ku_Value m)))
      (KeyValueAndUnit_zero\<lparr>ku_UnitStrindex := ku_UnitStrindex m\<rparr>)
      (KeyValueAndUnit_zero\<lparr>ku_UnitStrindex := ku_UnitStrindex m, ku_Value := ku_Value m\<rparr>)"
    by (rule any_value.decodes_message [where fn = 2 and upd = "\<lambda>v. KeyValueAndUnit_zero\<lparr>ku_UnitStrindex := ku_UnitStrindex m, ku_Value := v\<rparr>"]) (simp_all add: KeyValueAndUnit_field_def KeyValueAndUnit_zero_def wf)
  have 3: "decodes KeyValueAndUnit_field ((if ku_KeyStrindex m \<noteq> 0 then varint_field_bytes [0x08] (scast (ku_KeyStrindex m)) else []))
      (KeyValueAndUnit_zero\<lparr>ku_UnitStrindex := ku_UnitStrindex m, ku_Value := ku_Value m\<rparr>)
      (KeyValueAndUnit_zero\<lparr>ku_UnitStrindex := ku_UnitStrindex m, ku_Value := ku_Value m, ku_KeyStrindex := ku_KeyStrindex m\<rparr>)"
    by (rule decodes_opt_varint [where fn = 1 and enc = scast and dec = ucast and upd = "\<lambda>v. KeyValueAndUnit_zero\<lparr>ku_UnitStrindex := ku_UnitStrindex m, ku_Value := ku_Value m, ku_KeyStrindex := v\<rparr>"]) (simp_all add: KeyValueAndUnit_field_def KeyValueAndUnit_zero_def ucast_scast_32)
  have eq: "(KeyValueAndUnit_zero\<lparr>ku_UnitStrindex := ku_UnitStrindex m, ku_Value := ku_Value m, ku_KeyStrindex := ku_KeyStrindex m\<rparr>) = m"
    by (cases m) (simp add: KeyValueAndUnit_zero_def)
  from decodes_append [OF decodes_append [OF 1 2] 3]
  show ?thesis unfolding eq KeyValueAndUnit_bytes_def .
qed

interpretation key_value_unit: proto_message KeyValueAndUnit_SizeProto KeyValueAndUnit_MarshalProto KeyValueAndUnit_UnmarshalProto KeyValueAndUnit_zero KeyValueAndUnit_bytes KeyValueAndUnit_wf
proof unfold_locales
  fix m assume wf: "KeyValueAndUnit_wf m"
  then show "KeyValueAndUnit_SizeProto m = length (KeyValueAndUnit_bytes m)"
    unfolding KeyValueAndUnit_SizeProto_def KeyValueAndUnit_bytes_def KeyValueAndUnit_wf_def
    by (simp add: length_if_Nil field_sizes repeated_string_size any_value.repeated_size any_value.size del: length_concat split del: if_split cong: if_cong)
  show "marshals (KeyValueAndUnit_MarshalProto m) (KeyValueAndUnit_bytes m)"
    unfolding KeyValueAndUnit_MarshalProto_def KeyValueAndUnit_bytes_def
    by (intro marshals_body emit) (use wf in \<open>simp_all add: KeyValueAndUnit_wf_def\<close>)
  show "KeyValueAndUnit_UnmarshalProto (KeyValueAndUnit_bytes m) KeyValueAndUnit_zero = Some (Inr m)" if "valid_buf (KeyValueAndUnit_bytes m)"
    unfolding KeyValueAndUnit_UnmarshalProto_def by (rule unmarshal_body_decodes [OF KeyValueAndUnit_decodes [OF wf] that])
next
  fix buf and m :: KeyValueAndUnit
  assume "valid_buf buf"
  then show "unmarshal_ok (KeyValueAndUnit_UnmarshalProto buf m)"
    unfolding KeyValueAndUnit_UnmarshalProto_def KeyValueAndUnit_field_def by (intro unmarshal_body_ok reader_ok) simp_all
qed

section \<open>ValueType\<close>

record ValueType =
  vt_TypeStrindex :: "32 word"
  vt_UnitStrindex :: "32 word"

definition ValueType_zero :: ValueType where
  "ValueType_zero = \<lparr>vt_TypeStrindex = 0, vt_UnitStrindex = 0\<rparr>"

definition ValueType_SizeProto :: "ValueType \<Rightarrow> nat" where
  "ValueType_SizeProto orig =
     (if vt_TypeStrindex orig \<noteq> 0 then 1 + Sov (scast (vt_TypeStrindex orig)) else 0)
     + (if vt_UnitStrindex orig \<noteq> 0 then 1 + Sov (scast (vt_UnitStrindex orig)) else 0)"

definition ValueType_MarshalProto :: "ValueType \<Rightarrow> marshaler" where
  "ValueType_MarshalProto orig = marshal_body
     ((if vt_TypeStrindex orig \<noteq> 0 then varint_block [0x08] (scast (vt_TypeStrindex orig)) else [])
      @ (if vt_UnitStrindex orig \<noteq> 0 then varint_block [0x10] (scast (vt_UnitStrindex orig)) else []))"

definition ValueType_field :: "ValueType field_reader" where
  "ValueType_field buf fieldNum wireType pos orig =
     (if fieldNum = 1 then read_varint (\<lambda>num. orig\<lparr>vt_TypeStrindex := ucast num\<rparr>) buf wireType pos
      else if fieldNum = 2 then read_varint (\<lambda>num. orig\<lparr>vt_UnitStrindex := ucast num\<rparr>) buf wireType pos
      else read_unknown orig buf wireType pos)"

definition ValueType_UnmarshalProto :: "ValueType unmarshaler" where
  "ValueType_UnmarshalProto = unmarshal_body ValueType_field"

definition ValueType_bytes :: "ValueType \<Rightarrow> byte list" where
  "ValueType_bytes orig =
     ((if vt_UnitStrindex orig \<noteq> 0 then varint_field_bytes [0x10] (scast (vt_UnitStrindex orig)) else [])
      @ (if vt_TypeStrindex orig \<noteq> 0 then varint_field_bytes [0x08] (scast (vt_TypeStrindex orig)) else []))"

definition ValueType_wf :: "ValueType \<Rightarrow> bool" where
  "ValueType_wf orig \<longleftrightarrow> True"

lemma ValueType_decodes:
  assumes "ValueType_wf m"
  shows "decodes ValueType_field (ValueType_bytes m) ValueType_zero m"
proof -
  have 1: "decodes ValueType_field ((if vt_UnitStrindex m \<noteq> 0 then varint_field_bytes [0x10] (scast (vt_UnitStrindex m)) else []))
      ValueType_zero
      (ValueType_zero\<lparr>vt_UnitStrindex := vt_UnitStrindex m\<rparr>)"
    by (rule decodes_opt_varint [where fn = 2 and enc = scast and dec = ucast and upd = "\<lambda>v. ValueType_zero\<lparr>vt_UnitStrindex := v\<rparr>"]) (simp_all add: ValueType_field_def ValueType_zero_def ucast_scast_32)
  have 2: "decodes ValueType_field ((if vt_TypeStrindex m \<noteq> 0 then varint_field_bytes [0x08] (scast (vt_TypeStrindex m)) else []))
      (ValueType_zero\<lparr>vt_UnitStrindex := vt_UnitStrindex m\<rparr>)
      (ValueType_zero\<lparr>vt_UnitStrindex := vt_UnitStrindex m, vt_TypeStrindex := vt_TypeStrindex m\<rparr>)"
    by (rule decodes_opt_varint [where fn = 1 and enc = scast and dec = ucast and upd = "\<lambda>v. ValueType_zero\<lparr>vt_UnitStrindex := vt_UnitStrindex m, vt_TypeStrindex := v\<rparr>"]) (simp_all add: ValueType_field_def ValueType_zero_def ucast_scast_32)
  have eq: "(ValueType_zero\<lparr>vt_UnitStrindex := vt_UnitStrindex m, vt_TypeStrindex := vt_TypeStrindex m\<rparr>) = m"
    by (cases m) (simp add: ValueType_zero_def)
  from decodes_append [OF 1 2]
  show ?thesis unfolding eq ValueType_bytes_def .
qed

interpretation value_type: proto_message ValueType_SizeProto ValueType_MarshalProto ValueType_UnmarshalProto ValueType_zero ValueType_bytes ValueType_wf
proof unfold_locales
  fix m assume wf: "ValueType_wf m"
  then show "ValueType_SizeProto m = length (ValueType_bytes m)"
    unfolding ValueType_SizeProto_def ValueType_bytes_def ValueType_wf_def
    by (simp add: length_if_Nil field_sizes repeated_string_size  del: length_concat split del: if_split cong: if_cong)
  show "marshals (ValueType_MarshalProto m) (ValueType_bytes m)"
    unfolding ValueType_MarshalProto_def ValueType_bytes_def
    by (intro marshals_body emit)
  show "ValueType_UnmarshalProto (ValueType_bytes m) ValueType_zero = Some (Inr m)" if "valid_buf (ValueType_bytes m)"
    unfolding ValueType_UnmarshalProto_def by (rule unmarshal_body_decodes [OF ValueType_decodes [OF wf] that])
next
  fix buf and m :: ValueType
  assume "valid_buf buf"
  then show "unmarshal_ok (ValueType_UnmarshalProto buf m)"
    unfolding ValueType_UnmarshalProto_def ValueType_field_def by (intro unmarshal_body_ok reader_ok) simp_all
qed

section \<open>Line\<close>

record Line =
  li_FunctionIndex :: "32 word"
  li_Line :: u64
  li_Column :: u64

definition Line_zero :: Line where
  "Line_zero = \<lparr>li_FunctionIndex = 0, li_Line = 0, li_Column = 0\<rparr>"

definition Line_SizeProto :: "Line \<Rightarrow> nat" where
  "Line_SizeProto orig =
     (if li_FunctionIndex orig \<noteq> 0 then 1 + Sov (scast (li_FunctionIndex orig)) else 0)
     + (if li_Line orig \<noteq> 0 then 1 + Sov (li_Line orig) else 0)
     + (if li_Column orig \<noteq> 0 then 1 + Sov (li_Column orig) else 0)"

definition Line_MarshalProto :: "Line \<Rightarrow> marshaler" where
  "Line_MarshalProto orig = marshal_body
     ((if li_FunctionIndex orig \<noteq> 0 then varint_block [0x08] (scast (li_FunctionIndex orig)) else [])
      @ (if li_Line orig \<noteq> 0 then varint_block [0x10] (li_Line orig) else [])
      @ (if li_Column orig \<noteq> 0 then varint_block [0x18] (li_Column orig) else []))"

definition Line_field :: "Line field_reader" where
  "Line_field buf fieldNum wireType pos orig =
     (if fieldNum = 1 then read_varint (\<lambda>num. orig\<lparr>li_FunctionIndex := ucast num\<rparr>) buf wireType pos
      else if fieldNum = 2 then read_varint (\<lambda>num. orig\<lparr>li_Line := num\<rparr>) buf wireType pos
      else if fieldNum = 3 then read_varint (\<lambda>num. orig\<lparr>li_Column := num\<rparr>) buf wireType pos
      else read_unknown orig buf wireType pos)"

definition Line_UnmarshalProto :: "Line unmarshaler" where
  "Line_UnmarshalProto = unmarshal_body Line_field"

definition Line_bytes :: "Line \<Rightarrow> byte list" where
  "Line_bytes orig =
     (((if li_Column orig \<noteq> 0 then varint_field_bytes [0x18] (li_Column orig) else [])
      @ (if li_Line orig \<noteq> 0 then varint_field_bytes [0x10] (li_Line orig) else []))
      @ (if li_FunctionIndex orig \<noteq> 0 then varint_field_bytes [0x08] (scast (li_FunctionIndex orig)) else []))"

definition Line_wf :: "Line \<Rightarrow> bool" where
  "Line_wf orig \<longleftrightarrow> True"

lemma Line_decodes:
  assumes "Line_wf m"
  shows "decodes Line_field (Line_bytes m) Line_zero m"
proof -
  have 1: "decodes Line_field ((if li_Column m \<noteq> 0 then varint_field_bytes [0x18] (li_Column m) else []))
      Line_zero
      (Line_zero\<lparr>li_Column := li_Column m\<rparr>)"
    by (rule decodes_opt_varint [where fn = 3 and enc = "\<lambda>n. n" and dec = "\<lambda>n. n" and upd = "\<lambda>v. Line_zero\<lparr>li_Column := v\<rparr>"]) (simp_all add: Line_field_def Line_zero_def)
  have 2: "decodes Line_field ((if li_Line m \<noteq> 0 then varint_field_bytes [0x10] (li_Line m) else []))
      (Line_zero\<lparr>li_Column := li_Column m\<rparr>)
      (Line_zero\<lparr>li_Column := li_Column m, li_Line := li_Line m\<rparr>)"
    by (rule decodes_opt_varint [where fn = 2 and enc = "\<lambda>n. n" and dec = "\<lambda>n. n" and upd = "\<lambda>v. Line_zero\<lparr>li_Column := li_Column m, li_Line := v\<rparr>"]) (simp_all add: Line_field_def Line_zero_def)
  have 3: "decodes Line_field ((if li_FunctionIndex m \<noteq> 0 then varint_field_bytes [0x08] (scast (li_FunctionIndex m)) else []))
      (Line_zero\<lparr>li_Column := li_Column m, li_Line := li_Line m\<rparr>)
      (Line_zero\<lparr>li_Column := li_Column m, li_Line := li_Line m, li_FunctionIndex := li_FunctionIndex m\<rparr>)"
    by (rule decodes_opt_varint [where fn = 1 and enc = scast and dec = ucast and upd = "\<lambda>v. Line_zero\<lparr>li_Column := li_Column m, li_Line := li_Line m, li_FunctionIndex := v\<rparr>"]) (simp_all add: Line_field_def Line_zero_def ucast_scast_32)
  have eq: "(Line_zero\<lparr>li_Column := li_Column m, li_Line := li_Line m, li_FunctionIndex := li_FunctionIndex m\<rparr>) = m"
    by (cases m) (simp add: Line_zero_def)
  from decodes_append [OF decodes_append [OF 1 2] 3]
  show ?thesis unfolding eq Line_bytes_def .
qed

interpretation line_message: proto_message Line_SizeProto Line_MarshalProto Line_UnmarshalProto Line_zero Line_bytes Line_wf
proof unfold_locales
  fix m assume wf: "Line_wf m"
  then show "Line_SizeProto m = length (Line_bytes m)"
    unfolding Line_SizeProto_def Line_bytes_def Line_wf_def
    by (simp add: length_if_Nil field_sizes repeated_string_size  del: length_concat split del: if_split cong: if_cong)
  show "marshals (Line_MarshalProto m) (Line_bytes m)"
    unfolding Line_MarshalProto_def Line_bytes_def
    by (intro marshals_body emit)
  show "Line_UnmarshalProto (Line_bytes m) Line_zero = Some (Inr m)" if "valid_buf (Line_bytes m)"
    unfolding Line_UnmarshalProto_def by (rule unmarshal_body_decodes [OF Line_decodes [OF wf] that])
next
  fix buf and m :: Line
  assume "valid_buf buf"
  then show "unmarshal_ok (Line_UnmarshalProto buf m)"
    unfolding Line_UnmarshalProto_def Line_field_def by (intro unmarshal_body_ok reader_ok) simp_all
qed

section \<open>Link\<close>

record Link =
  lk_TraceId :: ident
  lk_SpanId :: ident

definition Link_zero :: Link where
  "Link_zero = \<lparr>lk_TraceId = replicate traceIDSize 0, lk_SpanId = replicate spanIDSize 0\<rparr>"

definition Link_SizeProto :: "Link \<Rightarrow> nat" where
  "Link_SizeProto orig =
     len_size 1 (ID_SizeProto traceIDSize (lk_TraceId orig))
     + len_size 1 (ID_SizeProto spanIDSize (lk_SpanId orig))"

definition Link_MarshalProto :: "Link \<Rightarrow> marshaler" where
  "Link_MarshalProto orig = marshal_body
     (message_block [0x0a] (ID_MarshalProto traceIDSize (lk_TraceId orig))
      @ message_block [0x12] (ID_MarshalProto spanIDSize (lk_SpanId orig)))"

definition Link_field :: "Link field_reader" where
  "Link_field buf fieldNum wireType pos orig =
     (if fieldNum = 1 then read_message (ID_UnmarshalProto traceIDSize) (lk_TraceId orig) (\<lambda>v. orig\<lparr>lk_TraceId := v\<rparr>) buf wireType pos
      else if fieldNum = 2 then read_message (ID_UnmarshalProto spanIDSize) (lk_SpanId orig) (\<lambda>v. orig\<lparr>lk_SpanId := v\<rparr>) buf wireType pos
      else read_unknown orig buf wireType pos)"

definition Link_UnmarshalProto :: "Link unmarshaler" where
  "Link_UnmarshalProto = unmarshal_body Link_field"

definition Link_bytes :: "Link \<Rightarrow> byte list" where
  "Link_bytes orig =
     (string_bytes [0x12] (ID_bytes spanIDSize (lk_SpanId orig))
      @ string_bytes [0x0a] (ID_bytes traceIDSize (lk_TraceId orig)))"

definition Link_wf :: "Link \<Rightarrow> bool" where
  "Link_wf orig \<longleftrightarrow> ID_wf traceIDSize (lk_TraceId orig) \<and> ID_wf spanIDSize (lk_SpanId orig)"

lemma Link_decodes:
  assumes "Link_wf m"
  shows "decodes Link_field (Link_bytes m) Link_zero m"
proof -
  note wf = assms [unfolded Link_wf_def]
  have 1: "decodes Link_field (string_bytes [0x12] (ID_bytes spanIDSize (lk_SpanId m)))
      Link_zero
      (Link_zero\<lparr>lk_SpanId := lk_SpanId m\<rparr>)"
    by (rule ident.decodes_message [where fn = 2 and upd = "\<lambda>v. Link_zero\<lparr>lk_SpanId := v\<rparr>"]) (simp_all add: Link_field_def Link_zero_def wf)
  have 2: "decodes Link_field (string_bytes [0x0a] (ID_bytes traceIDSize (lk_TraceId m)))
      (Link_zero\<lparr>lk_SpanId := lk_SpanId m\<rparr>)
      (Link_zero\<lparr>lk_SpanId := lk_SpanId m, lk_TraceId := lk_TraceId m\<rparr>)"
    by (rule ident.decodes_message [where fn = 1 and upd = "\<lambda>v. Link_zero\<lparr>lk_SpanId := lk_SpanId m, lk_TraceId := v\<rparr>"]) (simp_all add: Link_field_def Link_zero_def wf)
  have eq: "(Link_zero\<lparr>lk_SpanId := lk_SpanId m, lk_TraceId := lk_TraceId m\<rparr>) = m"
    by (cases m) (simp add: Link_zero_def)
  from decodes_append [OF 1 2]
  show ?thesis unfolding eq Link_bytes_def .
qed

interpretation link_message: proto_message Link_SizeProto Link_MarshalProto Link_UnmarshalProto Link_zero Link_bytes Link_wf
proof unfold_locales
  fix m assume wf: "Link_wf m"
  then show "Link_SizeProto m = length (Link_bytes m)"
    unfolding Link_SizeProto_def Link_bytes_def Link_wf_def
    by (simp add: length_if_Nil field_sizes repeated_string_size ident.repeated_size ident.size del: length_concat split del: if_split cong: if_cong)
  show "marshals (Link_MarshalProto m) (Link_bytes m)"
    unfolding Link_MarshalProto_def Link_bytes_def
    by (intro marshals_body emit) (use wf in \<open>simp_all add: Link_wf_def\<close>)
  show "Link_UnmarshalProto (Link_bytes m) Link_zero = Some (Inr m)" if "valid_buf (Link_bytes m)"
    unfolding Link_UnmarshalProto_def by (rule unmarshal_body_decodes [OF Link_decodes [OF wf] that])
next
  fix buf and m :: Link
  assume "valid_buf buf"
  then show "unmarshal_ok (Link_UnmarshalProto buf m)"
    unfolding Link_UnmarshalProto_def Link_field_def by (intro unmarshal_body_ok reader_ok) simp_all
qed

section \<open>Location\<close>

record Location =
  lo_MappingIndex :: "32 word"
  lo_Address :: u64
  lo_Lines :: "Line list"
  lo_AttributeIndices :: "32 word list"

definition Location_zero :: Location where
  "Location_zero = \<lparr>lo_MappingIndex = 0, lo_Address = 0, lo_Lines = [], lo_AttributeIndices = []\<rparr>"

definition Location_SizeProto :: "Location \<Rightarrow> nat" where
  "Location_SizeProto orig =
     (if lo_MappingIndex orig \<noteq> 0 then 1 + Sov (scast (lo_MappingIndex orig)) else 0)
     + (if lo_Address orig \<noteq> 0 then 1 + Sov (lo_Address orig) else 0)
     + sum_list (map (\<lambda>v. len_size 1 (Line_SizeProto v)) (lo_Lines orig))
     + (if length (lo_AttributeIndices orig) > 0 then len_size 1 (sum_list (map Sov (map scast (lo_AttributeIndices orig)))) else 0)"

definition Location_MarshalProto :: "Location \<Rightarrow> marshaler" where
  "Location_MarshalProto orig = marshal_body
     ((if lo_MappingIndex orig \<noteq> 0 then varint_block [0x08] (scast (lo_MappingIndex orig)) else [])
      @ (if lo_Address orig \<noteq> 0 then varint_block [0x10] (lo_Address orig) else [])
      @ concat (map (\<lambda>v. message_block [0x1a] (Line_MarshalProto v)) (rev (lo_Lines orig)))
      @ (if length (lo_AttributeIndices orig) > 0 then packed_varint_block [0x22] (map scast (lo_AttributeIndices orig)) else []))"

definition Location_field :: "Location field_reader" where
  "Location_field buf fieldNum wireType pos orig =
     (if fieldNum = 1 then read_varint (\<lambda>num. orig\<lparr>lo_MappingIndex := ucast num\<rparr>) buf wireType pos
      else if fieldNum = 2 then read_varint (\<lambda>num. orig\<lparr>lo_Address := num\<rparr>) buf wireType pos
      else if fieldNum = 3 then read_message Line_UnmarshalProto Line_zero (\<lambda>v. orig\<lparr>lo_Lines := lo_Lines orig @ [v]\<rparr>) buf wireType pos
      else if fieldNum = 4 then read_packed_varint (map scast (lo_AttributeIndices orig)) (\<lambda>vs. orig\<lparr>lo_AttributeIndices := map ucast vs\<rparr>) buf wireType pos
      else read_unknown orig buf wireType pos)"

definition Location_UnmarshalProto :: "Location unmarshaler" where
  "Location_UnmarshalProto = unmarshal_body Location_field"

definition Location_bytes :: "Location \<Rightarrow> byte list" where
  "Location_bytes orig =
     ((((if length (lo_AttributeIndices orig) > 0 then string_bytes [0x22] (packed_varints (map scast (lo_AttributeIndices orig))) else [])
      @ concat (map (\<lambda>v. string_bytes [0x1a] (Line_bytes v)) (lo_Lines orig)))
      @ (if lo_Address orig \<noteq> 0 then varint_field_bytes [0x10] (lo_Address orig) else []))
      @ (if lo_MappingIndex orig \<noteq> 0 then varint_field_bytes [0x08] (scast (lo_MappingIndex orig)) else []))"

definition Location_wf :: "Location \<Rightarrow> bool" where
  "Location_wf orig \<longleftrightarrow> list_all Line_wf (lo_Lines orig)"

lemma Location_decodes:
  assumes "Location_wf m"
  shows "decodes Location_field (Location_bytes m) Location_zero m"
proof -
  note wf = assms [unfolded Location_wf_def]
  have 1: "decodes Location_field ((if length (lo_AttributeIndices m) > 0 then string_bytes [0x22] (packed_varints (map scast (lo_AttributeIndices m))) else []))
      Location_zero
      (Location_zero\<lparr>lo_AttributeIndices := lo_AttributeIndices m\<rparr>)"
    by (rule decodes_packed_int32 [where fn = 4 and upd = "\<lambda>v. Location_zero\<lparr>lo_AttributeIndices := v\<rparr>"]) (simp_all add: Location_field_def Location_zero_def)
  have 2: "decodes Location_field (concat (map (\<lambda>v. string_bytes [0x1a] (Line_bytes v)) (lo_Lines m)))
      (Location_zero\<lparr>lo_AttributeIndices := lo_AttributeIndices m\<rparr>)
      (Location_zero\<lparr>lo_AttributeIndices := lo_AttributeIndices m, lo_Lines := lo_Lines m\<rparr>)"
    by (rule line_message.decodes_repeated_message [where fn = 3 and upd = "\<lambda>v. Location_zero\<lparr>lo_AttributeIndices := lo_AttributeIndices m, lo_Lines := v\<rparr>"]) (simp_all add: Location_field_def Location_zero_def wf)
  have 3: "decodes Location_field ((if lo_Address m \<noteq> 0 then varint_field_bytes [0x10] (lo_Address m) else []))
      (Location_zero\<lparr>lo_AttributeIndices := lo_AttributeIndices m, lo_Lines := lo_Lines m\<rparr>)
      (Location_zero\<lparr>lo_AttributeIndices := lo_AttributeIndices m, lo_Lines := lo_Lines m, lo_Address := lo_Address m\<rparr>)"
    by (rule decodes_opt_varint [where fn = 2 and enc = "\<lambda>n. n" and dec = "\<lambda>n. n" and upd = "\<lambda>v. Location_zero\<lparr>lo_AttributeIndices := lo_AttributeIndices m, lo_Lines := lo_Lines m, lo_Address := v\<rparr>"]) (simp_all add: Location_field_def Location_zero_def)
  have 4: "decodes Location_field ((if lo_MappingIndex m \<noteq> 0 then varint_field_bytes [0x08] (scast (lo_MappingIndex m)) else []))
      (Location_zero\<lparr>lo_AttributeIndices := lo_AttributeIndices m, lo_Lines := lo_Lines m, lo_Address := lo_Address m\<rparr>)
      (Location_zero\<lparr>lo_AttributeIndices := lo_AttributeIndices m, lo_Lines := lo_Lines m, lo_Address := lo_Address m, lo_MappingIndex := lo_MappingIndex m\<rparr>)"
    by (rule decodes_opt_varint [where fn = 1 and enc = scast and dec = ucast and upd = "\<lambda>v. Location_zero\<lparr>lo_AttributeIndices := lo_AttributeIndices m, lo_Lines := lo_Lines m, lo_Address := lo_Address m, lo_MappingIndex := v\<rparr>"]) (simp_all add: Location_field_def Location_zero_def ucast_scast_32)
  have eq: "(Location_zero\<lparr>lo_AttributeIndices := lo_AttributeIndices m, lo_Lines := lo_Lines m, lo_Address := lo_Address m, lo_MappingIndex := lo_MappingIndex m\<rparr>) = m"
    by (cases m) (simp add: Location_zero_def)
  from decodes_append [OF decodes_append [OF decodes_append [OF 1 2] 3] 4]
  show ?thesis unfolding eq Location_bytes_def .
qed

interpretation location: proto_message Location_SizeProto Location_MarshalProto Location_UnmarshalProto Location_zero Location_bytes Location_wf
proof unfold_locales
  fix m assume wf: "Location_wf m"
  then show "Location_SizeProto m = length (Location_bytes m)"
    unfolding Location_SizeProto_def Location_bytes_def Location_wf_def
    by (simp add: length_if_Nil field_sizes repeated_string_size  length_packed_varints length_packed_fixed64s Soz_zigzag Sov_1 mult.commute [of _ 8] numeral_2_eq_2 line_message.repeated_size line_message.size del: length_concat split del: if_split cong: if_cong)
  show "marshals (Location_MarshalProto m) (Location_bytes m)"
    unfolding Location_MarshalProto_def Location_bytes_def
    by (intro marshals_body emit) (use wf in \<open>simp_all add: Location_wf_def\<close>)
  show "Location_UnmarshalProto (Location_bytes m) Location_zero = Some (Inr m)" if "valid_buf (Location_bytes m)"
    unfolding Location_UnmarshalProto_def by (rule unmarshal_body_decodes [OF Location_decodes [OF wf] that])
next
  fix buf and m :: Location
  assume "valid_buf buf"
  then show "unmarshal_ok (Location_UnmarshalProto buf m)"
    unfolding Location_UnmarshalProto_def Location_field_def by (intro unmarshal_body_ok reader_ok) simp_all
qed

section \<open>Mapping\<close>

record Mapping =
  ma_MemoryStart :: u64
  ma_MemoryLimit :: u64
  ma_FileOffset :: u64
  ma_FilenameStrindex :: "32 word"
  ma_AttributeIndices :: "32 word list"

definition Mapping_zero :: Mapping where
  "Mapping_zero = \<lparr>ma_MemoryStart = 0, ma_MemoryLimit = 0, ma_FileOffset = 0, ma_FilenameStrindex = 0, ma_AttributeIndices = []\<rparr>"

definition Mapping_SizeProto :: "Mapping \<Rightarrow> nat" where
  "Mapping_SizeProto orig =
     (if ma_MemoryStart orig \<noteq> 0 then 1 + Sov (ma_MemoryStart orig) else 0)
     + (if ma_MemoryLimit orig \<noteq> 0 then 1 + Sov (ma_MemoryLimit orig) else 0)
     + (if ma_FileOffset orig \<noteq> 0 then 1 + Sov (ma_FileOffset orig) else 0)
     + (if ma_FilenameStrindex orig \<noteq> 0 then 1 + Sov (scast (ma_FilenameStrindex orig)) else 0)
     + (if length (ma_AttributeIndices orig) > 0 then len_size 1 (sum_list (map Sov (map scast (ma_AttributeIndices orig)))) else 0)"

definition Mapping_MarshalProto :: "Mapping \<Rightarrow> marshaler" where
  "Mapping_MarshalProto orig = marshal_body
     ((if ma_MemoryStart orig \<noteq> 0 then varint_block [0x08] (ma_MemoryStart orig) else [])
      @ (if ma_MemoryLimit orig \<noteq> 0 then varint_block [0x10] (ma_MemoryLimit orig) else [])
      @ (if ma_FileOffset orig \<noteq> 0 then varint_block [0x18] (ma_FileOffset orig) else [])
      @ (if ma_FilenameStrindex orig \<noteq> 0 then varint_block [0x20] (scast (ma_FilenameStrindex orig)) else [])
      @ (if length (ma_AttributeIndices orig) > 0 then packed_varint_block [0x2a] (map scast (ma_AttributeIndices orig)) else []))"

definition Mapping_field :: "Mapping field_reader" where
  "Mapping_field buf fieldNum wireType pos orig =
     (if fieldNum = 1 then read_varint (\<lambda>num. orig\<lparr>ma_MemoryStart := num\<rparr>) buf wireType pos
      else if fieldNum = 2 then read_varint (\<lambda>num. orig\<lparr>ma_MemoryLimit := num\<rparr>) buf wireType pos
      else if fieldNum = 3 then read_varint (\<lambda>num. orig\<lparr>ma_FileOffset := num\<rparr>) buf wireType pos
      else if fieldNum = 4 then read_varint (\<lambda>num. orig\<lparr>ma_FilenameStrindex := ucast num\<rparr>) buf wireType pos
      else if fieldNum = 5 then read_packed_varint (map scast (ma_AttributeIndices orig)) (\<lambda>vs. orig\<lparr>ma_AttributeIndices := map ucast vs\<rparr>) buf wireType pos
      else read_unknown orig buf wireType pos)"

definition Mapping_UnmarshalProto :: "Mapping unmarshaler" where
  "Mapping_UnmarshalProto = unmarshal_body Mapping_field"

definition Mapping_bytes :: "Mapping \<Rightarrow> byte list" where
  "Mapping_bytes orig =
     (((((if length (ma_AttributeIndices orig) > 0 then string_bytes [0x2a] (packed_varints (map scast (ma_AttributeIndices orig))) else [])
      @ (if ma_FilenameStrindex orig \<noteq> 0 then varint_field_bytes [0x20] (scast (ma_FilenameStrindex orig)) else []))
      @ (if ma_FileOffset orig \<noteq> 0 then varint_field_bytes [0x18] (ma_FileOffset orig) else []))
      @ (if ma_MemoryLimit orig \<noteq> 0 then varint_field_bytes [0x10] (ma_MemoryLimit orig) else []))
      @ (if ma_MemoryStart orig \<noteq> 0 then varint_field_bytes [0x08] (ma_MemoryStart orig) else []))"

definition Mapping_wf :: "Mapping \<Rightarrow> bool" where
  "Mapping_wf orig \<longleftrightarrow> True"

lemma Mapping_decodes:
  assumes "Mapping_wf m"
  shows "decodes Mapping_field (Mapping_bytes m) Mapping_zero m"
proof -
  have 1: "decodes Mapping_field ((if length (ma_AttributeIndices m) > 0 then string_bytes [0x2a] (packed_varints (map scast (ma_AttributeIndices m))) else []))
      Mapping_zero
      (Mapping_zero\<lparr>ma_AttributeIndices := ma_AttributeIndices m\<rparr>)"
    by (rule decodes_packed_int32 [where fn = 5 and upd = "\<lambda>v. Mapping_zero\<lparr>ma_AttributeIndices := v\<rparr>"]) (simp_all add: Mapping_field_def Mapping_zero_def)
  have 2: "decodes Mapping_field ((if ma_FilenameStrindex m \<noteq> 0 then varint_field_bytes [0x20] (scast (ma_FilenameStrindex m)) else []))
      (Mapping_zero\<lparr>ma_AttributeIndices := ma_AttributeIndices m\<rparr>)
      (Mapping_zero\<lparr>ma_AttributeIndices := ma_AttributeIndices m, ma_FilenameStrindex := ma_FilenameStrindex m\<rparr>)"
    by (rule decodes_opt_varint [where fn = 4 and enc = scast and dec = ucast and upd = "\<lambda>v. Mapping_zero\<lparr>ma_AttributeIndices := ma_AttributeIndices m, ma_FilenameStrindex := v\<rparr>"]) (simp_all add: Mapping_field_def Mapping_zero_def ucast_scast_32)
  have 3: "decodes Mapping_field ((if ma_FileOffset m \<noteq> 0 then varint_field_bytes [0x18] (ma_FileOffset m) else []))
      (Mapping_zero\<lparr>ma_AttributeIndices := ma_AttributeIndices m, ma_FilenameStrindex := ma_FilenameStrindex m\<rparr>)
      (Mapping_zero\<lparr>ma_AttributeIndices := ma_AttributeIndices m, ma_FilenameStrindex := ma_FilenameStrindex m, ma_FileOffset := ma_FileOffset m\<rparr>)"
    by (rule decodes_opt_varint [where fn = 3 and enc = "\<lambda>n. n" and dec = "\<lambda>n. n" and upd = "\<lambda>v. Mapping_zero\<lparr>ma_AttributeIndices := ma_AttributeIndices m, ma_FilenameStrindex := ma_FilenameStrindex m, ma_FileOffset := v\<rparr>"]) (simp_all add: Mapping_field_def Mapping_zero_def)
  have 4: "decodes Mapping_field ((if ma_MemoryLimit m \<noteq> 0 then varint_field_bytes [0x10] (ma_MemoryLimit m) else []))
      (Mapping_zero\<lparr>ma_AttributeIndices := ma_AttributeIndices m, ma_FilenameStrindex := ma_FilenameStrindex m, ma_FileOffset := ma_FileOffset m\<rparr>)
      (Mapping_zero\<lparr>ma_AttributeIndices := ma_AttributeIndices m, ma_FilenameStrindex := ma_FilenameStrindex m, ma_FileOffset := ma_FileOffset m, ma_MemoryLimit := ma_MemoryLimit m\<rparr>)"
    by (rule decodes_opt_varint [where fn = 2 and enc = "\<lambda>n. n" and dec = "\<lambda>n. n" and upd = "\<lambda>v. Mapping_zero\<lparr>ma_AttributeIndices := ma_AttributeIndices m, ma_FilenameStrindex := ma_FilenameStrindex m, ma_FileOffset := ma_FileOffset m, ma_MemoryLimit := v\<rparr>"]) (simp_all add: Mapping_field_def Mapping_zero_def)
  have 5: "decodes Mapping_field ((if ma_MemoryStart m \<noteq> 0 then varint_field_bytes [0x08] (ma_MemoryStart m) else []))
      (Mapping_zero\<lparr>ma_AttributeIndices := ma_AttributeIndices m, ma_FilenameStrindex := ma_FilenameStrindex m, ma_FileOffset := ma_FileOffset m, ma_MemoryLimit := ma_MemoryLimit m\<rparr>)
      (Mapping_zero\<lparr>ma_AttributeIndices := ma_AttributeIndices m, ma_FilenameStrindex := ma_FilenameStrindex m, ma_FileOffset := ma_FileOffset m, ma_MemoryLimit := ma_MemoryLimit m, ma_MemoryStart := ma_MemoryStart m\<rparr>)"
    by (rule decodes_opt_varint [where fn = 1 and enc = "\<lambda>n. n" and dec = "\<lambda>n. n" and upd = "\<lambda>v. Mapping_zero\<lparr>ma_AttributeIndices := ma_AttributeIndices m, ma_FilenameStrindex := ma_FilenameStrindex m, ma_FileOffset := ma_FileOffset m, ma_MemoryLimit := ma_MemoryLimit m, ma_MemoryStart := v\<rparr>"]) (simp_all add: Mapping_field_def Mapping_zero_def)
  have eq: "(Mapping_zero\<lparr>ma_AttributeIndices := ma_AttributeIndices m, ma_FilenameStrindex := ma_FilenameStrindex m, ma_FileOffset := ma_FileOffset m, ma_MemoryLimit := ma_MemoryLimit m, ma_MemoryStart := ma_MemoryStart m\<rparr>) = m"
    by (cases m) (simp add: Mapping_zero_def)
  from decodes_append [OF decodes_append [OF decodes_append [OF decodes_append [OF 1 2] 3] 4] 5]
  show ?thesis unfolding eq Mapping_bytes_def .
qed

interpretation mapping_message: proto_message Mapping_SizeProto Mapping_MarshalProto Mapping_UnmarshalProto Mapping_zero Mapping_bytes Mapping_wf
proof unfold_locales
  fix m assume wf: "Mapping_wf m"
  then show "Mapping_SizeProto m = length (Mapping_bytes m)"
    unfolding Mapping_SizeProto_def Mapping_bytes_def Mapping_wf_def
    by (simp add: length_if_Nil field_sizes repeated_string_size  length_packed_varints length_packed_fixed64s Soz_zigzag Sov_1 mult.commute [of _ 8] numeral_2_eq_2  del: length_concat split del: if_split cong: if_cong)
  show "marshals (Mapping_MarshalProto m) (Mapping_bytes m)"
    unfolding Mapping_MarshalProto_def Mapping_bytes_def
    by (intro marshals_body emit)
  show "Mapping_UnmarshalProto (Mapping_bytes m) Mapping_zero = Some (Inr m)" if "valid_buf (Mapping_bytes m)"
    unfolding Mapping_UnmarshalProto_def by (rule unmarshal_body_decodes [OF Mapping_decodes [OF wf] that])
next
  fix buf and m :: Mapping
  assume "valid_buf buf"
  then show "unmarshal_ok (Mapping_UnmarshalProto buf m)"
    unfolding Mapping_UnmarshalProto_def Mapping_field_def by (intro unmarshal_body_ok reader_ok) simp_all
qed

section \<open>Stack\<close>

record Stack =
  sa_LocationIndices :: "32 word list"

definition Stack_zero :: Stack where
  "Stack_zero = \<lparr>sa_LocationIndices = []\<rparr>"

definition Stack_SizeProto :: "Stack \<Rightarrow> nat" where
  "Stack_SizeProto orig =
     (if length (sa_LocationIndices orig) > 0 then len_size 1 (sum_list (map Sov (map scast (sa_LocationIndices orig)))) else 0)"

definition Stack_MarshalProto :: "Stack \<Rightarrow> marshaler" where
  "Stack_MarshalProto orig = marshal_body
     ((if length (sa_LocationIndices orig) > 0 then packed_varint_block [0x0a] (map scast (sa_LocationIndices orig)) else []))"

definition Stack_field :: "Stack field_reader" where
  "Stack_field buf fieldNum wireType pos orig =
     (if fieldNum = 1 then read_packed_varint (map scast (sa_LocationIndices orig)) (\<lambda>vs. orig\<lparr>sa_LocationIndices := map ucast vs\<rparr>) buf wireType pos
      else read_unknown orig buf wireType pos)"

definition Stack_UnmarshalProto :: "Stack unmarshaler" where
  "Stack_UnmarshalProto = unmarshal_body Stack_field"

definition Stack_bytes :: "Stack \<Rightarrow> byte list" where
  "Stack_bytes orig =
     (if length (sa_LocationIndices orig) > 0 then string_bytes [0x0a] (packed_varints (map scast (sa_LocationIndices orig))) else [])"

definition Stack_wf :: "Stack \<Rightarrow> bool" where
  "Stack_wf orig \<longleftrightarrow> True"

lemma Stack_decodes:
  assumes "Stack_wf m"
  shows "decodes Stack_field (Stack_bytes m) Stack_zero m"
proof -
  have 1: "decodes Stack_field ((if length (sa_LocationIndices m) > 0 then string_bytes [0x0a] (packed_varints (map scast (sa_LocationIndices m))) else []))
      Stack_zero
      (Stack_zero\<lparr>sa_LocationIndices := sa_LocationIndices m\<rparr>)"
    by (rule decodes_packed_int32 [where fn = 1 and upd = "\<lambda>v. Stack_zero\<lparr>sa_LocationIndices := v\<rparr>"]) (simp_all add: Stack_field_def Stack_zero_def)
  have eq: "(Stack_zero\<lparr>sa_LocationIndices := sa_LocationIndices m\<rparr>) = m"
    by (cases m) (simp add: Stack_zero_def)
  from 1
  show ?thesis unfolding eq Stack_bytes_def .
qed

interpretation stack_message: proto_message Stack_SizeProto Stack_MarshalProto Stack_UnmarshalProto Stack_zero Stack_bytes Stack_wf
proof unfold_locales
  fix m assume wf: "Stack_wf m"
  then show "Stack_SizeProto m = length (Stack_bytes m)"
    unfolding Stack_SizeProto_def Stack_bytes_def Stack_wf_def
    by (simp add: length_if_Nil field_sizes repeated_string_size  length_packed_varints length_packed_fixed64s Soz_zigzag Sov_1 mult.commute [of _ 8] numeral_2_eq_2  del: length_concat split del: if_split cong: if_cong)
  show "marshals (Stack_MarshalProto m) (Stack_bytes m)"
    unfolding Stack_MarshalProto_def Stack_bytes_def
    by (intro marshals_body emit)
  show "Stack_UnmarshalProto (Stack_bytes m) Stack_zero = Some (Inr m)" if "valid_buf (Stack_bytes m)"
    unfolding Stack_UnmarshalProto_def by (rule unmarshal_body_decodes [OF Stack_decodes [OF wf] that])
next
  fix buf and m :: Stack
  assume "valid_buf buf"
  then show "unmarshal_ok (Stack_UnmarshalProto buf m)"
    unfolding Stack_UnmarshalProto_def Stack_field_def by (intro unmarshal_body_ok reader_ok) simp_all
qed

section \<open>Sample\<close>

record Sample =
  sx_StackIndex :: "32 word"
  sx_AttributeIndices :: "32 word list"
  sx_LinkIndex :: "32 word"
  sx_Values :: "u64 list"
  sx_TimestampsUnixNano :: "u64 list"

definition Sample_zero :: Sample where
  "Sample_zero = \<lparr>sx_StackIndex = 0, sx_AttributeIndices = [], sx_LinkIndex = 0, sx_Values = [], sx_TimestampsUnixNano = []\<rparr>"

definition Sample_SizeProto :: "Sample \<Rightarrow> nat" where
  "Sample_SizeProto orig =
     (if sx_StackIndex orig \<noteq> 0 then 1 + Sov (scast (sx_StackIndex orig)) else 0)
     + (if length (sx_AttributeIndices orig) > 0 then len_size 1 (sum_list (map Sov (map scast (sx_AttributeIndices orig)))) else 0)
     + (if sx_LinkIndex orig \<noteq> 0 then 1 + Sov (scast (sx_LinkIndex orig)) else 0)
     + (if length (sx_Values orig) > 0 then len_size 1 (sum_list (map Sov (sx_Values orig))) else 0)
     + (if length (sx_TimestampsUnixNano orig) > 0 then len_size 1 (length (sx_TimestampsUnixNano orig) * 8) else 0)"

definition Sample_MarshalProto :: "Sample \<Rightarrow> marshaler" where
  "Sample_MarshalProto orig = marshal_body
     ((if sx_StackIndex orig \<noteq> 0 then varint_block [0x08] (scast (sx_StackIndex orig)) else [])
      @ (if length (sx_AttributeIndices orig) > 0 then packed_varint_block [0x12] (map scast (sx_AttributeIndices orig)) else [])
      @ (if sx_LinkIndex orig \<noteq> 0 then varint_block [0x18] (scast (sx_LinkIndex orig)) else [])
      @ (if length (sx_Values orig) > 0 then packed_varint_block [0x22] (sx_Values orig) else [])
      @ (if length (sx_TimestampsUnixNano orig) > 0 then packed_fixed64_block [0x2a] (sx_TimestampsUnixNano orig) else []))"

definition Sample_field :: "Sample field_reader" where
  "Sample_field buf fieldNum wireType pos orig =
     (if fieldNum = 1 then read_varint (\<lambda>num. orig\<lparr>sx_StackIndex := ucast num\<rparr>) buf wireType pos
      else if fieldNum = 2 then read_packed_varint (map scast (sx_AttributeIndices orig)) (\<lambda>vs. orig\<lparr>sx_AttributeIndices := map ucast vs\<rparr>) buf wireType pos
      else if fieldNum = 3 then read_varint (\<lambda>num. orig\<lparr>sx_LinkIndex := ucast num\<rparr>) buf wireType pos
      else if fieldNum = 4 then read_packed_varint (sx_Values orig) (\<lambda>vs. orig\<lparr>sx_Values := vs\<rparr>) buf wireType pos
      else if fieldNum = 5 then read_packed_fixed64 (sx_TimestampsUnixNano orig) (\<lambda>vs. orig\<lparr>sx_TimestampsUnixNano := vs\<rparr>) buf wireType pos
      else read_unknown orig buf wireType pos)"

definition Sample_UnmarshalProto :: "Sample unmarshaler" where
  "Sample_UnmarshalProto = unmarshal_body Sample_field"

definition Sample_bytes :: "Sample \<Rightarrow> byte list" where
  "Sample_bytes orig =
     (((((if length (sx_TimestampsUnixNano orig) > 0 then string_bytes [0x2a] (packed_fixed64s (sx_TimestampsUnixNano orig)) else [])
      @ (if length (sx_Values orig) > 0 then string_bytes [0x22] (packed_varints (sx_Values orig)) else []))
      @ (if sx_LinkIndex orig \<noteq> 0 then varint_field_bytes [0x18] (scast (sx_LinkIndex orig)) else []))
      @ (if length (sx_AttributeIndices orig) > 0 then string_bytes [0x12] (packed_varints (map scast (sx_AttributeIndices orig))) else []))
      @ (if sx_StackIndex orig \<noteq> 0 then varint_field_bytes [0x08] (scast (sx_StackIndex orig)) else []))"

definition Sample_wf :: "Sample \<Rightarrow> bool" where
  "Sample_wf orig \<longleftrightarrow> True"

lemma Sample_decodes:
  assumes "Sample_wf m"
  shows "decodes Sample_field (Sample_bytes m) Sample_zero m"
proof -
  have 1: "decodes Sample_field ((if length (sx_TimestampsUnixNano m) > 0 then string_bytes [0x2a] (packed_fixed64s (sx_TimestampsUnixNano m)) else []))
      Sample_zero
      (Sample_zero\<lparr>sx_TimestampsUnixNano := sx_TimestampsUnixNano m\<rparr>)"
    by (rule decodes_packed_fixed64 [where fn = 5 and upd = "\<lambda>v. Sample_zero\<lparr>sx_TimestampsUnixNano := v\<rparr>"]) (simp_all add: Sample_field_def Sample_zero_def)
  have 2: "decodes Sample_field ((if length (sx_Values m) > 0 then string_bytes [0x22] (packed_varints (sx_Values m)) else []))
      (Sample_zero\<lparr>sx_TimestampsUnixNano := sx_TimestampsUnixNano m\<rparr>)
      (Sample_zero\<lparr>sx_TimestampsUnixNano := sx_TimestampsUnixNano m, sx_Values := sx_Values m\<rparr>)"
    by (rule decodes_packed_varint [where fn = 4 and upd = "\<lambda>v. Sample_zero\<lparr>sx_TimestampsUnixNano := sx_TimestampsUnixNano m, sx_Values := v\<rparr>"]) (simp_all add: Sample_field_def Sample_zero_def)
  have 3: "decodes Sample_field ((if sx_LinkIndex m \<noteq> 0 then varint_field_bytes [0x18] (scast (sx_LinkIndex m)) else []))
      (Sample_zero\<lparr>sx_TimestampsUnixNano := sx_TimestampsUnixNano m, sx_Values := sx_Values m\<rparr>)
      (Sample_zero\<lparr>sx_TimestampsUnixNano := sx_TimestampsUnixNano m, sx_Values := sx_Values m, sx_LinkIndex := sx_LinkIndex m\<rparr>)"
    by (rule decodes_opt_varint [where fn = 3 and enc = scast and dec = ucast and upd = "\<lambda>v. Sample_zero\<lparr>sx_TimestampsUnixNano := sx_TimestampsUnixNano m, sx_Values := sx_Values m, sx_LinkIndex := v\<rparr>"]) (simp_all add: Sample_field_def Sample_zero_def ucast_scast_32)
  have 4: "decodes Sample_field ((if length (sx_AttributeIndices m) > 0 then string_bytes [0x12] (packed_varints (map scast (sx_AttributeIndices m))) else []))
      (Sample_zero\<lparr>sx_TimestampsUnixNano := sx_TimestampsUnixNano m, sx_Values := sx_Values m, sx_LinkIndex := sx_LinkIndex m\<rparr>)
      (Sample_zero\<lparr>sx_TimestampsUnixNano := sx_TimestampsUnixNano m, sx_Values := sx_Values m, sx_LinkIndex := sx_LinkIndex m, sx_AttributeIndices := sx_AttributeIndices m\<rparr>)"
    by (rule decodes_packed_int32 [where fn = 2 and upd = "\<lambda>v. Sample_zero\<lparr>sx_TimestampsUnixNano := sx_TimestampsUnixNano m, sx_Values := sx_Values m, sx_LinkIndex := sx_LinkIndex m, sx_AttributeIndices := v\<rparr>"]) (simp_all add: Sample_field_def Sample_zero_def)
  have 5: "decodes Sample_field ((if sx_StackIndex m \<noteq> 0 then varint_field_bytes [0x08] (scast (sx_StackIndex m)) else []))
      (Sample_zero\<lparr>sx_TimestampsUnixNano := sx_TimestampsUnixNano m, sx_Values := sx_Values m, sx_LinkIndex := sx_LinkIndex m, sx_AttributeIndices := sx_AttributeIndices m\<rparr>)
      (Sample_zero\<lparr>sx_TimestampsUnixNano := sx_TimestampsUnixNano m, sx_Values := sx_Values m, sx_LinkIndex := sx_LinkIndex m, sx_AttributeIndices := sx_AttributeIndices m, sx_StackIndex := sx_StackIndex m\<rparr>)"
    by (rule decodes_opt_varint [where fn = 1 and enc = scast and dec = ucast and upd = "\<lambda>v. Sample_zero\<lparr>sx_TimestampsUnixNano := sx_TimestampsUnixNano m, sx_Values := sx_Values m, sx_LinkIndex := sx_LinkIndex m, sx_AttributeIndices := sx_AttributeIndices m, sx_StackIndex := v\<rparr>"]) (simp_all add: Sample_field_def Sample_zero_def ucast_scast_32)
  have eq: "(Sample_zero\<lparr>sx_TimestampsUnixNano := sx_TimestampsUnixNano m, sx_Values := sx_Values m, sx_LinkIndex := sx_LinkIndex m, sx_AttributeIndices := sx_AttributeIndices m, sx_StackIndex := sx_StackIndex m\<rparr>) = m"
    by (cases m) (simp add: Sample_zero_def)
  from decodes_append [OF decodes_append [OF decodes_append [OF decodes_append [OF 1 2] 3] 4] 5]
  show ?thesis unfolding eq Sample_bytes_def .
qed

interpretation sample_message: proto_message Sample_SizeProto Sample_MarshalProto Sample_UnmarshalProto Sample_zero Sample_bytes Sample_wf
proof unfold_locales
  fix m assume wf: "Sample_wf m"
  then show "Sample_SizeProto m = length (Sample_bytes m)"
    unfolding Sample_SizeProto_def Sample_bytes_def Sample_wf_def
    by (simp add: length_if_Nil field_sizes repeated_string_size  length_packed_varints length_packed_fixed64s Soz_zigzag Sov_1 mult.commute [of _ 8] numeral_2_eq_2  del: length_concat split del: if_split cong: if_cong)
  show "marshals (Sample_MarshalProto m) (Sample_bytes m)"
    unfolding Sample_MarshalProto_def Sample_bytes_def
    by (intro marshals_body emit)
  show "Sample_UnmarshalProto (Sample_bytes m) Sample_zero = Some (Inr m)" if "valid_buf (Sample_bytes m)"
    unfolding Sample_UnmarshalProto_def by (rule unmarshal_body_decodes [OF Sample_decodes [OF wf] that])
next
  fix buf and m :: Sample
  assume "valid_buf buf"
  then show "unmarshal_ok (Sample_UnmarshalProto buf m)"
    unfolding Sample_UnmarshalProto_def Sample_field_def by (intro unmarshal_body_ok reader_ok) simp_all
qed

section \<open>Profile\<close>

record Profile =
  pr_SampleType :: ValueType
  pr_Samples :: "Sample list"
  pr_TimeUnixNano :: u64
  pr_DurationNano :: u64
  pr_PeriodType :: ValueType
  pr_Period :: u64
  pr_ProfileId :: ident
  pr_DroppedAttributesCount :: "32 word"
  pr_OriginalPayloadFormat :: "byte list"
  pr_OriginalPayload :: "byte list"
  pr_AttributeIndices :: "32 word list"

definition Profile_zero :: Profile where
  "Profile_zero = \<lparr>pr_SampleType = ValueType_zero, pr_Samples = [], pr_TimeUnixNano = 0, pr_DurationNano = 0, pr_PeriodType = ValueType_zero, pr_Period = 0, pr_ProfileId = replicate profileIDSize 0, pr_DroppedAttributesCount = 0, pr_OriginalPayloadFormat = [], pr_OriginalPayload = [], pr_AttributeIndices = []\<rparr>"

definition Profile_SizeProto :: "Profile \<Rightarrow> nat" where
  "Profile_SizeProto orig =
     len_size 1 (ValueType_SizeProto (pr_SampleType orig))
     + sum_list (map (\<lambda>v. len_size 1 (Sample_SizeProto v)) (pr_Samples orig))
     + (if pr_TimeUnixNano orig \<noteq> 0 then 9 else 0)
     + (if pr_DurationNano orig \<noteq> 0 then 1 + Sov (pr_DurationNano orig) else 0)
     + len_size 1 (ValueType_SizeProto (pr_PeriodType orig))
     + (if pr_Period orig \<noteq> 0 then 1 + Sov (pr_Period orig) else 0)
     + len_size 1 (ID_SizeProto profileIDSize (pr_ProfileId orig))
     + (if pr_DroppedAttributesCount orig \<noteq> 0 then 1 + Sov (ucast (pr_DroppedAttributesCount orig)) else 0)
     + (if length (pr_OriginalPayloadFormat orig) > 0 then len_size 1 (length (pr_OriginalPayloadFormat orig)) else 0)
     + (if length (pr_OriginalPayload orig) > 0 then len_size 1 (length (pr_OriginalPayload orig)) else 0)
     + (if length (pr_AttributeIndices orig) > 0 then len_size 1 (sum_list (map Sov (map scast (pr_AttributeIndices orig)))) else 0)"

definition Profile_MarshalProto :: "Profile \<Rightarrow> marshaler" where
  "Profile_MarshalProto orig = marshal_body
     (message_block [0x0a] (ValueType_MarshalProto (pr_SampleType orig))
      @ concat (map (\<lambda>v. message_block [0x12] (Sample_MarshalProto v)) (rev (pr_Samples orig)))
      @ (if pr_TimeUnixNano orig \<noteq> 0 then fixed_block [0x19] 8 (pr_TimeUnixNano orig) else [])
      @ (if pr_DurationNano orig \<noteq> 0 then varint_block [0x20] (pr_DurationNano orig) else [])
      @ message_block [0x2a] (ValueType_MarshalProto (pr_PeriodType orig))
      @ (if pr_Period orig \<noteq> 0 then varint_block [0x30] (pr_Period orig) else [])
      @ message_block [0x3a] (ID_MarshalProto profileIDSize (pr_ProfileId orig))
      @ (if pr_DroppedAttributesCount orig \<noteq> 0 then varint_block [0x40] (ucast (pr_DroppedAttributesCount orig)) else [])
      @ (if length (pr_OriginalPayloadFormat orig) > 0 then string_block [0x4a] (pr_OriginalPayloadFormat orig) else [])
      @ (if length (pr_OriginalPayload orig) > 0 then string_block [0x52] (pr_OriginalPayload orig) else [])
      @ (if length (pr_AttributeIndices orig) > 0 then packed_varint_block [0x5a] (map scast (pr_AttributeIndices orig)) else []))"

definition Profile_field :: "Profile field_reader" where
  "Profile_field buf fieldNum wireType pos orig =
     (if fieldNum = 1 then read_message ValueType_UnmarshalProto (pr_SampleType orig) (\<lambda>v. orig\<lparr>pr_SampleType := v\<rparr>) buf wireType pos
      else if fieldNum = 2 then read_message Sample_UnmarshalProto Sample_zero (\<lambda>v. orig\<lparr>pr_Samples := pr_Samples orig @ [v]\<rparr>) buf wireType pos
      else if fieldNum = 3 then read_i64 (\<lambda>num. orig\<lparr>pr_TimeUnixNano := num\<rparr>) buf wireType pos
      else if fieldNum = 4 then read_varint (\<lambda>num. orig\<lparr>pr_DurationNano := num\<rparr>) buf wireType pos
      else if fieldNum = 5 then read_message ValueType_UnmarshalProto (pr_PeriodType orig) (\<lambda>v. orig\<lparr>pr_PeriodType := v\<rparr>) buf wireType pos
      else if fieldNum = 6 then read_varint (\<lambda>num. orig\<lparr>pr_Period := num\<rparr>) buf wireType pos
      else if fieldNum = 7 then read_message (ID_UnmarshalProto profileIDSize) (pr_ProfileId orig) (\<lambda>v. orig\<lparr>pr_ProfileId := v\<rparr>) buf wireType pos
      else if fieldNum = 8 then read_varint (\<lambda>num. orig\<lparr>pr_DroppedAttributesCount := ucast num\<rparr>) buf wireType pos
      else if fieldNum = 9 then read_bytes (\<lambda>s. orig\<lparr>pr_OriginalPayloadFormat := s\<rparr>) buf wireType pos
      else if fieldNum = 10 then read_bytes (\<lambda>s. if length s \<noteq> 0 then orig\<lparr>pr_OriginalPayload := s\<rparr> else orig) buf wireType pos
      else if fieldNum = 11 then read_packed_varint (map scast (pr_AttributeIndices orig)) (\<lambda>vs. orig\<lparr>pr_AttributeIndices := map ucast vs\<rparr>) buf wireType pos
      else read_unknown orig buf wireType pos)"

definition Profile_UnmarshalProto :: "Profile unmarshaler" where
  "Profile_UnmarshalProto = unmarshal_body Profile_field"

definition Profile_bytes :: "Profile \<Rightarrow> byte list" where
  "Profile_bytes orig =
     (((((((((((if length (pr_AttributeIndices orig) > 0 then string_bytes [0x5a] (packed_varints (map scast (pr_AttributeIndices orig))) else [])
      @ (if length (pr_OriginalPayload orig) > 0 then string_bytes [0x52] (pr_OriginalPayload orig) else []))
      @ (if length (pr_OriginalPayloadFormat orig) > 0 then string_bytes [0x4a] (pr_OriginalPayloadFormat orig) else []))
      @ (if pr_DroppedAttributesCount orig \<noteq> 0 then varint_field_bytes [0x40] (ucast (pr_DroppedAttributesCount orig)) else []))
      @ string_bytes [0x3a] (ID_bytes profileIDSize (pr_ProfileId orig)))
      @ (if pr_Period orig \<noteq> 0 then varint_field_bytes [0x30] (pr_Period orig) else []))
      @ string_bytes [0x2a] (ValueType_bytes (pr_PeriodType orig)))
      @ (if pr_DurationNano orig \<noteq> 0 then varint_field_bytes [0x20] (pr_DurationNano orig) else []))
      @ (if pr_TimeUnixNano orig \<noteq> 0 then fixed_bytes [0x19] 8 (pr_TimeUnixNano orig) else []))
      @ concat (map (\<lambda>v. string_bytes [0x12] (Sample_bytes v)) (pr_Samples orig)))
      @ string_bytes [0x0a] (ValueType_bytes (pr_SampleType orig)))"

definition Profile_wf :: "Profile \<Rightarrow> bool" where
  "Profile_wf orig \<longleftrightarrow> ValueType_wf (pr_SampleType orig) \<and> list_all Sample_wf (pr_Samples orig) \<and> ValueType_wf (pr_PeriodType orig) \<and> ID_wf profileIDSize (pr_ProfileId orig)"

lemma Profile_decodes:
  assumes "Profile_wf m"
  shows "decodes Profile_field (Profile_bytes m) Profile_zero m"
proof -
  note wf = assms [unfolded Profile_wf_def]
  have 1: "decodes Profile_field ((if length (pr_AttributeIndices m) > 0 then string_bytes [0x5a] (packed_varints (map scast (pr_AttributeIndices m))) else []))
      Profile_zero
      (Profile_zero\<lparr>pr_AttributeIndices := pr_AttributeIndices m\<rparr>)"
    by (rule decodes_packed_int32 [where fn = 11 and upd = "\<lambda>v. Profile_zero\<lparr>pr_AttributeIndices := v\<rparr>"]) (simp_all add: Profile_field_def Profile_zero_def)
  have 2: "decodes Profile_field ((if length (pr_OriginalPayload m) > 0 then string_bytes [0x52] (pr_OriginalPayload m) else []))
      (Profile_zero\<lparr>pr_AttributeIndices := pr_AttributeIndices m\<rparr>)
      (Profile_zero\<lparr>pr_AttributeIndices := pr_AttributeIndices m, pr_OriginalPayload := pr_OriginalPayload m\<rparr>)"
    by (rule decodes_opt_bytes [where fn = 10 and upd = "\<lambda>v. Profile_zero\<lparr>pr_AttributeIndices := pr_AttributeIndices m, pr_OriginalPayload := v\<rparr>"]) (simp_all add: Profile_field_def Profile_zero_def cong: if_cong)
  have 3: "decodes Profile_field ((if length (pr_OriginalPayloadFormat m) > 0 then string_bytes [0x4a] (pr_OriginalPayloadFormat m) else []))
      (Profile_zero\<lparr>pr_AttributeIndices := pr_AttributeIndices m, pr_OriginalPayload := pr_OriginalPayload m\<rparr>)
      (Profile_zero\<lparr>pr_AttributeIndices := pr_AttributeIndices m, pr_OriginalPayload := pr_OriginalPayload m, pr_OriginalPayloadFormat := pr_OriginalPayloadFormat m\<rparr>)"
    by (rule decodes_opt_string [where fn = 9 and upd = "\<lambda>v. Profile_zero\<lparr>pr_AttributeIndices := pr_AttributeIndices m, pr_OriginalPayload := pr_OriginalPayload m, pr_OriginalPayloadFormat := v\<rparr>"]) (simp_all add: Profile_field_def Profile_zero_def)
  have 4: "decodes Profile_field ((if pr_DroppedAttributesCount m \<noteq> 0 then varint_field_bytes [0x40] (ucast (pr_DroppedAttributesCount m)) else []))
      (Profile_zero\<lparr>pr_AttributeIndices := pr_AttributeIndices m, pr_OriginalPayload := pr_OriginalPayload m, pr_OriginalPayloadFormat := pr_OriginalPayloadFormat m\<rparr>)
      (Profile_zero\<lparr>pr_AttributeIndices := pr_AttributeIndices m, pr_OriginalPayload := pr_OriginalPayload m, pr_OriginalPayloadFormat := pr_OriginalPayloadFormat m, pr_DroppedAttributesCount := pr_DroppedAttributesCount m\<rparr>)"
    by (rule decodes_opt_varint [where fn = 8 and enc = ucast and dec = ucast and upd = "\<lambda>v. Profile_zero\<lparr>pr_AttributeIndices := pr_AttributeIndices m, pr_OriginalPayload := pr_OriginalPayload m, pr_OriginalPayloadFormat := pr_OriginalPayloadFormat m, pr_DroppedAttributesCount := v\<rparr>"]) (simp_all add: Profile_field_def Profile_zero_def ucast_ucast_32)
  have 5: "decodes Profile_field (string_bytes [0x3a] (ID_bytes profileIDSize (pr_ProfileId m)))
      (Profile_zero\<lparr>pr_AttributeIndices := pr_AttributeIndices m, pr_OriginalPayload := pr_OriginalPayload m, pr_OriginalPayloadFormat := pr_OriginalPayloadFormat m, pr_DroppedAttributesCount := pr_DroppedAttributesCount m\<rparr>)
      (Profile_zero\<lparr>pr_AttributeIndices := pr_AttributeIndices m, pr_OriginalPayload := pr_OriginalPayload m, pr_OriginalPayloadFormat := pr_OriginalPayloadFormat m, pr_DroppedAttributesCount := pr_DroppedAttributesCount m, pr_ProfileId := pr_ProfileId m\<rparr>)"
    by (rule ident.decodes_message [where fn = 7 and upd = "\<lambda>v. Profile_zero\<lparr>pr_AttributeIndices := pr_AttributeIndices m, pr_OriginalPayload := pr_OriginalPayload m, pr_OriginalPayloadFormat := pr_OriginalPayloadFormat m, pr_DroppedAttributesCount := pr_DroppedAttributesCount m, pr_ProfileId := v\<rparr>"]) (simp_all add: Profile_field_def Profile_zero_def wf)
  have 6: "decodes Profile_field ((if pr_Period m \<noteq> 0 then varint_field_bytes [0x30] (pr_Period m) else []))
      (Profile_zero\<lparr>pr_AttributeIndices := pr_AttributeIndices m, pr_OriginalPayload := pr_OriginalPayload m, pr_OriginalPayloadFormat := pr_OriginalPayloadFormat m, pr_DroppedAttributesCount := pr_DroppedAttributesCount m, pr_ProfileId := pr_ProfileId m\<rparr>)
      (Profile_zero\<lparr>pr_AttributeIndices := pr_AttributeIndices m, pr_OriginalPayload := pr_OriginalPayload m, pr_OriginalPayloadFormat := pr_OriginalPayloadFormat m, pr_DroppedAttributesCount := pr_DroppedAttributesCount m, pr_ProfileId := pr_ProfileId m, pr_Period := pr_Period m\<rparr>)"
    by (rule decodes_opt_varint [where fn = 6 and enc = "\<lambda>n. n" and dec = "\<lambda>n. n" and upd = "\<lambda>v. Profile_zero\<lparr>pr_AttributeIndices := pr_AttributeIndices m, pr_OriginalPayload := pr_OriginalPayload m, pr_OriginalPayloadFormat := pr_OriginalPayloadFormat m, pr_DroppedAttributesCount := pr_DroppedAttributesCount m, pr_ProfileId := pr_ProfileId m, pr_Period := v\<rparr>"]) (simp_all add: Profile_field_def Profile_zero_def)
  have 7: "decodes Profile_field (string_bytes [0x2a] (ValueType_bytes (pr_PeriodType m)))
      (Profile_zero\<lparr>pr_AttributeIndices := pr_AttributeIndices m, pr_OriginalPayload := pr_OriginalPayload m, pr_OriginalPayloadFormat := pr_OriginalPayloadFormat m, pr_DroppedAttributesCount := pr_DroppedAttributesCount m, pr_ProfileId := pr_ProfileId m, pr_Period := pr_Period m\<rparr>)
      (Profile_zero\<lparr>pr_AttributeIndices := pr_AttributeIndices m, pr_OriginalPayload := pr_OriginalPayload m, pr_OriginalPayloadFormat := pr_OriginalPayloadFormat m, pr_DroppedAttributesCount := pr_DroppedAttributesCount m, pr_ProfileId := pr_ProfileId m, pr_Period := pr_Period m, pr_PeriodType := pr_PeriodType m\<rparr>)"
    by (rule value_type.decodes_message [where fn = 5 and upd = "\<lambda>v. Profile_zero\<lparr>pr_AttributeIndices := pr_AttributeIndices m, pr_OriginalPayload := pr_OriginalPayload m, pr_OriginalPayloadFormat := pr_OriginalPayloadFormat m, pr_DroppedAttributesCount := pr_DroppedAttributesCount m, pr_ProfileId := pr_ProfileId m, pr_Period := pr_Period m, pr_PeriodType := v\<rparr>"]) (simp_all add: Profile_field_def Profile_zero_def wf)
  have 8: "decodes Profile_field ((if pr_DurationNano m \<noteq> 0 then varint_field_bytes [0x20] (pr_DurationNano m) else []))
      (Profile_zero\<lparr>pr_AttributeIndices := pr_AttributeIndices m, pr_OriginalPayload := pr_OriginalPayload m, pr_OriginalPayloadFormat := pr_OriginalPayloadFormat m, pr_DroppedAttributesCount := pr_DroppedAttributesCount m, pr_ProfileId := pr_ProfileId m, pr_Period := pr_Period m, pr_PeriodType := pr_PeriodType m\<rparr>)
      (Profile_zero\<lparr>pr_AttributeIndices := pr_AttributeIndices m, pr_OriginalPayload := pr_OriginalPayload m, pr_OriginalPayloadFormat := pr_OriginalPayloadFormat m, pr_DroppedAttributesCount := pr_DroppedAttributesCount m, pr_ProfileId := pr_ProfileId m, pr_Period := pr_Period m, pr_PeriodType := pr_PeriodType m, pr_DurationNano := pr_DurationNano m\<rparr>)"
    by (rule decodes_opt_varint [where fn = 4 and enc = "\<lambda>n. n" and dec = "\<lambda>n. n" and upd = "\<lambda>v. Profile_zero\<lparr>pr_AttributeIndices := pr_AttributeIndices m, pr_OriginalPayload := pr_OriginalPayload m, pr_OriginalPayloadFormat := pr_OriginalPayloadFormat m, pr_DroppedAttributesCount := pr_DroppedAttributesCount m, pr_ProfileId := pr_ProfileId m, pr_Period := pr_Period m, pr_PeriodType := pr_PeriodType m, pr_DurationNano := v\<rparr>"]) (simp_all add: Profile_field_def Profile_zero_def)
  have 9: "decodes Profile_field ((if pr_TimeUnixNano m \<noteq> 0 then fixed_bytes [0x19] 8 (pr_TimeUnixNano m) else []))
      (Profile_zero\<lparr>pr_AttributeIndices := pr_AttributeIndices m, pr_OriginalPayload := pr_OriginalPayload m, pr_OriginalPayloadFormat := pr_OriginalPayloadFormat m, pr_DroppedAttributesCount := pr_DroppedAttributesCount m, pr_ProfileId := pr_ProfileId m, pr_Period := pr_Period m, pr_PeriodType := pr_PeriodType m, pr_DurationNano := pr_DurationNano m\<rparr>)
      (Profile_zero\<lparr>pr_AttributeIndices := pr_AttributeIndices m, pr_OriginalPayload := pr_OriginalPayload m, pr_OriginalPayloadFormat := pr_OriginalPayloadFormat m, pr_DroppedAttributesCount := pr_DroppedAttributesCount m, pr_ProfileId := pr_ProfileId m, pr_Period := pr_Period m, pr_PeriodType := pr_PeriodType m, pr_DurationNano := pr_DurationNano m, pr_TimeUnixNano := pr_TimeUnixNano m\<rparr>)"
    by (rule decodes_opt_fixed64 [where fn = 3 and upd = "\<lambda>v. Profile_zero\<lparr>pr_AttributeIndices := pr_AttributeIndices m, pr_OriginalPayload := pr_OriginalPayload m, pr_OriginalPayloadFormat := pr_OriginalPayloadFormat m, pr_DroppedAttributesCount := pr_DroppedAttributesCount m, pr_ProfileId := pr_ProfileId m, pr_Period := pr_Period m, pr_PeriodType := pr_PeriodType m, pr_DurationNano := pr_DurationNano m, pr_TimeUnixNano := v\<rparr>"]) (simp_all add: Profile_field_def Profile_zero_def)
  have 10: "decodes Profile_field (concat (map (\<lambda>v. string_bytes [0x12] (Sample_bytes v)) (pr_Samples m)))
      (Profile_zero\<lparr>pr_AttributeIndices := pr_AttributeIndices m, pr_OriginalPayload := pr_OriginalPayload m, pr_OriginalPayloadFormat := pr_OriginalPayloadFormat m, pr_DroppedAttributesCount := pr_DroppedAttributesCount m, pr_ProfileId := pr_ProfileId m, pr_Period := pr_Period m, pr_PeriodType := pr_PeriodType m, pr_DurationNano := pr_DurationNano m, pr_TimeUnixNano := pr_TimeUnixNano m\<rparr>)
      (Profile_zero\<lparr>pr_AttributeIndices := pr_AttributeIndices m, pr_OriginalPayload := pr_OriginalPayload m, pr_OriginalPayloadFormat := pr_OriginalPayloadFormat m, pr_DroppedAttributesCount := pr_DroppedAttributesCount m, pr_ProfileId := pr_ProfileId m, pr_Period := pr_Period m, pr_PeriodType := pr_PeriodType m, pr_DurationNano := pr_DurationNano m, pr_TimeUnixNano := pr_TimeUnixNano m, pr_Samples := pr_Samples m\<rparr>)"
    by (rule sample_message.decodes_repeated_message [where fn = 2 and upd = "\<lambda>v. Profile_zero\<lparr>pr_AttributeIndices := pr_AttributeIndices m, pr_OriginalPayload := pr_OriginalPayload m, pr_OriginalPayloadFormat := pr_OriginalPayloadFormat m, pr_DroppedAttributesCount := pr_DroppedAttributesCount m, pr_ProfileId := pr_ProfileId m, pr_Period := pr_Period m, pr_PeriodType := pr_PeriodType m, pr_DurationNano := pr_DurationNano m, pr_TimeUnixNano := pr_TimeUnixNano m, pr_Samples := v\<rparr>"]) (simp_all add: Profile_field_def Profile_zero_def wf)
  have 11: "decodes Profile_field (string_bytes [0x0a] (ValueType_bytes (pr_SampleType m)))
      (Profile_zero\<lparr>pr_AttributeIndices := pr_AttributeIndices m, pr_OriginalPayload := pr_OriginalPayload m, pr_OriginalPayloadFormat := pr_OriginalPayloadFormat m, pr_DroppedAttributesCount := pr_DroppedAttributesCount m, pr_ProfileId := pr_ProfileId m, pr_Period := pr_Period m, pr_PeriodType := pr_PeriodType m, pr_DurationNano := pr_DurationNano m, pr_TimeUnixNano := pr_TimeUnixNano m, pr_Samples := pr_Samples m\<rparr>)
      (Profile_zero\<lparr>pr_AttributeIndices := pr_AttributeIndices m, pr_OriginalPayload := pr_OriginalPayload m, pr_OriginalPayloadFormat := pr_OriginalPayloadFormat m, pr_DroppedAttributesCount := pr_DroppedAttributesCount m, pr_ProfileId := pr_ProfileId m, pr_Period := pr_Period m, pr_PeriodType := pr_PeriodType m, pr_DurationNano := pr_DurationNano m, pr_TimeUnixNano := pr_TimeUnixNano m, pr_Samples := pr_Samples m, pr_SampleType := pr_SampleType m\<rparr>)"
    by (rule value_type.decodes_message [where fn = 1 and upd = "\<lambda>v. Profile_zero\<lparr>pr_AttributeIndices := pr_AttributeIndices m, pr_OriginalPayload := pr_OriginalPayload m, pr_OriginalPayloadFormat := pr_OriginalPayloadFormat m, pr_DroppedAttributesCount := pr_DroppedAttributesCount m, pr_ProfileId := pr_ProfileId m, pr_Period := pr_Period m, pr_PeriodType := pr_PeriodType m, pr_DurationNano := pr_DurationNano m, pr_TimeUnixNano := pr_TimeUnixNano m, pr_Samples := pr_Samples m, pr_SampleType := v\<rparr>"]) (simp_all add: Profile_field_def Profile_zero_def wf)
  have eq: "(Profile_zero\<lparr>pr_AttributeIndices := pr_AttributeIndices m, pr_OriginalPayload := pr_OriginalPayload m, pr_OriginalPayloadFormat := pr_OriginalPayloadFormat m, pr_DroppedAttributesCount := pr_DroppedAttributesCount m, pr_ProfileId := pr_ProfileId m, pr_Period := pr_Period m, pr_PeriodType := pr_PeriodType m, pr_DurationNano := pr_DurationNano m, pr_TimeUnixNano := pr_TimeUnixNano m, pr_Samples := pr_Samples m, pr_SampleType := pr_SampleType m\<rparr>) = m"
    by (cases m) (simp add: Profile_zero_def)
  from decodes_append [OF decodes_append [OF decodes_append [OF decodes_append [OF decodes_append [OF decodes_append [OF decodes_append [OF decodes_append [OF decodes_append [OF decodes_append [OF 1 2] 3] 4] 5] 6] 7] 8] 9] 10] 11]
  show ?thesis unfolding eq Profile_bytes_def .
qed

interpretation profile_message: proto_message Profile_SizeProto Profile_MarshalProto Profile_UnmarshalProto Profile_zero Profile_bytes Profile_wf
proof unfold_locales
  fix m assume wf: "Profile_wf m"
  then show "Profile_SizeProto m = length (Profile_bytes m)"
    unfolding Profile_SizeProto_def Profile_bytes_def Profile_wf_def
    by (simp add: length_if_Nil field_sizes repeated_string_size  length_packed_varints length_packed_fixed64s Soz_zigzag Sov_1 mult.commute [of _ 8] numeral_2_eq_2 value_type.repeated_size value_type.size sample_message.repeated_size sample_message.size ident.repeated_size ident.size del: length_concat split del: if_split cong: if_cong)
  show "marshals (Profile_MarshalProto m) (Profile_bytes m)"
    unfolding Profile_MarshalProto_def Profile_bytes_def
    by (intro marshals_body emit) (use wf in \<open>simp_all add: Profile_wf_def\<close>)
  show "Profile_UnmarshalProto (Profile_bytes m) Profile_zero = Some (Inr m)" if "valid_buf (Profile_bytes m)"
    unfolding Profile_UnmarshalProto_def by (rule unmarshal_body_decodes [OF Profile_decodes [OF wf] that])
next
  fix buf and m :: Profile
  assume "valid_buf buf"
  then show "unmarshal_ok (Profile_UnmarshalProto buf m)"
    unfolding Profile_UnmarshalProto_def Profile_field_def by (intro unmarshal_body_ok reader_ok) simp_all
qed

section \<open>ScopeProfiles\<close>

record ScopeProfiles =
  so_Scope :: InstrumentationScope
  so_Profiles :: "Profile list"
  so_SchemaUrl :: "byte list"

definition ScopeProfiles_zero :: ScopeProfiles where
  "ScopeProfiles_zero = \<lparr>so_Scope = InstrumentationScope_zero, so_Profiles = [], so_SchemaUrl = []\<rparr>"

definition ScopeProfiles_SizeProto :: "ScopeProfiles \<Rightarrow> nat" where
  "ScopeProfiles_SizeProto orig =
     len_size 1 (InstrumentationScope_SizeProto (so_Scope orig))
     + sum_list (map (\<lambda>v. len_size 1 (Profile_SizeProto v)) (so_Profiles orig))
     + (if length (so_SchemaUrl orig) > 0 then len_size 1 (length (so_SchemaUrl orig)) else 0)"

definition ScopeProfiles_MarshalProto :: "ScopeProfiles \<Rightarrow> marshaler" where
  "ScopeProfiles_MarshalProto orig = marshal_body
     (message_block [0x0a] (InstrumentationScope_MarshalProto (so_Scope orig))
      @ concat (map (\<lambda>v. message_block [0x12] (Profile_MarshalProto v)) (rev (so_Profiles orig)))
      @ (if length (so_SchemaUrl orig) > 0 then string_block [0x1a] (so_SchemaUrl orig) else []))"

definition ScopeProfiles_field :: "ScopeProfiles field_reader" where
  "ScopeProfiles_field buf fieldNum wireType pos orig =
     (if fieldNum = 1 then read_message InstrumentationScope_UnmarshalProto (so_Scope orig) (\<lambda>v. orig\<lparr>so_Scope := v\<rparr>) buf wireType pos
      else if fieldNum = 2 then read_message Profile_UnmarshalProto Profile_zero (\<lambda>v. orig\<lparr>so_Profiles := so_Profiles orig @ [v]\<rparr>) buf wireType pos
      else if fieldNum = 3 then read_bytes (\<lambda>s. orig\<lparr>so_SchemaUrl := s\<rparr>) buf wireType pos
      else read_unknown orig buf wireType pos)"

definition ScopeProfiles_UnmarshalProto :: "ScopeProfiles unmarshaler" where
  "ScopeProfiles_UnmarshalProto = unmarshal_body ScopeProfiles_field"

definition ScopeProfiles_bytes :: "ScopeProfiles \<Rightarrow> byte list" where
  "ScopeProfiles_bytes orig =
     (((if length (so_SchemaUrl orig) > 0 then string_bytes [0x1a] (so_SchemaUrl orig) else [])
      @ concat (map (\<lambda>v. string_bytes [0x12] (Profile_bytes v)) (so_Profiles orig)))
      @ string_bytes [0x0a] (InstrumentationScope_bytes (so_Scope orig)))"

definition ScopeProfiles_wf :: "ScopeProfiles \<Rightarrow> bool" where
  "ScopeProfiles_wf orig \<longleftrightarrow> InstrumentationScope_wf (so_Scope orig) \<and> list_all Profile_wf (so_Profiles orig)"

lemma ScopeProfiles_decodes:
  assumes "ScopeProfiles_wf m"
  shows "decodes ScopeProfiles_field (ScopeProfiles_bytes m) ScopeProfiles_zero m"
proof -
  note wf = assms [unfolded ScopeProfiles_wf_def]
  have 1: "decodes ScopeProfiles_field ((if length (so_SchemaUrl m) > 0 then string_bytes [0x1a] (so_SchemaUrl m) else []))
      ScopeProfiles_zero
      (ScopeProfiles_zero\<lparr>so_SchemaUrl := so_SchemaUrl m\<rparr>)"
    by (rule decodes_opt_string [where fn = 3 and upd = "\<lambda>v. ScopeProfiles_zero\<lparr>so_SchemaUrl := v\<rparr>"]) (simp_all add: ScopeProfiles_field_def ScopeProfiles_zero_def)
  have 2: "decodes ScopeProfiles_field (concat (map (\<lambda>v. string_bytes [0x12] (Profile_bytes v)) (so_Profiles m)))
      (ScopeProfiles_zero\<lparr>so_SchemaUrl := so_SchemaUrl m\<rparr>)
      (ScopeProfiles_zero\<lparr>so_SchemaUrl := so_SchemaUrl m, so_Profiles := so_Profiles m\<rparr>)"
    by (rule profile_message.decodes_repeated_message [where fn = 2 and upd = "\<lambda>v. ScopeProfiles_zero\<lparr>so_SchemaUrl := so_SchemaUrl m, so_Profiles := v\<rparr>"]) (simp_all add: ScopeProfiles_field_def ScopeProfiles_zero_def wf)
  have 3: "decodes ScopeProfiles_field (string_bytes [0x0a] (InstrumentationScope_bytes (so_Scope m)))
      (ScopeProfiles_zero\<lparr>so_SchemaUrl := so_SchemaUrl m, so_Profiles := so_Profiles m\<rparr>)
      (ScopeProfiles_zero\<lparr>so_SchemaUrl := so_SchemaUrl m, so_Profiles := so_Profiles m, so_Scope := so_Scope m\<rparr>)"
    by (rule scope.decodes_message [where fn = 1 and upd = "\<lambda>v. ScopeProfiles_zero\<lparr>so_SchemaUrl := so_SchemaUrl m, so_Profiles := so_Profiles m, so_Scope := v\<rparr>"]) (simp_all add: ScopeProfiles_field_def ScopeProfiles_zero_def wf)
  have eq: "(ScopeProfiles_zero\<lparr>so_SchemaUrl := so_SchemaUrl m, so_Profiles := so_Profiles m, so_Scope := so_Scope m\<rparr>) = m"
    by (cases m) (simp add: ScopeProfiles_zero_def)
  from decodes_append [OF decodes_append [OF 1 2] 3]
  show ?thesis unfolding eq ScopeProfiles_bytes_def .
qed

interpretation scope_profiles: proto_message ScopeProfiles_SizeProto ScopeProfiles_MarshalProto ScopeProfiles_UnmarshalProto ScopeProfiles_zero ScopeProfiles_bytes ScopeProfiles_wf
proof unfold_locales
  fix m assume wf: "ScopeProfiles_wf m"
  then show "ScopeProfiles_SizeProto m = length (ScopeProfiles_bytes m)"
    unfolding ScopeProfiles_SizeProto_def ScopeProfiles_bytes_def ScopeProfiles_wf_def
    by (simp add: length_if_Nil field_sizes repeated_string_size scope.repeated_size scope.size profile_message.repeated_size profile_message.size del: length_concat split del: if_split cong: if_cong)
  show "marshals (ScopeProfiles_MarshalProto m) (ScopeProfiles_bytes m)"
    unfolding ScopeProfiles_MarshalProto_def ScopeProfiles_bytes_def
    by (intro marshals_body emit) (use wf in \<open>simp_all add: ScopeProfiles_wf_def\<close>)
  show "ScopeProfiles_UnmarshalProto (ScopeProfiles_bytes m) ScopeProfiles_zero = Some (Inr m)" if "valid_buf (ScopeProfiles_bytes m)"
    unfolding ScopeProfiles_UnmarshalProto_def by (rule unmarshal_body_decodes [OF ScopeProfiles_decodes [OF wf] that])
next
  fix buf and m :: ScopeProfiles
  assume "valid_buf buf"
  then show "unmarshal_ok (ScopeProfiles_UnmarshalProto buf m)"
    unfolding ScopeProfiles_UnmarshalProto_def ScopeProfiles_field_def by (intro unmarshal_body_ok reader_ok) simp_all
qed

section \<open>ResourceProfiles\<close>

record ResourceProfiles =
  ro_Resource :: Resource
  ro_ScopeProfiles :: "ScopeProfiles list"
  ro_SchemaUrl :: "byte list"

definition ResourceProfiles_zero :: ResourceProfiles where
  "ResourceProfiles_zero = \<lparr>ro_Resource = Resource_zero, ro_ScopeProfiles = [], ro_SchemaUrl = []\<rparr>"

definition ResourceProfiles_SizeProto :: "ResourceProfiles \<Rightarrow> nat" where
  "ResourceProfiles_SizeProto orig =
     len_size 1 (Resource_SizeProto (ro_Resource orig))
     + sum_list (map (\<lambda>v. len_size 1 (ScopeProfiles_SizeProto v)) (ro_ScopeProfiles orig))
     + (if length (ro_SchemaUrl orig) > 0 then len_size 1 (length (ro_SchemaUrl orig)) else 0)"

definition ResourceProfiles_MarshalProto :: "ResourceProfiles \<Rightarrow> marshaler" where
  "ResourceProfiles_MarshalProto orig = marshal_body
     (message_block [0x0a] (Resource_MarshalProto (ro_Resource orig))
      @ concat (map (\<lambda>v. message_block [0x12] (ScopeProfiles_MarshalProto v)) (rev (ro_ScopeProfiles orig)))
      @ (if length (ro_SchemaUrl orig) > 0 then string_block [0x1a] (ro_SchemaUrl orig) else []))"

definition ResourceProfiles_field :: "ResourceProfiles field_reader" where
  "ResourceProfiles_field buf fieldNum wireType pos orig =
     (if fieldNum = 1 then read_message Resource_UnmarshalProto (ro_Resource orig) (\<lambda>v. orig\<lparr>ro_Resource := v\<rparr>) buf wireType pos
      else if fieldNum = 2 then read_message ScopeProfiles_UnmarshalProto ScopeProfiles_zero (\<lambda>v. orig\<lparr>ro_ScopeProfiles := ro_ScopeProfiles orig @ [v]\<rparr>) buf wireType pos
      else if fieldNum = 3 then read_bytes (\<lambda>s. orig\<lparr>ro_SchemaUrl := s\<rparr>) buf wireType pos
      else read_unknown orig buf wireType pos)"

definition ResourceProfiles_UnmarshalProto :: "ResourceProfiles unmarshaler" where
  "ResourceProfiles_UnmarshalProto = unmarshal_body ResourceProfiles_field"

definition ResourceProfiles_bytes :: "ResourceProfiles \<Rightarrow> byte list" where
  "ResourceProfiles_bytes orig =
     (((if length (ro_SchemaUrl orig) > 0 then string_bytes [0x1a] (ro_SchemaUrl orig) else [])
      @ concat (map (\<lambda>v. string_bytes [0x12] (ScopeProfiles_bytes v)) (ro_ScopeProfiles orig)))
      @ string_bytes [0x0a] (Resource_bytes (ro_Resource orig)))"

definition ResourceProfiles_wf :: "ResourceProfiles \<Rightarrow> bool" where
  "ResourceProfiles_wf orig \<longleftrightarrow> Resource_wf (ro_Resource orig) \<and> list_all ScopeProfiles_wf (ro_ScopeProfiles orig)"

lemma ResourceProfiles_decodes:
  assumes "ResourceProfiles_wf m"
  shows "decodes ResourceProfiles_field (ResourceProfiles_bytes m) ResourceProfiles_zero m"
proof -
  note wf = assms [unfolded ResourceProfiles_wf_def]
  have 1: "decodes ResourceProfiles_field ((if length (ro_SchemaUrl m) > 0 then string_bytes [0x1a] (ro_SchemaUrl m) else []))
      ResourceProfiles_zero
      (ResourceProfiles_zero\<lparr>ro_SchemaUrl := ro_SchemaUrl m\<rparr>)"
    by (rule decodes_opt_string [where fn = 3 and upd = "\<lambda>v. ResourceProfiles_zero\<lparr>ro_SchemaUrl := v\<rparr>"]) (simp_all add: ResourceProfiles_field_def ResourceProfiles_zero_def)
  have 2: "decodes ResourceProfiles_field (concat (map (\<lambda>v. string_bytes [0x12] (ScopeProfiles_bytes v)) (ro_ScopeProfiles m)))
      (ResourceProfiles_zero\<lparr>ro_SchemaUrl := ro_SchemaUrl m\<rparr>)
      (ResourceProfiles_zero\<lparr>ro_SchemaUrl := ro_SchemaUrl m, ro_ScopeProfiles := ro_ScopeProfiles m\<rparr>)"
    by (rule scope_profiles.decodes_repeated_message [where fn = 2 and upd = "\<lambda>v. ResourceProfiles_zero\<lparr>ro_SchemaUrl := ro_SchemaUrl m, ro_ScopeProfiles := v\<rparr>"]) (simp_all add: ResourceProfiles_field_def ResourceProfiles_zero_def wf)
  have 3: "decodes ResourceProfiles_field (string_bytes [0x0a] (Resource_bytes (ro_Resource m)))
      (ResourceProfiles_zero\<lparr>ro_SchemaUrl := ro_SchemaUrl m, ro_ScopeProfiles := ro_ScopeProfiles m\<rparr>)
      (ResourceProfiles_zero\<lparr>ro_SchemaUrl := ro_SchemaUrl m, ro_ScopeProfiles := ro_ScopeProfiles m, ro_Resource := ro_Resource m\<rparr>)"
    by (rule resource.decodes_message [where fn = 1 and upd = "\<lambda>v. ResourceProfiles_zero\<lparr>ro_SchemaUrl := ro_SchemaUrl m, ro_ScopeProfiles := ro_ScopeProfiles m, ro_Resource := v\<rparr>"]) (simp_all add: ResourceProfiles_field_def ResourceProfiles_zero_def wf)
  have eq: "(ResourceProfiles_zero\<lparr>ro_SchemaUrl := ro_SchemaUrl m, ro_ScopeProfiles := ro_ScopeProfiles m, ro_Resource := ro_Resource m\<rparr>) = m"
    by (cases m) (simp add: ResourceProfiles_zero_def)
  from decodes_append [OF decodes_append [OF 1 2] 3]
  show ?thesis unfolding eq ResourceProfiles_bytes_def .
qed

interpretation resource_profiles: proto_message ResourceProfiles_SizeProto ResourceProfiles_MarshalProto ResourceProfiles_UnmarshalProto ResourceProfiles_zero ResourceProfiles_bytes ResourceProfiles_wf
proof unfold_locales
  fix m assume wf: "ResourceProfiles_wf m"
  then show "ResourceProfiles_SizeProto m = length (ResourceProfiles_bytes m)"
    unfolding ResourceProfiles_SizeProto_def ResourceProfiles_bytes_def ResourceProfiles_wf_def
    by (simp add: length_if_Nil field_sizes repeated_string_size resource.repeated_size resource.size scope_profiles.repeated_size scope_profiles.size del: length_concat split del: if_split cong: if_cong)
  show "marshals (ResourceProfiles_MarshalProto m) (ResourceProfiles_bytes m)"
    unfolding ResourceProfiles_MarshalProto_def ResourceProfiles_bytes_def
    by (intro marshals_body emit) (use wf in \<open>simp_all add: ResourceProfiles_wf_def\<close>)
  show "ResourceProfiles_UnmarshalProto (ResourceProfiles_bytes m) ResourceProfiles_zero = Some (Inr m)" if "valid_buf (ResourceProfiles_bytes m)"
    unfolding ResourceProfiles_UnmarshalProto_def by (rule unmarshal_body_decodes [OF ResourceProfiles_decodes [OF wf] that])
next
  fix buf and m :: ResourceProfiles
  assume "valid_buf buf"
  then show "unmarshal_ok (ResourceProfiles_UnmarshalProto buf m)"
    unfolding ResourceProfiles_UnmarshalProto_def ResourceProfiles_field_def by (intro unmarshal_body_ok reader_ok) simp_all
qed

section \<open>ProfilesDictionary\<close>

record ProfilesDictionary =
  pd_MappingTable :: "Mapping list"
  pd_LocationTable :: "Location list"
  pd_FunctionTable :: "Function list"
  pd_LinkTable :: "Link list"
  pd_StringTable :: "byte list list"
  pd_AttributeTable :: "KeyValueAndUnit list"
  pd_StackTable :: "Stack list"

definition ProfilesDictionary_zero :: ProfilesDictionary where
  "ProfilesDictionary_zero = \<lparr>pd_MappingTable = [], pd_LocationTable = [], pd_FunctionTable = [], pd_LinkTable = [], pd_StringTable = [], pd_AttributeTable = [], pd_StackTable = []\<rparr>"

definition ProfilesDictionary_SizeProto :: "ProfilesDictionary \<Rightarrow> nat" where
  "ProfilesDictionary_SizeProto orig =
     sum_list (map (\<lambda>v. len_size 1 (Mapping_SizeProto v)) (pd_MappingTable orig))
     + sum_list (map (\<lambda>v. len_size 1 (Location_SizeProto v)) (pd_LocationTable orig))
     + sum_list (map (\<lambda>v. len_size 1 (Function_SizeProto v)) (pd_FunctionTable orig))
     + sum_list (map (\<lambda>v. len_size 1 (Link_SizeProto v)) (pd_LinkTable orig))
     + sum_list (map (\<lambda>s. len_size 1 (length s)) (pd_StringTable orig))
     + sum_list (map (\<lambda>v. len_size 1 (KeyValueAndUnit_SizeProto v)) (pd_AttributeTable orig))
     + sum_list (map (\<lambda>v. len_size 1 (Stack_SizeProto v)) (pd_StackTable orig))"

definition ProfilesDictionary_MarshalProto :: "ProfilesDictionary \<Rightarrow> marshaler" where
  "ProfilesDictionary_MarshalProto orig = marshal_body
     (concat (map (\<lambda>v. message_block [0x0a] (Mapping_MarshalProto v)) (rev (pd_MappingTable orig)))
      @ concat (map (\<lambda>v. message_block [0x12] (Location_MarshalProto v)) (rev (pd_LocationTable orig)))
      @ concat (map (\<lambda>v. message_block [0x1a] (Function_MarshalProto v)) (rev (pd_FunctionTable orig)))
      @ concat (map (\<lambda>v. message_block [0x22] (Link_MarshalProto v)) (rev (pd_LinkTable orig)))
      @ concat (map (string_block [0x2a]) (rev (pd_StringTable orig)))
      @ concat (map (\<lambda>v. message_block [0x32] (KeyValueAndUnit_MarshalProto v)) (rev (pd_AttributeTable orig)))
      @ concat (map (\<lambda>v. message_block [0x3a] (Stack_MarshalProto v)) (rev (pd_StackTable orig))))"

definition ProfilesDictionary_field :: "ProfilesDictionary field_reader" where
  "ProfilesDictionary_field buf fieldNum wireType pos orig =
     (if fieldNum = 1 then read_message Mapping_UnmarshalProto Mapping_zero (\<lambda>v. orig\<lparr>pd_MappingTable := pd_MappingTable orig @ [v]\<rparr>) buf wireType pos
      else if fieldNum = 2 then read_message Location_UnmarshalProto Location_zero (\<lambda>v. orig\<lparr>pd_LocationTable := pd_LocationTable orig @ [v]\<rparr>) buf wireType pos
      else if fieldNum = 3 then read_message Function_UnmarshalProto Function_zero (\<lambda>v. orig\<lparr>pd_FunctionTable := pd_FunctionTable orig @ [v]\<rparr>) buf wireType pos
      else if fieldNum = 4 then read_message Link_UnmarshalProto Link_zero (\<lambda>v. orig\<lparr>pd_LinkTable := pd_LinkTable orig @ [v]\<rparr>) buf wireType pos
      else if fieldNum = 5 then read_bytes (\<lambda>s. orig\<lparr>pd_StringTable := pd_StringTable orig @ [s]\<rparr>) buf wireType pos
      else if fieldNum = 6 then read_message KeyValueAndUnit_UnmarshalProto KeyValueAndUnit_zero (\<lambda>v. orig\<lparr>pd_AttributeTable := pd_AttributeTable orig @ [v]\<rparr>) buf wireType pos
      else if fieldNum = 7 then read_message Stack_UnmarshalProto Stack_zero (\<lambda>v. orig\<lparr>pd_StackTable := pd_StackTable orig @ [v]\<rparr>) buf wireType pos
      else read_unknown orig buf wireType pos)"

definition ProfilesDictionary_UnmarshalProto :: "ProfilesDictionary unmarshaler" where
  "ProfilesDictionary_UnmarshalProto = unmarshal_body ProfilesDictionary_field"

definition ProfilesDictionary_bytes :: "ProfilesDictionary \<Rightarrow> byte list" where
  "ProfilesDictionary_bytes orig =
     ((((((concat (map (\<lambda>v. string_bytes [0x3a] (Stack_bytes v)) (pd_StackTable orig))
      @ concat (map (\<lambda>v. string_bytes [0x32] (KeyValueAndUnit_bytes v)) (pd_AttributeTable orig)))
      @ concat (map (string_bytes [0x2a]) (pd_StringTable orig)))
      @ concat (map (\<lambda>v. string_bytes [0x22] (Link_bytes v)) (pd_LinkTable orig)))
      @ concat (map (\<lambda>v. string_bytes [0x1a] (Function_bytes v)) (pd_FunctionTable orig)))
      @ concat (map (\<lambda>v. string_bytes [0x12] (Location_bytes v)) (pd_LocationTable orig)))
      @ concat (map (\<lambda>v. string_bytes [0x0a] (Mapping_bytes v)) (pd_MappingTable orig)))"

definition ProfilesDictionary_wf :: "ProfilesDictionary \<Rightarrow> bool" where
  "ProfilesDictionary_wf orig \<longleftrightarrow> list_all Mapping_wf (pd_MappingTable orig) \<and> list_all Location_wf (pd_LocationTable orig) \<and> list_all Function_wf (pd_FunctionTable orig) \<and> list_all Link_wf (pd_LinkTable orig) \<and> list_all KeyValueAndUnit_wf (pd_AttributeTable orig) \<and> list_all Stack_wf (pd_StackTable orig)"

lemma ProfilesDictionary_decodes:
  assumes "ProfilesDictionary_wf m"
  shows "decodes ProfilesDictionary_field (ProfilesDictionary_bytes m) ProfilesDictionary_zero m"
proof -
  note wf = assms [unfolded ProfilesDictionary_wf_def]
  have 1: "decodes ProfilesDictionary_field (concat (map (\<lambda>v. string_bytes [0x3a] (Stack_bytes v)) (pd_StackTable m)))
      ProfilesDictionary_zero
      (ProfilesDictionary_zero\<lparr>pd_StackTable := pd_StackTable m\<rparr>)"
    by (rule stack_message.decodes_repeated_message [where fn = 7 and upd = "\<lambda>v. ProfilesDictionary_zero\<lparr>pd_StackTable := v\<rparr>"]) (simp_all add: ProfilesDictionary_field_def ProfilesDictionary_zero_def wf)
  have 2: "decodes ProfilesDictionary_field (concat (map (\<lambda>v. string_bytes [0x32] (KeyValueAndUnit_bytes v)) (pd_AttributeTable m)))
      (ProfilesDictionary_zero\<lparr>pd_StackTable := pd_StackTable m\<rparr>)
      (ProfilesDictionary_zero\<lparr>pd_StackTable := pd_StackTable m, pd_AttributeTable := pd_AttributeTable m\<rparr>)"
    by (rule key_value_unit.decodes_repeated_message [where fn = 6 and upd = "\<lambda>v. ProfilesDictionary_zero\<lparr>pd_StackTable := pd_StackTable m, pd_AttributeTable := v\<rparr>"]) (simp_all add: ProfilesDictionary_field_def ProfilesDictionary_zero_def wf)
  have 3: "decodes ProfilesDictionary_field (concat (map (string_bytes [0x2a]) (pd_StringTable m)))
      (ProfilesDictionary_zero\<lparr>pd_StackTable := pd_StackTable m, pd_AttributeTable := pd_AttributeTable m\<rparr>)
      (ProfilesDictionary_zero\<lparr>pd_StackTable := pd_StackTable m, pd_AttributeTable := pd_AttributeTable m, pd_StringTable := pd_StringTable m\<rparr>)"
    by (rule decodes_repeated_string [where fn = 5 and upd = "\<lambda>v. ProfilesDictionary_zero\<lparr>pd_StackTable := pd_StackTable m, pd_AttributeTable := pd_AttributeTable m, pd_StringTable := v\<rparr>"]) (simp_all add: ProfilesDictionary_field_def ProfilesDictionary_zero_def)
  have 4: "decodes ProfilesDictionary_field (concat (map (\<lambda>v. string_bytes [0x22] (Link_bytes v)) (pd_LinkTable m)))
      (ProfilesDictionary_zero\<lparr>pd_StackTable := pd_StackTable m, pd_AttributeTable := pd_AttributeTable m, pd_StringTable := pd_StringTable m\<rparr>)
      (ProfilesDictionary_zero\<lparr>pd_StackTable := pd_StackTable m, pd_AttributeTable := pd_AttributeTable m, pd_StringTable := pd_StringTable m, pd_LinkTable := pd_LinkTable m\<rparr>)"
    by (rule link_message.decodes_repeated_message [where fn = 4 and upd = "\<lambda>v. ProfilesDictionary_zero\<lparr>pd_StackTable := pd_StackTable m, pd_AttributeTable := pd_AttributeTable m, pd_StringTable := pd_StringTable m, pd_LinkTable := v\<rparr>"]) (simp_all add: ProfilesDictionary_field_def ProfilesDictionary_zero_def wf)
  have 5: "decodes ProfilesDictionary_field (concat (map (\<lambda>v. string_bytes [0x1a] (Function_bytes v)) (pd_FunctionTable m)))
      (ProfilesDictionary_zero\<lparr>pd_StackTable := pd_StackTable m, pd_AttributeTable := pd_AttributeTable m, pd_StringTable := pd_StringTable m, pd_LinkTable := pd_LinkTable m\<rparr>)
      (ProfilesDictionary_zero\<lparr>pd_StackTable := pd_StackTable m, pd_AttributeTable := pd_AttributeTable m, pd_StringTable := pd_StringTable m, pd_LinkTable := pd_LinkTable m, pd_FunctionTable := pd_FunctionTable m\<rparr>)"
    by (rule function_message.decodes_repeated_message [where fn = 3 and upd = "\<lambda>v. ProfilesDictionary_zero\<lparr>pd_StackTable := pd_StackTable m, pd_AttributeTable := pd_AttributeTable m, pd_StringTable := pd_StringTable m, pd_LinkTable := pd_LinkTable m, pd_FunctionTable := v\<rparr>"]) (simp_all add: ProfilesDictionary_field_def ProfilesDictionary_zero_def wf)
  have 6: "decodes ProfilesDictionary_field (concat (map (\<lambda>v. string_bytes [0x12] (Location_bytes v)) (pd_LocationTable m)))
      (ProfilesDictionary_zero\<lparr>pd_StackTable := pd_StackTable m, pd_AttributeTable := pd_AttributeTable m, pd_StringTable := pd_StringTable m, pd_LinkTable := pd_LinkTable m, pd_FunctionTable := pd_FunctionTable m\<rparr>)
      (ProfilesDictionary_zero\<lparr>pd_StackTable := pd_StackTable m, pd_AttributeTable := pd_AttributeTable m, pd_StringTable := pd_StringTable m, pd_LinkTable := pd_LinkTable m, pd_FunctionTable := pd_FunctionTable m, pd_LocationTable := pd_LocationTable m\<rparr>)"
    by (rule location.decodes_repeated_message [where fn = 2 and upd = "\<lambda>v. ProfilesDictionary_zero\<lparr>pd_StackTable := pd_StackTable m, pd_AttributeTable := pd_AttributeTable m, pd_StringTable := pd_StringTable m, pd_LinkTable := pd_LinkTable m, pd_FunctionTable := pd_FunctionTable m, pd_LocationTable := v\<rparr>"]) (simp_all add: ProfilesDictionary_field_def ProfilesDictionary_zero_def wf)
  have 7: "decodes ProfilesDictionary_field (concat (map (\<lambda>v. string_bytes [0x0a] (Mapping_bytes v)) (pd_MappingTable m)))
      (ProfilesDictionary_zero\<lparr>pd_StackTable := pd_StackTable m, pd_AttributeTable := pd_AttributeTable m, pd_StringTable := pd_StringTable m, pd_LinkTable := pd_LinkTable m, pd_FunctionTable := pd_FunctionTable m, pd_LocationTable := pd_LocationTable m\<rparr>)
      (ProfilesDictionary_zero\<lparr>pd_StackTable := pd_StackTable m, pd_AttributeTable := pd_AttributeTable m, pd_StringTable := pd_StringTable m, pd_LinkTable := pd_LinkTable m, pd_FunctionTable := pd_FunctionTable m, pd_LocationTable := pd_LocationTable m, pd_MappingTable := pd_MappingTable m\<rparr>)"
    by (rule mapping_message.decodes_repeated_message [where fn = 1 and upd = "\<lambda>v. ProfilesDictionary_zero\<lparr>pd_StackTable := pd_StackTable m, pd_AttributeTable := pd_AttributeTable m, pd_StringTable := pd_StringTable m, pd_LinkTable := pd_LinkTable m, pd_FunctionTable := pd_FunctionTable m, pd_LocationTable := pd_LocationTable m, pd_MappingTable := v\<rparr>"]) (simp_all add: ProfilesDictionary_field_def ProfilesDictionary_zero_def wf)
  have eq: "(ProfilesDictionary_zero\<lparr>pd_StackTable := pd_StackTable m, pd_AttributeTable := pd_AttributeTable m, pd_StringTable := pd_StringTable m, pd_LinkTable := pd_LinkTable m, pd_FunctionTable := pd_FunctionTable m, pd_LocationTable := pd_LocationTable m, pd_MappingTable := pd_MappingTable m\<rparr>) = m"
    by (cases m) (simp add: ProfilesDictionary_zero_def)
  from decodes_append [OF decodes_append [OF decodes_append [OF decodes_append [OF decodes_append [OF decodes_append [OF 1 2] 3] 4] 5] 6] 7]
  show ?thesis unfolding eq ProfilesDictionary_bytes_def .
qed

interpretation profiles_dictionary: proto_message ProfilesDictionary_SizeProto ProfilesDictionary_MarshalProto ProfilesDictionary_UnmarshalProto ProfilesDictionary_zero ProfilesDictionary_bytes ProfilesDictionary_wf
proof unfold_locales
  fix m assume wf: "ProfilesDictionary_wf m"
  then show "ProfilesDictionary_SizeProto m = length (ProfilesDictionary_bytes m)"
    unfolding ProfilesDictionary_SizeProto_def ProfilesDictionary_bytes_def ProfilesDictionary_wf_def
    by (simp add: length_if_Nil field_sizes repeated_string_size mapping_message.repeated_size mapping_message.size location.repeated_size location.size function_message.repeated_size function_message.size link_message.repeated_size link_message.size key_value_unit.repeated_size key_value_unit.size stack_message.repeated_size stack_message.size del: length_concat split del: if_split cong: if_cong)
  show "marshals (ProfilesDictionary_MarshalProto m) (ProfilesDictionary_bytes m)"
    unfolding ProfilesDictionary_MarshalProto_def ProfilesDictionary_bytes_def
    by (intro marshals_body emit) (use wf in \<open>simp_all add: ProfilesDictionary_wf_def\<close>)
  show "ProfilesDictionary_UnmarshalProto (ProfilesDictionary_bytes m) ProfilesDictionary_zero = Some (Inr m)" if "valid_buf (ProfilesDictionary_bytes m)"
    unfolding ProfilesDictionary_UnmarshalProto_def by (rule unmarshal_body_decodes [OF ProfilesDictionary_decodes [OF wf] that])
next
  fix buf and m :: ProfilesDictionary
  assume "valid_buf buf"
  then show "unmarshal_ok (ProfilesDictionary_UnmarshalProto buf m)"
    unfolding ProfilesDictionary_UnmarshalProto_def ProfilesDictionary_field_def by (intro unmarshal_body_ok reader_ok) simp_all
qed

section \<open>ProfilesData\<close>

record ProfilesData =
  pa_ResourceProfiles :: "ResourceProfiles list"
  pa_Dictionary :: ProfilesDictionary

definition ProfilesData_zero :: ProfilesData where
  "ProfilesData_zero = \<lparr>pa_ResourceProfiles = [], pa_Dictionary = ProfilesDictionary_zero\<rparr>"

definition ProfilesData_SizeProto :: "ProfilesData \<Rightarrow> nat" where
  "ProfilesData_SizeProto orig =
     sum_list (map (\<lambda>v. len_size 1 (ResourceProfiles_SizeProto v)) (pa_ResourceProfiles orig))
     + len_size 1 (ProfilesDictionary_SizeProto (pa_Dictionary orig))"

definition ProfilesData_MarshalProto :: "ProfilesData \<Rightarrow> marshaler" where
  "ProfilesData_MarshalProto orig = marshal_body
     (concat (map (\<lambda>v. message_block [0x0a] (ResourceProfiles_MarshalProto v)) (rev (pa_ResourceProfiles orig)))
      @ message_block [0x12] (ProfilesDictionary_MarshalProto (pa_Dictionary orig)))"

definition ProfilesData_field :: "ProfilesData field_reader" where
  "ProfilesData_field buf fieldNum wireType pos orig =
     (if fieldNum = 1 then read_message ResourceProfiles_UnmarshalProto ResourceProfiles_zero (\<lambda>v. orig\<lparr>pa_ResourceProfiles := pa_ResourceProfiles orig @ [v]\<rparr>) buf wireType pos
      else if fieldNum = 2 then read_message ProfilesDictionary_UnmarshalProto (pa_Dictionary orig) (\<lambda>v. orig\<lparr>pa_Dictionary := v\<rparr>) buf wireType pos
      else read_unknown orig buf wireType pos)"

definition ProfilesData_UnmarshalProto :: "ProfilesData unmarshaler" where
  "ProfilesData_UnmarshalProto = unmarshal_body ProfilesData_field"

definition ProfilesData_bytes :: "ProfilesData \<Rightarrow> byte list" where
  "ProfilesData_bytes orig =
     (string_bytes [0x12] (ProfilesDictionary_bytes (pa_Dictionary orig))
      @ concat (map (\<lambda>v. string_bytes [0x0a] (ResourceProfiles_bytes v)) (pa_ResourceProfiles orig)))"

definition ProfilesData_wf :: "ProfilesData \<Rightarrow> bool" where
  "ProfilesData_wf orig \<longleftrightarrow> list_all ResourceProfiles_wf (pa_ResourceProfiles orig) \<and> ProfilesDictionary_wf (pa_Dictionary orig)"

lemma ProfilesData_decodes:
  assumes "ProfilesData_wf m"
  shows "decodes ProfilesData_field (ProfilesData_bytes m) ProfilesData_zero m"
proof -
  note wf = assms [unfolded ProfilesData_wf_def]
  have 1: "decodes ProfilesData_field (string_bytes [0x12] (ProfilesDictionary_bytes (pa_Dictionary m)))
      ProfilesData_zero
      (ProfilesData_zero\<lparr>pa_Dictionary := pa_Dictionary m\<rparr>)"
    by (rule profiles_dictionary.decodes_message [where fn = 2 and upd = "\<lambda>v. ProfilesData_zero\<lparr>pa_Dictionary := v\<rparr>"]) (simp_all add: ProfilesData_field_def ProfilesData_zero_def wf)
  have 2: "decodes ProfilesData_field (concat (map (\<lambda>v. string_bytes [0x0a] (ResourceProfiles_bytes v)) (pa_ResourceProfiles m)))
      (ProfilesData_zero\<lparr>pa_Dictionary := pa_Dictionary m\<rparr>)
      (ProfilesData_zero\<lparr>pa_Dictionary := pa_Dictionary m, pa_ResourceProfiles := pa_ResourceProfiles m\<rparr>)"
    by (rule resource_profiles.decodes_repeated_message [where fn = 1 and upd = "\<lambda>v. ProfilesData_zero\<lparr>pa_Dictionary := pa_Dictionary m, pa_ResourceProfiles := v\<rparr>"]) (simp_all add: ProfilesData_field_def ProfilesData_zero_def wf)
  have eq: "(ProfilesData_zero\<lparr>pa_Dictionary := pa_Dictionary m, pa_ResourceProfiles := pa_ResourceProfiles m\<rparr>) = m"
    by (cases m) (simp add: ProfilesData_zero_def)
  from decodes_append [OF 1 2]
  show ?thesis unfolding eq ProfilesData_bytes_def .
qed

interpretation profiles_data_message: proto_message ProfilesData_SizeProto ProfilesData_MarshalProto ProfilesData_UnmarshalProto ProfilesData_zero ProfilesData_bytes ProfilesData_wf
proof unfold_locales
  fix m assume wf: "ProfilesData_wf m"
  then show "ProfilesData_SizeProto m = length (ProfilesData_bytes m)"
    unfolding ProfilesData_SizeProto_def ProfilesData_bytes_def ProfilesData_wf_def
    by (simp add: length_if_Nil field_sizes repeated_string_size resource_profiles.repeated_size resource_profiles.size profiles_dictionary.repeated_size profiles_dictionary.size del: length_concat split del: if_split cong: if_cong)
  show "marshals (ProfilesData_MarshalProto m) (ProfilesData_bytes m)"
    unfolding ProfilesData_MarshalProto_def ProfilesData_bytes_def
    by (intro marshals_body emit) (use wf in \<open>simp_all add: ProfilesData_wf_def\<close>)
  show "ProfilesData_UnmarshalProto (ProfilesData_bytes m) ProfilesData_zero = Some (Inr m)" if "valid_buf (ProfilesData_bytes m)"
    unfolding ProfilesData_UnmarshalProto_def by (rule unmarshal_body_decodes [OF ProfilesData_decodes [OF wf] that])
next
  fix buf and m :: ProfilesData
  assume "valid_buf buf"
  then show "unmarshal_ok (ProfilesData_UnmarshalProto buf m)"
    unfolding ProfilesData_UnmarshalProto_def ProfilesData_field_def by (intro unmarshal_body_ok reader_ok) simp_all
qed

section \<open>ExportProfilesServiceRequest\<close>

record ExportProfilesServiceRequest =
  pq_ResourceProfiles :: "ResourceProfiles list"
  pq_Dictionary :: ProfilesDictionary

definition ExportProfilesServiceRequest_zero :: ExportProfilesServiceRequest where
  "ExportProfilesServiceRequest_zero = \<lparr>pq_ResourceProfiles = [], pq_Dictionary = ProfilesDictionary_zero\<rparr>"

definition ExportProfilesServiceRequest_SizeProto :: "ExportProfilesServiceRequest \<Rightarrow> nat" where
  "ExportProfilesServiceRequest_SizeProto orig =
     sum_list (map (\<lambda>v. len_size 1 (ResourceProfiles_SizeProto v)) (pq_ResourceProfiles orig))
     + len_size 1 (ProfilesDictionary_SizeProto (pq_Dictionary orig))"

definition ExportProfilesServiceRequest_MarshalProto :: "ExportProfilesServiceRequest \<Rightarrow> marshaler" where
  "ExportProfilesServiceRequest_MarshalProto orig = marshal_body
     (concat (map (\<lambda>v. message_block [0x0a] (ResourceProfiles_MarshalProto v)) (rev (pq_ResourceProfiles orig)))
      @ message_block [0x12] (ProfilesDictionary_MarshalProto (pq_Dictionary orig)))"

definition ExportProfilesServiceRequest_field :: "ExportProfilesServiceRequest field_reader" where
  "ExportProfilesServiceRequest_field buf fieldNum wireType pos orig =
     (if fieldNum = 1 then read_message ResourceProfiles_UnmarshalProto ResourceProfiles_zero (\<lambda>v. orig\<lparr>pq_ResourceProfiles := pq_ResourceProfiles orig @ [v]\<rparr>) buf wireType pos
      else if fieldNum = 2 then read_message ProfilesDictionary_UnmarshalProto (pq_Dictionary orig) (\<lambda>v. orig\<lparr>pq_Dictionary := v\<rparr>) buf wireType pos
      else read_unknown orig buf wireType pos)"

definition ExportProfilesServiceRequest_UnmarshalProto :: "ExportProfilesServiceRequest unmarshaler" where
  "ExportProfilesServiceRequest_UnmarshalProto = unmarshal_body ExportProfilesServiceRequest_field"

definition ExportProfilesServiceRequest_bytes :: "ExportProfilesServiceRequest \<Rightarrow> byte list" where
  "ExportProfilesServiceRequest_bytes orig =
     (string_bytes [0x12] (ProfilesDictionary_bytes (pq_Dictionary orig))
      @ concat (map (\<lambda>v. string_bytes [0x0a] (ResourceProfiles_bytes v)) (pq_ResourceProfiles orig)))"

definition ExportProfilesServiceRequest_wf :: "ExportProfilesServiceRequest \<Rightarrow> bool" where
  "ExportProfilesServiceRequest_wf orig \<longleftrightarrow> list_all ResourceProfiles_wf (pq_ResourceProfiles orig) \<and> ProfilesDictionary_wf (pq_Dictionary orig)"

lemma ExportProfilesServiceRequest_decodes:
  assumes "ExportProfilesServiceRequest_wf m"
  shows "decodes ExportProfilesServiceRequest_field (ExportProfilesServiceRequest_bytes m) ExportProfilesServiceRequest_zero m"
proof -
  note wf = assms [unfolded ExportProfilesServiceRequest_wf_def]
  have 1: "decodes ExportProfilesServiceRequest_field (string_bytes [0x12] (ProfilesDictionary_bytes (pq_Dictionary m)))
      ExportProfilesServiceRequest_zero
      (ExportProfilesServiceRequest_zero\<lparr>pq_Dictionary := pq_Dictionary m\<rparr>)"
    by (rule profiles_dictionary.decodes_message [where fn = 2 and upd = "\<lambda>v. ExportProfilesServiceRequest_zero\<lparr>pq_Dictionary := v\<rparr>"]) (simp_all add: ExportProfilesServiceRequest_field_def ExportProfilesServiceRequest_zero_def wf)
  have 2: "decodes ExportProfilesServiceRequest_field (concat (map (\<lambda>v. string_bytes [0x0a] (ResourceProfiles_bytes v)) (pq_ResourceProfiles m)))
      (ExportProfilesServiceRequest_zero\<lparr>pq_Dictionary := pq_Dictionary m\<rparr>)
      (ExportProfilesServiceRequest_zero\<lparr>pq_Dictionary := pq_Dictionary m, pq_ResourceProfiles := pq_ResourceProfiles m\<rparr>)"
    by (rule resource_profiles.decodes_repeated_message [where fn = 1 and upd = "\<lambda>v. ExportProfilesServiceRequest_zero\<lparr>pq_Dictionary := pq_Dictionary m, pq_ResourceProfiles := v\<rparr>"]) (simp_all add: ExportProfilesServiceRequest_field_def ExportProfilesServiceRequest_zero_def wf)
  have eq: "(ExportProfilesServiceRequest_zero\<lparr>pq_Dictionary := pq_Dictionary m, pq_ResourceProfiles := pq_ResourceProfiles m\<rparr>) = m"
    by (cases m) (simp add: ExportProfilesServiceRequest_zero_def)
  from decodes_append [OF 1 2]
  show ?thesis unfolding eq ExportProfilesServiceRequest_bytes_def .
qed

interpretation profiles_request_proto: proto_message ExportProfilesServiceRequest_SizeProto ExportProfilesServiceRequest_MarshalProto ExportProfilesServiceRequest_UnmarshalProto ExportProfilesServiceRequest_zero ExportProfilesServiceRequest_bytes ExportProfilesServiceRequest_wf
proof unfold_locales
  fix m assume wf: "ExportProfilesServiceRequest_wf m"
  then show "ExportProfilesServiceRequest_SizeProto m = length (ExportProfilesServiceRequest_bytes m)"
    unfolding ExportProfilesServiceRequest_SizeProto_def ExportProfilesServiceRequest_bytes_def ExportProfilesServiceRequest_wf_def
    by (simp add: length_if_Nil field_sizes repeated_string_size resource_profiles.repeated_size resource_profiles.size profiles_dictionary.repeated_size profiles_dictionary.size del: length_concat split del: if_split cong: if_cong)
  show "marshals (ExportProfilesServiceRequest_MarshalProto m) (ExportProfilesServiceRequest_bytes m)"
    unfolding ExportProfilesServiceRequest_MarshalProto_def ExportProfilesServiceRequest_bytes_def
    by (intro marshals_body emit) (use wf in \<open>simp_all add: ExportProfilesServiceRequest_wf_def\<close>)
  show "ExportProfilesServiceRequest_UnmarshalProto (ExportProfilesServiceRequest_bytes m) ExportProfilesServiceRequest_zero = Some (Inr m)" if "valid_buf (ExportProfilesServiceRequest_bytes m)"
    unfolding ExportProfilesServiceRequest_UnmarshalProto_def by (rule unmarshal_body_decodes [OF ExportProfilesServiceRequest_decodes [OF wf] that])
next
  fix buf and m :: ExportProfilesServiceRequest
  assume "valid_buf buf"
  then show "unmarshal_ok (ExportProfilesServiceRequest_UnmarshalProto buf m)"
    unfolding ExportProfilesServiceRequest_UnmarshalProto_def ExportProfilesServiceRequest_field_def by (intro unmarshal_body_ok reader_ok) simp_all
qed

section \<open>ExportProfilesPartialSuccess\<close>

record ExportProfilesPartialSuccess =
  pp_RejectedProfiles :: u64
  pp_ErrorMessage :: "byte list"

definition ExportProfilesPartialSuccess_zero :: ExportProfilesPartialSuccess where
  "ExportProfilesPartialSuccess_zero = \<lparr>pp_RejectedProfiles = 0, pp_ErrorMessage = []\<rparr>"

definition ExportProfilesPartialSuccess_SizeProto :: "ExportProfilesPartialSuccess \<Rightarrow> nat" where
  "ExportProfilesPartialSuccess_SizeProto orig =
     (if pp_RejectedProfiles orig \<noteq> 0 then 1 + Sov (pp_RejectedProfiles orig) else 0)
     + (if length (pp_ErrorMessage orig) > 0 then len_size 1 (length (pp_ErrorMessage orig)) else 0)"

definition ExportProfilesPartialSuccess_MarshalProto :: "ExportProfilesPartialSuccess \<Rightarrow> marshaler" where
  "ExportProfilesPartialSuccess_MarshalProto orig = marshal_body
     ((if pp_RejectedProfiles orig \<noteq> 0 then varint_block [0x08] (pp_RejectedProfiles orig) else [])
      @ (if length (pp_ErrorMessage orig) > 0 then string_block [0x12] (pp_ErrorMessage orig) else []))"

definition ExportProfilesPartialSuccess_field :: "ExportProfilesPartialSuccess field_reader" where
  "ExportProfilesPartialSuccess_field buf fieldNum wireType pos orig =
     (if fieldNum = 1 then read_varint (\<lambda>num. orig\<lparr>pp_RejectedProfiles := num\<rparr>) buf wireType pos
      else if fieldNum = 2 then read_bytes (\<lambda>s. orig\<lparr>pp_ErrorMessage := s\<rparr>) buf wireType pos
      else read_unknown orig buf wireType pos)"

definition ExportProfilesPartialSuccess_UnmarshalProto :: "ExportProfilesPartialSuccess unmarshaler" where
  "ExportProfilesPartialSuccess_UnmarshalProto = unmarshal_body ExportProfilesPartialSuccess_field"

definition ExportProfilesPartialSuccess_bytes :: "ExportProfilesPartialSuccess \<Rightarrow> byte list" where
  "ExportProfilesPartialSuccess_bytes orig =
     ((if length (pp_ErrorMessage orig) > 0 then string_bytes [0x12] (pp_ErrorMessage orig) else [])
      @ (if pp_RejectedProfiles orig \<noteq> 0 then varint_field_bytes [0x08] (pp_RejectedProfiles orig) else []))"

definition ExportProfilesPartialSuccess_wf :: "ExportProfilesPartialSuccess \<Rightarrow> bool" where
  "ExportProfilesPartialSuccess_wf orig \<longleftrightarrow> True"

lemma ExportProfilesPartialSuccess_decodes:
  assumes "ExportProfilesPartialSuccess_wf m"
  shows "decodes ExportProfilesPartialSuccess_field (ExportProfilesPartialSuccess_bytes m) ExportProfilesPartialSuccess_zero m"
proof -
  have 1: "decodes ExportProfilesPartialSuccess_field ((if length (pp_ErrorMessage m) > 0 then string_bytes [0x12] (pp_ErrorMessage m) else []))
      ExportProfilesPartialSuccess_zero
      (ExportProfilesPartialSuccess_zero\<lparr>pp_ErrorMessage := pp_ErrorMessage m\<rparr>)"
    by (rule decodes_opt_string [where fn = 2 and upd = "\<lambda>v. ExportProfilesPartialSuccess_zero\<lparr>pp_ErrorMessage := v\<rparr>"]) (simp_all add: ExportProfilesPartialSuccess_field_def ExportProfilesPartialSuccess_zero_def)
  have 2: "decodes ExportProfilesPartialSuccess_field ((if pp_RejectedProfiles m \<noteq> 0 then varint_field_bytes [0x08] (pp_RejectedProfiles m) else []))
      (ExportProfilesPartialSuccess_zero\<lparr>pp_ErrorMessage := pp_ErrorMessage m\<rparr>)
      (ExportProfilesPartialSuccess_zero\<lparr>pp_ErrorMessage := pp_ErrorMessage m, pp_RejectedProfiles := pp_RejectedProfiles m\<rparr>)"
    by (rule decodes_opt_varint [where fn = 1 and enc = "\<lambda>n. n" and dec = "\<lambda>n. n" and upd = "\<lambda>v. ExportProfilesPartialSuccess_zero\<lparr>pp_ErrorMessage := pp_ErrorMessage m, pp_RejectedProfiles := v\<rparr>"]) (simp_all add: ExportProfilesPartialSuccess_field_def ExportProfilesPartialSuccess_zero_def)
  have eq: "(ExportProfilesPartialSuccess_zero\<lparr>pp_ErrorMessage := pp_ErrorMessage m, pp_RejectedProfiles := pp_RejectedProfiles m\<rparr>) = m"
    by (cases m) (simp add: ExportProfilesPartialSuccess_zero_def)
  from decodes_append [OF 1 2]
  show ?thesis unfolding eq ExportProfilesPartialSuccess_bytes_def .
qed

interpretation profiles_partial: proto_message ExportProfilesPartialSuccess_SizeProto ExportProfilesPartialSuccess_MarshalProto ExportProfilesPartialSuccess_UnmarshalProto ExportProfilesPartialSuccess_zero ExportProfilesPartialSuccess_bytes ExportProfilesPartialSuccess_wf
proof unfold_locales
  fix m assume wf: "ExportProfilesPartialSuccess_wf m"
  then show "ExportProfilesPartialSuccess_SizeProto m = length (ExportProfilesPartialSuccess_bytes m)"
    unfolding ExportProfilesPartialSuccess_SizeProto_def ExportProfilesPartialSuccess_bytes_def ExportProfilesPartialSuccess_wf_def
    by (simp add: length_if_Nil field_sizes repeated_string_size  del: length_concat split del: if_split cong: if_cong)
  show "marshals (ExportProfilesPartialSuccess_MarshalProto m) (ExportProfilesPartialSuccess_bytes m)"
    unfolding ExportProfilesPartialSuccess_MarshalProto_def ExportProfilesPartialSuccess_bytes_def
    by (intro marshals_body emit)
  show "ExportProfilesPartialSuccess_UnmarshalProto (ExportProfilesPartialSuccess_bytes m) ExportProfilesPartialSuccess_zero = Some (Inr m)" if "valid_buf (ExportProfilesPartialSuccess_bytes m)"
    unfolding ExportProfilesPartialSuccess_UnmarshalProto_def by (rule unmarshal_body_decodes [OF ExportProfilesPartialSuccess_decodes [OF wf] that])
next
  fix buf and m :: ExportProfilesPartialSuccess
  assume "valid_buf buf"
  then show "unmarshal_ok (ExportProfilesPartialSuccess_UnmarshalProto buf m)"
    unfolding ExportProfilesPartialSuccess_UnmarshalProto_def ExportProfilesPartialSuccess_field_def by (intro unmarshal_body_ok reader_ok) simp_all
qed

section \<open>ExportProfilesServiceResponse\<close>

record ExportProfilesServiceResponse =
  ps_PartialSuccess :: ExportProfilesPartialSuccess

definition ExportProfilesServiceResponse_zero :: ExportProfilesServiceResponse where
  "ExportProfilesServiceResponse_zero = \<lparr>ps_PartialSuccess = ExportProfilesPartialSuccess_zero\<rparr>"

definition ExportProfilesServiceResponse_SizeProto :: "ExportProfilesServiceResponse \<Rightarrow> nat" where
  "ExportProfilesServiceResponse_SizeProto orig =
     len_size 1 (ExportProfilesPartialSuccess_SizeProto (ps_PartialSuccess orig))"

definition ExportProfilesServiceResponse_MarshalProto :: "ExportProfilesServiceResponse \<Rightarrow> marshaler" where
  "ExportProfilesServiceResponse_MarshalProto orig = marshal_body
     (message_block [0x0a] (ExportProfilesPartialSuccess_MarshalProto (ps_PartialSuccess orig)))"

definition ExportProfilesServiceResponse_field :: "ExportProfilesServiceResponse field_reader" where
  "ExportProfilesServiceResponse_field buf fieldNum wireType pos orig =
     (if fieldNum = 1 then read_message ExportProfilesPartialSuccess_UnmarshalProto (ps_PartialSuccess orig) (\<lambda>v. orig\<lparr>ps_PartialSuccess := v\<rparr>) buf wireType pos
      else read_unknown orig buf wireType pos)"

definition ExportProfilesServiceResponse_UnmarshalProto :: "ExportProfilesServiceResponse unmarshaler" where
  "ExportProfilesServiceResponse_UnmarshalProto = unmarshal_body ExportProfilesServiceResponse_field"

definition ExportProfilesServiceResponse_bytes :: "ExportProfilesServiceResponse \<Rightarrow> byte list" where
  "ExportProfilesServiceResponse_bytes orig =
     string_bytes [0x0a] (ExportProfilesPartialSuccess_bytes (ps_PartialSuccess orig))"

definition ExportProfilesServiceResponse_wf :: "ExportProfilesServiceResponse \<Rightarrow> bool" where
  "ExportProfilesServiceResponse_wf orig \<longleftrightarrow> ExportProfilesPartialSuccess_wf (ps_PartialSuccess orig)"

lemma ExportProfilesServiceResponse_decodes:
  assumes "ExportProfilesServiceResponse_wf m"
  shows "decodes ExportProfilesServiceResponse_field (ExportProfilesServiceResponse_bytes m) ExportProfilesServiceResponse_zero m"
proof -
  note wf = assms [unfolded ExportProfilesServiceResponse_wf_def]
  have 1: "decodes ExportProfilesServiceResponse_field (string_bytes [0x0a] (ExportProfilesPartialSuccess_bytes (ps_PartialSuccess m)))
      ExportProfilesServiceResponse_zero
      (ExportProfilesServiceResponse_zero\<lparr>ps_PartialSuccess := ps_PartialSuccess m\<rparr>)"
    by (rule profiles_partial.decodes_message [where fn = 1 and upd = "\<lambda>v. ExportProfilesServiceResponse_zero\<lparr>ps_PartialSuccess := v\<rparr>"]) (simp_all add: ExportProfilesServiceResponse_field_def ExportProfilesServiceResponse_zero_def wf)
  have eq: "(ExportProfilesServiceResponse_zero\<lparr>ps_PartialSuccess := ps_PartialSuccess m\<rparr>) = m"
    by (cases m) (simp add: ExportProfilesServiceResponse_zero_def)
  from 1
  show ?thesis unfolding eq ExportProfilesServiceResponse_bytes_def .
qed

interpretation profiles_response: proto_message ExportProfilesServiceResponse_SizeProto ExportProfilesServiceResponse_MarshalProto ExportProfilesServiceResponse_UnmarshalProto ExportProfilesServiceResponse_zero ExportProfilesServiceResponse_bytes ExportProfilesServiceResponse_wf
proof unfold_locales
  fix m assume wf: "ExportProfilesServiceResponse_wf m"
  then show "ExportProfilesServiceResponse_SizeProto m = length (ExportProfilesServiceResponse_bytes m)"
    unfolding ExportProfilesServiceResponse_SizeProto_def ExportProfilesServiceResponse_bytes_def ExportProfilesServiceResponse_wf_def
    by (simp add: length_if_Nil field_sizes repeated_string_size profiles_partial.repeated_size profiles_partial.size del: length_concat split del: if_split cong: if_cong)
  show "marshals (ExportProfilesServiceResponse_MarshalProto m) (ExportProfilesServiceResponse_bytes m)"
    unfolding ExportProfilesServiceResponse_MarshalProto_def ExportProfilesServiceResponse_bytes_def
    by (intro marshals_body emit) (use wf in \<open>simp_all add: ExportProfilesServiceResponse_wf_def\<close>)
  show "ExportProfilesServiceResponse_UnmarshalProto (ExportProfilesServiceResponse_bytes m) ExportProfilesServiceResponse_zero = Some (Inr m)" if "valid_buf (ExportProfilesServiceResponse_bytes m)"
    unfolding ExportProfilesServiceResponse_UnmarshalProto_def by (rule unmarshal_body_decodes [OF ExportProfilesServiceResponse_decodes [OF wf] that])
next
  fix buf and m :: ExportProfilesServiceResponse
  assume "valid_buf buf"
  then show "unmarshal_ok (ExportProfilesServiceResponse_UnmarshalProto buf m)"
    unfolding ExportProfilesServiceResponse_UnmarshalProto_def ExportProfilesServiceResponse_field_def by (intro unmarshal_body_ok reader_ok) simp_all
qed

end
