(* ===== verification/ProtoRequests.thy ===== *)
theory ProtoRequests
  imports ProtoLogs ProtoTraces ProtoMetrics ProtoProfiles
begin

text \<open>
  The requests the sending queue stores: the data of a signal together with the context it came with
  (pdata/internal/generated\_proto\_requestcontext.go, generated\_proto\_spancontext.go, the address
  messages, generated\_proto\_logsrequest.go and its siblings).
\<close>

lemma tags_requests [simp]:
  "is_tag [0x1d] 3 5"
  "is_tag [0x0d] 1 5"
  by (simp_all add: is_tag_def Let_def varint_bytes.simps)

section \<open>SpanContext\<close>

record SpanContext =
  sn_TraceID :: ident
  sn_SpanID :: ident
  sn_TraceFlags :: "32 word"
  sn_TraceState :: "byte list"
  sn_Remote :: bool

definition SpanContext_zero :: SpanContext where
  "SpanContext_zero = \<lparr>sn_TraceID = replicate traceIDSize 0, sn_SpanID = replicate spanIDSize 0, sn_TraceFlags = 0, sn_TraceState = [], sn_Remote = False\<rparr>"

definition SpanContext_SizeProto :: "SpanContext \<Rightarrow> nat" where
  "SpanContext_SizeProto orig =
     len_size 1 (ID_SizeProto traceIDSize (sn_TraceID orig))
     + len_size 1 (ID_SizeProto spanIDSize (sn_SpanID orig))
     + (if sn_TraceFlags orig \<noteq> 0 then 5 else 0)
     + (if length (sn_TraceState orig) > 0 then len_size 1 (length (sn_TraceState orig)) else 0)
     + (if sn_Remote orig then 2 else 0)"

definition SpanContext_MarshalProto :: "SpanContext \<Rightarrow> marshaler" where
  "SpanContext_MarshalProto orig = marshal_body
     (message_block [0x0a] (ID_MarshalProto traceIDSize (sn_TraceID orig))
      @ message_block [0x12] (ID_MarshalProto spanIDSize (sn_SpanID orig))
      @ (if sn_TraceFlags orig \<noteq> 0 then fixed_block [0x1d] 4 (ucast (sn_TraceFlags orig)) else [])
      @ (if length (sn_TraceState orig) > 0 then string_block [0x22] (sn_TraceState orig) else [])
      @ (if sn_Remote orig then put_byte (if sn_Remote orig then 1 else 0) # put_tag [0x28] else []))"

definition SpanContext_field :: "SpanContext field_reader" where
  "SpanContext_field buf fieldNum wireType pos orig =
     (if fieldNum = 1 then read_message (ID_UnmarshalProto traceIDSize) (sn_TraceID orig) (\<lambda>v. orig\<lparr>sn_TraceID := v\<rparr>) buf wireType pos
      else if fieldNum = 2 then read_message (ID_UnmarshalProto spanIDSize) (sn_SpanID orig) (\<lambda>v. orig\<lparr>sn_SpanID := v\<rparr>) buf wireType pos
      else if fieldNum = 3 then read_i32 (\<lambda>num. orig\<lparr>sn_TraceFlags := num\<rparr>) buf wireType pos
      else if fieldNum = 4 then read_bytes (\<lambda>s. orig\<lparr>sn_TraceState := s\<rparr>) buf wireType pos
      else if fieldNum = 5 then read_varint (\<lambda>num. orig\<lparr>sn_Remote := num \<noteq> 0\<rparr>) buf wireType pos
      else read_unknown orig buf wireType pos)"

definition SpanContext_UnmarshalProto :: "SpanContext unmarshaler" where
  "SpanContext_UnmarshalProto = unmarshal_body SpanContext_field"

definition SpanContext_bytes :: "SpanContext \<Rightarrow> byte list" where
  "SpanContext_bytes orig =
     (((((if sn_Remote orig then varint_field_bytes [0x28] (if sn_Remote orig then 1 else 0) else [])
      @ (if length (sn_TraceState orig) > 0 then string_bytes [0x22] (sn_TraceState orig) else []))
      @ (if sn_TraceFlags orig \<noteq> 0 then fixed_bytes [0x1d] 4 (ucast (sn_TraceFlags orig)) else []))
      @ string_bytes [0x12] (ID_bytes spanIDSize (sn_SpanID orig)))
      @ string_bytes [0x0a] (ID_bytes traceIDSize (sn_TraceID orig)))"

definition SpanContext_wf :: "SpanContext \<Rightarrow> bool" where
  "SpanContext_wf orig \<longleftrightarrow> ID_wf traceIDSize (sn_TraceID orig) \<and> ID_wf spanIDSize (sn_SpanID orig)"

lemma SpanContext_decodes:
  assumes "SpanContext_wf m"
  shows "decodes SpanContext_field (SpanContext_bytes m) SpanContext_zero m"
proof -
  note wf = assms [unfolded SpanContext_wf_def]
  have 1: "decodes SpanContext_field ((if sn_Remote m then varint_field_bytes [0x28] (if sn_Remote m then 1 else 0) else []))
      SpanContext_zero
      (SpanContext_zero\<lparr>sn_Remote := sn_Remote m\<rparr>)"
    by (rule decodes_bool [where fn = 5 and upd = "\<lambda>v. SpanContext_zero\<lparr>sn_Remote := v\<rparr>"]) (simp_all add: SpanContext_field_def SpanContext_zero_def)
  have 2: "decodes SpanContext_field ((if length (sn_TraceState m) > 0 then string_bytes [0x22] (sn_TraceState m) else []))
      (SpanContext_zero\<lparr>sn_Remote := sn_Remote m\<rparr>)
      (SpanContext_zero\<lparr>sn_Remote := sn_Remote m, sn_TraceState := sn_TraceState m\<rparr>)"
    by (rule decodes_opt_string [where fn = 4 and upd = "\<lambda>v. SpanContext_zero\<lparr>sn_Remote := sn_Remote m, sn_TraceState := v\<rparr>"]) (simp_all add: SpanContext_field_def SpanContext_zero_def)
  have 3: "decodes SpanContext_field ((if sn_TraceFlags m \<noteq> 0 then fixed_bytes [0x1d] 4 (ucast (sn_TraceFlags m)) else []))
      (SpanContext_zero\<lparr>sn_Remote := sn_Remote m, sn_TraceState := sn_TraceState m\<rparr>)
      (SpanContext_zero\<lparr>sn_Remote := sn_Remote m, sn_TraceState := sn_TraceState m, sn_TraceFlags := sn_TraceFlags m\<rparr>)"
    by (rule decodes_opt_fixed32 [where fn = 3 and upd = "\<lambda>v. SpanContext_zero\<lparr>sn_Remote := sn_Remote m, sn_TraceState := sn_TraceState m, sn_TraceFlags := v\<rparr>"]) (simp_all add: SpanContext_field_def SpanContext_zero_def)
  have 4: "decodes SpanContext_field (string_bytes [0x12] (ID_bytes spanIDSize (sn_SpanID m)))
      (SpanContext_zero\<lparr>sn_Remote := sn_Remote m, sn_TraceState := sn_TraceState m, sn_TraceFlags := sn_TraceFlags m\<rparr>)
      (SpanContext_zero\<lparr>sn_Remote := sn_Remote m, sn_TraceState := sn_TraceState m, sn_TraceFlags := sn_TraceFlags m, sn_SpanID := sn_SpanID m\<rparr>)"
    by (rule ident.decodes_message [where fn = 2 and upd = "\<lambda>v. SpanContext_zero\<lparr>sn_Remote := sn_Remote m, sn_TraceState := sn_TraceState m, sn_TraceFlags := sn_TraceFlags m, sn_SpanID := v\<rparr>"]) (simp_all add: SpanContext_field_def SpanContext_zero_def wf)
  have 5: "decodes SpanContext_field (string_bytes [0x0a] (ID_bytes traceIDSize (sn_TraceID m)))
      (SpanContext_zero\<lparr>sn_Remote := sn_Remote m, sn_TraceState := sn_TraceState m, sn_TraceFlags := sn_TraceFlags m, sn_SpanID := sn_SpanID m\<rparr>)
      (SpanContext_zero\<lparr>sn_Remote := sn_Remote m, sn_TraceState := sn_TraceState m, sn_TraceFlags := sn_TraceFlags m, sn_SpanID := sn_SpanID m, sn_TraceID := sn_TraceID m\<rparr>)"
    by (rule ident.decodes_message [where fn = 1 and upd = "\<lambda>v. SpanContext_zero\<lparr>sn_Remote := sn_Remote m, sn_TraceState := sn_TraceState m, sn_TraceFlags := sn_TraceFlags m, sn_SpanID := sn_SpanID m, sn_TraceID := v\<rparr>"]) (simp_all add: SpanContext_field_def SpanContext_zero_def wf)
  have eq: "(SpanContext_zero\<lparr>sn_Remote := sn_Remote m, sn_TraceState := sn_TraceState m, sn_TraceFlags := sn_TraceFlags m, sn_SpanID := sn_SpanID m, sn_TraceID := sn_TraceID m\<rparr>) = m"
    by (cases m) (simp add: SpanContext_zero_def)
  from decodes_append [OF decodes_append [OF decodes_append [OF decodes_append [OF 1 2] 3] 4] 5]
  show ?thesis unfolding eq SpanContext_bytes_def .
qed

interpretation span_context: proto_message SpanContext_SizeProto SpanContext_MarshalProto SpanContext_UnmarshalProto SpanContext_zero SpanContext_bytes SpanContext_wf
proof unfold_locales
  fix m assume wf: "SpanContext_wf m"
  then show "SpanContext_SizeProto m = length (SpanContext_bytes m)"
    unfolding SpanContext_SizeProto_def SpanContext_bytes_def SpanContext_wf_def
    by (simp add: length_if_Nil field_sizes repeated_string_size  length_packed_varints length_packed_fixed64s Soz_zigzag Sov_1 mult.commute [of _ 8] numeral_2_eq_2 ident.repeated_size ident.size del: length_concat split del: if_split cong: if_cong)
  show "marshals (SpanContext_MarshalProto m) (SpanContext_bytes m)"
    unfolding SpanContext_MarshalProto_def SpanContext_bytes_def
    by (intro marshals_body emit) (use wf in \<open>simp_all add: SpanContext_wf_def\<close>)
  show "SpanContext_UnmarshalProto (SpanContext_bytes m) SpanContext_zero = Some (Inr m)" if "valid_buf (SpanContext_bytes m)"
    unfolding SpanContext_UnmarshalProto_def by (rule unmarshal_body_decodes [OF SpanContext_decodes [OF wf] that])
next
  fix buf and m :: SpanContext
  assume "valid_buf buf"
  then show "unmarshal_ok (SpanContext_UnmarshalProto buf m)"
    unfolding SpanContext_UnmarshalProto_def SpanContext_field_def by (intro unmarshal_body_ok reader_ok) simp_all
qed

section \<open>IPAddr\<close>

record IPAddr =
  ia_IP :: "byte list"
  ia_Zone :: "byte list"

definition IPAddr_zero :: IPAddr where
  "IPAddr_zero = \<lparr>ia_IP = [], ia_Zone = []\<rparr>"

definition IPAddr_SizeProto :: "IPAddr \<Rightarrow> nat" where
  "IPAddr_SizeProto orig =
     (if length (ia_IP orig) > 0 then len_size 1 (length (ia_IP orig)) else 0)
     + (if length (ia_Zone orig) > 0 then len_size 1 (length (ia_Zone orig)) else 0)"

definition IPAddr_MarshalProto :: "IPAddr \<Rightarrow> marshaler" where
  "IPAddr_MarshalProto orig = marshal_body
     ((if length (ia_IP orig) > 0 then string_block [0x0a] (ia_IP orig) else [])
      @ (if length (ia_Zone orig) > 0 then string_block [0x12] (ia_Zone orig) else []))"

definition IPAddr_field :: "IPAddr field_reader" where
  "IPAddr_field buf fieldNum wireType pos orig =
     (if fieldNum = 1 then read_bytes (\<lambda>s. if length s \<noteq> 0 then orig\<lparr>ia_IP := s\<rparr> else orig) buf wireType pos
      else if fieldNum = 2 then read_bytes (\<lambda>s. orig\<lparr>ia_Zone := s\<rparr>) buf wireType pos
      else read_unknown orig buf wireType pos)"

definition IPAddr_UnmarshalProto :: "IPAddr unmarshaler" where
  "IPAddr_UnmarshalProto = unmarshal_body IPAddr_field"

definition IPAddr_bytes :: "IPAddr \<Rightarrow> byte list" where
  "IPAddr_bytes orig =
     ((if length (ia_Zone orig) > 0 then string_bytes [0x12] (ia_Zone orig) else [])
      @ (if length (ia_IP orig) > 0 then string_bytes [0x0a] (ia_IP orig) else []))"

definition IPAddr_wf :: "IPAddr \<Rightarrow> bool" where
  "IPAddr_wf orig \<longleftrightarrow> True"

lemma IPAddr_decodes:
  assumes "IPAddr_wf m"
  shows "decodes IPAddr_field (IPAddr_bytes m) IPAddr_zero m"
proof -
  have 1: "decodes IPAddr_field ((if length (ia_Zone m) > 0 then string_bytes [0x12] (ia_Zone m) else []))
      IPAddr_zero
      (IPAddr_zero\<lparr>ia_Zone := ia_Zone m\<rparr>)"
    by (rule decodes_opt_string [where fn = 2 and upd = "\<lambda>v. IPAddr_zero\<lparr>ia_Zone := v\<rparr>"]) (simp_all add: IPAddr_field_def IPAddr_zero_def)
  have 2: "decodes IPAddr_field ((if length (ia_IP m) > 0 then string_bytes [0x0a] (ia_IP m) else []))
      (IPAddr_zero\<lparr>ia_Zone := ia_Zone m\<rparr>)
      (IPAddr_zero\<lparr>ia_Zone := ia_Zone m, ia_IP := ia_IP m\<rparr>)"
    by (rule decodes_opt_bytes [where fn = 1 and upd = "\<lambda>v. IPAddr_zero\<lparr>ia_Zone := ia_Zone m, ia_IP := v\<rparr>"]) (simp_all add: IPAddr_field_def IPAddr_zero_def cong: if_cong)
  have eq: "(IPAddr_zero\<lparr>ia_Zone := ia_Zone m, ia_IP := ia_IP m\<rparr>) = m"
    by (cases m) (simp add: IPAddr_zero_def)
  from decodes_append [OF 1 2]
  show ?thesis unfolding eq IPAddr_bytes_def .
qed

interpretation ip_addr: proto_message IPAddr_SizeProto IPAddr_MarshalProto IPAddr_UnmarshalProto IPAddr_zero IPAddr_bytes IPAddr_wf
proof unfold_locales
  fix m assume wf: "IPAddr_wf m"
  then show "IPAddr_SizeProto m = length (IPAddr_bytes m)"
    unfolding IPAddr_SizeProto_def IPAddr_bytes_def IPAddr_wf_def
    by (simp add: length_if_Nil field_sizes repeated_string_size  del: length_concat split del: if_split cong: if_cong)
  show "marshals (IPAddr_MarshalProto m) (IPAddr_bytes m)"
    unfolding IPAddr_MarshalProto_def IPAddr_bytes_def
    by (intro marshals_body emit)
  show "IPAddr_UnmarshalProto (IPAddr_bytes m) IPAddr_zero = Some (Inr m)" if "valid_buf (IPAddr_bytes m)"
    unfolding IPAddr_UnmarshalProto_def by (rule unmarshal_body_decodes [OF IPAddr_decodes [OF wf] that])
next
  fix buf and m :: IPAddr
  assume "valid_buf buf"
  then show "unmarshal_ok (IPAddr_UnmarshalProto buf m)"
    unfolding IPAddr_UnmarshalProto_def IPAddr_field_def by (intro unmarshal_body_ok reader_ok) simp_all
qed

section \<open>TCPAddr\<close>

record TCPAddr =
  ta_IP :: "byte list"
  ta_Port :: u64
  ta_Zone :: "byte list"

definition TCPAddr_zero :: TCPAddr where
  "TCPAddr_zero = \<lparr>ta_IP = [], ta_Port = 0, ta_Zone = []\<rparr>"

definition TCPAddr_SizeProto :: "TCPAddr \<Rightarrow> nat" where
  "TCPAddr_SizeProto orig =
     (if length (ta_IP orig) > 0 then len_size 1 (length (ta_IP orig)) else 0)
     + (if ta_Port orig \<noteq> 0 then 1 + Sov (ta_Port orig) else 0)
     + (if length (ta_Zone orig) > 0 then len_size 1 (length (ta_Zone orig)) else 0)"

definition TCPAddr_MarshalProto :: "TCPAddr \<Rightarrow> marshaler" where
  "TCPAddr_MarshalProto orig = marshal_body
     ((if length (ta_IP orig) > 0 then string_block [0x0a] (ta_IP orig) else [])
      @ (if ta_Port orig \<noteq> 0 then varint_block [0x10] (ta_Port orig) else [])
      @ (if length (ta_Zone orig) > 0 then string_block [0x1a] (ta_Zone orig) else []))"

definition TCPAddr_field :: "TCPAddr field_reader" where
  "TCPAddr_field buf fieldNum wireType pos orig =
     (if fieldNum = 1 then read_bytes (\<lambda>s. if length s \<noteq> 0 then orig\<lparr>ta_IP := s\<rparr> else orig) buf wireType pos
      else if fieldNum = 2 then read_varint (\<lambda>num. orig\<lparr>ta_Port := num\<rparr>) buf wireType pos
      else if fieldNum = 3 then read_bytes (\<lambda>s. orig\<lparr>ta_Zone := s\<rparr>) buf wireType pos
      else read_unknown orig buf wireType pos)"

definition TCPAddr_UnmarshalProto :: "TCPAddr unmarshaler" where
  "TCPAddr_UnmarshalProto = unmarshal_body TCPAddr_field"

definition TCPAddr_bytes :: "TCPAddr \<Rightarrow> byte list" where
  "TCPAddr_bytes orig =
     (((if length (ta_Zone orig) > 0 then string_bytes [0x1a] (ta_Zone orig) else [])
      @ (if ta_Port orig \<noteq> 0 then varint_field_bytes [0x10] (ta_Port orig) else []))
      @ (if length (ta_IP orig) > 0 then string_bytes [0x0a] (ta_IP orig) else []))"

definition TCPAddr_wf :: "TCPAddr \<Rightarrow> bool" where
  "TCPAddr_wf orig \<longleftrightarrow> True"

lemma TCPAddr_decodes:
  assumes "TCPAddr_wf m"
  shows "decodes TCPAddr_field (TCPAddr_bytes m) TCPAddr_zero m"
proof -
  have 1: "decodes TCPAddr_field ((if length (ta_Zone m) > 0 then string_bytes [0x1a] (ta_Zone m) else []))
      TCPAddr_zero
      (TCPAddr_zero\<lparr>ta_Zone := ta_Zone m\<rparr>)"
    by (rule decodes_opt_string [where fn = 3 and upd = "\<lambda>v. TCPAddr_zero\<lparr>ta_Zone := v\<rparr>"]) (simp_all add: TCPAddr_field_def TCPAddr_zero_def)
  have 2: "decodes TCPAddr_field ((if ta_Port m \<noteq> 0 then varint_field_bytes [0x10] (ta_Port m) else []))
      (TCPAddr_zero\<lparr>ta_Zone := ta_Zone m\<rparr>)
      (TCPAddr_zero\<lparr>ta_Zone := ta_Zone m, ta_Port := ta_Port m\<rparr>)"
    by (rule decodes_opt_varint [where fn = 2 and enc = "\<lambda>n. n" and dec = "\<lambda>n. n" and upd = "\<lambda>v. TCPAddr_zero\<lparr>ta_Zone := ta_Zone m, ta_Port := v\<rparr>"]) (simp_all add: TCPAddr_field_def TCPAddr_zero_def)
  have 3: "decodes TCPAddr_field ((if length (ta_IP m) > 0 then string_bytes [0x0a] (ta_IP m) else []))
      (TCPAddr_zero\<lparr>ta_Zone := ta_Zone m, ta_Port := ta_Port m\<rparr>)
      (TCPAddr_zero\<lparr>ta_Zone := ta_Zone m, ta_Port := ta_Port m, ta_IP := ta_IP m\<rparr>)"
    by (rule decodes_opt_bytes [where fn = 1 and upd = "\<lambda>v. TCPAddr_zero\<lparr>ta_Zone := ta_Zone m, ta_Port := ta_Port m, ta_IP := v\<rparr>"]) (simp_all add: TCPAddr_field_def TCPAddr_zero_def cong: if_cong)
  have eq: "(TCPAddr_zero\<lparr>ta_Zone := ta_Zone m, ta_Port := ta_Port m, ta_IP := ta_IP m\<rparr>) = m"
    by (cases m) (simp add: TCPAddr_zero_def)
  from decodes_append [OF decodes_append [OF 1 2] 3]
  show ?thesis unfolding eq TCPAddr_bytes_def .
qed

interpretation tcp_addr: proto_message TCPAddr_SizeProto TCPAddr_MarshalProto TCPAddr_UnmarshalProto TCPAddr_zero TCPAddr_bytes TCPAddr_wf
proof unfold_locales
  fix m assume wf: "TCPAddr_wf m"
  then show "TCPAddr_SizeProto m = length (TCPAddr_bytes m)"
    unfolding TCPAddr_SizeProto_def TCPAddr_bytes_def TCPAddr_wf_def
    by (simp add: length_if_Nil field_sizes repeated_string_size  del: length_concat split del: if_split cong: if_cong)
  show "marshals (TCPAddr_MarshalProto m) (TCPAddr_bytes m)"
    unfolding TCPAddr_MarshalProto_def TCPAddr_bytes_def
    by (intro marshals_body emit)
  show "TCPAddr_UnmarshalProto (TCPAddr_bytes m) TCPAddr_zero = Some (Inr m)" if "valid_buf (TCPAddr_bytes m)"
    unfolding TCPAddr_UnmarshalProto_def by (rule unmarshal_body_decodes [OF TCPAddr_decodes [OF wf] that])
next
  fix buf and m :: TCPAddr
  assume "valid_buf buf"
  then show "unmarshal_ok (TCPAddr_UnmarshalProto buf m)"
    unfolding TCPAddr_UnmarshalProto_def TCPAddr_field_def by (intro unmarshal_body_ok reader_ok) simp_all
qed

section \<open>UDPAddr\<close>

record UDPAddr =
  ua_IP :: "byte list"
  ua_Port :: u64
  ua_Zone :: "byte list"

definition UDPAddr_zero :: UDPAddr where
  "UDPAddr_zero = \<lparr>ua_IP = [], ua_Port = 0, ua_Zone = []\<rparr>"

definition UDPAddr_SizeProto :: "UDPAddr \<Rightarrow> nat" where
  "UDPAddr_SizeProto orig =
     (if length (ua_IP orig) > 0 then len_size 1 (length (ua_IP orig)) else 0)
     + (if ua_Port orig \<noteq> 0 then 1 + Sov (ua_Port orig) else 0)
     + (if length (ua_Zone orig) > 0 then len_size 1 (length (ua_Zone orig)) else 0)"

definition UDPAddr_MarshalProto :: "UDPAddr \<Rightarrow> marshaler" where
  "UDPAddr_MarshalProto orig = marshal_body
     ((if length (ua_IP orig) > 0 then string_block [0x0a] (ua_IP orig) else [])
      @ (if ua_Port orig \<noteq> 0 then varint_block [0x10] (ua_Port orig) else [])
      @ (if length (ua_Zone orig) > 0 then string_block [0x1a] (ua_Zone orig) else []))"

definition UDPAddr_field :: "UDPAddr field_reader" where
  "UDPAddr_field buf fieldNum wireType pos orig =
     (if fieldNum = 1 then read_bytes (\<lambda>s. if length s \<noteq> 0 then orig\<lparr>ua_IP := s\<rparr> else orig) buf wireType pos
      else if fieldNum = 2 then read_varint (\<lambda>num. orig\<lparr>ua_Port := num\<rparr>) buf wireType pos
      else if fieldNum = 3 then read_bytes (\<lambda>s. orig\<lparr>ua_Zone := s\<rparr>) buf wireType pos
      else read_unknown orig buf wireType pos)"

definition UDPAddr_UnmarshalProto :: "UDPAddr unmarshaler" where
  "UDPAddr_UnmarshalProto = unmarshal_body UDPAddr_field"

definition UDPAddr_bytes :: "UDPAddr \<Rightarrow> byte list" where
  "UDPAddr_bytes orig =
     (((if length (ua_Zone orig) > 0 then string_bytes [0x1a] (ua_Zone orig) else [])
      @ (if ua_Port orig \<noteq> 0 then varint_field_bytes [0x10] (ua_Port orig) else []))
      @ (if length (ua_IP orig) > 0 then string_bytes [0x0a] (ua_IP orig) else []))"

definition UDPAddr_wf :: "UDPAddr \<Rightarrow> bool" where
  "UDPAddr_wf orig \<longleftrightarrow> True"

lemma UDPAddr_decodes:
  assumes "UDPAddr_wf m"
  shows "decodes UDPAddr_field (UDPAddr_bytes m) UDPAddr_zero m"
proof -
  have 1: "decodes UDPAddr_field ((if length (ua_Zone m) > 0 then string_bytes [0x1a] (ua_Zone m) else []))
      UDPAddr_zero
      (UDPAddr_zero\<lparr>ua_Zone := ua_Zone m\<rparr>)"
    by (rule decodes_opt_string [where fn = 3 and upd = "\<lambda>v. UDPAddr_zero\<lparr>ua_Zone := v\<rparr>"]) (simp_all add: UDPAddr_field_def UDPAddr_zero_def)
  have 2: "decodes UDPAddr_field ((if ua_Port m \<noteq> 0 then varint_field_bytes [0x10] (ua_Port m) else []))
      (UDPAddr_zero\<lparr>ua_Zone := ua_Zone m\<rparr>)
      (UDPAddr_zero\<lparr>ua_Zone := ua_Zone m, ua_Port := ua_Port m\<rparr>)"
    by (rule decodes_opt_varint [where fn = 2 and enc = "\<lambda>n. n" and dec = "\<lambda>n. n" and upd = "\<lambda>v. UDPAddr_zero\<lparr>ua_Zone := ua_Zone m, ua_Port := v\<rparr>"]) (simp_all add: UDPAddr_field_def UDPAddr_zero_def)
  have 3: "decodes UDPAddr_field ((if length (ua_IP m) > 0 then string_bytes [0x0a] (ua_IP m) else []))
      (UDPAddr_zero\<lparr>ua_Zone := ua_Zone m, ua_Port := ua_Port m\<rparr>)
      (UDPAddr_zero\<lparr>ua_Zone := ua_Zone m, ua_Port := ua_Port m, ua_IP := ua_IP m\<rparr>)"
    by (rule decodes_opt_bytes [where fn = 1 and upd = "\<lambda>v. UDPAddr_zero\<lparr>ua_Zone := ua_Zone m, ua_Port := ua_Port m, ua_IP := v\<rparr>"]) (simp_all add: UDPAddr_field_def UDPAddr_zero_def cong: if_cong)
  have eq: "(UDPAddr_zero\<lparr>ua_Zone := ua_Zone m, ua_Port := ua_Port m, ua_IP := ua_IP m\<rparr>) = m"
    by (cases m) (simp add: UDPAddr_zero_def)
  from decodes_append [OF decodes_append [OF 1 2] 3]
  show ?thesis unfolding eq UDPAddr_bytes_def .
qed

interpretation udp_addr: proto_message UDPAddr_SizeProto UDPAddr_MarshalProto UDPAddr_UnmarshalProto UDPAddr_zero UDPAddr_bytes UDPAddr_wf
proof unfold_locales
  fix m assume wf: "UDPAddr_wf m"
  then show "UDPAddr_SizeProto m = length (UDPAddr_bytes m)"
    unfolding UDPAddr_SizeProto_def UDPAddr_bytes_def UDPAddr_wf_def
    by (simp add: length_if_Nil field_sizes repeated_string_size  del: length_concat split del: if_split cong: if_cong)
  show "marshals (UDPAddr_MarshalProto m) (UDPAddr_bytes m)"
    unfolding UDPAddr_MarshalProto_def UDPAddr_bytes_def
    by (intro marshals_body emit)
  show "UDPAddr_UnmarshalProto (UDPAddr_bytes m) UDPAddr_zero = Some (Inr m)" if "valid_buf (UDPAddr_bytes m)"
    unfolding UDPAddr_UnmarshalProto_def by (rule unmarshal_body_decodes [OF UDPAddr_decodes [OF wf] that])
next
  fix buf and m :: UDPAddr
  assume "valid_buf buf"
  then show "unmarshal_ok (UDPAddr_UnmarshalProto buf m)"
    unfolding UDPAddr_UnmarshalProto_def UDPAddr_field_def by (intro unmarshal_body_ok reader_ok) simp_all
qed

section \<open>UnixAddr\<close>

record UnixAddr =
  xa_Name :: "byte list"
  xa_Net :: "byte list"

definition UnixAddr_zero :: UnixAddr where
  "UnixAddr_zero = \<lparr>xa_Name = [], xa_Net = []\<rparr>"

definition UnixAddr_SizeProto :: "UnixAddr \<Rightarrow> nat" where
  "UnixAddr_SizeProto orig =
     (if length (xa_Name orig) > 0 then len_size 1 (length (xa_Name orig)) else 0)
     + (if length (xa_Net orig) > 0 then len_size 1 (length (xa_Net orig)) else 0)"

definition UnixAddr_MarshalProto :: "UnixAddr \<Rightarrow> marshaler" where
  "UnixAddr_MarshalProto orig = marshal_body
     ((if length (xa_Name orig) > 0 then string_block [0x0a] (xa_Name orig) else [])
      @ (if length (xa_Net orig) > 0 then string_block [0x12] (xa_Net orig) else []))"

definition UnixAddr_field :: "UnixAddr field_reader" where
  "UnixAddr_field buf fieldNum wireType pos orig =
     (if fieldNum = 1 then read_bytes (\<lambda>s. orig\<lparr>xa_Name := s\<rparr>) buf wireType pos
      else if fieldNum = 2 then read_bytes (\<lambda>s. orig\<lparr>xa_Net := s\<rparr>) buf wireType pos
      else read_unknown orig buf wireType pos)"

definition UnixAddr_UnmarshalProto :: "UnixAddr unmarshaler" where
  "UnixAddr_UnmarshalProto = unmarshal_body UnixAddr_field"

definition UnixAddr_bytes :: "UnixAddr \<Rightarrow> byte list" where
  "UnixAddr_bytes orig =
     ((if length (xa_Net orig) > 0 then string_bytes [0x12] (xa_Net orig) else [])
      @ (if length (xa_Name orig) > 0 then string_bytes [0x0a] (xa_Name orig) else []))"

definition UnixAddr_wf :: "UnixAddr \<Rightarrow> bool" where
  "UnixAddr_wf orig \<longleftrightarrow> True"

lemma UnixAddr_decodes:
  assumes "UnixAddr_wf m"
  shows "decodes UnixAddr_field (UnixAddr_bytes m) UnixAddr_zero m"
proof -
  have 1: "decodes UnixAddr_field ((if length (xa_Net m) > 0 then string_bytes [0x12] (xa_Net m) else []))
      UnixAddr_zero
      (UnixAddr_zero\<lparr>xa_Net := xa_Net m\<rparr>)"
    by (rule decodes_opt_string [where fn = 2 and upd = "\<lambda>v. UnixAddr_zero\<lparr>xa_Net := v\<rparr>"]) (simp_all add: UnixAddr_field_def UnixAddr_zero_def)
  have 2: "decodes UnixAddr_field ((if length (xa_Name m) > 0 then string_bytes [0x0a] (xa_Name m) else []))
      (UnixAddr_zero\<lparr>xa_Net := xa_Net m\<rparr>)
      (UnixAddr_zero\<lparr>xa_Net := xa_Net m, xa_Name := xa_Name m\<rparr>)"
    by (rule decodes_opt_string [where fn = 1 and upd = "\<lambda>v. UnixAddr_zero\<lparr>xa_Net := xa_Net m, xa_Name := v\<rparr>"]) (simp_all add: UnixAddr_field_def UnixAddr_zero_def)
  have eq: "(UnixAddr_zero\<lparr>xa_Net := xa_Net m, xa_Name := xa_Name m\<rparr>) = m"
    by (cases m) (simp add: UnixAddr_zero_def)
  from decodes_append [OF 1 2]
  show ?thesis unfolding eq UnixAddr_bytes_def .
qed

interpretation unix_addr: proto_message UnixAddr_SizeProto UnixAddr_MarshalProto UnixAddr_UnmarshalProto UnixAddr_zero UnixAddr_bytes UnixAddr_wf
proof unfold_locales
  fix m assume wf: "UnixAddr_wf m"
  then show "UnixAddr_SizeProto m = length (UnixAddr_bytes m)"
    unfolding UnixAddr_SizeProto_def UnixAddr_bytes_def UnixAddr_wf_def
    by (simp add: length_if_Nil field_sizes repeated_string_size  del: length_concat split del: if_split cong: if_cong)
  show "marshals (UnixAddr_MarshalProto m) (UnixAddr_bytes m)"
    unfolding UnixAddr_MarshalProto_def UnixAddr_bytes_def
    by (intro marshals_body emit)
  show "UnixAddr_UnmarshalProto (UnixAddr_bytes m) UnixAddr_zero = Some (Inr m)" if "valid_buf (UnixAddr_bytes m)"
    unfolding UnixAddr_UnmarshalProto_def by (rule unmarshal_body_decodes [OF UnixAddr_decodes [OF wf] that])
next
  fix buf and m :: UnixAddr
  assume "valid_buf buf"
  then show "unmarshal_ok (UnixAddr_UnmarshalProto buf m)"
    unfolding UnixAddr_UnmarshalProto_def UnixAddr_field_def by (intro unmarshal_body_ok reader_ok) simp_all
qed

datatype RequestContext_ClientAddress =
    RequestContext_nil
  | RequestContext_IP "IPAddr option"
  | RequestContext_TCP "TCPAddr option"
  | RequestContext_UDP "UDPAddr option"
  | RequestContext_Unix "UnixAddr option"

fun RequestContext_ClientAddress_SizeProto :: "RequestContext_ClientAddress \<Rightarrow> nat" where
  "RequestContext_ClientAddress_SizeProto RequestContext_nil = 0"
| "RequestContext_ClientAddress_SizeProto (RequestContext_IP v) = (case v of None \<Rightarrow> 0 | Some d \<Rightarrow> len_size 1 (IPAddr_SizeProto d))"
| "RequestContext_ClientAddress_SizeProto (RequestContext_TCP v) = (case v of None \<Rightarrow> 0 | Some d \<Rightarrow> len_size 1 (TCPAddr_SizeProto d))"
| "RequestContext_ClientAddress_SizeProto (RequestContext_UDP v) = (case v of None \<Rightarrow> 0 | Some d \<Rightarrow> len_size 1 (UDPAddr_SizeProto d))"
| "RequestContext_ClientAddress_SizeProto (RequestContext_Unix v) = (case v of None \<Rightarrow> 0 | Some d \<Rightarrow> len_size 1 (UnixAddr_SizeProto d))"

fun RequestContext_ClientAddress_MarshalProto :: "RequestContext_ClientAddress \<Rightarrow> writer list" where
  "RequestContext_ClientAddress_MarshalProto RequestContext_nil = []"
| "RequestContext_ClientAddress_MarshalProto (RequestContext_IP v) = (case v of None \<Rightarrow> [] | Some d \<Rightarrow> message_block [0x1a] (IPAddr_MarshalProto d))"
| "RequestContext_ClientAddress_MarshalProto (RequestContext_TCP v) = (case v of None \<Rightarrow> [] | Some d \<Rightarrow> message_block [0x22] (TCPAddr_MarshalProto d))"
| "RequestContext_ClientAddress_MarshalProto (RequestContext_UDP v) = (case v of None \<Rightarrow> [] | Some d \<Rightarrow> message_block [0x2a] (UDPAddr_MarshalProto d))"
| "RequestContext_ClientAddress_MarshalProto (RequestContext_Unix v) = (case v of None \<Rightarrow> [] | Some d \<Rightarrow> message_block [0x32] (UnixAddr_MarshalProto d))"

fun RequestContext_ClientAddress_bytes :: "RequestContext_ClientAddress \<Rightarrow> byte list" where
  "RequestContext_ClientAddress_bytes RequestContext_nil = []"
| "RequestContext_ClientAddress_bytes (RequestContext_IP v) = (case v of None \<Rightarrow> [] | Some d \<Rightarrow> string_bytes [0x1a] (IPAddr_bytes d))"
| "RequestContext_ClientAddress_bytes (RequestContext_TCP v) = (case v of None \<Rightarrow> [] | Some d \<Rightarrow> string_bytes [0x22] (TCPAddr_bytes d))"
| "RequestContext_ClientAddress_bytes (RequestContext_UDP v) = (case v of None \<Rightarrow> [] | Some d \<Rightarrow> string_bytes [0x2a] (UDPAddr_bytes d))"
| "RequestContext_ClientAddress_bytes (RequestContext_Unix v) = (case v of None \<Rightarrow> [] | Some d \<Rightarrow> string_bytes [0x32] (UnixAddr_bytes d))"

fun RequestContext_ClientAddress_wf :: "RequestContext_ClientAddress \<Rightarrow> bool" where
  "RequestContext_ClientAddress_wf RequestContext_nil = True"
| "RequestContext_ClientAddress_wf (RequestContext_IP v) = (case v of None \<Rightarrow> False | Some d \<Rightarrow> IPAddr_wf d)"
| "RequestContext_ClientAddress_wf (RequestContext_TCP v) = (case v of None \<Rightarrow> False | Some d \<Rightarrow> TCPAddr_wf d)"
| "RequestContext_ClientAddress_wf (RequestContext_UDP v) = (case v of None \<Rightarrow> False | Some d \<Rightarrow> UDPAddr_wf d)"
| "RequestContext_ClientAddress_wf (RequestContext_Unix v) = (case v of None \<Rightarrow> False | Some d \<Rightarrow> UnixAddr_wf d)"

lemma RequestContext_ClientAddress_size: "RequestContext_ClientAddress_wf v \<Longrightarrow> length (RequestContext_ClientAddress_bytes v) = RequestContext_ClientAddress_SizeProto v"
  by (cases v) (auto simp: field_sizes ip_addr.size tcp_addr.size udp_addr.size unix_addr.size split: option.splits)

lemma RequestContext_ClientAddress_emits [emit]: "RequestContext_ClientAddress_wf v \<Longrightarrow> block_emits (RequestContext_ClientAddress_MarshalProto v) (RequestContext_ClientAddress_bytes v)"
  by (cases v) (auto simp: block_emits_Nil intro!: emit split: option.splits)

section \<open>RequestContext\<close>

record RequestContext =
  rq_SpanContext :: "SpanContext option"
  rq_ClientMetadata :: "KeyValue list"
  rq_ClientAddress :: RequestContext_ClientAddress

definition RequestContext_zero :: RequestContext where
  "RequestContext_zero = \<lparr>rq_SpanContext = None, rq_ClientMetadata = [], rq_ClientAddress = RequestContext_nil\<rparr>"

definition RequestContext_SizeProto :: "RequestContext \<Rightarrow> nat" where
  "RequestContext_SizeProto orig =
     (case rq_SpanContext orig of None \<Rightarrow> 0 | Some d \<Rightarrow> len_size 1 (SpanContext_SizeProto d))
     + sum_list (map (\<lambda>v. len_size 1 (KeyValue_SizeProto v)) (rq_ClientMetadata orig))
     + RequestContext_ClientAddress_SizeProto (rq_ClientAddress orig)"

definition RequestContext_MarshalProto :: "RequestContext \<Rightarrow> marshaler" where
  "RequestContext_MarshalProto orig = marshal_body
     ((case rq_SpanContext orig of None \<Rightarrow> [] | Some d \<Rightarrow> message_block [0x0a] (SpanContext_MarshalProto d))
      @ concat (map (\<lambda>v. message_block [0x12] (KeyValue_MarshalProto v)) (rev (rq_ClientMetadata orig)))
      @ RequestContext_ClientAddress_MarshalProto (rq_ClientAddress orig))"

definition RequestContext_field :: "RequestContext field_reader" where
  "RequestContext_field buf fieldNum wireType pos orig =
     (if fieldNum = 1 then read_message SpanContext_UnmarshalProto SpanContext_zero (\<lambda>v. orig\<lparr>rq_SpanContext := Some v\<rparr>) buf wireType pos
      else if fieldNum = 2 then read_message KeyValue_UnmarshalProto KeyValue_zero (\<lambda>v. orig\<lparr>rq_ClientMetadata := rq_ClientMetadata orig @ [v]\<rparr>) buf wireType pos
      else if fieldNum = 3 then read_message IPAddr_UnmarshalProto IPAddr_zero (\<lambda>v. orig\<lparr>rq_ClientAddress := RequestContext_IP (Some v)\<rparr>) buf wireType pos
      else if fieldNum = 4 then read_message TCPAddr_UnmarshalProto TCPAddr_zero (\<lambda>v. orig\<lparr>rq_ClientAddress := RequestContext_TCP (Some v)\<rparr>) buf wireType pos
      else if fieldNum = 5 then read_message UDPAddr_UnmarshalProto UDPAddr_zero (\<lambda>v. orig\<lparr>rq_ClientAddress := RequestContext_UDP (Some v)\<rparr>) buf wireType pos
      else if fieldNum = 6 then read_message UnixAddr_UnmarshalProto UnixAddr_zero (\<lambda>v. orig\<lparr>rq_ClientAddress := RequestContext_Unix (Some v)\<rparr>) buf wireType pos
      else read_unknown orig buf wireType pos)"

definition RequestContext_UnmarshalProto :: "RequestContext unmarshaler" where
  "RequestContext_UnmarshalProto = unmarshal_body RequestContext_field"

definition RequestContext_bytes :: "RequestContext \<Rightarrow> byte list" where
  "RequestContext_bytes orig =
     ((RequestContext_ClientAddress_bytes (rq_ClientAddress orig)
      @ concat (map (\<lambda>v. string_bytes [0x12] (KeyValue_bytes v)) (rq_ClientMetadata orig)))
      @ (case rq_SpanContext orig of None \<Rightarrow> [] | Some d \<Rightarrow> string_bytes [0x0a] (SpanContext_bytes d)))"

definition RequestContext_wf :: "RequestContext \<Rightarrow> bool" where
  "RequestContext_wf orig \<longleftrightarrow> pred_option SpanContext_wf (rq_SpanContext orig) \<and> list_all KeyValue_wf (rq_ClientMetadata orig) \<and> RequestContext_ClientAddress_wf (rq_ClientAddress orig)"

lemma RequestContext_decodes:
  assumes "RequestContext_wf m"
  shows "decodes RequestContext_field (RequestContext_bytes m) RequestContext_zero m"
proof -
  note wf = assms [unfolded RequestContext_wf_def]
  have 1: "decodes RequestContext_field (RequestContext_ClientAddress_bytes (rq_ClientAddress m))
      RequestContext_zero
      (RequestContext_zero\<lparr>rq_ClientAddress := rq_ClientAddress m\<rparr>)"
  proof (cases "rq_ClientAddress m")
    case RequestContext_nil
    then show ?thesis by (simp add: decodes_Nil RequestContext_zero_def)
  next
    case (RequestContext_IP v)
    with wf obtain d where d: "v = Some d" "IPAddr_wf d" by (cases v) auto
    have "decodes RequestContext_field (string_bytes [0x1a] (IPAddr_bytes d))
        RequestContext_zero
        (RequestContext_zero\<lparr>rq_ClientAddress := RequestContext_IP (Some d)\<rparr>)"
      by (rule ip_addr.decodes_message [where fn = 3 and upd = "\<lambda>v. RequestContext_zero\<lparr>rq_ClientAddress := RequestContext_IP (Some v)\<rparr>"]) (simp_all add: RequestContext_field_def RequestContext_zero_def d)
    then show ?thesis by (simp add: RequestContext_IP d)
  next
    case (RequestContext_TCP v)
    with wf obtain d where d: "v = Some d" "TCPAddr_wf d" by (cases v) auto
    have "decodes RequestContext_field (string_bytes [0x22] (TCPAddr_bytes d))
        RequestContext_zero
        (RequestContext_zero\<lparr>rq_ClientAddress := RequestContext_TCP (Some d)\<rparr>)"
      by (rule tcp_addr.decodes_message [where fn = 4 and upd = "\<lambda>v. RequestContext_zero\<lparr>rq_ClientAddress := RequestContext_TCP (Some v)\<rparr>"]) (simp_all add: RequestContext_field_def RequestContext_zero_def d)
    then show ?thesis by (simp add: RequestContext_TCP d)
  next
    case (RequestContext_UDP v)
    with wf obtain d where d: "v = Some d" "UDPAddr_wf d" by (cases v) auto
    have "decodes RequestContext_field (string_bytes [0x2a] (UDPAddr_bytes d))
        RequestContext_zero
        (RequestContext_zero\<lparr>rq_ClientAddress := RequestContext_UDP (Some d)\<rparr>)"
      by (rule udp_addr.decodes_message [where fn = 5 and upd = "\<lambda>v. RequestContext_zero\<lparr>rq_ClientAddress := RequestContext_UDP (Some v)\<rparr>"]) (simp_all add: RequestContext_field_def RequestContext_zero_def d)
    then show ?thesis by (simp add: RequestContext_UDP d)
  next
    case (RequestContext_Unix v)
    with wf obtain d where d: "v = Some d" "UnixAddr_wf d" by (cases v) auto
    have "decodes RequestContext_field (string_bytes [0x32] (UnixAddr_bytes d))
        RequestContext_zero
        (RequestContext_zero\<lparr>rq_ClientAddress := RequestContext_Unix (Some d)\<rparr>)"
      by (rule unix_addr.decodes_message [where fn = 6 and upd = "\<lambda>v. RequestContext_zero\<lparr>rq_ClientAddress := RequestContext_Unix (Some v)\<rparr>"]) (simp_all add: RequestContext_field_def RequestContext_zero_def d)
    then show ?thesis by (simp add: RequestContext_Unix d)
  qed
  have 2: "decodes RequestContext_field (concat (map (\<lambda>v. string_bytes [0x12] (KeyValue_bytes v)) (rq_ClientMetadata m)))
      (RequestContext_zero\<lparr>rq_ClientAddress := rq_ClientAddress m\<rparr>)
      (RequestContext_zero\<lparr>rq_ClientAddress := rq_ClientAddress m, rq_ClientMetadata := rq_ClientMetadata m\<rparr>)"
    by (rule key_value.decodes_repeated_message [where fn = 2 and upd = "\<lambda>v. RequestContext_zero\<lparr>rq_ClientAddress := rq_ClientAddress m, rq_ClientMetadata := v\<rparr>"]) (simp_all add: RequestContext_field_def RequestContext_zero_def wf)
  have 3: "decodes RequestContext_field ((case rq_SpanContext m of None \<Rightarrow> [] | Some d \<Rightarrow> string_bytes [0x0a] (SpanContext_bytes d)))
      (RequestContext_zero\<lparr>rq_ClientAddress := rq_ClientAddress m, rq_ClientMetadata := rq_ClientMetadata m\<rparr>)
      (RequestContext_zero\<lparr>rq_ClientAddress := rq_ClientAddress m, rq_ClientMetadata := rq_ClientMetadata m, rq_SpanContext := rq_SpanContext m\<rparr>)"
    by (rule span_context.decodes_optional_message [where fn = 1 and upd = "\<lambda>v. RequestContext_zero\<lparr>rq_ClientAddress := rq_ClientAddress m, rq_ClientMetadata := rq_ClientMetadata m, rq_SpanContext := v\<rparr>"]) (simp_all add: RequestContext_field_def RequestContext_zero_def wf)
  have eq: "(RequestContext_zero\<lparr>rq_ClientAddress := rq_ClientAddress m, rq_ClientMetadata := rq_ClientMetadata m, rq_SpanContext := rq_SpanContext m\<rparr>) = m"
    by (cases m) (simp add: RequestContext_zero_def)
  from decodes_append [OF decodes_append [OF 1 2] 3]
  show ?thesis unfolding eq RequestContext_bytes_def .
qed

interpretation request_context: proto_message RequestContext_SizeProto RequestContext_MarshalProto RequestContext_UnmarshalProto RequestContext_zero RequestContext_bytes RequestContext_wf
proof unfold_locales
  fix m assume wf: "RequestContext_wf m"
  then show "RequestContext_SizeProto m = length (RequestContext_bytes m)"
    unfolding RequestContext_SizeProto_def RequestContext_bytes_def RequestContext_wf_def
    by (simp add: length_if_Nil field_sizes repeated_string_size RequestContext_ClientAddress_size span_context.repeated_size span_context.size span_context.optional_size key_value.repeated_size key_value.size del: length_concat split del: if_split cong: if_cong option.case_cong)
  show "marshals (RequestContext_MarshalProto m) (RequestContext_bytes m)"
    unfolding RequestContext_MarshalProto_def RequestContext_bytes_def
    by (intro marshals_body emit) (use wf in \<open>simp_all add: RequestContext_wf_def\<close>)
  show "RequestContext_UnmarshalProto (RequestContext_bytes m) RequestContext_zero = Some (Inr m)" if "valid_buf (RequestContext_bytes m)"
    unfolding RequestContext_UnmarshalProto_def by (rule unmarshal_body_decodes [OF RequestContext_decodes [OF wf] that])
next
  fix buf and m :: RequestContext
  assume "valid_buf buf"
  then show "unmarshal_ok (RequestContext_UnmarshalProto buf m)"
    unfolding RequestContext_UnmarshalProto_def RequestContext_field_def by (intro unmarshal_body_ok reader_ok) simp_all
qed

section \<open>LogsRequest\<close>

record LogsRequest =
  wl_RequestContext :: "RequestContext option"
  wl_LogsData :: LogsData
  wl_FormatVersion :: "32 word"

definition LogsRequest_zero :: LogsRequest where
  "LogsRequest_zero = \<lparr>wl_RequestContext = None, wl_LogsData = LogsData_zero, wl_FormatVersion = 0\<rparr>"

definition LogsRequest_SizeProto :: "LogsRequest \<Rightarrow> nat" where
  "LogsRequest_SizeProto orig =
     (case wl_RequestContext orig of None \<Rightarrow> 0 | Some d \<Rightarrow> len_size 1 (RequestContext_SizeProto d))
     + len_size 1 (LogsData_SizeProto (wl_LogsData orig))
     + (if wl_FormatVersion orig \<noteq> 0 then 5 else 0)"

definition LogsRequest_MarshalProto :: "LogsRequest \<Rightarrow> marshaler" where
  "LogsRequest_MarshalProto orig = marshal_body
     ((case wl_RequestContext orig of None \<Rightarrow> [] | Some d \<Rightarrow> message_block [0x12] (RequestContext_MarshalProto d))
      @ message_block [0x1a] (LogsData_MarshalProto (wl_LogsData orig))
      @ (if wl_FormatVersion orig \<noteq> 0 then fixed_block [0x0d] 4 (ucast (wl_FormatVersion orig)) else []))"

definition LogsRequest_field :: "LogsRequest field_reader" where
  "LogsRequest_field buf fieldNum wireType pos orig =
     (if fieldNum = 2 then read_message RequestContext_UnmarshalProto RequestContext_zero (\<lambda>v. orig\<lparr>wl_RequestContext := Some v\<rparr>) buf wireType pos
      else if fieldNum = 3 then read_message LogsData_UnmarshalProto (wl_LogsData orig) (\<lambda>v. orig\<lparr>wl_LogsData := v\<rparr>) buf wireType pos
      else if fieldNum = 1 then read_i32 (\<lambda>num. orig\<lparr>wl_FormatVersion := num\<rparr>) buf wireType pos
      else read_unknown orig buf wireType pos)"

definition LogsRequest_UnmarshalProto :: "LogsRequest unmarshaler" where
  "LogsRequest_UnmarshalProto = unmarshal_body LogsRequest_field"

definition LogsRequest_bytes :: "LogsRequest \<Rightarrow> byte list" where
  "LogsRequest_bytes orig =
     (((if wl_FormatVersion orig \<noteq> 0 then fixed_bytes [0x0d] 4 (ucast (wl_FormatVersion orig)) else [])
      @ string_bytes [0x1a] (LogsData_bytes (wl_LogsData orig)))
      @ (case wl_RequestContext orig of None \<Rightarrow> [] | Some d \<Rightarrow> string_bytes [0x12] (RequestContext_bytes d)))"

definition LogsRequest_wf :: "LogsRequest \<Rightarrow> bool" where
  "LogsRequest_wf orig \<longleftrightarrow> pred_option RequestContext_wf (wl_RequestContext orig) \<and> LogsData_wf (wl_LogsData orig)"

lemma LogsRequest_decodes:
  assumes "LogsRequest_wf m"
  shows "decodes LogsRequest_field (LogsRequest_bytes m) LogsRequest_zero m"
proof -
  note wf = assms [unfolded LogsRequest_wf_def]
  have 1: "decodes LogsRequest_field ((if wl_FormatVersion m \<noteq> 0 then fixed_bytes [0x0d] 4 (ucast (wl_FormatVersion m)) else []))
      LogsRequest_zero
      (LogsRequest_zero\<lparr>wl_FormatVersion := wl_FormatVersion m\<rparr>)"
    by (rule decodes_opt_fixed32 [where fn = 1 and upd = "\<lambda>v. LogsRequest_zero\<lparr>wl_FormatVersion := v\<rparr>"]) (simp_all add: LogsRequest_field_def LogsRequest_zero_def)
  have 2: "decodes LogsRequest_field (string_bytes [0x1a] (LogsData_bytes (wl_LogsData m)))
      (LogsRequest_zero\<lparr>wl_FormatVersion := wl_FormatVersion m\<rparr>)
      (LogsRequest_zero\<lparr>wl_FormatVersion := wl_FormatVersion m, wl_LogsData := wl_LogsData m\<rparr>)"
    by (rule logs_data.decodes_message [where fn = 3 and upd = "\<lambda>v. LogsRequest_zero\<lparr>wl_FormatVersion := wl_FormatVersion m, wl_LogsData := v\<rparr>"]) (simp_all add: LogsRequest_field_def LogsRequest_zero_def wf)
  have 3: "decodes LogsRequest_field ((case wl_RequestContext m of None \<Rightarrow> [] | Some d \<Rightarrow> string_bytes [0x12] (RequestContext_bytes d)))
      (LogsRequest_zero\<lparr>wl_FormatVersion := wl_FormatVersion m, wl_LogsData := wl_LogsData m\<rparr>)
      (LogsRequest_zero\<lparr>wl_FormatVersion := wl_FormatVersion m, wl_LogsData := wl_LogsData m, wl_RequestContext := wl_RequestContext m\<rparr>)"
    by (rule request_context.decodes_optional_message [where fn = 2 and upd = "\<lambda>v. LogsRequest_zero\<lparr>wl_FormatVersion := wl_FormatVersion m, wl_LogsData := wl_LogsData m, wl_RequestContext := v\<rparr>"]) (simp_all add: LogsRequest_field_def LogsRequest_zero_def wf)
  have eq: "(LogsRequest_zero\<lparr>wl_FormatVersion := wl_FormatVersion m, wl_LogsData := wl_LogsData m, wl_RequestContext := wl_RequestContext m\<rparr>) = m"
    by (cases m) (simp add: LogsRequest_zero_def)
  from decodes_append [OF decodes_append [OF 1 2] 3]
  show ?thesis unfolding eq LogsRequest_bytes_def .
qed

interpretation logs_context_request: proto_message LogsRequest_SizeProto LogsRequest_MarshalProto LogsRequest_UnmarshalProto LogsRequest_zero LogsRequest_bytes LogsRequest_wf
proof unfold_locales
  fix m assume wf: "LogsRequest_wf m"
  then show "LogsRequest_SizeProto m = length (LogsRequest_bytes m)"
    unfolding LogsRequest_SizeProto_def LogsRequest_bytes_def LogsRequest_wf_def
    by (simp add: length_if_Nil field_sizes repeated_string_size request_context.repeated_size request_context.size request_context.optional_size logs_data.repeated_size logs_data.size del: length_concat split del: if_split cong: if_cong option.case_cong)
  show "marshals (LogsRequest_MarshalProto m) (LogsRequest_bytes m)"
    unfolding LogsRequest_MarshalProto_def LogsRequest_bytes_def
    by (intro marshals_body emit) (use wf in \<open>simp_all add: LogsRequest_wf_def\<close>)
  show "LogsRequest_UnmarshalProto (LogsRequest_bytes m) LogsRequest_zero = Some (Inr m)" if "valid_buf (LogsRequest_bytes m)"
    unfolding LogsRequest_UnmarshalProto_def by (rule unmarshal_body_decodes [OF LogsRequest_decodes [OF wf] that])
next
  fix buf and m :: LogsRequest
  assume "valid_buf buf"
  then show "unmarshal_ok (LogsRequest_UnmarshalProto buf m)"
    unfolding LogsRequest_UnmarshalProto_def LogsRequest_field_def by (intro unmarshal_body_ok reader_ok) simp_all
qed

section \<open>TracesRequest\<close>

record TracesRequest =
  wt_RequestContext :: "RequestContext option"
  wt_TracesData :: TracesData
  wt_FormatVersion :: "32 word"

definition TracesRequest_zero :: TracesRequest where
  "TracesRequest_zero = \<lparr>wt_RequestContext = None, wt_TracesData = TracesData_zero, wt_FormatVersion = 0\<rparr>"

definition TracesRequest_SizeProto :: "TracesRequest \<Rightarrow> nat" where
  "TracesRequest_SizeProto orig =
     (case wt_RequestContext orig of None \<Rightarrow> 0 | Some d \<Rightarrow> len_size 1 (RequestContext_SizeProto d))
     + len_size 1 (TracesData_SizeProto (wt_TracesData orig))
     + (if wt_FormatVersion orig \<noteq> 0 then 5 else 0)"

definition TracesRequest_MarshalProto :: "TracesRequest \<Rightarrow> marshaler" where
  "TracesRequest_MarshalProto orig = marshal_body
     ((case wt_RequestContext orig of None \<Rightarrow> [] | Some d \<Rightarrow> message_block [0x12] (RequestContext_MarshalProto d))
      @ message_block [0x1a] (TracesData_MarshalProto (wt_TracesData orig))
      @ (if wt_FormatVersion orig \<noteq> 0 then fixed_block [0x0d] 4 (ucast (wt_FormatVersion orig)) else []))"

definition TracesRequest_field :: "TracesRequest field_reader" where
  "TracesRequest_field buf fieldNum wireType pos orig =
     (if fieldNum = 2 then read_message RequestContext_UnmarshalProto RequestContext_zero (\<lambda>v. orig\<lparr>wt_RequestContext := Some v\<rparr>) buf wireType pos
      else if fieldNum = 3 then read_message TracesData_UnmarshalProto (wt_TracesData orig) (\<lambda>v. orig\<lparr>wt_TracesData := v\<rparr>) buf wireType pos
      else if fieldNum = 1 then read_i32 (\<lambda>num. orig\<lparr>wt_FormatVersion := num\<rparr>) buf wireType pos
      else read_unknown orig buf wireType pos)"

definition TracesRequest_UnmarshalProto :: "TracesRequest unmarshaler" where
  "TracesRequest_UnmarshalProto = unmarshal_body TracesRequest_field"

definition TracesRequest_bytes :: "TracesRequest \<Rightarrow> byte list" where
  "TracesRequest_bytes orig =
     (((if wt_FormatVersion orig \<noteq> 0 then fixed_bytes [0x0d] 4 (ucast (wt_FormatVersion orig)) else [])
      @ string_bytes [0x1a] (TracesData_bytes (wt_TracesData orig)))
      @ (case wt_RequestContext orig of None \<Rightarrow> [] | Some d \<Rightarrow> string_bytes [0x12] (RequestContext_bytes d)))"

definition TracesRequest_wf :: "TracesRequest \<Rightarrow> bool" where
  "TracesRequest_wf orig \<longleftrightarrow> pred_option RequestContext_wf (wt_RequestContext orig) \<and> TracesData_wf (wt_TracesData orig)"

lemma TracesRequest_decodes:
  assumes "TracesRequest_wf m"
  shows "decodes TracesRequest_field (TracesRequest_bytes m) TracesRequest_zero m"
proof -
  note wf = assms [unfolded TracesRequest_wf_def]
  have 1: "decodes TracesRequest_field ((if wt_FormatVersion m \<noteq> 0 then fixed_bytes [0x0d] 4 (ucast (wt_FormatVersion m)) else []))
      TracesRequest_zero
      (TracesRequest_zero\<lparr>wt_FormatVersion := wt_FormatVersion m\<rparr>)"
    by (rule decodes_opt_fixed32 [where fn = 1 and upd = "\<lambda>v. TracesRequest_zero\<lparr>wt_FormatVersion := v\<rparr>"]) (simp_all add: TracesRequest_field_def TracesRequest_zero_def)
  have 2: "decodes TracesRequest_field (string_bytes [0x1a] (TracesData_bytes (wt_TracesData m)))
      (TracesRequest_zero\<lparr>wt_FormatVersion := wt_FormatVersion m\<rparr>)
      (TracesRequest_zero\<lparr>wt_FormatVersion := wt_FormatVersion m, wt_TracesData := wt_TracesData m\<rparr>)"
    by (rule traces_data.decodes_message [where fn = 3 and upd = "\<lambda>v. TracesRequest_zero\<lparr>wt_FormatVersion := wt_FormatVersion m, wt_TracesData := v\<rparr>"]) (simp_all add: TracesRequest_field_def TracesRequest_zero_def wf)
  have 3: "decodes TracesRequest_field ((case wt_RequestContext m of None \<Rightarrow> [] | Some d \<Rightarrow> string_bytes [0x12] (RequestContext_bytes d)))
      (TracesRequest_zero\<lparr>wt_FormatVersion := wt_FormatVersion m, wt_TracesData := wt_TracesData m\<rparr>)
      (TracesRequest_zero\<lparr>wt_FormatVersion := wt_FormatVersion m, wt_TracesData := wt_TracesData m, wt_RequestContext := wt_RequestContext m\<rparr>)"
    by (rule request_context.decodes_optional_message [where fn = 2 and upd = "\<lambda>v. TracesRequest_zero\<lparr>wt_FormatVersion := wt_FormatVersion m, wt_TracesData := wt_TracesData m, wt_RequestContext := v\<rparr>"]) (simp_all add: TracesRequest_field_def TracesRequest_zero_def wf)
  have eq: "(TracesRequest_zero\<lparr>wt_FormatVersion := wt_FormatVersion m, wt_TracesData := wt_TracesData m, wt_RequestContext := wt_RequestContext m\<rparr>) = m"
    by (cases m) (simp add: TracesRequest_zero_def)
  from decodes_append [OF decodes_append [OF 1 2] 3]
  show ?thesis unfolding eq TracesRequest_bytes_def .
qed

interpretation traces_context_request: proto_message TracesRequest_SizeProto TracesRequest_MarshalProto TracesRequest_UnmarshalProto TracesRequest_zero TracesRequest_bytes TracesRequest_wf
proof unfold_locales
  fix m assume wf: "TracesRequest_wf m"
  then show "TracesRequest_SizeProto m = length (TracesRequest_bytes m)"
    unfolding TracesRequest_SizeProto_def TracesRequest_bytes_def TracesRequest_wf_def
    by (simp add: length_if_Nil field_sizes repeated_string_size request_context.repeated_size request_context.size request_context.optional_size traces_data.repeated_size traces_data.size del: length_concat split del: if_split cong: if_cong option.case_cong)
  show "marshals (TracesRequest_MarshalProto m) (TracesRequest_bytes m)"
    unfolding TracesRequest_MarshalProto_def TracesRequest_bytes_def
    by (intro marshals_body emit) (use wf in \<open>simp_all add: TracesRequest_wf_def\<close>)
  show "TracesRequest_UnmarshalProto (TracesRequest_bytes m) TracesRequest_zero = Some (Inr m)" if "valid_buf (TracesRequest_bytes m)"
    unfolding TracesRequest_UnmarshalProto_def by (rule unmarshal_body_decodes [OF TracesRequest_decodes [OF wf] that])
next
  fix buf and m :: TracesRequest
  assume "valid_buf buf"
  then show "unmarshal_ok (TracesRequest_UnmarshalProto buf m)"
    unfolding TracesRequest_UnmarshalProto_def TracesRequest_field_def by (intro unmarshal_body_ok reader_ok) simp_all
qed

section \<open>MetricsRequest\<close>

record MetricsRequest =
  wm_RequestContext :: "RequestContext option"
  wm_MetricsData :: MetricsData
  wm_FormatVersion :: "32 word"

definition MetricsRequest_zero :: MetricsRequest where
  "MetricsRequest_zero = \<lparr>wm_RequestContext = None, wm_MetricsData = MetricsData_zero, wm_FormatVersion = 0\<rparr>"

definition MetricsRequest_SizeProto :: "MetricsRequest \<Rightarrow> nat" where
  "MetricsRequest_SizeProto orig =
     (case wm_RequestContext orig of None \<Rightarrow> 0 | Some d \<Rightarrow> len_size 1 (RequestContext_SizeProto d))
     + len_size 1 (MetricsData_SizeProto (wm_MetricsData orig))
     + (if wm_FormatVersion orig \<noteq> 0 then 5 else 0)"

definition MetricsRequest_MarshalProto :: "MetricsRequest \<Rightarrow> marshaler" where
  "MetricsRequest_MarshalProto orig = marshal_body
     ((case wm_RequestContext orig of None \<Rightarrow> [] | Some d \<Rightarrow> message_block [0x12] (RequestContext_MarshalProto d))
      @ message_block [0x1a] (MetricsData_MarshalProto (wm_MetricsData orig))
      @ (if wm_FormatVersion orig \<noteq> 0 then fixed_block [0x0d] 4 (ucast (wm_FormatVersion orig)) else []))"

definition MetricsRequest_field :: "MetricsRequest field_reader" where
  "MetricsRequest_field buf fieldNum wireType pos orig =
     (if fieldNum = 2 then read_message RequestContext_UnmarshalProto RequestContext_zero (\<lambda>v. orig\<lparr>wm_RequestContext := Some v\<rparr>) buf wireType pos
      else if fieldNum = 3 then read_message MetricsData_UnmarshalProto (wm_MetricsData orig) (\<lambda>v. orig\<lparr>wm_MetricsData := v\<rparr>) buf wireType pos
      else if fieldNum = 1 then read_i32 (\<lambda>num. orig\<lparr>wm_FormatVersion := num\<rparr>) buf wireType pos
      else read_unknown orig buf wireType pos)"

definition MetricsRequest_UnmarshalProto :: "MetricsRequest unmarshaler" where
  "MetricsRequest_UnmarshalProto = unmarshal_body MetricsRequest_field"

definition MetricsRequest_bytes :: "MetricsRequest \<Rightarrow> byte list" where
  "MetricsRequest_bytes orig =
     (((if wm_FormatVersion orig \<noteq> 0 then fixed_bytes [0x0d] 4 (ucast (wm_FormatVersion orig)) else [])
      @ string_bytes [0x1a] (MetricsData_bytes (wm_MetricsData orig)))
      @ (case wm_RequestContext orig of None \<Rightarrow> [] | Some d \<Rightarrow> string_bytes [0x12] (RequestContext_bytes d)))"

definition MetricsRequest_wf :: "MetricsRequest \<Rightarrow> bool" where
  "MetricsRequest_wf orig \<longleftrightarrow> pred_option RequestContext_wf (wm_RequestContext orig) \<and> MetricsData_wf (wm_MetricsData orig)"

lemma MetricsRequest_decodes:
  assumes "MetricsRequest_wf m"
  shows "decodes MetricsRequest_field (MetricsRequest_bytes m) MetricsRequest_zero m"
proof -
  note wf = assms [unfolded MetricsRequest_wf_def]
  have 1: "decodes MetricsRequest_field ((if wm_FormatVersion m \<noteq> 0 then fixed_bytes [0x0d] 4 (ucast (wm_FormatVersion m)) else []))
      MetricsRequest_zero
      (MetricsRequest_zero\<lparr>wm_FormatVersion := wm_FormatVersion m\<rparr>)"
    by (rule decodes_opt_fixed32 [where fn = 1 and upd = "\<lambda>v. MetricsRequest_zero\<lparr>wm_FormatVersion := v\<rparr>"]) (simp_all add: MetricsRequest_field_def MetricsRequest_zero_def)
  have 2: "decodes MetricsRequest_field (string_bytes [0x1a] (MetricsData_bytes (wm_MetricsData m)))
      (MetricsRequest_zero\<lparr>wm_FormatVersion := wm_FormatVersion m\<rparr>)
      (MetricsRequest_zero\<lparr>wm_FormatVersion := wm_FormatVersion m, wm_MetricsData := wm_MetricsData m\<rparr>)"
    by (rule metrics_data_message.decodes_message [where fn = 3 and upd = "\<lambda>v. MetricsRequest_zero\<lparr>wm_FormatVersion := wm_FormatVersion m, wm_MetricsData := v\<rparr>"]) (simp_all add: MetricsRequest_field_def MetricsRequest_zero_def wf)
  have 3: "decodes MetricsRequest_field ((case wm_RequestContext m of None \<Rightarrow> [] | Some d \<Rightarrow> string_bytes [0x12] (RequestContext_bytes d)))
      (MetricsRequest_zero\<lparr>wm_FormatVersion := wm_FormatVersion m, wm_MetricsData := wm_MetricsData m\<rparr>)
      (MetricsRequest_zero\<lparr>wm_FormatVersion := wm_FormatVersion m, wm_MetricsData := wm_MetricsData m, wm_RequestContext := wm_RequestContext m\<rparr>)"
    by (rule request_context.decodes_optional_message [where fn = 2 and upd = "\<lambda>v. MetricsRequest_zero\<lparr>wm_FormatVersion := wm_FormatVersion m, wm_MetricsData := wm_MetricsData m, wm_RequestContext := v\<rparr>"]) (simp_all add: MetricsRequest_field_def MetricsRequest_zero_def wf)
  have eq: "(MetricsRequest_zero\<lparr>wm_FormatVersion := wm_FormatVersion m, wm_MetricsData := wm_MetricsData m, wm_RequestContext := wm_RequestContext m\<rparr>) = m"
    by (cases m) (simp add: MetricsRequest_zero_def)
  from decodes_append [OF decodes_append [OF 1 2] 3]
  show ?thesis unfolding eq MetricsRequest_bytes_def .
qed

interpretation metrics_context_request: proto_message MetricsRequest_SizeProto MetricsRequest_MarshalProto MetricsRequest_UnmarshalProto MetricsRequest_zero MetricsRequest_bytes MetricsRequest_wf
proof unfold_locales
  fix m assume wf: "MetricsRequest_wf m"
  then show "MetricsRequest_SizeProto m = length (MetricsRequest_bytes m)"
    unfolding MetricsRequest_SizeProto_def MetricsRequest_bytes_def MetricsRequest_wf_def
    by (simp add: length_if_Nil field_sizes repeated_string_size request_context.repeated_size request_context.size request_context.optional_size metrics_data_message.repeated_size metrics_data_message.size del: length_concat split del: if_split cong: if_cong option.case_cong)
  show "marshals (MetricsRequest_MarshalProto m) (MetricsRequest_bytes m)"
    unfolding MetricsRequest_MarshalProto_def MetricsRequest_bytes_def
    by (intro marshals_body emit) (use wf in \<open>simp_all add: MetricsRequest_wf_def\<close>)
  show "MetricsRequest_UnmarshalProto (MetricsRequest_bytes m) MetricsRequest_zero = Some (Inr m)" if "valid_buf (MetricsRequest_bytes m)"
    unfolding MetricsRequest_UnmarshalProto_def by (rule unmarshal_body_decodes [OF MetricsRequest_decodes [OF wf] that])
next
  fix buf and m :: MetricsRequest
  assume "valid_buf buf"
  then show "unmarshal_ok (MetricsRequest_UnmarshalProto buf m)"
    unfolding MetricsRequest_UnmarshalProto_def MetricsRequest_field_def by (intro unmarshal_body_ok reader_ok) simp_all
qed

section \<open>ProfilesRequest\<close>

record ProfilesRequest =
  wp_RequestContext :: "RequestContext option"
  wp_ProfilesData :: ProfilesData
  wp_FormatVersion :: "32 word"

definition ProfilesRequest_zero :: ProfilesRequest where
  "ProfilesRequest_zero = \<lparr>wp_RequestContext = None, wp_ProfilesData = ProfilesData_zero, wp_FormatVersion = 0\<rparr>"

definition ProfilesRequest_SizeProto :: "ProfilesRequest \<Rightarrow> nat" where
  "ProfilesRequest_SizeProto orig =
     (case wp_RequestContext orig of None \<Rightarrow> 0 | Some d \<Rightarrow> len_size 1 (RequestContext_SizeProto d))
     + len_size 1 (ProfilesData_SizeProto (wp_ProfilesData orig))
     + (if wp_FormatVersion orig \<noteq> 0 then 5 else 0)"

definition ProfilesRequest_MarshalProto :: "ProfilesRequest \<Rightarrow> marshaler" where
  "ProfilesRequest_MarshalProto orig = marshal_body
     ((case wp_RequestContext orig of None \<Rightarrow> [] | Some d \<Rightarrow> message_block [0x12] (RequestContext_MarshalProto d))
      @ message_block [0x1a] (ProfilesData_MarshalProto (wp_ProfilesData orig))
      @ (if wp_FormatVersion orig \<noteq> 0 then fixed_block [0x0d] 4 (ucast (wp_FormatVersion orig)) else []))"

definition ProfilesRequest_field :: "ProfilesRequest field_reader" where
  "ProfilesRequest_field buf fieldNum wireType pos orig =
     (if fieldNum = 2 then read_message RequestContext_UnmarshalProto RequestContext_zero (\<lambda>v. orig\<lparr>wp_RequestContext := Some v\<rparr>) buf wireType pos
      else if fieldNum = 3 then read_message ProfilesData_UnmarshalProto (wp_ProfilesData orig) (\<lambda>v. orig\<lparr>wp_ProfilesData := v\<rparr>) buf wireType pos
      else if fieldNum = 1 then read_i32 (\<lambda>num. orig\<lparr>wp_FormatVersion := num\<rparr>) buf wireType pos
      else read_unknown orig buf wireType pos)"

definition ProfilesRequest_UnmarshalProto :: "ProfilesRequest unmarshaler" where
  "ProfilesRequest_UnmarshalProto = unmarshal_body ProfilesRequest_field"

definition ProfilesRequest_bytes :: "ProfilesRequest \<Rightarrow> byte list" where
  "ProfilesRequest_bytes orig =
     (((if wp_FormatVersion orig \<noteq> 0 then fixed_bytes [0x0d] 4 (ucast (wp_FormatVersion orig)) else [])
      @ string_bytes [0x1a] (ProfilesData_bytes (wp_ProfilesData orig)))
      @ (case wp_RequestContext orig of None \<Rightarrow> [] | Some d \<Rightarrow> string_bytes [0x12] (RequestContext_bytes d)))"

definition ProfilesRequest_wf :: "ProfilesRequest \<Rightarrow> bool" where
  "ProfilesRequest_wf orig \<longleftrightarrow> pred_option RequestContext_wf (wp_RequestContext orig) \<and> ProfilesData_wf (wp_ProfilesData orig)"

lemma ProfilesRequest_decodes:
  assumes "ProfilesRequest_wf m"
  shows "decodes ProfilesRequest_field (ProfilesRequest_bytes m) ProfilesRequest_zero m"
proof -
  note wf = assms [unfolded ProfilesRequest_wf_def]
  have 1: "decodes ProfilesRequest_field ((if wp_FormatVersion m \<noteq> 0 then fixed_bytes [0x0d] 4 (ucast (wp_FormatVersion m)) else []))
      ProfilesRequest_zero
      (ProfilesRequest_zero\<lparr>wp_FormatVersion := wp_FormatVersion m\<rparr>)"
    by (rule decodes_opt_fixed32 [where fn = 1 and upd = "\<lambda>v. ProfilesRequest_zero\<lparr>wp_FormatVersion := v\<rparr>"]) (simp_all add: ProfilesRequest_field_def ProfilesRequest_zero_def)
  have 2: "decodes ProfilesRequest_field (string_bytes [0x1a] (ProfilesData_bytes (wp_ProfilesData m)))
      (ProfilesRequest_zero\<lparr>wp_FormatVersion := wp_FormatVersion m\<rparr>)
      (ProfilesRequest_zero\<lparr>wp_FormatVersion := wp_FormatVersion m, wp_ProfilesData := wp_ProfilesData m\<rparr>)"
    by (rule profiles_data_message.decodes_message [where fn = 3 and upd = "\<lambda>v. ProfilesRequest_zero\<lparr>wp_FormatVersion := wp_FormatVersion m, wp_ProfilesData := v\<rparr>"]) (simp_all add: ProfilesRequest_field_def ProfilesRequest_zero_def wf)
  have 3: "decodes ProfilesRequest_field ((case wp_RequestContext m of None \<Rightarrow> [] | Some d \<Rightarrow> string_bytes [0x12] (RequestContext_bytes d)))
      (ProfilesRequest_zero\<lparr>wp_FormatVersion := wp_FormatVersion m, wp_ProfilesData := wp_ProfilesData m\<rparr>)
      (ProfilesRequest_zero\<lparr>wp_FormatVersion := wp_FormatVersion m, wp_ProfilesData := wp_ProfilesData m, wp_RequestContext := wp_RequestContext m\<rparr>)"
    by (rule request_context.decodes_optional_message [where fn = 2 and upd = "\<lambda>v. ProfilesRequest_zero\<lparr>wp_FormatVersion := wp_FormatVersion m, wp_ProfilesData := wp_ProfilesData m, wp_RequestContext := v\<rparr>"]) (simp_all add: ProfilesRequest_field_def ProfilesRequest_zero_def wf)
  have eq: "(ProfilesRequest_zero\<lparr>wp_FormatVersion := wp_FormatVersion m, wp_ProfilesData := wp_ProfilesData m, wp_RequestContext := wp_RequestContext m\<rparr>) = m"
    by (cases m) (simp add: ProfilesRequest_zero_def)
  from decodes_append [OF decodes_append [OF 1 2] 3]
  show ?thesis unfolding eq ProfilesRequest_bytes_def .
qed

interpretation profiles_context_request: proto_message ProfilesRequest_SizeProto ProfilesRequest_MarshalProto ProfilesRequest_UnmarshalProto ProfilesRequest_zero ProfilesRequest_bytes ProfilesRequest_wf
proof unfold_locales
  fix m assume wf: "ProfilesRequest_wf m"
  then show "ProfilesRequest_SizeProto m = length (ProfilesRequest_bytes m)"
    unfolding ProfilesRequest_SizeProto_def ProfilesRequest_bytes_def ProfilesRequest_wf_def
    by (simp add: length_if_Nil field_sizes repeated_string_size request_context.repeated_size request_context.size request_context.optional_size profiles_data_message.repeated_size profiles_data_message.size del: length_concat split del: if_split cong: if_cong option.case_cong)
  show "marshals (ProfilesRequest_MarshalProto m) (ProfilesRequest_bytes m)"
    unfolding ProfilesRequest_MarshalProto_def ProfilesRequest_bytes_def
    by (intro marshals_body emit) (use wf in \<open>simp_all add: ProfilesRequest_wf_def\<close>)
  show "ProfilesRequest_UnmarshalProto (ProfilesRequest_bytes m) ProfilesRequest_zero = Some (Inr m)" if "valid_buf (ProfilesRequest_bytes m)"
    unfolding ProfilesRequest_UnmarshalProto_def by (rule unmarshal_body_decodes [OF ProfilesRequest_decodes [OF wf] that])
next
  fix buf and m :: ProfilesRequest
  assume "valid_buf buf"
  then show "unmarshal_ok (ProfilesRequest_UnmarshalProto buf m)"
    unfolding ProfilesRequest_UnmarshalProto_def ProfilesRequest_field_def by (intro unmarshal_body_ok reader_ok) simp_all
qed

end
