(* ===== verification/NegativeZero.thy ===== *)
theory NegativeZero
  imports ProtoMetrics
begin

text \<open>
  What the codec of the metrics does to a negative zero. Three kinds of floating point fields have no
  presence bit: the quantile and the value of a \<open>SummaryDataPointValueAtQuantile\<close>, the sum of a
  \<open>SummaryDataPoint\<close> and the zero threshold of an \<open>ExponentialHistogramDataPoint\<close>. The generated code
  writes them when they are \<open>!= 0\<close>, which a negative zero is not, so it is dropped and comes back as
  zero. \<open>plain_metrics\<close> is a batch with the negative zeros of these fields made zeros: the lemmas show
  that it has the size and the bytes of the batch itself, and that it is the batch itself when the batch
  has no such field. The fields that carry a presence bit or stand in a oneof or a packed list keep
  their negative zeros.
\<close>

definition plain_zero :: "u64 \<Rightarrow> u64" where
  "plain_zero bits = (if bits = 0x8000000000000000 then 0 else bits)"

lemma plain_zero_float [simp]: "nonzero_float (plain_zero bits) = nonzero_float bits"
  by (simp add: plain_zero_def nonzero_float_def)

lemma plain_zero_kept: "nonzero_float bits \<Longrightarrow> plain_zero bits = bits"
  by (simp add: plain_zero_def nonzero_float_def)

lemma plain_zero_id: "bits \<noteq> 0x8000000000000000 \<Longrightarrow> plain_zero bits = bits"
  by (simp add: plain_zero_def)

lemma plain_zero_not_negative [simp]: "plain_zero bits \<noteq> 0x8000000000000000"
  by (simp add: plain_zero_def)

section \<open>Points\<close>

definition plain_quantile :: "SummaryDataPointValueAtQuantile \<Rightarrow> SummaryDataPointValueAtQuantile" where
  "plain_quantile q = q\<lparr>qv_Quantile := plain_zero (qv_Quantile q), qv_Value := plain_zero (qv_Value q)\<rparr>"

definition plain_summary_point :: "SummaryDataPoint \<Rightarrow> SummaryDataPoint" where
  "plain_summary_point p =
     p\<lparr>yp_Sum := plain_zero (yp_Sum p), yp_QuantileValues := map plain_quantile (yp_QuantileValues p)\<rparr>"

definition plain_exponential_point :: "ExponentialHistogramDataPoint \<Rightarrow> ExponentialHistogramDataPoint" where
  "plain_exponential_point p = p\<lparr>ep_ZeroThreshold := plain_zero (ep_ZeroThreshold p)\<rparr>"

named_theorems plain_same \<open>size and bytes of the message with its negative zeros made zeros\<close>
named_theorems plain_fixed \<open>a message without such negative zeros stays as it is\<close>

lemma plain_quantile_same [plain_same]:
  "SummaryDataPointValueAtQuantile_SizeProto (plain_quantile q) = SummaryDataPointValueAtQuantile_SizeProto q"
  "SummaryDataPointValueAtQuantile_MarshalProto (plain_quantile q) = SummaryDataPointValueAtQuantile_MarshalProto q"
  by (simp_all add: plain_quantile_def SummaryDataPointValueAtQuantile_SizeProto_def
      SummaryDataPointValueAtQuantile_MarshalProto_def plain_zero_kept cong: if_cong)

lemma plain_quantile_wf: "SummaryDataPointValueAtQuantile_wf (plain_quantile q)"
  by (simp add: plain_quantile_def SummaryDataPointValueAtQuantile_wf_def)

lemma plain_quantile_fixed [plain_fixed]: "SummaryDataPointValueAtQuantile_wf q \<Longrightarrow> plain_quantile q = q"
  by (cases q) (simp add: plain_quantile_def SummaryDataPointValueAtQuantile_wf_def plain_zero_id)

lemma plain_summary_point_same [plain_same]:
  "SummaryDataPoint_SizeProto (plain_summary_point p) = SummaryDataPoint_SizeProto p"
  "SummaryDataPoint_MarshalProto (plain_summary_point p) = SummaryDataPoint_MarshalProto p"
  by (simp_all add: plain_summary_point_def SummaryDataPoint_SizeProto_def SummaryDataPoint_MarshalProto_def
      plain_zero_kept plain_same rev_map comp_def cong: if_cong)

lemma plain_summary_point_fixed [plain_fixed]: "SummaryDataPoint_wf p \<Longrightarrow> plain_summary_point p = p"
  by (cases p) (auto simp: plain_summary_point_def SummaryDataPoint_wf_def plain_zero_id list_all_iff
      intro!: map_idI plain_fixed)

lemma plain_exponential_point_same [plain_same]:
  "ExponentialHistogramDataPoint_SizeProto (plain_exponential_point p) = ExponentialHistogramDataPoint_SizeProto p"
  "ExponentialHistogramDataPoint_MarshalProto (plain_exponential_point p) = ExponentialHistogramDataPoint_MarshalProto p"
  by (simp_all add: plain_exponential_point_def ExponentialHistogramDataPoint_SizeProto_def
      ExponentialHistogramDataPoint_MarshalProto_def ExponentialHistogramDataPoint_HasSum_def
      ExponentialHistogramDataPoint_HasMin_def ExponentialHistogramDataPoint_HasMax_def plain_zero_kept cong: if_cong)

lemma plain_exponential_point_fixed [plain_fixed]:
  "ExponentialHistogramDataPoint_wf p \<Longrightarrow> plain_exponential_point p = p"
  by (cases p) (simp add: plain_exponential_point_def ExponentialHistogramDataPoint_wf_def plain_zero_id)

section \<open>Metrics\<close>

fun plain_data :: "Metric_Data \<Rightarrow> Metric_Data" where
  "plain_data (Metric_ExponentialHistogram v) = Metric_ExponentialHistogram
     (map_option (\<lambda>d. d\<lparr>eh_DataPoints := map plain_exponential_point (eh_DataPoints d)\<rparr>) v)"
| "plain_data (Metric_Summary v) = Metric_Summary
     (map_option (\<lambda>d. d\<lparr>sy_DataPoints := map plain_summary_point (sy_DataPoints d)\<rparr>) v)"
| "plain_data d = d"

definition plain_metric :: "Metric \<Rightarrow> Metric" where
  "plain_metric m = m\<lparr>me_Data := plain_data (me_Data m)\<rparr>"

definition plain_scope :: "ScopeMetrics \<Rightarrow> ScopeMetrics" where
  "plain_scope sm = sm\<lparr>sm_Metrics := map plain_metric (sm_Metrics sm)\<rparr>"

definition plain_resource :: "ResourceMetrics \<Rightarrow> ResourceMetrics" where
  "plain_resource rm = rm\<lparr>rc_ScopeMetrics := map plain_scope (rc_ScopeMetrics rm),
     rc_DeprecatedScopeMetrics := map plain_scope (rc_DeprecatedScopeMetrics rm)\<rparr>"

definition plain_metrics :: "ExportMetricsServiceRequest \<Rightarrow> ExportMetricsServiceRequest" where
  "plain_metrics md = md\<lparr>mq_ResourceMetrics := map plain_resource (mq_ResourceMetrics md)\<rparr>"

lemma plain_data_same [plain_same]:
  "Metric_Data_SizeProto (plain_data d) = Metric_Data_SizeProto d"
  "Metric_Data_MarshalProto (plain_data d) = Metric_Data_MarshalProto d"
  by (cases d; simp add: ExponentialHistogram_SizeProto_def ExponentialHistogram_MarshalProto_def Summary_SizeProto_def
      Summary_MarshalProto_def plain_same rev_map comp_def split: option.split)+

lemma plain_data_fixed [plain_fixed]: "Metric_Data_wf d \<Longrightarrow> plain_data d = d"
proof (cases d rule: plain_data.cases)
  case (1 v)
  assume "Metric_Data_wf d"
  with 1 obtain h where h: "v = Some h" "ExponentialHistogram_wf h" by (auto split: option.splits)
  then have "map plain_exponential_point (eh_DataPoints h) = eh_DataPoints h"
    by (auto simp: ExponentialHistogram_wf_def list_all_iff intro!: map_idI plain_fixed)
  with 1 h(1) show ?thesis by simp
next
  case (2 v)
  assume "Metric_Data_wf d"
  with 2 obtain s where s: "v = Some s" "Summary_wf s" by (auto split: option.splits)
  then have "map plain_summary_point (sy_DataPoints s) = sy_DataPoints s"
    by (auto simp: Summary_wf_def list_all_iff intro!: map_idI plain_fixed)
  with 2 s(1) show ?thesis by simp
qed simp_all

lemma plain_metric_same [plain_same]:
  "Metric_SizeProto (plain_metric m) = Metric_SizeProto m"
  "Metric_MarshalProto (plain_metric m) = Metric_MarshalProto m"
  by (simp_all add: plain_metric_def Metric_SizeProto_def Metric_MarshalProto_def plain_same)

lemma plain_metric_fixed [plain_fixed]: "Metric_wf m \<Longrightarrow> plain_metric m = m"
  by (cases m) (simp add: plain_metric_def Metric_wf_def plain_fixed)

lemma plain_scope_same [plain_same]:
  "ScopeMetrics_SizeProto (plain_scope sm) = ScopeMetrics_SizeProto sm"
  "ScopeMetrics_MarshalProto (plain_scope sm) = ScopeMetrics_MarshalProto sm"
  by (simp_all add: plain_scope_def ScopeMetrics_SizeProto_def ScopeMetrics_MarshalProto_def plain_same rev_map comp_def)

lemma plain_scope_fixed [plain_fixed]: "ScopeMetrics_wf sm \<Longrightarrow> plain_scope sm = sm"
  by (cases sm) (auto simp: plain_scope_def ScopeMetrics_wf_def list_all_iff intro!: map_idI plain_fixed)

lemma plain_resource_same [plain_same]:
  "ResourceMetrics_SizeProto (plain_resource rm) = ResourceMetrics_SizeProto rm"
  "ResourceMetrics_MarshalProto (plain_resource rm) = ResourceMetrics_MarshalProto rm"
  by (simp_all add: plain_resource_def ResourceMetrics_SizeProto_def ResourceMetrics_MarshalProto_def plain_same
      rev_map comp_def)

lemma plain_resource_fixed [plain_fixed]: "ResourceMetrics_wf rm \<Longrightarrow> plain_resource rm = rm"
  by (cases rm) (auto simp: plain_resource_def ResourceMetrics_wf_def list_all_iff intro!: map_idI plain_fixed)

lemma plain_metrics_same [plain_same]:
  "ExportMetricsServiceRequest_SizeProto (plain_metrics md) = ExportMetricsServiceRequest_SizeProto md"
  "ExportMetricsServiceRequest_MarshalProto (plain_metrics md) = ExportMetricsServiceRequest_MarshalProto md"
  by (simp_all add: plain_metrics_def ExportMetricsServiceRequest_SizeProto_def
      ExportMetricsServiceRequest_MarshalProto_def plain_same rev_map comp_def)

lemma plain_metrics_fixed: "ExportMetricsServiceRequest_wf md \<Longrightarrow> plain_metrics md = md"
  by (cases md) (auto simp: plain_metrics_def ExportMetricsServiceRequest_wf_def list_all_iff intro!: map_idI plain_fixed)

lemma plain_metrics_Marshal:
  "MetricsSize (plain_metrics md) = MetricsSize md"
  "MarshalMetrics (plain_metrics md) = MarshalMetrics md"
  by (simp_all add: MetricsSize_def MarshalMetrics_def plain_same)

lemma metrics_marshal_plain:
  assumes "ExportMetricsServiceRequest_wf (plain_metrics md)" "int (MetricsSize md) \<le> max_i64"
  obtains buf where "MarshalMetrics md = Inr buf" "length buf = MetricsSize md"
    "UnmarshalMetrics buf = Some (Inr (plain_metrics md))"
  by (rule metrics_marshal_unmarshal [OF assms(1)]) (use assms(2) in \<open>simp_all add: plain_metrics_Marshal\<close>)

text \<open>A summary with a sum of minus zero: its batch is well formed only with the zero made plain.\<close>

definition negative_zero_metrics :: ExportMetricsServiceRequest where
  "negative_zero_metrics = \<lparr>mq_ResourceMetrics = [ResourceMetrics_zero\<lparr>rc_ScopeMetrics :=
     [ScopeMetrics_zero\<lparr>sm_Metrics := [Metric_zero\<lparr>me_Data := Metric_Summary (Some (Summary_zero\<lparr>sy_DataPoints :=
       [SummaryDataPoint_zero\<lparr>yp_Sum := 0x8000000000000000\<rparr>]\<rparr>))\<rparr>]\<rparr>]\<rparr>]\<rparr>"

lemma negative_zero_plain: "ExportMetricsServiceRequest_wf (plain_metrics negative_zero_metrics)"
  "plain_metrics negative_zero_metrics \<noteq> negative_zero_metrics"
  by (simp_all add: negative_zero_metrics_def plain_metrics_def plain_resource_def plain_scope_def plain_metric_def
      plain_summary_point_def plain_zero_def ExportMetricsServiceRequest_wf_def ResourceMetrics_wf_def
      ResourceMetrics_zero_def ScopeMetrics_wf_def ScopeMetrics_zero_def Metric_wf_def Metric_zero_def Summary_wf_def
      Summary_zero_def SummaryDataPoint_wf_def SummaryDataPoint_zero_def Resource_wf_def Resource_zero_def
      InstrumentationScope_wf_def InstrumentationScope_zero_def)

lemma negative_zero_size: "int (MetricsSize negative_zero_metrics) \<le> max_i64"
proof -
  have e: "Resource_SizeProto Resource_zero = 0" "InstrumentationScope_SizeProto InstrumentationScope_zero = 0"
    by (simp_all add: Resource_SizeProto_def Resource_zero_def InstrumentationScope_SizeProto_def InstrumentationScope_zero_def)
  let ?m = "Metric_zero\<lparr>me_Data := Metric_Summary (Some (Summary_zero\<lparr>sy_DataPoints :=
       [SummaryDataPoint_zero\<lparr>yp_Sum := 0x8000000000000000\<rparr>]\<rparr>))\<rparr>"
  let ?s = "ScopeMetrics_zero\<lparr>sm_Metrics := [?m]\<rparr>"
  let ?r = "ResourceMetrics_zero\<lparr>rc_ScopeMetrics := [?s]\<rparr>"
  have "SummaryDataPoint_SizeProto (SummaryDataPoint_zero\<lparr>yp_Sum := 0x8000000000000000\<rparr>) = 0"
    by (simp add: SummaryDataPoint_SizeProto_def SummaryDataPoint_zero_def nonzero_float_def)
  then have "Metric_SizeProto ?m = 4"
    by (simp add: Metric_SizeProto_def Metric_zero_def Summary_SizeProto_def Summary_zero_def Sov_small)
  then have "ScopeMetrics_SizeProto ?s = 8"
    by (simp add: ScopeMetrics_SizeProto_def ScopeMetrics_zero_def e Sov_small)
  then have "ResourceMetrics_SizeProto ?r = 12"
    by (simp add: ResourceMetrics_SizeProto_def ResourceMetrics_zero_def e Sov_small)
  then show ?thesis
    by (simp add: negative_zero_metrics_def MetricsSize_def ExportMetricsServiceRequest_SizeProto_def Sov_small max_i64_def)
qed

end
