(* ===== verification/Codecs.thy ===== *)
theory Codecs
  imports ProtoLogs ProtoTraces NegativeZero
begin

text \<open>
  The codecs of the signals together: what \<open>ProtoMarshaler\<close> and \<open>ProtoUnmarshaler\<close> of pdata/plog,
  pdata/ptrace and pdata/pmetric promise to the exporters, the receivers and the persistent queue.
\<close>

text \<open>
  C17. Encoding and decoding a batch is the identity for logs and traces, and for metrics up to the
  negative zeros the codec does not keep: \<open>MarshalLogs\<close>, \<open>MarshalTraces\<close> and \<open>MarshalMetrics\<close> do not
  panic and fill a buffer of exactly the announced size; the unmarshalers give the same logs and traces
  back and, for metrics, \<open>plain_metrics md\<close>: the same batch with every resource, scope, data point,
  bucket, exemplar, attribute (nested values included) and identifier, in which a negative zero in the
  sum of a summary point, in a quantile or its value, or in the zero threshold of an exponential
  histogram point has become zero (\<open>plain_metrics md = md\<close> for a batch without one). The export requests
  of traces and metrics decode the same bytes to the migrated batch, which has no deprecated scopes. The
  batches are well formed: trace and span identifiers of 16 and 8 bytes, a set oneof holds a message
  (no typed nil), a value without its presence bit is zero, as the setters leave it; their encoding fits
  an int.
\<close>

theorem signals_roundtrip:
  assumes "ExportLogsServiceRequest_wf ld" and "int (LogsSize ld) \<le> max_i64"
    and "ExportTraceServiceRequest_wf td" and "int (TracesSize td) \<le> max_i64"
    and "ExportMetricsServiceRequest_wf (plain_metrics md)" and "int (MetricsSize md) \<le> max_i64"
  shows "(\<exists>buf. MarshalLogs ld = Inr buf \<and> length buf = LogsSize ld \<and> UnmarshalLogs buf = Some (Inr ld)) \<and>
    (\<exists>buf. MarshalTraces td = Inr buf \<and> length buf = TracesSize td \<and> UnmarshalTraces buf = Some (Inr td) \<and>
      ExportTraces_UnmarshalProto buf ExportTraceServiceRequest_zero =
        Some (Inr (td\<lparr>tq_ResourceSpans := MigrateTraces (tq_ResourceSpans td)\<rparr>)) \<and>
      list_all (\<lambda>rs. rp_DeprecatedScopeSpans rs = []) (MigrateTraces (tq_ResourceSpans td))) \<and>
    (\<exists>buf. MarshalMetrics md = Inr buf \<and> length buf = MetricsSize md \<and> UnmarshalMetrics buf = Some (Inr (plain_metrics md)) \<and>
      ExportMetrics_UnmarshalProto buf ExportMetricsServiceRequest_zero =
        Some (Inr (md\<lparr>mq_ResourceMetrics := MigrateMetrics (mq_ResourceMetrics (plain_metrics md))\<rparr>)) \<and>
      list_all (\<lambda>rm. rc_DeprecatedScopeMetrics rm = []) (MigrateMetrics (mq_ResourceMetrics (plain_metrics md)))) \<and>
    (ExportMetricsServiceRequest_wf md \<longrightarrow> plain_metrics md = md)"
proof (intro conjI)
  show "\<exists>buf. MarshalLogs ld = Inr buf \<and> length buf = LogsSize ld \<and> UnmarshalLogs buf = Some (Inr ld)"
    by (rule logs_marshal_unmarshal [OF assms(1,2)]) blast
  obtain buf where "MarshalTraces td = Inr buf" "length buf = TracesSize td" "UnmarshalTraces buf = Some (Inr td)"
    by (rule traces_marshal_unmarshal [OF assms(3,4)])
  then show "\<exists>buf. MarshalTraces td = Inr buf \<and> length buf = TracesSize td \<and> UnmarshalTraces buf = Some (Inr td) \<and>
      ExportTraces_UnmarshalProto buf ExportTraceServiceRequest_zero =
        Some (Inr (td\<lparr>tq_ResourceSpans := MigrateTraces (tq_ResourceSpans td)\<rparr>)) \<and>
      list_all (\<lambda>rs. rp_DeprecatedScopeSpans rs = []) (MigrateTraces (tq_ResourceSpans td))"
    by (intro exI [of _ buf]) (simp add: ExportTraces_UnmarshalProto_def UnmarshalTraces_def MigrateTraces_def list_all_iff)
  obtain buf where "MarshalMetrics md = Inr buf" "length buf = MetricsSize md" "UnmarshalMetrics buf = Some (Inr (plain_metrics md))"
    by (rule metrics_marshal_plain [OF assms(5,6)])
  then show "\<exists>buf. MarshalMetrics md = Inr buf \<and> length buf = MetricsSize md \<and> UnmarshalMetrics buf = Some (Inr (plain_metrics md)) \<and>
      ExportMetrics_UnmarshalProto buf ExportMetricsServiceRequest_zero =
        Some (Inr (md\<lparr>mq_ResourceMetrics := MigrateMetrics (mq_ResourceMetrics (plain_metrics md))\<rparr>)) \<and>
      list_all (\<lambda>rm. rc_DeprecatedScopeMetrics rm = []) (MigrateMetrics (mq_ResourceMetrics (plain_metrics md)))"
    by (intro exI [of _ buf]) (simp add: ExportMetrics_UnmarshalProto_def UnmarshalMetrics_def MigrateMetrics_def list_all_iff)
  show "ExportMetricsServiceRequest_wf md \<longrightarrow> plain_metrics md = md" by (simp add: plain_metrics_fixed)
qed

theorem signals_roundtrip_witness:
  "(\<exists>buf. MarshalLogs (demo_logs False) = Inr buf \<and> UnmarshalLogs buf = Some (Inr (demo_logs False))) \<and>
   (\<exists>buf. MarshalTraces demo_traces = Inr buf \<and> UnmarshalTraces buf = Some (Inr demo_traces)) \<and>
   (\<exists>buf. MarshalMetrics demo_metrics = Inr buf \<and> UnmarshalMetrics buf = Some (Inr demo_metrics)) \<and>
   (\<exists>buf. MarshalMetrics negative_zero_metrics = Inr buf \<and>
      UnmarshalMetrics buf = Some (Inr (plain_metrics negative_zero_metrics))) \<and>
   plain_metrics negative_zero_metrics \<noteq> negative_zero_metrics"
proof -
  have "plain_metrics demo_metrics = demo_metrics" by (rule plain_metrics_fixed [OF demo_metrics_wf])
  then have "ExportMetricsServiceRequest_wf (plain_metrics demo_metrics)" using demo_metrics_wf by simp
  from signals_roundtrip [OF demo_logs_wf demo_logs_size demo_traces_wf demo_traces_size this demo_metrics_size]
    signals_roundtrip [OF demo_logs_wf demo_logs_size demo_traces_wf demo_traces_size negative_zero_plain(1) negative_zero_size]
  show ?thesis using demo_metrics_wf negative_zero_plain(2) by auto
qed

text \<open>
  C18. Decoding any bytes returns: the unmarshalers of logs, traces and metrics end with a batch or
  an error, never with an index out of range, however deep the values are nested and whatever the
  lengths of the packed lists claim.
\<close>

theorem unmarshal_total:
  assumes "valid_buf buf"
  shows "(\<exists>x. UnmarshalLogs buf = Some x \<and> x \<noteq> Inl (WireErr IndexPanic)) \<and>
    (\<exists>x. UnmarshalTraces buf = Some x \<and> x \<noteq> Inl (WireErr IndexPanic)) \<and>
    (\<exists>x. UnmarshalMetrics buf = Some x \<and> x \<noteq> Inl (WireErr IndexPanic))"
  using logs_request.ok [OF assms] traces_request_proto.ok [OF assms] metrics_request_proto.ok [OF assms]
  by (simp add: UnmarshalLogs_def UnmarshalTraces_def UnmarshalMetrics_def unmarshal_ok_def)

theorem unmarshal_total_witness:
  "(\<exists>x. UnmarshalLogs [0x0a, 0xff, 0xff] = Some x \<and> x \<noteq> Inl (WireErr IndexPanic)) \<and>
   (\<exists>x. UnmarshalTraces [0x0a, 0xff, 0xff] = Some x \<and> x \<noteq> Inl (WireErr IndexPanic)) \<and>
   (\<exists>x. UnmarshalMetrics [0x0a, 0xff, 0xff] = Some x \<and> x \<noteq> Inl (WireErr IndexPanic))"
  by (rule unmarshal_total) (simp add: valid_buf_def max_i64_def)

end
