(* ===== verification/QueuedRequests.thy ===== *)
theory QueuedRequests
  imports ProtoRequests Codecs ClientContext
begin

text \<open>
  The requests a persistent queue stores: the data of a signal with the context it arrived in
  (pdata/xpdata/request, client/client.go) and the encodings of
  exporter/exporterhelper/internal/queuebatch (logs.go, traces.go, metrics.go), which still read what
  older versions stored without a context.

  Strings are lists of bytes. A Go map that is iterated comes with the order of the iteration as an
  argument. The types of go.opentelemetry.io/otel/trace are outside the repository: the trace state,
  its text form and parser and the validity of a span context are parameters.
\<close>

section \<open>Encoding a context\<close>

record 'ts trace_api =
  ta_IsValid :: "'ts span_ctx \<Rightarrow> bool"
  ta_String :: "'ts \<Rightarrow> byte list"
  ta_ParseTraceState :: "byte list \<Rightarrow> 'ts"

definition encodeSpanContext :: "'ts trace_api \<Rightarrow> ('ts, 'o, 'au) go_ctx \<Rightarrow> RequestContext \<Rightarrow> RequestContext" where
  "encodeSpanContext api ctx rc =
     (case cx_span ctx of
        None \<Rightarrow> rc
      | Some sc \<Rightarrow>
          if \<not> ta_IsValid api sc then rc
          else rc\<lparr>rq_SpanContext := Some \<lparr>sn_TraceID = tc_TraceID sc, sn_SpanID = tc_SpanID sc,
            sn_TraceFlags = ucast (tc_TraceFlags sc), sn_TraceState = ta_String api (tc_TraceState sc),
            sn_Remote = tc_Remote sc\<rparr>\<rparr>)"

definition metadata_entry :: "byte list \<Rightarrow> byte list list \<Rightarrow> KeyValue" where
  "metadata_entry k vals =
     (case vals of
        [val] \<Rightarrow> KeyValue (AnyValue_StringValue val) k 0
      | _ \<Rightarrow> KeyValue (AnyValue_ArrayValue (Some (ArrayValue (map AnyValue_StringValue vals)))) k 0)"

definition encodeClientMetadata ::
  "byte list list \<Rightarrow> ('ts, 'o, 'au) go_ctx \<Rightarrow> RequestContext \<Rightarrow> RequestContext" where
  "encodeClientMetadata keys ctx rc =
     (let clientMetadata = ci_Metadata (FromContext ctx)
      in rc\<lparr>rq_ClientMetadata := rq_ClientMetadata rc @ map (\<lambda>k. metadata_entry k (Metadata_Get clientMetadata k)) keys\<rparr>)"

definition encodeClientAddress :: "('ts, 'o, 'au) go_ctx \<Rightarrow> RequestContext \<Rightarrow> RequestContext" where
  "encodeClientAddress ctx rc =
     (case ci_Addr (FromContext ctx) of
        net_IPAddr ip zone \<Rightarrow> rc\<lparr>rq_ClientAddress := RequestContext_IP (Some \<lparr>ia_IP = ip, ia_Zone = zone\<rparr>)\<rparr>
      | net_TCPAddr ip port zone \<Rightarrow>
          rc\<lparr>rq_ClientAddress := RequestContext_TCP (Some \<lparr>ta_IP = ip, ta_Port = port, ta_Zone = zone\<rparr>)\<rparr>
      | net_UDPAddr ip port zone \<Rightarrow>
          rc\<lparr>rq_ClientAddress := RequestContext_UDP (Some \<lparr>ua_IP = ip, ua_Port = port, ua_Zone = zone\<rparr>)\<rparr>
      | net_UnixAddr name net \<Rightarrow> rc\<lparr>rq_ClientAddress := RequestContext_Unix (Some \<lparr>xa_Name = name, xa_Net = net\<rparr>)\<rparr>
      | _ \<Rightarrow> rc)"

definition encodeContext :: "'ts trace_api \<Rightarrow> byte list list \<Rightarrow> ('ts, 'o, 'au) go_ctx \<Rightarrow> RequestContext" where
  "encodeContext api keys ctx =
     encodeClientAddress ctx (encodeClientMetadata keys ctx (encodeSpanContext api ctx RequestContext_zero))"

section \<open>Decoding a context\<close>

definition decodeSpanContext ::
  "'ts trace_api \<Rightarrow> ('ts, 'o, 'au) go_ctx \<Rightarrow> SpanContext option \<Rightarrow> ('ts, 'o, 'au) go_ctx" where
  "decodeSpanContext api ctx sc =
     (case sc of
        None \<Rightarrow> ctx
      | Some sc \<Rightarrow> Background\<lparr>cx_span := Some \<lparr>tc_TraceID = sn_TraceID sc, tc_SpanID = sn_SpanID sc,
          tc_TraceFlags = ucast (sn_TraceFlags sc), tc_TraceState = ta_ParseTraceState api (sn_TraceState sc),
          tc_Remote = sn_Remote sc\<rparr>\<rparr>)"

fun GetStringValue :: "AnyValue \<Rightarrow> byte list" where
  "GetStringValue (AnyValue_StringValue s) = s"
| "GetStringValue _ = []"

text \<open>A value of another kind leaves the map as it is; a nil list in a oneof panics (\<open>None\<close>).\<close>

fun decodeClientMetadata :: "KeyValue list \<Rightarrow> client_metadata \<Rightarrow> client_metadata option" where
  "decodeClientMetadata [] metadataMap = Some metadataMap"
| "decodeClientMetadata (KeyValue v k i # kvs) metadataMap =
     (case v of
        AnyValue_StringValue s \<Rightarrow> decodeClientMetadata kvs (metadataMap(k \<mapsto> [s]))
      | AnyValue_ArrayValue (Some (ArrayValue vs)) \<Rightarrow> decodeClientMetadata kvs (metadataMap(k \<mapsto> map GetStringValue vs))
      | AnyValue_ArrayValue None \<Rightarrow> None
      | _ \<Rightarrow> decodeClientMetadata kvs metadataMap)"

definition decodeClientAddress :: "RequestContext \<Rightarrow> 'o net_addr option" where
  "decodeClientAddress rc =
     (case rq_ClientAddress rc of
        RequestContext_nil \<Rightarrow> Some nil_addr
      | RequestContext_IP a \<Rightarrow> map_option (\<lambda>a. net_IPAddr (ia_IP a) (ia_Zone a)) a
      | RequestContext_TCP a \<Rightarrow> map_option (\<lambda>a. net_TCPAddr (ta_IP a) (ta_Port a) (ta_Zone a)) a
      | RequestContext_UDP a \<Rightarrow> map_option (\<lambda>a. net_UDPAddr (ua_IP a) (ua_Port a) (ua_Zone a)) a
      | RequestContext_Unix a \<Rightarrow> map_option (\<lambda>a. net_UnixAddr (xa_Name a) (xa_Net a)) a)"

definition decodeContext ::
  "'ts trace_api \<Rightarrow> byte list list \<Rightarrow> ('ts, 'o, 'au) go_ctx \<Rightarrow> RequestContext option \<Rightarrow> ('ts, 'o, 'au) go_ctx option" where
  "decodeContext api keys ctx rc =
     (case rc of
        None \<Rightarrow> Some ctx
      | Some rc \<Rightarrow>
          (case (decodeClientMetadata (rq_ClientMetadata rc) Map.empty, decodeClientAddress rc) of
             (Some metadataMap, Some clientAddress) \<Rightarrow>
               (let ctx = decodeSpanContext api ctx (rq_SpanContext rc)
                in Some (if metadataMap \<noteq> Map.empty \<or> clientAddress \<noteq> nil_addr
                         then NewContext ctx \<lparr>ci_Addr = clientAddress, ci_Auth = None, ci_Metadata = NewMetadata keys metadataMap\<rparr>
                         else ctx))
           | _ \<Rightarrow> None))"

section \<open>The stored form of a request\<close>

definition protoTag1TypeByte :: byte where
  "protoTag1TypeByte = 0x0D"

definition requestFormatVersion :: "32 word" where
  "requestFormatVersion = 1"

datatype request_error = ErrInvalidFormat | FailedToUnmarshal unmarshal_error

definition isRequestPayloadV1 :: "byte list \<Rightarrow> bool" where
  "isRequestPayloadV1 data =
     (if length data < 5 then False
      else if data ! 0 \<noteq> protoTag1TypeByte then False
      else le_word (take 4 (drop 1 data)) = ucast requestFormatVersion)"

definition LogsToProto :: "ExportLogsServiceRequest \<Rightarrow> LogsData" where
  "LogsToProto l = \<lparr>ld_ResourceLogs = lq_ResourceLogs l\<rparr>"

definition LogsFromProto :: "LogsData \<Rightarrow> ExportLogsServiceRequest" where
  "LogsFromProto orig = \<lparr>lq_ResourceLogs = ld_ResourceLogs orig\<rparr>"

definition new_LogsRequest ::
  "'ts trace_api \<Rightarrow> byte list list \<Rightarrow> ('ts, 'o, 'au) go_ctx \<Rightarrow> ExportLogsServiceRequest \<Rightarrow> LogsRequest" where
  "new_LogsRequest api keys ctx ld =
     \<lparr>wl_RequestContext = Some (encodeContext api keys ctx), wl_LogsData = LogsToProto ld,
       wl_FormatVersion = requestFormatVersion\<rparr>"

definition request_MarshalLogs ::
  "'ts trace_api \<Rightarrow> byte list list \<Rightarrow> ('ts, 'o, 'au) go_ctx \<Rightarrow> ExportLogsServiceRequest \<Rightarrow> wire_error + byte list" where
  "request_MarshalLogs api keys ctx ld =
     (let r = new_LogsRequest api keys ctx ld
      in case LogsRequest_MarshalProto r (replicate (LogsRequest_SizeProto r) 0) of
           Inl e \<Rightarrow> Inl e
         | Inr (buf, _) \<Rightarrow> Inr buf)"

definition request_UnmarshalLogs ::
  "'ts trace_api \<Rightarrow> byte list list \<Rightarrow> byte list \<Rightarrow> (request_error + ('ts, 'o, 'au) go_ctx \<times> ExportLogsServiceRequest) option" where
  "request_UnmarshalLogs api keys buf =
     (if \<not> isRequestPayloadV1 buf then Some (Inl ErrInvalidFormat)
      else case LogsRequest_UnmarshalProto buf LogsRequest_zero of
             None \<Rightarrow> None
           | Some (Inl e) \<Rightarrow> Some (Inl (FailedToUnmarshal e))
           | Some (Inr r) \<Rightarrow>
               map_option (\<lambda>ctx. Inr (ctx, LogsFromProto (wl_LogsData r)))
                 (decodeContext api keys Background (wl_RequestContext r)))"

definition logsEncoding_Unmarshal ::
  "'ts trace_api \<Rightarrow> byte list list \<Rightarrow> byte list \<Rightarrow> (request_error + ('ts, 'o, 'au) go_ctx \<times> ExportLogsServiceRequest) option" where
  "logsEncoding_Unmarshal api keys bytes =
     (case request_UnmarshalLogs api keys bytes of
        Some (Inl ErrInvalidFormat) \<Rightarrow>
          map_option (map_sum FailedToUnmarshal (Pair Background)) (UnmarshalLogs bytes)
      | r \<Rightarrow> r)"

definition TracesToProto :: "ExportTraceServiceRequest \<Rightarrow> TracesData" where
  "TracesToProto l = \<lparr>td_ResourceSpans = tq_ResourceSpans l\<rparr>"

definition TracesFromProto :: "TracesData \<Rightarrow> ExportTraceServiceRequest" where
  "TracesFromProto orig = \<lparr>tq_ResourceSpans = td_ResourceSpans orig\<rparr>"

definition new_TracesRequest ::
  "'ts trace_api \<Rightarrow> byte list list \<Rightarrow> ('ts, 'o, 'au) go_ctx \<Rightarrow> ExportTraceServiceRequest \<Rightarrow> TracesRequest" where
  "new_TracesRequest api keys ctx td =
     \<lparr>wt_RequestContext = Some (encodeContext api keys ctx), wt_TracesData = TracesToProto td,
       wt_FormatVersion = requestFormatVersion\<rparr>"

definition request_MarshalTraces ::
  "'ts trace_api \<Rightarrow> byte list list \<Rightarrow> ('ts, 'o, 'au) go_ctx \<Rightarrow> ExportTraceServiceRequest \<Rightarrow> wire_error + byte list" where
  "request_MarshalTraces api keys ctx td =
     (let r = new_TracesRequest api keys ctx td
      in case TracesRequest_MarshalProto r (replicate (TracesRequest_SizeProto r) 0) of
           Inl e \<Rightarrow> Inl e
         | Inr (buf, _) \<Rightarrow> Inr buf)"

definition request_UnmarshalTraces ::
  "'ts trace_api \<Rightarrow> byte list list \<Rightarrow> byte list \<Rightarrow> (request_error + ('ts, 'o, 'au) go_ctx \<times> ExportTraceServiceRequest) option" where
  "request_UnmarshalTraces api keys buf =
     (if \<not> isRequestPayloadV1 buf then Some (Inl ErrInvalidFormat)
      else case TracesRequest_UnmarshalProto buf TracesRequest_zero of
             None \<Rightarrow> None
           | Some (Inl e) \<Rightarrow> Some (Inl (FailedToUnmarshal e))
           | Some (Inr r) \<Rightarrow>
               map_option (\<lambda>ctx. Inr (ctx, TracesFromProto (wt_TracesData r)))
                 (decodeContext api keys Background (wt_RequestContext r)))"

definition tracesEncoding_Unmarshal ::
  "'ts trace_api \<Rightarrow> byte list list \<Rightarrow> byte list \<Rightarrow> (request_error + ('ts, 'o, 'au) go_ctx \<times> ExportTraceServiceRequest) option" where
  "tracesEncoding_Unmarshal api keys bytes =
     (case request_UnmarshalTraces api keys bytes of
        Some (Inl ErrInvalidFormat) \<Rightarrow>
          map_option (map_sum FailedToUnmarshal (Pair Background)) (UnmarshalTraces bytes)
      | r \<Rightarrow> r)"

definition MetricsToProto :: "ExportMetricsServiceRequest \<Rightarrow> MetricsData" where
  "MetricsToProto l = \<lparr>md_ResourceMetrics = mq_ResourceMetrics l\<rparr>"

definition MetricsFromProto :: "MetricsData \<Rightarrow> ExportMetricsServiceRequest" where
  "MetricsFromProto orig = \<lparr>mq_ResourceMetrics = md_ResourceMetrics orig\<rparr>"

definition new_MetricsRequest ::
  "'ts trace_api \<Rightarrow> byte list list \<Rightarrow> ('ts, 'o, 'au) go_ctx \<Rightarrow> ExportMetricsServiceRequest \<Rightarrow> MetricsRequest" where
  "new_MetricsRequest api keys ctx md =
     \<lparr>wm_RequestContext = Some (encodeContext api keys ctx), wm_MetricsData = MetricsToProto md,
       wm_FormatVersion = requestFormatVersion\<rparr>"

definition request_MarshalMetrics ::
  "'ts trace_api \<Rightarrow> byte list list \<Rightarrow> ('ts, 'o, 'au) go_ctx \<Rightarrow> ExportMetricsServiceRequest \<Rightarrow> wire_error + byte list" where
  "request_MarshalMetrics api keys ctx md =
     (let r = new_MetricsRequest api keys ctx md
      in case MetricsRequest_MarshalProto r (replicate (MetricsRequest_SizeProto r) 0) of
           Inl e \<Rightarrow> Inl e
         | Inr (buf, _) \<Rightarrow> Inr buf)"

definition request_UnmarshalMetrics ::
  "'ts trace_api \<Rightarrow> byte list list \<Rightarrow> byte list \<Rightarrow> (request_error + ('ts, 'o, 'au) go_ctx \<times> ExportMetricsServiceRequest) option" where
  "request_UnmarshalMetrics api keys buf =
     (if \<not> isRequestPayloadV1 buf then Some (Inl ErrInvalidFormat)
      else case MetricsRequest_UnmarshalProto buf MetricsRequest_zero of
             None \<Rightarrow> None
           | Some (Inl e) \<Rightarrow> Some (Inl (FailedToUnmarshal e))
           | Some (Inr r) \<Rightarrow>
               map_option (\<lambda>ctx. Inr (ctx, MetricsFromProto (wm_MetricsData r)))
                 (decodeContext api keys Background (wm_RequestContext r)))"

definition metricsEncoding_Unmarshal ::
  "'ts trace_api \<Rightarrow> byte list list \<Rightarrow> byte list \<Rightarrow> (request_error + ('ts, 'o, 'au) go_ctx \<times> ExportMetricsServiceRequest) option" where
  "metricsEncoding_Unmarshal api keys bytes =
     (case request_UnmarshalMetrics api keys bytes of
        Some (Inl ErrInvalidFormat) \<Rightarrow>
          map_option (map_sum FailedToUnmarshal (Pair Background)) (UnmarshalMetrics bytes)
      | r \<Rightarrow> r)"

section \<open>What is kept of a context\<close>

text \<open>
  A valid span context with the trace state its text form stands for, the address if it is of one of
  the four kinds, and the metadata; the authentication data is not stored.
\<close>

definition stored_addr :: "'o net_addr \<Rightarrow> 'o net_addr" where
  "stored_addr a = (case a of other_addr x \<Rightarrow> nil_addr | _ \<Rightarrow> a)"

definition stored_context :: "'ts trace_api \<Rightarrow> ('ts, 'o, 'au) go_ctx \<Rightarrow> ('ts, 'o, 'au) go_ctx" where
  "stored_context api ctx =
     (let a = stored_addr (ci_Addr (FromContext ctx)); m = ci_Metadata (FromContext ctx)
      in \<lparr>cx_span = (case cx_span ctx of None \<Rightarrow> None | Some sc \<Rightarrow> if ta_IsValid api sc then Some sc else None),
          cx_client = (if m \<noteq> Map.empty \<or> a \<noteq> nil_addr
            then Some \<lparr>ci_Addr = a, ci_Auth = None, ci_Metadata = m\<rparr> else None)\<rparr>)"

definition context_ok :: "'ts trace_api \<Rightarrow> ('ts, 'o, 'au) go_ctx \<Rightarrow> bool" where
  "context_ok api ctx \<longleftrightarrow>
     (\<forall>k \<in> dom (ci_Metadata (FromContext ctx)). ToLower k = k) \<and>
     (case cx_span ctx of None \<Rightarrow> True
      | Some sc \<Rightarrow> ID_wf traceIDSize (tc_TraceID sc) \<and> ID_wf spanIDSize (tc_SpanID sc) \<and>
          ta_ParseTraceState api (ta_String api (tc_TraceState sc)) = tc_TraceState sc)"

text \<open>The order in which a map is iterated: each key once.\<close>

definition iterates :: "byte list list \<Rightarrow> client_metadata \<Rightarrow> bool" where
  "iterates keys md \<longleftrightarrow> distinct keys \<and> set keys = dom md"

lemma decode_entry:
  "decodeClientMetadata (metadata_entry k vals # kvs) m = decodeClientMetadata kvs (m(k \<mapsto> vals))"
  by (auto simp: metadata_entry_def o_def split: list.splits)

lemma decode_entries:
  "decodeClientMetadata (map (\<lambda>k. metadata_entry k (f k)) keys) m = Some (m ++ (\<lambda>k. if k \<in> set keys then Some (f k) else None))"
  by (induction keys arbitrary: m) (auto simp: decode_entry fun_eq_iff map_add_def split: option.splits)

lemma metadata_roundtrip:
  assumes "iterates keys md" "\<forall>k \<in> dom md. ToLower k = k"
  shows "decodeClientMetadata (map (\<lambda>k. metadata_entry k (Metadata_Get md k)) keys) Map.empty = Some md"
proof -
  have "(\<lambda>k. if k \<in> set keys then Some (Metadata_Get md k) else None) = md"
    using assms by (auto simp: iterates_def Metadata_Get_def fun_eq_iff dom_def split: option.splits)
  then show ?thesis by (simp add: decode_entries)
qed

lemma ucast_flags: "ucast (ucast (b :: byte) :: 32 word) = b"
  by (rule bit_word_eqI) (auto simp: bit_simps)

lemma encode_fields:
  "rq_ClientMetadata (encodeContext api keys ctx) =
     map (\<lambda>k. metadata_entry k (Metadata_Get (ci_Metadata (FromContext ctx)) k)) keys"
  "decodeClientAddress (encodeContext api keys ctx) = Some (stored_addr (ci_Addr (FromContext ctx)))"
  "rq_SpanContext (encodeContext api keys ctx) = rq_SpanContext (encodeSpanContext api ctx RequestContext_zero)"
  by (simp_all add: encodeContext_def encodeClientAddress_def encodeClientMetadata_def encodeSpanContext_def Let_def
      RequestContext_zero_def decodeClientAddress_def stored_addr_def split: net_addr.splits option.splits)

lemma span_roundtrip:
  assumes "context_ok api ctx"
  shows "decodeSpanContext api Background (rq_SpanContext (encodeSpanContext api ctx RequestContext_zero)) =
    \<lparr>cx_span = cx_span (stored_context api ctx), cx_client = None\<rparr>"
  using assms
  by (auto simp: decodeSpanContext_def encodeSpanContext_def RequestContext_zero_def Background_def stored_context_def
      Let_def context_ok_def ucast_flags split: option.splits)

lemma context_roundtrip:
  assumes "context_ok api ctx" "iterates keys (ci_Metadata (FromContext ctx))" "iterates keys' (ci_Metadata (FromContext ctx))"
  shows "decodeContext api keys' Background (Some (encodeContext api keys ctx)) = Some (stored_context api ctx)"
proof -
  let ?m = "ci_Metadata (FromContext ctx)"
  have l: "\<forall>k \<in> dom ?m. ToLower k = k" using assms(1) by (simp add: context_ok_def)
  have n: "NewMetadata keys' ?m = ?m"
    using assms(3) l NewMetadata_eq [of keys' ?m]
    by (simp add: iterates_def) (auto simp: restrict_map_def fun_eq_iff dom_def)
  show ?thesis
    unfolding decodeContext_def option.case encode_fields metadata_roundtrip [OF assms(2) l] prod.case Let_def
      span_roundtrip [OF assms(1)] n
    by (auto simp: NewContext_def stored_context_def Let_def)
qed

lemma encodeContext_wf: "context_ok api ctx \<Longrightarrow> RequestContext_wf (encodeContext api keys ctx)"
proof -
  assume ok: "context_ok api ctx"
  have m: "list_all KeyValue_wf (map (\<lambda>k. metadata_entry k (f k)) keys)" for f
    by (auto simp: metadata_entry_def list_all_iff split: list.splits)
  have a: "RequestContext_ClientAddress_wf (rq_ClientAddress (encodeContext api keys ctx))"
    by (auto simp: encodeContext_def encodeClientAddress_def encodeClientMetadata_def encodeSpanContext_def Let_def
        RequestContext_zero_def IPAddr_wf_def TCPAddr_wf_def UDPAddr_wf_def UnixAddr_wf_def
        split: net_addr.splits option.splits)
  have "pred_option SpanContext_wf (rq_SpanContext (encodeSpanContext api ctx RequestContext_zero))"
    using ok by (auto simp: encodeSpanContext_def RequestContext_zero_def context_ok_def SpanContext_wf_def split: option.splits)
  with m a show ?thesis unfolding RequestContext_wf_def encode_fields by blast
qed

section \<open>The format of a payload\<close>

lemma isRequestPayloadV1_prefix: "isRequestPayloadV1 ([0x0D, 1, 0, 0, 0] @ bs)"
  by (simp add: isRequestPayloadV1_def protoTag1TypeByte_def requestFormatVersion_def le_word_def)

lemma version_bytes: "fixed_bytes [0x0d] 4 1 = [0x0D, 1, 0, 0, 0]"
  by (simp add: fixed_bytes_def le_bytes_of_def upt_rec)

lemma not_PayloadV1:
  assumes "\<And>x xs. bs = x # xs \<Longrightarrow> x = 0x0a"
  shows "\<not> isRequestPayloadV1 bs"
  using assms by (cases bs) (auto simp: isRequestPayloadV1_def protoTag1TypeByte_def)

lemma plain_first_byte: "bs = concat (map (\<lambda>v. string_bytes [t] (f v)) ys) \<Longrightarrow> bs = x # xs \<Longrightarrow> x = t"
  by (induction ys) (auto simp: string_bytes_def)

lemma logs_request_roundtrip:
  fixes ld and ctx :: "('ts, 'o, 'au) go_ctx" and api :: "'ts trace_api" and keys
  defines "r \<equiv> new_LogsRequest api keys ctx ld"
  assumes "ExportLogsServiceRequest_wf ld" "context_ok api ctx" "int (LogsRequest_SizeProto r) \<le> max_i64"
    and "iterates keys (ci_Metadata (FromContext ctx))" "iterates keys' (ci_Metadata (FromContext ctx))"
  obtains buf where "request_MarshalLogs api keys ctx ld = Inr buf"
    "logsEncoding_Unmarshal api keys' buf = Some (Inr (stored_context api ctx, ld))"
proof -
  have wf: "LogsRequest_wf r"
    using assms(2) encodeContext_wf [OF assms(3)]
    by (simp add: r_def new_LogsRequest_def LogsRequest_wf_def LogsData_wf_def LogsToProto_def ExportLogsServiceRequest_wf_def)
  from logs_context_request.roundtrip [OF wf assms(4), of "replicate (LogsRequest_SizeProto r) 0"]
  obtain buf where buf: "LogsRequest_MarshalProto r (replicate (LogsRequest_SizeProto r) 0) = Inr (buf, int (LogsRequest_SizeProto r))"
    "LogsRequest_UnmarshalProto buf LogsRequest_zero = Some (Inr r)" by auto
  have "marshals (LogsRequest_MarshalProto r) (LogsRequest_bytes r)" by (rule logs_context_request.marshal [OF wf])
  then have "buf = LogsRequest_bytes r"
    using buf(1) logs_context_request.size [OF wf] by (simp add: marshals_def)
  then have "\<exists>bs. buf = [0x0D, 1, 0, 0, 0] @ bs"
    by (simp only: LogsRequest_bytes_def) (simp add: r_def new_LogsRequest_def version_bytes requestFormatVersion_def)
  then have v: "isRequestPayloadV1 buf" using isRequestPayloadV1_prefix by blast
  have d: "LogsFromProto (LogsToProto ld) = ld" by (cases ld) (simp add: LogsFromProto_def LogsToProto_def)
  show ?thesis
  proof (rule that [of buf])
    show "request_MarshalLogs api keys ctx ld = Inr buf"
      using buf(1) by (simp add: request_MarshalLogs_def Let_def r_def)
    have "request_UnmarshalLogs api keys' buf = Some (Inr (stored_context api ctx, ld))"
      using v buf(2) context_roundtrip [OF assms(3,5,6)] by (simp add: request_UnmarshalLogs_def r_def new_LogsRequest_def d)
    then show "logsEncoding_Unmarshal api keys' buf = Some (Inr (stored_context api ctx, ld))"
      by (simp add: logsEncoding_Unmarshal_def)
  qed
qed

lemma logs_plain_payload:
  fixes api :: "'ts trace_api"
  assumes "ExportLogsServiceRequest_wf ld" "int (LogsSize ld) \<le> max_i64"
  obtains buf where "MarshalLogs ld = Inr buf" "\<not> isRequestPayloadV1 buf"
    "logsEncoding_Unmarshal api keys buf = Some (Inr (Background :: ('ts, 'o, 'au) go_ctx, ld))"
proof -
  obtain buf where buf: "MarshalLogs ld = Inr buf" "length buf = LogsSize ld" "UnmarshalLogs buf = Some (Inr ld)"
    by (rule logs_marshal_unmarshal [OF assms])
  have "marshals (ExportLogsServiceRequest_MarshalProto ld) (ExportLogsServiceRequest_bytes ld)" by (rule logs_request.marshal [OF assms(1)])
  then have b: "buf = ExportLogsServiceRequest_bytes ld"
    using buf(1,2) logs_request.size [OF assms(1)]
    by (auto simp: marshals_def MarshalLogs_def LogsSize_def split: sum.splits prod.splits)
  have n: "\<not> isRequestPayloadV1 buf"
    by (rule not_PayloadV1) (rule plain_first_byte [OF b [unfolded ExportLogsServiceRequest_bytes_def]])
  then have "logsEncoding_Unmarshal api keys buf = Some (Inr (Background :: ('ts, 'o, 'au) go_ctx, ld))"
    using buf(3) by (simp add: logsEncoding_Unmarshal_def request_UnmarshalLogs_def)
  with buf(1) n show ?thesis by (rule that)
qed

lemma traces_request_roundtrip:
  fixes td and ctx :: "('ts, 'o, 'au) go_ctx" and api :: "'ts trace_api" and keys
  defines "r \<equiv> new_TracesRequest api keys ctx td"
  assumes "ExportTraceServiceRequest_wf td" "context_ok api ctx" "int (TracesRequest_SizeProto r) \<le> max_i64"
    and "iterates keys (ci_Metadata (FromContext ctx))" "iterates keys' (ci_Metadata (FromContext ctx))"
  obtains buf where "request_MarshalTraces api keys ctx td = Inr buf"
    "tracesEncoding_Unmarshal api keys' buf = Some (Inr (stored_context api ctx, td))"
proof -
  have wf: "TracesRequest_wf r"
    using assms(2) encodeContext_wf [OF assms(3)]
    by (simp add: r_def new_TracesRequest_def TracesRequest_wf_def TracesData_wf_def TracesToProto_def ExportTraceServiceRequest_wf_def)
  from traces_context_request.roundtrip [OF wf assms(4), of "replicate (TracesRequest_SizeProto r) 0"]
  obtain buf where buf: "TracesRequest_MarshalProto r (replicate (TracesRequest_SizeProto r) 0) = Inr (buf, int (TracesRequest_SizeProto r))"
    "TracesRequest_UnmarshalProto buf TracesRequest_zero = Some (Inr r)" by auto
  have "marshals (TracesRequest_MarshalProto r) (TracesRequest_bytes r)" by (rule traces_context_request.marshal [OF wf])
  then have "buf = TracesRequest_bytes r"
    using buf(1) traces_context_request.size [OF wf] by (simp add: marshals_def)
  then have "\<exists>bs. buf = [0x0D, 1, 0, 0, 0] @ bs"
    by (simp only: TracesRequest_bytes_def) (simp add: r_def new_TracesRequest_def version_bytes requestFormatVersion_def)
  then have v: "isRequestPayloadV1 buf" using isRequestPayloadV1_prefix by blast
  have d: "TracesFromProto (TracesToProto td) = td" by (cases td) (simp add: TracesFromProto_def TracesToProto_def)
  show ?thesis
  proof (rule that [of buf])
    show "request_MarshalTraces api keys ctx td = Inr buf"
      using buf(1) by (simp add: request_MarshalTraces_def Let_def r_def)
    have "request_UnmarshalTraces api keys' buf = Some (Inr (stored_context api ctx, td))"
      using v buf(2) context_roundtrip [OF assms(3,5,6)] by (simp add: request_UnmarshalTraces_def r_def new_TracesRequest_def d)
    then show "tracesEncoding_Unmarshal api keys' buf = Some (Inr (stored_context api ctx, td))"
      by (simp add: tracesEncoding_Unmarshal_def)
  qed
qed

lemma traces_plain_payload:
  fixes api :: "'ts trace_api"
  assumes "ExportTraceServiceRequest_wf td" "int (TracesSize td) \<le> max_i64"
  obtains buf where "MarshalTraces td = Inr buf" "\<not> isRequestPayloadV1 buf"
    "tracesEncoding_Unmarshal api keys buf = Some (Inr (Background :: ('ts, 'o, 'au) go_ctx, td))"
proof -
  obtain buf where buf: "MarshalTraces td = Inr buf" "length buf = TracesSize td" "UnmarshalTraces buf = Some (Inr td)"
    by (rule traces_marshal_unmarshal [OF assms])
  have "marshals (ExportTraceServiceRequest_MarshalProto td) (ExportTraceServiceRequest_bytes td)" by (rule traces_request_proto.marshal [OF assms(1)])
  then have b: "buf = ExportTraceServiceRequest_bytes td"
    using buf(1,2) traces_request_proto.size [OF assms(1)]
    by (auto simp: marshals_def MarshalTraces_def TracesSize_def split: sum.splits prod.splits)
  have n: "\<not> isRequestPayloadV1 buf"
    by (rule not_PayloadV1) (rule plain_first_byte [OF b [unfolded ExportTraceServiceRequest_bytes_def]])
  then have "tracesEncoding_Unmarshal api keys buf = Some (Inr (Background :: ('ts, 'o, 'au) go_ctx, td))"
    using buf(3) by (simp add: tracesEncoding_Unmarshal_def request_UnmarshalTraces_def)
  with buf(1) n show ?thesis by (rule that)
qed

lemma metrics_request_roundtrip:
  fixes md and ctx :: "('ts, 'o, 'au) go_ctx" and api :: "'ts trace_api" and keys
  defines "r \<equiv> new_MetricsRequest api keys ctx md"
  assumes "ExportMetricsServiceRequest_wf md" "context_ok api ctx" "int (MetricsRequest_SizeProto r) \<le> max_i64"
    and "iterates keys (ci_Metadata (FromContext ctx))" "iterates keys' (ci_Metadata (FromContext ctx))"
  obtains buf where "request_MarshalMetrics api keys ctx md = Inr buf"
    "metricsEncoding_Unmarshal api keys' buf = Some (Inr (stored_context api ctx, md))"
proof -
  have wf: "MetricsRequest_wf r"
    using assms(2) encodeContext_wf [OF assms(3)]
    by (simp add: r_def new_MetricsRequest_def MetricsRequest_wf_def MetricsData_wf_def MetricsToProto_def ExportMetricsServiceRequest_wf_def)
  from metrics_context_request.roundtrip [OF wf assms(4), of "replicate (MetricsRequest_SizeProto r) 0"]
  obtain buf where buf: "MetricsRequest_MarshalProto r (replicate (MetricsRequest_SizeProto r) 0) = Inr (buf, int (MetricsRequest_SizeProto r))"
    "MetricsRequest_UnmarshalProto buf MetricsRequest_zero = Some (Inr r)" by auto
  have "marshals (MetricsRequest_MarshalProto r) (MetricsRequest_bytes r)" by (rule metrics_context_request.marshal [OF wf])
  then have "buf = MetricsRequest_bytes r"
    using buf(1) metrics_context_request.size [OF wf] by (simp add: marshals_def)
  then have "\<exists>bs. buf = [0x0D, 1, 0, 0, 0] @ bs"
    by (simp only: MetricsRequest_bytes_def) (simp add: r_def new_MetricsRequest_def version_bytes requestFormatVersion_def)
  then have v: "isRequestPayloadV1 buf" using isRequestPayloadV1_prefix by blast
  have d: "MetricsFromProto (MetricsToProto md) = md" by (cases md) (simp add: MetricsFromProto_def MetricsToProto_def)
  show ?thesis
  proof (rule that [of buf])
    show "request_MarshalMetrics api keys ctx md = Inr buf"
      using buf(1) by (simp add: request_MarshalMetrics_def Let_def r_def)
    have "request_UnmarshalMetrics api keys' buf = Some (Inr (stored_context api ctx, md))"
      using v buf(2) context_roundtrip [OF assms(3,5,6)] by (simp add: request_UnmarshalMetrics_def r_def new_MetricsRequest_def d)
    then show "metricsEncoding_Unmarshal api keys' buf = Some (Inr (stored_context api ctx, md))"
      by (simp add: metricsEncoding_Unmarshal_def)
  qed
qed

lemma metrics_plain_payload:
  fixes api :: "'ts trace_api"
  assumes "ExportMetricsServiceRequest_wf md" "int (MetricsSize md) \<le> max_i64"
  obtains buf where "MarshalMetrics md = Inr buf" "\<not> isRequestPayloadV1 buf"
    "metricsEncoding_Unmarshal api keys buf = Some (Inr (Background :: ('ts, 'o, 'au) go_ctx, md))"
proof -
  obtain buf where buf: "MarshalMetrics md = Inr buf" "length buf = MetricsSize md" "UnmarshalMetrics buf = Some (Inr md)"
    by (rule metrics_marshal_unmarshal [OF assms])
  have "marshals (ExportMetricsServiceRequest_MarshalProto md) (ExportMetricsServiceRequest_bytes md)" by (rule metrics_request_proto.marshal [OF assms(1)])
  then have b: "buf = ExportMetricsServiceRequest_bytes md"
    using buf(1,2) metrics_request_proto.size [OF assms(1)]
    by (auto simp: marshals_def MarshalMetrics_def MetricsSize_def split: sum.splits prod.splits)
  have n: "\<not> isRequestPayloadV1 buf"
    by (rule not_PayloadV1) (rule plain_first_byte [OF b [unfolded ExportMetricsServiceRequest_bytes_def]])
  then have "metricsEncoding_Unmarshal api keys buf = Some (Inr (Background :: ('ts, 'o, 'au) go_ctx, md))"
    using buf(3) by (simp add: metricsEncoding_Unmarshal_def request_UnmarshalMetrics_def)
  with buf(1) n show ?thesis by (rule that)
qed

text \<open>The requests of a batch of metrics and of the batch with plain zeros have the same bytes.\<close>

lemma plain_metrics_request:
  "MetricsRequest_SizeProto (new_MetricsRequest api keys ctx (plain_metrics md)) =
     MetricsRequest_SizeProto (new_MetricsRequest api keys ctx md)"
  "request_MarshalMetrics api keys ctx (plain_metrics md) = request_MarshalMetrics api keys ctx md"
  by (simp_all add: request_MarshalMetrics_def new_MetricsRequest_def MetricsRequest_SizeProto_def
      MetricsRequest_MarshalProto_def MetricsData_SizeProto_def MetricsData_MarshalProto_def MetricsToProto_def
      plain_metrics_def plain_same rev_map comp_def)

text \<open>
  C37. What a persistent queue stores comes back: for logs, traces and metrics, a request marshaled
  with its context is recognized as the current format and unmarshaled to the same data and a context
  with the same client address, metadata and (valid) span context, without the authentication data,
  in whatever order the maps are iterated; and a payload an older version stored without a context is
  recognized as such and unmarshaled to its data with an empty context. The data is the same for logs
  and traces, and for metrics but for the negative zeros the codec makes zeros (\<open>plain_metrics\<close>, see
  C17, whose conditions on the batches are those of this property). The context has identifiers of 16
  and 8 bytes, metadata keys in lower case, as \<open>client.NewMetadata\<close> leaves them, and a trace state that its parser
  reads back (\<open>context_ok\<close>); an address of a type the encoding does not know is not stored.
\<close>

theorem queued_requests_roundtrip:
  fixes ctx :: "('ts, 'o, 'au) go_ctx"
  assumes "ExportLogsServiceRequest_wf ld" "int (LogsRequest_SizeProto (new_LogsRequest api keys ctx ld)) \<le> max_i64"
    and "ExportTraceServiceRequest_wf td" "int (TracesRequest_SizeProto (new_TracesRequest api keys ctx td)) \<le> max_i64"
    and "ExportMetricsServiceRequest_wf (plain_metrics md)" "int (MetricsRequest_SizeProto (new_MetricsRequest api keys ctx md)) \<le> max_i64"
    and "int (LogsSize ld) \<le> max_i64" "int (TracesSize td) \<le> max_i64" "int (MetricsSize md) \<le> max_i64"
    and "context_ok api ctx"
    and "iterates keys (ci_Metadata (FromContext ctx))" "iterates keys' (ci_Metadata (FromContext ctx))"
  shows "(\<exists>buf. request_MarshalLogs api keys ctx ld = Inr buf \<and>
      logsEncoding_Unmarshal api keys' buf = Some (Inr (stored_context api ctx, ld))) \<and>
    (\<exists>buf. request_MarshalTraces api keys ctx td = Inr buf \<and>
      tracesEncoding_Unmarshal api keys' buf = Some (Inr (stored_context api ctx, td))) \<and>
    (\<exists>buf. request_MarshalMetrics api keys ctx md = Inr buf \<and>
      metricsEncoding_Unmarshal api keys' buf = Some (Inr (stored_context api ctx, plain_metrics md))) \<and>
    (\<exists>buf. MarshalLogs ld = Inr buf \<and>
      logsEncoding_Unmarshal api keys' buf = Some (Inr (Background :: ('ts, 'o, 'au) go_ctx, ld))) \<and>
    (\<exists>buf. MarshalTraces td = Inr buf \<and>
      tracesEncoding_Unmarshal api keys' buf = Some (Inr (Background :: ('ts, 'o, 'au) go_ctx, td))) \<and>
    (\<exists>buf. MarshalMetrics md = Inr buf \<and>
      metricsEncoding_Unmarshal api keys' buf = Some (Inr (Background :: ('ts, 'o, 'au) go_ctx, plain_metrics md))) \<and>
    (ExportMetricsServiceRequest_wf md \<longrightarrow> plain_metrics md = md)"
proof (intro conjI)
  show "\<exists>buf. request_MarshalLogs api keys ctx ld = Inr buf \<and>
      logsEncoding_Unmarshal api keys' buf = Some (Inr (stored_context api ctx, ld))"
    by (rule logs_request_roundtrip [OF assms(1,10,2,11,12)]) blast
  show "\<exists>buf. request_MarshalTraces api keys ctx td = Inr buf \<and>
      tracesEncoding_Unmarshal api keys' buf = Some (Inr (stored_context api ctx, td))"
    by (rule traces_request_roundtrip [OF assms(3,10,4,11,12)]) blast
  show "\<exists>buf. request_MarshalMetrics api keys ctx md = Inr buf \<and>
      metricsEncoding_Unmarshal api keys' buf = Some (Inr (stored_context api ctx, plain_metrics md))"
    by (rule metrics_request_roundtrip [OF assms(5,10) _ assms(11,12), unfolded plain_metrics_request, OF assms(6)]) blast
  show "\<exists>buf. MarshalLogs ld = Inr buf \<and>
      logsEncoding_Unmarshal api keys' buf = Some (Inr (Background :: ('ts, 'o, 'au) go_ctx, ld))"
    by (rule logs_plain_payload [OF assms(1,7)]) blast
  show "\<exists>buf. MarshalTraces td = Inr buf \<and>
      tracesEncoding_Unmarshal api keys' buf = Some (Inr (Background :: ('ts, 'o, 'au) go_ctx, td))"
    by (rule traces_plain_payload [OF assms(3,8)]) blast
  show "\<exists>buf. MarshalMetrics md = Inr buf \<and>
      metricsEncoding_Unmarshal api keys' buf = Some (Inr (Background :: ('ts, 'o, 'au) go_ctx, plain_metrics md))"
    by (rule metrics_plain_payload [OF assms(5), unfolded plain_metrics_Marshal, OF assms(9)]) blast
  show "ExportMetricsServiceRequest_wf md \<longrightarrow> plain_metrics md = md" by (simp add: plain_metrics_fixed)
qed

text \<open>A context with a span, an address, two metadata keys and authentication data.\<close>

definition demo_trace_api :: "byte list trace_api" where
  "demo_trace_api = \<lparr>ta_IsValid = (\<lambda>sc. \<not> ID_IsEmpty traceIDSize (tc_TraceID sc) \<and> \<not> ID_IsEmpty spanIDSize (tc_SpanID sc)),
     ta_String = (\<lambda>t. t), ta_ParseTraceState = (\<lambda>s. s)\<rparr>"

definition demo_metadata :: client_metadata where
  "demo_metadata = [[0x61] \<mapsto> [[0x31], [0x32]], [0x62] \<mapsto> [[0x33]]]"

definition demo_ctx :: "(byte list, unit, unit) go_ctx" where
  "demo_ctx = \<lparr>cx_span = Some \<lparr>tc_TraceID = replicate 15 0 @ [1], tc_SpanID = replicate 7 0 @ [1], tc_TraceFlags = 1,
       tc_TraceState = [], tc_Remote = True\<rparr>,
     cx_client = Some \<lparr>ci_Addr = net_TCPAddr [127, 0, 0, 1] 4317 [], ci_Auth = Some (), ci_Metadata = demo_metadata\<rparr>\<rparr>"

lemma demo_ctx_ok: "context_ok demo_trace_api demo_ctx"
  by (simp add: context_ok_def demo_ctx_def FromContext_def demo_metadata_def demo_trace_api_def ToLower_def ID_wf_def
      traceIDSize_def spanIDSize_def)

lemma demo_keys: "iterates [[0x61], [0x62]] (ci_Metadata (FromContext demo_ctx))"
  "iterates [[0x62], [0x61]] (ci_Metadata (FromContext demo_ctx))"
  by (auto simp: iterates_def demo_ctx_def FromContext_def demo_metadata_def)

lemma demo_ids: "\<not> ID_IsEmpty traceIDSize (replicate 15 0 @ [1])" "\<not> ID_IsEmpty spanIDSize (replicate 7 0 @ [1])"
  by (simp_all add: ID_IsEmpty_def traceIDSize_def spanIDSize_def numeral_eq_Suc)

lemma demo_lower: "ToLower [0x61] = [0x61]" "ToLower [0x62] = [0x62]"
  by (simp_all add: ToLower_def)

lemma demo_encoded:
  "encodeContext demo_trace_api [[0x61], [0x62]] demo_ctx =
     \<lparr>rq_SpanContext = Some \<lparr>sn_TraceID = replicate 15 0 @ [1], sn_SpanID = replicate 7 0 @ [1], sn_TraceFlags = 1,
        sn_TraceState = [], sn_Remote = True\<rparr>,
      rq_ClientMetadata =
        [KeyValue (AnyValue_ArrayValue (Some (ArrayValue [AnyValue_StringValue [0x31], AnyValue_StringValue [0x32]]))) [0x61] 0,
         KeyValue (AnyValue_StringValue [0x33]) [0x62] 0],
      rq_ClientAddress = RequestContext_TCP (Some \<lparr>ta_IP = [127, 0, 0, 1], ta_Port = 4317, ta_Zone = []\<rparr>)\<rparr>"
  by (simp add: encodeContext_def encodeClientAddress_def encodeClientMetadata_def encodeSpanContext_def Let_def
      demo_ctx_def FromContext_def demo_metadata_def demo_trace_api_def demo_ids demo_lower
      RequestContext_zero_def metadata_entry_def Metadata_Get_def)

lemma demo_context_size: "RequestContext_SizeProto (encodeContext demo_trace_api [[0x61], [0x62]] demo_ctx) = 77"
proof -
  have s: "SpanContext_SizeProto \<lparr>sn_TraceID = replicate 15 0 @ [1], sn_SpanID = replicate 7 0 @ [1], sn_TraceFlags = 1,
      sn_TraceState = [], sn_Remote = True\<rparr> = 35"
    by (simp add: SpanContext_SizeProto_def ID_SizeProto_def demo_ids) (simp add: traceIDSize_def spanIDSize_def Sov_small)
  have "Sov 4317 = 2" by (simp add: Sov_groups7 groups7.simps)
  then have a: "TCPAddr_SizeProto \<lparr>ta_IP = [127, 0, 0, 1], ta_Port = 4317, ta_Zone = []\<rparr> = 9"
    by (simp add: TCPAddr_SizeProto_def Sov_small)
  show ?thesis unfolding demo_encoded RequestContext_SizeProto_def by (simp add: s a Sov_small)
qed

lemma Sov_le: "Sov v \<le> 10"
proof -
  have "unat v < 2 ^ 64" using unsigned_less [of v, where 'a = nat] by simp
  then have "unat v < 128 ^ Suc 9" by simp
  from groups7_le [OF this] show ?thesis by (simp add: Sov_groups7)
qed

lemma demo_request_sizes:
  "int (LogsRequest_SizeProto (new_LogsRequest demo_trace_api [[0x61], [0x62]] demo_ctx (demo_logs False))) \<le> max_i64"
  "int (TracesRequest_SizeProto (new_TracesRequest demo_trace_api [[0x61], [0x62]] demo_ctx demo_traces)) \<le> max_i64"
  "int (MetricsRequest_SizeProto (new_MetricsRequest demo_trace_api [[0x61], [0x62]] demo_ctx demo_metrics)) \<le> max_i64"
proof -
  have "LogsData_SizeProto (LogsToProto (demo_logs False)) = LogsSize (demo_logs False)"
    "TracesData_SizeProto (TracesToProto demo_traces) = TracesSize demo_traces"
    "MetricsData_SizeProto (MetricsToProto demo_metrics) = MetricsSize demo_metrics"
    by (simp_all add: LogsData_SizeProto_def LogsToProto_def LogsSize_def ExportLogsServiceRequest_SizeProto_def
        TracesData_SizeProto_def TracesToProto_def TracesSize_def ExportTraceServiceRequest_SizeProto_def
        MetricsData_SizeProto_def MetricsToProto_def MetricsSize_def ExportMetricsServiceRequest_SizeProto_def)
  note e = this
  show "int (LogsRequest_SizeProto (new_LogsRequest demo_trace_api [[0x61], [0x62]] demo_ctx (demo_logs False))) \<le> max_i64"
    using demo_logs_small [of False] Sov_le [of "of_nat (LogsSize (demo_logs False))"]
    by (simp add: LogsRequest_SizeProto_def new_LogsRequest_def e demo_context_size Sov_small requestFormatVersion_def max_i64_def)
  show "int (TracesRequest_SizeProto (new_TracesRequest demo_trace_api [[0x61], [0x62]] demo_ctx demo_traces)) \<le> max_i64"
    using demo_traces_small Sov_le [of "of_nat (TracesSize demo_traces)"]
    by (simp add: TracesRequest_SizeProto_def new_TracesRequest_def e demo_context_size Sov_small requestFormatVersion_def max_i64_def)
  show "int (MetricsRequest_SizeProto (new_MetricsRequest demo_trace_api [[0x61], [0x62]] demo_ctx demo_metrics)) \<le> max_i64"
    using demo_metrics_small Sov_le [of "of_nat (MetricsSize demo_metrics)"]
    by (simp add: MetricsRequest_SizeProto_def new_MetricsRequest_def e demo_context_size Sov_small requestFormatVersion_def max_i64_def)
qed

lemma demo_plain_wf: "ExportMetricsServiceRequest_wf (plain_metrics demo_metrics)"
  using plain_metrics_fixed [OF demo_metrics_wf] demo_metrics_wf by simp

theorem queued_requests_roundtrip_witness:
  "(\<exists>buf. request_MarshalLogs demo_trace_api [[0x61], [0x62]] demo_ctx (demo_logs False) = Inr buf \<and>
     logsEncoding_Unmarshal demo_trace_api [[0x62], [0x61]] buf =
       Some (Inr (stored_context demo_trace_api demo_ctx, demo_logs False))) \<and>
   cx_span (stored_context demo_trace_api demo_ctx) = cx_span demo_ctx \<and>
   cx_client (stored_context demo_trace_api demo_ctx) =
     Some \<lparr>ci_Addr = net_TCPAddr [127, 0, 0, 1] 4317 [], ci_Auth = None, ci_Metadata = demo_metadata\<rparr>"
proof -
  have "cx_span (stored_context demo_trace_api demo_ctx) = cx_span demo_ctx"
    "cx_client (stored_context demo_trace_api demo_ctx) =
     Some \<lparr>ci_Addr = net_TCPAddr [127, 0, 0, 1] 4317 [], ci_Auth = None, ci_Metadata = demo_metadata\<rparr>"
    by (simp_all add: stored_context_def demo_ctx_def FromContext_def stored_addr_def demo_trace_api_def demo_ids Let_def)
  with queued_requests_roundtrip [OF demo_logs_wf demo_request_sizes(1) demo_traces_wf demo_request_sizes(2)
      demo_plain_wf demo_request_sizes(3) demo_logs_size demo_traces_size demo_metrics_size demo_ctx_ok demo_keys]
  show ?thesis by blast
qed

end
