(* ===== verification/PartitionBatcher.thy ===== *)
theory PartitionBatcher
  imports Prelude
begin

text \<open>
  The batcher of one partition (exporter/exporterhelper/internal/queuebatch/partition\_batcher.go).
  A request is merged into the current batch, requests that are large enough are handed to
  workers, and the queue learns the outcome through its \<open>Done\<close> callback.

  The callbacks are data: \<open>QueueDone k\<close> is the callback the queue passes with the request number
  \<open>k\<close>, \<open>RefCountDone a d\<close> the object \<open>refCountDone\<close> at address \<open>a\<close> with its field \<open>done\<close>, and
  \<open>MultiDone\<close> is \<open>multiDone\<close>. The two fields a \<open>refCountDone\<close> changes are kept on an explicit
  heap, since several batches share the object. The merging of errors (go.uber.org/multierr), the
  operation \<open>MergeSplit\<close> of the request and the function that exports are parameters.

  The critical sections under \<open>currentBatchMu\<close> are functions; \<open>batcher_step\<close> interleaves them with
  the goroutines of the timer, the callers, the shutdown and the workers.
\<close>

section \<open>Callbacks\<close>

datatype callback = QueueDone nat | RefCountDone nat callback | MultiDone "callback list"

record 'e refCountDone =
  rc_refCount :: int
  rc_err :: "'e option"

record 'e dones =
  ds_cells :: "'e refCountDone list"
  ds_log :: "(nat \<times> 'e option) list"

definition newRefCountDone :: "callback \<Rightarrow> int \<Rightarrow> 'e dones \<Rightarrow> callback \<times> 'e dones" where
  "newRefCountDone d refCount st =
     (RefCountDone (length (ds_cells st)) d,
      st\<lparr>ds_cells := ds_cells st @ [\<lparr>rc_refCount = refCount, rc_err = None\<rparr>]\<rparr>)"

fun OnDone ::
  "('e option \<Rightarrow> 'e option \<Rightarrow> 'e option) \<Rightarrow> 'e option \<Rightarrow> callback \<Rightarrow> 'e dones \<Rightarrow> 'e dones" where
  "OnDone multierr err (QueueDone k) st = st\<lparr>ds_log := ds_log st @ [(k, err)]\<rparr>"
| "OnDone multierr err (RefCountDone a d) st =
     (let rcd = \<lparr>rc_refCount = rc_refCount (ds_cells st ! a) - 1,
                 rc_err = multierr (rc_err (ds_cells st ! a)) err\<rparr>;
          st' = st\<lparr>ds_cells := (ds_cells st)[a := rcd]\<rparr>
      in if rc_refCount rcd = 0 then OnDone multierr (rc_err rcd) d st' else st')"
| "OnDone multierr err (MultiDone ds) st = fold (\<lambda>d. OnDone multierr err d) ds st"

section \<open>The context of a batch\<close>

text \<open>
  The part of \<open>context.Context\<close> the batcher reads: the span of the context, if it is valid, and
  the links stored under \<open>batchSpanLinksKey\<close>; everything else is the last field.
\<close>

record ('s, 'x) gocontext =
  cx_span :: "'s option"
  cx_links :: "'s list option"
  cx_values :: 'x

definition LinksFromContext :: "('s, 'x) gocontext option \<Rightarrow> 's list" where
  "LinksFromContext ctx =
     (case ctx of None \<Rightarrow> [] | Some c \<Rightarrow> (case cx_links c of Some links \<Rightarrow> links | None \<Rightarrow> []))"

definition parentsFromContext :: "('s, 'x) gocontext \<Rightarrow> 's list" where
  "parentsFromContext ctx =
     (case cx_span ctx of Some spanCtx \<Rightarrow> [spanCtx] | None \<Rightarrow> LinksFromContext (Some ctx))"

definition contextWithMergedLinks ::
  "('s, 'x) gocontext \<Rightarrow> ('s, 'x) gocontext \<Rightarrow> ('s, 'x) gocontext \<Rightarrow> ('s, 'x) gocontext" where
  "contextWithMergedLinks mergedCtx ctx1 ctx2 =
     mergedCtx\<lparr>cx_links := Some (parentsFromContext ctx1 @ parentsFromContext ctx2)\<rparr>"

section \<open>The batcher\<close>

record ('s, 'x, 'r, 'e) batch_env =
  be_MergeSplit :: "'r \<Rightarrow> 'r option \<Rightarrow> 'r list \<times> 'e option \<times> 'r"
  be_Sizeof :: "'r \<Rightarrow> int"
  be_MinSize :: int
  be_FlushTimeout :: int
  be_mergeCtx :: "(('s, 'x) gocontext \<Rightarrow> ('s, 'x) gocontext \<Rightarrow> ('s, 'x) gocontext) option"
  be_Background :: "('s, 'x) gocontext"
  be_multierr :: "'e option \<Rightarrow> 'e option \<Rightarrow> 'e option"

record ('s, 'x, 'r) batch =
  bt_ctx :: "('s, 'x) gocontext"
  bt_req :: 'r
  bt_done :: "callback list"

type_synonym ('s, 'x, 'r) flush = "('s, 'x) gocontext \<times> 'r \<times> callback"

text \<open>\<open>pb_timer\<close> says whether the timer is armed; \<open>pb_onEmpty\<close> whether the callback is not nil.\<close>

record ('s, 'x, 'r, 'e) partitionBatcher =
  pb_currentBatch :: "('s, 'x, 'r) batch option"
  pb_active :: bool
  pb_onEmpty :: bool
  pb_lastDataTime :: int
  pb_timer :: bool
  pb_dones :: "'e dones"

definition partitionIdleCycles :: int where
  "partitionIdleCycles = 10"

definition newPartitionBatcher :: "bool \<Rightarrow> int \<Rightarrow> ('s, 'x, 'r, 'e) partitionBatcher" where
  "newPartitionBatcher onEmpty now = \<lparr>pb_currentBatch = None, pb_active = True, pb_onEmpty = onEmpty,
     pb_lastDataTime = now, pb_timer = False, pb_dones = \<lparr>ds_cells = [], ds_log = []\<rparr>\<rparr>"

definition resetTimer ::
  "('s, 'x, 'r, 'e) batch_env \<Rightarrow> ('s, 'x, 'r, 'e) partitionBatcher \<Rightarrow> ('s, 'x, 'r, 'e) partitionBatcher" where
  "resetTimer env qb = (if 0 < be_FlushTimeout env then qb\<lparr>pb_timer := True\<rparr> else qb)"

definition signal_done ::
  "('s, 'x, 'r, 'e) batch_env \<Rightarrow> callback \<Rightarrow> 'e option \<Rightarrow> ('s, 'x, 'r, 'e) partitionBatcher \<Rightarrow>
   ('s, 'x, 'r, 'e) partitionBatcher" where
  "signal_done env d err qb = qb\<lparr>pb_dones := OnDone (be_multierr env) err d (pb_dones qb)\<rparr>"

text \<open>
  Both branches of \<open>consumeInternal\<close> wrap the callback when the request takes part in more than
  one export, where the error of \<open>MergeSplit\<close> counts as one.
\<close>

definition share_done ::
  "('s, 'x, 'r, 'e) batch_env \<Rightarrow> callback \<Rightarrow> 'r list \<Rightarrow> 'e option \<Rightarrow> ('s, 'x, 'r, 'e) partitionBatcher \<Rightarrow>
   callback \<times> ('s, 'x, 'r, 'e) partitionBatcher" where
  "share_done env d reqList mergeSplitErr qb =
     (let numRefs = int (length reqList) + (if mergeSplitErr \<noteq> None then 1 else 0)
      in if numRefs > 1
         then case newRefCountDone d numRefs (pb_dones qb) of
                (d', dones') \<Rightarrow>
                  (let qb' = qb\<lparr>pb_dones := dones'\<rparr>
                   in (d', if mergeSplitErr \<noteq> None then signal_done env d' mergeSplitErr qb' else qb'))
         else (d, qb))"

text \<open>The last result stays as the current batch when it is smaller than \<open>MinSize\<close>.\<close>

definition keep_last ::
  "('s, 'x, 'r, 'e) batch_env \<Rightarrow> ('s, 'x) gocontext \<Rightarrow> callback \<Rightarrow> 'r list \<Rightarrow> ('s, 'x, 'r, 'e) partitionBatcher \<Rightarrow>
   'r list \<times> ('s, 'x, 'r, 'e) partitionBatcher" where
  "keep_last env ctx d reqList qb =
     (let lastReq = last reqList
      in if be_Sizeof env lastReq < be_MinSize env
         then (butlast reqList,
               resetTimer env (qb\<lparr>pb_currentBatch := Some \<lparr>bt_ctx = ctx, bt_req = lastReq, bt_done = [d]\<rparr>\<rparr>))
         else (reqList, qb))"

text \<open>
  The critical section of \<open>consumeInternal\<close>: whether the partition is active, the flushes to
  start after the lock is released, and the new state.
\<close>

definition consumeInternal ::
  "('s, 'x, 'r, 'e) batch_env \<Rightarrow> int \<Rightarrow> ('s, 'x) gocontext \<Rightarrow> 'r \<Rightarrow> callback \<Rightarrow> ('s, 'x, 'r, 'e) partitionBatcher \<Rightarrow>
   bool \<times> ('s, 'x, 'r) flush list \<times> ('s, 'x, 'r, 'e) partitionBatcher" where
  "consumeInternal env now ctx req d qb =
     (let isActive = pb_active qb; qb = qb\<lparr>pb_lastDataTime := now\<rparr>
      in case pb_currentBatch qb of
           None \<Rightarrow>
             (case be_MergeSplit env req None of
                (reqList, mergeSplitErr, _) \<Rightarrow>
                  if reqList = [] then (isActive, [], signal_done env d mergeSplitErr qb)
                  else case share_done env d reqList mergeSplitErr qb of
                         (d', qb1) \<Rightarrow>
                           (case keep_last env ctx d' reqList qb1 of
                              (reqList', qb2) \<Rightarrow> (isActive, map (\<lambda>r. (ctx, r, d')) reqList', qb2)))
         | Some b \<Rightarrow>
             (case be_MergeSplit env (bt_req b) (Some req) of
                (reqList, mergeSplitErr, merged) \<Rightarrow>
                  if reqList = []
                  then (isActive, [],
                        signal_done env d mergeSplitErr (qb\<lparr>pb_currentBatch := Some (b\<lparr>bt_req := merged\<rparr>)\<rparr>))
                  else case share_done env d reqList mergeSplitErr qb of
                         (d', qb1) \<Rightarrow>
                           (let mergedCtx = (case be_mergeCtx env of
                                               None \<Rightarrow> be_Background env
                                             | Some mergeCtx \<Rightarrow> mergeCtx (bt_ctx b) ctx);
                                b1 = \<lparr>bt_ctx = contextWithMergedLinks mergedCtx (bt_ctx b) ctx,
                                      bt_req = hd reqList, bt_done = bt_done b @ [d']\<rparr>;
                                isFull = (1 < length reqList \<or> be_MinSize env \<le> be_Sizeof env (bt_req b1));
                                first = (if isFull then [(bt_ctx b1, bt_req b1, MultiDone (bt_done b1))] else []);
                                qb2 = qb1\<lparr>pb_currentBatch := if isFull then None else Some b1\<rparr>
                            in case (if tl reqList = [] then ([], qb2) else keep_last env ctx d' (tl reqList) qb2) of
                                 (reqList', qb3) \<Rightarrow>
                                   (isActive, first @ map (\<lambda>r. (ctx, r, d')) reqList', qb3))))"

text \<open>
  The critical section of \<open>flushCurrentBatchOrRemovePartition\<close>: the flush to start, whether
  \<open>onEmpty\<close> is called, and the new state.
\<close>

definition flushCurrentBatchOrRemovePartition ::
  "('s, 'x, 'r, 'e) batch_env \<Rightarrow> int \<Rightarrow> ('s, 'x, 'r, 'e) partitionBatcher \<Rightarrow>
   ('s, 'x, 'r) flush list \<times> bool \<times> ('s, 'x, 'r, 'e) partitionBatcher" where
  "flushCurrentBatchOrRemovePartition env now qb =
     (case pb_currentBatch qb of
        None \<Rightarrow>
          if partitionIdleCycles * be_FlushTimeout env \<le> now - pb_lastDataTime qb \<and> pb_onEmpty qb
          then ([], True, qb)
          else ([], False, resetTimer env qb)
      | Some b \<Rightarrow>
          ([(bt_ctx b, bt_req b, MultiDone (bt_done b))], False,
           resetTimer env (qb\<lparr>pb_lastDataTime := now, pb_currentBatch := None\<rparr>)))"

text \<open>The critical section of \<open>shutdownInternal\<close>; \<open>None\<close> when the partition was shut down before.\<close>

definition shutdownInternal :: "('s, 'x, 'r, 'e) partitionBatcher \<Rightarrow> ('s, 'x, 'r, 'e) partitionBatcher option" where
  "shutdownInternal qb =
     (if pb_active qb then Some (qb\<lparr>pb_active := False, pb_onEmpty := False\<rparr>) else None)"

section \<open>The goroutines\<close>

text \<open>
  A goroutine that runs batcher code: the flushes it still has to call, the one it is blocked in
  (it waits for a worker), and whether it goes on with \<open>flushCurrentBatchOrRemovePartition\<close>.
  \<open>EvictT\<close> is a shutdown that the cache of the multi batcher runs on a worker of its own pool
  when it evicts the partition, because a new partition needs the room or because \<open>onEmpty\<close> removes it.
\<close>

datatype goroutine_kind = ConsumeT | TimerT | ShutdownT | EvictT

record ('s, 'x, 'r) goroutine =
  go_kind :: goroutine_kind
  go_todo :: "('s, 'x, 'r) flush list"
  go_blocked :: "('s, 'x, 'r) flush option"
  go_flushCurrent :: bool

text \<open>
  The system: \<open>sy_free\<close> counts the tokens in the channel of the worker pool, \<open>sy_stopWG\<close> is the wait
  group, \<open>sy_flight\<close> holds the flushes running on workers. \<open>sy_exported\<close> and \<open>sy_accepted\<close> record
  the calls of \<open>consumeFunc\<close> that returned and the requests passed to \<open>Consume\<close>, in order.

  The partition is the only one, or one of those of a multi batcher (\<open>sy_multi\<close>), whose constructor
  gives it a callback \<open>onEmpty\<close>. Only then is it evicted, and only then does it share the worker pool:
  \<open>sy_others\<close> counts the workers that run flushes and evictions of the other partitions, which take
  and return them at any time. Of the callback \<open>onEmpty\<close> the model has the eviction it asks for, which
  may come at any time, and not the wait for the lock of the multi batcher.
\<close>

record ('s, 'x, 'r, 'e) batcher_system =
  sy_qb :: "('s, 'x, 'r, 'e) partitionBatcher"
  sy_go :: "('s, 'x, 'r) goroutine list"
  sy_flight :: "('s, 'x, 'r) flush list"
  sy_free :: nat
  sy_stopWG :: int
  sy_timerLoop :: bool
  sy_exported :: "(('s, 'x) gocontext \<times> 'r \<times> 'e option) list"
  sy_accepted :: "'r list"
  sy_multi :: bool
  sy_others :: nat

text \<open>\<open>NewBatcher\<close> with its worker pool, followed by \<open>Start\<close>.\<close>

definition batcher_init ::
  "('s, 'x, 'r, 'e) batch_env \<Rightarrow> nat \<Rightarrow> bool \<Rightarrow> int \<Rightarrow> ('s, 'x, 'r, 'e) batcher_system" where
  "batcher_init env workers onEmpty now =
     \<lparr>sy_qb = (newPartitionBatcher onEmpty now)\<lparr>pb_timer := 0 < be_FlushTimeout env\<rparr>,
      sy_go = [], sy_flight = [], sy_free = workers,
      sy_stopWG = (if 0 < be_FlushTimeout env then 1 else 0),
      sy_timerLoop = (0 < be_FlushTimeout env), sy_exported = [], sy_accepted = [],
      sy_multi = onEmpty, sy_others = 0\<rparr>"

abbreviation spawn ::
  "goroutine_kind \<Rightarrow> ('s, 'x, 'r) flush list \<Rightarrow> bool \<Rightarrow> ('s, 'x, 'r) goroutine" where
  "spawn k todo flushCurrent \<equiv> \<lparr>go_kind = k, go_todo = todo, go_blocked = None, go_flushCurrent = flushCurrent\<rparr>"

inductive batcher_step ::
  "('s, 'x, 'r, 'e) batch_env \<Rightarrow> ('s, 'x, 'r, 'e) batcher_system \<Rightarrow> ('s, 'x, 'r, 'e) batcher_system \<Rightarrow> bool"
  for env where
  Consume: "consumeInternal env now ctx req (QueueDone (length (sy_accepted s))) (sy_qb s) = (isActive, todo, qb) \<Longrightarrow>
    batcher_step env s (s\<lparr>sy_qb := qb, sy_go := spawn ConsumeT todo (\<not> isActive) # sy_go s,
                          sy_accepted := sy_accepted s @ [req]\<rparr>)"
| FlushCall: "sy_go s = gs @ g # hs \<Longrightarrow> go_blocked g = None \<Longrightarrow> go_todo g = f # fs \<Longrightarrow>
    batcher_step env s (s\<lparr>sy_go := gs @ g\<lparr>go_todo := fs, go_blocked := Some f\<rparr> # hs,
                          sy_stopWG := sy_stopWG s + 1\<rparr>)"
| FlushStart: "sy_go s = gs @ g # hs \<Longrightarrow> go_blocked g = Some f \<Longrightarrow> 0 < sy_free s \<Longrightarrow>
    batcher_step env s (s\<lparr>sy_go := gs @ g\<lparr>go_blocked := None\<rparr> # hs, sy_free := sy_free s - 1,
                          sy_flight := f # sy_flight s\<rparr>)"
| FlushEnd: "sy_flight s = fs @ (ctx, req, d) # hs \<Longrightarrow>
    batcher_step env s (s\<lparr>sy_qb := signal_done env d err (sy_qb s), sy_flight := fs @ hs,
                          sy_stopWG := sy_stopWG s - 1, sy_free := sy_free s + 1,
                          sy_exported := sy_exported s @ [(ctx, req, err)]\<rparr>)"
| FlushCurrent: "sy_go s = gs @ g # hs \<Longrightarrow> go_blocked g = None \<Longrightarrow> go_todo g = [] \<Longrightarrow> go_flushCurrent g \<Longrightarrow>
    flushCurrentBatchOrRemovePartition env now (sy_qb s) = (todo, onEmpty, qb) \<Longrightarrow>
    batcher_step env s (s\<lparr>sy_qb := qb, sy_go := gs @ g\<lparr>go_todo := todo, go_flushCurrent := False\<rparr> # hs\<rparr>)"
| TimerFires: "sy_timerLoop s \<Longrightarrow> TimerT \<notin> go_kind ` set (sy_go s) \<Longrightarrow> pb_timer (sy_qb s) \<Longrightarrow>
    batcher_step env s (s\<lparr>sy_qb := (sy_qb s)\<lparr>pb_timer := False\<rparr>, sy_go := spawn TimerT [] True # sy_go s\<rparr>)"
| TimerLoopEnds: "sy_timerLoop s \<Longrightarrow> TimerT \<notin> go_kind ` set (sy_go s) \<Longrightarrow> \<not> pb_active (sy_qb s) \<Longrightarrow>
    batcher_step env s (s\<lparr>sy_timerLoop := False, sy_stopWG := sy_stopWG s - 1\<rparr>)"
| ShutdownStarts: "shutdownInternal (sy_qb s) = Some qb \<Longrightarrow>
    batcher_step env s (s\<lparr>sy_qb := qb, sy_go := spawn ShutdownT [] True # sy_go s\<rparr>)"
| EvictStarts: "sy_multi s \<Longrightarrow> shutdownInternal (sy_qb s) = Some qb \<Longrightarrow> 0 < sy_free s \<Longrightarrow>
    batcher_step env s (s\<lparr>sy_qb := qb, sy_go := spawn EvictT [] True # sy_go s, sy_free := sy_free s - 1\<rparr>)"
| OthersTake: "sy_multi s \<Longrightarrow> 0 < sy_free s \<Longrightarrow>
    batcher_step env s (s\<lparr>sy_free := sy_free s - 1, sy_others := sy_others s + 1\<rparr>)"
| OthersReturn: "0 < sy_others s \<Longrightarrow>
    batcher_step env s (s\<lparr>sy_free := sy_free s + 1, sy_others := sy_others s - 1\<rparr>)"
| Returns: "sy_go s = gs @ g # hs \<Longrightarrow> go_blocked g = None \<Longrightarrow> go_todo g = [] \<Longrightarrow> \<not> go_flushCurrent g \<Longrightarrow>
    go_kind g \<in> {ShutdownT, EvictT} \<longrightarrow> sy_stopWG s = 0 \<Longrightarrow>
    batcher_step env s (s\<lparr>sy_go := gs @ hs, sy_free := sy_free s + (if go_kind g = EvictT then 1 else 0)\<rparr>)"

abbreviation batcher_reachable ::
  "('s, 'x, 'r, 'e) batch_env \<Rightarrow> nat \<Rightarrow> bool \<Rightarrow> int \<Rightarrow> ('s, 'x, 'r, 'e) batcher_system \<Rightarrow> bool" where
  "batcher_reachable env workers onEmpty now s \<equiv> (batcher_step env)\<^sup>*\<^sup>* (batcher_init env workers onEmpty now) s"

end
