(* ===== verification/BatcherCallbacks.thy ===== *)
theory BatcherCallbacks
  imports PartitionBatcher
begin

text \<open>
  The protocol of the batcher's callbacks. Each queue callback is a ticket: it is called already
  and nobody refers to it, or it is not called yet and is referred to by exactly one place, or by
  as many places as the reference count of its \<open>refCountDone\<close> says.
\<close>

fun atoms :: "callback \<Rightarrow> callback list" where
  "atoms (MultiDone ds) = concat (map atoms ds)"
| "atoms (QueueDone k) = [QueueDone k]"
| "atoms (RefCountDone a d) = [RefCountDone a d]"

fun owner :: "callback \<Rightarrow> nat" where
  "owner (QueueDone k) = k"
| "owner (RefCountDone a d) = owner d"
| "owner (MultiDone ds) = 0"

lemma OnDone_atoms: "OnDone app err d st = fold (OnDone app err) (atoms d) st"
proof (induction app err d st rule: OnDone.induct)
  case (3 app err ds st)
  have "fold (\<lambda>d. OnDone app err d) es st = fold (OnDone app err) (concat (map atoms es)) st" if "set es \<subseteq> set ds" for es
    using that
  proof (induction es rule: rev_induct)
    case (snoc e es)
    then show ?case using 3 [of e "fold (OnDone app err) (concat (map atoms es)) st"] by simp
  qed simp
  then show ?case by simp
qed (simp_all add: Let_def)

abbreviation owned :: "callback multiset \<Rightarrow> nat \<Rightarrow> callback multiset" where
  "owned P k \<equiv> filter_mset (\<lambda>c. owner c = k) P"

definition logged :: "'e dones \<Rightarrow> nat \<Rightarrow> nat" where
  "logged st k = count_list (map fst (ds_log st)) k"

definition shared_by :: "'e dones \<Rightarrow> callback multiset \<Rightarrow> nat \<Rightarrow> nat \<Rightarrow> bool" where
  "shared_by st P k a \<longleftrightarrow> a < length (ds_cells st) \<and> 0 < rc_refCount (ds_cells st ! a) \<and>
     owned P k = replicate_mset (nat (rc_refCount (ds_cells st ! a))) (RefCountDone a (QueueDone k))"

definition ticket :: "'e dones \<Rightarrow> callback multiset \<Rightarrow> nat \<Rightarrow> bool" where
  "ticket st P k \<longleftrightarrow>
     (owned P k = {#} \<and> logged st k = 1) \<or>
     (logged st k = 0 \<and> (owned P k = {#QueueDone k#} \<or> (\<exists>a. shared_by st P k a)))"

definition tickets :: "'e dones \<Rightarrow> callback multiset \<Rightarrow> nat \<Rightarrow> bool" where
  "tickets st P n \<longleftrightarrow> (\<forall>k<n. ticket st P k) \<and> (\<forall>c\<in>#P. owner c < n) \<and> (\<forall>k. logged st k \<noteq> 0 \<longrightarrow> k < n) \<and>
     (\<forall>a k k'. RefCountDone a (QueueDone k) \<in># P \<longrightarrow> RefCountDone a (QueueDone k') \<in># P \<longrightarrow> k = k')"

lemma ticketsD:
  assumes "tickets st P n"
  shows "k < n \<Longrightarrow> ticket st P k" and "c \<in># P \<Longrightarrow> owner c < n" and "logged st k \<noteq> 0 \<Longrightarrow> k < n"
    and "RefCountDone a (QueueDone k) \<in># P \<Longrightarrow> RefCountDone a (QueueDone k') \<in># P \<Longrightarrow> k = k'"
  using assms unfolding tickets_def by blast+

lemma atom_cases:
  assumes "tickets st P n" and "c \<in># P"
  obtains k where "k < n" "c = QueueDone k" "owned P k = {#QueueDone k#}" "logged st k = 0"
  | k a where "k < n" "c = RefCountDone a (QueueDone k)" "shared_by st P k a" "logged st k = 0"
proof -
  let ?k = "owner c"
  have k: "?k < n" using ticketsD(2) [OF assms] .
  have mem: "c \<in># owned P ?k" using assms(2) by simp
  consider "logged st ?k = 0" "owned P ?k = {#QueueDone ?k#}"
    | a where "logged st ?k = 0" "shared_by st P ?k a"
    using ticketsD(1) [OF assms(1) k] mem unfolding ticket_def by auto
  then show thesis
  proof cases
    case 1
    then have "c = QueueDone ?k" using mem unfolding 1(2) by simp
    with 1 k show thesis by (intro that(1)) auto
  next
    case 2
    then have "c = RefCountDone a (QueueDone ?k)"
      using mem unfolding shared_by_def by (auto simp: in_replicate_mset split: if_splits)
    with 2 k show thesis by (intro that(2)) auto
  qed
qed

lemma tickets_empty: "tickets \<lparr>ds_cells = [], ds_log = []\<rparr> {#} 0"
  by (simp add: tickets_def logged_def)

lemma tickets_new:
  assumes "tickets st P n"
  shows "tickets st (add_mset (QueueDone n) P) (Suc n)"
proof -
  have fresh: "owned P n = {#}" using ticketsD(2) [OF assms] by auto
  have nolog: "logged st n = 0" using ticketsD(3) [OF assms, of n] by auto
  have "ticket st (add_mset (QueueDone n) P) k" if "k < Suc n" for k
  proof (cases "k = n")
    case True
    then show ?thesis using fresh nolog by (simp add: ticket_def)
  next
    case False
    then show ?thesis using ticketsD(1) [OF assms, of k] that by (simp add: ticket_def shared_by_def)
  qed
  moreover have "owner c < Suc n" if "c \<in># add_mset (QueueDone n) P" for c
    using that ticketsD(2) [OF assms] by (auto intro: less_SucI)
  moreover have "k < Suc n" if "logged st k \<noteq> 0" for k using ticketsD(3) [OF assms that] by simp
  ultimately show ?thesis using ticketsD(4) [OF assms] unfolding tickets_def by auto
qed

lemma cell_in_heap: "tickets st P n \<Longrightarrow> RefCountDone a d \<in># P \<Longrightarrow> a < length (ds_cells st)"
  by (erule atom_cases, assumption) (auto simp: shared_by_def)

lemma tickets_share:
  assumes t: "tickets st (add_mset (QueueDone k) P) n" and m: "0 < m"
    and new: "newRefCountDone (QueueDone k) (int m) st = (d, st')"
  shows "tickets st' (replicate_mset m d + P) n"
proof -
  let ?Q = "add_mset (QueueDone k) P" and ?a = "length (ds_cells st)"
  have d: "d = RefCountDone ?a (QueueDone k)"
    and st': "st' = st\<lparr>ds_cells := ds_cells st @ [\<lparr>rc_refCount = int m, rc_err = None\<rparr>]\<rparr>"
    using new by (auto simp: newRefCountDone_def)
  have log: "logged st' j = logged st j" for j by (simp add: st' logged_def)
  have kn: "k < n" using ticketsD(2) [OF t, of "QueueDone k"] by simp
  have "owned ?Q k = {#QueueDone k#} \<and> logged st k = 0"
    using atom_cases [OF t, of "QueueDone k"] by (metis callback.distinct(1) callback.inject(1) union_single_eq_member)
  then have none: "owned P k = {#}" and lk: "logged st k = 0" by simp_all
  have fresh: "RefCountDone ?a e \<notin># P" for e using cell_in_heap [OF t, of ?a e] by auto
  have "ticket st' (replicate_mset m d + P) j" if j: "j < n" for j
  proof (cases "j = k")
    case True
    have "filter_mset (\<lambda>c. owner c = k) (replicate_mset m d) = replicate_mset m d"
      by (induction m) (simp_all add: d)
    then have "shared_by st' (replicate_mset m d + P) k ?a"
      using none m d by (simp add: shared_by_def st')
    then show ?thesis using True lk log by (auto simp: ticket_def)
  next
    case False
    have "filter_mset (\<lambda>c. owner c = j) (replicate_mset m d) = {#}"
      using False by (induction m) (simp_all add: d)
    then have o: "owned (replicate_mset m d + P) j = owned P j" "owned ?Q j = owned P j"
      using False by simp_all
    have "shared_by st' (replicate_mset m d + P) j a" if "shared_by st ?Q j a" for a
      using that o by (auto simp: shared_by_def st' nth_append)
    then show ?thesis using ticketsD(1) [OF t j] o log unfolding ticket_def by auto
  qed
  moreover have "owner c < n" if "c \<in># replicate_mset m d + P" for c
    using that ticketsD(2) [OF t] kn d by (auto simp: in_replicate_mset split: if_splits)
  moreover have "RefCountDone a (QueueDone i) \<in># replicate_mset m d + P \<longrightarrow>
      RefCountDone a (QueueDone j) \<in># replicate_mset m d + P \<longrightarrow> i = j" for a i j
    using ticketsD(4) [OF t] fresh d by (auto simp: in_replicate_mset)
  moreover have "j < n" if "logged st' j \<noteq> 0" for j using ticketsD(3) [OF t] that log by simp
  ultimately show ?thesis unfolding tickets_def by blast
qed

lemma logged_snoc: "logged (st\<lparr>ds_log := ds_log st @ [(k, e)]\<rparr>) j = logged st j + (if j = k then 1 else 0)"
  by (simp add: logged_def)

lemma logged_cells [simp]: "logged (ds_cells_update f st) j = logged st j"
  by (simp add: logged_def)

lemma shared_by_log [simp]: "shared_by (ds_log_update f st) P k a = shared_by st P k a"
  by (simp add: shared_by_def)

lemma shared_member: "shared_by st P k a \<Longrightarrow> RefCountDone a (QueueDone k) \<in># P"
proof -
  assume "shared_by st P k a"
  then have "RefCountDone a (QueueDone k) \<in># owned P k"
    by (simp add: shared_by_def in_replicate_mset)
  then show ?thesis by simp
qed

text \<open>A call of a callback uses up one reference to it.\<close>

lemma ticket_other:
  assumes t: "tickets st (add_mset c P) n" and j: "j < n" "j \<noteq> owner c"
    and log: "logged st' j = logged st j"
    and cells: "\<And>a. c \<noteq> RefCountDone a (QueueDone (owner c)) \<Longrightarrow> a < length (ds_cells st) \<Longrightarrow>
      a < length (ds_cells st') \<and> ds_cells st' ! a = ds_cells st ! a"
  shows "ticket st' P j"
proof -
  have o: "owned (add_mset c P) j = owned P j" using j by simp
  have "shared_by st' P j a" if s: "shared_by st (add_mset c P) j a" for a
  proof -
    have "c \<noteq> RefCountDone a (QueueDone (owner c))"
    proof
      assume c: "c = RefCountDone a (QueueDone (owner c))"
      then have "RefCountDone a (QueueDone (owner c)) \<in># add_mset c P" by (metis union_single_eq_member)
      from ticketsD(4) [OF t this shared_member [OF s]] j show False by simp
    qed
    from cells [OF this] s o show ?thesis unfolding shared_by_def by auto
  qed
  with ticketsD(1) [OF t j(1)] o log show ?thesis unfolding ticket_def by auto
qed

lemma tickets_mono:
  assumes "tickets st (add_mset c P) n" and "\<And>j. j < n \<Longrightarrow> ticket st' P j"
    and "\<And>j. logged st' j \<noteq> 0 \<Longrightarrow> j < n"
  shows "tickets st' P n"
proof -
  have sub: "e \<in># P \<Longrightarrow> e \<in># add_mset c P" for e by simp
  have "k = k'" if "RefCountDone a (QueueDone k) \<in># P" "RefCountDone a (QueueDone k') \<in># P" for a k k'
    using ticketsD(4) [OF assms(1)] that sub by blast
  moreover have "owner e < n" if "e \<in># P" for e using ticketsD(2) [OF assms(1)] that sub by blast
  ultimately show ?thesis using assms(2,3) unfolding tickets_def by blast
qed

lemma tickets_queue_done:
  assumes t: "tickets st (add_mset (QueueDone k) P) n"
  shows "tickets (OnDone app err (QueueDone k) st) P n"
proof (rule tickets_mono [OF t])
  let ?st = "OnDone app err (QueueDone k) st"
  have k: "k < n" using ticketsD(2) [OF t, of "QueueDone k"] by simp
  have "owned (add_mset (QueueDone k) P) k = {#QueueDone k#}" and l: "logged st k = 0"
    using atom_cases [OF t, of "QueueDone k"] by (metis callback.distinct(1) callback.inject(1) union_single_eq_member)+
  then have e: "owned P k = {#}" by simp
  show "ticket ?st P j" if j: "j < n" for j
  proof (cases "j = k")
    case True
    with e l show ?thesis by (simp add: ticket_def logged_snoc)
  next
    case False
    show ?thesis by (rule ticket_other [OF t j]) (use False in \<open>simp_all add: logged_snoc\<close>)
  qed
  show "j < n" if "logged ?st j \<noteq> 0" for j
    using that k ticketsD(3) [OF t, of j] by (auto simp: logged_snoc split: if_splits)
qed

lemma tickets_ref_done:
  assumes t: "tickets st (add_mset (RefCountDone a (QueueDone k)) P) n"
  shows "tickets (OnDone app err (RefCountDone a (QueueDone k)) st) P n"
proof (rule tickets_mono [OF t])
  let ?c = "RefCountDone a (QueueDone k)" and ?r = "rc_refCount (ds_cells st ! a)"
  let ?st = "OnDone app err ?c st"
  have k: "k < n" using ticketsD(2) [OF t, of ?c] by simp
  have s: "shared_by st (add_mset ?c P) k a" and l: "logged st k = 0"
    using atom_cases [OF t, of ?c] by (metis callback.distinct(1) callback.inject(1,2) union_single_eq_member)+
  then have a: "a < length (ds_cells st)" and r: "0 < ?r" unfolding shared_by_def by auto
  have "add_mset ?c (owned P k) = replicate_mset (nat ?r) ?c" using s by (simp add: shared_by_def)
  moreover have "nat ?r = Suc (nat (?r - 1))" using r by simp
  ultimately have o: "owned P k = replicate_mset (nat (?r - 1)) ?c" by simp
  have log: "logged ?st j = logged st j + (if j = k \<and> ?r = 1 then 1 else 0)" for j
    by (simp add: Let_def logged_def)
  show "ticket ?st P j" if j: "j < n" for j
  proof (cases "j = k")
    case False
    show ?thesis by (rule ticket_other [OF t j]) (use False log in \<open>simp_all add: Let_def\<close>)
  next
    case True
    show ?thesis
    proof (cases "?r = 1")
      case one: True
      have "owned P k = {#}" using o one by simp
      with True l one log show ?thesis unfolding ticket_def by simp
    next
      case False
      then have "shared_by ?st P k a" using o a r by (simp add: shared_by_def Let_def)
      with True l False log show ?thesis unfolding ticket_def by auto
    qed
  qed
  show "j < n" if "logged ?st j \<noteq> 0" for j
    using that k ticketsD(3) [OF t, of j] log [of j] by (auto split: if_splits)
qed

lemma tickets_atom:
  assumes "tickets st (add_mset c P) n"
  shows "tickets (OnDone app err c st) P n"
  using atom_cases [OF assms, of c] tickets_queue_done tickets_ref_done assms by (metis union_single_eq_member)

lemma tickets_OnDone:
  assumes "tickets st (mset (atoms d) + P) n"
  shows "tickets (OnDone app err d st) P n"
proof -
  have "tickets st (mset cs + P) n \<Longrightarrow> tickets (fold (OnDone app err) cs st) P n" for cs
    by (induction cs arbitrary: st) (simp_all add: tickets_atom)
  with assms show ?thesis by (simp add: OnDone_atoms [of _ _ d])
qed

section \<open>Failures\<close>

text \<open>
  A request has failed when its queue callback got an error, or the shared object that will call
  it holds one. Failures are never forgotten, provided that merging errors loses none.
\<close>

definition failed :: "'e dones \<Rightarrow> callback multiset \<Rightarrow> nat \<Rightarrow> bool" where
  "failed st P k \<longleftrightarrow> (\<exists>e. (k, Some e) \<in> set (ds_log st)) \<or>
     (\<exists>a. RefCountDone a (QueueDone k) \<in># P \<and> a < length (ds_cells st) \<and> rc_err (ds_cells st ! a) \<noteq> None)"

definition keeps_errors :: "('e option \<Rightarrow> 'e option \<Rightarrow> 'e option) \<Rightarrow> bool" where
  "keeps_errors app \<longleftrightarrow> (\<forall>a b. app a b = None \<longleftrightarrow> a = None \<and> b = None)"

lemma failed_log: "(k, Some e) \<in> set (ds_log st) \<Longrightarrow> failed st P k"
  by (auto simp: failed_def)

lemma failed_atom:
  assumes app: "keeps_errors app" and t: "tickets st (add_mset c P) n"
    and f: "failed st (add_mset c P) k \<or> (err \<noteq> None \<and> owner c = k)"
  shows "failed (OnDone app err c st) P k"
  using t
proof (rule atom_cases [where c = c])
  show "c \<in># add_mset c P" by simp
next
  fix j assume c: "c = QueueDone j"
  show ?thesis using f unfolding c failed_def by auto
next
  fix j a assume c: "c = RefCountDone a (QueueDone j)" and s: "shared_by st (add_mset c P) j a"
  let ?r = "rc_refCount (ds_cells st ! a)" and ?e = "app (rc_err (ds_cells st ! a)) err"
  have a: "a < length (ds_cells st)" using s by (simp add: shared_by_def)
  show ?thesis
  proof (cases "k = j \<and> ?e \<noteq> None")
    case True
    then obtain e where e: "?e = Some e" by auto
    show ?thesis
    proof (cases "?r = 1")
      case one: True
      then show ?thesis using True e by (intro failed_log [of _ e]) (simp add: c Let_def)
    next
      case False
      have "add_mset c (owned P j) = replicate_mset (nat ?r) c" and "0 < ?r"
        using s by (simp_all add: shared_by_def c)
      moreover from this(2) False have "nat ?r = Suc (Suc (nat (?r - 2)))" by simp
      ultimately have "owned P j = replicate_mset (Suc (nat (?r - 2))) c" by simp
      then have "c \<in># owned P j" by (simp add: in_replicate_mset)
      then have "RefCountDone a (QueueDone k) \<in># P" using True c by simp
      then show ?thesis using False e a unfolding failed_def by (auto simp: c Let_def intro!: exI [of _ a])
    qed
  next
    case False
    have "failed st (add_mset c P) k"
      using f False app by (auto simp: c keeps_errors_def)
    then consider e where "(k, Some e) \<in> set (ds_log st)"
      | b where "RefCountDone b (QueueDone k) \<in># add_mset c P" "b < length (ds_cells st)" "rc_err (ds_cells st ! b) \<noteq> None"
      unfolding failed_def by auto
    then show ?thesis
    proof cases
      case 1
      then show ?thesis by (intro failed_log [of _ e]) (simp add: c Let_def)
    next
      case 2
      have "b \<noteq> a"
      proof
        assume "b = a"
        moreover have "RefCountDone a (QueueDone j) \<in># add_mset c P" using c by simp
        ultimately have "k = j" using ticketsD(4) [OF t] 2(1) by blast
        with \<open>b = a\<close> 2(3) False app show False by (auto simp: keeps_errors_def)
      qed
      moreover from this 2(1) c have "RefCountDone b (QueueDone k) \<in># P" by simp
      ultimately show ?thesis using 2 unfolding failed_def by (auto simp: c Let_def intro!: exI [of _ b])
    qed
  qed
qed

lemma failed_OnDone:
  assumes app: "keeps_errors app" and t: "tickets st (mset (atoms d) + P) n"
    and f: "failed st (mset (atoms d) + P) k \<or> (err \<noteq> None \<and> k \<in> owner ` set (atoms d))"
  shows "failed (OnDone app err d st) P k"
proof -
  have "failed (fold (OnDone app err) cs st) P k"
    if "tickets st (mset cs + P) n" "failed st (mset cs + P) k \<or> (err \<noteq> None \<and> k \<in> owner ` set cs)" for cs
    using that
  proof (induction cs arbitrary: st)
    case (Cons c cs)
    let ?st = "OnDone app err c st"
    have t': "tickets st (add_mset c (mset cs + P)) n" using Cons.prems(1) by simp
    have "failed ?st (mset cs + P) k \<or> (err \<noteq> None \<and> k \<in> owner ` set cs)"
      using failed_atom [OF app t', where k = k] Cons.prems(2) by auto
    from Cons.IH [OF tickets_atom [OF t'] this] show ?case by simp
  qed simp
  with t f show ?thesis by (simp add: OnDone_atoms [of _ _ d])
qed

lemma failed_new: "failed st P k \<Longrightarrow> failed st (add_mset (QueueDone n) P) k"
  unfolding failed_def by auto

lemma failed_share:
  assumes "newRefCountDone (QueueDone j) m st = (d, st')" and "failed st (add_mset (QueueDone j) P) k"
  shows "failed st' (replicate_mset i d + P) k"
  using assms unfolding failed_def newRefCountDone_def
  by (elim disjE exE conjE; clarsimp) (metis nth_append less_SucI option.distinct(1))+

lemma not_failed:
  assumes t: "tickets st P n" and log: "(k, None) \<in> set (ds_log st)"
  shows "\<not> failed st P k"
proof
  have count: "x \<in> set xs \<Longrightarrow> 0 < count_list xs x" for x :: nat and xs by (metis count_list_0_iff gr0I)
  have "k \<in> set (map fst (ds_log st))" using log by force
  then have pos: "0 < logged st k" using count by (simp add: logged_def)
  then have k: "k < n" using ticketsD(3) [OF t] by simp
  have "ticket st P k" using ticketsD(1) [OF t k] .
  then have one: "owned P k = {#}" "logged st k = 1" using pos unfolding ticket_def by auto
  assume "failed st P k"
  moreover have "RefCountDone a (QueueDone k) \<notin># P" for a
  proof
    assume "RefCountDone a (QueueDone k) \<in># P"
    then have "RefCountDone a (QueueDone k) \<in># owned P k" by simp
    then show False unfolding one(1) by simp
  qed
  ultimately obtain e where e: "(k, Some e) \<in> set (ds_log st)" unfolding failed_def by auto
  have two: "2 \<le> count_list (map fst xs) k" if "(k, None) \<in> set xs" "(k, Some e) \<in> set xs" for xs :: "(nat \<times> 'a option) list"
    using that
  proof (induction xs)
    case (Cons x xs)
    have "k \<in> set (map fst xs)" if "(k, v) \<in> set xs" for v using that by force
    with count Cons show ?case by (auto simp: Suc_le_eq)
  qed simp
  from two [OF log e] one(2) show False by (simp add: logged_def)
qed

lemma ticket_final:
  assumes "tickets st {#} n" and "k < n"
  shows "logged st k = 1"
  using ticketsD(1) [OF assms] by (auto simp: ticket_def shared_by_def)

lemma ticket_once:
  assumes "tickets st P n"
  shows "logged st k \<le> 1"
  using ticketsD(1) [OF assms, of k] ticketsD(3) [OF assms, of k] unfolding ticket_def by linarith

end
