(* ===== verification/BatcherSystem.thy ===== *)
theory BatcherSystem
  imports BatcherCallbacks
begin

text \<open>
  The invariants of the running batcher. The cargo of a flush is the request it exports and the
  callbacks it will call; \<open>held\<close> collects the cargo of the current batch, of the goroutines and of
  the workers. An interface gives the laws of \<open>MergeSplit\<close> the batcher relies on for what it
  tells the queue.
\<close>

section \<open>What the batcher holds\<close>

definition cargo :: "('s, 'x, 'r) flush \<Rightarrow> 'r \<times> callback multiset" where
  "cargo f = (fst (snd f), mset (atoms (snd (snd f))))"

definition batch_cargo :: "('s, 'x, 'r, 'e) partitionBatcher \<Rightarrow> ('r \<times> callback multiset) multiset" where
  "batch_cargo qb = (case pb_currentBatch qb of None \<Rightarrow> {#}
     | Some b \<Rightarrow> {#(bt_req b, mset (atoms (MultiDone (bt_done b))))#})"

definition go_cargo :: "('s, 'x, 'r) goroutine \<Rightarrow> ('r \<times> callback multiset) multiset" where
  "go_cargo g = mset (map cargo (case go_blocked g of None \<Rightarrow> [] | Some f \<Rightarrow> [f])) + mset (map cargo (go_todo g))"

definition held :: "('s, 'x, 'r, 'e) batcher_system \<Rightarrow> ('r \<times> callback multiset) multiset" where
  "held s = batch_cargo (sy_qb s) + sum_list (map go_cargo (sy_go s)) + mset (map cargo (sy_flight s))"

definition refs :: "('r \<times> callback multiset) multiset \<Rightarrow> callback multiset" where
  "refs H = sum_mset (image_mset snd H)"

lemma refs_simps [simp]:
  "refs {#} = {#}" "refs (add_mset x H) = snd x + refs H" "refs (H + K) = refs H + refs K"
  by (simp_all add: refs_def)

lemma refs_const: "refs (image_mset (\<lambda>r. (r, {#d#})) (mset rs)) = replicate_mset (length rs) d"
  by (induction rs) simp_all

section \<open>The critical sections\<close>

lemma share_done_tickets:
  assumes "share_done env (QueueDone k) reqList err qb = (d, qb')" and "reqList \<noteq> []"
    and t: "tickets (pb_dones qb) (add_mset (QueueDone k) P) n"
  shows "atoms d = [d] \<and> owner d = k \<and> qb' = qb\<lparr>pb_dones := pb_dones qb'\<rparr> \<and>
    tickets (pb_dones qb') (replicate_mset (length reqList) d + P) n \<and>
    (keeps_errors (be_multierr env) \<longrightarrow>
       failed (pb_dones qb) (add_mset (QueueDone k) P) j \<or> (j = k \<and> err \<noteq> None) \<longrightarrow>
       failed (pb_dones qb') (replicate_mset (length reqList) d + P) j)"
proof (cases "1 < int (length reqList) + (if err \<noteq> None then 1 else 0)")
  case False
  moreover obtain r rs where "reqList = r # rs" using assms(2) by (cases reqList) auto
  ultimately have "length reqList = 1" "err = None" "d = QueueDone k" "qb' = qb"
    using assms(1) by (auto simp: share_done_def Let_def split: if_splits)
  then show ?thesis using t by simp
next
  case True
  define m where "m = length reqList + (if err \<noteq> None then 1 else 0)"
  have m: "0 < m" "int (length reqList) + (if err \<noteq> None then 1 else 0) = int m"
    using assms(2) by (simp_all add: m_def)
  obtain d1 st where new: "newRefCountDone (QueueDone k) (int m) (pb_dones qb) = (d1, st)" by force
  have d1: "atoms d1 = [d1]" "owner d1 = k" using new by (auto simp: newRefCountDone_def)
  note t1 = tickets_share [OF t m(1) new]
  have f1: "failed st (replicate_mset m d1 + P) j" if "failed (pb_dones qb) (add_mset (QueueDone k) P) j"
    using failed_share [OF new that] .
  show ?thesis
  proof (cases err)
    case None
    then have "d = d1" "qb' = qb\<lparr>pb_dones := st\<rparr>" "m = length reqList"
      using assms(1) True new m(2) by (auto simp: share_done_def Let_def m_def)
    then show ?thesis using d1 t1 f1 None by simp
  next
    case (Some e)
    then have eqs: "d = d1" "qb' = qb\<lparr>pb_dones := OnDone (be_multierr env) err d1 st\<rparr>" "m = Suc (length reqList)"
      using assms(1) True new m(2) by (auto simp: share_done_def Let_def m_def signal_done_def add.commute)
    have t2: "tickets st (mset (atoms d1) + (replicate_mset (length reqList) d1 + P)) n" using t1 eqs d1 by simp
    have "failed (OnDone (be_multierr env) err d1 st) (replicate_mset (length reqList) d1 + P) j"
      if "keeps_errors (be_multierr env)" "failed (pb_dones qb) (add_mset (QueueDone k) P) j \<or> (j = k \<and> err \<noteq> None)"
      using failed_OnDone [OF that(1) t2] that(2) f1 d1 eqs(3) by auto
    then show ?thesis using tickets_OnDone [OF t2] d1 eqs by simp
  qed
qed

lemma resetTimer_same [simp]:
  "pb_currentBatch (resetTimer env qb) = pb_currentBatch qb" "pb_active (resetTimer env qb) = pb_active qb"
  "pb_dones (resetTimer env qb) = pb_dones qb" "batch_cargo (resetTimer env qb) = batch_cargo qb"
  by (simp_all add: resetTimer_def batch_cargo_def)

lemma keep_last_cargo:
  assumes "keep_last env ctx d reqList qb = (rest, qb')" and "reqList \<noteq> []" and "pb_currentBatch qb = None"
    and "atoms d = [d]"
  shows "batch_cargo qb' + mset (map cargo (map (\<lambda>r. (ctx, r, d)) rest)) = mset (map (\<lambda>r. (r, {#d#})) reqList)"
    and "pb_dones qb' = pb_dones qb" and "pb_active qb' = pb_active qb"
    and "pb_currentBatch qb' \<noteq> None \<Longrightarrow> 0 < be_FlushTimeout env \<Longrightarrow> pb_timer qb'"
    and "pb_currentBatch qb' = Some b \<Longrightarrow> be_Sizeof env (bt_req b) < be_MinSize env"
    and "pb_currentBatch qb' = Some b \<Longrightarrow> bt_req b = last reqList"
proof -
  have split: "map (\<lambda>r. (r, {#d#})) reqList = map (\<lambda>r. (r, {#d#})) (butlast reqList) @ [(last reqList, {#d#})]"
    by (subst append_butlast_last_id [OF assms(2), symmetric]) (simp only: map_append list.map)
  have c: "map cargo (map (\<lambda>r. (ctx, r, d)) rs) = map (\<lambda>r. (r, {#d#})) rs" for rs
    using assms(4) by (simp add: cargo_def)
  have c': "cargo \<circ> (\<lambda>r. (ctx, r, d)) = (\<lambda>r. (r, {#d#}))" using assms(4) by (simp add: cargo_def fun_eq_iff)
  show "batch_cargo qb' + mset (map cargo (map (\<lambda>r. (ctx, r, d)) rest)) = mset (map (\<lambda>r. (r, {#d#})) reqList)"
  proof (cases "be_Sizeof env (last reqList) < be_MinSize env")
    case True
    with assms(1) have "rest = butlast reqList" and "batch_cargo qb' = {#(last reqList, {#d#})#}"
      using assms(4) by (auto simp: keep_last_def Let_def batch_cargo_def)
    then show ?thesis unfolding split by (simp add: c')
  next
    case False
    with assms(1,3) show ?thesis by (auto simp: keep_last_def Let_def batch_cargo_def c')
  qed
qed (use assms in \<open>auto simp: keep_last_def Let_def resetTimer_def split: if_splits\<close>)

text \<open>
  One analysis of \<open>consumeInternal\<close> serves every invariant. \<open>old\<close> is the cargo of the current
  batch, if there is one.
\<close>

definition absorb :: "('r \<times> callback multiset) option \<Rightarrow> 'r list \<Rightarrow> callback \<Rightarrow> ('r \<times> callback multiset) multiset" where
  "absorb old rs d = (case old of None \<Rightarrow> mset (map (\<lambda>r. (r, {#d#})) rs)
     | Some (r, P) \<Rightarrow> add_mset (hd rs, add_mset d P) (mset (map (\<lambda>r. (r, {#d#})) (tl rs))))"

definition old_cargo :: "('s, 'x, 'r, 'e) partitionBatcher \<Rightarrow> ('r \<times> callback multiset) option" where
  "old_cargo qb = map_option (\<lambda>b. (bt_req b, mset (atoms (MultiDone (bt_done b))))) (pb_currentBatch qb)"

definition merge_result ::
  "('s, 'x, 'r, 'e) batch_env \<Rightarrow> ('s, 'x, 'r, 'e) partitionBatcher \<Rightarrow> 'r \<Rightarrow> 'r list \<times> 'e option \<times> 'r" where
  "merge_result env qb req = (case pb_currentBatch qb of None \<Rightarrow> be_MergeSplit env req None
     | Some b \<Rightarrow> be_MergeSplit env (bt_req b) (Some req))"

lemma batch_cargo_old: "batch_cargo qb = (case old_cargo qb of None \<Rightarrow> {#} | Some c \<Rightarrow> {#c#})"
  by (cases "pb_currentBatch qb") (simp_all add: batch_cargo_def old_cargo_def)

lemma absorb_refs:
  "rs \<noteq> [] \<Longrightarrow> refs (absorb old rs d) = replicate_mset (length rs) d + (case old of None \<Rightarrow> {#} | Some (r, P) \<Rightarrow> P)"
  by (cases rs) (auto simp: absorb_def refs_const split: option.split)

lemma consume_empty:
  assumes "consumeInternal env now ctx req (QueueDone k) qb = (act, todo, qb')"
    and "merge_result env qb req = ([], err, merged)"
  shows "todo = [] \<and> act = pb_active qb \<and> pb_active qb' = pb_active qb \<and> pb_timer qb' = pb_timer qb \<and>
    pb_dones qb' = OnDone (be_multierr env) err (QueueDone k) (pb_dones qb) \<and>
    pb_currentBatch qb' = map_option (bt_req_update (\<lambda>_. merged)) (pb_currentBatch qb) \<and>
    old_cargo qb' = map_option (\<lambda>(r, P). (merged, P)) (old_cargo qb)"
  using assms
  by (cases "pb_currentBatch qb")
    (auto simp: consumeInternal_def Let_def merge_result_def signal_done_def old_cargo_def)

lemma share_done_shape:
  "share_done env (QueueDone k) rs err qb = (d, qb') \<Longrightarrow> atoms d = [d] \<and> qb' = qb\<lparr>pb_dones := pb_dones qb'\<rparr>"
  by (auto simp: share_done_def newRefCountDone_def signal_done_def Let_def split: if_splits)

lemma consume_full:
  assumes c: "consumeInternal env now ctx req (QueueDone k) qb = (act, todo, qb')"
    and m: "merge_result env qb req = (rs, err, merged)" "rs \<noteq> []"
  obtains d qb1 where "share_done env (QueueDone k) rs err (qb\<lparr>pb_lastDataTime := now\<rparr>) = (d, qb1)"
    and "pb_dones qb' = pb_dones qb1" and "act = pb_active qb" and "pb_active qb' = pb_active qb"
    and "batch_cargo qb' + mset (map cargo todo) = absorb (old_cargo qb) rs d"
    and "\<And>b. pb_currentBatch qb' = Some b \<Longrightarrow> be_Sizeof env (bt_req b) < be_MinSize env"
    and "pb_currentBatch qb' \<noteq> None \<Longrightarrow> 0 < be_FlushTimeout env \<Longrightarrow> pb_timer qb' \<or> (pb_currentBatch qb \<noteq> None \<and> pb_timer qb' = pb_timer qb)"
proof -
  let ?qb = "qb\<lparr>pb_lastDataTime := now\<rparr>"
  obtain d qb1 where sd: "share_done env (QueueDone k) rs err ?qb = (d, qb1)" by force
  note shape = share_done_shape [OF sd]
  have q1: "pb_active qb1 = pb_active qb" "pb_currentBatch qb1 = pb_currentBatch qb" "pb_timer qb1 = pb_timer qb"
    using shape by (metis partitionBatcher.select_convs partitionBatcher.surjective partitionBatcher.update_convs)+
  show thesis
  proof (cases "pb_currentBatch qb")
    case None
    obtain rest qb2 where k: "keep_last env ctx d rs qb1 = (rest, qb2)" by force
    have r: "act = pb_active qb" "todo = map (\<lambda>r. (ctx, r, d)) rest" "qb' = qb2"
      using c m None sd k by (auto simp: consumeInternal_def Let_def merge_result_def)
    note keep = keep_last_cargo [OF k m(2), unfolded q1, OF None conjunct1 [OF shape]]
    show thesis by (rule that [OF sd]) (use keep r None q1 in \<open>auto simp: absorb_def old_cargo_def\<close>)
  next
    case (Some b)
    define b1 where "b1 = \<lparr>bt_ctx = contextWithMergedLinks (case be_mergeCtx env of None \<Rightarrow> be_Background env
        | Some mergeCtx \<Rightarrow> mergeCtx (bt_ctx b) ctx) (bt_ctx b) ctx, bt_req = hd rs, bt_done = bt_done b @ [d]\<rparr>"
    define full where "full = (1 < length rs \<or> be_MinSize env \<le> be_Sizeof env (bt_req b1))"
    define qb2 where "qb2 = qb1\<lparr>pb_currentBatch := if full then None else Some b1\<rparr>"
    define first where "first = (if full then [(bt_ctx b1, bt_req b1, MultiDone (bt_done b1))] else [])"
    obtain rest qb3 where k: "(if tl rs = [] then ([], qb2) else keep_last env ctx d (tl rs) qb2) = (rest, qb3)"
      by (metis surj_pair)
    have r: "act = pb_active qb" "todo = first @ map (\<lambda>r. (ctx, r, d)) rest" "qb' = qb3"
    proof -
      have ne: "(rs = []) = False" using m(2) by simp
      have ms: "be_MergeSplit env (bt_req b) (Some req) = (rs, err, merged)" using m(1) Some by (simp add: merge_result_def)
      have cur: "pb_currentBatch ?qb = Some b" using Some by simp
      have "(act, todo, qb') = (pb_active qb, first @ map (\<lambda>r. (ctx, r, d)) rest, qb3)"
        unfolding c [symmetric] consumeInternal_def
        by (simp only: Let_def cur option.case ms prod.case ne if_False sd b1_def [symmetric]
            full_def [symmetric] qb2_def [symmetric] first_def [symmetric] k)
      then show "act = pb_active qb" "todo = first @ map (\<lambda>r. (ctx, r, d)) rest" "qb' = qb3" by simp_all
    qed
    have old: "old_cargo qb = Some (bt_req b, mset (atoms (MultiDone (bt_done b))))" using Some by (simp add: old_cargo_def)
    have cargo1: "(hd rs, add_mset d (mset (atoms (MultiDone (bt_done b))))) = (bt_req b1, mset (atoms (MultiDone (bt_done b1))))"
      using shape by (simp add: b1_def)
    show thesis
    proof (cases "tl rs = []")
      case True
      then have r': "rest = []" "qb3 = qb2" and len: "length rs = 1" using k m(2) by (auto simp: tl_Nil)
      show thesis
        by (rule that [OF sd])
          (use r r' q1 True len Some conjunct1 [OF shape] in \<open>auto simp: absorb_def old cargo1 qb2_def first_def full_def batch_cargo_def cargo_def b1_def split: if_splits\<close>)
    next
      case False
      then have full: "full" using m(2) by (cases rs) (auto simp: full_def Suc_le_eq)
      then have q2: "pb_currentBatch qb2 = None" by (simp add: qb2_def)
      have k': "keep_last env ctx d (tl rs) qb2 = (rest, qb3)" using k False by simp
      note keep = keep_last_cargo [OF k' False q2 conjunct1 [OF shape]]
      have "batch_cargo qb' + mset (map cargo todo) = add_mset (cargo (bt_ctx b1, bt_req b1, MultiDone (bt_done b1)))
          (batch_cargo qb3 + mset (map cargo (map (\<lambda>r. (ctx, r, d)) rest)))"
        using r full by (simp add: first_def)
      also have "\<dots> = absorb (old_cargo qb) rs d"
        unfolding keep(1) absorb_def old option.case prod.case cargo1 by (simp add: cargo_def)
      finally show thesis
        by (intro that [OF sd]) (use keep r q1 q2 in \<open>auto simp: qb2_def\<close>)
    qed
  qed
qed

section \<open>Invariants of the running batcher\<close>

lemma held_go: "sy_go s = gs @ g # hs \<Longrightarrow>
  held s = batch_cargo (sy_qb s) + sum_list (map go_cargo gs) + go_cargo g + sum_list (map go_cargo hs) + mset (map cargo (sy_flight s))"
  by (simp add: held_def ac_simps)

lemma flush_current_cargo:
  assumes "flushCurrentBatchOrRemovePartition env now qb = (todo, e, qb')"
  shows "batch_cargo qb' + mset (map cargo todo) = batch_cargo qb" and "pb_dones qb' = pb_dones qb"
    and "pb_active qb' = pb_active qb" and "pb_currentBatch qb' = None"
  using assms
  by (auto simp: flushCurrentBatchOrRemovePartition_def cargo_def batch_cargo_def split: option.splits if_splits)

text \<open>The internal steps move cargo around but do not change it.\<close>

lemma held_internal:
  assumes "batcher_step env s s'" and "sy_accepted s' = sy_accepted s" and "sy_exported s' = sy_exported s"
  shows "held s' = held s \<and> pb_dones (sy_qb s') = pb_dones (sy_qb s)"
  using assms
proof (cases rule: batcher_step.cases)
  case (FlushCurrent gs g hs now todo onEmpty qb)
  have "go_cargo g = {#}" using FlushCurrent by (simp add: go_cargo_def)
  moreover have "go_cargo (g\<lparr>go_todo := todo, go_flushCurrent := False\<rparr>) = mset (map cargo todo)"
    using FlushCurrent by (simp add: go_cargo_def)
  ultimately show ?thesis
    using FlushCurrent flush_current_cargo [OF FlushCurrent(6)]
    by (simp add: held_def ac_simps flip: flush_current_cargo(1) [OF FlushCurrent(6)])
qed (auto simp: held_def go_cargo_def batch_cargo_def shutdownInternal_def split: if_splits option.splits)

lemma batcher_step_kinds:
  assumes "batcher_step env s s'"
  obtains (internal) "sy_accepted s' = sy_accepted s" "sy_exported s' = sy_exported s"
      "held s' = held s" "pb_dones (sy_qb s') = pb_dones (sy_qb s)"
      "pb_currentBatch (sy_qb s') = pb_currentBatch (sy_qb s) \<or> pb_currentBatch (sy_qb s') = None"
  | (consume) now ctx req isActive todo qb where
      "consumeInternal env now ctx req (QueueDone (length (sy_accepted s))) (sy_qb s) = (isActive, todo, qb)"
      "s' = s\<lparr>sy_qb := qb, sy_go := spawn ConsumeT todo (\<not> isActive) # sy_go s, sy_accepted := sy_accepted s @ [req]\<rparr>"
  | (finish) ctx req d err where "sy_accepted s' = sy_accepted s" "sy_exported s' = sy_exported s @ [(ctx, req, err)]"
      "held s = add_mset (cargo (ctx, req, d)) (held s')" "sy_qb s' = signal_done env d err (sy_qb s)"
  using assms
proof (cases rule: batcher_step.cases)
  case (FlushEnd fs ctx req d hs err)
  then show ?thesis by (intro finish [of ctx req err d]) (simp_all add: held_def batch_cargo_def signal_done_def)
next
  case (Consume now ctx req isActive todo qb)
  then show ?thesis by (intro consume)
qed (use held_internal [OF assms] internal in
  \<open>auto simp: shutdownInternal_def dest: flush_current_cargo split: if_splits\<close>)

lemma consume_tickets:
  assumes c: "consumeInternal env now ctx req (QueueDone n) qb = (act, todo, qb')"
    and t: "tickets (pb_dones qb) (refs (batch_cargo qb) + R) n"
  shows "tickets (pb_dones qb') (refs (batch_cargo qb' + mset (map cargo todo)) + R) (Suc n)"
proof -
  obtain rs err merged where m: "merge_result env qb req = (rs, err, merged)" by (metis prod_cases3)
  have t1: "tickets (pb_dones qb) (add_mset (QueueDone n) (refs (batch_cargo qb) + R)) (Suc n)"
    using tickets_new [OF t] .
  show ?thesis
  proof (cases "rs = []")
    case True
    note e = consume_empty [OF c m [unfolded True]]
    have "refs (batch_cargo qb') = refs (batch_cargo qb)"
      using e by (cases "old_cargo qb") (auto simp: batch_cargo_old split: prod.splits)
    with e tickets_queue_done [OF t1] show ?thesis by simp
  next
    case False
    obtain d qb1 where sd: "share_done env (QueueDone n) rs err (qb\<lparr>pb_lastDataTime := now\<rparr>) = (d, qb1)"
      and q: "pb_dones qb' = pb_dones qb1" "batch_cargo qb' + mset (map cargo todo) = absorb (old_cargo qb) rs d"
      using consume_full [OF c m False] by metis
    have o: "(case old_cargo qb of None \<Rightarrow> {#} | Some (r, P) \<Rightarrow> P) = refs (batch_cargo qb)"
      by (cases "old_cargo qb") (auto simp: batch_cargo_old)
    have "tickets (pb_dones (qb\<lparr>pb_lastDataTime := now\<rparr>)) (add_mset (QueueDone n) (refs (batch_cargo qb) + R)) (Suc n)"
      using t1 by simp
    from share_done_tickets [OF sd False this] q show ?thesis
      unfolding q(2) absorb_refs [OF False] o by (simp add: add.assoc)
  qed
qed

lemma system_tickets:
  assumes "batcher_reachable env workers onEmpty now s"
  shows "tickets (pb_dones (sy_qb s)) (refs (held s)) (length (sy_accepted s))"
  using assms
proof (induction rule: rtranclp_induct)
  case base
  then show ?case
    by (simp add: batcher_init_def newPartitionBatcher_def held_def batch_cargo_def tickets_empty)
next
  case (step s s')
  from step(2) show ?case
  proof (cases rule: batcher_step_kinds)
    case internal
    then show ?thesis using step.IH by simp
  next
    case (consume now ctx req isActive todo qb)
    have "tickets (pb_dones (sy_qb s)) (refs (batch_cargo (sy_qb s)) +
        refs (sum_list (map go_cargo (sy_go s)) + mset (map cargo (sy_flight s)))) (length (sy_accepted s))"
      using step.IH by (simp add: held_def ac_simps)
    from consume_tickets [OF consume(1) this] show ?thesis
      by (simp add: consume(2) held_def go_cargo_def ac_simps)
  next
    case (finish ctx req d err)
    have "tickets (pb_dones (sy_qb s)) (mset (atoms d) + refs (held s')) (length (sy_accepted s))"
      using step.IH finish by (simp add: cargo_def)
    from tickets_OnDone [OF this] finish show ?thesis by (simp add: signal_done_def)
  qed
qed

text \<open>The wait group, the worker tokens and the shutdown goroutines are counted exactly.\<close>

definition of_kind :: "goroutine_kind set \<Rightarrow> ('s, 'x, 'r) goroutine list \<Rightarrow> nat" where
  "of_kind K gs = length (filter (\<lambda>g. go_kind g \<in> K) gs)"

definition blocked :: "('s, 'x, 'r) goroutine list \<Rightarrow> nat" where
  "blocked gs = length (filter (\<lambda>g. go_blocked g \<noteq> None) gs)"

definition counters_exact :: "nat \<Rightarrow> ('s, 'x, 'r, 'e) batcher_system \<Rightarrow> bool" where
  "counters_exact workers s \<longleftrightarrow>
     sy_stopWG s = int (blocked (sy_go s) + length (sy_flight s)) + (if sy_timerLoop s then 1 else 0) \<and>
     sy_free s + length (sy_flight s) + of_kind {EvictT} (sy_go s) + sy_others s = workers \<and>
     of_kind {ShutdownT, EvictT} (sy_go s) \<le> (if pb_active (sy_qb s) then 0 else 1) \<and>
     (0 < of_kind {TimerT} (sy_go s) \<longrightarrow> sy_timerLoop s)"

lemma of_kind_simps [simp]:
  "of_kind K [] = 0" "of_kind K (gs @ hs) = of_kind K gs + of_kind K hs"
  "of_kind K (g # gs) = (if go_kind g \<in> K then 1 else 0) + of_kind K gs"
  by (simp_all add: of_kind_def)

lemma blocked_simps [simp]:
  "blocked [] = 0" "blocked (gs @ hs) = blocked gs + blocked hs"
  "blocked (g # gs) = (if go_blocked g \<noteq> None then 1 else 0) + blocked gs"
  by (simp_all add: blocked_def)

lemma of_kind_0: "of_kind K gs = 0 \<longleftrightarrow> (\<forall>g \<in> set gs. go_kind g \<notin> K)"
  by (auto simp: of_kind_def filter_empty_conv)

lemma consume_active:
  assumes "consumeInternal env now ctx req (QueueDone k) qb = (act, todo, qb')"
  shows "pb_active qb' = pb_active qb \<and> act = pb_active qb"
proof -
  obtain rs err m where m: "merge_result env qb req = (rs, err, m)" by (metis prod_cases3)
  show ?thesis
  proof (cases "rs = []")
    case True
    with consume_empty [OF assms] m show ?thesis by simp
  next
    case False
    show ?thesis by (rule consume_full [OF assms m False]) simp
  qed
qed

lemma counters_step:
  assumes "batcher_step env s s'" and "counters_exact workers s"
  shows "counters_exact workers s'"
  using assms
proof (cases rule: batcher_step.cases)
  case (Consume now ctx req act todo qb)
  then show ?thesis using assms(2) consume_active [OF Consume(2)] by (simp add: counters_exact_def)
next
  case (FlushCurrent gs g hs now todo e qb)
  then show ?thesis using assms(2) flush_current_cargo(3) [OF FlushCurrent(6)] by (simp add: counters_exact_def)
next
  case TimerLoopEnds
  then have "of_kind {TimerT} (sy_go s) = 0" unfolding of_kind_0 by (metis imageI singletonD)
  with TimerLoopEnds assms(2) show ?thesis by (simp add: counters_exact_def)
qed (auto simp: counters_exact_def signal_done_def shutdownInternal_def split: if_splits)

lemma system_counters:
  "batcher_reachable env workers onEmpty now s \<Longrightarrow> counters_exact workers s"
proof (induction rule: rtranclp_induct)
  case base
  show ?case by (simp add: counters_exact_def batcher_init_def)
next
  case (step s s')
  then show ?case using counters_step by blast
qed

text \<open>A batch is never forgotten: a timer is armed or a goroutine is about to flush it.\<close>

definition batch_watched :: "('s, 'x, 'r, 'e) batch_env \<Rightarrow> ('s, 'x, 'r, 'e) batcher_system \<Rightarrow> bool" where
  "batch_watched env s \<longleftrightarrow> (\<exists>g \<in> set (sy_go s). go_flushCurrent g) \<or>
     (pb_active (sy_qb s) \<and> (0 < be_FlushTimeout env \<longrightarrow> pb_timer (sy_qb s) \<and> sy_timerLoop s))"

definition watched :: "('s, 'x, 'r, 'e) batch_env \<Rightarrow> ('s, 'x, 'r, 'e) batcher_system \<Rightarrow> bool" where
  "watched env s \<longleftrightarrow> (pb_active (sy_qb s) \<and> 0 < be_FlushTimeout env \<longrightarrow> sy_timerLoop s) \<and>
     (pb_currentBatch (sy_qb s) \<noteq> None \<longrightarrow> batch_watched env s)"

lemma watched_consume:
  assumes "watched env s"
    and c: "consumeInternal env now ctx req (QueueDone k) (sy_qb s) = (act, todo, qb)"
  shows "watched env (s\<lparr>sy_qb := qb, sy_go := spawn ConsumeT todo (\<not> act) # sy_go s, sy_accepted := rs\<rparr>)"
proof -
  note a = consume_active [OF c]
  obtain rs err m where m: "merge_result env (sy_qb s) req = (rs, err, m)" by (metis prod_cases3)
  have "pb_currentBatch qb \<noteq> None \<Longrightarrow> 0 < be_FlushTimeout env \<Longrightarrow>
      pb_timer qb \<or> (pb_currentBatch (sy_qb s) \<noteq> None \<and> pb_timer qb = pb_timer (sy_qb s))"
  proof (cases "rs = []")
    case True
    show "pb_currentBatch qb \<noteq> None \<Longrightarrow> ?thesis"
      using consume_empty [OF c m [unfolded True]] by (auto simp: old_cargo_def)
  next
    case False
    show "pb_currentBatch qb \<noteq> None \<Longrightarrow> 0 < be_FlushTimeout env \<Longrightarrow> ?thesis"
      by (rule consume_full [OF c m False]) simp
  qed
  then show ?thesis using assms(1) a unfolding watched_def batch_watched_def by auto
qed

lemma watched_step:
  assumes "batcher_step env s s'" and "watched env s"
  shows "watched env s'"
  using assms(1)
proof (cases rule: batcher_step.cases)
  case (Consume now ctx req act todo qb)
  then show ?thesis using watched_consume [OF assms(2) Consume(2)] by simp
next
  case (FlushCurrent gs g hs now todo e qb)
  then show ?thesis using assms(2) flush_current_cargo(3,4) [OF FlushCurrent(6)] by (simp add: watched_def)
qed (use assms(2) in \<open>auto simp: watched_def batch_watched_def signal_done_def shutdownInternal_def split: if_splits\<close>)

lemma system_watched:
  "batcher_reachable env workers onEmpty now s \<Longrightarrow> watched env s"
proof (induction rule: rtranclp_induct)
  case base
  show ?case by (simp add: watched_def batcher_init_def newPartitionBatcher_def)
next
  case (step s s')
  then show ?case using watched_step by blast
qed

section \<open>Draining\<close>

text \<open>
  The steps of goroutines that run already, of the timer loop that ends and of the workers, without
  those of other partitions. They do less and less work, so that the batcher comes to rest.
\<close>

definition works :: "('s, 'x, 'r, 'e) batch_env \<Rightarrow> ('s, 'x, 'r, 'e) batcher_system \<Rightarrow> ('s, 'x, 'r, 'e) batcher_system \<Rightarrow> bool" where
  "works env s s' \<longleftrightarrow> batcher_step env s s' \<and> length (sy_go s') \<le> length (sy_go s) \<and> sy_others s' = sy_others s"

definition go_work :: "('s, 'x, 'r) goroutine \<Rightarrow> nat" where
  "go_work g = 4 * length (go_todo g) + (if go_blocked g = None then 0 else 3) + (if go_flushCurrent g then 5 else 0) + 1"

definition work :: "('s, 'x, 'r, 'e) batcher_system \<Rightarrow> nat" where
  "work s = sum_list (map go_work (sy_go s)) + 2 * length (sy_flight s) + (if sy_timerLoop s then 1 else 0)"

definition at_rest :: "('s, 'x, 'r, 'e) batcher_system \<Rightarrow> bool" where
  "at_rest s \<longleftrightarrow> sy_go s = [] \<and> sy_flight s = []"

lemma works_decreases:
  assumes "works env s s'"
  shows "work s' < work s"
proof -
  have s: "batcher_step env s s'" and l: "length (sy_go s') \<le> length (sy_go s)" and o: "sy_others s' = sy_others s"
    using assms by (auto simp: works_def)
  from s show ?thesis
  proof (cases rule: batcher_step.cases)
    case (FlushCurrent gs g hs now todo e qb)
    have "length todo \<le> 1"
      using FlushCurrent(6) by (auto simp: flushCurrentBatchOrRemovePartition_def split: option.splits if_splits)
    with FlushCurrent show ?thesis by (simp add: work_def go_work_def)
  qed (use l o in \<open>auto simp: work_def go_work_def\<close>)
qed

lemma works_bounded: "(works env ^^ n) s s' \<Longrightarrow> n + work s' \<le> work s"
proof (induction n arbitrary: s')
  case (Suc n)
  then obtain t where "(works env ^^ n) s t" "works env t s'" by auto
  with Suc.IH [of t] works_decreases [of env t s'] show ?case by simp
qed simp

text \<open>While a worker is left for the flushes, some goroutine or worker can move.\<close>

lemma works_progress:
  assumes c: "counters_exact workers s" and w: "watched env s" and e: "of_kind {EvictT} (sy_go s) + sy_others s < workers"
    and busy: "\<not> at_rest s"
  shows "\<exists>s'. works env s s'"
proof (cases "sy_flight s = []")
  case False
  then obtain ctx req d fs where f: "sy_flight s = [] @ (ctx, req, d) # fs" by (metis append_Nil neq_Nil_conv prod_cases3)
  show ?thesis unfolding works_def by (intro exI conjI, rule batcher_step.FlushEnd [OF f]) simp_all
next
  case idle: True
  then have free: "0 < sy_free s" using c e by (simp add: counters_exact_def)
  show ?thesis
  proof (cases "\<exists>g \<in> set (sy_go s). go_blocked g \<noteq> None \<or> go_todo g \<noteq> [] \<or> go_flushCurrent g \<or> go_kind g \<notin> {ShutdownT, EvictT}")
    case True
    then obtain gs g hs where g: "sy_go s = gs @ g # hs"
      and "go_blocked g \<noteq> None \<or> go_todo g \<noteq> [] \<or> go_flushCurrent g \<or> go_kind g \<notin> {ShutdownT, EvictT}"
      by (metis split_list)
    then consider f where "go_blocked g = Some f" | f fs where "go_blocked g = None" "go_todo g = f # fs"
      | "go_blocked g = None" "go_todo g = []" "go_flushCurrent g"
      | "go_blocked g = None" "go_todo g = []" "\<not> go_flushCurrent g" "go_kind g \<notin> {ShutdownT, EvictT}"
      by (metis list.exhaust option.exhaust)
    then show ?thesis
    proof cases
      case 1
      show ?thesis unfolding works_def by (intro exI conjI, rule batcher_step.FlushStart [OF g 1 free]) (simp_all add: g)
    next
      case 2
      show ?thesis unfolding works_def by (intro exI conjI, rule batcher_step.FlushCall [OF g 2]) (simp_all add: g)
    next
      case 3
      obtain todo e qb where f: "flushCurrentBatchOrRemovePartition env 0 (sy_qb s) = (todo, e, qb)" by (metis prod_cases3)
      show ?thesis unfolding works_def by (intro exI conjI, rule batcher_step.FlushCurrent [OF g 3 f]) (simp_all add: g)
    next
      case 4
      then have k: "go_kind g \<in> {ShutdownT, EvictT} \<longrightarrow> sy_stopWG s = 0" by blast
      show ?thesis unfolding works_def by (intro exI conjI, rule batcher_step.Returns [OF g 4(1-3) k]) (simp_all add: g)
    qed
  next
    case False
    then have stop: "go_blocked g = None \<and> go_todo g = [] \<and> \<not> go_flushCurrent g \<and> go_kind g \<in> {ShutdownT, EvictT}"
      if "g \<in> set (sy_go s)" for g using that by blast
    from busy idle obtain g hs where g: "sy_go s = [] @ g # hs" by (metis append_Nil at_rest_def neq_Nil_conv)
    then have mem: "g \<in> set (sy_go s)" by simp
    have shut: "0 < of_kind {ShutdownT, EvictT} (sy_go s)" using stop [OF mem] g by simp
    show ?thesis
    proof (cases "sy_timerLoop s")
      case True
      have "TimerT \<notin> go_kind ` set (sy_go s)" using stop by fastforce
      moreover have "\<not> pb_active (sy_qb s)" using c shut by (auto simp: counters_exact_def)
      ultimately show ?thesis
        unfolding works_def by (intro exI conjI, rule batcher_step.TimerLoopEnds [OF True]) simp_all
    next
      case False
      have "blocked (sy_go s) = 0" using stop by (simp add: blocked_def filter_empty_conv)
      then have "sy_stopWG s = 0" using c idle False by (simp add: counters_exact_def)
      then have k: "go_kind g \<in> {ShutdownT, EvictT} \<longrightarrow> sy_stopWG s = 0" by blast
      have fin: "go_blocked g = None" "go_todo g = []" "\<not> go_flushCurrent g" using stop [OF mem] by simp_all
      show ?thesis unfolding works_def by (intro exI conjI, rule batcher_step.Returns [OF g fin k]) (simp_all add: g)
    qed
  qed
qed

lemma works_reachable:
  "batcher_reachable env workers onEmpty now s \<Longrightarrow> (works env)\<^sup>*\<^sup>* s s' \<Longrightarrow> batcher_reachable env workers onEmpty now s'"
  by (erule rtranclp_induct) (auto simp: works_def intro: rtranclp.rtrancl_into_rtrancl)

lemma works_accepted:
  assumes "(works env)\<^sup>*\<^sup>* s s'"
  shows "sy_accepted s' = sy_accepted s \<and> sy_others s' = sy_others s \<and>
    of_kind {EvictT} (sy_go s') \<le> of_kind {EvictT} (sy_go s)"
  using assms
proof (induction rule: rtranclp_induct)
  case (step s' s'')
  from step(2) have b: "batcher_step env s' s''" and l: "length (sy_go s'') \<le> length (sy_go s')"
    and o: "sy_others s'' = sy_others s'"
    by (auto simp: works_def)
  from b have "sy_accepted s'' = sy_accepted s' \<and> of_kind {EvictT} (sy_go s'') \<le> of_kind {EvictT} (sy_go s')"
    by (cases rule: batcher_step.cases) (use l in auto)
  with step.IH o show ?case by simp
qed simp

section \<open>The properties\<close>

text \<open>
  C20. Every request the queue passes to the batcher is acknowledged at most once; and when no
  goroutine, worker or batch is left, every request has been acknowledged exactly once. This holds
  in every state the interleaved goroutines reach, for every behaviour of \<open>MergeSplit\<close> and of the
  exporter, including errors and split requests whose callback several batches share.
\<close>

theorem batcher_acknowledges_once:
  assumes "batcher_reachable env workers onEmpty now s"
  shows "\<forall>k. logged (pb_dones (sy_qb s)) k \<le> (if k < length (sy_accepted s) then 1 else 0) \<and>
    (at_rest s \<and> pb_currentBatch (sy_qb s) = None \<and> k < length (sy_accepted s) \<longrightarrow> logged (pb_dones (sy_qb s)) k = 1)"
proof
  fix k
  note t = system_tickets [OF assms]
  have "at_rest s \<and> pb_currentBatch (sy_qb s) = None \<Longrightarrow> refs (held s) = {#}"
    by (simp add: at_rest_def held_def batch_cargo_def)
  then show "logged (pb_dones (sy_qb s)) k \<le> (if k < length (sy_accepted s) then 1 else 0) \<and>
    (at_rest s \<and> pb_currentBatch (sy_qb s) = None \<and> k < length (sy_accepted s) \<longrightarrow> logged (pb_dones (sy_qb s)) k = 1)"
    using ticket_once [OF t, of k] ticketsD(3) [OF t, of k] ticket_final [of "pb_dones (sy_qb s)" _ k] t by auto
qed

text \<open>
  C21. A shutdown is complete. When a call of \<open>shutdownInternal\<close> returns and no \<open>Consume\<close> is
  running, no batch is pending, no flush is running and every accepted request is acknowledged.
\<close>

theorem batcher_shutdown_complete:
  assumes "batcher_reachable env workers onEmpty now s"
    and "sy_go s = gs @ g # hs" and "go_kind g \<in> {ShutdownT, EvictT}"
    and "go_blocked g = None" and "go_todo g = []" and "\<not> go_flushCurrent g" and "sy_stopWG s = 0"
    and "ConsumeT \<notin> go_kind ` set (sy_go s)"
  shows "pb_currentBatch (sy_qb s) = None \<and> sy_flight s = [] \<and>
    (\<forall>k < length (sy_accepted s). logged (pb_dones (sy_qb s)) k = 1)"
proof -
  note c = system_counters [OF assms(1), unfolded counters_exact_def]
  have zero: "int (blocked (sy_go s) + length (sy_flight s)) + (if sy_timerLoop s then 1 else 0) = 0"
    using c assms(7) by simp
  then have noloop: "\<not> sy_timerLoop s" by (auto split: if_splits)
  with zero have "length (sy_flight s) = 0" by (simp only: if_False)
  then have idle: "sy_flight s = []" by simp
  have "of_kind {ShutdownT, EvictT} (sy_go s) \<le> 1" and inactive: "\<not> pb_active (sy_qb s)"
    using c assms(2,3) by (auto split: if_splits)
  then have z1: "of_kind {ShutdownT, EvictT} (gs @ hs) = 0" using assms(2,3) by simp
  have z2: "of_kind {TimerT} (gs @ hs) = 0" using c noloop assms(2) by simp
  have z3: "set (gs @ hs) \<subseteq> set (sy_go s)" using assms(2) by auto
  have "False" if h: "h \<in> set (gs @ hs)" for h
  proof (cases "go_kind h")
    case ConsumeT
    with h z3 assms(8) show False by (metis imageI subsetD)
  qed (use h z1 z2 in \<open>simp_all only: of_kind_0, simp_all\<close>)
  then have go: "gs @ hs = []" by (cases "gs @ hs") auto
  then have only: "sy_go s = [g]" using assms(2) by simp
  then have none: "pb_currentBatch (sy_qb s) = None"
    using system_watched [OF assms(1)] inactive assms(6) by (auto simp: watched_def batch_watched_def)
  have "held s = {#}" using only none idle assms(4,5) by (simp add: held_def batch_cargo_def go_cargo_def)
  with ticket_final [of "pb_dones (sy_qb s)"] system_tickets [OF assms(1)] none idle show ?thesis by simp
qed

lemma single_partition:
  "batcher_reachable env workers False now s \<Longrightarrow> \<not> sy_multi s \<and> sy_others s = 0 \<and> of_kind {EvictT} (sy_go s) = 0"
proof (induction rule: rtranclp_induct)
  case base
  show ?case by (simp add: batcher_init_def)
next
  case (step s s')
  from step(2) show ?case by (cases rule: batcher_step.cases) (use step.IH in auto)
qed

text \<open>
  C22. Batches make progress. Running goroutines and workers of a partition come to rest on their own,
  each call of the exporter returning: their steps are bounded in number, they stop only at rest, and a
  batch that is then still pending belongs to an active partition, whose timer is armed when the flush
  timeout is positive (without a timeout it stays until more data or a shutdown). This holds without
  further condition for the one partition of a batcher without a partitioner, with at least one worker.
  A partition of a multi batcher shares its workers: the same holds for it while the evictions and the
  other partitions leave one worker to its flushes (C25 is the case where an eviction does not), and as
  far as its callback \<open>onEmpty\<close> does not wait for the lock of the multi batcher.
\<close>

theorem batcher_drains:
  assumes "batcher_reachable env workers onEmpty now s" and "0 < workers"
    and "onEmpty \<longrightarrow> of_kind {EvictT} (sy_go s) + sy_others s < workers"
  shows "(\<forall>n s'. (works env ^^ n) s s' \<longrightarrow> n \<le> work s) \<and>
    (\<forall>s'. (works env)\<^sup>*\<^sup>* s s' \<and> (\<nexists>s''. works env s' s'') \<longrightarrow>
      at_rest s' \<and> (pb_currentBatch (sy_qb s') \<noteq> None \<longrightarrow>
        pb_active (sy_qb s') \<and> (0 < be_FlushTimeout env \<longrightarrow> pb_timer (sy_qb s') \<and> sy_timerLoop s')))"
proof (intro conjI allI impI)
  fix n s' assume "(works env ^^ n) s s'"
  then show "n \<le> work s" using works_bounded by fastforce
next
  fix s' assume a: "(works env)\<^sup>*\<^sup>* s s' \<and> (\<nexists>s''. works env s' s'')"
  note r = works_reachable [OF assms(1) conjunct1 [OF a]]
  note w = system_watched [OF r]
  have "of_kind {EvictT} (sy_go s) + sy_others s < workers"
    using assms single_partition [of env workers now s] by (cases onEmpty) auto
  then show rest: "at_rest s'"
    using works_progress [OF system_counters [OF r] w] works_accepted [OF conjunct1 [OF a]] a by fastforce
  assume b: "pb_currentBatch (sy_qb s') \<noteq> None"
  have "batch_watched env s'" using w b by (simp add: watched_def)
  with rest show "pb_active (sy_qb s')" "0 < be_FlushTimeout env \<Longrightarrow> pb_timer (sy_qb s')"
      "0 < be_FlushTimeout env \<Longrightarrow> sy_timerLoop s'"
    by (auto simp: batch_watched_def at_rest_def)
qed

end
