(* ===== verification/BatcherDelivery.thy ===== *)
theory BatcherDelivery
  imports BatcherSystem
begin

text \<open>
  What an acknowledgement of the batcher means. The interface \<open>merge_split\<close> states what the
  batcher relies on: that \<open>MergeSplit\<close> loses nothing, keeps the order, and puts the whole current
  batch into its first result. The last law is what the comments in \<open>consumeInternal\<close> rely on
  when the callbacks of the current batch are attached to the first result only.
\<close>

section \<open>The interface\<close>

locale merge_split =
  fixes env :: "('s, 'x, 'r, 'e) batch_env" and items :: "'r \<Rightarrow> 'i list"
    and wf :: "'r \<Rightarrow> bool" and fit :: "'r \<Rightarrow> bool"
  assumes exact: "wf r \<Longrightarrow> pred_option wf opt \<Longrightarrow> be_MergeSplit env r opt = (rs, err, r') \<Longrightarrow>
      err = None \<and> rs \<noteq> [] \<and> (\<forall>x \<in> set rs. wf x \<and> fit x) \<and>
      concat (map items rs) = items r @ (case opt of None \<Rightarrow> [] | Some x \<Rightarrow> items x)"
    and first: "wf r \<Longrightarrow> wf x \<Longrightarrow> be_Sizeof env r < be_MinSize env \<Longrightarrow>
      be_MergeSplit env r (Some x) = (rs, err, r') \<Longrightarrow> length (items r) \<le> length (items (hd rs))"
begin

definition stock :: "('r \<times> callback multiset) multiset \<Rightarrow> 'i multiset" where
  "stock H = sum_mset (image_mset (\<lambda>c. mset (items (fst c))) H)"

lemma stock_simps [simp]:
  "stock {#} = {#}" "stock (add_mset c H) = mset (items (fst c)) + stock H" "stock (H + K) = stock H + stock K"
  by (simp_all add: stock_def)

definition sent :: "(('s, 'x) gocontext \<times> 'r \<times> 'e option) list \<Rightarrow> 'i set" where
  "sent ex = {x. \<exists>ctx r. (ctx, r, None) \<in> set ex \<and> x \<in> set (items r)}"

text \<open>Where an item of the request \<open>k\<close> is: failed, sent, or still held together with the callback of \<open>k\<close>.\<close>

definition tracked :: "('s, 'x, 'r, 'e) batcher_system \<Rightarrow> nat \<Rightarrow> 'i \<Rightarrow> bool" where
  "tracked s k x \<longleftrightarrow> failed (pb_dones (sy_qb s)) (refs (held s)) k \<or> x \<in> sent (sy_exported s) \<or>
     (\<exists>r P. (r, P) \<in># held s \<and> x \<in> set (items r) \<and> k \<in> owner ` set_mset P)"

definition delivery_inv :: "('s, 'x, 'r, 'e) batcher_system \<Rightarrow> bool" where
  "delivery_inv s \<longleftrightarrow> (\<forall>c \<in># held s. wf (fst c) \<and> fit (fst c)) \<and> (\<forall>(ctx, r, e) \<in> set (sy_exported s). fit r) \<and>
     (\<forall>b. pb_currentBatch (sy_qb s) = Some b \<longrightarrow> be_Sizeof env (bt_req b) < be_MinSize env) \<and>
     mset (concat (map (\<lambda>(ctx, r, e). items r) (sy_exported s))) + stock (held s) = mset (concat (map items (sy_accepted s))) \<and>
     (\<forall>k < length (sy_accepted s). \<forall>x \<in> set (items (sy_accepted s ! k)). tracked s k x)"

lemma absorb_facts:
  assumes rs: "rs \<noteq> []" "\<forall>x \<in> set rs. wf x \<and> fit x" and old: "old = None \<or> (\<exists>r P. old = Some (r, P) \<and> set (items r) \<subseteq> set (items (hd rs)))"
  shows "\<forall>c \<in># absorb old rs d. wf (fst c) \<and> fit (fst c)"
    and "stock (absorb old rs d) = mset (concat (map items rs))"
    and "old = Some (r, P) \<Longrightarrow> \<exists>r' P'. (r', P') \<in># absorb old rs d \<and> set (items r) \<subseteq> set (items r') \<and> set_mset P \<subseteq> set_mset P'"
    and "x \<in> set (concat (map items rs)) \<Longrightarrow> \<exists>r' P'. (r', P') \<in># absorb old rs d \<and> x \<in> set (items r') \<and> d \<in># P'"
proof -
  have st: "stock (image_mset (\<lambda>r. (r, {#d#})) (mset xs)) = mset (concat (map items xs))" for xs
    by (induction xs) simp_all
  obtain y ys where y: "rs = y # ys" using rs(1) by (cases rs) auto
  show "\<forall>c \<in># absorb old rs d. wf (fst c) \<and> fit (fst c)" "stock (absorb old rs d) = mset (concat (map items rs))"
    using rs(2) old by (auto simp: absorb_def y st)
  show "old = Some (r, P) \<Longrightarrow> \<exists>r' P'. (r', P') \<in># absorb old rs d \<and> set (items r) \<subseteq> set (items r') \<and> set_mset P \<subseteq> set_mset P'"
    using old by (intro exI [of _ y] exI [of _ "add_mset d P"]) (auto simp: absorb_def y)
  assume "x \<in> set (concat (map items rs))"
  then obtain z where z: "z \<in> set rs" "x \<in> set (items z)" by auto
  show "\<exists>r' P'. (r', P') \<in># absorb old rs d \<and> x \<in> set (items r') \<and> d \<in># P'"
  proof (cases "old \<noteq> None \<and> z = y")
    case True
    then obtain r0 P0 where "old = Some (r0, P0)" by auto
    with True z show ?thesis by (intro exI [of _ y] exI [of _ "add_mset d P0"]) (auto simp: absorb_def y)
  next
    case False
    with z show ?thesis
      by (intro exI [of _ z] exI [of _ "{#d#}"]) (auto simp: absorb_def y split: option.splits)
  qed
qed

lemma tracked_internal:
  assumes "held s' = held s" and "pb_dones (sy_qb s') = pb_dones (sy_qb s)" and "sy_exported s' = sy_exported s"
  shows "tracked s' k x = tracked s k x"
  using assms by (simp add: tracked_def)

lemma delivery_consume:
  assumes I: "delivery_inv s" and t: "tickets (pb_dones (sy_qb s)) (refs (held s)) (length (sy_accepted s))"
    and multierr: "keeps_errors (be_multierr env)" and wf: "wf req"
    and c: "consumeInternal env now ctx req (QueueDone (length (sy_accepted s))) (sy_qb s) = (act, todo, qb)"
    and s': "s' = s\<lparr>sy_qb := qb, sy_go := spawn ConsumeT todo (\<not> act) # sy_go s, sy_accepted := sy_accepted s @ [req]\<rparr>"
  shows "delivery_inv s'"
proof -
  let ?n = "length (sy_accepted s)" and ?old = "old_cargo (sy_qb s)"
  define rest where "rest = sum_list (map go_cargo (sy_go s)) + mset (map cargo (sy_flight s))"
  have held: "held s = batch_cargo (sy_qb s) + rest" by (simp add: held_def rest_def ac_simps)
  have held': "held s' = (batch_cargo qb + mset (map cargo todo)) + rest"
    by (simp add: s' held_def go_cargo_def rest_def ac_simps)
  obtain rs err m where m: "merge_result env (sy_qb s) req = (rs, err, m)" by (metis prod_cases3)
  have wfb: "wf (bt_req b)" "be_Sizeof env (bt_req b) < be_MinSize env" if "pb_currentBatch (sy_qb s) = Some b" for b
    using I that by (auto simp: delivery_inv_def held batch_cargo_def)
  have ex: "err = None \<and> rs \<noteq> [] \<and> (\<forall>x \<in> set rs. wf x \<and> fit x) \<and>
      mset (concat (map items rs)) = stock (batch_cargo (sy_qb s)) + mset (items req) \<and>
      (?old = None \<or> (\<exists>r P. ?old = Some (r, P) \<and> set (items r) \<subseteq> set (items (hd rs))))"
  proof (cases "pb_currentBatch (sy_qb s)")
    case None
    then show ?thesis using exact [OF wf, of None rs err m] m
      by (simp add: merge_result_def batch_cargo_def old_cargo_def)
  next
    case (Some b)
    then have ms: "be_MergeSplit env (bt_req b) (Some req) = (rs, err, m)" using m by (simp add: merge_result_def)
    note e = exact [OF wfb(1) [OF Some] _ ms, simplified, OF wf]
    obtain y ys where y: "rs = y # ys" using e by (cases rs) auto
    have "length (items (bt_req b)) \<le> length (items y)"
      using first [OF wfb(1) [OF Some] wf wfb(2) [OF Some] ms] y by simp
    moreover have "items y @ concat (map items ys) = items (bt_req b) @ items req" using e y by simp
    ultimately have "items (bt_req b) = take (length (items (bt_req b))) (items y)"
      by (metis append_eq_append_conv_if append_take_drop_id)
    then have "set (items (bt_req b)) \<subseteq> set (items y)" by (metis set_take_subset)
    moreover have "mset (concat (map items rs)) = mset (items (bt_req b)) + mset (items req)"
      using e by (metis mset_append)
    ultimately show ?thesis using e y Some by (simp add: batch_cargo_def old_cargo_def)
  qed
  then have rs: "rs \<noteq> []" "\<forall>x \<in> set rs. wf x \<and> fit x" and err: "err = None" by simp_all
  obtain d qb1 where sd: "share_done env (QueueDone ?n) rs err ((sy_qb s)\<lparr>pb_lastDataTime := now\<rparr>) = (d, qb1)"
    and q: "pb_dones qb = pb_dones qb1" "batch_cargo qb + mset (map cargo todo) = absorb ?old rs d"
      "\<And>b. pb_currentBatch qb = Some b \<Longrightarrow> be_Sizeof env (bt_req b) < be_MinSize env"
    using consume_full [OF c m rs(1)] by metis
  note abs = absorb_facts [OF rs, where old = ?old and d = d]
  have held'': "held s' = absorb ?old rs d + rest" using held' q(2) by simp
  have t1: "tickets (pb_dones ((sy_qb s)\<lparr>pb_lastDataTime := now\<rparr>)) (add_mset (QueueDone ?n) (refs (held s))) (Suc ?n)"
    using tickets_new [OF t] by simp
  have refs': "refs (held s') = replicate_mset (length rs) d + refs (held s)"
    unfolding held'' held refs_simps absorb_refs [OF rs(1)]
    by (cases ?old) (auto simp: batch_cargo_old)
  note shared = share_done_tickets [OF sd rs(1) t1]
  have failed': "failed (pb_dones (sy_qb s')) (refs (held s')) k" if "failed (pb_dones (sy_qb s)) (refs (held s)) k" for k
  proof -
    have "failed (pb_dones ((sy_qb s)\<lparr>pb_lastDataTime := now\<rparr>)) (add_mset (QueueDone ?n) (refs (held s))) k"
      using failed_new [OF that] by simp
    with shared [of k] multierr show ?thesis unfolding refs' by (simp add: s' q(1))
  qed
  have track: "tracked s' k x" if k: "k < ?n" and x: "x \<in> set (items (sy_accepted s ! k))" for k x
  proof -
    have "tracked s k x" using I k x by (simp add: delivery_inv_def)
    then consider "failed (pb_dones (sy_qb s)) (refs (held s)) k" | "x \<in> sent (sy_exported s)"
      | r P where "(r, P) \<in># held s" "x \<in> set (items r)" "k \<in> owner ` set_mset P"
      unfolding tracked_def by blast
    then show ?thesis
    proof cases
      case 1
      then show ?thesis using failed' by (simp add: tracked_def)
    next
      case 2
      then show ?thesis by (simp add: tracked_def s')
    next
      case 3
      show ?thesis
      proof (cases "(r, P) \<in># rest")
        case True
        then have "(r, P) \<in># held s'" by (simp add: held'')
        with 3 show ?thesis unfolding tracked_def by blast
      next
        case False
        then have "?old = Some (r, P)" using 3(1) by (auto simp: held batch_cargo_old split: option.splits)
        with abs(3) ex obtain r' P' where "(r', P') \<in># absorb ?old rs d"
          "set (items r) \<subseteq> set (items r')" "set_mset P \<subseteq> set_mset P'" by blast
        moreover from this(1) have "(r', P') \<in># held s'" by (simp add: held'')
        ultimately show ?thesis using 3 unfolding tracked_def by blast
      qed
    qed
  qed
  have new: "tracked s' ?n x" if x: "x \<in> set (items req)" for x
  proof -
    have "x \<in># mset (concat (map items rs))" using ex x by simp
    then have "x \<in> set (concat (map items rs))" by simp
    with abs(4) ex obtain r P where "(r, P) \<in># absorb ?old rs d" "x \<in> set (items r)" "d \<in># P" by blast
    moreover have "owner d = ?n" using shared by simp
    ultimately have "(r, P) \<in># held s'" "x \<in> set (items r)" "?n \<in> owner ` set_mset P"
      using imageI [of d "set_mset P" owner] by (auto simp: held'')
    then show ?thesis unfolding tracked_def by blast
  qed
  have "tracked s' k x" if "k < length (sy_accepted s')" "x \<in> set (items (sy_accepted s' ! k))" for k x
    using that track new by (cases "k = ?n") (auto simp: s' nth_append)
  moreover have "\<forall>c \<in># held s'. wf (fst c) \<and> fit (fst c)"
    using abs(1) ex I unfolding held'' by (auto simp: delivery_inv_def held)
  moreover have "stock (held s') = stock (held s) + mset (items req)"
    unfolding held'' held using abs(2) ex by (simp add: ac_simps)
  ultimately show ?thesis using I q(3) by (simp add: delivery_inv_def s' ac_simps)
qed

lemma delivery_finish:
  assumes I: "delivery_inv s" and t: "tickets (pb_dones (sy_qb s)) (refs (held s)) (length (sy_accepted s))"
    and multierr: "keeps_errors (be_multierr env)" and s': "sy_accepted s' = sy_accepted s" "sy_exported s' = sy_exported s @ [(ctx, req, err)]"
      "held s = add_mset (cargo (ctx, req, d)) (held s')" "sy_qb s' = signal_done env d err (sy_qb s)"
  shows "delivery_inv s'"
proof -
  have refs: "refs (held s) = mset (atoms d) + refs (held s')" by (simp add: s' cargo_def)
  have f: "failed (pb_dones (sy_qb s')) (refs (held s')) k"
    if "failed (pb_dones (sy_qb s)) (refs (held s)) k \<or> (err \<noteq> None \<and> k \<in> owner ` set (atoms d))" for k
    using failed_OnDone [OF multierr t [unfolded refs] that [unfolded refs]] by (simp add: s'(4) signal_done_def)
  have "tracked s' k x" if "tracked s k x" for k x
  proof -
    from that consider "failed (pb_dones (sy_qb s)) (refs (held s)) k" | "x \<in> sent (sy_exported s)"
      | r P where "(r, P) \<in># held s" "x \<in> set (items r)" "k \<in> owner ` set_mset P"
      unfolding tracked_def by blast
    then show ?thesis
    proof cases
      case 1
      then show ?thesis using f by (simp add: tracked_def)
    next
      case 2
      then show ?thesis by (auto simp: tracked_def s' sent_def)
    next
      case 3
      show ?thesis
      proof (cases "(r, P) \<in># held s'")
        case True
        with 3 show ?thesis unfolding tracked_def by blast
      next
        case False
        with 3(1) have rp: "r = req" "P = mset (atoms d)" by (auto simp: s' cargo_def)
        show ?thesis
        proof (cases err)
          case None
          then have "x \<in> sent (sy_exported s')" using 3(2) rp by (auto simp: sent_def s')
          then show ?thesis by (simp add: tracked_def)
        next
          case (Some e)
          then show ?thesis using f [of k] 3(3) rp by (auto simp: tracked_def)
        qed
      qed
    qed
  qed
  with I show ?thesis by (auto simp: delivery_inv_def s' cargo_def signal_done_def ac_simps)
qed

lemma delivery:
  assumes multierr: "keeps_errors (be_multierr env)"
    and "batcher_reachable env workers onEmpty now s" and "\<forall>r \<in> set (sy_accepted s). wf r"
  shows "delivery_inv s"
  using assms(2,3)
proof (induction rule: rtranclp_induct)
  case base
  show ?case
    by (simp add: delivery_inv_def batcher_init_def newPartitionBatcher_def held_def batch_cargo_def)
next
  case (step s s')
  note t = system_tickets [OF step(1)]
  from step(2) show ?case
  proof (cases rule: batcher_step_kinds)
    case internal
    then have "delivery_inv s" using step by simp
    moreover have "tracked s' k x = tracked s k x" for k x using internal by (intro tracked_internal)
    ultimately show ?thesis
      using internal(5) unfolding delivery_inv_def internal(1-4) by (elim disjE) simp_all
  next
    case (consume now ctx req act todo qb)
    then have "wf req" and "delivery_inv s" using step by simp_all
    with delivery_consume [OF _ t multierr _ consume] show ?thesis by blast
  next
    case (finish ctx req d err)
    then have "delivery_inv s" using step by simp
    with delivery_finish [OF _ t multierr finish] show ?thesis by blast
  qed
qed

lemma acknowledged_sent:
  assumes multierr: "keeps_errors (be_multierr env)"
    and r: "batcher_reachable env workers onEmpty now s" and wf: "\<forall>r \<in> set (sy_accepted s). wf r"
    and log: "(k, None) \<in> set (ds_log (pb_dones (sy_qb s)))"
  shows "k < length (sy_accepted s) \<and> set (items (sy_accepted s ! k)) \<subseteq> sent (sy_exported s)"
proof -
  note t = system_tickets [OF r]
  have "k \<in> set (map fst (ds_log (pb_dones (sy_qb s))))" using log by force
  then have l: "logged (pb_dones (sy_qb s)) k \<noteq> 0" by (simp add: logged_def count_list_0_iff)
  then have k: "k < length (sy_accepted s)" using ticketsD(3) [OF t] by blast
  then have none: "owned (refs (held s)) k = {#}" using ticketsD(1) [OF t k] l by (auto simp: ticket_def)
  have "x \<in> sent (sy_exported s)" if "x \<in> set (items (sy_accepted s ! k))" for x
  proof -
    have "tracked s k x" using delivery [OF multierr r wf] k that by (simp add: delivery_inv_def)
    moreover have "\<not> failed (pb_dones (sy_qb s)) (refs (held s)) k" using not_failed [OF t log] .
    moreover have "k \<notin> owner ` set_mset P" if "(r, P) \<in># held s" for r P
    proof
      assume "k \<in> owner ` set_mset P"
      then obtain c where c: "c \<in># P" "owner c = k" by auto
      have "c \<in># refs (held s)" using c(1) that by (auto simp: refs_def intro!: bexI [of _ "(r, P)"])
      then have "c \<in># owned (refs (held s)) k" using c(2) by simp
      then show False unfolding none by simp
    qed
    ultimately show ?thesis unfolding tracked_def by blast
  qed
  with k show ?thesis by blast
qed

end

end
