(* ===== verification/BatchConfig.thy ===== *)
theory BatchConfig
  imports Sizers PartitionBatcher
begin

text \<open>
  The configuration of queue and batcher (exporter/exporterhelper/internal/queuebatch/config.go,
  batcher.go, queue\_batch.go) and the batcher used when batching is disabled.
\<close>

datatype config_error =
    UnsupportedBatchSizer SizerType | FlushTimeoutNotPositive int | MinSizeNegative int | MaxSizeNegative int
  | MaxSizeBelowMinSize int int | NumConsumersNotPositive | QueueSizeNotPositive | WaitForResultWithStorage
  | MinSizeAboveQueueSize

record BatchConfig =
  bc_FlushTimeout :: int
  bc_Sizer :: SizerType
  bc_MinSize :: int
  bc_MaxSize :: int
  bc_MetadataKeys :: "string list"

record 'id Config =
  cf_WaitForResult :: bool
  cf_Sizer :: SizerType
  cf_QueueSize :: int
  cf_BlockOnOverflow :: bool
  cf_StorageID :: "'id option"
  cf_NumConsumers :: int
  cf_Batch :: "BatchConfig option"

definition BatchConfig_Validate :: "BatchConfig option \<Rightarrow> config_error option" where
  "BatchConfig_Validate ocfg =
     (case ocfg of
        None \<Rightarrow> None
      | Some cfg \<Rightarrow>
          if bc_Sizer cfg \<noteq> SizerTypeItems \<and> bc_Sizer cfg \<noteq> SizerTypeBytes then Some (UnsupportedBatchSizer (bc_Sizer cfg))
          else if bc_FlushTimeout cfg \<le> 0 then Some (FlushTimeoutNotPositive (bc_FlushTimeout cfg))
          else if bc_MinSize cfg < 0 then Some (MinSizeNegative (bc_MinSize cfg))
          else if bc_MaxSize cfg < 0 then Some (MaxSizeNegative (bc_MaxSize cfg))
          else if 0 < bc_MaxSize cfg \<and> bc_MaxSize cfg < bc_MinSize cfg
               then Some (MaxSizeBelowMinSize (bc_MaxSize cfg) (bc_MinSize cfg))
          else None)"

definition Config_Validate :: "'id Config \<Rightarrow> config_error option" where
  "Config_Validate cfg =
     (if cf_NumConsumers cfg \<le> 0 then Some NumConsumersNotPositive
      else if cf_QueueSize cfg \<le> 0 then Some QueueSizeNotPositive
      else if cf_StorageID cfg \<noteq> None \<and> cf_WaitForResult cfg then Some WaitForResultWithStorage
      else (case cf_Batch cfg of
              Some b \<Rightarrow> if bc_Sizer b = cf_Sizer cfg \<and> cf_QueueSize cfg < bc_MinSize b
                        then Some MinSizeAboveQueueSize else None
            | None \<Rightarrow> None))"

text \<open>
  What \<open>Config.Unmarshal\<close> adds to the decoding of the configuration: the batch takes the sizer of
  the queue when it has none of its own. The flags say what the configuration map contains.
\<close>

record conf_flags =
  has_sizer :: bool
  has_batch_sizer :: bool
  has_batch :: bool
  batch_not_nil :: bool

definition Config_Unmarshal :: "conf_flags \<Rightarrow> 'id Config \<Rightarrow> 'id Config" where
  "Config_Unmarshal conf cfg =
     (if has_sizer conf \<and> \<not> has_batch_sizer conf \<and> has_batch conf \<and> batch_not_nil conf
      then (case cf_Batch cfg of
              Some b \<Rightarrow> cfg\<lparr>cf_Batch := Some (b\<lparr>bc_Sizer := cf_Sizer cfg\<rparr>)\<rparr>
            | None \<Rightarrow> cfg)
      else cfg)"

text \<open>\<open>NewBatcher\<close> chooses the batcher; \<open>NewSizer\<close> never returns nil, so its error cannot occur.\<close>

datatype batcher_choice = DisabledBatcher | PartitionBatcher BatchConfig nat | MultiBatcher BatchConfig nat

definition NewBatcher :: "BatchConfig option \<Rightarrow> bool \<Rightarrow> nat \<Rightarrow> batcher_choice" where
  "NewBatcher cfg hasPartitioner maxWorkers =
     (case cfg of
        None \<Rightarrow> DisabledBatcher
      | Some b \<Rightarrow> if hasPartitioner then MultiBatcher b maxWorkers else PartitionBatcher b maxWorkers)"

text \<open>\<open>NewQueueBatch\<close>: the batcher and the configuration the queue is made with.\<close>

definition NewQueueBatch :: "'id Config \<Rightarrow> bool \<Rightarrow> batcher_choice \<times> 'id Config" where
  "NewQueueBatch cfg hasPartitioner =
     (NewBatcher (cf_Batch cfg) hasPartitioner (nat (cf_NumConsumers cfg)),
      if cf_Batch cfg \<noteq> None \<and> \<not> hasPartitioner then cfg\<lparr>cf_NumConsumers := 1\<rparr> else cfg)"

definition disabledBatcher_Consume ::
  "('e option \<Rightarrow> 'e option \<Rightarrow> 'e option) \<Rightarrow> ('c \<Rightarrow> 'r \<Rightarrow> 'e option) \<Rightarrow> 'c \<Rightarrow> 'r \<Rightarrow> callback \<Rightarrow> 'e dones \<Rightarrow> 'e dones" where
  "disabledBatcher_Consume multierr consumeFunc ctx req d = OnDone multierr (consumeFunc ctx req) d"

lemma Validate_sizes:
  assumes "BatchConfig_Validate (Some cfg) = None"
  shows "0 \<le> bc_MinSize cfg" "0 \<le> bc_MaxSize cfg" "0 < bc_FlushTimeout cfg"
    "bc_MaxSize cfg = 0 \<or> bc_MinSize cfg \<le> bc_MaxSize cfg" "bc_Sizer cfg \<in> {SizerTypeItems, SizerTypeBytes}"
  using assms by (auto simp: BatchConfig_Validate_def split: if_splits)

end
