(* ===== verification/LogsBatcher.thy ===== *)
theory LogsBatcher
  imports BatcherDelivery BatchSplit BatchConfig
begin

text \<open>
  The batcher on logs requests: the operations of \<open>logsRequest\<close> under a batch configuration are an
  environment of the batcher, and with the items sizer they obey the laws of the interface
  \<open>merge_split\<close>. Errors are those of \<open>MergeSplit\<close> or those of the exporter.
\<close>

section \<open>The environment\<close>

definition BytesSize :: "('re, 'sc, 'x) leaf_sizes \<Rightarrow> ('re, 'sc, 'x) request \<Rightarrow> int" where
  "BytesSize leaves req = (case leaves of (res, scs, xs) \<Rightarrow> sz_payload (LogsBytesSizer res scs xs) (rq_ld req))"

definition logs_env ::
  "('re, 'sc, 'x) leaf_sizes \<Rightarrow> ((merge_error + 'f) option \<Rightarrow> (merge_error + 'f) option \<Rightarrow> (merge_error + 'f) option) \<Rightarrow>
   (('s, 'v) gocontext \<Rightarrow> ('s, 'v) gocontext \<Rightarrow> ('s, 'v) gocontext) option \<Rightarrow> ('s, 'v) gocontext \<Rightarrow> BatchConfig \<Rightarrow>
   ('s, 'v, ('re, 'sc, 'x) request, merge_error + 'f) batch_env" where
  "logs_env leaves multierr mergeCtx background cfg =
     \<lparr>be_MergeSplit = (\<lambda>req r2.
        case MergeSplit leaves (bc_MaxSize cfg) (bc_Sizer cfg) req (map_option LogsRequest r2) of
          (reqList, err, req') \<Rightarrow> (reqList, map_option Inl err, req')),
      be_Sizeof = NewSizer (BytesSize leaves) (\<lambda>req. int (ItemsCount req)) (bc_Sizer cfg),
      be_MinSize = bc_MinSize cfg, be_FlushTimeout = bc_FlushTimeout cfg, be_mergeCtx = mergeCtx,
      be_Background = background, be_multierr = multierr\<rparr>"

definition items_config :: "BatchConfig \<Rightarrow> bool" where
  "items_config cfg \<longleftrightarrow> BatchConfig_Validate (Some cfg) = None \<and> bc_Sizer cfg = SizerTypeItems \<and> bc_MaxSize cfg \<le> max_i64"

abbreviation log_items :: "('re, 'sc, 'x) request \<Rightarrow> ('re \<times> string \<times> 'sc \<times> string \<times> 'x) list" where
  "log_items req \<equiv> payload_flat (rq_ld req)"

lemma length_log_items: "length (log_items req) = ItemsCount req"
  by (simp add: length_payload_flat ItemsCount_def)

section \<open>The laws\<close>

lemma merge_flat_items:
  "merge_flat req (map_option LogsRequest opt) = log_items req @ (case opt of None \<Rightarrow> [] | Some x \<Rightarrow> log_items x)"
  by (cases opt) simp_all

lemma items_merge:
  assumes cfg: "items_config cfg" and req: "cache_ok LogsCountSizer req" and opt: "pred_option (cache_ok LogsCountSizer) opt"
    and ms: "MergeSplit leaves (bc_MaxSize cfg) (bc_Sizer cfg) req (map_option LogsRequest opt) = (rs, err, req')"
  shows "err = None" and "rs \<noteq> []" and "results_flat rs = merge_flat req (map_option LogsRequest opt)"
    and "\<forall>r \<in> set rs. cache_ok LogsCountSizer r \<and> (bc_MaxSize cfg \<noteq> 0 \<longrightarrow> int (ItemsCount r) \<le> bc_MaxSize cfg)"
    and "length rs = 1 \<or> int (ItemsCount (hd rs)) = bc_MaxSize cfg \<and> bc_MaxSize cfg \<noteq> 0"
proof -
  let ?r2 = "map_option LogsRequest opt"
  have in_ok: "input_cache_ok LogsCountSizer ?r2" using opt by (cases opt) simp_all
  have other: "?r2 \<noteq> Some OtherRequest" by (cases opt) simp_all
  have szt: "bc_Sizer cfg = SizerTypeItems" and m: "bc_MaxSize cfg \<le> max_i64" "0 \<le> bc_MaxSize cfg"
    using cfg Validate_sizes(2) by (auto simp: items_config_def)
  have facts: "err = None \<and> rs \<noteq> [] \<and>
      (\<forall>r \<in> set rs. cache_ok LogsCountSizer r \<and> (bc_MaxSize cfg \<noteq> 0 \<longrightarrow> int (ItemsCount r) \<le> bc_MaxSize cfg)) \<and>
      (length rs = 1 \<or> int (ItemsCount (hd rs)) = bc_MaxSize cfg \<and> bc_MaxSize cfg \<noteq> 0)"
  proof (cases "bc_MaxSize cfg = 0")
    case True
    then show ?thesis using ms other szt merge_input_cache_ok [OF count_sizer.sizer_laws_axioms req in_ok]
      by (auto simp: MergeSplit_cases)
  next
    case False
    with m have pos: "0 < bc_MaxSize cfg" by simp
    have pack: "err = None" "filled (bc_MaxSize cfg) rs"
      using MergeSplit_packs [OF pos other req in_ok ms [unfolded szt]] by simp_all
    have size: "sz_payload LogsCountSizer (rq_ld r) \<le> bc_MaxSize cfg \<and> cache_ok LogsCountSizer r" if "r \<in> set rs" for r
      using MergeSplit_sizes [OF _ pos m(1) req in_ok ms] szt that by simp
    obtain y ys where y: "rs = y # ys" using pack(2) by (cases rs) (auto simp: filled_def)
    have "ys = [] \<or> y \<in> set (butlast rs)" by (simp add: y)
    then have "length rs = 1 \<or> int (ItemsCount (hd rs)) = bc_MaxSize cfg"
      using pack(2) by (auto simp: filled_def y)
    then show ?thesis using pack(1) size y pos by (auto simp: LogsCountSizer_def ItemsCount_def)
  qed
  then show "err = None" "rs \<noteq> []"
    "\<forall>r \<in> set rs. cache_ok LogsCountSizer r \<and> (bc_MaxSize cfg \<noteq> 0 \<longrightarrow> int (ItemsCount r) \<le> bc_MaxSize cfg)"
    "length rs = 1 \<or> int (ItemsCount (hd rs)) = bc_MaxSize cfg \<and> bc_MaxSize cfg \<noteq> 0" by simp_all
  show "results_flat rs = merge_flat req ?r2"
    using MergeSplit_keeps [where leaves = leaves and m = "bc_MaxSize cfg" and szt = "bc_Sizer cfg" and req = req and ?r2.0 = ?r2] ms facts by simp
qed

interpretation logs_items: merge_split "logs_env leaves multierr mergeCtx background cfg" log_items
  "\<lambda>req. items_config cfg \<and> cache_ok LogsCountSizer req"
  "\<lambda>req. bc_MaxSize cfg \<noteq> 0 \<longrightarrow> int (ItemsCount req) \<le> bc_MaxSize cfg"
proof (unfold_locales, goal_cases)
  case (1 r opt rs err r')
  then obtain e where ms: "MergeSplit leaves (bc_MaxSize cfg) (bc_Sizer cfg) r (map_option LogsRequest opt) = (rs, e, r')"
    and err: "err = map_option Inl e"
    by (auto simp: logs_env_def split: prod.splits)
  have opt: "pred_option (cache_ok LogsCountSizer) opt" using 1(2) by (cases opt) simp_all
  note im = items_merge [OF conjunct1 [OF 1(1)] conjunct2 [OF 1(1)] opt ms]
  show ?case
    using im(1-4) 1(1) err by (simp add: results_flat_def o_def merge_flat_items)
next
  case (2 r x rs err r')
  then obtain e where ms: "MergeSplit leaves (bc_MaxSize cfg) (bc_Sizer cfg) r (map_option LogsRequest (Some x)) = (rs, e, r')"
    by (auto simp: logs_env_def split: prod.splits)
  note im = items_merge [OF conjunct1 [OF 2(1)] conjunct2 [OF 2(1)] _ ms]
  have x: "pred_option (cache_ok LogsCountSizer) (Some x)" using 2(2) by simp
  have small: "int (ItemsCount r) < bc_MinSize cfg"
    using 2(1,3) by (simp add: logs_env_def items_config_def)
  have valid: "bc_MaxSize cfg = 0 \<or> bc_MinSize cfg \<le> bc_MaxSize cfg"
    using 2(1) Validate_sizes(4) by (simp add: items_config_def)
  show ?case
  proof (cases "length rs = 1")
    case True
    then obtain y where "rs = [y]" by (cases rs) auto
    then show ?thesis using im(3) [OF x] by simp
  next
    case False
    then show ?thesis using im(5) [OF x] small valid by (auto simp: length_log_items)
  qed
qed

section \<open>The properties\<close>

text \<open>
  C23. With the items sizer, success means delivered: when the queue's callback of a request is
  called without an error, every log record of that request, with its resource and scope, was part
  of an export that returned no error, whatever the interleaving, the merging and splitting of
  requests and the failures of other exports. The sizers of bytes and requests are not covered: that
  the whole current batch goes into the first result, to which its callbacks are attached, is shown
  from the exact sizes of the items sizer.
\<close>

theorem acknowledged_logs_were_exported:
  assumes "items_config cfg" and "keeps_errors multierr"
    and "batcher_reachable (logs_env leaves multierr mergeCtx background cfg) workers onEmpty now s"
    and "\<forall>r \<in> set (sy_accepted s). cache_ok LogsCountSizer r"
    and "(k, None) \<in> set (ds_log (pb_dones (sy_qb s)))"
  shows "k < length (sy_accepted s) \<and>
    (\<forall>x \<in> set (log_items (sy_accepted s ! k)). \<exists>ctx r. (ctx, r, None) \<in> set (sy_exported s) \<and> x \<in> set (log_items r))"
proof -
  have "keeps_errors (be_multierr (logs_env leaves multierr mergeCtx background cfg))"
    using assms(2) by (simp add: logs_env_def)
  from logs_items.acknowledged_sent [OF this assms(3) _ assms(5)] assms(1,4)
  show ?thesis by (auto simp: logs_items.sent_def)
qed

text \<open>
  C24. With the items sizer nothing is lost, duplicated or too large: every export is within
  \<open>max_size\<close> and the exports together hold no record more often than the accepted requests do, at any
  time; and they hold exactly the accepted records once the batcher is at rest with no batch pending
  (while work is in flight some are still missing). With the bytes sizer this fails: the lemma
  \<open>dropped_record_is_exported\<close> of the theory \<open>BatcherDemo\<close> has an export above the limit of a record
  reported as dropped.
\<close>

theorem exported_logs_are_accepted_logs:
  assumes "items_config cfg" and "keeps_errors multierr"
    and "batcher_reachable (logs_env leaves multierr mergeCtx background cfg) workers onEmpty now s"
    and "\<forall>r \<in> set (sy_accepted s). cache_ok LogsCountSizer r"
  shows "(\<forall>(ctx, r, e) \<in> set (sy_exported s). bc_MaxSize cfg \<noteq> 0 \<longrightarrow> int (ItemsCount r) \<le> bc_MaxSize cfg) \<and>
    mset (concat (map (\<lambda>(ctx, r, e). log_items r) (sy_exported s))) \<subseteq># mset (concat (map log_items (sy_accepted s))) \<and>
    (at_rest s \<and> pb_currentBatch (sy_qb s) = None \<longrightarrow>
       mset (concat (map (\<lambda>(ctx, r, e). log_items r) (sy_exported s))) = mset (concat (map log_items (sy_accepted s))))"
proof -
  have "keeps_errors (be_multierr (logs_env leaves multierr mergeCtx background cfg))"
    using assms(2) by (simp add: logs_env_def)
  note inv = logs_items.delivery [OF this assms(3), unfolded logs_items.delivery_inv_def] 
  have "at_rest s \<and> pb_currentBatch (sy_qb s) = None \<Longrightarrow> held s = {#}"
    by (simp add: at_rest_def held_def batch_cargo_def)
  with inv assms(1,4) show ?thesis by (auto simp: mset_subset_eq_exists_conv) (metis add.commute)
qed

end
