(* ===== verification/BatcherDemo.thy ===== *)
theory BatcherDemo
  imports LogsBatcher
begin

text \<open>
  A run of the batcher on logs requests with the items sizer, \<open>min_size\<close> and \<open>max_size\<close> two and one
  worker: a request with one record is kept, a second one with two records fills the batch and
  leaves a record, a shutdown flushes it. The run shows that the hypotheses of the batcher's
  properties hold together.
\<close>

abbreviation demo_multierr :: "(merge_error + nat) option \<Rightarrow> (merge_error + nat) option \<Rightarrow> (merge_error + nat) option" where
  "demo_multierr a b \<equiv> (case a of None \<Rightarrow> b | Some e \<Rightarrow> Some e)"

lemma demo_multierr_keeps: "keeps_errors demo_multierr"
  by (simp add: keeps_errors_def split: option.split)

definition batch_cfg :: BatchConfig where
  "batch_cfg = \<lparr>bc_FlushTimeout = 10, bc_Sizer = SizerTypeItems, bc_MinSize = 2, bc_MaxSize = 2, bc_MetadataKeys = []\<rparr>"

definition demo_ctx :: "(nat, nat) gocontext" where
  "demo_ctx = \<lparr>cx_span = None, cx_links = None, cx_values = 0\<rparr>"

type_synonym demo_request = "(nat, nat, nat) request"

definition demo_env :: "(nat, nat, demo_request, merge_error + nat) batch_env" where
  "demo_env = logs_env (id, id, id) demo_multierr None demo_ctx batch_cfg"

definition demo_req1 :: demo_request where "demo_req1 = sample_request [[7]]"
definition demo_req2 :: demo_request where "demo_req2 = sample_request [[8, 9]]"

lemma batch_cfg_ok: "items_config batch_cfg"
  by (simp add: items_config_def BatchConfig_Validate_def batch_cfg_def max_i64_def)

definition demo_qb0 :: "(nat, nat, demo_request, merge_error + nat) partitionBatcher" where
  "demo_qb0 = (newPartitionBatcher True 0)\<lparr>pb_timer := True\<rparr>"

definition demo_qb1 :: "(nat, nat, demo_request, merge_error + nat) partitionBatcher" where
  "demo_qb1 = snd (snd (consumeInternal demo_env 0 demo_ctx demo_req1 (QueueDone 0) demo_qb0))"

definition demo_qb2 :: "(nat, nat, demo_request, merge_error + nat) partitionBatcher" where
  "demo_qb2 = snd (snd (consumeInternal demo_env 1 demo_ctx demo_req2 (QueueDone 1) demo_qb1))"

definition demo_full :: demo_request where
  "demo_full = newLogsRequest [\<lparr>rd_resource = 0, rd_schema = '''', rd_scopes = [sample_scope [7]]\<rparr>,
                               \<lparr>rd_resource = 0, rd_schema = '''', rd_scopes = [sample_scope [8]]\<rparr>]"

definition demo_rest :: demo_request where
  "demo_rest = (sample_request [[9]])\<lparr>rq_cachedSize := 1\<rparr>"

definition demo_linked :: "(nat, nat) gocontext" where "demo_linked = demo_ctx\<lparr>cx_links := Some []\<rparr>"

definition demo_shared :: callback where "demo_shared = RefCountDone 0 (QueueDone 1)"

definition demo_flush1 :: "(nat, nat, demo_request) flush" where
  "demo_flush1 = (demo_linked, demo_full, MultiDone [QueueDone 0, demo_shared])"

definition demo_flush2 :: "(nat, nat, demo_request) flush" where
  "demo_flush2 = (demo_ctx, demo_rest, MultiDone [demo_shared])"

lemma demo_consume1:
  "consumeInternal demo_env 0 demo_ctx demo_req1 (QueueDone 0) demo_qb0 = (True, [], demo_qb1)"
  by code_simp

lemma demo_qb1_empty: "pb_dones demo_qb1 = \<lparr>ds_cells = [], ds_log = []\<rparr> \<and> pb_active demo_qb1 \<and> pb_timer demo_qb1"
  by code_simp

lemma demo_consume2:
  "consumeInternal demo_env 1 demo_ctx demo_req2 (QueueDone (Suc 0)) demo_qb1 = (True, [demo_flush1], demo_qb2)"
  by code_simp

lemma demo_qb2_fields:
  "pb_currentBatch demo_qb2 = Some \<lparr>bt_ctx = demo_ctx, bt_req = demo_rest, bt_done = [demo_shared]\<rparr> \<and>
   pb_dones demo_qb2 = \<lparr>ds_cells = [\<lparr>rc_refCount = 2, rc_err = None\<rparr>], ds_log = []\<rparr> \<and>
   pb_active demo_qb2 \<and> pb_lastDataTime demo_qb2 = 1 \<and> pb_timer demo_qb2 \<and> pb_onEmpty demo_qb2"
  by code_simp

section \<open>The run\<close>

abbreviation demo_reachable :: "(nat, nat, demo_request, merge_error + nat) batcher_system \<Rightarrow> bool" where
  "demo_reachable \<equiv> batcher_reachable demo_env 1 True 0"

definition demo_start :: "(nat, nat, demo_request, merge_error + nat) batcher_system" where
  "demo_start = \<lparr>sy_qb = demo_qb0, sy_go = [], sy_flight = [], sy_free = 1, sy_stopWG = 1, sy_timerLoop = True,
     sy_exported = [], sy_accepted = [], sy_multi = True, sy_others = 0\<rparr>"

definition demo_kept :: "(nat, nat, demo_request, merge_error + nat) batcher_system" where
  "demo_kept = demo_start\<lparr>sy_qb := demo_qb1, sy_accepted := [demo_req1]\<rparr>"

definition demo_split :: "(nat, nat, demo_request, merge_error + nat) batcher_system" where
  "demo_split = demo_start\<lparr>sy_qb := demo_qb2, sy_accepted := [demo_req1, demo_req2],
     sy_go := [spawn ConsumeT [demo_flush1] False]\<rparr>"

definition demo_flushing :: "(nat, nat, demo_request, merge_error + nat) batcher_system" where
  "demo_flushing = demo_split\<lparr>sy_go := [], sy_flight := [demo_flush1], sy_free := 0, sy_stopWG := 2\<rparr>"

definition demo_qb3 :: "(nat, nat, demo_request, merge_error + nat) partitionBatcher" where
  "demo_qb3 = demo_qb2\<lparr>pb_dones := \<lparr>ds_cells = [\<lparr>rc_refCount = 1, rc_err = None\<rparr>], ds_log = [(0, None)]\<rparr>\<rparr>"

definition demo_half :: "(nat, nat, demo_request, merge_error + nat) batcher_system" where
  "demo_half = demo_split\<lparr>sy_go := [], sy_qb := demo_qb3, sy_exported := [(demo_linked, demo_full, None)]\<rparr>"

definition demo_stopping :: "(nat, nat, demo_request, merge_error + nat) batcher_system" where
  "demo_stopping = demo_half\<lparr>sy_go := [spawn ShutdownT [demo_flush2] False],
     sy_qb := demo_qb3\<lparr>pb_active := False, pb_onEmpty := False, pb_lastDataTime := 5, pb_currentBatch := None, pb_timer := True\<rparr>\<rparr>"

definition demo_stopped :: "(nat, nat, demo_request, merge_error + nat) batcher_system" where
  "demo_stopped = demo_stopping\<lparr>sy_go := [spawn ShutdownT [] False], sy_timerLoop := False, sy_stopWG := 0,
     sy_qb := (sy_qb demo_stopping)\<lparr>pb_dones := \<lparr>ds_cells = [\<lparr>rc_refCount = 0, rc_err = None\<rparr>], ds_log = [(0, None), (1, None)]\<rparr>\<rparr>,
     sy_exported := [(demo_linked, demo_full, None), (demo_ctx, demo_rest, None)]\<rparr>"

definition demo_final :: "(nat, nat, demo_request, merge_error + nat) batcher_system" where
  "demo_final = demo_stopped\<lparr>sy_go := []\<rparr>"

lemma step_to: "(batcher_step env)\<^sup>*\<^sup>* s t \<Longrightarrow> batcher_step env t u \<Longrightarrow> u = v \<Longrightarrow> (batcher_step env)\<^sup>*\<^sup>* s v"
  by simp

lemma demo_start_init: "demo_start = batcher_init demo_env 1 True 0"
  by (simp add: demo_start_def batcher_init_def demo_qb0_def demo_env_def logs_env_def batch_cfg_def)

lemma demo_reach_kept: "demo_reachable demo_kept"
proof -
  have "demo_reachable demo_start" by (simp add: demo_start_init)
  then have "demo_reachable (demo_kept\<lparr>sy_go := [spawn ConsumeT [] False]\<rparr>)"
    by (rule step_to [OF _ batcher_step.Consume [where now = 0 and ctx = demo_ctx and req = demo_req1 and isActive = True and todo = "[]" and qb = demo_qb1]])
      (simp_all add: demo_start_def demo_consume1 demo_kept_def)
  then show ?thesis
    by (rule step_to [OF _ batcher_step.Returns [where gs = "[]" and g = "spawn ConsumeT [] False" and hs = "[]"]]) (simp_all add: demo_kept_def demo_start_def)
qed

lemma demo_reach_split: "demo_reachable demo_split"
  using demo_reach_kept
  by (rule step_to [OF _ batcher_step.Consume [where now = 1 and ctx = demo_ctx and req = demo_req2 and isActive = True and todo = "[demo_flush1]" and qb = demo_qb2]])
    (simp_all add: demo_start_def demo_consume2 demo_kept_def demo_split_def)

lemma demo_reach_flushing: "demo_reachable demo_flushing"
proof -
  from demo_reach_split have "demo_reachable (demo_split\<lparr>sy_stopWG := 2,
      sy_go := [(spawn ConsumeT [] False)\<lparr>go_blocked := Some demo_flush1\<rparr>]\<rparr>)"
    by (rule step_to [OF _ batcher_step.FlushCall [where gs = "[]" and g = "spawn ConsumeT [demo_flush1] False" and hs = "[]" and f = demo_flush1 and fs = "[]"]]) (simp_all add: demo_split_def demo_start_def)
  then have "demo_reachable (demo_flushing\<lparr>sy_go := [spawn ConsumeT [] False]\<rparr>)"
    by (rule step_to [OF _ batcher_step.FlushStart [where gs = "[]" and g = "(spawn ConsumeT [] False)\<lparr>go_blocked := Some demo_flush1\<rparr>" and f = demo_flush1 and hs = "[]"]])
      (simp_all add: demo_split_def demo_flushing_def demo_start_def)
  then show ?thesis
    by (rule step_to [OF _ batcher_step.Returns [where gs = "[]" and g = "spawn ConsumeT [] False" and hs = "[]"]])
      (simp_all add: demo_flushing_def demo_split_def demo_start_def)
qed

lemma demo_reach_half: "demo_reachable demo_half"
  using demo_reach_flushing
  by (rule step_to [OF _ batcher_step.FlushEnd [where fs = "[]" and ctx = demo_linked and req = demo_full and d = "MultiDone [QueueDone 0, demo_shared]" and hs = "[]" and err = None]])
    (simp_all add: demo_flushing_def demo_flush1_def demo_half_def demo_split_def demo_start_def signal_done_def demo_qb3_def
      demo_qb2_fields demo_shared_def Let_def demo_env_def logs_env_def)

lemma demo_reach_stopping: "demo_reachable demo_stopping"
proof -
  let ?qb = "demo_qb3\<lparr>pb_active := False, pb_onEmpty := False\<rparr>"
  from demo_reach_half have "demo_reachable (demo_half\<lparr>sy_qb := ?qb, sy_go := [spawn ShutdownT [] True]\<rparr>)"
    by (rule step_to [OF _ batcher_step.ShutdownStarts [where qb = "demo_qb3\<lparr>pb_active := False, pb_onEmpty := False\<rparr>"]])
      (simp_all add: demo_half_def demo_split_def shutdownInternal_def demo_qb3_def demo_qb2_fields)
  then show ?thesis
    by (rule step_to [OF _ batcher_step.FlushCurrent [where gs = "[]" and g = "spawn ShutdownT [] True" and hs = "[]" and now = 5 and todo = "[demo_flush2]" and onEmpty = False and qb = "sy_qb demo_stopping"]])
      (simp_all add: demo_stopping_def flushCurrentBatchOrRemovePartition_def demo_qb3_def demo_qb2_fields resetTimer_def
        demo_env_def logs_env_def batch_cfg_def demo_flush2_def)
qed

lemma demo_reach_stopped: "demo_reachable demo_stopped"
proof -
  let ?q = "sy_qb demo_stopped"
  note defs = demo_stopped_def demo_stopping_def demo_half_def demo_split_def demo_start_def
  from demo_reach_stopping have "demo_reachable (demo_stopping\<lparr>sy_stopWG := 2,
      sy_go := [(spawn ShutdownT [] False)\<lparr>go_blocked := Some demo_flush2\<rparr>]\<rparr>)"
    by (rule step_to [OF _ batcher_step.FlushCall [where gs = "[]" and g = "spawn ShutdownT [demo_flush2] False" and hs = "[]" and f = demo_flush2 and fs = "[]"]]) (simp_all add: defs)
  then have "demo_reachable (demo_stopping\<lparr>sy_stopWG := 2, sy_free := 0, sy_flight := [demo_flush2],
      sy_go := [spawn ShutdownT [] False]\<rparr>)"
    by (rule step_to [OF _ batcher_step.FlushStart [where gs = "[]" and g = "(spawn ShutdownT [] False)\<lparr>go_blocked := Some demo_flush2\<rparr>" and f = demo_flush2 and hs = "[]"]]) (simp_all add: defs)
  then have "demo_reachable (demo_stopped\<lparr>sy_stopWG := 1, sy_timerLoop := True\<rparr>)"
    by (rule step_to [OF _ batcher_step.FlushEnd [where fs = "[]" and ctx = demo_ctx and req = demo_rest and d = "MultiDone [demo_shared]" and hs = "[]" and err = None]])
      (simp_all add: defs demo_flush2_def signal_done_def demo_qb3_def demo_shared_def Let_def demo_env_def logs_env_def)
  then show ?thesis
    by (rule step_to [OF _ batcher_step.TimerLoopEnds]) (simp_all add: defs)
qed

lemma demo_reach_final: "demo_reachable demo_final"
  using demo_reach_stopped
  by (rule step_to [OF _ batcher_step.Returns [where gs = "[]" and g = "spawn ShutdownT [] False" and hs = "[]"]])
    (simp_all add: demo_final_def demo_stopped_def demo_stopping_def demo_half_def demo_split_def demo_start_def)

lemma demo_final_fields:
  "at_rest demo_final \<and> pb_currentBatch (sy_qb demo_final) = None \<and> sy_accepted demo_final = [demo_req1, demo_req2] \<and>
   ds_log (pb_dones (sy_qb demo_final)) = [(0, None), (1, None)] \<and>
   sy_exported demo_final = [(demo_linked, demo_full, None), (demo_ctx, demo_rest, None)]"
  by (simp add: at_rest_def demo_final_def demo_stopped_def demo_stopping_def demo_half_def demo_split_def demo_start_def)

theorem batcher_acknowledges_once_witness:
  "logged (pb_dones (sy_qb demo_final)) 1 = 1"
  using batcher_acknowledges_once [OF demo_reach_final] demo_final_fields by (auto simp: numeral_2_eq_2)

theorem batcher_shutdown_complete_witness:
  "logged (pb_dones (sy_qb demo_stopped)) 0 = 1 \<and> sy_flight demo_stopped = []"
  using batcher_shutdown_complete [OF demo_reach_stopped, of "[]" "spawn ShutdownT [] False" "[]"]
  by (simp add: demo_stopped_def demo_stopping_def demo_half_def demo_split_def demo_start_def)

lemma demo_works:
  "works demo_env demo_split (demo_split\<lparr>sy_stopWG := 2, sy_go := [(spawn ConsumeT [] False)\<lparr>go_blocked := Some demo_flush1\<rparr>]\<rparr>)"
proof -
  have "sy_go demo_split = [] @ spawn ConsumeT [demo_flush1] False # []" by (simp add: demo_split_def)
  from batcher_step.FlushCall [OF this, of demo_flush1 "[]" demo_env] show ?thesis
    by (simp add: works_def demo_split_def demo_start_def)
qed

theorem batcher_drains_witness: "1 \<le> work demo_split"
proof -
  have "True \<longrightarrow> of_kind {EvictT} (sy_go demo_split) + sy_others demo_split < 1"
    by (simp add: demo_split_def demo_start_def)
  from conjunct1 [OF batcher_drains [OF demo_reach_split zero_less_one this], rule_format, of 1]
  show ?thesis using demo_works by (auto simp: relpowp_1)
qed

theorem acknowledged_logs_were_exported_witness:
  "\<exists>ctx r. (ctx, r, None) \<in> set (sy_exported demo_final) \<and> (0, '''', 0, '''', 9) \<in> set (log_items r)"
proof -
  have "\<forall>r \<in> set (sy_accepted demo_final). cache_ok LogsCountSizer r"
    by (simp add: demo_final_fields demo_req1_def demo_req2_def sample_request_def)
  from acknowledged_logs_were_exported [OF batch_cfg_ok demo_multierr_keeps demo_reach_final [unfolded demo_env_def] this, of 1]
  show ?thesis
    by (simp add: demo_final_fields demo_req2_def sample_request_def newLogsRequest_def sample_scope_def
        payload_flat_def resource_flat_def scope_flat_def)
qed

theorem exported_logs_are_accepted_logs_witness:
  "mset (concat (map (\<lambda>(ctx, r, e). log_items r) (sy_exported demo_final))) = mset (concat (map log_items [demo_req1, demo_req2]))"
proof -
  have "\<forall>r \<in> set (sy_accepted demo_final). cache_ok LogsCountSizer r"
    by (simp add: demo_final_fields demo_req1_def demo_req2_def sample_request_def)
  from exported_logs_are_accepted_logs [OF batch_cfg_ok demo_multierr_keeps demo_reach_final [unfolded demo_env_def] this]
  show ?thesis using demo_final_fields by simp
qed

section \<open>Two defects\<close>

text \<open>
  The cache of the multi batcher evicts a partition by running \<open>shutdownInternal\<close> on a worker of
  the pool its flushes need. Once such goroutines hold every worker, no flush can start.
\<close>

definition eviction_stuck :: "('s, 'x, 'r, 'e) batcher_system \<Rightarrow> bool" where
  "eviction_stuck s \<longleftrightarrow> sy_free s = 0 \<and> sy_others s = 0 \<and> sy_flight s = [] \<and> sy_exported s = [] \<and> EvictT \<in> go_kind ` set (sy_go s) \<and>
     (\<forall>g \<in> set (sy_go s). go_kind g = EvictT \<longrightarrow> go_blocked g \<noteq> None)"

lemma eviction_stuck_step: "batcher_step env s s' \<Longrightarrow> eviction_stuck s \<Longrightarrow> eviction_stuck s'"
  by (erule batcher_step.cases) (auto simp: eviction_stuck_def)

lemma eviction_stuck_forever: "(batcher_step env)\<^sup>*\<^sup>* s t \<Longrightarrow> eviction_stuck s \<Longrightarrow> eviction_stuck t"
  by (induction rule: rtranclp_induct) (auto intro: eviction_stuck_step)

definition demo_flush0 :: "(nat, nat, demo_request) flush" where
  "demo_flush0 = (demo_ctx, demo_req1\<lparr>rq_cachedSize := 1\<rparr>, MultiDone [QueueDone 0])"

lemma demo_qb1_batch:
  "pb_currentBatch demo_qb1 = Some \<lparr>bt_ctx = demo_ctx, bt_req = demo_req1\<lparr>rq_cachedSize := 1\<rparr>, bt_done = [QueueDone 0]\<rparr>"
  by code_simp

definition demo_evicted :: "(nat, nat, demo_request, merge_error + nat) batcher_system" where
  "demo_evicted = demo_kept\<lparr>sy_free := 0, sy_stopWG := 2,
     sy_qb := demo_qb1\<lparr>pb_active := False, pb_onEmpty := False, pb_lastDataTime := 3, pb_currentBatch := None, pb_timer := True\<rparr>,
     sy_go := [(spawn EvictT [] False)\<lparr>go_blocked := Some demo_flush0\<rparr>]\<rparr>"

lemma demo_reach_evicted: "demo_reachable demo_evicted"
proof -
  let ?qb = "demo_qb1\<lparr>pb_active := False, pb_onEmpty := False\<rparr>"
  from demo_reach_kept have "demo_reachable (demo_kept\<lparr>sy_free := 0, sy_qb := ?qb, sy_go := [spawn EvictT [] True]\<rparr>)"
    by (rule step_to [OF _ batcher_step.EvictStarts [where qb = ?qb]])
      (simp_all add: demo_kept_def demo_start_def shutdownInternal_def demo_qb1_empty)
  then have "demo_reachable (demo_evicted\<lparr>sy_stopWG := 1, sy_go := [spawn EvictT [demo_flush0] False]\<rparr>)"
    by (rule step_to [OF _ batcher_step.FlushCurrent [where gs = "[]" and g = "spawn EvictT [] True" and hs = "[]" and now = 3
            and todo = "[demo_flush0]" and onEmpty = False and qb = "sy_qb demo_evicted"]])
      (simp_all add: demo_evicted_def demo_kept_def demo_start_def flushCurrentBatchOrRemovePartition_def demo_qb1_batch
        demo_flush0_def resetTimer_def demo_env_def logs_env_def batch_cfg_def)
  then show ?thesis
    by (rule step_to [OF _ batcher_step.FlushCall [where gs = "[]" and g = "spawn EvictT [demo_flush0] False" and hs = "[]"
            and f = demo_flush0 and fs = "[]"]])
      (simp_all add: demo_evicted_def demo_kept_def demo_start_def)
qed

text \<open>
  C25. With one worker, the eviction of a partition that holds a batch never finishes: there is a
  reachable state with an accepted request from which no continuation, whatever else is consumed,
  exports anything or lets the evicting goroutine return.
\<close>

theorem eviction_deadlock:
  "demo_reachable demo_evicted \<and> sy_accepted demo_evicted = [demo_req1] \<and>
   {t. (batcher_step demo_env)\<^sup>*\<^sup>* demo_evicted t} \<subseteq> {t. sy_exported t = [] \<and> EvictT \<in> go_kind ` set (sy_go t)}"
proof -
  have "eviction_stuck demo_evicted"
    by (simp add: eviction_stuck_def demo_evicted_def demo_kept_def demo_start_def)
  then show ?thesis
    using eviction_stuck_forever [of demo_env demo_evicted] demo_reach_evicted
    by (auto simp: eviction_stuck_def demo_evicted_def demo_kept_def)
qed

definition bytes_env :: "(nat, nat, demo_request, merge_error + nat) batch_env" where
  "bytes_env = logs_env (id, id, id) demo_multierr None demo_ctx
     \<lparr>bc_FlushTimeout = 10, bc_Sizer = SizerTypeBytes, bc_MinSize = 40, bc_MaxSize = 40, bc_MetadataKeys = []\<rparr>"

definition bytes_qb :: "(nat, nat, demo_request, merge_error + nat) partitionBatcher" where
  "bytes_qb = snd (snd (consumeInternal bytes_env 0 demo_ctx (sample_request [[]]) (QueueDone 0) demo_qb0))"

definition bytes_qb2 :: "(nat, nat, demo_request, merge_error + nat) partitionBatcher" where
  "bytes_qb2 = snd (snd (consumeInternal bytes_env 1 demo_ctx (sample_request [[100]]) (QueueDone 1) bytes_qb))"

text \<open>
  A request reported as dropped can still be exported, and above the limit. With the bytes
  sizer and a limit of 40 bytes, a request without records is kept as the batch; a request with a
  record of 100 bytes is then merged into it, the queue is told that the record is greater than
  the limit and dropped, yet the record stays in the batch and the next flush exports it in a
  request of more than 40 bytes.
\<close>

lemma dropped_record_is_exported:
  "ds_log (pb_dones bytes_qb2) = [(1, Some (Inl (ItemGreaterThanMaxSize 1)))] \<and>
   (case flushCurrentBatchOrRemovePartition bytes_env 2 bytes_qb2 of
      ([(ctx, req, d)], _, _) \<Rightarrow> map (\<lambda>(re, rs, sc, ss, x). x) (log_items req) = [100] \<and> 40 < BytesSize (id, id, id) req \<and>
        d = MultiDone [QueueDone 0]
    | _ \<Rightarrow> False)"
  by code_simp

end
