(* ===== verification/Fanout.thy ===== *)
theory Fanout
  imports Prelude
begin

text \<open>
  How the pipelines of the service pass data on (internal/fanoutconsumer/logs.go and the copies for
  the other signals, service/internal/graph/graph.go, service/internal/graph/connector.go,
  pdata/internal/state.go). Data objects are references into a store that keeps the read-only bit
  of each object; every use of an object by a component is recorded with the position of the
  component in the tree of consumers.

  A consumer is an exporter (whether it mutates data, and its error), a pipeline (its processors,
  by whether they mutate data, and the consumers behind its fanout node) or a connector between
  pipelines of the same signal that hands its data to the pipelines behind it. Processors and
  connectors pass the object on that they get, which is the case in which sharing matters.
\<close>

datatype 'e consumer =
    Exporter bool "'e list"
  | Pipeline "bool list" "'e consumer list"
  | Connector bool "'e consumer list"

section \<open>Capabilities\<close>

text \<open>\<open>NewLogs\<close> followed by \<open>Capabilities\<close>: what a fanout reports for the given consumers.\<close>

definition fanout_MutatesData :: "bool list \<Rightarrow> bool" where
  "fanout_MutatesData ms =
     (if length ms = 1 \<and> \<not> hd ms then hd ms
      else 0 < length (filter (\<lambda>m. m) ms) \<and> length (filter (\<lambda>m. \<not> m) ms) = 0)"

definition aggregateCap :: "bool \<Rightarrow> bool list \<Rightarrow> bool" where
  "aggregateCap base nexts = fold (\<lambda>next mutatesData. mutatesData \<or> next) nexts base"

fun MutatesData :: "'e consumer \<Rightarrow> bool" where
  "MutatesData (Exporter mutates errs) = mutates"
| "MutatesData (Pipeline procs cs) =
     fold (\<lambda>proc mutatesData. mutatesData \<or> proc) procs (fanout_MutatesData (map MutatesData cs))"
| "MutatesData (Connector mutates cs) = aggregateCap mutates (map MutatesData cs)"

section \<open>Data objects\<close>

record access =
  ac_path :: "nat list"
  ac_ref :: nat
  ac_mutates :: bool
  ac_readonly :: bool

record store =
  so_readonly :: "bool list"
  so_log :: "access list"

definition IsReadOnly :: "nat \<Rightarrow> store \<Rightarrow> bool" where
  "IsReadOnly ld st = so_readonly st ! ld"

definition MarkReadOnly :: "nat \<Rightarrow> store \<Rightarrow> store" where
  "MarkReadOnly ld st = st\<lparr>so_readonly := (so_readonly st)[ld := True]\<rparr>"

definition cloneLogs :: "store \<Rightarrow> nat \<times> store" where
  "cloneLogs st = (length (so_readonly st), st\<lparr>so_readonly := so_readonly st @ [False]\<rparr>)"

definition access :: "nat list \<Rightarrow> nat \<Rightarrow> store \<Rightarrow> bool \<Rightarrow> store" where
  "access path ld st mutates =
     st\<lparr>so_log := so_log st @ [\<lparr>ac_path = path, ac_ref = ld, ac_mutates = mutates, ac_readonly = IsReadOnly ld st\<rparr>]\<rparr>"

section \<open>The fanout\<close>

text \<open>
  \<open>ConsumeLogs\<close> of the consumer \<open>NewLogs\<close> returns; \<open>consume\<close> is the method of the consumers behind it.
  Consumers are numbered by their position.
\<close>

type_synonym 'e consume = "'e consumer \<Rightarrow> nat list \<Rightarrow> nat \<Rightarrow> store \<Rightarrow> 'e list \<times> store"

definition consume_clone :: "'e consume \<Rightarrow> nat list \<Rightarrow> nat \<Rightarrow> nat \<times> 'e consumer \<Rightarrow> 'e list \<times> store \<Rightarrow> 'e list \<times> store" where
  "consume_clone consume path ld ic acc =
     (case cloneLogs (snd acc) of (cloned, st) \<Rightarrow>
        (case consume (snd ic) (path @ [fst ic]) cloned st of (e, st') \<Rightarrow> (fst acc @ e, st')))"

definition consume_same :: "'e consume \<Rightarrow> nat list \<Rightarrow> nat \<Rightarrow> nat \<times> 'e consumer \<Rightarrow> 'e list \<times> store \<Rightarrow> 'e list \<times> store" where
  "consume_same consume path ld ic acc =
     (case consume (snd ic) (path @ [fst ic]) ld (snd acc) of (e, st') \<Rightarrow> (fst acc @ e, st'))"

definition fanout_mutable :: "'e consume \<Rightarrow> nat list \<Rightarrow> nat \<Rightarrow> bool \<Rightarrow> (nat \<times> 'e consumer) list \<Rightarrow> 'e list \<times> store \<Rightarrow> 'e list \<times> store" where
  "fanout_mutable consume path ld noReadonly mutable acc =
     (if 0 < length mutable
      then let acc' = fold (consume_clone consume path ld) (butlast mutable) acc; lastConsumer = last mutable
           in if noReadonly \<and> \<not> IsReadOnly ld (snd acc')
              then consume_same consume path ld lastConsumer acc'
              else consume_clone consume path ld lastConsumer acc'
      else acc)"

definition fanout_readonly :: "'e consume \<Rightarrow> nat list \<Rightarrow> nat \<Rightarrow> (nat \<times> 'e consumer) list \<Rightarrow> 'e list \<times> store \<Rightarrow> 'e list \<times> store" where
  "fanout_readonly consume path ld readonly acc =
     fold (consume_same consume path ld) readonly
       (if 1 < length readonly \<and> \<not> IsReadOnly ld (snd acc) then apsnd (MarkReadOnly ld) acc else acc)"

definition fanout_ConsumeLogs :: "'e consume \<Rightarrow> 'e consumer list \<Rightarrow> nat list \<Rightarrow> nat \<Rightarrow> store \<Rightarrow> 'e list \<times> store" where
  "fanout_ConsumeLogs consume cs path ld st =
     (if length cs = 1 \<and> \<not> MutatesData (hd cs) then consume (hd cs) (path @ [0]) ld st
      else let mutable = filter (\<lambda>ic. MutatesData (snd ic)) (enumerate 0 cs);
               readonly = filter (\<lambda>ic. \<not> MutatesData (snd ic)) (enumerate 0 cs)
           in fanout_readonly consume path ld readonly
                (fanout_mutable consume path ld (length readonly = 0) mutable ([], st)))"

lemma fold_consume_cong:
  assumes "\<And>c. c \<in> snd ` set ics \<Longrightarrow> f c = g c"
  shows "fold (consume_clone f path ld) ics acc = fold (consume_clone g path ld) ics acc"
    and "fold (consume_same f path ld) ics acc = fold (consume_same g path ld) ics acc"
  by (rule fold_cong; use assms in \<open>auto simp: consume_clone_def consume_same_def fun_eq_iff split: prod.splits\<close>)+

lemma enumerate_consumer: "(i, c) \<in> set (enumerate n cs) \<Longrightarrow> c \<in> set cs"
  by (metis enumerate_eq_zip set_zip_rightD)

lemma fanout_cong [fundef_cong]:
  assumes cs: "cs = cs'" and eq: "\<And>c. c \<in> set cs' \<Longrightarrow> f c = g c"
  shows "fanout_ConsumeLogs f cs = fanout_ConsumeLogs g cs'"
proof -
  have eq_at: "f (snd ic) = g (snd ic)" if "ic \<in> set (enumerate 0 cs')" for ic
    using that eq enumerate_consumer by (metis prod.collapse)
  have mut: "fanout_mutable f path ld b ics acc = fanout_mutable g path ld b ics acc"
    if "set ics \<subseteq> set (enumerate 0 cs')" for path ld b ics acc
  proof (cases "ics = []")
    case False
    have 1: "fold (consume_clone f path ld) (butlast ics) acc = fold (consume_clone g path ld) (butlast ics) acc"
      using that eq_at by (intro fold_consume_cong) (auto dest: in_set_butlastD)
    have 2: "f (snd (last ics)) = g (snd (last ics))" using False that eq_at by (meson last_in_set subsetD)
    show ?thesis unfolding fanout_mutable_def 1 by (simp add: Let_def consume_same_def consume_clone_def 2)
  qed (simp add: fanout_mutable_def)
  have ro: "fanout_readonly f path ld ics acc = fanout_readonly g path ld ics acc"
    if "set ics \<subseteq> set (enumerate 0 cs')" for path ld ics acc
    unfolding fanout_readonly_def using that eq_at by (intro fold_consume_cong) auto
  have single: "f (hd cs') = g (hd cs')" if "length cs' = 1" using that eq by (cases cs') auto
  have "fanout_ConsumeLogs f cs' path ld st = fanout_ConsumeLogs g cs' path ld st" for path ld st
    unfolding fanout_ConsumeLogs_def Let_def using single
    by (simp add: mut ro subset_iff)
  then show ?thesis unfolding cs by (simp add: fun_eq_iff)
qed

fun ConsumeLogs :: "'e consumer \<Rightarrow> nat list \<Rightarrow> nat \<Rightarrow> store \<Rightarrow> 'e list \<times> store" where
  "ConsumeLogs (Exporter mutates errs) path ld st = (errs, access path ld st mutates)"
| "ConsumeLogs (Pipeline procs cs) path ld st =
     fanout_ConsumeLogs (\<lambda>c. ConsumeLogs c) cs path ld (fold (\<lambda>proc st. access path ld st proc) procs st)"
| "ConsumeLogs (Connector mutates cs) path ld st =
     fanout_ConsumeLogs (\<lambda>c. ConsumeLogs c) cs path ld (access path ld st mutates)"

section \<open>Sharing\<close>

text \<open>
  Two uses are on different branches when neither component is behind the other. A log is safe when
  data used on different branches is mutated by neither of them.
\<close>

definition branches :: "access \<Rightarrow> access \<Rightarrow> bool" where
  "branches a b \<longleftrightarrow> \<not> prefix (ac_path a) (ac_path b) \<and> \<not> prefix (ac_path b) (ac_path a)"

definition safe :: "access list \<Rightarrow> bool" where
  "safe log \<longleftrightarrow> (\<forall>a \<in> set log. \<forall>b \<in> set log. ac_ref a = ac_ref b \<longrightarrow> branches a b \<longrightarrow> \<not> ac_mutates a \<and> \<not> ac_mutates b)"

datatype usage = Unused | Reads | Writes

definition uses :: "usage \<Rightarrow> nat \<Rightarrow> access list \<Rightarrow> bool" where
  "uses u ld log \<longleftrightarrow> (case u of Unused \<Rightarrow> \<forall>a \<in> set log. ac_ref a \<noteq> ld
     | Reads \<Rightarrow> \<forall>a \<in> set log. ac_ref a = ld \<longrightarrow> \<not> ac_mutates a | Writes \<Rightarrow> True)"

text \<open>
  What a piece of the fanout does to the store: the uses it adds, all behind \<open>path\<close> and of \<open>ld\<close> or of
  objects it creates, without mutating read-only data and safely; it sets no read-only bit but
  that of \<open>ld\<close>.
\<close>

definition effect :: "nat list \<Rightarrow> nat \<Rightarrow> usage \<Rightarrow> store \<Rightarrow> store \<Rightarrow> access list \<Rightarrow> bool" where
  "effect path ld u st st' new \<longleftrightarrow>
     so_log st' = so_log st @ new \<and> length (so_readonly st) \<le> length (so_readonly st') \<and>
     (\<forall>r < length (so_readonly st). r \<noteq> ld \<longrightarrow> IsReadOnly r st' = IsReadOnly r st) \<and>
     (\<forall>a \<in> set new. prefix path (ac_path a) \<and> (ac_mutates a \<longrightarrow> \<not> ac_readonly a) \<and>
        (ac_ref a = ld \<or> length (so_readonly st) \<le> ac_ref a \<and> ac_ref a < length (so_readonly st'))) \<and>
     uses u ld new \<and> safe new"

lemma uses_mono: "uses u ld new \<Longrightarrow> u = Unused \<or> u = v \<or> v = Writes \<Longrightarrow> uses v ld new"
  by (auto simp: uses_def split: usage.splits)

lemma uses_append: "uses u ld (xs @ ys) \<longleftrightarrow> uses u ld xs \<and> uses u ld ys"
  by (auto simp: uses_def split: usage.split)

lemma effect_path: "effect path ld u st st' new \<Longrightarrow> prefix path0 path \<Longrightarrow> effect path0 ld u st st' new"
  unfolding effect_def by (meson prefix_order.trans)

lemma effect_refl: "effect path ld Unused st st []"
  by (simp add: effect_def uses_def safe_def)

text \<open>Two pieces one after the other, which both use \<open>ld\<close> only if neither writes it, or the second is behind the first.\<close>

lemma effect_seq:
  assumes e1: "effect path ld u st st1 new1" and e2: "effect path ld v st1 st2 new2" and ld: "ld < length (so_readonly st)"
    and u: "uses w ld new1" "uses w ld new2"
    and sep: "u = Unused \<or> v = Unused \<or> (u = Reads \<and> v = Reads) \<or> (\<forall>a \<in> set new1. ac_path a = path)"
  shows "effect path ld w st st2 (new1 @ new2)"
proof -
  have apart: "ac_ref a = ac_ref b \<Longrightarrow> branches a b \<Longrightarrow> \<not> ac_mutates a \<and> \<not> ac_mutates b"
    if a: "a \<in> set new1" and b: "b \<in> set new2" for a b
  proof -
    assume r: "ac_ref a = ac_ref b" and br: "branches a b"
    have "ac_ref a < length (so_readonly st1)" using e1 a ld by (auto simp: effect_def)
    then have "ac_ref b = ld" using e2 b r by (auto simp: effect_def)
    moreover have "ac_path a \<noteq> path" using e2 b br by (auto simp: effect_def branches_def)
    ultimately show ?thesis using sep e1 e2 a b r by (auto simp: effect_def uses_def)
  qed
  then have "safe (new1 @ new2)"
    using e1 e2 unfolding effect_def safe_def by (auto simp: branches_def)
  with e1 e2 u show ?thesis by (auto simp: effect_def uses_append)
qed

definition usage_of :: "bool \<Rightarrow> usage" where
  "usage_of mutates = (if mutates then Writes else Reads)"

text \<open>What a consumer must guarantee, as a contract on its method.\<close>

definition consume_ok :: "'e consume \<Rightarrow> 'e consumer \<Rightarrow> bool" where
  "consume_ok f c \<longleftrightarrow> (\<forall>path ld st. ld < length (so_readonly st) \<longrightarrow> (MutatesData c \<longrightarrow> \<not> IsReadOnly ld st) \<longrightarrow>
     (\<exists>new. effect path ld (usage_of (MutatesData c)) st (snd (f c path ld st)) new))"

lemma consume_okE:
  assumes "consume_ok f c" and "ld < length (so_readonly st)" and "MutatesData c \<Longrightarrow> \<not> IsReadOnly ld st"
  obtains new where "effect path ld (usage_of (MutatesData c)) st (snd (f c path ld st)) new"
  using assms unfolding consume_ok_def by blast

lemma effect_clone:
  assumes ok: "consume_ok f c" and ld: "ld < length (so_readonly st)"
  shows "\<exists>new. effect path ld Unused st (snd (consume_clone f path ld (i, c) (e, st))) new"
proof -
  let ?st = "st\<lparr>so_readonly := so_readonly st @ [False]\<rparr>" and ?n = "length (so_readonly st)"
  have "?n < length (so_readonly ?st)" "\<not> IsReadOnly ?n ?st" by (simp_all add: IsReadOnly_def)
  then obtain new where new: "effect (path @ [i]) ?n (usage_of (MutatesData c)) ?st (snd (f c (path @ [i]) ?n ?st)) new"
    using ok by (metis consume_okE)
  have "IsReadOnly r ?st = IsReadOnly r st" if "r < ?n" for r using that by (simp add: IsReadOnly_def nth_append)
  then have "effect (path @ [i]) ld Unused st (snd (f c (path @ [i]) ?n ?st)) new"
    using new ld by (auto simp: effect_def uses_def) (metis less_SucI less_le not_less_eq, fastforce+)?
  from effect_path [OF this, of path]
  have "effect path ld Unused st (snd (consume_clone f path ld (i, c) (e, st))) new"
    by (cases "f c (path @ [i]) ?n ?st") (simp add: consume_clone_def cloneLogs_def)
  then show ?thesis by blast
qed

lemma effect_same:
  assumes ok: "consume_ok f c" and ld: "ld < length (so_readonly st)" and "MutatesData c \<Longrightarrow> \<not> IsReadOnly ld st"
  shows "\<exists>new. effect path ld (usage_of (MutatesData c)) st (snd (consume_same f path ld (i, c) (e, st))) new"
proof -
  obtain new where "effect (path @ [i]) ld (usage_of (MutatesData c)) st (snd (f c (path @ [i]) ld st)) new"
    using consume_okE [OF assms] .
  from effect_path [OF this, of path]
  have "effect path ld (usage_of (MutatesData c)) st (snd (consume_same f path ld (i, c) (e, st))) new"
    by (cases "f c (path @ [i]) ld st") (simp add: consume_same_def)
  then show ?thesis by blast
qed

lemma effect_length: "effect path ld u st st' new \<Longrightarrow> ld < length (so_readonly st) \<Longrightarrow> ld < length (so_readonly st')"
  by (simp add: effect_def)

lemma uses_weaken: "effect path ld u st st' new \<Longrightarrow> u = Unused \<or> u = v \<or> v = Writes \<Longrightarrow> effect path ld v st st' new"
  using uses_mono unfolding effect_def by blast

lemma effect_uses: "effect path ld u st st' new \<Longrightarrow> uses u ld new"
  by (simp add: effect_def)

lemma effect_again:
  assumes "u \<noteq> Writes" and "effect path ld u st st1 new1" and "effect path ld u st1 st2 new2"
    and "ld < length (so_readonly st)"
  shows "effect path ld u st st2 (new1 @ new2)"
  using assms by (intro effect_seq [OF assms(2,3,4)]) (cases u; auto dest: effect_uses)+

lemma effect_clones:
  assumes "\<forall>ic \<in> set ics. consume_ok f (snd ic)" and "ld < length (so_readonly (snd acc))"
  shows "\<exists>new. effect path ld Unused (snd acc) (snd (fold (consume_clone f path ld) ics acc)) new"
  using assms
proof (induction ics arbitrary: acc)
  case Nil
  show ?case using effect_refl by (intro exI [of _ "[]"]) simp
next
  case (Cons ic ics)
  let ?acc = "consume_clone f path ld ic acc"
  obtain new where new: "effect path ld Unused (snd acc) (snd ?acc) new"
    using effect_clone [of f "snd ic" ld "snd acc" path "fst ic" "fst acc"] Cons.prems by auto
  obtain new2 where "effect path ld Unused (snd ?acc) (snd (fold (consume_clone f path ld) ics ?acc)) new2"
    using Cons.IH [of ?acc] Cons.prems effect_length [OF new] by auto
  from effect_again [OF _ new this Cons.prems(2)] show ?case by auto
qed

lemma effect_sames:
  assumes "\<forall>ic \<in> set ics. consume_ok f (snd ic) \<and> \<not> MutatesData (snd ic)" and "ld < length (so_readonly (snd acc))"
  shows "\<exists>new. effect path ld Reads (snd acc) (snd (fold (consume_same f path ld) ics acc)) new"
  using assms
proof (induction ics arbitrary: acc)
  case Nil
  show ?case using uses_weaken [OF effect_refl, of Reads] by (intro exI [of _ "[]"]) simp
next
  case (Cons ic ics)
  let ?acc = "consume_same f path ld ic acc"
  obtain new where new: "effect path ld Reads (snd acc) (snd ?acc) new"
    using effect_same [of f "snd ic" ld "snd acc" path "fst ic" "fst acc"] Cons.prems by (auto simp: usage_of_def)
  obtain new2 where "effect path ld Reads (snd ?acc) (snd (fold (consume_same f path ld) ics ?acc)) new2"
    using Cons.IH [of ?acc] Cons.prems effect_length [OF new] by auto
  from effect_again [OF _ new this Cons.prems(2)] show ?case by auto
qed

lemma effect_mutable:
  assumes ok: "\<forall>ic \<in> set ics. consume_ok f (snd ic)" and ld: "ld < length (so_readonly (snd acc))"
  shows "\<exists>new. effect path ld (if b \<and> ics \<noteq> [] then Writes else Unused) (snd acc) (snd (fanout_mutable f path ld b ics acc)) new"
proof (cases "ics = []")
  case True
  then show ?thesis using effect_refl by (auto simp: fanout_mutable_def)
next
  case False
  let ?acc = "fold (consume_clone f path ld) (butlast ics) acc" and ?c = "snd (last ics)"
  have last: "consume_ok f ?c" using ok False by simp
  obtain new where new: "effect path ld Unused (snd acc) (snd ?acc) new"
    using effect_clones [of "butlast ics" f ld acc path] ok ld by (meson in_set_butlastD)
  note ld' = effect_length [OF new ld]
  show ?thesis
  proof (cases "b \<and> \<not> IsReadOnly ld (snd ?acc)")
    case True
    then obtain new2 where "effect path ld (usage_of (MutatesData ?c)) (snd ?acc) (snd (consume_same f path ld (last ics) ?acc)) new2"
      using effect_same [OF last ld', of path "fst (last ics)" "fst ?acc"] by auto
    then have "effect path ld Writes (snd ?acc) (snd (consume_same f path ld (last ics) ?acc)) new2"
      by (rule uses_weaken) simp
    from effect_seq [OF new this ld, of Writes] True False show ?thesis
      by (auto simp: fanout_mutable_def Let_def uses_def)
  next
    case no: False
    obtain new2 where new2: "effect path ld Unused (snd ?acc) (snd (consume_clone f path ld (last ics) ?acc)) new2"
      using effect_clone [OF last ld', of path "fst (last ics)" "fst ?acc"] by auto
    have "effect path ld Unused (snd acc) (snd (consume_clone f path ld (last ics) ?acc)) (new @ new2)"
      using effect_again [OF _ new new2 ld] by simp
    from uses_weaken [OF this, of "if b \<and> ics \<noteq> [] then Writes else Unused"] no False show ?thesis
      by (auto simp: fanout_mutable_def Let_def)
  qed
qed

lemma effect_mark: "effect path ld Unused st (MarkReadOnly ld st) []"
  by (simp add: effect_def MarkReadOnly_def IsReadOnly_def uses_def safe_def)

lemma effect_readonly:
  assumes "\<forall>ic \<in> set ics. consume_ok f (snd ic) \<and> \<not> MutatesData (snd ic)" and ld: "ld < length (so_readonly (snd acc))"
  shows "\<exists>new. effect path ld (if ics = [] then Unused else Reads) (snd acc) (snd (fanout_readonly f path ld ics acc)) new"
proof (cases "ics = []")
  case True
  then show ?thesis using effect_refl by (auto simp: fanout_readonly_def)
next
  case False
  let ?acc = "if 1 < length ics \<and> \<not> IsReadOnly ld (snd acc) then apsnd (MarkReadOnly ld) acc else acc"
  have m: "effect path ld Unused (snd acc) (snd ?acc) []" using effect_mark effect_refl by auto
  obtain new where new: "effect path ld Reads (snd ?acc) (snd (fold (consume_same f path ld) ics ?acc)) new"
    using effect_sames [OF assms(1) effect_length [OF m ld]] by blast
  have "effect path ld Reads (snd acc) (snd (fold (consume_same f path ld) ics ?acc)) ([] @ new)"
    by (rule effect_seq [OF m new ld]) (use new in \<open>auto simp: effect_def uses_def\<close>)
  with False show ?thesis unfolding fanout_readonly_def by auto
qed

lemma fanout_effect:
  assumes ok: "\<forall>c \<in> set cs. consume_ok f c" and ld: "ld < length (so_readonly st)"
    and "fanout_MutatesData (map MutatesData cs) \<Longrightarrow> \<not> IsReadOnly ld st"
  shows "\<exists>new. effect path ld (usage_of (fanout_MutatesData (map MutatesData cs))) st (snd (fanout_ConsumeLogs f cs path ld st)) new"
proof (cases "length cs = 1 \<and> \<not> MutatesData (hd cs)")
  case True
  then obtain c where c: "cs = [c]" "\<not> MutatesData c" by (cases cs) auto
  then obtain new where "effect (path @ [0]) ld Reads st (snd (f c (path @ [0]) ld st)) new"
    using consume_okE [of f c ld st] ok ld by (auto simp: usage_of_def)
  from effect_path [OF this, of path] c show ?thesis
    by (auto simp: fanout_ConsumeLogs_def fanout_MutatesData_def usage_of_def)
next
  case False
  let ?mut = "filter (\<lambda>ic. MutatesData (snd ic)) (enumerate 0 cs)" and ?ro = "filter (\<lambda>ic. \<not> MutatesData (snd ic)) (enumerate 0 cs)"
  let ?acc = "fanout_mutable f path ld (length ?ro = 0) ?mut ([], st)"
  have cs: "snd ` set (enumerate 0 cs) = set cs" by (metis map_snd_enumerate set_map)
  have m: "fanout_MutatesData (map MutatesData cs) \<longleftrightarrow> ?mut \<noteq> [] \<and> ?ro = []"
  proof -
    have "fanout_MutatesData (map MutatesData cs) \<longleftrightarrow> (\<exists>c \<in> set cs. MutatesData c) \<and> (\<forall>c \<in> set cs. MutatesData c)"
      using False by (cases cs) (auto simp: fanout_MutatesData_def filter_empty_conv)
    then show ?thesis unfolding cs [symmetric] by (auto simp: filter_empty_conv)
  qed
  have okm: "\<forall>ic \<in> set ?mut. consume_ok f (snd ic)" and okr: "\<forall>ic \<in> set ?ro. consume_ok f (snd ic) \<and> \<not> MutatesData (snd ic)"
    using ok enumerate_consumer by fastforce+
  obtain new1 where new1: "effect path ld (if length ?ro = 0 \<and> ?mut \<noteq> [] then Writes else Unused) st (snd ?acc) new1"
    using effect_mutable [OF okm, of ld "([], st)" path "length ?ro = 0"] ld by auto
  obtain new2 where new2: "effect path ld (if ?ro = [] then Unused else Reads) (snd ?acc) (snd (fanout_readonly f path ld ?ro ?acc)) new2"
    using effect_readonly [OF okr, of ld ?acc path] effect_length [OF new1 ld] by auto
  let ?w = "usage_of (fanout_MutatesData (map MutatesData cs))"
  have "effect path ld ?w st (snd (fanout_readonly f path ld ?ro ?acc)) (new1 @ new2)"
  proof (rule effect_seq [OF new1 new2 ld])
    show "uses ?w ld new1" "uses ?w ld new2"
      using new1 new2 m unfolding effect_def usage_of_def
      by (auto intro: uses_mono simp del: filter_empty_conv split: if_splits)
  qed (auto)
  with False show ?thesis by (auto simp: fanout_ConsumeLogs_def Let_def)
qed

lemma fold_or: "fold (\<lambda>x b. b \<or> x) xs b \<longleftrightarrow> b \<or> True \<in> set xs"
  by (induction xs arbitrary: b) auto

lemma access_simps [simp]:
  "so_readonly (access path ld st m) = so_readonly st" "IsReadOnly r (access path ld st m) = IsReadOnly r st"
  by (simp_all add: access_def IsReadOnly_def)

lemma effect_accesses:
  assumes "True \<in> set procs \<Longrightarrow> \<not> IsReadOnly ld st"
  shows "\<exists>new. effect path ld (usage_of (True \<in> set procs)) st (fold (\<lambda>proc st. access path ld st proc) procs st) new \<and>
    (\<forall>a \<in> set new. ac_path a = path) \<and> so_readonly (fold (\<lambda>proc st. access path ld st proc) procs st) = so_readonly st"
proof -
  have "\<exists>new. so_log (fold (\<lambda>proc st. access path ld st proc) ps st) = so_log st @ new \<and>
      so_readonly (fold (\<lambda>proc st. access path ld st proc) ps st) = so_readonly st \<and>
      (\<forall>a \<in> set new. ac_path a = path \<and> ac_ref a = ld \<and> ac_readonly a = IsReadOnly ld st \<and> ac_mutates a \<in> set ps)" for ps st
  proof (induction ps arbitrary: st)
    case (Cons p ps)
    from Cons.IH [of "access path ld st p"] obtain new where "so_log (fold (\<lambda>proc st. access path ld st proc) ps (access path ld st p)) =
        so_log (access path ld st p) @ new" "so_readonly (fold (\<lambda>proc st. access path ld st proc) ps (access path ld st p)) = so_readonly st"
      "\<forall>a \<in> set new. ac_path a = path \<and> ac_ref a = ld \<and> ac_readonly a = IsReadOnly ld st \<and> ac_mutates a \<in> set ps" by auto
    then show ?case
      by (intro exI [of _ "\<lparr>ac_path = path, ac_ref = ld, ac_mutates = p, ac_readonly = IsReadOnly ld st\<rparr> # new"])
        (auto simp: access_def)
  qed simp
  from this [of procs st] obtain new where new: "so_log (fold (\<lambda>proc st. access path ld st proc) procs st) = so_log st @ new"
      "so_readonly (fold (\<lambda>proc st. access path ld st proc) procs st) = so_readonly st"
      "\<forall>a \<in> set new. ac_path a = path \<and> ac_ref a = ld \<and> ac_readonly a = IsReadOnly ld st \<and> ac_mutates a \<in> set procs" by blast
  moreover have "safe new" using new(3) by (auto simp: safe_def branches_def)
  moreover have "uses (usage_of (True \<in> set procs)) ld new" using new(3) by (auto simp: uses_def usage_of_def)
  ultimately show ?thesis using assms by (intro exI [of _ new]) (auto simp: effect_def IsReadOnly_def)
qed

lemma ConsumeLogs_ok: "consume_ok ConsumeLogs c"
proof (induction c)
  case (Exporter m errs)
  have "\<exists>new. effect path ld (usage_of m) st (access path ld st m) new" if "m \<longrightarrow> \<not> IsReadOnly ld st" for path ld st
    using effect_accesses [of "[m]" ld st path] that by (cases m) auto
  then show ?case by (simp add: consume_ok_def)
next
  case (Pipeline procs cs)
  show ?case unfolding consume_ok_def
  proof (intro allI impI)
    fix path ld st
    assume ld: "ld < length (so_readonly st)" and m: "MutatesData (Pipeline procs cs) \<longrightarrow> \<not> IsReadOnly ld st"
    let ?st = "fold (\<lambda>proc st. access path ld st proc) procs st" and ?fm = "fanout_MutatesData (map MutatesData cs)"
    have M: "MutatesData (Pipeline procs cs) \<longleftrightarrow> ?fm \<or> True \<in> set procs" by (simp add: fold_or)
    obtain new1 where n1: "effect path ld (usage_of (True \<in> set procs)) st ?st new1" "\<forall>a \<in> set new1. ac_path a = path"
      and r: "so_readonly ?st = so_readonly st"
      using effect_accesses [of procs ld st path] m M by auto
    obtain new2 where n2: "effect path ld (usage_of ?fm) ?st (snd (fanout_ConsumeLogs ConsumeLogs cs path ld ?st)) new2"
      using fanout_effect [of cs ConsumeLogs ld ?st path] Pipeline.IH ld m M r by (auto simp: IsReadOnly_def)
    have "effect path ld (usage_of (MutatesData (Pipeline procs cs))) st (snd (fanout_ConsumeLogs ConsumeLogs cs path ld ?st)) (new1 @ new2)"
      by (rule effect_seq [OF n1(1) n2 ld])
        (use effect_uses [OF n1(1)] effect_uses [OF n2] n1(2) M in \<open>auto simp: usage_of_def intro: uses_mono\<close>)
    then show "\<exists>new. effect path ld (usage_of (MutatesData (Pipeline procs cs))) st (snd (ConsumeLogs (Pipeline procs cs) path ld st)) new"
      by auto
  qed
next
  case (Connector b cs)
  show ?case unfolding consume_ok_def
  proof (intro allI impI)
    fix path ld st
    assume ld: "ld < length (so_readonly st)" and m: "MutatesData (Connector b cs) \<longrightarrow> \<not> IsReadOnly ld st"
    let ?st = "access path ld st b" and ?fm = "fanout_MutatesData (map MutatesData cs)"
    have M: "MutatesData (Connector b cs) \<longleftrightarrow> b \<or> (\<exists>c \<in> set cs. MutatesData c)" by (auto simp: aggregateCap_def fold_or)
    have fm: "?fm \<Longrightarrow> \<exists>c \<in> set cs. MutatesData c"
      by (cases cs) (auto simp: fanout_MutatesData_def filter_empty_conv split: if_splits)
    obtain new1 where n1: "effect path ld (usage_of b) st ?st new1" "\<forall>a \<in> set new1. ac_path a = path"
      using effect_accesses [of "[b]" ld st path] m M by (cases b) auto
    obtain new2 where n2: "effect path ld (usage_of ?fm) ?st (snd (fanout_ConsumeLogs ConsumeLogs cs path ld ?st)) new2"
      using fanout_effect [of cs ConsumeLogs ld ?st path] Connector.IH ld m M fm by auto
    let ?w = "usage_of (MutatesData (Connector b cs))"
    have w: "usage_of b = ?w \<or> ?w = Writes" "usage_of ?fm = ?w \<or> ?w = Writes"
      unfolding M usage_of_def using fm by simp_all
    have u: "uses ?w ld new1" "uses ?w ld new2"
      by (rule uses_mono [OF effect_uses [OF n1(1)]], use w in simp) (rule uses_mono [OF effect_uses [OF n2]], use w in simp)
    have "effect path ld ?w st (snd (fanout_ConsumeLogs ConsumeLogs cs path ld ?st)) (new1 @ new2)"
      by (rule effect_seq [OF n1(1) n2 ld u]) (simp add: n1(2))
    then show "\<exists>new. effect path ld (usage_of (MutatesData (Connector b cs))) st (snd (ConsumeLogs (Connector b cs) path ld st)) new"
      by auto
  qed
qed

section \<open>Every consumer is called\<close>

fun exporter_errors :: "'e consumer \<Rightarrow> 'e list" where
  "exporter_errors (Exporter mutates errs) = errs"
| "exporter_errors (Pipeline procs cs) = concat (map exporter_errors cs)"
| "exporter_errors (Connector mutates cs) = concat (map exporter_errors cs)"

definition returns_all :: "'e consume \<Rightarrow> 'e consumer \<Rightarrow> bool" where
  "returns_all f c \<longleftrightarrow> (\<forall>path ld st. mset (fst (f c path ld st)) = mset (exporter_errors c))"

lemma errors_folds:
  assumes "\<forall>ic \<in> set ics. returns_all f (snd ic)"
  shows "mset (fst (fold (consume_clone f path ld) ics acc)) = mset (fst acc) + mset (concat (map (exporter_errors \<circ> snd) ics))"
    and "mset (fst (fold (consume_same f path ld) ics acc)) = mset (fst acc) + mset (concat (map (exporter_errors \<circ> snd) ics))"
  using assms
  by (induction ics arbitrary: acc)
    (simp_all add: consume_clone_def consume_same_def returns_all_def cloneLogs_def split: prod.splits, metis fst_conv, metis fst_conv)

lemma errors_mutable:
  assumes "\<forall>ic \<in> set ics. returns_all f (snd ic)"
  shows "mset (fst (fanout_mutable f path ld b ics acc)) = mset (fst acc) + mset (concat (map (exporter_errors \<circ> snd) ics))"
proof (cases "ics = []")
  case False
  then have split: "ics = butlast ics @ [last ics]" by simp
  then have ok: "\<forall>ic \<in> set (butlast ics). returns_all f (snd ic)" "\<forall>ic \<in> set [last ics]. returns_all f (snd ic)"
    using assms by (metis in_set_butlastD, metis False empty_iff empty_set last_in_set set_ConsD)
  have "concat (map (exporter_errors \<circ> snd) ics) = concat (map (exporter_errors \<circ> snd) (butlast ics)) @ exporter_errors (snd (last ics))"
    by (subst split) simp
  then show ?thesis
    using errors_folds [OF ok(1), of path ld acc] errors_folds [OF ok(2), of path ld] False
    by (simp add: fanout_mutable_def Let_def)
qed (simp add: fanout_mutable_def)

lemma errors_fanout:
  assumes "\<forall>c \<in> set cs. returns_all f c"
  shows "mset (fst (fanout_ConsumeLogs f cs path ld st)) = mset (concat (map exporter_errors cs))"
proof (cases "length cs = 1 \<and> \<not> MutatesData (hd cs)")
  case True
  with assms show ?thesis by (cases cs) (auto simp: fanout_ConsumeLogs_def returns_all_def)
next
  case False
  have all: "\<forall>ic \<in> set (filter P (enumerate 0 cs)). returns_all f (snd ic)" for P
    using assms enumerate_consumer by fastforce
  have part: "mset (concat (map g (filter P xs))) + mset (concat (map g (filter (\<lambda>x. \<not> P x) xs))) = mset (concat (map g xs))" for g P xs
    by (induction xs) auto
  have "mset (concat (map (exporter_errors \<circ> snd) (enumerate 0 cs))) = mset (concat (map exporter_errors cs))"
    by (metis map_map map_snd_enumerate)
  moreover have "mset (fst (fanout_readonly f path ld ics acc)) = mset (fst acc) + mset (concat (map (exporter_errors \<circ> snd) ics))"
    if "\<forall>ic \<in> set ics. returns_all f (snd ic)" for ics acc
    using errors_folds(2) [OF that, of path ld] by (simp add: fanout_readonly_def)
  ultimately show ?thesis
    using errors_mutable [OF all] all part [of "exporter_errors \<circ> snd" "\<lambda>ic. MutatesData (snd ic)" "enumerate 0 cs"]
    unfolding fanout_ConsumeLogs_def if_not_P [OF False] Let_def by simp
qed

lemma ConsumeLogs_errors: "returns_all ConsumeLogs c"
proof (induction c)
  case (Exporter m errs)
  show ?case by (simp add: returns_all_def)
next
  case (Pipeline procs cs)
  then show ?case using errors_fanout [of cs ConsumeLogs] by (simp add: returns_all_def)
next
  case (Connector b cs)
  then show ?case using errors_fanout [of cs ConsumeLogs] by (simp add: returns_all_def)
qed

text \<open>
  C26. Pipelines do not interfere. When a piece of data is passed to a tree of pipelines, processors,
  connectors and exporters, no object used on two different branches is mutated on either of them,
  no component that mutates data gets an object marked read-only (which would panic), and a tree
  that reports not to mutate data leaves the object it was given alone. Every exporter is called,
  and the returned error combines the errors of all of them. The data is assumed to exist and, if
  the tree reports to mutate it, not to be read-only.
\<close>

theorem fanout_isolates:
  assumes "ld < length (so_readonly st)" and "MutatesData c \<Longrightarrow> \<not> IsReadOnly ld st"
    and "ConsumeLogs c path ld st = (errs, st')"
  shows "\<exists>new. so_log st' = so_log st @ new \<and> safe new \<and> (\<forall>a \<in> set new. ac_mutates a \<longrightarrow> \<not> ac_readonly a) \<and>
      (\<not> MutatesData c \<longrightarrow> (\<forall>a \<in> set new. ac_ref a = ld \<longrightarrow> \<not> ac_mutates a)) \<and> mset errs = mset (exporter_errors c)"
proof -
  obtain new where "effect path ld (usage_of (MutatesData c)) st st' new"
    using consume_okE [OF ConsumeLogs_ok assms(1,2)] assms(3) by (metis snd_conv)
  moreover have "mset errs = mset (exporter_errors c)"
    using ConsumeLogs_errors [of c] assms(3) unfolding returns_all_def by (metis fst_conv)
  ultimately show ?thesis
    by (intro exI [of _ new]) (auto simp: effect_def uses_def usage_of_def split: if_splits)
qed

definition demo_tree :: "nat consumer" where
  "demo_tree = Pipeline [False] [Exporter True [], Exporter False [5],
     Connector False [Pipeline [] [Exporter False [], Exporter False [6]]]]"

definition demo_store :: store where "demo_store = \<lparr>so_readonly = [False], so_log = []\<rparr>"

theorem fanout_isolates_witness:
  "list_all (\<lambda>a. ac_mutates a \<le> (\<not> ac_readonly a)) (so_log (snd (ConsumeLogs demo_tree [] 0 demo_store))) \<and>
   mset (fst (ConsumeLogs demo_tree [] 0 demo_store)) = {#5, 6#} \<and>
   map ac_ref (so_log (snd (ConsumeLogs demo_tree [] 0 demo_store))) = [0, 1, 0, 0, 0, 0]"
proof -
  have "\<not> IsReadOnly 0 demo_store" and "0 < length (so_readonly demo_store)" by code_simp+
  from fanout_isolates [OF this(2) this(1), of demo_tree "[]"]
  have "list_all (\<lambda>a. ac_mutates a \<le> (\<not> ac_readonly a)) (so_log (snd (ConsumeLogs demo_tree [] 0 demo_store))) \<and>
      mset (fst (ConsumeLogs demo_tree [] 0 demo_store)) = mset (exporter_errors demo_tree)"
    by (cases "ConsumeLogs demo_tree [] 0 demo_store") (auto simp: demo_store_def list_all_iff)
  moreover have "map ac_ref (so_log (snd (ConsumeLogs demo_tree [] 0 demo_store))) = [0, 1, 0, 0, 0, 0]" by code_simp
  ultimately show ?thesis by (simp add: demo_tree_def add_mset_commute)
qed

end
