(* ===== verification/Status.thy ===== *)
theory Status
  imports Prelude "HOL-Library.AList"
begin

text \<open>
  Component status: component/componentstatus/status.go and the state machine and reporter of
  service/internal/status/status.go. An event keeps its status and error; its time stamp and
  attributes are left out. The reporter's callbacks are logs.
\<close>

datatype Status =
    StatusNone | StatusStarting | StatusOK | StatusRecoverableError | StatusPermanentError | StatusFatalError
  | StatusStopping | StatusStopped

fun Status_String :: "Status \<Rightarrow> string" where
  "Status_String StatusStarting = ''StatusStarting''"
| "Status_String StatusOK = ''StatusOK''"
| "Status_String StatusRecoverableError = ''StatusRecoverableError''"
| "Status_String StatusPermanentError = ''StatusPermanentError''"
| "Status_String StatusFatalError = ''StatusFatalError''"
| "Status_String StatusStopping = ''StatusStopping''"
| "Status_String StatusStopped = ''StatusStopped''"
| "Status_String StatusNone = ''StatusNone''"

definition StatusIsError :: "Status \<Rightarrow> bool" where
  "StatusIsError s \<longleftrightarrow> s = StatusRecoverableError \<or> s = StatusPermanentError \<or> s = StatusFatalError"

record 'e event =
  ev_status :: Status
  ev_err :: "'e option"

definition NewEvent :: "Status \<Rightarrow> 'e event" where
  "NewEvent st = \<lparr>ev_status = st, ev_err = None\<rparr>"

definition NewPermanentErrorEvent :: "'e \<Rightarrow> 'e event" where
  "NewPermanentErrorEvent err = \<lparr>ev_status = StatusPermanentError, ev_err = Some err\<rparr>"

lemma NewEvent_status [simp]: "ev_status (NewEvent s) = s" "ev_status (NewPermanentErrorEvent e) = StatusPermanentError"
  by (simp_all add: NewEvent_def NewPermanentErrorEvent_def)

section \<open>The state machine\<close>

fun transitions :: "Status \<Rightarrow> Status list" where
  "transitions StatusNone = [StatusStarting]"
| "transitions StatusStarting =
     [StatusOK, StatusRecoverableError, StatusPermanentError, StatusFatalError, StatusStopping]"
| "transitions StatusOK =
     [StatusOK, StatusRecoverableError, StatusPermanentError, StatusFatalError, StatusStopping]"
| "transitions StatusRecoverableError =
     [StatusRecoverableError, StatusOK, StatusPermanentError, StatusFatalError, StatusStopping]"
| "transitions StatusPermanentError = [StatusStopping]"
| "transitions StatusFatalError = []"
| "transitions StatusStopping =
     [StatusRecoverableError, StatusPermanentError, StatusFatalError, StatusStopped]"
| "transitions StatusStopped = []"

text \<open>\<open>fsm.transition\<close>: the new current event, or \<open>None\<close> for an invalid transition.\<close>

definition transition :: "'e event \<Rightarrow> 'e event \<Rightarrow> 'e event option" where
  "transition current ev = (if ev_status ev \<in> set (transitions (ev_status current)) then Some ev else None)"

section \<open>The reporter\<close>

record ('i, 'e) reporter =
  rp_fsmMap :: "('i \<times> 'e event) list"
  rp_changes :: "('i \<times> 'e event) list"
  rp_invalid :: "('i \<times> Status \<times> Status) list"

definition NewReporter :: "('i, 'e) reporter" where
  "NewReporter = \<lparr>rp_fsmMap = [], rp_changes = [], rp_invalid = []\<rparr>"

definition componentFSM :: "'i \<Rightarrow> ('i, 'e) reporter \<Rightarrow> 'e event" where
  "componentFSM i r = (case map_of (rp_fsmMap r) i of Some ev \<Rightarrow> ev | None \<Rightarrow> NewEvent StatusNone)"

definition ReportStatus :: "'i \<Rightarrow> 'e event \<Rightarrow> ('i, 'e) reporter \<Rightarrow> ('i, 'e) reporter" where
  "ReportStatus i ev r =
     (let current = componentFSM i r
      in case transition current ev of
           Some ev' \<Rightarrow> r\<lparr>rp_fsmMap := AList.update i ev' (rp_fsmMap r), rp_changes := rp_changes r @ [(i, ev')]\<rparr>
         | None \<Rightarrow> r\<lparr>rp_fsmMap := AList.update i current (rp_fsmMap r),
                     rp_invalid := rp_invalid r @ [(i, ev_status current, ev_status ev)]\<rparr>)"

definition ReportOKIfStarting :: "'i \<Rightarrow> ('i, 'e) reporter \<Rightarrow> ('i, 'e) reporter" where
  "ReportOKIfStarting i r =
     (if ev_status (componentFSM i r) = StatusStarting then ReportStatus i (NewEvent StatusOK) r
      else r\<lparr>rp_fsmMap := AList.update i (componentFSM i r) (rp_fsmMap r)\<rparr>)"

section \<open>Histories\<close>

definition history :: "'i \<Rightarrow> ('i, 'e) reporter \<Rightarrow> Status list" where
  "history i r = map (\<lambda>(j, ev). ev_status ev) (filter (\<lambda>(j, ev). j = i) (rp_changes r))"

fun status_path :: "Status \<Rightarrow> Status list \<Rightarrow> bool" where
  "status_path s [] = True"
| "status_path s (t # ts) = (t \<in> set (transitions s) \<and> status_path t ts)"

definition reporter_ok :: "('i, 'e) reporter \<Rightarrow> bool" where
  "reporter_ok r \<longleftrightarrow> (\<forall>i. status_path StatusNone (history i r) \<and>
     ev_status (componentFSM i r) = last (StatusNone # history i r))"

lemma status_path_append: "status_path s (xs @ ys) \<longleftrightarrow> status_path s xs \<and> status_path (last (s # xs)) ys"
  by (induction xs arbitrary: s) auto

lemma reporter_ok_new [simp]: "reporter_ok NewReporter"
  by (simp add: reporter_ok_def NewReporter_def history_def componentFSM_def NewEvent_def)

lemma componentFSM_update [simp]:
  "componentFSM i (r\<lparr>rp_fsmMap := AList.update j ev (rp_fsmMap r), rp_changes := cs\<rparr>) = (if i = j then ev else componentFSM i r)"
  "componentFSM i (r\<lparr>rp_fsmMap := AList.update j ev (rp_fsmMap r), rp_invalid := is\<rparr>) = (if i = j then ev else componentFSM i r)"
  "componentFSM i (r\<lparr>rp_fsmMap := AList.update j ev (rp_fsmMap r)\<rparr>) = (if i = j then ev else componentFSM i r)"
  by (simp_all add: componentFSM_def update_conv')

lemma ReportStatus_componentFSM:
  "componentFSM i (ReportStatus j ev r) =
     (if i = j \<and> ev_status ev \<in> set (transitions (ev_status (componentFSM j r))) then ev else componentFSM i r)"
  by (simp add: ReportStatus_def transition_def Let_def)

lemma ReportOKIfStarting_componentFSM:
  "componentFSM i (ReportOKIfStarting j r) =
     (if i = j \<and> ev_status (componentFSM j r) = StatusStarting then NewEvent StatusOK else componentFSM i r)"
  by (auto simp: ReportOKIfStarting_def ReportStatus_componentFSM NewEvent_def)

lemma ReportStatus_history:
  "history j (ReportStatus i ev r) = history j r @
     (if j = i \<and> ev_status ev \<in> set (transitions (ev_status (componentFSM i r))) then [ev_status ev] else [])"
  by (simp add: history_def ReportStatus_def transition_def Let_def)

lemma ReportStatus_ok: "reporter_ok r \<Longrightarrow> reporter_ok (ReportStatus i ev r)"
  by (auto simp: reporter_ok_def status_path_append ReportStatus_componentFSM ReportStatus_history)

lemma reporter_okD: "reporter_ok r \<Longrightarrow> ev_status (componentFSM i r) = last (StatusNone # history i r)"
  by (simp add: reporter_ok_def)

lemma ReportStatus_history_ok:
  "reporter_ok r \<Longrightarrow> history j (ReportStatus i ev r) = history j r @
     (if j = i \<and> ev_status ev \<in> set (transitions (last (StatusNone # history i r))) then [ev_status ev] else [])"
  using reporter_okD [of r i] by (simp only: ReportStatus_history)

lemma ReportOKIfStarting_ok: "reporter_ok r \<Longrightarrow> reporter_ok (ReportOKIfStarting i r)"
proof (cases "ev_status (componentFSM i r) = StatusStarting")
  case False
  then show "reporter_ok r \<Longrightarrow> reporter_ok (ReportOKIfStarting i r)"
    by (simp add: ReportOKIfStarting_def reporter_ok_def history_def)
qed (simp add: ReportOKIfStarting_def ReportStatus_ok)

end
