(* ===== verification/ServiceGraph.thy ===== *)
theory ServiceGraph
  imports Status
begin

text \<open>
  The component graph of the service (service/internal/graph/graph.go): its nodes and edges are
  computed from the pipeline configurations, components are built and started against the
  direction of the data and stopped along it.

  A node is identified by its attributes; the 64-bit hash the code derives from them
  (service/internal/attribute/attribute.go) is taken to be injective. Go maps that are iterated
  are lists whose order is arbitrary. The connector factories, the factories of the other
  components and the topological sort (gonum.org/v1/gonum/graph/topo) are parameters.
\<close>

section \<open>Configuration and nodes\<close>

datatype Signal = SignalTraces | SignalMetrics | SignalLogs | SignalProfiles

type_synonym 'n pipeline_id = "Signal \<times> 'n"

record 'c PipelineConfig =
  pc_Receivers :: "'c list"
  pc_Processors :: "'c list"
  pc_Exporters :: "'c list"

datatype pipeline_error = MissingReceivers | MissingExporters | DuplicateProcessor

text \<open>\<open>PipelineConfig.Validate\<close> (service/pipelines/config.go).\<close>

definition PipelineConfig_Validate :: "'c PipelineConfig \<Rightarrow> pipeline_error option" where
  "PipelineConfig_Validate cfg =
     (if length (pc_Receivers cfg) = 0 then Some MissingReceivers
      else if length (pc_Exporters cfg) = 0 then Some MissingExporters
      else if \<not> distinct (pc_Processors cfg) then Some DuplicateProcessor
      else None)"

text \<open>\<open>Config.Validate\<close> of the pipelines, with its two feature gates.\<close>

datatype 'n pipelines_error = MissingPipelines | ProfilesNotEnabled "'n pipeline_id"

definition pipelines_Validate ::
  "bool \<Rightarrow> bool \<Rightarrow> ('n pipeline_id \<times> 'c PipelineConfig) list \<Rightarrow> 'n pipelines_error option" where
  "pipelines_Validate allowNoPipelines profilesSupport cfgs =
     (if \<not> allowNoPipelines \<and> length cfgs = 0 then Some MissingPipelines
      else if \<not> profilesSupport
      then map_option ProfilesNotEnabled (List.find (\<lambda>pid. fst pid = SignalProfiles) (map fst cfgs))
      else None)"

datatype ('c, 'n) gnode =
    ReceiverNode Signal 'c
  | ProcessorNode "'n pipeline_id" 'c
  | ExporterNode Signal 'c
  | ConnectorNode Signal Signal 'c
  | CapabilitiesNode "'n pipeline_id"
  | FanOutNode "'n pipeline_id"

text \<open>
  A connector factory gives a stability level for each pair of signals; only an \<open>xconnector.Factory\<close>
  has the levels of the pairs with profiles.
\<close>

datatype StabilityLevel =
    StabilityLevelUndefined | StabilityLevelUnmaintained | StabilityLevelDeprecated | StabilityLevelDevelopment
  | StabilityLevelAlpha | StabilityLevelBeta | StabilityLevelStable

record connector_factory =
  cf_stability :: "Signal \<Rightarrow> Signal \<Rightarrow> StabilityLevel"
  cf_xconnector :: bool

definition connectorStability :: "connector_factory \<Rightarrow> Signal \<Rightarrow> Signal \<Rightarrow> StabilityLevel" where
  "connectorStability f expType recType =
     (case expType of
        SignalProfiles \<Rightarrow> if \<not> cf_xconnector f then StabilityLevelUndefined else cf_stability f expType recType
      | _ \<Rightarrow>
          (case recType of
             SignalProfiles \<Rightarrow> if \<not> cf_xconnector f then StabilityLevelUndefined else cf_stability f expType recType
           | _ \<Rightarrow> cf_stability f expType recType))"

record 'c ConnectorBuilder =
  cb_IsConfigured :: "'c \<Rightarrow> bool"
  cb_Factory :: "'c \<Rightarrow> connector_factory option"

definition supported_by :: "'c ConnectorBuilder \<Rightarrow> 'c \<Rightarrow> (Signal \<Rightarrow> Signal \<Rightarrow> bool) option" where
  "supported_by cb c =
     map_option (\<lambda>factory e r. connectorStability factory e r \<noteq> StabilityLevelUndefined) (cb_Factory cb c)"

record ('c, 'n) pipelineNodes =
  pn_receivers :: "('c, 'n) gnode list"
  pn_processors :: "('c, 'n) gnode list"
  pn_exporters :: "('c, 'n) gnode list"

record ('c, 'n) Graph =
  gr_nodes :: "('c, 'n) gnode list"
  gr_edges :: "(('c, 'n) gnode \<times> ('c, 'n) gnode) list"
  gr_pipelines :: "('n pipeline_id \<times> ('c, 'n) pipelineNodes) list"
  gr_instanceIDs :: "(('c, 'n) gnode \<times> 'n pipeline_id set) list"

datatype ('c, 'n, 'e) build_error =
    FactoryNotAvailable 'c
  | UnsupportedExporter 'c Signal
  | UnsupportedReceiver 'c Signal
  | NodeIDCollision "('c, 'n) gnode"
  | CycleDetected
  | ComponentError "('c, 'n) gnode" 'e

type_synonym ('c, 'n) pipeline_configs = "('n pipeline_id \<times> 'c PipelineConfig) list"

section \<open>Nodes\<close>

text \<open>
  \<open>createReceiver\<close>, \<open>createExporter\<close> and \<open>createConnector\<close>: an existing node is shared and its
  instance is associated with more pipelines.
\<close>

definition instance_pipelines :: "('c, 'n) gnode \<Rightarrow> ('c, 'n) Graph \<Rightarrow> 'n pipeline_id set" where
  "instance_pipelines node g = (case map_of (gr_instanceIDs g) node of Some pids \<Rightarrow> pids | None \<Rightarrow> {})"

definition createShared ::
  "('c, 'n) gnode \<Rightarrow> 'n pipeline_id list \<Rightarrow> ('c, 'n) Graph \<Rightarrow> ('c, 'n) Graph" where
  "createShared node pids g =
     (if node \<in> set (gr_nodes g)
      then g\<lparr>gr_instanceIDs := AList.update node (instance_pipelines node g \<union> set pids) (gr_instanceIDs g)\<rparr>
      else g\<lparr>gr_nodes := gr_nodes g @ [node], gr_instanceIDs := AList.update node (set pids) (gr_instanceIDs g)\<rparr>)"

definition createReceiver :: "'n pipeline_id \<Rightarrow> 'c \<Rightarrow> ('c, 'n) Graph \<Rightarrow> ('c, 'n) gnode \<times> ('c, 'n) Graph" where
  "createReceiver pid recvID g = (let node = ReceiverNode (fst pid) recvID in (node, createShared node [pid] g))"

definition createExporter :: "'n pipeline_id \<Rightarrow> 'c \<Rightarrow> ('c, 'n) Graph \<Rightarrow> ('c, 'n) gnode \<times> ('c, 'n) Graph" where
  "createExporter pid exprID g = (let node = ExporterNode (fst pid) exprID in (node, createShared node [pid] g))"

definition createConnector ::
  "'n pipeline_id \<Rightarrow> 'n pipeline_id \<Rightarrow> 'c \<Rightarrow> ('c, 'n) Graph \<Rightarrow> ('c, 'n) gnode \<times> ('c, 'n) Graph" where
  "createConnector eID rID connID g =
     (let node = ConnectorNode (fst eID) (fst rID) connID in (node, createShared node [eID, rID] g))"

text \<open>\<open>createProcessor\<close> adds its node unconditionally, which panics when the node exists.\<close>

definition createProcessor ::
  "'n pipeline_id \<Rightarrow> 'c \<Rightarrow> ('c, 'n) Graph \<Rightarrow> ('c, 'n, 'e) build_error + ('c, 'n) gnode \<times> ('c, 'n) Graph" where
  "createProcessor pid procID g =
     (let node = ProcessorNode pid procID
      in if node \<in> set (gr_nodes g) then Inl (NodeIDCollision node)
         else Inr (node, g\<lparr>gr_nodes := gr_nodes g @ [node],
                           gr_instanceIDs := AList.update node {pid} (gr_instanceIDs g)\<rparr>))"

definition update_pipeline ::
  "'n pipeline_id \<Rightarrow> (('c, 'n) pipelineNodes \<Rightarrow> ('c, 'n) pipelineNodes) \<Rightarrow> ('c, 'n) Graph \<Rightarrow> ('c, 'n) Graph" where
  "update_pipeline pid f g = g\<lparr>gr_pipelines := map (\<lambda>(p, pn). (p, if p = pid then f pn else pn)) (gr_pipelines g)\<rparr>"

section \<open>Creating the nodes\<close>

text \<open>The local variables of \<open>createNodes\<close>; the two maps of connector uses are lists of their entries.\<close>

record ('c, 'n) creation =
  cr_graph :: "('c, 'n) Graph"
  cr_connectors :: "'c list"
  cr_asExporter :: "('c \<times> 'n pipeline_id) list"
  cr_asReceiver :: "('c \<times> 'n pipeline_id) list"

definition add_receiver :: "'c ConnectorBuilder \<Rightarrow> 'n pipeline_id \<Rightarrow> 'c \<Rightarrow> ('c, 'n) creation \<Rightarrow> ('c, 'n) creation" where
  "add_receiver cb pid recvID st =
     (if cb_IsConfigured cb recvID
      then st\<lparr>cr_connectors := List.insert recvID (cr_connectors st), cr_asReceiver := cr_asReceiver st @ [(recvID, pid)]\<rparr>
      else case createReceiver pid recvID (cr_graph st) of
             (node, g) \<Rightarrow> st\<lparr>cr_graph := update_pipeline pid (\<lambda>pn. pn\<lparr>pn_receivers := List.insert node (pn_receivers pn)\<rparr>) g\<rparr>)"

definition add_exporter :: "'c ConnectorBuilder \<Rightarrow> 'n pipeline_id \<Rightarrow> 'c \<Rightarrow> ('c, 'n) creation \<Rightarrow> ('c, 'n) creation" where
  "add_exporter cb pid exprID st =
     (if cb_IsConfigured cb exprID
      then st\<lparr>cr_connectors := List.insert exprID (cr_connectors st), cr_asExporter := cr_asExporter st @ [(exprID, pid)]\<rparr>
      else case createExporter pid exprID (cr_graph st) of
             (node, g) \<Rightarrow> st\<lparr>cr_graph := update_pipeline pid (\<lambda>pn. pn\<lparr>pn_exporters := List.insert node (pn_exporters pn)\<rparr>) g\<rparr>)"

fun add_processors ::
  "'n pipeline_id \<Rightarrow> 'c list \<Rightarrow> ('c, 'n) creation \<Rightarrow> ('c, 'n, 'e) build_error + ('c, 'n) creation" where
  "add_processors pid [] st = Inr st"
| "add_processors pid (procID # procIDs) st =
     (case createProcessor pid procID (cr_graph st) of
        Inl err \<Rightarrow> Inl err
      | Inr (node, g) \<Rightarrow>
          add_processors pid procIDs
            (st\<lparr>cr_graph := update_pipeline pid (\<lambda>pn. pn\<lparr>pn_processors := pn_processors pn @ [node]\<rparr>) g\<rparr>))"

definition add_pipeline ::
  "'c ConnectorBuilder \<Rightarrow> 'n pipeline_id \<times> 'c PipelineConfig \<Rightarrow> ('c, 'n) creation \<Rightarrow>
   ('c, 'n, 'e) build_error + ('c, 'n) creation" where
  "add_pipeline cb p st =
     (case p of (pid, cfg) \<Rightarrow>
        (case add_processors pid (pc_Processors cfg) (fold (add_receiver cb pid) (pc_Receivers cfg) st) of
           Inl err \<Rightarrow> Inl err
         | Inr st' \<Rightarrow> Inr (fold (add_exporter cb pid) (pc_Exporters cfg) st')))"

fun add_pipelines ::
  "'c ConnectorBuilder \<Rightarrow> ('c, 'n) pipeline_configs \<Rightarrow> ('c, 'n) creation \<Rightarrow> ('c, 'n, 'e) build_error + ('c, 'n) creation" where
  "add_pipelines cb [] st = Inr st"
| "add_pipelines cb (p # ps) st =
     (case add_pipeline cb p st of Inl err \<Rightarrow> Inl err | Inr st' \<Rightarrow> add_pipelines cb ps st')"

definition uses_of :: "'c \<Rightarrow> ('c \<times> 'n pipeline_id) list \<Rightarrow> 'n pipeline_id list" where
  "uses_of connID us = map snd (filter (\<lambda>u. fst u = connID) us)"

definition connect ::
  "(Signal \<Rightarrow> Signal \<Rightarrow> bool) \<Rightarrow> 'c \<Rightarrow> 'n pipeline_id \<times> 'n pipeline_id \<Rightarrow> ('c, 'n) Graph \<Rightarrow> ('c, 'n) Graph" where
  "connect supports connID er g =
     (case er of (eID, rID) \<Rightarrow>
        if \<not> supports (fst eID) (fst rID) then g
        else case createConnector eID rID connID g of
               (node, g') \<Rightarrow>
                 update_pipeline rID (\<lambda>pn. pn\<lparr>pn_receivers := List.insert node (pn_receivers pn)\<rparr>)
                   (update_pipeline eID (\<lambda>pn. pn\<lparr>pn_exporters := List.insert node (pn_exporters pn)\<rparr>) g'))"

fun add_connectors ::
  "'c ConnectorBuilder \<Rightarrow> ('c \<times> 'n pipeline_id) list \<Rightarrow> ('c \<times> 'n pipeline_id) list \<Rightarrow> 'c list \<Rightarrow>
   ('c, 'n) Graph \<Rightarrow> ('c, 'n, 'e) build_error + ('c, 'n) Graph" where
  "add_connectors cb asE asR [] g = Inr g"
| "add_connectors cb asE asR (connID # connIDs) g =
     (case supported_by cb connID of
        None \<Rightarrow> Inl (FactoryNotAvailable connID)
      | Some supports \<Rightarrow>
          (let expTypes = remdups (map fst (uses_of connID asE)); recTypes = remdups (map fst (uses_of connID asR));
               badExp = filter (\<lambda>e. \<not> list_ex (\<lambda>r. supports e r) recTypes) expTypes;
               badRec = filter (\<lambda>r. \<not> list_ex (\<lambda>e. supports e r) expTypes) recTypes
           in case badExp of
                expType # _ \<Rightarrow> Inl (UnsupportedExporter connID expType)
              | [] \<Rightarrow>
                  (case badRec of
                     recType # _ \<Rightarrow> Inl (UnsupportedReceiver connID recType)
                   | [] \<Rightarrow> add_connectors cb asE asR connIDs
                            (fold (connect supports connID) (List.product (uses_of connID asE) (uses_of connID asR)) g))))"

definition createNodes ::
  "'c ConnectorBuilder \<Rightarrow> ('c, 'n) pipeline_configs \<Rightarrow> ('c, 'n) Graph \<Rightarrow> ('c, 'n, 'e) build_error + ('c, 'n) Graph" where
  "createNodes cb cfgs g =
     (case add_pipelines cb cfgs \<lparr>cr_graph = g, cr_connectors = [], cr_asExporter = [], cr_asReceiver = []\<rparr> of
        Inl err \<Rightarrow> Inl err
      | Inr st \<Rightarrow> add_connectors cb (cr_asExporter st) (cr_asReceiver st) (cr_connectors st) (cr_graph st))"

section \<open>Edges, building\<close>

definition pipeline_edges ::
  "'n pipeline_id \<times> ('c, 'n) pipelineNodes \<Rightarrow> (('c, 'n) gnode \<times> ('c, 'n) gnode) list" where
  "pipeline_edges p =
     (case p of (pid, pg) \<Rightarrow>
        map (\<lambda>receiver. (receiver, CapabilitiesNode pid)) (pn_receivers pg) @
        zip (CapabilitiesNode pid # pn_processors pg) (pn_processors pg @ [FanOutNode pid]) @
        map (\<lambda>exporter. (FanOutNode pid, exporter)) (pn_exporters pg))"

text \<open>\<open>SetEdge\<close> also adds the end points that are not nodes yet.\<close>

definition createEdges :: "('c, 'n) Graph \<Rightarrow> ('c, 'n) Graph" where
  "createEdges g =
     (let edges = concat (map pipeline_edges (gr_pipelines g))
      in g\<lparr>gr_edges := edges, gr_nodes := fold List.insert (map fst edges @ map snd edges) (gr_nodes g)\<rparr>)"

type_synonym ('c, 'n) topo_sort =
  "('c, 'n) gnode list \<Rightarrow> (('c, 'n) gnode \<times> ('c, 'n) gnode) list \<Rightarrow> ('c, 'n) gnode list option"

fun build_nodes :: "(('c, 'n) gnode \<Rightarrow> 'e option) \<Rightarrow> ('c, 'n) gnode list \<Rightarrow> ('c, 'n, 'e) build_error option" where
  "build_nodes build [] = None"
| "build_nodes build (node # nodes) =
     (case build node of Some err \<Rightarrow> Some (ComponentError node err) | None \<Rightarrow> build_nodes build nodes)"

definition buildComponents ::
  "('c, 'n) topo_sort \<Rightarrow> (('c, 'n) gnode \<Rightarrow> 'e option) \<Rightarrow> ('c, 'n) Graph \<Rightarrow> ('c, 'n, 'e) build_error option" where
  "buildComponents topoSort build g =
     (case topoSort (gr_nodes g) (gr_edges g) of
        None \<Rightarrow> Some CycleDetected
      | Some nodes \<Rightarrow> build_nodes build (rev nodes))"

definition newGraph :: "('c, 'n) pipeline_configs \<Rightarrow> ('c, 'n) Graph" where
  "newGraph cfgs = \<lparr>gr_nodes = [], gr_edges = [],
     gr_pipelines = map (\<lambda>(pid, _). (pid, \<lparr>pn_receivers = [], pn_processors = [], pn_exporters = []\<rparr>)) cfgs,
     gr_instanceIDs = []\<rparr>"

definition Build ::
  "('c, 'n) topo_sort \<Rightarrow> 'c ConnectorBuilder \<Rightarrow> (('c, 'n) gnode \<Rightarrow> 'e option) \<Rightarrow> ('c, 'n) pipeline_configs \<Rightarrow>
   ('c, 'n) Graph option \<times> ('c, 'n, 'e) build_error option" where
  "Build topoSort cb build cfgs =
     (case createNodes cb cfgs (newGraph cfgs) of
        Inl err \<Rightarrow> (None, Some err)
      | Inr g \<Rightarrow> (let g' = createEdges g in (Some g', buildComponents topoSort build g')))"

definition GetExporters :: "('c, 'n) Graph \<Rightarrow> (Signal \<times> 'c) list" where
  "GetExporters g = concat (map (\<lambda>(pid, pg). concat (map (\<lambda>expNode.
     case expNode of ExporterNode s c \<Rightarrow> [(s, c)] | _ \<Rightarrow> []) (pn_exporters pg))) (gr_pipelines g))"

text \<open>
  The message of a cycle lists the processors and connectors on it, from a connector on. The cycles
  (\<open>topo.DirectedCyclesIn\<close>) are closed walks: each repeats its first node at its end. Without a
  cycle to report the error of the sort is returned as it is, here \<open>None\<close>.
\<close>

datatype ('c, 'n) cycle_detail = ProcessorDetail 'c "'n pipeline_id" | ConnectorDetail 'c Signal Signal

fun is_connector :: "('c, 'n) gnode \<Rightarrow> bool" where
  "is_connector (ConnectorNode s t c) = True"
| "is_connector _ = False"

fun cycle_details :: "('c, 'n) gnode list \<Rightarrow> ('c, 'n) cycle_detail list" where
  "cycle_details [] = []"
| "cycle_details (ProcessorNode pid c # nodes) = ProcessorDetail c pid # cycle_details nodes"
| "cycle_details (ConnectorNode s t c # nodes) = ConnectorDetail c s t # cycle_details nodes"
| "cycle_details (_ # nodes) = cycle_details nodes"

definition rotate_to_connector :: "('c, 'n) gnode list \<Rightarrow> ('c, 'n) gnode list" where
  "rotate_to_connector cycle =
     (if list_ex is_connector cycle
      then dropWhile (\<lambda>n. \<not> is_connector n) cycle @ takeWhile (\<lambda>n. \<not> is_connector n) cycle else cycle)"

definition cycleErr :: "('c, 'n) gnode list list \<Rightarrow> ('c, 'n) cycle_detail list option" where
  "cycleErr cycles =
     (case cycles of
        [] \<Rightarrow> None
      | cycle # _ \<Rightarrow>
          if cycle = [] then None
          else let rotated = rotate_to_connector (butlast cycle) in Some (cycle_details (rotated @ [hd rotated])))"

section \<open>Starting and stopping\<close>

text \<open>
  A component reports events of its own while it starts or stops, and then returns; the virtual
  nodes are no components. The calls made are recorded in order.
\<close>

fun is_component :: "('c, 'n) gnode \<Rightarrow> bool" where
  "is_component (CapabilitiesNode pid) = False"
| "is_component (FanOutNode pid) = False"
| "is_component _ = True"

datatype 'i lifecycle_call = StartCall 'i bool | ShutdownCall 'i

type_synonym ('i, 'e) behaviour = "'i \<Rightarrow> 'e event list \<times> 'e option"

record ('i, 'e) host =
  ho_reporter :: "('i, 'e) reporter"
  ho_calls :: "'i lifecycle_call list"

definition report :: "'i \<Rightarrow> 'e event \<Rightarrow> ('i, 'e) host \<Rightarrow> ('i, 'e) host" where
  "report i ev h = h\<lparr>ho_reporter := ReportStatus i ev (ho_reporter h)\<rparr>"

fun start_nodes ::
  "(('c, 'n) gnode, 'e) behaviour \<Rightarrow> ('c, 'n) gnode list \<Rightarrow> (('c, 'n) gnode, 'e) host \<Rightarrow> 'e option \<times> (('c, 'n) gnode, 'e) host" where
  "start_nodes start [] h = (None, h)"
| "start_nodes start (node # nodes) h =
     (if \<not> is_component node then start_nodes start nodes h
      else let h1 = report node (NewEvent StatusStarting) h;
               (own, compErr) = start node;
               h2 = (fold (report node) own h1)\<lparr>ho_calls := ho_calls h @ [StartCall node (compErr = None)]\<rparr>
           in case compErr of
                Some err \<Rightarrow> (Some err, report node (NewPermanentErrorEvent err) h2)
              | None \<Rightarrow> start_nodes start nodes (h2\<lparr>ho_reporter := ReportOKIfStarting node (ho_reporter h2)\<rparr>))"

text \<open>The outer \<open>None\<close> is the error of the topological sort.\<close>

definition StartAll ::
  "('c, 'n) topo_sort \<Rightarrow> (('c, 'n) gnode, 'e) behaviour \<Rightarrow> ('c, 'n) Graph \<Rightarrow> (('c, 'n) gnode, 'e) host \<Rightarrow>
   ('e option \<times> (('c, 'n) gnode, 'e) host) option" where
  "StartAll topoSort start g h = map_option (\<lambda>nodes. start_nodes start (rev nodes) h) (topoSort (gr_nodes g) (gr_edges g))"

fun stop_nodes ::
  "(('c, 'n) gnode, 'e) behaviour \<Rightarrow> ('c, 'n) gnode list \<Rightarrow> 'e list \<times> (('c, 'n) gnode, 'e) host \<Rightarrow>
   'e list \<times> (('c, 'n) gnode, 'e) host" where
  "stop_nodes stop [] (errs, h) = (errs, h)"
| "stop_nodes stop (node # nodes) (errs, h) =
     (if \<not> is_component node then stop_nodes stop nodes (errs, h)
      else let h1 = report node (NewEvent StatusStopping) h;
               (own, compErr) = stop node;
               h2 = (fold (report node) own h1)\<lparr>ho_calls := ho_calls h @ [ShutdownCall node]\<rparr>
           in case compErr of
                Some err \<Rightarrow> stop_nodes stop nodes (errs @ [err], report node (NewPermanentErrorEvent err) h2)
              | None \<Rightarrow> stop_nodes stop nodes (errs, report node (NewEvent StatusStopped) h2))"

definition ShutdownAll ::
  "('c, 'n) topo_sort \<Rightarrow> (('c, 'n) gnode, 'e) behaviour \<Rightarrow> ('c, 'n) Graph \<Rightarrow> (('c, 'n) gnode, 'e) host \<Rightarrow>
   ('e list \<times> (('c, 'n) gnode, 'e) host) option" where
  "ShutdownAll topoSort stop g h = map_option (\<lambda>nodes. stop_nodes stop nodes ([], h)) (topoSort (gr_nodes g) (gr_edges g))"

end
