(* ===== verification/GraphStages.thy ===== *)
theory GraphStages
  imports ServiceGraph
begin

text \<open>
  The edges of the component graph, described by the configuration alone, and what the first
  stage of \<open>createNodes\<close>, which goes through the pipelines, has recorded.
\<close>

section \<open>The data flow of a configuration\<close>

text \<open>Connector \<open>c\<close> carries data from pipeline \<open>p\<close> to pipeline \<open>q\<close>.\<close>

definition carries :: "'c ConnectorBuilder \<Rightarrow> ('c, 'n) pipeline_configs \<Rightarrow> 'c \<Rightarrow> 'n pipeline_id \<Rightarrow> 'n pipeline_id \<Rightarrow> bool" where
  "carries cb cfgs c p q \<longleftrightarrow> cb_IsConfigured cb c \<and>
     (\<exists>cfg. (p, cfg) \<in> set cfgs \<and> c \<in> set (pc_Exporters cfg)) \<and> (\<exists>cfg. (q, cfg) \<in> set cfgs \<and> c \<in> set (pc_Receivers cfg)) \<and>
     (\<exists>supports. supported_by cb c = Some supports \<and> supports (fst p) (fst q))"

definition feeds :: "'c ConnectorBuilder \<Rightarrow> ('c, 'n) pipeline_configs \<Rightarrow> ('n pipeline_id \<times> 'n pipeline_id) set" where
  "feeds cb cfgs = {(p, q). \<exists>c. carries cb cfgs c p q}"

abbreviation chain :: "'n pipeline_id \<Rightarrow> 'c list \<Rightarrow> (('c, 'n) gnode \<times> ('c, 'n) gnode) list" where
  "chain pid procs \<equiv> zip (CapabilitiesNode pid # map (ProcessorNode pid) procs) (map (ProcessorNode pid) procs @ [FanOutNode pid])"

inductive data_edge :: "'c ConnectorBuilder \<Rightarrow> ('c, 'n) pipeline_configs \<Rightarrow> ('c, 'n) gnode \<Rightarrow> ('c, 'n) gnode \<Rightarrow> bool"
  for cb cfgs where
  from_receiver: "(pid, cfg) \<in> set cfgs \<Longrightarrow> r \<in> set (pc_Receivers cfg) \<Longrightarrow> \<not> cb_IsConfigured cb r \<Longrightarrow>
    data_edge cb cfgs (ReceiverNode (fst pid) r) (CapabilitiesNode pid)"
| along: "(pid, cfg) \<in> set cfgs \<Longrightarrow> (u, v) \<in> set (chain pid (pc_Processors cfg)) \<Longrightarrow> data_edge cb cfgs u v"
| to_exporter: "(pid, cfg) \<in> set cfgs \<Longrightarrow> e \<in> set (pc_Exporters cfg) \<Longrightarrow> \<not> cb_IsConfigured cb e \<Longrightarrow>
    data_edge cb cfgs (FanOutNode pid) (ExporterNode (fst pid) e)"
| to_connector: "carries cb cfgs c p q \<Longrightarrow> data_edge cb cfgs (FanOutNode p) (ConnectorNode (fst p) (fst q) c)"
| from_connector: "carries cb cfgs c p q \<Longrightarrow> data_edge cb cfgs (ConnectorNode (fst p) (fst q) c) (CapabilitiesNode q)"

section \<open>What the nodes of a pipeline are\<close>

definition recs :: "('c, 'n) Graph \<Rightarrow> 'n pipeline_id \<Rightarrow> ('c, 'n) gnode set" where
  "recs g pid = (case map_of (gr_pipelines g) pid of Some pn \<Rightarrow> set (pn_receivers pn) | None \<Rightarrow> {})"

definition procs :: "('c, 'n) Graph \<Rightarrow> 'n pipeline_id \<Rightarrow> ('c, 'n) gnode list" where
  "procs g pid = (case map_of (gr_pipelines g) pid of Some pn \<Rightarrow> pn_processors pn | None \<Rightarrow> [])"

definition exps :: "('c, 'n) Graph \<Rightarrow> 'n pipeline_id \<Rightarrow> ('c, 'n) gnode set" where
  "exps g pid = (case map_of (gr_pipelines g) pid of Some pn \<Rightarrow> set (pn_exporters pn) | None \<Rightarrow> {})"

abbreviation keys :: "('c, 'n) Graph \<Rightarrow> 'n pipeline_id list" where
  "keys g \<equiv> map fst (gr_pipelines g)"

lemma update_keys [simp]: "keys (update_pipeline pid f g) = keys g"
  by (simp add: update_pipeline_def o_def split_def)

lemma update_map_of:
  "map_of (gr_pipelines (update_pipeline pid f g)) q = map_option (\<lambda>pn. if q = pid then f pn else pn) (map_of (gr_pipelines g) q)"
proof -
  have "map_of (map (\<lambda>(p, pn). (p, if p = pid then f pn else pn)) ps) q = map_option (\<lambda>pn. if q = pid then f pn else pn) (map_of ps q)" for ps
    by (induction ps) auto
  then show ?thesis by (simp add: update_pipeline_def)
qed

lemma known: "pid \<in> set (keys g) \<Longrightarrow> \<exists>pn. map_of (gr_pipelines g) pid = Some pn"
  by (metis map_of_eq_None_iff not_None_eq set_map)

lemma update_receivers [simp]:
  assumes "pid \<in> set (keys g)"
  shows "recs (update_pipeline pid (\<lambda>pn. pn\<lparr>pn_receivers := List.insert node (pn_receivers pn)\<rparr>) g) q = recs g q \<union> (if q = pid then {node} else {})"
    and "procs (update_pipeline pid (\<lambda>pn. pn\<lparr>pn_receivers := List.insert node (pn_receivers pn)\<rparr>) g) q = procs g q"
    and "exps (update_pipeline pid (\<lambda>pn. pn\<lparr>pn_receivers := List.insert node (pn_receivers pn)\<rparr>) g) q = exps g q"
  using known [OF assms] by (auto simp: recs_def procs_def exps_def update_map_of split: option.splits)

lemma update_exporters [simp]:
  assumes "pid \<in> set (keys g)"
  shows "exps (update_pipeline pid (\<lambda>pn. pn\<lparr>pn_exporters := List.insert node (pn_exporters pn)\<rparr>) g) q = exps g q \<union> (if q = pid then {node} else {})"
    and "procs (update_pipeline pid (\<lambda>pn. pn\<lparr>pn_exporters := List.insert node (pn_exporters pn)\<rparr>) g) q = procs g q"
    and "recs (update_pipeline pid (\<lambda>pn. pn\<lparr>pn_exporters := List.insert node (pn_exporters pn)\<rparr>) g) q = recs g q"
  using known [OF assms] by (auto simp: recs_def procs_def exps_def update_map_of split: option.splits)

lemma update_processors [simp]:
  assumes "pid \<in> set (keys g)"
  shows "procs (update_pipeline pid (\<lambda>pn. pn\<lparr>pn_processors := pn_processors pn @ [node]\<rparr>) g) q = procs g q @ (if q = pid then [node] else [])"
    and "exps (update_pipeline pid (\<lambda>pn. pn\<lparr>pn_processors := pn_processors pn @ [node]\<rparr>) g) q = exps g q"
    and "recs (update_pipeline pid (\<lambda>pn. pn\<lparr>pn_processors := pn_processors pn @ [node]\<rparr>) g) q = recs g q"
  using known [OF assms] by (auto simp: recs_def procs_def exps_def update_map_of split: option.splits)

lemma same_pipelines:
  "gr_pipelines g' = gr_pipelines g \<Longrightarrow> recs g' = recs g \<and> procs g' = procs g \<and> exps g' = exps g"
  by (simp add: recs_def procs_def exps_def fun_eq_iff)

lemma createShared_pipelines [simp]: "gr_pipelines (createShared node pids g) = gr_pipelines g"
  by (simp add: createShared_def)

lemma shared_views [simp]:
  "recs (createShared node pids g) = recs g" "procs (createShared node pids g) = procs g" "exps (createShared node pids g) = exps g"
  using same_pipelines [of "createShared node pids g" g] by simp_all

section \<open>The pipelines stage\<close>

lemma add_receivers_facts:
  assumes "pid \<in> set (keys (cr_graph st))"
  shows "let st' = fold (add_receiver cb pid) rs st in
    keys (cr_graph st') = keys (cr_graph st) \<and>
    recs (cr_graph st') q = recs (cr_graph st) q \<union> (if q = pid then ReceiverNode (fst pid) ` {r \<in> set rs. \<not> cb_IsConfigured cb r} else {}) \<and>
    procs (cr_graph st') = procs (cr_graph st) \<and> exps (cr_graph st') = exps (cr_graph st) \<and>
    set (cr_connectors st') = set (cr_connectors st) \<union> {r \<in> set rs. cb_IsConfigured cb r} \<and>
    set (cr_asReceiver st') = set (cr_asReceiver st) \<union> {r \<in> set rs. cb_IsConfigured cb r} \<times> {pid} \<and>
    cr_asExporter st' = cr_asExporter st"
  using assms
proof (induction rs arbitrary: st)
  case (Cons r rs)
  show ?case
  proof (cases "cb_IsConfigured cb r")
    case True
    then show ?thesis using Cons.IH [of "add_receiver cb pid r st"] Cons.prems
      by (auto simp: add_receiver_def Let_def)
  next
    case False
    then show ?thesis using Cons.IH [of "add_receiver cb pid r st"] Cons.prems
      by (auto simp: add_receiver_def createReceiver_def Let_def fun_eq_iff)
  qed
qed simp

lemma add_exporters_facts:
  assumes "pid \<in> set (keys (cr_graph st))"
  shows "let st' = fold (add_exporter cb pid) es st in
    keys (cr_graph st') = keys (cr_graph st) \<and>
    exps (cr_graph st') q = exps (cr_graph st) q \<union> (if q = pid then ExporterNode (fst pid) ` {e \<in> set es. \<not> cb_IsConfigured cb e} else {}) \<and>
    procs (cr_graph st') = procs (cr_graph st) \<and> recs (cr_graph st') = recs (cr_graph st) \<and>
    set (cr_connectors st') = set (cr_connectors st) \<union> {e \<in> set es. cb_IsConfigured cb e} \<and>
    set (cr_asExporter st') = set (cr_asExporter st) \<union> {e \<in> set es. cb_IsConfigured cb e} \<times> {pid} \<and>
    cr_asReceiver st' = cr_asReceiver st"
  using assms
proof (induction es arbitrary: st)
  case (Cons e es)
  show ?case
  proof (cases "cb_IsConfigured cb e")
    case True
    then show ?thesis using Cons.IH [of "add_exporter cb pid e st"] Cons.prems
      by (auto simp: add_exporter_def Let_def)
  next
    case False
    then show ?thesis using Cons.IH [of "add_exporter cb pid e st"] Cons.prems
      by (auto simp: add_exporter_def createExporter_def Let_def fun_eq_iff)
  qed
qed simp

lemma add_processors_facts:
  assumes "pid \<in> set (keys (cr_graph st))" and "add_processors pid ps st = (Inr st' :: ('c, 'n, 'e) build_error + ('c, 'n) creation)"
  shows "keys (cr_graph st') = keys (cr_graph st) \<and>
    procs (cr_graph st') q = procs (cr_graph st) q @ (if q = pid then map (ProcessorNode pid) ps else []) \<and>
    recs (cr_graph st') = recs (cr_graph st) \<and> exps (cr_graph st') = exps (cr_graph st) \<and>
    cr_connectors st' = cr_connectors st \<and> cr_asExporter st' = cr_asExporter st \<and> cr_asReceiver st' = cr_asReceiver st"
  using assms
proof (induction ps arbitrary: st)
  case (Cons p ps)
  let ?g = "(cr_graph st)\<lparr>gr_nodes := gr_nodes (cr_graph st) @ [ProcessorNode pid p],
       gr_instanceIDs := AList.update (ProcessorNode pid p) {pid} (gr_instanceIDs (cr_graph st))\<rparr>"
  let ?st = "st\<lparr>cr_graph := update_pipeline pid (\<lambda>pn. pn\<lparr>pn_processors := pn_processors pn @ [ProcessorNode pid p]\<rparr>) ?g\<rparr>"
  have rest: "add_processors pid ps ?st = (Inr st' :: ('c, 'n, 'e) build_error + ('c, 'n) creation)"
    using Cons.prems(2) by (auto simp: createProcessor_def Let_def split: if_splits)
  have "pid \<in> set (keys ?g)" using Cons.prems(1) by simp
  note upd = update_processors [OF this]
  have "recs ?g = recs (cr_graph st) \<and> procs ?g = procs (cr_graph st) \<and> exps ?g = exps (cr_graph st)"
    by (rule same_pipelines) simp
  with Cons.IH [OF _ rest] Cons.prems(1) upd show ?case by (auto simp: fun_eq_iff)
qed simp

text \<open>What the pipelines stage has recorded when the configurations \<open>cfgs\<close> have been processed.\<close>

definition staged ::
  "'c ConnectorBuilder \<Rightarrow> ('c, 'n) pipeline_configs \<Rightarrow> ('c, 'n) creation \<Rightarrow> bool" where
  "staged cb cfgs st \<longleftrightarrow>
     (\<forall>q. recs (cr_graph st) q = {ReceiverNode (fst q) r | r cfg. (q, cfg) \<in> set cfgs \<and> r \<in> set (pc_Receivers cfg) \<and> \<not> cb_IsConfigured cb r}) \<and>
     (\<forall>q. exps (cr_graph st) q = {ExporterNode (fst q) e | e cfg. (q, cfg) \<in> set cfgs \<and> e \<in> set (pc_Exporters cfg) \<and> \<not> cb_IsConfigured cb e}) \<and>
     (\<forall>q. procs (cr_graph st) q = (case map_of cfgs q of Some cfg \<Rightarrow> map (ProcessorNode q) (pc_Processors cfg) | None \<Rightarrow> [])) \<and>
     set (cr_asReceiver st) = {(c, q). \<exists>cfg. (q, cfg) \<in> set cfgs \<and> c \<in> set (pc_Receivers cfg) \<and> cb_IsConfigured cb c} \<and>
     set (cr_asExporter st) = {(c, q). \<exists>cfg. (q, cfg) \<in> set cfgs \<and> c \<in> set (pc_Exporters cfg) \<and> cb_IsConfigured cb c} \<and>
     set (cr_connectors st) = fst ` set (cr_asReceiver st) \<union> fst ` set (cr_asExporter st)"

lemma stagedD:
  assumes "staged cb cfgs st"
  shows "recs (cr_graph st) q = {ReceiverNode (fst q) r | r cfg. (q, cfg) \<in> set cfgs \<and> r \<in> set (pc_Receivers cfg) \<and> \<not> cb_IsConfigured cb r}"
    and "exps (cr_graph st) q = {ExporterNode (fst q) e | e cfg. (q, cfg) \<in> set cfgs \<and> e \<in> set (pc_Exporters cfg) \<and> \<not> cb_IsConfigured cb e}"
    and "procs (cr_graph st) q = (case map_of cfgs q of Some cfg \<Rightarrow> map (ProcessorNode q) (pc_Processors cfg) | None \<Rightarrow> [])"
    and "set (cr_asReceiver st) = {(c, q). \<exists>cfg. (q, cfg) \<in> set cfgs \<and> c \<in> set (pc_Receivers cfg) \<and> cb_IsConfigured cb c}"
    and "set (cr_asExporter st) = {(c, q). \<exists>cfg. (q, cfg) \<in> set cfgs \<and> c \<in> set (pc_Exporters cfg) \<and> cb_IsConfigured cb c}"
    and "set (cr_connectors st) = fst ` set (cr_asReceiver st) \<union> fst ` set (cr_asExporter st)"
proof -
  note a = assms [unfolded staged_def]
  show "recs (cr_graph st) q = {ReceiverNode (fst q) r | r cfg. (q, cfg) \<in> set cfgs \<and> r \<in> set (pc_Receivers cfg) \<and> \<not> cb_IsConfigured cb r}"
    using a by (elim conjE) (erule spec)
  show "exps (cr_graph st) q = {ExporterNode (fst q) e | e cfg. (q, cfg) \<in> set cfgs \<and> e \<in> set (pc_Exporters cfg) \<and> \<not> cb_IsConfigured cb e}"
    using a by (elim conjE) (rule spec)
  show "procs (cr_graph st) q = (case map_of cfgs q of Some cfg \<Rightarrow> map (ProcessorNode q) (pc_Processors cfg) | None \<Rightarrow> [])"
    using a by (elim conjE) (rule spec)
  show "set (cr_asReceiver st) = {(c, q). \<exists>cfg. (q, cfg) \<in> set cfgs \<and> c \<in> set (pc_Receivers cfg) \<and> cb_IsConfigured cb c}"
    using a by (elim conjE)
  show "set (cr_asExporter st) = {(c, q). \<exists>cfg. (q, cfg) \<in> set cfgs \<and> c \<in> set (pc_Exporters cfg) \<and> cb_IsConfigured cb c}"
    using a by (elim conjE)
  show "set (cr_connectors st) = fst ` set (cr_asReceiver st) \<union> fst ` set (cr_asExporter st)"
    using a by (elim conjE)
qed

lemma staged_pipeline:
  assumes st: "staged cb cfgs st" and new: "pid \<notin> fst ` set cfgs" and pid: "pid \<in> set (keys (cr_graph st))"
    and add: "add_pipeline cb (pid, cfg) st = (Inr st' :: ('c, 'n, 'e) build_error + ('c, 'n) creation)"
  shows "staged cb (cfgs @ [(pid, cfg)]) st' \<and> keys (cr_graph st') = keys (cr_graph st)"
proof -
  let ?st1 = "fold (add_receiver cb pid) (pc_Receivers cfg) st"
  obtain st2 where st2: "add_processors pid (pc_Processors cfg) ?st1 = (Inr st2 :: ('c, 'n, 'e) build_error + ('c, 'n) creation)"
    and st': "st' = fold (add_exporter cb pid) (pc_Exporters cfg) st2"
    using add by (auto simp: add_pipeline_def split: sum.splits)
  note r = add_receivers_facts [OF pid, of cb "pc_Receivers cfg", unfolded Let_def]
  have pid1: "pid \<in> set (keys (cr_graph ?st1))" using r pid by simp
  note p = add_processors_facts [OF pid1 st2]
  have pid2: "pid \<in> set (keys (cr_graph st2))" using p pid1 by simp
  note e = add_exporters_facts [OF pid2, of cb "pc_Exporters cfg", unfolded Let_def, folded st']
  have none: "map_of cfgs pid = None" using new by (simp add: map_of_eq_None_iff)
  have nocfg: "(pid, c) \<notin> set cfgs" for c using new by force
  have R: "recs (cr_graph st') q = recs (cr_graph st) q \<union>
      (if q = pid then ReceiverNode (fst pid) ` {r \<in> set (pc_Receivers cfg). \<not> cb_IsConfigured cb r} else {})" for q
    using r [of q] p e by auto
  have E: "exps (cr_graph st') q = exps (cr_graph st) q \<union>
      (if q = pid then ExporterNode (fst pid) ` {r \<in> set (pc_Exporters cfg). \<not> cb_IsConfigured cb r} else {})" for q
    using r p e [of q] by auto
  have P: "procs (cr_graph st') q = procs (cr_graph st) q @ (if q = pid then map (ProcessorNode pid) (pc_Processors cfg) else [])" for q
    using r p [of q] e by auto
  have AR: "set (cr_asReceiver st') = set (cr_asReceiver st) \<union> {c \<in> set (pc_Receivers cfg). cb_IsConfigured cb c} \<times> {pid}"
    and AE: "set (cr_asExporter st') = set (cr_asExporter st) \<union> {c \<in> set (pc_Exporters cfg). cb_IsConfigured cb c} \<times> {pid}"
    and CN: "set (cr_connectors st') = set (cr_connectors st) \<union> {c \<in> set (pc_Receivers cfg). cb_IsConfigured cb c} \<union>
      {c \<in> set (pc_Exporters cfg). cb_IsConfigured cb c}"
    and K: "keys (cr_graph st') = keys (cr_graph st)"
    using r p e by auto
  have "staged cb (cfgs @ [(pid, cfg)]) st'"
    unfolding staged_def
  proof (intro conjI allI)
    fix q
    show "recs (cr_graph st') q = {ReceiverNode (fst q) r |r cfg'. (q, cfg') \<in> set (cfgs @ [(pid, cfg)]) \<and> r \<in> set (pc_Receivers cfg') \<and> \<not> cb_IsConfigured cb r}"
      unfolding R stagedD(1) [OF st] by auto
    show "exps (cr_graph st') q = {ExporterNode (fst q) r |r cfg'. (q, cfg') \<in> set (cfgs @ [(pid, cfg)]) \<and> r \<in> set (pc_Exporters cfg') \<and> \<not> cb_IsConfigured cb r}"
      unfolding E stagedD(2) [OF st] by auto
    show "procs (cr_graph st') q = (case map_of (cfgs @ [(pid, cfg)]) q of Some cfg \<Rightarrow> map (ProcessorNode q) (pc_Processors cfg) | None \<Rightarrow> [])"
      unfolding P stagedD(3) [OF st] using none by (auto simp: map_add_def split: option.splits)
    show "set (cr_asReceiver st') = {(c, q). \<exists>cfg'. (q, cfg') \<in> set (cfgs @ [(pid, cfg)]) \<and> c \<in> set (pc_Receivers cfg') \<and> cb_IsConfigured cb c}"
      unfolding AR stagedD(4) [OF st] by auto
    show "set (cr_asExporter st') = {(c, q). \<exists>cfg'. (q, cfg') \<in> set (cfgs @ [(pid, cfg)]) \<and> c \<in> set (pc_Exporters cfg') \<and> cb_IsConfigured cb c}"
      unfolding AE stagedD(5) [OF st] by auto
    show "set (cr_connectors st') = fst ` set (cr_asReceiver st') \<union> fst ` set (cr_asExporter st')"
      unfolding CN AR AE stagedD(6) [OF st] by (auto simp: image_Un)
  qed
  with K show ?thesis by blast
qed

lemma staged_pipelines:
  assumes "staged cb before st" and "distinct (map fst (before @ cfgs))" and "set (map fst cfgs) \<subseteq> set (keys (cr_graph st))"
    and "add_pipelines cb cfgs st = (Inr st' :: ('c, 'n, 'e) build_error + ('c, 'n) creation)"
  shows "staged cb (before @ cfgs) st' \<and> keys (cr_graph st') = keys (cr_graph st)"
  using assms
proof (induction cfgs arbitrary: before st)
  case (Cons p cfgs)
  obtain pid cfg where p: "p = (pid, cfg)" by (cases p)
  obtain st1 where st1: "add_pipeline cb (pid, cfg) st = (Inr st1 :: ('c, 'n, 'e) build_error + ('c, 'n) creation)"
    and rest: "add_pipelines cb cfgs st1 = (Inr st' :: ('c, 'n, 'e) build_error + ('c, 'n) creation)"
    using Cons.prems(4) by (auto simp: p split: sum.splits)
  have "pid \<notin> fst ` set before" "pid \<in> set (keys (cr_graph st))" using Cons.prems(2,3) by (auto simp: p)
  note one = staged_pipeline [OF Cons.prems(1) this st1]
  have "distinct (map fst ((before @ [(pid, cfg)]) @ cfgs))" using Cons.prems(2) by (simp add: p)
  with Cons.IH [OF conjunct1 [OF one] _ _ rest] one Cons.prems(3) show ?case by (auto simp: p)
qed simp

end
