(* ===== verification/GraphEdges.thy ===== *)
theory GraphEdges
  imports GraphStages
begin

text \<open>
  The second stage of \<open>createNodes\<close>, which adds the connectors, and a proof that \<open>createNodes\<close>
  and \<open>createEdges\<close> compute the edges that the configuration describes.
\<close>

section \<open>The connectors stage\<close>

lemma ex_fst_Cons: "(\<exists>x. (x, q) \<in> set ((e, r) # es) \<and> P x) \<longleftrightarrow> q = r \<and> P e \<or> (\<exists>x. (x, q) \<in> set es \<and> P x)"
  by auto

lemma ex_snd_Cons: "(\<exists>x. (q, x) \<in> set ((e, r) # es) \<and> P x) \<longleftrightarrow> q = e \<and> P r \<or> (\<exists>x. (q, x) \<in> set es \<and> P x)"
  by auto

lemma connects_facts:
  assumes "set (map fst es) \<union> set (map snd es) \<subseteq> set (keys g)"
  shows "let g' = fold (connect supports c) es g in
    keys g' = keys g \<and> procs g' = procs g \<and>
    (x \<in> recs g' q \<longleftrightarrow> x \<in> recs g q \<or> (\<exists>e. (e, q) \<in> set es \<and> supports (fst e) (fst q) \<and> x = ConnectorNode (fst e) (fst q) c)) \<and>
    (x \<in> exps g' q \<longleftrightarrow> x \<in> exps g q \<or> (\<exists>r. (q, r) \<in> set es \<and> supports (fst q) (fst r) \<and> x = ConnectorNode (fst q) (fst r) c))"
  using assms
proof (induction es arbitrary: g)
  case (Cons er es)
  obtain e r where er: "er = (e, r)" by (cases er)
  let ?g = "connect supports c (e, r) g" and ?g' = "fold (connect supports c) es (connect supports c (e, r) g)"
  have k: "e \<in> set (keys g)" "r \<in> set (keys g)" using Cons.prems er by auto
  have step: "keys ?g = keys g \<and> procs ?g = procs g \<and>
      (x \<in> recs ?g q \<longleftrightarrow> x \<in> recs g q \<or> q = r \<and> supports (fst e) (fst q) \<and> x = ConnectorNode (fst e) (fst q) c) \<and>
      (x \<in> exps ?g q \<longleftrightarrow> x \<in> exps g q \<or> q = e \<and> supports (fst q) (fst r) \<and> x = ConnectorNode (fst q) (fst r) c)"
    using k by (simp add: connect_def createConnector_def Let_def fun_eq_iff)
  have "set (map fst es) \<union> set (map snd es) \<subseteq> set (keys ?g)" using Cons.prems step by simp
  from Cons.IH [OF this, unfolded Let_def] step show ?case
    unfolding Let_def er ex_fst_Cons ex_snd_Cons fold_simps by argo
qed simp

text \<open>The pipelines a connector that passed the checks is put between.\<close>

definition joins ::
  "'c ConnectorBuilder \<Rightarrow> ('c \<times> 'n pipeline_id) list \<Rightarrow> ('c \<times> 'n pipeline_id) list \<Rightarrow> 'c \<Rightarrow> 'n pipeline_id \<Rightarrow> 'n pipeline_id \<Rightarrow> bool" where
  "joins cb asE asR c e r \<longleftrightarrow> (c, e) \<in> set asE \<and> (c, r) \<in> set asR \<and>
     (\<exists>supports. supported_by cb c = Some supports \<and> supports (fst e) (fst r))"

lemma uses_of_set: "e \<in> set (uses_of c us) \<longleftrightarrow> (c, e) \<in> set us"
  by (force simp: uses_of_def)

lemma bex_set_Cons: "(\<exists>x \<in> set (y # ys). P x) \<longleftrightarrow> P y \<or> (\<exists>x \<in> set ys. P x)"
  by simp

lemma add_connectors_facts:
  assumes "snd ` set asE \<union> snd ` set asR \<subseteq> set (keys g)"
    and "add_connectors cb asE asR cs g = (Inr g' :: ('c, 'n, 'e) build_error + ('c, 'n) Graph)"
  shows "keys g' = keys g \<and> procs g' = procs g \<and>
    (x \<in> recs g' q \<longleftrightarrow> x \<in> recs g q \<or> (\<exists>c \<in> set cs. \<exists>e. joins cb asE asR c e q \<and> x = ConnectorNode (fst e) (fst q) c)) \<and>
    (x \<in> exps g' q \<longleftrightarrow> x \<in> exps g q \<or> (\<exists>c \<in> set cs. \<exists>r. joins cb asE asR c q r \<and> x = ConnectorNode (fst q) (fst r) c))"
  using assms
proof (induction cs arbitrary: g)
  case (Cons c cs)
  obtain supports where sup: "supported_by cb c = Some supports"
    using Cons.prems(2) by (cases "supported_by cb c") auto
  let ?es = "List.product (uses_of c asE) (uses_of c asR)"
  let ?g = "fold (connect supports c) ?es g"
  have rest: "add_connectors cb asE asR cs ?g = (Inr g' :: ('c, 'n, 'e) build_error + ('c, 'n) Graph)"
    using Cons.prems(2) unfolding add_connectors.simps sup option.case Let_def by (simp split: list.splits)
  have sub: "set (map fst ?es) \<union> set (map snd ?es) \<subseteq> set (keys g)"
  proof -
    have "set (map fst ?es) \<subseteq> set (uses_of c asE) \<and> set (map snd ?es) \<subseteq> set (uses_of c asR)" by auto
    moreover have "set (uses_of c asE) \<subseteq> snd ` set asE" "set (uses_of c asR) \<subseteq> snd ` set asR" by (auto simp: uses_of_def)
    ultimately show ?thesis using Cons.prems(1) by blast
  qed
  note one = connects_facts [OF sub, of supports c, unfolded Let_def]
  have "joins cb asE asR c e r \<longleftrightarrow> (e, r) \<in> set ?es \<and> supports (fst e) (fst r)" for e r
    using sup by (simp add: joins_def uses_of_set)
  note js = this [abs_def]
  have "snd ` set asE \<union> snd ` set asR \<subseteq> set (keys ?g)" using Cons.prems(1) one by simp
  from Cons.IH [OF this rest] one [of x q] show ?case
    unfolding bex_set_Cons js conj_assoc by argo
qed simp

section \<open>The edges\<close>

lemma newGraph_staged:
  fixes cfgs :: "('c, 'n) pipeline_configs"
  shows "staged cb [] \<lparr>cr_graph = newGraph cfgs, cr_connectors = [], cr_asExporter = [], cr_asReceiver = []\<rparr>"
proof -
  let ?none = "\<lparr>pn_receivers = [], pn_processors = [], pn_exporters = []\<rparr> :: ('c, 'n) pipelineNodes"
  have m: "map_of (map (\<lambda>(pid, _). (pid, ?none)) ps) q = None \<or> map_of (map (\<lambda>(pid, _). (pid, ?none)) ps) q = Some ?none"
    for ps :: "('c, 'n) pipeline_configs" and q
    by (induction ps) auto
  have "recs (newGraph cfgs) q = {} \<and> exps (newGraph cfgs) q = {} \<and> procs (newGraph cfgs) q = []" for q
    using m [of cfgs q] by (auto simp: recs_def exps_def procs_def newGraph_def)
  then show ?thesis by (simp add: staged_def)
qed

lemma createNodes_pipelines:
  assumes d: "distinct (map fst cfgs)" and "createNodes cb cfgs (newGraph cfgs) = (Inr g :: ('c, 'n, 'e) build_error + ('c, 'n) Graph)"
  shows "keys g = map fst cfgs"
    and "x \<in> recs g q \<longleftrightarrow> (\<exists>r cfg. x = ReceiverNode (fst q) r \<and> (q, cfg) \<in> set cfgs \<and> r \<in> set (pc_Receivers cfg) \<and> \<not> cb_IsConfigured cb r) \<or>
      (\<exists>c e. carries cb cfgs c e q \<and> x = ConnectorNode (fst e) (fst q) c)"
    and "procs g q = (case map_of cfgs q of Some cfg \<Rightarrow> map (ProcessorNode q) (pc_Processors cfg) | None \<Rightarrow> [])"
    and "x \<in> exps g q \<longleftrightarrow> (\<exists>e cfg. x = ExporterNode (fst q) e \<and> (q, cfg) \<in> set cfgs \<and> e \<in> set (pc_Exporters cfg) \<and> \<not> cb_IsConfigured cb e) \<or>
      (\<exists>c r. carries cb cfgs c q r \<and> x = ConnectorNode (fst q) (fst r) c)"
proof -
  let ?st0 = "\<lparr>cr_graph = newGraph cfgs, cr_connectors = [], cr_asExporter = [], cr_asReceiver = []\<rparr> :: ('c, 'n) creation"
  obtain st where st: "add_pipelines cb cfgs ?st0 = (Inr st :: ('c, 'n, 'e) build_error + ('c, 'n) creation)"
    and g: "add_connectors cb (cr_asExporter st) (cr_asReceiver st) (cr_connectors st) (cr_graph st) = (Inr g :: ('c, 'n, 'e) build_error + ('c, 'n) Graph)"
    using assms(2) by (auto simp: createNodes_def split: sum.splits)
  have k0: "keys (newGraph cfgs) = map fst cfgs" by (simp add: newGraph_def o_def split_def)
  have S: "staged cb cfgs st" and k: "keys (cr_graph st) = map fst cfgs"
    using staged_pipelines [OF newGraph_staged _ _ st] d k0 by auto
  have sub: "snd ` set (cr_asExporter st) \<union> snd ` set (cr_asReceiver st) \<subseteq> set (keys (cr_graph st))"
    unfolding k stagedD(4,5) [OF S] by force
  note c = add_connectors_facts [OF sub g]
  have j: "c \<in> set (cr_connectors st) \<and> joins cb (cr_asExporter st) (cr_asReceiver st) c e r \<longleftrightarrow> carries cb cfgs c e r" for c e r
  proof -
    have "(c, e) \<in> set (cr_asExporter st) \<Longrightarrow> c \<in> set (cr_connectors st)" unfolding stagedD(6) [OF S] by (metis UnI2 fst_conv imageI)
    moreover have "(c, e) \<in> set (cr_asExporter st) \<longleftrightarrow> (\<exists>cfg. (e, cfg) \<in> set cfgs \<and> c \<in> set (pc_Exporters cfg) \<and> cb_IsConfigured cb c)"
      "(c, r) \<in> set (cr_asReceiver st) \<longleftrightarrow> (\<exists>cfg. (r, cfg) \<in> set cfgs \<and> c \<in> set (pc_Receivers cfg) \<and> cb_IsConfigured cb c)"
      unfolding stagedD(4,5) [OF S] by simp_all
    ultimately show ?thesis unfolding joins_def carries_def by blast
  qed
  show "keys g = map fst cfgs" using c k by simp
  show "x \<in> recs g q \<longleftrightarrow> (\<exists>r cfg. x = ReceiverNode (fst q) r \<and> (q, cfg) \<in> set cfgs \<and> r \<in> set (pc_Receivers cfg) \<and> \<not> cb_IsConfigured cb r) \<or>
      (\<exists>c e. carries cb cfgs c e q \<and> x = ConnectorNode (fst e) (fst q) c)"
    unfolding j [symmetric] using c [of x q] unfolding stagedD(1) [OF S, of q] mem_Collect_eq by blast
  show "procs g q = (case map_of cfgs q of Some cfg \<Rightarrow> map (ProcessorNode q) (pc_Processors cfg) | None \<Rightarrow> [])"
    using c stagedD(3) [OF S, of q] by simp
  show "x \<in> exps g q \<longleftrightarrow> (\<exists>e cfg. x = ExporterNode (fst q) e \<and> (q, cfg) \<in> set cfgs \<and> e \<in> set (pc_Exporters cfg) \<and> \<not> cb_IsConfigured cb e) \<or>
      (\<exists>c r. carries cb cfgs c q r \<and> x = ConnectorNode (fst q) (fst r) c)"
    unfolding j [symmetric] using c [of x q] unfolding stagedD(2) [OF S, of q] mem_Collect_eq by blast
qed

lemma pipeline_edges_set:
  assumes "distinct (keys g)"
  shows "(u, v) \<in> set (gr_edges (createEdges g)) \<longleftrightarrow> (\<exists>pid \<in> set (keys g). u \<in> recs g pid \<and> v = CapabilitiesNode pid \<or>
     (u, v) \<in> set (zip (CapabilitiesNode pid # procs g pid) (procs g pid @ [FanOutNode pid])) \<or> u = FanOutNode pid \<and> v \<in> exps g pid)"
    (is "_ \<longleftrightarrow> (\<exists>pid \<in> set (keys g). ?P pid)")
proof -
  have one: "(u, v) \<in> set (pipeline_edges (pid, pn)) \<longleftrightarrow> ?P pid" if "(pid, pn) \<in> set (gr_pipelines g)" for pid pn
    using map_of_is_SomeI [OF assms that] by (auto simp: pipeline_edges_def recs_def procs_def exps_def)
  have "(u, v) \<in> set (gr_edges (createEdges g)) \<longleftrightarrow> (\<exists>p \<in> set (gr_pipelines g). (u, v) \<in> set (pipeline_edges p))"
    by (simp add: createEdges_def Let_def)
  also have "\<dots> \<longleftrightarrow> (\<exists>p \<in> set (gr_pipelines g). ?P (fst p))"
    using one by (metis prod.collapse)
  also have "\<dots> \<longleftrightarrow> (\<exists>pid \<in> set (keys g). ?P pid)" by (simp only: set_map bex_simps)
  finally show ?thesis .
qed

lemma createEdges_data_edges:
  assumes d: "distinct (map fst cfgs)" and g: "createNodes cb cfgs (newGraph cfgs) = (Inr g :: ('c, 'n, 'e) build_error + ('c, 'n) Graph)"
  shows "set (gr_edges (createEdges g)) = {(u, v). data_edge cb cfgs u v}"
proof -
  note c = createNodes_pipelines [OF d g]
  note E = pipeline_edges_set [of g, unfolded c(1), OF d]
  have p: "procs g pid = map (ProcessorNode pid) (pc_Processors cfg)" if "(pid, cfg) \<in> set cfgs" for pid cfg
    unfolding c(3) using d that by simp
  have key: "(pid, cfg) \<in> set cfgs \<Longrightarrow> pid \<in> set (map fst cfgs)" for pid cfg by force
  have cp: "carries cb cfgs x q r \<Longrightarrow> q \<in> set (map fst cfgs) \<and> r \<in> set (map fst cfgs)" for x q r
    unfolding carries_def using key by blast
  have "(u, v) \<in> set (gr_edges (createEdges g)) \<longleftrightarrow> data_edge cb cfgs u v" for u v
  proof
    assume "(u, v) \<in> set (gr_edges (createEdges g))"
    then obtain pid where pid: "pid \<in> set (map fst cfgs)" and uv: "u \<in> recs g pid \<and> v = CapabilitiesNode pid \<or>
        (u, v) \<in> set (zip (CapabilitiesNode pid # procs g pid) (procs g pid @ [FanOutNode pid])) \<or> u = FanOutNode pid \<and> v \<in> exps g pid"
      unfolding E by blast
    obtain cfg where cfg: "(pid, cfg) \<in> set cfgs" using pid by auto
    from uv show "data_edge cb cfgs u v"
      unfolding c(2,4) p [OF cfg] using data_edge.intros [where cb = cb and cfgs = cfgs] cfg by blast
  next
    assume "data_edge cb cfgs u v"
    then show "(u, v) \<in> set (gr_edges (createEdges g))"
    proof cases
      case (from_receiver pid cfg r)
      then show ?thesis unfolding E using key c(2) [of u pid] by blast
    next
      case (along pid cfg)
      then show ?thesis unfolding E using key [of pid cfg] p [of pid cfg] by (intro bexI [of _ pid]) simp_all
    next
      case (to_exporter pid cfg e)
      then show ?thesis unfolding E using key c(4) [of v pid] by blast
    next
      case (to_connector x q r)
      then show ?thesis unfolding E using cp c(4) [of v q] by blast
    next
      case (from_connector x q r)
      then show ?thesis unfolding E using cp c(2) [of u r] by blast
    qed
  qed
  then show ?thesis by auto
qed

end
