(* ===== verification/GraphCycles.thy ===== *)
theory GraphCycles
  imports GraphEdges
begin

text \<open>
  When the component graph has a cycle: exactly when the pipelines feed each other in a cycle
  through connectors. Inside a pipeline the nodes are ranked, so a cycle of nodes enters some
  pipeline anew; and what is reached from a pipeline belongs to a pipeline it feeds.
\<close>

definition flow :: "'c ConnectorBuilder \<Rightarrow> ('c, 'n) pipeline_configs \<Rightarrow> (('c, 'n) gnode \<times> ('c, 'n) gnode) set" where
  "flow cb cfgs = {(u, v). data_edge cb cfgs u v}"

lemma flow_iff [simp]: "(u, v) \<in> flow cb cfgs \<longleftrightarrow> data_edge cb cfgs u v"
  by (simp add: flow_def)

text \<open>The configurations that pass the validation of the service.\<close>

definition valid_configs :: "('c, 'n) pipeline_configs \<Rightarrow> bool" where
  "valid_configs cfgs \<longleftrightarrow> distinct (map fst cfgs) \<and> (\<forall>(pid, cfg) \<in> set cfgs. PipelineConfig_Validate cfg = None)"

lemma valid_distinct: "valid_configs cfgs \<Longrightarrow> (pid, cfg) \<in> set cfgs \<Longrightarrow> distinct (pc_Processors cfg)"
  by (fastforce simp: valid_configs_def PipelineConfig_Validate_def split: if_splits)

section \<open>Pipelines that feed each other\<close>

lemma chain_connected: "(x, z) \<in> (set (zip (x # ys) (ys @ [z])))\<^sup>+"
proof (induction ys arbitrary: x)
  case (Cons y ys)
  have "(set (zip (y # ys) (ys @ [z])))\<^sup>+ \<subseteq> (set (zip (x # y # ys) ((y # ys) @ [z])))\<^sup>+"
    by (rule trancl_mono_subset) auto
  with Cons [of y] have "(y, z) \<in> (set (zip (x # y # ys) ((y # ys) @ [z])))\<^sup>+" by blast
  moreover have "(x, y) \<in> set (zip (x # y # ys) ((y # ys) @ [z]))" by simp
  ultimately show ?case by (rule trancl_into_trancl2 [rotated])
qed auto

lemma pipeline_connected:
  assumes "(pid, cfg) \<in> set cfgs"
  shows "(CapabilitiesNode pid, FanOutNode pid) \<in> (flow cb cfgs)\<^sup>+"
proof -
  have "set (chain pid (pc_Processors cfg)) \<subseteq> flow cb cfgs" using assms by (auto intro: data_edge.along)
  from subsetD [OF trancl_mono_subset [OF this] chain_connected] show ?thesis .
qed

lemma carries_from: "carries cb cfgs c p q \<Longrightarrow> \<exists>cfg. (p, cfg) \<in> set cfgs"
  unfolding carries_def by (elim conjE exE) (rule exI)

lemma feeds_connected:
  assumes "(p, q) \<in> feeds cb cfgs"
  shows "(CapabilitiesNode p, CapabilitiesNode q) \<in> (flow cb cfgs)\<^sup>+"
proof -
  obtain c where c: "carries cb cfgs c p q" using assms by (auto simp: feeds_def)
  then obtain cfg where "(p, cfg) \<in> set cfgs" using carries_from by metis
  from pipeline_connected [OF this, of cb] have "(CapabilitiesNode p, FanOutNode p) \<in> (flow cb cfgs)\<^sup>+" .
  also have "(FanOutNode p, ConnectorNode (fst p) (fst q) c) \<in> flow cb cfgs" using c by (simp add: data_edge.to_connector)
  also have "(ConnectorNode (fst p) (fst q) c, CapabilitiesNode q) \<in> flow cb cfgs" using c by (simp add: data_edge.from_connector)
  finally show ?thesis .
qed

lemma feeds_trancl_connected:
  "(p, q) \<in> (feeds cb cfgs)\<^sup>+ \<Longrightarrow> (CapabilitiesNode p, CapabilitiesNode q) \<in> (flow cb cfgs)\<^sup>+"
  by (induction rule: trancl_induct) (erule feeds_connected, erule trancl_trans, erule feeds_connected)

fun belongs :: "'c ConnectorBuilder \<Rightarrow> ('c, 'n) pipeline_configs \<Rightarrow> 'n pipeline_id \<Rightarrow> ('c, 'n) gnode \<Rightarrow> bool" where
  "belongs cb cfgs q (ReceiverNode s c) = False"
| "belongs cb cfgs q (ProcessorNode p c) = (p = q)"
| "belongs cb cfgs q (ExporterNode s c) = True"
| "belongs cb cfgs q (ConnectorNode s t c) = (s = fst q \<and> (\<exists>r. fst r = t \<and> carries cb cfgs c q r))"
| "belongs cb cfgs q (CapabilitiesNode p) = (p = q)"
| "belongs cb cfgs q (FanOutNode p) = (p = q)"

lemma chain_belongs:
  assumes "(u, v) \<in> set (chain pid ps)"
  shows "(belongs cb cfgs q u \<longleftrightarrow> q = pid) \<and> belongs cb cfgs pid v \<and> (\<forall>p. v \<noteq> CapabilitiesNode p)"
proof -
  have "u \<in> set (CapabilitiesNode pid # map (ProcessorNode pid) ps)" "v \<in> set (map (ProcessorNode pid) ps @ [FanOutNode pid])"
    using assms by (auto dest: set_zip_leftD set_zip_rightD)
  then show ?thesis by auto
qed

lemma carries_mix:
  "carries cb cfgs c p' r' \<Longrightarrow> carries cb cfgs c q r \<Longrightarrow> fst p' = fst q \<Longrightarrow> fst r = fst r' \<Longrightarrow> carries cb cfgs c q r'"
  by (simp add: carries_def)

lemma reached_belongs:
  assumes "(CapabilitiesNode p, y) \<in> (flow cb cfgs)\<^sup>+"
  shows "\<exists>q. (p, q) \<in> (feeds cb cfgs)\<^sup>* \<and> belongs cb cfgs q y \<and> (y = CapabilitiesNode q \<longrightarrow> (p, q) \<in> (feeds cb cfgs)\<^sup>+)"
proof -
  have onward: "\<exists>q'. (p, q') \<in> (feeds cb cfgs)\<^sup>* \<and> belongs cb cfgs q' v \<and> (v = CapabilitiesNode q' \<longrightarrow> (p, q') \<in> (feeds cb cfgs)\<^sup>+)"
    if q: "(p, q) \<in> (feeds cb cfgs)\<^sup>*" "belongs cb cfgs q u" and e: "data_edge cb cfgs u v" for q u v
    using e
  proof cases
    case (from_receiver pid cfg r)
    then show ?thesis using q by simp
  next
    case (along pid cfg)
    with q have "(p, pid) \<in> (feeds cb cfgs)\<^sup>*" using chain_belongs [of u v pid "pc_Processors cfg"] by metis
    with along show ?thesis using chain_belongs [of u v pid "pc_Processors cfg" cb cfgs] by blast
  next
    case (to_exporter pid cfg e)
    then show ?thesis using q by (intro exI [of _ q]) simp
  next
    case (to_connector c p' r)
    with q(2) have "belongs cb cfgs q v" by simp (metis fst_conv surj_pair)
    with to_connector q(1) show ?thesis by (intro exI [of _ q]) simp
  next
    case (from_connector c p' r')
    then obtain r where "fst p' = fst q" "fst r = fst r'" "carries cb cfgs c q r" using q by auto
    with from_connector have "carries cb cfgs c q r'" using carries_mix by metis
    then have "(q, r') \<in> feeds cb cfgs" by (auto simp: feeds_def)
    with q have "(p, r') \<in> (feeds cb cfgs)\<^sup>+" by simp
    with from_connector show ?thesis by (intro exI [of _ r']) simp
  qed
  show ?thesis
    using assms
  proof (induction rule: trancl_induct)
    case (base y)
    then show ?case using onward [of p "CapabilitiesNode p" y] by simp
  next
    case (step y z)
    then show ?case using onward by (metis flow_iff)
  qed
qed

section \<open>Ranks inside a pipeline\<close>

definition position :: "'a list \<Rightarrow> 'a \<Rightarrow> nat" where
  "position xs x = length (takeWhile (\<lambda>y. y \<noteq> x) xs)"

lemma position_nth: "distinct xs \<Longrightarrow> k < length xs \<Longrightarrow> position xs (xs ! k) = k"
proof (induction xs arbitrary: k)
  case (Cons x xs)
  then show ?case by (cases k) (auto simp: position_def)
qed simp

definition processors_of :: "('c, 'n) pipeline_configs \<Rightarrow> 'n pipeline_id \<Rightarrow> 'c list" where
  "processors_of cfgs pid = (case map_of cfgs pid of Some cfg \<Rightarrow> pc_Processors cfg | None \<Rightarrow> [])"

fun rank :: "('c, 'n) pipeline_configs \<Rightarrow> ('c, 'n) gnode \<Rightarrow> nat" where
  "rank cfgs (ReceiverNode s c) = 0"
| "rank cfgs (CapabilitiesNode pid) = 1"
| "rank cfgs (ProcessorNode pid c) = 2 + position (processors_of cfgs pid) c"
| "rank cfgs (FanOutNode pid) = 2 + length (processors_of cfgs pid)"
| "rank cfgs (ExporterNode s c) = 3 + sum_list (map (\<lambda>(pid, cfg). length (pc_Processors cfg)) cfgs)"
| "rank cfgs (ConnectorNode s t c) = 3 + sum_list (map (\<lambda>(pid, cfg). length (pc_Processors cfg)) cfgs)"

lemma processors_of_config: "distinct (map fst cfgs) \<Longrightarrow> (pid, cfg) \<in> set cfgs \<Longrightarrow> processors_of cfgs pid = pc_Processors cfg"
  by (simp add: processors_of_def)

lemma rank_fanout:
  assumes "distinct (map fst cfgs)" "(pid, cfg) \<in> set cfgs"
  shows "rank cfgs (FanOutNode pid) < rank cfgs (ExporterNode s c)"
proof -
  have "length (pc_Processors cfg) \<in> set (map (\<lambda>(pid, cfg). length (pc_Processors cfg)) cfgs)" using assms(2) by force
  from member_le_sum_list [OF this] show ?thesis using processors_of_config [OF assms] by simp
qed

lemma chain_rank:
  assumes ps: "processors_of cfgs pid = ps" and d: "distinct ps" and uv: "(u, v) \<in> set (chain pid ps)"
  shows "rank cfgs u < rank cfgs v"
proof -
  obtain i where i: "i < Suc (length ps)" and u: "u = (CapabilitiesNode pid # map (ProcessorNode pid) ps) ! i"
    and v: "v = (map (ProcessorNode pid) ps @ [FanOutNode pid]) ! i"
    using uv by (auto simp: in_set_zip)
  have "rank cfgs u = Suc i" using i by (cases i) (simp_all add: u ps position_nth [OF d])
  moreover have "rank cfgs v = Suc (Suc i)"
  proof (cases "i = length ps")
    case True
    then show ?thesis using ps by (simp add: v nth_append)
  next
    case False
    with i show ?thesis by (simp add: v nth_append ps position_nth [OF d])
  qed
  ultimately show ?thesis by simp
qed

lemma flow_rank:
  assumes valid: "valid_configs cfgs" and "data_edge cb cfgs u v" and "\<And>p. v \<noteq> CapabilitiesNode p"
  shows "rank cfgs u < rank cfgs v"
  using assms(2)
proof cases
  case (along pid cfg)
  then show ?thesis
    using chain_rank [OF processors_of_config] valid_distinct [OF valid] valid unfolding valid_configs_def by blast
next
  case (to_exporter pid cfg e)
  then show ?thesis using rank_fanout valid unfolding valid_configs_def by metis
next
  case (to_connector c p q)
  then obtain cfg where "(p, cfg) \<in> set cfgs" using carries_from by metis
  with to_connector rank_fanout [of cfgs p cfg undefined undefined] valid show ?thesis by (simp add: valid_configs_def)
qed (use assms(3) in auto)

lemma cycle_enters_pipeline:
  assumes valid: "valid_configs cfgs" and "(x, y) \<in> (flow cb cfgs)\<^sup>+"
  shows "rank cfgs x < rank cfgs y \<or> (\<exists>p. (x, CapabilitiesNode p) \<in> (flow cb cfgs)\<^sup>+ \<and> (CapabilitiesNode p, y) \<in> (flow cb cfgs)\<^sup>*)"
  using assms(2)
proof (induction rule: trancl_induct)
  case (base y)
  then show ?case using flow_rank [OF valid, of cb x y] by (metis flow_iff r_into_trancl' rtrancl.rtrancl_refl)
next
  case (step y z)
  show ?case
  proof (cases "\<exists>p. z = CapabilitiesNode p")
    case True
    then show ?thesis using step.hyps by (metis rtrancl.rtrancl_refl trancl_into_trancl)
  next
    case False
    then have "rank cfgs y < rank cfgs z" using flow_rank [OF valid, of cb y z] step.hyps(2) by (metis flow_iff)
    with step.IH step.hyps(2) show ?thesis by (meson order.strict_trans rtrancl.rtrancl_into_rtrancl)
  qed
qed

lemma flow_acyclic:
  assumes "valid_configs cfgs"
  shows "acyclic (flow cb cfgs) \<longleftrightarrow> acyclic (feeds cb cfgs)"
proof
  assume a: "acyclic (flow cb cfgs)"
  show "acyclic (feeds cb cfgs)" using a feeds_trancl_connected unfolding acyclic_def by blast
next
  assume a: "acyclic (feeds cb cfgs)"
  show "acyclic (flow cb cfgs)"
  proof (rule ccontr)
    assume "\<not> acyclic (flow cb cfgs)"
    then obtain x where x: "(x, x) \<in> (flow cb cfgs)\<^sup>+" by (auto simp: acyclic_def)
    then obtain p where "(CapabilitiesNode p, CapabilitiesNode p) \<in> (flow cb cfgs)\<^sup>+"
      using cycle_enters_pipeline [OF assms x] by (meson less_irrefl rtrancl_trancl_trancl)
    then have "(p, p) \<in> (feeds cb cfgs)\<^sup>+" using reached_belongs by (metis belongs.simps(5))
    with a show False unfolding acyclic_def by blast
  qed
qed

lemma no_connectors: "(\<And>c. \<not> cb_IsConfigured cb c) \<Longrightarrow> feeds cb cfgs = {}"
  by (auto simp: feeds_def carries_def)

end
