(* ===== verification/ServiceLifecycle.thy ===== *)
theory ServiceLifecycle
  imports GraphCycles
begin

text \<open>
  What a built service promises: which configurations are rejected for a cycle, in which order
  components are started and stopped, and which statuses they are reported to have. The topological
  sort is a parameter that obeys \<open>topo_law\<close>.
\<close>

section \<open>The topological sort\<close>

definition topo_ok :: "'a list \<Rightarrow> ('a \<times> 'a) list \<Rightarrow> 'a list \<Rightarrow> bool" where
  "topo_ok nodes edges ord \<longleftrightarrow> distinct ord \<and> set ord = set nodes \<and> list_all (\<lambda>(u, v). position ord u < position ord v) edges"

definition topo_law :: "('c, 'n) topo_sort \<Rightarrow> ('c, 'n) Graph \<Rightarrow> bool" where
  "topo_law topoSort g \<longleftrightarrow>
     (case topoSort (gr_nodes g) (gr_edges g) of
        None \<Rightarrow> \<not> acyclic (set (gr_edges g))
      | Some ord \<Rightarrow> topo_ok (gr_nodes g) (gr_edges g) ord)"

lemma topo_ok_trancl:
  assumes "topo_ok nodes edges ord" and "(u, v) \<in> (set edges)\<^sup>+"
  shows "position ord u < position ord v"
  using assms(2)
proof (induction rule: trancl_induct)
  case (base y)
  then show ?case using assms(1) by (auto simp: topo_ok_def list_all_iff)
next
  case (step y z)
  then show ?case using assms(1) by (fastforce simp: topo_ok_def list_all_iff)
qed

lemma topo_law_acyclic: "topo_law topoSort g \<Longrightarrow> topoSort (gr_nodes g) (gr_edges g) = None \<longleftrightarrow> \<not> acyclic (set (gr_edges g))"
  unfolding topo_law_def acyclic_def by (auto split: option.splits dest: topo_ok_trancl)

lemma build_nodes_cycle: "build_nodes build nodes \<noteq> Some CycleDetected"
  by (induction nodes) (auto split: option.splits)

text \<open>A component that is built is fed by, or feeds, what the configuration says.\<close>

lemma Build_flow:
  fixes build :: "('c, 'n) gnode \<Rightarrow> 'e option"
  assumes "valid_configs cfgs" and "Build topoSort cb build cfgs = (Some g, err)"
  shows "set (gr_edges g) = flow cb cfgs" and "err = buildComponents topoSort build g"
proof -
  from assms(2) obtain g0 where g0: "createNodes cb cfgs (newGraph cfgs) = (Inr g0 :: ('c, 'n, 'e) build_error + ('c, 'n) Graph)" and g: "g = createEdges g0"
    and "err = buildComponents topoSort build g"
    by (auto simp: Build_def Let_def split: sum.splits)
  then show "err = buildComponents topoSort build g" by simp
  show "set (gr_edges g) = flow cb cfgs"
    unfolding g flow_def by (rule createEdges_data_edges [OF _ g0]) (use assms(1) in \<open>simp add: valid_configs_def\<close>)
qed

lemma Build_ordered:
  assumes valid: "valid_configs cfgs" and build: "Build topoSort cb build cfgs = (Some g, None)" and law: "topo_law topoSort g"
  obtains ord where "topoSort (gr_nodes g) (gr_edges g) = Some ord" and "topo_ok (gr_nodes g) (gr_edges g) ord"
proof (cases "topoSort (gr_nodes g) (gr_edges g)")
  case None
  then show ?thesis using Build_flow(2) [OF valid build] by (simp add: buildComponents_def)
next
  case (Some ord)
  then show ?thesis using law that by (simp add: topo_law_def)
qed

section \<open>Order\<close>

lemma position_split: "distinct (a @ u # b) \<Longrightarrow> position (a @ u # b) u = length a"
  using position_nth [of "a @ u # b" "length a"] by (simp add: nth_append)

lemma position_before: "position (a @ b) x < length a \<longleftrightarrow> x \<in> set a"
  by (induction a) (auto simp: position_def)

lemma filter_split:
  "filter P xs = a @ u # b \<Longrightarrow> \<exists>a' b'. xs = a' @ u # b' \<and> a = filter P a' \<and> b = filter P b'"
proof (induction xs arbitrary: a)
  case (Cons x xs)
  have onward: ?case if "filter P xs = c @ u # b" and "a = filter P [x] @ c" for c
  proof -
    from Cons.IH [OF that(1)] obtain a' b' where "xs = a' @ u # b'" "c = filter P a'" "b = filter P b'" by blast
    with that(2) show ?thesis by (intro exI [of _ "x # a'"] exI [of _ b']) simp
  qed
  show ?case
  proof (cases "P x \<and> a = []")
    case True
    with Cons.prems show ?thesis by (intro exI [of _ "[]"] exI [of _ xs]) simp
  next
    case False
    show ?thesis
    proof (rule onward)
      show "filter P xs = (if P x then tl a else a) @ u # b" "a = filter P [x] @ (if P x then tl a else a)"
        using Cons.prems False by (cases a; auto split: if_splits)+
    qed
  qed
qed simp

text \<open>In the order of starting every node that data reaches from \<open>u\<close> comes before \<open>u\<close>; in the order of stopping the other way round.\<close>

lemma downstream_first:
  assumes ok: "topo_ok nodes edges ord" and uv: "(u, v) \<in> (set edges)\<^sup>+" and v: "v \<in> set nodes" "P v"
    and split: "filter P (rev ord) = a @ u # b"
  shows "v \<in> set a"
proof -
  obtain a' b' where "rev ord = a' @ u # b'" and a: "a = filter P a'" using filter_split [OF split] by blast
  then have ord: "ord = rev b' @ u # rev a'" by (metis append_Cons append_Nil append_assoc rev.simps(2) rev_append rev_rev_ident)
  have "distinct ord" and vo: "v \<in> set ord" using ok v by (auto simp: topo_ok_def)
  have "position ord u = length b'" using position_split [of "rev b'" u "rev a'"] \<open>distinct ord\<close> ord by simp
  with topo_ok_trancl [OF ok uv] have "\<not> position ord v < length (rev b' @ [u])" by simp
  then have "v \<notin> set (rev b' @ [u])" using position_before [of "rev b' @ [u]" "rev a'" v] ord by simp
  with vo ord v a show ?thesis by auto
qed

lemma upstream_first:
  assumes ok: "topo_ok nodes edges ord" and uv: "(u, v) \<in> (set edges)\<^sup>+" and u: "u \<in> set nodes" "P u"
    and split: "filter P ord = a @ v # b"
  shows "u \<in> set a"
proof -
  obtain a' b' where ord: "ord = a' @ v # b'" and a: "a = filter P a'" using filter_split [OF split] by blast
  have "distinct ord" using ok by (simp add: topo_ok_def)
  then have "position ord v = length a'" using position_split [of a' v b'] ord by simp
  with topo_ok_trancl [OF ok uv] have "u \<in> set a'" using position_before [of a' "v # b'" u] ord by simp
  with u a show ?thesis by simp
qed

section \<open>The calls made\<close>

fun start_calls :: "('i, 'e) behaviour \<Rightarrow> 'i list \<Rightarrow> 'i lifecycle_call list" where
  "start_calls start [] = []"
| "start_calls start (n # ns) = (if snd (start n) = None then StartCall n True # start_calls start ns else [StartCall n False])"

lemma report_calls [simp]: "ho_calls (report i ev h) = ho_calls h"
  by (simp add: report_def)

lemma fold_report_calls [simp]: "ho_calls (fold (report i) evs h) = ho_calls h"
  by (induction evs arbitrary: h) simp_all

lemma start_nodes_calls:
  "ho_calls (snd (start_nodes start ns h)) = ho_calls h @ start_calls start (filter is_component ns)"
  "fst (start_nodes start ns h) = None \<longleftrightarrow> (\<forall>n \<in> set ns. is_component n \<longrightarrow> snd (start n) = None)"
proof (induction ns arbitrary: h)
  case (Cons n ns)
  obtain own err where n: "start n = (own, err)" by (cases "start n")
  case 1
  show ?case using Cons n by (cases err) (simp_all add: Let_def)
  case 2
  show ?case using Cons n by (cases err) (simp_all add: Let_def)
qed simp_all

lemma start_calls_all: "(\<forall>n \<in> set ns. snd (start n) = None) \<Longrightarrow> start_calls start ns = map (\<lambda>n. StartCall n True) ns"
  by (induction ns) auto

lemma start_calls_split:
  "start_calls start ns = a @ StartCall u ok # b \<Longrightarrow>
   \<exists>c d. ns = c @ u # d \<and> a = map (\<lambda>n. StartCall n True) c \<and> ok = (snd (start u) = None)"
proof (induction ns arbitrary: a)
  case (Cons n ns)
  show ?case
  proof (cases a)
    case Nil
    with Cons.prems have "n = u \<and> ok = (snd (start u) = None)" by (auto split: if_splits)
    with Nil show ?thesis by (intro exI [of _ "[]"] exI [of _ ns]) simp
  next
    case (Cons x a')
    then have x: "x = StartCall n True" and "start_calls start ns = a' @ StartCall u ok # b"
      using Cons.prems by (auto split: if_splits)
    from Cons.IH [OF this(2)] obtain c d where "ns = c @ u # d" "a' = map (\<lambda>n. StartCall n True) c" "ok = (snd (start u) = None)" by blast
    with x Cons show ?thesis by (intro exI [of _ "n # c"] exI [of _ d]) simp
  qed
qed simp

lemma start_calls_distinct: "distinct ns \<Longrightarrow> distinct (start_calls start ns)"
proof (induction ns)
  case (Cons n ns)
  have "StartCall n True \<notin> set (start_calls start ns)"
    using Cons.prems start_calls_split [of start ns _ n True] split_list [of "StartCall n True" "start_calls start ns"] by fastforce
  with Cons show ?case by simp
qed simp

lemma stop_nodes_calls:
  "ho_calls (snd (stop_nodes stop ns (errs, h))) = ho_calls h @ map ShutdownCall (filter is_component ns)"
  "fst (stop_nodes stop ns (errs, h)) = errs @ List.map_filter (snd \<circ> stop) (filter is_component ns)"
proof (induction ns arbitrary: errs h)
  case (Cons n ns)
  obtain own err where n: "stop n = (own, err)" by (cases "stop n")
  case 1
  show ?case using Cons n by (cases err) (simp_all add: Let_def)
  case 2
  show ?case using Cons n by (cases err) (simp_all add: Let_def map_filter_simps)
qed (simp_all add: map_filter_simps)

section \<open>The statuses reported\<close>

lemma fold_report_ok: "reporter_ok (ho_reporter h) \<Longrightarrow> reporter_ok (ho_reporter (fold (report i) evs h))"
  by (induction evs arbitrary: h) (simp_all add: report_def ReportStatus_ok)

lemma report_reporter [simp]: "ho_reporter (report i ev h) = ReportStatus i ev (ho_reporter h)"
  by (simp add: report_def)

lemma start_nodes_ok: "reporter_ok (ho_reporter h) \<Longrightarrow> reporter_ok (ho_reporter (snd (start_nodes start ns h)))"
proof (induction ns arbitrary: h)
  case (Cons n ns)
  obtain own err where n: "start n = (own, err)" by (cases "start n")
  have "reporter_ok (ho_reporter (fold (report n) own (report n (NewEvent StatusStarting) h)))"
    using Cons.prems by (simp add: fold_report_ok ReportStatus_ok)
  then show ?case using Cons n by (cases err) (simp_all add: ReportStatus_ok ReportOKIfStarting_ok Let_def)
qed simp

lemma stop_nodes_ok: "reporter_ok (ho_reporter h) \<Longrightarrow> reporter_ok (ho_reporter (snd (stop_nodes stop ns (errs, h))))"
proof (induction ns arbitrary: errs h)
  case (Cons n ns)
  obtain own err where n: "stop n = (own, err)" by (cases "stop n")
  have "reporter_ok (ho_reporter (fold (report n) own (report n (NewEvent StatusStopping) h)))"
    using Cons.prems by (simp add: fold_report_ok ReportStatus_ok)
  then show ?case using Cons n by (cases err) (simp_all add: ReportStatus_ok Let_def)
qed simp

text \<open>Components that report nothing of their own while they start and stop.\<close>

lemma start_nodes_history:
  assumes "\<And>n. fst (start n) = []" and "reporter_ok (ho_reporter h)" and "distinct ns"
    and "\<forall>n \<in> set ns. is_component n \<longrightarrow> history n (ho_reporter h) = []"
  shows "history j (ho_reporter (snd (start_nodes start ns h))) =
     (if StartCall j True \<in> set (start_calls start (filter is_component ns)) then [StatusStarting, StatusOK]
      else if StartCall j False \<in> set (start_calls start (filter is_component ns)) then [StatusStarting, StatusPermanentError]
      else history j (ho_reporter h))"
  using assms(2-)
proof (induction ns arbitrary: h)
  case (Cons n ns)
  show ?case
  proof (cases "is_component n")
    case False
    with Cons show ?thesis by simp
  next
    case True
    obtain err where n: "start n = ([], err)" using assms(1) [of n] by (cases "start n") simp
    let ?r1 = "ReportStatus n (NewEvent StatusStarting) (ho_reporter h)"
    have r1: "reporter_ok ?r1" "history i ?r1 = (if i = n then [StatusStarting] else history i (ho_reporter h))" for i
      using Cons.prems True by (simp_all add: ReportStatus_ok ReportStatus_history_ok)
    have st: "ev_status (componentFSM n ?r1) = StatusStarting" using reporter_okD [OF r1(1), of n] r1(2) by simp
    show ?thesis
    proof (cases err)
      case (Some e)
      have nin: "StartCall n ok \<notin> set (start_calls start ns')" if "n \<notin> set ns'" for ok ns'
        using that by (induction ns') auto
      show ?thesis using True n Some r1 by (simp add: ReportStatus_history_ok)
    next
      case None
      let ?h = "h\<lparr>ho_calls := ho_calls h @ [StartCall n True], ho_reporter := ReportOKIfStarting n ?r1\<rparr>"
      have eq: "start_nodes start (n # ns) h = start_nodes start ns ?h"
        using True n None by (simp add: report_def)
      have ok: "ReportOKIfStarting n ?r1 = ReportStatus n (NewEvent StatusOK) ?r1" by (simp add: ReportOKIfStarting_def st)
      have r2: "reporter_ok (ho_reporter ?h)"
        "history i (ho_reporter ?h) = (if i = n then [StatusStarting, StatusOK] else history i (ho_reporter h))" for i
        using r1 by (simp_all add: ok ReportStatus_ok ReportStatus_history_ok)
      have notin: "StartCall n b \<notin> set (start_calls start (filter is_component ns))" for b
      proof
        assume "StartCall n b \<in> set (start_calls start (filter is_component ns))"
        from split_list [OF this] start_calls_split have "n \<in> set (filter is_component ns)" by fastforce
        with Cons.prems(2) show False by simp
      qed
      have "\<forall>m \<in> set ns. is_component m \<longrightarrow> history m (ho_reporter ?h) = []"
        using Cons.prems r2(2) by auto
      from Cons.IH [OF r2(1) _ this] Cons.prems(2) show ?thesis
        unfolding eq r2(2) using True n None notin by auto
    qed
  qed
qed simp

lemma status_path_not_none: "status_path s ts \<Longrightarrow> StatusNone \<notin> set ts"
proof (induction ts arbitrary: s)
  case (Cons t ts)
  then show ?case by (cases s) auto
qed simp

lemma stop_nodes_history:
  assumes "\<And>n. fst (stop n) = []" and "reporter_ok (ho_reporter h)" and "distinct ns"
    and "\<forall>n \<in> set ns. is_component n \<longrightarrow> last (StatusNone # history n (ho_reporter h)) \<in> {StatusNone, StatusOK, StatusPermanentError}"
  shows "history j (ho_reporter (snd (stop_nodes stop ns (errs, h)))) = history j (ho_reporter h) @
     (if j \<in> set ns \<and> is_component j \<and> history j (ho_reporter h) \<noteq> []
      then [StatusStopping, if snd (stop j) = None then StatusStopped else StatusPermanentError] else [])"
  using assms(2-)
proof (induction ns arbitrary: errs h)
  case (Cons n ns)
  show ?case
  proof (cases "is_component n")
    case False
    with Cons show ?thesis by auto
  next
    case True
    obtain err where n: "stop n = ([], err)" using assms(1) [of n] by (cases "stop n") simp
    define final where "final = (case err of None \<Rightarrow> NewEvent StatusStopped | Some e \<Rightarrow> NewPermanentErrorEvent e)"
    let ?r1 = "ReportStatus n (NewEvent StatusStopping) (ho_reporter h)"
    let ?h = "h\<lparr>ho_calls := ho_calls h @ [ShutdownCall n], ho_reporter := ReportStatus n final ?r1\<rparr>"
    let ?errs = "errs @ (case err of None \<Rightarrow> [] | Some e \<Rightarrow> [e])"
    have eq: "stop_nodes stop (n # ns) (errs, h) = stop_nodes stop ns (?errs, ?h)"
      using True n by (cases err) (simp_all add: report_def final_def)
    have last: "last (StatusNone # history n (ho_reporter h)) \<in> {StatusNone, StatusOK, StatusPermanentError}"
      using Cons.prems(3) True by simp
    have fin: "ev_status final = (if err = None then StatusStopped else StatusPermanentError)"
      by (cases err) (simp_all add: final_def)
    have none: "last (StatusNone # history n (ho_reporter h)) = StatusNone \<longleftrightarrow> history n (ho_reporter h) = []"
      using status_path_not_none [of StatusNone "history n (ho_reporter h)"] Cons.prems(1) by (auto simp: reporter_ok_def) (metis last_in_set)
    have r1: "reporter_ok ?r1" "history i ?r1 = history i (ho_reporter h) @
        (if i = n \<and> history n (ho_reporter h) \<noteq> [] then [StatusStopping] else [])" for i
      using Cons.prems(1) last none by (auto simp: ReportStatus_ok ReportStatus_history_ok)
    have r2: "reporter_ok (ho_reporter ?h)"
      "history i (ho_reporter ?h) = history i (ho_reporter h) @
        (if i = n \<and> history n (ho_reporter h) \<noteq> [] then [StatusStopping, ev_status final] else [])" for i
      using r1 by (auto simp: ReportStatus_ok ReportStatus_history_ok fin)
    have "\<forall>m \<in> set ns. is_component m \<longrightarrow> last (StatusNone # history m (ho_reporter ?h)) \<in> {StatusNone, StatusOK, StatusPermanentError}"
      using Cons.prems(2,3) r2(2) by auto
    from Cons.IH [OF r2(1) _ this] Cons.prems(2) show ?thesis
      unfolding eq r2(2) using True n by (auto simp: fin)
  qed
qed simp

end
