(* ===== verification/ServiceSystem.thy ===== *)
theory ServiceSystem
  imports ServiceLifecycle
begin

text \<open>
  The properties of the component graph and of a run of the service, with their instances on a
  service of two pipelines joined by a connector.
\<close>

section \<open>A service with two pipelines\<close>

definition demo_cb :: "nat ConnectorBuilder" where
  "demo_cb = \<lparr>cb_IsConfigured = (\<lambda>c. c = 9), cb_Factory = (\<lambda>c. Some
     \<lparr>cf_stability = (\<lambda>s t. StabilityLevelBeta), cf_xconnector = False\<rparr>)\<rparr>"

definition demo_cfgs :: "(nat, nat) pipeline_configs" where
  "demo_cfgs = [((SignalTraces, 0), \<lparr>pc_Receivers = [1], pc_Processors = [2], pc_Exporters = [9]\<rparr>),
                ((SignalLogs, 0), \<lparr>pc_Receivers = [9], pc_Processors = [], pc_Exporters = [3]\<rparr>)]"

definition demo_order :: "(nat, nat) gnode list" where
  "demo_order = [ReceiverNode SignalTraces 1, CapabilitiesNode (SignalTraces, 0), ProcessorNode (SignalTraces, 0) 2,
     FanOutNode (SignalTraces, 0), ConnectorNode SignalTraces SignalLogs 9, CapabilitiesNode (SignalLogs, 0),
     FanOutNode (SignalLogs, 0), ExporterNode SignalLogs 3]"

definition demo_topo :: "(nat, nat) topo_sort" where
  "demo_topo nodes edges = Some demo_order"

definition demo_graph :: "(nat, nat) Graph" where
  "demo_graph = the (fst (Build demo_topo demo_cb (\<lambda>n. None :: nat option) demo_cfgs))"

lemma demo_valid: "valid_configs demo_cfgs"
  by code_simp

lemma demo_build: "Build demo_topo demo_cb (\<lambda>n. None :: nat option) demo_cfgs = (Some demo_graph, None)"
  unfolding demo_graph_def by code_simp

lemma demo_law: "topo_law demo_topo demo_graph"
proof -
  have "topo_ok (gr_nodes demo_graph) (gr_edges demo_graph) demo_order" unfolding demo_graph_def by code_simp
  then show ?thesis by (simp add: topo_law_def demo_topo_def)
qed

text \<open>The same pipelines with a connector back to the first.\<close>

definition demo_loop :: "(nat, nat) pipeline_configs" where
  "demo_loop = [((SignalTraces, 0), \<lparr>pc_Receivers = [9], pc_Processors = [2], pc_Exporters = [9]\<rparr>)]"

definition demo_cycle :: "(nat, nat) gnode list" where
  "demo_cycle = [ProcessorNode (SignalTraces, 0) 2, FanOutNode (SignalTraces, 0), ConnectorNode SignalTraces SignalTraces 9,
     CapabilitiesNode (SignalTraces, 0), ProcessorNode (SignalTraces, 0) 2]"

section \<open>The graph\<close>

text \<open>
  C27. The graph that is built has exactly the edges the configuration describes: a receiver feeds
  every pipeline that lists it, a pipeline hands its data through its processors in their order to
  each of its exporters, and a connector takes data from each pipeline that lists it as exporter to
  each that lists it as receiver whenever it supports the pair of signals.
\<close>

theorem graph_is_the_configuration:
  assumes "valid_configs cfgs" and "fst (Build topoSort cb build cfgs) = Some g"
  shows "set (gr_edges g) = {(u, v). data_edge cb cfgs u v}"
  using Build_flow(1) [OF assms(1)] assms(2) unfolding flow_def by (metis prod.collapse)

theorem graph_is_the_configuration_witness:
  "set (gr_edges demo_graph) = {(u, v). data_edge demo_cb demo_cfgs u v} \<and> length (gr_edges demo_graph) = 7"
proof
  show "set (gr_edges demo_graph) = {(u, v). data_edge demo_cb demo_cfgs u v}"
    by (rule graph_is_the_configuration [OF demo_valid, of demo_topo _ "\<lambda>n. None :: nat option"]) (simp add: demo_build)
  show "length (gr_edges demo_graph) = 7" unfolding demo_graph_def by code_simp
qed

section \<open>Cycles\<close>

definition closed_walk :: "('a \<times> 'a) set \<Rightarrow> 'a list \<Rightarrow> bool" where
  "closed_walk E w \<longleftrightarrow> 2 \<le> length w \<and> hd w = last w \<and> list_all (\<lambda>e. e \<in> E) (zip (butlast w) (tl w))"

lemma closed_walkE:
  assumes "closed_walk E w"
  obtains n where "length w = Suc n" "0 < n" "w ! n = w ! 0" "\<And>i. i < n \<Longrightarrow> (w ! i, w ! Suc i) \<in> E"
proof -
  obtain n where n: "length w = Suc n" "0 < n"
    using assms by (cases "length w") (auto simp: closed_walk_def)
  have "w \<noteq> []" using n by auto
  with assms n have "w ! n = w ! 0" by (simp add: closed_walk_def hd_conv_nth last_conv_nth)
  moreover have "(w ! i, w ! Suc i) \<in> E" if "i < n" for i
    using assms n that by (auto simp: closed_walk_def list_all_length nth_butlast nth_tl)
  ultimately show ?thesis using n that by blast
qed

lemma closed_walk_cyclic: "closed_walk E w \<Longrightarrow> \<not> acyclic E"
proof (elim closed_walkE)
  fix n assume n: "0 < n" "w ! n = w ! 0" and e: "\<And>i. i < n \<Longrightarrow> (w ! i, w ! Suc i) \<in> E"
  have "(w ! 0, w ! Suc i) \<in> E\<^sup>+" if "i < n" for i
    using that by (induction i) (auto intro: e trancl_into_trancl)
  from this [of "n - 1"] n show "\<not> acyclic E" by (auto simp: acyclic_def)
qed

lemma into_capabilities: "data_edge cb cfgs u (CapabilitiesNode p) \<Longrightarrow> is_connector u \<or> (\<exists>s c. u = ReceiverNode s c)"
  by (erule data_edge.cases) (auto dest: set_zip_rightD)

lemma into_receiver: "\<not> data_edge cb cfgs u (ReceiverNode s c)"
  by (auto elim!: data_edge.cases dest: set_zip_rightD)

lemma closed_walk_connector:
  assumes valid: "valid_configs cfgs" and w: "closed_walk (flow cb cfgs) w"
  shows "list_ex is_connector (butlast w)"
proof (rule ccontr)
  assume no: "\<not> list_ex is_connector (butlast w)"
  obtain n where n: "length w = Suc n" "0 < n" and first: "w ! n = w ! 0"
    and edge: "\<And>i. i < n \<Longrightarrow> data_edge cb cfgs (w ! i) (w ! Suc i)"
    using w by (rule closed_walkE) (use flow_iff in \<open>metis\<close>)
  have before: "\<exists>j < n. data_edge cb cfgs (w ! j) (w ! i)" if "i \<le> n" for i
  proof (cases i)
    case 0
    have "data_edge cb cfgs (w ! (n - 1)) (w ! i)" using edge [of "n - 1"] first n 0 by simp
    then show ?thesis using n by (intro exI [of _ "n - 1"]) simp
  next
    case (Suc k)
    then show ?thesis using edge [of k] that by (intro exI [of _ k]) simp
  qed
  have conn: "\<not> is_connector (w ! i)" if "i < n" for i
    using no that n nth_mem [of i "butlast w"] by (auto simp: list_ex_iff nth_butlast)
  have cap: "w ! i \<noteq> CapabilitiesNode p" if i: "i \<le> n" for i p
  proof
    assume "w ! i = CapabilitiesNode p"
    with before [OF i] into_capabilities conn obtain j s c where "j < n" "w ! j = ReceiverNode s c" by metis
    with before [of j] into_receiver show False by (metis less_imp_le)
  qed
  have "rank cfgs (w ! 0) + i \<le> rank cfgs (w ! i)" if "i \<le> n" for i
    using that
  proof (induction i)
    case (Suc i)
    then have "rank cfgs (w ! i) < rank cfgs (w ! Suc i)" using flow_rank [OF valid edge] cap by simp
    with Suc show ?case by simp
  qed simp
  from this [of n] first n show False by simp
qed

lemma cycle_details_append: "cycle_details (xs @ ys) = cycle_details xs @ cycle_details ys"
  by (induction xs rule: cycle_details.induct) auto

lemma rotated_details:
  assumes "list_ex is_connector w"
  shows "\<exists>c s t mid. cycle_details (rotate_to_connector w @ [hd (rotate_to_connector w)]) = ConnectorDetail c s t # mid @ [ConnectorDetail c s t]"
proof -
  obtain n ns where d: "dropWhile (\<lambda>n. \<not> is_connector n) w = n # ns" "is_connector n"
    using assms by (metis dropWhile_eq_Nil_conv hd_dropWhile list.exhaust_sel list_ex_iff)
  then obtain s t c where "n = ConnectorNode s t c" by (cases n) auto
  with d assms show ?thesis by (auto simp: rotate_to_connector_def cycle_details_append)
qed

text \<open>
  C28. A valid configuration is rejected for a cycle exactly when its pipelines feed each other in a
  cycle through connectors, and the message of whatever cycle of the graph is reported names a
  connector first and last.
\<close>

theorem cycle_detected_iff:
  assumes "valid_configs cfgs" and "Build topoSort cb build cfgs = (Some g, err)" and "topo_law topoSort g"
    and "list_all (closed_walk (set (gr_edges g))) cycles"
  shows "(err = Some CycleDetected \<longleftrightarrow> \<not> acyclic (feeds cb cfgs)) \<and>
    (cycles = [] \<or> (\<exists>c s t mid. cycleErr cycles = Some (ConnectorDetail c s t # mid @ [ConnectorDetail c s t])))"
proof
  note flow = Build_flow [OF assms(1,2)]
  have "err = Some CycleDetected \<longleftrightarrow> topoSort (gr_nodes g) (gr_edges g) = None"
    using flow(2) build_nodes_cycle [of build] by (auto simp: buildComponents_def split: option.splits)
  then show "err = Some CycleDetected \<longleftrightarrow> \<not> acyclic (feeds cb cfgs)"
    using topo_law_acyclic [OF assms(3)] flow_acyclic [OF assms(1)] flow(1) by simp
  show "cycles = [] \<or> (\<exists>c s t mid. cycleErr cycles = Some (ConnectorDetail c s t # mid @ [ConnectorDetail c s t]))"
  proof (cases cycles)
    case (Cons cycle rest)
    then have w: "closed_walk (flow cb cfgs) cycle" using assms(4) flow(1) by simp
    from rotated_details [OF closed_walk_connector [OF assms(1) w]] Cons w show ?thesis
      by (auto simp: cycleErr_def Let_def closed_walk_def)
  qed simp
qed

definition demo_loop_graph :: "(nat, nat) Graph" where
  "demo_loop_graph = the (fst (Build (\<lambda>nodes edges. None) demo_cb (\<lambda>n. None :: nat option) demo_loop))"

theorem cycle_detected_iff_witness:
  "\<not> acyclic (feeds demo_cb demo_loop) \<and>
   snd (Build (\<lambda>nodes edges. None) demo_cb (\<lambda>n. None :: nat option) demo_loop) = Some CycleDetected \<and>
   cycleErr [demo_cycle] = Some [ConnectorDetail 9 SignalTraces SignalTraces, ProcessorDetail 2 (SignalTraces, 0),
     ConnectorDetail 9 SignalTraces SignalTraces]"
proof -
  have b: "Build (\<lambda>nodes edges. None) demo_cb (\<lambda>n. None :: nat option) demo_loop = (Some demo_loop_graph, Some CycleDetected)"
    unfolding demo_loop_graph_def by code_simp
  have w: "closed_walk (set (gr_edges demo_loop_graph)) demo_cycle" unfolding demo_loop_graph_def by code_simp
  then have "topo_law (\<lambda>nodes edges. None) demo_loop_graph" by (simp add: topo_law_def closed_walk_cyclic)
  moreover have "valid_configs demo_loop" by code_simp
  moreover have "cycleErr [demo_cycle] = Some [ConnectorDetail 9 SignalTraces SignalTraces, ProcessorDetail 2 (SignalTraces, 0),
     ConnectorDetail 9 SignalTraces SignalTraces]"
    by code_simp
  ultimately show ?thesis
    using cycle_detected_iff [OF _ b, of "[demo_cycle]"] w b by simp
qed

section \<open>Starting and stopping\<close>

text \<open>
  A built service starts each component only after every component that its data can reach has
  started without an error, and starts all of them, once each, unless one fails.
\<close>

lemma starts_in_order:
  assumes "valid_configs cfgs" and "Build topoSort cb build cfgs = (Some g, None)" and "topo_law topoSort g"
  shows "\<exists>err h' new. StartAll topoSort start g h = Some (err, h') \<and> ho_calls h' = ho_calls h @ new \<and> distinct new \<and>
    (\<forall>a u ok b. new = a @ StartCall u ok # b \<longrightarrow>
       (\<forall>v \<in> set (gr_nodes g). is_component v \<and> (u, v) \<in> (flow cb cfgs)\<^sup>+ \<longrightarrow> StartCall v True \<in> set a)) \<and>
    (err = None \<longrightarrow> set new = (\<lambda>n. StartCall n True) ` {n \<in> set (gr_nodes g). is_component n})"
proof -
  obtain ord where ord: "topoSort (gr_nodes g) (gr_edges g) = Some ord" and ok: "topo_ok (gr_nodes g) (gr_edges g) ord"
    using Build_ordered [OF assms] .
  let ?run = "start_nodes start (rev ord) h" and ?new = "start_calls start (filter is_component (rev ord))"
  have d: "distinct ord" and s: "set ord = set (gr_nodes g)" using ok by (simp_all add: topo_ok_def)
  have "StartCall v True \<in> set a" if new: "?new = a @ StartCall u ok # b"
    and v: "v \<in> set (gr_nodes g)" "is_component v" and uv: "(u, v) \<in> (flow cb cfgs)\<^sup>+" for a u ok b v
  proof -
    obtain c e where "filter is_component (rev ord) = c @ u # e" and a: "a = map (\<lambda>n. StartCall n True) c"
      using start_calls_split [OF new] by blast
    with downstream_first [OF ok, of u v is_component c e] uv v Build_flow(1) [OF assms(1,2)] have "v \<in> set c" by simp
    with a show ?thesis by simp
  qed
  moreover have "set ?new = (\<lambda>n. StartCall n True) ` {n \<in> set (gr_nodes g). is_component n}" if "fst ?run = None"
    using that start_calls_all [of "filter is_component (rev ord)" start] s by (auto simp: start_nodes_calls)
  moreover have "distinct ?new" using d by (intro start_calls_distinct) simp
  ultimately show ?thesis
    unfolding StartAll_def ord
    by (intro exI [of _ "fst ?run"] exI [of _ "snd ?run"] exI [of _ ?new]) (simp add: start_nodes_calls)
qed

text \<open>
  A built service shuts every component down exactly once, whether or not some fail, each only
  after every component from which data can reach it, and returns the errors of all.
\<close>

lemma stops_in_order:
  assumes "valid_configs cfgs" and "Build topoSort cb build cfgs = (Some g, None)" and "topo_law topoSort g"
  shows "\<exists>errs h' cs. ShutdownAll topoSort stop g h = Some (errs, h') \<and> ho_calls h' = ho_calls h @ map ShutdownCall cs \<and>
    distinct cs \<and> set cs = {n \<in> set (gr_nodes g). is_component n} \<and> errs = List.map_filter (snd \<circ> stop) cs \<and>
    (\<forall>a v b. cs = a @ v # b \<longrightarrow> (\<forall>u \<in> set (gr_nodes g). is_component u \<and> (u, v) \<in> (flow cb cfgs)\<^sup>+ \<longrightarrow> u \<in> set a))"
proof -
  obtain ord where ord: "topoSort (gr_nodes g) (gr_edges g) = Some ord" and ok: "topo_ok (gr_nodes g) (gr_edges g) ord"
    using Build_ordered [OF assms] .
  let ?run = "stop_nodes stop ord ([], h)" and ?cs = "filter is_component ord"
  have "distinct ?cs" "set ?cs = {n \<in> set (gr_nodes g). is_component n}" using ok by (auto simp: topo_ok_def)
  moreover have "u \<in> set a" if "?cs = a @ v # b" "u \<in> set (gr_nodes g)" "is_component u" "(u, v) \<in> (flow cb cfgs)\<^sup>+" for a v b u
    using upstream_first [OF ok, of u v is_component a b] that Build_flow(1) [OF assms(1,2)] by simp
  ultimately show ?thesis
    unfolding ShutdownAll_def ord
    by (intro exI [of _ "fst ?run"] exI [of _ "snd ?run"] exI [of _ ?cs]) (simp add: stop_nodes_calls prod_eq_iff)
qed

text \<open>
  C29. A built service starts each component only after every component that its data can reach has
  started without an error, and starts all of them, once each, unless one fails. It shuts every
  component down exactly once, whether or not some fail, each only after every component from which
  data can reach it, and returns the errors of all.
\<close>

theorem starts_downstream_stops_upstream:
  assumes "valid_configs cfgs" and "Build topoSort cb build cfgs = (Some g, None)" and "topo_law topoSort g"
  shows "(\<exists>err h' new. StartAll topoSort start g h = Some (err, h') \<and> ho_calls h' = ho_calls h @ new \<and> distinct new \<and>
      (\<forall>a u ok b. new = a @ StartCall u ok # b \<longrightarrow>
         (\<forall>v \<in> set (gr_nodes g). is_component v \<and> (u, v) \<in> (flow cb cfgs)\<^sup>+ \<longrightarrow> StartCall v True \<in> set a)) \<and>
      (err = None \<longrightarrow> set new = (\<lambda>n. StartCall n True) ` {n \<in> set (gr_nodes g). is_component n})) \<and>
    (\<exists>errs h' cs. ShutdownAll topoSort stop g h = Some (errs, h') \<and> ho_calls h' = ho_calls h @ map ShutdownCall cs \<and>
      distinct cs \<and> set cs = {n \<in> set (gr_nodes g). is_component n} \<and> errs = List.map_filter (snd \<circ> stop) cs \<and>
      (\<forall>a v b. cs = a @ v # b \<longrightarrow> (\<forall>u \<in> set (gr_nodes g). is_component u \<and> (u, v) \<in> (flow cb cfgs)\<^sup>+ \<longrightarrow> u \<in> set a)))"
  by (rule conjI [OF starts_in_order [OF assms] stops_in_order [OF assms]])

definition fresh_host :: "('i, 'e) host" where
  "fresh_host = \<lparr>ho_reporter = NewReporter, ho_calls = []\<rparr>"

text \<open>
  C30. From the start to the shutdown of a service the statuses reported for a component go along
  the transitions of the state machine, whatever it reports of its own and whichever calls fail.
  Components that report nothing of their own are seen starting and OK or in permanent error,
  then stopping and stopped or in permanent error; those that were never started have no status.
\<close>

theorem statuses_of_a_run:
  assumes "valid_configs cfgs" and "Build topoSort cb build cfgs = (Some g, None)" and "topo_law topoSort g"
    and "StartAll topoSort start g fresh_host = Some (err, h1)" and "ShutdownAll topoSort stop g h1 = Some (errs, h2)"
  shows "status_path StatusNone (history v (ho_reporter h2)) \<and>
    ((\<forall>n. fst (start n) = [] \<and> fst (stop n) = []) \<and> v \<in> set (gr_nodes g) \<and> is_component v \<longrightarrow>
      history v (ho_reporter h2) =
        (if StartCall v True \<in> set (ho_calls h1) then [StatusStarting, StatusOK, StatusStopping]
         else if StartCall v False \<in> set (ho_calls h1) then [StatusStarting, StatusPermanentError, StatusStopping] else []) @
        (if {StartCall v True, StartCall v False} \<inter> set (ho_calls h1) = {} then []
         else if snd (stop v) = None then [StatusStopped] else [StatusPermanentError]))"
proof -
  obtain ord where ord: "topoSort (gr_nodes g) (gr_edges g) = Some ord" and ok: "topo_ok (gr_nodes g) (gr_edges g) ord"
    using Build_ordered [OF assms(1-3)] .
  have d: "distinct ord" and s: "set ord = set (gr_nodes g)" using ok by (simp_all add: topo_ok_def)
  have h1: "h1 = snd (start_nodes start (rev ord) fresh_host)" and h2: "h2 = snd (stop_nodes stop ord ([], h1))"
    using assms(4,5) by (auto simp: StartAll_def ShutdownAll_def ord)
  have new: "history n (ho_reporter fresh_host) = []" "reporter_ok (ho_reporter fresh_host)" for n
    by (simp_all add: fresh_host_def NewReporter_def history_def) (simp add: NewReporter_def [symmetric])
  have ok1: "reporter_ok (ho_reporter h1)" unfolding h1 by (rule start_nodes_ok) (rule new)
  have "reporter_ok (ho_reporter h2)" unfolding h2 by (rule stop_nodes_ok) (rule ok1)
  moreover have "history v (ho_reporter h2) =
        (if StartCall v True \<in> set (ho_calls h1) then [StatusStarting, StatusOK, StatusStopping]
         else if StartCall v False \<in> set (ho_calls h1) then [StatusStarting, StatusPermanentError, StatusStopping] else []) @
        (if {StartCall v True, StartCall v False} \<inter> set (ho_calls h1) = {} then []
         else if snd (stop v) = None then [StatusStopped] else [StatusPermanentError])"
    if quiet: "\<forall>n. fst (start n) = [] \<and> fst (stop n) = []" and v: "v \<in> set (gr_nodes g)" "is_component v"
  proof -
    have calls: "ho_calls h1 = start_calls start (filter is_component (rev ord))"
      unfolding h1 by (simp add: start_nodes_calls fresh_host_def)
    have hist1: "history n (ho_reporter h1) =
        (if StartCall n True \<in> set (ho_calls h1) then [StatusStarting, StatusOK]
         else if StartCall n False \<in> set (ho_calls h1) then [StatusStarting, StatusPermanentError] else [])" for n
      unfolding calls unfolding h1 using quiet d new by (subst start_nodes_history) auto
    have "history v (ho_reporter h2) = history v (ho_reporter h1) @
        (if history v (ho_reporter h1) \<noteq> []
         then [StatusStopping, if snd (stop v) = None then StatusStopped else StatusPermanentError] else [])"
      unfolding h2 using quiet d ok1 v s by (subst stop_nodes_history) (auto simp: hist1)
    then show ?thesis unfolding hist1 by auto
  qed
  ultimately show ?thesis unfolding reporter_ok_def by blast
qed

text \<open>The exporter starts; the connector fails to start, so nothing above it is started; the exporter fails to stop.\<close>

definition demo_start :: "((nat, nat) gnode, nat) behaviour" where
  "demo_start n = ([], if n = ConnectorNode SignalTraces SignalLogs 9 then Some 7 else None)"

definition demo_stop :: "((nat, nat) gnode, nat) behaviour" where
  "demo_stop n = ([], if n = ExporterNode SignalLogs 3 then Some 8 else None)"

definition demo_started :: "((nat, nat) gnode, nat) host" where
  "demo_started = snd (start_nodes demo_start (rev demo_order) fresh_host)"

definition demo_stopped :: "((nat, nat) gnode, nat) host" where
  "demo_stopped = snd (stop_nodes demo_stop demo_order ([], demo_started))"

lemma demo_starting:
  "fst (start_nodes demo_start (rev demo_order) fresh_host) = Some 7"
  "ho_calls demo_started = [StartCall (ExporterNode SignalLogs 3) True, StartCall (ConnectorNode SignalTraces SignalLogs 9) False]"
  unfolding demo_started_def by code_simp+

lemma demo_runs:
  "StartAll demo_topo demo_start demo_graph fresh_host = Some (Some 7, demo_started)"
  "ShutdownAll demo_topo demo_stop demo_graph demo_started = Some ([8], demo_stopped)"
proof -
  show "StartAll demo_topo demo_start demo_graph fresh_host = Some (Some 7, demo_started)"
    using demo_starting(1) by (simp add: StartAll_def demo_topo_def demo_started_def prod_eq_iff)
  have "fst (stop_nodes demo_stop demo_order ([], demo_started)) = [8]"
    unfolding stop_nodes_calls by code_simp
  then show "ShutdownAll demo_topo demo_stop demo_graph demo_started = Some ([8], demo_stopped)"
    by (simp add: ShutdownAll_def demo_topo_def demo_stopped_def prod_eq_iff)
qed

theorem starts_downstream_stops_upstream_witness:
  "(\<exists>h' new. StartAll demo_topo demo_start demo_graph fresh_host = Some (Some 7, h') \<and> distinct new \<and> ho_calls h' = new) \<and>
   (\<exists>h' cs. ShutdownAll demo_topo demo_stop demo_graph demo_started = Some ([8], h') \<and> distinct cs \<and>
     set cs = {n \<in> set (gr_nodes demo_graph). is_component n} \<and> ho_calls h' = ho_calls demo_started @ map ShutdownCall cs)"
proof
  note run = starts_downstream_stops_upstream [OF demo_valid demo_build demo_law]
  obtain err h' new where "StartAll demo_topo demo_start demo_graph fresh_host = Some (err, h')" and
      "ho_calls h' = ho_calls (fresh_host :: ((nat, nat) gnode, nat) host) @ new" "distinct new"
    using run [THEN conjunct1, of demo_start fresh_host] by (elim exE conjE) (rule that)
  moreover have "ho_calls (fresh_host :: ((nat, nat) gnode, nat) host) = []" by (simp add: fresh_host_def)
  ultimately show "\<exists>h' new. StartAll demo_topo demo_start demo_graph fresh_host = Some (Some 7, h') \<and> distinct new \<and> ho_calls h' = new"
    using demo_runs(1) by simp
  obtain errs h' cs where "ShutdownAll demo_topo demo_stop demo_graph demo_started = Some (errs, h')" and
      c: "ho_calls h' = ho_calls demo_started @ map ShutdownCall cs" "distinct cs" "set cs = {n \<in> set (gr_nodes demo_graph). is_component n}"
    using run [THEN conjunct2, of demo_stop demo_started] by (elim exE conjE) (rule that)
  with demo_runs(2) have "ShutdownAll demo_topo demo_stop demo_graph demo_started = Some ([8], h')" by simp
  with c show "\<exists>h' cs. ShutdownAll demo_topo demo_stop demo_graph demo_started = Some ([8], h') \<and> distinct cs \<and>
     set cs = {n \<in> set (gr_nodes demo_graph). is_component n} \<and> ho_calls h' = ho_calls demo_started @ map ShutdownCall cs" by blast
qed

theorem statuses_of_a_run_witness:
  "history (ExporterNode SignalLogs 3) (ho_reporter demo_stopped) = [StatusStarting, StatusOK, StatusStopping, StatusPermanentError] \<and>
   history (ConnectorNode SignalTraces SignalLogs 9) (ho_reporter demo_stopped) =
     [StatusStarting, StatusPermanentError, StatusStopping, StatusStopped] \<and>
   history (ReceiverNode SignalTraces 1) (ho_reporter demo_stopped) = []"
proof -
  have nodes_of: "set (gr_nodes demo_graph) = set demo_order" using demo_law by (simp add: topo_law_def demo_topo_def topo_ok_def)
  have "n \<in> set (gr_nodes demo_graph) \<and> is_component n"
    if "n \<in> {ExporterNode SignalLogs 3, ConnectorNode SignalTraces SignalLogs 9, ReceiverNode SignalTraces 1}" for n
  proof -
    have "{ExporterNode SignalLogs 3, ConnectorNode SignalTraces SignalLogs 9, ReceiverNode SignalTraces 1} \<subseteq> set demo_order"
      by code_simp
    with that show ?thesis unfolding nodes_of by auto
  qed
  note nodes = this
  have quiet: "\<forall>n. fst (demo_start n) = [] \<and> fst (demo_stop n) = []" by (simp add: demo_start_def demo_stop_def)
  note run = statuses_of_a_run [OF demo_valid demo_build demo_law demo_runs, THEN conjunct2, THEN mp]
  have "history (ExporterNode SignalLogs 3) (ho_reporter demo_stopped) = [StatusStarting, StatusOK, StatusStopping, StatusPermanentError]"
    using quiet nodes by (subst run) (simp_all add: demo_starting(2) demo_stop_def)
  moreover have "history (ConnectorNode SignalTraces SignalLogs 9) (ho_reporter demo_stopped) =
     [StatusStarting, StatusPermanentError, StatusStopping, StatusStopped]"
    using quiet nodes by (subst run) (simp_all add: demo_starting(2) demo_stop_def)
  moreover have "history (ReceiverNode SignalTraces 1) (ho_reporter demo_stopped) = []"
    using quiet nodes by (subst run) (simp_all add: demo_starting(2) demo_stop_def)
  ultimately show ?thesis by blast
qed

end
