(* ===== verification/ConsumerErrors.thy ===== *)
theory ConsumerErrors
  imports Prelude "HOL-Library.Signed_Division"
begin

text \<open>
  Errors and what they mean to the next hop: the error types of consumer/consumererror and
  exporter/exporterhelper/internal/experr, the conversions between gRPC and HTTP statuses
  (consumererror/internal/statusconversion, internal/statusutil, receiver/otlpreceiver), how the
  OTLP receiver answers with an error and how the OTLP exporters read the answer.

  Of the gRPC library, \<open>status.FromError\<close> and the retry information in a status are parameters.
  The texts of errors are left out, except those attached to a status.
\<close>

section \<open>Errors\<close>

datatype grpc_code =
    code_OK | Canceled | Unknown | InvalidArgument | DeadlineExceeded | NotFound | AlreadyExists | PermissionDenied
  | ResourceExhausted | FailedPrecondition | Aborted | OutOfRange | Unimplemented | Internal | Unavailable | DataLoss
  | Unauthenticated

record grpc_status =
  gs_code :: grpc_code
  gs_message :: string

datatype 'd goerror =
    Plain string
  | StatusErr grpc_status
  | OTLPError "'d goerror option" int "grpc_status option" bool
  | PermanentErr "'d goerror"
  | DownstreamErr "'d goerror"
  | ThrottleRetry "'d goerror" int
  | ShutdownErr "'d goerror"
  | DataErr "'d goerror" 'd
  | Wrapped string "'d goerror"
  | Joined "'d goerror list"

text \<open>\<open>errors.As\<close>: the first error of the wanted kind in the tree of wrapped errors, in preorder.\<close>

fun errors_As :: "('d goerror \<Rightarrow> 'a option) \<Rightarrow> 'd goerror \<Rightarrow> 'a option"
  and errors_As_list :: "('d goerror \<Rightarrow> 'a option) \<Rightarrow> 'd goerror list \<Rightarrow> 'a option" where
  "errors_As pick (Plain msg) = pick (Plain msg)"
| "errors_As pick (StatusErr st) = pick (StatusErr st)"
| "errors_As pick (OTLPError inner h g r) =
     (case pick (OTLPError inner h g r) of
        Some x \<Rightarrow> Some x
      | None \<Rightarrow>
          (case inner of
             Some e \<Rightarrow> errors_As pick e
           | None \<Rightarrow>
               (case g of
                  Some st \<Rightarrow> if gs_code st = code_OK then None else pick (StatusErr st)
                | None \<Rightarrow> None)))"
| "errors_As pick (PermanentErr e) = (case pick (PermanentErr e) of Some x \<Rightarrow> Some x | None \<Rightarrow> errors_As pick e)"
| "errors_As pick (DownstreamErr e) = (case pick (DownstreamErr e) of Some x \<Rightarrow> Some x | None \<Rightarrow> errors_As pick e)"
| "errors_As pick (ThrottleRetry e t) = (case pick (ThrottleRetry e t) of Some x \<Rightarrow> Some x | None \<Rightarrow> errors_As pick e)"
| "errors_As pick (ShutdownErr e) = (case pick (ShutdownErr e) of Some x \<Rightarrow> Some x | None \<Rightarrow> errors_As pick e)"
| "errors_As pick (DataErr e d) = (case pick (DataErr e d) of Some x \<Rightarrow> Some x | None \<Rightarrow> errors_As pick e)"
| "errors_As pick (Wrapped msg e) = (case pick (Wrapped msg e) of Some x \<Rightarrow> Some x | None \<Rightarrow> errors_As pick e)"
| "errors_As pick (Joined es) = (case pick (Joined es) of Some x \<Rightarrow> Some x | None \<Rightarrow> errors_As_list pick es)"
| "errors_As_list pick [] = None"
| "errors_As_list pick (e # es) = (case errors_As pick e of Some x \<Rightarrow> Some x | None \<Rightarrow> errors_As_list pick es)"

fun as_permanent :: "'d goerror \<Rightarrow> unit option" where
  "as_permanent (PermanentErr e) = Some ()"
| "as_permanent _ = None"

fun as_downstream :: "'d goerror \<Rightarrow> unit option" where
  "as_downstream (DownstreamErr e) = Some ()"
| "as_downstream _ = None"

fun as_shutdown :: "'d goerror \<Rightarrow> unit option" where
  "as_shutdown (ShutdownErr e) = Some ()"
| "as_shutdown _ = None"

fun as_throttle :: "'d goerror \<Rightarrow> int option" where
  "as_throttle (ThrottleRetry e delay) = Some delay"
| "as_throttle _ = None"

fun as_data :: "'d goerror \<Rightarrow> 'd option" where
  "as_data (DataErr e d) = Some d"
| "as_data _ = None"

fun as_Error :: "'d goerror \<Rightarrow> ('d goerror \<times> int \<times> grpc_status option \<times> bool) option" where
  "as_Error (OTLPError inner h g r) = Some (OTLPError inner h g r, h, g, r)"
| "as_Error _ = None"

definition IsPermanent :: "'d goerror \<Rightarrow> bool" where
  "IsPermanent err \<longleftrightarrow> errors_As as_permanent err \<noteq> None"

definition IsDownstream :: "'d goerror \<Rightarrow> bool" where
  "IsDownstream err \<longleftrightarrow> errors_As as_downstream err \<noteq> None"

definition IsShutdownErr :: "'d goerror \<Rightarrow> bool" where
  "IsShutdownErr err \<longleftrightarrow> errors_As as_shutdown err \<noteq> None"

text \<open>\<open>None\<close> is the panic on a success code.\<close>

definition NewOTLPHTTPError :: "'d goerror option \<Rightarrow> int \<Rightarrow> 'd goerror option" where
  "NewOTLPHTTPError origErr httpStatus =
     (if 200 \<le> httpStatus \<and> httpStatus \<le> 299 then None
      else Some (OTLPError origErr httpStatus None (httpStatus \<in> {429, 502, 503, 504})))"

definition NewOTLPGRPCError :: "'d goerror option \<Rightarrow> grpc_status option \<Rightarrow> 'd goerror option" where
  "NewOTLPGRPCError origErr status =
     (case status of
        None \<Rightarrow> Some (OTLPError origErr 0 None False)
      | Some st \<Rightarrow>
          if gs_code st = code_OK then None
          else Some (OTLPError origErr 0 (Some st)
                 (gs_code st \<in> {Canceled, DeadlineExceeded, Aborted, OutOfRange, Unavailable, DataLoss})))"

definition NewRetryableError :: "'d goerror option \<Rightarrow> 'd goerror" where
  "NewRetryableError origErr = OTLPError origErr 0 None True"

definition NewLogs :: "'d goerror option \<Rightarrow> 'd \<Rightarrow> 'd goerror" where
  "NewLogs err data = DataErr (NewRetryableError err) data"

fun IsRetryable :: "'d goerror \<Rightarrow> bool" where
  "IsRetryable (OTLPError inner h g r) = r"
| "IsRetryable _ = False"

section \<open>Statuses\<close>

fun GetHTTPStatusCodeFromStatus :: "grpc_status \<Rightarrow> int" where
  "GetHTTPStatusCodeFromStatus st =
     (if gs_code st \<in> {Canceled, DeadlineExceeded, Aborted, OutOfRange, Unavailable, DataLoss} then 503
      else if gs_code st = ResourceExhausted then 429
      else if gs_code st = InvalidArgument then 400
      else if gs_code st = Unauthenticated then 401
      else if gs_code st = PermissionDenied then 403
      else if gs_code st = Unimplemented then 404
      else 500)"

definition NewStatusFromMsgAndHTTPCode :: "string \<Rightarrow> int \<Rightarrow> grpc_status" where
  "NewStatusFromMsgAndHTTPCode errMsg statusCode =
     \<lparr>gs_code = (if statusCode = 400 then InvalidArgument
                 else if statusCode = 401 then Unauthenticated
                 else if statusCode = 403 then PermissionDenied
                 else if statusCode = 404 then Unimplemented
                 else if statusCode = 429 then ResourceExhausted
                 else if statusCode \<in> {502, 503, 504} then Unavailable
                 else Unknown),
      gs_message = errMsg\<rparr>"

definition ToHTTPStatus :: "'d goerror \<Rightarrow> int" where
  "ToHTTPStatus err =
     (case errors_As as_Error err of
        Some (e, h, g, r) \<Rightarrow>
          if h \<noteq> 0 then h
          else (case g of
                  Some st \<Rightarrow> GetHTTPStatusCodeFromStatus st
                | None \<Rightarrow> if r then 503 else 500)
      | None \<Rightarrow> 500)"

type_synonym 'd from_error = "'d goerror \<Rightarrow> grpc_status \<times> bool"

text \<open>
  The last statement reads the text of \<open>e\<close>, which is nil when no \<open>Error\<close> was found: a panic, \<open>None\<close>.
  The text of an \<open>Error\<close> is the parameter \<open>text\<close>.
\<close>

definition ToGRPCStatus :: "'d from_error \<Rightarrow> ('d goerror \<Rightarrow> string) \<Rightarrow> 'd goerror \<Rightarrow> grpc_status option" where
  "ToGRPCStatus FromError text err =
     (let rest = (case FromError err of
                    (st, True) \<Rightarrow> Some st
                  | (_, False) \<Rightarrow>
                      (case errors_As as_Error err of
                         Some (e, _) \<Rightarrow> Some \<lparr>gs_code = Unknown, gs_message = text e\<rparr>
                       | None \<Rightarrow> None))
      in case errors_As as_Error err of
           Some (e, h, g, r) \<Rightarrow>
             (case g of
                Some st \<Rightarrow> Some st
              | None \<Rightarrow>
                  if h \<noteq> 0 then Some (NewStatusFromMsgAndHTTPCode (text e) h)
                  else if r then Some \<lparr>gs_code = Unavailable, gs_message = text e\<rparr>
                  else rest)
         | None \<Rightarrow> rest)"

section \<open>The OTLP receiver\<close>

text \<open>The error returned is nil (\<open>None\<close>) for a status with code OK.\<close>

definition status_Err :: "grpc_status \<Rightarrow> 'd goerror option" where
  "status_Err st = (if gs_code st = code_OK then None else Some (StatusErr st))"

definition GetStatusFromError :: "'d from_error \<Rightarrow> ('d goerror \<Rightarrow> string) \<Rightarrow> 'd goerror \<Rightarrow> 'd goerror option" where
  "GetStatusFromError FromError text err =
     (case FromError err of
        (s, ok) \<Rightarrow>
          if \<not> ok
          then let code = (if IsPermanent err then Internal else Unavailable)
               in status_Err \<lparr>gs_code = code, gs_message = text err\<rparr>
          else status_Err s)"

definition Receiver_Export ::
  "'d from_error \<Rightarrow> ('d goerror \<Rightarrow> string) \<Rightarrow> ('l \<Rightarrow> nat) \<Rightarrow> ('l \<Rightarrow> 'd goerror option) \<Rightarrow> 'l \<Rightarrow> 'd goerror option" where
  "Receiver_Export FromError text LogRecordCount ConsumeLogs ld =
     (if LogRecordCount ld = 0 then None
      else case ConsumeLogs ld of
             None \<Rightarrow> None
           | Some err \<Rightarrow> GetStatusFromError FromError text err)"

text \<open>The status code and the \<open>Retry-After\<close> seconds of the answer of the HTTP handlers.\<close>

definition writeStatusResponse :: "(grpc_status \<Rightarrow> int option) \<Rightarrow> int \<Rightarrow> grpc_status \<Rightarrow> int \<times> int option" where
  "writeStatusResponse GetRetryInfo statusCode st =
     (statusCode,
      if statusCode = 429 \<or> statusCode = 503
      then map_option (\<lambda>delay. delay sdiv 1000000000) (GetRetryInfo st) else None)"

definition writeError ::
  "'d from_error \<Rightarrow> ('d goerror \<Rightarrow> string) \<Rightarrow> (grpc_status \<Rightarrow> int option) \<Rightarrow> 'd goerror \<Rightarrow> int \<Rightarrow> int \<times> int option" where
  "writeError FromError text GetRetryInfo err statusCode =
     (case FromError err of
        (s, True) \<Rightarrow> writeStatusResponse GetRetryInfo (GetHTTPStatusCodeFromStatus s) s
      | (_, False) \<Rightarrow> writeStatusResponse GetRetryInfo statusCode (NewStatusFromMsgAndHTTPCode (text err) statusCode))"

text \<open>\<open>handleLogs\<close> once the body is read; the request may not unmarshal.\<close>

definition handleLogs ::
  "'d from_error \<Rightarrow> ('d goerror \<Rightarrow> string) \<Rightarrow> (grpc_status \<Rightarrow> int option) \<Rightarrow> ('l \<Rightarrow> nat) \<Rightarrow> ('l \<Rightarrow> 'd goerror option) \<Rightarrow>
   'd goerror + 'l \<Rightarrow> int \<times> int option" where
  "handleLogs FromError text GetRetryInfo LogRecordCount ConsumeLogs unmarshaled =
     (case unmarshaled of
        Inl err \<Rightarrow> writeError FromError text GetRetryInfo err 400
      | Inr ld \<Rightarrow>
          (case Receiver_Export FromError text LogRecordCount ConsumeLogs ld of
             Some err \<Rightarrow> writeError FromError text GetRetryInfo err 500
           | None \<Rightarrow> (200, None)))"

section \<open>The OTLP exporters\<close>

definition shouldRetry :: "grpc_code \<Rightarrow> int option \<Rightarrow> bool" where
  "shouldRetry code retryInfo =
     (if code \<in> {Canceled, DeadlineExceeded, Aborted, OutOfRange, Unavailable, DataLoss} then True
      else if code = ResourceExhausted then retryInfo \<noteq> None
      else False)"

text \<open>\<open>status.Convert\<close> is the status \<open>FromError\<close> gives; without retry information the delay is zero.\<close>

definition processError :: "'d from_error \<Rightarrow> (grpc_status \<Rightarrow> int option) \<Rightarrow> 'd goerror option \<Rightarrow> 'd goerror option" where
  "processError FromError GetRetryInfo err =
     (case err of
        None \<Rightarrow> None
      | Some e \<Rightarrow>
          (let st = fst (FromError e)
           in if gs_code st = code_OK then None
              else let retryInfo = GetRetryInfo st
                   in if \<not> shouldRetry (gs_code st) retryInfo then Some (PermanentErr e)
                      else let throttleDuration = (case retryInfo of Some d \<Rightarrow> d | None \<Rightarrow> 0)
                           in if throttleDuration \<noteq> 0 then Some (ThrottleRetry e throttleDuration) else Some e))"

definition isRetryableStatusCode :: "int \<Rightarrow> bool" where
  "isRetryableStatusCode code \<longleftrightarrow> code = 429 \<or> code = 502 \<or> code = 503 \<or> code = 504"

text \<open>
  \<open>export\<close> of the HTTP exporter from the answer on: the status code, the values of \<open>Retry-After\<close>
  as durations if they parse, and the result of a successful answer's body.
\<close>

definition http_export ::
  "string \<Rightarrow> 'd goerror option \<Rightarrow> int \<Rightarrow> int option list \<Rightarrow> 'd goerror option" where
  "http_export errString partialSuccess statusCode retryAfter =
     (if 200 \<le> statusCode \<and> statusCode \<le> 299 then partialSuccess
      else case status_Err (NewStatusFromMsgAndHTTPCode errString statusCode) of
             None \<Rightarrow> None
           | Some formattedErr \<Rightarrow>
               if \<not> isRetryableStatusCode statusCode then Some (PermanentErr formattedErr)
               else let isThrottleError = (statusCode = 429 \<or> statusCode = 503)
                    in if isThrottleError \<and> retryAfter \<noteq> []
                       then case hd retryAfter of
                              Some d \<Rightarrow> Some (ThrottleRetry formattedErr d)
                            | None \<Rightarrow> Some formattedErr
                       else Some formattedErr)"

section \<open>Observed consumers and receivers\<close>

text \<open>
  A consumer of a pipeline behind \<open>obsLogs\<close> (service/internal/obsconsumer/logs.go) counts its items
  under an outcome and marks its error as coming from downstream.
\<close>

datatype outcome = Success | Failure | Refused

definition obs_ConsumeLogs :: "('l \<Rightarrow> nat) \<Rightarrow> ('l \<Rightarrow> 'd goerror option) \<Rightarrow> 'l \<Rightarrow> 'd goerror option \<times> (nat \<times> outcome)" where
  "obs_ConsumeLogs LogRecordCount ConsumeLogs ld =
     (let itemCount = LogRecordCount ld
      in case ConsumeLogs ld of
           None \<Rightarrow> (None, (itemCount, Success))
         | Some err \<Rightarrow>
             if IsDownstream err then (Some err, (itemCount, Refused))
             else (Some (DownstreamErr err), (itemCount, Failure)))"

text \<open>\<open>endOp\<close> of the receiver's report: accepted, refused and failed items, and the outcome of the request.\<close>

definition receiver_endOp :: "bool \<Rightarrow> nat \<Rightarrow> 'd goerror option \<Rightarrow> nat \<times> nat \<times> nat \<times> outcome option" where
  "receiver_endOp gate numReceivedItems err =
     (let (numAccepted, numRefused, numFailedErrors) =
        (case err of
           None \<Rightarrow> (numReceivedItems, 0, 0)
         | Some e \<Rightarrow>
             if gate then if IsDownstream e then (0, numReceivedItems, 0) else (0, 0, numReceivedItems)
             else (0, numReceivedItems, 0))
      in (numAccepted, numRefused, numFailedErrors,
          if gate then Some (case err of None \<Rightarrow> Success | Some e \<Rightarrow> if IsDownstream e then Refused else Failure)
          else None))"

lemma receiver_endOp_total:
  "receiver_endOp gate n err = (accepted, refused, failed, out) \<Longrightarrow> accepted + refused + failed = n \<and> (0 < accepted \<longrightarrow> err = None)"
  by (auto simp: receiver_endOp_def Let_def split: option.splits if_splits)

text \<open>Consumers around each other: at most one counts a failure, the innermost.\<close>

fun obs_chain :: "('l \<Rightarrow> nat) \<Rightarrow> ('l \<Rightarrow> 'd goerror option) \<Rightarrow> nat \<Rightarrow> 'l \<Rightarrow> 'd goerror option \<times> (nat \<times> outcome) list" where
  "obs_chain cnt consume 0 ld = (consume ld, [])"
| "obs_chain cnt consume (Suc n) ld =
     (case obs_chain cnt consume n ld of
        (err, outs) \<Rightarrow> (case obs_ConsumeLogs cnt (\<lambda>_. err) ld of (err', out) \<Rightarrow> (err', out # outs)))"

lemma IsDownstream_wrapped [simp]: "IsDownstream (DownstreamErr e)"
  by (simp add: IsDownstream_def)

lemma obs_chain_outcomes:
  assumes "consume ld = Some e" and "\<not> IsDownstream e"
  shows "obs_chain cnt consume (Suc n) ld = (Some (DownstreamErr e), replicate n (cnt ld, Refused) @ [(cnt ld, Failure)])"
  using assms by (induction n) (simp_all add: obs_ConsumeLogs_def Let_def)

section \<open>Error kinds across hops\<close>

lemma IsPermanent_simps [simp]:
  "IsPermanent (PermanentErr e)" "\<not> IsPermanent (StatusErr st)" "\<not> IsPermanent (Plain msg)"
  "IsPermanent (ThrottleRetry e t) = IsPermanent e" "IsPermanent (Wrapped msg e) = IsPermanent e"
  "IsPermanent (DownstreamErr e) = IsPermanent e" "IsPermanent (ShutdownErr e) = IsPermanent e" "IsPermanent (DataErr e d) = IsPermanent e"
  by (simp_all add: IsPermanent_def)

definition status_law :: "'d from_error \<Rightarrow> bool" where
  "status_law FromError \<longleftrightarrow> (\<forall>st. FromError (StatusErr st) = (st, True))"

text \<open>Values of \<open>Retry-After\<close> as the exporter parses them.\<close>

definition retry_values :: "int option \<Rightarrow> int option list" where
  "retry_values header = (case header of Some seconds \<Rightarrow> [Some (seconds * 1000000000)] | None \<Rightarrow> [])"

lemma http_kind:
  assumes "\<not> (200 \<le> code \<and> code \<le> 299)"
  shows "\<exists>e. http_export msg partial code values = Some e \<and> (IsPermanent e \<longleftrightarrow> \<not> isRetryableStatusCode code)"
proof -
  have "gs_code (NewStatusFromMsgAndHTTPCode msg code) \<noteq> code_OK" by (simp add: NewStatusFromMsgAndHTTPCode_def)
  then show ?thesis using assms by (auto simp: http_export_def status_Err_def Let_def split: option.splits)
qed

lemma GetHTTPStatusCode_error: "\<not> (200 \<le> GetHTTPStatusCodeFromStatus st \<and> GetHTTPStatusCodeFromStatus st \<le> 299)"
  by (auto split: if_splits)

lemma GetHTTPStatusCode_retryable:
  "isRetryableStatusCode (GetHTTPStatusCodeFromStatus st) \<longleftrightarrow> shouldRetry (gs_code st) None \<or> gs_code st = ResourceExhausted"
  by (cases "gs_code st") (simp_all add: isRetryableStatusCode_def shouldRetry_def)

text \<open>The status the receiver answers with.\<close>

definition answer_status :: "'d from_error \<Rightarrow> ('d goerror \<Rightarrow> string) \<Rightarrow> 'd goerror \<Rightarrow> grpc_status" where
  "answer_status FromError text err =
     (case FromError err of
        (s, True) \<Rightarrow> s
      | (_, False) \<Rightarrow> \<lparr>gs_code = (if IsPermanent err then Internal else Unavailable), gs_message = text err\<rparr>)"

lemma GetStatusFromError_answer:
  "gs_code (answer_status FromError text err) \<noteq> code_OK \<Longrightarrow>
   GetStatusFromError FromError text err = Some (StatusErr (answer_status FromError text err))"
  by (auto simp: GetStatusFromError_def answer_status_def status_Err_def Let_def split: prod.splits bool.splits)

lemma FromError_answer:
  assumes "status_law FromError"
  shows "processError FromError GetRetryInfo (Some (StatusErr st)) =
     (if gs_code st = code_OK then None
      else if \<not> shouldRetry (gs_code st) (GetRetryInfo st) then Some (PermanentErr (StatusErr st))
      else case GetRetryInfo st of
             Some d \<Rightarrow> if d \<noteq> 0 then Some (ThrottleRetry (StatusErr st) d) else Some (StatusErr st)
           | None \<Rightarrow> Some (StatusErr st))"
  using assms by (simp add: processError_def status_law_def Let_def split: option.splits)

text \<open>
  C31. An error keeps its kind over a hop between two collectors. Whatever the pipeline behind an
  OTLP receiver fails with, the OTLP exporter of the sender gets an error over gRPC and over HTTP; if
  the error carries no gRPC status, what the exporter gets is permanent exactly when the error was.
  With a status, it is permanent unless the specification lets the code be retried; only a
  \<open>ResourceExhausted\<close> without retry information is permanent over gRPC and retried over HTTP.
\<close>

theorem errors_keep_their_kind:
  assumes law: "status_law FromError" and "LogRecordCount ld \<noteq> 0" and "ConsumeLogs ld = Some err"
    and ok: "snd (FromError err) \<Longrightarrow> gs_code (fst (FromError err)) \<noteq> code_OK"
    and r: "r = handleLogs FromError text GetRetryInfo LogRecordCount ConsumeLogs (Inr ld)"
  shows "\<exists>answer grpc http. Receiver_Export FromError text LogRecordCount ConsumeLogs ld = Some answer \<and>
    processError FromError GetRetryInfo (Some answer) = Some grpc \<and> http_export msg partial (fst r) (retry_values (snd r)) = Some http \<and>
    (if snd (FromError err)
     then (IsPermanent grpc \<longleftrightarrow> \<not> shouldRetry (gs_code (fst (FromError err))) (GetRetryInfo (fst (FromError err)))) \<and>
       (IsPermanent http \<longleftrightarrow> \<not> shouldRetry (gs_code (fst (FromError err))) None \<and> gs_code (fst (FromError err)) \<noteq> ResourceExhausted)
     else (IsPermanent grpc \<longleftrightarrow> IsPermanent err) \<and> (IsPermanent http \<longleftrightarrow> IsPermanent err))"
proof -
  let ?st = "answer_status FromError text err"
  have st: "gs_code ?st \<noteq> code_OK"
    and code: "gs_code ?st = (if snd (FromError err) then gs_code (fst (FromError err)) else if IsPermanent err then Internal else Unavailable)"
    and same: "snd (FromError err) \<Longrightarrow> ?st = fst (FromError err)"
    using ok by (auto simp: answer_status_def split: prod.splits bool.splits)
  have answer: "Receiver_Export FromError text LogRecordCount ConsumeLogs ld = Some (StatusErr ?st)"
    using assms(2,3) GetStatusFromError_answer [OF st] by (simp add: Receiver_Export_def)
  have "fst r = GetHTTPStatusCodeFromStatus ?st"
    using law by (simp add: r handleLogs_def answer writeError_def writeStatusResponse_def status_law_def)
  with http_kind [of "fst r" msg partial] GetHTTPStatusCode_error GetHTTPStatusCode_retryable
  obtain http where http: "http_export msg partial (fst r) (retry_values (snd r)) = Some http"
    "IsPermanent http \<longleftrightarrow> \<not> (shouldRetry (gs_code ?st) None \<or> gs_code ?st = ResourceExhausted)"
    by metis
  have "\<exists>grpc. processError FromError GetRetryInfo (Some (StatusErr ?st)) = Some grpc \<and>
      (IsPermanent grpc \<longleftrightarrow> \<not> shouldRetry (gs_code ?st) (GetRetryInfo ?st))"
    unfolding FromError_answer [OF law] using st by (cases "GetRetryInfo ?st") auto
  then obtain grpc where grpc: "processError FromError GetRetryInfo (Some (StatusErr ?st)) = Some grpc"
    "IsPermanent grpc \<longleftrightarrow> \<not> shouldRetry (gs_code ?st) (GetRetryInfo ?st)"
    by blast
  show ?thesis
    using answer http grpc same by (intro exI conjI) (auto simp: code shouldRetry_def split: if_splits)
qed

text \<open>A pipeline that fails with a permanent error behind an exporter of its own.\<close>

definition demo_FromError :: "nat goerror \<Rightarrow> grpc_status \<times> bool" where
  "demo_FromError err =
     (case errors_As (\<lambda>e. case e of StatusErr st \<Rightarrow> Some st | _ \<Rightarrow> None) err of
        Some st \<Rightarrow> (st, True)
      | None \<Rightarrow> (\<lparr>gs_code = Unknown, gs_message = []\<rparr>, False))"

definition demo_error :: "nat goerror" where
  "demo_error = Wrapped ''not retryable error'' (PermanentErr (Plain ''bad data''))"

theorem errors_keep_their_kind_witness:
  "\<exists>answer grpc http. Receiver_Export demo_FromError (\<lambda>e. []) id (\<lambda>n. Some demo_error) (3::nat) = Some answer \<and>
    processError demo_FromError (\<lambda>st. None) (Some answer) = Some grpc \<and>
    http_export [] None 500 [] = Some http \<and> IsPermanent grpc \<and> IsPermanent http"
proof -
  have law: "status_law demo_FromError" by (simp add: status_law_def demo_FromError_def)
  have r: "(500, None) = handleLogs demo_FromError (\<lambda>e. []) (\<lambda>st. None) id (\<lambda>n. Some demo_error) (Inr (3::nat))"
    by code_simp
  have "\<not> snd (demo_FromError demo_error)" "IsPermanent demo_error" by code_simp+
  with errors_keep_their_kind [OF law _ _ _ r, of demo_error "[]" None] show ?thesis
    by (simp add: retry_values_def)
qed

section \<open>Statuses of errors\<close>

lemma NewOTLPHTTPError_converts:
  assumes "NewOTLPHTTPError origErr h = Some e" and "h \<noteq> 0"
  shows "ToHTTPStatus e = h" and "\<exists>st. ToGRPCStatus FromError text e = Some st \<and> (shouldRetry (gs_code st) None \<longleftrightarrow> IsRetryable e \<and> h \<noteq> 429)"
  using assms
  by (auto simp: NewOTLPHTTPError_def ToHTTPStatus_def ToGRPCStatus_def NewStatusFromMsgAndHTTPCode_def shouldRetry_def split: if_splits)

lemma NewOTLPGRPCError_converts:
  assumes "NewOTLPGRPCError origErr (Some st) = Some e"
  shows "ToGRPCStatus FromError text e = Some st" and "IsRetryable e \<longleftrightarrow> shouldRetry (gs_code st) None"
    and "isRetryableStatusCode (ToHTTPStatus e) \<longleftrightarrow> IsRetryable e \<or> gs_code st = ResourceExhausted"
  using assms GetHTTPStatusCode_retryable [of st]
  by (auto simp: NewOTLPGRPCError_def ToHTTPStatus_def ToGRPCStatus_def shouldRetry_def simp del: GetHTTPStatusCodeFromStatus.simps split: if_splits)

text \<open>
  \<open>ToGRPCStatus\<close> panics for every error that contains neither an \<open>Error\<close> nor a gRPC status,
  however it is wrapped: instead of a status with the default code it reads the text of a nil pointer.
\<close>

lemma ToGRPCStatus_panics:
  assumes "\<not> snd (FromError err)"
  shows "ToGRPCStatus FromError text err = None \<longleftrightarrow> errors_As as_Error err = None"
  using assms by (auto simp: ToGRPCStatus_def Let_def split: prod.splits bool.splits option.splits)

lemma ToGRPCStatus_panics_example:
  "ToGRPCStatus demo_FromError (\<lambda>e. []) (Wrapped ''export failed'' (Plain ''connection refused'')) = None"
proof -
  have "\<not> snd (demo_FromError (Wrapped ''export failed'' (Plain ''connection refused'')))" by code_simp
  from ToGRPCStatus_panics [of demo_FromError "Wrapped ''export failed'' (Plain ''connection refused'')" "\<lambda>e. []", OF this]
  show ?thesis by simp
qed

end
