(* ===== verification/Senders.thy ===== *)
theory Senders
  imports Complex_Main ConsumerErrors
begin

text \<open>
  The senders of exporter/exporterhelper/internal around the actual exporter: the retry sender with
  its configuration (config/configretry/backoff.go), the timeout sender, the report of what was sent,
  and the base exporter that puts them around each other.

  Times and durations are nanoseconds, without wrap-around. The exporter, the clock, the intervals
  of the backoff library and what ends a wait are given for each attempt; the backoff factors are
  rational numbers.
\<close>

section \<open>Configuration\<close>

record BackOffConfig =
  bo_Enabled :: bool
  bo_InitialInterval :: int
  bo_RandomizationFactor :: rat
  bo_Multiplier :: rat
  bo_MaxInterval :: int
  bo_MaxElapsedTime :: int

datatype backoff_error =
    InitialIntervalNegative | RandomizationFactorRange | MultiplierNegative | MaxIntervalNegative | MaxElapsedNegative
  | MaxElapsedBelowInitial | MaxElapsedBelowMax

definition BackOffConfig_Validate :: "BackOffConfig \<Rightarrow> backoff_error option" where
  "BackOffConfig_Validate bs =
     (if \<not> bo_Enabled bs then None
      else if bo_InitialInterval bs < 0 then Some InitialIntervalNegative
      else if bo_RandomizationFactor bs < 0 \<or> bo_RandomizationFactor bs > 1 then Some RandomizationFactorRange
      else if bo_Multiplier bs < 0 then Some MultiplierNegative
      else if bo_MaxInterval bs < 0 then Some MaxIntervalNegative
      else if bo_MaxElapsedTime bs < 0 then Some MaxElapsedNegative
      else if bo_MaxElapsedTime bs > 0
      then if bo_MaxElapsedTime bs < bo_InitialInterval bs then Some MaxElapsedBelowInitial
           else if bo_MaxElapsedTime bs < bo_MaxInterval bs then Some MaxElapsedBelowMax
           else None
      else None)"

definition TimeoutConfig_Validate :: "int \<Rightarrow> bool" where
  "TimeoutConfig_Validate timeout \<longleftrightarrow> \<not> timeout < 0"

section \<open>The retry sender\<close>

text \<open>Why a wait ended.\<close>

datatype wake = Elapsed | CtxDone | Stopped

text \<open>
  An attempt: the result of the next sender by the deadline of the context and the request, the
  interval of \<open>NextBackOff\<close> (\<open>None\<close> for \<open>backoff.Stop\<close>), the time read after a failure, and what ended
  the wait.
\<close>

record ('r, 'd) attempt =
  at_send :: "int option \<Rightarrow> 'r \<Rightarrow> 'd goerror option"
  at_backoff :: "int option"
  at_now :: int
  at_wake :: wake

text \<open>The events added to the span.\<close>

datatype 'r retry_event = SendingRequest int 'r | WillRetry int

definition retry_delay :: "'d goerror \<Rightarrow> int \<Rightarrow> int" where
  "retry_delay err backoffDelay = (case errors_As as_throttle err of Some delay \<Rightarrow> max backoffDelay delay | None \<Rightarrow> backoffDelay)"

text \<open>
  The loop of \<open>Send\<close>. The result is \<open>None\<close> when the given attempts are used up and it goes on.
  \<open>onError\<close> is the method of the request, the identity for a request without it.
\<close>

fun Send_loop ::
  "int option \<Rightarrow> int option \<Rightarrow> ('r \<Rightarrow> 'd goerror \<Rightarrow> 'r) \<Rightarrow> ('r, 'd) attempt list \<Rightarrow> int \<Rightarrow> 'r \<Rightarrow>
   'r retry_event list \<times> 'd goerror option option" where
  "Send_loop maxElapsedTime deadline onError [] retryNum req = ([], None)"
| "Send_loop maxElapsedTime deadline onError (a # as) retryNum req =
     (case at_send a deadline req of
        None \<Rightarrow> ([SendingRequest retryNum req], Some None)
      | Some err \<Rightarrow>
          if IsPermanent err then ([SendingRequest retryNum req], Some (Some (Wrapped ''not retryable error'' err)))
          else
            let req' = onError req err
            in case at_backoff a of
                 None \<Rightarrow> ([SendingRequest retryNum req], Some (Some (Wrapped ''no more retries left'' err)))
               | Some interval \<Rightarrow>
                   let backoffDelay = retry_delay err interval; nextRetryTime = at_now a + backoffDelay
                   in if (case maxElapsedTime of Some t \<Rightarrow> t < nextRetryTime | None \<Rightarrow> False)
                      then ([SendingRequest retryNum req], Some (Some (Wrapped ''no more retries left'' err)))
                      else if (case deadline of Some t \<Rightarrow> t < nextRetryTime | None \<Rightarrow> False)
                      then ([SendingRequest retryNum req], Some (Some (Wrapped ''request will be cancelled before next retry'' err)))
                      else case at_wake a of
                             CtxDone \<Rightarrow> ([SendingRequest retryNum req, WillRetry backoffDelay],
                                          Some (Some (Wrapped ''request is cancelled or timed out'' err)))
                           | Stopped \<Rightarrow> ([SendingRequest retryNum req, WillRetry backoffDelay], Some (Some (ShutdownErr err)))
                           | Elapsed \<Rightarrow>
                               (case Send_loop maxElapsedTime deadline onError as (retryNum + 1) req' of
                                  (events, result) \<Rightarrow> (SendingRequest retryNum req # WillRetry backoffDelay # events, result)))"

definition retry_Send ::
  "BackOffConfig \<Rightarrow> int \<Rightarrow> int option \<Rightarrow> ('r \<Rightarrow> 'd goerror \<Rightarrow> 'r) \<Rightarrow> ('r, 'd) attempt list \<Rightarrow> 'r \<Rightarrow>
   'r retry_event list \<times> 'd goerror option option" where
  "retry_Send cfg now deadline onError attempts req =
     Send_loop (if bo_MaxElapsedTime cfg > 0 then Some (now + bo_MaxElapsedTime cfg) else None) deadline onError attempts 0 req"

text \<open>\<open>logsRequest.OnError\<close>, with the constructor of a request from the data left.\<close>

definition logs_OnError :: "('d \<Rightarrow> 'r) \<Rightarrow> 'r \<Rightarrow> 'd goerror \<Rightarrow> 'r" where
  "logs_OnError newLogsRequest req err = (case errors_As as_data err of Some data \<Rightarrow> newLogsRequest data | None \<Rightarrow> req)"

text \<open>The timeout sender: the deadline of the context it passes on, when it starts at \<open>now\<close>.\<close>

definition timeout_Send :: "int \<Rightarrow> int \<Rightarrow> (int option \<Rightarrow> 'r \<Rightarrow> 'd goerror option) \<Rightarrow> int option \<Rightarrow> 'r \<Rightarrow> 'd goerror option" where
  "timeout_Send timeout now next deadline req =
     next (Some (case deadline of Some t \<Rightarrow> min t (now + timeout) | None \<Rightarrow> now + timeout)) req"

section \<open>The report\<close>

definition toNumItems :: "nat \<Rightarrow> 'd goerror option \<Rightarrow> nat \<times> nat" where
  "toNumItems numExportedItems err = (if err \<noteq> None then (0, numExportedItems) else (numExportedItems, 0))"

record counters =
  ct_in_flight :: int
  ct_sent :: nat
  ct_failed :: nat
  ct_permanent :: nat

definition startOp :: "counters \<Rightarrow> counters" where
  "startOp c = c\<lparr>ct_in_flight := ct_in_flight c + 1\<rparr>"

definition endOp :: "nat \<Rightarrow> 'd goerror option \<Rightarrow> counters \<Rightarrow> counters" where
  "endOp numRecords err c =
     (let (numSent, numFailedToSend) = toNumItems numRecords err
      in c\<lparr>ct_in_flight := ct_in_flight c - 1, ct_sent := ct_sent c + numSent, ct_failed := ct_failed c + numFailedToSend,
           ct_permanent := ct_permanent c + (case err of Some e \<Rightarrow> if IsPermanent e then numFailedToSend else 0 | None \<Rightarrow> 0)\<rparr>)"

definition obs_Send :: "('r \<Rightarrow> nat) \<Rightarrow> ('r \<Rightarrow> 'd goerror option) \<Rightarrow> 'r \<Rightarrow> counters \<Rightarrow> 'd goerror option \<times> counters" where
  "obs_Send ItemsCount next req c =
     (let c1 = startOp c; items = ItemsCount req; err = next req in (err, endOp items err c1))"

section \<open>Limits and results of retrying\<close>

text \<open>The request of each attempt and its result.\<close>

fun request_at :: "int option \<Rightarrow> ('r \<Rightarrow> 'd goerror \<Rightarrow> 'r) \<Rightarrow> ('r, 'd) attempt list \<Rightarrow> 'r \<Rightarrow> nat \<Rightarrow> 'r" where
  "request_at deadline onError as req 0 = req"
| "request_at deadline onError as req (Suc i) =
     (let req' = request_at deadline onError as req i
      in case at_send (as ! i) deadline req' of None \<Rightarrow> req' | Some err \<Rightarrow> onError req' err)"

definition result_at :: "int option \<Rightarrow> ('r \<Rightarrow> 'd goerror \<Rightarrow> 'r) \<Rightarrow> ('r, 'd) attempt list \<Rightarrow> 'r \<Rightarrow> nat \<Rightarrow> 'd goerror option" where
  "result_at deadline onError as req i = at_send (as ! i) deadline (request_at deadline onError as req i)"

fun sent_requests :: "'r retry_event list \<Rightarrow> (int \<times> 'r) list" where
  "sent_requests [] = []"
| "sent_requests (SendingRequest n req # evs) = (n, req) # sent_requests evs"
| "sent_requests (WillRetry d # evs) = sent_requests evs"

definition in_time :: "int option \<Rightarrow> int \<Rightarrow> bool" where
  "in_time limit t \<longleftrightarrow> (case limit of Some l \<Rightarrow> t \<le> l | None \<Rightarrow> True)"

text \<open>Attempt \<open>a\<close> failed with \<open>err\<close> and the loop went on to the next.\<close>

definition retried :: "int option \<Rightarrow> int option \<Rightarrow> ('r, 'd) attempt \<Rightarrow> 'd goerror \<Rightarrow> bool" where
  "retried maxElapsedTime deadline a err \<longleftrightarrow> \<not> IsPermanent err \<and> at_wake a = Elapsed \<and>
     (\<exists>interval. at_backoff a = Some interval \<and> in_time maxElapsedTime (at_now a + retry_delay err interval) \<and>
        in_time deadline (at_now a + retry_delay err interval))"

lemma request_at_Cons: "request_at deadline onError (a # as) req (Suc i) =
    request_at deadline onError as (case at_send a deadline req of None \<Rightarrow> req | Some err \<Rightarrow> onError req err) i"
  by (induction i) (simp_all add: Let_def)

lemma result_at_Cons:
  "result_at deadline onError (a # as) req 0 = at_send a deadline req"
  "at_send a deadline req = Some err \<Longrightarrow> result_at deadline onError (a # as) req (Suc i) = result_at deadline onError as (onError req err) i"
  unfolding result_at_def by (simp_all add: request_at_Cons del: request_at.simps(2))

text \<open>What the loop returns after \<open>n\<close> attempts, the last of which gave \<open>lastErr\<close>.\<close>

definition finished ::
  "int option \<Rightarrow> int option \<Rightarrow> ('r, 'd) attempt \<Rightarrow> 'd goerror option \<Rightarrow> 'd goerror option \<Rightarrow> bool" where
  "finished maxElapsedTime deadline a lastErr result \<longleftrightarrow>
     (case result of
        None \<Rightarrow> lastErr = None
      | Some e \<Rightarrow> \<exists>err. lastErr = Some err \<and> \<not> retried maxElapsedTime deadline a err \<and>
          ((\<exists>msg. e = Wrapped msg err) \<or> e = ShutdownErr err \<and> at_wake a = Stopped \<and> \<not> IsPermanent err))"

definition run_ok ::
  "int option \<Rightarrow> int option \<Rightarrow> ('r \<Rightarrow> 'd goerror \<Rightarrow> 'r) \<Rightarrow> ('r, 'd) attempt list \<Rightarrow> int \<Rightarrow> 'r \<Rightarrow>
   'r retry_event list \<Rightarrow> 'd goerror option option \<Rightarrow> bool" where
  "run_ok M D onError as k req evs res \<longleftrightarrow>
     (let n = length (sent_requests evs)
      in n \<le> length as \<and> sent_requests evs = map (\<lambda>i. (k + int i, request_at D onError as req i)) [0..<n] \<and>
         (\<forall>i<n. Suc i < n \<or> res = None \<longrightarrow> (\<exists>err. result_at D onError as req i = Some err \<and> retried M D (as ! i) err)) \<and>
         (case res of
            None \<Rightarrow> n = length as
          | Some r \<Rightarrow> 0 < n \<and> finished M D (as ! (n - 1)) (result_at D onError as req (n - 1)) r))"

lemma run_ok_last:
  assumes "finished M D a (at_send a D req) r" and "sent_requests evs = [(k, req)]"
  shows "run_ok M D onError (a # as) k req evs (Some r)"
  using assms by (simp add: run_ok_def result_at_Cons)

lemma run_ok_step:
  assumes err: "at_send a D req = Some err" "retried M D a err"
    and ok: "run_ok M D onError as (k + 1) (onError req err) evs res"
  shows "run_ok M D onError (a # as) k req (SendingRequest k req # WillRetry d # evs) res"
proof -
  let ?n = "length (sent_requests evs)"
  have seq: "map (\<lambda>i. (k + int i, request_at D onError (a # as) req i)) [0..<Suc ?n] =
      (k, req) # map (\<lambda>i. (k + 1 + int i, request_at D onError as (onError req err) i)) [0..<?n]"
    by (simp add: upt_conv_Cons map_Suc_upt [symmetric] request_at_Cons err del: upt_Suc request_at.simps(2))
  have res: "result_at D onError (a # as) req (Suc i) = result_at D onError as (onError req err) i" for i
    using result_at_Cons(2) [of a D req err] err by simp
  have "\<exists>err'. result_at D onError (a # as) req i = Some err' \<and> retried M D ((a # as) ! i) err'"
    if "i < Suc ?n" "Suc i < Suc ?n \<or> res = None" for i
    using that ok err by (cases i) (auto simp: run_ok_def Let_def res result_at_Cons(1))
  moreover have "0 < ?n \<Longrightarrow> result_at D onError (a # as) req ?n = result_at D onError as (onError req err) (?n - 1)"
    using res [of "?n - 1"] by simp
  ultimately show ?thesis
    using ok seq by (cases res) (auto simp: run_ok_def Let_def nth_Cons' split: if_splits)
qed

lemma Send_loop_run:
  "Send_loop M D onError as k req = (evs, res) \<Longrightarrow> run_ok M D onError as k req evs res"
proof (induction as arbitrary: k req evs res)
  case Nil
  then show ?case by (simp add: run_ok_def)
next
  case (Cons a as)
  show ?case
  proof (cases "at_send a D req")
    case None
    with Cons.prems show ?thesis by (auto intro!: run_ok_last simp: finished_def)
  next
    case (Some err)
    show ?thesis
    proof (cases "retried M D a err")
      case True
      then obtain interval where i: "at_backoff a = Some interval" "\<not> IsPermanent err" "at_wake a = Elapsed"
        "in_time M (at_now a + retry_delay err interval)" "in_time D (at_now a + retry_delay err interval)"
        by (auto simp: retried_def)
      obtain evs' where evs: "evs = SendingRequest k req # WillRetry (retry_delay err interval) # evs'"
        and rest: "Send_loop M D onError as (k + 1) (onError req err) = (evs', res)"
        using Cons.prems Some i by (auto simp: in_time_def Let_def split: option.splits prod.splits if_splits)
      show ?thesis unfolding evs by (rule run_ok_step [OF Some True Cons.IH [OF rest]])
    next
      case False
      have "\<exists>r. res = Some r \<and> sent_requests evs = [(k, req)] \<and> finished M D a (Some err) r"
        using Cons.prems Some False
        by (auto simp: finished_def retried_def in_time_def Let_def not_less split: option.splits if_splits wake.splits prod.splits)
      then show ?thesis using run_ok_last Some by metis
    qed
  qed
qed

lemma finished_permanent:
  "finished M D a (Some err) (Some e) \<Longrightarrow> IsPermanent e \<longleftrightarrow> IsPermanent err"
  by (auto simp: finished_def)

text \<open>
  C32. The retry sender sends the request, then what \<open>OnError\<close> leaves of it after each failure. It
  goes on only after an error that is not permanent, when the wait for the interval (at least the
  one the destination asked for) is over and ends by the deadline and the maximal elapsed time. It
  returns nil exactly if the last attempt succeeded, and otherwise the last error, marked as a
  shutdown only if the wait was cut short by one.
\<close>

theorem retry_Send_results:
  assumes "retry_Send cfg now D onError attempts req = (evs, res)"
    and "M = (if bo_MaxElapsedTime cfg > 0 then Some (now + bo_MaxElapsedTime cfg) else None)"
    and "n = length (sent_requests evs)"
  shows "sent_requests evs = map (\<lambda>i. (int i, request_at D onError attempts req i)) [0..<n] \<and> n \<le> length attempts \<and>
    (\<forall>i<n. Suc i < n \<longrightarrow> (\<exists>err. result_at D onError attempts req i = Some err \<and> retried M D (attempts ! i) err)) \<and>
    (case res of
       None \<Rightarrow> n = length attempts
     | Some None \<Rightarrow> 0 < n \<and> result_at D onError attempts req (n - 1) = None
     | Some (Some e) \<Rightarrow> 0 < n \<and> (\<exists>err. result_at D onError attempts req (n - 1) = Some err \<and> \<not> retried M D (attempts ! (n - 1)) err \<and>
         (IsPermanent e \<longleftrightarrow> IsPermanent err) \<and>
         ((\<exists>msg. e = Wrapped msg err) \<or> e = ShutdownErr err \<and> at_wake (attempts ! (n - 1)) = Stopped \<and> \<not> IsPermanent err)))"
proof -
  have "run_ok M D onError attempts 0 req evs res"
    using assms(1) unfolding retry_Send_def assms(2) by (rule Send_loop_run)
  then show ?thesis
    unfolding run_ok_def Let_def assms(3) [symmetric] using finished_permanent
    by (cases res; cases "the res") (fastforce simp: finished_def)+
qed

section \<open>Retrying ends\<close>

lemma attempts_apart:
  assumes "\<forall>i. Suc i < length as \<longrightarrow> at_now (as ! i) + d \<le> at_now (as ! Suc i)" and "\<forall>a \<in> set as. t \<le> at_now a"
    and "i < length as"
  shows "t + int i * d \<le> at_now (as ! i)"
  using assms(3)
proof (induction i)
  case 0
  then show ?case using assms(2) by simp
next
  case (Suc i)
  then have "at_now (as ! i) + d \<le> at_now (as ! Suc i)" "t + int i * d \<le> at_now (as ! i)" using assms(1) by auto
  then show ?case by (simp add: algebra_simps)
qed

lemma retry_delay_ge: "interval \<le> retry_delay err interval"
  by (simp add: retry_delay_def split: option.splits)

text \<open>
  C33. With a maximal elapsed time, or under a deadline, \<open>Send\<close> returns: if every interval is at
  least \<open>d > 0\<close> and the attempts are that far apart, it makes at most \<open>limit div d + 1\<close> attempts.
\<close>

theorem retry_Send_returns:
  assumes run: "retry_Send cfg now D onError attempts req = (evs, res)" and d: "0 < d"
    and limit: "limit = (if bo_MaxElapsedTime cfg > 0 then bo_MaxElapsedTime cfg else the D - now)" "bo_MaxElapsedTime cfg > 0 \<or> D \<noteq> None"
    and apart: "\<forall>i. Suc i < length attempts \<longrightarrow> at_now (attempts ! i) + d \<le> at_now (attempts ! Suc i)"
    and since: "\<forall>a \<in> set attempts. now \<le> at_now a \<and> (case at_backoff a of Some interval \<Rightarrow> d \<le> interval | None \<Rightarrow> True)"
  shows "(int (length (sent_requests evs)) \<le> max 0 (limit div d) + 1) \<and> (max 0 (limit div d) < int (length attempts) \<longrightarrow> res \<noteq> None)"
proof -
  define M where "M = (if bo_MaxElapsedTime cfg > 0 then Some (now + bo_MaxElapsedTime cfg) else None)"
  let ?n = "length (sent_requests evs)"
  have ok: "run_ok M D onError attempts 0 req evs res"
    using run unfolding retry_Send_def M_def by (rule Send_loop_run)
  have early: "int (Suc i) \<le> max 0 (limit div d)" if i: "i < ?n" "Suc i < ?n \<or> res = None" for i
  proof -
    obtain err where "retried M D (attempts ! i) err" and len: "i < length attempts" using ok i by (auto simp: run_ok_def Let_def)
    then obtain interval where b: "at_backoff (attempts ! i) = Some interval"
      and t: "in_time M (at_now (attempts ! i) + retry_delay err interval)" "in_time D (at_now (attempts ! i) + retry_delay err interval)"
      by (auto simp: retried_def)
    have a: "attempts ! i \<in> set attempts" using len by simp
    have "now + int i * d \<le> at_now (attempts ! i)" by (rule attempts_apart [OF apart _ len]) (use since in blast)
    moreover have "d \<le> retry_delay err interval" using since a b retry_delay_ge [of interval err] by fastforce
    moreover have "at_now (attempts ! i) + retry_delay err interval \<le> now + limit"
      using t limit unfolding M_def in_time_def by (auto split: if_splits)
    ultimately have "int (Suc i) * d \<le> limit" by (simp add: algebra_simps)
    from zdiv_mono1 [OF this d] d have "int (Suc i) \<le> limit div d" by simp
    then show ?thesis by simp
  qed
  have "int ?n \<le> max 0 (limit div d) + 1"
  proof (cases "2 \<le> ?n")
    case True
    then have "?n - 2 < ?n" "Suc (?n - 2) < ?n" by simp_all
    with early [of "?n - 2"] True show ?thesis by simp
  qed simp
  moreover have "res \<noteq> None" if "max 0 (limit div d) < int (length attempts)"
  proof
    assume none: "res = None"
    then have "?n = length attempts" using ok by (simp add: run_ok_def Let_def)
    with that early [of "?n - 1"] none show False by (cases ?n) auto
  qed
  ultimately show ?thesis by blast
qed

section \<open>A run\<close>

text \<open>
  Three items; the destination is busy, then takes two of them, then refuses the last until the time is up.
\<close>

definition demo_cfg :: BackOffConfig where
  "demo_cfg = \<lparr>bo_Enabled = True, bo_InitialInterval = 5, bo_RandomizationFactor = 1 / 2, bo_Multiplier = 3 / 2,
     bo_MaxInterval = 60, bo_MaxElapsedTime = 100\<rparr>"

definition demo_attempts :: "(nat, nat) attempt list" where
  "demo_attempts =
     [\<lparr>at_send = (\<lambda>deadline req. Some (ThrottleRetry (Plain ''busy'') 20)), at_backoff = Some 5, at_now = 10, at_wake = Elapsed\<rparr>,
      \<lparr>at_send = (\<lambda>deadline req. Some (NewLogs (Some (Plain ''partial'')) 1)), at_backoff = Some 10, at_now = 40, at_wake = Elapsed\<rparr>,
      \<lparr>at_send = (\<lambda>deadline req. Some (Plain ''refused'')), at_backoff = Some 60, at_now = 55, at_wake = Elapsed\<rparr>]"

definition demo_evs :: "nat retry_event list" where
  "demo_evs = [SendingRequest 0 3, WillRetry 20, SendingRequest 1 3, WillRetry 10, SendingRequest 2 1]"

definition demo_result :: "nat goerror" where
  "demo_result = Wrapped ''no more retries left'' (Plain ''refused'')"

lemma demo_retry: "retry_Send demo_cfg 0 None (logs_OnError id) demo_attempts 3 = (demo_evs, Some (Some demo_result))"
  by code_simp

theorem retry_Send_results_witness:
  "sent_requests demo_evs = map (\<lambda>i. (int i, request_at None (logs_OnError id) demo_attempts 3 i)) [0..<3] \<and>
   result_at None (logs_OnError id) demo_attempts 3 2 = Some (Plain ''refused'') \<and> \<not> IsPermanent demo_result"
proof -
  have n: "3 = length (sent_requests demo_evs)" by code_simp
  have "request_at None (logs_OnError id) demo_attempts 3 2 = 1" by code_simp
  then have "result_at None (logs_OnError id) demo_attempts 3 2 = Some (Plain ''refused'')"
    by (simp add: result_at_def demo_attempts_def)
  moreover have "\<not> IsPermanent demo_result" by code_simp
  ultimately show ?thesis using retry_Send_results [OF demo_retry refl n] by simp
qed

definition slow_attempts :: "(nat, nat) attempt list" where
  "slow_attempts = map (\<lambda>t. \<lparr>at_send = (\<lambda>deadline req. Some (Plain ''refused'')), at_backoff = Some 40, at_now = t, at_wake = Elapsed\<rparr>)
     [40, 80, 120]"

theorem retry_Send_returns_witness:
  "snd (retry_Send demo_cfg 0 None (logs_OnError id) slow_attempts 3) \<noteq> None \<and>
   length (sent_requests (fst (retry_Send demo_cfg 0 None (logs_OnError id) slow_attempts 3))) \<le> 3"
proof -
  obtain evs res where run: "retry_Send demo_cfg 0 None (logs_OnError id) slow_attempts 3 = (evs, res)" by fastforce
  have "\<forall>i. Suc i < length slow_attempts \<longrightarrow> at_now (slow_attempts ! i) + 40 \<le> at_now (slow_attempts ! Suc i)"
    by (auto simp: slow_attempts_def less_Suc_eq numeral_eq_Suc)
  moreover have "\<forall>a \<in> set slow_attempts. 0 \<le> at_now a \<and> (case at_backoff a of Some interval \<Rightarrow> 40 \<le> interval | None \<Rightarrow> True)"
    by (simp add: slow_attempts_def)
  moreover have "length slow_attempts = 3" by (simp add: slow_attempts_def)
  moreover have "bo_MaxElapsedTime demo_cfg = 100" by (simp add: demo_cfg_def)
  ultimately show ?thesis
    using retry_Send_returns [OF run, of 40 100] by (simp add: run)
qed

text \<open>The two items delivered by the second attempt are counted as failed.\<close>

lemma partial_success_counted_failed:
  "obs_Send id (\<lambda>req. the (snd (retry_Send demo_cfg 0 None (logs_OnError id) demo_attempts req))) 3
     \<lparr>ct_in_flight = 0, ct_sent = 0, ct_failed = 0, ct_permanent = 0\<rparr> =
   (Some demo_result, \<lparr>ct_in_flight = 0, ct_sent = 0, ct_failed = 3, ct_permanent = 0\<rparr>)"
  by code_simp

section \<open>The base exporter\<close>

text \<open>
  What the options set. A queue configuration is kept by what the options look at: whether a batch
  is configured, the metadata keys of its partitions and the storage.
\<close>

record queue_config =
  qc_batch :: "string list option"
  qc_storage :: "string option"

record queuebatch_settings =
  qs_encoding :: bool
  qs_partitioner :: "string list option option"
  qs_mergeCtx :: "string list option option"

record exporter_options =
  ex_timeout :: int
  ex_retry :: BackOffConfig
  ex_message :: "string list"
  ex_queueSettings :: queuebatch_settings
  ex_queue :: "queue_config option"
  ex_mutates :: bool

datatype option_error = NotForRequestExporters | EncodingMissing | PartitionerConfigured | MergeConfigured

type_synonym exporter_option = "exporter_options \<Rightarrow> option_error + exporter_options"

definition WithTimeout :: "int \<Rightarrow> exporter_option" where
  "WithTimeout timeout ops = Inr (ops\<lparr>ex_timeout := timeout\<rparr>)"

definition WithRetry :: "BackOffConfig \<Rightarrow> exporter_option" where
  "WithRetry config ops =
     (if \<not> bo_Enabled config then Inr (ops\<lparr>ex_message := ex_message ops @ [''Try enabling retry_on_failure'']\<rparr>)
      else Inr (ops\<lparr>ex_retry := config\<rparr>))"

definition WithQueueBatch :: "queue_config option \<Rightarrow> queuebatch_settings \<Rightarrow> exporter_option" where
  "WithQueueBatch cfg settings ops =
     (case cfg of
        None \<Rightarrow> Inr (ops\<lparr>ex_message := ex_message ops @ [''Try enabling sending_queue'']\<rparr>)
      | Some qc \<Rightarrow>
          if qc_storage qc \<noteq> None \<and> \<not> qs_encoding settings then Inl EncodingMissing
          else
            (case qc_batch qc of
               Some (key # keys) \<Rightarrow>
                 if qs_partitioner settings \<noteq> None then Inl PartitionerConfigured
                 else if qs_mergeCtx settings \<noteq> None then Inl MergeConfigured
                 else Inr (ops\<lparr>ex_queueSettings := settings\<lparr>qs_partitioner := Some (Some (key # keys)), qs_mergeCtx := Some (Some (key # keys))\<rparr>,
                             ex_queue := cfg\<rparr>)
             | _ \<Rightarrow> Inr (ops\<lparr>ex_queueSettings := settings, ex_queue := cfg\<rparr>)))"

definition WithQueue :: "queue_config option \<Rightarrow> exporter_option" where
  "WithQueue cfg ops =
     (if \<not> qs_encoding (ex_queueSettings ops) then Inl NotForRequestExporters
      else WithQueueBatch cfg (ex_queueSettings ops) ops)"

definition WithCapabilities :: "bool \<Rightarrow> exporter_option" where
  "WithCapabilities mutatesData ops = Inr (ops\<lparr>ex_mutates := mutatesData\<rparr>)"

definition WithQueueBatchSettings :: "queuebatch_settings \<Rightarrow> exporter_option" where
  "WithQueueBatchSettings settings ops = Inr (ops\<lparr>ex_queueSettings := settings\<rparr>)"

fun apply_options :: "exporter_option list \<Rightarrow> exporter_option" where
  "apply_options [] be = Inr be"
| "apply_options (opt # opts) be = (case opt be of Inl err \<Rightarrow> Inl err | Inr be' \<Rightarrow> apply_options opts be')"

datatype sender = PusherSender | TimeoutSender int | RetrySender BackOffConfig | ObsReportSender | QueueSender queue_config

record base_exporter =
  bx_senders :: "sender list"
  bx_mutates :: bool

definition default_options :: exporter_options where
  "default_options = \<lparr>ex_timeout = 5000000000,
     ex_retry = \<lparr>bo_Enabled = False, bo_InitialInterval = 0, bo_RandomizationFactor = 0, bo_Multiplier = 0, bo_MaxInterval = 0, bo_MaxElapsedTime = 0\<rparr>,
     ex_message = [], ex_queueSettings = \<lparr>qs_encoding = False, qs_partitioner = None, qs_mergeCtx = None\<rparr>, ex_queue = None, ex_mutates = False\<rparr>"

text \<open>The senders from the first that gets a request to the exporter itself.\<close>

definition NewBaseExporter :: "exporter_option list \<Rightarrow> option_error + base_exporter" where
  "NewBaseExporter options =
     (case apply_options options default_options of
        Inl err \<Rightarrow> Inl err
      | Inr be \<Rightarrow>
          (let s1 = [PusherSender];
               s2 = (if ex_timeout be \<noteq> 0 then TimeoutSender (ex_timeout be) # s1 else s1);
               s3 = (if bo_Enabled (ex_retry be) then RetrySender (ex_retry be) # s2 else s2);
               s4 = ObsReportSender # s3;
               mutates = (case ex_queue be of Some qc \<Rightarrow> if qc_batch qc \<noteq> None then True else ex_mutates be | None \<Rightarrow> ex_mutates be);
               s5 = (case ex_queue be of Some qc \<Rightarrow> QueueSender qc # s4 | None \<Rightarrow> s4)
           in Inr \<lparr>bx_senders = s5, bx_mutates = mutates\<rparr>))"

datatype exporter_call = ShutdownRetry | ShutdownQueue | ShutdownExporter | StartExporter | StartQueue

text \<open>The calls of \<open>Start\<close> and \<open>Shutdown\<close>, in order; the queue is not started when the exporter fails to.\<close>

definition base_Start :: "bool \<Rightarrow> base_exporter \<Rightarrow> exporter_call list" where
  "base_Start exporterStarts be =
     (if \<not> exporterStarts then [StartExporter]
      else StartExporter # (if list_ex (\<lambda>s. case s of QueueSender q \<Rightarrow> True | _ \<Rightarrow> False) (bx_senders be) then [StartQueue] else []))"

definition base_Shutdown :: "base_exporter \<Rightarrow> exporter_call list" where
  "base_Shutdown be =
     (if list_ex (\<lambda>s. case s of RetrySender c \<Rightarrow> True | _ \<Rightarrow> False) (bx_senders be) then [ShutdownRetry] else []) @
     (if list_ex (\<lambda>s. case s of QueueSender q \<Rightarrow> True | _ \<Rightarrow> False) (bx_senders be) then [ShutdownQueue] else []) @ [ShutdownExporter]"

text \<open>A request passes the queue, the report, the retry and the timeout sender in this order.\<close>

fun sender_rank :: "sender \<Rightarrow> nat" where
  "sender_rank (QueueSender q) = 0"
| "sender_rank ObsReportSender = 1"
| "sender_rank (RetrySender c) = 2"
| "sender_rank (TimeoutSender t) = 3"
| "sender_rank PusherSender = 4"

lemma NewBaseExporter_order:
  assumes "NewBaseExporter options = Inr be"
  shows "sorted_wrt (<) (map sender_rank (bx_senders be))" and "ObsReportSender \<in> set (bx_senders be)" and "last (bx_senders be) = PusherSender"
    and "TimeoutSender t \<in> set (bx_senders be) \<Longrightarrow> t \<noteq> 0" and "RetrySender c \<in> set (bx_senders be) \<Longrightarrow> bo_Enabled c"
  using assms by (auto simp: NewBaseExporter_def Let_def split: sum.splits option.splits if_splits)

end
