(* ===== verification/Spec2Isabelle.thy ===== *)
theory Spec2Isabelle
  imports TracesBatch MetricsLimit MultiShard Cond MemoryQueue PersistentSystem BatchProto QueuedRequests BatcherDemo Fanout ServiceSystem Senders
begin

text \<open>
  A verification library for the OpenTelemetry Collector in src/opentelemetry-collector of this
  repository. Paths below are relative to that directory. The Go code under verification is the way a
  batch of telemetry takes through a collector: it is received and decoded, passed along pipelines to
  exporters, queued in memory or on disk, merged and split into export requests, encoded and sent with
  retries, and its outcome reported back; and the service that builds, starts, watches and stops the
  components on that way.

  Conventions. Every definition keeps the name of its Go function where HOL allows. \<open>int\<close> and
  \<open>int64\<close> values are HOL integers with the wrap-around of \<open>add64\<close> and \<open>sub64\<close> written out where it
  can happen (Prelude), unsigned integers, 32-bit integers and bytes are words, \<open>float64\<close> values their
  64 bits. Structs are records, interfaces with known implementations datatypes, pointers that may
  be nil options. A panic, a returned error and fuel that runs out are values (\<open>IndexPanic\<close>, \<open>Inl\<close>,
  \<open>None\<close>). Critical sections of a mutex are functions on the record of the guarded fields, and
  goroutines interleave between them in inductive step relations, over which the invariants are
  proved by rule induction. Code outside the repository is an argument of the definitions that use
  it, and what is relied on is the assumption of a locale or of a theorem.

  Wire format and messages (pdata/internal).
  \<^item> Wire: proto/size.go, proto/marshal.go, proto/unmarshal.go, the varints, tags and
    position-passing readers. Writing backwards and reading are inverse; skipping unknown fields is
    total, stays within the buffer and always moves forward (but not to the end of an unknown group,
    as the lemma \<open>group_not_skipped\<close> shows of the code). The recursion over nested groups has the length of the buffer
    as fuel, which is shown to be enough.
  \<^item> ProtoCodec: the statements the generated \<open>MarshalProto\<close> and \<open>UnmarshalProto\<close> functions consist
    of, and the locale \<open>proto_message\<close>: the announced size is the size written, decoding what was
    encoded gives the message back, and decoding any bytes returns without a panic. ProtoValues adds
    the mutually recursive values (the nesting is bounded by the length of the buffer) and the
    identifiers, ProtoPacked the packed, zigzag and optional fields. Each generated message is a group
    of a record, \<open>_SizeProto\<close>, \<open>_MarshalProto\<close>, \<open>_field\<close> (the switch) and \<open>_UnmarshalProto\<close>, with an
    interpretation of \<open>proto_message\<close>: ProtoCommon, ProtoLogs, ProtoTraces, ProtoPoints, ProtoMetrics.
  \<^item> Codecs: the functions of pdata/plog, pdata/ptrace and pdata/pmetric on whole batches. They give
    back what was encoded, except for the negative zeros of some metric fields, which come back as
    zeros: NegativeZero says which (\<open>plain_metrics\<close>).
  \<^item> ProtoProfiles, ProtoRequests: the messages of profiles and of the context stored with a queued
    request (pdata/internal, generated\_proto\_requestcontext.go and its neighbours). QueuedRequests
    (pdata/xpdata/request): what a persistent queue stores for a request, the check that tells it from
    the payloads of older versions, and the client address and metadata that come back with it.
    ClientContext has the context of a request and client.Info (client/client.go).

  Export requests (exporter/exporterhelper/internal).
  \<^item> Sizers (request/sizer.go), BatchSplit (queuebatch/logs\_batch.go, sizer/), TracesBatch,
    MetricsBatch and MetricsLimit: merging requests and splitting them under a limit of items or
    bytes. The logs code is verified directly, the traces code refines it (a functional refinement),
    and the metrics code, which has one more level, has its own proof; its bound in bytes is relative,
    because the code can exceed the limit. BatchProto joins the sizes with the codec. The payloads
    have no deprecated scopes.
  \<^item> Cond (queue/cond.go): the condition variable with cancellation as a step relation of goroutines
    over program points.
  \<^item> LinkedQueue, MemoryQueue (queue/memory\_queue.go, queue/async\_queue.go): the locale
    \<open>fifo_queue\<close>, interpreted on the list of pointers, and the queue as a step relation; accounting,
    delivery of results and reference counting are invariants. The capacity is at most half of the
    largest \<open>int64\<close>, so sizes do not wrap.
  \<^item> Storage, PersistentQueue, DurableQueue, PersistentSystem (queue/persistent\_queue.go): the queue
    on a storage client, for every client that obeys \<open>storage_client\<close>; it refines an abstract durable
    queue across crashes and restarts, which may use other settings. A start can be interrupted
    between its storage accesses, and may then lose dispatched requests, as the code does; nothing
    else is lost. The definitions have the error paths of the storage, the properties are about a
    client that does not fail. Fewer than two to the 63 writes are made.
  \<^item> PartitionBatcher, BatcherCallbacks, BatcherSystem, BatcherDelivery, LogsBatcher, BatchConfig,
    BatcherDemo (queuebatch/partition\_batcher.go and its neighbours): the batcher as a step relation
    with its worker goroutines, for one partition, whose workers the other partitions of a multi
    batcher may hold; each callback fires once, Shutdown waits for all work, and running work comes
    to rest while a worker is left (an eviction can take the last one: \<open>eviction_deadlock\<close>). With the
    items sizer a callback without an error means that the data was exported. The map of partitions
    and its lock (queuebatch/multi\_batcher.go) are not modelled. The locale \<open>merge_split\<close> is what
    it relies on from the requests, interpreted on the logs requests of BatchSplit.
  \<^item> Senders, ConsumerErrors (retry\_sender.go, timeout\_sender.go, obs\_report\_sender.go,
    base\_exporter.go; consumer/consumererror, receiver/otlpreceiver): retries end, permanent errors are
    not retried, a partial failure is retried with its remainder, and the kind of an error survives
    the conversion to a gRPC or HTTP status and back.

  The service.
  \<^item> Fanout (internal/fanoutconsumer, pdata/internal/state.go): data shared between pipelines is
    read-only or cloned, so a component that mutates data owns it.
  \<^item> Status (component/componentstatus, service/internal/status): the state machine and reporter.
  \<^item> ServiceGraph, GraphStages, GraphEdges, GraphCycles, ServiceLifecycle, ServiceSystem
    (service/internal/graph): the graph built from the configuration has the edges of the
    configuration, is rejected exactly when pipelines feed each other in a cycle, and components are
    started before those that send to them and stopped after them. The topological sort is a
    parameter (\<open>topo_law\<close>), and the 64-bit node identifiers are taken to be injective.

  The batch processor (processor/batchprocessor).
  \<^item> ProcessorSplit (splitlogs.go, splittraces.go, splitmetrics.go): splitting off a prefix of a
    batch, for the three signals.
  \<^item> BatchProcessor (batch\_processor.go, config.go): the goroutine of a shard with its timer, channel
    and shutdown as a step relation, over the locale of a signal's batch; conservation, sizes, and the
    end of the goroutine after a shutdown. An item that arrives while the last request is on its way
    stays in the channel.
  \<^item> MultiShard: one shard per combination of client metadata, created by concurrent consumers.

  Not modelled. Time is abstract: clocks, timers and backoff intervals are arguments. The feature
  gates that pool messages do not change results and are left out, as are logging, metrics and
  tracing of the collector itself. Left out because they are input and output, configuration
  plumbing or code generation without logic of their own: the gRPC and HTTP transports and their
  config packages, confmap and the loading of configuration, otelcol's command line, the builder and
  the metadata generators in cmd/ and internal/cmd/, the generated accessors of pdata, the extensions
  other than the storage interface, the memory limiter and its processor, the debug and
  nop components, profiles outside the codec, and the Python and JavaScript parts of the repository.
\<close>

end
